(* ===== verification/Prelude.thy ===== *)
theory Prelude
  imports Main
    "HOL-Library.Word"
    "HOL-Library.List_Lexorder"
    "HOL-Library.Char_ord"
    "HOL-Library.Product_Lexorder"
    "HOL-Library.Multiset"
begin

section \<open>Prelude: Go strings, integers and the lemmas the components share\<close>

text \<open>
  What every component of the development uses of the Go language and of its package
  \<open>strings\<close>: strings are byte lists (\<open>char\<close> is a byte), ordered bytewise by
  \<open>List_Lexorder\<close> over \<open>Char_ord\<close> as Go's operator \<open><\<close> on strings;
  \<open>sort.Strings\<close> is \<open>sort\<close> and \<open>sort.Slice\<close> with a key comparison is
  \<open>sort_key\<close>; \<open>uint64\<close> and \<open>uint32\<close> are words, whose arithmetic wraps
  around; a nil or non-nil \<open>error\<close> is an \<open>option\<close> of the package's error
  type, and a pair of a value and an error is a sum. The collection
  \<open>go_simps\<close> holds the rewriting rules that carry the component proofs.
\<close>

named_theorems go_simps \<open>rewriting rules of the Go runtime model\<close>

type_synonym uint64 = "64 word"
type_synonym uint32 = "32 word"
type_synonym 'e err = "'e option"

text \<open>The largest \<open>uint64\<close>, written \<open>^uint64(0)\<close> in the source, and \<open>math.MaxInt64\<close>.\<close>

abbreviation MaxUint64 :: uint64 where "MaxUint64 \<equiv> - 1"

definition MaxInt64 :: uint64 where
  "MaxInt64 = 9223372036854775807"

text \<open>A check that returns the error or goes on, and the bind of a fallible call.\<close>

definition check_then :: "bool \<Rightarrow> 'e \<Rightarrow> 'e err \<Rightarrow> 'e err" where
  "check_then bad e rest = (if bad then Some e else rest)"

fun or_else :: "'e err \<Rightarrow> 'e err \<Rightarrow> 'e err" where
  "or_else (Some e) rest = Some e"
| "or_else None rest = rest"

definition bind_result :: "'e + 'a \<Rightarrow> ('a \<Rightarrow> 'e + 'b) \<Rightarrow> 'e + 'b" where
  "bind_result r f = (case r of Inl e \<Rightarrow> Inl e | Inr x \<Rightarrow> f x)"

lemma check_then_None [simp]: "check_then bad e rest = None \<longleftrightarrow> \<not> bad \<and> rest = None"
  by (simp add: check_then_def)

lemma check_then_eq_Some [simp]:
  "check_then bad e rest = Some x \<longleftrightarrow> (if bad then x = e else rest = Some x)"
  by (auto simp: check_then_def)

lemma or_else_None [simp]: "or_else a b = None \<longleftrightarrow> a = None \<and> b = None"
  by (cases a) auto

lemma bind_result_Inr [simp]: "bind_result r f = Inr y \<longleftrightarrow> (\<exists>x. r = Inr x \<and> f x = Inr y)"
  by (cases r) (auto simp: bind_result_def)

text \<open>A loop that returns the first error of its body: \<open>for \_, x := range xs\<close>.\<close>

fun for_each_err :: "('a \<Rightarrow> 'e err) \<Rightarrow> 'a list \<Rightarrow> 'e err" where
  "for_each_err f [] = None"
| "for_each_err f (x # xs) = (case f x of Some e \<Rightarrow> Some e | None \<Rightarrow> for_each_err f xs)"

lemma for_each_err_None [simp]: "for_each_err f xs = None \<longleftrightarrow> (\<forall>x \<in> set xs. f x = None)"
  by (induction xs) (auto split: option.splits)

lemma for_each_err_Some:
  "for_each_err f xs = Some e \<Longrightarrow> \<exists>x \<in> set xs. f x = Some e"
  by (induction xs) (auto split: option.splits)

text \<open>
  The recurring duplicate check: a map \<open>seen\<close> grows with the keys of the elements met,
  and the loop returns \<open>e\<close> at the first key met twice or the first bad element.
\<close>

fun seen_loop :: "('a \<Rightarrow> bool) \<Rightarrow> ('a \<Rightarrow> 'k) \<Rightarrow> 'e \<Rightarrow> 'k list \<Rightarrow> 'a list \<Rightarrow> 'e err" where
  "seen_loop bad key e seen [] = None"
| "seen_loop bad key e seen (x # xs) =
     (if bad x \<or> key x \<in> set seen then Some e else seen_loop bad key e (key x # seen) xs)"

lemma length_filter_mono: "(\<And>x. P x \<Longrightarrow> Q x) \<Longrightarrow> length (filter P xs) \<le> length (filter Q xs)"
  by (induction xs) auto

lemma seen_loop_cases: "seen_loop bad key e seen xs \<in> {None, Some e}"
  by (induction xs arbitrary: seen) auto

lemma seen_loop_None [simp]:
  "seen_loop bad key e seen xs = None \<longleftrightarrow>
     (\<forall>x \<in> set xs. \<not> bad x) \<and> distinct (map key xs) \<and> set (map key xs) \<inter> set seen = {}"
proof (induction xs arbitrary: seen)
  case (Cons x xs)
  show ?case by (simp add: Cons.IH) blast
qed simp

subsection \<open>Words\<close>

lemma word_plus_one_nonzero: "(w :: 'a::len word) \<noteq> - 1 \<Longrightarrow> w + 1 \<noteq> 0"
  by (simp add: eq_neg_iff_add_eq_0)

lemma word_plus_one_gt: "(w :: 'a::len word) \<noteq> - 1 \<Longrightarrow> w < w + 1"
  using inc_less_eq_triv_imp [of w] by (metis linorder_not_less)

subsection \<open>Runes: decoding UTF-8\<close>

text \<open>
  \<open>rune_width s\<close> is the number of bytes of the first rune of a non-empty string, as
  \<open>utf8.DecodeRuneInString\<close> computes it: an invalid byte is one rune of width 1.
\<close>

definition byte :: "char \<Rightarrow> nat" where "byte c = of_char c"

definition in_bytes :: "nat \<Rightarrow> nat \<Rightarrow> string \<Rightarrow> nat \<Rightarrow> bool" where
  "in_bytes lo hi s i \<longleftrightarrow> i < length s \<and> lo \<le> byte (s ! i) \<and> byte (s ! i) \<le> hi"

definition valid_rune_width :: "string \<Rightarrow> nat option" where
  "valid_rune_width s =
     (if in_bytes 0 127 s 0 then Some 1
      else if in_bytes 194 223 s 0 \<and> in_bytes 128 191 s 1 then Some 2
      else if ((in_bytes 224 224 s 0 \<and> in_bytes 160 191 s 1) \<or>
               (in_bytes 225 236 s 0 \<and> in_bytes 128 191 s 1) \<or>
               (in_bytes 237 237 s 0 \<and> in_bytes 128 159 s 1) \<or>
               (in_bytes 238 239 s 0 \<and> in_bytes 128 191 s 1)) \<and>
              in_bytes 128 191 s 2 then Some 3
      else if ((in_bytes 240 240 s 0 \<and> in_bytes 144 191 s 1) \<or>
               (in_bytes 241 243 s 0 \<and> in_bytes 128 191 s 1) \<or>
               (in_bytes 244 244 s 0 \<and> in_bytes 128 143 s 1)) \<and>
              in_bytes 128 191 s 2 \<and> in_bytes 128 191 s 3 then Some 4
      else None)"

definition rune_width :: "string \<Rightarrow> nat" where
  "rune_width s = (case valid_rune_width s of None \<Rightarrow> 1 | Some n \<Rightarrow> n)"

lemma rune_width_pos [simp]: "0 < rune_width s"
  by (simp add: rune_width_def valid_rune_width_def)

text \<open>The runes of a string as the byte chunks \<open>range\<close> visits, and \<open>len([]rune(s))\<close>.\<close>

function rune_chunks :: "string \<Rightarrow> string list" where
  "rune_chunks s = (if s = [] then [] else take (rune_width s) s # rune_chunks (drop (rune_width s) s))"
  by pat_completeness auto
termination
  by (relation "measure length") auto

declare rune_chunks.simps [simp del]

definition rune_count :: "string \<Rightarrow> nat" where
  "rune_count s = length (rune_chunks s)"

definition utf8_valid :: "string \<Rightarrow> bool" where
  "utf8_valid s \<longleftrightarrow> (\<forall>c \<in> set (rune_chunks s). valid_rune_width c = Some (length c))"

lemma rune_chunks_Nil [simp]: "rune_chunks [] = []"
  by (simp add: rune_chunks.simps)

lemma rune_count_le: "rune_count s \<le> length s"
proof (induction s rule: rune_chunks.induct)
  case (1 s)
  show ?case
  proof (cases "s = []")
    case False
    with 1 have "length (rune_chunks (drop (rune_width s) s)) \<le> length s - rune_width s"
      by (simp add: rune_count_def)
    moreover have "length s - rune_width s < length s"
      using False rune_width_pos [of s] by (metis diff_less length_greater_0_conv)
    ultimately have "Suc (length (rune_chunks (drop (rune_width s) s))) \<le> length s" by linarith
    with False show ?thesis
      by (simp add: rune_count_def rune_chunks.simps [of s])
  qed (simp add: rune_count_def)
qed

subsection \<open>strings.TrimSpace\<close>

text \<open>The UTF-8 encodings of the runes \<open>unicode.IsSpace\<close> accepts.\<close>

definition space_runes :: "string list" where
  "space_runes =
     [[CHR 0x09], [CHR 0x0A], [CHR 0x0B], [CHR 0x0C], [CHR 0x0D], [CHR 0x20],
      [CHR 0xC2, CHR 0x85], [CHR 0xC2, CHR 0xA0], [CHR 0xE1, CHR 0x9A, CHR 0x80],
      [CHR 0xE2, CHR 0x80, CHR 0x80], [CHR 0xE2, CHR 0x80, CHR 0x81], [CHR 0xE2, CHR 0x80, CHR 0x82],
      [CHR 0xE2, CHR 0x80, CHR 0x83], [CHR 0xE2, CHR 0x80, CHR 0x84], [CHR 0xE2, CHR 0x80, CHR 0x85],
      [CHR 0xE2, CHR 0x80, CHR 0x86], [CHR 0xE2, CHR 0x80, CHR 0x87], [CHR 0xE2, CHR 0x80, CHR 0x88],
      [CHR 0xE2, CHR 0x80, CHR 0x89], [CHR 0xE2, CHR 0x80, CHR 0x8A], [CHR 0xE2, CHR 0x80, CHR 0xA8],
      [CHR 0xE2, CHR 0x80, CHR 0xA9], [CHR 0xE2, CHR 0x80, CHR 0xAF], [CHR 0xE2, CHR 0x81, CHR 0x9F],
      [CHR 0xE3, CHR 0x80, CHR 0x80]]"

definition starts_with :: "string \<Rightarrow> string \<Rightarrow> bool" where
  "starts_with p s \<longleftrightarrow> p \<noteq> [] \<and> take (length p) s = p"

function trim_prefixes :: "string list \<Rightarrow> string \<Rightarrow> string" where
  "trim_prefixes ps s =
     (case find (\<lambda>p. starts_with p s) ps of
        None \<Rightarrow> s
      | Some p \<Rightarrow> trim_prefixes ps (drop (length p) s))"
  by pat_completeness auto
termination
proof (relation "measure (\<lambda>(ps, s). length s)", goal_cases)
  case (2 ps s p)
  then have "starts_with p s" by (simp add: find_Some_iff) blast
  then have "p \<noteq> []" "length p \<le> length s"
    by (auto simp: starts_with_def) (metis length_take min.cobounded1)
  then show ?case by (cases s) auto
qed simp

declare trim_prefixes.simps [simp del]

definition TrimSpace :: "string \<Rightarrow> string" where
  "TrimSpace s = rev (trim_prefixes (map rev space_runes) (rev (trim_prefixes space_runes s)))"

lemma starts_with_Nil [simp]: "\<not> starts_with p []"
  by (auto simp: starts_with_def)

lemma trim_prefixes_Nil [simp]: "trim_prefixes ps [] = []"
  by (subst trim_prefixes.simps) (simp add: find_None_iff [THEN iffD2])

lemma TrimSpace_Nil [simp]: "TrimSpace [] = []"
  by (simp add: TrimSpace_def)

lemma trim_prefixes_suffix: "\<exists>u. s = u @ trim_prefixes ps s"
proof (induction ps s rule: trim_prefixes.induct)
  case (1 ps s)
  show ?case
  proof (cases "find (\<lambda>p. starts_with p s) ps")
    case None
    then show ?thesis by (simp add: trim_prefixes.simps [of ps s])
  next
    case (Some p)
    with 1 obtain u where "drop (length p) s = u @ trim_prefixes ps (drop (length p) s)"
      by blast
    then have "s = (take (length p) s @ u) @ trim_prefixes ps (drop (length p) s)"
      by (metis append.assoc append_take_drop_id)
    then have "\<exists>u. s = u @ trim_prefixes ps (drop (length p) s)" by blast
    with Some show ?thesis by (simp add: trim_prefixes.simps [of ps s])
  qed
qed

lemma trim_prefixes_stable: "p \<in> set ps \<Longrightarrow> \<not> starts_with p (trim_prefixes ps s)"
proof (induction ps s rule: trim_prefixes.induct)
  case (1 ps s)
  show ?case
  proof (cases "find (\<lambda>p. starts_with p s) ps")
    case None
    then have "\<not> starts_with p s" using "1.prems" by (auto simp: find_None_iff)
    with None show ?thesis by (simp add: trim_prefixes.simps [of ps s])
  next
    case (Some q)
    with 1 show ?thesis by (simp add: trim_prefixes.simps [of ps s])
  qed
qed

lemma trim_prefixes_fixed: "\<forall>p \<in> set ps. \<not> starts_with p s \<Longrightarrow> trim_prefixes ps s = s"
  by (subst trim_prefixes.simps) (simp add: find_None_iff [THEN iffD2])

lemma starts_with_append: "starts_with p s \<Longrightarrow> starts_with p (s @ t)"
  by (auto simp: starts_with_def) (metis append_Nil2 length_take min.absorb4 min_def nat_le_linear
      take_all take_append)

lemma TrimSpace_idem [simp]: "TrimSpace (TrimSpace s) = TrimSpace s"
proof -
  let ?l = "trim_prefixes space_runes s"
  let ?r = "trim_prefixes (map rev space_runes) (rev ?l)"
  obtain u where u: "rev ?l = u @ ?r"
    using trim_prefixes_suffix by blast
  then have "?l = rev ?r @ rev u" by (metis rev_append rev_rev_ident)
  then have "\<forall>p \<in> set space_runes. \<not> starts_with p (rev ?r)"
    using trim_prefixes_stable [of _ space_runes s] starts_with_append by metis
  then have "trim_prefixes space_runes (rev ?r) = rev ?r"
    by (rule trim_prefixes_fixed)
  moreover have "trim_prefixes (map rev space_runes) ?r = ?r"
    by (rule trim_prefixes_fixed) (use trim_prefixes_stable in blast)
  ultimately show ?thesis by (simp add: TrimSpace_def)
qed

lemma length_TrimSpace: "length (TrimSpace s) \<le> length s"
proof -
  obtain u where u: "s = u @ trim_prefixes space_runes s" using trim_prefixes_suffix by blast
  let ?l = "trim_prefixes space_runes s"
  obtain v where v: "rev ?l = v @ trim_prefixes (map rev space_runes) (rev ?l)"
    using trim_prefixes_suffix by blast
  have "length (TrimSpace s) \<le> length ?l"
    using arg_cong [OF v, of length] by (simp add: TrimSpace_def)
  also have "\<dots> \<le> length s" using arg_cong [OF u, of length] by simp
  finally show ?thesis .
qed

lemma trim_prefixes_keeps:
  "c \<in> set s \<Longrightarrow> \<forall>p \<in> set ps. c \<notin> set p \<Longrightarrow> c \<in> set (trim_prefixes ps s)"
proof (induction ps s rule: trim_prefixes.induct)
  case (1 ps s)
  show ?case
  proof (cases "find (\<lambda>p. starts_with p s) ps")
    case None
    with "1.prems" show ?thesis by (simp add: trim_prefixes.simps [of ps s])
  next
    case (Some p)
    then have p: "p \<in> set ps" "take (length p) s = p"
      by (auto simp: find_Some_iff starts_with_def)
    have "s = p @ drop (length p) s" using p(2) by (metis append_take_drop_id)
    then have "c \<in> set p \<or> c \<in> set (drop (length p) s)" using "1.prems"(1) by (metis Un_iff set_append)
    then have "c \<in> set (drop (length p) s)" using "1.prems"(2) p(1) by blast
    from "1.IH" [OF Some this "1.prems"(2)] Some show ?thesis
      by (simp add: trim_prefixes.simps [of ps s])
  qed
qed

lemma TrimSpace_keeps:
  assumes "c \<in> set s" "\<forall>p \<in> set space_runes. c \<notin> set p"
  shows "c \<in> set (TrimSpace s)"
  using trim_prefixes_keeps [OF _ assms(2), of s] assms
    trim_prefixes_keeps [of c "rev (trim_prefixes space_runes s)" "map rev space_runes"]
  by (simp add: TrimSpace_def)

subsection \<open>The two identifier patterns of the source\<close>

definition is_digit :: "char \<Rightarrow> bool" where
  "is_digit c \<longleftrightarrow> 48 \<le> byte c \<and> byte c \<le> 57"
definition is_lower :: "char \<Rightarrow> bool" where
  "is_lower c \<longleftrightarrow> 97 \<le> byte c \<and> byte c \<le> 122"
definition is_upper :: "char \<Rightarrow> bool" where
  "is_upper c \<longleftrightarrow> 65 \<le> byte c \<and> byte c \<le> 90"
definition is_alnum :: "char \<Rightarrow> bool" where
  "is_alnum c \<longleftrightarrow> is_digit c \<or> is_lower c \<or> is_upper c"
definition is_code_char :: "char \<Rightarrow> bool" where
  "is_code_char c \<longleftrightarrow> is_lower c \<or> is_digit c"
definition is_code_sep :: "char \<Rightarrow> bool" where
  "is_code_sep c \<longleftrightarrow> c \<in> set ''._-''"

text \<open>
  The regular expression \<open>^[a-z][a-z0-9]*(?:[._-][a-z0-9]+)*$\<close> as the automaton that
  reads the bytes after the first: \<open>code_tail True\<close> is the accepting state (inside a
  word), \<open>code_tail False\<close> the state right after a separator.
\<close>

fun code_tail :: "bool \<Rightarrow> string \<Rightarrow> bool" where
  "code_tail ok [] = ok"
| "code_tail ok (c # cs) =
     (if is_code_char c then code_tail True cs
      else ok \<and> is_code_sep c \<and> code_tail False cs)"

fun code_pattern :: "string \<Rightarrow> bool" where
  "code_pattern [] = False"
| "code_pattern (c # cs) = (is_lower c \<and> code_tail True cs)"

text \<open>The regular expression \<open>^[A-Za-z0-9][A-Za-z0-9._:-]{0,127}$\<close>.\<close>

fun key_pattern :: "string \<Rightarrow> bool" where
  "key_pattern [] = False"
| "key_pattern (c # cs) =
     (is_alnum c \<and> length cs \<le> 127 \<and> (\<forall>x \<in> set cs. is_alnum x \<or> x \<in> set ''._:-''))"

lemma code_tail_chars: "code_tail ok s \<Longrightarrow> c \<in> set s \<Longrightarrow> is_code_char c \<or> is_code_sep c"
  by (induction ok s rule: code_tail.induct) (auto split: if_splits)

lemma code_pattern_chars: "code_pattern s \<Longrightarrow> c \<in> set s \<Longrightarrow> is_code_char c \<or> is_code_sep c"
  by (cases s) (auto simp: is_code_char_def dest: code_tail_chars)

lemma code_pattern_nonempty: "code_pattern s \<Longrightarrow> s \<noteq> []"
  by auto

lemma code_pattern_no_slash: "code_pattern s \<Longrightarrow> CHR ''/'' \<notin> set s"
  by (auto dest!: code_pattern_chars
      simp: is_code_char_def is_lower_def is_digit_def is_code_sep_def byte_def)

lemma key_pattern_length: "key_pattern s \<Longrightarrow> 1 \<le> length s \<and> length s \<le> 128"
  by (cases s) auto

lemma key_pattern_nonempty: "key_pattern s \<Longrightarrow> s \<noteq> []"
  by auto

lemma key_pattern_append:
  assumes "key_pattern s" "\<forall>c \<in> set t. is_alnum c" "length s + length t \<le> 128"
  shows "key_pattern (s @ t)"
  using assms by (cases s) auto

subsection \<open>Keys joined with a slash\<close>

text \<open>\<open>a + "/" + b\<close> determines \<open>a\<close> and \<open>b\<close> when the first part has no slash.\<close>

lemma slash_join_inject:
  assumes "CHR ''/'' \<notin> set a" "CHR ''/'' \<notin> set a'"
  shows "a @ ''/'' @ b = a' @ ''/'' @ b' \<longleftrightarrow> a = a' \<and> b = b'"
  using assms
proof (induction a arbitrary: a')
  case Nil
  then show ?case by (cases a') auto
next
  case (Cons x a)
  then show ?case by (cases a') auto
qed

subsection \<open>Sorting\<close>

lemma sort_key_perm_unique:
  assumes "mset xs = mset ys" and "inj_on f (set xs)"
  shows "sort_key f xs = sort_key f ys"
  using assms by (metis mset_sort sorted_sort_key sort_key_inj_key_eq)

end
