(* ===== verification/Go_Time.thy ===== *)
theory Go_Time
  imports Prelude
begin

section \<open>Instants and durations\<close>

text \<open>
  \<open>time.Time\<close> as the sources use it: an instant, counted in nanoseconds from the zero
  time (1 January of year 1, 00:00 UTC), so that \<open>IsZero\<close> is equality with 0. Every
  stored instant of the program is in UTC (the sources call \<open>UTC()\<close> before they store
  one), so the calendar functions \<open>Year\<close> and \<open>AddDate\<close> read the UTC calendar,
  \<open>t.UTC()\<close> is \<open>t\<close>, and \<open>Location\<close> is always \<open>UTC\<close>.
  \<open>time.Duration\<close> is a count of nanoseconds.
\<close>

type_synonym time = int
type_synonym duration = int

datatype location = UTC | OtherLocation

definition Location :: "time \<Rightarrow> location" where "Location t = UTC"

definition IsZero :: "time \<Rightarrow> bool" where "IsZero t \<longleftrightarrow> t = 0"

definition Microsecond :: duration where "Microsecond = 1000"
definition Second :: duration where "Second = 1000000000"
definition Minute :: duration where "Minute = 60 * Second"
definition Hour :: duration where "Hour = 60 * Minute"
definition Day :: duration where "Day = 24 * Hour"

lemmas duration_defs [go_simps] = Microsecond_def Second_def Minute_def Hour_def Day_def

definition Nanosecond :: "time \<Rightarrow> int" where "Nanosecond t = t mod Second"

text \<open>\<open>t.Truncate(d)\<close> rounds down to a multiple of \<open>d\<close> since the zero time.\<close>

definition Truncate :: "time \<Rightarrow> duration \<Rightarrow> time" where
  "Truncate t d = (if d \<le> 0 then t else t - t mod d)"

lemma Nanosecond_mod_1000: "Nanosecond t mod 1000 = t mod 1000"
  by (simp add: Nanosecond_def Second_def mod_mod_cancel)

lemma Truncate_le: "Truncate t d \<le> t"
  by (simp add: Truncate_def)

lemma Truncate_idem [simp]: "Truncate (Truncate t d) d = Truncate t d"
  by (simp add: Truncate_def mod_diff_left_eq [symmetric])

lemma Truncate_mono: "s \<le> t \<Longrightarrow> Truncate s d \<le> Truncate t d"
  by (simp add: Truncate_def minus_mod_eq_mult_div zdiv_mono1 mult_left_mono)

lemma Truncate_less_imp: "Truncate s d < Truncate t d \<Longrightarrow> s < t"
  using Truncate_mono [of t s d] by linarith

subsection \<open>The calendar\<close>

definition leap_year :: "int \<Rightarrow> bool" where
  "leap_year y \<longleftrightarrow> 4 dvd y \<and> (\<not> 100 dvd y \<or> 400 dvd y)"

text \<open>The year and the day within it of a day number counted from 1 January of year 1.\<close>

definition year_yday :: "int \<Rightarrow> int \<times> int" where
  "year_yday d =
     (let n400 = d div 146097; d1 = d mod 146097;
          n100 = min 3 (d1 div 36524); d2 = d1 - 36524 * n100;
          n4 = d2 div 1461; d3 = d2 mod 1461;
          n1 = min 3 (d3 div 365)
      in (400 * n400 + 100 * n100 + 4 * n4 + n1 + 1, d3 - 365 * n1))"

definition Year :: "time \<Rightarrow> int" where "Year t = fst (year_yday (t div Day))"

definition days_before_year :: "int \<Rightarrow> int" where
  "days_before_year y =
     365 * (y - 1) + (y - 1) div 4 - (y - 1) div 100 + (y - 1) div 400"

definition month_lengths :: "bool \<Rightarrow> int list" where
  "month_lengths leap = [31, if leap then 29 else 28, 31, 30, 31, 30, 31, 31, 30, 31, 30, 31]"

text \<open>Month (from 0) and day of the month (from 0) of a day of the year.\<close>

fun month_day :: "int list \<Rightarrow> int \<Rightarrow> int \<times> int" where
  "month_day [] d = (0, d)"
| "month_day (n # ns) d =
     (if d < n then (0, d) else (case month_day ns (d - n) of (m, k) \<Rightarrow> (m + 1, k)))"

definition days_before_month :: "bool \<Rightarrow> int \<Rightarrow> int" where
  "days_before_month leap m = sum_list (take (nat m) (month_lengths leap))"

text \<open>
  \<open>t.AddDate(0, 0, n)\<close> in UTC is \<open>n\<close> times 24 hours; \<open>t.AddDate(n, 0, 0)\<close>
  keeps month, day and time of day and lets \<open>time.Date\<close> normalise 29 February.
\<close>

definition AddDays :: "time \<Rightarrow> int \<Rightarrow> time" where
  "AddDays t n = t + n * Day"

definition AddYears :: "time \<Rightarrow> int \<Rightarrow> time" where
  "AddYears t n =
     (case year_yday (t div Day) of (y, yd) \<Rightarrow>
      (case month_day (month_lengths (leap_year y)) yd of (m, d) \<Rightarrow>
        (days_before_year (y + n) + days_before_month (leap_year (y + n)) m + d) * Day
          + t mod Day))"

text \<open>Instants of the model are easily read as a date: \<open>date y m d\<close> at midnight.\<close>

definition date :: "int \<Rightarrow> int \<Rightarrow> int \<Rightarrow> time" where
  "date y m d = (days_before_year y + days_before_month (leap_year y) (m - 1) + (d - 1)) * Day"

lemma AddDays_after: "0 < n \<Longrightarrow> t < AddDays t n"
  by (simp add: AddDays_def duration_defs)

subsection \<open>Time zones\<close>

text \<open>
  \<open>time.LoadLocation\<close> answers the empty name, \<open>UTC\<close> and \<open>Local\<close> itself and
  looks any other name up in the zone database of the host. That database is data outside the
  repository: the parameter \<open>zones\<close> of the definitions that load a location says which
  names it holds.
\<close>

definition LoadLocation :: "(string \<Rightarrow> bool) \<Rightarrow> string \<Rightarrow> bool" where
  "LoadLocation zones name \<longleftrightarrow> name \<in> {'''', ''UTC'', ''Local''} \<or> zones name"

lemma LoadLocation_UTC [simp]: "LoadLocation zones ''UTC''"
  by (simp add: LoadLocation_def)

end
