(* ===== verification/Go_Digest.thy ===== *)
theory Go_Digest
  imports Go_Time
begin

unbundle bit_operations_syntax

section \<open>JSON encoding and SHA-256 digests\<close>

text \<open>
  Several packages of the program seal a value with \<open>Digest\<close>: the hexadecimal SHA-256 of
  its \<open>encoding/json\<close> form. This theory holds what they use of \<open>encoding/json\<close>,
  \<open>crypto/sha256\<close> and \<open>encoding/hex\<close>. A Go value is turned into a \<open>json\<close>
  tree by the \<open>json_\<close> function of its component (field names, field order and
  \<open>omitempty\<close> as the struct tags say); \<open>marshal\<close> prints the tree. A time outside
  the years 0 to 9999 makes \<open>json.Marshal\<close> fail, which \<open>Digest\<close> ignores: the
  digest is then the one of no bytes. A nil slice and an empty slice are the same list of the
  model and print as an empty array.
\<close>

subsection \<open>JSON\<close>

datatype json =
    JNull
  | JBool bool
  | JNum int
  | JStr string
  | JTime time
  | JArr "json list"
  | JObj "(string \<times> json) list"

function dec_nat :: "nat \<Rightarrow> string" where
  "dec_nat n = (if n < 10 then [char_of (48 + n)] else dec_nat (n div 10) @ [char_of (48 + n mod 10)])"
  by pat_completeness auto
termination
  by (relation "measure id") auto

declare dec_nat.simps [simp del]

definition dec_int :: "int \<Rightarrow> string" where
  "dec_int i = (if i < 0 then ''-'' @ dec_nat (nat (- i)) else dec_nat (nat i))"

definition pad_left :: "nat \<Rightarrow> string \<Rightarrow> string" where
  "pad_left n s = replicate (n - length s) (CHR ''0'') @ s"

definition hex_digit :: "nat \<Rightarrow> char" where
  "hex_digit n = (if n < 10 then char_of (48 + n) else char_of (87 + n))"

text \<open>One rune of a JSON string, with the HTML escaping \<open>json.Marshal\<close> applies.\<close>

definition json_escape :: "string \<Rightarrow> string" where
  "json_escape r =
     (if valid_rune_width r \<noteq> Some (length r) then [CHR 0x5C] @ ''ufffd''
      else if r = [CHR 0x22] then [CHR 0x5C, CHR 0x22]
      else if r = [CHR 0x5C] then [CHR 0x5C, CHR 0x5C]
      else if r = [CHR 0x08] then [CHR 0x5C] @ ''b''
      else if r = [CHR 0x0C] then [CHR 0x5C] @ ''f''
      else if r = [CHR 0x0A] then [CHR 0x5C] @ ''n''
      else if r = [CHR 0x0D] then [CHR 0x5C] @ ''r''
      else if r = [CHR 0x09] then [CHR 0x5C] @ ''t''
      else if r = [CHR 0xE2, CHR 0x80, CHR 0xA8] then [CHR 0x5C] @ ''u2028''
      else if r = [CHR 0xE2, CHR 0x80, CHR 0xA9] then [CHR 0x5C] @ ''u2029''
      else if length r = 1 \<and> (byte (r ! 0) < 32 \<or> r ! 0 \<in> set ''<>&'')
        then [CHR 0x5C] @ ''u00'' @ [hex_digit (byte (r ! 0) div 16), hex_digit (byte (r ! 0) mod 16)]
      else r)"

definition json_string :: "string \<Rightarrow> string" where
  "json_string s = [CHR 0x22] @ concat (map json_escape (rune_chunks s)) @ [CHR 0x22]"

text \<open>RFC 3339 with nanoseconds, trailing zeros of the fraction dropped, in UTC.\<close>

definition drop_trailing_zeros :: "string \<Rightarrow> string" where
  "drop_trailing_zeros s = rev (dropWhile (\<lambda>c. c = CHR ''0'') (rev s))"

definition rfc3339 :: "time \<Rightarrow> string" where
  "rfc3339 t =
     (case year_yday (t div Day) of (y, yd) \<Rightarrow>
      (case month_day (month_lengths (leap_year y)) yd of (m, d) \<Rightarrow>
       (let s = t mod Day div Second; ns = t mod Second;
            pad2 = (\<lambda>i. pad_left 2 (dec_int i));
            frac = (if ns = 0 then [] else ''.'' @ drop_trailing_zeros (pad_left 9 (dec_int ns)))
        in pad_left 4 (dec_int y) @ ''-'' @ pad2 (m + 1) @ ''-'' @ pad2 (d + 1) @ ''T'' @
           pad2 (s div 3600) @ '':'' @ pad2 (s mod 3600 div 60) @ '':'' @ pad2 (s mod 60) @
           frac @ ''Z'')))"

definition join :: "string list \<Rightarrow> string" where
  "join xs = concat (case xs of [] \<Rightarrow> [] | x # ys \<Rightarrow> x # map (\<lambda>y. '','' @ y) ys)"

fun marshal :: "json \<Rightarrow> string option"
  and marshal_list :: "json list \<Rightarrow> string list option"
  and marshal_fields :: "(string \<times> json) list \<Rightarrow> string list option" where
  "marshal JNull = Some ''null''"
| "marshal (JBool b) = Some (if b then ''true'' else ''false'')"
| "marshal (JNum n) = Some (dec_int n)"
| "marshal (JStr s) = Some (json_string s)"
| "marshal (JTime t) =
     (if 0 \<le> Year t \<and> Year t \<le> 9999 then Some ([CHR 0x22] @ rfc3339 t @ [CHR 0x22]) else None)"
| "marshal (JArr xs) = map_option (\<lambda>ys. ''['' @ join ys @ '']'') (marshal_list xs)"
| "marshal (JObj fs) = map_option (\<lambda>ys. ''{'' @ join ys @ ''}'') (marshal_fields fs)"
| "marshal_list [] = Some []"
| "marshal_list (x # xs) =
     (case marshal x of None \<Rightarrow> None | Some s \<Rightarrow> map_option (\<lambda>ys. s # ys) (marshal_list xs))"
| "marshal_fields [] = Some []"
| "marshal_fields ((k, v) # fs) =
     (case marshal v of None \<Rightarrow> None
      | Some s \<Rightarrow> map_option (\<lambda>ys. (json_string k @ '':'' @ s) # ys) (marshal_fields fs))"

text \<open>Fields with \<open>omitempty\<close>, optional times and unsigned numbers.\<close>

definition JUint :: "'a::len word \<Rightarrow> json" where "JUint w = JNum (uint w)"

definition omit_str :: "string \<Rightarrow> string \<Rightarrow> (string \<times> json) list" where
  "omit_str k s = (if s = [] then [] else [(k, JStr s)])"

definition omit_bool :: "string \<Rightarrow> bool \<Rightarrow> (string \<times> json) list" where
  "omit_bool k b = (if b then [(k, JBool True)] else [])"

definition omit_uint :: "string \<Rightarrow> 'a::len word \<Rightarrow> (string \<times> json) list" where
  "omit_uint k w = (if w = 0 then [] else [(k, JUint w)])"

definition omit_time :: "string \<Rightarrow> time option \<Rightarrow> (string \<times> json) list" where
  "omit_time k t = (case t of None \<Rightarrow> [] | Some v \<Rightarrow> [(k, JTime v)])"

definition omit_list :: "string \<Rightarrow> ('a \<Rightarrow> json) \<Rightarrow> 'a list \<Rightarrow> (string \<times> json) list" where
  "omit_list k f xs = (if xs = [] then [] else [(k, JArr (map f xs))])"

subsection \<open>SHA-256\<close>

text \<open>The 64 round constants of FIPS 180-4, in decimal.\<close>

definition sha_k :: "32 word list" where
  "sha_k =
    [1116352408, 1899447441, 3049323471, 3921009573, 961987163, 1508970993, 2453635748, 2870763221,
     3624381080, 310598401, 607225278, 1426881987, 1925078388, 2162078206, 2614888103, 3248222580,
     3835390401, 4022224774, 264347078, 604807628, 770255983, 1249150122, 1555081692, 1996064986,
     2554220882, 2821834349, 2952996808, 3210313671, 3336571891, 3584528711, 113926993, 338241895,
     666307205, 773529912, 1294757372, 1396182291, 1695183700, 1986661051, 2177026350, 2456956037,
     2730485921, 2820302411, 3259730800, 3345764771, 3516065817, 3600352804, 4094571909, 275423344,
     430227734, 506948616, 659060556, 883997877, 958139571, 1322822218, 1537002063, 1747873779,
     1955562222, 2024104815, 2227730452, 2361852424, 2428436474, 2756734187, 3204031479, 3329325298]"

type_synonym sha_state =
  "32 word \<times> 32 word \<times> 32 word \<times> 32 word \<times> 32 word \<times> 32 word \<times> 32 word \<times> 32 word"

definition sha_init :: sha_state where
  "sha_init = (0x6a09e667, 0xbb67ae85, 0x3c6ef372, 0xa54ff53a, 0x510e527f, 0x9b05688c, 0x1f83d9ab, 0x5be0cd19)"

definition rotr :: "nat \<Rightarrow> 32 word \<Rightarrow> 32 word" where
  "rotr n w = drop_bit n w OR push_bit (32 - n) w"

text \<open>The message schedule, newest word first.\<close>

fun sha_extend :: "nat \<Rightarrow> 32 word list \<Rightarrow> 32 word list" where
  "sha_extend 0 r = r"
| "sha_extend (Suc n) r =
     (let a = r ! 1; b = r ! 14;
          s1 = rotr 17 a XOR rotr 19 a XOR drop_bit 10 a;
          s0 = rotr 7 b XOR rotr 18 b XOR drop_bit 3 b
      in sha_extend n ((s1 + r ! 6 + s0 + r ! 15) # r))"

fun sha_round :: "32 word \<times> 32 word \<Rightarrow> sha_state \<Rightarrow> sha_state" where
  "sha_round (k, w) (a, b, c, d, e, f, g, h) =
     (let t1 = h + (rotr 6 e XOR rotr 11 e XOR rotr 25 e) + ((e AND f) XOR (NOT e AND g)) + k + w;
          t2 = (rotr 2 a XOR rotr 13 a XOR rotr 22 a) + ((a AND b) XOR (a AND c) XOR (b AND c))
      in (t1 + t2, a, b, c, d + t1, e, f, g))"

fun sha_add :: "sha_state \<Rightarrow> sha_state \<Rightarrow> sha_state" where
  "sha_add (a, b, c, d, e, f, g, h) (a', b', c', d', e', f', g', h') =
     (a + a', b + b', c + c', d + d', e + e', f + f', g + g', h + h')"

definition sha_block :: "sha_state \<Rightarrow> 32 word list \<Rightarrow> sha_state" where
  "sha_block st ws = sha_add st (fold sha_round (zip sha_k (rev (sha_extend 48 (rev ws)))) st)"

fun be_words :: "nat list \<Rightarrow> 32 word list" where
  "be_words (a # b # c # d # bs) =
     word_of_nat (((a * 256 + b) * 256 + c) * 256 + d) # be_words bs"
| "be_words bs = []"

function sha_blocks :: "sha_state \<Rightarrow> 32 word list \<Rightarrow> sha_state" where
  "sha_blocks st ws =
     (if ws = [] then st else sha_blocks (sha_block st (take 16 ws)) (drop 16 ws))"
  by pat_completeness auto
termination
  by (relation "measure (length \<circ> snd)") auto

declare sha_blocks.simps [simp del]

definition sha_pad :: "string \<Rightarrow> nat list" where
  "sha_pad m =
     (let n = length m; z = (119 - n mod 64) mod 64; bits = 8 * n
      in map byte m @ [128] @ replicate z 0 @
         map (\<lambda>i. bits div 256 ^ i mod 256) [7, 6, 5, 4, 3, 2, 1, 0])"

definition hex_word :: "32 word \<Rightarrow> string" where
  "hex_word w = map (\<lambda>i. hex_digit (unat w div 16 ^ i mod 16)) [7, 6, 5, 4, 3, 2, 1, 0]"

fun hex_state :: "sha_state \<Rightarrow> string" where
  "hex_state (a, b, c, d, e, f, g, h) =
     hex_word a @ hex_word b @ hex_word c @ hex_word d @
     hex_word e @ hex_word f @ hex_word g @ hex_word h"

definition sha256_hex :: "string \<Rightarrow> string" where
  "sha256_hex m = hex_state (sha_blocks sha_init (be_words (sha_pad m)))"

definition Digest :: "json \<Rightarrow> string" where
  "Digest v = sha256_hex (case marshal v of None \<Rightarrow> [] | Some b \<Rightarrow> b)"

subsection \<open>What the components use of the digest\<close>

lemma hex_digit_alnum: "n < 16 \<Longrightarrow> is_alnum (hex_digit n)"
  by (auto simp: hex_digit_def is_alnum_def is_digit_def is_lower_def byte_def)

lemma hex_word_alnum: "c \<in> set (hex_word w) \<Longrightarrow> is_alnum c"
  by (auto simp: hex_word_def intro: hex_digit_alnum)

lemma length_hex_word [simp]: "length (hex_word w) = 8"
  by (simp add: hex_word_def)

lemma length_sha256_hex [simp]: "length (sha256_hex m) = 64"
  by (cases "sha_blocks sha_init (be_words (sha_pad m))" rule: hex_state.cases) (simp add: sha256_hex_def)

lemma sha256_hex_alnum: "c \<in> set (sha256_hex m) \<Longrightarrow> is_alnum c"
  by (cases "sha_blocks sha_init (be_words (sha_pad m))" rule: hex_state.cases)
     (auto simp: sha256_hex_def dest: hex_word_alnum)

lemma length_Digest [simp]: "length (Digest v) = 64"
  by (simp add: Digest_def)

lemma Digest_alnum: "c \<in> set (Digest v) \<Longrightarrow> is_alnum c"
  by (simp add: Digest_def sha256_hex_alnum)

text \<open>Identifiers made of a prefix and the first digits of a digest match the key pattern.\<close>

lemma key_pattern_digest_id:
  assumes "key_pattern p" "length p + n \<le> 128"
  shows "key_pattern (p @ take n (Digest v))"
proof (rule key_pattern_append [OF assms(1)])
  show "\<forall>c \<in> set (take n (Digest v)). is_alnum c"
    using Digest_alnum in_set_takeD by metis
  show "length p + length (take n (Digest v)) \<le> 128"
    using assms(2) by simp
qed

end
