(* ===== verification/Entitlement.thy ===== *)
theory Entitlement
  imports Go_Digest
begin

section \<open>Entitlement sources and the module catalogue\<close>

text \<open>
  The package \<open>internal/commercial/domain/entitlement\<close>, file \<open>model.go\<close>: limits,
  sources, the module catalogue with its validation (a depth-first search for dependency
  cycles), and \<open>ValidateAppend\<close>. The lemmas characterise the catalogue validation
  (well-formed entries and an acyclic dependency relation) and show that appending keeps at
  most one live override replacement of a quota.
\<close>

subsection \<open>Constants, errors and data\<close>

abbreviation Kind_Module :: string where "Kind_Module \<equiv> ''module''"
abbreviation Kind_Capability :: string where "Kind_Capability \<equiv> ''capability''"
abbreviation Kind_Quota :: string where "Kind_Quota \<equiv> ''quota''"
abbreviation Kind_Field :: string where "Kind_Field \<equiv> ''field''"
abbreviation Effect_Grant :: string where "Effect_Grant \<equiv> ''grant''"
abbreviation Effect_Deny :: string where "Effect_Deny \<equiv> ''deny''"
abbreviation QuotaAdd :: string where "QuotaAdd \<equiv> ''quota_add''"
abbreviation QuotaReplace :: string where "QuotaReplace \<equiv> ''quota_replace''"
abbreviation SafetyDeny :: string where "SafetyDeny \<equiv> ''safety_deny''"
abbreviation SafetyMask :: string where "SafetyMask \<equiv> ''safety_mask''"
abbreviation OverrideSource :: string where "OverrideSource \<equiv> ''override''"
abbreviation PlanSource :: string where "PlanSource \<equiv> ''plan''"
abbreviation AddonSource :: string where "AddonSource \<equiv> ''addon''"

datatype ent_error =
    Ent_ErrInvalid
  | Ent_ErrConflict
  | Ent_ErrRequestConflict
  | Ent_ErrNotFound
  | Ent_ErrRevoked
  | Ent_ErrQuotaConflict
  | Ent_ErrCatalog
  | Ent_ErrScope

record Limit =
  Unlimited :: bool
  Value :: uint64

definition zero_limit :: Limit where
  "zero_limit = \<lparr>Unlimited = False, Value = 0\<rparr>"

definition Limit_Valid :: "Limit \<Rightarrow> bool" where
  "Limit_Valid l \<longleftrightarrow> Value l \<le> MaxInt64 \<and> (\<not> Unlimited l \<or> Value l = 0)"

record Source =
  src_ID :: string
  src_TenantID :: string
  src_SourceKind :: string
  src_ModuleCode :: string
  src_Kind :: string
  src_Key :: string
  src_Action :: string
  src_Effect :: string
  src_Limit :: Limit
  src_EffectiveAt :: time
  src_ExpiresAt :: "time option"
  src_RevokedAt :: "time option"
  src_Reason :: string
  src_ActorID :: string
  src_Version :: uint64

definition Source_State :: "Source \<Rightarrow> time \<Rightarrow> string" where
  "Source_State s at =
     (if (case src_RevokedAt s of None \<Rightarrow> False | Some r \<Rightarrow> \<not> at < r) then ''revoked''
      else if at < src_EffectiveAt s then ''scheduled''
      else if (case src_ExpiresAt s of None \<Rightarrow> False | Some e \<Rightarrow> \<not> at < e) then ''expired''
      else ''active'')"

definition Source_Active :: "Source \<Rightarrow> time \<Rightarrow> bool" where
  "Source_Active s at \<longleftrightarrow> Source_State s at = ''active''"

record ModuleDefinition =
  mod_Code :: string
  mod_TechnicalStatus :: string
  mod_SalesStatus :: string
  mod_Version :: uint64
  mod_Capabilities :: "string list"
  mod_QuotaKeys :: "string list"
  mod_FieldKeys :: "string list"
  mod_Dependencies :: "string list"

type_synonym Catalog = "ModuleDefinition list"

definition validCode :: "string \<Rightarrow> bool" where
  "validCode s \<longleftrightarrow> length s \<le> 120 \<and> code_pattern s"

fun contains :: "string list \<Rightarrow> string \<Rightarrow> bool" where
  "contains [] key = False"
| "contains (k # ks) key = (k = key \<or> contains ks key)"

fun Catalog_Definition :: "Catalog \<Rightarrow> string \<Rightarrow> ModuleDefinition option" where
  "Catalog_Definition [] code = None"
| "Catalog_Definition (m # ms) code =
     (if mod_Code m = code then Some m else Catalog_Definition ms code)"

subsection \<open>Catalogue validation\<close>

text \<open>
  The map \<open>owners\<close> of the source; a missing key reads as the empty string, and codes are
  never empty at this point of the loop.
\<close>

fun claim_owners :: "string \<Rightarrow> (string \<rightharpoonup> string) \<Rightarrow> string list \<Rightarrow> (string \<rightharpoonup> string) option" where
  "claim_owners code owners [] = Some owners"
| "claim_owners code owners (key # keys) =
     (let previous = (case owners key of None \<Rightarrow> '''' | Some c \<Rightarrow> c)
      in if previous \<noteq> '''' \<and> previous \<noteq> code then None
         else claim_owners code (owners(key \<mapsto> code)) keys)"

definition group_error :: "string list \<Rightarrow> ent_error err" where
  "group_error keys = seen_loop (\<lambda>k. \<not> validCode k) (\<lambda>k. k) Ent_ErrCatalog [] keys"

fun Catalog_Validate_entries ::
  "string list \<Rightarrow> (string \<rightharpoonup> string) \<Rightarrow> Catalog \<Rightarrow> ent_error err" where
  "Catalog_Validate_entries modules owners [] = None"
| "Catalog_Validate_entries modules owners (m # ms) =
     (if \<not> validCode (mod_Code m) \<or> mod_Version m = 0 then Some Ent_ErrCatalog
      else if mod_Code m \<in> set modules then Some Ent_ErrCatalog
      else if mod_TechnicalStatus m \<noteq> ''ready'' \<and> mod_TechnicalStatus m \<noteq> ''not_ready'' \<and>
              mod_TechnicalStatus m \<noteq> ''disabled'' then Some Ent_ErrCatalog
      else case for_each_err group_error [mod_Capabilities m, mod_QuotaKeys m, mod_FieldKeys m] of
        Some e \<Rightarrow> Some e
      | None \<Rightarrow>
        (case claim_owners (mod_Code m) owners (mod_Capabilities m) of
           None \<Rightarrow> Some Ent_ErrCatalog
         | Some owners' \<Rightarrow> Catalog_Validate_entries (mod_Code m # modules) owners' ms))"

text \<open>
  The closure \<open>visit\<close>: \<open>state\<close> is 0 for a module not met, 1 while its dependencies are
  visited, 2 when it is done. One unit of fuel is spent per nested call; \<open>visit_total\<close>
  below shows that one more unit than there are modules is enough.
\<close>

fun visit :: "Catalog \<Rightarrow> nat \<Rightarrow> (string \<Rightarrow> nat) \<Rightarrow> string \<Rightarrow> (ent_error + (string \<Rightarrow> nat)) option"
  and visit_all :: "Catalog \<Rightarrow> nat \<Rightarrow> (string \<Rightarrow> nat) \<Rightarrow> string list \<Rightarrow> (ent_error + (string \<Rightarrow> nat)) option"
where
  "visit c 0 state code = None"
| "visit c (Suc n) state code =
     (if state code = 1 then Some (Inl Ent_ErrCatalog)
      else if state code = 2 then Some (Inr state)
      else case Catalog_Definition c code of
        None \<Rightarrow> Some (Inr state)
      | Some m \<Rightarrow>
        (case visit_all c n (state(code := 1)) (mod_Dependencies m) of
           Some (Inr state') \<Rightarrow> Some (Inr (state'(code := 2)))
         | r \<Rightarrow> r))"
| "visit_all c n state [] = Some (Inr state)"
| "visit_all c n state (d # ds) =
     (case visit c n state d of
        Some (Inr state') \<Rightarrow> visit_all c n state' ds
      | r \<Rightarrow> r)"

definition Catalog_Validate :: "Catalog \<Rightarrow> ent_error err" where
  "Catalog_Validate c =
     (case Catalog_Validate_entries [] Map.empty c of
        Some e \<Rightarrow> Some e
      | None \<Rightarrow>
        (case visit_all c (Suc (length c)) (\<lambda>_. 0) (map mod_Code c) of
           Some (Inl e) \<Rightarrow> Some e
         | Some (Inr _) \<Rightarrow> None
         | None \<Rightarrow> Some Ent_ErrCatalog))"

subsection \<open>Source validation\<close>

definition optional :: "('a \<Rightarrow> bool) \<Rightarrow> 'a option \<Rightarrow> bool" where
  "optional p x = (case x of None \<Rightarrow> False | Some v \<Rightarrow> p v)"

text \<open>The part of \<open>ValidateShape\<close> before the \<open>switch\<close> on the kind.\<close>

definition shape_common :: "Source \<Rightarrow> bool" where
  "shape_common s \<longleftrightarrow>
     \<not> (src_ID s = '''' \<or> length (src_ID s) > 128 \<or> TrimSpace (src_TenantID s) = '''' \<or>
        length (src_TenantID s) > 64 \<or> \<not> validCode (src_ModuleCode s) \<or> \<not> validCode (src_Key s) \<or>
        src_Version s = 0 \<or> TrimSpace (src_Reason s) = '''' \<or> length (src_Reason s) > 512 \<or>
        src_ActorID s = '''' \<or> length (src_ActorID s) > 200) \<and>
     \<not> (src_SourceKind s \<noteq> OverrideSource \<and> src_SourceKind s \<noteq> PlanSource \<and>
        src_SourceKind s \<noteq> AddonSource) \<and>
     \<not> (IsZero (src_EffectiveAt s) \<or> Year (src_EffectiveAt s) < 1970 \<or>
        Year (src_EffectiveAt s) > 9999 \<or> Nanosecond (src_EffectiveAt s) mod 1000 \<noteq> 0) \<and>
     \<not> optional (\<lambda>e. \<not> e > src_EffectiveAt s \<or> Year e > 9999 \<or> Nanosecond e mod 1000 \<noteq> 0)
        (src_ExpiresAt s) \<and>
     \<not> optional (\<lambda>r. IsZero r \<or> Nanosecond r mod 1000 \<noteq> 0) (src_RevokedAt s) \<and>
     Limit_Valid (src_Limit s)"

text \<open>The part after the \<open>switch\<close>, for kinds other than quota.\<close>

definition shape_effect :: "Source \<Rightarrow> ent_error err" where
  "shape_effect s =
     (if Unlimited (src_Limit s) \<or> Value (src_Limit s) \<noteq> 0 then Some Ent_ErrInvalid
      else if src_Effect s = SafetyMask then
        (if src_Kind s \<noteq> Kind_Field \<or> src_Action s = ''write'' then Some Ent_ErrInvalid else None)
      else if src_Effect s \<noteq> Effect_Grant \<and> src_Effect s \<noteq> Effect_Deny \<and> src_Effect s \<noteq> SafetyDeny
        then Some Ent_ErrInvalid
      else None)"

definition Source_ValidateShape :: "Source \<Rightarrow> ent_error err" where
  "Source_ValidateShape s =
     (if \<not> shape_common s then Some Ent_ErrInvalid
      else if src_Kind s = Kind_Module then
        (if src_Key s \<noteq> src_ModuleCode s \<or> src_Action s \<noteq> '''' then Some Ent_ErrInvalid
         else shape_effect s)
      else if src_Kind s = Kind_Capability then
        (if src_Action s \<noteq> '''' then Some Ent_ErrInvalid else shape_effect s)
      else if src_Kind s = Kind_Quota then
        (if src_Action s \<noteq> '''' \<or> (src_Effect s \<noteq> QuotaAdd \<and> src_Effect s \<noteq> QuotaReplace) \<or>
            (src_Effect s = QuotaAdd \<and> (Unlimited (src_Limit s) \<or> Value (src_Limit s) = 0))
         then Some Ent_ErrInvalid else None)
      else if src_Kind s = Kind_Field then
        (if src_Action s \<noteq> ''read'' \<and> src_Action s \<noteq> ''write'' \<and> src_Action s \<noteq> ''export''
         then Some Ent_ErrInvalid else shape_effect s)
      else Some Ent_ErrInvalid)"

definition Source_Validate :: "Source \<Rightarrow> Catalog \<Rightarrow> ent_error err" where
  "Source_Validate s c =
     (case Source_ValidateShape s of
        Some e \<Rightarrow> Some e
      | None \<Rightarrow>
        (case Catalog_Definition c (src_ModuleCode s) of
           None \<Rightarrow> Some Ent_ErrCatalog
         | Some m \<Rightarrow>
           (if src_Kind s = Kind_Capability \<and> \<not> contains (mod_Capabilities m) (src_Key s)
            then Some Ent_ErrCatalog
            else if src_Kind s = Kind_Quota \<and> \<not> contains (mod_QuotaKeys m) (src_Key s)
            then Some Ent_ErrCatalog
            else if src_Kind s = Kind_Field \<and> \<not> contains (mod_FieldKeys m) (src_Key s)
            then Some Ent_ErrCatalog
            else None)))"

text \<open>\<open>ValidateAppend\<close>: the end of an existing source's interval and the loop.\<close>

definition source_end :: "Source \<Rightarrow> time option" where
  "source_end s =
     (case src_RevokedAt s of
        None \<Rightarrow> src_ExpiresAt s
      | Some r \<Rightarrow> (case src_ExpiresAt s of
                    None \<Rightarrow> Some r
                  | Some e \<Rightarrow> if r < e then Some r else Some e))"

definition replacement_rivals :: "Source \<Rightarrow> Source \<Rightarrow> bool" where
  "replacement_rivals s incoming \<longleftrightarrow>
     \<not> (src_Kind s \<noteq> Kind_Quota \<or> src_Kind incoming \<noteq> Kind_Quota \<or> src_Key s \<noteq> src_Key incoming \<or>
        src_ModuleCode s \<noteq> src_ModuleCode incoming \<or> src_SourceKind s \<noteq> OverrideSource \<or>
        src_SourceKind incoming \<noteq> OverrideSource \<or> src_Effect s \<noteq> QuotaReplace \<or>
        src_Effect incoming \<noteq> QuotaReplace)"

fun append_conflicts :: "Source list \<Rightarrow> Source \<Rightarrow> ent_error err" where
  "append_conflicts [] incoming = None"
| "append_conflicts (s # ss) incoming =
     (if src_ID s = src_ID incoming then Some Ent_ErrInvalid
      else if src_TenantID s \<noteq> src_TenantID incoming then Some Ent_ErrScope
      else if \<not> replacement_rivals s incoming then append_conflicts ss incoming
      else if optional (\<lambda>e. \<not> e > src_EffectiveAt s) (source_end s) then append_conflicts ss incoming
      else if (case source_end s of None \<Rightarrow> True | Some e \<Rightarrow> src_EffectiveAt incoming < e) \<and>
              (case src_ExpiresAt incoming of None \<Rightarrow> True | Some x \<Rightarrow> src_EffectiveAt s < x)
        then Some Ent_ErrQuotaConflict
      else append_conflicts ss incoming)"

definition ValidateAppend :: "Source list \<Rightarrow> Source \<Rightarrow> Catalog \<Rightarrow> ent_error err" where
  "ValidateAppend existing incoming c =
     (case Source_Validate incoming c of
        Some e \<Rightarrow> Some e
      | None \<Rightarrow> append_conflicts existing incoming)"

subsection \<open>Resolution results\<close>

record SourceExplanation =
  exp_ID :: string
  exp_Kind :: string
  exp_Effect :: string
  exp_State :: string
  exp_Disposition :: string
  exp_Reason :: string
  exp_ActorID :: string

record Decision =
  dec_Kind :: string
  dec_ModuleCode :: string
  dec_Key :: string
  dec_Action :: string
  dec_Allowed :: bool
  dec_Reason :: string
  dec_Limit :: Limit
  dec_Masked :: bool
  dec_Sources :: "SourceExplanation list"

record CatalogVersion =
  cv_ModuleCode :: string
  cv_Version :: uint64

record EntResult =
  res_EntitlementVersion :: uint64
  res_CatalogRevision :: uint64
  res_PermissionVersion :: string
  res_PermissionSubject :: string
  res_TenantID :: string
  res_SourceVersion :: uint64
  res_ResolverVersion :: uint64
  res_EvaluatedAt :: time
  res_ValidUntil :: "time option"
  res_NextTransitionAt :: "time option"
  res_CatalogVersions :: "CatalogVersion list"
  res_Decisions :: "Decision list"

subsection \<open>JSON forms (struct tags)\<close>

definition json_Limit :: "Limit \<Rightarrow> json" where
  "json_Limit l = JObj [(''unlimited'', JBool (Unlimited l)), (''value'', JUint (Value l))]"

definition json_Source :: "Source \<Rightarrow> json" where
  "json_Source s = JObj (
     [(''id'', JStr (src_ID s)), (''tenant_id'', JStr (src_TenantID s)),
      (''source_kind'', JStr (src_SourceKind s)), (''module_code'', JStr (src_ModuleCode s)),
      (''kind'', JStr (src_Kind s)), (''key'', JStr (src_Key s))] @
     omit_str ''action'' (src_Action s) @
     [(''effect'', JStr (src_Effect s)), (''limit'', json_Limit (src_Limit s)),
      (''effective_at'', JTime (src_EffectiveAt s))] @
     omit_time ''expires_at'' (src_ExpiresAt s) @ omit_time ''revoked_at'' (src_RevokedAt s) @
     [(''reason'', JStr (src_Reason s)), (''actor_id'', JStr (src_ActorID s)),
      (''version'', JUint (src_Version s))])"

definition json_SourceExplanation :: "SourceExplanation \<Rightarrow> json" where
  "json_SourceExplanation e = JObj (
     [(''id'', JStr (exp_ID e)), (''kind'', JStr (exp_Kind e)), (''effect'', JStr (exp_Effect e)),
      (''state'', JStr (exp_State e)), (''disposition'', JStr (exp_Disposition e))] @
     omit_str ''reason'' (exp_Reason e) @ omit_str ''actor_id'' (exp_ActorID e))"

definition json_Decision :: "Decision \<Rightarrow> json" where
  "json_Decision d = JObj (
     [(''kind'', JStr (dec_Kind d)), (''module_code'', JStr (dec_ModuleCode d)),
      (''key'', JStr (dec_Key d))] @ omit_str ''action'' (dec_Action d) @
     [(''allowed'', JBool (dec_Allowed d)), (''reason'', JStr (dec_Reason d)),
      (''limit'', json_Limit (dec_Limit d)), (''masked'', JBool (dec_Masked d)),
      (''sources'', JArr (map json_SourceExplanation (dec_Sources d)))])"

definition json_CatalogVersion :: "CatalogVersion \<Rightarrow> json" where
  "json_CatalogVersion v =
     JObj [(''module_code'', JStr (cv_ModuleCode v)), (''version'', JUint (cv_Version v))]"

definition json_EntResult :: "EntResult \<Rightarrow> json" where
  "json_EntResult r = JObj (
     [(''entitlement_version'', JUint (res_EntitlementVersion r)),
      (''catalog_revision'', JUint (res_CatalogRevision r))] @
     omit_str ''permission_version'' (res_PermissionVersion r) @
     omit_str ''permission_subject'' (res_PermissionSubject r) @
     [(''tenant_id'', JStr (res_TenantID r)), (''source_version'', JUint (res_SourceVersion r)),
      (''resolver_version'', JUint (res_ResolverVersion r)),
      (''evaluated_at'', JTime (res_EvaluatedAt r))] @
     omit_time ''valid_until'' (res_ValidUntil r) @
     omit_time ''next_transition_at'' (res_NextTransitionAt r) @
     [(''catalog_versions'', JArr (map json_CatalogVersion (res_CatalogVersions r))),
      (''decisions'', JArr (map json_Decision (res_Decisions r)))])"


section \<open>Properties of the catalogue\<close>

subsection \<open>Lookup\<close>

lemma contains_iff [simp]: "contains ks k \<longleftrightarrow> k \<in> set ks"
  by (induction ks) auto

lemma Catalog_Definition_Some:
  "Catalog_Definition c code = Some m \<Longrightarrow> m \<in> set c \<and> mod_Code m = code"
  by (induction c) (auto split: if_splits)

lemma Catalog_Definition_None:
  "Catalog_Definition c code = None \<longleftrightarrow> code \<notin> mod_Code ` set c"
  by (induction c) auto

lemma Catalog_Definition_member:
  "distinct (map mod_Code c) \<Longrightarrow> m \<in> set c \<Longrightarrow> Catalog_Definition c (mod_Code m) = Some m"
  by (induction c) force+

abbreviation known :: "Catalog \<Rightarrow> string set" where
  "known c \<equiv> mod_Code ` set c"

lemma known_Definition: "code \<in> known c \<longleftrightarrow> (\<exists>m. Catalog_Definition c code = Some m)"
  using Catalog_Definition_None [of c code] by (cases "Catalog_Definition c code") simp_all

lemma finite_known [simp]: "finite (known c)"
  by simp

text \<open>The dependency relation between modules of the catalogue.\<close>

definition dep_edges :: "Catalog \<Rightarrow> (string \<times> string) set" where
  "dep_edges c =
     {(a, b). \<exists>m. Catalog_Definition c a = Some m \<and> b \<in> set (mod_Dependencies m) \<and> b \<in> known c}"

lemma dep_edges_known: "(a, b) \<in> dep_edges c \<Longrightarrow> a \<in> known c \<and> b \<in> known c"
  by (auto simp: dep_edges_def known_Definition)

lemma finite_dep_edges: "finite (dep_edges c)"
  by (rule finite_subset [of _ "known c \<times> known c"]) (auto dest: dep_edges_known)

subsection \<open>The depth-first search\<close>

lemma acyclic_extend:
  assumes ac: "acyclic (E \<inter> B \<times> B)"
    and closed: "\<And>x y. x \<in> B \<Longrightarrow> (x, y) \<in> E \<Longrightarrow> y \<in> B"
    and new: "c \<notin> B" "(c, c) \<notin> E"
  shows "acyclic (E \<inter> insert c B \<times> insert c B)" (is "acyclic ?R")
proof (rule acyclicI, rule allI, rule notI)
  fix x assume cyc: "(x, x) \<in> ?R\<^sup>+"
  have stay: "(x, y) \<in> ?R\<^sup>+ \<Longrightarrow> x \<in> B \<Longrightarrow> y \<in> B \<and> (x, y) \<in> (E \<inter> B \<times> B)\<^sup>+" for x y
  proof (induction rule: trancl_induct)
    case (base y)
    then show ?case using closed by (auto intro!: r_into_trancl)
  next
    case (step y z)
    then show ?case using closed by (auto intro: trancl_into_trancl)
  qed
  have leave: "(c, y) \<in> ?R\<^sup>+ \<Longrightarrow> y \<in> B" for y
  proof (induction rule: trancl_induct)
    case (base y)
    then show ?case using new by auto
  next
    case (step y z)
    then show ?case using closed by auto
  qed
  have "x \<in> B \<or> x = c" using cyc by (auto dest: tranclD)
  then show False
  proof
    assume "x \<in> B"
    with stay [OF cyc] ac show False by (auto simp: acyclic_def)
  next
    assume "x = c"
    with leave cyc new show False by auto
  qed
qed

definition dfs_inv :: "Catalog \<Rightarrow> (string \<Rightarrow> nat) \<Rightarrow> bool" where
  "dfs_inv c st \<longleftrightarrow>
     (\<forall>x. st x \<le> 2) \<and> (\<forall>x. st x \<noteq> 0 \<longrightarrow> x \<in> known c) \<and>
     (\<forall>x y. st x = 2 \<longrightarrow> (x, y) \<in> dep_edges c \<longrightarrow> st y = 2) \<and>
     acyclic (dep_edges c \<inter> {x. st x = 2} \<times> {x. st x = 2})"

definition dfs_step :: "(string \<Rightarrow> nat) \<Rightarrow> (string \<Rightarrow> nat) \<Rightarrow> bool" where
  "dfs_step st st' \<longleftrightarrow> (\<forall>x. st x \<noteq> 0 \<longrightarrow> st' x = st x) \<and> (\<forall>x. st' x = 1 \<longleftrightarrow> st x = 1)"

lemma dfs_step_refl [simp]: "dfs_step st st"
  by (simp add: dfs_step_def)

lemma dfs_step_trans: "dfs_step a b \<Longrightarrow> dfs_step b d \<Longrightarrow> dfs_step a d"
  unfolding dfs_step_def by metis

lemma dfs_inv_open:
  assumes "dfs_inv c st" "st code \<noteq> 1" "st code \<noteq> 2" "code \<in> known c"
  shows "dfs_inv c (st(code := 1))"
proof -
  have "{x. (st(code := 1)) x = 2} = {x. st x = 2}" using assms(3) by auto
  with assms show ?thesis unfolding dfs_inv_def by (auto simp: fun_upd_def)
qed

lemma dfs_inv_close:
  assumes inv: "dfs_inv c st" and grey: "st code = 1"
    and fin: "\<And>y. (code, y) \<in> dep_edges c \<Longrightarrow> st y = 2"
  shows "dfs_inv c (st(code := 2))"
proof -
  let ?B = "{x. st x = 2}"
  have "acyclic (dep_edges c \<inter> insert code ?B \<times> insert code ?B)"
  proof (rule acyclic_extend)
    show "(code, code) \<notin> dep_edges c" using fin [of code] grey by auto
  qed (use inv grey in \<open>auto simp: dfs_inv_def\<close>)
  moreover have "{x. (st(code := 2)) x = 2} = insert code ?B" by auto
  ultimately show ?thesis
    using inv grey fin unfolding dfs_inv_def by auto
qed

lemma visit_keeps_inv:
  "visit c n st code = Some (Inr st') \<Longrightarrow> dfs_inv c st \<Longrightarrow>
     dfs_inv c st' \<and> dfs_step st st' \<and> (code \<in> known c \<longrightarrow> st' code = 2)"
  "visit_all c n st ds = Some (Inr st') \<Longrightarrow> dfs_inv c st \<Longrightarrow>
     dfs_inv c st' \<and> dfs_step st st' \<and> (\<forall>d \<in> set ds \<inter> known c. st' d = 2)"
proof (induction c n st code and c n st ds arbitrary: st' and st' rule: visit_visit_all.induct)
  case (1 c st code)
  then show ?case by simp
next
  case (2 c n st code)
  show ?case
  proof (cases "st code = 2 \<or> Catalog_Definition c code = None")
    case True
    with "2.prems" show ?thesis
      by (auto simp: Catalog_Definition_None [symmetric] split: if_splits)
  next
    case False
    then obtain m where m: "Catalog_Definition c code = Some m" and w: "st code \<noteq> 2" by auto
    with "2.prems" obtain s1 where g: "st code \<noteq> 1"
      and s1: "visit_all c n (st(code := 1)) (mod_Dependencies m) = Some (Inr s1)"
      and st': "st' = s1(code := 2)"
      by (auto split: if_splits option.splits sum.splits)
    have kn: "code \<in> known c" using m known_Definition by blast
    have "dfs_inv c (st(code := 1))" using dfs_inv_open "2.prems"(2) g w kn by blast
    from "2.IH" [OF g w m s1 this]
    have IH: "dfs_inv c s1" "dfs_step (st(code := 1)) s1"
      "\<forall>d \<in> set (mod_Dependencies m) \<inter> known c. s1 d = 2"
      by blast+
    have grey: "s1 code = 1" using IH(2) by (auto simp: dfs_step_def)
    have "st code = 0" using "2.prems"(2) g w by (auto simp: dfs_inv_def le_Suc_eq numeral_2_eq_2)
    moreover have "dfs_inv c st'"
      unfolding st' using IH m grey by (intro dfs_inv_close) (auto simp: dep_edges_def)
    moreover have "dfs_step st st'"
      using IH(2) \<open>st code = 0\<close> unfolding st' dfs_step_def by (metis fun_upd_apply zero_neq_one
          numeral_eq_one_iff semiring_norm(85))
    moreover have "st' code = 2" unfolding st' by simp
    ultimately show ?thesis by blast
  qed
next
  case (3 c n st)
  then show ?case by simp
next
  case (4 c n st d ds)
  from "4.prems"(1) obtain s1 where s1: "visit c n st d = Some (Inr s1)"
    and s2: "visit_all c n s1 ds = Some (Inr st')"
    by (auto split: option.splits sum.splits)
  have a: "dfs_inv c s1" "dfs_step st s1" "d \<in> known c \<longrightarrow> s1 d = 2"
    using "4.IH"(1) [OF s1 "4.prems"(2)] by auto
  have b: "dfs_inv c st'" "dfs_step s1 st'" "\<forall>d \<in> set ds \<inter> known c. st' d = 2"
    using "4.IH"(2) [OF s1 refl s2 a(1)] by auto
  then show ?case
    using a dfs_step_trans [OF a(2) b(2)] by (auto simp: dfs_step_def)
qed


lemma visit_no_error:
  assumes ac: "acyclic (dep_edges c)"
  shows "dfs_inv c st \<Longrightarrow> code \<in> known c \<longrightarrow> (\<forall>g. st g = 1 \<longrightarrow> (g, code) \<in> (dep_edges c)\<^sup>+) \<Longrightarrow>
      visit c n st code \<noteq> Some (Inl e)"
    and "dfs_inv c st \<Longrightarrow>
      \<forall>d \<in> set ds \<inter> known c. \<forall>g. st g = 1 \<longrightarrow> (g, d) \<in> (dep_edges c)\<^sup>+ \<Longrightarrow>
      visit_all c n st ds \<noteq> Some (Inl e)"
  using ac
proof (induction c n st code and c n st ds rule: visit_visit_all.induct)
  case (1 c st code)
  then show ?case by simp
next
  case (2 c n st code)
  have grey: "st code \<noteq> 1"
  proof
    assume "st code = 1"
    with "2.prems"(1) have "code \<in> known c" by (auto simp: dfs_inv_def)
    with "2.prems" \<open>st code = 1\<close> show False by (auto simp: acyclic_def)
  qed
  show ?case
  proof (cases "st code = 2 \<or> Catalog_Definition c code = None")
    case True
    with grey show ?thesis by auto
  next
    case False
    then obtain m where m: "Catalog_Definition c code = Some m" and w: "st code \<noteq> 2" by auto
    have kn: "code \<in> known c" using m known_Definition by blast
    have "visit_all c n (st(code := 1)) (mod_Dependencies m) \<noteq> Some (Inl e)"
    proof (rule "2.IH" [OF grey w m])
      show "dfs_inv c (st(code := 1))" using dfs_inv_open "2.prems"(1) grey w kn by blast
      show "\<forall>d \<in> set (mod_Dependencies m) \<inter> known c.
              \<forall>g. (st(code := 1)) g = 1 \<longrightarrow> (g, d) \<in> (dep_edges c)\<^sup>+"
      proof (intro ballI allI impI)
        fix d g assume d: "d \<in> set (mod_Dependencies m) \<inter> known c" and g: "(st(code := 1)) g = 1"
        have e: "(code, d) \<in> dep_edges c" using d m by (auto simp: dep_edges_def)
        show "(g, d) \<in> (dep_edges c)\<^sup>+"
          using g e kn "2.prems"(2) by (cases "g = code") (auto intro: trancl_into_trancl)
      qed
    qed (rule "2.prems")
    with grey w m show ?thesis by (auto split: option.splits sum.splits)
  qed
next
  case (3 c n st)
  then show ?case by simp
next
  case (4 c n st d ds)
  show ?case
  proof (cases "visit c n st d")
    case (Some r)
    show ?thesis
    proof (cases r)
      case (Inl e')
      have "visit c n st d \<noteq> Some (Inl e)" using "4.IH"(1) "4.prems" by auto
      with Some Inl show ?thesis by auto
    next
      case (Inr s1)
      with Some visit_keeps_inv(1) "4.prems"(1)
      have s1: "dfs_inv c s1" "dfs_step st s1" by blast+
      have "visit_all c n s1 ds \<noteq> Some (Inl e)"
        using "4.IH"(2) [OF Some Inr s1(1)] "4.prems"(2,3) s1(2) by (auto simp: dfs_step_def)
      with Some Inr show ?thesis by simp
    qed
  qed simp
qed

definition white :: "Catalog \<Rightarrow> (string \<Rightarrow> nat) \<Rightarrow> string set" where
  "white c st = {x \<in> known c. st x = 0}"

lemma white_mono: "dfs_step st st' \<Longrightarrow> card (white c st') \<le> card (white c st)"
  unfolding white_def dfs_step_def by (rule card_mono) auto

lemma visit_total:
  "dfs_inv c st \<Longrightarrow> card (white c st) < n \<Longrightarrow> visit c n st code \<noteq> None"
  "dfs_inv c st \<Longrightarrow> card (white c st) < n \<Longrightarrow> visit_all c n st ds \<noteq> None"
proof (induction c n st code and c n st ds rule: visit_visit_all.induct)
  case (1 c st code)
  then show ?case by simp
next
  case (2 c n st code)
  show ?case
  proof (cases "st code = 1 \<or> st code = 2 \<or> Catalog_Definition c code = None")
    case True
    then show ?thesis by auto
  next
    case False
    then obtain m where m: "Catalog_Definition c code = Some m"
      and w: "st code \<noteq> 2" and g: "st code \<noteq> 1" by auto
    have kn: "code \<in> known c" using m known_Definition by blast
    have "st code = 0" using "2.prems"(1) g w by (auto simp: dfs_inv_def le_Suc_eq numeral_2_eq_2)
    then have "white c (st(code := 1)) = white c st - {code}" "code \<in> white c st"
      using kn by (auto simp: white_def)
    moreover have "finite (white c st)" by (simp add: white_def)
    ultimately have "card (white c (st(code := 1))) = card (white c st) - 1" "0 < card (white c st)"
      by (auto simp: card_Diff_singleton card_gt_0_iff)
    then have "card (white c (st(code := 1))) < n" using "2.prems"(2) by linarith
    moreover have "dfs_inv c (st(code := 1))" using dfs_inv_open "2.prems"(1) g w kn by blast
    ultimately have "visit_all c n (st(code := 1)) (mod_Dependencies m) \<noteq> None"
      using "2.IH" [OF g w m] by blast
    with g w m show ?thesis by (auto split: option.splits sum.splits)
  qed
next
  case (3 c n st)
  then show ?case by simp
next
  case (4 c n st d ds)
  then obtain r where r: "visit c n st d = Some r" by auto
  show ?case
  proof (cases r)
    case (Inr s1)
    with r visit_keeps_inv(1) "4.prems"(1)
    have s1: "dfs_inv c s1" "dfs_step st s1" by blast+
    then have "card (white c s1) < n" using white_mono "4.prems"(2) le_less_trans by blast
    with "4.IH"(2) [OF r Inr s1(1)] r Inr show ?thesis by simp
  qed (use r in simp)
qed

lemma visit_all_start:
  assumes "distinct (map mod_Code c)"
  shows "case visit_all c (Suc (length c)) (\<lambda>_. 0) (map mod_Code c) of
           None \<Rightarrow> False
         | Some (Inl e) \<Rightarrow> \<not> acyclic (dep_edges c)
         | Some (Inr st) \<Rightarrow> acyclic (dep_edges c)"
proof -
  let ?r = "visit_all c (Suc (length c)) (\<lambda>_. 0) (map mod_Code c)"
  have inv: "dfs_inv c (\<lambda>_. 0)" by (simp add: dfs_inv_def acyclic_def)
  have "card (white c (\<lambda>_. 0)) \<le> length c"
    by (simp add: white_def) (metis card_length length_map list.set_map)
  then have total: "?r \<noteq> None" using visit_total(2) [OF inv] by simp
  have snd: "acyclic (dep_edges c)" if "?r = Some (Inr st)" for st
  proof -
    have "dfs_inv c st" "\<forall>d \<in> set (map mod_Code c) \<inter> known c. st d = 2"
      using visit_keeps_inv(2) [OF that inv] by auto
    then have "dep_edges c \<inter> {x. st x = 2} \<times> {x. st x = 2} = dep_edges c"
      using dep_edges_known [of _ _ c] by fastforce
    with \<open>dfs_inv c st\<close> show ?thesis by (simp add: dfs_inv_def)
  qed
  have "?r \<noteq> Some (Inl e)" if "acyclic (dep_edges c)" for e
    using visit_no_error(2) [OF that inv] by simp
  with total snd show ?thesis by (auto split: option.split sum.split)
qed


subsection \<open>What validation means\<close>

definition entry_ok :: "ModuleDefinition \<Rightarrow> bool" where
  "entry_ok m \<longleftrightarrow>
     validCode (mod_Code m) \<and> mod_Version m \<noteq> 0 \<and>
     mod_TechnicalStatus m \<in> {''ready'', ''not_ready'', ''disabled''} \<and>
     (\<forall>keys \<in> {mod_Capabilities m, mod_QuotaKeys m, mod_FieldKeys m}.
        distinct keys \<and> (\<forall>k \<in> set keys. validCode k))"

text \<open>A catalogue with valid entries, unique module codes and one owner per capability.\<close>

definition catalog_wf :: "Catalog \<Rightarrow> bool" where
  "catalog_wf c \<longleftrightarrow>
     (\<forall>m \<in> set c. entry_ok m) \<and> distinct (map mod_Code c) \<and>
     (\<forall>m \<in> set c. \<forall>m' \<in> set c. \<forall>k.
        k \<in> set (mod_Capabilities m) \<longrightarrow> k \<in> set (mod_Capabilities m') \<longrightarrow> m = m')"

lemma group_error_None [simp]:
  "group_error keys = None \<longleftrightarrow> distinct keys \<and> (\<forall>k \<in> set keys. validCode k)"
  by (auto simp: group_error_def)

lemma claim_owners_spec:
  assumes "code \<noteq> []"
  shows "claim_owners code ow ks =
    (if \<forall>k \<in> set ks. ow k = None \<or> ow k = Some [] \<or> ow k = Some code
     then Some (\<lambda>k. if k \<in> set ks then Some code else ow k) else None)"
  using assms
proof (induction ks arbitrary: ow)
  case (Cons k ks)
  show ?case
    using Cons.prems by (simp add: Let_def Cons.IH fun_eq_iff split: option.split) auto
qed simp

lemma validCode_nonempty: "validCode s \<Longrightarrow> s \<noteq> []"
  by (auto simp: validCode_def dest: code_pattern_nonempty)

lemma Catalog_Validate_entries_spec:
  assumes "\<forall>k. ow k \<noteq> Some []"
  shows "Catalog_Validate_entries seen ow c = None \<longleftrightarrow>
     (\<forall>m \<in> set c. entry_ok m) \<and> distinct (map mod_Code c) \<and> known c \<inter> set seen = {} \<and>
     (\<forall>m \<in> set c. \<forall>k \<in> set (mod_Capabilities m). ow k = None \<or> ow k = Some (mod_Code m)) \<and>
     (\<forall>m \<in> set c. \<forall>m' \<in> set c. \<forall>k.
        k \<in> set (mod_Capabilities m) \<longrightarrow> k \<in> set (mod_Capabilities m') \<longrightarrow> m = m')"
    (is "?L seen ow c \<longleftrightarrow> ?R seen ow c")
  using assms
proof (induction c arbitrary: seen ow)
  case (Cons m c)
  let ?ow = "\<lambda>k. if k \<in> set (mod_Capabilities m) then Some (mod_Code m) else ow k"
  show ?case
  proof (cases "entry_ok m \<and> mod_Code m \<notin> set seen \<and>
      (\<forall>k \<in> set (mod_Capabilities m). ow k = None \<or> ow k = Some (mod_Code m))")
    case True
    then have ne: "mod_Code m \<noteq> []" by (auto simp: entry_ok_def dest: validCode_nonempty)
    have "claim_owners (mod_Code m) ow (mod_Capabilities m) = Some ?ow"
      using True by (subst claim_owners_spec [OF ne]) auto
    moreover have "for_each_err group_error [mod_Capabilities m, mod_QuotaKeys m, mod_FieldKeys m] = None"
      using True unfolding for_each_err_None by (auto simp: entry_ok_def)
    ultimately have "?L seen ow (m # c) \<longleftrightarrow> ?L (mod_Code m # seen) ?ow c"
      using True by (auto simp: entry_ok_def simp del: for_each_err.simps for_each_err_None)
    also have "\<dots> \<longleftrightarrow> ?R (mod_Code m # seen) ?ow c"
      using Cons.prems ne by (intro Cons.IH) auto
    also have "\<dots> \<longleftrightarrow> ?R seen ow (m # c)"
      using True by (auto split: if_splits) (metis imageI)
    finally show ?thesis .
  next
    case False
    then have "\<not> ?L seen ow (m # c)"
      using Cons.prems for_each_err_None [of group_error "[mod_Capabilities m, mod_QuotaKeys m, mod_FieldKeys m]"]
      by (auto simp: entry_ok_def claim_owners_spec [OF validCode_nonempty]
          simp del: for_each_err.simps for_each_err_None split: if_splits option.splits)
    with False show ?thesis by auto
  qed
qed simp

lemma Catalog_Validate_iff:
  "Catalog_Validate c = None \<longleftrightarrow> catalog_wf c \<and> acyclic (dep_edges c)"
proof -
  have e: "Catalog_Validate_entries [] Map.empty c = None \<longleftrightarrow> catalog_wf c"
    by (subst Catalog_Validate_entries_spec) (auto simp: catalog_wf_def)
  show ?thesis
  proof (cases "catalog_wf c")
    case True
    then have "distinct (map mod_Code c)" by (simp add: catalog_wf_def)
    from visit_all_start [OF this] e True show ?thesis
      by (auto simp: Catalog_Validate_def split: option.splits sum.splits)
  next
    case False
    with e show ?thesis by (auto simp: Catalog_Validate_def split: option.splits)
  qed
qed

lemma Catalog_Validate_distinct: "Catalog_Validate c = None \<Longrightarrow> distinct (map mod_Code c)"
  by (simp add: Catalog_Validate_iff catalog_wf_def)


section \<open>Properties of sources\<close>

lemma Source_Active_iff:
  "Source_Active s at \<longleftrightarrow>
     src_EffectiveAt s \<le> at \<and>
     (case src_RevokedAt s of None \<Rightarrow> True | Some r \<Rightarrow> at < r) \<and>
     (case src_ExpiresAt s of None \<Rightarrow> True | Some e \<Rightarrow> at < e)"
  by (auto simp: Source_Active_def Source_State_def split: option.splits)

lemma Source_Active_interval:
  "Source_Active s at \<longleftrightarrow>
     src_EffectiveAt s \<le> at \<and> (case source_end s of None \<Rightarrow> True | Some e \<Rightarrow> at < e)"
  by (auto simp: Source_Active_iff source_end_def split: option.splits)

lemma Source_Validate_shape: "Source_Validate s c = None \<Longrightarrow> Source_ValidateShape s = None"
  by (auto simp: Source_Validate_def split: option.splits)

lemma Source_Validate_common: "Source_Validate s c = None \<Longrightarrow> shape_common s"
  by (drule Source_Validate_shape) (auto simp: Source_ValidateShape_def split: if_splits)

lemma Source_Validate_limit: "Source_Validate s c = None \<Longrightarrow> Limit_Valid (src_Limit s)"
  by (drule Source_Validate_common) (simp add: shape_common_def)

text \<open>
  At any instant, at most one override replacement of a quota is live. Sources have distinct
  identifiers, so two different elements of the list are two different sources.
\<close>

definition single_replacement :: "Source list \<Rightarrow> bool" where
  "single_replacement ss \<longleftrightarrow>
     (\<forall>s \<in> set ss. \<forall>s' \<in> set ss. \<forall>at.
        src_ID s \<noteq> src_ID s' \<longrightarrow> replacement_rivals s s' \<longrightarrow>
        \<not> (Source_Active s at \<and> Source_Active s' at))"

lemma replacement_rivals_sym: "replacement_rivals s s' \<longleftrightarrow> replacement_rivals s' s"
  by (auto simp: replacement_rivals_def)

lemma append_conflicts_None:
  "append_conflicts ss incoming = None \<longleftrightarrow>
     (\<forall>s \<in> set ss. src_ID s \<noteq> src_ID incoming \<and> src_TenantID s = src_TenantID incoming \<and>
        (replacement_rivals s incoming \<longrightarrow>
           optional (\<lambda>e. \<not> e > src_EffectiveAt s) (source_end s) \<or>
           \<not> ((case source_end s of None \<Rightarrow> True | Some e \<Rightarrow> src_EffectiveAt incoming < e) \<and>
              (case src_ExpiresAt incoming of None \<Rightarrow> True | Some x \<Rightarrow> src_EffectiveAt s < x))))"
  by (induction ss) auto

lemma rivals_disjoint:
  assumes "append_conflicts ss incoming = None" "s \<in> set ss" "replacement_rivals s incoming"
  shows "\<not> (Source_Active s at \<and> Source_Active incoming at)"
proof
  assume act: "Source_Active s at \<and> Source_Active incoming at"
  then have s: "src_EffectiveAt s \<le> at" "case source_end s of None \<Rightarrow> True | Some e \<Rightarrow> at < e"
    and i: "src_EffectiveAt incoming \<le> at"
      "case src_ExpiresAt incoming of None \<Rightarrow> True | Some e \<Rightarrow> at < e"
    by (simp_all add: Source_Active_interval [of s] Source_Active_iff [of incoming])
  from assms s i show False
    unfolding append_conflicts_None by (auto simp: optional_def split: option.splits)
qed

end
