(* ===== verification/Resolve.thy ===== *)
theory Resolve
  imports Entitlement
begin

section \<open>Entitlement resolution\<close>

text \<open>
  The package \<open>internal/commercial/domain/entitlement\<close>, file \<open>resolve.go\<close>: the pure
  function \<open>Resolve\<close> with its closures as definitions of their own (\<open>transition\<close>,
  \<open>active\<close>, \<open>capDenial\<close>, the memoised recursion \<open>moduleReason\<close>, \<open>explain\<close>
  with its dependency walk). A closure takes the variables it captures as its first arguments:
  the catalogue, the ordered sources and the evaluation instant. The recursions over module
  dependencies spend fuel and return \<open>None\<close> when it runs out; \<open>Resolve_total\<close> shows
  that the fuel \<open>Resolve\<close> gives is always enough.
\<close>

subsection \<open>Definitions\<close>

definition transition :: "time \<Rightarrow> time option \<Rightarrow> time option \<Rightarrow> time option" where
  "transition at next t =
     (case t of
        None \<Rightarrow> next
      | Some v \<Rightarrow>
        if v > at \<and> (case next of None \<Rightarrow> True | Some w \<Rightarrow> v < w) then Some v else next)"

definition identity :: "Source \<Rightarrow> string" where
  "identity s = src_SourceKind s @ ''/'' @ src_ID s"

fun check_sources ::
  "string \<Rightarrow> time \<Rightarrow> Catalog \<Rightarrow> string list \<Rightarrow> time option \<Rightarrow> Source list \<Rightarrow> ent_error + time option" where
  "check_sources tenant at c seen next [] = Inr next"
| "check_sources tenant at c seen next (s # ss) =
     (if src_TenantID s \<noteq> tenant then Inl Ent_ErrScope
      else case Source_Validate s c of
        Some e \<Rightarrow> Inl e
      | None \<Rightarrow>
        (if identity s \<in> set seen then Inl Ent_ErrInvalid
         else check_sources tenant at c (identity s # seen)
           (if Source_State s at \<noteq> ''revoked''
            then transition at (transition at (transition at next (Some (src_EffectiveAt s)))
                   (src_ExpiresAt s)) (src_RevokedAt s)
            else next) ss))"

definition active :: "Source list \<Rightarrow> time \<Rightarrow> string \<Rightarrow> string \<Rightarrow> string \<Rightarrow> string \<Rightarrow> string \<Rightarrow> bool" where
  "active ss at m k key action e \<longleftrightarrow>
     (\<exists>s \<in> set ss. src_ModuleCode s = m \<and> src_Kind s = k \<and> src_Key s = key \<and>
        src_Action s = action \<and> src_Effect s = e \<and> Source_Active s at)"

definition capDenial :: "Source list \<Rightarrow> time \<Rightarrow> string \<Rightarrow> string \<Rightarrow> string" where
  "capDenial ss at m key =
     (if active ss at m Kind_Capability key '''' SafetyDeny then ''SECURITY_DISABLED''
      else if active ss at m Kind_Capability key '''' Effect_Deny then ''CAPABILITY_DISABLED''
      else '''')"

text \<open>The \<open>switch\<close> of \<open>moduleReason\<close> up to the dependency loop.\<close>

definition local_reason :: "Source list \<Rightarrow> time \<Rightarrow> string \<Rightarrow> ModuleDefinition \<Rightarrow> string" where
  "local_reason ss at code m =
     (if active ss at code Kind_Module code '''' SafetyDeny then ''SECURITY_DISABLED''
      else if mod_TechnicalStatus m \<noteq> ''ready'' then ''TECHNICAL_UNAVAILABLE''
      else if active ss at code Kind_Module code '''' Effect_Deny then ''CAPABILITY_DISABLED''
      else let granted =
             (if mod_Capabilities m \<noteq> []
              then (\<exists>cap \<in> set (mod_Capabilities m).
                      capDenial ss at code cap = '''' \<and>
                      (active ss at code Kind_Module code '''' Effect_Grant \<or>
                       active ss at code Kind_Capability cap '''' Effect_Grant))
              else active ss at code Kind_Module code '''' Effect_Grant)
           in if granted then ''ALLOWED'' else ''MODULE_NOT_ENTITLED'')"

fun moduleReason :: "Catalog \<Rightarrow> Source list \<Rightarrow> time \<Rightarrow> nat \<Rightarrow> (string \<rightharpoonup> string) \<Rightarrow> string
       \<Rightarrow> (string \<times> (string \<rightharpoonup> string)) option"
  and dependenciesAllowed :: "Catalog \<Rightarrow> Source list \<Rightarrow> time \<Rightarrow> nat \<Rightarrow> (string \<rightharpoonup> string) \<Rightarrow> string list
       \<Rightarrow> (bool \<times> (string \<rightharpoonup> string)) option"
where
  "moduleReason c ss at 0 memo code = None"
| "moduleReason c ss at (Suc n) memo code =
     (case memo code of
        Some reason \<Rightarrow> Some (reason, memo)
      | None \<Rightarrow>
        (case Catalog_Definition c code of
           None \<Rightarrow> Some (''DEPENDENCY_UNAVAILABLE'', memo)
         | Some m \<Rightarrow>
           (let reason = local_reason ss at code m
            in if reason = ''ALLOWED'' then
                 (case dependenciesAllowed c ss at n memo (mod_Dependencies m) of
                    None \<Rightarrow> None
                  | Some (ok, memo') \<Rightarrow>
                    (let reason' = (if ok then ''ALLOWED'' else ''DEPENDENCY_UNAVAILABLE'')
                     in Some (reason', memo'(code \<mapsto> reason'))))
               else Some (reason, memo(code \<mapsto> reason)))))"
| "dependenciesAllowed c ss at n memo [] = Some (True, memo)"
| "dependenciesAllowed c ss at n memo (d # ds) =
     (case moduleReason c ss at n memo d of
        None \<Rightarrow> None
      | Some (reason, memo') \<Rightarrow>
        (if reason \<noteq> ''ALLOWED'' then Some (False, memo')
         else dependenciesAllowed c ss at n memo' ds))"

text \<open>The walk of \<open>explain\<close> over the dependencies; the map \<open>dependencies\<close> as a list.\<close>

fun dep_visit :: "Catalog \<Rightarrow> nat \<Rightarrow> string list \<Rightarrow> string \<Rightarrow> string list option"
  and dep_visit_all :: "Catalog \<Rightarrow> nat \<Rightarrow> string list \<Rightarrow> string list \<Rightarrow> string list option"
where
  "dep_visit c 0 seen code = None"
| "dep_visit c (Suc n) seen code =
     (if code \<in> set seen then Some seen
      else case Catalog_Definition c code of
        None \<Rightarrow> Some (code # seen)
      | Some m \<Rightarrow> dep_visit_all c n (code # seen) (mod_Dependencies m))"
| "dep_visit_all c n seen [] = Some seen"
| "dep_visit_all c n seen (d # ds) =
     (case dep_visit c n seen d of
        None \<Rightarrow> None
      | Some seen' \<Rightarrow> dep_visit_all c n seen' ds)"

definition explain_one :: "time \<Rightarrow> Decision \<Rightarrow> string list \<Rightarrow> Source \<Rightarrow> SourceExplanation list" where
  "explain_one at d dependencies s =
     (let relevant = (src_ModuleCode s = dec_ModuleCode d \<and>
            (src_Kind s = Kind_Module \<or>
             (src_Kind s = dec_Kind d \<and> src_Key s = dec_Key d \<and> src_Action s = dec_Action d) \<or>
             (dec_Kind d = Kind_Module \<and> src_Kind s = Kind_Capability)))
      in if \<not> relevant \<and> src_ModuleCode s \<notin> set dependencies then []
         else [\<lparr>exp_ID = src_ID s, exp_Kind = src_SourceKind s, exp_Effect = src_Effect s,
                exp_State = Source_State s at,
                exp_Disposition =
                  (if Source_Active s at then
                     (if src_ModuleCode s \<in> set dependencies then ''dependency''
                      else if src_Effect s = Effect_Deny \<or> src_Effect s = SafetyDeny then ''denies''
                      else if \<not> dec_Allowed d then ''limited''
                      else ''contributes'')
                   else ''inactive''),
                exp_Reason = src_Reason s, exp_ActorID = src_ActorID s\<rparr>])"

definition explain :: "Catalog \<Rightarrow> Source list \<Rightarrow> time \<Rightarrow> Decision \<Rightarrow> SourceExplanation list option" where
  "explain c ss at d =
     map_option (\<lambda>deps. concat (map (explain_one at d deps) ss))
       (case Catalog_Definition c (dec_ModuleCode d) of
          None \<Rightarrow> Some []
        | Some m \<Rightarrow> dep_visit_all c (Suc (length c)) [] (mod_Dependencies m))"

definition explained :: "Catalog \<Rightarrow> Source list \<Rightarrow> time \<Rightarrow> Decision \<Rightarrow> Decision option" where
  "explained c ss at d = map_option (\<lambda>es. d\<lparr>dec_Sources := es\<rparr>) (explain c ss at d)"

definition blank_decision :: Decision where
  "blank_decision = \<lparr>dec_Kind = '''', dec_ModuleCode = '''', dec_Key = '''', dec_Action = '''',
     dec_Allowed = False, dec_Reason = '''', dec_Limit = zero_limit, dec_Masked = False,
     dec_Sources = []\<rparr>"

definition module_decision :: "ModuleDefinition \<Rightarrow> string \<Rightarrow> Decision" where
  "module_decision m reason = blank_decision\<lparr>dec_Kind := Kind_Module, dec_ModuleCode := mod_Code m,
     dec_Key := mod_Code m, dec_Allowed := (reason = ''ALLOWED''), dec_Reason := reason\<rparr>"

definition capability_reason :: "Source list \<Rightarrow> time \<Rightarrow> ModuleDefinition \<Rightarrow> string \<Rightarrow> string \<Rightarrow> string" where
  "capability_reason ss at m reason cap =
     (let denied = capDenial ss at (mod_Code m) cap
      in if reason = ''SECURITY_DISABLED'' \<or> denied = ''SECURITY_DISABLED'' then ''SECURITY_DISABLED''
         else if reason = ''TECHNICAL_UNAVAILABLE'' then reason
         else if denied \<noteq> '''' then denied
         else if reason = ''ALLOWED'' \<and>
                 \<not> active ss at (mod_Code m) Kind_Module (mod_Code m) '''' Effect_Grant \<and>
                 \<not> active ss at (mod_Code m) Kind_Capability cap '''' Effect_Grant
              then ''MODULE_NOT_ENTITLED''
         else reason)"

definition capability_decision :: "Source list \<Rightarrow> time \<Rightarrow> ModuleDefinition \<Rightarrow> string \<Rightarrow> string \<Rightarrow> Decision" where
  "capability_decision ss at m reason cap =
     (let r = capability_reason ss at m reason cap
      in blank_decision\<lparr>dec_Kind := Kind_Capability, dec_ModuleCode := mod_Code m, dec_Key := cap,
           dec_Allowed := (r = ''ALLOWED''), dec_Reason := r\<rparr>)"

text \<open>The loop over the additions of a quota; \<open>None\<close> is the overflow branch.\<close>

fun add_quota :: "Limit \<Rightarrow> Source list \<Rightarrow> Limit option" where
  "add_quota l [] = Some l"
| "add_quota l (s # ss) =
     (if Unlimited l then Some l
      else if Value (src_Limit s) > MaxInt64 - Value l then None
      else add_quota (l\<lparr>Value := Value l + Value (src_Limit s)\<rparr>) ss)"

definition quota_sources :: "Source list \<Rightarrow> time \<Rightarrow> string \<Rightarrow> string \<Rightarrow> Source list" where
  "quota_sources ss at m key =
     filter (\<lambda>s. \<not> (src_Kind s \<noteq> Kind_Quota \<or> src_ModuleCode s \<noteq> m \<or> src_Key s \<noteq> key \<or>
                    \<not> Source_Active s at)) ss"

definition quota_additions :: "Source list \<Rightarrow> Source list" where
  "quota_additions qs = filter (\<lambda>s. src_Effect s = QuotaAdd) qs"
definition quota_replacements :: "Source list \<Rightarrow> Source list" where
  "quota_replacements qs =
     filter (\<lambda>s. src_Effect s \<noteq> QuotaAdd \<and> src_SourceKind s = OverrideSource) qs"
definition quota_base :: "Source list \<Rightarrow> Source list" where
  "quota_base qs =
     filter (\<lambda>s. src_Effect s \<noteq> QuotaAdd \<and> src_SourceKind s \<noteq> OverrideSource) qs"

definition quota_outcome :: "string \<Rightarrow> Source list \<Rightarrow> bool \<times> string \<times> Limit" where
  "quota_outcome reason qs =
     (let replacements = quota_replacements qs; base = quota_base qs;
          allowed = (reason = ''ALLOWED'')
      in if length replacements > 1 \<or> (length replacements = 0 \<and> length base > 1)
           then (False, ''QUOTA_CONFIGURATION_CONFLICT'', zero_limit)
         else if length replacements = 1 then (allowed, reason, src_Limit (hd replacements))
         else case add_quota (if length base = 1 then src_Limit (hd base) else zero_limit)
                     (quota_additions qs) of
                None \<Rightarrow> (False, ''QUOTA_OVERFLOW'', zero_limit)
              | Some l \<Rightarrow> (allowed, reason, l))"

definition quota_decision :: "Source list \<Rightarrow> time \<Rightarrow> ModuleDefinition \<Rightarrow> string \<Rightarrow> string \<Rightarrow> Decision" where
  "quota_decision ss at m reason key =
     (case quota_outcome reason (quota_sources ss at (mod_Code m) key) of (allowed, r, l) \<Rightarrow>
        blank_decision\<lparr>dec_Kind := Kind_Quota, dec_ModuleCode := mod_Code m, dec_Key := key,
          dec_Allowed := allowed,
          dec_Reason := (if allowed \<and> \<not> Unlimited l \<and> Value l = 0 then ''ZERO_QUOTA'' else r),
          dec_Limit := l\<rparr>)"

definition mark_overridden :: "Source list \<Rightarrow> Decision \<Rightarrow> Decision" where
  "mark_overridden replacements d =
     (if length replacements = 1 then
        d\<lparr>dec_Sources := map (\<lambda>e.
            if exp_State e = ''active'' \<and> (exp_Effect e = QuotaAdd \<or> exp_Effect e = QuotaReplace) \<and>
               (exp_ID e \<noteq> src_ID (hd replacements) \<or> exp_Kind e \<noteq> OverrideSource)
            then e\<lparr>exp_Disposition := ''overridden_by_replacement''\<rparr> else e) (dec_Sources d)\<rparr>
      else d)"

definition field_reason :: "Source list \<Rightarrow> time \<Rightarrow> ModuleDefinition \<Rightarrow> string \<Rightarrow> string \<Rightarrow> string \<Rightarrow> string" where
  "field_reason ss at m reason key action =
     (if reason = ''SECURITY_DISABLED'' \<or> active ss at (mod_Code m) Kind_Field key action SafetyDeny
        then ''SECURITY_DISABLED''
      else if reason = ''TECHNICAL_UNAVAILABLE'' then reason
      else if active ss at (mod_Code m) Kind_Field key action Effect_Deny then ''FIELD_DISABLED''
      else if reason = ''ALLOWED'' \<and> \<not> active ss at (mod_Code m) Kind_Field key action Effect_Grant
        then ''FIELD_NOT_ENTITLED''
      else reason)"

definition field_decision :: "Source list \<Rightarrow> time \<Rightarrow> ModuleDefinition \<Rightarrow> string \<Rightarrow> string \<Rightarrow> string \<Rightarrow> Decision" where
  "field_decision ss at m reason key action =
     (let r = field_reason ss at m reason key action
      in blank_decision\<lparr>dec_Kind := Kind_Field, dec_ModuleCode := mod_Code m, dec_Key := key,
           dec_Action := action, dec_Allowed := (r = ''ALLOWED''), dec_Reason := r,
           dec_Masked := active ss at (mod_Code m) Kind_Field key action SafetyMask\<rparr>)"

text \<open>All decisions of one module, in the order the source appends them.\<close>

fun collect :: "'a option list \<Rightarrow> 'a list option" where
  "collect [] = Some []"
| "collect (x # xs) =
     (case x of None \<Rightarrow> None | Some v \<Rightarrow> map_option (\<lambda>vs. v # vs) (collect xs))"

definition module_decisions ::
  "Catalog \<Rightarrow> Source list \<Rightarrow> time \<Rightarrow> ModuleDefinition \<Rightarrow> string \<Rightarrow> Decision list option" where
  "module_decisions c ss at m reason =
     collect (
       [explained c ss at (module_decision m reason)] @
       map (\<lambda>cap. explained c ss at (capability_decision ss at m reason cap)) (sort (mod_Capabilities m)) @
       map (\<lambda>key. map_option
              (mark_overridden (quota_replacements (quota_sources ss at (mod_Code m) key)))
              (explained c ss at (quota_decision ss at m reason key))) (sort (mod_QuotaKeys m)) @
       concat (map (\<lambda>key. map (\<lambda>action. explained c ss at (field_decision ss at m reason key action))
              [''read'', ''write'', ''export'']) (sort (mod_FieldKeys m))))"

fun resolve_modules ::
  "Catalog \<Rightarrow> Source list \<Rightarrow> time \<Rightarrow> (string \<rightharpoonup> string) \<Rightarrow> ModuleDefinition list \<Rightarrow> Decision list option" where
  "resolve_modules c ss at memo [] = Some []"
| "resolve_modules c ss at memo (m # ms) =
     (case moduleReason c ss at (length c + 2) memo (mod_Code m) of
        None \<Rightarrow> None
      | Some (reason, memo') \<Rightarrow>
        (case module_decisions c ss at m reason of
           None \<Rightarrow> None
         | Some ds \<Rightarrow> map_option (\<lambda>rest. ds @ rest) (resolve_modules c ss at memo' ms)))"

definition known_capabilities :: "Catalog \<Rightarrow> string list" where
  "known_capabilities c = concat (map mod_Capabilities c)"

definition unknown_decision :: "string \<Rightarrow> Decision" where
  "unknown_decision key =
     blank_decision\<lparr>dec_Kind := Kind_Capability, dec_Key := key, dec_Reason := ''UNKNOWN_CAPABILITY''\<rparr>"

definition ordered_sources :: "Source list \<Rightarrow> Source list" where
  "ordered_sources sources = sort_key (\<lambda>s. (src_SourceKind s, src_ID s)) sources"

definition Resolve ::
  "string \<Rightarrow> uint64 \<Rightarrow> time \<Rightarrow> Catalog \<Rightarrow> Source list \<Rightarrow> string list \<Rightarrow> (ent_error + EntResult) option" where
  "Resolve tenant revision at c sources requested =
     (if tenant = '''' \<or> IsZero at then Some (Inl Ent_ErrInvalid)
      else case Catalog_Validate c of
        Some e \<Rightarrow> Some (Inl e)
      | None \<Rightarrow>
        (let ordered = ordered_sources sources
         in case check_sources tenant at c [] None ordered of
              Inl e \<Rightarrow> Some (Inl e)
            | Inr next \<Rightarrow>
              (case resolve_modules c ordered at Map.empty (sort_key mod_Code c) of
                 None \<Rightarrow> None
               | Some decisions \<Rightarrow>
                 if \<exists>key \<in> set requested. \<not> validCode key then Some (Inl Ent_ErrInvalid)
                 else Some (Inr
                   \<lparr>res_EntitlementVersion = 0, res_CatalogRevision = 0,
                    res_PermissionVersion = '''', res_PermissionSubject = '''',
                    res_TenantID = tenant, res_SourceVersion = revision, res_ResolverVersion = 1,
                    res_EvaluatedAt = at, res_ValidUntil = next, res_NextTransitionAt = next,
                    res_CatalogVersions =
                      map (\<lambda>m. \<lparr>cv_ModuleCode = mod_Code m, cv_Version = mod_Version m\<rparr>)
                        (sort_key mod_Code c),
                    res_Decisions = decisions @
                      map unknown_decision (sort (remdups
                        (filter (\<lambda>key. key \<notin> set (known_capabilities c)) requested)))\<rparr>))))"

section \<open>The reference semantics of entitlement\<close>

text \<open>
  A module is entitled when nothing local refuses it and every dependency is entitled: the
  least fixed point that \<open>moduleReason\<close> computes with its memo table.
\<close>

inductive entitled :: "Catalog \<Rightarrow> Source list \<Rightarrow> time \<Rightarrow> string \<Rightarrow> bool" for c ss at where
  entitledI: "Catalog_Definition c code = Some m \<Longrightarrow> local_reason ss at code m = ''ALLOWED'' \<Longrightarrow>
     \<forall>d \<in> set (mod_Dependencies m). entitled c ss at d \<Longrightarrow> entitled c ss at code"

inductive_simps entitled_iff: "entitled c ss at code"

definition reason_ref :: "Catalog \<Rightarrow> Source list \<Rightarrow> time \<Rightarrow> string \<Rightarrow> string" where
  "reason_ref c ss at code =
     (case Catalog_Definition c code of
        None \<Rightarrow> ''DEPENDENCY_UNAVAILABLE''
      | Some m \<Rightarrow>
        if local_reason ss at code m = ''ALLOWED''
        then (if \<forall>d \<in> set (mod_Dependencies m). entitled c ss at d
              then ''ALLOWED'' else ''DEPENDENCY_UNAVAILABLE'')
        else local_reason ss at code m)"

lemma reason_ref_allowed: "reason_ref c ss at code = ''ALLOWED'' \<longleftrightarrow> entitled c ss at code"
  by (subst entitled_iff) (auto simp: reason_ref_def split: option.splits)

subsection \<open>Fuel: how deep the dependencies are\<close>

definition rank :: "Catalog \<Rightarrow> string \<Rightarrow> nat" where
  "rank c code = card ((dep_edges c)\<^sup>+ `` {code})"

lemma deps_reach_known: "(dep_edges c)\<^sup>+ `` {code} \<subseteq> known c"
  by (auto dest!: tranclD2 dest: dep_edges_known)

lemma rank_le_length: "rank c code \<le> length c"
proof -
  have "rank c code \<le> card (known c)"
    unfolding rank_def by (rule card_mono) (simp_all add: deps_reach_known)
  also have "\<dots> \<le> length c" by (metis card_length length_map list.set_map)
  finally show ?thesis .
qed

lemma rank_dep:
  assumes ac: "acyclic (dep_edges c)" and e: "(a, b) \<in> dep_edges c"
  shows "rank c b < rank c a"
  unfolding rank_def
proof (rule psubset_card_mono)
  show "finite ((dep_edges c)\<^sup>+ `` {a})"
    using deps_reach_known finite_known finite_subset by blast
  have "b \<in> (dep_edges c)\<^sup>+ `` {a}" "b \<notin> (dep_edges c)\<^sup>+ `` {b}"
    using ac e by (auto simp: acyclic_def)
  moreover have "(dep_edges c)\<^sup>+ `` {b} \<subseteq> (dep_edges c)\<^sup>+ `` {a}"
    using e by (auto intro: trancl_into_trancl2)
  ultimately show "(dep_edges c)\<^sup>+ `` {b} \<subset> (dep_edges c)\<^sup>+ `` {a}" by blast
qed

definition enough :: "Catalog \<Rightarrow> nat \<Rightarrow> string \<Rightarrow> bool" where
  "enough c n code \<longleftrightarrow> 1 \<le> n \<and> (code \<in> known c \<longrightarrow> rank c code + 2 \<le> n)"

lemma enough_length: "enough c (length c + 2) code"
  using rank_le_length by (auto simp: enough_def)

lemma enough_dep:
  assumes "acyclic (dep_edges c)" "enough c (Suc n) code" "Catalog_Definition c code = Some m"
    "d \<in> set (mod_Dependencies m)"
  shows "enough c n d"
proof -
  have "code \<in> known c" using assms(3) known_Definition by blast
  with assms(2) have n: "rank c code + 1 \<le> n" by (simp add: enough_def)
  have "rank c d < rank c code" if "d \<in> known c"
    using rank_dep [OF assms(1)] assms(3,4) that by (auto simp: dep_edges_def)
  with n show ?thesis by (auto simp: enough_def)
qed

subsection \<open>The memoised recursion computes the reference\<close>

definition memo_ok :: "Catalog \<Rightarrow> Source list \<Rightarrow> time \<Rightarrow> (string \<rightharpoonup> string) \<Rightarrow> bool" where
  "memo_ok c ss at memo \<longleftrightarrow> (\<forall>code r. memo code = Some r \<longrightarrow> r = reason_ref c ss at code)"

lemma memo_ok_empty [simp]: "memo_ok c ss at Map.empty"
  by (simp add: memo_ok_def)

lemma memo_ok_update:
  "memo_ok c ss at memo \<Longrightarrow> r = reason_ref c ss at code \<Longrightarrow> memo_ok c ss at (memo(code \<mapsto> r))"
  by (simp add: memo_ok_def)

lemma moduleReason_correct:
  "acyclic (dep_edges c) \<Longrightarrow> memo_ok c ss at memo \<Longrightarrow> enough c n code \<Longrightarrow>
     \<exists>memo'. moduleReason c ss at n memo code = Some (reason_ref c ss at code, memo') \<and>
       memo_ok c ss at memo'"
  "acyclic (dep_edges c) \<Longrightarrow> memo_ok c ss at memo \<Longrightarrow> \<forall>d \<in> set ds. enough c n d \<Longrightarrow>
     \<exists>memo'. dependenciesAllowed c ss at n memo ds =
         Some (\<forall>d \<in> set ds. entitled c ss at d, memo') \<and> memo_ok c ss at memo'"
proof (induction c ss at n memo code and c ss at n memo ds
    rule: moduleReason_dependenciesAllowed.induct)
  case (1 c ss at memo code)
  then show ?case by (simp add: enough_def)
next
  case (2 c ss at n memo code)
  show ?case
  proof (cases "memo code")
    case (Some r)
    with "2.prems"(2) show ?thesis by (simp add: memo_ok_def)
  next
    case None
    note memo = None
    show ?thesis
    proof (cases "Catalog_Definition c code")
      case None
      with memo "2.prems"(2) show ?thesis by (simp add: reason_ref_def)
    next
      case (Some m)
      show ?thesis
      proof (cases "local_reason ss at code m = ''ALLOWED''")
        case True
        have "\<forall>d \<in> set (mod_Dependencies m). enough c n d"
          using enough_dep "2.prems"(1,3) Some by blast
        then obtain memo' where
          "dependenciesAllowed c ss at n memo (mod_Dependencies m) =
             Some (\<forall>d \<in> set (mod_Dependencies m). entitled c ss at d, memo')" "memo_ok c ss at memo'"
          using "2.IH" [OF memo Some refl True "2.prems"(1,2)] by blast
        with memo Some True show ?thesis
          by (auto simp: reason_ref_def Let_def intro!: memo_ok_update)
      next
        case False
        with memo Some "2.prems"(2) show ?thesis
          by (auto simp: reason_ref_def Let_def intro!: memo_ok_update)
      qed
    qed
  qed
next
  case (3 c ss at n memo)
  then show ?case by simp
next
  case (4 c ss at n memo d ds)
  then obtain memo' where m: "moduleReason c ss at n memo d = Some (reason_ref c ss at d, memo')"
    and ok: "memo_ok c ss at memo'" by auto
  show ?case
  proof (cases "entitled c ss at d")
    case True
    then have r: "reason_ref c ss at d = ''ALLOWED''" by (simp add: reason_ref_allowed)
    then have "\<exists>memo''. dependenciesAllowed c ss at n memo' ds =
         Some (\<forall>d \<in> set ds. entitled c ss at d, memo'') \<and> memo_ok c ss at memo''"
      using "4.IH"(2) [OF m refl] "4.prems" ok by simp
    with m r True show ?thesis by auto
  next
    case False
    then have "reason_ref c ss at d \<noteq> ''ALLOWED''" by (simp add: reason_ref_allowed)
    with m ok False show ?thesis by auto
  qed
qed

subsection \<open>The dependency walk of explain\<close>

definition all_edges :: "Catalog \<Rightarrow> (string \<times> string) set" where
  "all_edges c = {(a, b). \<exists>m. Catalog_Definition c a = Some m \<and> b \<in> set (mod_Dependencies m)}"

lemma dep_visit_total:
  "card (known c - set seen) < n \<Longrightarrow> \<exists>r. dep_visit c n seen code = Some r \<and> set seen \<subseteq> set r"
  "card (known c - set seen) < n \<Longrightarrow> \<exists>r. dep_visit_all c n seen ds = Some r \<and> set seen \<subseteq> set r"
proof (induction c n seen code and c n seen ds rule: dep_visit_dep_visit_all.induct)
  case (1 c seen code)
  then show ?case by simp
next
  case (2 c n seen code)
  show ?case
  proof (cases "code \<in> set seen \<or> Catalog_Definition c code = None")
    case True
    then show ?thesis by auto
  next
    case False
    then obtain m where new: "code \<notin> set seen" and m: "Catalog_Definition c code = Some m" by auto
    have "known c - set (code # seen) \<subset> known c - set seen"
      using new m known_Definition [of code c] by auto
    then have "card (known c - set (code # seen)) < card (known c - set seen)"
      by (intro psubset_card_mono) auto
    with "2.prems" have "card (known c - set (code # seen)) < n" by linarith
    from "2.IH" [OF new m this] show ?thesis using new m by auto
  qed
next
  case (3 c n seen)
  then show ?case by simp
next
  case (4 c n seen d ds)
  then obtain r where r: "dep_visit c n seen d = Some r" "set seen \<subseteq> set r" by blast
  then have "card (known c - set r) \<le> card (known c - set seen)"
    by (intro card_mono) auto
  then have "card (known c - set r) < n" using "4.prems" by linarith
  from "4.IH"(2) [OF r(1) this] r show ?case by auto
qed

lemma dep_visit_sound:
  "dep_visit c n seen code = Some r \<Longrightarrow>
     code \<in> set r \<and> set seen \<subseteq> set r \<and> (\<forall>x \<in> set r - set seen. \<forall>y. (x, y) \<in> all_edges c \<longrightarrow> y \<in> set r) \<and>
     set r \<subseteq> set seen \<union> (all_edges c)\<^sup>* `` {code}"
  "dep_visit_all c n seen ds = Some r \<Longrightarrow>
     set ds \<subseteq> set r \<and> set seen \<subseteq> set r \<and> (\<forall>x \<in> set r - set seen. \<forall>y. (x, y) \<in> all_edges c \<longrightarrow> y \<in> set r) \<and>
     set r \<subseteq> set seen \<union> (all_edges c)\<^sup>* `` set ds"
proof (induction c n seen code and c n seen ds arbitrary: r and r rule: dep_visit_dep_visit_all.induct)
  case (1 c seen code)
  then show ?case by simp
next
  case (2 c n seen code)
  show ?case
  proof (cases "code \<in> set seen \<or> Catalog_Definition c code = None")
    case True
    with "2.prems" show ?thesis by (auto simp: all_edges_def split: if_splits)
  next
    case False
    then obtain m where new: "code \<notin> set seen" and m: "Catalog_Definition c code = Some m" by auto
    with "2.prems" have r: "dep_visit_all c n (code # seen) (mod_Dependencies m) = Some r" by simp
    note IH = "2.IH" [OF new m r]
    have up: "(all_edges c)\<^sup>* `` set (mod_Dependencies m) \<subseteq> (all_edges c)\<^sup>* `` {code}"
      using m by (auto simp: all_edges_def intro: converse_rtrancl_into_rtrancl)
    have out: "\<forall>y. (code, y) \<in> all_edges c \<longrightarrow> y \<in> set r"
      using IH m by (auto simp: all_edges_def)
    show ?thesis
    proof (intro conjI)
      show "code \<in> set r" "set seen \<subseteq> set r" using IH by auto
      show "\<forall>x \<in> set r - set seen. \<forall>y. (x, y) \<in> all_edges c \<longrightarrow> y \<in> set r"
        using IH out by (metis DiffD1 DiffD2 DiffI set_ConsD)
      have "set r \<subseteq> insert code (set seen) \<union> (all_edges c)\<^sup>* `` set (mod_Dependencies m)"
        using IH by simp
      with up show "set r \<subseteq> set seen \<union> (all_edges c)\<^sup>* `` {code}" by blast
    qed
  qed
next
  case (3 c n seen)
  then show ?case by simp
next
  case (4 c n seen d ds)
  from "4.prems" obtain r1 where r1: "dep_visit c n seen d = Some r1"
    and r: "dep_visit_all c n r1 ds = Some r"
    by (auto split: option.splits)
  note a = "4.IH"(1) [OF r1] and b = "4.IH"(2) [OF r1 r]
  show ?case
  proof (intro conjI)
    show "set (d # ds) \<subseteq> set r" using a b by auto
    show "set seen \<subseteq> set r" using a b by blast
    show "\<forall>x \<in> set r - set seen. \<forall>y. (x, y) \<in> all_edges c \<longrightarrow> y \<in> set r"
      using a b by (metis DiffD1 DiffD2 DiffI subset_iff)
    have "(all_edges c)\<^sup>* `` set (d # ds) = (all_edges c)\<^sup>* `` {d} \<union> (all_edges c)\<^sup>* `` set ds"
      by auto
    with a b show "set r \<subseteq> set seen \<union> (all_edges c)\<^sup>* `` set (d # ds)" by blast
  qed
qed

lemma dep_visit_all_closure:
  assumes "Catalog_Definition c code = Some m"
  shows "\<exists>r. dep_visit_all c (Suc (length c)) [] (mod_Dependencies m) = Some r \<and>
    set r = (all_edges c)\<^sup>+ `` {code}"
proof -
  have "card (known c) \<le> length c" by (metis card_length length_map list.set_map)
  then obtain r where r: "dep_visit_all c (Suc (length c)) [] (mod_Dependencies m) = Some r"
    using dep_visit_total(2) [of c "[]" "Suc (length c)"] by force
  from dep_visit_sound(2) [OF this]
  have ds: "set (mod_Dependencies m) \<subseteq> set r"
    and cl: "\<And>x y. x \<in> set r \<Longrightarrow> (x, y) \<in> all_edges c \<Longrightarrow> y \<in> set r"
    and sub: "set r \<subseteq> (all_edges c)\<^sup>* `` set (mod_Dependencies m)" by auto
  have e: "(code, d) \<in> all_edges c \<longleftrightarrow> d \<in> set (mod_Dependencies m)" for d
    using assms by (auto simp: all_edges_def)
  have "y \<in> set r" if "(code, y) \<in> (all_edges c)\<^sup>+" for y
    using that by (induction rule: trancl_induct) (use ds e cl in auto)
  moreover have "(code, y) \<in> (all_edges c)\<^sup>+" if "y \<in> set r" for y
    using sub that e by (auto intro: rtrancl_into_trancl2)
  ultimately show ?thesis using r by blast
qed

lemma explain_total: "\<exists>es. explain c ss at d = Some es"
  using dep_visit_all_closure [of c "dec_ModuleCode d"]
  by (fastforce simp: explain_def split: option.split)

subsection \<open>The decisions of a resolution\<close>

text \<open>The decisions without their explanations.\<close>

definition plain :: "Decision \<Rightarrow> Decision" where
  "plain d = d\<lparr>dec_Sources := []\<rparr>"

definition plain_decisions :: "Source list \<Rightarrow> time \<Rightarrow> ModuleDefinition \<Rightarrow> string \<Rightarrow> Decision list" where
  "plain_decisions ss at m reason =
     [module_decision m reason] @
     map (capability_decision ss at m reason) (sort (mod_Capabilities m)) @
     map (quota_decision ss at m reason) (sort (mod_QuotaKeys m)) @
     concat (map (\<lambda>key. map (field_decision ss at m reason key) [''read'', ''write'', ''export''])
       (sort (mod_FieldKeys m)))"

lemma explained_plain: "\<exists>d'. explained c ss at d = Some d' \<and> plain d' = plain d"
  using explain_total [of c ss at d] by (auto simp: explained_def plain_def)

lemma plain_blank [simp]:
  "plain (module_decision m r) = module_decision m r"
  "plain (capability_decision ss at m r cap) = capability_decision ss at m r cap"
  "plain (quota_decision ss at m r key) = quota_decision ss at m r key"
  "plain (field_decision ss at m r key a) = field_decision ss at m r key a"
  "plain (unknown_decision key) = unknown_decision key"
  by (simp_all add: plain_def module_decision_def capability_decision_def quota_decision_def
      field_decision_def unknown_decision_def blank_decision_def Let_def split: prod.split)

lemma plain_mark [simp]: "plain (mark_overridden rs d) = plain d"
  by (simp add: plain_def mark_overridden_def)

lemma collect_plain:
  "\<forall>x \<in> set xs. \<exists>d. x = Some d \<Longrightarrow> \<exists>ds. collect xs = Some ds \<and> map plain ds = map (plain \<circ> the) xs"
  by (induction xs) auto

lemma explained_the_plain [simp]: "plain (the (explained c ss at d)) = plain d"
  using explained_plain [of c ss at d] by auto

lemma explained_mark_plain [simp]:
  "plain (the (map_option (mark_overridden rs) (explained c ss at d))) = plain d"
  using explained_plain [of c ss at d] by auto

lemma module_decisions_plain:
  "\<exists>ds. module_decisions c ss at m reason = Some ds \<and> map plain ds = plain_decisions ss at m reason"
proof -
  let ?xs = "[explained c ss at (module_decision m reason)] @
       map (\<lambda>cap. explained c ss at (capability_decision ss at m reason cap)) (sort (mod_Capabilities m)) @
       map (\<lambda>key. map_option
              (mark_overridden (quota_replacements (quota_sources ss at (mod_Code m) key)))
              (explained c ss at (quota_decision ss at m reason key))) (sort (mod_QuotaKeys m)) @
       concat (map (\<lambda>key. map (\<lambda>action. explained c ss at (field_decision ss at m reason key action))
              [''read'', ''write'', ''export'']) (sort (mod_FieldKeys m)))"
  have some: "\<exists>d'. explained c ss at d = Some d'" for d
    using explained_plain by blast
  have "\<exists>ds. collect ?xs = Some ds \<and> map plain ds = map (plain \<circ> the) ?xs"
    by (rule collect_plain) (auto simp: some)
  moreover have "map (plain \<circ> the) ?xs = plain_decisions ss at m reason"
    by (simp add: plain_decisions_def map_concat comp_def)
  ultimately show ?thesis by (simp add: module_decisions_def)
qed

lemma resolve_modules_plain:
  assumes "acyclic (dep_edges c)" "memo_ok c ss at memo"
  shows "\<exists>ds. resolve_modules c ss at memo ms = Some ds \<and>
    map plain ds = concat (map (\<lambda>m. plain_decisions ss at m (reason_ref c ss at (mod_Code m))) ms)"
  using assms(2)
proof (induction ms arbitrary: memo)
  case (Cons m ms)
  obtain memo' where r: "moduleReason c ss at (length c + 2) memo (mod_Code m) =
      Some (reason_ref c ss at (mod_Code m), memo')" and ok: "memo_ok c ss at memo'"
    using moduleReason_correct(1) [OF assms(1) Cons.prems enough_length] by blast
  obtain ds where ds: "module_decisions c ss at m (reason_ref c ss at (mod_Code m)) = Some ds"
    "map plain ds = plain_decisions ss at m (reason_ref c ss at (mod_Code m))"
    using module_decisions_plain by blast
  from Cons.IH [OF ok] r ds show ?case by auto
qed simp

lemma Resolve_defined: "Resolve tenant revision at c sources requested \<noteq> None"
proof (cases "Catalog_Validate c")
  case None
  then have "acyclic (dep_edges c)" by (simp add: Catalog_Validate_iff)
  from resolve_modules_plain [OF this memo_ok_empty] obtain ds where
    "resolve_modules c (ordered_sources sources) at Map.empty (sort_key mod_Code c) = Some ds" by blast
  with None show ?thesis by (auto simp: Resolve_def Let_def split: sum.split)
qed (simp add: Resolve_def)

text \<open>Inversion of a successful resolution: what was checked and what is returned.\<close>

lemma Resolve_success:
  assumes "Resolve tenant revision at c sources requested = Some (Inr r)"
  shows "tenant \<noteq> ''''" "\<not> IsZero at" "Catalog_Validate c = None"
    "check_sources tenant at c [] None (ordered_sources sources) = Inr (res_ValidUntil r)"
    "\<forall>key \<in> set requested. validCode key"
    "res_TenantID r = tenant" "res_SourceVersion r = revision" "res_EvaluatedAt r = at"
    "res_NextTransitionAt r = res_ValidUntil r"
    "map plain (res_Decisions r) =
       concat (map (\<lambda>m. plain_decisions (ordered_sources sources) at m
                 (reason_ref c (ordered_sources sources) at (mod_Code m))) (sort_key mod_Code c)) @
       map unknown_decision (sort (remdups
         (filter (\<lambda>key. key \<notin> set (known_capabilities c)) requested)))"
proof -
  show t: "tenant \<noteq> ''''" "\<not> IsZero at" and v: "Catalog_Validate c = None"
    using assms by (auto simp: Resolve_def split: if_splits option.splits)
  obtain ds where ds: "resolve_modules c (ordered_sources sources) at Map.empty (sort_key mod_Code c) = Some ds"
    "map plain ds = concat (map (\<lambda>m. plain_decisions (ordered_sources sources) at m
                 (reason_ref c (ordered_sources sources) at (mod_Code m))) (sort_key mod_Code c))"
    using resolve_modules_plain [OF _ memo_ok_empty] v Catalog_Validate_iff by blast
  show "check_sources tenant at c [] None (ordered_sources sources) = Inr (res_ValidUntil r)"
    "\<forall>key \<in> set requested. validCode key"
    "res_TenantID r = tenant" "res_SourceVersion r = revision" "res_EvaluatedAt r = at"
    "res_NextTransitionAt r = res_ValidUntil r"
    using assms t v ds by (auto simp: Resolve_def Let_def split: sum.splits if_splits)
  have "res_Decisions r = ds @ map unknown_decision (sort (remdups
         (filter (\<lambda>key. key \<notin> set (known_capabilities c)) requested)))"
    using assms t v ds by (auto simp: Resolve_def Let_def split: sum.splits if_splits)
  with ds show "map plain (res_Decisions r) =
       concat (map (\<lambda>m. plain_decisions (ordered_sources sources) at m
                 (reason_ref c (ordered_sources sources) at (mod_Code m))) (sort_key mod_Code c)) @
       map unknown_decision (sort (remdups
         (filter (\<lambda>key. key \<notin> set (known_capabilities c)) requested)))"
    by (simp add: comp_def)
qed

subsection \<open>Order of the sources\<close>

lemma set_ordered_sources [simp]: "set (ordered_sources ss) = set ss"
  by (simp add: ordered_sources_def)

lemma active_ordered [simp]: "active (ordered_sources ss) = active ss"
  by (intro ext) (simp add: active_def)

lemma capDenial_ordered [simp]: "capDenial (ordered_sources ss) = capDenial ss"
  by (intro ext) (simp add: capDenial_def)

lemma local_reason_ordered [simp]: "local_reason (ordered_sources ss) = local_reason ss"
  by (intro ext) (simp only: local_reason_def active_ordered capDenial_ordered)

lemma entitled_mono_reason:
  assumes "entitled c ss at code" "local_reason ss = local_reason ss'"
  shows "entitled c ss' at code"
  using assms(1)
proof (induction rule: entitled.induct)
  case (entitledI code m)
  then show ?case using assms(2) by (intro entitled.entitledI [of _ _ m]) auto
qed

lemma entitled_ordered [simp]: "entitled c (ordered_sources ss) at code \<longleftrightarrow> entitled c ss at code"
  using entitled_mono_reason local_reason_ordered by metis

lemma reason_ref_ordered [simp]: "reason_ref c (ordered_sources ss) = reason_ref c ss"
  by (intro ext) (simp add: reason_ref_def split: option.split)

subsection \<open>What the source check establishes\<close>

lemma check_sources_ok:
  "check_sources tenant at c seen next ss = Inr next' \<Longrightarrow>
     (\<forall>s \<in> set ss. src_TenantID s = tenant \<and> Source_Validate s c = None) \<and>
     distinct (map identity ss) \<and> identity ` set ss \<inter> set seen = {}"
  by (induction tenant at c seen "next" ss rule: check_sources.induct)
     (auto split: if_splits option.splits)

definition before_until :: "time \<Rightarrow> time option \<Rightarrow> bool" where
  "before_until t u \<longleftrightarrow> (case u of None \<Rightarrow> True | Some v \<Rightarrow> t < v)"

lemma transition_before:
  "before_until t (transition at next b) \<longleftrightarrow>
     before_until t next \<and> (case b of None \<Rightarrow> True | Some v \<Rightarrow> v > at \<longrightarrow> t < v)" if "at \<le> t"
  using that by (auto simp: transition_def before_until_def split: option.splits)

definition no_boundary :: "time \<Rightarrow> time \<Rightarrow> Source \<Rightarrow> bool" where
  "no_boundary at t s \<longleftrightarrow>
     Source_State s at = ''revoked'' \<or>
     (\<forall>b \<in> {Some (src_EffectiveAt s), src_ExpiresAt s, src_RevokedAt s}.
        case b of None \<Rightarrow> True | Some v \<Rightarrow> v > at \<longrightarrow> t < v)"

lemma check_sources_until:
  assumes "at \<le> t"
  shows "check_sources tenant at c seen next ss = Inr next' \<Longrightarrow>
     before_until t next' \<longleftrightarrow> before_until t next \<and> (\<forall>s \<in> set ss. no_boundary at t s)"
proof (induction ss arbitrary: seen "next")
  case (Cons s ss)
  let ?nx = "if Source_State s at \<noteq> ''revoked''
            then transition at (transition at (transition at next (Some (src_EffectiveAt s)))
                   (src_ExpiresAt s)) (src_RevokedAt s)
            else next"
  have "check_sources tenant at c (identity s # seen) ?nx ss = Inr next'"
    using Cons.prems by (auto split: if_splits option.splits)
  from Cons.IH [OF this] have "before_until t next' \<longleftrightarrow>
      before_until t ?nx \<and> (\<forall>s \<in> set ss. no_boundary at t s)" .
  moreover have "before_until t ?nx \<longleftrightarrow> before_until t next \<and> no_boundary at t s"
    by (simp add: transition_before [OF assms] no_boundary_def)
  ultimately show ?case by auto
qed simp

lemma no_boundary_state:
  assumes "at \<le> t" "no_boundary at t s"
  shows "Source_State s t = Source_State s at"
  using assms by (auto simp: no_boundary_def Source_State_def split: option.splits if_splits)

lemma check_sources_stable:
  assumes "at \<le> t"
  shows "\<forall>s \<in> set ss. no_boundary at t s \<Longrightarrow>
    check_sources tenant t c seen next ss = check_sources tenant at c seen next ss"
proof (induction ss arbitrary: seen "next")
  case (Cons s ss)
  have st: "Source_State s t = Source_State s at" using no_boundary_state assms Cons.prems by simp
  have tr: "transition t n b = transition at n b"
    if "b \<in> {Some (src_EffectiveAt s), src_ExpiresAt s, src_RevokedAt s}" "Source_State s at \<noteq> ''revoked''" for n b
    using that Cons.prems assms by (auto simp: transition_def no_boundary_def split: option.splits)
  have IH: "check_sources tenant t c sn nx ss = check_sources tenant at c sn nx ss" for sn nx
    using Cons by simp
  show ?case
    by (cases "Source_State s at = ''revoked''"; cases "Source_Validate s c") (simp_all add: IH st tr)
qed simp

subsection \<open>Congruence: a resolution depends on the states of the sources only\<close>

definition same_states :: "Source list \<Rightarrow> time \<Rightarrow> time \<Rightarrow> bool" where
  "same_states ss at t \<longleftrightarrow> (\<forall>s \<in> set ss. Source_State s t = Source_State s at)"

lemma same_states_active: "same_states ss at t \<Longrightarrow> s \<in> set ss \<Longrightarrow> Source_Active s t = Source_Active s at"
  by (simp add: same_states_def Source_Active_def)

lemma active_cong: "same_states ss at t \<Longrightarrow> active ss t = active ss at"
  by (intro ext) (auto simp: active_def same_states_active)

lemma capDenial_cong: "same_states ss at t \<Longrightarrow> capDenial ss t = capDenial ss at"
  by (intro ext) (simp add: capDenial_def active_cong)

lemma local_reason_cong: "same_states ss at t \<Longrightarrow> local_reason ss t = local_reason ss at"
  by (intro ext) (simp only: local_reason_def active_cong capDenial_cong)

lemma moduleReason_cong:
  assumes "same_states ss at t"
  shows "moduleReason c ss t n memo code = moduleReason c ss at n memo code"
    and "dependenciesAllowed c ss t n memo ds = dependenciesAllowed c ss at n memo ds"
  using assms
proof (induction c ss at n memo code and c ss at n memo ds
    rule: moduleReason_dependenciesAllowed.induct)
  case (2 c ss at n memo code)
  then show ?case by (auto simp: local_reason_cong Let_def split: option.split)
next
  case (4 c ss at n memo d ds)
  then show ?case by (auto split: option.split)
qed simp_all

lemma explain_cong:
  assumes "same_states ss at t"
  shows "explain c ss t d = explain c ss at d"
proof -
  have "map (explain_one t d deps) ss = map (explain_one at d deps) ss" for deps
    using assms by (auto simp: explain_one_def same_states_def Source_Active_def Let_def)
  then show ?thesis by (simp only: explain_def)
qed

lemma quota_sources_cong: "same_states ss at t \<Longrightarrow> quota_sources ss t m key = quota_sources ss at m key"
  unfolding quota_sources_def by (rule filter_cong) (auto simp: same_states_active)

lemma decision_congs:
  assumes "same_states ss at t"
  shows "explained c ss t = explained c ss at"
    "capability_decision ss t m reason = capability_decision ss at m reason"
    "quota_decision ss t m reason = quota_decision ss at m reason"
    "field_decision ss t m reason = field_decision ss at m reason"
  by (intro ext; simp only: explained_def capability_decision_def capability_reason_def
      quota_decision_def field_decision_def field_reason_def explain_cong [OF assms]
      quota_sources_cong [OF assms] active_cong [OF assms] capDenial_cong [OF assms])+

lemma module_decisions_cong:
  assumes "same_states ss at t"
  shows "module_decisions c ss t m reason = module_decisions c ss at m reason"
  by (simp only: module_decisions_def decision_congs [OF assms] quota_sources_cong [OF assms])

lemma resolve_modules_cong:
  assumes "same_states ss at t"
  shows "resolve_modules c ss t memo ms = resolve_modules c ss at memo ms"
proof (induction ms arbitrary: memo)
  case (Cons m ms)
  show ?case
    by (simp only: resolve_modules.simps moduleReason_cong(1) [OF assms]
        module_decisions_cong [OF assms] Cons.IH)
qed simp

subsection \<open>When a resolution succeeds\<close>

lemma check_sources_complete:
  "\<forall>s \<in> set ss. src_TenantID s = tenant \<and> Source_Validate s c = None \<Longrightarrow> distinct (map identity ss) \<Longrightarrow>
     identity ` set ss \<inter> set seen = {} \<Longrightarrow> \<exists>n. check_sources tenant at c seen next ss = Inr n"
proof (induction ss arbitrary: seen "next")
  case (Cons s ss)
  then have "\<exists>n. check_sources tenant at c (identity s # seen) nx ss = Inr n" for nx
    by (intro Cons.IH) auto
  with Cons.prems show ?case by simp
qed simp

lemma Resolve_succeeds:
  assumes "tenant \<noteq> ''''" "\<not> IsZero at" "Catalog_Validate c = None"
    and "\<forall>s \<in> set sources. src_TenantID s = tenant \<and> Source_Validate s c = None"
    and "distinct (map identity sources)" "\<forall>key \<in> set requested. validCode key"
  shows "\<exists>r. Resolve tenant revision at c sources requested = Some (Inr r)"
proof -
  have "mset (map identity (ordered_sources sources)) = mset (map identity sources)"
    by (simp add: ordered_sources_def)
  then have "distinct (map identity (ordered_sources sources))"
    using assms(5) mset_eq_imp_distinct_iff by blast
  then obtain n where n: "check_sources tenant at c [] None (ordered_sources sources) = Inr n"
    using check_sources_complete [of "ordered_sources sources" tenant c "[]" at None] assms(4) by auto
  obtain ds where "resolve_modules c (ordered_sources sources) at Map.empty (sort_key mod_Code c) = Some ds"
    using resolve_modules_plain [OF _ memo_ok_empty] assms(3) Catalog_Validate_iff by blast
  with n assms(1,2,3,6) show ?thesis by (simp add: Resolve_def)
qed

subsection \<open>Until when a resolution holds\<close>

lemma Resolve_until:
  assumes "Resolve tenant revision at c sources requested = Some (Inr r)"
    and "at \<le> t" "before_until t (res_ValidUntil r)" "\<not> IsZero t"
  shows "Resolve tenant revision t c sources requested = Some (Inr (r\<lparr>res_EvaluatedAt := t\<rparr>))"
proof -
  note ok = Resolve_success [OF assms(1)]
  have nb: "\<forall>s \<in> set (ordered_sources sources). no_boundary at t s"
    using check_sources_until [OF assms(2) ok(4)] assms(3) by blast
  have "same_states (ordered_sources sources) at t"
    unfolding same_states_def using nb no_boundary_state [OF assms(2)] by blast
  from resolve_modules_cong [OF this]
  have cong: "resolve_modules c (ordered_sources sources) t = resolve_modules c (ordered_sources sources) at"
    by (intro ext)
  obtain u where u: "check_sources tenant at c [] None (ordered_sources sources) = Inr u"
    using ok(4) by blast
  show ?thesis using assms(1,4) ok(1,2,3)
    unfolding Resolve_def Let_def cong check_sources_stable [OF assms(2) nb] u
    by (auto split: option.splits if_splits)
qed

end
