(* ===== verification/Resolve_Props.thy ===== *)
theory Resolve_Props
  imports Resolve
begin

text \<open>
  What a caller of \<open>Resolve\<close> may rely on: the decisions of a result are looked up by kind and
  key, compared with the reference semantics \<open>entitled\<close> and \<open>reason_ref\<close>, and shown to be
  exact in their arithmetic, stable up to \<open>ValidUntil\<close> and independent of the storage order.
\<close>

section \<open>Decisions of a result\<close>
subsection \<open>Lookup of decisions\<close>

lemma plain_fields [simp]:
  "dec_Kind (plain d) = dec_Kind d" "dec_ModuleCode (plain d) = dec_ModuleCode d"
  "dec_Key (plain d) = dec_Key d" "dec_Action (plain d) = dec_Action d"
  "dec_Allowed (plain d) = dec_Allowed d" "dec_Reason (plain d) = dec_Reason d"
  "dec_Limit (plain d) = dec_Limit d" "dec_Masked (plain d) = dec_Masked d"
  by (simp_all add: plain_def)

lemma decision_fields [simp]:
  "dec_Kind (module_decision m r) = Kind_Module" "dec_Key (module_decision m r) = mod_Code m"
  "dec_ModuleCode (module_decision m r) = mod_Code m"
  "dec_Allowed (module_decision m r) \<longleftrightarrow> r = ''ALLOWED''" "dec_Reason (module_decision m r) = r"
  "dec_Kind (capability_decision ss at m r cap) = Kind_Capability"
  "dec_Key (capability_decision ss at m r cap) = cap"
  "dec_ModuleCode (capability_decision ss at m r cap) = mod_Code m"
  "dec_Allowed (capability_decision ss at m r cap) \<longleftrightarrow> capability_reason ss at m r cap = ''ALLOWED''"
  "dec_Reason (capability_decision ss at m r cap) = capability_reason ss at m r cap"
  "dec_Kind (quota_decision ss at m r key) = Kind_Quota" "dec_Key (quota_decision ss at m r key) = key"
  "dec_ModuleCode (quota_decision ss at m r key) = mod_Code m"
  "dec_Kind (field_decision ss at m r key act) = Kind_Field" "dec_Key (field_decision ss at m r key act) = key"
  "dec_Action (field_decision ss at m r key act) = act"
  "dec_ModuleCode (field_decision ss at m r key act) = mod_Code m"
  "dec_Allowed (field_decision ss at m r key act) \<longleftrightarrow> field_reason ss at m r key act = ''ALLOWED''"
  "dec_Kind (unknown_decision key) = Kind_Capability" "dec_Key (unknown_decision key) = key"
  "dec_ModuleCode (unknown_decision key) = ''''"
  "dec_Allowed (unknown_decision key) = False"
  "dec_Reason (unknown_decision key) = ''UNKNOWN_CAPABILITY''"
  by (simp_all add: module_decision_def capability_decision_def quota_decision_def
      field_decision_def unknown_decision_def blank_decision_def Let_def split: prod.split)

lemma plain_decision_cases:
  assumes "d \<in> set (plain_decisions ss at m r)"
  obtains "d = module_decision m r"
  | cap where "cap \<in> set (mod_Capabilities m)" "d = capability_decision ss at m r cap"
  | key where "key \<in> set (mod_QuotaKeys m)" "d = quota_decision ss at m r key"
  | key act where "key \<in> set (mod_FieldKeys m)" "act \<in> {''read'', ''write'', ''export''}"
      "d = field_decision ss at m r key act"
  using assms unfolding plain_decisions_def by auto

lemma field_in_plain:
  assumes "key \<in> set (mod_FieldKeys m)" "action \<in> {''read'', ''write'', ''export''}"
  shows "field_decision ss at m r key action \<in> set (plain_decisions ss at m r)"
proof -
  let ?f = "\<lambda>key. map (field_decision ss at m r key) [''read'', ''write'', ''export'']"
  have mem: "field_decision ss at m r key action \<in> set (?f key)" using assms(2) by auto
  have "?f key \<in> set (map ?f (sort (mod_FieldKeys m)))" unfolding set_map set_sort using assms(1) by (rule imageI)
  then have "field_decision ss at m r key action \<in> set (concat (map ?f (sort (mod_FieldKeys m))))"
    unfolding set_concat using mem by (rule UN_I)
  then show ?thesis unfolding plain_decisions_def by (simp only: set_append Un_iff) simp
qed

lemma Resolve_decision_cases:
  assumes "Resolve tenant revision at c sources requested = Some (Inr r)" "d \<in> set (res_Decisions r)"
  shows "(\<exists>m \<in> set c. plain d \<in> set (plain_decisions (ordered_sources sources) at m
            (reason_ref c sources at (mod_Code m)))) \<or>
         (\<exists>key \<in> set requested. key \<notin> set (known_capabilities c) \<and> plain d = unknown_decision key)"
proof -
  have "plain d \<in> set (map plain (res_Decisions r))" using assms(2) by simp
  then show ?thesis unfolding Resolve_success(10) [OF assms(1)] by auto
qed

lemma Resolve_decision_in:
  assumes "Resolve tenant revision at c sources requested = Some (Inr r)" "m \<in> set c"
    "p \<in> set (plain_decisions (ordered_sources sources) at m (reason_ref c sources at (mod_Code m)))"
  shows "\<exists>d \<in> set (res_Decisions r). plain d = p"
proof -
  have "p \<in> set (map plain (res_Decisions r))"
    unfolding Resolve_success(10) [OF assms(1)] using assms(2,3) by auto
  then show ?thesis by auto
qed

lemma plain_capability_only:
  assumes "p \<in> set (plain_decisions ss at m r)" "dec_Kind p = Kind_Capability"
  shows "dec_Key p \<in> set (mod_Capabilities m) \<and> p = capability_decision ss at m r (dec_Key p)"
  using assms by (auto elim!: plain_decision_cases)

lemma capability_decision_unique:
  assumes res: "Resolve tenant revision at c sources requested = Some (Inr r)"
    and m: "m \<in> set c" "cap \<in> set (mod_Capabilities m)"
    and d: "d \<in> set (res_Decisions r)" "dec_Kind d = Kind_Capability" "dec_Key d = cap"
  shows "plain d = capability_decision (ordered_sources sources) at m
    (reason_ref c sources at (mod_Code m)) cap"
proof -
  have wf: "catalog_wf c" using Resolve_success(3) [OF res] Catalog_Validate_iff by blast
  have k: "dec_Kind (plain d) = Kind_Capability" "dec_Key (plain d) = cap" using d by simp_all
  from Resolve_decision_cases [OF res d(1)] show ?thesis
  proof
    assume "\<exists>m' \<in> set c. plain d \<in> set (plain_decisions (ordered_sources sources) at m'
              (reason_ref c sources at (mod_Code m')))"
    then obtain m' where m': "m' \<in> set c" and p: "plain d \<in> set (plain_decisions (ordered_sources sources) at m'
              (reason_ref c sources at (mod_Code m')))" by blast
    from p k have "cap \<in> set (mod_Capabilities m')" "plain d = capability_decision (ordered_sources sources) at m'
              (reason_ref c sources at (mod_Code m')) cap"
      using plain_capability_only by blast+
    moreover have "m' = m" using wf m m' calculation(1) unfolding catalog_wf_def by blast
    ultimately show ?thesis by simp
  next
    assume "\<exists>key \<in> set requested. key \<notin> set (known_capabilities c) \<and> plain d = unknown_decision key"
    then obtain key where "key \<notin> set (known_capabilities c)" "plain d = unknown_decision key" by blast
    then have "cap \<notin> set (known_capabilities c)" using k(2) by (simp del: plain_fields)
    with m show ?thesis by (auto simp: known_capabilities_def)
  qed
qed

lemma capability_reason_allowed:
  "capability_reason ss at m r cap = ''ALLOWED'' \<longleftrightarrow>
     r = ''ALLOWED'' \<and> \<not> active ss at (mod_Code m) Kind_Capability cap '''' SafetyDeny \<and>
     \<not> active ss at (mod_Code m) Kind_Capability cap '''' Effect_Deny \<and>
     (active ss at (mod_Code m) Kind_Module (mod_Code m) '''' Effect_Grant \<or>
      active ss at (mod_Code m) Kind_Capability cap '''' Effect_Grant)"
  by (auto simp: capability_reason_def capDenial_def Let_def)

lemma local_reason_grant:
  "local_reason ss at code m = ''ALLOWED'' \<Longrightarrow>
     \<exists>s \<in> set ss. src_ModuleCode s = code \<and> src_Effect s = Effect_Grant \<and> Source_Active s at"
  by (auto simp: local_reason_def active_def Let_def split: if_splits)

lemma entitled_grant:
  assumes "entitled c ss at code"
  shows "\<exists>s \<in> set ss. src_ModuleCode s = code \<and> src_Effect s = Effect_Grant \<and> Source_Active s at"
  using assms by (auto simp: entitled_iff [of c ss at code] dest: local_reason_grant)

lemma field_reason_allowed:
  "field_reason ss at m r key act = ''ALLOWED'' \<Longrightarrow> r = ''ALLOWED''"
  by (auto simp: field_reason_def split: if_splits)

lemma quota_allowed:
  "dec_Allowed (quota_decision ss at m r key) \<Longrightarrow> r = ''ALLOWED''"
  by (auto simp: quota_decision_def quota_outcome_def blank_decision_def Let_def
      split: if_splits option.splits prod.splits)

lemma plain_decision_allowed:
  assumes "d \<in> set (plain_decisions ss at m r)" "dec_Allowed d"
  shows "r = ''ALLOWED'' \<and> dec_ModuleCode d = mod_Code m"
  using assms(1)
proof (cases rule: plain_decision_cases)
  case 1
  with assms(2) show ?thesis by simp
next
  case (2 cap)
  with assms(2) show ?thesis by (simp add: capability_reason_allowed)
next
  case (3 key)
  with assms(2) quota_allowed show ?thesis by auto
next
  case (4 key act)
  with assms(2) field_reason_allowed show ?thesis by auto
qed

subsection \<open>Quota arithmetic\<close>

lemma MaxInt64_unat: "unat MaxInt64 = 9223372036854775807"
  by (simp add: MaxInt64_def)

lemma add_quota_exact:
  assumes "add_quota l ss = Some l'" "\<not> Unlimited l" "Value l \<le> MaxInt64"
  shows "\<not> Unlimited l' \<and> Value l' \<le> MaxInt64 \<and>
    unat (Value l') = unat (Value l) + sum_list (map (\<lambda>s. unat (Value (src_Limit s))) ss)"
  using assms
proof (induction l ss rule: add_quota.induct)
  case (2 l s ss)
  let ?v = "Value (src_Limit s)"
  have no: "\<not> ?v > MaxInt64 - Value l"
    and rest: "add_quota (l\<lparr>Value := Value l + ?v\<rparr>) ss = Some l'"
    using "2.prems" by (auto split: if_splits)
  have sub: "unat (MaxInt64 - Value l) = unat MaxInt64 - unat (Value l)"
    using "2.prems"(3) by (simp add: unat_sub)
  then have le: "unat (Value l) + unat ?v \<le> unat MaxInt64"
    using no "2.prems"(3) by (simp add: word_le_nat_alt word_less_nat_alt linorder_not_less)
  then have s: "unat (Value l + ?v) = unat (Value l) + unat ?v"
    by (subst unat_add_lem [THEN iffD1]) (simp_all add: MaxInt64_unat)
  then have "Value l + ?v \<le> MaxInt64" using le by (simp add: word_le_nat_alt)
  then have "\<not> Unlimited l' \<and> Value l' \<le> MaxInt64 \<and> unat (Value l') =
      unat (Value l + ?v) + sum_list (map (\<lambda>s. unat (Value (src_Limit s))) ss)"
    using "2.IH" [OF "2.prems"(2) no rest] "2.prems"(2) by simp
  with s show ?case by simp
qed simp

lemma add_quota_unlimited: "Unlimited l \<Longrightarrow> add_quota l ss = Some l"
  by (cases ss) auto

lemma add_quota_overflow:
  assumes "add_quota l ss = None" "Value l \<le> MaxInt64"
  shows "\<not> Unlimited l \<and>
    unat MaxInt64 < unat (Value l) + sum_list (map (\<lambda>s. unat (Value (src_Limit s))) ss)"
  using assms
proof (induction l ss rule: add_quota.induct)
  case (2 l s ss)
  let ?v = "Value (src_Limit s)"
  have nu: "\<not> Unlimited l" using "2.prems"(1) by (auto split: if_splits)
  have sub: "unat (MaxInt64 - Value l) = unat MaxInt64 - unat (Value l)"
    using "2.prems"(2) by (simp add: unat_sub)
  show ?case
  proof (cases "?v > MaxInt64 - Value l")
    case True
    with sub nu show ?thesis by (simp add: word_less_nat_alt)
  next
    case False
    then have le: "unat (Value l) + unat ?v \<le> unat MaxInt64"
      using sub "2.prems"(2) by (simp add: word_le_nat_alt word_less_nat_alt linorder_not_less)
    then have s: "unat (Value l + ?v) = unat (Value l) + unat ?v"
      by (subst unat_add_lem [THEN iffD1]) (simp_all add: MaxInt64_unat)
    moreover have "Value l + ?v \<le> MaxInt64" using le s by (simp add: word_le_nat_alt)
    ultimately show ?thesis
      using "2.IH" [OF nu False] "2.prems"(1) nu False by simp
  qed
qed simp

subsection \<open>Permutations and time\<close>

lemma module_decision_unique:
  assumes res: "Resolve tenant revision at c sources requested = Some (Inr r)"
    and m: "m \<in> set c"
    and d: "d \<in> set (res_Decisions r)" "dec_Kind d = Kind_Module" "dec_Key d = mod_Code m"
  shows "dec_Reason d = reason_ref c sources at (mod_Code m)"
    "dec_Allowed d \<longleftrightarrow> entitled c sources at (mod_Code m)"
proof -
  define p where "p = plain d"
  have k: "dec_Kind p = Kind_Module" "dec_Key p = mod_Code m" using d by (simp_all add: p_def)
  have "\<exists>m' \<in> set c. p = module_decision m' (reason_ref c sources at (mod_Code m'))"
    using Resolve_decision_cases [OF res d(1)] k unfolding p_def [symmetric]
    by (auto elim!: plain_decision_cases)
  then have p: "p = module_decision m (reason_ref c sources at (mod_Code m))"
    using k by (auto simp: module_decision_def)
  show "dec_Reason d = reason_ref c sources at (mod_Code m)"
    using arg_cong [OF p, of dec_Reason] by (simp add: p_def)
  show "dec_Allowed d \<longleftrightarrow> entitled c sources at (mod_Code m)"
    using arg_cong [OF p, of dec_Allowed] by (simp add: p_def reason_ref_allowed)
qed

lemma entitled_deps:
  assumes "(a, b) \<in> (dep_edges c)\<^sup>*" "entitled c ss at a"
  shows "entitled c ss at b"
  using assms
proof (induction rule: rtrancl_induct)
  case (step b d)
  then obtain m where "Catalog_Definition c b = Some m" "d \<in> set (mod_Dependencies m)"
    by (auto simp: dep_edges_def)
  with step show ?case by (auto simp: entitled_iff [of c ss at b])
qed

lemma identity_inj:
  assumes "Source_Validate s c = None" "Source_Validate s' c = None"
  shows "identity s = identity s' \<longleftrightarrow> src_SourceKind s = src_SourceKind s' \<and> src_ID s = src_ID s'"
proof -
  have "CHR ''/'' \<notin> set (src_SourceKind x)" if "Source_Validate x c = None" for x
    using Source_Validate_common [OF that] by (auto simp: shape_common_def)
  then show ?thesis using assms by (simp add: identity_def slash_join_inject del: append_Cons)
qed

lemma Resolve_sources_ok:
  assumes "Resolve tenant revision at c sources requested = Some (Inr r)"
  shows "\<forall>s \<in> set sources. src_TenantID s = tenant \<and> Source_Validate s c = None"
    "distinct (map identity (ordered_sources sources))"
  using check_sources_ok [OF Resolve_success(4) [OF assms]] by auto

lemma ordered_sources_perm:
  assumes "distinct (map identity (ordered_sources sources))" "mset sources' = mset sources"
  shows "ordered_sources sources' = ordered_sources sources"
proof -
  have "inj_on identity (set sources)" using assms(1) by (simp add: distinct_map)
  then have "inj_on (\<lambda>s. (src_SourceKind s, src_ID s)) (set sources')"
    using assms(2) by (auto simp: inj_on_def identity_def dest: mset_eq_setD)
  then show ?thesis using assms(2) unfolding ordered_sources_def by (intro sort_key_perm_unique)
qed

lemma sort_remdups_set: "set xs = set ys \<Longrightarrow> sort (remdups xs) = sort (remdups (ys :: 'a :: linorder list))"
  by (metis sorted_list_of_set_sort_remdups)

lemma mset_ordered_sources [simp]: "mset (ordered_sources ss) = mset ss"
  by (simp add: ordered_sources_def)

lemma quota_lists_perm:
  "mset (quota_replacements (quota_sources (ordered_sources ss) at m key)) = mset (quota_replacements (quota_sources ss at m key))"
  "mset (quota_base (quota_sources (ordered_sources ss) at m key)) = mset (quota_base (quota_sources ss at m key))"
  "mset (quota_additions (quota_sources (ordered_sources ss) at m key)) = mset (quota_additions (quota_sources ss at m key))"
  by (simp_all add: quota_replacements_def quota_base_def quota_additions_def quota_sources_def)

lemma mset_single: "mset xs = mset ys \<Longrightarrow> length xs = 1 \<Longrightarrow> xs = ys"
  by (cases xs; cases ys; auto simp: length_Suc_conv dest: mset_eq_length)

text \<open>The limit a quota resolves to, over the naturals and without reference to the order.\<close>

definition quota_total :: "Source list \<Rightarrow> time \<Rightarrow> string \<Rightarrow> string \<Rightarrow> nat" where
  "quota_total ss at m key =
     sum_list (map (\<lambda>s. unat (Value (src_Limit s)))
       (quota_base (quota_sources ss at m key) @ quota_additions (quota_sources ss at m key)))"

lemma quota_total_ordered [simp]: "quota_total (ordered_sources ss) = quota_total ss"
proof (intro ext)
  fix at m key
  let ?f = "\<lambda>s. unat (Value (src_Limit s))"
  have "mset (quota_base (quota_sources (ordered_sources ss) at m key) @
          quota_additions (quota_sources (ordered_sources ss) at m key)) =
        mset (quota_base (quota_sources ss at m key) @ quota_additions (quota_sources ss at m key))"
    by (simp add: quota_lists_perm)
  then have "mset (map ?f (quota_base (quota_sources (ordered_sources ss) at m key) @
          quota_additions (quota_sources (ordered_sources ss) at m key))) =
        mset (map ?f (quota_base (quota_sources ss at m key) @ quota_additions (quota_sources ss at m key)))"
    by (simp only: mset_map)
  then show "quota_total (ordered_sources ss) at m key = quota_total ss at m key"
    unfolding quota_total_def by (metis sum_mset_sum_list)
qed

lemma quota_sum_outcome:
  assumes none: "quota_replacements qs = []" and base: "length (quota_base qs) \<le> 1"
    and lim: "\<forall>s \<in> set qs. Limit_Valid (src_Limit s)"
    and fin: "\<forall>s \<in> set (quota_base qs). \<not> Unlimited (src_Limit s)"
  defines "tot \<equiv> sum_list (map (\<lambda>s. unat (Value (src_Limit s))) (quota_base qs @ quota_additions qs))"
  shows "quota_outcome reason qs =
    (if tot \<le> unat MaxInt64
     then (reason = ''ALLOWED'', reason, \<lparr>Unlimited = False, Value = of_nat tot\<rparr>)
     else (False, ''QUOTA_OVERFLOW'', zero_limit))"
proof -
  define l where "l = (if length (quota_base qs) = 1 then src_Limit (hd (quota_base qs)) else zero_limit)"
  have l: "\<not> Unlimited l" "Value l \<le> MaxInt64"
    "tot = unat (Value l) + sum_list (map (\<lambda>s. unat (Value (src_Limit s))) (quota_additions qs))"
    using base fin lim unfolding l_def tot_def
    by (cases "quota_base qs"; auto simp: zero_limit_def quota_base_def Limit_Valid_def filter_eq_Cons_iff)+
  have out: "quota_outcome reason qs = (case add_quota l (quota_additions qs) of
        None \<Rightarrow> (False, ''QUOTA_OVERFLOW'', zero_limit)
      | Some l \<Rightarrow> (reason = ''ALLOWED'', reason, l))"
    unfolding quota_outcome_def Let_def l_def using none base by auto
  show ?thesis
  proof (cases "add_quota l (quota_additions qs)")
    case None
    with add_quota_overflow [OF None l(2)] l(3) show ?thesis by (simp add: out)
  next
    case (Some l')
    from add_quota_exact [OF Some l(1,2)] l(3) have
      "\<not> Unlimited l'" "Value l' \<le> MaxInt64" "unat (Value l') = tot" by auto
    moreover from this have "l' = \<lparr>Unlimited = False, Value = of_nat tot\<rparr>" by (cases l') auto
    ultimately show ?thesis using Some by (auto simp: out word_le_nat_alt)
  qed
qed

lemma quota_decision_in:
  assumes "Resolve tenant revision at c sources requested = Some (Inr r)"
    and "m \<in> set c" "key \<in> set (mod_QuotaKeys m)"
  obtains d where "d \<in> set (res_Decisions r)"
    "plain d = quota_decision (ordered_sources sources) at m (reason_ref c sources at (mod_Code m)) key"
proof -
  have "quota_decision (ordered_sources sources) at m (reason_ref c sources at (mod_Code m)) key
      \<in> set (plain_decisions (ordered_sources sources) at m (reason_ref c sources at (mod_Code m)))"
    using assms(3) by (simp add: plain_decisions_def)
  from Resolve_decision_in [OF assms(1,2) this] that show ?thesis by blast
qed


section \<open>A concrete resolution\<close>

text \<open>Two modules, one depending on the other, sold by a plan with an additive quota override.\<close>

definition ex_catalog :: Catalog where
  "ex_catalog =
     [\<lparr>mod_Code = ''crm'', mod_TechnicalStatus = ''ready'', mod_SalesStatus = ''on_sale'', mod_Version = 1,
       mod_Capabilities = [''crm.read''], mod_QuotaKeys = [''seats''], mod_FieldKeys = [''phone''],
       mod_Dependencies = [''core'']\<rparr>,
      \<lparr>mod_Code = ''core'', mod_TechnicalStatus = ''ready'', mod_SalesStatus = ''on_sale'', mod_Version = 3,
       mod_Capabilities = [''core.use''], mod_QuotaKeys = [], mod_FieldKeys = [],
       mod_Dependencies = []\<rparr>]"
definition ex_source :: "string \<Rightarrow> string \<Rightarrow> string \<Rightarrow> string \<Rightarrow> string \<Rightarrow> uint64 \<Rightarrow> Source" where
  "ex_source i md kind key eff v =
     \<lparr>src_ID = i, src_TenantID = ''t1'', src_SourceKind = PlanSource, src_ModuleCode = md,
      src_Kind = kind, src_Key = key, src_Action = '''', src_Effect = eff,
      src_Limit = \<lparr>Unlimited = False, Value = v\<rparr>, src_EffectiveAt = date 2026 1 1, src_ExpiresAt = Some (date 2027 1 1),
      src_RevokedAt = None, src_Reason = ''sold'', src_ActorID = ''admin'', src_Version = 1\<rparr>"
definition ex_sources :: "Source list" where
  "ex_sources =
     [ex_source ''s1'' ''crm'' Kind_Capability ''crm.read'' Effect_Grant 0,
      ex_source ''s2'' ''core'' Kind_Module ''core'' Effect_Grant 0,
      ex_source ''s3'' ''crm'' Kind_Quota ''seats'' QuotaReplace 40,
      (ex_source ''s4'' ''crm'' Kind_Quota ''seats'' QuotaAdd 2)\<lparr>src_SourceKind := OverrideSource\<rparr>]"
definition ex_replaced :: "Source list" where
  "ex_replaced = (ex_source ''s5'' ''crm'' Kind_Quota ''seats'' QuotaReplace 5)
     \<lparr>src_SourceKind := OverrideSource\<rparr> # ex_sources"

definition ex_at :: time where
  "ex_at = date 2026 6 1"

definition ex_result :: EntResult where
  "ex_result = (case Resolve ''t1'' 7 ex_at ex_catalog ex_sources [''zzz''] of
     Some (Inr r) \<Rightarrow> r | _ \<Rightarrow> undefined)"

lemma ex_resolves: "Resolve ''t1'' 7 ex_at ex_catalog ex_sources [''zzz''] = Some (Inr ex_result)"
  by code_simp

lemma ex_valid_until: "res_ValidUntil ex_result = Some (date 2027 1 1)"
  by code_simp

lemma ex_decisions:
  "map (\<lambda>d. (dec_Kind d, dec_ModuleCode d, dec_Key d, dec_Allowed d)) (res_Decisions ex_result) =
     [(Kind_Module, ''core'', ''core'', True), (Kind_Capability, ''core'', ''core.use'', True),
      (Kind_Module, ''crm'', ''crm'', True), (Kind_Capability, ''crm'', ''crm.read'', True),
      (Kind_Quota, ''crm'', ''seats'', True), (Kind_Field, ''crm'', ''phone'', False),
      (Kind_Field, ''crm'', ''phone'', False), (Kind_Field, ''crm'', ''phone'', False),
      (Kind_Capability, '''', ''zzz'', False)]"
  by code_simp

lemma ex_decision_in:
  assumes "(k, m, key, a) \<in> set (map (\<lambda>d. (dec_Kind d, dec_ModuleCode d, dec_Key d, dec_Allowed d))
    (res_Decisions ex_result))"
  shows "\<exists>d \<in> set (res_Decisions ex_result). dec_Kind d = k \<and> dec_ModuleCode d = m \<and> dec_Key d = key \<and> dec_Allowed d = a"
  using assms by auto

lemma ex_crm_depends: "(''crm'', ''core'') \<in> (dep_edges ex_catalog)\<^sup>*"
  by (rule r_into_rtrancl) (simp add: dep_edges_def ex_catalog_def)

lemma ex_later: "\<not> IsZero (ex_at + Day)" "ex_at \<le> ex_at + Day" "ex_at + Day < date 2027 1 1"
  by code_simp+

lemma ex_quota_lists:
  "quota_replacements (quota_sources ex_sources ex_at ''crm'' ''seats'') = []"
  "map (Unlimited \<circ> src_Limit) (quota_base (quota_sources ex_sources ex_at ''crm'' ''seats'')) = [False]"
  "quota_total ex_sources ex_at ''crm'' ''seats'' = 42"
  by code_simp+

section \<open>Properties\<close>



text \<open>
  C3: Resolution fails closed. Whatever kind of decision is allowed, for its module and for every
  module that this one depends on, directly or indirectly, some valid source of this tenant
  that is active at the evaluation instant grants it.
\<close>

theorem resolve_fail_closed:
  assumes "Resolve tenant revision at c sources requested = Some (Inr r)"
    and "d \<in> set (res_Decisions r)" "dec_Allowed d"
    and "(dec_ModuleCode d, code) \<in> (dep_edges c)\<^sup>*"
  shows "\<exists>s \<in> set sources. src_TenantID s = tenant \<and> Source_Validate s c = None \<and>
    src_ModuleCode s = code \<and> src_Effect s = Effect_Grant \<and> Source_Active s at"
proof -
  define p where "p = plain d"
  have "dec_Allowed p" using assms(3) by (simp add: p_def)
  then obtain m where "p \<in> set (plain_decisions (ordered_sources sources) at m
            (reason_ref c sources at (mod_Code m)))"
    using Resolve_decision_cases [OF assms(1,2)] unfolding p_def [symmetric] by auto
  from plain_decision_allowed [OF this \<open>dec_Allowed p\<close>]
  have "entitled c sources at (dec_ModuleCode d)" by (simp add: p_def reason_ref_allowed)
  with assms(4) have "entitled c sources at code" by (rule entitled_deps)
  from entitled_grant [OF this] Resolve_sources_ok(1) [OF assms(1)] show ?thesis by blast
qed

lemma resolve_fail_closed_witness:
  "\<exists>s \<in> set ex_sources. src_ModuleCode s = ''core'' \<and> src_Effect s = Effect_Grant \<and> Source_Active s ex_at"
proof -
  obtain d where d: "d \<in> set (res_Decisions ex_result)" "dec_ModuleCode d = ''crm''" "dec_Allowed d"
    using ex_decision_in [of Kind_Quota "''crm''" "''seats''" True] ex_decisions by auto
  from resolve_fail_closed [OF ex_resolves d(1,3)] d(2) ex_crm_depends show ?thesis by metis
qed

text \<open>
  The validity horizon is sound: at any later instant strictly before \<open>ValidUntil\<close> a new
  resolution gives the same result, the evaluation instant apart. Caching a result until
  \<open>ValidUntil\<close> is therefore invisible.
\<close>

lemma resolve_stable:
  assumes "Resolve tenant revision at c sources requested = Some (Inr r)"
    and "at \<le> t" "before_until t (res_ValidUntil r)" "\<not> IsZero t"
  shows "Resolve tenant revision t c sources requested = Some (Inr (r\<lparr>res_EvaluatedAt := t\<rparr>))"
  by (rule Resolve_until [OF assms])

lemma resolve_stable_witness:
  "Resolve ''t1'' 7 (ex_at + Day) ex_catalog ex_sources [''zzz''] =
     Some (Inr (ex_result\<lparr>res_EvaluatedAt := ex_at + Day\<rparr>))"
  by (rule resolve_stable [OF ex_resolves ex_later(2) _ ex_later(1)])
     (simp add: before_until_def ex_valid_until ex_later(3))

text \<open>
  The result depends neither on the order in which the sources are stored nor on the order or
  the repetition of the requested capability codes.
\<close>

lemma resolve_order_independent:
  assumes "Resolve tenant revision at c sources requested = Some (Inr r)"
    and "mset sources' = mset sources" "set requested' = set requested"
  shows "Resolve tenant revision at c sources' requested' = Some (Inr r)"
proof -
  have s: "ordered_sources sources' = ordered_sources sources"
    using ordered_sources_perm Resolve_sources_ok(2) assms by blast
  have k: "sort (remdups (filter P requested')) = sort (remdups (filter P requested))" for P
    using assms(3) by (intro sort_remdups_set) simp
  have "Resolve tenant revision at c sources' requested' = Resolve tenant revision at c sources requested"
    unfolding Resolve_def assms(3) s k by (rule refl)
  with assms(1) show ?thesis by simp
qed

lemma resolve_order_independent_witness:
  "Resolve ''t1'' 7 ex_at ex_catalog (rev ex_sources) [''zzz'', ''zzz''] = Some (Inr ex_result)"
  by (rule resolve_order_independent [OF ex_resolves]) simp_all


text \<open>
  C8: Quota arithmetic is exact. With no override replacement, at most one base limit and no
  unlimited base, the resolved limit is the sum over the natural numbers of base and additions
  when the sum is at most \<open>MaxInt64\<close>, and otherwise the decision is refused as an overflow:
  64-bit wrap-around is never observable.
\<close>

theorem resolve_quota_exact:
  assumes "Resolve tenant revision at c sources requested = Some (Inr r)"
    and "m \<in> set c" "key \<in> set (mod_QuotaKeys m)"
    and "quota_replacements (quota_sources sources at (mod_Code m) key) = []"
    and "length (quota_base (quota_sources sources at (mod_Code m) key)) \<le> 1"
    and "\<forall>s \<in> set (quota_base (quota_sources sources at (mod_Code m) key)). \<not> Unlimited (src_Limit s)"
  shows "\<exists>d \<in> set (res_Decisions r). dec_Kind d = Kind_Quota \<and> dec_ModuleCode d = mod_Code m \<and> dec_Key d = key \<and>
    (if quota_total sources at (mod_Code m) key \<le> unat MaxInt64
     then dec_Limit d = \<lparr>Unlimited = False, Value = of_nat (quota_total sources at (mod_Code m) key)\<rparr> \<and>
          (dec_Allowed d \<longleftrightarrow> entitled c sources at (mod_Code m))
     else dec_Reason d = ''QUOTA_OVERFLOW'' \<and> \<not> dec_Allowed d \<and> dec_Limit d = zero_limit)"
proof -
  let ?r = "reason_ref c sources at (mod_Code m)"
  let ?qs = "quota_sources (ordered_sources sources) at (mod_Code m) key"
  let ?p = "quota_decision (ordered_sources sources) at m ?r key"
  note perm = quota_lists_perm [of sources at "mod_Code m" key]
  have "?p \<in> set (plain_decisions (ordered_sources sources) at m ?r)"
    using assms(3) by (simp add: plain_decisions_def)
  from Resolve_decision_in [OF assms(1,2) this] obtain d where
    d: "d \<in> set (res_Decisions r)" "plain d = ?p" by blast
  have lim: "\<forall>s \<in> set ?qs. Limit_Valid (src_Limit s)"
    using Resolve_sources_ok(1) [OF assms(1)] Source_Validate_limit by (auto simp: quota_sources_def)
  have "quota_replacements ?qs = []" "length (quota_base ?qs) \<le> 1"
    "\<forall>s \<in> set (quota_base ?qs). \<not> Unlimited (src_Limit s)"
    using assms(4-6) perm(1) mset_eq_length [OF perm(2)] mset_eq_setD [OF perm(2)] by simp_all
  note out = quota_sum_outcome [OF this(1,2) lim this(3), folded quota_total_def, simplified]
  from arg_cong [OF d(2), of dec_Limit] arg_cong [OF d(2), of dec_Allowed] arg_cong [OF d(2), of dec_Reason]
    arg_cong [OF d(2), of dec_Kind] arg_cong [OF d(2), of dec_ModuleCode] arg_cong [OF d(2), of dec_Key]
  have "dec_Kind d = Kind_Quota \<and> dec_ModuleCode d = mod_Code m \<and> dec_Key d = key \<and>
    (if quota_total sources at (mod_Code m) key \<le> unat MaxInt64
     then dec_Limit d = \<lparr>Unlimited = False, Value = of_nat (quota_total sources at (mod_Code m) key)\<rparr> \<and>
          (dec_Allowed d \<longleftrightarrow> entitled c sources at (mod_Code m))
     else dec_Reason d = ''QUOTA_OVERFLOW'' \<and> \<not> dec_Allowed d \<and> dec_Limit d = zero_limit)"
    by (simp add: quota_decision_def out reason_ref_allowed blank_decision_def)
  with d(1) show ?thesis by blast
qed

lemma resolve_quota_exact_witness:
  "\<exists>d \<in> set (res_Decisions ex_result). dec_Key d = ''seats'' \<and> dec_Limit d = \<lparr>Unlimited = False, Value = 42\<rparr>"
proof -
  have m: "hd ex_catalog \<in> set ex_catalog" "''seats'' \<in> set (mod_QuotaKeys (hd ex_catalog))"
    "mod_Code (hd ex_catalog) = ''crm''" by (simp_all add: ex_catalog_def)
  have b: "length (quota_base (quota_sources ex_sources ex_at ''crm'' ''seats'')) \<le> 1"
    "\<forall>s \<in> set (quota_base (quota_sources ex_sources ex_at ''crm'' ''seats'')). \<not> Unlimited (src_Limit s)"
    using ex_quota_lists(2) by auto
  from resolve_quota_exact [OF ex_resolves m(1,2), unfolded m(3), OF ex_quota_lists(1) b]
  show ?thesis by (auto simp: ex_quota_lists(3) MaxInt64_unat)
qed

text \<open>
  The memoised recursion over module dependencies computes the reference semantics: the
  decision on each module carries the reference reason and is allowed exactly when the module
  is entitled in the sense of the inductive definition.
\<close>

lemma resolve_module_reason:
  assumes "Resolve tenant revision at c sources requested = Some (Inr r)" and "m \<in> set c"
  shows "(\<exists>d \<in> set (res_Decisions r). dec_Kind d = Kind_Module \<and> dec_Key d = mod_Code m) \<and>
    (\<forall>d \<in> set (res_Decisions r). dec_Kind d = Kind_Module \<longrightarrow> dec_Key d = mod_Code m \<longrightarrow>
       dec_Reason d = reason_ref c sources at (mod_Code m) \<and>
       (dec_Allowed d \<longleftrightarrow> entitled c sources at (mod_Code m)))"
proof (intro conjI [of "\<exists>d \<in> set (res_Decisions r). _ d"] ballI impI)
  let ?p = "module_decision m (reason_ref c sources at (mod_Code m))"
  have "?p \<in> set (plain_decisions (ordered_sources sources) at m (reason_ref c sources at (mod_Code m)))"
    by (simp add: plain_decisions_def)
  from Resolve_decision_in [OF assms this] obtain d where d: "d \<in> set (res_Decisions r)" "plain d = ?p" by blast
  from d(1) arg_cong [OF d(2), of dec_Kind] arg_cong [OF d(2), of dec_Key]
  show "\<exists>d \<in> set (res_Decisions r). dec_Kind d = Kind_Module \<and> dec_Key d = mod_Code m" by auto
qed (use module_decision_unique [OF assms] in blast)

lemma resolve_module_reason_witness:
  "reason_ref ex_catalog ex_sources ex_at ''crm'' = ''ALLOWED''"
proof -
  have m: "hd ex_catalog \<in> set ex_catalog" "mod_Code (hd ex_catalog) = ''crm''"
    by (simp_all add: ex_catalog_def)
  obtain d where d: "d \<in> set (res_Decisions ex_result)" "dec_Kind d = Kind_Module"
    "dec_Key d = ''crm''" "dec_Allowed d"
    using ex_decision_in [of Kind_Module "''crm''" "''crm''" True] ex_decisions by auto
  from conjunct2 [OF resolve_module_reason [OF ex_resolves m(1)], THEN bspec, OF d(1)] d m(2)
  show ?thesis by (simp add: reason_ref_allowed)
qed

text \<open>
  A single active override replacement of a quota determines the limit: base limits and
  additions are ignored, and the decision is allowed exactly when the module is entitled.
\<close>

lemma resolve_quota_replacement:
  assumes "Resolve tenant revision at c sources requested = Some (Inr r)"
    and "m \<in> set c" "key \<in> set (mod_QuotaKeys m)"
    and "quota_replacements (quota_sources sources at (mod_Code m) key) = [s]"
  shows "\<exists>d \<in> set (res_Decisions r). dec_Kind d = Kind_Quota \<and> dec_ModuleCode d = mod_Code m \<and>
    dec_Key d = key \<and> dec_Limit d = src_Limit s \<and> (dec_Allowed d \<longleftrightarrow> entitled c sources at (mod_Code m))"
proof -
  obtain d where d: "d \<in> set (res_Decisions r)"
    "plain d = quota_decision (ordered_sources sources) at m (reason_ref c sources at (mod_Code m)) key"
    using quota_decision_in [OF assms(1-3)] by blast
  have "quota_replacements (quota_sources (ordered_sources sources) at (mod_Code m) key) = [s]"
    using mset_single [OF quota_lists_perm(1) [symmetric], of sources at "mod_Code m" key] assms(4) by simp
  then have "quota_outcome (reason_ref c sources at (mod_Code m))
      (quota_sources (ordered_sources sources) at (mod_Code m) key) =
      (entitled c sources at (mod_Code m), reason_ref c sources at (mod_Code m), src_Limit s)"
    by (simp add: quota_outcome_def Let_def reason_ref_allowed)
  with d(1) arg_cong [OF d(2), of dec_Limit] arg_cong [OF d(2), of dec_Allowed]
    arg_cong [OF d(2), of dec_Kind] arg_cong [OF d(2), of dec_ModuleCode] arg_cong [OF d(2), of dec_Key]
  show ?thesis by (auto simp: quota_decision_def blank_decision_def intro!: bexI [of _ d])
qed

lemma resolve_quota_replacement_witness:
  "\<exists>r. \<exists>d \<in> set (res_Decisions r). Resolve ''t1'' 8 ex_at ex_catalog ex_replaced [] = Some (Inr r) \<and>
     dec_Key d = ''seats'' \<and> dec_Limit d = \<lparr>Unlimited = False, Value = 5\<rparr>"
proof -
  have "(case Resolve ''t1'' 8 ex_at ex_catalog ex_replaced [] of Some (Inr r) \<Rightarrow> True | _ \<Rightarrow> False)"
    by code_simp
  then obtain r where r: "Resolve ''t1'' 8 ex_at ex_catalog ex_replaced [] = Some (Inr r)"
    by (auto split: option.splits sum.splits)
  have m: "hd ex_catalog \<in> set ex_catalog" "''seats'' \<in> set (mod_QuotaKeys (hd ex_catalog))"
    "mod_Code (hd ex_catalog) = ''crm''" by (simp_all add: ex_catalog_def)
  have q: "quota_replacements (quota_sources ex_replaced ex_at ''crm'' ''seats'') = [hd ex_replaced]"
    by code_simp
  have l: "src_Limit (hd ex_replaced) = \<lparr>Unlimited = False, Value = 5\<rparr>"
    by (simp add: ex_replaced_def ex_source_def)
  from resolve_quota_replacement [OF r m(1,2), unfolded m(3), OF q] r l show ?thesis by auto
qed

end
