(* ===== verification/Capability_Map.thy ===== *)
theory Capability_Map
  imports Resolve_Props
begin

section \<open>The capability map\<close>

text \<open>
  The compiler of the commercial capability map, \<open>internal/commercial/capabilitymap\<close>: the types
  (\<open>types.go\<close>), the checks and the compilation (\<open>compile.go\<close>), the inventory, the graph search and the
  closure over mandatory children (\<open>inventory.go\<close>) and the comparison with the published release
  (\<open>evolution.go\<close>). An error is the code of the problem and the place it is reported at; its free
  text is left out. The maps of the source are partial functions, the map \<open>owners\<close>, over which the
  source iterates, an association list. Slices are never nil here.
\<close>

subsection \<open>Types\<close>

datatype problem = Problem string string

abbreviation TenantBusiness :: string where "TenantBusiness \<equiv> ''tenant_business''"
abbreviation PlatformManagement :: string where "PlatformManagement \<equiv> ''platform_management''"
abbreviation Recovery :: string where "Recovery \<equiv> ''recovery''"
abbreviation FoundationExempt :: string where "FoundationExempt \<equiv> ''foundation_exempt''"

record Child =
  ch_OperationID :: string
  ch_Mode :: string
  ch_Condition :: string
  ch_Source :: string

record Mapping =
  cm_WorkerPermission :: string
  cm_OperationID :: string
  cm_Classification :: string
  cm_ModuleCode :: string
  cm_CapabilityCodes :: "string list"
  cm_ExemptionReason :: string
  cm_Children :: "Child list"

record Declaration =
  dcl_SchemaVersion :: int
  dcl_MappingVersion :: string
  dcl_RetiredCapabilityCodes :: "string list"
  dcl_Operations :: "Mapping list"

record HTTPBinding =
  hb_Method :: string
  hb_Path :: string
  hb_Body :: string

record Operation =
  op_ID :: string
  op_Domain :: string
  op_Application :: string
  op_TenantRequired :: bool
  op_Permissions :: "string list"
  op_PermissionMode :: string
  op_Authentication :: "string list"
  op_Requires :: "string list"
  op_RPC :: string
  op_HTTP :: "HTTPBinding list"

record Plans =
  pls_SchemaVersion :: int
  pls_Operations :: "Operation list"

record ManifestOperation =
  mo_ID :: string
  mo_TenantRequired :: bool
  mo_Requires :: "string list"

record ManifestMethod =
  mm_Name :: string
  mm_Operation :: ManifestOperation
  mm_HTTP :: "HTTPBinding list"

record ManifestService =
  ms_FullName :: string
  ms_Domain :: string
  ms_Application :: string
  ms_Operations :: "ManifestOperation list"
  ms_Methods :: "ManifestMethod list"

record Manifest =
  mf_SchemaVersion :: int
  mf_Services :: "ManifestService list"

type_synonym LookupModule = "string \<rightharpoonup> string list"

record Capability =
  cap_Code :: string
  cap_ModuleCode :: string

record CompiledOperation = Mapping +
  co_ConsumerType :: string
  co_TenantRequired :: bool
  co_RPC :: string
  co_RequiredCapabilityCodes :: "string list"
  co_AlwaysRequiredCapabilityCodes :: "string list"

record Document =
  doc_SchemaVersion :: int
  doc_MappingVersion :: string
  doc_InputsSHA256 :: "(string \<times> string) list"
  doc_RetiredCapabilityCodes :: "string list"
  doc_Capabilities :: "Capability list"
  doc_Operations :: "CompiledOperation list"

type_synonym Entries = "string \<rightharpoonup> CompiledOperation"

subsection \<open>Checks\<close>

text \<open>\<open>strconv.ParseUint(value, 10, 64)\<close>.\<close>

definition ParseUint :: "string \<Rightarrow> int option" where
  "ParseUint s =
     (if s = [] \<or> \<not> list_all is_digit s then None
      else let n = foldl (\<lambda>n c. 10 * n + (int (byte c) - 48)) 0 s in if n < 2 ^ 64 then Some n else None)"

definition map_version :: "string \<Rightarrow> problem + int" where
  "map_version value =
     (case ParseUint value of
        None \<Rightarrow> Inl (Problem ''VERSION'' ''mapping_version'')
      | Some n \<Rightarrow> if n = 0 \<or> dec_int n \<noteq> value then Inl (Problem ''VERSION'' ''mapping_version'') else Inr n)"

definition unique :: "string list \<Rightarrow> string \<Rightarrow> problem err" where
  "unique values at = seen_loop (\<lambda>v. \<not> code_pattern v) (\<lambda>v. v) (Problem ''DUPLICATE_OR_INVALID'' at) [] values"

text \<open>A loop that threads a state and stops at the first error.\<close>

fun fold_err :: "('a \<Rightarrow> 's \<Rightarrow> 'e + 's) \<Rightarrow> 'a list \<Rightarrow> 's \<Rightarrow> 'e + 's" where
  "fold_err f [] s = Inr s"
| "fold_err f (x # xs) s = bind_result (f x s) (fold_err f xs)"

definition check_manifest ::
  "(string \<rightharpoonup> Operation) \<Rightarrow> string \<Rightarrow> string \<Rightarrow> ManifestOperation \<Rightarrow> string \<Rightarrow> HTTPBinding list \<Rightarrow> string list \<Rightarrow> problem + string list" where
  "check_manifest ops domain application m rpc http seen =
     (case ops (mo_ID m) of
        None \<Rightarrow> Inl (Problem ''RPC_INVENTORY'' (mo_ID m))
      | Some op \<Rightarrow>
        if mo_ID m \<in> set seen then Inl (Problem ''RPC_INVENTORY'' (mo_ID m))
        else if op_Domain op \<noteq> domain \<or> op_Application op \<noteq> application \<or> op_TenantRequired op \<noteq> mo_TenantRequired m \<or>
                op_RPC op \<noteq> rpc \<or> op_HTTP op \<noteq> http \<or> sort (op_Requires op) \<noteq> sort (mo_Requires m)
          then Inl (Problem ''RPC_DRIFT'' (mo_ID m))
        else Inr (mo_ID m # seen))"

definition check_service :: "(string \<rightharpoonup> Operation) \<Rightarrow> ManifestService \<Rightarrow> string list \<Rightarrow> problem + string list" where
  "check_service ops s seen =
     (if ms_FullName s = '''' \<or> ms_Domain s = '''' \<or> ms_Application s = '''' then Inl (Problem ''RPC_INVENTORY'' (ms_FullName s))
      else bind_result
        (fold_err (\<lambda>m seen. if mm_Name m = '''' then Inl (Problem ''RPC_INVENTORY'' (ms_FullName s))
           else check_manifest ops (ms_Domain s) (ms_Application s) (mm_Operation m)
                  (''/'' @ ms_FullName s @ ''/'' @ mm_Name m) (mm_HTTP m) seen) (ms_Methods s) seen)
        (fold_err (\<lambda>m. check_manifest ops (ms_Domain s) (ms_Application s) m '''' []) (ms_Operations s)))"

definition validateManifest :: "Manifest \<Rightarrow> (string \<rightharpoonup> Operation) \<Rightarrow> nat \<Rightarrow> problem err" where
  "validateManifest manifest ops n =
     (case fold_err (check_service ops) (mf_Services manifest) [] of
        Inl e \<Rightarrow> Some e
      | Inr seen \<Rightarrow> if length seen \<noteq> n then Some (Problem ''RPC_INVENTORY'' ''operations'') else None)"

definition check_capability :: "string \<Rightarrow> string \<Rightarrow> string list \<Rightarrow> string \<Rightarrow> (string \<times> string) list \<Rightarrow> problem + (string \<times> string) list" where
  "check_capability at mc available code owners =
     (if code \<notin> set available then Inl (Problem ''UNKNOWN_CAPABILITY'' at)
      else case map_of owners code of
        Some previous \<Rightarrow> if previous \<noteq> mc then Inl (Problem ''CAPABILITY_OWNER'' at) else Inr owners
      | None \<Rightarrow> Inr ((code, mc) # owners))"

definition edge :: "string \<Rightarrow> string \<Rightarrow> string" where
  "edge a b = a @ '' -> '' @ b"

definition check_child :: "string \<Rightarrow> Child \<Rightarrow> problem err" where
  "check_child i child =
     (if ch_Mode child \<noteq> ''always'' \<and> ch_Mode child \<noteq> ''conditional'' then Some (Problem ''CHILD_MODE'' (edge i (ch_OperationID child)))
      else if (ch_Mode child = ''conditional'') \<noteq> (TrimSpace (ch_Condition child) \<noteq> '''')
        then Some (Problem ''CHILD_CONDITION'' (edge i (ch_OperationID child)))
      else if TrimSpace (ch_Source child) = '''' then Some (Problem ''CHILD_SOURCE'' (edge i (ch_OperationID child)))
      else None)"

definition worker_entry_ok :: "Mapping \<Rightarrow> Operation \<Rightarrow> bool" where
  "worker_entry_ok m op \<longleftrightarrow>
     \<not> (\<not> code_pattern (cm_WorkerPermission m) \<or> cm_Classification m \<noteq> PlatformManagement \<or> op_TenantRequired op \<or> op_RPC op \<noteq> '''' \<or>
        op_HTTP op \<noteq> [] \<or> op_Authentication op = [] \<or> op_PermissionMode op \<noteq> ''all'' \<or>
        cm_WorkerPermission m \<notin> set (op_Permissions op))"

definition check_classification :: "Mapping \<Rightarrow> Operation \<Rightarrow> problem err" where
  "check_classification m op =
     (if cm_Classification m = TenantBusiness then
        (if \<not> op_TenantRequired op \<or> cm_ModuleCode m = '''' \<or> cm_CapabilityCodes m = [] \<or> cm_ExemptionReason m \<noteq> ''''
         then Some (Problem ''BUSINESS_MAPPING'' (op_ID op)) else None)
      else if cm_Classification m = PlatformManagement then
        (if op_TenantRequired op then Some (Problem ''CLASSIFICATION'' (op_ID op)) else None)
      else if cm_Classification m = Recovery \<or> cm_Classification m = FoundationExempt then None
      else Some (Problem ''CLASSIFICATION'' (op_ID op)))"

definition validateMapping ::
  "Mapping \<Rightarrow> Operation \<Rightarrow> LookupModule \<Rightarrow> (string \<times> string) list \<Rightarrow> problem + (string \<times> string) list" where
  "validateMapping m op lookup owners =
     (let i = op_ID op; children = map ch_OperationID (cm_Children m) in
      case or_else (if cm_WorkerPermission m \<noteq> '''' \<and> \<not> worker_entry_ok m op then Some (Problem ''WORKER_ENTRY'' i) else None)
             (or_else (check_classification m op)
               (or_else (if cm_Classification m \<noteq> TenantBusiness \<and> TrimSpace (cm_ExemptionReason m) = ''''
                         then Some (Problem ''EXEMPTION_REASON'' i) else None)
                 (or_else (unique (cm_CapabilityCodes m) (i @ ''.capability_codes''))
                   (if (cm_ModuleCode m = '''') \<noteq> (cm_CapabilityCodes m = []) then Some (Problem ''CAPABILITY'' i) else None)))) of
        Some e \<Rightarrow> Inl e
      | None \<Rightarrow>
        bind_result
          (if cm_ModuleCode m = '''' then Inr owners
           else case lookup (cm_ModuleCode m) of
             None \<Rightarrow> Inl (Problem ''UNKNOWN_MODULE'' i)
           | Some available \<Rightarrow> fold_err (check_capability i (cm_ModuleCode m) available) (cm_CapabilityCodes m) owners)
          (\<lambda>owners'.
             case or_else (for_each_err (check_child i) (cm_Children m))
                    (or_else (unique children (i @ ''.children''))
                      (if sort children \<noteq> sort (op_Requires op) then Some (Problem ''CHILD_COVERAGE'' i) else None)) of
               Some e \<Rightarrow> Inl e
             | None \<Rightarrow> Inr owners'))"

subsection \<open>The graph of operations\<close>

text \<open>
  One unit of fuel is spent per nested call; one more unit than there are operations is enough
  (\<open>validateGraph_spec\<close>, \<open>alwaysClosure_spec\<close>).
\<close>

fun graph_visit :: "Entries \<Rightarrow> nat \<Rightarrow> (string \<Rightarrow> nat) \<Rightarrow> string \<Rightarrow> (problem + (string \<Rightarrow> nat)) option"
  and graph_visit_all :: "Entries \<Rightarrow> nat \<Rightarrow> (string \<Rightarrow> nat) \<Rightarrow> string list \<Rightarrow> (problem + (string \<Rightarrow> nat)) option"
where
  "graph_visit entries 0 state i = None"
| "graph_visit entries (Suc n) state i =
     (case entries i of
        None \<Rightarrow> Some (Inl (Problem ''CHILD_MAPPING'' i))
      | Some entry \<Rightarrow>
        if state i = 1 then Some (Inl (Problem ''CHILD_CYCLE'' i))
        else if state i = 2 then Some (Inr state)
        else (case graph_visit_all entries n (state(i := 1)) (map ch_OperationID (cm_Children entry)) of
                Some (Inr state') \<Rightarrow> Some (Inr (state'(i := 2)))
              | r \<Rightarrow> r))"
| "graph_visit_all entries n state [] = Some (Inr state)"
| "graph_visit_all entries n state (c # cs) =
     (case graph_visit entries n state c of
        Some (Inr state') \<Rightarrow> graph_visit_all entries n state' cs
      | r \<Rightarrow> r)"

definition validateGraph :: "string list \<Rightarrow> Entries \<Rightarrow> problem err option" where
  "validateGraph ids entries =
     (case graph_visit_all entries (Suc (length ids)) (\<lambda>_. 0) ids of
        None \<Rightarrow> None
      | Some (Inl e) \<Rightarrow> Some (Some e)
      | Some (Inr _) \<Rightarrow> Some None)"

definition always_children :: "CompiledOperation \<Rightarrow> string list" where
  "always_children entry = map ch_OperationID (filter (\<lambda>c. ch_Mode c = ''always'') (cm_Children entry))"

text \<open>
  The set \<open>set\<close> of the source is a list of codes here; \<open>sorted(values)\<close> sorts its elements
  without repetition. A missing entry reads as the zero value, without codes and children.
\<close>

type_synonym Memo = "string \<rightharpoonup> string list"

fun alwaysClosure :: "Entries \<Rightarrow> nat \<Rightarrow> Memo \<Rightarrow> string \<Rightarrow> (string list \<times> Memo) option"
  and closure_children :: "Entries \<Rightarrow> nat \<Rightarrow> Memo \<Rightarrow> string list \<Rightarrow> string list \<Rightarrow> (string list \<times> Memo) option"
where
  "alwaysClosure entries 0 memo i = None"
| "alwaysClosure entries (Suc n) memo i =
     (case memo i of
        Some previous \<Rightarrow> Some (previous, memo)
      | None \<Rightarrow>
        (case closure_children entries n memo (case entries i of None \<Rightarrow> [] | Some e \<Rightarrow> co_RequiredCapabilityCodes e)
                (case entries i of None \<Rightarrow> [] | Some e \<Rightarrow> always_children e) of
           None \<Rightarrow> None
         | Some (codes, memo') \<Rightarrow>
           (let values = sort (remdups codes) in Some (values, memo'(i \<mapsto> values)))))"
| "closure_children entries n memo codes [] = Some (codes, memo)"
| "closure_children entries n memo codes (c # cs) =
     (case alwaysClosure entries n memo c of
        None \<Rightarrow> None
      | Some (extra, memo') \<Rightarrow> closure_children entries n memo' (codes @ extra) cs)"

subsection \<open>Compilation\<close>

definition check_op :: "Operation \<Rightarrow> (string \<rightharpoonup> Operation) \<Rightarrow> problem + (string \<rightharpoonup> Operation)" where
  "check_op op ops =
     (if ops (op_ID op) \<noteq> None \<or> \<not> code_pattern (op_ID op) then Inl (Problem ''INVENTORY'' (op_ID op))
      else case unique (op_Requires op) (op_ID op @ ''.requiresOperations'') of
        Some e \<Rightarrow> Inl e
      | None \<Rightarrow> Inr (ops(op_ID op \<mapsto> op)))"

definition compile_entry :: "Mapping \<Rightarrow> Operation \<Rightarrow> CompiledOperation" where
  "compile_entry m op =
     (let codes = sort (cm_CapabilityCodes m) in
      \<lparr>cm_WorkerPermission = cm_WorkerPermission m, cm_OperationID = cm_OperationID m, cm_Classification = cm_Classification m,
       cm_ModuleCode = cm_ModuleCode m, cm_CapabilityCodes = codes, cm_ExemptionReason = cm_ExemptionReason m,
       cm_Children = sort_key ch_OperationID (cm_Children m),
       co_ConsumerType = (if op_RPC op \<noteq> '''' then (if op_TenantRequired op then ''tenant'' else ''platform'')
                          else if cm_WorkerPermission m \<noteq> '''' then ''worker'' else ''internal_child''),
       co_TenantRequired = op_TenantRequired op, co_RPC = op_RPC op,
       co_RequiredCapabilityCodes = (if cm_Classification m = TenantBusiness then sort codes else []),
       co_AlwaysRequiredCapabilityCodes = []\<rparr>)"

definition compile_mapping ::
  "(string \<rightharpoonup> Operation) \<Rightarrow> LookupModule \<Rightarrow> Mapping \<Rightarrow> Entries \<times> (string \<times> string) list \<Rightarrow> problem + Entries \<times> (string \<times> string) list" where
  "compile_mapping ops lookup m st =
     (let (entries, owners) = st in
      case ops (cm_OperationID m) of
        None \<Rightarrow> Inl (Problem ''UNKNOWN_OPERATION'' (cm_OperationID m))
      | Some op \<Rightarrow>
        if entries (op_ID op) \<noteq> None then Inl (Problem ''DUPLICATE_MAPPING'' (op_ID op))
        else bind_result (validateMapping m op lookup owners)
               (\<lambda>owners'. Inr (entries(op_ID op \<mapsto> compile_entry m op), owners')))"

fun compile_operations :: "Entries \<Rightarrow> nat \<Rightarrow> Memo \<Rightarrow> string list \<Rightarrow> CompiledOperation list option" where
  "compile_operations entries n memo [] = Some []"
| "compile_operations entries n memo (i # ids) =
     (case alwaysClosure entries n memo i of
        None \<Rightarrow> None
      | Some (codes, memo') \<Rightarrow>
        (case compile_operations entries n memo' ids of
           None \<Rightarrow> None
         | Some os \<Rightarrow> Some ((the (entries i))\<lparr>co_AlwaysRequiredCapabilityCodes := codes\<rparr> # os)))"

definition Compile :: "Plans \<Rightarrow> Manifest \<Rightarrow> Declaration \<Rightarrow> LookupModule option \<Rightarrow> (problem + Document) option" where
  "Compile plans manifest declaration lookup =
     (if pls_SchemaVersion plans \<noteq> 2 \<or> mf_SchemaVersion manifest \<noteq> 3 \<or> dcl_SchemaVersion declaration \<noteq> 1
        then Some (Inl (Problem ''SCHEMA'' ''inputs''))
      else case map_version (dcl_MappingVersion declaration) of
        Inl e \<Rightarrow> Some (Inl e)
      | Inr _ \<Rightarrow>
      if lookup = None \<or> pls_Operations plans = [] then Some (Inl (Problem ''EMPTY'' ''inputs''))
      else case fold_err check_op (pls_Operations plans) Map.empty of
        Inl e \<Rightarrow> Some (Inl e)
      | Inr ops \<Rightarrow>
      (case or_else (validateManifest manifest ops (length (pls_Operations plans)))
              (unique (dcl_RetiredCapabilityCodes declaration) ''retired_capability_codes'') of
        Some e \<Rightarrow> Some (Inl e)
      | None \<Rightarrow>
      (case fold_err (compile_mapping ops (the lookup)) (dcl_Operations declaration) (Map.empty, []) of
        Inl e \<Rightarrow> Some (Inl e)
      | Inr (entries, owners) \<Rightarrow>
        let ids = sort (map op_ID (pls_Operations plans)) in
        case or_else (for_each_err (\<lambda>i. if entries i = None then Some (Problem ''UNCLASSIFIED'' i) else None) ids)
               (for_each_err (\<lambda>code. if map_of owners code \<noteq> None then Some (Problem ''RETIRED_CAPABILITY'' code) else None)
                  (dcl_RetiredCapabilityCodes declaration)) of
          Some e \<Rightarrow> Some (Inl e)
        | None \<Rightarrow>
          (case validateGraph ids entries of
             None \<Rightarrow> None
           | Some (Some e) \<Rightarrow> Some (Inl e)
           | Some None \<Rightarrow>
             (case compile_operations entries (Suc (length ids)) Map.empty ids of
                None \<Rightarrow> None
              | Some os \<Rightarrow> Some (Inr
                  \<lparr>doc_SchemaVersion = 1, doc_MappingVersion = dcl_MappingVersion declaration, doc_InputsSHA256 = [],
                   doc_RetiredCapabilityCodes = sort (dcl_RetiredCapabilityCodes declaration),
                   doc_Capabilities = sort_key cap_Code (map (\<lambda>(code, mc). \<lparr>cap_Code = code, cap_ModuleCode = mc\<rparr>) owners),
                   doc_Operations = os\<rparr>))))))"

subsection \<open>Evolution of the published map\<close>

definition json_strings :: "string list \<Rightarrow> json" where
  "json_strings ss = JArr (map JStr ss)"

definition json_Child :: "Child \<Rightarrow> json" where
  "json_Child c = JObj ([(''operation_id'', JStr (ch_OperationID c)), (''mode'', JStr (ch_Mode c))] @
     omit_str ''condition'' (ch_Condition c) @ [(''source'', JStr (ch_Source c))])"

definition json_CompiledOperation :: "CompiledOperation \<Rightarrow> json" where
  "json_CompiledOperation o' = JObj (omit_str ''worker_permission'' (cm_WorkerPermission o') @
     [(''operation_id'', JStr (cm_OperationID o')), (''classification'', JStr (cm_Classification o'))] @
     omit_str ''module_code'' (cm_ModuleCode o') @ [(''capability_codes'', json_strings (cm_CapabilityCodes o'))] @
     omit_str ''exemption_reason'' (cm_ExemptionReason o') @ [(''children'', JArr (map json_Child (cm_Children o'))),
     (''consumer_type'', JStr (co_ConsumerType o')), (''tenant_required'', JBool (co_TenantRequired o'))] @
     omit_str ''rpc'' (co_RPC o') @ [(''required_capability_codes'', json_strings (co_RequiredCapabilityCodes o')),
     (''always_required_capability_codes'', json_strings (co_AlwaysRequiredCapabilityCodes o'))])"

definition json_Capability :: "Capability \<Rightarrow> json" where
  "json_Capability c = JObj [(''capability_code'', JStr (cap_Code c)), (''module_code'', JStr (cap_ModuleCode c))]"

text \<open>The document with its mapping version blanked and its input hashes set to nil.\<close>

definition json_Document :: "Document \<Rightarrow> json" where
  "json_Document d = JObj [(''schema_version'', JNum (doc_SchemaVersion d)), (''mapping_version'', JStr ''''),
     (''inputs_sha256'', JNull), (''retired_capability_codes'', json_strings (doc_RetiredCapabilityCodes d)),
     (''capabilities'', JArr (map json_Capability (doc_Capabilities d))),
     (''operations'', JArr (map json_CompiledOperation (doc_Operations d)))]"

definition capability_owners :: "Document \<Rightarrow> string \<rightharpoonup> string" where
  "capability_owners d = fold (\<lambda>c owners. owners(cap_Code c \<mapsto> cap_ModuleCode c)) (doc_Capabilities d) Map.empty"

definition ValidateEvolution :: "Document \<Rightarrow> Document \<Rightarrow> problem err" where
  "ValidateEvolution previous next' =
     (if doc_SchemaVersion previous \<noteq> 1 \<or> doc_SchemaVersion next' \<noteq> 1 then Some (Problem ''SCHEMA'' ''baseline'')
      else case map_version (doc_MappingVersion previous) of
        Inl e \<Rightarrow> Some e
      | Inr oldVersion \<Rightarrow>
      (case map_version (doc_MappingVersion next') of
        Inl e \<Rightarrow> Some e
      | Inr newVersion \<Rightarrow>
        let owners = capability_owners next' in
        if newVersion < oldVersion then Some (Problem ''VERSION'' ''mapping_version'')
        else or_else
          (for_each_err (\<lambda>retired. if owners retired \<noteq> None \<or> retired \<notin> set (doc_RetiredCapabilityCodes next')
             then Some (Problem ''RETIRED_CAPABILITY'' retired) else None) (doc_RetiredCapabilityCodes previous))
         (or_else
          (for_each_err (\<lambda>c. case owners (cap_Code c) of
               Some owner \<Rightarrow> if owner \<noteq> cap_ModuleCode c then Some (Problem ''CAPABILITY_OWNER'' (cap_Code c)) else None
             | None \<Rightarrow> if cap_Code c \<notin> set (doc_RetiredCapabilityCodes next') then Some (Problem ''RETIRED_CAPABILITY'' (cap_Code c)) else None)
             (doc_Capabilities previous))
          (if marshal (json_Document previous) \<noteq> marshal (json_Document next') \<and> newVersion \<le> oldVersion
           then Some (Problem ''VERSION'' ''mapping_version'') else None))))"

section \<open>The graph search\<close>

text \<open>
  The search is the one of the module catalogue, up to the error it reports; the graph of operations
  is written as a catalogue to use its correctness.
\<close>

definition graph_node :: "Entries \<Rightarrow> string \<Rightarrow> ModuleDefinition" where
  "graph_node entries i = \<lparr>mod_Code = i, mod_TechnicalStatus = '''', mod_SalesStatus = '''', mod_Version = 0, mod_Capabilities = [],
     mod_QuotaKeys = [], mod_FieldKeys = [],
     mod_Dependencies = (case entries i of None \<Rightarrow> [] | Some e \<Rightarrow> map ch_OperationID (cm_Children e))\<rparr>"

abbreviation graph_catalog :: "string list \<Rightarrow> Entries \<Rightarrow> Catalog" where
  "graph_catalog ids entries \<equiv> map (graph_node entries) ids"

lemma graph_node_fields [simp]:
  "mod_Code (graph_node entries i) = i"
  "mod_Dependencies (graph_node entries i) = (case entries i of None \<Rightarrow> [] | Some e \<Rightarrow> map ch_OperationID (cm_Children e))"
  by (simp_all add: graph_node_def)

lemma graph_Definition: "Catalog_Definition (graph_catalog ids entries) i = (if i \<in> set ids then Some (graph_node entries i) else None)"
  by (induction ids) auto

lemma graph_known: "known (graph_catalog ids entries) = set ids"
  by (auto simp: image_iff)

lemma graph_visit_simulates:
  assumes dom: "dom entries = set ids"
  shows "(graph_visit entries n st i = None \<longrightarrow> visit (graph_catalog ids entries) n st i = None) \<and>
      (\<forall>st'. graph_visit entries n st i = Some (Inr st') \<longrightarrow> visit (graph_catalog ids entries) n st i = Some (Inr st'))"
    "(graph_visit_all entries n st cs = None \<longrightarrow> visit_all (graph_catalog ids entries) n st cs = None) \<and>
      (\<forall>st'. graph_visit_all entries n st cs = Some (Inr st') \<longrightarrow> visit_all (graph_catalog ids entries) n st cs = Some (Inr st'))"
  using dom
proof (induction entries n st i and entries n st cs rule: graph_visit_graph_visit_all.induct)
  case (2 entries n st i)
  show ?case
  proof (cases "entries i")
    case (Some e)
    then have "Catalog_Definition (graph_catalog ids entries) i = Some (graph_node entries i)" using 2(2) by (auto simp: graph_Definition)
    moreover have deps: "mod_Dependencies (graph_node entries i) = map ch_OperationID (cm_Children e)" using Some by simp
    ultimately show ?thesis
    proof (cases "st i = 1 \<or> st i = 2")
      case False
      then have st: "st i \<noteq> 1" "st i \<noteq> 2" by blast+
      have def: "Catalog_Definition (graph_catalog ids entries) i = Some (graph_node entries i)" by fact
      define ds where "ds = map ch_OperationID (cm_Children e)"
      have run: "graph_visit entries (Suc n) st i = (case graph_visit_all entries n (st(i := 1)) ds of
            Some (Inr st') \<Rightarrow> Some (Inr (st'(i := 2))) | r \<Rightarrow> r)"
          "visit (graph_catalog ids entries) (Suc n) st i = (case visit_all (graph_catalog ids entries) n (st(i := 1)) ds of
            Some (Inr st') \<Rightarrow> Some (Inr (st'(i := 2))) | r \<Rightarrow> r)"
        by (simp_all only: graph_visit.simps visit.simps Some option.case st def deps ds_def if_False refl)
      from 2(1) [OF Some st 2(2)] show ?thesis unfolding run ds_def [symmetric]
        by (cases "graph_visit_all entries n (st(i := 1)) ds") (auto simp del: fun_upd_apply split: sum.splits)
    qed (use Some in auto)
  qed simp
next
  case (4 entries n st c cs)
  then show ?case by (auto split: option.splits sum.splits)
qed auto

definition kids_known :: "Entries \<Rightarrow> (string \<Rightarrow> nat) \<Rightarrow> bool" where
  "kids_known entries st \<longleftrightarrow>
     (\<forall>x e c. st x = 2 \<longrightarrow> entries x = Some e \<longrightarrow> c \<in> set (cm_Children e) \<longrightarrow> entries (ch_OperationID c) \<noteq> None)"

lemma graph_visit_known:
  "graph_visit entries n st i = Some (Inr st') \<Longrightarrow> kids_known entries st \<Longrightarrow> entries i \<noteq> None \<and> kids_known entries st'"
  "graph_visit_all entries n st cs = Some (Inr st') \<Longrightarrow> kids_known entries st \<Longrightarrow>
     (\<forall>i \<in> set cs. entries i \<noteq> None) \<and> kids_known entries st'"
proof (induction entries n st i and entries n st cs arbitrary: st' and st' rule: graph_visit_graph_visit_all.induct)
  case (2 entries n st i)
  from 2(2) obtain e where e: "entries i = Some e" by (auto split: option.splits)
  show ?case
  proof (cases "st i = 2")
    case True
    then show ?thesis using 2(2,3) e by (auto split: if_splits)
  next
    case False
    with 2(2) e obtain s1 where g: "st i \<noteq> 1" and s1: "graph_visit_all entries n (st(i := 1)) (map ch_OperationID (cm_Children e)) = Some (Inr s1)"
      and st': "st' = s1(i := 2)" by (auto split: if_splits option.splits sum.splits)
    have "kids_known entries (st(i := 1))" using 2(3) by (simp add: kids_known_def)
    from 2(1) [OF e g False s1 this] show ?thesis using e by (auto simp: st' kids_known_def)
  qed
next
  case (4 entries n st c cs)
  from 4(3) obtain s1 where s1: "graph_visit entries n st c = Some (Inr s1)" "graph_visit_all entries n s1 cs = Some (Inr st')"
    by (auto split: option.splits sum.splits)
  from 4(1) [OF s1(1) 4(4)] 4(2) [OF s1(1) refl s1(2)] show ?case by simp
qed auto

definition child_edges :: "Entries \<Rightarrow> (string \<times> string) set" where
  "child_edges entries = {(i, ch_OperationID c) | i c e. entries i = Some e \<and> c \<in> set (cm_Children e)}"

lemma validateGraph_spec:
  assumes dom: "dom entries = set ids" and d: "distinct ids"
  shows "validateGraph ids entries \<noteq> None"
    "validateGraph ids entries = Some None \<Longrightarrow> acyclic (child_edges entries) \<and> Range (child_edges entries) \<subseteq> set ids"
proof -
  let ?c = "graph_catalog ids entries"
  have start: "case visit_all ?c (Suc (length ids)) (\<lambda>_. 0) ids of None \<Rightarrow> False
      | Some (Inl e) \<Rightarrow> \<not> acyclic (dep_edges ?c) | Some (Inr st) \<Rightarrow> acyclic (dep_edges ?c)"
    using visit_all_start [of ?c] d by (simp add: comp_def)
  note sim = graph_visit_simulates(2) [OF dom, of "Suc (length ids)" "\<lambda>_. 0" ids]
  show "validateGraph ids entries \<noteq> None" using start sim by (auto simp: validateGraph_def split: option.splits sum.splits)
  assume "validateGraph ids entries = Some None"
  then obtain st where g: "graph_visit_all entries (Suc (length ids)) (\<lambda>_. 0) ids = Some (Inr st)"
    by (auto simp: validateGraph_def split: option.splits sum.splits)
  then have v: "visit_all ?c (Suc (length ids)) (\<lambda>_. 0) ids = Some (Inr st)" using sim by blast
  have "\<forall>i \<in> set ids. st i = 2"
  proof -
    have "dfs_inv ?c (\<lambda>_. 0)" by (simp add: dfs_inv_def acyclic_def)
    from visit_keeps_inv(2) [OF v this] show ?thesis unfolding graph_known by blast
  qed
  have "kids_known entries st" using graph_visit_known(2) [OF g] by (simp add: kids_known_def)
  have kids: "entries (ch_OperationID c) \<noteq> None" if "entries i = Some e" "c \<in> set (cm_Children e)" for i e c
  proof -
    have "i \<in> set ids" using that(1) dom by blast
    with \<open>\<forall>i \<in> set ids. st i = 2\<close> \<open>kids_known entries st\<close> that show ?thesis unfolding kids_known_def by blast
  qed
  have r: "Range (child_edges entries) \<subseteq> set ids"
    using kids dom by (auto simp: child_edges_def)
  have "child_edges entries \<subseteq> dep_edges ?c"
  proof
    fix p assume "p \<in> child_edges entries"
    then obtain i c e where p: "p = (i, ch_OperationID c)" "entries i = Some e" "c \<in> set (cm_Children e)" by (auto simp: child_edges_def)
    then have "i \<in> set ids" "ch_OperationID c \<in> set ids" using dom kids [OF p(2,3)] by auto
    with p show "p \<in> dep_edges ?c" unfolding dep_edges_def graph_known by (simp add: graph_Definition)
  qed
  then have "acyclic (child_edges entries)" using start v by (auto intro: acyclic_subset)
  with r show "acyclic (child_edges entries) \<and> Range (child_edges entries) \<subseteq> set ids" by blast
qed

section \<open>The closure over mandatory children\<close>

definition always_edges :: "Entries \<Rightarrow> (string \<times> string) set" where
  "always_edges entries = {(i, j). \<exists>e. entries i = Some e \<and> j \<in> set (always_children e)}"

definition own_codes :: "Entries \<Rightarrow> string \<Rightarrow> string set" where
  "own_codes entries i = (case entries i of None \<Rightarrow> {} | Some e \<Rightarrow> set (co_RequiredCapabilityCodes e))"

definition needs :: "Entries \<Rightarrow> string \<Rightarrow> string set" where
  "needs entries i = (\<Union>j \<in> (always_edges entries)\<^sup>* `` {i}. own_codes entries j)"

lemma always_edges_child: "always_edges entries \<subseteq> child_edges entries"
  by (auto simp: always_edges_def child_edges_def always_children_def)

lemma needs_unfold: "needs entries i = own_codes entries i \<union> (\<Union>j \<in> always_edges entries `` {i}. needs entries j)"
proof -
  have "(always_edges entries)\<^sup>* `` {i} = {i} \<union> (\<Union>j \<in> always_edges entries `` {i}. (always_edges entries)\<^sup>* `` {j})"
    by (auto intro: converse_rtrancl_into_rtrancl elim: converse_rtranclE)
  then show ?thesis unfolding needs_def by auto
qed

definition memo_ok :: "Entries \<Rightarrow> Memo \<Rightarrow> bool" where
  "memo_ok entries memo \<longleftrightarrow> (\<forall>i v. memo i = Some v \<longrightarrow> sorted v \<and> distinct v \<and> set v = needs entries i)"

abbreviation below :: "Entries \<Rightarrow> string \<Rightarrow> string set" where
  "below entries i \<equiv> (always_edges entries)\<^sup>+ `` {i}"

lemma below_child:
  assumes "acyclic (always_edges entries)" "finite (below entries i)" "(i, j) \<in> always_edges entries"
  shows "card (below entries j) < card (below entries i)"
proof (rule psubset_card_mono [OF assms(2)])
  have "j \<in> below entries i" "j \<notin> below entries j" using assms(1,3) by (auto simp: acyclic_def)
  moreover have "below entries j \<subseteq> below entries i" using assms(3) by (auto intro: trancl_into_trancl2)
  ultimately show "below entries j \<subset> below entries i" by blast
qed

lemma alwaysClosure_correct:
  assumes ac: "acyclic (always_edges entries)" and fin: "\<And>i. finite (below entries i)"
  shows "memo_ok entries memo \<Longrightarrow> card (below entries i) < n \<Longrightarrow>
      \<exists>v memo'. alwaysClosure entries n memo i = Some (v, memo') \<and> memo_ok entries memo' \<and>
        sorted v \<and> distinct v \<and> set v = needs entries i"
    and "memo_ok entries memo \<Longrightarrow> (\<And>c. c \<in> set cs \<Longrightarrow> card (below entries c) < n) \<Longrightarrow>
      \<exists>v memo'. closure_children entries n memo codes cs = Some (v, memo') \<and> memo_ok entries memo' \<and>
        set v = set codes \<union> (\<Union>c \<in> set cs. needs entries c)"
  using ac fin
proof (induction entries n memo i and entries n memo codes cs rule: alwaysClosure_closure_children.induct)
  case (2 entries n memo i)
  show ?case
  proof (cases "memo i")
    case (Some v)
    with 2(2) show ?thesis by (auto simp: memo_ok_def)
  next
    case None
    let ?codes = "case entries i of None \<Rightarrow> [] | Some e \<Rightarrow> co_RequiredCapabilityCodes e"
      and ?cs = "case entries i of None \<Rightarrow> [] | Some e \<Rightarrow> always_children e"
    have edges: "always_edges entries `` {i} = set ?cs" by (cases "entries i") (auto simp: always_edges_def)
    have "card (below entries c) < n" if "c \<in> set ?cs" for c
    proof -
      have "(i, c) \<in> always_edges entries" using that edges by blast
      from below_child [OF 2(4,5) this] 2(3) show ?thesis by linarith
    qed
    from 2(1) [OF None 2(2) this 2(4,5)]
    obtain v memo' where v: "closure_children entries n memo ?codes ?cs = Some (v, memo')" "memo_ok entries memo'"
        "set v = set ?codes \<union> (\<Union>c \<in> set ?cs. needs entries c)" by blast
    have "set ?codes = own_codes entries i" by (simp add: own_codes_def split: option.split)
    with v(3) have "set v = needs entries i" using needs_unfold [of entries i] edges by simp
    with v None show ?thesis by (auto simp: Let_def memo_ok_def)
  qed
next
  case (4 entries n memo codes c cs)
  from 4(1) [OF 4(3) 4(4) 4(5,6)] obtain v1 memo1 where v1: "alwaysClosure entries n memo c = Some (v1, memo1)" "memo_ok entries memo1"
      "set v1 = needs entries c" by auto
  from 4(2) [OF v1(1) refl v1(2) 4(4) 4(5,6)] obtain v memo' where
      "closure_children entries n memo1 (codes @ v1) cs = Some (v, memo')" "memo_ok entries memo'"
      "set v = set (codes @ v1) \<union> (\<Union>c \<in> set cs. needs entries c)" by auto
  with v1 show ?case by auto
qed auto

lemma compile_operations_correct:
  assumes "acyclic (always_edges entries)" "\<And>i. finite (below entries i)" "memo_ok entries memo"
    "\<And>i. i \<in> set ids \<Longrightarrow> card (below entries i) < n"
  shows "compile_operations entries n memo ids =
    Some (map (\<lambda>i. (the (entries i))\<lparr>co_AlwaysRequiredCapabilityCodes := sorted_list_of_set (needs entries i)\<rparr>) ids)"
  using assms(3,4)
proof (induction ids arbitrary: memo)
  case (Cons i ids)
  obtain v memo' where v: "alwaysClosure entries n memo i = Some (v, memo')" "memo_ok entries memo'" "sorted v" "distinct v" "set v = needs entries i"
    using alwaysClosure_correct(1) [OF assms(1,2) Cons(2), of i n] Cons(3) by auto
  have "v = sorted_list_of_set (needs entries i)" using v(3-5) sorted_list_of_set.idem_if_sorted_distinct by metis
  with v(1) Cons(1) [OF v(2)] Cons(3) show ?case by simp
qed simp

section \<open>What compilation establishes\<close>

lemma fold_err_invariant:
  assumes "fold_err f xs s = Inr s'" "I [] s"
    and "\<And>x ys s s'. x \<in> set xs \<Longrightarrow> I ys s \<Longrightarrow> f x s = Inr s' \<Longrightarrow> I (x # ys) s'"
  shows "I (rev xs) s'"
proof -
  have "I (rev xs @ ys) s'" if "fold_err f xs s = Inr s'" "I ys s"
      "\<And>x ys s s'. x \<in> set xs \<Longrightarrow> I ys s \<Longrightarrow> f x s = Inr s' \<Longrightarrow> I (x # ys) s'" for ys
    using that
  proof (induction xs arbitrary: s ys)
    case (Cons x xs)
    from Cons(2) obtain s1 where s1: "f x s = Inr s1" "fold_err f xs s1 = Inr s'" by auto
    have "I (x # ys) s1" using Cons(4) [of x ys s s1] Cons(3) s1(1) by simp
    from Cons(1) [OF s1(2) this] Cons(4) show ?case by simp
  qed simp
  from this [of "[]"] assms show ?thesis by simp
qed

lemma check_op_Inr:
  "check_op op ops = Inr ops' \<longleftrightarrow> ops (op_ID op) = None \<and> code_pattern (op_ID op) \<and>
     unique (op_Requires op) (op_ID op @ ''.requiresOperations'') = None \<and> ops' = ops(op_ID op \<mapsto> op)"
  by (auto simp: check_op_def split: option.splits)

lemma inventory:
  assumes "fold_err check_op xs Map.empty = Inr ops"
  shows "distinct (map op_ID xs)" "dom ops = op_ID ` set xs" "ops i = Some op \<Longrightarrow> op \<in> set xs \<and> op_ID op = i"
proof -
  let ?I = "\<lambda>ys ops. distinct (map op_ID ys) \<and> dom ops = op_ID ` set ys \<and> (\<forall>i op. ops i = Some op \<longrightarrow> op \<in> set ys \<and> op_ID op = i)"
  have "?I (rev xs) ops"
  proof (rule fold_err_invariant [OF assms, of ?I])
    fix x ys s s' assume I: "?I ys s" and x: "check_op x s = Inr s'"
    then have s: "s (op_ID x) = None" "s' = s(op_ID x \<mapsto> x)" by (simp_all add: check_op_Inr)
    then have "op_ID x \<notin> op_ID ` set ys" using I by blast
    with I s show "?I (x # ys) s'" by (auto split: if_splits)
  qed simp
  then show "distinct (map op_ID xs)" "dom ops = op_ID ` set xs" "ops i = Some op \<Longrightarrow> op \<in> set xs \<and> op_ID op = i"
    by (auto simp: rev_map [symmetric])
qed

text \<open>What a mapping that was accepted satisfies.\<close>

definition mapping_ok :: "LookupModule \<Rightarrow> Mapping \<Rightarrow> Operation \<Rightarrow> bool" where
  "mapping_ok lookup m op \<longleftrightarrow>
     check_classification m op = None \<and> (cm_WorkerPermission m \<noteq> '''' \<longrightarrow> worker_entry_ok m op) \<and>
     (cm_Classification m \<noteq> TenantBusiness \<longrightarrow> TrimSpace (cm_ExemptionReason m) \<noteq> '''') \<and>
     distinct (cm_CapabilityCodes m) \<and> (cm_ModuleCode m = '''' \<longleftrightarrow> cm_CapabilityCodes m = []) \<and>
     (cm_ModuleCode m \<noteq> '''' \<longrightarrow> (\<exists>av. lookup (cm_ModuleCode m) = Some av \<and> set (cm_CapabilityCodes m) \<subseteq> set av)) \<and>
     distinct (map ch_OperationID (cm_Children m)) \<and> sort (map ch_OperationID (cm_Children m)) = sort (op_Requires op)"

lemma unique_None: "unique vs at = None \<longleftrightarrow> distinct vs \<and> (\<forall>v \<in> set vs. code_pattern v)"
  by (auto simp: unique_def)

lemma check_capabilities:
  assumes "fold_err (check_capability at mc available) codes owners = Inr owners'" "distinct (map fst owners)"
  shows "set codes \<subseteq> set available \<and> distinct (map fst owners') \<and> set owners' = set owners \<union> (\<lambda>c. (c, mc)) ` set codes"
  using assms
proof (induction codes arbitrary: owners)
  case (Cons code codes)
  from Cons(2) obtain ow where ow: "check_capability at mc available code owners = Inr ow"
      "fold_err (check_capability at mc available) codes ow = Inr owners'" by auto
  from ow(1) have "code \<in> set available" and "ow = owners \<and> (code, mc) \<in> set owners \<or> ow = (code, mc) # owners \<and> code \<notin> fst ` set owners"
    by (auto simp: check_capability_def map_of_eq_None_iff dest: map_of_SomeD split: if_splits option.splits)
  with Cons(1) [OF ow(2)] Cons(3) show ?case by auto
qed simp

lemma validateMapping_Inr:
  assumes ok: "validateMapping m op lookup owners = Inr owners'" and d: "distinct (map fst owners)"
  shows "mapping_ok lookup m op \<and> distinct (map fst owners') \<and>
    set owners' = set owners \<union> (\<lambda>c. (c, cm_ModuleCode m)) ` set (cm_CapabilityCodes m)"
proof -
  from ok have base: "check_classification m op = None" "cm_WorkerPermission m \<noteq> '''' \<longrightarrow> worker_entry_ok m op"
      "cm_Classification m \<noteq> TenantBusiness \<longrightarrow> TrimSpace (cm_ExemptionReason m) \<noteq> ''''"
      "distinct (cm_CapabilityCodes m)" "cm_ModuleCode m = '''' \<longleftrightarrow> cm_CapabilityCodes m = []"
      "distinct (map ch_OperationID (cm_Children m))" "sort (map ch_OperationID (cm_Children m)) = sort (op_Requires op)"
    by (auto simp: validateMapping_def Let_def unique_None split: option.splits if_splits)
  show ?thesis
  proof (cases "cm_ModuleCode m = ''''")
    case True
    with ok have "owners' = owners" by (auto simp: validateMapping_def Let_def split: option.splits)
    with base True d show ?thesis by (simp add: mapping_ok_def)
  next
    case False
    with ok obtain av where av: "lookup (cm_ModuleCode m) = Some av"
        "fold_err (check_capability (op_ID op) (cm_ModuleCode m) av) (cm_CapabilityCodes m) owners = Inr owners'"
      by (auto simp: validateMapping_def Let_def split: option.splits)
    from check_capabilities [OF av(2) d] av(1) base False show ?thesis by (simp add: mapping_ok_def)
  qed
qed

definition entries_ok :: "LookupModule \<Rightarrow> (string \<rightharpoonup> Operation) \<Rightarrow> Mapping list \<Rightarrow> Entries \<times> (string \<times> string) list \<Rightarrow> bool" where
  "entries_ok lookup ops ms st \<longleftrightarrow>
     (\<forall>i e. fst st i = Some e \<longrightarrow>
        (\<exists>m \<in> set ms. \<exists>op. ops i = Some op \<and> cm_OperationID m = i \<and> e = compile_entry m op \<and> mapping_ok lookup m op)) \<and>
     distinct (map fst (snd st)) \<and>
     set (snd st) = (\<Union>m \<in> set ms. (\<lambda>c. (c, cm_ModuleCode m)) ` set (cm_CapabilityCodes m))"

lemma compile_mappings:
  assumes run: "fold_err (compile_mapping ops lookup) ms (Map.empty, []) = Inr st"
    and ids: "\<And>i op. ops i = Some op \<Longrightarrow> op_ID op = i"
  shows "entries_ok lookup ops ms st"
proof -
  have "entries_ok lookup ops (rev ms) st"
  proof (rule fold_err_invariant [OF run])
    show "entries_ok lookup ops [] (Map.empty, [])" by (simp add: entries_ok_def)
    fix m ys s s' assume I: "entries_ok lookup ops ys s" and step: "compile_mapping ops lookup m s = Inr s'"
    obtain entries owners where s: "s = (entries, owners)" by (cases s)
    with step obtain op owners' where op: "ops (cm_OperationID m) = Some op" "entries (op_ID op) = None"
        "validateMapping m op lookup owners = Inr owners'" "s' = (entries(op_ID op \<mapsto> compile_entry m op), owners')"
      by (auto simp: compile_mapping_def split: option.splits if_splits)
    have "distinct (map fst owners)" using I s by (simp add: entries_ok_def)
    from validateMapping_Inr [OF op(3) this] I s op ids [OF op(1)] show "entries_ok lookup ops (m # ys) s'"
      unfolding entries_ok_def by (auto split: if_splits)
  qed
  then show ?thesis by (simp add: entries_ok_def)
qed

lemma compile_entry_fields [simp]:
  "cm_OperationID (compile_entry m op) = cm_OperationID m" "cm_Classification (compile_entry m op) = cm_Classification m"
  "set (cm_Children (compile_entry m op)) = set (cm_Children m)" "set (cm_CapabilityCodes (compile_entry m op)) = set (cm_CapabilityCodes m)"
  "set (co_RequiredCapabilityCodes (compile_entry m op)) = (if cm_Classification m = TenantBusiness then set (cm_CapabilityCodes m) else {})"
  "cm_ModuleCode (compile_entry m op) = cm_ModuleCode m" "cm_ExemptionReason (compile_entry m op) = cm_ExemptionReason m"
  "cm_WorkerPermission (compile_entry m op) = cm_WorkerPermission m" "co_TenantRequired (compile_entry m op) = op_TenantRequired op"
  by (simp_all add: compile_entry_def Let_def)

definition doc_entries :: "Document \<Rightarrow> Entries" where
  "doc_entries doc = map_of (map (\<lambda>e. (cm_OperationID e, e)) (doc_Operations doc))"

lemma finite_child_edges: "dom entries = set ids \<Longrightarrow> finite (child_edges entries)"
proof -
  assume dom: "dom entries = set ids"
  have "child_edges entries = (\<Union>i \<in> dom entries. (\<lambda>c. (i, ch_OperationID c)) ` set (cm_Children (the (entries i))))"
    by (force simp: child_edges_def)
  then show ?thesis using dom by simp
qed

lemma below_bound:
  assumes "dom entries = set ids" "Range (child_edges entries) \<subseteq> set ids"
  shows "finite (below entries i)" "card (below entries i) < Suc (length ids)"
proof -
  have "x \<in> set ids" if "(i, x) \<in> (always_edges entries)\<^sup>+" for x
  proof -
    from that obtain y where "(y, x) \<in> always_edges entries" by (auto dest: tranclD2)
    then show ?thesis using assms(2) always_edges_child [of entries] by blast
  qed
  then have "below entries i \<subseteq> set ids" by blast
  then show "finite (below entries i)" "card (below entries i) < Suc (length ids)"
    using finite_subset card_mono [of "set ids" "below entries i"] card_length [of ids] by (auto simp: less_Suc_eq_le)
qed

lemma compiled_operations:
  assumes dom: "dom entries = set ids" and d: "distinct ids" and g: "validateGraph ids entries = Some None"
  shows "compile_operations entries (Suc (length ids)) Map.empty ids =
    Some (map (\<lambda>i. (the (entries i))\<lparr>co_AlwaysRequiredCapabilityCodes := sorted_list_of_set (needs entries i)\<rparr>) ids)"
proof (rule compile_operations_correct)
  note spec = validateGraph_spec(2) [OF dom d g]
  show "acyclic (always_edges entries)" by (rule acyclic_subset [OF conjunct1 [OF spec] always_edges_child])
  show "finite (below entries i)" for i using below_bound(1) [OF dom] spec by blast
  show "card (below entries i) < Suc (length ids)" for i using below_bound(2) [OF dom] spec by blast
qed (simp add: memo_ok_def)

lemma Compile_success:
  assumes "Compile plans manifest declaration lookup = Some (Inr doc)"
  obtains ids entries owners lk ops where "lookup = Some lk" "ids = sort (map op_ID (pls_Operations plans))" "distinct ids" "dom entries = set ids"
    "\<And>i op. ops i = Some op \<Longrightarrow> op \<in> set (pls_Operations plans) \<and> op_ID op = i"
    "entries_ok lk ops (dcl_Operations declaration) (entries, owners)"
    "\<forall>code \<in> set (dcl_RetiredCapabilityCodes declaration). code \<notin> fst ` set owners"
    "validateGraph ids entries = Some None"
    "doc_Operations doc = map (\<lambda>i. (the (entries i))\<lparr>co_AlwaysRequiredCapabilityCodes := sorted_list_of_set (needs entries i)\<rparr>) ids"
    "doc_RetiredCapabilityCodes doc = sort (dcl_RetiredCapabilityCodes declaration)"
    "doc_Capabilities doc = sort_key cap_Code (map (\<lambda>(code, mc). \<lparr>cap_Code = code, cap_ModuleCode = mc\<rparr>) owners)"
    "doc_MappingVersion doc = dcl_MappingVersion declaration" "pls_Operations plans \<noteq> []"
proof -
  let ?ids = "sort (map op_ID (pls_Operations plans))"
  from assms obtain lk ops st where lk: "lookup = Some lk" "pls_Operations plans \<noteq> []"
      and ops: "fold_err check_op (pls_Operations plans) Map.empty = Inr ops"
      and st: "fold_err (compile_mapping ops lk) (dcl_Operations declaration) (Map.empty, []) = Inr st"
    by (auto simp: Compile_def Let_def split: if_splits sum.splits option.splits)
  obtain entries owners where e: "st = (entries, owners)" by (cases st)
  from assms lk ops st e have known: "\<forall>i \<in> set ?ids. entries i \<noteq> None"
      and ret: "\<forall>code \<in> set (dcl_RetiredCapabilityCodes declaration). map_of owners code = None"
      and g: "validateGraph ?ids entries = Some None"
    by (auto simp: Compile_def Let_def split: if_splits sum.splits option.splits)
  have eok: "entries_ok lk ops (dcl_Operations declaration) (entries, owners)"
    using compile_mappings [OF st [unfolded e]] inventory(3) [OF ops] by blast
  have "dom entries \<subseteq> set ?ids"
  proof
    fix i assume "i \<in> dom entries"
    with eok have "i \<in> dom ops" unfolding entries_ok_def fst_conv by blast
    then show "i \<in> set ?ids" using inventory(2) [OF ops] by simp
  qed
  with known have dom: "dom entries = set ?ids" by auto
  have d: "distinct ?ids" using inventory(1) [OF ops] by simp
  note run = compiled_operations [OF dom d g]
  have doc: "doc_Operations doc = map (\<lambda>i. (the (entries i))\<lparr>co_AlwaysRequiredCapabilityCodes := sorted_list_of_set (needs entries i)\<rparr>) ?ids"
    "doc_RetiredCapabilityCodes doc = sort (dcl_RetiredCapabilityCodes declaration)"
    "doc_Capabilities doc = sort_key cap_Code (map (\<lambda>(code, mc). \<lparr>cap_Code = code, cap_ModuleCode = mc\<rparr>) owners)"
    "doc_MappingVersion doc = dcl_MappingVersion declaration"
    using assms lk ops st e known ret g run by (auto simp: Compile_def Let_def split: if_splits sum.splits option.splits)
  show thesis
    by (rule that [OF lk(1) refl d dom inventory(3) [OF ops] eok _ g doc lk(2)]) (use ret in \<open>auto simp: map_of_eq_None_iff\<close>)
qed

lemma Compile_total: "Compile plans manifest declaration lookup \<noteq> None"
proof
  assume none: "Compile plans manifest declaration lookup = None"
  let ?ids = "sort (map op_ID (pls_Operations plans))"
  from none obtain lk ops where lk: "lookup = Some lk" and ops: "fold_err check_op (pls_Operations plans) Map.empty = Inr ops"
    by (auto simp: Compile_def Let_def split: if_splits sum.splits option.splits)
  with none obtain st where st: "fold_err (compile_mapping ops lk) (dcl_Operations declaration) (Map.empty, []) = Inr st"
    by (auto simp: Compile_def Let_def split: if_splits sum.splits option.splits)
  obtain entries owners where e: "st = (entries, owners)" by (cases st)
  have eok: "entries_ok lk ops (dcl_Operations declaration) (entries, owners)"
    using compile_mappings [OF st [unfolded e]] inventory(3) [OF ops] by blast
  from none lk ops st e have known: "\<forall>i \<in> set ?ids. entries i \<noteq> None"
      and stuck: "validateGraph ?ids entries = None \<or> validateGraph ?ids entries = Some None \<and> compile_operations entries (Suc (length ?ids)) Map.empty ?ids = None"
    by (auto simp: Compile_def Let_def split: if_splits sum.splits option.splits)
  have "dom entries \<subseteq> dom ops" using eok unfolding entries_ok_def fst_conv by blast
  then have dom: "dom entries = set ?ids" using known inventory(2) [OF ops] by auto
  have d: "distinct ?ids" using inventory(1) [OF ops] by simp
  from stuck show False using validateGraph_spec(1) [OF dom d] compiled_operations [OF dom d] by auto
qed

lemma doc_entries_compiled:
  assumes "doc_Operations doc = map (\<lambda>i. (the (entries i))\<lparr>co_AlwaysRequiredCapabilityCodes := f i\<rparr>) ids"
    "dom entries = set ids" "\<And>i e. entries i = Some e \<Longrightarrow> cm_OperationID e = i"
  shows "doc_entries doc i = map_option (\<lambda>e. e\<lparr>co_AlwaysRequiredCapabilityCodes := f i\<rparr>) (entries i)"
proof -
  have "map_of (map (\<lambda>i. (cm_OperationID (the (entries i)), (the (entries i))\<lparr>co_AlwaysRequiredCapabilityCodes := f i\<rparr>)) is) i =
      (if i \<in> set is then Some ((the (entries i))\<lparr>co_AlwaysRequiredCapabilityCodes := f i\<rparr>) else None)" if "set is \<subseteq> dom entries" for "is"
    using that
  proof (induction "is")
    case (Cons j js)
    then obtain e where "entries j = Some e" by auto
    with assms(3) [OF this] Cons show ?case by auto
  qed simp
  moreover have "i \<in> set ids \<longleftrightarrow> entries i \<noteq> None" using assms(2) by blast
  ultimately show ?thesis
    using assms(2) by (cases "entries i") (simp_all add: doc_entries_def assms(1) comp_def)
qed

lemma same_graph:
  assumes "\<And>i. entries' i = map_option (\<lambda>e. e\<lparr>co_AlwaysRequiredCapabilityCodes := f i\<rparr>) (entries i)"
  shows "always_edges entries' = always_edges entries" "needs entries' = needs entries" "child_edges entries' = child_edges entries"
    "dom entries' = dom entries"
proof -
  have a: "always_children (e\<lparr>co_AlwaysRequiredCapabilityCodes := v\<rparr>) = always_children e" for e :: CompiledOperation and v
    by (simp add: always_children_def)
  then show ae: "always_edges entries' = always_edges entries" unfolding always_edges_def by (auto simp: assms)
  have "own_codes entries' = own_codes entries" by (rule ext) (simp add: own_codes_def assms split: option.split)
  then show "needs entries' = needs entries" by (intro ext) (simp add: needs_def ae)
  show "child_edges entries' = child_edges entries" unfolding child_edges_def by (auto simp: assms; force)
  show "dom entries' = dom entries" by (auto simp: assms dom_def)
qed

lemma Compile_document:
  assumes "Compile plans manifest declaration lookup = Some (Inr doc)"
  shows "map cm_OperationID (doc_Operations doc) = sort (map op_ID (pls_Operations plans))"
    "distinct (map cm_OperationID (doc_Operations doc))"
    "dom (doc_entries doc) = op_ID ` set (pls_Operations plans)"
    "acyclic (child_edges (doc_entries doc))" "Range (child_edges (doc_entries doc)) \<subseteq> dom (doc_entries doc)"
    "e \<in> set (doc_Operations doc) \<Longrightarrow>
       co_AlwaysRequiredCapabilityCodes e = sorted_list_of_set (needs (doc_entries doc) (cm_OperationID e)) \<and>
       doc_entries doc (cm_OperationID e) = Some e \<and>
       set (co_RequiredCapabilityCodes e) = (if cm_Classification e = TenantBusiness then set (cm_CapabilityCodes e) else {})"
proof -
  from assms obtain ids entries owners lk ops where c: "ids = sort (map op_ID (pls_Operations plans))" "distinct ids" "dom entries = set ids"
      "entries_ok lk ops (dcl_Operations declaration) (entries, owners)" "validateGraph ids entries = Some None"
      "doc_Operations doc = map (\<lambda>i. (the (entries i))\<lparr>co_AlwaysRequiredCapabilityCodes := sorted_list_of_set (needs entries i)\<rparr>) ids"
    by (rule Compile_success)
  have ent: "cm_OperationID e = i \<and> set (co_RequiredCapabilityCodes e) = (if cm_Classification e = TenantBusiness then set (cm_CapabilityCodes e) else {})"
    if "entries i = Some e" for i e
  proof -
    from that c(4) obtain m op where "e = compile_entry m op" "cm_OperationID m = i" unfolding entries_ok_def fst_conv by blast
    then show ?thesis by simp
  qed
  have same: "doc_entries doc i = map_option (\<lambda>e. e\<lparr>co_AlwaysRequiredCapabilityCodes := sorted_list_of_set (needs entries i)\<rparr>) (entries i)" for i
    by (rule doc_entries_compiled [OF c(6,3)]) (use ent in blast)
  note g = same_graph [OF same] and spec = validateGraph_spec(2) [OF c(3,2,5)]
  have the_ent: "entries i = Some (the (entries i))" if "i \<in> set ids" for i using that c(3) by (auto simp: domD)
  have idm: "map cm_OperationID (doc_Operations doc) = ids"
    unfolding c(6) map_map comp_def using ent [OF the_ent] by (intro map_idI) simp
  then show "map cm_OperationID (doc_Operations doc) = sort (map op_ID (pls_Operations plans))"
    "distinct (map cm_OperationID (doc_Operations doc))" using c(1,2) by simp_all
  show "dom (doc_entries doc) = op_ID ` set (pls_Operations plans)" using g(4) c(1,3) by simp
  show "acyclic (child_edges (doc_entries doc))" "Range (child_edges (doc_entries doc)) \<subseteq> dom (doc_entries doc)"
    using g(3,4) spec c(3) by simp_all
  assume "e \<in> set (doc_Operations doc)"
  then obtain i where i: "i \<in> set ids" "e = (the (entries i))\<lparr>co_AlwaysRequiredCapabilityCodes := sorted_list_of_set (needs entries i)\<rparr>"
    using c(6) by auto
  from ent [OF the_ent [OF i(1)]] i(2) g(2) same [of i] the_ent [OF i(1)]
  show "co_AlwaysRequiredCapabilityCodes e = sorted_list_of_set (needs (doc_entries doc) (cm_OperationID e)) \<and>
       doc_entries doc (cm_OperationID e) = Some e \<and>
       set (co_RequiredCapabilityCodes e) = (if cm_Classification e = TenantBusiness then set (cm_CapabilityCodes e) else {})"
    by (cases "entries i") simp_all
qed

lemma doc_needs_finite: "finite (needs (doc_entries doc) i)"
proof -
  have "own_codes (doc_entries doc) j \<subseteq> (\<Union>x \<in> set (doc_Operations doc). set (co_RequiredCapabilityCodes x))" for j
    by (cases "doc_entries doc j") (auto simp: own_codes_def doc_entries_def dest!: map_of_SomeD)
  then have "needs (doc_entries doc) i \<subseteq> (\<Union>x \<in> set (doc_Operations doc). set (co_RequiredCapabilityCodes x))"
    by (auto simp: needs_def)
  then show ?thesis by (rule finite_subset) simp
qed

section \<open>Properties of the capability map\<close>

definition ex_op :: "string \<Rightarrow> string list \<Rightarrow> string \<Rightarrow> Operation" where
  "ex_op i req rpc = \<lparr>op_ID = i, op_Domain = ''sales'', op_Application = ''orders'', op_TenantRequired = True, op_Permissions = [],
     op_PermissionMode = ''all'', op_Authentication = [''session''], op_Requires = req, op_RPC = rpc, op_HTTP = []\<rparr>"

definition ex_plans :: Plans where
  "ex_plans = \<lparr>pls_SchemaVersion = 2, pls_Operations =
     [ex_op ''order.create'' [''stock.reserve''] ''/sales.Orders/Create'', ex_op ''stock.reserve'' [] '''']\<rparr>"

definition ex_manifest :: Manifest where
  "ex_manifest = \<lparr>mf_SchemaVersion = 3, mf_Services = [\<lparr>ms_FullName = ''sales.Orders'', ms_Domain = ''sales'', ms_Application = ''orders'',
     ms_Operations = [\<lparr>mo_ID = ''stock.reserve'', mo_TenantRequired = True, mo_Requires = []\<rparr>],
     ms_Methods = [\<lparr>mm_Name = ''Create'', mm_Operation = \<lparr>mo_ID = ''order.create'', mo_TenantRequired = True,
       mo_Requires = [''stock.reserve'']\<rparr>, mm_HTTP = []\<rparr>]\<rparr>]\<rparr>"

definition ex_mapping :: "string \<Rightarrow> string \<Rightarrow> string \<Rightarrow> Child list \<Rightarrow> Mapping" where
  "ex_mapping i mc code cs = \<lparr>cm_WorkerPermission = '''', cm_OperationID = i, cm_Classification = TenantBusiness, cm_ModuleCode = mc,
     cm_CapabilityCodes = [code], cm_ExemptionReason = '''', cm_Children = cs\<rparr>"

definition ex_declaration :: Declaration where
  "ex_declaration = \<lparr>dcl_SchemaVersion = 1, dcl_MappingVersion = ''7'', dcl_RetiredCapabilityCodes = [''crm.old''], dcl_Operations =
     [ex_mapping ''stock.reserve'' ''core'' ''core.use'' [],
      ex_mapping ''order.create'' ''crm'' ''crm.read'' [\<lparr>ch_OperationID = ''stock.reserve'', ch_Mode = ''always'', ch_Condition = '''', ch_Source = ''orders.go#Create''\<rparr>]]\<rparr>"

definition ex_lookup :: LookupModule where
  "ex_lookup = [''crm'' \<mapsto> [''crm.read''], ''core'' \<mapsto> [''core.use'']]"

definition ex_compiled :: "string \<Rightarrow> string \<Rightarrow> string \<Rightarrow> Child list \<Rightarrow> string \<Rightarrow> string \<Rightarrow> string list \<Rightarrow> CompiledOperation" where
  "ex_compiled i mc code cs consumer rpc always = \<lparr>cm_WorkerPermission = '''', cm_OperationID = i, cm_Classification = TenantBusiness,
     cm_ModuleCode = mc, cm_CapabilityCodes = [code], cm_ExemptionReason = '''', cm_Children = cs, co_ConsumerType = consumer,
     co_TenantRequired = True, co_RPC = rpc, co_RequiredCapabilityCodes = [code], co_AlwaysRequiredCapabilityCodes = always\<rparr>"

definition ex_document :: Document where
  "ex_document = \<lparr>doc_SchemaVersion = 1, doc_MappingVersion = ''7'', doc_InputsSHA256 = [], doc_RetiredCapabilityCodes = [''crm.old''],
     doc_Capabilities = [\<lparr>cap_Code = ''core.use'', cap_ModuleCode = ''core''\<rparr>, \<lparr>cap_Code = ''crm.read'', cap_ModuleCode = ''crm''\<rparr>],
     doc_Operations =
       [ex_compiled ''order.create'' ''crm'' ''crm.read'' [\<lparr>ch_OperationID = ''stock.reserve'', ch_Mode = ''always'', ch_Condition = '''', ch_Source = ''orders.go#Create''\<rparr>]
          ''tenant'' ''/sales.Orders/Create'' [''core.use'', ''crm.read''],
        ex_compiled ''stock.reserve'' ''core'' ''core.use'' [] ''internal_child'' '''' [''core.use'']]\<rparr>"

lemma ex_compiles: "Compile ex_plans ex_manifest ex_declaration (Some ex_lookup) = Some (Inr ex_document)"
  by code_simp

text \<open>
  The compiler always returns, a document or a problem: neither the graph search nor the
  closure over mandatory children can run forever, on any inventory and declaration.\<close>

lemma capability_map_total: "\<exists>r. Compile plans manifest declaration lookup = Some r"
  using Compile_total by blast

text \<open>
  A compiled document is complete: it lists every operation of the inventory exactly once, in
  order, the graph of children stays inside it and has no cycle, every capability has one owning
  module, and none of them is retired.\<close>

lemma capability_map_complete:
  assumes "Compile plans manifest declaration lookup = Some (Inr doc)"
  shows "map cm_OperationID (doc_Operations doc) = sort (map op_ID (pls_Operations plans)) \<and>
    distinct (map cm_OperationID (doc_Operations doc)) \<and>
    acyclic (child_edges (doc_entries doc)) \<and> Range (child_edges (doc_entries doc)) \<subseteq> dom (doc_entries doc) \<and>
    distinct (map cap_Code (doc_Capabilities doc)) \<and>
    set (map cap_Code (doc_Capabilities doc)) \<inter> set (doc_RetiredCapabilityCodes doc) = {} \<and>
    list_all (\<lambda>e. list_all (\<lambda>code. \<lparr>cap_Code = code, cap_ModuleCode = cm_ModuleCode e\<rparr> \<in> set (doc_Capabilities doc)) (cm_CapabilityCodes e))
      (doc_Operations doc)"
proof -
  note d = Compile_document [OF assms]
  from assms obtain ids entries owners lk ops where c: "dom entries = set ids" "entries_ok lk ops (dcl_Operations declaration) (entries, owners)"
      "\<forall>code \<in> set (dcl_RetiredCapabilityCodes declaration). code \<notin> fst ` set owners"
      "doc_Operations doc = map (\<lambda>i. (the (entries i))\<lparr>co_AlwaysRequiredCapabilityCodes := sorted_list_of_set (needs entries i)\<rparr>) ids"
      "doc_RetiredCapabilityCodes doc = sort (dcl_RetiredCapabilityCodes declaration)"
      "doc_Capabilities doc = sort_key cap_Code (map (\<lambda>(code, mc). \<lparr>cap_Code = code, cap_ModuleCode = mc\<rparr>) owners)"
    by (rule Compile_success)
  let ?caps = "map (\<lambda>(code, mc). \<lparr>cap_Code = code, cap_ModuleCode = mc\<rparr>) owners"
  have codes: "map cap_Code ?caps = map fst owners" by (simp add: case_prod_beta comp_def)
  have "mset (map cap_Code (doc_Capabilities doc)) = mset (map fst owners)" unfolding c(6) codes [symmetric]
    by (simp only: mset_map mset_sort)
  then have "distinct (map cap_Code (doc_Capabilities doc))" "set (map cap_Code (doc_Capabilities doc)) = fst ` set owners"
    using c(2) mset_eq_imp_distinct_iff mset_eq_setD unfolding entries_ok_def snd_conv by (blast, metis list.set_map)
  moreover have "\<lparr>cap_Code = code, cap_ModuleCode = cm_ModuleCode e\<rparr> \<in> set (doc_Capabilities doc)"
    if "e \<in> set (doc_Operations doc)" "code \<in> set (cm_CapabilityCodes e)" for e code
  proof -
    from that(1) obtain i where i: "i \<in> set ids" "e = (the (entries i))\<lparr>co_AlwaysRequiredCapabilityCodes := sorted_list_of_set (needs entries i)\<rparr>"
      using c(4) by auto
    from i(1) c(1) obtain e0 where e0: "entries i = Some e0" by blast
    with c(2) obtain m op where m: "m \<in> set (dcl_Operations declaration)" "e0 = compile_entry m op" unfolding entries_ok_def fst_conv by blast
    with i(2) e0 that(2) have "code \<in> set (cm_CapabilityCodes m)" "cm_ModuleCode e = cm_ModuleCode m" by simp_all
    with m(1) c(2) have "(code, cm_ModuleCode e) \<in> set owners" unfolding entries_ok_def snd_conv by auto
    then show ?thesis unfolding c(6) set_sort set_map by force
  qed
  ultimately show ?thesis using d(1,2,4,5) c(3,5) by (auto simp: list_all_iff)
qed

lemma capability_map_complete_witness:
  "map cm_OperationID (doc_Operations ex_document) = [''order.create'', ''stock.reserve''] \<and> acyclic (child_edges (doc_entries ex_document))"
proof -
  have "sort (map op_ID (pls_Operations ex_plans)) = [''order.create'', ''stock.reserve'']" by code_simp
  with capability_map_complete [OF ex_compiles] show ?thesis by simp
qed



lemma capability_owners_Some: "capability_owners d code = Some mc \<Longrightarrow> \<exists>c \<in> set (doc_Capabilities d). cap_Code c = code \<and> cap_ModuleCode c = mc"
proof -
  have "fold (\<lambda>c owners. owners(cap_Code c \<mapsto> cap_ModuleCode c)) cs ow code = Some mc \<Longrightarrow>
      (\<exists>c \<in> set cs. cap_Code c = code \<and> cap_ModuleCode c = mc) \<or> ow code = Some mc" for cs ow
  proof (induction cs arbitrary: ow)
    case (Cons c cs)
    from Cons(2) have "fold (\<lambda>c owners. owners(cap_Code c \<mapsto> cap_ModuleCode c)) cs (ow(cap_Code c \<mapsto> cap_ModuleCode c)) code = Some mc"
      by (simp only: fold_simps)
    from Cons(1) [OF this] show ?case by (cases "cap_Code c = code") auto
  qed simp
  then show "capability_owners d code = Some mc \<Longrightarrow> ?thesis" unfolding capability_owners_def by fastforce
qed

lemma evolution_step:
  assumes "ValidateEvolution d d' = None"
  shows "code \<in> set (doc_RetiredCapabilityCodes d) \<Longrightarrow> code \<in> set (doc_RetiredCapabilityCodes d') \<and> capability_owners d' code = None"
    "capability_owners d code = Some mc \<Longrightarrow>
       capability_owners d' code = Some mc \<or> code \<in> set (doc_RetiredCapabilityCodes d') \<and> capability_owners d' code = None"
proof -
  from assms have r: "\<forall>code \<in> set (doc_RetiredCapabilityCodes d). capability_owners d' code = None \<and> code \<in> set (doc_RetiredCapabilityCodes d')"
    and c: "\<forall>c \<in> set (doc_Capabilities d). case capability_owners d' (cap_Code c) of Some owner \<Rightarrow> owner = cap_ModuleCode c
        | None \<Rightarrow> cap_Code c \<in> set (doc_RetiredCapabilityCodes d')"
    by (auto simp: ValidateEvolution_def Let_def split: if_splits sum.splits option.splits)
  show "code \<in> set (doc_RetiredCapabilityCodes d) \<Longrightarrow> code \<in> set (doc_RetiredCapabilityCodes d') \<and> capability_owners d' code = None"
    using r by blast
  show "capability_owners d' code = Some mc \<or> code \<in> set (doc_RetiredCapabilityCodes d') \<and> capability_owners d' code = None"
    if "capability_owners d code = Some mc"
  proof -
    from capability_owners_Some [OF that] c show ?thesis by (cases "capability_owners d' code") auto
  qed
qed

text \<open>
  Over any number of published releases a capability keeps its meaning. A retired capability
  stays retired and owns nothing again; one that is active stays with its module or becomes retired.\<close>

lemma capability_evolution_permanent:
  assumes "(\<lambda>d d'. ValidateEvolution d d' = None)\<^sup>+\<^sup>+ d d'"
  shows "(code \<in> set (doc_RetiredCapabilityCodes d) \<longrightarrow> code \<in> set (doc_RetiredCapabilityCodes d') \<and> capability_owners d' code = None) \<and>
    (capability_owners d code = Some mc \<longrightarrow>
       capability_owners d' code = Some mc \<or> code \<in> set (doc_RetiredCapabilityCodes d') \<and> capability_owners d' code = None)"
  using assms
proof (induction rule: tranclp_induct)
  case (base d')
  then show ?case using evolution_step by blast
next
  case (step d1 d2)
  then show ?case using evolution_step [OF step(2)] by blast
qed

definition ex_release :: "string \<Rightarrow> string list \<Rightarrow> Capability list \<Rightarrow> Document" where
  "ex_release v retired caps = \<lparr>doc_SchemaVersion = 1, doc_MappingVersion = v, doc_InputsSHA256 = [],
     doc_RetiredCapabilityCodes = retired, doc_Capabilities = caps, doc_Operations = []\<rparr>"

lemma ex_evolution: "ValidateEvolution (ex_release ''1'' [] [\<lparr>cap_Code = ''crm.read'', cap_ModuleCode = ''crm''\<rparr>]) (ex_release ''2'' [''crm.read''] []) = None"
proof -
  have "map_version ''1'' = Inr 1" "map_version ''2'' = Inr 2" by code_simp+
  then show ?thesis by (simp add: ValidateEvolution_def ex_release_def capability_owners_def)
qed

lemma capability_evolution_permanent_witness:
  "capability_owners (ex_release ''2'' [''crm.read''] []) ''crm.read'' = Some ''crm'' \<or>
   ''crm.read'' \<in> set (doc_RetiredCapabilityCodes (ex_release ''2'' [''crm.read''] [])) \<and> capability_owners (ex_release ''2'' [''crm.read''] []) ''crm.read'' = None"
proof -
  have "capability_owners (ex_release ''1'' [] [\<lparr>cap_Code = ''crm.read'', cap_ModuleCode = ''crm''\<rparr>]) ''crm.read'' = Some ''crm''"
    by (simp add: capability_owners_def ex_release_def)
  with capability_evolution_permanent [OF tranclp.r_into_trancl, OF ex_evolution] show ?thesis by blast
qed

end
