(* ===== verification/Snapshot.thy ===== *)
theory Snapshot
  imports Resolve_Props
begin

section \<open>Entitlement snapshots\<close>

text \<open>
  The snapshot of a tenant's entitlements: \<open>internal/commercial/domain/snapshot\<close> (digest, input
  hash, validity, decoding, requested keys), the store
  \<open>internal/commercial/infrastructure/persistence/entitlement_snapshot.go\<close> that materialises it
  under the lock of the tenant, and the bounded cache in front of it (\<open>snapshot_cache.go\<close>).

  The tables of the store are the state: the heads by tenant and the immutable rows. What a
  transaction reads under its locks (catalogue revision, source version, sources, catalogue, clock)
  is its input; a failure of the database driver aborts the transaction and is not a step. The
  decoder \<open>json.Unmarshal\<close> is the parameter \<open>unmarshal\<close>, the content of a cache the parameter
  \<open>cache\<close>.
\<close>

subsection \<open>Digests, validity and decoding\<close>

datatype snap_error =
    Snap_Stale
  | Snap_Invalid
  | Snap_StateLost
  | Snap_Entitlement ent_error
  | Snap_Marshal
  | Snap_DuplicateRow
  | Snap_NoResult

definition json_ModuleDefinition :: "ModuleDefinition \<Rightarrow> json" where
  "json_ModuleDefinition m = JObj [(''Code'', JStr (mod_Code m)), (''TechnicalStatus'', JStr (mod_TechnicalStatus m)),
     (''SalesStatus'', JStr (mod_SalesStatus m)), (''Version'', JUint (mod_Version m)),
     (''Capabilities'', JArr (map JStr (mod_Capabilities m))), (''QuotaKeys'', JArr (map JStr (mod_QuotaKeys m))),
     (''FieldKeys'', JArr (map JStr (mod_FieldKeys m))), (''Dependencies'', JArr (map JStr (mod_Dependencies m)))]"

definition snap_Digest :: "string \<Rightarrow> string" where
  "snap_Digest b = sha256_hex b"

definition InputHash :: "Catalog \<Rightarrow> Source list \<Rightarrow> string option" where
  "InputHash c sources = map_option snap_Digest
     (marshal (JObj [(''Catalog'', JArr (map json_ModuleDefinition c)), (''Sources'', JArr (map json_Source sources))]))"

definition ValidAt :: "EntResult \<Rightarrow> time \<Rightarrow> bool" where
  "ValidAt r at \<longleftrightarrow> \<not> at < res_EvaluatedAt r \<and> (case res_ValidUntil r of None \<Rightarrow> True | Some u \<Rightarrow> at < u)"

definition Decode ::
  "(string \<Rightarrow> EntResult option) \<Rightarrow> string \<Rightarrow> string \<Rightarrow> uint64 \<Rightarrow> uint64 \<Rightarrow> uint64 \<Rightarrow> string \<Rightarrow> time \<Rightarrow> snap_error + EntResult" where
  "Decode unmarshal b tenant version source catalog digest at =
     (if snap_Digest b \<noteq> digest then Inl Snap_Invalid
      else case unmarshal b of
        None \<Rightarrow> Inl Snap_Invalid
      | Some r \<Rightarrow>
        if res_TenantID r \<noteq> tenant \<or> res_EntitlementVersion r \<noteq> version \<or> version = 0 \<or>
           res_SourceVersion r \<noteq> source \<or> res_CatalogRevision r \<noteq> catalog \<or> res_ResolverVersion r \<noteq> 1 \<or>
           res_PermissionVersion r \<noteq> '''' \<or> res_PermissionSubject r \<noteq> '''' then Inl Snap_Invalid
        else if \<not> ValidAt r at then Inl Snap_Stale
        else Inr r)"

definition denied_request :: "string \<Rightarrow> Decision" where
  "denied_request key = \<lparr>dec_Kind = Kind_Capability, dec_ModuleCode = '''', dec_Key = key, dec_Action = '''',
     dec_Allowed = False, dec_Reason = ''UNKNOWN_CAPABILITY'', dec_Limit = zero_limit, dec_Masked = False, dec_Sources = []\<rparr>"

fun append_requested :: "string list \<Rightarrow> string list \<Rightarrow> Decision list" where
  "append_requested seen [] = []"
| "append_requested seen (key # keys) =
     (if key \<in> set seen then append_requested seen keys
      else denied_request key # append_requested (key # seen) keys)"

definition Requested :: "EntResult \<Rightarrow> string list \<Rightarrow> EntResult" where
  "Requested r requested =
     r\<lparr>res_Decisions := res_Decisions r @
        append_requested (map dec_Key (filter (\<lambda>d. dec_Kind d = Kind_Capability) (res_Decisions r))) requested\<rparr>"

subsection \<open>The cache\<close>

record MemorySnapshotCache =
  mc_max :: nat
  mc_values :: "string \<rightharpoonup> string"
  mc_order :: "string list"

definition NewMemorySnapshotCache :: "int \<Rightarrow> MemorySnapshotCache" where
  "NewMemorySnapshotCache mx = \<lparr>mc_max = nat (if mx < 1 then 1 else mx), mc_values = Map.empty, mc_order = []\<rparr>"

text \<open>A missing key gives the empty byte slice, as reading a nil slice from the map does.\<close>

definition cache_Get :: "MemorySnapshotCache \<Rightarrow> string \<Rightarrow> string" where
  "cache_Get c key = (case mc_values c key of None \<Rightarrow> '''' | Some b \<Rightarrow> b)"

definition cache_Put :: "MemorySnapshotCache \<Rightarrow> string \<Rightarrow> string \<Rightarrow> MemorySnapshotCache" where
  "cache_Put c key b =
     (let c1 = (if mc_values c key = None
          then let c0 = (if length (mc_order c) \<ge> mc_max c
                 then c\<lparr>mc_values := (mc_values c)(hd (mc_order c) := None), mc_order := tl (mc_order c)\<rparr> else c)
               in c0\<lparr>mc_order := mc_order c0 @ [key]\<rparr>
          else c)
      in c1\<lparr>mc_values := (mc_values c1)(key \<mapsto> b)\<rparr>)"

subsection \<open>The store\<close>

record snapshotHead =
  head_TenantID :: string
  head_Version :: uint64
  head_SourceVersion :: uint64
  head_CatalogRevision :: uint64
  head_InputHash :: string
  head_PayloadSHA256 :: string
  head_Invalidated :: bool

record snapshotRow =
  row_TenantID :: string
  row_Version :: uint64
  row_Payload :: string
  row_PayloadSHA256 :: string
  row_CreatedAt :: time

record SnapDB =
  db_heads :: "string \<rightharpoonup> snapshotHead"
  db_rows :: "snapshotRow list"

text \<open>What a transaction reads under its locks.\<close>

record SnapInput =
  si_epoch :: uint64
  si_version :: uint64
  si_sources :: "Source list"
  si_catalog :: Catalog
  si_at :: time

definition cacheKey :: "string \<Rightarrow> uint64 \<Rightarrow> string \<Rightarrow> string" where
  "cacheKey tenant version digest = tenant @ ''/'' @ dec_nat (unat version) @ ''/'' @ digest"

text \<open>\<open>Order("version DESC").First\<close> on the rows of a tenant.\<close>

fun newest :: "snapshotRow list \<Rightarrow> snapshotRow option" where
  "newest [] = None"
| "newest (r # rs) =
     (case newest rs of None \<Rightarrow> Some r | Some s \<Rightarrow> if row_Version s < row_Version r then Some r else Some s)"

definition latest_row :: "SnapDB \<Rightarrow> string \<Rightarrow> snapshotRow option" where
  "latest_row db tenant = newest (filter (\<lambda>r. row_TenantID r = tenant) (db_rows db))"

definition store_decode ::
  "(string \<Rightarrow> EntResult option) \<Rightarrow> (string \<Rightarrow> string) option \<Rightarrow> snapshotHead \<Rightarrow> snapshotRow \<Rightarrow> time \<Rightarrow> snap_error + EntResult" where
  "store_decode unmarshal cache h row at =
     (if row_TenantID row \<noteq> head_TenantID h \<or> row_Version row \<noteq> head_Version h \<or>
         row_PayloadSHA256 row \<noteq> head_PayloadSHA256 h then Inl Snap_Invalid
      else
        let dec = (\<lambda>b. Decode unmarshal b (head_TenantID h) (head_Version h) (head_SourceVersion h)
                    (head_CatalogRevision h) (head_PayloadSHA256 h) at);
            cached = (case cache of None \<Rightarrow> ''''
              | Some get \<Rightarrow> get (cacheKey (head_TenantID h) (head_Version h) (head_PayloadSHA256 h)))
        in if cached \<noteq> '''' then (case dec cached of Inr r \<Rightarrow> Inr r | Inl _ \<Rightarrow> dec (row_Payload row))
           else dec (row_Payload row))"

text \<open>The second half of \<open>locked\<close>: resolve, append the row and move the head.\<close>

definition materialize :: "SnapDB \<Rightarrow> string \<Rightarrow> snapshotHead option \<Rightarrow> string \<Rightarrow> SnapInput \<Rightarrow> snap_error + EntResult \<times> SnapDB" where
  "materialize db tenant head input i =
     (let version = (case head of None \<Rightarrow> 0 | Some h \<Rightarrow> head_Version h) in
      case Resolve tenant (si_version i) (si_at i) (si_catalog i) (si_sources i) [] of
        None \<Rightarrow> Inl Snap_NoResult
      | Some (Inl e) \<Rightarrow> Inl (Snap_Entitlement e)
      | Some (Inr r) \<Rightarrow>
        (let result = r\<lparr>res_EntitlementVersion := version + 1, res_CatalogRevision := si_epoch i\<rparr> in
         case marshal (json_EntResult result) of
           None \<Rightarrow> Inl Snap_Marshal
         | Some b \<Rightarrow>
           if \<exists>row \<in> set (db_rows db). row_TenantID row = tenant \<and> row_Version row = version + 1 then Inl Snap_DuplicateRow
           else Inr (result,
             db\<lparr>db_rows := \<lparr>row_TenantID = tenant, row_Version = version + 1, row_Payload = b,
                   row_PayloadSHA256 = snap_Digest b, row_CreatedAt = si_at i\<rparr> # db_rows db,
                db_heads := (db_heads db)(tenant \<mapsto>
                  \<lparr>head_TenantID = tenant, head_Version = version + 1, head_SourceVersion = si_version i,
                   head_CatalogRevision = si_epoch i, head_InputHash = input, head_PayloadSHA256 = snap_Digest b,
                   head_Invalidated = False\<rparr>)\<rparr>)))"

definition locked ::
  "(string \<Rightarrow> EntResult option) \<Rightarrow> (string \<Rightarrow> string) option \<Rightarrow> SnapDB \<Rightarrow> string \<Rightarrow> SnapInput \<Rightarrow> snap_error + EntResult \<times> SnapDB" where
  "locked unmarshal cache db tenant i =
     (case InputHash (si_catalog i) (si_sources i) of
        None \<Rightarrow> Inl Snap_Marshal
      | Some input \<Rightarrow>
        (case (db_heads db tenant, latest_row db tenant) of
           (None, None) \<Rightarrow> materialize db tenant None input i
         | (Some h, Some latest) \<Rightarrow>
           if head_Version h \<noteq> row_Version latest \<or> si_version i < head_SourceVersion h \<or>
              si_epoch i < head_CatalogRevision h then Inl Snap_StateLost
           else
             let rebuild = (if head_Version h = MaxUint64 then Inl Snap_StateLost else materialize db tenant (Some h) input i)
             in if \<not> head_Invalidated h \<and> head_SourceVersion h = si_version i \<and>
                   head_CatalogRevision h = si_epoch i \<and> head_InputHash h = input
                then (case store_decode unmarshal cache h latest (si_at i) of
                        Inr r \<Rightarrow> Inr (r, db)
                      | Inl e \<Rightarrow> if e = Snap_Stale then rebuild else Inl e)
                else rebuild
         | _ \<Rightarrow> Inl Snap_StateLost))"

definition ReadSnapshot ::
  "(string \<Rightarrow> EntResult option) \<Rightarrow> (string \<Rightarrow> string) option \<Rightarrow> SnapDB \<Rightarrow> string \<Rightarrow> string list \<Rightarrow> SnapInput
     \<Rightarrow> snap_error + EntResult \<times> SnapDB" where
  "ReadSnapshot unmarshal cache db tenant requested i =
     (if tenant = '''' \<or> length tenant > 64 \<or> length requested > 128 then Inl (Snap_Entitlement Ent_ErrInvalid)
      else bind_result (locked unmarshal cache db tenant i) (\<lambda>(r, db'). Inr (Requested r requested, db')))"

text \<open>
  The read-only path: one statement joins the head with its row and the current stamps of the
  sources and the catalogue. Its error comes with the result \<open>Requested\<close> makes of the zero value,
  which the callers discard.
\<close>

definition readOnly ::
  "(string \<Rightarrow> EntResult option) \<Rightarrow> SnapDB \<Rightarrow> string \<Rightarrow> string list \<Rightarrow> uint64 \<Rightarrow> uint64 \<Rightarrow> time \<Rightarrow> snap_error + EntResult" where
  "readOnly unmarshal db tenant requested current_source current_catalog at =
     (case db_heads db tenant of
        None \<Rightarrow> Inl Snap_Stale
      | Some h \<Rightarrow>
        (case filter (\<lambda>p. row_TenantID p = tenant \<and> row_Version p = head_Version h \<and>
                          row_PayloadSHA256 p = head_PayloadSHA256 h) (db_rows db) of
           [row] \<Rightarrow>
             if head_Invalidated h \<or> head_SourceVersion h \<noteq> current_source \<or> head_CatalogRevision h \<noteq> current_catalog
             then Inl Snap_Stale
             else bind_result (Decode unmarshal (row_Payload row) tenant (head_Version h) (head_SourceVersion h)
                    (head_CatalogRevision h) (head_PayloadSHA256 h) at) (\<lambda>r. Inr (Requested r requested))
         | _ \<Rightarrow> Inl Snap_Stale))"

definition invalidate :: "SnapDB \<Rightarrow> string \<Rightarrow> SnapDB" where
  "invalidate db tenant = db\<lparr>db_heads := (db_heads db)(tenant := map_option (\<lambda>h. h\<lparr>head_Invalidated := True\<rparr>) (db_heads db tenant))\<rparr>"

section \<open>The contract of a cache\<close>

text \<open>
  Whoever looks a key up gets nothing or what was put under that key last. The store relies on no
  more; in particular entries may be evicted at any time.
\<close>

locale byte_cache =
  fixes get :: "'s \<Rightarrow> 'k \<Rightarrow> 'v" and put :: "'s \<Rightarrow> 'k \<Rightarrow> 'v \<Rightarrow> 's" and missing :: 'v
  assumes get_put: "get (put s k v) k = v"
    and get_other: "k' \<noteq> k \<Longrightarrow> get (put s k v) k' = get s k' \<or> get (put s k v) k' = missing"
begin

lemma get_puts:
  "get (fold (\<lambda>(k, v) s. put s k v) kvs s) k \<in> {missing, get s k} \<union> {v. (k, v) \<in> set kvs}"
proof (induction kvs rule: rev_induct)
  case (snoc kv kvs)
  obtain k' v where kv: "kv = (k', v)" by (cases kv)
  show ?case
  proof (cases "k' = k")
    case True
    then show ?thesis by (simp add: kv get_put)
  next
    case False
    then have "get (put (fold (\<lambda>(k, v) s. put s k v) kvs s) k' v) k \<in> {missing, get (fold (\<lambda>(k, v) s. put s k v) kvs s) k}"
      using get_other [of k k' "fold (\<lambda>(k, v) s. put s k v) kvs s" v] by auto
    with snoc show ?thesis by (auto simp: kv)
  qed
qed simp

end

interpretation memory_cache: byte_cache cache_Get cache_Put "[]"
  by unfold_locales (auto simp: cache_Get_def cache_Put_def Let_def split: option.splits)

definition cache_wf :: "MemorySnapshotCache \<Rightarrow> bool" where
  "cache_wf c \<longleftrightarrow> 1 \<le> mc_max c \<and> length (mc_order c) \<le> mc_max c \<and> distinct (mc_order c) \<and> dom (mc_values c) = set (mc_order c)"

lemma cache_wf_new: "cache_wf (NewMemorySnapshotCache mx)"
  by (auto simp: cache_wf_def NewMemorySnapshotCache_def)

lemma cache_wf_put:
  assumes "cache_wf c"
  shows "cache_wf (cache_Put c key b)" "mc_max (cache_Put c key b) = mc_max c"
proof -
  have d: "mc_values c k = None \<longleftrightarrow> k \<notin> set (mc_order c)" for k using assms unfolding cache_wf_def by (metis domIff)
  show "mc_max (cache_Put c key b) = mc_max c" by (simp add: cache_Put_def Let_def)
  show "cache_wf (cache_Put c key b)"
  proof (cases "mc_values c key")
    case (Some v)
    then have "key \<in> set (mc_order c)" using d [of key] by simp
    with assms Some show ?thesis by (auto simp: cache_wf_def cache_Put_def Let_def)
  next
    case None
    then have key: "key \<notin> set (mc_order c)" using d by simp
    show ?thesis
    proof (cases "mc_max c \<le> length (mc_order c)")
      case False
      with assms None key show ?thesis by (auto simp: cache_wf_def cache_Put_def)
    next
      case True
      with assms obtain x xs where o: "mc_order c = x # xs" by (cases "mc_order c") (auto simp: cache_wf_def)
      from assms have "dom (mc_values c) - {x} = set xs" by (auto simp: cache_wf_def o)
      with assms None key True o show ?thesis by (auto simp: cache_wf_def cache_Put_def)
    qed
  qed
qed

section \<open>The invariant of the store\<close>

lemma newest_None [simp]: "newest rs = None \<longleftrightarrow> rs = []"
  by (cases rs) (auto split: option.splits)

lemma newest_Some: "newest rs = Some r \<Longrightarrow> r \<in> set rs \<and> (\<forall>s \<in> set rs. row_Version s \<le> row_Version r)"
proof (induction rs arbitrary: r)
  case (Cons s rs)
  then show ?case by (cases "newest rs") (force split: if_splits)+
qed simp

text \<open>
  The history is the set of inputs for which a snapshot was materialised. A head stands for one
  of them: its row holds, under its digest, the resolution of that input with its stamps.
\<close>

definition stamped :: "EntResult \<Rightarrow> uint64 \<Rightarrow> uint64 \<Rightarrow> EntResult" where
  "stamped r version epoch = r\<lparr>res_EntitlementVersion := version, res_CatalogRevision := epoch\<rparr>"

definition resolves :: "string \<Rightarrow> SnapInput \<Rightarrow> EntResult \<Rightarrow> bool" where
  "resolves tenant i r \<longleftrightarrow> Resolve tenant (si_version i) (si_at i) (si_catalog i) (si_sources i) [] = Some (Inr r)"

definition head_ok ::
  "(string \<Rightarrow> EntResult option) \<Rightarrow> (string \<times> SnapInput) set \<Rightarrow> string \<Rightarrow> snapshotHead \<Rightarrow> snapshotRow \<Rightarrow> bool" where
  "head_ok unmarshal H tenant h row \<longleftrightarrow>
     head_TenantID h = tenant \<and> head_Version h \<noteq> 0 \<and> row_TenantID row = tenant \<and> row_Version row = head_Version h \<and>
     row_PayloadSHA256 row = head_PayloadSHA256 h \<and> snap_Digest (row_Payload row) = head_PayloadSHA256 h \<and>
     (\<exists>i r. (tenant, i) \<in> H \<and> resolves tenant i r \<and> si_version i = head_SourceVersion h \<and>
        si_epoch i = head_CatalogRevision h \<and> InputHash (si_catalog i) (si_sources i) = Some (head_InputHash h) \<and>
        unmarshal (row_Payload row) = Some (stamped r (head_Version h) (head_CatalogRevision h)))"

definition snap_inv :: "(string \<Rightarrow> EntResult option) \<Rightarrow> (string \<times> SnapInput) set \<Rightarrow> SnapDB \<Rightarrow> bool" where
  "snap_inv unmarshal H db \<longleftrightarrow>
     distinct (map (\<lambda>row. (row_TenantID row, row_Version row)) (db_rows db)) \<and>
     (\<forall>tenant. case db_heads db tenant of
        None \<Rightarrow> latest_row db tenant = None
      | Some h \<Rightarrow> (\<exists>row. latest_row db tenant = Some row \<and> head_ok unmarshal H tenant h row))"

lemma snap_inv_empty: "snap_inv unmarshal H \<lparr>db_heads = Map.empty, db_rows = []\<rparr>"
  by (simp add: snap_inv_def latest_row_def)

lemma snap_inv_head:
  assumes "snap_inv unmarshal H db" "db_heads db tenant = Some h"
  obtains row where "latest_row db tenant = Some row" "head_ok unmarshal H tenant h row" "row \<in> set (db_rows db)"
proof -
  obtain row where row: "latest_row db tenant = Some row" "head_ok unmarshal H tenant h row"
    using assms(1) [unfolded snap_inv_def, THEN conjunct2, THEN spec [of _ tenant]] assms(2) by auto
  then have "row \<in> set (db_rows db)" by (auto simp: latest_row_def dest: newest_Some)
  with row show thesis by (rule that)
qed

text \<open>No two different inputs of the history share their hash, and cached bytes with the digest of a row are its payload.\<close>

definition no_collision :: "(string \<times> SnapInput) set \<Rightarrow> SnapInput \<Rightarrow> bool" where
  "no_collision H i \<longleftrightarrow> (\<forall>(t, j) \<in> H. InputHash (si_catalog j) (si_sources j) = InputHash (si_catalog i) (si_sources i) \<longrightarrow>
     si_catalog j = si_catalog i \<and> si_sources j = si_sources i)"

definition cache_ok :: "(string \<Rightarrow> string) option \<Rightarrow> SnapDB \<Rightarrow> bool" where
  "cache_ok cache db \<longleftrightarrow> (\<forall>get. cache = Some get \<longrightarrow> (\<forall>key. \<forall>row \<in> set (db_rows db).
     snap_Digest (get key) = row_PayloadSHA256 row \<longrightarrow> get key = row_Payload row))"

definition serves :: "string \<Rightarrow> SnapInput \<Rightarrow> uint64 \<Rightarrow> EntResult \<Rightarrow> bool" where
  "serves tenant i version r \<longleftrightarrow> (\<exists>r0. resolves tenant i r0 \<and> r\<lparr>res_EvaluatedAt := si_at i\<rparr> = stamped r0 version (si_epoch i))"

lemma Decode_Inr:
  "Decode unmarshal b tenant version source catalog digest at = Inr r \<longleftrightarrow>
     snap_Digest b = digest \<and> unmarshal b = Some r \<and> res_TenantID r = tenant \<and> res_EntitlementVersion r = version \<and>
     version \<noteq> 0 \<and> res_SourceVersion r = source \<and> res_CatalogRevision r = catalog \<and> res_ResolverVersion r = 1 \<and>
     res_PermissionVersion r = '''' \<and> res_PermissionSubject r = '''' \<and> ValidAt r at"
  by (auto simp: Decode_def split: option.splits if_splits)

lemma store_decode_payload:
  assumes "store_decode unmarshal cache h row at = Inr r" "cache_ok cache db" "row \<in> set (db_rows db)"
    "row_PayloadSHA256 row = head_PayloadSHA256 h"
  shows "unmarshal (row_Payload row) = Some r \<and> ValidAt r at"
proof -
  obtain b where b: "Decode unmarshal b (head_TenantID h) (head_Version h) (head_SourceVersion h)
      (head_CatalogRevision h) (head_PayloadSHA256 h) at = Inr r" and
    c: "b = row_Payload row \<or> (\<exists>get key. cache = Some get \<and> b = get key)"
    using assms(1) by (auto simp: store_decode_def Let_def split: if_splits option.splits sum.splits)
  then have "b = row_Payload row" using assms(2-4) unfolding cache_ok_def Decode_Inr by metis
  with b show ?thesis by (simp add: Decode_Inr)
qed

text \<open>A snapshot that is still valid is what a resolution now gives.\<close>

lemma valid_snapshot_fresh:
  assumes "resolves tenant j r" "ValidAt (stamped r v e) (si_at i)" "\<not> IsZero (si_at i)"
    and "si_version j = si_version i" "si_catalog j = si_catalog i" "si_sources j = si_sources i"
  shows "resolves tenant i (r\<lparr>res_EvaluatedAt := si_at i\<rparr>)"
proof -
  have "res_EvaluatedAt r = si_at j" using assms(1) by (auto simp: resolves_def dest: Resolve_success(8))
  then have "si_at j \<le> si_at i" "before_until (si_at i) (res_ValidUntil r)"
    using assms(2) by (auto simp: ValidAt_def stamped_def before_until_def split: option.splits)
  from Resolve_until [OF assms(1) [unfolded resolves_def] this assms(3)] show ?thesis
    using assms(4-6) by (simp add: resolves_def)
qed

lemma materialize_Inr:
  assumes "materialize db tenant head input i = Inr (r, db')"
  obtains r0 b where "resolves tenant i r0"
    "r = stamped r0 ((case head of None \<Rightarrow> 0 | Some h \<Rightarrow> head_Version h) + 1) (si_epoch i)"
    "marshal (json_EntResult r) = Some b"
    "db' = db\<lparr>db_rows := \<lparr>row_TenantID = tenant, row_Version = (case head of None \<Rightarrow> 0 | Some h \<Rightarrow> head_Version h) + 1,
         row_Payload = b, row_PayloadSHA256 = snap_Digest b, row_CreatedAt = si_at i\<rparr> # db_rows db,
       db_heads := (db_heads db)(tenant \<mapsto>
         \<lparr>head_TenantID = tenant, head_Version = (case head of None \<Rightarrow> 0 | Some h \<Rightarrow> head_Version h) + 1,
          head_SourceVersion = si_version i, head_CatalogRevision = si_epoch i, head_InputHash = input,
          head_PayloadSHA256 = snap_Digest b, head_Invalidated = False\<rparr>)\<rparr>"
    "\<forall>row \<in> set (db_rows db). row_TenantID row = tenant \<longrightarrow>
       row_Version row \<noteq> (case head of None \<Rightarrow> 0 | Some h \<Rightarrow> head_Version h) + 1"
  using assms by (auto simp: materialize_def resolves_def stamped_def Let_def split: option.splits sum.splits if_splits)

text \<open>The head moves to the new row, the heads of the other tenants keep theirs.\<close>

lemma latest_row_add:
  assumes "\<forall>row \<in> set (db_rows db). row_TenantID row = row_TenantID new \<longrightarrow> row_Version row < row_Version new"
  shows "latest_row (db\<lparr>db_rows := new # db_rows db, db_heads := hs\<rparr>) tenant =
    (if tenant = row_TenantID new then Some new else latest_row db tenant)"
proof (cases "tenant = row_TenantID new")
  case True
  have "row_Version s < row_Version new" if "newest (filter (\<lambda>r. row_TenantID r = tenant) (db_rows db)) = Some s" for s
    using newest_Some [OF that] assms True by auto
  with True show ?thesis by (auto simp: latest_row_def split: option.split)
qed (simp add: latest_row_def)

lemma head_ok_mono: "head_ok unmarshal H tenant h row \<Longrightarrow> H \<subseteq> H' \<Longrightarrow> head_ok unmarshal H' tenant h row"
  unfolding head_ok_def by blast

lemma snap_inv_mono: "snap_inv unmarshal H db \<Longrightarrow> H \<subseteq> H' \<Longrightarrow> snap_inv unmarshal H' db"
proof -
  assume inv: "snap_inv unmarshal H db" and sub: "H \<subseteq> H'"
  have "case db_heads db t of None \<Rightarrow> latest_row db t = None
      | Some h \<Rightarrow> \<exists>row. latest_row db t = Some row \<and> head_ok unmarshal H' t h row" for t
    using inv [unfolded snap_inv_def, THEN conjunct2, THEN spec [of _ t]] head_ok_mono [OF _ sub, of unmarshal t]
    by (cases "db_heads db t") auto
  with inv show "snap_inv unmarshal H' db" unfolding snap_inv_def by blast
qed

lemma snap_inv_below:
  assumes "snap_inv unmarshal H db" "row \<in> set (db_rows db)" "row_TenantID row = tenant"
  shows "\<exists>h. db_heads db tenant = Some h \<and> row_Version row \<le> head_Version h"
proof (cases "db_heads db tenant")
  case None
  then have "latest_row db tenant = None" using assms(1) [unfolded snap_inv_def, THEN conjunct2, THEN spec [of _ tenant]] by simp
  then show ?thesis using assms(2,3) by (simp add: latest_row_def filter_empty_conv)
next
  case (Some h)
  with assms(1) obtain latest where l: "latest_row db tenant = Some latest" "head_ok unmarshal H tenant h latest"
    by (rule snap_inv_head)
  then have "row_Version row \<le> row_Version latest"
    using assms(2,3) newest_Some [of "filter (\<lambda>r. row_TenantID r = tenant) (db_rows db)" latest] by (auto simp: latest_row_def)
  with Some l show ?thesis by (simp add: head_ok_def)
qed

lemma materialize_inv:
  assumes inv: "snap_inv unmarshal H db" and m: "materialize db tenant (db_heads db tenant) input i = Inr (r, db')"
    and input: "InputHash (si_catalog i) (si_sources i) = Some input"
    and room: "\<And>h. db_heads db tenant = Some h \<Longrightarrow> head_Version h \<noteq> MaxUint64"
    and trip: "\<And>b. marshal (json_EntResult r) = Some b \<Longrightarrow> unmarshal b = Some r"
  shows "snap_inv unmarshal (insert (tenant, i) H) db'"
proof -
  define v where "v = (case db_heads db tenant of None \<Rightarrow> 0 | Some h \<Rightarrow> head_Version h)"
  from m obtain r0 b where r0: "resolves tenant i r0" "r = stamped r0 (v + 1) (si_epoch i)" and b: "marshal (json_EntResult r) = Some b"
    and db': "db' = db\<lparr>db_rows := \<lparr>row_TenantID = tenant, row_Version = v + 1,
         row_Payload = b, row_PayloadSHA256 = snap_Digest b, row_CreatedAt = si_at i\<rparr> # db_rows db,
       db_heads := (db_heads db)(tenant \<mapsto>
         \<lparr>head_TenantID = tenant, head_Version = v + 1, head_SourceVersion = si_version i, head_CatalogRevision = si_epoch i,
          head_InputHash = input, head_PayloadSHA256 = snap_Digest b, head_Invalidated = False\<rparr>)\<rparr>"
    unfolding v_def by (rule materialize_Inr)
  have v: "v \<noteq> - 1" using room by (auto simp: v_def split: option.split)
  have below: "row_Version row < v + 1" if "row \<in> set (db_rows db)" "row_TenantID row = tenant" for row
    using snap_inv_below [OF inv that] word_plus_one_gt [OF v] by (auto simp: v_def)
  let ?new = "\<lparr>row_TenantID = tenant, row_Version = v + 1, row_Payload = b, row_PayloadSHA256 = snap_Digest b, row_CreatedAt = si_at i\<rparr>"
  have lr: "latest_row db' t = (if t = tenant then Some ?new else latest_row db t)" for t
    unfolding db' using latest_row_add [of db ?new] below by simp
  have "distinct (map (\<lambda>row. (row_TenantID row, row_Version row)) (db_rows db'))"
    using inv below unfolding db' snap_inv_def by (fastforce simp: image_iff)
  moreover have "case db_heads db' t of None \<Rightarrow> latest_row db' t = None
      | Some h \<Rightarrow> \<exists>row. latest_row db' t = Some row \<and> head_ok unmarshal (insert (tenant, i) H) t h row" for t
  proof (cases "t = tenant")
    case True
    have "head_ok unmarshal (insert (tenant, i) H) tenant
        \<lparr>head_TenantID = tenant, head_Version = v + 1, head_SourceVersion = si_version i, head_CatalogRevision = si_epoch i,
         head_InputHash = input, head_PayloadSHA256 = snap_Digest b, head_Invalidated = False\<rparr> ?new"
      unfolding head_ok_def using r0 input trip [OF b] word_plus_one_nonzero [OF v] by auto
    with True lr show ?thesis by (simp add: db')
  next
    case False
    then have "db_heads db' t = db_heads db t" by (simp add: db')
    with False lr [of t] inv [THEN snap_inv_mono, of "insert (tenant, i) H", unfolded snap_inv_def, THEN conjunct2, THEN spec [of _ t]]
    show ?thesis by (cases "db_heads db t") (simp_all add: subset_insertI)
  qed
  ultimately show ?thesis unfolding snap_inv_def by blast
qed

lemma locked_cases:
  assumes "locked unmarshal cache db tenant i = Inr (r, db')"
  obtains (Hit) input h row where "InputHash (si_catalog i) (si_sources i) = Some input" "db_heads db tenant = Some h"
    "latest_row db tenant = Some row" "head_SourceVersion h = si_version i" "head_CatalogRevision h = si_epoch i"
    "head_InputHash h = input" "\<not> head_Invalidated h" "store_decode unmarshal cache h row (si_at i) = Inr r" "db' = db"
  | (Miss) input where "InputHash (si_catalog i) (si_sources i) = Some input"
    "\<And>h. db_heads db tenant = Some h \<Longrightarrow> head_Version h \<noteq> MaxUint64 \<and> head_SourceVersion h \<le> si_version i \<and> head_CatalogRevision h \<le> si_epoch i"
    "materialize db tenant (db_heads db tenant) input i = Inr (r, db')"
proof -
  obtain input where input: "InputHash (si_catalog i) (si_sources i) = Some input"
    using assms by (auto simp: locked_def split: option.splits)
  show thesis
  proof (cases "db_heads db tenant")
    case None
    then have "materialize db tenant None input i = Inr (r, db')"
      using assms input by (auto simp: locked_def split: option.splits)
    with None input Miss show thesis by simp
  next
    case (Some h)
    then obtain row where row: "latest_row db tenant = Some row" using assms input by (auto simp: locked_def split: option.splits)
    have ok: "\<not> (head_Version h \<noteq> row_Version row \<or> si_version i < head_SourceVersion h \<or> si_epoch i < head_CatalogRevision h)"
      using assms input Some row by (auto simp: locked_def split: if_splits)
    show thesis
    proof (cases "\<not> head_Invalidated h \<and> head_SourceVersion h = si_version i \<and> head_CatalogRevision h = si_epoch i \<and>
        head_InputHash h = input \<and> store_decode unmarshal cache h row (si_at i) = Inr r \<and> db' = db")
      case True
      with Hit input Some row show thesis by blast
    next
      case False
      then have "head_Version h \<noteq> MaxUint64 \<and> materialize db tenant (Some h) input i = Inr (r, db')"
        using assms input Some row ok by (auto simp: locked_def Let_def split: if_splits sum.splits)
      with Miss input Some ok show thesis by (simp add: not_less)
    qed
  qed
qed

lemma serves_new: "resolves tenant i r0 \<Longrightarrow> r = stamped r0 v (si_epoch i) \<Longrightarrow> serves tenant i v r"
proof -
  assume r0: "resolves tenant i r0" and r: "r = stamped r0 v (si_epoch i)"
  have "res_EvaluatedAt r0 = si_at i" using r0 by (auto simp: resolves_def dest: Resolve_success(8))
  then have "r\<lparr>res_EvaluatedAt := si_at i\<rparr> = stamped r0 v (si_epoch i)" by (simp add: r stamped_def)
  with r0 show ?thesis unfolding serves_def by blast
qed

lemma head_serves:
  assumes "head_ok unmarshal H tenant h row" "unmarshal (row_Payload row) = Some r" "ValidAt r (si_at i)" "\<not> IsZero (si_at i)"
    and same: "\<And>j. (tenant, j) \<in> H \<Longrightarrow> si_version j = head_SourceVersion h \<Longrightarrow> si_epoch j = head_CatalogRevision h \<Longrightarrow>
      InputHash (si_catalog j) (si_sources j) = Some (head_InputHash h) \<Longrightarrow>
      si_version j = si_version i \<and> si_catalog j = si_catalog i \<and> si_sources j = si_sources i"
    and "head_CatalogRevision h = si_epoch i"
  shows "serves tenant i (head_Version h) r"
proof -
  obtain j r0 where j: "(tenant, j) \<in> H" "resolves tenant j r0" "si_version j = head_SourceVersion h"
    "si_epoch j = head_CatalogRevision h" "InputHash (si_catalog j) (si_sources j) = Some (head_InputHash h)"
    "r = stamped r0 (head_Version h) (head_CatalogRevision h)"
    using assms(1,2) unfolding head_ok_def by auto
  from valid_snapshot_fresh [OF j(2) _ assms(4)] same [OF j(1,3,4,5)] assms(3)
  have "resolves tenant i (r0\<lparr>res_EvaluatedAt := si_at i\<rparr>)" unfolding j(6) by blast
  moreover have "r\<lparr>res_EvaluatedAt := si_at i\<rparr> = stamped (r0\<lparr>res_EvaluatedAt := si_at i\<rparr>) (head_Version h) (si_epoch i)"
    by (simp add: j(6) stamped_def assms(6))
  ultimately show ?thesis unfolding serves_def by blast
qed

lemma locked_serves:
  assumes inv: "snap_inv unmarshal H db" and l: "locked unmarshal cache db tenant i = Inr (r, db')"
    and "\<not> IsZero (si_at i)" "no_collision H i" "cache_ok cache db"
  shows "\<exists>h. db_heads db' tenant = Some h \<and> serves tenant i (head_Version h) r"
  using l
proof (cases rule: locked_cases)
  case (Hit input h row)
  from inv Hit(2) obtain row' where row': "latest_row db tenant = Some row'" "head_ok unmarshal H tenant h row'" "row' \<in> set (db_rows db)"
    by (rule snap_inv_head)
  then have row: "head_ok unmarshal H tenant h row" "row \<in> set (db_rows db)" using Hit(3) by simp_all
  have "unmarshal (row_Payload row) = Some r \<and> ValidAt r (si_at i)"
    using row by (intro store_decode_payload [OF Hit(8) assms(5)]) (simp_all add: head_ok_def)
  then have "serves tenant i (head_Version h) r"
    using Hit assms(3,4) by (intro head_serves [OF row(1)]) (auto simp: no_collision_def)
  with Hit show ?thesis by blast
next
  case (Miss input)
  from Miss(3) show ?thesis
  proof (rule materialize_Inr)
    fix r0 b
    assume r0: "resolves tenant i r0" "r = stamped r0 ((case db_heads db tenant of None \<Rightarrow> 0 | Some h \<Rightarrow> head_Version h) + 1) (si_epoch i)"
      and db': "db' = db\<lparr>db_rows := \<lparr>row_TenantID = tenant, row_Version = (case db_heads db tenant of None \<Rightarrow> 0 | Some h \<Rightarrow> head_Version h) + 1,
         row_Payload = b, row_PayloadSHA256 = snap_Digest b, row_CreatedAt = si_at i\<rparr> # db_rows db,
       db_heads := (db_heads db)(tenant \<mapsto>
         \<lparr>head_TenantID = tenant, head_Version = (case db_heads db tenant of None \<Rightarrow> 0 | Some h \<Rightarrow> head_Version h) + 1,
          head_SourceVersion = si_version i, head_CatalogRevision = si_epoch i, head_InputHash = input,
          head_PayloadSHA256 = snap_Digest b, head_Invalidated = False\<rparr>)\<rparr>"
    from serves_new [OF r0] show ?thesis by (simp add: db')
  qed
qed

lemma locked_inv:
  assumes inv: "snap_inv unmarshal H db" and l: "locked unmarshal cache db tenant i = Inr (r, db')"
    and trip: "\<And>b. marshal (json_EntResult r) = Some b \<Longrightarrow> unmarshal b = Some r"
  shows "snap_inv unmarshal (insert (tenant, i) H) db'"
  using l
proof (cases rule: locked_cases)
  case (Hit input h row)
  then show ?thesis using snap_inv_mono [OF inv] by blast
next
  case (Miss input)
  then show ?thesis using materialize_inv [OF inv Miss(3,1)] trip by blast
qed

lemma invalidate_inv: "snap_inv unmarshal H db \<Longrightarrow> snap_inv unmarshal H (invalidate db tenant)"
proof -
  assume inv: "snap_inv unmarshal H db"
  have "latest_row (invalidate db tenant) t = latest_row db t" for t by (simp add: latest_row_def invalidate_def)
  moreover have "head_ok unmarshal H t (h\<lparr>head_Invalidated := True\<rparr>) row \<longleftrightarrow> head_ok unmarshal H t h row" for t h row
    by (simp add: head_ok_def)
  ultimately have "case db_heads (invalidate db tenant) t of None \<Rightarrow> latest_row (invalidate db tenant) t = None
      | Some h \<Rightarrow> \<exists>row. latest_row (invalidate db tenant) t = Some row \<and> head_ok unmarshal H t h row" for t
    using inv [unfolded snap_inv_def, THEN conjunct2, THEN spec [of _ t]]
    by (cases "db_heads db t"; cases "t = tenant") (simp_all add: invalidate_def)
  moreover have "db_rows (invalidate db tenant) = db_rows db" by (simp add: invalidate_def)
  ultimately show ?thesis using inv unfolding snap_inv_def by simp
qed

section \<open>Every history of the store\<close>

inductive snap_reachable :: "(string \<Rightarrow> EntResult option) \<Rightarrow> (string \<times> SnapInput) set \<Rightarrow> SnapDB \<Rightarrow> bool" for unmarshal where
  empty: "snap_reachable unmarshal {} \<lparr>db_heads = Map.empty, db_rows = []\<rparr>"
| read: "snap_reachable unmarshal H db \<Longrightarrow> locked unmarshal cache db tenant i = Inr (r, db') \<Longrightarrow>
     (\<And>b. marshal (json_EntResult r) = Some b \<Longrightarrow> unmarshal b = Some r) \<Longrightarrow> snap_reachable unmarshal (insert (tenant, i) H) db'"
| invalidated: "snap_reachable unmarshal H db \<Longrightarrow> snap_reachable unmarshal H (invalidate db tenant)"

lemma snap_reachable_inv: "snap_reachable unmarshal H db \<Longrightarrow> snap_inv unmarshal H db"
  by (induction rule: snap_reachable.induct) (auto intro: snap_inv_empty locked_inv invalidate_inv)

lemma append_requested_set:
  "set (append_requested seen keys) = denied_request ` (set keys - set seen)"
  by (induction seen keys rule: append_requested.induct) auto

text \<open>Marshalling only fails on a time outside the years 0 to 9999.\<close>

fun times_ok :: "json \<Rightarrow> bool" where
  "times_ok (JTime t) \<longleftrightarrow> 0 \<le> Year t \<and> Year t \<le> 9999"
| "times_ok (JArr xs) \<longleftrightarrow> list_all times_ok xs"
| "times_ok (JObj fs) \<longleftrightarrow> list_all (\<lambda>f. times_ok (snd f)) fs"
| "times_ok j \<longleftrightarrow> True"

lemma marshal_defined:
  "times_ok j \<Longrightarrow> marshal j \<noteq> None" "list_all times_ok xs \<Longrightarrow> marshal_list xs \<noteq> None"
  "list_all (\<lambda>f. times_ok (snd f)) fs \<Longrightarrow> marshal_fields fs \<noteq> None"
proof (induction j and xs and fs rule: marshal_marshal_list_marshal_fields.induct)
qed auto

section \<open>A concrete history\<close>

definition ex_snap_input :: "time \<Rightarrow> SnapInput" where
  "ex_snap_input at = \<lparr>si_epoch = 3, si_version = 7, si_sources = [], si_catalog = ex_catalog, si_at = at\<rparr>"

definition ex_empty :: SnapDB where "ex_empty = \<lparr>db_heads = Map.empty, db_rows = []\<rparr>"

definition ex_snap_result :: EntResult where
  "ex_snap_result = (case Resolve ''t1'' 7 ex_at ex_catalog [] [] of Some (Inr r) \<Rightarrow> stamped r 1 3 | _ \<Rightarrow> undefined)"

definition ex_payload :: string where "ex_payload = the (marshal (json_EntResult ex_snap_result))"

definition ex_unmarshal :: "string \<Rightarrow> EntResult option" where
  "ex_unmarshal b = (if b = ex_payload then Some ex_snap_result else None)"

lemma ex_snap_resolves: "\<exists>r. Resolve ''t1'' 7 ex_at ex_catalog [] [] = Some (Inr r) \<and> ex_snap_result = stamped r 1 3 \<and> res_ValidUntil r = None"
proof -
  obtain r where r: "Resolve ''t1'' 7 ex_at ex_catalog [] [] = Some (Inr r)"
    using Resolve_succeeds [of "''t1''" ex_at ex_catalog "[]" "[]" 7] Resolve_success [OF ex_resolves] by auto
  then have "res_ValidUntil r = None" using Resolve_success(4) [OF r] by (simp add: ordered_sources_def)
  with r show ?thesis by (simp add: ex_snap_result_def)
qed

lemma ex_payload_marshal: "marshal (json_EntResult ex_snap_result) = Some ex_payload"
proof -
  obtain r where r: "Resolve ''t1'' 7 ex_at ex_catalog [] [] = Some (Inr r)" "ex_snap_result = stamped r 1 3" "res_ValidUntil r = None"
    using ex_snap_resolves by blast
  have "0 \<le> Year ex_at" "Year ex_at \<le> 9999" by code_simp+
  then have "times_ok (json_EntResult ex_snap_result)"
    using Resolve_success(8,9) [OF r(1)] r(3)
    by (simp add: r(2) stamped_def json_EntResult_def omit_time_def omit_str_def JUint_def list_all_iff json_Decision_def
        json_CatalogVersion_def json_SourceExplanation_def json_Limit_def)
  then show ?thesis using marshal_defined(1) by (auto simp: ex_payload_def)
qed

lemma ex_input_hash: "\<exists>h. InputHash ex_catalog [] = Some h"
proof -
  have "marshal (JObj [(''Catalog'', JArr (map json_ModuleDefinition ex_catalog)), (''Sources'', JArr (map json_Source []))]) \<noteq> None"
    by (rule marshal_defined(1)) (simp add: json_ModuleDefinition_def JUint_def list_all_iff)
  then show ?thesis by (auto simp: InputHash_def)
qed

lemma ex_first_read: "\<exists>db'. locked ex_unmarshal None ex_empty ''t1'' (ex_snap_input ex_at) = Inr (ex_snap_result, db') \<and>
    db_heads db' ''t1'' = Some \<lparr>head_TenantID = ''t1'', head_Version = 1, head_SourceVersion = 7, head_CatalogRevision = 3,
      head_InputHash = the (InputHash ex_catalog []), head_PayloadSHA256 = snap_Digest ex_payload, head_Invalidated = False\<rparr> \<and>
    db_rows db' = [\<lparr>row_TenantID = ''t1'', row_Version = 1, row_Payload = ex_payload, row_PayloadSHA256 = snap_Digest ex_payload,
      row_CreatedAt = ex_at\<rparr>]"
proof -
  obtain r where r: "Resolve ''t1'' 7 ex_at ex_catalog [] [] = Some (Inr r)" "ex_snap_result = stamped r 1 3"
    using ex_snap_resolves by blast
  obtain h where h: "InputHash ex_catalog [] = Some h" using ex_input_hash by blast
  have "marshal (json_EntResult (r\<lparr>res_EntitlementVersion := 1, res_CatalogRevision := 3\<rparr>)) = Some ex_payload"
    using ex_payload_marshal r(2) by (simp add: stamped_def)
  with r h show ?thesis
    by (simp add: locked_def materialize_def ex_empty_def latest_row_def ex_snap_input_def stamped_def)
qed

definition ex_db :: SnapDB where
  "ex_db = snd (projr (locked ex_unmarshal None ex_empty ''t1'' (ex_snap_input ex_at)))"

lemma ex_db_read: "locked ex_unmarshal None ex_empty ''t1'' (ex_snap_input ex_at) = Inr (ex_snap_result, ex_db)"
  using ex_first_read by (auto simp: ex_db_def)

lemma ex_db_fields:
  "db_heads ex_db ''t1'' = Some \<lparr>head_TenantID = ''t1'', head_Version = 1, head_SourceVersion = 7, head_CatalogRevision = 3,
      head_InputHash = the (InputHash ex_catalog []), head_PayloadSHA256 = snap_Digest ex_payload, head_Invalidated = False\<rparr>"
  "db_rows ex_db = [\<lparr>row_TenantID = ''t1'', row_Version = 1, row_Payload = ex_payload, row_PayloadSHA256 = snap_Digest ex_payload,
      row_CreatedAt = ex_at\<rparr>]"
  using ex_first_read by (auto simp: ex_db_def)

lemma ex_db_reachable: "snap_reachable ex_unmarshal {(''t1'', ex_snap_input ex_at)} ex_db"
proof (rule snap_reachable.read [OF snap_reachable.empty ex_db_read [unfolded ex_empty_def]])
  fix b assume "marshal (json_EntResult ex_snap_result) = Some b"
  then show "ex_unmarshal b = Some ex_snap_result" using ex_payload_marshal by (simp add: ex_unmarshal_def)
qed

lemma ex_decoded: "Decode ex_unmarshal ex_payload ''t1'' 1 7 3 (snap_Digest ex_payload) (ex_at + Day) = Inr ex_snap_result"
proof -
  obtain r where r: "Resolve ''t1'' 7 ex_at ex_catalog [] [] = Some (Inr r)" "ex_snap_result = stamped r 1 3" "res_ValidUntil r = None"
    using ex_snap_resolves by blast
  have "res_ResolverVersion r = 1" "res_PermissionVersion r = ''''" "res_PermissionSubject r = ''''"
    using r(1) by (auto simp: Resolve_def Let_def split: if_splits option.splits sum.splits)
  moreover have "0 < Day" by code_simp
  ultimately show ?thesis using Resolve_success(6-8) [OF r(1)] r(3)
    by (simp add: Decode_Inr r(2) stamped_def ValidAt_def) (simp add: ex_unmarshal_def r(2) stamped_def)
qed

lemma ex_second_read: "locked ex_unmarshal None ex_db ''t1'' (ex_snap_input (ex_at + Day)) = Inr (ex_snap_result, ex_db)"
proof -
  obtain h where "InputHash ex_catalog [] = Some h" using ex_input_hash by blast
  then show ?thesis using ex_decoded
    by (simp add: locked_def ex_db_fields latest_row_def ex_snap_input_def store_decode_def)
qed

section \<open>Properties\<close>

text \<open>
  C9: A materialised snapshot is as good as a fresh resolution. In every history of the store,
  whatever the cache holds, a successful locked read returns exactly what resolving the sources
  and the catalogue read under the lock at that instant gives, with the stamps of the snapshot and
  apart from the instant of evaluation. (Two different inputs of the history must not collide under
  SHA-256, and cached bytes with the digest of a row must be its payload.)
\<close>

theorem snapshot_serves_fresh:
  assumes "snap_reachable unmarshal H db" "locked unmarshal cache db tenant i = Inr (r, db')"
    and "\<not> IsZero (si_at i)" "no_collision H i" "cache_ok cache db"
  shows "\<exists>r0 v. Resolve tenant (si_version i) (si_at i) (si_catalog i) (si_sources i) [] = Some (Inr r0) \<and>
    r\<lparr>res_EvaluatedAt := si_at i\<rparr> = r0\<lparr>res_EntitlementVersion := v, res_CatalogRevision := si_epoch i\<rparr>"
  using locked_serves [OF snap_reachable_inv [OF assms(1)] assms(2-5)]
  unfolding serves_def resolves_def stamped_def by blast

lemma snapshot_serves_fresh_witness:
  "\<exists>r0 v. Resolve ''t1'' 7 (ex_at + Day) ex_catalog [] [] = Some (Inr r0) \<and>
     ex_snap_result\<lparr>res_EvaluatedAt := ex_at + Day\<rparr> = r0\<lparr>res_EntitlementVersion := v, res_CatalogRevision := 3\<rparr>"
proof -
  have "no_collision {(''t1'', ex_snap_input ex_at)} (ex_snap_input (ex_at + Day))" "cache_ok None ex_db"
    "\<not> IsZero (si_at (ex_snap_input (ex_at + Day)))"
    using ex_later(1) by (simp_all add: no_collision_def cache_ok_def ex_snap_input_def)
  from snapshot_serves_fresh [OF ex_db_reachable ex_second_read this(3,1,2)] show ?thesis by (simp add: ex_snap_input_def)
qed

text \<open>
  The read-only path never shows a stale grant. When the stamps of the sources and of the
  catalogue identify their content, everything a read-only snapshot allows at an instant is allowed
  by a resolution of the current sources and catalogue at that instant.
\<close>

lemma snapshot_read_only_fresh:
  assumes "snap_reachable unmarshal H db"
    and "readOnly unmarshal db tenant requested current_source current_catalog at = Inr r" "\<not> IsZero at"
    and "\<forall>j. (tenant, j) \<in> H \<and> si_version j = current_source \<and> si_epoch j = current_catalog \<longrightarrow>
      si_sources j = sources \<and> si_catalog j = c"
    and "d \<in> set (res_Decisions r)" "dec_Allowed d"
  shows "\<exists>r0. Resolve tenant current_source at c sources [] = Some (Inr r0) \<and> d \<in> set (res_Decisions r0)"
proof -
  let ?i = "\<lparr>si_epoch = current_catalog, si_version = current_source, si_sources = sources, si_catalog = c, si_at = at\<rparr>"
  obtain h where h: "db_heads db tenant = Some h" using assms(2) by (auto simp: readOnly_def split: option.splits)
  with snap_reachable_inv [OF assms(1)] obtain row where row: "latest_row db tenant = Some row" "head_ok unmarshal H tenant h row"
    "row \<in> set (db_rows db)" by (rule snap_inv_head)
  obtain p r1 where p: "filter (\<lambda>p. row_TenantID p = tenant \<and> row_Version p = head_Version h \<and>
        row_PayloadSHA256 p = head_PayloadSHA256 h) (db_rows db) = [p]"
    "head_SourceVersion h = current_source" "head_CatalogRevision h = current_catalog"
    and dec: "Decode unmarshal (row_Payload p) tenant (head_Version h) (head_SourceVersion h) (head_CatalogRevision h)
        (head_PayloadSHA256 h) at = Inr r1" and r: "r = Requested r1 requested"
    using assms(2) h by (auto simp: readOnly_def split: list.splits if_splits)
  have "row \<in> set (filter (\<lambda>p. row_TenantID p = tenant \<and> row_Version p = head_Version h \<and>
        row_PayloadSHA256 p = head_PayloadSHA256 h) (db_rows db))" using row by (simp add: head_ok_def)
  then have "p = row" using p(1) by simp
  then have "serves tenant ?i (head_Version h) r1"
    using dec p(2,3) assms(3,4) by (intro head_serves [OF row(2)]) (auto simp: Decode_Inr)
  then obtain r0 where r0: "resolves tenant ?i r0" "r1\<lparr>res_EvaluatedAt := at\<rparr> = stamped r0 (head_Version h) current_catalog"
    unfolding serves_def by auto
  have "res_Decisions r1 = res_Decisions r0" using arg_cong [OF r0(2), of res_Decisions] by (simp add: stamped_def)
  moreover have "d \<in> set (res_Decisions r1)"
    using assms(5,6) by (auto simp: r Requested_def append_requested_set denied_request_def)
  ultimately show ?thesis using r0(1) by (auto simp: resolves_def)
qed

lemma ex_read_only: "readOnly ex_unmarshal ex_db ''t1'' [''zzz''] 7 3 (ex_at + Day) = Inr (Requested ex_snap_result [''zzz''])"
  using ex_decoded by (simp add: readOnly_def ex_db_fields bind_result_def)

lemma snapshot_read_only_fresh_witness:
  "\<not> (\<exists>d \<in> set (res_Decisions (Requested ex_snap_result [''zzz''])). dec_Allowed d \<and> dec_Key d = ''zzz'')"
proof
  assume "\<exists>d \<in> set (res_Decisions (Requested ex_snap_result [''zzz''])). dec_Allowed d \<and> dec_Key d = ''zzz''"
  then obtain d where d: "d \<in> set (res_Decisions (Requested ex_snap_result [''zzz'']))" "dec_Allowed d" by blast
  from snapshot_read_only_fresh [OF ex_db_reachable ex_read_only ex_later(1) _ d, of "[]" ex_catalog]
  obtain r0 where r0: "Resolve ''t1'' 7 (ex_at + Day) ex_catalog [] [] = Some (Inr r0)" "d \<in> set (res_Decisions r0)"
    by (auto simp: ex_snap_input_def)
  have "case Resolve ''t1'' 7 (ex_at + Day) ex_catalog [] [] of Some (Inr r) \<Rightarrow> list_all (\<lambda>d. \<not> dec_Allowed d) (res_Decisions r) | _ \<Rightarrow> True"
    by code_simp
  with r0 d(2) show False by (auto simp: list_all_iff)
qed

text \<open>
  The history of snapshots is append-only. A successful locked read in any history keeps every
  stored row, adds at most one, leaves the heads of other tenants alone, and moves the head of the
  tenant only forward: its version, its source version and its catalogue revision never decrease,
  and the version names the new row.
\<close>

lemma snapshot_append_only:
  assumes "snap_reachable unmarshal H db" "locked unmarshal cache db tenant i = Inr (r, db')"
  shows "(db' = db \<or> (\<exists>row. db_rows db' = row # db_rows db \<and> row_TenantID row = tenant)) \<and>
    (\<forall>t. t \<noteq> tenant \<longrightarrow> db_heads db' t = db_heads db t) \<and>
    (\<forall>h. db_heads db tenant = Some h \<longrightarrow> (\<exists>h'. db_heads db' tenant = Some h' \<and> head_Version h \<le> head_Version h' \<and>
       head_SourceVersion h \<le> head_SourceVersion h' \<and> head_CatalogRevision h \<le> head_CatalogRevision h'))"
  using assms(2)
proof (cases rule: locked_cases)
  case (Hit input h row)
  then show ?thesis by auto
next
  case (Miss input)
  have "head_Version h \<le> head_Version h + 1" if "db_heads db tenant = Some h" for h
    using word_plus_one_gt [of "head_Version h"] Miss(2) [OF that] by (simp add: order.strict_implies_order)
  with Miss(2) show ?thesis by (rule_tac materialize_Inr [OF Miss(3)]) auto
qed

lemma snapshot_append_only_witness:
  "ex_db = ex_empty \<or> (\<exists>row. db_rows ex_db = row # db_rows ex_empty \<and> row_TenantID row = ''t1'')"
  using snapshot_append_only [OF snap_reachable.empty ex_db_read [unfolded ex_empty_def]] by (simp add: ex_empty_def)

text \<open>
  Asking for more keys never grants anything. \<open>Requested\<close> answers every requested capability,
  keeps all decisions of the snapshot in place, and everything it adds is a denial.
\<close>

lemma snapshot_requested:
  "(\<forall>key \<in> set requested. \<exists>d \<in> set (res_Decisions (Requested r requested)). dec_Kind d = Kind_Capability \<and> dec_Key d = key) \<and>
   (\<exists>added. res_Decisions (Requested r requested) = res_Decisions r @ added \<and> list_all (\<lambda>d. \<not> dec_Allowed d) added)"
proof
  let ?seen = "map dec_Key (filter (\<lambda>d. dec_Kind d = Kind_Capability) (res_Decisions r))"
  show "\<forall>key \<in> set requested. \<exists>d \<in> set (res_Decisions (Requested r requested)). dec_Kind d = Kind_Capability \<and> dec_Key d = key"
  proof
    fix key assume key: "key \<in> set requested"
    show "\<exists>d \<in> set (res_Decisions (Requested r requested)). dec_Kind d = Kind_Capability \<and> dec_Key d = key"
    proof (cases "key \<in> set ?seen")
      case True
      then show ?thesis by (auto simp: Requested_def)
    next
      case False
      with key have "denied_request key \<in> set (append_requested ?seen requested)" by (simp add: append_requested_set)
      then show ?thesis by (force simp: Requested_def denied_request_def)
    qed
  qed
  have "list_all (\<lambda>d. \<not> dec_Allowed d) (append_requested ?seen requested)"
    by (auto simp: list_all_iff append_requested_set denied_request_def)
  then show "\<exists>added. res_Decisions (Requested r requested) = res_Decisions r @ added \<and> list_all (\<lambda>d. \<not> dec_Allowed d) added"
    by (simp add: Requested_def)
qed

lemma snapshot_requested_witness:
  "\<exists>d \<in> set (res_Decisions (Requested ex_snap_result [''zzz''])). dec_Kind d = Kind_Capability \<and> dec_Key d = ''zzz''"
  using snapshot_requested [of "[''zzz'']" ex_snap_result] by simp

text \<open>
  The memory cache is bounded and honest. After any sequence of puts into a new cache it holds
  at most the configured number of entries, and looking a key up gives nothing or bytes that were
  put under exactly that key.
\<close>

lemma snapshot_cache_bounded:
  "length (mc_order (fold (\<lambda>(k, v) s. cache_Put s k v) kvs (NewMemorySnapshotCache mx))) \<le> nat (max 1 mx) \<and>
   dom (mc_values (fold (\<lambda>(k, v) s. cache_Put s k v) kvs (NewMemorySnapshotCache mx))) =
     set (mc_order (fold (\<lambda>(k, v) s. cache_Put s k v) kvs (NewMemorySnapshotCache mx))) \<and>
   cache_Get (fold (\<lambda>(k, v) s. cache_Put s k v) kvs (NewMemorySnapshotCache mx)) k \<in> {[]} \<union> {v. (k, v) \<in> set kvs}"
proof -
  have "cache_wf (fold (\<lambda>(k, v) s. cache_Put s k v) kvs c) \<and> mc_max (fold (\<lambda>(k, v) s. cache_Put s k v) kvs c) = mc_max c"
    if "cache_wf c" for c
    using that by (induction kvs arbitrary: c) (auto simp: cache_wf_put)
  from this [OF cache_wf_new [of mx]] have "length (mc_order (fold (\<lambda>(k, v) s. cache_Put s k v) kvs (NewMemorySnapshotCache mx))) \<le> nat (max 1 mx)"
    "dom (mc_values (fold (\<lambda>(k, v) s. cache_Put s k v) kvs (NewMemorySnapshotCache mx))) =
     set (mc_order (fold (\<lambda>(k, v) s. cache_Put s k v) kvs (NewMemorySnapshotCache mx)))"
    by (auto simp: cache_wf_def NewMemorySnapshotCache_def max_def split: if_splits)
  moreover have "cache_Get (NewMemorySnapshotCache mx) k = []" by (simp add: cache_Get_def NewMemorySnapshotCache_def)
  ultimately show ?thesis using memory_cache.get_puts [of kvs "NewMemorySnapshotCache mx" k] by auto
qed

end
