(* ===== verification/Override_Ledger.thy ===== *)
theory Override_Ledger
  imports Snapshot
begin

section \<open>The override ledger\<close>

text \<open>
  Creating and revoking entitlement overrides:
  \<open>internal/commercial/application/entitlementmanagement/internal/usecase/service.go\<close> with its
  repository \<open>internal/commercial/infrastructure/persistence/entitlement.go\<close>. The tables are the
  state; an operation is one transaction, so an error leaves the state as it was. A payload column
  holds the source it encodes. Parameters stand for what the transaction asks others: whether the
  tenant exists, the catalogue, the fingerprint of a request (deterministic protobuf and SHA-256),
  the new random identifier and the clock.
\<close>

subsection \<open>Tables\<close>

datatype led_error =
    Led_Ent ent_error
  | Led_StateLost
  | Led_DuplicateKey
  | Led_Capability

record overrideRow =
  or_ModuleCode :: string
  or_TenantID :: string
  or_ID :: string
  or_Version :: uint64
  or_Payload :: Source

record OverrideReceipt =
  ovr_Source :: Source
  ovr_SourceVersion :: uint64

record EntitlementAudit =
  aud_TenantID :: string
  aud_ActorID :: string
  aud_Action :: string
  aud_Reason :: string
  aud_RequestID :: string
  aud_BeforeVersion :: uint64
  aud_AfterVersion :: uint64
  aud_Before :: "Source option"
  aud_After :: Source
  aud_At :: time

record EntitlementState =
  es_Version :: uint64
  es_Sources :: "Source list"

record Ledger =
  led_epoch :: uint64
  led_versions :: "string \<rightharpoonup> uint64"
  led_rows :: "overrideRow list"
  led_receipts :: "string \<times> string \<rightharpoonup> string \<times> OverrideReceipt"
  led_audit :: "EntitlementAudit list"
  led_snapshots :: SnapDB

subsection \<open>The repository\<close>

fun decode_rows :: "string \<Rightarrow> overrideRow list \<Rightarrow> led_error + Source list" where
  "decode_rows tenant [] = Inr []"
| "decode_rows tenant (row # rows) =
     (let s = or_Payload row in
      if src_ModuleCode s \<noteq> or_ModuleCode row \<or> src_TenantID s \<noteq> tenant \<or> src_ID s \<noteq> or_ID row \<or>
         src_Version s \<noteq> or_Version row \<or>
         (src_SourceKind s \<noteq> OverrideSource \<and> src_SourceKind s \<noteq> PlanSource \<and> src_SourceKind s \<noteq> AddonSource)
        then Inl (Led_Ent Ent_ErrScope)
      else case Source_ValidateShape s of
        Some e \<Rightarrow> Inl (Led_Ent e)
      | None \<Rightarrow> bind_result (decode_rows tenant rows) (\<lambda>out. Inr (s # out)))"

definition decodeSources :: "string \<Rightarrow> uint64 \<Rightarrow> overrideRow list \<Rightarrow> led_error + EntitlementState" where
  "decodeSources tenant version rows =
     bind_result (decode_rows tenant rows) (\<lambda>out. Inr \<lparr>es_Version = version, es_Sources = out\<rparr>)"

definition tenant_rows :: "Ledger \<Rightarrow> string \<Rightarrow> overrideRow list" where
  "tenant_rows db tenant = sort_key or_ID (filter (\<lambda>row. or_TenantID row = tenant) (led_rows db))"

definition repo_Read :: "Ledger \<Rightarrow> string \<Rightarrow> led_error + EntitlementState" where
  "repo_Read db tenant =
     (case led_versions db tenant of
        None \<Rightarrow> Inr \<lparr>es_Version = 0, es_Sources = []\<rparr>
      | Some version \<Rightarrow> decodeSources tenant version (tenant_rows db tenant))"

definition repo_Lock :: "Ledger \<Rightarrow> string \<Rightarrow> led_error + EntitlementState \<times> Ledger" where
  "repo_Lock db tenant =
     (if led_epoch db = 0 then Inl Led_StateLost
      else if led_versions db tenant = None \<and>
         (tenant_rows db tenant \<noteq> [] \<or> (\<exists>row \<in> set (db_rows (led_snapshots db)). row_TenantID row = tenant))
        then Inl Led_StateLost
      else
        let db' = (if led_versions db tenant = None then db\<lparr>led_versions := (led_versions db)(tenant \<mapsto> 0)\<rparr> else db)
        in bind_result (decodeSources tenant (the (led_versions db' tenant)) (tenant_rows db' tenant))
             (\<lambda>state. Inr (state, db')))"

definition repo_Receipt :: "Ledger \<Rightarrow> string \<Rightarrow> string \<Rightarrow> string \<Rightarrow> led_error + OverrideReceipt option" where
  "repo_Receipt db tenant key hash =
     (case led_receipts db (tenant, key) of
        None \<Rightarrow> Inr None
      | Some (fp, receipt) \<Rightarrow>
        if fp \<noteq> hash then Inl (Led_Ent Ent_ErrRequestConflict)
        else if src_TenantID (ovr_Source receipt) \<noteq> tenant then Inl (Led_Ent Ent_ErrScope)
        else Inr (Some receipt))"

definition repo_Insert :: "Ledger \<Rightarrow> Source \<Rightarrow> led_error + Ledger" where
  "repo_Insert db s =
     (if \<exists>row \<in> set (led_rows db). or_TenantID row = src_TenantID s \<and> or_ID row = src_ID s then Inl Led_DuplicateKey
      else Inr (db\<lparr>led_rows := \<lparr>or_ModuleCode = src_ModuleCode s, or_TenantID = src_TenantID s, or_ID = src_ID s,
             or_Version = src_Version s, or_Payload = s\<rparr> # led_rows db\<rparr>))"

definition repo_Revoke :: "Ledger \<Rightarrow> Source \<Rightarrow> uint64 \<Rightarrow> led_error + Ledger" where
  "repo_Revoke db s expected =
     (let hit = (\<lambda>row. or_TenantID row = src_TenantID s \<and> or_ID row = src_ID s \<and> or_Version row = expected) in
      if length (filter hit (led_rows db)) \<noteq> 1 then Inl (Led_Ent Ent_ErrConflict)
      else Inr (db\<lparr>led_rows := map (\<lambda>row. if hit row then row\<lparr>or_Payload := s, or_Version := src_Version s\<rparr> else row)
             (led_rows db)\<rparr>))"

definition repo_Advance :: "Ledger \<Rightarrow> string \<Rightarrow> uint64 \<Rightarrow> led_error + Ledger" where
  "repo_Advance db tenant expected =
     (if expected = MaxUint64 then Inl (Led_Ent Ent_ErrConflict)
      else if led_versions db tenant \<noteq> Some expected then Inl (Led_Ent Ent_ErrConflict)
      else Inr (db\<lparr>led_versions := (led_versions db)(tenant \<mapsto> expected + 1),
                   led_snapshots := invalidate (led_snapshots db) tenant\<rparr>))"

definition repo_Audit :: "Ledger \<Rightarrow> EntitlementAudit \<Rightarrow> led_error + Ledger" where
  "repo_Audit db a = Inr (db\<lparr>led_audit := a # led_audit db\<rparr>)"

definition repo_SaveReceipt :: "Ledger \<Rightarrow> string \<Rightarrow> string \<Rightarrow> string \<Rightarrow> OverrideReceipt \<Rightarrow> led_error + Ledger" where
  "repo_SaveReceipt db tenant key hash receipt =
     (if led_receipts db (tenant, key) \<noteq> None then Inl Led_DuplicateKey
      else Inr (db\<lparr>led_receipts := (led_receipts db)((tenant, key) \<mapsto> (hash, receipt))\<rparr>))"

subsection \<open>The service\<close>

record Principal =
  pr_Authenticated :: bool
  pr_Subject :: string
  pr_TenantID :: string

fun token_pattern :: "string \<Rightarrow> bool" where
  "token_pattern [] = False"
| "token_pattern (c # cs) \<longleftrightarrow> is_alnum c \<and> (\<forall>d \<in> set cs. is_alnum d \<or> d \<in> set ''._:-'')"

definition token :: "string \<Rightarrow> nat \<Rightarrow> bool" where
  "token s mx \<longleftrightarrow> length s > 0 \<and> length s \<le> mx \<and> token_pattern s"

definition actor :: "Principal option \<Rightarrow> bool \<Rightarrow> led_error + Principal" where
  "actor ctx platform =
     (case ctx of
        None \<Rightarrow> Inl (Led_Ent Ent_ErrScope)
      | Some p \<Rightarrow>
        if \<not> pr_Authenticated p \<or> pr_Subject p = '''' then Inl (Led_Ent Ent_ErrScope)
        else if platform then (if pr_TenantID p \<noteq> '''' then Inl (Led_Ent Ent_ErrScope) else Inr p)
        else if \<not> token (pr_TenantID p) 64 then Inl (Led_Ent Ent_ErrScope)
        else Inr p)"

definition validWrite :: "string \<Rightarrow> string \<Rightarrow> bool" where
  "validWrite key reason \<longleftrightarrow> token key 128 \<and> TrimSpace reason \<noteq> '''' \<and> length reason \<le> 512"

text \<open>What \<open>time.Parse\<close> makes of a timestamp field of a request.\<close>

datatype timestamp = NoTime | BadTime | AtTime time

datatype target = TargetModule | TargetCapability | TargetQuota | TargetField | TargetOther
datatype effect = EffectGrant | EffectDeny | EffectQuotaAdd | EffectQuotaReplace | EffectSafetyDeny | EffectSafetyMask | EffectOther

record CreateRequest =
  cr_TenantId :: string
  cr_RequestId :: string
  cr_ExpectedVersion :: uint64
  cr_ModuleCode :: string
  cr_Target :: target
  cr_Key :: string
  cr_FieldAction :: string
  cr_Effect :: effect
  cr_Limit :: "Limit option"
  cr_EffectiveAt :: timestamp
  cr_ExpiresAt :: timestamp
  cr_Reason :: string

record RevokeRequest =
  rr_TenantId :: string
  rr_RequestId :: string
  rr_Id :: string
  rr_ExpectedVersion :: uint64
  rr_Reason :: string

fun kinds :: "target \<Rightarrow> string option" where
  "kinds TargetModule = Some Kind_Module"
| "kinds TargetCapability = Some Kind_Capability"
| "kinds TargetQuota = Some Kind_Quota"
| "kinds TargetField = Some Kind_Field"
| "kinds TargetOther = None"

fun effects :: "effect \<Rightarrow> string option" where
  "effects EffectGrant = Some Effect_Grant"
| "effects EffectDeny = Some Effect_Deny"
| "effects EffectQuotaAdd = Some QuotaAdd"
| "effects EffectQuotaReplace = Some QuotaReplace"
| "effects EffectSafetyDeny = Some SafetyDeny"
| "effects EffectSafetyMask = Some SafetyMask"
| "effects EffectOther = None"

definition fromCreate :: "CreateRequest \<Rightarrow> string \<Rightarrow> string \<Rightarrow> time \<Rightarrow> led_error + Source" where
  "fromCreate req subject nid at =
     (case kinds (cr_Target req) of
        None \<Rightarrow> Inl (Led_Ent Ent_ErrInvalid)
      | Some kind \<Rightarrow>
        (case effects (cr_Effect req) of
           None \<Rightarrow> Inl (Led_Ent Ent_ErrInvalid)
         | Some eff \<Rightarrow>
           if cr_EffectiveAt req = BadTime \<or> cr_ExpiresAt req = BadTime then Inl (Led_Ent Ent_ErrInvalid)
           else if cr_Limit req = None \<and> kind = Kind_Quota then Inl (Led_Ent Ent_ErrInvalid)
           else
             let start = (case cr_EffectiveAt req of AtTime v \<Rightarrow> v | _ \<Rightarrow> at);
                 end = (case cr_ExpiresAt req of AtTime v \<Rightarrow> Some v | _ \<Rightarrow> None);
                 limit = (case cr_Limit req of Some l \<Rightarrow> l | None \<Rightarrow> zero_limit);
                 s = \<lparr>src_ID = nid, src_TenantID = cr_TenantId req, src_SourceKind = OverrideSource,
                   src_ModuleCode = cr_ModuleCode req, src_Kind = kind, src_Key = cr_Key req,
                   src_Action = cr_FieldAction req, src_Effect = eff, src_Limit = limit, src_EffectiveAt = start,
                   src_ExpiresAt = end, src_RevokedAt = None, src_Reason = cr_Reason req, src_ActorID = subject,
                   src_Version = 1\<rparr>
             in case Source_ValidateShape s of Some e \<Rightarrow> Inl (Led_Ent e) | None \<Rightarrow> Inr s))"

text \<open>The closure that runs inside the transaction, then the whole operation.\<close>

definition create_tx ::
  "Catalog \<Rightarrow> string \<Rightarrow> string \<Rightarrow> time \<Rightarrow> string \<Rightarrow> CreateRequest \<Rightarrow> Ledger \<Rightarrow> led_error + OverrideReceipt \<times> Ledger" where
  "create_tx c hash nid at subject req db =
     bind_result (repo_Lock db (cr_TenantId req)) (\<lambda>(state, db1).
     bind_result (repo_Receipt db1 (cr_TenantId req) (cr_RequestId req) hash) (\<lambda>replay.
       case replay of
         Some receipt \<Rightarrow> Inr (receipt, db1)
       | None \<Rightarrow>
         if es_Version state \<noteq> cr_ExpectedVersion req then Inl (Led_Ent Ent_ErrConflict)
         else bind_result (fromCreate req subject nid at) (\<lambda>s.
           case ValidateAppend (es_Sources state) s c of
             Some e \<Rightarrow> Inl (Led_Ent e)
           | None \<Rightarrow>
             bind_result (repo_Insert db1 s) (\<lambda>db2.
             bind_result (repo_Advance db2 (src_TenantID s) (es_Version state)) (\<lambda>db3.
             bind_result (repo_Audit db3 \<lparr>aud_TenantID = src_TenantID s, aud_ActorID = subject, aud_Action = ''create'',
                 aud_Reason = cr_Reason req, aud_RequestID = cr_RequestId req, aud_BeforeVersion = es_Version state,
                 aud_AfterVersion = es_Version state + 1, aud_Before = None, aud_After = s, aud_At = at\<rparr>) (\<lambda>db4.
               let result = \<lparr>ovr_Source = s, ovr_SourceVersion = es_Version state + 1\<rparr>
               in bind_result (repo_SaveReceipt db4 (src_TenantID s) (cr_RequestId req) hash result)
                    (\<lambda>db5. Inr (result, db5))))))))"

definition revoke_tx ::
  "string \<Rightarrow> time \<Rightarrow> string \<Rightarrow> RevokeRequest \<Rightarrow> Ledger \<Rightarrow> led_error + OverrideReceipt \<times> Ledger" where
  "revoke_tx hash at subject req db =
     bind_result (repo_Lock db (rr_TenantId req)) (\<lambda>(state, db1).
     bind_result (repo_Receipt db1 (rr_TenantId req) (rr_RequestId req) hash) (\<lambda>replay.
       case replay of
         Some receipt \<Rightarrow> Inr (receipt, db1)
       | None \<Rightarrow>
         if es_Version state \<noteq> rr_ExpectedVersion req then Inl (Led_Ent Ent_ErrConflict)
         else case find (\<lambda>s. \<not> (src_ID s \<noteq> rr_Id req \<or> src_SourceKind s \<noteq> OverrideSource)) (es_Sources state) of
           None \<Rightarrow> Inl (Led_Ent Ent_ErrNotFound)
         | Some before \<Rightarrow>
           if src_RevokedAt before \<noteq> None then Inl (Led_Ent Ent_ErrRevoked)
           else
             let current = before\<lparr>src_RevokedAt := Some at, src_Version := src_Version before + 1\<rparr>
             in bind_result (repo_Revoke db1 current (src_Version before)) (\<lambda>db2.
                bind_result (repo_Advance db2 (rr_TenantId req) (es_Version state)) (\<lambda>db3.
                bind_result (repo_Audit db3 \<lparr>aud_TenantID = rr_TenantId req, aud_ActorID = subject, aud_Action = ''revoke'',
                    aud_Reason = rr_Reason req, aud_RequestID = rr_RequestId req, aud_BeforeVersion = es_Version state,
                    aud_AfterVersion = es_Version state + 1, aud_Before = Some before, aud_After = current, aud_At = at\<rparr>) (\<lambda>db4.
                  let result = \<lparr>ovr_Source = current, ovr_SourceVersion = es_Version state + 1\<rparr>
                  in bind_result (repo_SaveReceipt db4 (rr_TenantId req) (rr_RequestId req) hash result)
                       (\<lambda>db5. Inr (result, db5)))))))"

definition checkTenant :: "(string \<Rightarrow> led_error + string) \<Rightarrow> string \<Rightarrow> led_error err" where
  "checkTenant get_tenant tenant =
     (if \<not> token tenant 64 then Some (Led_Ent Ent_ErrInvalid)
      else case get_tenant tenant of
        Inl e \<Rightarrow> Some e
      | Inr i \<Rightarrow> if i \<noteq> tenant then Some (Led_Ent Ent_ErrScope) else None)"

definition CreateEntitlementOverride ::
  "(string \<Rightarrow> led_error + string) \<Rightarrow> led_error + Catalog \<Rightarrow> (string \<Rightarrow> CreateRequest \<Rightarrow> string) \<Rightarrow> string \<Rightarrow> time \<Rightarrow> Principal option
     \<Rightarrow> CreateRequest \<Rightarrow> Ledger \<Rightarrow> led_error + OverrideReceipt \<times> Ledger" where
  "CreateEntitlementOverride get_tenant catalog fingerprint nid at ctx req db =
     bind_result (actor ctx True) (\<lambda>p.
       if \<not> validWrite (cr_RequestId req) (cr_Reason req) then Inl (Led_Ent Ent_ErrInvalid)
       else case checkTenant get_tenant (cr_TenantId req) of
         Some e \<Rightarrow> Inl e
       | None \<Rightarrow>
         bind_result catalog (\<lambda>c.
           case Catalog_Validate c of
             Some e \<Rightarrow> Inl (Led_Ent e)
           | None \<Rightarrow> create_tx c (fingerprint (pr_Subject p) req) nid (Truncate at Microsecond) (pr_Subject p) req db))"

definition RevokeEntitlementOverride ::
  "(string \<Rightarrow> led_error + string) \<Rightarrow> (string \<Rightarrow> RevokeRequest \<Rightarrow> string) \<Rightarrow> time \<Rightarrow> Principal option \<Rightarrow> RevokeRequest \<Rightarrow> Ledger
     \<Rightarrow> led_error + OverrideReceipt \<times> Ledger" where
  "RevokeEntitlementOverride get_tenant fingerprint at ctx req db =
     bind_result (actor ctx True) (\<lambda>p.
       if \<not> validWrite (rr_RequestId req) (rr_Reason req) \<or> \<not> token (rr_Id req) 128 then Inl (Led_Ent Ent_ErrInvalid)
       else case checkTenant get_tenant (rr_TenantId req) of
         Some e \<Rightarrow> Inl e
       | None \<Rightarrow> revoke_tx (fingerprint (pr_Subject p) req) (Truncate at Microsecond) (pr_Subject p) req db)"

section \<open>Idempotent operations\<close>

text \<open>
  The contract of an operation that stores a receipt under its request key: a success leaves the
  receipt, no step of the system changes or drops one, and a repeated request finds it.
\<close>

locale receipted =
  fixes run :: "'req \<Rightarrow> 'db \<Rightarrow> 'e + 'out \<times> 'db" and receipt :: "'db \<Rightarrow> 'key \<rightharpoonup> 'fp \<times> 'out"
    and key :: "'req \<Rightarrow> 'key" and fp :: "'req \<Rightarrow> 'fp" and retry :: "'req \<Rightarrow> 'req \<Rightarrow> bool" and sane :: "'req \<Rightarrow> bool" and inv :: "'db \<Rightarrow> bool"
    and step :: "'db \<Rightarrow> 'db \<Rightarrow> bool"
  assumes run_step: "inv db \<Longrightarrow> sane req \<Longrightarrow> run req db = Inr (res, db') \<Longrightarrow> step db db'"
    and run_saves: "inv db \<Longrightarrow> run req db = Inr (res, db') \<Longrightarrow> receipt db' (key req) = Some (fp req, res)"
    and step_inv: "inv db \<Longrightarrow> step db db' \<Longrightarrow> inv db'"
    and step_keeps: "inv db \<Longrightarrow> step db db' \<Longrightarrow> receipt db k = Some x \<Longrightarrow> receipt db' k = Some x"
    and run_replays: "inv db \<Longrightarrow> run req db1 = Inr y \<Longrightarrow> retry req req' \<Longrightarrow> receipt db (key req) = Some (fp req, res) \<Longrightarrow>
      run req' db = Inr (res, db)"
begin

lemma steps_keep:
  assumes "step\<^sup>*\<^sup>* db db'" "inv db" "receipt db k = Some x"
  shows "inv db' \<and> receipt db' k = Some x"
  using assms by (induction rule: rtranclp_induct) (auto intro: step_inv step_keeps)

lemma at_most_once:
  assumes "inv db" "run req db = Inr (res, db1)" "step\<^sup>*\<^sup>* db1 db2" "retry req req'" "sane req"
  shows "run req' db2 = Inr (res, db2)"
proof -
  have "inv db1" using assms(1,2,5) run_step step_inv by blast
  with steps_keep [OF assms(3) this run_saves [OF assms(1,2)]] show ?thesis
    using run_replays [OF _ assms(2,4)] by blast
qed

end

section \<open>The invariant of the ledger\<close>

definition row_ok :: "overrideRow \<Rightarrow> bool" where
  "row_ok row \<longleftrightarrow>
     src_ModuleCode (or_Payload row) = or_ModuleCode row \<and> src_TenantID (or_Payload row) = or_TenantID row \<and>
     src_ID (or_Payload row) = or_ID row \<and> src_Version (or_Payload row) = or_Version row \<and>
     src_SourceKind (or_Payload row) = OverrideSource \<and> Source_ValidateShape (or_Payload row) = None \<and>
     (if src_RevokedAt (or_Payload row) = None then or_Version row = 1 else or_Version row = 2)"

abbreviation ledger_sources :: "Ledger \<Rightarrow> string \<Rightarrow> Source list" where
  "ledger_sources db tenant \<equiv> map or_Payload (tenant_rows db tenant)"

definition audits :: "Ledger \<Rightarrow> string \<Rightarrow> nat" where
  "audits db tenant = length (filter (\<lambda>a. aud_TenantID a = tenant) (led_audit db))"

definition version_of :: "Ledger \<Rightarrow> string \<Rightarrow> uint64" where
  "version_of db tenant = (case led_versions db tenant of None \<Rightarrow> 0 | Some v \<Rightarrow> v)"

definition led_inv :: "Ledger \<Rightarrow> bool" where
  "led_inv db \<longleftrightarrow> led_epoch db \<noteq> 0 \<and>
     (\<forall>row \<in> set (led_rows db). row_ok row \<and> led_versions db (or_TenantID row) \<noteq> None) \<and>
     distinct (map (\<lambda>row. (or_TenantID row, or_ID row)) (led_rows db)) \<and>
     (\<forall>row \<in> set (db_rows (led_snapshots db)). led_versions db (row_TenantID row) \<noteq> None) \<and>
     (\<forall>tenant. unat (version_of db tenant) = audits db tenant) \<and>
     (\<forall>tenant. single_replacement (ledger_sources db tenant)) \<and>
     (\<forall>tenant key fp rc. led_receipts db (tenant, key) = Some (fp, rc) \<longrightarrow>
        src_TenantID (ovr_Source rc) = tenant \<and> led_versions db tenant \<noteq> None)"

lemma led_invD:
  assumes "led_inv db"
  shows "led_epoch db \<noteq> 0" "row \<in> set (led_rows db) \<Longrightarrow> row_ok row"
    "row \<in> set (led_rows db) \<Longrightarrow> led_versions db (or_TenantID row) \<noteq> None"
    "distinct (map (\<lambda>row. (or_TenantID row, or_ID row)) (led_rows db))"
    "srow \<in> set (db_rows (led_snapshots db)) \<Longrightarrow> led_versions db (row_TenantID srow) \<noteq> None"
    "unat (version_of db tenant) = audits db tenant" "single_replacement (ledger_sources db tenant)"
    "led_receipts db (tenant, key) = Some (fp, rc) \<Longrightarrow> src_TenantID (ovr_Source rc) = tenant \<and> led_versions db tenant \<noteq> None"
  using assms unfolding led_inv_def by blast+

lemma set_tenant_rows [simp]: "set (tenant_rows db tenant) = {row \<in> set (led_rows db). or_TenantID row = tenant}"
  by (auto simp: tenant_rows_def)

lemma decode_rows_ok:
  "\<forall>row \<in> set rows. row_ok row \<and> or_TenantID row = tenant \<Longrightarrow> decode_rows tenant rows = Inr (map or_Payload rows)"
  by (induction rows) (auto simp: row_ok_def bind_result_def)

text \<open>After the lock the tenant has a version row.\<close>

definition initialised :: "Ledger \<Rightarrow> string \<Rightarrow> Ledger" where
  "initialised db tenant = db\<lparr>led_versions := (led_versions db)(tenant \<mapsto> version_of db tenant)\<rparr>"

lemma initialised_fields [simp]:
  "led_rows (initialised db tenant) = led_rows db" "led_receipts (initialised db tenant) = led_receipts db"
  "led_audit (initialised db tenant) = led_audit db" "led_snapshots (initialised db tenant) = led_snapshots db"
  "led_epoch (initialised db tenant) = led_epoch db" "tenant_rows (initialised db tenant) t = tenant_rows db t"
  "version_of (initialised db tenant) t = version_of db t" "audits (initialised db tenant) t = audits db t"
  "led_versions (initialised db tenant) tenant = Some (version_of db tenant)"
  by (auto simp: initialised_def tenant_rows_def version_of_def audits_def)

lemma initialised_same: "led_versions db tenant \<noteq> None \<Longrightarrow> initialised db tenant = db"
  by (auto simp: initialised_def version_of_def map_upd_triv)

lemma initialised_inv: "led_inv db \<Longrightarrow> led_inv (initialised db tenant)"
  unfolding led_inv_def by (simp add: initialised_def) (auto simp: version_of_def audits_def tenant_rows_def)

lemma repo_Lock_ok:
  assumes "led_inv db"
  shows "repo_Lock db tenant = Inr (\<lparr>es_Version = version_of db tenant, es_Sources = ledger_sources db tenant\<rparr>, initialised db tenant)"
proof -
  have d: "decode_rows tenant (tenant_rows db tenant) = Inr (ledger_sources db tenant)"
    using led_invD(2) [OF assms] by (intro decode_rows_ok) auto
  show ?thesis
  proof (cases "led_versions db tenant")
    case None
    have "row \<notin> set (tenant_rows db tenant)" for row using None led_invD(3) [OF assms, of row] by auto
    then have "tenant_rows db tenant = []" using list.set_sel(1) by blast
    moreover have "\<not> (\<exists>row \<in> set (db_rows (led_snapshots db)). row_TenantID row = tenant)" using None led_invD(5) [OF assms] by blast
    moreover have "tenant_rows (db\<lparr>led_versions := (led_versions db)(tenant \<mapsto> 0)\<rparr>) tenant = tenant_rows db tenant"
      by (simp add: tenant_rows_def)
    ultimately show ?thesis using None d led_invD(1) [OF assms]
      by (simp add: repo_Lock_def decodeSources_def bind_result_def initialised_def version_of_def)
  next
    case (Some v)
    then show ?thesis using d led_invD(1) [OF assms]
      by (simp add: repo_Lock_def decodeSources_def bind_result_def initialised_same version_of_def)
  qed
qed

lemma repo_Receipt_ok:
  assumes "led_inv db"
  shows "repo_Receipt db tenant key hash =
    (case led_receipts db (tenant, key) of None \<Rightarrow> Inr None
     | Some (fp, rc) \<Rightarrow> if fp = hash then Inr (Some rc) else Inl (Led_Ent Ent_ErrRequestConflict))"
  using led_invD(8) [OF assms, of tenant key] by (auto simp: repo_Receipt_def split: option.splits)

text \<open>What a successful write leaves: the changed rows, the next version, an audit entry and the receipt.\<close>

definition written :: "Ledger \<Rightarrow> overrideRow list \<Rightarrow> string \<Rightarrow> string \<Rightarrow> string \<Rightarrow> EntitlementAudit \<Rightarrow> OverrideReceipt \<Rightarrow> Ledger" where
  "written db rows tenant key hash a rc =
     db\<lparr>led_versions := (led_versions db)(tenant \<mapsto> version_of db tenant + 1), led_rows := rows,
        led_receipts := (led_receipts db)((tenant, key) \<mapsto> (hash, rc)), led_audit := a # led_audit db,
        led_snapshots := invalidate (led_snapshots db) tenant\<rparr>"

lemma written_fields [simp]:
  "led_rows (written db rows tenant key hash a rc) = rows"
  "led_receipts (written db rows tenant key hash a rc) = (led_receipts db)((tenant, key) \<mapsto> (hash, rc))"
  "led_versions (written db rows tenant key hash a rc) = (led_versions db)(tenant \<mapsto> version_of db tenant + 1)"
  "led_epoch (written db rows tenant key hash a rc) = led_epoch db"
  "version_of (written db rows tenant key hash a rc) t = (if t = tenant then version_of db tenant + 1 else version_of db t)"
  "audits (written db rows tenant key hash a rc) t = (if t = aud_TenantID a then Suc (audits db t) else audits db t)"
  "db_rows (led_snapshots (written db rows tenant key hash a rc)) = db_rows (led_snapshots db)"
  by (simp_all add: written_def version_of_def audits_def invalidate_def)

lemma single_replacement_rows:
  "single_replacement (ledger_sources db tenant) \<longleftrightarrow>
     (\<forall>row \<in> set (led_rows db). \<forall>row' \<in> set (led_rows db). \<forall>at.
        or_TenantID row = tenant \<longrightarrow> or_TenantID row' = tenant \<longrightarrow>
        src_ID (or_Payload row) \<noteq> src_ID (or_Payload row') \<longrightarrow> replacement_rivals (or_Payload row) (or_Payload row') \<longrightarrow>
        \<not> (Source_Active (or_Payload row) at \<and> Source_Active (or_Payload row') at))"
  unfolding single_replacement_def by auto

lemma written_inv:
  assumes inv: "led_inv db" and bound: "version_of db tenant \<noteq> - 1"
    and a: "aud_TenantID a = tenant" and rc: "src_TenantID (ovr_Source rc) = tenant"
    and rows: "\<And>row. row \<in> set rows \<Longrightarrow> row_ok row \<and> (or_TenantID row = tenant \<or> row \<in> set (led_rows db))"
    and d: "distinct (map (\<lambda>row. (or_TenantID row, or_ID row)) rows)"
    and single: "\<And>t. single_replacement (ledger_sources (written db rows tenant key hash a rc) t)"
  shows "led_inv (written db rows tenant key hash a rc)"
proof -
  have "unat (version_of db tenant + 1) = Suc (unat (version_of db tenant))"
    using bound using word_plus_one_nonzero [OF bound] by (simp add: unatSuc add.commute [of _ 1])
  then have "unat (version_of (written db rows tenant key hash a rc) t) = audits (written db rows tenant key hash a rc) t" for t
    using a led_invD(6) [OF inv] by simp
  moreover have "led_versions (written db rows tenant key hash a rc) (or_TenantID row) \<noteq> None" if "row \<in> set rows" for row
    using rows [OF that] led_invD(3) [OF inv, of row] by auto
  moreover have "led_versions (written db rows tenant key hash a rc) (row_TenantID row) \<noteq> None"
    if "row \<in> set (db_rows (led_snapshots db))" for row using led_invD(5) [OF inv that] by auto
  moreover have "src_TenantID (ovr_Source rc') = t \<and> led_versions (written db rows tenant key hash a rc) t \<noteq> None"
    if "led_receipts (written db rows tenant key hash a rc) (t, k) = Some (fp, rc')" for t k fp rc'
    using that rc led_invD(8) [OF inv, of t k fp rc'] by (auto split: if_splits)
  ultimately show ?thesis using led_invD(1) [OF inv] rows d single unfolding led_inv_def by simp
qed

lemma initialised_written [simp]:
  "(initialised db tenant)\<lparr>led_rows := rows, led_versions := (led_versions (initialised db tenant))(tenant \<mapsto> v),
     led_snapshots := ss, led_audit := au, led_receipts := rs\<rparr> =
   db\<lparr>led_versions := (led_versions db)(tenant \<mapsto> v), led_rows := rows, led_receipts := rs,
     led_audit := au, led_snapshots := ss\<rparr>"
  by (simp add: initialised_def)

definition create_audit :: "string \<Rightarrow> time \<Rightarrow> CreateRequest \<Rightarrow> uint64 \<Rightarrow> Source \<Rightarrow> EntitlementAudit" where
  "create_audit subject at req v s = \<lparr>aud_TenantID = src_TenantID s, aud_ActorID = subject, aud_Action = ''create'',
     aud_Reason = cr_Reason req, aud_RequestID = cr_RequestId req, aud_BeforeVersion = v,
     aud_AfterVersion = v + 1, aud_Before = None, aud_After = s, aud_At = at\<rparr>"

definition source_row :: "Source \<Rightarrow> overrideRow" where
  "source_row s = \<lparr>or_ModuleCode = src_ModuleCode s, or_TenantID = src_TenantID s, or_ID = src_ID s,
     or_Version = src_Version s, or_Payload = s\<rparr>"

lemma fromCreate_source:
  assumes "fromCreate req subject nid at = Inr s"
  shows "src_TenantID s = cr_TenantId req" "src_ID s = nid" "src_SourceKind s = OverrideSource" "src_Version s = 1"
    "src_RevokedAt s = None" "Source_ValidateShape s = None" "src_ActorID s = subject"
  using assms by (auto simp: fromCreate_def Let_def split: option.splits if_splits)

lemma create_tx_cases [consumes 2]:
  assumes inv: "led_inv db" and ok: "create_tx c hash nid at subject req db = Inr (rc, db')"
  obtains (Replay) "led_receipts db (cr_TenantId req, cr_RequestId req) = Some (hash, rc)" "db' = db"
  | (Fresh) s where "led_receipts db (cr_TenantId req, cr_RequestId req) = None" "fromCreate req subject nid at = Inr s"
      "version_of db (cr_TenantId req) = cr_ExpectedVersion req" "version_of db (cr_TenantId req) \<noteq> MaxUint64"
      "ValidateAppend (ledger_sources db (cr_TenantId req)) s c = None"
      "\<And>row. row \<in> set (led_rows db) \<Longrightarrow> \<not> (or_TenantID row = cr_TenantId req \<and> or_ID row = nid)"
      "rc = \<lparr>ovr_Source = s, ovr_SourceVersion = version_of db (cr_TenantId req) + 1\<rparr>"
      "db' = written db (source_row s # led_rows db) (cr_TenantId req) (cr_RequestId req) hash
         (create_audit subject at req (version_of db (cr_TenantId req)) s) rc"
proof (cases "led_receipts db (cr_TenantId req, cr_RequestId req)")
  case (Some x)
  then obtain fp rc' where x: "x = (fp, rc')" by (cases x)
  have "initialised db (cr_TenantId req) = db" using Some x led_invD(8) [OF inv] initialised_same by blast
  then have "fp = hash" "rc = rc'" "db' = db" using ok Some x
    by (auto simp: create_tx_def repo_Lock_ok [OF inv] repo_Receipt_ok [OF inv] split: if_splits)
  with Some x show thesis using Replay by simp
next
  case None
  note receipt = repo_Receipt_ok [OF initialised_inv [OF inv]]
  from ok None obtain s where s: "fromCreate req subject nid at = Inr s" and
      v: "version_of db (cr_TenantId req) = cr_ExpectedVersion req" "version_of db (cr_TenantId req) \<noteq> MaxUint64" and
      app: "ValidateAppend (ledger_sources db (cr_TenantId req)) s c = None" and
      fresh: "\<not> (\<exists>row \<in> set (led_rows db). or_TenantID row = src_TenantID s \<and> or_ID row = src_ID s)" and
      rest: "rc = \<lparr>ovr_Source = s, ovr_SourceVersion = version_of db (cr_TenantId req) + 1\<rparr>"
        "db' = written db (source_row s # led_rows db) (cr_TenantId req) (cr_RequestId req) hash
         (create_audit subject at req (version_of db (cr_TenantId req)) s) rc"
    by (auto simp: create_tx_def repo_Lock_ok [OF inv] receipt repo_Insert_def repo_Advance_def repo_Audit_def repo_SaveReceipt_def
        fromCreate_source written_def source_row_def create_audit_def Let_def split: if_splits option.splits)
  from fresh have "\<not> (or_TenantID row = cr_TenantId req \<and> or_ID row = nid)" if "row \<in> set (led_rows db)" for row
    using that fromCreate_source(1,2) [OF s] by auto
  with None s v app rest show thesis using Fresh by blast
qed

lemma append_single_replacement:
  assumes "single_replacement ss" "append_conflicts ss s = None"
  shows "single_replacement (s # ss)"
proof -
  have new: "\<not> (Source_Active r at \<and> Source_Active s at)" if "r \<in> set ss" "replacement_rivals r s" for r at
    by (rule rivals_disjoint [OF assms(2) that])
  have "\<not> (Source_Active a at \<and> Source_Active b at)"
    if ab: "a \<in> set (s # ss)" "b \<in> set (s # ss)" "src_ID a \<noteq> src_ID b" "replacement_rivals a b" for a b at
  proof -
    consider "a = s" "b \<in> set ss" | "b = s" "a \<in> set ss" | "a \<in> set ss" "b \<in> set ss" using ab(1-3) by auto
    then show ?thesis
    proof cases
      case 1
      with new [of b at] ab(4) replacement_rivals_sym [of s b] show ?thesis by blast
    next
      case 2
      with new [of a at] ab(4) show ?thesis by blast
    next
      case 3
      with assms(1) ab(3,4) show ?thesis unfolding single_replacement_def by blast
    qed
  qed
  then show ?thesis unfolding single_replacement_def by blast
qed

lemma ledger_sources_set:
  "set (ledger_sources db tenant) = set (map or_Payload (filter (\<lambda>row. or_TenantID row = tenant) (led_rows db)))"
  by simp

lemma single_replacement_set: "set ss = set ss' \<Longrightarrow> single_replacement ss = single_replacement ss'"
  by (simp add: single_replacement_def)

lemma create_tx_inv:
  assumes inv: "led_inv db" and ok: "create_tx c hash nid at subject req db = Inr (rc, db')"
  shows "led_inv db'"
  using inv ok
proof (cases rule: create_tx_cases)
  case Replay
  with inv show ?thesis by simp
next
  case (Fresh s)
  note s = fromCreate_source [OF Fresh(2)]
  let ?t = "cr_TenantId req"
  have row: "row_ok (source_row s)" using s by (simp add: row_ok_def source_row_def)
  have no: "append_conflicts (ledger_sources db ?t) s = None" using Fresh(5) by (auto simp: ValidateAppend_def split: option.splits)
  have fresh: "\<forall>row \<in> set (led_rows db). \<not> (or_TenantID row = ?t \<and> or_ID row = nid)" using Fresh(6) by blast
  have single: "single_replacement (ledger_sources db' t)" for t
  proof (cases "t = ?t")
    case True
    have "set (ledger_sources db' t) = set (s # ledger_sources db ?t)"
      using True s unfolding ledger_sources_set list.set by (simp add: Fresh(8) source_row_def)
    with append_single_replacement [OF led_invD(7) [OF inv] no] single_replacement_set show ?thesis by blast
  next
    case False
    then have "set (ledger_sources db' t) = set (ledger_sources db t)" using s by (auto simp: Fresh(8) source_row_def)
    with led_invD(7) [OF inv] single_replacement_set show ?thesis by blast
  qed
  show ?thesis unfolding Fresh(8)
  proof (rule written_inv [OF inv])
    show "version_of db ?t \<noteq> - 1" by (rule Fresh(4))
    show "aud_TenantID (create_audit subject at req (version_of db ?t) s) = ?t" using s by (simp add: create_audit_def)
    show "src_TenantID (ovr_Source rc) = ?t" using s Fresh(7) by simp
    show "row_ok r \<and> (or_TenantID r = ?t \<or> r \<in> set (led_rows db))" if "r \<in> set (source_row s # led_rows db)" for r
      using that row led_invD(2) [OF inv] s by (auto simp: source_row_def)
    show "distinct (map (\<lambda>row. (or_TenantID row, or_ID row)) (source_row s # led_rows db))"
      using led_invD(4) [OF inv] fresh s by (auto simp: source_row_def)
    show "single_replacement (ledger_sources (written db (source_row s # led_rows db) ?t (cr_RequestId req) hash
         (create_audit subject at req (version_of db ?t) s) rc) t)" for t using single by (simp only: Fresh(8) [symmetric])
  qed
qed

definition revoke_audit :: "string \<Rightarrow> time \<Rightarrow> RevokeRequest \<Rightarrow> uint64 \<Rightarrow> Source \<Rightarrow> Source \<Rightarrow> EntitlementAudit" where
  "revoke_audit subject at req v before current = \<lparr>aud_TenantID = rr_TenantId req, aud_ActorID = subject, aud_Action = ''revoke'',
     aud_Reason = rr_Reason req, aud_RequestID = rr_RequestId req, aud_BeforeVersion = v,
     aud_AfterVersion = v + 1, aud_Before = Some before, aud_After = current, aud_At = at\<rparr>"

text \<open>The row of the source, and no other, carries its revocation.\<close>

definition revoke_row :: "Source \<Rightarrow> Source \<Rightarrow> overrideRow \<Rightarrow> overrideRow" where
  "revoke_row before current row =
     (if or_TenantID row = src_TenantID before \<and> or_ID row = src_ID before
      then row\<lparr>or_Payload := current, or_Version := src_Version current\<rparr> else row)"

lemma distinct_key_filter:
  assumes "distinct (map f xs)" "x \<in> set xs"
  shows "filter (\<lambda>y. f y = f x) xs = [x]"
  using assms
proof (induction xs)
  case (Cons y ys)
  have "filter (\<lambda>z. f z = f y) ys = []" using Cons.prems(1) by (auto simp: filter_empty_conv) (metis image_eqI)
  with Cons show ?case by auto
qed simp

lemma find_SomeD: "find P xs = Some x \<Longrightarrow> x \<in> set xs \<and> P x"
  by (induction xs) (auto split: if_splits)

lemma find_override:
  assumes inv: "led_inv db" and f: "find (\<lambda>s. \<not> (src_ID s \<noteq> sid \<or> src_SourceKind s \<noteq> OverrideSource)) (ledger_sources db tenant) = Some s"
  obtains row where "row \<in> set (led_rows db)" "or_TenantID row = tenant" "or_ID row = sid" "or_Payload row = s" "row_ok row"
proof -
  from f have "s \<in> set (ledger_sources db tenant)" "src_ID s = sid" using find_SomeD [OF f] by blast+
  then obtain row where "row \<in> set (led_rows db)" "or_TenantID row = tenant" "or_Payload row = s" by auto
  with led_invD(2) [OF inv this(1)] \<open>src_ID s = sid\<close> show thesis using that by (auto simp: row_ok_def)
qed

lemma repo_Revoke_ok:
  assumes inv: "led_inv db" and row: "row \<in> set (led_rows db)" "or_Payload row = before"
    and cur: "src_TenantID current = src_TenantID before" "src_ID current = src_ID before"
  shows "repo_Revoke db current (src_Version before) = Inr (db\<lparr>led_rows := map (revoke_row before current) (led_rows db)\<rparr>)"
proof -
  note ok = led_invD(2) [OF inv row(1), unfolded row_ok_def row(2)]
  have one: "filter (\<lambda>r. (or_TenantID r, or_ID r) = (or_TenantID row, or_ID row)) (led_rows db) = [row]"
    by (rule distinct_key_filter [OF led_invD(4) [OF inv] row(1)])
  have hit: "(or_TenantID r = src_TenantID current \<and> or_ID r = src_ID current \<and> or_Version r = src_Version before) \<longleftrightarrow>
      or_TenantID r = src_TenantID before \<and> or_ID r = src_ID before" if "r \<in> set (led_rows db)" for r
  proof -
    have "r = row" if "or_TenantID r = src_TenantID before" "or_ID r = src_ID before"
    proof -
      have "r \<in> set (filter (\<lambda>r. (or_TenantID r, or_ID r) = (or_TenantID row, or_ID row)) (led_rows db))"
        using that ok \<open>r \<in> set (led_rows db)\<close> by simp
      then show ?thesis unfolding one by simp
    qed
    then show ?thesis using ok cur by auto
  qed
  have "filter (\<lambda>r. or_TenantID r = src_TenantID current \<and> or_ID r = src_ID current \<and> or_Version r = src_Version before) (led_rows db) =
      filter (\<lambda>r. (or_TenantID r, or_ID r) = (or_TenantID row, or_ID row)) (led_rows db)"
    using hit ok by (intro filter_cong) auto
  then have "length (filter (\<lambda>r. or_TenantID r = src_TenantID current \<and> or_ID r = src_ID current \<and> or_Version r = src_Version before)
      (led_rows db)) = 1" unfolding one by simp
  moreover have "map (\<lambda>r. if or_TenantID r = src_TenantID current \<and> or_ID r = src_ID current \<and> or_Version r = src_Version before
      then r\<lparr>or_Payload := current, or_Version := src_Version current\<rparr> else r) (led_rows db) = map (revoke_row before current) (led_rows db)"
    using hit by (intro map_cong) (simp_all add: revoke_row_def)
  ultimately show ?thesis by (simp add: repo_Revoke_def Let_def)
qed

lemma revoke_tx_cases [consumes 2]:
  assumes inv: "led_inv db" and ok: "revoke_tx hash at subject req db = Inr (rc, db')"
  obtains (Replay) "led_receipts db (rr_TenantId req, rr_RequestId req) = Some (hash, rc)" "db' = db"
  | (Fresh) row before current where "led_receipts db (rr_TenantId req, rr_RequestId req) = None"
      "version_of db (rr_TenantId req) = rr_ExpectedVersion req" "version_of db (rr_TenantId req) \<noteq> MaxUint64"
      "row \<in> set (led_rows db)" "or_TenantID row = rr_TenantId req" "or_ID row = rr_Id req" "or_Payload row = before"
      "src_RevokedAt before = None" "current = before\<lparr>src_RevokedAt := Some at, src_Version := 2\<rparr>"
      "rc = \<lparr>ovr_Source = current, ovr_SourceVersion = version_of db (rr_TenantId req) + 1\<rparr>"
      "db' = written db (map (revoke_row before current) (led_rows db)) (rr_TenantId req) (rr_RequestId req) hash
         (revoke_audit subject at req (version_of db (rr_TenantId req)) before current) rc"
proof (cases "led_receipts db (rr_TenantId req, rr_RequestId req)")
  case (Some x)
  then obtain fp rc' where x: "x = (fp, rc')" by (cases x)
  have "initialised db (rr_TenantId req) = db" using Some x led_invD(8) [OF inv] initialised_same by blast
  then have "fp = hash" "rc = rc'" "db' = db" using ok Some x
    by (auto simp: revoke_tx_def repo_Lock_ok [OF inv] repo_Receipt_ok [OF inv] split: if_splits)
  with Some x show thesis using Replay by simp
next
  case None
  note inv' = initialised_inv [OF inv, of "rr_TenantId req"]
  from ok None obtain before where v: "version_of db (rr_TenantId req) = rr_ExpectedVersion req" and
      f: "find (\<lambda>s. \<not> (src_ID s \<noteq> rr_Id req \<or> src_SourceKind s \<noteq> OverrideSource)) (ledger_sources db (rr_TenantId req)) = Some before"
        "src_RevokedAt before = None"
    by (auto simp: revoke_tx_def repo_Lock_ok [OF inv] repo_Receipt_ok [OF inv'] split: if_splits option.splits)
  obtain row where row: "row \<in> set (led_rows db)" "or_TenantID row = rr_TenantId req" "or_ID row = rr_Id req" "or_Payload row = before"
      "row_ok row" using find_override [OF inv f(1)] by blast
  define current where "current = before\<lparr>src_RevokedAt := Some at, src_Version := 2\<rparr>"
  have old: "src_Version before + 1 = 2" using row(4,5) f(2) by (simp add: row_ok_def)
  have upd: "repo_Revoke (initialised db (rr_TenantId req)) current (src_Version before) =
      Inr ((initialised db (rr_TenantId req))\<lparr>led_rows := map (revoke_row before current) (led_rows db)\<rparr>)"
    using repo_Revoke_ok [OF inv', of row before current] row by (simp add: current_def)
  have rest: "version_of db (rr_TenantId req) \<noteq> MaxUint64"
      "rc = \<lparr>ovr_Source = current, ovr_SourceVersion = version_of db (rr_TenantId req) + 1\<rparr>"
      "db' = written db (map (revoke_row before current) (led_rows db)) (rr_TenantId req) (rr_RequestId req) hash
         (revoke_audit subject at req (version_of db (rr_TenantId req)) before current) rc"
    using ok None v f old upd
    by (auto simp: revoke_tx_def repo_Lock_ok [OF inv] repo_Receipt_ok [OF inv'] repo_Advance_def repo_Audit_def repo_SaveReceipt_def
        written_def revoke_audit_def Let_def current_def [symmetric] split: if_splits)
  show thesis by (rule Fresh [OF None v rest(1) row(1-4) f(2) current_def rest(2,3)])
qed

lemma revoked_active: "src_RevokedAt s = None \<Longrightarrow> Source_Active (s\<lparr>src_RevokedAt := Some r, src_Version := v\<rparr>) at \<Longrightarrow> Source_Active s at"
  by (simp add: Source_Active_iff)

lemma revoked_shape:
  assumes "Source_ValidateShape s = None" "\<not> IsZero r" "Nanosecond r mod 1000 = 0"
  shows "Source_ValidateShape (s\<lparr>src_RevokedAt := Some r, src_Version := 2\<rparr>) = None"
proof -
  have "shape_common s" using assms(1) by (auto simp: Source_ValidateShape_def split: if_splits)
  then have "shape_common (s\<lparr>src_RevokedAt := Some r, src_Version := 2\<rparr>)" using assms(2,3)
    by (simp add: shape_common_def optional_def)
  with \<open>shape_common s\<close> have "Source_ValidateShape (s\<lparr>src_RevokedAt := Some r, src_Version := 2\<rparr>) = Source_ValidateShape s"
    by (simp add: Source_ValidateShape_def shape_effect_def)
  with assms(1) show ?thesis by simp
qed

lemma revoke_row_fields [simp]:
  "or_TenantID (revoke_row before current row) = or_TenantID row" "or_ID (revoke_row before current row) = or_ID row"
  by (simp_all add: revoke_row_def)

lemma revoke_tx_inv:
  assumes inv: "led_inv db" and ok: "revoke_tx hash at subject req db = Inr (rc, db')"
    and at: "\<not> IsZero at" "Nanosecond at mod 1000 = 0"
  shows "led_inv db'"
  using inv ok
proof (cases rule: revoke_tx_cases)
  case Replay
  with inv show ?thesis by simp
next
  case (Fresh row before current)
  let ?t = "rr_TenantId req" and ?f = "revoke_row before current"
  have b: "row_ok row" using led_invD(2) [OF inv Fresh(4)] .
  then have shape: "Source_ValidateShape current = None"
    using at Fresh(7,8) by (auto simp: Fresh(9) row_ok_def intro: revoked_shape)
  have only: "?f r = (if r = row then row\<lparr>or_Payload := current, or_Version := 2\<rparr> else r)" if "r \<in> set (led_rows db)" for r
  proof -
    have "(or_TenantID r, or_ID r) = (or_TenantID row, or_ID row) \<longleftrightarrow> r = row"
      using led_invD(4) [OF inv] that Fresh(4) by (auto simp: distinct_map inj_on_def)
    then show ?thesis using b Fresh(7) by (auto simp: revoke_row_def row_ok_def Fresh(9))
  qed
  have payload: "or_Payload (?f r) = or_Payload r \<or> r = row \<and> or_Payload (?f r) = current" if "r \<in> set (led_rows db)" for r
    using only [OF that] by auto
  have static: "src_ID (or_Payload (?f r)) = src_ID (or_Payload r)"
      "replacement_rivals (or_Payload (?f r)) x = replacement_rivals (or_Payload r) x"
      "Source_Active (or_Payload (?f r)) t' \<Longrightarrow> Source_Active (or_Payload r) t'" if "r \<in> set (led_rows db)" for r x t'
    using payload [OF that] Fresh(7,8) by (auto simp: Fresh(9) replacement_rivals_def intro: revoked_active)
  have static2: "replacement_rivals x (or_Payload (?f r)) = replacement_rivals x (or_Payload r)" if "r \<in> set (led_rows db)" for r x
    using static(2) [OF that, of x] by (simp add: replacement_rivals_sym [of x])
  have disjoint: "\<not> (Source_Active (or_Payload (?f r)) t' \<and> Source_Active (or_Payload (?f r')) t')"
    if r: "r \<in> set (led_rows db)" "r' \<in> set (led_rows db)" "or_TenantID r = or_TenantID r'"
      "src_ID (or_Payload (?f r)) \<noteq> src_ID (or_Payload (?f r'))" "replacement_rivals (or_Payload (?f r)) (or_Payload (?f r'))" for r r' t'
  proof -
    have "replacement_rivals (or_Payload r) (or_Payload r')" "src_ID (or_Payload r) \<noteq> src_ID (or_Payload r')"
      using r(4,5) static(1) [OF r(1)] static(1) [OF r(2)] static(2) [OF r(1)] static2 [OF r(2)] by simp_all
    then have "\<not> (Source_Active (or_Payload r) t' \<and> Source_Active (or_Payload r') t')"
      using led_invD(7) [OF inv, of "or_TenantID r'", unfolded single_replacement_rows] r(1-3) by blast
    then show ?thesis using static(3) [OF r(1)] static(3) [OF r(2)] by blast
  qed
  have single: "single_replacement (ledger_sources db' t)" for t
  proof -
    have "\<forall>row \<in> ?f ` set (led_rows db). \<forall>row' \<in> ?f ` set (led_rows db). \<forall>at. or_TenantID row = t \<longrightarrow> or_TenantID row' = t \<longrightarrow>
        src_ID (or_Payload row) \<noteq> src_ID (or_Payload row') \<longrightarrow> replacement_rivals (or_Payload row) (or_Payload row') \<longrightarrow>
        \<not> (Source_Active (or_Payload row) at \<and> Source_Active (or_Payload row') at)"
      using disjoint by (force simp only: ball_simps revoke_row_fields)
    then show ?thesis unfolding single_replacement_rows Fresh(11) written_fields set_map .
  qed
  show ?thesis unfolding Fresh(11)
  proof (rule written_inv [OF inv])
    show "version_of db ?t \<noteq> - 1" by (rule Fresh(3))
    show "aud_TenantID (revoke_audit subject at req (version_of db ?t) before current) = ?t" by (simp add: revoke_audit_def)
    show "src_TenantID (ovr_Source rc) = ?t" using b Fresh(5,7) by (simp add: Fresh(10,9) row_ok_def)
    show "row_ok r \<and> (or_TenantID r = ?t \<or> r \<in> set (led_rows db))" if "r \<in> set (map ?f (led_rows db))" for r
      using that only shape b Fresh(5,7) led_invD(2) [OF inv] by (auto simp: row_ok_def Fresh(9))
    show "distinct (map (\<lambda>row. (or_TenantID row, or_ID row)) (map ?f (led_rows db)))"
      using led_invD(4) [OF inv] by (simp add: comp_def)
    show "single_replacement (ledger_sources (written db (map ?f (led_rows db)) ?t (rr_RequestId req) hash
         (revoke_audit subject at req (version_of db ?t) before current) rc) t)" for t using single by (simp only: Fresh(11) [symmetric])
  qed
qed

section \<open>Steps of the ledger\<close>

text \<open>
  One transaction after the other, in any order: a create, a revoke, or a snapshot read that may
  materialise a new version of the snapshot under the same lock.
\<close>

inductive led_step :: "Ledger \<Rightarrow> Ledger \<Rightarrow> bool" where
  create: "CreateEntitlementOverride get_tenant catalog fingerprint nid at ctx req db = Inr (rc, db') \<Longrightarrow> led_step db db'"
| revoke: "RevokeEntitlementOverride get_tenant fingerprint at ctx req db = Inr (rc, db') \<Longrightarrow>
     \<not> IsZero (Truncate at Microsecond) \<Longrightarrow> led_step db db'"
| snapshot: "repo_Lock db tenant = Inr (state, db1) \<Longrightarrow>
     i = \<lparr>si_epoch = led_epoch db, si_version = es_Version state, si_sources = es_Sources state, si_catalog = c, si_at = at\<rparr> \<Longrightarrow>
     locked unmarshal cache (led_snapshots db1) tenant i = Inr (r, ss) \<Longrightarrow> led_step db (db1\<lparr>led_snapshots := ss\<rparr>)"

definition new_ledger :: "uint64 \<Rightarrow> Ledger" where
  "new_ledger epoch = \<lparr>led_epoch = epoch, led_versions = Map.empty, led_rows = [], led_receipts = Map.empty, led_audit = [],
     led_snapshots = \<lparr>db_heads = Map.empty, db_rows = []\<rparr>\<rparr>"

lemma led_inv_new: "epoch \<noteq> 0 \<Longrightarrow> led_inv (new_ledger epoch)"
  by (simp add: led_inv_def new_ledger_def version_of_def audits_def tenant_rows_def single_replacement_def)

lemma Truncate_micro: "Nanosecond (Truncate at Microsecond) mod 1000 = 0"
  by (simp add: Nanosecond_mod_1000 Truncate_def Microsecond_def minus_mod_eq_mult_div)

lemma Create_Inr:
  assumes "CreateEntitlementOverride get_tenant catalog fingerprint nid at ctx req db = Inr (rc, db')"
  obtains p c where "actor ctx True = Inr p" "validWrite (cr_RequestId req) (cr_Reason req)" "checkTenant get_tenant (cr_TenantId req) = None"
    "catalog = Inr c" "Catalog_Validate c = None"
    "create_tx c (fingerprint (pr_Subject p) req) nid (Truncate at Microsecond) (pr_Subject p) req db = Inr (rc, db')"
  using assms by (auto simp: CreateEntitlementOverride_def split: if_splits option.splits)

lemma Revoke_Inr:
  assumes "RevokeEntitlementOverride get_tenant fingerprint at ctx req db = Inr (rc, db')"
  obtains p where "actor ctx True = Inr p" "validWrite (rr_RequestId req) (rr_Reason req)" "token (rr_Id req) 128"
    "checkTenant get_tenant (rr_TenantId req) = None"
    "revoke_tx (fingerprint (pr_Subject p) req) (Truncate at Microsecond) (pr_Subject p) req db = Inr (rc, db')"
  using assms by (auto simp: RevokeEntitlementOverride_def split: if_splits option.splits)

lemma locked_rows:
  assumes l: "locked unmarshal cache ss tenant i = Inr (r, ss')" and row: "row \<in> set (db_rows ss')"
  shows "row \<in> set (db_rows ss) \<or> row_TenantID row = tenant"
  using l
proof (cases rule: locked_cases)
  case Hit
  with row show ?thesis by simp
next
  case Miss
  from Miss(3) show ?thesis by (rule materialize_Inr) (use row in auto)
qed

lemma snapshot_inv:
  assumes inv: "led_inv db" and known: "led_versions db tenant \<noteq> None"
    and l: "locked unmarshal cache (led_snapshots db) tenant i = Inr (r, ss)"
  shows "led_inv (db\<lparr>led_snapshots := ss\<rparr>)"
proof -
  have "led_versions db (row_TenantID row) \<noteq> None" if "row \<in> set (db_rows ss)" for row
    using locked_rows [OF l that] led_invD(5) [OF inv, of row] known by auto
  with inv show ?thesis unfolding led_inv_def by (simp add: version_of_def audits_def tenant_rows_def)
qed

lemma led_step_inv: "led_step db db' \<Longrightarrow> led_inv db \<Longrightarrow> led_inv db'"
proof (induction rule: led_step.induct)
  case (create get_tenant catalog fingerprint nid at ctx req db rc db')
  from create(1) show ?case by (rule Create_Inr) (use create_tx_inv [OF create(2)] in blast)
next
  case (revoke get_tenant fingerprint at ctx req db rc db')
  from revoke(1) show ?case by (rule Revoke_Inr) (use revoke_tx_inv [OF revoke(3)] revoke(2) Truncate_micro in blast)
next
  case (snapshot db tenant state db1 i c at unmarshal cache r ss)
  then have "db1 = initialised db tenant" by (simp add: repo_Lock_ok)
  with initialised_inv [OF snapshot(4)] have "led_inv db1" "led_versions db1 tenant \<noteq> None" by simp_all
  then show ?case using snapshot(3) by (rule snapshot_inv)
qed

lemma led_reachable_inv: "led_step\<^sup>*\<^sup>* (new_ledger epoch) db \<Longrightarrow> epoch \<noteq> 0 \<Longrightarrow> led_inv db"
  by (induction rule: rtranclp_induct) (auto intro: led_inv_new led_step_inv)

text \<open>Receipts are final, revoked sources are final, and the audit log only grows.\<close>

lemma create_tx_keeps:
  assumes inv: "led_inv db" and ok: "create_tx c hash nid at subject req db = Inr (rc, db')"
  shows "led_receipts db k = Some x \<Longrightarrow> led_receipts db' k = Some x" "row \<in> set (led_rows db) \<Longrightarrow> row \<in> set (led_rows db')"
    "audits db t \<le> audits db' t" "led_receipts db' (cr_TenantId req, cr_RequestId req) = Some (hash, rc)"
  using inv ok by (cases rule: create_tx_cases; auto)+

lemma revoke_row_other:
  assumes inv: "led_inv db" and rows: "row \<in> set (led_rows db)" "r \<in> set (led_rows db)" "r \<noteq> row"
  shows "revoke_row (or_Payload row) current r = r"
proof -
  have "(or_TenantID r, or_ID r) \<noteq> (or_TenantID row, or_ID row)"
    using led_invD(4) [OF inv] rows by (auto simp: distinct_map inj_on_def)
  then show ?thesis using led_invD(2) [OF inv rows(1)] by (auto simp: revoke_row_def row_ok_def)
qed

lemma revoke_tx_keeps:
  assumes inv: "led_inv db" and ok: "revoke_tx hash at subject req db = Inr (rc, db')"
  shows "led_receipts db k = Some x \<Longrightarrow> led_receipts db' k = Some x"
    "row \<in> set (led_rows db) \<Longrightarrow> src_RevokedAt (or_Payload row) \<noteq> None \<Longrightarrow> row \<in> set (led_rows db')"
    "audits db t \<le> audits db' t" "led_receipts db' (rr_TenantId req, rr_RequestId req) = Some (hash, rc)"
proof -
  show "led_receipts db k = Some x \<Longrightarrow> led_receipts db' k = Some x" "audits db t \<le> audits db' t"
    "led_receipts db' (rr_TenantId req, rr_RequestId req) = Some (hash, rc)"
    using inv ok by (cases rule: revoke_tx_cases; auto)+
  assume row: "row \<in> set (led_rows db)" "src_RevokedAt (or_Payload row) \<noteq> None"
  from inv ok show "row \<in> set (led_rows db')"
  proof (cases rule: revoke_tx_cases)
    case Replay
    with row show ?thesis by simp
  next
    case (Fresh target before current)
    have "revoke_row before current row = row" unfolding Fresh(7) [symmetric]
      by (rule revoke_row_other [OF inv Fresh(4) row(1)]) (use row(2) Fresh(7,8) in auto)
    with row(1) show ?thesis unfolding Fresh(11) by (simp add: image_iff) metis
  qed
qed

lemma led_step_keeps:
  assumes "led_step db db'" "led_inv db"
  shows "(led_receipts db k = Some x \<longrightarrow> led_receipts db' k = Some x) \<and> audits db t \<le> audits db' t \<and>
    (row \<in> set (led_rows db) \<and> src_RevokedAt (or_Payload row) \<noteq> None \<longrightarrow> row \<in> set (led_rows db'))"
  using assms
proof (induction rule: led_step.induct)
  case (create get_tenant catalog fingerprint nid at ctx req db rc db')
  from create(1) obtain p :: Principal and c where
    "create_tx c (fingerprint (pr_Subject p) req) nid (Truncate at Microsecond) (pr_Subject p) req db = Inr (rc, db')" by (rule Create_Inr)
  from create_tx_keeps(1-3) [OF create(2) this] show ?case by blast
next
  case (revoke get_tenant fingerprint at ctx req db rc db')
  from revoke(1) obtain p :: Principal where
    "revoke_tx (fingerprint (pr_Subject p) req) (Truncate at Microsecond) (pr_Subject p) req db = Inr (rc, db')" by (rule Revoke_Inr)
  from revoke_tx_keeps(1-3) [OF revoke(3) this] show ?case by blast
next
  case (snapshot db tenant state db1 i c at unmarshal cache r ss)
  then have "db1 = initialised db tenant" by (simp add: repo_Lock_ok)
  then show ?case by (simp add: audits_def)
qed

lemma led_steps_keep:
  assumes "led_step\<^sup>*\<^sup>* db db'" "led_inv db"
  shows "led_inv db' \<and> audits db t \<le> audits db' t \<and>
    (row \<in> set (led_rows db) \<and> src_RevokedAt (or_Payload row) \<noteq> None \<longrightarrow> row \<in> set (led_rows db')) \<and>
    (led_receipts db k = Some x \<longrightarrow> led_receipts db' k = Some x)"
  using assms
proof (induction rule: rtranclp_induct)
  case (step db1 db2)
  then show ?case using led_step_inv [OF step(2)] led_step_keeps [OF step(2)] order_trans by blast
qed simp

section \<open>Exactly-once writes\<close>

definition subject_of :: "Principal option \<Rightarrow> string" where
  "subject_of ctx = (case ctx of None \<Rightarrow> '''' | Some p \<Rightarrow> pr_Subject p)"

lemma actor_subject: "actor ctx platform = Inr p \<Longrightarrow> pr_Subject p = subject_of ctx"
  by (auto simp: actor_def subject_of_def split: option.splits if_splits)

lemma create_tx_replays:
  assumes "led_inv db" "led_receipts db (cr_TenantId req, cr_RequestId req) = Some (fp, rc)"
  shows "create_tx c hash nid at subject req db =
    (if fp = hash then Inr (rc, db) else Inl (Led_Ent Ent_ErrRequestConflict))"
proof -
  have "initialised db (cr_TenantId req) = db" using assms led_invD(8) initialised_same by blast
  with assms show ?thesis by (simp add: create_tx_def repo_Lock_ok repo_Receipt_ok bind_result_def)
qed

lemma revoke_tx_replays:
  assumes "led_inv db" "led_receipts db (rr_TenantId req, rr_RequestId req) = Some (fp, rc)"
  shows "revoke_tx hash at subject req db =
    (if fp = hash then Inr (rc, db) else Inl (Led_Ent Ent_ErrRequestConflict))"
proof -
  have "initialised db (rr_TenantId req) = db" using assms led_invD(8) initialised_same by blast
  with assms show ?thesis by (simp add: revoke_tx_def repo_Lock_ok repo_Receipt_ok bind_result_def)
qed

lemma Create_unfold:
  assumes "actor ctx True = Inr p" "validWrite (cr_RequestId req) (cr_Reason req)" "checkTenant get_tenant (cr_TenantId req) = None"
    "catalog = Inr c" "Catalog_Validate c = None"
  shows "CreateEntitlementOverride get_tenant catalog fingerprint nid at ctx req db =
    create_tx c (fingerprint (subject_of ctx) req) nid (Truncate at Microsecond) (subject_of ctx) req db"
  using assms by (simp add: CreateEntitlementOverride_def bind_result_def actor_subject)

lemma Revoke_unfold:
  assumes "actor ctx True = Inr p" "validWrite (rr_RequestId req) (rr_Reason req)" "token (rr_Id req) 128"
    "checkTenant get_tenant (rr_TenantId req) = None"
  shows "RevokeEntitlementOverride get_tenant fingerprint at ctx req db =
    revoke_tx (fingerprint (subject_of ctx) req) (Truncate at Microsecond) (subject_of ctx) req db"
  using assms by (simp add: RevokeEntitlementOverride_def bind_result_def actor_subject)

interpretation create_once: receipted
  "\<lambda>(nid, at, req). CreateEntitlementOverride get_tenant catalog fingerprint nid at ctx req" led_receipts
  "\<lambda>(nid, at, req). (cr_TenantId req, cr_RequestId req)" "\<lambda>(nid, at, req). fingerprint (subject_of ctx) req"
  "\<lambda>(nid, at, req) (nid', at', req'). req' = req" "\<lambda>_. True" led_inv led_step
  for get_tenant catalog fingerprint ctx
proof (unfold_locales, goal_cases)
  case (1 db r rc db')
  then show ?case by (cases r rule: prod_cases3) (auto intro: led_step.create)
next
  case (2 db r rc db')
  then show ?case by (cases r rule: prod_cases3) (auto elim!: Create_Inr dest: create_tx_keeps(4) simp: actor_subject)
next
  case (3 db db')
  then show ?case using led_step_inv by blast
next
  case (4 db db' k x)
  then show ?case using led_step_keeps by blast
next
  case (5 db r db1 y r' rc)
  then show ?case by (cases y; cases r rule: prod_cases3; cases r' rule: prod_cases3) (auto elim!: Create_Inr simp: Create_unfold create_tx_replays)
qed

interpretation revoke_once: receipted
  "\<lambda>(at, req). RevokeEntitlementOverride get_tenant fingerprint at ctx req" led_receipts
  "\<lambda>(at, req). (rr_TenantId req, rr_RequestId req)" "\<lambda>(at, req). fingerprint (subject_of ctx) req"
  "\<lambda>(at, req) (at', req'). req' = req" "\<lambda>(at, req). \<not> IsZero (Truncate at Microsecond)" led_inv led_step
  for get_tenant fingerprint ctx
proof (unfold_locales, goal_cases)
  case (1 db r rc db')
  then show ?case by (cases r) (auto intro: led_step.revoke)
next
  case (2 db r rc db')
  then show ?case by (cases r) (auto elim!: Revoke_Inr dest: revoke_tx_keeps(4) simp: actor_subject)
next
  case (3 db db')
  then show ?case using led_step_inv by blast
next
  case (4 db db' k x)
  then show ?case using led_step_keeps by blast
next
  case (5 db r db1 y r' rc)
  then show ?case by (cases y; cases r; cases r') (auto elim!: Revoke_Inr simp: Revoke_unfold revoke_tx_replays)
qed

section \<open>Properties of the ledger\<close>

lemma new_ledger_steps: "led_step\<^sup>*\<^sup>* (new_ledger epoch) db \<Longrightarrow> epoch \<noteq> 0 \<Longrightarrow> led_step db db1 \<Longrightarrow> led_inv db1"
  using led_reachable_inv led_step_inv by blast

definition ex_ctx :: "Principal option" where
  "ex_ctx = Some \<lparr>pr_Authenticated = True, pr_Subject = ''ops'', pr_TenantID = ''''\<rparr>"

definition ex_create :: "string \<Rightarrow> CreateRequest" where
  "ex_create key = \<lparr>cr_TenantId = ''t1'', cr_RequestId = key, cr_ExpectedVersion = 0, cr_ModuleCode = ''crm'', cr_Target = TargetQuota,
     cr_Key = ''seats'', cr_FieldAction = '''', cr_Effect = EffectQuotaReplace, cr_Limit = Some \<lparr>Unlimited = False, Value = 5\<rparr>,
     cr_EffectiveAt = NoTime, cr_ExpiresAt = NoTime, cr_Reason = ''more seats''\<rparr>"

definition ex_revoke :: "string \<Rightarrow> RevokeRequest" where
  "ex_revoke key = \<lparr>rr_TenantId = ''t1'', rr_RequestId = key, rr_Id = ''o1'', rr_ExpectedVersion = 1, rr_Reason = ''done''\<rparr>"

abbreviation ex_run :: "string \<Rightarrow> CreateRequest \<Rightarrow> Ledger \<Rightarrow> led_error + OverrideReceipt \<times> Ledger" where
  "ex_run nid \<equiv> CreateEntitlementOverride Inr (Inr ex_catalog) (\<lambda>_. cr_Reason) nid ex_at ex_ctx"

abbreviation ex_undo :: "RevokeRequest \<Rightarrow> Ledger \<Rightarrow> led_error + OverrideReceipt \<times> Ledger" where
  "ex_undo \<equiv> RevokeEntitlementOverride Inr (\<lambda>_. rr_Reason) ex_at ex_ctx"

definition ex_ledger :: Ledger where "ex_ledger = snd (projr (ex_run ''o1'' (ex_create ''r1'') (new_ledger 3)))"
definition ex_receipt :: OverrideReceipt where "ex_receipt = fst (projr (ex_run ''o1'' (ex_create ''r1'') (new_ledger 3)))"

lemma ex_created: "ex_run ''o1'' (ex_create ''r1'') (new_ledger 3) = Inr (ex_receipt, ex_ledger)"
proof -
  have "\<not> isl (ex_run ''o1'' (ex_create ''r1'') (new_ledger 3))" by code_simp
  then show ?thesis by (cases "ex_run ''o1'' (ex_create ''r1'') (new_ledger 3)") (auto simp: ex_ledger_def ex_receipt_def)
qed

lemma ex_revoked: "\<exists>rc db. ex_undo (ex_revoke ''r2'') ex_ledger = Inr (rc, db)"
proof -
  have "\<not> isl (ex_undo (ex_revoke ''r2'') ex_ledger)" by code_simp
  then show ?thesis by (cases "ex_undo (ex_revoke ''r2'') ex_ledger") auto
qed

lemma ex_clock: "\<not> IsZero (Truncate ex_at Microsecond)"
  by code_simp

lemma ex_revoke_step: "ex_undo (ex_revoke key) db = Inr (rc, db') \<Longrightarrow> led_step\<^sup>*\<^sup>* db db'"
  by (rule r_into_rtranclp, rule led_step.revoke, assumption, rule ex_clock)

lemma ex_steps: "led_step\<^sup>*\<^sup>* (new_ledger 3) ex_ledger"
  using led_step.create [OF ex_created] by blast

text \<open>
  A create is executed exactly once: whatever transactions follow, sending the same request
  again (with a new random identifier and a later clock) returns the first receipt and changes
  nothing.\<close>

lemma override_create_once:
  assumes "epoch \<noteq> 0" "led_step\<^sup>*\<^sup>* (new_ledger epoch) db"
    and "CreateEntitlementOverride get_tenant catalog fingerprint nid at ctx req db = Inr (rc, db1)" "led_step\<^sup>*\<^sup>* db1 db2"
  shows "CreateEntitlementOverride get_tenant catalog fingerprint nid' at' ctx req db2 = Inr (rc, db2)"
  using create_once.at_most_once [where req = "(nid, at, req)" and req' = "(nid', at', req)" and res = rc]
    assms(3,4) led_reachable_inv [OF assms(2,1)] by simp

lemma override_create_once_witness:
  "\<exists>rc db. ex_undo (ex_revoke ''r2'') ex_ledger = Inr (rc, db) \<and> ex_run ''o2'' (ex_create ''r1'') db = Inr (ex_receipt, db)"
  using ex_revoked ex_revoke_step override_create_once [of 3 "new_ledger 3", OF _ _ ex_created] by fastforce

text \<open>
  A request identifier belongs to one request: a create that reuses it with other content, or
  under another actor, is refused with the request conflict and changes nothing, at any later time.\<close>

lemma override_request_conflict:
  assumes "epoch \<noteq> 0" "led_step\<^sup>*\<^sup>* (new_ledger epoch) db"
    and "CreateEntitlementOverride get_tenant catalog fingerprint nid at ctx req db = Inr (rc, db1)" "led_step\<^sup>*\<^sup>* db1 db2"
    and "cr_TenantId req' = cr_TenantId req" "cr_RequestId req' = cr_RequestId req"
    and "actor ctx' True = Inr p" "validWrite (cr_RequestId req') (cr_Reason req')"
    and "fingerprint (subject_of ctx') req' \<noteq> fingerprint (subject_of ctx) req"
  shows "CreateEntitlementOverride get_tenant catalog fingerprint nid' at' ctx' req' db2 = Inl (Led_Ent Ent_ErrRequestConflict)"
proof -
  note inv = led_reachable_inv [OF assms(2,1)]
  obtain q c where q: "actor ctx True = Inr q" "checkTenant get_tenant (cr_TenantId req) = None" "catalog = Inr c" "Catalog_Validate c = None"
      "create_tx c (fingerprint (pr_Subject q) req) nid (Truncate at Microsecond) (pr_Subject q) req db = Inr (rc, db1)"
    using assms(3) by (rule Create_Inr)
  have "led_receipts db1 (cr_TenantId req, cr_RequestId req) = Some (fingerprint (subject_of ctx) req, rc)"
    using create_tx_keeps(4) [OF inv q(5)] actor_subject [OF q(1)] by simp
  with led_steps_keep [OF assms(4) create_tx_inv [OF inv q(5)]]
  have "led_inv db2" "led_receipts db2 (cr_TenantId req', cr_RequestId req') = Some (fingerprint (subject_of ctx) req, rc)"
    using assms(5,6) by auto
  then show ?thesis using q assms(5-9) Create_unfold [of ctx' p req' get_tenant catalog c] by (simp add: create_tx_replays)
qed

lemma override_request_conflict_witness:
  "ex_run ''o2'' ((ex_create ''r1'')\<lparr>cr_Reason := ''less seats''\<rparr>) ex_ledger = Inl (Led_Ent Ent_ErrRequestConflict)"
proof (rule override_request_conflict [of 3 "new_ledger 3", OF _ _ ex_created])
  show "actor ex_ctx True = Inr (the ex_ctx)" by (simp add: actor_def ex_ctx_def)
  show "validWrite (cr_RequestId ((ex_create ''r1'')\<lparr>cr_Reason := ''less seats''\<rparr>)) (cr_Reason ((ex_create ''r1'')\<lparr>cr_Reason := ''less seats''\<rparr>))"
    by code_simp
qed (simp_all add: ex_create_def)

text \<open>
  C12: of two writers that read the same version only one gets through. Once a create has gone
  through, a different request of the same tenant that expects the version it started from is
  refused with the version conflict, at any later time.\<close>

theorem override_stale_writer:
  assumes "epoch \<noteq> 0" "led_step\<^sup>*\<^sup>* (new_ledger epoch) db"
    and "CreateEntitlementOverride get_tenant catalog fingerprint nid at ctx req db = Inr (rc, db1)"
    and "led_receipts db (cr_TenantId req, cr_RequestId req) = None" "led_step\<^sup>*\<^sup>* db1 db2"
    and "cr_TenantId req' = cr_TenantId req" "cr_ExpectedVersion req' = cr_ExpectedVersion req"
    and "led_receipts db2 (cr_TenantId req', cr_RequestId req') = None"
    and "actor ctx' True = Inr p" "validWrite (cr_RequestId req') (cr_Reason req')"
  shows "CreateEntitlementOverride get_tenant catalog fingerprint nid' at' ctx' req' db2 = Inl (Led_Ent Ent_ErrConflict)"
proof -
  note inv = led_reachable_inv [OF assms(2,1)]
  let ?t = "cr_TenantId req"
  obtain q :: Principal and c where q: "checkTenant get_tenant ?t = None" "catalog = Inr c" "Catalog_Validate c = None"
      "create_tx c (fingerprint (pr_Subject q) req) nid (Truncate at Microsecond) (pr_Subject q) req db = Inr (rc, db1)"
    using assms(3) by (rule Create_Inr)
  have inv1: "led_inv db1" by (rule create_tx_inv [OF inv q(4)])
  have "version_of db ?t = cr_ExpectedVersion req" "audits db1 ?t = Suc (audits db ?t)"
    using inv q(4) assms(4) by (cases rule: create_tx_cases; auto simp: create_audit_def dest: fromCreate_source)+
  moreover have inv2: "led_inv db2" and "audits db1 ?t \<le> audits db2 ?t" using led_steps_keep [OF assms(5) inv1] by blast+
  ultimately have "version_of db2 ?t \<noteq> cr_ExpectedVersion req" using led_invD(6) [OF inv, of ?t] led_invD(6) [OF inv2, of ?t] by auto
  moreover have "repo_Receipt (initialised db2 ?t) ?t (cr_RequestId req') hash = Inr None" for hash
    using assms(6,8) repo_Receipt_ok [OF initialised_inv [OF inv2]] by simp
  ultimately show ?thesis using q(1-3) assms(6,7,9,10) Create_unfold [of ctx' p req' get_tenant catalog c]
    by (simp add: create_tx_def repo_Lock_ok [OF inv2] bind_result_def)
qed

theorem override_stale_writer_witness:
  "ex_run ''o2'' (ex_create ''r9'') ex_ledger = Inl (Led_Ent Ent_ErrConflict)"
proof (rule override_stale_writer [of 3 "new_ledger 3", OF _ _ ex_created])
  show "actor ex_ctx True = Inr (the ex_ctx)" by (simp add: actor_def ex_ctx_def)
  show "validWrite (cr_RequestId (ex_create ''r9'')) (cr_Reason (ex_create ''r9''))" by code_simp
  show "led_receipts ex_ledger (cr_TenantId (ex_create ''r9''), cr_RequestId (ex_create ''r9'')) = None" by code_simp
qed (simp_all add: ex_create_def new_ledger_def)

text \<open>
  C11: in every history the ledger is consistent: the version of a tenant counts its audit entries,
  every stored source is well formed, no two override replacements of one quota are ever active
  together, and the tenant can always be locked, which reads exactly those sources.\<close>

theorem override_ledger_consistent:
  assumes "epoch \<noteq> 0" "led_step\<^sup>*\<^sup>* (new_ledger epoch) db"
  shows "\<exists>state db'. repo_Lock db tenant = Inr (state, db') \<and> unat (es_Version state) = audits db tenant \<and>
    es_Sources state = ledger_sources db tenant \<and> single_replacement (es_Sources state) \<and>
    list_all (\<lambda>s. Source_ValidateShape s = None \<and> src_TenantID s = tenant) (es_Sources state)"
proof -
  note inv = led_reachable_inv [OF assms(2,1)]
  have "Source_ValidateShape s = None \<and> src_TenantID s = tenant" if s: "s \<in> set (ledger_sources db tenant)" for s
  proof -
    from s obtain row where "row \<in> set (led_rows db)" "or_TenantID row = tenant" "s = or_Payload row" by auto
    with led_invD(2) [OF inv this(1)] show ?thesis by (simp add: row_ok_def)
  qed
  then show ?thesis using led_invD(6,7) [OF inv, of tenant] by (simp add: repo_Lock_ok [OF inv] list_all_iff)
qed

theorem override_ledger_consistent_witness:
  "\<exists>state db'. repo_Lock ex_ledger ''t1'' = Inr (state, db') \<and> unat (es_Version state) = audits ex_ledger ''t1'' \<and>
    es_Sources state = ledger_sources ex_ledger ''t1'' \<and> single_replacement (es_Sources state) \<and>
    list_all (\<lambda>s. Source_ValidateShape s = None \<and> src_TenantID s = ''t1'') (es_Sources state)"
  by (rule override_ledger_consistent [of 3]) (use ex_steps in simp_all)

text \<open>
  A revocation is final. After a revoke has gone through, whatever transactions follow, the
  source is still in the ledger and is active at no instant from the revocation on.\<close>

lemma override_revocation_final:
  assumes "epoch \<noteq> 0" "led_step\<^sup>*\<^sup>* (new_ledger epoch) db"
    and ok: "RevokeEntitlementOverride get_tenant fingerprint at ctx req db = Inr (rc, db1)"
    and "\<not> IsZero (Truncate at Microsecond)" "led_receipts db (rr_TenantId req, rr_RequestId req) = None" "led_step\<^sup>*\<^sup>* db1 db2"
  shows "\<exists>s. filter (\<lambda>s. src_ID s = rr_Id req) (ledger_sources db2 (rr_TenantId req)) = [s] \<and>
    (\<forall>t. \<not> (Truncate at Microsecond \<le> t \<and> Source_Active s t))"
proof -
  note inv = led_reachable_inv [OF assms(2,1)]
  have inv1: "led_inv db1" by (rule new_ledger_steps [OF assms(2,1) led_step.revoke [OF ok assms(4)]])
  obtain p :: Principal where "revoke_tx (fingerprint (pr_Subject p) req) (Truncate at Microsecond) (pr_Subject p) req db = Inr (rc, db1)"
    using ok by (rule Revoke_Inr)
  with inv obtain row where row: "row \<in> set (led_rows db1)" "or_TenantID row = rr_TenantId req" "or_ID row = rr_Id req"
      "src_RevokedAt (or_Payload row) = Some (Truncate at Microsecond)"
  proof (cases rule: revoke_tx_cases)
    case Replay
    with assms(5) show thesis by simp
  next
    case (Fresh old before current)
    have "or_Payload (revoke_row before current old) = current"
      using led_invD(2) [OF inv Fresh(4)] Fresh(7) by (simp add: revoke_row_def row_ok_def)
    with Fresh show thesis by (intro that [of "revoke_row before current old"]) simp_all
  qed
  have inv2: "led_inv db2" and row2: "row \<in> set (led_rows db2)" using led_steps_keep [OF assms(6) inv1, where row = row] row by auto
  have ids: "src_ID (or_Payload r) = or_ID r" if "r \<in> set (led_rows db2)" for r using led_invD(2) [OF inv2 that] by (simp add: row_ok_def)
  have "filter (\<lambda>r. or_ID r = or_ID row) (tenant_rows db2 (rr_TenantId req)) = [row]"
  proof (rule distinct_key_filter)
    have "distinct (map (\<lambda>r. (or_TenantID r, or_ID r)) (filter (\<lambda>r. or_TenantID r = rr_TenantId req) (led_rows db2)))"
      by (rule distinct_map_filter [OF led_invD(4) [OF inv2]])
    then show "distinct (map or_ID (tenant_rows db2 (rr_TenantId req)))"
      by (auto simp: tenant_rows_def distinct_map inj_on_def)
  qed (use row row2 in simp)
  moreover have "filter (\<lambda>s. src_ID s = rr_Id req) (ledger_sources db2 (rr_TenantId req)) =
      map or_Payload (filter (\<lambda>r. or_ID r = or_ID row) (tenant_rows db2 (rr_TenantId req)))"
    unfolding filter_map row(3) comp_def using ids by (intro arg_cong [of _ _ "map or_Payload"] filter_cong) auto
  ultimately show ?thesis using row(4) by (auto simp: Source_Active_iff)
qed

lemma override_revocation_final_witness:
  "\<exists>rc db s. ex_undo (ex_revoke ''r2'') ex_ledger = Inr (rc, db) \<and>
    filter (\<lambda>s. src_ID s = rr_Id (ex_revoke ''r2'')) (ledger_sources db (rr_TenantId (ex_revoke ''r2''))) = [s] \<and>
    (\<forall>t. \<not> (Truncate ex_at Microsecond \<le> t \<and> Source_Active s t))"
proof -
  obtain rc db where ok: "ex_undo (ex_revoke ''r2'') ex_ledger = Inr (rc, db)" using ex_revoked by blast
  have "led_receipts ex_ledger (rr_TenantId (ex_revoke ''r2''), rr_RequestId (ex_revoke ''r2'')) = None" by code_simp
  from override_revocation_final [OF _ ex_steps ok ex_clock this rtranclp.rtrancl_refl] ok show ?thesis by auto
qed

end
