(* ===== verification/Commercial_Guard.thy ===== *)
theory Commercial_Guard
  imports Capability_Map Override_Ledger
begin

section \<open>The commercial guard\<close>

text \<open>
  \<open>internal/commercial/enforcement/guard.go\<close> with \<open>worker_context.go\<close> and the part of \<open>transport.go\<close>
  that carries a failure to the transport (\<open>ensureOutcome\<close>, \<open>correlation\<close>, \<open>remember\<close>, \<open>failed\<close>), and
  the decision reader of \<open>internal/commercial/application/entitlementmanagement/reader.go\<close>.
  The request context is a record of the values the source looks up in it. What the framework puts
  there (principal, metadata, execution scope, authorized operation) is part of the record. A guard
  carries a number that stands for its address. The audit log and the first failure of each request
  are the state. The entitlement decision is an argument of \<open>check\<close>, which \<open>Decide\<close> provides.
\<close>

subsection \<open>Values\<close>

record AuditEvent =
  ae_CorrelationID :: string
  ae_TenantID :: string
  ae_Subject :: string
  ae_RootOperation :: string
  ae_Operation :: string
  ae_Stage :: string
  ae_Allowed :: bool
  ae_Reason :: string
  ae_SourceVersion :: uint64
  ae_MappingVersion :: string

record Failure =
  fl_Code :: string
  fl_Operation :: string
  fl_CorrelationID :: string
  fl_Unavailable :: bool

record Guard =
  g_address :: nat
  g_version :: string
  g_operations :: "string \<rightharpoonup> CompiledOperation"
  g_count :: nat

record frame =
  fr_guard :: Guard
  fr_root :: string
  fr_subject :: string
  fr_tenant :: string

record workerContext =
  wc_guard :: nat
  wc_subject :: string
  wc_tenant :: string

text \<open>What the guard reads of \<open>authz.AuthorizedOperation\<close>.\<close>

record AuthorizedOperation =
  ao_Allowed :: bool
  ao_Subject :: string
  ao_TenantID :: string
  ao_Operation :: string
  ao_PermissionAll :: bool
  ao_Permissions :: "string list"

record Context =
  cx_Principal :: "Principal option"
  cx_Frame :: "frame option"
  cx_Worker :: "workerContext option"
  cx_Operation :: "string option"
  cx_Scope :: bool
  cx_Authorized :: "AuthorizedOperation option"
  cx_Outcome :: "string option"

record GuardState =
  gs_audit :: "AuditEvent list"
  gs_failures :: "string \<rightharpoonup> Failure"

datatype guard_error =
    Guard_Failure Failure
  | Guard_Missing
  | Guard_Denied string string
  | Guard_Config string

datatype decide_error = RetryRequired | SnapshotStale | StateLost | SourceError

subsection \<open>Construction\<close>

definition operation_error :: "CompiledOperation \<Rightarrow> string err" where
  "operation_error c =
     (if cm_Classification c = TenantBusiness then
        (if \<not> co_TenantRequired c \<or> co_AlwaysRequiredCapabilityCodes c = [] then Some ''tenant business has no requirement'' else None)
      else if cm_Classification c = PlatformManagement \<or> cm_Classification c = Recovery \<or> cm_Classification c = FoundationExempt then
        (if cm_ExemptionReason c = '''' then Some ''unreasoned exemption'' else None)
      else Some ''unknown classification'')"

definition worker_error :: "CompiledOperation \<Rightarrow> string err" where
  "worker_error c =
     (if (co_ConsumerType c = ''worker'') \<noteq> (cm_WorkerPermission c \<noteq> '''') then Some ''inconsistent worker entry declaration''
      else if co_ConsumerType c = ''worker'' \<and> (cm_Classification c \<noteq> PlatformManagement \<or> co_TenantRequired c \<or> co_RPC c \<noteq> '''')
        then Some ''worker entry has public or tenant authority''
      else None)"

definition add_operation :: "CompiledOperation \<Rightarrow> (string \<rightharpoonup> CompiledOperation) \<Rightarrow> string + (string \<rightharpoonup> CompiledOperation)" where
  "add_operation c ops =
     (if cm_OperationID c = '''' then Inl ''empty operation''
      else if ops (cm_OperationID c) \<noteq> None then Inl ''duplicate operation''
      else case or_else (operation_error c) (worker_error c) of
        Some e \<Rightarrow> Inl e
      | None \<Rightarrow> Inr (ops(cm_OperationID c \<mapsto> c)))"

definition unknown_child :: "Document \<Rightarrow> (string \<rightharpoonup> CompiledOperation) \<Rightarrow> bool" where
  "unknown_child doc ops \<longleftrightarrow> (\<exists>c \<in> set (doc_Operations doc). \<exists>ch \<in> set (cm_Children c). ops (ch_OperationID ch) = None)"

definition newGuard :: "nat \<Rightarrow> Document \<Rightarrow> bool \<Rightarrow> bool \<Rightarrow> string + Guard" where
  "newGuard address doc reader audit =
     (if \<not> reader \<or> \<not> audit \<or> doc_MappingVersion doc = '''' \<or> doc_Operations doc = []
        then Inl ''validated policy, reader and audit required''
      else bind_result (fold_err add_operation (doc_Operations doc) Map.empty) (\<lambda>ops.
        if unknown_child doc ops then Inl ''unknown child''
        else Inr \<lparr>g_address = address, g_version = doc_MappingVersion doc, g_operations = ops, g_count = length (doc_Operations doc)\<rparr>))"

subsection \<open>Outcomes and audit\<close>

definition ensureOutcome :: "string \<Rightarrow> Context \<Rightarrow> Context" where
  "ensureOutcome entropy ctx = (case cx_Outcome ctx of Some _ \<Rightarrow> ctx | None \<Rightarrow> ctx\<lparr>cx_Outcome := Some entropy\<rparr>)"

definition correlation :: "Context \<Rightarrow> string" where
  "correlation ctx = (case cx_Outcome ctx of Some i \<Rightarrow> i | None \<Rightarrow> '''')"

definition remember :: "Context \<Rightarrow> Failure \<Rightarrow> GuardState \<Rightarrow> GuardState" where
  "remember ctx f st =
     (case cx_Outcome ctx of
        None \<Rightarrow> st
      | Some i \<Rightarrow> if gs_failures st i = None then st\<lparr>gs_failures := (gs_failures st)(i \<mapsto> f)\<rparr> else st)"

definition failed :: "Context \<Rightarrow> GuardState \<Rightarrow> Failure option" where
  "failed ctx st = (case cx_Outcome ctx of None \<Rightarrow> None | Some i \<Rightarrow> gs_failures st i)"

definition principal :: "Context \<Rightarrow> Principal" where
  "principal ctx = (case cx_Principal ctx of Some p \<Rightarrow> p | None \<Rightarrow> \<lparr>pr_Authenticated = False, pr_Subject = '''', pr_TenantID = ''''\<rparr>)"

definition record_event :: "Guard \<Rightarrow> Context \<Rightarrow> string \<Rightarrow> string \<Rightarrow> bool \<Rightarrow> string \<Rightarrow> uint64 \<Rightarrow> GuardState \<Rightarrow> GuardState" where
  "record_event g ctx i stage allowed reason revision st =
     (let root = (case cx_Frame ctx of Some f \<Rightarrow> (if fr_root f = '''' then i else fr_root f) | None \<Rightarrow> i)
      in st\<lparr>gs_audit := \<lparr>ae_CorrelationID = correlation ctx, ae_TenantID = pr_TenantID (principal ctx),
           ae_Subject = pr_Subject (principal ctx), ae_RootOperation = root, ae_Operation = i, ae_Stage = stage, ae_Allowed = allowed,
           ae_Reason = reason, ae_SourceVersion = revision, ae_MappingVersion = g_version g\<rparr> # gs_audit st\<rparr>)"

definition guard_fail :: "Guard \<Rightarrow> Context \<Rightarrow> string \<Rightarrow> string \<Rightarrow> string \<Rightarrow> uint64 \<Rightarrow> bool \<Rightarrow> GuardState \<Rightarrow> guard_error \<times> GuardState" where
  "guard_fail g ctx i stage reason revision unavailable st =
     (let f = \<lparr>fl_Code = reason, fl_Operation = i, fl_CorrelationID = correlation ctx, fl_Unavailable = unavailable\<rparr>
      in (Guard_Failure f, record_event g ctx i stage False reason revision (remember ctx f st)))"

subsection \<open>The check\<close>

text \<open>The two loops over the required codes and the decisions; the result is the reason of the refusal.\<close>

fun first_decision :: "string \<Rightarrow> Decision list \<Rightarrow> Decision option" where
  "first_decision code [] = None"
| "first_decision code (d # ds) = (if dec_Kind d = Kind_Capability \<and> dec_Key d = code then Some d else first_decision code ds)"

definition require_code :: "Decision list \<Rightarrow> string \<Rightarrow> string err" where
  "require_code ds code =
     (case first_decision code ds of
        None \<Rightarrow> Some ''MODULE_NOT_ENTITLED''
      | Some d \<Rightarrow> if dec_Allowed d then None else Some (dec_Reason d))"

definition decide_reason :: "decide_error \<Rightarrow> string" where
  "decide_reason e =
     (case e of RetryRequired \<Rightarrow> ''ENTITLEMENT_RETRY_REQUIRED'' | SnapshotStale \<Rightarrow> ''ENTITLEMENT_SNAPSHOT_STALE''
      | StateLost \<Rightarrow> ''ENTITLEMENT_AUTHORITY_STATE_LOST'' | SourceError \<Rightarrow> ''ENTITLEMENT_SOURCE_UNAVAILABLE'')"

definition check ::
  "(Context \<Rightarrow> string list \<Rightarrow> decide_error + EntResult) \<Rightarrow> Guard \<Rightarrow> Context \<Rightarrow> CompiledOperation \<Rightarrow> string \<Rightarrow> GuardState
     \<Rightarrow> guard_error err \<times> GuardState" where
  "check reader g ctx c stage st =
     (let fail = (\<lambda>reason revision unavailable.
        (let (e, st') = guard_fail g ctx (cm_OperationID c) stage reason revision unavailable st in (Some e, st'))) in
      if cm_Classification c \<noteq> TenantBusiness
        then (None, record_event g ctx (cm_OperationID c) stage True ''EXPLICIT_COMMERCIAL_EXEMPTION'' 0 st)
      else let required = sort (co_AlwaysRequiredCapabilityCodes c) in
        case reader ctx required of
          Inl e \<Rightarrow> fail (decide_reason e) 0 True
        | Inr result \<Rightarrow>
          if res_TenantID result \<noteq> pr_TenantID (principal ctx) then fail ''ENTITLEMENT_CONTEXT_INVALID'' 0 True
          else case for_each_err (require_code (res_Decisions result)) required of
            Some reason \<Rightarrow> fail reason (res_SourceVersion result) False
          | None \<Rightarrow> (None, record_event g ctx (cm_OperationID c) stage True ''ALLOWED'' (res_SourceVersion result) st))"

subsection \<open>The root\<close>

definition WorkerContext :: "Guard \<Rightarrow> Context \<Rightarrow> Context option" where
  "WorkerContext g ctx =
     (case cx_Principal ctx of
        None \<Rightarrow> None
      | Some p \<Rightarrow>
        if \<not> pr_Authenticated p \<or> pr_Subject p = '''' \<or> pr_TenantID p \<noteq> '''' then None
        else Some (ctx\<lparr>cx_Worker := Some \<lparr>wc_guard = g_address g, wc_subject = pr_Subject p, wc_tenant = pr_TenantID p\<rparr>\<rparr>))"

definition hasWorkerPermission :: "string list \<Rightarrow> string \<Rightarrow> bool" where
  "hasWorkerPermission values want \<longleftrightarrow> list_ex (\<lambda>p. p = want) values"

definition worker_context_ok :: "Guard \<Rightarrow> Context \<Rightarrow> Principal \<Rightarrow> AuthorizedOperation \<Rightarrow> CompiledOperation \<Rightarrow> bool" where
  "worker_context_ok g ctx p a c \<longleftrightarrow>
     (case cx_Worker ctx of
        None \<Rightarrow> False
      | Some w \<Rightarrow> \<not> (wc_guard w \<noteq> g_address g \<or> wc_subject w \<noteq> pr_Subject p \<or> wc_tenant w \<noteq> pr_TenantID p \<or> pr_TenantID p \<noteq> '''' \<or>
                    \<not> ao_PermissionAll a \<or> \<not> hasWorkerPermission (ao_Permissions a) (cm_WorkerPermission c)))"

definition Prepare ::
  "(Context \<Rightarrow> string list \<Rightarrow> decide_error + EntResult) \<Rightarrow> Guard option \<Rightarrow> string \<Rightarrow> Context \<Rightarrow> AuthorizedOperation \<Rightarrow> GuardState
     \<Rightarrow> (guard_error + Context) \<times> GuardState" where
  "Prepare reader guard entropy ctx0 a st =
     (case guard of
        None \<Rightarrow> (Inl Guard_Missing, st)
      | Some g \<Rightarrow>
        let i = ao_Operation a; p = principal ctx0;
            fail = (\<lambda>ctx reason. (let (e, st') = guard_fail g ctx i ''root'' reason 0 False st in (Inl e, st')))
        in if cx_Principal ctx0 = None \<or> \<not> pr_Authenticated p \<or> \<not> ao_Allowed a \<or> pr_Subject p \<noteq> ao_Subject a \<or> pr_TenantID p \<noteq> ao_TenantID a
             then fail ctx0 ''ENTITLEMENT_CONTEXT_INVALID''
           else let ctx = ensureOutcome entropy ctx0 in
           case g_operations g i of
             None \<Rightarrow> fail ctx ''OPERATION_NOT_CLASSIFIED''
           | Some c \<Rightarrow>
             if co_ConsumerType c = ''internal_child'' then fail ctx ''INTERNAL_OPERATION_ROOT_DENIED''
             else if co_ConsumerType c = ''worker'' \<and> \<not> worker_context_ok g ctx p a c then fail ctx ''WORKER_CONTEXT_REQUIRED''
             else if co_ConsumerType c = ''platform'' \<and> pr_TenantID p \<noteq> '''' then fail ctx ''PLATFORM_CONTEXT_REQUIRED''
             else if co_TenantRequired c \<and> pr_TenantID p = '''' then fail ctx ''TENANT_CONTEXT_REQUIRED''
             else
               let ctx' = ctx\<lparr>cx_Frame := Some \<lparr>fr_guard = g, fr_root = i, fr_subject = pr_Subject p, fr_tenant = pr_TenantID p\<rparr>\<rparr>
               in case check reader g ctx' c ''root'' st of
                    (Some e, st') \<Rightarrow> (Inl e, st')
                  | (None, st') \<Rightarrow> (Inr ctx', st'))"

subsection \<open>The application stage\<close>

text \<open>
  The search of \<open>reachable\<close>, with the set \<open>seen\<close> as a list. One unit of fuel is spent per nested
  call; one more unit than there are operations is enough (\<open>reach_correct\<close>).
\<close>

fun reach :: "(string \<rightharpoonup> CompiledOperation) \<Rightarrow> nat \<Rightarrow> string list \<Rightarrow> string \<Rightarrow> string \<Rightarrow> (bool \<times> string list) option"
  and reach_any :: "(string \<rightharpoonup> CompiledOperation) \<Rightarrow> nat \<Rightarrow> string list \<Rightarrow> string list \<Rightarrow> string \<Rightarrow> (bool \<times> string list) option"
where
  "reach ops 0 seen from to' = None"
| "reach ops (Suc n) seen from to' =
     (if from = to' then Some (True, seen)
      else if from \<in> set seen then Some (False, seen)
      else reach_any ops n (from # seen) (case ops from of None \<Rightarrow> [] | Some c \<Rightarrow> map ch_OperationID (cm_Children c)) to')"
| "reach_any ops n seen [] to' = Some (False, seen)"
| "reach_any ops n seen (c # cs) to' =
     (case reach ops n seen c to' of
        None \<Rightarrow> None
      | Some (found, seen') \<Rightarrow> if found then Some (True, seen') else reach_any ops n seen' cs to')"

definition reachable :: "Guard \<Rightarrow> string \<Rightarrow> string \<Rightarrow> bool" where
  "reachable g from to' = (case reach (g_operations g) (Suc (g_count g)) [] from to' of Some (b, _) \<Rightarrow> b | None \<Rightarrow> False)"

definition RequireExecuted ::
  "(Context \<Rightarrow> string list \<Rightarrow> decide_error + EntResult) \<Rightarrow> Context \<Rightarrow> string \<Rightarrow> GuardState \<Rightarrow> guard_error err \<times> GuardState" where
  "RequireExecuted reader ctx i st =
     (case cx_Frame ctx of
        None \<Rightarrow> (Some (Guard_Denied i ''ENTITLEMENT_CONTEXT_REQUIRED''), st)
      | Some f \<Rightarrow>
        let g = fr_guard f; p = principal ctx;
            fail = (\<lambda>reason. (let (e, st') = guard_fail g ctx i ''application'' reason 0 False st in (Some e, st')))
        in if cx_Principal ctx = None \<or> pr_Subject p \<noteq> fr_subject f \<or> pr_TenantID p \<noteq> fr_tenant f \<or> \<not> pr_Authenticated p \<or>
              cx_Operation ctx \<noteq> Some i \<or> \<not> cx_Scope ctx \<or>
              (case cx_Authorized ctx of None \<Rightarrow> True | Some a \<Rightarrow> \<not> ao_Allowed a \<or> ao_Operation a \<noteq> fr_root f)
             then fail ''ENTITLEMENT_CONTEXT_INVALID''
           else if \<not> reachable g (fr_root f) i then fail ''UNDECLARED_CHILD_OPERATION''
           else case g_operations g i of
             None \<Rightarrow> fail ''OPERATION_NOT_CLASSIFIED''
           | Some c \<Rightarrow> check reader g ctx c ''application'' st)"

text \<open>The marking of a transient SQL failure; \<open>transient\<close> says whether the error is one.\<close>

definition ExecutionError :: "('e \<Rightarrow> bool) \<Rightarrow> Context \<Rightarrow> string \<Rightarrow> 'e option \<Rightarrow> GuardState \<Rightarrow> ('e + guard_error) option \<times> GuardState" where
  "ExecutionError transient ctx i err st =
     (case err of
        None \<Rightarrow> (None, st)
      | Some e \<Rightarrow>
        if \<not> transient e then (Some (Inl e), st)
        else case cx_Frame ctx of
          None \<Rightarrow> (Some (Inl e), st)
        | Some f \<Rightarrow> (let (ge, st') = guard_fail (fr_guard f) ctx i ''transaction'' ''ENTITLEMENT_RETRY_REQUIRED'' 0 True st in (Some (Inr ge), st')))"

subsection \<open>The decision reader\<close>

definition snap_decide_error :: "snap_error \<Rightarrow> decide_error" where
  "snap_decide_error e = (if e = Snap_Stale then SnapshotStale else if e = Snap_StateLost then StateLost else SourceError)"

definition Decide ::
  "(string \<Rightarrow> string list \<Rightarrow> snap_error + EntResult) \<Rightarrow> Context \<Rightarrow> string list \<Rightarrow> decide_error + EntResult" where
  "Decide read_snapshot ctx requested =
     (case cx_Principal ctx of
        None \<Rightarrow> Inl SourceError
      | Some p \<Rightarrow>
        if \<not> pr_Authenticated p \<or> pr_TenantID p = '''' \<or> pr_Subject p = '''' then Inl SourceError
        else case read_snapshot (pr_TenantID p) requested of
          Inl e \<Rightarrow> Inl (snap_decide_error e)
        | Inr r \<Rightarrow> Inr r)"

section \<open>Reachability\<close>

lemma child_edges_iff: "(x, y) \<in> child_edges ops \<longleftrightarrow> y \<in> set (case ops x of None \<Rightarrow> [] | Some c \<Rightarrow> map ch_OperationID (cm_Children c))"
  by (cases "ops x") (auto simp: child_edges_def)

lemma reach_sound:
  "reach ops n seen from to' = Some (True, seen') \<Longrightarrow> (from, to') \<in> (child_edges ops)\<^sup>*"
  "reach_any ops n seen cs to' = Some (True, seen') \<Longrightarrow> \<exists>c \<in> set cs. (c, to') \<in> (child_edges ops)\<^sup>*"
proof (induction ops n seen "from" to' and ops n seen cs to' arbitrary: seen' and seen' rule: reach_reach_any.induct)
  case (2 ops n seen "from" to')
  show ?case
  proof (cases "from = to'")
    case False
    with 2(2) have "from \<notin> set seen" by (auto split: if_splits)
    with False 2 obtain c where "(from, c) \<in> child_edges ops" "(c, to') \<in> (child_edges ops)\<^sup>*" unfolding child_edges_iff by auto
    then show ?thesis by (rule converse_rtrancl_into_rtrancl)
  qed simp
next
  case (4 ops n seen c cs to')
  from 4(3) obtain b s1 where s1: "reach ops n seen c to' = Some (b, s1)" by (auto split: option.splits)
  show ?case
  proof (cases b)
    case True
    with 4(1) s1 show ?thesis by auto
  next
    case False
    with 4(3) s1 have "reach_any ops n s1 cs to' = Some (True, seen')" by simp
    from 4(2) [OF s1 refl False this] show ?thesis by auto
  qed
qed auto

text \<open>What a failed search leaves behind: the nodes it has added are closed under the edges.\<close>

definition search_closed :: "(string \<rightharpoonup> CompiledOperation) \<Rightarrow> string \<Rightarrow> string set \<Rightarrow> string set \<Rightarrow> bool" where
  "search_closed ops to' S S' \<longleftrightarrow> S \<subseteq> S' \<and> (to' \<notin> S \<longrightarrow> to' \<notin> S') \<and> child_edges ops `` (S' - S) \<subseteq> S'"

lemma search_closed_trans: "search_closed ops to' S S' \<Longrightarrow> search_closed ops to' S' S'' \<Longrightarrow> search_closed ops to' S S''"
  unfolding search_closed_def by blast

lemma reach_closed:
  "reach ops n seen from to' = Some (False, seen') \<Longrightarrow> search_closed ops to' (set seen) (set seen') \<and> from \<in> set seen'"
  "reach_any ops n seen cs to' = Some (False, seen') \<Longrightarrow> search_closed ops to' (set seen) (set seen') \<and> set cs \<subseteq> set seen'"
proof (induction ops n seen "from" to' and ops n seen cs to' arbitrary: seen' and seen' rule: reach_reach_any.induct)
  case (2 ops n seen "from" to')
  show ?case
  proof (cases "from \<in> set seen")
    case True
    with 2(2) show ?thesis by (auto simp: search_closed_def split: if_splits)
  next
    case False
    with 2(2) have ne: "from \<noteq> to'" and r: "reach_any ops n (from # seen) (case ops from of None \<Rightarrow> [] | Some c \<Rightarrow> map ch_OperationID (cm_Children c)) to' = Some (False, seen')"
      by (auto split: if_splits)
    from 2(1) [OF ne False r] have IH: "search_closed ops to' (insert from (set seen)) (set seen')"
      "child_edges ops `` {from} \<subseteq> set seen'" using child_edges_iff [of "from" _ ops] by auto
    with ne show ?thesis unfolding search_closed_def by blast
  qed
next
  case (3 ops n seen to')
  then show ?case by (simp add: search_closed_def)
next
  case (4 ops n seen c cs to')
  from 4(3) obtain s1 where s1: "reach ops n seen c to' = Some (False, s1)" "reach_any ops n s1 cs to' = Some (False, seen')"
    by (auto split: option.splits if_splits)
  have a: "search_closed ops to' (set seen) (set s1)" "c \<in> set s1" using 4(1) [OF s1(1)] by blast+
  have b: "search_closed ops to' (set s1) (set seen')" "set cs \<subseteq> set seen'" using 4(2) [OF s1(1) refl _ s1(2)] by blast+
  from b(1) have "set s1 \<subseteq> set seen'" by (simp add: search_closed_def)
  with a b search_closed_trans [OF a(1) b(1)] show ?case by auto
qed simp

lemma reach_total:
  assumes "finite (dom ops)"
  shows "card (dom ops - set seen) < n \<Longrightarrow> \<exists>b s. reach ops n seen from to' = Some (b, s) \<and> set seen \<subseteq> set s"
    "card (dom ops - set seen) < n \<Longrightarrow> \<exists>b s. reach_any ops n seen cs to' = Some (b, s) \<and> set seen \<subseteq> set s"
  using assms
proof (induction ops n seen "from" to' and ops n seen cs to' rule: reach_reach_any.induct)
  case (2 ops n seen "from" to')
  show ?case
  proof (cases "from = to' \<or> from \<in> set seen")
    case False
    then have f: "from \<noteq> to'" "from \<notin> set seen" by blast+
    show ?thesis
    proof (cases "ops from")
      case None
      with f show ?thesis by auto
    next
      case (Some c)
      then have "card (dom ops - set (from # seen)) < card (dom ops - set seen)"
        using 2(3) f by (intro psubset_card_mono) auto
      with 2(2) have "card (dom ops - set (from # seen)) < n" by linarith
      from 2(1) [OF f this 2(3)] f show ?thesis by auto
    qed
  qed auto
next
  case (4 ops n seen c cs to')
  from 4(1) [OF 4(3,4)] obtain b s where s: "reach ops n seen c to' = Some (b, s)" "set seen \<subseteq> set s" by blast
  then have "card (dom ops - set s) < n" using 4(3,4) by (meson card_mono Diff_mono finite_Diff le_less_trans order_refl)
  then have "\<not> b \<Longrightarrow> \<exists>b' s'. reach_any ops n s cs to' = Some (b', s') \<and> set s \<subseteq> set s'" using 4(2) [OF s(1) refl] 4(4) by blast
  with s show ?case by (cases b) auto
qed auto

lemma reach_correct:
  assumes "finite (dom ops)" "card (dom ops) < n"
  shows "\<exists>b s. reach ops n [] from to' = Some (b, s) \<and> (b \<longleftrightarrow> (from, to') \<in> (child_edges ops)\<^sup>*)"
proof -
  from reach_total(1) [OF assms(1), of "[]" n "from" to'] assms(2) obtain b s where r: "reach ops n [] from to' = Some (b, s)" by auto
  show ?thesis
  proof (cases b)
    case True
    with r have "(from, to') \<in> (child_edges ops)\<^sup>*" using reach_sound(1) [of ops n "[]" "from" to' s] by simp
    with True r show ?thesis by blast
  next
    case False
    with r reach_closed(1) [of ops n "[]" "from" to' s] have c: "to' \<notin> set s" "child_edges ops `` set s \<subseteq> set s" "from \<in> set s"
      by (auto simp: search_closed_def)
    have "(from, x) \<in> (child_edges ops)\<^sup>* \<Longrightarrow> x \<in> set s" for x by (induction rule: rtrancl_induct) (use c in blast)+
    with c(1) r False show ?thesis by blast
  qed
qed

lemma newGuard_operations:
  assumes "newGuard address doc rd au = Inr g"
  shows "g_operations g = doc_entries doc" "distinct (map cm_OperationID (doc_Operations doc))" "g_count g = card (dom (g_operations g))"
    "finite (dom (g_operations g))" "Range (child_edges (g_operations g)) \<subseteq> dom (g_operations g)"
    "c \<in> set (doc_Operations doc) \<Longrightarrow> operation_error c = None \<and> worker_error c = None"
    "g_operations g i = Some c \<Longrightarrow> cm_OperationID c = i \<and> c \<in> set (doc_Operations doc)"
proof -
  let ?al = "map (\<lambda>e. (cm_OperationID e, e))"
  from assms have run: "fold_err add_operation (doc_Operations doc) Map.empty = Inr (g_operations g)" and kids: "\<not> unknown_child doc (g_operations g)"
      and count: "g_count g = length (doc_Operations doc)"
    by (auto simp: newGuard_def split: if_splits)
  let ?I = "\<lambda>ys ops. distinct (map cm_OperationID ys) \<and> ops = map_of (?al ys) \<and> (\<forall>c \<in> set ys. operation_error c = None \<and> worker_error c = None)"
  have "?I (rev (doc_Operations doc)) (g_operations g)"
  proof (rule fold_err_invariant [OF run, of ?I])
    fix x ys s s' assume I: "?I ys s" and step: "add_operation x s = Inr s'"
    then have "s (cm_OperationID x) = None" "s' = s(cm_OperationID x \<mapsto> x)" "operation_error x = None" "worker_error x = None"
      by (auto simp: add_operation_def split: if_splits option.splits)
    with I show "?I (x # ys) s'" by (auto simp: map_of_eq_None_iff image_image)
  qed simp
  then show d: "distinct (map cm_OperationID (doc_Operations doc))"
      and ops: "g_operations g = doc_entries doc"
      and "c \<in> set (doc_Operations doc) \<Longrightarrow> operation_error c = None \<and> worker_error c = None"
    by (auto simp: rev_map [symmetric] doc_entries_def comp_def map_of_inject_set)
  have dom: "dom (g_operations g) = cm_OperationID ` set (doc_Operations doc)" by (simp add: ops doc_entries_def dom_map_of_conv_image_fst image_image)
  then show "finite (dom (g_operations g))" by simp
  show "g_count g = card (dom (g_operations g))" using d count dom distinct_card [OF d] by simp
  show mem: "g_operations g i = Some c \<Longrightarrow> cm_OperationID c = i \<and> c \<in> set (doc_Operations doc)" for i c
    by (auto simp: ops doc_entries_def dest: map_of_SomeD)
  show "Range (child_edges (g_operations g)) \<subseteq> dom (g_operations g)"
  proof
    fix y assume "y \<in> Range (child_edges (g_operations g))"
    then obtain x c ch where x: "g_operations g x = Some c" "ch \<in> set (cm_Children c)" "y = ch_OperationID ch" by (auto simp: child_edges_def)
    have "g_operations g (ch_OperationID ch) \<noteq> None"
    proof
      assume "g_operations g (ch_OperationID ch) = None"
      then have "unknown_child doc (g_operations g)" unfolding unknown_child_def
        by (intro bexI [of _ c] bexI [of _ ch]) (use mem [OF x(1)] x(2) in simp_all)
      with kids show False by contradiction
    qed
    with x(3) show "y \<in> dom (g_operations g)" by auto
  qed
qed

lemma reachable_iff: "newGuard address doc rd au = Inr g \<Longrightarrow> reachable g from to' \<longleftrightarrow> (from, to') \<in> (child_edges (g_operations g))\<^sup>*"
  using reach_correct [OF newGuard_operations(4), of address doc rd au g "Suc (g_count g)" "from" to'] newGuard_operations(3) [of address doc rd au g]
  by (auto simp: reachable_def)

section \<open>What the checks establish\<close>

lemma first_decision_Some: "first_decision code ds = Some d \<Longrightarrow> d \<in> set ds \<and> dec_Kind d = Kind_Capability \<and> dec_Key d = code"
  by (induction ds) (auto split: if_splits)

lemma require_code_None:
  "require_code ds code = None \<Longrightarrow> \<exists>d \<in> set ds. dec_Kind d = Kind_Capability \<and> dec_Key d = code \<and> dec_Allowed d"
  by (auto simp: require_code_def split: option.splits if_splits dest: first_decision_Some)

text \<open>The decisions cover the codes.\<close>

definition covers :: "EntResult \<Rightarrow> string set \<Rightarrow> bool" where
  "covers r codes \<longleftrightarrow> (\<forall>code \<in> codes. \<exists>d \<in> set (res_Decisions r). dec_Kind d = Kind_Capability \<and> dec_Key d = code \<and> dec_Allowed d)"

lemma check_passes:
  assumes "check reader g ctx c stage st = (None, st')" "cm_Classification c = TenantBusiness"
  obtains r where "reader ctx (sort (co_AlwaysRequiredCapabilityCodes c)) = Inr r" "res_TenantID r = pr_TenantID (principal ctx)"
    "covers r (set (co_AlwaysRequiredCapabilityCodes c))"
proof -
  from assms obtain r where r: "reader ctx (sort (co_AlwaysRequiredCapabilityCodes c)) = Inr r" "res_TenantID r = pr_TenantID (principal ctx)"
      "\<forall>code \<in> set (co_AlwaysRequiredCapabilityCodes c). require_code (res_Decisions r) code = None"
    by (auto simp: check_def Let_def guard_fail_def split: sum.splits if_splits option.splits)
  then have "covers r (set (co_AlwaysRequiredCapabilityCodes c))" using require_code_None by (simp add: covers_def)
  with r show thesis using that by blast
qed

definition audited :: "GuardState \<Rightarrow> GuardState \<Rightarrow> string \<Rightarrow> bool \<Rightarrow> bool" where
  "audited st st' i allowed \<longleftrightarrow> (\<exists>ev. gs_audit st' = ev # gs_audit st \<and> ae_Operation ev = i \<and> ae_Allowed ev = allowed)"

lemma remember_audit [simp]: "gs_audit (remember ctx f st) = gs_audit st"
  by (simp add: remember_def split: option.split)

lemma guard_fail_audited: "guard_fail g ctx i stage reason revision unavailable st = (e, st') \<Longrightarrow> audited st st' i False"
  by (auto simp: guard_fail_def record_event_def audited_def Let_def)

lemma record_audited: "audited st (record_event g ctx i stage allowed reason revision st) i allowed"
  by (simp add: record_event_def audited_def Let_def)

lemma check_audited: "check reader g ctx c stage st = (res, st') \<Longrightarrow> audited st st' (cm_OperationID c) (res = None)"
  by (auto simp: check_def Let_def record_audited split: sum.splits if_splits option.splits prod.splits dest: guard_fail_audited)

lemma Prepare_passes:
  assumes "Prepare reader (Some g) entropy ctx a st = (Inr ctx', st')"
  obtains p c where "cx_Principal ctx = Some p" "pr_Authenticated p" "ao_Allowed a" "pr_Subject p = ao_Subject a" "pr_TenantID p = ao_TenantID a"
    "g_operations g (ao_Operation a) = Some c" "co_ConsumerType c \<noteq> ''internal_child''" "co_TenantRequired c \<Longrightarrow> pr_TenantID p \<noteq> ''''"
    "cx_Principal ctx' = Some p"
    "cx_Frame ctx' = Some \<lparr>fr_guard = g, fr_root = ao_Operation a, fr_subject = pr_Subject p, fr_tenant = pr_TenantID p\<rparr>"
    "check reader g ctx' c ''root'' st = (None, st')"
proof -
  have out: "cx_Principal (ensureOutcome entropy ctx) = cx_Principal ctx" by (simp add: ensureOutcome_def split: option.split)
  from assms obtain p where p: "cx_Principal ctx = Some p" "pr_Authenticated p" "ao_Allowed a" "pr_Subject p = ao_Subject a" "pr_TenantID p = ao_TenantID a"
    by (auto simp: Prepare_def Let_def principal_def split: if_splits option.splits prod.splits)
  with assms obtain c where c: "g_operations g (ao_Operation a) = Some c" "co_ConsumerType c \<noteq> ''internal_child''"
      "co_TenantRequired c \<Longrightarrow> pr_TenantID p \<noteq> ''''"
      "check reader g ((ensureOutcome entropy ctx)\<lparr>cx_Frame := Some \<lparr>fr_guard = g, fr_root = ao_Operation a, fr_subject = pr_Subject p,
         fr_tenant = pr_TenantID p\<rparr>\<rparr>) c ''root'' st = (None, st')"
      "ctx' = (ensureOutcome entropy ctx)\<lparr>cx_Frame := Some \<lparr>fr_guard = g, fr_root = ao_Operation a, fr_subject = pr_Subject p,
         fr_tenant = pr_TenantID p\<rparr>\<rparr>"
    by (auto simp: Prepare_def Let_def principal_def split: if_splits option.splits prod.splits)
  with p out show thesis using that by simp
qed

lemma RequireExecuted_passes:
  assumes "RequireExecuted reader ctx i st = (None, st')"
  obtains f p a c where "cx_Frame ctx = Some f" "cx_Principal ctx = Some p" "pr_Authenticated p" "pr_Subject p = fr_subject f" "pr_TenantID p = fr_tenant f"
    "cx_Authorized ctx = Some a" "ao_Allowed a" "ao_Operation a = fr_root f" "cx_Operation ctx = Some i" "cx_Scope ctx"
    "reachable (fr_guard f) (fr_root f) i" "g_operations (fr_guard f) i = Some c" "check reader (fr_guard f) ctx c ''application'' st = (None, st')"
proof -
  from assms obtain f where f: "cx_Frame ctx = Some f" by (auto simp: RequireExecuted_def split: option.splits)
  with assms obtain p a where p: "cx_Principal ctx = Some p" "pr_Authenticated p" "pr_Subject p = fr_subject f" "pr_TenantID p = fr_tenant f"
      "cx_Authorized ctx = Some a" "ao_Allowed a" "ao_Operation a = fr_root f" "cx_Operation ctx = Some i" "cx_Scope ctx"
      "reachable (fr_guard f) (fr_root f) i"
    by (auto simp: RequireExecuted_def Let_def principal_def split: if_splits option.splits prod.splits)
  with assms f obtain c where "g_operations (fr_guard f) i = Some c" "check reader (fr_guard f) ctx c ''application'' st = (None, st')"
    by (auto simp: RequireExecuted_def Let_def principal_def split: if_splits option.splits prod.splits)
  with f p show thesis using that by blast
qed

section \<open>Properties of the guard\<close>

definition ex_guard :: Guard where
  "ex_guard = (case newGuard 1 ex_document True True of Inr g \<Rightarrow> g | _ \<Rightarrow> undefined)"

lemma ex_guard_ok: "newGuard 1 ex_document True True = Inr ex_guard"
proof -
  have "\<not> isl (newGuard 1 ex_document True True)" by code_simp
  then show ?thesis by (cases "newGuard 1 ex_document True True") (simp_all add: ex_guard_def)
qed

definition ex_member :: Principal where
  "ex_member = \<lparr>pr_Authenticated = True, pr_Subject = ''u1'', pr_TenantID = ''t1''\<rparr>"

definition ex_authorized :: AuthorizedOperation where
  "ex_authorized = \<lparr>ao_Allowed = True, ao_Subject = ''u1'', ao_TenantID = ''t1'', ao_Operation = ''order.create'', ao_PermissionAll = True,
     ao_Permissions = []\<rparr>"

definition ex_context :: Context where
  "ex_context = \<lparr>cx_Principal = Some ex_member, cx_Frame = None, cx_Worker = None, cx_Operation = Some ''stock.reserve'', cx_Scope = True,
     cx_Authorized = Some ex_authorized, cx_Outcome = None\<rparr>"

definition ex_state :: GuardState where "ex_state = \<lparr>gs_audit = [], gs_failures = Map.empty\<rparr>"

definition ex_allow :: "string \<Rightarrow> Decision" where
  "ex_allow code = (denied_request code)\<lparr>dec_Kind := Kind_Capability, dec_Key := code, dec_Allowed := True\<rparr>"

definition ex_reader :: "Context \<Rightarrow> string list \<Rightarrow> decide_error + EntResult" where
  "ex_reader ctx codes = Inr \<lparr>res_EntitlementVersion = 1, res_CatalogRevision = 3, res_PermissionVersion = '''', res_PermissionSubject = '''',
     res_TenantID = ''t1'', res_SourceVersion = 7, res_ResolverVersion = 1, res_EvaluatedAt = 5, res_ValidUntil = None,
     res_NextTransitionAt = None, res_CatalogVersions = [], res_Decisions = map ex_allow codes\<rparr>"

definition ex_prepared :: "(guard_error + Context) \<times> GuardState" where
  "ex_prepared = Prepare ex_reader (Some ex_guard) ''r-1'' ex_context ex_authorized ex_state"

lemma ex_prepared_ok: "Prepare ex_reader (Some ex_guard) ''r-1'' ex_context ex_authorized ex_state = (Inr (projr (fst ex_prepared)), snd ex_prepared)"
proof -
  have "\<not> isl (fst ex_prepared)" by code_simp
  then show ?thesis unfolding ex_prepared_def by (metis prod.collapse sum.collapse(2))
qed

text \<open>
  C13: a call below a root passes only when it is declared: the operation is a descendant of the root
  operation in the published graph, the principal is the one the root was prepared for, IAM has
  allowed that root, and for business operations the entitlement decision for the principal's
  tenant allows every capability the operation always requires.\<close>

theorem guard_child_declared:
  assumes "newGuard address doc rd au = Inr g" "Prepare reader (Some g) entropy ctx a st = (Inr ctx', st1)"
    and "cx_Frame ctx2 = cx_Frame ctx'" "RequireExecuted reader' ctx2 i st2 = (None, st3)"
  shows "\<exists>p c. cx_Principal ctx = Some p \<and> pr_Authenticated p \<and> cx_Authorized ctx2 \<noteq> None \<and> ao_Allowed (the (cx_Authorized ctx2)) \<and>
    ao_Operation (the (cx_Authorized ctx2)) = ao_Operation a \<and> pr_Subject (principal ctx2) = pr_Subject p \<and>
    pr_TenantID (principal ctx2) = pr_TenantID p \<and> (ao_Operation a, i) \<in> (child_edges (doc_entries doc))\<^sup>* \<and>
    c \<in> set (doc_Operations doc) \<and> cm_OperationID c = i \<and>
    (cm_Classification c = TenantBusiness \<longrightarrow> (\<exists>r. reader' ctx2 (sort (co_AlwaysRequiredCapabilityCodes c)) = Inr r \<and>
       res_TenantID r = pr_TenantID p \<and> covers r (set (co_AlwaysRequiredCapabilityCodes c))))"
proof -
  note g = newGuard_operations [OF assms(1)]
  obtain p c0 where p: "cx_Principal ctx = Some p" "pr_Authenticated p"
      "cx_Frame ctx' = Some \<lparr>fr_guard = g, fr_root = ao_Operation a, fr_subject = pr_Subject p, fr_tenant = pr_TenantID p\<rparr>"
    using assms(2) by (rule Prepare_passes)
  from assms(4) obtain f q a2 c where q: "cx_Frame ctx2 = Some f" "cx_Principal ctx2 = Some q" "pr_Subject q = fr_subject f" "pr_TenantID q = fr_tenant f"
      "cx_Authorized ctx2 = Some a2" "ao_Allowed a2" "ao_Operation a2 = fr_root f"
      "reachable (fr_guard f) (fr_root f) i" "g_operations (fr_guard f) i = Some c" "check reader' (fr_guard f) ctx2 c ''application'' st2 = (None, st3)"
    by (rule RequireExecuted_passes)
  have f: "f = \<lparr>fr_guard = g, fr_root = ao_Operation a, fr_subject = pr_Subject p, fr_tenant = pr_TenantID p\<rparr>" using p(3) q(1) assms(3) by simp
  have "(ao_Operation a, i) \<in> (child_edges (doc_entries doc))\<^sup>*" using q(8) reachable_iff [OF assms(1)] g(1) f by simp
  moreover have "\<exists>r. reader' ctx2 (sort (co_AlwaysRequiredCapabilityCodes c)) = Inr r \<and> res_TenantID r = pr_TenantID p \<and>
      covers r (set (co_AlwaysRequiredCapabilityCodes c))" if "cm_Classification c = TenantBusiness"
    using check_passes [OF q(10) that] q(2,4) f by (auto simp: principal_def)
  ultimately show ?thesis using p q g(7) [of i c] f by (auto simp: principal_def)
qed

theorem guard_child_declared_witness:
  "\<exists>p (c :: CompiledOperation). cx_Principal ex_context = Some p \<and> pr_TenantID (principal (projr (fst ex_prepared))) = pr_TenantID p \<and>
    (''order.create'', ''stock.reserve'') \<in> (child_edges (doc_entries ex_document))\<^sup>* \<and> cm_OperationID c = ''stock.reserve''"
proof -
  let ?run = "RequireExecuted ex_reader (projr (fst ex_prepared)) ''stock.reserve'' (snd ex_prepared)"
  have "fst ?run = None" by code_simp
  then have "?run = (None, snd ?run)" by (metis prod.collapse)
  from guard_child_declared [OF ex_guard_ok ex_prepared_ok refl this] show ?thesis by (auto simp: ex_authorized_def)
qed

text \<open>
  Every decision is audited. Preparing a root and checking a call below it append exactly one
  audit entry, which names the operation and says whether it was allowed; only a call outside any
  prepared root is refused without an entry.\<close>

lemma guard_decisions_audited:
  assumes "newGuard address doc rd au = Inr g" "Prepare reader (Some g) entropy ctx a st = (res, st1)"
    and "cx_Frame ctx2 = Some f" "fr_guard f = g" "RequireExecuted reader' ctx2 i st2 = (res2, st3)"
  shows "audited st st1 (ao_Operation a) (\<not> isl res) \<and> audited st2 st3 i (res2 = None)"
proof
  note ids = newGuard_operations(7) [OF assms(1)]
  show "audited st st1 (ao_Operation a) (\<not> isl res)"
  proof (cases "g_operations g (ao_Operation a)")
    case None
    with assms(2) show ?thesis by (auto simp: Prepare_def Let_def split: if_splits prod.splits dest: guard_fail_audited)
  next
    case (Some c)
    with assms(2) ids [OF Some] show ?thesis
      by (auto simp: Prepare_def Let_def split: if_splits prod.splits option.splits dest: guard_fail_audited check_audited)
  qed
  show "audited st2 st3 i (res2 = None)"
  proof (cases "g_operations g i")
    case None
    with assms(3-5) show ?thesis by (auto simp: RequireExecuted_def Let_def split: if_splits prod.splits dest: guard_fail_audited)
  next
    case (Some c)
    with assms(3-5) ids [OF Some] show ?thesis
      by (auto simp: RequireExecuted_def Let_def split: if_splits prod.splits dest: guard_fail_audited check_audited)
  qed
qed

lemma guard_decisions_audited_witness:
  "audited ex_state (snd ex_prepared) ''order.create'' True \<and>
   audited (snd ex_prepared) (snd (RequireExecuted ex_reader (projr (fst ex_prepared)) ''no.such'' (snd ex_prepared))) ''no.such'' False"
proof -
  let ?run = "RequireExecuted ex_reader (projr (fst ex_prepared)) ''no.such'' (snd ex_prepared)"
  have "fst ?run \<noteq> None" by code_simp
  obtain f where f: "cx_Frame (projr (fst ex_prepared)) = Some f" "fr_guard f = ex_guard"
    using ex_prepared_ok by (rule Prepare_passes) simp
  have "?run = (fst ?run, snd ?run)" by simp
  then have "audited ex_state (snd ex_prepared) (ao_Operation ex_authorized) (\<not> isl (Inr (projr (fst ex_prepared)) :: guard_error + Context)) \<and>
      audited (snd ex_prepared) (snd ?run) ''no.such'' (fst ?run = None)"
    by (rule guard_decisions_audited [OF ex_guard_ok ex_prepared_ok f])
  then show ?thesis using \<open>fst ?run \<noteq> None\<close> by (simp add: ex_authorized_def)
qed

end
