(* ===== verification/Module_Catalogue.thy ===== *)
theory Module_Catalogue
  imports Override_Ledger
begin

section \<open>The module catalogue\<close>

text \<open>
  \<open>internal/commercial/modulecatalog\<close>: the registry of the modules the code declares (\<open>model.go\<close>,
  \<open>definitions.go\<close>), the tables (\<open>store.go\<close>), the service (\<open>service.go\<close>) and the projections other
  components read (\<open>current_catalog.go\<close>, \<open>plan_catalog.go\<close>, \<open>snapshot_projection.go\<close>, \<open>scoped_read.go\<close>), with
  the catalogue lock of \<open>internal/commercial/infrastructure/consistency\<close>.
  A registry is the list of its definitions, in the order in which the map is ranged over. Values
  stored as JSON (sales scope, audit images, responses) are kept as values. Every write is one
  transaction over the tables: on an error they stay as they were. The module references held by
  other components are an argument, one list per table, \<open>None\<close> for a table that does not exist.
\<close>

subsection \<open>Registry\<close>

datatype cat_error =
    Cat_NotFound | Cat_Conflict | Cat_UnknownDefinition | Cat_ImplementationUnavailable
  | Cat_DependencyMissing | Cat_DependencyCycle | Cat_Referenced | Cat_CodeRetired
  | Cat_PlatformPrincipalRequired | Cat_InvalidRequest | Cat_RuntimeAdmissionRequired
  | Cat_RuntimeVerifierRequired | Cat_StateLost | Cat_DuplicateKey | Cat_OutOfRange | Cat_Catalog ent_error

abbreviation TechnicalNotReady :: string where "TechnicalNotReady \<equiv> ''not_ready''"
abbreviation TechnicalReady :: string where "TechnicalReady \<equiv> ''ready''"
abbreviation TechnicalDisabled :: string where "TechnicalDisabled \<equiv> ''disabled''"
abbreviation SalesSellable :: string where "SalesSellable \<equiv> ''sellable''"
abbreviation SalesRetired :: string where "SalesRetired \<equiv> ''retired''"

record Definition =
  df_Code :: string
  df_CapabilityCodes :: "string list"
  df_QuotaSchemaKeys :: "string list"
  df_FieldPolicySchemaKeys :: "string list"
  df_Dependencies :: "string list"
  df_ImplementationReady :: bool

type_synonym Registry = "Definition list"

definition normalized :: "string list \<Rightarrow> string list" where
  "normalized values = sort (remdups (filter (\<lambda>v. v \<noteq> '''') (map TrimSpace values)))"

definition registry_Definition :: "Registry \<Rightarrow> string \<Rightarrow> Definition option" where
  "registry_Definition r code = find (\<lambda>d. df_Code d = code) r"

definition registry_deps :: "Registry \<Rightarrow> string \<Rightarrow> string list" where
  "registry_deps r code = (case registry_Definition r code of None \<Rightarrow> [] | Some d \<Rightarrow> df_Dependencies d)"

text \<open>The first loop of \<open>Validate\<close> and the closure \<open>visit\<close>, with fuel as in the catalogue validation.\<close>

definition check_dependency :: "Registry \<Rightarrow> string \<Rightarrow> string \<Rightarrow> cat_error err" where
  "check_dependency r code dep =
     (if dep = code then Some Cat_DependencyCycle
      else if registry_Definition r dep = None then Some Cat_DependencyMissing else None)"

fun reg_visit :: "Registry \<Rightarrow> nat \<Rightarrow> (string \<Rightarrow> nat) \<Rightarrow> string \<Rightarrow> (cat_error + (string \<Rightarrow> nat)) option"
  and reg_visit_all :: "Registry \<Rightarrow> nat \<Rightarrow> (string \<Rightarrow> nat) \<Rightarrow> string list \<Rightarrow> (cat_error + (string \<Rightarrow> nat)) option"
where
  "reg_visit r 0 state code = None"
| "reg_visit r (Suc n) state code =
     (if state code = 1 then Some (Inl Cat_DependencyCycle)
      else if state code = 2 then Some (Inr state)
      else case reg_visit_all r n (state(code := 1)) (registry_deps r code) of
        Some (Inr state') \<Rightarrow> Some (Inr (state'(code := 2)))
      | res \<Rightarrow> res)"
| "reg_visit_all r n state [] = Some (Inr state)"
| "reg_visit_all r n state (d # ds) =
     (case reg_visit r n state d of
        Some (Inr state') \<Rightarrow> reg_visit_all r n state' ds
      | res \<Rightarrow> res)"

definition registry_Validate :: "Registry \<Rightarrow> cat_error err" where
  "registry_Validate r =
     or_else (for_each_err (\<lambda>d. for_each_err (check_dependency r (df_Code d)) (df_Dependencies d)) r)
       (case reg_visit_all r (Suc (length r)) (\<lambda>_. 0) (map df_Code r) of
          Some (Inr _) \<Rightarrow> None
        | Some (Inl e) \<Rightarrow> Some e
        | None \<Rightarrow> Some Cat_DependencyCycle)"

definition normalized_definition :: "Definition \<Rightarrow> Definition" where
  "normalized_definition d = d\<lparr>df_Code := TrimSpace (df_Code d), df_CapabilityCodes := normalized (df_CapabilityCodes d),
     df_QuotaSchemaKeys := normalized (df_QuotaSchemaKeys d), df_FieldPolicySchemaKeys := normalized (df_FieldPolicySchemaKeys d),
     df_Dependencies := normalized (df_Dependencies d)\<rparr>"

definition NewRegistry :: "Definition list \<Rightarrow> cat_error + Registry" where
  "NewRegistry definitions =
     (let r = map normalized_definition definitions in
      case or_else (seen_loop (\<lambda>d. df_Code d = '''') df_Code Cat_InvalidRequest [] r) (registry_Validate r) of
        Some e \<Rightarrow> Inl e
      | None \<Rightarrow> Inr r)"

definition ProductionRegistry :: Registry where
  "ProductionRegistry = projr (NewRegistry
     [\<lparr>df_Code = ''access-management'', df_CapabilityCodes = [''tenant.lifecycle'', ''tenant.member.lifecycle'', ''tenant.role.permission''],
       df_QuotaSchemaKeys = [''tenant.members''], df_FieldPolicySchemaKeys = [''member.profile''], df_Dependencies = [],
       df_ImplementationReady = True\<rparr>,
      \<lparr>df_Code = ''device-operations'', df_CapabilityCodes = [''device.lifecycle'', ''device.transfer''],
       df_QuotaSchemaKeys = [''tenant.devices''], df_FieldPolicySchemaKeys = [''device.identity''], df_Dependencies = [],
       df_ImplementationReady = True\<rparr>])"

definition registry_Definitions :: "Registry \<Rightarrow> Definition list" where
  "registry_Definitions r = sort_key df_Code r"

subsection \<open>Tables\<close>

record Module =
  md_Code :: string
  md_Name :: string
  md_Category :: string
  md_SalesScope :: "string list"
  md_TechnicalStatus :: string
  md_SalesStatus :: string
  md_CapabilityCodes :: "string list"
  md_QuotaSchemaKeys :: "string list"
  md_FieldPolicySchemaKeys :: "string list"
  md_Dependencies :: "string list"
  md_Version :: uint64
  md_CreatedAt :: time
  md_UpdatedAt :: time

record moduleRow =
  mr_Code :: string
  mr_Name :: string
  mr_Category :: string
  mr_SalesScope :: "string list"
  mr_TechnicalStatus :: string
  mr_SalesStatus :: string
  mr_Version :: uint64
  mr_CreatedAt :: time
  mr_UpdatedAt :: time

record auditRow =
  ar_ModuleCode :: string
  ar_Actor :: string
  ar_Action :: string
  ar_Before :: "Module option"
  ar_After :: "Module option"
  ar_Reason :: string
  ar_RequestID :: string
  ar_CreatedAt :: time

text \<open>The stored response of a request: the module, or the note of a deletion.\<close>

datatype cat_response = Resp_Module Module | Resp_Deleted string

record idempotencyRow =
  id_Operation :: string
  id_ModuleCode :: string
  id_Response :: cat_response
  id_CreatedAt :: time

record runtimeVerificationRow =
  rv_EvidenceDigest :: string
  rv_SourceTree :: string
  rv_Actor :: string
  rv_CreatedAt :: time

record CatalogDB =
  cdb_state :: "uint64 option"
  cdb_modules :: "moduleRow list"
  cdb_deps :: "(string \<times> string) list"
  cdb_retired :: "string list"
  cdb_audit :: "auditRow list"
  cdb_receipts :: "string \<rightharpoonup> idempotencyRow"
  cdb_verified :: "string \<times> uint64 \<rightharpoonup> runtimeVerificationRow"

definition rowToModule :: "moduleRow \<Rightarrow> Definition \<Rightarrow> Module" where
  "rowToModule row d = \<lparr>md_Code = mr_Code row, md_Name = mr_Name row, md_Category = mr_Category row, md_SalesScope = mr_SalesScope row,
     md_TechnicalStatus = mr_TechnicalStatus row, md_SalesStatus = mr_SalesStatus row, md_CapabilityCodes = df_CapabilityCodes d,
     md_QuotaSchemaKeys = df_QuotaSchemaKeys d, md_FieldPolicySchemaKeys = df_FieldPolicySchemaKeys d, md_Dependencies = df_Dependencies d,
     md_Version = mr_Version row, md_CreatedAt = mr_CreatedAt row, md_UpdatedAt = mr_UpdatedAt row\<rparr>"

definition find_row :: "CatalogDB \<Rightarrow> string \<Rightarrow> moduleRow option" where
  "find_row db code = find (\<lambda>row. mr_Code row = code) (cdb_modules db)"

definition LockCatalog :: "CatalogDB \<Rightarrow> cat_error + uint64" where
  "LockCatalog db = (case cdb_state db of None \<Rightarrow> Inl Cat_StateLost | Some v \<Rightarrow> if v = 0 then Inl Cat_StateLost else Inr v)"

definition AdvanceCatalog :: "CatalogDB \<Rightarrow> cat_error + CatalogDB" where
  "AdvanceCatalog db =
     (case cdb_state db of
        None \<Rightarrow> Inl Cat_StateLost
      | Some v \<Rightarrow> if v < MaxUint64 then Inr (db\<lparr>cdb_state := Some (v + 1)\<rparr>) else Inl Cat_StateLost)"

definition transact :: "CatalogDB \<Rightarrow> (CatalogDB \<Rightarrow> cat_error + 'a) \<Rightarrow> cat_error + 'a" where
  "transact db fn = bind_result (LockCatalog db) (\<lambda>_. fn db)"

definition writeAudit :: "auditRow \<Rightarrow> CatalogDB \<Rightarrow> cat_error + CatalogDB" where
  "writeAudit a db = bind_result (AdvanceCatalog db) (\<lambda>db'. Inr (db'\<lparr>cdb_audit := a # cdb_audit db'\<rparr>))"

definition saveIdempotent :: "string \<Rightarrow> idempotencyRow \<Rightarrow> CatalogDB \<Rightarrow> cat_error + CatalogDB" where
  "saveIdempotent requestID row db =
     (if cdb_receipts db requestID \<noteq> None then Inl Cat_DuplicateKey
      else Inr (db\<lparr>cdb_receipts := (cdb_receipts db)(requestID \<mapsto> row)\<rparr>))"

text \<open>Decoding the note of a deletion as a module leaves every field at its zero value.\<close>

definition response_module :: "cat_response \<Rightarrow> Module" where
  "response_module r = (case r of Resp_Module m \<Rightarrow> m | Resp_Deleted _ \<Rightarrow>
     \<lparr>md_Code = '''', md_Name = '''', md_Category = '''', md_SalesScope = [], md_TechnicalStatus = '''', md_SalesStatus = '''',
      md_CapabilityCodes = [], md_QuotaSchemaKeys = [], md_FieldPolicySchemaKeys = [], md_Dependencies = [], md_Version = 0,
      md_CreatedAt = 0, md_UpdatedAt = 0\<rparr>)"

definition loadIdempotent :: "CatalogDB \<Rightarrow> string \<Rightarrow> string \<Rightarrow> string \<Rightarrow> cat_error + Module option" where
  "loadIdempotent db requestID operation code =
     (case cdb_receipts db requestID of
        None \<Rightarrow> Inr None
      | Some row \<Rightarrow>
        if id_Operation row \<noteq> operation \<or> id_ModuleCode row \<noteq> code then Inl Cat_InvalidRequest
        else Inr (Some (response_module (id_Response row))))"

definition loadDeleteIdempotent :: "CatalogDB \<Rightarrow> string \<Rightarrow> string \<Rightarrow> cat_error + bool" where
  "loadDeleteIdempotent db requestID code =
     (case cdb_receipts db requestID of
        None \<Rightarrow> Inr False
      | Some row \<Rightarrow> if id_Operation row \<noteq> ''delete'' \<or> id_ModuleCode row \<noteq> code then Inl Cat_InvalidRequest else Inr True)"

subsection \<open>Callers\<close>

record ServicePrincipal = Principal +
  sp_Roles :: "string list"
  sp_AuthMethod :: string

definition platformActor :: "ServicePrincipal option \<Rightarrow> cat_error + string" where
  "platformActor ctx =
     (case ctx of
        None \<Rightarrow> Inl Cat_PlatformPrincipalRequired
      | Some p \<Rightarrow>
        if \<not> pr_Authenticated p \<or> pr_Subject p = '''' \<or> pr_TenantID p \<noteq> '''' then Inl Cat_PlatformPrincipalRequired
        else Inr (pr_Subject p))"

definition runtimeVerifier :: "string \<Rightarrow> ServicePrincipal option \<Rightarrow> cat_error + string" where
  "runtimeVerifier apiKey ctx =
     (case ctx of
        None \<Rightarrow> Inl Cat_RuntimeVerifierRequired
      | Some p \<Rightarrow>
        if \<not> pr_Authenticated p \<or> ''signed-service-api'' \<notin> set (sp_Roles p) \<or> \<not> starts_with ''ci-verifier:'' (pr_Subject p) \<or>
           pr_TenantID p \<noteq> '''' \<or> sp_AuthMethod p \<noteq> apiKey then Inl Cat_RuntimeVerifierRequired
        else Inr (pr_Subject p))"

definition catalog_validWrite :: "string \<Rightarrow> string \<Rightarrow> bool" where
  "catalog_validWrite requestID reason \<longleftrightarrow> TrimSpace requestID \<noteq> '''' \<and> TrimSpace reason \<noteq> ''''"

subsection \<open>Writes\<close>

record CreateCommand =
  cc_RequestID :: string
  cc_Code :: string
  cc_Name :: string
  cc_Category :: string
  cc_Reason :: string
  cc_SalesScope :: "string list"

record UpdateCommand =
  uc_RequestID :: string
  uc_Code :: string
  uc_Name :: string
  uc_Category :: string
  uc_Reason :: string
  uc_SalesScope :: "string list"
  uc_Version :: uint64

record StatusCommand =
  sc_RequestID :: string
  sc_Code :: string
  sc_Reason :: string
  sc_Version :: uint64
  sc_Technical :: string
  sc_Sales :: string

record DeleteCommand =
  dc_RequestID :: string
  dc_Code :: string
  dc_Reason :: string
  dc_Version :: uint64

record RuntimeVerificationCommand =
  vc_ModuleCode :: string
  vc_EvidenceDigest :: string
  vc_SourceTree :: string
  vc_ModuleVersion :: uint64

definition create_module_tx :: "string \<Rightarrow> Definition \<Rightarrow> time \<Rightarrow> CreateCommand \<Rightarrow> CatalogDB \<Rightarrow> cat_error + Module \<times> CatalogDB" where
  "create_module_tx who d now c db =
     bind_result (loadIdempotent db (cc_RequestID c) ''create'' (cc_Code c)) (\<lambda>prior.
     case prior of Some m \<Rightarrow> Inr (m, db) | None \<Rightarrow>
       if cc_Code c \<in> set (cdb_retired db) then Inl Cat_CodeRetired
       else if \<exists>dep \<in> set (df_Dependencies d). find_row db dep = None then Inl Cat_DependencyMissing
       else if find_row db (cc_Code c) \<noteq> None then Inl Cat_DuplicateKey
       else if \<exists>dep \<in> set (df_Dependencies d). (cc_Code c, dep) \<in> set (cdb_deps db) then Inl Cat_DuplicateKey
       else
         let row = \<lparr>mr_Code = cc_Code c, mr_Name = cc_Name c, mr_Category = cc_Category c, mr_SalesScope = normalized (cc_SalesScope c),
               mr_TechnicalStatus = (if df_ImplementationReady d then TechnicalReady else TechnicalNotReady),
               mr_SalesStatus = SalesRetired, mr_Version = 1, mr_CreatedAt = now, mr_UpdatedAt = now\<rparr>;
             out = rowToModule row d
         in bind_result (writeAudit \<lparr>ar_ModuleCode = cc_Code c, ar_Actor = who, ar_Action = ''create'', ar_Before = None, ar_After = Some out,
                 ar_Reason = cc_Reason c, ar_RequestID = cc_RequestID c, ar_CreatedAt = now\<rparr>
               (db\<lparr>cdb_modules := row # cdb_modules db, cdb_deps := map (Pair (cc_Code c)) (df_Dependencies d) @ cdb_deps db\<rparr>)) (\<lambda>db1.
            bind_result (saveIdempotent (cc_RequestID c) \<lparr>id_Operation = ''create'', id_ModuleCode = cc_Code c, id_Response = Resp_Module out,
                 id_CreatedAt = now\<rparr> db1) (\<lambda>db2. Inr (out, db2))))"

definition module_Create :: "Registry \<Rightarrow> ServicePrincipal option \<Rightarrow> time \<Rightarrow> CreateCommand \<Rightarrow> CatalogDB \<Rightarrow> cat_error + Module \<times> CatalogDB" where
  "module_Create r ctx now c db =
     bind_result (platformActor ctx) (\<lambda>who.
     if \<not> catalog_validWrite (cc_RequestID c) (cc_Reason c) \<or> TrimSpace (cc_Code c) = '''' \<or> TrimSpace (cc_Name c) = '''' then Inl Cat_InvalidRequest
     else case registry_Definition r (cc_Code c) of
       None \<Rightarrow> Inl Cat_UnknownDefinition
     | Some d \<Rightarrow> transact db (create_module_tx who d now c))"

definition runtimeVerified :: "CatalogDB \<Rightarrow> string \<Rightarrow> uint64 \<Rightarrow> bool" where
  "runtimeVerified db code version \<longleftrightarrow> cdb_verified db (code, version) \<noteq> None"

definition mutate_tx ::
  "string \<Rightarrow> Definition \<Rightarrow> time \<Rightarrow> string \<Rightarrow> string \<Rightarrow> string \<Rightarrow> uint64 \<Rightarrow> string \<Rightarrow> bool \<Rightarrow> (moduleRow \<Rightarrow> Definition \<Rightarrow> cat_error + moduleRow)
     \<Rightarrow> CatalogDB \<Rightarrow> cat_error + Module \<times> CatalogDB" where
  "mutate_tx who d now requestID code reason version op' requireRuntimeAdmission change db =
     bind_result (loadIdempotent db requestID op' code) (\<lambda>prior.
     case prior of Some m \<Rightarrow> Inr (m, db) | None \<Rightarrow>
     case find_row db code of
       None \<Rightarrow> Inl Cat_NotFound
     | Some row \<Rightarrow>
       if mr_Version row \<noteq> version then Inl Cat_Conflict
       else if requireRuntimeAdmission \<and> \<not> runtimeVerified db code version then Inl Cat_RuntimeAdmissionRequired
       else bind_result (change row d) (\<lambda>row1.
         let retire = (op' = ''update'' \<or> op' = ''technical_status'');
             bump = (op' \<noteq> ''sales_status'');
             row2 = (if retire then row1\<lparr>mr_SalesStatus := SalesRetired\<rparr> else row1);
             row3 = row2\<lparr>mr_Version := (if bump then version + 1 else version), mr_UpdatedAt := now\<rparr>;
             out = rowToModule row3 d
         in if bump \<and> version = MaxUint64 then Inl Cat_OutOfRange
         else bind_result (writeAudit \<lparr>ar_ModuleCode = code, ar_Actor = who, ar_Action = op', ar_Before = Some (rowToModule row d),
                 ar_After = Some out, ar_Reason = reason, ar_RequestID = requestID, ar_CreatedAt = now\<rparr>
               (db\<lparr>cdb_modules := map (\<lambda>x. if mr_Code x = code \<and> mr_Version x = version then row3 else x) (cdb_modules db)\<rparr>)) (\<lambda>db1.
            bind_result (saveIdempotent requestID \<lparr>id_Operation = op', id_ModuleCode = code, id_Response = Resp_Module out,
                 id_CreatedAt = now\<rparr> db1) (\<lambda>db2. Inr (out, db2)))))"

definition mutate ::
  "Registry \<Rightarrow> ServicePrincipal option \<Rightarrow> time \<Rightarrow> string \<Rightarrow> string \<Rightarrow> string \<Rightarrow> uint64 \<Rightarrow> string \<Rightarrow> bool
     \<Rightarrow> (moduleRow \<Rightarrow> Definition \<Rightarrow> cat_error + moduleRow) \<Rightarrow> CatalogDB \<Rightarrow> cat_error + Module \<times> CatalogDB" where
  "mutate r ctx now requestID code reason version op' requireRuntimeAdmission change db =
     bind_result (platformActor ctx) (\<lambda>who.
     if \<not> catalog_validWrite requestID reason \<or> version = 0 then Inl Cat_InvalidRequest
     else case registry_Definition r code of
       None \<Rightarrow> Inl Cat_UnknownDefinition
     | Some d \<Rightarrow> transact db (mutate_tx who d now requestID code reason version op' requireRuntimeAdmission change))"

definition module_Update :: "Registry \<Rightarrow> ServicePrincipal option \<Rightarrow> time \<Rightarrow> UpdateCommand \<Rightarrow> CatalogDB \<Rightarrow> cat_error + Module \<times> CatalogDB" where
  "module_Update r ctx now c =
     mutate r ctx now (uc_RequestID c) (uc_Code c) (uc_Reason c) (uc_Version c) ''update'' False (\<lambda>row d.
       if TrimSpace (uc_Name c) = '''' then Inl Cat_InvalidRequest
       else Inr (row\<lparr>mr_Name := uc_Name c, mr_Category := uc_Category c, mr_SalesScope := normalized (uc_SalesScope c)\<rparr>))"

definition SetSalesStatus :: "Registry \<Rightarrow> ServicePrincipal option \<Rightarrow> time \<Rightarrow> StatusCommand \<Rightarrow> CatalogDB \<Rightarrow> cat_error + Module \<times> CatalogDB" where
  "SetSalesStatus r ctx now c db =
     (if sc_Sales c \<noteq> SalesSellable \<and> sc_Sales c \<noteq> SalesRetired then Inl Cat_InvalidRequest
      else mutate r ctx now (sc_RequestID c) (sc_Code c) (sc_Reason c) (sc_Version c) ''sales_status'' (sc_Sales c = SalesSellable)
        (\<lambda>row d. Inr (row\<lparr>mr_SalesStatus := sc_Sales c\<rparr>)) db)"

definition SetTechnicalStatus :: "Registry \<Rightarrow> ServicePrincipal option \<Rightarrow> time \<Rightarrow> StatusCommand \<Rightarrow> CatalogDB \<Rightarrow> cat_error + Module \<times> CatalogDB" where
  "SetTechnicalStatus r ctx now c db =
     (if sc_Technical c \<noteq> TechnicalNotReady \<and> sc_Technical c \<noteq> TechnicalReady \<and> sc_Technical c \<noteq> TechnicalDisabled then Inl Cat_InvalidRequest
      else mutate r ctx now (sc_RequestID c) (sc_Code c) (sc_Reason c) (sc_Version c) ''technical_status'' False
        (\<lambda>row d. if sc_Technical c = TechnicalReady \<and> \<not> df_ImplementationReady d then Inl Cat_ImplementationUnavailable
               else Inr (row\<lparr>mr_TechnicalStatus := sc_Technical c\<rparr>)) db)"

definition record_verification_tx :: "string \<Rightarrow> time \<Rightarrow> RuntimeVerificationCommand \<Rightarrow> CatalogDB \<Rightarrow> cat_error + CatalogDB" where
  "record_verification_tx who now c db =
     (case find_row db (vc_ModuleCode c) of
        None \<Rightarrow> Inl Cat_NotFound
      | Some row \<Rightarrow>
        if mr_Version row \<noteq> vc_ModuleVersion c then Inl Cat_Conflict
        else case cdb_verified db (vc_ModuleCode c, vc_ModuleVersion c) of
          Some prior \<Rightarrow>
            if rv_EvidenceDigest prior \<noteq> vc_EvidenceDigest c \<or> rv_SourceTree prior \<noteq> vc_SourceTree c \<or> rv_Actor prior \<noteq> who
              then Inl Cat_InvalidRequest else Inr db
        | None \<Rightarrow> Inr (db\<lparr>cdb_verified := (cdb_verified db)((vc_ModuleCode c, vc_ModuleVersion c) \<mapsto>
            \<lparr>rv_EvidenceDigest = vc_EvidenceDigest c, rv_SourceTree = vc_SourceTree c, rv_Actor = who, rv_CreatedAt = now\<rparr>)\<rparr>))"

definition RecordRuntimeVerification ::
  "string \<Rightarrow> Registry \<Rightarrow> ServicePrincipal option \<Rightarrow> time \<Rightarrow> RuntimeVerificationCommand \<Rightarrow> CatalogDB \<Rightarrow> cat_error + CatalogDB" where
  "RecordRuntimeVerification apiKey r ctx now c db =
     bind_result (runtimeVerifier apiKey ctx) (\<lambda>who.
     if TrimSpace (vc_ModuleCode c) = '''' \<or> vc_ModuleVersion c = 0 \<or> length (vc_EvidenceDigest c) \<noteq> 64 \<or> length (vc_SourceTree c) \<noteq> 64
       then Inl Cat_InvalidRequest
     else if registry_Definition r (vc_ModuleCode c) = None then Inl Cat_UnknownDefinition
     else transact db (record_verification_tx who now c))"

definition referenced_elsewhere :: "string list option list \<Rightarrow> string \<Rightarrow> bool" where
  "referenced_elsewhere tables code \<longleftrightarrow> list_ex (\<lambda>t. case t of None \<Rightarrow> False | Some codes \<Rightarrow> code \<in> set codes) tables"

definition delete_module_tx ::
  "string list option list \<Rightarrow> string \<Rightarrow> Definition \<Rightarrow> time \<Rightarrow> DeleteCommand \<Rightarrow> CatalogDB \<Rightarrow> cat_error + CatalogDB" where
  "delete_module_tx tables who d now c db =
     bind_result (loadDeleteIdempotent db (dc_RequestID c) (dc_Code c)) (\<lambda>prior.
     if prior then Inr db else
     case find_row db (dc_Code c) of
       None \<Rightarrow> Inl Cat_NotFound
     | Some row \<Rightarrow>
       if mr_Version row \<noteq> dc_Version c then Inl Cat_Conflict
       else if list_ex (\<lambda>(m, dep). dep = dc_Code c) (cdb_deps db) then Inl Cat_Referenced
       else if referenced_elsewhere tables (dc_Code c) then Inl Cat_Referenced
       else if dc_Code c \<in> set (cdb_retired db) then Inl Cat_DuplicateKey
       else bind_result (writeAudit \<lparr>ar_ModuleCode = dc_Code c, ar_Actor = who, ar_Action = ''delete'', ar_Before = Some (rowToModule row d),
                 ar_After = None, ar_Reason = dc_Reason c, ar_RequestID = dc_RequestID c, ar_CreatedAt = now\<rparr>
               (db\<lparr>cdb_deps := filter (\<lambda>(m, dep). m \<noteq> dc_Code c) (cdb_deps db),
                   cdb_modules := filter (\<lambda>x. \<not> (mr_Code x = dc_Code c \<and> mr_Version x = dc_Version c)) (cdb_modules db),
                   cdb_retired := dc_Code c # cdb_retired db\<rparr>))
              (saveIdempotent (dc_RequestID c) \<lparr>id_Operation = ''delete'', id_ModuleCode = dc_Code c, id_Response = Resp_Deleted (dc_Code c),
                 id_CreatedAt = now\<rparr>))"

definition module_Delete ::
  "Registry \<Rightarrow> string list option list \<Rightarrow> ServicePrincipal option \<Rightarrow> time \<Rightarrow> DeleteCommand \<Rightarrow> CatalogDB \<Rightarrow> cat_error + CatalogDB" where
  "module_Delete r tables ctx now c db =
     bind_result (platformActor ctx) (\<lambda>who.
     if \<not> catalog_validWrite (dc_RequestID c) (dc_Reason c) \<or> dc_Version c = 0 then Inl Cat_InvalidRequest
     else case registry_Definition r (dc_Code c) of
       None \<Rightarrow> Inl Cat_UnknownDefinition
     | Some d \<Rightarrow> transact db (delete_module_tx tables who d now c))"

subsection \<open>Reads\<close>

definition ordered_rows :: "CatalogDB \<Rightarrow> moduleRow list" where
  "ordered_rows db = sort_key mr_Code (cdb_modules db)"

definition module_Get :: "Registry \<Rightarrow> CatalogDB \<Rightarrow> string \<Rightarrow> cat_error + Module" where
  "module_Get r db code =
     (case find_row db code of
        None \<Rightarrow> Inl Cat_NotFound
      | Some row \<Rightarrow> case registry_Definition r code of None \<Rightarrow> Inl Cat_UnknownDefinition | Some d \<Rightarrow> Inr (rowToModule row d))"

definition module_List :: "Registry \<Rightarrow> CatalogDB \<Rightarrow> Module list" where
  "module_List r db =
     concat (map (\<lambda>row. case registry_Definition r (mr_Code row) of None \<Rightarrow> [] | Some d \<Rightarrow> [rowToModule row d]) (ordered_rows db))"

fun map_result :: "('a \<Rightarrow> 'e + 'b) \<Rightarrow> 'a list \<Rightarrow> 'e + 'b list" where
  "map_result f [] = Inr []"
| "map_result f (x # xs) = bind_result (f x) (\<lambda>y. bind_result (map_result f xs) (\<lambda>ys. Inr (y # ys)))"

definition ListInScope :: "Registry \<Rightarrow> CatalogDB \<Rightarrow> cat_error + Module list" where
  "ListInScope r db = map_result (\<lambda>row.
     case registry_Definition r (mr_Code row) of
       None \<Rightarrow> Inl Cat_UnknownDefinition
     | Some d \<Rightarrow> let m = rowToModule row d in Inr (if df_ImplementationReady d then m else m\<lparr>md_TechnicalStatus := TechnicalNotReady\<rparr>)) (ordered_rows db)"

definition ListPlanCatalogInScope :: "Registry \<Rightarrow> CatalogDB \<Rightarrow> cat_error + Module list" where
  "ListPlanCatalogInScope r db = bind_result (LockCatalog db) (\<lambda>_. map_result (\<lambda>row.
     case registry_Definition r (mr_Code row) of
       None \<Rightarrow> Inl Cat_UnknownDefinition
     | Some d \<Rightarrow>
       let m = rowToModule row d;
           m1 = (if df_ImplementationReady d then m else m\<lparr>md_TechnicalStatus := TechnicalNotReady\<rparr>)
       in Inr (if runtimeVerified db (md_Code m1) (md_Version m1) then m1 else m1\<lparr>md_SalesStatus := SalesRetired\<rparr>)) (ordered_rows db))"

definition validated :: "Catalog \<Rightarrow> cat_error + Catalog" where
  "validated c = (case Catalog_Validate c of None \<Rightarrow> Inr c | Some e \<Rightarrow> Inl (Cat_Catalog e))"

definition row_definition :: "moduleRow \<Rightarrow> Definition \<Rightarrow> string \<Rightarrow> ModuleDefinition" where
  "row_definition row d sales =
     \<lparr>mod_Code = mr_Code row, mod_TechnicalStatus = (if df_ImplementationReady d then mr_TechnicalStatus row else TechnicalNotReady),
      mod_SalesStatus = sales, mod_Version = mr_Version row, mod_Capabilities = df_CapabilityCodes d, mod_QuotaKeys = df_QuotaSchemaKeys d,
      mod_FieldKeys = df_FieldPolicySchemaKeys d, mod_Dependencies = df_Dependencies d\<rparr>"

definition ReadSnapshotCatalog :: "Registry \<Rightarrow> CatalogDB \<Rightarrow> cat_error + Catalog" where
  "ReadSnapshotCatalog r db = bind_result (map_result (\<lambda>row.
     case registry_Definition r (mr_Code row) of
       None \<Rightarrow> Inl Cat_UnknownDefinition
     | Some d \<Rightarrow> Inr (row_definition row d (mr_SalesStatus row))) (ordered_rows db)) validated"

definition module_projection :: "Module \<Rightarrow> ModuleDefinition" where
  "module_projection m =
     \<lparr>mod_Code = md_Code m, mod_TechnicalStatus = md_TechnicalStatus m, mod_SalesStatus = md_SalesStatus m, mod_Version = md_Version m,
      mod_Capabilities = md_CapabilityCodes m, mod_QuotaKeys = md_QuotaSchemaKeys m, mod_FieldKeys = md_FieldPolicySchemaKeys m,
      mod_Dependencies = md_Dependencies m\<rparr>"

text \<open>The argument \<open>scope\<close> says whether the caller runs inside an execution scope.\<close>

definition ReadCurrentCatalog :: "bool \<Rightarrow> Registry \<Rightarrow> CatalogDB \<Rightarrow> cat_error + Catalog" where
  "ReadCurrentCatalog scope r db =
     (if scope then bind_result (ListInScope r db) (\<lambda>ms. validated (map module_projection ms))
      else bind_result (map_result (\<lambda>row.
        case registry_Definition r (mr_Code row) of
          None \<Rightarrow> Inl Cat_UnknownDefinition
        | Some d \<Rightarrow> Inr (row_definition row d (if runtimeVerified db (mr_Code row) (mr_Version row) then mr_SalesStatus row else SalesRetired)))
        (ordered_rows db)) validated)"

section \<open>The registry\<close>

definition reg_catalog :: "Registry \<Rightarrow> Catalog" where
  "reg_catalog r = map (\<lambda>d. \<lparr>mod_Code = df_Code d, mod_TechnicalStatus = TechnicalReady, mod_SalesStatus = SalesRetired, mod_Version = 1,
     mod_Capabilities = df_CapabilityCodes d, mod_QuotaKeys = df_QuotaSchemaKeys d, mod_FieldKeys = df_FieldPolicySchemaKeys d,
     mod_Dependencies = df_Dependencies d\<rparr>) r"

definition reg_closed :: "Registry \<Rightarrow> bool" where
  "reg_closed r \<longleftrightarrow> (\<forall>d \<in> set r. \<forall>dep \<in> set (df_Dependencies d). dep \<in> df_Code ` set r)"

lemma registry_Definition_Some: "registry_Definition r code = Some d \<Longrightarrow> d \<in> set r \<and> df_Code d = code"
  by (auto simp: registry_Definition_def find_Some_iff)

lemma registry_Definition_None: "registry_Definition r code = None \<longleftrightarrow> code \<notin> df_Code ` set r"
  by (auto simp: registry_Definition_def find_None_iff)

lemma registry_Definition_member: "distinct (map df_Code r) \<Longrightarrow> d \<in> set r \<Longrightarrow> registry_Definition r (df_Code d) = Some d"
  by (induction r) (auto simp: registry_Definition_def)

lemma reg_catalog_known [simp]: "known (reg_catalog r) = df_Code ` set r" "map mod_Code (reg_catalog r) = map df_Code r"
  "length (reg_catalog r) = length r"
  by (auto simp: reg_catalog_def image_image)

lemma reg_catalog_Definition:
  "map_option mod_Dependencies (Catalog_Definition (reg_catalog r) code) = map_option df_Dependencies (registry_Definition r code)"
  by (induction r) (auto simp: reg_catalog_def registry_Definition_def)

text \<open>On a closed registry the search is the one of the catalogue validation.\<close>

abbreviation as_cycle :: "(ent_error + (string \<Rightarrow> nat)) option \<Rightarrow> (cat_error + (string \<Rightarrow> nat)) option" where
  "as_cycle \<equiv> map_option (map_sum (\<lambda>_. Cat_DependencyCycle) (\<lambda>st. st))"

lemma registry_deps_closed: "reg_closed r \<Longrightarrow> set (registry_deps r code) \<subseteq> df_Code ` set r"
  using registry_Definition_Some [of r code] by (fastforce simp: registry_deps_def reg_closed_def split: option.split)

lemma reg_visit_eq:
  "reg_closed r \<Longrightarrow> code \<in> df_Code ` set r \<Longrightarrow> reg_visit r n st code = as_cycle (visit (reg_catalog r) n st code)"
  "reg_closed r \<Longrightarrow> set ds \<subseteq> df_Code ` set r \<Longrightarrow> reg_visit_all r n st ds = as_cycle (visit_all (reg_catalog r) n st ds)"
proof (induction r n st code and r n st ds rule: reg_visit_reg_visit_all.induct)
  case (2 r n st code)
  from 2(3) obtain d where d: "registry_Definition r code = Some d" using registry_Definition_None [of r code] by auto
  with reg_catalog_Definition [of r code] obtain m where
      m: "Catalog_Definition (reg_catalog r) code = Some m" "mod_Dependencies m = df_Dependencies d" by auto
  have deps: "registry_deps r code = mod_Dependencies m" using d m(2) by (simp add: registry_deps_def)
  show ?case
  proof (cases "st code = 1 \<or> st code = 2")
    case False
    then have IH: "reg_visit_all r n (st(code := 1)) (mod_Dependencies m) = as_cycle (visit_all (reg_catalog r) n (st(code := 1)) (mod_Dependencies m))"
      using 2(1) [OF _ _ 2(2) registry_deps_closed [OF 2(2)]] deps by (simp add: fun_upd_def)
    show ?thesis
    proof (cases "visit_all (reg_catalog r) n (st(code := 1)) (mod_Dependencies m)")
      case (Some res)
      then show ?thesis using False IH m(1) deps by (cases res) simp_all
    qed (use False IH m(1) deps in simp)
  qed auto
next
  case (4 r n st d ds)
  then have v: "reg_visit r n st d = as_cycle (visit (reg_catalog r) n st d)" by simp
  show ?case
  proof (cases "visit (reg_catalog r) n st d")
    case (Some res)
    then show ?thesis using v 4 by (cases res) auto
  qed (use v in simp)
qed simp_all

lemma registry_Validate_sound:
  assumes "registry_Validate r = None" "distinct (map df_Code r)"
  shows "reg_closed r" "acyclic (dep_edges (reg_catalog r))"
proof -
  show closed: "reg_closed r"
    using assms(1) by (auto simp: registry_Validate_def reg_closed_def check_dependency_def registry_Definition_None split: if_splits)
  have "reg_visit_all r (Suc (length r)) (\<lambda>_. 0) (map df_Code r) =
      as_cycle (visit_all (reg_catalog r) (Suc (length (reg_catalog r))) (\<lambda>_. 0) (map mod_Code (reg_catalog r)))"
    using reg_visit_eq(2) [OF closed, of "map df_Code r"] by simp
  with assms visit_all_start [of "reg_catalog r"] show "acyclic (dep_edges (reg_catalog r))"
    by (auto simp: registry_Validate_def split: option.splits sum.splits)
qed

lemma NewRegistry_valid: "NewRegistry ds = Inr r \<Longrightarrow> distinct (map df_Code r) \<and> registry_Validate r = None \<and> r = map normalized_definition ds"
  by (auto simp: NewRegistry_def Let_def split: option.splits)

section \<open>The invariant of the tables\<close>

definition catrow_ok :: "Registry \<Rightarrow> string set \<Rightarrow> (string \<times> uint64 \<rightharpoonup> runtimeVerificationRow) \<Rightarrow> moduleRow \<Rightarrow> bool" where
  "catrow_ok r codes verified row \<longleftrightarrow>
     mr_Code row \<in> df_Code ` set r \<and> mr_Version row \<noteq> 0 \<and> mr_TechnicalStatus row \<in> {TechnicalReady, TechnicalNotReady, TechnicalDisabled} \<and>
     mr_SalesStatus row \<in> {SalesSellable, SalesRetired} \<and>
     (mr_SalesStatus row = SalesSellable \<longrightarrow> verified (mr_Code row, mr_Version row) \<noteq> None) \<and>
     set (registry_deps r (mr_Code row)) \<subseteq> codes"

definition tables_ok ::
  "Registry \<Rightarrow> moduleRow list \<Rightarrow> (string \<times> string) list \<Rightarrow> string list \<Rightarrow> (string \<times> uint64 \<rightharpoonup> runtimeVerificationRow) \<Rightarrow> bool" where
  "tables_ok r rows deps retired verified \<longleftrightarrow>
     distinct (map mr_Code rows) \<and> (\<forall>row \<in> set rows. catrow_ok r (mr_Code ` set rows) verified row) \<and>
     set deps = {(m, dep). m \<in> mr_Code ` set rows \<and> dep \<in> set (registry_deps r m)} \<and> distinct retired \<and>
     set retired \<inter> mr_Code ` set rows = {}"

text \<open>The journal: the catalogue version counts the audit entries, and every request has one entry and one receipt.\<close>

definition journal_ok :: "CatalogDB \<Rightarrow> bool" where
  "journal_ok db \<longleftrightarrow>
     (\<exists>v. cdb_state db = Some v \<and> unat v = Suc (length (cdb_audit db))) \<and> distinct (map ar_RequestID (cdb_audit db)) \<and>
     dom (cdb_receipts db) = set (map ar_RequestID (cdb_audit db))"

text \<open>A recorded deletion retired its code, and evidence comes from a verifier.\<close>

definition deletes_ok :: "(string \<rightharpoonup> idempotencyRow) \<Rightarrow> string list \<Rightarrow> bool" where
  "deletes_ok receipts retired \<longleftrightarrow> (\<forall>row \<in> ran receipts. id_Operation row = ''delete'' \<longrightarrow> id_ModuleCode row \<in> set retired)"

definition evidence_ok :: "(string \<times> uint64 \<rightharpoonup> runtimeVerificationRow) \<Rightarrow> bool" where
  "evidence_ok verified \<longleftrightarrow> (\<forall>row \<in> ran verified. starts_with ''ci-verifier:'' (rv_Actor row) \<and> length (rv_EvidenceDigest row) = 64)"

definition catalog_inv :: "Registry \<Rightarrow> CatalogDB \<Rightarrow> bool" where
  "catalog_inv r db \<longleftrightarrow> tables_ok r (cdb_modules db) (cdb_deps db) (cdb_retired db) (cdb_verified db) \<and> journal_ok db \<and>
     deletes_ok (cdb_receipts db) (cdb_retired db) \<and> evidence_ok (cdb_verified db)"

lemma deletes_ok_add:
  "deletes_ok receipts retired \<Longrightarrow> set retired \<subseteq> set retired' \<Longrightarrow> receipts rid = None \<Longrightarrow>
   (id_Operation row = ''delete'' \<Longrightarrow> id_ModuleCode row \<in> set retired') \<Longrightarrow> deletes_ok (receipts(rid \<mapsto> row)) retired'"
  by (auto simp: deletes_ok_def ran_map_upd)

lemma find_row_Some: "find_row db code = Some row \<Longrightarrow> row \<in> set (cdb_modules db) \<and> mr_Code row = code"
  by (auto simp: find_row_def find_Some_iff)

lemma find_row_None: "find_row db code = None \<longleftrightarrow> code \<notin> mr_Code ` set (cdb_modules db)"
  by (auto simp: find_row_def find_None_iff)

lemma find_row_member: "distinct (map mr_Code (cdb_modules db)) \<Longrightarrow> row \<in> set (cdb_modules db) \<Longrightarrow> find_row db (mr_Code row) = Some row"
proof -
  have "distinct (map mr_Code rows) \<Longrightarrow> row \<in> set rows \<Longrightarrow> find (\<lambda>x. mr_Code x = mr_Code row) rows = Some row" for rows
    by (induction rows) auto
  then show "distinct (map mr_Code (cdb_modules db)) \<Longrightarrow> row \<in> set (cdb_modules db) \<Longrightarrow> ?thesis" by (simp add: find_row_def)
qed

lemma tables_okD:
  assumes "tables_ok r rows deps retired verified"
  shows "distinct (map mr_Code rows)" "row \<in> set rows \<Longrightarrow> catrow_ok r (mr_Code ` set rows) verified row"
    "(m, dep) \<in> set deps \<longleftrightarrow> m \<in> mr_Code ` set rows \<and> dep \<in> set (registry_deps r m)" "distinct retired"
    "set retired \<inter> mr_Code ` set rows = {}"
  using assms by (auto simp: tables_ok_def)

lemma catrow_mono: "catrow_ok r codes verified row \<Longrightarrow> codes \<subseteq> codes' \<Longrightarrow> catrow_ok r codes' verified row"
  by (auto simp: catrow_ok_def)

lemma tables_insert:
  assumes "tables_ok r rows deps retired verified" "mr_Code row \<notin> mr_Code ` set rows" "mr_Code row \<notin> set retired"
    and "catrow_ok r (mr_Code ` set rows) verified row"
  shows "tables_ok r (row # rows) (map (Pair (mr_Code row)) (registry_deps r (mr_Code row)) @ deps) retired verified"
proof -
  note t = tables_okD [OF assms(1)]
  have "catrow_ok r (mr_Code ` set (row # rows)) verified x" if "x \<in> set (row # rows)" for x
    using that assms(4) t(2) [of x] by (auto intro: catrow_mono)
  then show ?thesis using t assms(2,3) by (auto simp: tables_ok_def)
qed

lemma tables_update:
  assumes "tables_ok r rows deps retired verified" "row \<in> set rows" "mr_Code row' = mr_Code row"
    and "catrow_ok r (mr_Code ` set rows) verified row'"
  shows "tables_ok r (map (\<lambda>x. if mr_Code x = mr_Code row \<and> mr_Version x = mr_Version row then row' else x) rows) deps retired verified"
proof -
  note t = tables_okD [OF assms(1)]
  let ?f = "\<lambda>x. if mr_Code x = mr_Code row \<and> mr_Version x = mr_Version row then row' else x"
  have codes: "map mr_Code (map ?f rows) = map mr_Code rows" using assms(3) by auto
  then have set: "mr_Code ` set (map ?f rows) = mr_Code ` set rows" by (metis set_map)
  have "catrow_ok r (mr_Code ` set rows) verified x" if "x \<in> set (map ?f rows)" for x
    using that assms(4) t(2) by auto
  then show ?thesis using t unfolding tables_ok_def set codes by (auto simp: assms(3))
qed

lemma tables_delete:
  assumes "tables_ok r rows deps retired verified" "row \<in> set rows" "\<forall>m. (m, mr_Code row) \<notin> set deps"
  shows "tables_ok r (filter (\<lambda>x. \<not> (mr_Code x = mr_Code row \<and> mr_Version x = mr_Version row)) rows)
    (filter (\<lambda>(m, dep). m \<noteq> mr_Code row) deps) (mr_Code row # retired) verified"
proof -
  note t = tables_okD [OF assms(1)]
  let ?rows = "filter (\<lambda>x. \<not> (mr_Code x = mr_Code row \<and> mr_Version x = mr_Version row)) rows"
  have "mr_Code x = mr_Code row \<Longrightarrow> x \<in> set rows \<Longrightarrow> x = row" for x using t(1) assms(2) by (auto simp: distinct_map inj_on_def)
  then have codes: "mr_Code ` set ?rows = mr_Code ` set rows - {mr_Code row}" by auto
  have "catrow_ok r (mr_Code ` set rows - {mr_Code row}) verified x" if "x \<in> set ?rows" for x
    using t(2) [of x] t(3) [of "mr_Code x" "mr_Code row"] assms(3) that by (auto simp: catrow_ok_def)
  moreover have "distinct (map mr_Code ?rows)" using t(1) by (simp add: distinct_map_filter)
  moreover have "mr_Code row \<notin> set retired" using t(5) assms(2) by blast
  ultimately show ?thesis unfolding tables_ok_def codes using t(3-5) by auto
qed

lemma tables_verify: "tables_ok r rows deps retired verified \<Longrightarrow> tables_ok r rows deps retired (verified(k \<mapsto> x))"
  by (auto simp: tables_ok_def catrow_ok_def)

lemma committed:
  assumes "writeAudit a db = Inr db1" "saveIdempotent rid row db1 = Inr db2"
  obtains v where "cdb_state db = Some v" "v \<noteq> MaxUint64" "cdb_receipts db rid = None"
    "db2 = db\<lparr>cdb_state := Some (v + 1), cdb_audit := a # cdb_audit db, cdb_receipts := (cdb_receipts db)(rid \<mapsto> row)\<rparr>"
  using assms by (auto simp: writeAudit_def AdvanceCatalog_def saveIdempotent_def split: option.splits if_splits)

lemma journal_commit:
  assumes "journal_ok db" "cdb_state db = Some v" "v \<noteq> MaxUint64" "cdb_receipts db rid = None" "ar_RequestID a = rid"
  shows "journal_ok (db\<lparr>cdb_state := Some (v + 1), cdb_audit := a # cdb_audit db, cdb_receipts := (cdb_receipts db)(rid \<mapsto> row)\<rparr>)"
proof -
  have "unat (v + 1) = Suc (unat v)" using word_plus_one_nonzero [OF assms(3)] by (simp add: unatSuc add.commute [of _ 1])
  with assms show ?thesis by (auto simp: journal_ok_def)
qed

lemma journal_cong:
  "cdb_state db' = cdb_state db \<Longrightarrow> cdb_audit db' = cdb_audit db \<Longrightarrow> cdb_receipts db' = cdb_receipts db \<Longrightarrow> journal_ok db' = journal_ok db"
  by (simp add: journal_ok_def)

lemma transact_inv: "journal_ok db \<Longrightarrow> transact db fn = fn db"
  by (auto simp: transact_def LockCatalog_def journal_ok_def bind_result_def)

section \<open>Every write keeps the invariant\<close>

text \<open>What a write changes, apart from the journal; \<open>recorded\<close> adds the entry, the receipt and the new version.\<close>

definition recorded :: "CatalogDB \<Rightarrow> uint64 \<Rightarrow> auditRow \<Rightarrow> string \<Rightarrow> idempotencyRow \<Rightarrow> CatalogDB" where
  "recorded db v a rid row = db\<lparr>cdb_state := Some (v + 1), cdb_audit := a # cdb_audit db, cdb_receipts := (cdb_receipts db)(rid \<mapsto> row)\<rparr>"

lemma recorded_inv:
  assumes "journal_ok db" "cdb_state db = Some v" "v \<noteq> MaxUint64" "cdb_receipts db rid = None" "ar_RequestID a = rid"
    and "tables_ok r (cdb_modules db) (cdb_deps db) (cdb_retired db) (cdb_verified db)" "evidence_ok (cdb_verified db)"
    and "deletes_ok ((cdb_receipts db)(rid \<mapsto> row)) (cdb_retired db)"
  shows "catalog_inv r (recorded db v a rid row)"
  using journal_commit [OF assms(1-5)] assms(6-8) by (simp add: catalog_inv_def recorded_def)

lemma bind_result_step: "bind_result (Inl e) f = Inl e" "bind_result (Inr x) f = f x"
  by (simp_all add: bind_result_def)

lemma commit_cases:
  assumes "bind_result (writeAudit a db) (\<lambda>db1. bind_result (saveIdempotent rid row db1) (\<lambda>db2. Inr (x, db2))) = Inr (y, db')"
  obtains v where "cdb_state db = Some v" "v \<noteq> MaxUint64" "cdb_receipts db rid = None" "db' = recorded db v a rid row" "y = x"
proof -
  from assms obtain db1 where "writeAudit a db = Inr db1" "saveIdempotent rid row db1 = Inr db'" "y = x" by auto
  then show thesis using that by (elim committed) (auto simp: recorded_def)
qed

lemma create_module_cases [consumes 1, case_names Replay Fresh]:
  assumes "create_module_tx who d now c db = Inr (m, db')"
  obtains row where "cdb_receipts db (cc_RequestID c) = Some row" "id_Operation row = ''create''" "id_ModuleCode row = cc_Code c"
      "m = response_module (id_Response row)" "db' = db"
  | row v a where "cc_Code c \<notin> set (cdb_retired db)" "set (df_Dependencies d) \<subseteq> mr_Code ` set (cdb_modules db)"
      "cc_Code c \<notin> mr_Code ` set (cdb_modules db)" "mr_Code row = cc_Code c" "mr_Version row = 1" "mr_SalesStatus row = SalesRetired"
      "mr_TechnicalStatus row \<in> {TechnicalReady, TechnicalNotReady}" "m = rowToModule row d" "ar_RequestID a = cc_RequestID c"
      "cdb_receipts db (cc_RequestID c) = None" "cdb_state db = Some v" "v \<noteq> MaxUint64"
      "db' = recorded (db\<lparr>cdb_modules := row # cdb_modules db, cdb_deps := map (Pair (cc_Code c)) (df_Dependencies d) @ cdb_deps db\<rparr>) v a
         (cc_RequestID c) \<lparr>id_Operation = ''create'', id_ModuleCode = cc_Code c, id_Response = Resp_Module m, id_CreatedAt = now\<rparr>"
proof (cases "cdb_receipts db (cc_RequestID c)")
  case (Some row)
  with assms show thesis by (intro that(1) [of row]) (auto simp: create_module_tx_def loadIdempotent_def split: if_splits)
next
  case None
  let ?row = "\<lparr>mr_Code = cc_Code c, mr_Name = cc_Name c, mr_Category = cc_Category c, mr_SalesScope = normalized (cc_SalesScope c),
     mr_TechnicalStatus = (if df_ImplementationReady d then TechnicalReady else TechnicalNotReady),
     mr_SalesStatus = SalesRetired, mr_Version = 1, mr_CreatedAt = now, mr_UpdatedAt = now\<rparr>"
  let ?a = "\<lparr>ar_ModuleCode = cc_Code c, ar_Actor = who, ar_Action = ''create'', ar_Before = None, ar_After = Some (rowToModule ?row d),
     ar_Reason = cc_Reason c, ar_RequestID = cc_RequestID c, ar_CreatedAt = now\<rparr>"
  from None assms have g: "cc_Code c \<notin> set (cdb_retired db)" "set (df_Dependencies d) \<subseteq> mr_Code ` set (cdb_modules db)"
      "cc_Code c \<notin> mr_Code ` set (cdb_modules db)"
    and w: "bind_result (writeAudit ?a (db\<lparr>cdb_modules := ?row # cdb_modules db, cdb_deps := map (Pair (cc_Code c)) (df_Dependencies d) @ cdb_deps db\<rparr>))
       (\<lambda>db1. bind_result (saveIdempotent (cc_RequestID c) \<lparr>id_Operation = ''create'', id_ModuleCode = cc_Code c,
         id_Response = Resp_Module (rowToModule ?row d), id_CreatedAt = now\<rparr> db1) (\<lambda>db2. Inr (rowToModule ?row d, db2))) = Inr (m, db')"
    by (simp_all add: create_module_tx_def loadIdempotent_def Let_def find_row_None bind_result_step subset_iff del: bind_result_Inr split: if_splits)
  from w show thesis by (rule commit_cases) (rule that(2) [OF g, of ?row ?a], use None in auto)
qed

lemma create_module_inv:
  assumes "catalog_inv r db" "registry_Definition r (cc_Code c) = Some d" "create_module_tx who d now c db = Inr (m, db')"
  shows "catalog_inv r db'"
  using assms(3)
proof (cases rule: create_module_cases)
  case (Fresh row v a)
  have deps: "registry_deps r (cc_Code c) = df_Dependencies d" using assms(2) by (simp add: registry_deps_def)
  have "catrow_ok r (mr_Code ` set (cdb_modules db)) (cdb_verified db) row"
    using Fresh(2,4-7) deps assms(2) registry_Definition_None [of r "cc_Code c"] by (auto simp: catrow_ok_def)
  then have "tables_ok r (row # cdb_modules db) (map (Pair (cc_Code c)) (df_Dependencies d) @ cdb_deps db) (cdb_retired db) (cdb_verified db)"
    using tables_insert [of r "cdb_modules db" "cdb_deps db" "cdb_retired db" "cdb_verified db" row] assms(1) Fresh(1,3,4) deps
    by (simp add: catalog_inv_def)
  then show ?thesis unfolding Fresh(13) using assms(1) Fresh(9-12)
    by (intro recorded_inv) (auto simp: catalog_inv_def journal_ok_def intro!: deletes_ok_add)
qed (use assms(1) in simp)

text \<open>What \<open>mutate\<close> asks of the change: code and version stay, the statuses stay in range, sellable only with admission.\<close>

definition change_ok :: "string \<Rightarrow> bool \<Rightarrow> (moduleRow \<Rightarrow> Definition \<Rightarrow> cat_error + moduleRow) \<Rightarrow> bool" where
  "change_ok op' admission change \<longleftrightarrow> (\<forall>row d row1. change row d = Inr row1 \<longrightarrow>
     mr_Code row1 = mr_Code row \<and>
     (mr_TechnicalStatus row1 = mr_TechnicalStatus row \<or> mr_TechnicalStatus row1 \<in> {TechnicalReady, TechnicalNotReady, TechnicalDisabled}) \<and>
     (op' = ''update'' \<or> op' = ''technical_status'' \<or>
      op' = ''sales_status'' \<and> mr_SalesStatus row1 \<in> {SalesSellable, SalesRetired} \<and> (mr_SalesStatus row1 = SalesSellable \<longrightarrow> admission)))"

lemma mutate_cases [consumes 1, case_names Replay Fresh]:
  assumes "mutate_tx who d now rid code reason version op' admission change db = Inr (m, db')"
  obtains row where "cdb_receipts db rid = Some row" "id_Operation row = op'" "id_ModuleCode row = code"
      "m = response_module (id_Response row)" "db' = db"
  | row row1 row3 v a where "find_row db code = Some row" "mr_Version row = version" "admission \<Longrightarrow> runtimeVerified db code version"
      "change row d = Inr row1" "op' \<noteq> ''sales_status'' \<Longrightarrow> version \<noteq> MaxUint64"
      "row3 = (if op' = ''update'' \<or> op' = ''technical_status'' then row1\<lparr>mr_SalesStatus := SalesRetired\<rparr> else row1)
         \<lparr>mr_Version := (if op' \<noteq> ''sales_status'' then version + 1 else version), mr_UpdatedAt := now\<rparr>"
      "m = rowToModule row3 d" "ar_RequestID a = rid" "cdb_receipts db rid = None" "cdb_state db = Some v" "v \<noteq> MaxUint64"
      "db' = recorded (db\<lparr>cdb_modules := map (\<lambda>x. if mr_Code x = code \<and> mr_Version x = version then row3 else x) (cdb_modules db)\<rparr>) v a rid
         \<lparr>id_Operation = op', id_ModuleCode = code, id_Response = Resp_Module m, id_CreatedAt = now\<rparr>"
proof (cases "cdb_receipts db rid")
  case (Some row)
  with assms show thesis by (intro that(1) [of row]) (auto simp: mutate_tx_def loadIdempotent_def split: if_splits)
next
  case None
  with assms obtain row row1 where row: "find_row db code = Some row" "mr_Version row = version" "admission \<Longrightarrow> runtimeVerified db code version"
      "change row d = Inr row1"
    by (auto simp: mutate_tx_def loadIdempotent_def split: option.splits if_splits)
  define row3 where "row3 = (if op' = ''update'' \<or> op' = ''technical_status'' then row1\<lparr>mr_SalesStatus := SalesRetired\<rparr> else row1)
         \<lparr>mr_Version := (if op' \<noteq> ''sales_status'' then version + 1 else version), mr_UpdatedAt := now\<rparr>"
  define a where "a = \<lparr>ar_ModuleCode = code, ar_Actor = who, ar_Action = op', ar_Before = Some (rowToModule row d),
                 ar_After = Some (rowToModule row3 d), ar_Reason = reason, ar_RequestID = rid, ar_CreatedAt = now\<rparr>"
  from row(3) have admitted: "(admission \<and> \<not> runtimeVerified db code version) = False" by blast
  from assms have w: "(if op' \<noteq> ''sales_status'' \<and> version = MaxUint64 then Inl Cat_OutOfRange else bind_result (writeAudit a (db\<lparr>cdb_modules := map (\<lambda>x. if mr_Code x = code \<and> mr_Version x = version then row3 else x) (cdb_modules db)\<rparr>)) (\<lambda>db1.
       bind_result (saveIdempotent rid \<lparr>id_Operation = op', id_ModuleCode = code, id_Response = Resp_Module (rowToModule row3 d), id_CreatedAt = now\<rparr> db1)
         (\<lambda>db2. Inr (rowToModule row3 d, db2)))) = Inr (m, db')"
    unfolding a_def row3_def using None row(1,2,4) admitted
    by (simp add: mutate_tx_def loadIdempotent_def Let_def bind_result_step del: bind_result_Inr split del: if_split)
  then have big: "op' \<noteq> ''sales_status'' \<Longrightarrow> version \<noteq> MaxUint64" by (auto simp del: bind_result_Inr)
  with w have "bind_result (writeAudit a (db\<lparr>cdb_modules := map (\<lambda>x. if mr_Code x = code \<and> mr_Version x = version then row3 else x) (cdb_modules db)\<rparr>))
      (\<lambda>db1. bind_result (saveIdempotent rid \<lparr>id_Operation = op', id_ModuleCode = code, id_Response = Resp_Module (rowToModule row3 d), id_CreatedAt = now\<rparr> db1)
         (\<lambda>db2. Inr (rowToModule row3 d, db2))) = Inr (m, db')" by (simp del: bind_result_Inr split: if_splits)
  then show thesis
    by (rule commit_cases) (rule that(2) [OF row big row3_def, of a], use None in \<open>auto simp: a_def\<close>)
qed

lemma mutate_inv:
  assumes "catalog_inv r db" "change_ok op' admission change" "mutate_tx who d now rid code reason version op' admission change db = Inr (m, db')"
  shows "catalog_inv r db'"
  using assms(3)
proof (cases rule: mutate_cases)
  case (Fresh row row1 row3 v a)
  from assms(1) have t: "tables_ok r (cdb_modules db) (cdb_deps db) (cdb_retired db) (cdb_verified db)" by (simp add: catalog_inv_def)
  have row: "row \<in> set (cdb_modules db)" "mr_Code row = code" using find_row_Some [OF Fresh(1)] by auto
  note ok = tables_okD(2) [OF t row(1)]
  have ch: "mr_Code row1 = mr_Code row" "mr_TechnicalStatus row1 \<in> {TechnicalReady, TechnicalNotReady, TechnicalDisabled}"
    "op' = ''update'' \<or> op' = ''technical_status'' \<or>
      op' = ''sales_status'' \<and> mr_SalesStatus row1 \<in> {SalesSellable, SalesRetired} \<and> (mr_SalesStatus row1 = SalesSellable \<longrightarrow> admission)"
    using assms(2) Fresh(4) ok unfolding change_ok_def catrow_ok_def by metis+
  have "catrow_ok r (mr_Code ` set (cdb_modules db)) (cdb_verified db) row3"
    using ok ch Fresh(2,3,5) row word_plus_one_nonzero [of version] unfolding Fresh(6) by (auto simp: catrow_ok_def runtimeVerified_def)
  moreover have "mr_Code row3 = mr_Code row" using ch(1) by (simp add: Fresh(6))
  ultimately have "tables_ok r (map (\<lambda>x. if mr_Code x = code \<and> mr_Version x = version then row3 else x) (cdb_modules db))
      (cdb_deps db) (cdb_retired db) (cdb_verified db)"
    using tables_update [OF t row(1), of row3] row(2) Fresh(2) by simp
  then show ?thesis unfolding Fresh(12) using assms(1) Fresh(8-11) ch(3)
    by (intro recorded_inv) (auto simp: catalog_inv_def journal_ok_def intro!: deletes_ok_add)
qed (use assms(1) in simp)

lemma delete_module_cases [consumes 1, case_names Replay Fresh]:
  assumes "delete_module_tx tables who d now c db = Inr db'"
  obtains row where "cdb_receipts db (dc_RequestID c) = Some row" "id_Operation row = ''delete''" "id_ModuleCode row = dc_Code c" "db' = db"
  | row v a where "find_row db (dc_Code c) = Some row" "mr_Version row = dc_Version c" "\<forall>m. (m, dc_Code c) \<notin> set (cdb_deps db)"
      "\<not> referenced_elsewhere tables (dc_Code c)" "ar_RequestID a = dc_RequestID c"
      "cdb_receipts db (dc_RequestID c) = None" "cdb_state db = Some v" "v \<noteq> MaxUint64"
      "db' = recorded (db\<lparr>cdb_deps := filter (\<lambda>(m, dep). m \<noteq> dc_Code c) (cdb_deps db),
         cdb_modules := filter (\<lambda>x. \<not> (mr_Code x = dc_Code c \<and> mr_Version x = dc_Version c)) (cdb_modules db),
         cdb_retired := dc_Code c # cdb_retired db\<rparr>) v a (dc_RequestID c)
         \<lparr>id_Operation = ''delete'', id_ModuleCode = dc_Code c, id_Response = Resp_Deleted (dc_Code c), id_CreatedAt = now\<rparr>"
proof (cases "cdb_receipts db (dc_RequestID c)")
  case (Some row)
  with assms show thesis by (intro that(1) [of row]) (auto simp: delete_module_tx_def loadDeleteIdempotent_def split: if_splits)
next
  case None
  with assms obtain row where row: "find_row db (dc_Code c) = Some row"
    by (auto simp: delete_module_tx_def loadDeleteIdempotent_def split: option.splits)
  with None assms have g: "mr_Version row = dc_Version c" "\<forall>m. (m, dc_Code c) \<notin> set (cdb_deps db)" "\<not> referenced_elsewhere tables (dc_Code c)"
    by (auto simp: delete_module_tx_def loadDeleteIdempotent_def list_ex_iff split: if_splits)
  let ?a = "\<lparr>ar_ModuleCode = dc_Code c, ar_Actor = who, ar_Action = ''delete'', ar_Before = Some (rowToModule row d), ar_After = None,
     ar_Reason = dc_Reason c, ar_RequestID = dc_RequestID c, ar_CreatedAt = now\<rparr>"
  from None assms row obtain db1 where w: "writeAudit ?a (db\<lparr>cdb_deps := filter (\<lambda>(m, dep). m \<noteq> dc_Code c) (cdb_deps db),
         cdb_modules := filter (\<lambda>x. \<not> (mr_Code x = dc_Code c \<and> mr_Version x = dc_Version c)) (cdb_modules db),
         cdb_retired := dc_Code c # cdb_retired db\<rparr>) = Inr db1"
     "saveIdempotent (dc_RequestID c) \<lparr>id_Operation = ''delete'', id_ModuleCode = dc_Code c, id_Response = Resp_Deleted (dc_Code c), id_CreatedAt = now\<rparr>
        db1 = Inr db'"
    by (auto simp: delete_module_tx_def loadDeleteIdempotent_def split: if_splits)
  then show thesis by (rule committed) (rule that(2) [OF row g, of ?a], use None in \<open>simp_all add: recorded_def\<close>)
qed

lemma delete_module_inv:
  assumes "catalog_inv r db" "delete_module_tx tables who d now c db = Inr db'"
  shows "catalog_inv r db'"
  using assms(2)
proof (cases rule: delete_module_cases)
  case (Fresh row v a)
  from assms(1) have t: "tables_ok r (cdb_modules db) (cdb_deps db) (cdb_retired db) (cdb_verified db)" by (simp add: catalog_inv_def)
  have row: "row \<in> set (cdb_modules db)" "mr_Code row = dc_Code c" using find_row_Some [OF Fresh(1)] by auto
  from tables_delete [OF t row(1)] Fresh(2,3) row(2) show ?thesis unfolding Fresh(9) using assms(1) Fresh(5-8)
    by (intro recorded_inv) (auto simp: catalog_inv_def journal_ok_def intro!: deletes_ok_add)
qed (use assms(1) in simp)

lemma verification_cases:
  assumes "record_verification_tx who now c db = Inr db'" "starts_with ''ci-verifier:'' who" "length (vc_EvidenceDigest c) = 64"
  obtains "db' = db" | row where "starts_with ''ci-verifier:'' (rv_Actor row)" "length (rv_EvidenceDigest row) = 64" "cdb_verified db (vc_ModuleCode c, vc_ModuleVersion c) = None"
    "db' = db\<lparr>cdb_verified := (cdb_verified db)((vc_ModuleCode c, vc_ModuleVersion c) \<mapsto> row)\<rparr>"
proof (cases "cdb_verified db (vc_ModuleCode c, vc_ModuleVersion c)")
  case None
  let ?row = "\<lparr>rv_EvidenceDigest = vc_EvidenceDigest c, rv_SourceTree = vc_SourceTree c, rv_Actor = who, rv_CreatedAt = now\<rparr>"
  from None assms show thesis by (intro that(2) [of ?row]) (auto simp: record_verification_tx_def split: option.splits if_splits)
next
  case (Some prior)
  with assms that(1) show thesis by (auto simp: record_verification_tx_def split: option.splits if_splits)
qed

lemma verification_inv:
  "catalog_inv r db \<Longrightarrow> record_verification_tx who now c db = Inr db' \<Longrightarrow> starts_with ''ci-verifier:'' who \<Longrightarrow>
   length (vc_EvidenceDigest c) = 64 \<Longrightarrow> catalog_inv r db'"
  by (elim verification_cases) (auto simp: catalog_inv_def tables_verify journal_ok_def evidence_ok_def ran_map_upd)

section \<open>Histories of the catalogue\<close>

text \<open>The four writes that answer with the module, as one type of commands.\<close>

datatype catalog_command =
    Do_Create CreateCommand
  | Do_Update UpdateCommand
  | Do_Sales StatusCommand
  | Do_Technical StatusCommand

definition run_command :: "Registry \<Rightarrow> ServicePrincipal option \<Rightarrow> time \<Rightarrow> catalog_command \<Rightarrow> CatalogDB \<Rightarrow> cat_error + Module \<times> CatalogDB" where
  "run_command r ctx now cmd db =
     (case cmd of
        Do_Create c \<Rightarrow> module_Create r ctx now c db
      | Do_Update c \<Rightarrow> module_Update r ctx now c db
      | Do_Sales c \<Rightarrow> SetSalesStatus r ctx now c db
      | Do_Technical c \<Rightarrow> SetTechnicalStatus r ctx now c db)"

definition command_request :: "catalog_command \<Rightarrow> string" where
  "command_request cmd = (case cmd of Do_Create c \<Rightarrow> cc_RequestID c | Do_Update c \<Rightarrow> uc_RequestID c | Do_Sales c \<Rightarrow> sc_RequestID c
     | Do_Technical c \<Rightarrow> sc_RequestID c)"

definition command_target :: "catalog_command \<Rightarrow> string \<times> string" where
  "command_target cmd = (case cmd of Do_Create c \<Rightarrow> (''create'', cc_Code c) | Do_Update c \<Rightarrow> (''update'', uc_Code c)
     | Do_Sales c \<Rightarrow> (''sales_status'', sc_Code c) | Do_Technical c \<Rightarrow> (''technical_status'', sc_Code c))"

lemma changes_ok:
  "change_ok ''update'' False (\<lambda>row d. if TrimSpace (uc_Name c) = '''' then Inl Cat_InvalidRequest
     else Inr (row\<lparr>mr_Name := uc_Name c, mr_Category := uc_Category c, mr_SalesScope := normalized (uc_SalesScope c)\<rparr>))"
  "sc_Sales s = SalesSellable \<or> sc_Sales s = SalesRetired \<Longrightarrow>
   change_ok ''sales_status'' (sc_Sales s = SalesSellable) (\<lambda>row d. Inr (row\<lparr>mr_SalesStatus := sc_Sales s\<rparr>))"
  "sc_Technical s \<in> {TechnicalReady, TechnicalNotReady, TechnicalDisabled} \<Longrightarrow>
   change_ok ''technical_status'' False (\<lambda>row d. if sc_Technical s = TechnicalReady \<and> \<not> df_ImplementationReady d then Inl Cat_ImplementationUnavailable
     else Inr (row\<lparr>mr_TechnicalStatus := sc_Technical s\<rparr>))"
  by (auto simp: change_ok_def)

text \<open>A command that succeeds is a create or an admissible mutation of a declared module.\<close>

lemma run_command_cases [consumes 2, case_names Create Mutate]:
  assumes "journal_ok db" "run_command r ctx now cmd db = Inr (m, db')"
  obtains c who d where "cmd = Do_Create c" "registry_Definition r (cc_Code c) = Some d" "create_module_tx who d now c db = Inr (m, db')"
  | op' code reason version admission change who d where "command_target cmd = (op', code)" "change_ok op' admission change"
      "registry_Definition r code = Some d" "version \<noteq> 0" "op' \<in> {''update'', ''sales_status'', ''technical_status''}"
      "mutate_tx who d now (command_request cmd) code reason version op' admission change db = Inr (m, db')"
proof (cases cmd)
  case (Do_Create c)
  with assms that(1) [of c] show thesis
    by (auto simp: run_command_def module_Create_def transact_inv split: if_splits option.splits)
next
  case (Do_Update c)
  with assms show thesis
    by (auto simp: run_command_def module_Update_def mutate_def transact_inv command_target_def command_request_def
        split: if_splits option.splits intro!: that(2) [OF _ changes_ok(1)])
next
  case (Do_Sales c)
  with assms changes_ok(2) [of c] show thesis
    by (auto simp: run_command_def SetSalesStatus_def mutate_def transact_inv command_target_def command_request_def
        split: if_splits option.splits intro!: that(2))
next
  case (Do_Technical c)
  with assms changes_ok(3) [of c] show thesis
    by (auto simp: run_command_def SetTechnicalStatus_def mutate_def transact_inv command_target_def command_request_def
        split: if_splits option.splits intro!: that(2))
qed

inductive catalog_step :: "Registry \<Rightarrow> CatalogDB \<Rightarrow> CatalogDB \<Rightarrow> bool" for r where
  command: "run_command r ctx now cmd db = Inr (m, db') \<Longrightarrow> catalog_step r db db'"
| verify: "RecordRuntimeVerification apiKey r ctx now v db = Inr db' \<Longrightarrow> catalog_step r db db'"
| delete: "module_Delete r tables ctx now c db = Inr db' \<Longrightarrow> catalog_step r db db'"

text \<open>The tables after the migrations: empty, the catalogue version is 1.\<close>

definition new_catalog :: CatalogDB where
  "new_catalog = \<lparr>cdb_state = Some 1, cdb_modules = [], cdb_deps = [], cdb_retired = [], cdb_audit = [], cdb_receipts = Map.empty,
     cdb_verified = Map.empty\<rparr>"

abbreviation catalog_reachable :: "Registry \<Rightarrow> CatalogDB \<Rightarrow> bool" where
  "catalog_reachable r db \<equiv> (catalog_step r)\<^sup>*\<^sup>* new_catalog db"

lemma catalog_inv_new: "catalog_inv r new_catalog"
  by (simp add: catalog_inv_def new_catalog_def tables_ok_def journal_ok_def deletes_ok_def evidence_ok_def)

lemma catalog_step_cases [consumes 2, case_names Create Mutate Verify Delete]:
  assumes "catalog_step r db db'" "catalog_inv r db"
  obtains c d who now m where "registry_Definition r (cc_Code c) = Some d" "create_module_tx who d now c db = Inr (m, db')"
  | op' code reason version admission change who d now rid m where "change_ok op' admission change"
      "mutate_tx who d now rid code reason version op' admission change db = Inr (m, db')"
  | who now v where "record_verification_tx who now v db = Inr db'" "starts_with ''ci-verifier:'' who" "length (vc_EvidenceDigest v) = 64"
  | tables who d now c where "delete_module_tx tables who d now c db = Inr db'"
proof -
  from assms(2) have j: "journal_ok db" by (simp add: catalog_inv_def)
  from assms(1) show thesis
  proof cases
    case (command ctx now cmd m)
    with j show thesis by (cases rule: run_command_cases) (auto intro: that(1,2))
  next
    case (verify apiKey ctx now v)
    with j that(3) show thesis by (auto simp: RecordRuntimeVerification_def runtimeVerifier_def transact_inv split: if_splits option.splits)
  next
    case (delete tables ctx now c)
    with j that(4) show thesis by (auto simp: module_Delete_def transact_inv split: if_splits option.splits)
  qed
qed

lemma catalog_step_inv: "catalog_step r db db' \<Longrightarrow> catalog_inv r db \<Longrightarrow> catalog_inv r db'"
  by (cases rule: catalog_step_cases) (auto intro: create_module_inv mutate_inv verification_inv delete_module_inv)

lemma catalog_reachable_inv: "catalog_reachable r db \<Longrightarrow> catalog_inv r db"
  by (induction rule: rtranclp_induct) (auto intro: catalog_inv_new catalog_step_inv)

text \<open>Retired codes, verifications, receipts and audit entries are never lost.\<close>

lemma recorded_fields [simp]:
  "cdb_modules (recorded db v a rid row) = cdb_modules db" "cdb_deps (recorded db v a rid row) = cdb_deps db"
  "cdb_retired (recorded db v a rid row) = cdb_retired db" "cdb_verified (recorded db v a rid row) = cdb_verified db"
  "cdb_receipts (recorded db v a rid row) = (cdb_receipts db)(rid \<mapsto> row)" "cdb_audit (recorded db v a rid row) = a # cdb_audit db"
  by (simp_all add: recorded_def)

lemma catalog_step_keeps:
  assumes "catalog_step r db db'" "catalog_inv r db"
  shows "set (cdb_retired db) \<subseteq> set (cdb_retired db')" "cdb_verified db \<subseteq>\<^sub>m cdb_verified db'" "cdb_receipts db \<subseteq>\<^sub>m cdb_receipts db'"
    "\<exists>new. cdb_audit db' = new @ cdb_audit db"
proof -
  from assms have "set (cdb_retired db) \<subseteq> set (cdb_retired db') \<and> cdb_verified db \<subseteq>\<^sub>m cdb_verified db' \<and> cdb_receipts db \<subseteq>\<^sub>m cdb_receipts db' \<and>
    (\<exists>new. cdb_audit db' = new @ cdb_audit db)"
  proof (cases rule: catalog_step_cases)
    case (Create c d who now m)
    from Create(2) show ?thesis by (cases rule: create_module_cases) (auto simp: map_le_def)
  next
    case (Mutate op' code reason version admission change who d now rid m)
    from Mutate(2) show ?thesis by (cases rule: mutate_cases) (auto simp: map_le_def)
  next
    case (Verify who now v)
    then show ?thesis by (elim verification_cases) (auto simp: map_le_def)
  next
    case (Delete tables who d now c)
    then show ?thesis by (cases rule: delete_module_cases) (auto simp: map_le_def)
  qed
  then show "set (cdb_retired db) \<subseteq> set (cdb_retired db')" "cdb_verified db \<subseteq>\<^sub>m cdb_verified db'" "cdb_receipts db \<subseteq>\<^sub>m cdb_receipts db'"
    "\<exists>new. cdb_audit db' = new @ cdb_audit db" by blast+
qed

lemma catalog_steps_keep:
  assumes "(catalog_step r)\<^sup>*\<^sup>* db db'" "catalog_inv r db"
  shows "catalog_inv r db' \<and> set (cdb_retired db) \<subseteq> set (cdb_retired db')"
  using assms by (induction rule: rtranclp_induct) (use catalog_step_inv catalog_step_keeps(1) in blast)+

section \<open>Requests are applied once\<close>

definition command_receipt :: "CatalogDB \<Rightarrow> string \<rightharpoonup> (string \<times> string) \<times> Module" where
  "command_receipt db rid = map_option (\<lambda>row. ((id_Operation row, id_ModuleCode row), response_module (id_Response row))) (cdb_receipts db rid)"

text \<open>A request is a caller, an instant and a command; a retry repeats the command, by any platform caller at any time.\<close>

type_synonym catalog_request = "ServicePrincipal option \<times> time \<times> catalog_command"

definition run_request :: "Registry \<Rightarrow> catalog_request \<Rightarrow> CatalogDB \<Rightarrow> cat_error + Module \<times> CatalogDB" where
  "run_request r req db = run_command r (fst req) (fst (snd req)) (snd (snd req)) db"

definition retries :: "catalog_request \<Rightarrow> catalog_request \<Rightarrow> bool" where
  "retries req req' \<longleftrightarrow> snd (snd req') = snd (snd req) \<and> \<not> isl (platformActor (fst req'))"

lemma run_command_saves:
  assumes "catalog_inv r db" "run_command r ctx now cmd db = Inr (m, db')"
  shows "command_receipt db' (command_request cmd) = Some (command_target cmd, m)"
proof -
  from assms(1) have "journal_ok db" by (simp add: catalog_inv_def)
  from this assms(2) show ?thesis
  proof (cases rule: run_command_cases)
    case (Create c who d)
    from Create(3) show ?thesis
      by (cases rule: create_module_cases) (auto simp: command_receipt_def command_request_def command_target_def Create(1) response_module_def)
  next
    case (Mutate op' code reason version admission change who d)
    from Mutate(6) show ?thesis
      by (cases rule: mutate_cases) (auto simp: command_receipt_def Mutate(1) response_module_def)
  qed
qed

lemma tx_replays:
  assumes "cdb_receipts db rid = Some row"
  shows "cc_RequestID c = rid \<Longrightarrow> id_Operation row = ''create'' \<Longrightarrow> id_ModuleCode row = cc_Code c \<Longrightarrow>
      create_module_tx who d now c db = Inr (response_module (id_Response row), db)"
    "id_Operation row = op' \<Longrightarrow> id_ModuleCode row = code \<Longrightarrow>
      mutate_tx who d now rid code reason version op' admission change db = Inr (response_module (id_Response row), db)"
  using assms by (auto simp: create_module_tx_def mutate_tx_def loadIdempotent_def bind_result_step simp del: bind_result_Inr)

lemma run_command_replays:
  assumes "catalog_inv r db" "run_command r ctx1 now1 cmd db1 = Inr y" "\<not> isl (platformActor ctx)"
    and "command_receipt db (command_request cmd) = Some (command_target cmd, m)"
  shows "run_command r ctx now cmd db = Inr (m, db)"
proof -
  from assms(1) have j: "journal_ok db" by (simp add: catalog_inv_def)
  from assms(3) obtain who where who: "platformActor ctx = Inr who" by (cases "platformActor ctx") auto
  from assms(4) obtain row where row: "cdb_receipts db (command_request cmd) = Some row" "command_target cmd = (id_Operation row, id_ModuleCode row)"
      "m = response_module (id_Response row)" by (auto simp: command_receipt_def)
  note defs = run_command_def module_Create_def module_Update_def SetSalesStatus_def SetTechnicalStatus_def mutate_def command_target_def
    command_request_def
  show ?thesis using assms(2) who row
    by (cases cmd) (auto simp: defs transact_inv [OF j] tx_replays split: if_splits option.splits)
qed

interpretation catalog_once: receipted "run_request r" command_receipt "\<lambda>req. command_request (snd (snd req))"
  "\<lambda>req. command_target (snd (snd req))" retries "\<lambda>_. True" "catalog_inv r" "catalog_step r" for r
proof
  fix db db' :: CatalogDB and k x assume "catalog_inv r db" "catalog_step r db db'" "command_receipt db k = Some x"
  then show "command_receipt db' k = Some x" using catalog_step_keeps(3) [of r db db'] by (auto simp: command_receipt_def map_le_def dom_def)
qed (auto simp: run_request_def retries_def intro: catalog_step.command catalog_step_inv run_command_saves run_command_replays)

section \<open>The projections\<close>

text \<open>
  What the validation of the resolver asks of the keys that module definitions declare: codes in
  form, no key twice in a group, and no capability declared by two modules. \<open>NewRegistry\<close> does not
  check it, so it is a condition on the definitions of the modules in the table, never assumed of the registry.
\<close>

definition reg_codes_ok :: "Definition list \<Rightarrow> bool" where
  "reg_codes_ok r \<longleftrightarrow> (\<forall>d \<in> set r. validCode (df_Code d) \<and>
      (\<forall>keys \<in> {df_CapabilityCodes d, df_QuotaSchemaKeys d, df_FieldPolicySchemaKeys d}. distinct keys \<and> (\<forall>k \<in> set keys. validCode k))) \<and>
    (\<forall>d \<in> set r. \<forall>d' \<in> set r. \<forall>k \<in> set (df_CapabilityCodes d). k \<in> set (df_CapabilityCodes d') \<longrightarrow> d = d')"

definition listed :: "Registry \<Rightarrow> CatalogDB \<Rightarrow> Definition list" where
  "listed r db = filter (\<lambda>d. df_Code d \<in> mr_Code ` set (cdb_modules db)) r"

lemma reg_codes_ok_listed: "reg_codes_ok r \<Longrightarrow> reg_codes_ok (listed r db)"
  unfolding reg_codes_ok_def listed_def set_filter mem_Collect_eq by blast

text \<open>The catalogue the other components are meant to see.\<close>

definition the_definition :: "Registry \<Rightarrow> string \<Rightarrow> Definition" where
  "the_definition r code = the (registry_Definition r code)"

definition projected :: "Registry \<Rightarrow> CatalogDB \<Rightarrow> Catalog" where
  "projected r db = map (\<lambda>row. row_definition row (the_definition r (mr_Code row)) (mr_SalesStatus row)) (ordered_rows db)"

lemma map_result_Inr: "(\<And>x. x \<in> set xs \<Longrightarrow> f x = Inr (g x)) \<Longrightarrow> map_result f xs = Inr (map g xs)"
  by (induction xs) (auto simp: bind_result_def)

lemma row_definition_fields [simp]:
  "mod_Code (row_definition row d s) = mr_Code row" "mod_Version (row_definition row d s) = mr_Version row"
  "mod_Capabilities (row_definition row d s) = df_CapabilityCodes d" "mod_QuotaKeys (row_definition row d s) = df_QuotaSchemaKeys d"
  "mod_FieldKeys (row_definition row d s) = df_FieldPolicySchemaKeys d" "mod_Dependencies (row_definition row d s) = df_Dependencies d"
  "mod_SalesStatus (row_definition row d s) = s"
  by (simp_all add: row_definition_def)

lemma projected_codes:
  "map mod_Code (projected r db) = map mr_Code (ordered_rows db)" "known (projected r db) = mr_Code ` set (cdb_modules db)"
  by (simp_all add: projected_def ordered_rows_def image_image comp_def)

lemma projected_member:
  assumes "catalog_inv r db" "row \<in> set (cdb_modules db)"
  shows "registry_Definition r (mr_Code row) = Some (the_definition r (mr_Code row))"
    "the_definition r (mr_Code row) \<in> set r" "df_Code (the_definition r (mr_Code row)) = mr_Code row"
    "set (df_Dependencies (the_definition r (mr_Code row))) \<subseteq> mr_Code ` set (cdb_modules db)"
proof -
  have ok: "catrow_ok r (mr_Code ` set (cdb_modules db)) (cdb_verified db) row"
    using assms tables_okD(2) by (auto simp: catalog_inv_def)
  then show d: "registry_Definition r (mr_Code row) = Some (the_definition r (mr_Code row))"
    using registry_Definition_None [of r "mr_Code row"] by (auto simp: the_definition_def catrow_ok_def)
  from registry_Definition_Some [OF d] show "the_definition r (mr_Code row) \<in> set r" "df_Code (the_definition r (mr_Code row)) = mr_Code row" by auto
  show "set (df_Dependencies (the_definition r (mr_Code row))) \<subseteq> mr_Code ` set (cdb_modules db)"
    using ok d by (auto simp: catrow_ok_def registry_deps_def)
qed

lemma listed_definition:
  assumes "catalog_inv r db" "distinct (map df_Code r)"
  shows "set (listed r db) = (\<lambda>row. the_definition r (mr_Code row)) ` set (cdb_modules db)"
proof (intro equalityI subsetI)
  note mem = projected_member [OF assms(1)]
  fix d assume "d \<in> set (listed r db)"
  then obtain row where d: "d \<in> set r" "row \<in> set (cdb_modules db)" "df_Code d = mr_Code row" by (auto simp: listed_def)
  then have "the_definition r (mr_Code row) = d" using mem(2,3) [OF d(2)] assms(2) by (metis distinct_map inj_onD)
  then show "d \<in> (\<lambda>row. the_definition r (mr_Code row)) ` set (cdb_modules db)" using d(2) by blast
qed (use projected_member(2,3) [OF assms(1)] in \<open>auto simp: listed_def\<close>)

lemma projected_wf_iff:
  assumes "catalog_inv r db" "distinct (map df_Code r)"
  shows "catalog_wf (projected r db) \<longleftrightarrow> reg_codes_ok (listed r db)"
proof -
  from assms(1) have t: "tables_ok r (cdb_modules db) (cdb_deps db) (cdb_retired db) (cdb_verified db)" by (simp add: catalog_inv_def)
  note mem = projected_member [OF assms(1)]
  let ?d = "\<lambda>row. the_definition r (mr_Code row)"
  have dist: "distinct (map mod_Code (projected r db))"
    unfolding projected_codes ordered_rows_def using tables_okD(1) [OF t] by (metis mset_map mset_sort mset_eq_imp_distinct_iff)
  have entry: "entry_ok (row_definition row (?d row) (mr_SalesStatus row)) \<longleftrightarrow> validCode (df_Code (?d row)) \<and>
      (\<forall>keys \<in> {df_CapabilityCodes (?d row), df_QuotaSchemaKeys (?d row), df_FieldPolicySchemaKeys (?d row)}. distinct keys \<and> (\<forall>k \<in> set keys. validCode k))"
    if "row \<in> set (cdb_modules db)" for row
    using tables_okD(2) [OF t that] mem(3) [OF that] unfolding catrow_ok_def entry_ok_def row_definition_def by simp
  have same: "row_definition row (?d row) (mr_SalesStatus row) = row_definition row' (?d row') (mr_SalesStatus row') \<longleftrightarrow> ?d row = ?d row'"
    if "row \<in> set (cdb_modules db)" "row' \<in> set (cdb_modules db)" for row row'
  proof
    assume "?d row = ?d row'"
    then have "mr_Code row = mr_Code row'" using mem(3) that by metis
    then show "row_definition row (?d row) (mr_SalesStatus row) = row_definition row' (?d row') (mr_SalesStatus row')"
      using tables_okD(1) [OF t] that by (metis distinct_map inj_onD)
  next
    assume "row_definition row (?d row) (mr_SalesStatus row) = row_definition row' (?d row') (mr_SalesStatus row')"
    then show "?d row = ?d row'" by (metis row_definition_fields(1))
  qed
  have rows: "set (projected r db) = (\<lambda>row. row_definition row (?d row) (mr_SalesStatus row)) ` set (cdb_modules db)"
    by (simp add: projected_def ordered_rows_def)
  have "(\<forall>m \<in> set (projected r db). entry_ok m) \<longleftrightarrow> (\<forall>d \<in> set (listed r db). validCode (df_Code d) \<and>
      (\<forall>keys \<in> {df_CapabilityCodes d, df_QuotaSchemaKeys d, df_FieldPolicySchemaKeys d}. distinct keys \<and> (\<forall>k \<in> set keys. validCode k)))"
    unfolding rows listed_definition [OF assms] ball_simps(9) using entry by (simp cong: ball_cong)
  moreover have "(\<forall>m \<in> set (projected r db). \<forall>m' \<in> set (projected r db). \<forall>k. k \<in> set (mod_Capabilities m) \<longrightarrow> k \<in> set (mod_Capabilities m') \<longrightarrow> m = m') \<longleftrightarrow>
      (\<forall>d \<in> set (listed r db). \<forall>d' \<in> set (listed r db). \<forall>k \<in> set (df_CapabilityCodes d). k \<in> set (df_CapabilityCodes d') \<longrightarrow> d = d')"
    unfolding rows listed_definition [OF assms] ball_simps(9) using same by (simp add: Ball_def) blast
  ultimately show ?thesis using dist by (simp add: catalog_wf_def reg_codes_ok_def)
qed

lemma projected_edges:
  assumes "catalog_inv r db"
  shows "dep_edges (projected r db) \<subseteq> dep_edges (reg_catalog r)"
proof
  note mem = projected_member [OF assms]
  fix e assume "e \<in> dep_edges (projected r db)"
  then obtain row b where e: "e = (mr_Code row, b)" "row \<in> set (cdb_modules db)" "b \<in> set (df_Dependencies (the_definition r (mr_Code row)))"
    by (auto simp: dep_edges_def projected_def ordered_rows_def dest!: Catalog_Definition_Some)
  then have d: "registry_Definition r (mr_Code row) = Some (the_definition r (mr_Code row))" using mem(1) by blast
  from e mem(4) obtain row' where "row' \<in> set (cdb_modules db)" "b = mr_Code row'" by blast
  then have b: "b \<in> df_Code ` set r" using mem(2,3) by (metis imageI)
  from d reg_catalog_Definition [of r "mr_Code row"] obtain m where
    "Catalog_Definition (reg_catalog r) (mr_Code row) = Some m" "mod_Dependencies m = df_Dependencies (the_definition r (mr_Code row))" by auto
  with e b show "e \<in> dep_edges (reg_catalog r)" by (auto simp: dep_edges_def)
qed

lemma projected_valid:
  assumes "catalog_inv r db" "registry_Validate r = None" "distinct (map df_Code r)"
  shows "Catalog_Validate (projected r db) = None \<longleftrightarrow> reg_codes_ok (listed r db)"
  unfolding Catalog_Validate_iff projected_wf_iff [OF assms(1,3)]
  using acyclic_subset [OF registry_Validate_sound(2) [OF assms(2,3)] projected_edges [OF assms(1)]] by blast

lemma projections:
  assumes "catalog_inv r db"
  shows "ReadSnapshotCatalog r db = validated (projected r db)" "ReadCurrentCatalog scope r db = validated (projected r db)"
proof -
  from assms(1) have t: "tables_ok r (cdb_modules db) (cdb_deps db) (cdb_retired db) (cdb_verified db)" by (simp add: catalog_inv_def)
  note mem = projected_member [OF assms(1)]
  have rows: "set (ordered_rows db) = set (cdb_modules db)" by (simp add: ordered_rows_def)
  have snap: "map_result (\<lambda>row. case registry_Definition r (mr_Code row) of None \<Rightarrow> Inl Cat_UnknownDefinition
      | Some d \<Rightarrow> Inr (row_definition row d (mr_SalesStatus row))) (ordered_rows db) = Inr (projected r db)"
    unfolding projected_def by (rule map_result_Inr) (simp add: rows mem(1))
  then show "ReadSnapshotCatalog r db = validated (projected r db)" by (simp add: ReadSnapshotCatalog_def bind_result_def)
  have sales: "mr_SalesStatus row = SalesRetired" if "row \<in> set (cdb_modules db)" "\<not> runtimeVerified db (mr_Code row) (mr_Version row)" for row
    using tables_okD(2) [OF t that(1)] that(2) by (auto simp: catrow_ok_def runtimeVerified_def)
  have now: "map_result (\<lambda>row. case registry_Definition r (mr_Code row) of None \<Rightarrow> Inl Cat_UnknownDefinition
      | Some d \<Rightarrow> Inr (row_definition row d (if runtimeVerified db (mr_Code row) (mr_Version row) then mr_SalesStatus row else SalesRetired)))
      (ordered_rows db) = Inr (projected r db)"
    unfolding projected_def by (rule map_result_Inr) (simp add: rows mem(1) sales)
  let ?m = "\<lambda>row. (let m = rowToModule row (the_definition r (mr_Code row))
     in if df_ImplementationReady (the_definition r (mr_Code row)) then m else m\<lparr>md_TechnicalStatus := TechnicalNotReady\<rparr>)"
  have list: "ListInScope r db = Inr (map ?m (ordered_rows db))"
    unfolding ListInScope_def by (rule map_result_Inr) (simp add: rows mem(1) Let_def)
  have "map module_projection (map ?m (ordered_rows db)) = projected r db"
    by (simp add: projected_def module_projection_def rowToModule_def row_definition_def Let_def)
  with list now show "ReadCurrentCatalog scope r db = validated (projected r db)" by (simp add: ReadCurrentCatalog_def bind_result_def)
qed

lemma validated_iff: "validated c = Inr c' \<longleftrightarrow> c' = c \<and> Catalog_Validate c = None"
  by (auto simp: validated_def split: option.split)

section \<open>Properties of the catalogue\<close>

definition ex_platform :: ServicePrincipal where
  "ex_platform = \<lparr>pr_Authenticated = True, pr_Subject = ''op-1'', pr_TenantID = '''', sp_Roles = [], sp_AuthMethod = ''session''\<rparr>"

definition ex_verifier :: ServicePrincipal where
  "ex_verifier = \<lparr>pr_Authenticated = True, pr_Subject = ''ci-verifier:main'', pr_TenantID = '''', sp_Roles = [''signed-service-api''],
     sp_AuthMethod = ''api_key''\<rparr>"

definition ex_mod_create :: CreateCommand where
  "ex_mod_create = \<lparr>cc_RequestID = ''r-1'', cc_Code = ''device-operations'', cc_Name = ''Devices'', cc_Category = ''core'', cc_Reason = ''launch'',
     cc_SalesScope = [''cn'']\<rparr>"

definition ex_sell :: StatusCommand where
  "ex_sell = \<lparr>sc_RequestID = ''r-2'', sc_Code = ''device-operations'', sc_Reason = ''launch'', sc_Version = 1, sc_Technical = '''',
     sc_Sales = SalesSellable\<rparr>"

definition ex_verification :: RuntimeVerificationCommand where
  "ex_verification = \<lparr>vc_ModuleCode = ''device-operations'', vc_EvidenceDigest = replicate 64 CHR ''a'', vc_SourceTree = replicate 64 CHR ''b'',
     vc_ModuleVersion = 1\<rparr>"

definition ex_delete :: DeleteCommand where
  "ex_delete = \<lparr>dc_RequestID = ''r-3'', dc_Code = ''device-operations'', dc_Reason = ''end of life'', dc_Version = 1\<rparr>"

abbreviation the_db :: "cat_error + Module \<times> CatalogDB \<Rightarrow> CatalogDB" where "the_db x \<equiv> snd (projr x)"

definition ex_cat1 :: CatalogDB where "ex_cat1 = the_db (module_Create ProductionRegistry (Some ex_platform) 5 ex_mod_create new_catalog)"
definition ex_cat2 :: CatalogDB where "ex_cat2 = projr (RecordRuntimeVerification ''api_key'' ProductionRegistry (Some ex_verifier) 6 ex_verification ex_cat1)"
definition ex_cat3 :: CatalogDB where "ex_cat3 = the_db (SetSalesStatus ProductionRegistry (Some ex_platform) 7 ex_sell ex_cat2)"
definition ex_cat4 :: CatalogDB where "ex_cat4 = projr (module_Delete ProductionRegistry [Some [''crm''], None] (Some ex_platform) 8 ex_delete ex_cat3)"

lemma ex_history:
  "\<not> isl (module_Create ProductionRegistry (Some ex_platform) 5 ex_mod_create new_catalog)"
  "\<not> isl (RecordRuntimeVerification ''api_key'' ProductionRegistry (Some ex_verifier) 6 ex_verification ex_cat1)"
  "\<not> isl (SetSalesStatus ProductionRegistry (Some ex_platform) 7 ex_sell ex_cat2)"
  "\<not> isl (module_Delete ProductionRegistry [Some [''crm''], None] (Some ex_platform) 8 ex_delete ex_cat3)"
  by code_simp+

lemma production_registry:
  "registry_Validate ProductionRegistry = None" "distinct (map df_Code ProductionRegistry)" "reg_codes_ok ProductionRegistry"
  by code_simp+

lemma not_isl_projr: "\<not> isl x \<Longrightarrow> x = Inr (projr x)"
  by (cases x) auto

lemma ex_reachable: "catalog_reachable ProductionRegistry ex_cat1" "catalog_reachable ProductionRegistry ex_cat3"
proof -
  let ?s = "catalog_step ProductionRegistry"
  have command_step: "run_command ProductionRegistry ctx now cmd db = Inr (projr x) \<Longrightarrow> ?s db (the_db x)" for cmd ctx now db x
    by (rule catalog_step.command [of _ ctx now cmd db "fst (projr x)"]) simp
  have 1: "?s new_catalog ex_cat1"
    unfolding ex_cat1_def by (rule command_step [of "Some ex_platform" 5 "Do_Create ex_mod_create"]) (use not_isl_projr [OF ex_history(1)] in \<open>simp add: run_command_def\<close>)
  have 2: "?s ex_cat1 ex_cat2" using not_isl_projr [OF ex_history(2)] unfolding ex_cat2_def by (rule catalog_step.verify)
  have 3: "?s ex_cat2 ex_cat3"
    unfolding ex_cat3_def by (rule command_step [of "Some ex_platform" 7 "Do_Sales ex_sell"]) (use not_isl_projr [OF ex_history(3)] in \<open>simp add: run_command_def\<close>)
  from 1 2 3 show "catalog_reachable ProductionRegistry ex_cat1" "catalog_reachable ProductionRegistry ex_cat3" by auto
qed

text \<open>
  C14: in every history of the module catalogue each code has one row, declared by the registry, with
  a version and statuses in range; the modules it depends on are in the catalogue; a module on
  sale has, for its current version, evidence recorded by the controlled verifier; a retired
  code is not in use; and the catalogue version counts the audit entries.\<close>

theorem module_catalog_consistent:
  assumes "catalog_reachable r db"
  shows "distinct (map mr_Code (cdb_modules db)) \<and> set (cdb_retired db) \<inter> mr_Code ` set (cdb_modules db) = {} \<and>
    (\<exists>v. cdb_state db = Some v \<and> unat v = Suc (length (cdb_audit db))) \<and>
    (\<forall>row \<in> set (cdb_modules db). registry_Definition r (mr_Code row) \<noteq> None \<and> mr_Version row \<noteq> 0 \<and>
      mr_TechnicalStatus row \<in> {TechnicalReady, TechnicalNotReady, TechnicalDisabled} \<and> mr_SalesStatus row \<in> {SalesSellable, SalesRetired} \<and>
      set (registry_deps r (mr_Code row)) \<subseteq> mr_Code ` set (cdb_modules db) \<and>
      (mr_SalesStatus row = SalesSellable \<longrightarrow> (\<exists>e. cdb_verified db (mr_Code row, mr_Version row) = Some e \<and>
         starts_with ''ci-verifier:'' (rv_Actor e) \<and> length (rv_EvidenceDigest e) = 64)))"
proof -
  have inv: "tables_ok r (cdb_modules db) (cdb_deps db) (cdb_retired db) (cdb_verified db)" "journal_ok db" "evidence_ok (cdb_verified db)"
    using catalog_reachable_inv [OF assms] by (simp_all add: catalog_inv_def)
  have "catrow_ok r (mr_Code ` set (cdb_modules db)) (cdb_verified db) row" if "row \<in> set (cdb_modules db)" for row
    using tables_okD(2) [OF inv(1) that] .
  moreover have "starts_with ''ci-verifier:'' (rv_Actor e) \<and> length (rv_EvidenceDigest e) = 64" if "cdb_verified db k = Some e" for k e
    using inv(3) that unfolding evidence_ok_def by (meson ranI)
  ultimately show ?thesis using tables_okD(1,5) [OF inv(1)] inv(2) registry_Definition_None [of r]
    unfolding catrow_ok_def journal_ok_def by blast
qed

theorem module_catalog_consistent_witness:
  "set (cdb_retired ex_cat3) \<inter> mr_Code ` set (cdb_modules ex_cat3) = {} \<and> map mr_SalesStatus (cdb_modules ex_cat3) = [SalesSellable]"
proof -
  have "map mr_SalesStatus (cdb_modules ex_cat3) = [SalesSellable]" by code_simp
  with module_catalog_consistent [OF ex_reachable(2)] show ?thesis by blast
qed

text \<open>
  C16: a deleted code is gone for good. Whatever happens after a deletion, the module is not in the
  catalogue and no new request creates it again.\<close>

theorem module_code_never_reused:
  assumes "catalog_reachable r db" "module_Delete r tables ctx now c db = Inr db1" "(catalog_step r)\<^sup>*\<^sup>* db1 db2"
    and "cc_Code c' = dc_Code c" "cdb_receipts db2 (cc_RequestID c') = None"
  shows "find_row db2 (dc_Code c) = None \<and> isl (module_Create r ctx' now' c' db2)"
proof -
  note inv = catalog_reachable_inv [OF assms(1)]
  have inv1: "catalog_inv r db1" using catalog_step_inv [OF catalog_step.delete [OF assms(2)] inv] .
  from assms(2) inv obtain d who where tx: "delete_module_tx tables who d now c db = Inr db1"
    by (auto simp: module_Delete_def catalog_inv_def transact_inv split: if_splits option.splits)
  then have "dc_Code c \<in> set (cdb_retired db1)"
  proof (cases rule: delete_module_cases)
    case (Replay row)
    with inv show ?thesis by (auto simp: catalog_inv_def deletes_ok_def ran_def)
  qed simp
  then have gone: "dc_Code c \<in> set (cdb_retired db2)" "catalog_inv r db2" using catalog_steps_keep [OF assms(3) inv1] by auto
  then have "find_row db2 (dc_Code c) = None" unfolding find_row_None catalog_inv_def using tables_okD(5) by blast
  moreover have "isl (module_Create r ctx' now' c' db2)"
    using gone assms(4,5) by (auto simp: module_Create_def catalog_inv_def transact_inv create_module_tx_def loadIdempotent_def bind_result_def
        split: sum.splits option.splits)
  ultimately show ?thesis by blast
qed

theorem module_code_never_reused_witness:
  "find_row ex_cat4 ''device-operations'' = None \<and> isl (module_Create ProductionRegistry (Some ex_platform) 9 (ex_mod_create\<lparr>cc_RequestID := ''r-9''\<rparr>) ex_cat4)"
proof -
  have d: "module_Delete ProductionRegistry [Some [''crm''], None] (Some ex_platform) 8 ex_delete ex_cat3 = Inr ex_cat4"
    unfolding ex_cat4_def by (rule not_isl_projr [OF ex_history(4)])
  have fresh: "cdb_receipts ex_cat4 (cc_RequestID (ex_mod_create\<lparr>cc_RequestID := ''r-9''\<rparr>)) = None" by code_simp
  have "cc_Code (ex_mod_create\<lparr>cc_RequestID := ''r-9''\<rparr>) = dc_Code ex_delete" by (simp add: ex_mod_create_def ex_delete_def)
  from module_code_never_reused [OF ex_reachable(2) d rtranclp.rtrancl_refl this fresh] show ?thesis by (simp add: ex_delete_def)
qed

text \<open>
  C15: what the resolver and the plans read of the catalogue. For every registry that \<open>NewRegistry\<close>
  accepts and in every history, the snapshot projection and the current projection, inside a scope
  or not, give the same answer. They succeed exactly when the definitions of the modules in the
  table declare their codes in form, no key twice in a group and no capability in two modules,
  which \<open>NewRegistry\<close> does not check and the registry of the product meets, so with it they always
  succeed. A catalogue they return passes the validation of the resolver, lists exactly the modules
  of the table, and every dependency is listed.\<close>

theorem module_catalog_resolvable:
  assumes "NewRegistry ds = Inr r" "catalog_reachable r db"
  shows "ReadCurrentCatalog scope r db = ReadSnapshotCatalog r db \<and>
    ((\<exists>c. ReadSnapshotCatalog r db = Inr c) \<longleftrightarrow> reg_codes_ok (listed r db)) \<and>
    (r = ProductionRegistry \<longrightarrow> (\<exists>c. ReadSnapshotCatalog r db = Inr c)) \<and>
    (\<forall>c. ReadSnapshotCatalog r db = Inr c \<longrightarrow> Catalog_Validate c = None \<and>
      known c = mr_Code ` set (cdb_modules db) \<and> (\<forall>m \<in> set c. set (mod_Dependencies m) \<subseteq> known c))"
proof -
  from NewRegistry_valid [OF assms(1)] have r: "registry_Validate r = None" "distinct (map df_Code r)" by auto
  note inv = catalog_reachable_inv [OF assms(2)]
  have deps: "set (mod_Dependencies m) \<subseteq> mr_Code ` set (cdb_modules db)" if "m \<in> set (projected r db)" for m
    using that projected_member(4) [OF inv] by (fastforce simp: projected_def ordered_rows_def)
  show ?thesis
    unfolding projections [OF inv] validated_iff projected_valid [OF inv r, symmetric]
    using deps projected_codes(2) [of r db] reg_codes_ok_listed [OF production_registry(3), of db] projected_valid [OF inv r] by auto
qed

theorem module_catalog_resolvable_witness:
  "\<exists>c. ReadSnapshotCatalog ProductionRegistry ex_cat3 = Inr c \<and> ReadCurrentCatalog True ProductionRegistry ex_cat3 = Inr c \<and>
     Catalog_Validate c = None \<and> known c = {''device-operations''}"
proof -
  have "NewRegistry ProductionRegistry = Inr ProductionRegistry" "map mr_Code (cdb_modules ex_cat3) = [''device-operations'']" by code_simp+
  note res = module_catalog_resolvable [OF this(1) ex_reachable(2), of True]
  obtain c where c: "ReadSnapshotCatalog ProductionRegistry ex_cat3 = Inr c" using res by blast
  have "mr_Code ` set (cdb_modules ex_cat3) = {''device-operations''}"
    using arg_cong [OF \<open>map mr_Code (cdb_modules ex_cat3) = [''device-operations'']\<close>, of set] by (simp only: set_map list.set)
  with res c show ?thesis by metis
qed

text \<open>
  A catalogue request is applied once. After a create, update or status request has succeeded,
  repeating it, by any platform caller and after any further history, returns the first answer
  and changes nothing.\<close>

lemma module_request_once:
  assumes "catalog_reachable r db" "run_command r ctx now cmd db = Inr (m, db1)" "(catalog_step r)\<^sup>*\<^sup>* db1 db2" "\<not> isl (platformActor ctx')"
  shows "run_command r ctx' now' cmd db2 = Inr (m, db2)"
  using catalog_once.at_most_once [OF catalog_reachable_inv [OF assms(1)], of "(ctx, now, cmd)" m db1 db2 "(ctx', now', cmd)"] assms(2-4)
  by (simp add: run_request_def retries_def)

lemma module_request_once_witness:
  "run_command ProductionRegistry (Some ex_platform) 99 (Do_Create ex_mod_create) ex_cat1 = Inr (fst (projr (module_Create ProductionRegistry (Some ex_platform) 5 ex_mod_create new_catalog)), ex_cat1)"
proof -
  have "run_command ProductionRegistry (Some ex_platform) 5 (Do_Create ex_mod_create) new_catalog =
      Inr (fst (projr (module_Create ProductionRegistry (Some ex_platform) 5 ex_mod_create new_catalog)), ex_cat1)"
    using not_isl_projr [OF ex_history(1)] by (simp add: run_command_def ex_cat1_def)
  moreover have "\<not> isl (platformActor (Some ex_platform))" by code_simp
  ultimately show ?thesis by (rule module_request_once [OF rtranclp.rtrancl_refl _ rtranclp.rtrancl_refl])
qed

text \<open>
  What a create returns is what is stored: after a fresh create, reading the code gives the
  returned module, and the returned module is off sale until it is verified.\<close>

lemma module_create_get:
  assumes "catalog_reachable r db" "module_Create r ctx now c db = Inr (m, db')" "cdb_receipts db (cc_RequestID c) = None"
  shows "module_Get r db' (cc_Code c) = Inr m \<and> m \<in> set (module_List r db') \<and> md_SalesStatus m = SalesRetired"
proof -
  note inv = catalog_reachable_inv [OF assms(1)]
  from assms(2) inv obtain d who where d: "registry_Definition r (cc_Code c) = Some d" and tx: "create_module_tx who d now c db = Inr (m, db')"
    by (auto simp: module_Create_def catalog_inv_def transact_inv split: if_splits option.splits)
  from tx show ?thesis
  proof (cases rule: create_module_cases)
    case (Fresh row v a)
    have "find_row db' (cc_Code c) = Some row" by (simp add: Fresh(4,13) find_row_def)
    moreover have "row \<in> set (ordered_rows db')" by (simp add: ordered_rows_def Fresh(13) set_insort_key)
    ultimately show ?thesis using d Fresh(4,6,8) by (auto simp: module_Get_def module_List_def rowToModule_def intro!: bexI [of _ row])
  qed (use assms(3) in simp)
qed

lemma module_create_get_witness:
  "module_Get ProductionRegistry ex_cat1 ''device-operations'' = Inr (fst (projr (module_Create ProductionRegistry (Some ex_platform) 5 ex_mod_create new_catalog)))"
proof -
  have "module_Create ProductionRegistry (Some ex_platform) 5 ex_mod_create new_catalog =
      Inr (fst (projr (module_Create ProductionRegistry (Some ex_platform) 5 ex_mod_create new_catalog)), ex_cat1)"
    using not_isl_projr [OF ex_history(1)] by (simp add: ex_cat1_def)
  moreover have "cdb_receipts new_catalog (cc_RequestID ex_mod_create) = None" by (simp add: new_catalog_def)
  ultimately have "module_Get ProductionRegistry ex_cat1 (cc_Code ex_mod_create) =
      Inr (fst (projr (module_Create ProductionRegistry (Some ex_platform) 5 ex_mod_create new_catalog)))"
    using module_create_get [OF rtranclp.rtrancl_refl] by blast
  moreover have "cc_Code ex_mod_create = ''device-operations''" by (simp add: ex_mod_create_def)
  ultimately show ?thesis by simp
qed

end
