(* ===== verification/Verification_Protection.thy ===== *)
theory Verification_Protection
  imports Go_Digest
begin

section \<open>Protection of verification secrets\<close>

text \<open>
  \<open>internal/access/infrastructure/persistence/verification_protection.go\<close> and the contact
  normalisation of \<open>contact_protection.go\<close>. HMAC-SHA256 and the unpadded URL alphabet of base64 are
  defined on byte lists. The authenticated cipher (AES-GCM) is an argument, a pair of functions
  \<open>seal key nonce aad plain\<close> and \<open>open key nonce aad sealed\<close>; random bytes are arguments too. The
  Unicode tables behind \<open>strings.ToLower\<close> and \<open>unicode.IsDigit\<close> are an argument.
\<close>

unbundle bit_operations_syntax

datatype ver_error =
    Ver_Invalid | Ver_Expired | Ver_Consumed | Ver_RateLimited duration string | Ver_Conflict
  | Ver_NotificationUnavailable | Ver_InFlight | Ver_Lease | Ver_Policy string
  | Ver_KeyUnavailable | Ver_KeyConfig | Ver_CipherCorrupt | Ver_Contact | Ver_DuplicateKey | Ver_MissingRow

subsection \<open>Base64, unpadded URL alphabet\<close>

definition b64_char :: "nat \<Rightarrow> char" where
  "b64_char n = char_of
     (if n < 26 then 65 + n else if n < 52 then 97 + (n - 26) else if n < 62 then 48 + (n - 52) else if n = 62 then 45 else (95 :: nat))"

definition b64_value :: "char \<Rightarrow> nat option" where
  "b64_value c =
     (let b = byte c in
      if 65 \<le> b \<and> b \<le> 90 then Some (b - 65) else if 97 \<le> b \<and> b \<le> 122 then Some (b - 97 + 26)
      else if 48 \<le> b \<and> b \<le> 57 then Some (b - 48 + 52) else if b = 45 then Some 62 else if b = 95 then Some 63 else None)"

fun b64_enc :: "nat list \<Rightarrow> nat list" where
  "b64_enc (a # b # c # r) = a div 4 # (a mod 4 * 16 + b div 16) # (b mod 16 * 4 + c div 64) # c mod 64 # b64_enc r"
| "b64_enc [a, b] = [a div 4, a mod 4 * 16 + b div 16, b mod 16 * 4]"
| "b64_enc [a] = [a div 4, a mod 4 * 16]"
| "b64_enc [] = []"

fun b64_dec :: "nat list \<Rightarrow> nat list option" where
  "b64_dec (w # x # y # z # r) = map_option ((@) [w * 4 + x div 16, x mod 16 * 16 + y div 4, y mod 4 * 64 + z]) (b64_dec r)"
| "b64_dec [w, x, y] = Some [w * 4 + x div 16, x mod 16 * 16 + y div 4]"
| "b64_dec [w, x] = Some [w * 4 + x div 16]"
| "b64_dec [w] = None"
| "b64_dec [] = Some []"

definition EncodeToString :: "string \<Rightarrow> string" where
  "EncodeToString s = map b64_char (b64_enc (map byte s))"

text \<open>Decoding skips line ends and refuses any other byte outside the alphabet.\<close>

definition DecodeString :: "string \<Rightarrow> string option" where
  "DecodeString s =
     (let t = filter (\<lambda>c. byte c \<noteq> 13 \<and> byte c \<noteq> 10) s in
      if \<exists>c \<in> set t. b64_value c = None then None
      else map_option (map char_of) (b64_dec (map (\<lambda>c. the (b64_value c)) t)))"

subsection \<open>HMAC-SHA256\<close>

definition word_bytes :: "32 word \<Rightarrow> string" where
  "word_bytes w = map (\<lambda>i. char_of (unat w div 256 ^ i mod 256)) [3, 2, 1, 0]"

fun state_bytes :: "sha_state \<Rightarrow> string" where
  "state_bytes (a, b, c, d, e, f, g, h) =
     word_bytes a @ word_bytes b @ word_bytes c @ word_bytes d @ word_bytes e @ word_bytes f @ word_bytes g @ word_bytes h"

definition sha256_sum :: "string \<Rightarrow> string" where
  "sha256_sum m = state_bytes (sha_blocks sha_init (be_words (sha_pad m)))"

definition hmac_pad :: "nat \<Rightarrow> string \<Rightarrow> string" where
  "hmac_pad x key = map (\<lambda>c. char_of (byte c XOR x)) (key @ replicate (64 - length key) (char_of (0 :: nat)))"

definition hmac_sha256 :: "string \<Rightarrow> string \<Rightarrow> string" where
  "hmac_sha256 key m =
     (let k = (if length key > 64 then sha256_sum key else key)
      in sha256_sum (hmac_pad 92 k @ sha256_sum (hmac_pad 54 k @ m)))"

subsection \<open>Contacts\<close>

record UnicodeTables =
  ut_ToLower :: "string \<Rightarrow> string"
  ut_IsDigit :: "string \<Rightarrow> bool"

text \<open>The position of the last \<open>@\<close>, \<open>-1\<close> when there is none.\<close>

definition LastIndexByte :: "string \<Rightarrow> char \<Rightarrow> int" where
  "LastIndexByte s c = (let is' = filter (\<lambda>i. s ! i = c) [0 ..< length s] in if is' = [] then -1 else int (last is'))"

definition NormalizeEmail :: "UnicodeTables \<Rightarrow> string \<Rightarrow> ver_error + string" where
  "NormalizeEmail u v =
     (let value = ut_ToLower u (TrimSpace v); at = LastIndexByte value CHR ''@'' in
      if at \<le> 0 \<or> at = int (length value) - 1 \<or> length value > 320 \<or>
         (\<exists>c \<in> set value. c = CHR 0x0D \<or> c = CHR 0x0A \<or> c = CHR 0x09 \<or> c = CHR '' '') then Inl Ver_Contact
      else Inr value)"

text \<open>The loop over the runes of the number; \<open>start\<close> says whether the rune is the first one.\<close>

fun phone_runes :: "UnicodeTables \<Rightarrow> bool \<Rightarrow> string list \<Rightarrow> string option" where
  "phone_runes u start [] = Some []"
| "phone_runes u start (r # rs) =
     (if ut_IsDigit u r then map_option ((@) r) (phone_runes u False rs)
      else if r = ''+'' \<and> start then map_option ((@) r) (phone_runes u False rs)
      else if r = '' '' \<or> r = ''-'' \<or> r = ''('' \<or> r = '')'' then phone_runes u False rs
      else None)"

definition TrimPrefix :: "string \<Rightarrow> string \<Rightarrow> string" where
  "TrimPrefix s p = (if starts_with p s then drop (length p) s else s)"

definition NormalizePhone :: "UnicodeTables \<Rightarrow> string \<Rightarrow> ver_error + string" where
  "NormalizePhone u v =
     (let value = TrimSpace v in
      if value = '''' then Inr ''''
      else case phone_runes u True (rune_chunks value) of
        None \<Rightarrow> Inl Ver_Contact
      | Some normalized \<Rightarrow>
        let digits = TrimPrefix normalized ''+'' in
        if length digits < 6 \<or> length digits > 20 then Inl Ver_Contact else Inr normalized)"

text \<open>A string of runes: an invalid byte becomes the replacement character.\<close>

definition rune_string :: "string list \<Rightarrow> string" where
  "rune_string rs = concat (map (\<lambda>r. if valid_rune_width r = Some (length r) then r else [CHR 0xEF, CHR 0xBF, CHR 0xBD]) rs)"

definition MaskEmail :: "string \<Rightarrow> string" where
  "MaskEmail v =
     (let value = TrimSpace v; at = LastIndexByte value CHR ''@'' in
      if at \<le> 0 \<or> at = int (length value) - 1 then ''***''
      else
        let local = take (nat at) value; domain = drop (nat at + 1) value; runes = rune_chunks local in
        if length runes = 1 then local @ ''***@'' @ domain else rune_string [hd runes] @ ''***@'' @ domain)"

definition MaskPhone :: "string \<Rightarrow> string" where
  "MaskPhone v =
     (let value = TrimSpace v in
      if value = '''' then ''''
      else
        let digits = rune_chunks (TrimPrefix value ''+'') in
        if length digits \<le> 4 then ''****''
        else
          let prefix = (if starts_with ''+'' value then ''+'' else '''');
              visibleLeft = (if length digits < 7 then 1 else 3)
          in prefix @ rune_string (take visibleLeft digits) @ ''****'' @ rune_string (drop (length digits - 4) digits))"

subsection \<open>Keys\<close>

abbreviation Channel_Email :: string where "Channel_Email \<equiv> ''email''"
abbreviation Channel_SMS :: string where "Channel_SMS \<equiv> ''sms''"

record VerificationProtection =
  vp_activeVersion :: string
  vp_keys :: "string \<rightharpoonup> string"
  vp_hmacKey :: string

fun protection_keys :: "(string \<times> string) list \<Rightarrow> (string \<rightharpoonup> string) \<Rightarrow> ver_error + (string \<rightharpoonup> string)" where
  "protection_keys [] keys = Inr keys"
| "protection_keys ((v, raw) # r) keys =
     (let version = TrimSpace v in
      if version = '''' \<or> (length raw \<noteq> 16 \<and> length raw \<noteq> 24 \<and> length raw \<noteq> 32) then Inl Ver_KeyConfig
      else protection_keys r (keys(version \<mapsto> raw)))"

definition NewVerificationProtection :: "string \<Rightarrow> (string \<times> string) list \<Rightarrow> string \<Rightarrow> ver_error + VerificationProtection" where
  "NewVerificationProtection activeVersion ks hmacKey =
     (let active = TrimSpace activeVersion in
      if active = '''' \<or> length hmacKey < 32 then Inl Ver_KeyUnavailable
      else bind_result (protection_keys ks Map.empty) (\<lambda>keys.
        case keys active of
          None \<Rightarrow> Inl Ver_KeyUnavailable
        | Some raw \<Rightarrow> if raw = [] then Inl Ver_KeyUnavailable else Inr \<lparr>vp_activeVersion = active, vp_keys = keys, vp_hmacKey = hmacKey\<rparr>))"

definition mac :: "VerificationProtection \<Rightarrow> string \<Rightarrow> string \<Rightarrow> string" where
  "mac p purpose value =
     (if length (vp_hmacKey p) < 32 then ''''
      else EncodeToString (hmac_sha256 (vp_hmacKey p) (''biz/verification/v1/'' @ purpose @ [CHR 0x00] @ value)))"

definition normalizeVerificationDestination :: "UnicodeTables \<Rightarrow> string \<Rightarrow> string \<Rightarrow> ver_error + string" where
  "normalizeVerificationDestination u channel value =
     (if channel = Channel_Email then NormalizeEmail u value
      else if channel = Channel_SMS then NormalizePhone u value
      else Inl Ver_Invalid)"

definition DestinationHash :: "UnicodeTables \<Rightarrow> VerificationProtection \<Rightarrow> string \<Rightarrow> string \<Rightarrow> ver_error + string \<times> string" where
  "DestinationHash u p channel destination =
     bind_result (normalizeVerificationDestination u channel destination) (\<lambda>normalized.
       Inr (mac p (''destination/'' @ channel) normalized, normalized))"

definition MaskDestination :: "string \<Rightarrow> string \<Rightarrow> string" where
  "MaskDestination channel normalized =
     (if channel = Channel_Email then MaskEmail normalized else if channel = Channel_SMS then MaskPhone normalized else ''***'')"

definition HashCode :: "VerificationProtection \<Rightarrow> string \<Rightarrow> string \<Rightarrow> string" where
  "HashCode p challengeID code = mac p (''otp/'' @ TrimSpace challengeID) (TrimSpace code)"

definition HashAuthorization :: "VerificationProtection \<Rightarrow> string \<Rightarrow> string" where
  "HashAuthorization p raw = mac p ''authorization'' (TrimSpace raw)"

fun join_nul :: "string list \<Rightarrow> string" where
  "join_nul [] = []"
| "join_nul [s] = s"
| "join_nul (s # ss) = s @ CHR 0x00 # join_nul ss"

definition binding_value :: "string \<Rightarrow> string \<Rightarrow> string \<Rightarrow> string \<Rightarrow> string \<Rightarrow> string \<Rightarrow> string" where
  "binding_value purpose userID tenantID flowID channel destinationHash =
     join_nul [purpose, TrimSpace userID, TrimSpace tenantID, TrimSpace flowID, channel, TrimSpace destinationHash]"

definition BindingHash :: "VerificationProtection \<Rightarrow> string \<Rightarrow> string \<Rightarrow> string \<Rightarrow> string \<Rightarrow> string \<Rightarrow> string \<Rightarrow> string" where
  "BindingHash p purpose userID tenantID flowID channel destinationHash =
     mac p ''binding'' (binding_value purpose userID tenantID flowID channel destinationHash)"

text \<open>Unix microseconds, rounded down; the zero time is 1 January of year 1.\<close>

definition UnixMicro :: "time \<Rightarrow> int" where
  "UnixMicro t = t div 1000 - 62135596800000000"

definition NotificationBindingHash ::
  "VerificationProtection \<Rightarrow> string \<Rightarrow> string \<Rightarrow> string \<Rightarrow> string \<Rightarrow> string \<Rightarrow> string \<Rightarrow> string \<Rightarrow> string \<Rightarrow> time \<Rightarrow> string" where
  "NotificationBindingHash p kind purpose userID tenantID flowID channel destinationHash secret expiresAt =
     mac p ''notification-binding'' (join_nul [kind, purpose, TrimSpace userID, TrimSpace tenantID, TrimSpace flowID, channel,
       TrimSpace destinationHash, TrimSpace secret, dec_int (UnixMicro expiresAt)])"

subsection \<open>Encryption\<close>

record Aead =
  ae_Seal :: "string \<Rightarrow> string \<Rightarrow> string \<Rightarrow> string \<Rightarrow> string"
  ae_Open :: "string \<Rightarrow> string \<Rightarrow> string \<Rightarrow> string \<Rightarrow> string option"

abbreviation NonceSize :: nat where "NonceSize \<equiv> 12"

definition notification_aad :: "string \<Rightarrow> string \<Rightarrow> string \<Rightarrow> string" where
  "notification_aad eventID field version =
     ''biz/security-notification/v1/'' @ TrimSpace eventID @ ''/'' @ TrimSpace field @ ''/'' @ version"

definition valid_key :: "string \<Rightarrow> bool" where
  "valid_key key \<longleftrightarrow> length key = 16 \<or> length key = 24 \<or> length key = 32"

definition ProtectNotification :: "Aead \<Rightarrow> VerificationProtection \<Rightarrow> string \<Rightarrow> string \<Rightarrow> string \<Rightarrow> string \<Rightarrow> ver_error + string \<times> string" where
  "ProtectNotification c p nonce eventID field value =
     (let key = (case vp_keys p (vp_activeVersion p) of None \<Rightarrow> [] | Some k \<Rightarrow> k) in
      if \<not> valid_key key then Inl Ver_KeyConfig
      else Inr (EncodeToString (nonce @ ae_Seal c key nonce (notification_aad eventID field (vp_activeVersion p)) value), vp_activeVersion p))"

definition DecryptNotification :: "Aead \<Rightarrow> VerificationProtection \<Rightarrow> string \<Rightarrow> string \<Rightarrow> string \<Rightarrow> string \<Rightarrow> ver_error + string" where
  "DecryptNotification c p eventID field ciphertext ver =
     (let version = TrimSpace ver; key = (case vp_keys p version of None \<Rightarrow> [] | Some k \<Rightarrow> k) in
      if key = [] then Inl Ver_KeyUnavailable
      else case DecodeString (TrimSpace ciphertext) of
        None \<Rightarrow> Inl Ver_CipherCorrupt
      | Some payload \<Rightarrow>
        if \<not> valid_key key then Inl Ver_KeyConfig
        else if length payload \<le> NonceSize then Inl Ver_CipherCorrupt
        else case ae_Open c key (take NonceSize payload) (notification_aad eventID field version) (drop NonceSize payload) of
          None \<Rightarrow> Inl Ver_CipherCorrupt
        | Some plain \<Rightarrow> Inr plain)"

text \<open>The random digits are the argument \<open>ds\<close>, each below ten.\<close>

definition GenerateCode :: "nat list \<Rightarrow> int \<Rightarrow> ver_error + string" where
  "GenerateCode ds digits =
     (if digits < 4 \<or> digits > 10 then Inl Ver_Invalid else Inr (map (\<lambda>d. char_of (48 + d mod 10)) (take (nat digits) ds)))"

definition stableSecurityEventID :: "string \<Rightarrow> string" where
  "stableSecurityEventID businessEventID =
     ''sec-'' @ take 43 (EncodeToString (sha256_sum (''biz/security-event/v1/'' @ TrimSpace businessEventID)))"

definition constantVerificationEqual :: "string \<Rightarrow> string \<Rightarrow> bool" where
  "constantVerificationEqual left right \<longleftrightarrow> \<not> (length left = 0 \<or> length left \<noteq> length right) \<and> left = right"

section \<open>Round trips\<close>

lemma byte_char_of [simp]: "byte (char_of n) = n mod 256"
  by (simp add: byte_def)

lemma byte_less [simp]: "byte c < 256"
  by (simp add: byte_def)

lemma char_of_byte [simp]: "char_of (byte c) = c"
  by (simp add: byte_def)

lemma b64_value_char: "n < 64 \<Longrightarrow> b64_value (b64_char n) = Some n"
proof -
  assume "n < 64"
  then consider "n < 26" | "26 \<le> n" "n < 52" | "52 \<le> n" "n < 62" | "n = 62" | "n = 63" by linarith
  then show ?thesis by cases (simp_all add: b64_char_def b64_value_def Let_def, linarith)
qed

lemma b64_char_byte: "n < 64 \<Longrightarrow> byte (b64_char n) \<in> {45, 95} \<union> {48..57} \<union> {65..90} \<union> {97..122}"
  by (auto simp: b64_char_def)

lemma b64_enc_less: "\<forall>x \<in> set xs. x < 256 \<Longrightarrow> \<forall>y \<in> set (b64_enc xs). y < 64"
proof (induction xs rule: b64_enc.induct)
  case (1 a b c r)
  have "a mod 4 * 16 + b div 16 < 64" "b mod 16 * 4 + c div 64 < 64" using 1(2) by (auto simp: less_mult_imp_div_less)
  with 1 show ?case by (auto simp: less_mult_imp_div_less)
next
  case (2 a b)
  have "a mod 4 * 16 + b div 16 < 64" "b mod 16 * 4 < 64" using 2 by (auto simp: less_mult_imp_div_less)
  with 2 show ?case by (auto simp: less_mult_imp_div_less)
qed (auto simp: less_mult_imp_div_less)

lemma b64_dec_enc: "\<forall>x \<in> set xs. x < 256 \<Longrightarrow> b64_dec (b64_enc xs) = Some xs"
proof (induction xs rule: b64_enc.induct)
  case (1 a b c r)
  have "b div 16 < 16" "c div 64 < 4" using 1(2) by (auto simp: less_mult_imp_div_less)
  with 1 show ?case by (simp add: div_mult_mod_eq add.commute)
next
  case (2 a b)
  then have "b div 16 < 16" by (auto simp: less_mult_imp_div_less)
  then show ?case by simp
qed simp_all

lemma length_b64_enc: "length xs \<le> length (b64_enc xs)"
  by (induction xs rule: b64_enc.induct) auto

lemma DecodeString_EncodeToString [simp]: "DecodeString (EncodeToString s) = Some s"
proof -
  have less: "\<forall>y \<in> set (b64_enc (map byte s)). y < 64" by (rule b64_enc_less) simp
  then have t: "filter (\<lambda>c. byte c \<noteq> 13 \<and> byte c \<noteq> 10) (EncodeToString s) = EncodeToString s"
    using b64_char_byte by (fastforce simp: EncodeToString_def filter_id_conv)
  have "map (\<lambda>c. the (b64_value c)) (EncodeToString s) = b64_enc (map byte s)"
    using less b64_value_char by (auto simp: EncodeToString_def intro!: map_idI)
  moreover have "b64_value c \<noteq> None" if "c \<in> set (EncodeToString s)" for c
    using that less b64_value_char by (auto simp: EncodeToString_def)
  then have "(\<exists>c \<in> set (EncodeToString s). b64_value c = None) = False" by blast
  ultimately show ?thesis using b64_dec_enc [of "map byte s"] by (simp only: DecodeString_def t Let_def) (simp add: comp_def)
qed

lemma space_rune_heads: "p \<in> set space_runes \<union> set (map rev space_runes) \<Longrightarrow> p \<noteq> [] \<and> (byte (hd p) \<in> {9..13} \<union> {32} \<or> 128 \<le> byte (hd p))"
  by (auto simp: space_runes_def byte_def)

lemma not_starts_space:
  assumes "\<forall>c \<in> set s. byte c \<notin> {9..13} \<union> {32} \<and> byte c < 128" "p \<in> set space_runes \<union> set (map rev space_runes)"
  shows "\<not> starts_with p s"
proof
  assume st: "starts_with p s"
  then obtain c p' where p: "p = c # p'" by (cases p) (auto simp: starts_with_def)
  with st have "c \<in> set s" by (cases s) (auto simp: starts_with_def)
  with assms space_rune_heads [OF assms(2)] p show False by auto
qed

lemma TrimSpace_plain: "\<forall>c \<in> set s. byte c \<notin> {9..13} \<union> {32} \<and> byte c < 128 \<Longrightarrow> TrimSpace s = s"
proof -
  assume s: "\<forall>c \<in> set s. byte c \<notin> {9..13} \<union> {32} \<and> byte c < 128"
  have "trim_prefixes space_runes s = s" by (rule trim_prefixes_fixed) (use not_starts_space [OF s] in blast)
  moreover have "trim_prefixes (map rev space_runes) (rev s) = rev s"
    by (rule trim_prefixes_fixed) (use not_starts_space [of "rev s"] s in auto)
  ultimately show ?thesis by (simp add: TrimSpace_def)
qed

lemma EncodeToString_plain: "c \<in> set (EncodeToString s) \<Longrightarrow> byte c \<notin> {9..13} \<union> {32} \<and> byte c < 128"
proof -
  assume "c \<in> set (EncodeToString s)"
  then obtain n where "n \<in> set (b64_enc (map byte s))" "c = b64_char n" by (auto simp: EncodeToString_def)
  with b64_enc_less [of "map byte s"] b64_char_byte [of n] show ?thesis by auto
qed

lemma TrimSpace_EncodeToString [simp]: "TrimSpace (EncodeToString s) = EncodeToString s"
  by (rule TrimSpace_plain) (use EncodeToString_plain in blast)

lemma length_state_bytes: "length (state_bytes st) = 32"
  by (cases st rule: state_bytes.cases) (simp add: word_bytes_def)

lemma length_sha256_sum [simp]: "length (sha256_sum m) = 32"
  by (simp add: sha256_sum_def length_state_bytes)

lemma mac_nonempty: "32 \<le> length (vp_hmacKey p) \<Longrightarrow> mac p purpose value \<noteq> []"
proof -
  assume "32 \<le> length (vp_hmacKey p)"
  moreover have "length (hmac_sha256 k m) = 32" for k m by (simp add: hmac_sha256_def Let_def)
  ultimately have "32 \<le> length (mac p purpose value)"
    using length_b64_enc [of "map byte (hmac_sha256 (vp_hmacKey p) (''biz/verification/v1/'' @ purpose @ [CHR 0x00] @ value))"]
    by (simp add: mac_def EncodeToString_def)
  then show ?thesis by auto
qed

lemma constantVerificationEqual_iff: "constantVerificationEqual a b \<longleftrightarrow> a \<noteq> [] \<and> a = b"
  by (auto simp: constantVerificationEqual_def)

lemma protection_keys_valid: "protection_keys ks keys0 = Inr keys \<Longrightarrow> keys v = Some raw \<Longrightarrow> keys0 v = Some raw \<or> valid_key raw \<and> TrimSpace v = v"
  by (induction ks keys0 rule: protection_keys.induct) (auto simp: Let_def valid_key_def split: if_splits)

lemma NewVerificationProtection_fields:
  assumes "NewVerificationProtection active ks hmacKey = Inr p"
  shows "32 \<le> length (vp_hmacKey p)" "TrimSpace (vp_activeVersion p) = vp_activeVersion p"
    "\<exists>key. vp_keys p (vp_activeVersion p) = Some key \<and> valid_key key \<and> key \<noteq> []"
  using assms protection_keys_valid [of ks Map.empty]
  by (auto simp: NewVerificationProtection_def Let_def split: if_splits option.splits)

text \<open>The parts of a joined value are recovered when none of them holds the separator.\<close>

lemma nul_join_inject:
  "CHR 0x00 \<notin> set a \<Longrightarrow> CHR 0x00 \<notin> set a' \<Longrightarrow> a @ CHR 0x00 # b = a' @ CHR 0x00 # b' \<longleftrightarrow> a = a' \<and> b = b'"
  by (induction a arbitrary: a') (case_tac a'; auto)+

lemma join_nul_inject:
  "length xs = length ys \<Longrightarrow> \<forall>s \<in> set xs \<union> set ys. CHR 0x00 \<notin> set s \<Longrightarrow> join_nul xs = join_nul ys \<Longrightarrow> xs = ys"
proof (induction xs ys rule: list_induct2)
  case (Cons x xs y ys)
  then show ?case by (cases xs; cases ys) (auto simp: nul_join_inject)
qed simp

text \<open>A cipher without secrecy that meets the two laws: the sealed value carries the associated data.\<close>

definition ex_prefix :: "string \<Rightarrow> string" where
  "ex_prefix aad = replicate (length aad) (CHR ''+'') @ CHR ''|'' # aad"

definition ex_aead :: Aead where
  "ex_aead = \<lparr>ae_Seal = (\<lambda>key n aad plain. ex_prefix aad @ plain),
     ae_Open = (\<lambda>key n aad sealed. if take (length (ex_prefix aad)) sealed = ex_prefix aad then Some (drop (length (ex_prefix aad)) sealed) else None)\<rparr>"

lemma ex_prefix_inject: "ex_prefix a @ x = ex_prefix b @ y \<Longrightarrow> a = b"
proof -
  assume eq: "ex_prefix a @ x = ex_prefix b @ y"
  have "takeWhile (\<lambda>c. c = CHR ''+'') (ex_prefix s @ z) = replicate (length s) (CHR ''+'')" for s z
    unfolding ex_prefix_def append_assoc by (subst takeWhile_append2) auto
  from arg_cong [OF eq, of "takeWhile (\<lambda>c. c = CHR ''+'')", unfolded this] have "length a = length b" by (metis length_replicate)
  with eq show "a = b" by (simp add: ex_prefix_def)
qed

lemma ex_aead_laws:
  "ae_Open ex_aead key n aad (ae_Seal ex_aead key n aad plain) = Some plain"
  "aad \<noteq> aad' \<Longrightarrow> ae_Open ex_aead key' n aad' (ae_Seal ex_aead key n aad plain) = None"
  "ae_Seal ex_aead key n aad plain \<noteq> []"
proof -
  assume "aad \<noteq> aad'"
  then have "take (length (ex_prefix aad')) (ex_prefix aad @ plain) \<noteq> ex_prefix aad'" by (metis append_take_drop_id ex_prefix_inject)
  then show "ae_Open ex_aead key' n aad' (ae_Seal ex_aead key n aad plain) = None" by (simp add: ex_aead_def)
qed (simp_all add: ex_aead_def ex_prefix_def)

definition ex_protection :: VerificationProtection where
  "ex_protection = \<lparr>vp_activeVersion = ''v1'', vp_keys = [''v1'' \<mapsto> replicate 32 CHR ''k''], vp_hmacKey = replicate 32 CHR ''h''\<rparr>"

lemma ex_protection_ok: "NewVerificationProtection ''v1'' [(''v1'', replicate 32 CHR ''k'')] (replicate 32 CHR ''h'') = Inr ex_protection"
proof -
  have "TrimSpace ''v1'' = ''v1''" by code_simp
  then show ?thesis by (simp add: NewVerificationProtection_def ex_protection_def bind_result_def Let_def)
qed

lemma decrypt_protected:
  assumes "NewVerificationProtection active ks hmacKey = Inr p" "length nonce = NonceSize" "\<And>key n aad plain. ae_Seal c key n aad plain \<noteq> []"
  obtains ct key where "vp_keys p (vp_activeVersion p) = Some key" "ProtectNotification c p nonce eventID field value = Inr (ct, vp_activeVersion p)"
    "\<And>e f. DecryptNotification c p e f ct (vp_activeVersion p) =
      (case ae_Open c key nonce (notification_aad e f (vp_activeVersion p)) (ae_Seal c key nonce (notification_aad eventID field (vp_activeVersion p)) value) of
         None \<Rightarrow> Inl Ver_CipherCorrupt | Some plain \<Rightarrow> Inr plain)"
proof -
  obtain key where key: "vp_keys p (vp_activeVersion p) = Some key" "valid_key key" "key \<noteq> []"
    using NewVerificationProtection_fields(3) [OF assms(1)] by blast
  have ver: "TrimSpace (vp_activeVersion p) = vp_activeVersion p" by (rule NewVerificationProtection_fields(2) [OF assms(1)])
  show thesis
    by (rule that [of key "EncodeToString (nonce @ ae_Seal c key nonce (notification_aad eventID field (vp_activeVersion p)) value)"])
      (use key assms(2,3) in \<open>simp_all add: ProtectNotification_def DecryptNotification_def ver Let_def\<close>)
qed

text \<open>
  The associated data name the event, the field and the key version when the first two hold no slash:
  the fields are the constants \<open>destination\<close> and \<open>secret\<close>, and the identifiers of events are
  those of \<open>stableSecurityEventID\<close>.\<close>

lemma notification_aad_inject:
  assumes "CHR ''/'' \<notin> set (TrimSpace e)" "CHR ''/'' \<notin> set (TrimSpace e')" "CHR ''/'' \<notin> set (TrimSpace f)" "CHR ''/'' \<notin> set (TrimSpace f')"
  shows "notification_aad e f v = notification_aad e' f' v' \<longleftrightarrow> TrimSpace e = TrimSpace e' \<and> TrimSpace f = TrimSpace f' \<and> v = v'"
  using assms by (simp add: notification_aad_def slash_join_inject del: append_Cons)

lemma stableSecurityEventID_plain: "TrimSpace (stableSecurityEventID b) = stableSecurityEventID b" "CHR ''/'' \<notin> set (stableSecurityEventID b)"
proof -
  let ?x = "EncodeToString (sha256_sum (''biz/security-event/v1/'' @ TrimSpace b))"
  have c: "c \<in> set ''sec-'' \<or> c \<in> set ?x" if "c \<in> set (stableSecurityEventID b)" for c
    using that by (auto simp: stableSecurityEventID_def dest: in_set_takeD)
  have "\<forall>c \<in> set ''sec-''. byte c \<notin> {9..13} \<union> {32} \<and> byte c < 128" by code_simp
  then show "TrimSpace (stableSecurityEventID b) = stableSecurityEventID b" using c EncodeToString_plain by (intro TrimSpace_plain) blast
  have "byte (CHR ''/'') = 47" by code_simp
  then have "CHR ''/'' \<noteq> b64_char n" if "n < 64" for n using b64_char_byte [OF that] by auto
  then have "CHR ''/'' \<notin> set ?x" using b64_enc_less [of "map byte (sha256_sum (''biz/security-event/v1/'' @ TrimSpace b))"] by (auto simp: EncodeToString_def)
  then show "CHR ''/'' \<notin> set (stableSecurityEventID b)" using c by fastforce
qed

lemma decrypt_sealed:
  assumes "NewVerificationProtection active ks hmacKey = Inr p" "length nonce = NonceSize" "sealed \<noteq> []"
  shows "DecryptNotification c p e f (EncodeToString (nonce @ sealed)) ver =
    (case vp_keys p (TrimSpace ver) of None \<Rightarrow> Inl Ver_KeyUnavailable
     | Some key \<Rightarrow> case ae_Open c key nonce (notification_aad e f (TrimSpace ver)) sealed of None \<Rightarrow> Inl Ver_CipherCorrupt | Some plain \<Rightarrow> Inr plain)"
proof -
  have keys: "protection_keys ks Map.empty = Inr (vp_keys p)"
    using assms(1) by (cases "protection_keys ks Map.empty") (auto simp: NewVerificationProtection_def Let_def split: if_split_asm option.split_asm)
  have "valid_key key \<and> key \<noteq> []" if "vp_keys p v = Some key" for v key
    using protection_keys_valid [OF keys that] by (auto simp: valid_key_def)
  then show ?thesis using assms(2,3) by (auto simp: DecryptNotification_def Let_def split: option.split)
qed

text \<open>
  C20: what was encrypted for an event and a field comes back unchanged, and only for that event, that field
  and that key version. The cipher is assumed to open what it sealed and to refuse other associated data, under any key.
  When the names of the events and fields hold no slash, decrypting the ciphertext for another event,
  another field or another key version (all compared without the white space around them) is refused: the key is
  unavailable when the protection has none of that version, and the ciphertext is corrupt otherwise.\<close>

theorem notification_secret_roundtrip:
  assumes "NewVerificationProtection active ks hmacKey = Inr p" "length nonce = NonceSize"
    and opens: "\<And>key n aad plain. ae_Open c key n aad (ae_Seal c key n aad plain) = Some plain"
    and refuses: "\<And>key key' n aad aad' plain. aad \<noteq> aad' \<Longrightarrow> ae_Open c key' n aad' (ae_Seal c key n aad plain) = None"
    and longer: "\<And>key n aad plain. ae_Seal c key n aad plain \<noteq> []"
    and names: "CHR ''/'' \<notin> set (TrimSpace eventID)" "CHR ''/'' \<notin> set (TrimSpace field)"
      "CHR ''/'' \<notin> set (TrimSpace eventID')" "CHR ''/'' \<notin> set (TrimSpace field')"
  shows "\<exists>ct ver. ProtectNotification c p nonce eventID field value = Inr (ct, ver) \<and> DecryptNotification c p eventID field ct ver = Inr value \<and>
    (TrimSpace eventID' \<noteq> TrimSpace eventID \<or> TrimSpace field' \<noteq> TrimSpace field \<or> TrimSpace ver' \<noteq> ver \<longrightarrow>
       DecryptNotification c p eventID' field' ct ver' =
         Inl (if vp_keys p (TrimSpace ver') = None then Ver_KeyUnavailable else Ver_CipherCorrupt))"
proof -
  let ?v = "vp_activeVersion p"
  obtain key where key: "vp_keys p ?v = Some key" "valid_key key" using NewVerificationProtection_fields(3) [OF assms(1)] by blast
  let ?sealed = "ae_Seal c key nonce (notification_aad eventID field ?v) value"
  note dec = decrypt_sealed [OF assms(1,2) longer, of c _ _ key nonce "notification_aad eventID field ?v" "value"]
  have "ProtectNotification c p nonce eventID field value = Inr (EncodeToString (nonce @ ?sealed), ?v)"
    using key by (simp add: ProtectNotification_def)
  moreover have "DecryptNotification c p eventID field (EncodeToString (nonce @ ?sealed)) ?v = Inr value"
    using key(1) by (simp add: dec NewVerificationProtection_fields(2) [OF assms(1)] opens)
  moreover have "DecryptNotification c p eventID' field' (EncodeToString (nonce @ ?sealed)) ver' =
         Inl (if vp_keys p (TrimSpace ver') = None then Ver_KeyUnavailable else Ver_CipherCorrupt)"
    if "TrimSpace eventID' \<noteq> TrimSpace eventID \<or> TrimSpace field' \<noteq> TrimSpace field \<or> TrimSpace ver' \<noteq> ?v"
  proof -
    have "notification_aad eventID field ?v \<noteq> notification_aad eventID' field' (TrimSpace ver')"
      using that by (subst notification_aad_inject [OF names(1,3,2,4)]) auto
    then show ?thesis using refuses by (auto simp: dec split: option.split)
  qed
  ultimately show ?thesis by blast
qed

theorem notification_secret_roundtrip_witness:
  "\<exists>ct ver. ProtectNotification ex_aead ex_protection (replicate 12 CHR ''n'') ''sec-1'' ''secret'' ''482913'' = Inr (ct, ver) \<and>
    DecryptNotification ex_aead ex_protection ''sec-1'' ''secret'' ct ver = Inr ''482913'' \<and>
    DecryptNotification ex_aead ex_protection ''sec-2'' ''secret'' ct '' v1'' = Inl Ver_CipherCorrupt"
proof -
  have t: "TrimSpace ''sec-1'' = ''sec-1''" "TrimSpace ''sec-2'' = ''sec-2''" "TrimSpace ''secret'' = ''secret''" "TrimSpace '' v1'' = ''v1''" by code_simp+
  have "(vp_keys ex_protection ''v1'' = None) = False" by (simp add: ex_protection_def)
  moreover note notification_secret_roundtrip [OF ex_protection_ok _ ex_aead_laws, of "replicate 12 CHR ''n''" "''sec-1''" "''secret''" "''sec-2''" "''secret''" "''482913''" "'' v1''"]
  ultimately show ?thesis by (simp add: t del: not_None_eq)
qed

end
