(* ===== verification/Verification.thy ===== *)
theory Verification
  imports Verification_Protection
begin

section \<open>Verification codes and one-time authorizations\<close>

text \<open>
  \<open>internal/access/domain/verification.go\<close> and the repository of
  \<open>internal/access/infrastructure/persistence/verification.go\<close> over its three tables, with the service
  of \<open>internal/access/application/verification.go\<close>. Every operation is one transaction: it receives
  the tables and the clock of the database and returns the outcome with the tables, which change on
  some refusals too. Random values (the secret of a challenge, the digits of a code, nonces, the raw
  authorization) are arguments. The columns of the delivery lease
  (\<open>verification_delivery.go\<close>) belong to the outbox table and are fields of its record.
\<close>

subsection \<open>Policy and requests\<close>

definition verification_purposes :: "string list" where
  "verification_purposes = [''login'', ''password_recovery'', ''contact_change'', ''account_deletion'', ''member_activation'', ''member_lifecycle'',
     ''member_appeal'']"

definition Purpose_Valid :: "string \<Rightarrow> bool" where
  "Purpose_Valid purpose \<longleftrightarrow> purpose \<in> set verification_purposes"

definition Channel_Valid :: "string \<Rightarrow> bool" where
  "Channel_Valid channel \<longleftrightarrow> channel = Channel_Email \<or> channel = Channel_SMS"

abbreviation Kind_VerificationCode :: string where "Kind_VerificationCode \<equiv> ''verification_code''"
abbreviation Kind_InitialCredential :: string where "Kind_InitialCredential \<equiv> ''initial_credential''"
abbreviation Kind_PasswordReset :: string where "Kind_PasswordReset \<equiv> ''password_reset''"
abbreviation Kind_PasswordResetCompleted :: string where "Kind_PasswordResetCompleted \<equiv> ''password_reset_completed''"

definition notification_kinds :: "string list" where
  "notification_kinds = [Kind_VerificationCode, ''login_lock'', Kind_InitialCredential, Kind_PasswordReset, Kind_PasswordResetCompleted,
     ''recovery_request'', ''member_lifecycle'', ''member_appeal'', ''contact_changed'', ''tenant_deletion'']"

definition Kind_Valid :: "string \<Rightarrow> bool" where
  "Kind_Valid kind \<longleftrightarrow> kind \<in> set notification_kinds"

abbreviation State_Pending :: string where "State_Pending \<equiv> ''PENDING''"
abbreviation State_Sending :: string where "State_Sending \<equiv> ''SENDING''"
abbreviation State_Delivered :: string where "State_Delivered \<equiv> ''DELIVERED''"
abbreviation State_Failed :: string where "State_Failed \<equiv> ''FAILED''"
abbreviation State_Cancelled :: string where "State_Cancelled \<equiv> ''CANCELLED''"

record VerificationPolicy =
  vpol_CodeTTL :: duration
  vpol_AuthorizationTTL :: duration
  vpol_ResendInterval :: duration
  vpol_SendLimitWindow :: duration
  vpol_MaxSendsPerWindow :: int
  vpol_MaxVerificationTries :: int
  vpol_CodeDigits :: int

definition VerificationPolicy_Validate :: "VerificationPolicy \<Rightarrow> ver_error err" where
  "VerificationPolicy_Validate pol =
     (if vpol_CodeTTL pol \<le> 0 \<or> vpol_AuthorizationTTL pol \<le> 0 \<or> vpol_SendLimitWindow pol \<le> 0 then Some (Ver_Policy ''ttl'')
      else if vpol_ResendInterval pol < Minute then Some (Ver_Policy ''resend interval'')
      else if vpol_MaxSendsPerWindow pol < 1 \<or> vpol_MaxSendsPerWindow pol > 1000 then Some (Ver_Policy ''send limit'')
      else if vpol_MaxVerificationTries pol < 1 \<or> vpol_MaxVerificationTries pol > 100 then Some (Ver_Policy ''attempt limit'')
      else if vpol_CodeDigits pol < 4 \<or> vpol_CodeDigits pol > 10 then Some (Ver_Policy ''code digits'')
      else None)"

record VerificationChallengeRequest =
  vcr_BusinessEventID :: string
  vcr_FlowID :: string
  vcr_Purpose :: string
  vcr_UserID :: string
  vcr_TenantID :: string
  vcr_Channel :: string
  vcr_Destination :: string

definition ChallengeRequest_Validate :: "VerificationChallengeRequest \<Rightarrow> ver_error err" where
  "ChallengeRequest_Validate q =
     (if TrimSpace (vcr_BusinessEventID q) = '''' \<or> TrimSpace (vcr_FlowID q) = '''' \<or> TrimSpace (vcr_UserID q) = '''' then Some Ver_Invalid
      else if \<not> Purpose_Valid (vcr_Purpose q) \<or> \<not> Channel_Valid (vcr_Channel q) \<or> TrimSpace (vcr_Destination q) = '''' then Some Ver_Invalid
      else None)"

record VerificationChallengeReceipt =
  vrc_ChallengeID :: string
  vrc_NotificationEventID :: string
  vrc_MaskedDestination :: string
  vrc_ExpiresAt :: time
  vrc_DeliveryState :: string

record VerifyChallengeRequest =
  vvr_ChallengeID :: string
  vvr_FlowID :: string
  vvr_Purpose :: string
  vvr_UserID :: string
  vvr_TenantID :: string
  vvr_Channel :: string
  vvr_Destination :: string
  vvr_Code :: string

record OneTimeAuthorization =
  oa_Code :: string
  oa_ExpiresAt :: time

record ConsumeAuthorizationRequest =
  car_Code :: string
  car_FlowID :: string
  car_Purpose :: string
  car_UserID :: string
  car_TenantID :: string
  car_Channel :: string
  car_Destination :: string

record AuthorizationConsumptionReceipt =
  acr_ChallengeID :: string
  acr_ConsumedAt :: time

record SecurityNotificationRequest =
  snr_BusinessEventID :: string
  snr_Kind :: string
  snr_Purpose :: string
  snr_UserID :: string
  snr_TenantID :: string
  snr_FlowID :: string
  snr_Channel :: string
  snr_Destination :: string
  snr_Secret :: string
  snr_ExpiresAt :: time

definition NotificationRequest_Validate :: "SecurityNotificationRequest \<Rightarrow> ver_error err" where
  "NotificationRequest_Validate q =
     (if TrimSpace (snr_BusinessEventID q) = '''' \<or> \<not> Kind_Valid (snr_Kind q) \<or> \<not> Purpose_Valid (snr_Purpose q) \<or> \<not> Channel_Valid (snr_Channel q) \<or>
         TrimSpace (snr_UserID q) = '''' \<or> TrimSpace (snr_Destination q) = '''' \<or> IsZero (snr_ExpiresAt q) then Some Ver_Invalid
      else if snr_Kind q \<in> {Kind_VerificationCode, Kind_InitialCredential, Kind_PasswordReset}
        then (if TrimSpace (snr_Secret q) = '''' then Some Ver_Invalid else None)
      else if snr_Kind q = Kind_PasswordResetCompleted
        then (if snr_Secret q \<noteq> '''' \<or> snr_Purpose q \<noteq> ''password_recovery'' then Some Ver_Invalid else None)
      else None)"

record SecurityNotificationClaim =
  snc_EventID :: string
  snc_BusinessEventID :: string
  snc_Kind :: string
  snc_Purpose :: string
  snc_UserID :: string
  snc_TenantID :: string
  snc_FlowID :: string
  snc_Channel :: string
  snc_Destination :: string
  snc_Secret :: string
  snc_ExpiresAt :: time
  snc_Attempt :: uint32

record NotificationDeliveryReceipt =
  ndr_EventID :: string
  ndr_State :: string
  ndr_ProviderReceipt :: string
  ndr_FailureCode :: string
  ndr_Attempt :: uint32
  ndr_DeliveredAt :: "time option"

subsection \<open>Tables\<close>

record verificationChallengeRecord =
  vch_ChallengeID :: string
  vch_BusinessEventID :: string
  vch_BindingHash :: string
  vch_Purpose :: string
  vch_UserID :: string
  vch_TenantID :: string
  vch_FlowID :: string
  vch_Channel :: string
  vch_DestinationHash :: string
  vch_MaskedDestination :: string
  vch_CodeHash :: string
  vch_Attempts :: uint32
  vch_MaxAttempts :: uint32
  vch_ExpiresAt :: time
  vch_ConsumedAt :: "time option"
  vch_CreatedAt :: time

record oneTimeAuthorizationRecord =
  ota_AuthorizationHash :: string
  ota_ChallengeID :: string
  ota_BindingHash :: string
  ota_Purpose :: string
  ota_UserID :: string
  ota_TenantID :: string
  ota_FlowID :: string
  ota_Channel :: string
  ota_DestinationHash :: string
  ota_ExpiresAt :: time
  ota_ConsumedAt :: "time option"
  ota_CreatedAt :: time

record securityNotificationOutboxRecord =
  ob_EventID :: string
  ob_BusinessEventID :: string
  ob_ChallengeID :: string
  ob_BindingHash :: string
  ob_Kind :: string
  ob_Purpose :: string
  ob_UserID :: string
  ob_TenantID :: string
  ob_FlowID :: string
  ob_Channel :: string
  ob_DestinationHash :: string
  ob_MaskedDestination :: string
  ob_DestinationCiphertext :: string
  ob_SecretCiphertext :: string
  ob_KeyVersion :: string
  ob_State :: string
  ob_Attempts :: uint32
  ob_ProviderReceipt :: string
  ob_FailureCode :: string
  ob_ExpiresAt :: time
  ob_DeliveredAt :: "time option"
  ob_CreatedAt :: time
  ob_UpdatedAt :: time
  ob_LeaseOwner :: string
  ob_LeaseToken :: uint64
  ob_LeaseUntil :: "time option"
  ob_NextAttemptAt :: "time option"
  ob_LastAttemptAt :: "time option"

record VerDB =
  vdb_challenges :: "verificationChallengeRecord list"
  vdb_auths :: "oneTimeAuthorizationRecord list"
  vdb_outbox :: "securityNotificationOutboxRecord list"

record VerEnv =
  ve_unicode :: UnicodeTables
  ve_aead :: Aead
  ve_protection :: VerificationProtection

definition canonicalVerificationTime :: "time \<Rightarrow> time" where
  "canonicalVerificationTime t = (if IsZero t then 0 else t div 1000 * 1000)"

definition notificationBinding :: "VerEnv \<Rightarrow> securityNotificationOutboxRecord \<Rightarrow> string \<Rightarrow> string" where
  "notificationBinding env r secret =
     NotificationBindingHash (ve_protection env) (ob_Kind r) (ob_Purpose r) (ob_UserID r) (ob_TenantID r) (ob_FlowID r) (ob_Channel r)
       (ob_DestinationHash r) secret (ob_ExpiresAt r)"

definition notificationReceipt :: "securityNotificationOutboxRecord \<Rightarrow> NotificationDeliveryReceipt" where
  "notificationReceipt r = \<lparr>ndr_EventID = ob_EventID r, ndr_State = ob_State r, ndr_ProviderReceipt = ob_ProviderReceipt r,
     ndr_FailureCode = ob_FailureCode r, ndr_Attempt = ob_Attempts r, ndr_DeliveredAt = ob_DeliveredAt r\<rparr>"

definition empty_outbox :: securityNotificationOutboxRecord where
  "empty_outbox = \<lparr>ob_EventID = '''', ob_BusinessEventID = '''', ob_ChallengeID = '''', ob_BindingHash = '''', ob_Kind = '''', ob_Purpose = '''',
     ob_UserID = '''', ob_TenantID = '''', ob_FlowID = '''', ob_Channel = '''', ob_DestinationHash = '''', ob_MaskedDestination = '''',
     ob_DestinationCiphertext = '''', ob_SecretCiphertext = '''', ob_KeyVersion = '''', ob_State = '''', ob_Attempts = 0, ob_ProviderReceipt = '''',
     ob_FailureCode = '''', ob_ExpiresAt = 0, ob_DeliveredAt = None, ob_CreatedAt = 0, ob_UpdatedAt = 0, ob_LeaseOwner = '''', ob_LeaseToken = 0,
     ob_LeaseUntil = None, ob_NextAttemptAt = None, ob_LastAttemptAt = None\<rparr>"

definition findChallengeByBusinessEvent :: "VerDB \<Rightarrow> string \<Rightarrow> verificationChallengeRecord option" where
  "findChallengeByBusinessEvent db businessEventID = find (\<lambda>ch. vch_BusinessEventID ch = TrimSpace businessEventID) (vdb_challenges db)"

definition challengeReceipt :: "VerDB \<Rightarrow> verificationChallengeRecord \<Rightarrow> ver_error + VerificationChallengeReceipt" where
  "challengeReceipt db ch =
     (case find (\<lambda>r. ob_ChallengeID r = vch_ChallengeID ch) (vdb_outbox db) of
        None \<Rightarrow> Inl Ver_MissingRow
      | Some r \<Rightarrow> Inr \<lparr>vrc_ChallengeID = vch_ChallengeID ch, vrc_NotificationEventID = ob_EventID r,
          vrc_MaskedDestination = vch_MaskedDestination ch, vrc_ExpiresAt = vch_ExpiresAt ch, vrc_DeliveryState = ob_State r\<rparr>)"

subsection \<open>Creating a challenge\<close>

record Randomness =
  rnd_Secret :: string
  rnd_Digits :: "nat list"
  rnd_Nonce1 :: string
  rnd_Nonce2 :: string

text \<open>The challenges of one target: user, purpose and destination.\<close>

definition same_target :: "string \<Rightarrow> string \<Rightarrow> string \<Rightarrow> verificationChallengeRecord \<Rightarrow> bool" where
  "same_target user purpose dest ch \<longleftrightarrow> vch_UserID ch = user \<and> vch_Purpose ch = purpose \<and> vch_DestinationHash ch = dest"

definition rate_limit :: "VerificationPolicy \<Rightarrow> time \<Rightarrow> verificationChallengeRecord list \<Rightarrow> ver_error err" where
  "rate_limit pol now sent =
     (let nextAllowed = Max (vch_CreatedAt ` set sent) + vpol_ResendInterval pol in
      if sent \<noteq> [] \<and> now < nextAllowed then Some (Ver_RateLimited (nextAllowed - now) ''resend_interval'')
      else if int (length (filter (\<lambda>ch. now - vpol_SendLimitWindow pol \<le> vch_CreatedAt ch) sent)) \<ge> vpol_MaxSendsPerWindow pol
        then Some (Ver_RateLimited (vpol_SendLimitWindow pol) ''send_window_limit'')
      else None)"

definition create_challenge_tx ::
  "VerEnv \<Rightarrow> VerificationPolicy \<Rightarrow> Randomness \<Rightarrow> time \<Rightarrow> VerificationChallengeRequest \<Rightarrow> string \<Rightarrow> string \<Rightarrow> VerDB
     \<Rightarrow> ver_error + VerificationChallengeReceipt \<times> VerDB" where
  "create_challenge_tx env pol rnd now q destinationHash normalized db =
     (let p = ve_protection env; user = TrimSpace (vcr_UserID q);
          binding = BindingHash p (vcr_Purpose q) (vcr_UserID q) (vcr_TenantID q) (vcr_FlowID q) (vcr_Channel q) destinationHash;
          masked = MaskDestination (vcr_Channel q) normalized
      in case findChallengeByBusinessEvent db (vcr_BusinessEventID q) of
        Some existing \<Rightarrow>
          if \<not> constantVerificationEqual (vch_BindingHash existing) binding then Inl Ver_Conflict
          else bind_result (challengeReceipt db existing) (\<lambda>receipt. Inr (receipt, db))
      | None \<Rightarrow>
        case rate_limit pol now (filter (same_target user (vcr_Purpose q) destinationHash) (vdb_challenges db)) of
          Some e \<Rightarrow> Inl e
        | None \<Rightarrow>
          let challengeID = ''vch-'' @ EncodeToString (rnd_Secret rnd); eventID = stableSecurityEventID (vcr_BusinessEventID q) in
          bind_result (GenerateCode (rnd_Digits rnd) (vpol_CodeDigits pol)) (\<lambda>code.
          bind_result (ProtectNotification (ve_aead env) p (rnd_Nonce1 rnd) eventID ''destination'' normalized) (\<lambda>(destinationCiphertext, keyVersion).
          bind_result (ProtectNotification (ve_aead env) p (rnd_Nonce2 rnd) eventID ''secret'' code) (\<lambda>(secretCiphertext, secretVersion).
          if keyVersion \<noteq> secretVersion then Inl Ver_CipherCorrupt
          else
            let challenge = \<lparr>vch_ChallengeID = challengeID, vch_BusinessEventID = TrimSpace (vcr_BusinessEventID q), vch_BindingHash = binding,
                  vch_Purpose = vcr_Purpose q, vch_UserID = user, vch_TenantID = TrimSpace (vcr_TenantID q), vch_FlowID = TrimSpace (vcr_FlowID q),
                  vch_Channel = vcr_Channel q, vch_DestinationHash = destinationHash, vch_MaskedDestination = masked,
                  vch_CodeHash = HashCode p challengeID code, vch_Attempts = 0, vch_MaxAttempts = word_of_int (vpol_MaxVerificationTries pol),
                  vch_ExpiresAt = canonicalVerificationTime (now + vpol_CodeTTL pol), vch_ConsumedAt = None,
                  vch_CreatedAt = canonicalVerificationTime now\<rparr>;
                outbox = empty_outbox\<lparr>ob_EventID := eventID, ob_BusinessEventID := TrimSpace (vcr_BusinessEventID q), ob_ChallengeID := challengeID,
                  ob_Kind := Kind_VerificationCode, ob_Purpose := vcr_Purpose q, ob_UserID := user, ob_TenantID := TrimSpace (vcr_TenantID q),
                  ob_FlowID := TrimSpace (vcr_FlowID q), ob_Channel := vcr_Channel q, ob_DestinationHash := destinationHash,
                  ob_MaskedDestination := masked, ob_DestinationCiphertext := destinationCiphertext, ob_SecretCiphertext := secretCiphertext,
                  ob_KeyVersion := keyVersion, ob_State := State_Pending, ob_ExpiresAt := vch_ExpiresAt challenge, ob_CreatedAt := now,
                  ob_UpdatedAt := now\<rparr>
            in if \<exists>ch \<in> set (vdb_challenges db). vch_ChallengeID ch = challengeID then Inl Ver_Conflict
               else if \<exists>r \<in> set (vdb_outbox db). ob_EventID r = eventID \<or> ob_BusinessEventID r = ob_BusinessEventID outbox then Inl Ver_DuplicateKey
               else Inr (\<lparr>vrc_ChallengeID = challengeID, vrc_NotificationEventID = eventID, vrc_MaskedDestination = masked,
                    vrc_ExpiresAt = vch_ExpiresAt challenge, vrc_DeliveryState = State_Pending\<rparr>,
                  db\<lparr>vdb_challenges := challenge # vdb_challenges db,
                     vdb_outbox := outbox\<lparr>ob_BindingHash := notificationBinding env outbox code\<rparr> # vdb_outbox db\<rparr>)))))"

definition CreateVerificationChallenge ::
  "VerEnv \<Rightarrow> VerificationPolicy \<Rightarrow> Randomness \<Rightarrow> time \<Rightarrow> VerificationChallengeRequest \<Rightarrow> VerDB \<Rightarrow> ver_error + VerificationChallengeReceipt \<times> VerDB" where
  "CreateVerificationChallenge env pol rnd now q db =
     (case or_else (ChallengeRequest_Validate q) (VerificationPolicy_Validate pol) of
        Some e \<Rightarrow> Inl e
      | None \<Rightarrow>
        bind_result (DestinationHash (ve_unicode env) (ve_protection env) (vcr_Channel q) (vcr_Destination q)) (\<lambda>(destinationHash, normalized).
          create_challenge_tx env pol rnd now q destinationHash normalized db))"

subsection \<open>Verifying a code\<close>

definition update_challenge :: "string \<Rightarrow> (verificationChallengeRecord \<Rightarrow> verificationChallengeRecord) \<Rightarrow> VerDB \<Rightarrow> VerDB" where
  "update_challenge i f db = db\<lparr>vdb_challenges := map (\<lambda>ch. if vch_ChallengeID ch = i then f ch else ch) (vdb_challenges db)\<rparr>"

definition cancel_outbox :: "string \<Rightarrow> time \<Rightarrow> VerDB \<Rightarrow> VerDB" where
  "cancel_outbox i now db = db\<lparr>vdb_outbox := map (\<lambda>r.
     if ob_ChallengeID r = i \<and> (ob_State r = State_Pending \<or> ob_State r = State_Failed)
     then r\<lparr>ob_State := State_Cancelled, ob_DestinationCiphertext := '''', ob_SecretCiphertext := '''', ob_FailureCode := ''CHALLENGE_CONSUMED'',
            ob_UpdatedAt := now\<rparr> else r) (vdb_outbox db)\<rparr>"

text \<open>The refusals before the code is compared.\<close>

definition verify_refusal :: "string \<Rightarrow> time \<Rightarrow> verificationChallengeRecord \<Rightarrow> ver_error err" where
  "verify_refusal expectedBinding now ch =
     (if \<not> constantVerificationEqual (vch_BindingHash ch) expectedBinding then Some Ver_Invalid
      else if vch_ConsumedAt ch \<noteq> None then Some Ver_Consumed
      else if \<not> now < vch_ExpiresAt ch then Some Ver_Expired
      else if vch_Attempts ch \<ge> vch_MaxAttempts ch then Some (Ver_RateLimited 0 ''attempt_limit'')
      else None)"

definition verify_tx ::
  "VerEnv \<Rightarrow> VerificationPolicy \<Rightarrow> string \<Rightarrow> time \<Rightarrow> VerifyChallengeRequest \<Rightarrow> string \<Rightarrow> VerDB \<Rightarrow> (ver_error + OneTimeAuthorization) \<times> VerDB" where
  "verify_tx env pol raw now q expectedBinding db =
     (case find (\<lambda>ch. vch_ChallengeID ch = TrimSpace (vvr_ChallengeID q)) (vdb_challenges db) of
        None \<Rightarrow> (Inl Ver_Invalid, db)
      | Some ch \<Rightarrow>
        case verify_refusal expectedBinding now ch of
          Some e \<Rightarrow> (Inl e, db)
        | None \<Rightarrow>
          if \<not> constantVerificationEqual (vch_CodeHash ch) (HashCode (ve_protection env) (vch_ChallengeID ch) (vvr_Code q)) then
            (let attempts = vch_Attempts ch + 1 in
             (Inl (if attempts \<ge> vch_MaxAttempts ch then Ver_RateLimited 0 ''attempt_limit'' else Ver_Invalid),
              update_challenge (vch_ChallengeID ch) (\<lambda>c. c\<lparr>vch_Attempts := attempts\<rparr>) db))
          else
            let authorization = \<lparr>ota_AuthorizationHash = HashAuthorization (ve_protection env) raw, ota_ChallengeID = vch_ChallengeID ch,
                  ota_BindingHash = vch_BindingHash ch, ota_Purpose = vch_Purpose ch, ota_UserID = vch_UserID ch, ota_TenantID = vch_TenantID ch,
                  ota_FlowID = vch_FlowID ch, ota_Channel = vch_Channel ch, ota_DestinationHash = vch_DestinationHash ch,
                  ota_ExpiresAt = canonicalVerificationTime (now + vpol_AuthorizationTTL pol), ota_ConsumedAt = None,
                  ota_CreatedAt = canonicalVerificationTime now\<rparr>
            in if \<exists>a \<in> set (vdb_auths db). ota_AuthorizationHash a = ota_AuthorizationHash authorization \<or> ota_ChallengeID a = vch_ChallengeID ch
               then (Inl Ver_DuplicateKey, db)
               else (Inr \<lparr>oa_Code = raw, oa_ExpiresAt = ota_ExpiresAt authorization\<rparr>,
                 cancel_outbox (vch_ChallengeID ch) now
                   ((update_challenge (vch_ChallengeID ch) (\<lambda>c. c\<lparr>vch_ConsumedAt := Some now\<rparr>) db)\<lparr>vdb_auths := authorization # vdb_auths db\<rparr>)))"

definition VerifyChallenge ::
  "VerEnv \<Rightarrow> VerificationPolicy \<Rightarrow> string \<Rightarrow> time \<Rightarrow> VerifyChallengeRequest \<Rightarrow> VerDB \<Rightarrow> (ver_error + OneTimeAuthorization) \<times> VerDB" where
  "VerifyChallenge env pol raw now q db =
     (if TrimSpace (vvr_Code q) = '''' then (Inl Ver_Invalid, db)
      else case VerificationPolicy_Validate pol of
        Some e \<Rightarrow> (Inl e, db)
      | None \<Rightarrow>
        case DestinationHash (ve_unicode env) (ve_protection env) (vvr_Channel q) (vvr_Destination q) of
          Inl e \<Rightarrow> (Inl e, db)
        | Inr (destinationHash, _) \<Rightarrow>
          verify_tx env pol raw now q
            (BindingHash (ve_protection env) (vvr_Purpose q) (vvr_UserID q) (vvr_TenantID q) (vvr_FlowID q) (vvr_Channel q) destinationHash) db)"

subsection \<open>Consuming an authorization\<close>

definition consume_tx :: "string \<Rightarrow> string \<Rightarrow> time \<Rightarrow> VerDB \<Rightarrow> ver_error + AuthorizationConsumptionReceipt \<times> VerDB" where
  "consume_tx hash expectedBinding now db =
     (case find (\<lambda>a. ota_AuthorizationHash a = hash) (vdb_auths db) of
        None \<Rightarrow> Inl Ver_Invalid
      | Some a \<Rightarrow>
        if \<not> constantVerificationEqual (ota_BindingHash a) expectedBinding then Inl Ver_Invalid
        else if ota_ConsumedAt a \<noteq> None then Inl Ver_Consumed
        else if \<not> now < ota_ExpiresAt a then Inl Ver_Expired
        else Inr (\<lparr>acr_ChallengeID = ota_ChallengeID a, acr_ConsumedAt = now\<rparr>,
          db\<lparr>vdb_auths := map (\<lambda>x. if ota_AuthorizationHash x = hash \<and> ota_ConsumedAt x = None then x\<lparr>ota_ConsumedAt := Some now\<rparr> else x) (vdb_auths db)\<rparr>))"

definition ConsumeOneTimeAuthorization ::
  "VerEnv \<Rightarrow> time \<Rightarrow> ConsumeAuthorizationRequest \<Rightarrow> VerDB \<Rightarrow> ver_error + AuthorizationConsumptionReceipt \<times> VerDB" where
  "ConsumeOneTimeAuthorization env now q db =
     (if TrimSpace (car_Code q) = '''' then Inl Ver_Invalid
      else bind_result (DestinationHash (ve_unicode env) (ve_protection env) (car_Channel q) (car_Destination q)) (\<lambda>(destinationHash, _).
        consume_tx (HashAuthorization (ve_protection env) (car_Code q))
          (BindingHash (ve_protection env) (car_Purpose q) (car_UserID q) (car_TenantID q) (car_FlowID q) (car_Channel q) destinationHash) now db))"

subsection \<open>The outbox\<close>

definition sanitizeFailureCode :: "string \<Rightarrow> string" where
  "sanitizeFailureCode v =
     (let value = TrimSpace v in
      if value = '''' then ''DELIVERY_FAILED''
      else let kept = filter (\<lambda>c. is_upper c \<or> is_digit c \<or> c = CHR ''_'') (take 64 value)
           in if kept = '''' then ''DELIVERY_FAILED'' else kept)"

definition EnqueueSecurityNotification ::
  "VerEnv \<Rightarrow> string \<Rightarrow> string \<Rightarrow> time \<Rightarrow> SecurityNotificationRequest \<Rightarrow> VerDB \<Rightarrow> ver_error + NotificationDeliveryReceipt \<times> VerDB" where
  "EnqueueSecurityNotification env nonce1 nonce2 now q db =
     (case NotificationRequest_Validate q of
        Some e \<Rightarrow> Inl e
      | None \<Rightarrow>
        let p = ve_protection env; eventID = stableSecurityEventID (snr_BusinessEventID q) in
        bind_result (DestinationHash (ve_unicode env) p (snr_Channel q) (snr_Destination q)) (\<lambda>(destinationHash, normalized).
        bind_result (ProtectNotification (ve_aead env) p nonce1 eventID ''destination'' normalized) (\<lambda>(destinationCiphertext, keyVersion).
        bind_result (if snr_Secret q \<noteq> '''' then bind_result (ProtectNotification (ve_aead env) p nonce2 eventID ''secret'' (snr_Secret q)) (\<lambda>(ct, _). Inr ct)
                     else Inr '''') (\<lambda>secretCiphertext.
        if \<not> now < snr_ExpiresAt q then Inl Ver_Expired
        else case find (\<lambda>r. ob_BusinessEventID r = TrimSpace (snr_BusinessEventID q)) (vdb_outbox db) of
          Some existing \<Rightarrow>
            if \<not> constantVerificationEqual (ob_BindingHash existing) (notificationBinding env existing (snr_Secret q)) then Inl Ver_Conflict
            else Inr (notificationReceipt existing, db)
        | None \<Rightarrow>
          let r0 = empty_outbox\<lparr>ob_EventID := eventID, ob_BusinessEventID := TrimSpace (snr_BusinessEventID q), ob_Kind := snr_Kind q,
                ob_Purpose := snr_Purpose q, ob_UserID := TrimSpace (snr_UserID q), ob_TenantID := TrimSpace (snr_TenantID q),
                ob_FlowID := TrimSpace (snr_FlowID q), ob_Channel := snr_Channel q, ob_DestinationHash := destinationHash,
                ob_MaskedDestination := MaskDestination (snr_Channel q) normalized, ob_DestinationCiphertext := destinationCiphertext,
                ob_SecretCiphertext := secretCiphertext, ob_KeyVersion := keyVersion, ob_State := State_Pending,
                ob_ExpiresAt := canonicalVerificationTime (snr_ExpiresAt q), ob_CreatedAt := canonicalVerificationTime now,
                ob_UpdatedAt := canonicalVerificationTime now\<rparr>;
              r = r0\<lparr>ob_BindingHash := notificationBinding env r0 (snr_Secret q)\<rparr>
          in if \<exists>x \<in> set (vdb_outbox db). ob_EventID x = eventID then Inl Ver_MissingRow
             else Inr (notificationReceipt r, db\<lparr>vdb_outbox := r # vdb_outbox db\<rparr>)))))"

section \<open>Runs of the repository\<close>

text \<open>
  The challenge whose code a request compares, if it gets that far, with the binding of the request.\<close>

definition request_binding :: "VerEnv \<Rightarrow> VerifyChallengeRequest \<Rightarrow> string \<Rightarrow> string" where
  "request_binding env q destinationHash =
     BindingHash (ve_protection env) (vvr_Purpose q) (vvr_UserID q) (vvr_TenantID q) (vvr_FlowID q) (vvr_Channel q) destinationHash"

definition compared :: "VerEnv \<Rightarrow> VerificationPolicy \<Rightarrow> time \<Rightarrow> VerifyChallengeRequest \<Rightarrow> VerDB \<Rightarrow> verificationChallengeRecord option" where
  "compared env pol now q db =
     (if TrimSpace (vvr_Code q) = '''' \<or> VerificationPolicy_Validate pol \<noteq> None then None
      else case DestinationHash (ve_unicode env) (ve_protection env) (vvr_Channel q) (vvr_Destination q) of
        Inl e \<Rightarrow> None
      | Inr (destinationHash, _) \<Rightarrow>
        case find (\<lambda>ch. vch_ChallengeID ch = TrimSpace (vvr_ChallengeID q)) (vdb_challenges db) of
          None \<Rightarrow> None
        | Some ch \<Rightarrow> if verify_refusal (request_binding env q destinationHash) now ch = None then Some ch else None)"

text \<open>What happened: a code was compared (and was right or wrong), an authorization was consumed.\<close>

datatype ver_event =
    Ev_Compared string VerifyChallengeRequest string bool
  | Ev_Consumed string ConsumeAuthorizationRequest

definition empty_vdb :: VerDB where "empty_vdb = \<lparr>vdb_challenges = [], vdb_auths = [], vdb_outbox = []\<rparr>"

text \<open>
  Histories under one policy with the log of events and the time of the last one. The clock has the
  resolution of the database, one microsecond, and does not run backwards; a raw authorization is
  fresh. Anything may happen to the outbox in between.\<close>

inductive ver_run :: "VerEnv \<Rightarrow> VerificationPolicy \<Rightarrow> time \<Rightarrow> ver_event list \<Rightarrow> VerDB \<Rightarrow> bool" for env pol where
  start: "ver_run env pol 0 [] empty_vdb"
| create: "ver_run env pol t log db \<Longrightarrow> t \<le> now \<Longrightarrow> now mod 1000 = 0 \<Longrightarrow>
     CreateVerificationChallenge env pol rnd now q db = Inr (rc, db') \<Longrightarrow> ver_run env pol now log db'"
| verify: "ver_run env pol t log db \<Longrightarrow> t \<le> now \<Longrightarrow> \<forall>a \<in> set (vdb_auths db). ota_AuthorizationHash a \<noteq> HashAuthorization (ve_protection env) raw \<Longrightarrow>
     VerifyChallenge env pol raw now q db = (res, db') \<Longrightarrow>
     ver_run env pol now (case compared env pol now q db of None \<Rightarrow> log | Some ch \<Rightarrow> Ev_Compared (vch_ChallengeID ch) q raw (\<not> isl res) # log) db'"
| consume: "ver_run env pol t log db \<Longrightarrow> t \<le> now \<Longrightarrow> ConsumeOneTimeAuthorization env now q db = Inr (rc, db') \<Longrightarrow>
     ver_run env pol now (Ev_Consumed (HashAuthorization (ve_protection env) (car_Code q)) q # log) db'"
| outbox: "ver_run env pol t log db \<Longrightarrow> ver_run env pol t log (db\<lparr>vdb_outbox := ob\<rparr>)"

lemma update_challenge_fields [simp]:
  "vdb_auths (update_challenge i f db) = vdb_auths db" "vdb_outbox (update_challenge i f db) = vdb_outbox db"
  "vdb_challenges (update_challenge i f db) = map (\<lambda>ch. if vch_ChallengeID ch = i then f ch else ch) (vdb_challenges db)"
  by (simp_all add: update_challenge_def)

lemma cancel_outbox_fields [simp]:
  "vdb_challenges (cancel_outbox i now db) = vdb_challenges db" "vdb_auths (cancel_outbox i now db) = vdb_auths db"
  by (simp_all add: cancel_outbox_def)

lemma create_cases:
  assumes "CreateVerificationChallenge env pol rnd now q db = Inr (rc, db')"
  obtains (Replay) "db' = db"
  | (Fresh) ch where "VerificationPolicy_Validate pol = None" "vdb_challenges db' = ch # vdb_challenges db" "vdb_auths db' = vdb_auths db"
      "\<forall>x \<in> set (vdb_challenges db). vch_ChallengeID x \<noteq> vch_ChallengeID ch" "vch_Attempts ch = 0" "vch_ConsumedAt ch = None"
      "vch_MaxAttempts ch = word_of_int (vpol_MaxVerificationTries pol)" "vch_CreatedAt ch = canonicalVerificationTime now"
      "rate_limit pol now (filter (same_target (vch_UserID ch) (vch_Purpose ch) (vch_DestinationHash ch)) (vdb_challenges db)) = None"
proof -
  from assms obtain dh n where ok: "VerificationPolicy_Validate pol = None" and tx: "create_challenge_tx env pol rnd now q dh n db = Inr (rc, db')"
    by (auto simp: CreateVerificationChallenge_def split: option.splits)
  show thesis
  proof (cases "findChallengeByBusinessEvent db (vcr_BusinessEventID q)")
    case (Some ch)
    with tx Replay show thesis by (auto simp: create_challenge_tx_def Let_def split: if_splits)
  next
    case None
    with tx obtain ch where ch: "vdb_challenges db' = ch # vdb_challenges db" "vdb_auths db' = vdb_auths db"
        "\<forall>x \<in> set (vdb_challenges db). vch_ChallengeID x \<noteq> vch_ChallengeID ch" "vch_Attempts ch = 0" "vch_ConsumedAt ch = None"
        "vch_MaxAttempts ch = word_of_int (vpol_MaxVerificationTries pol)" "vch_CreatedAt ch = canonicalVerificationTime now"
        "vch_UserID ch = TrimSpace (vcr_UserID q)" "vch_Purpose ch = vcr_Purpose q" "vch_DestinationHash ch = dh"
        "rate_limit pol now (filter (same_target (TrimSpace (vcr_UserID q)) (vcr_Purpose q) dh) (vdb_challenges db)) = None"
      by (auto simp: create_challenge_tx_def Let_def split: option.splits if_splits)
    then show thesis by (intro Fresh [OF ok]) auto
  qed
qed

lemma compared_Some:
  assumes "compared env pol now q db = Some ch"
  shows "ch \<in> set (vdb_challenges db)" "vch_ConsumedAt ch = None" "vch_Attempts ch < vch_MaxAttempts ch"
    "\<exists>dh n. DestinationHash (ve_unicode env) (ve_protection env) (vvr_Channel q) (vvr_Destination q) = Inr (dh, n) \<and>
       vch_BindingHash ch = request_binding env q dh"
  using assms by (auto simp: compared_def verify_refusal_def constantVerificationEqual_def find_Some_iff linorder_not_le split: if_splits sum.splits option.splits)

lemma verify_cases [consumes 3, case_names Skip Wrong Right]:
  assumes "VerifyChallenge env pol raw now q db = (res, db')"
    and "\<forall>a \<in> set (vdb_auths db). ota_AuthorizationHash a \<noteq> HashAuthorization (ve_protection env) raw"
    and "\<forall>ch. compared env pol now q db = Some ch \<longrightarrow> (\<forall>a \<in> set (vdb_auths db). ota_ChallengeID a \<noteq> vch_ChallengeID ch)"
  obtains "compared env pol now q db = None" "db' = db" "isl res"
  | ch where "compared env pol now q db = Some ch" "isl res" "db' = update_challenge (vch_ChallengeID ch) (\<lambda>c. c\<lparr>vch_Attempts := vch_Attempts ch + 1\<rparr>) db"
  | ch a where "compared env pol now q db = Some ch" "\<not> isl res" "vch_CodeHash ch = HashCode (ve_protection env) (vch_ChallengeID ch) (vvr_Code q)"
      "vdb_challenges db' = map (\<lambda>c. if vch_ChallengeID c = vch_ChallengeID ch then c\<lparr>vch_ConsumedAt := Some now\<rparr> else c) (vdb_challenges db)"
      "vdb_auths db' = a # vdb_auths db" "ota_AuthorizationHash a = HashAuthorization (ve_protection env) raw" "ota_ChallengeID a = vch_ChallengeID ch"
      "ota_BindingHash a = vch_BindingHash ch" "ota_ConsumedAt a = None"
proof (cases "compared env pol now q db")
  case None
  with assms(1) that(1) show thesis
    by (auto simp: VerifyChallenge_def verify_tx_def compared_def request_binding_def split: if_splits option.splits sum.splits)
next
  case (Some ch)
  then obtain dh n where dh: "DestinationHash (ve_unicode env) (ve_protection env) (vvr_Channel q) (vvr_Destination q) = Inr (dh, n)"
      and f: "find (\<lambda>ch. vch_ChallengeID ch = TrimSpace (vvr_ChallengeID q)) (vdb_challenges db) = Some ch"
      and ok: "verify_refusal (request_binding env q dh) now ch = None" "TrimSpace (vvr_Code q) \<noteq> ''''" "VerificationPolicy_Validate pol = None"
    by (auto simp: compared_def split: if_splits option.splits sum.splits)
  have tx: "verify_tx env pol raw now q (request_binding env q dh) db = (res, db')"
    using assms(1) dh ok by (simp add: VerifyChallenge_def request_binding_def)
  show thesis
  proof (cases "constantVerificationEqual (vch_CodeHash ch) (HashCode (ve_protection env) (vch_ChallengeID ch) (vvr_Code q))")
    case False
    with tx f ok Some that(2) show thesis by (auto simp: verify_tx_def Let_def)
  next
    case True
    with tx f ok Some assms(2) assms(3) [rule_format, OF Some] show thesis
      by (intro that(3) [OF Some]) (auto simp: verify_tx_def Let_def constantVerificationEqual_def)
  qed
qed

lemma consume_cases:
  assumes "ConsumeOneTimeAuthorization env now q db = Inr (rc, db')"
  obtains a dh n where "a \<in> set (vdb_auths db)" "ota_AuthorizationHash a = HashAuthorization (ve_protection env) (car_Code q)"
    "ota_ConsumedAt a = None" "now < ota_ExpiresAt a"
    "DestinationHash (ve_unicode env) (ve_protection env) (car_Channel q) (car_Destination q) = Inr (dh, n)"
    "ota_BindingHash a = BindingHash (ve_protection env) (car_Purpose q) (car_UserID q) (car_TenantID q) (car_FlowID q) (car_Channel q) dh"
    "vdb_challenges db' = vdb_challenges db" "rc = \<lparr>acr_ChallengeID = ota_ChallengeID a, acr_ConsumedAt = now\<rparr>"
    "vdb_auths db' = map (\<lambda>x. if ota_AuthorizationHash x = ota_AuthorizationHash a \<and> ota_ConsumedAt x = None then x\<lparr>ota_ConsumedAt := Some now\<rparr> else x) (vdb_auths db)"
proof -
  from assms obtain dh n where dh: "DestinationHash (ve_unicode env) (ve_protection env) (car_Channel q) (car_Destination q) = Inr (dh, n)"
    and tx: "consume_tx (HashAuthorization (ve_protection env) (car_Code q))
      (BindingHash (ve_protection env) (car_Purpose q) (car_UserID q) (car_TenantID q) (car_FlowID q) (car_Channel q) dh) now db = Inr (rc, db')"
    by (auto simp: ConsumeOneTimeAuthorization_def split: if_splits)
  from tx obtain a where f: "find (\<lambda>a. ota_AuthorizationHash a = HashAuthorization (ve_protection env) (car_Code q)) (vdb_auths db) = Some a"
    by (auto simp: consume_tx_def split: option.splits)
  then have a: "a \<in> set (vdb_auths db)" "ota_AuthorizationHash a = HashAuthorization (ve_protection env) (car_Code q)" by (auto simp: find_Some_iff)
  with tx f dh show thesis
    by (intro that [OF a _ _ dh]) (auto simp: consume_tx_def constantVerificationEqual_def split: if_splits)
qed

section \<open>Invariants of a run\<close>

text \<open>How often a code was compared with the challenge, with the given outcome, and how often an authorization was consumed.\<close>

definition guesses :: "ver_event list \<Rightarrow> string \<Rightarrow> bool \<Rightarrow> nat" where
  "guesses log i ok = length (filter (\<lambda>e. case e of Ev_Compared j q raw b \<Rightarrow> j = i \<and> b = ok | _ \<Rightarrow> False) log)"

definition consumptions :: "ver_event list \<Rightarrow> string \<Rightarrow> nat" where
  "consumptions log h = length (filter (\<lambda>e. case e of Ev_Consumed g q \<Rightarrow> g = h | _ \<Rightarrow> False) log)"

definition challenge_ok :: "VerificationPolicy \<Rightarrow> time \<Rightarrow> ver_event list \<Rightarrow> verificationChallengeRecord \<Rightarrow> bool" where
  "challenge_ok pol t log ch \<longleftrightarrow>
     vch_MaxAttempts ch = word_of_int (vpol_MaxVerificationTries pol) \<and> VerificationPolicy_Validate pol = None \<and> vch_CreatedAt ch \<le> t \<and>
     vch_Attempts ch \<le> vch_MaxAttempts ch \<and> guesses log (vch_ChallengeID ch) False = unat (vch_Attempts ch) \<and>
     guesses log (vch_ChallengeID ch) True = (if vch_ConsumedAt ch = None then 0 else 1) \<and>
     (vch_ConsumedAt ch \<noteq> None \<longrightarrow> vch_Attempts ch < vch_MaxAttempts ch)"

text \<open>The challenge behind an authorization: a request with the right code and the binding of the challenge was answered with it.\<close>

definition auth_backed :: "VerEnv \<Rightarrow> ver_event list \<Rightarrow> oneTimeAuthorizationRecord \<Rightarrow> verificationChallengeRecord \<Rightarrow> bool" where
  "auth_backed env log a ch \<longleftrightarrow>
     vch_ChallengeID ch = ota_ChallengeID a \<and> vch_ConsumedAt ch \<noteq> None \<and> vch_BindingHash ch = ota_BindingHash a \<and>
     (\<exists>q raw dh n. Ev_Compared (vch_ChallengeID ch) q raw True \<in> set log \<and> HashAuthorization (ve_protection env) raw = ota_AuthorizationHash a \<and>
        vch_CodeHash ch = HashCode (ve_protection env) (vch_ChallengeID ch) (vvr_Code q) \<and>
        DestinationHash (ve_unicode env) (ve_protection env) (vvr_Channel q) (vvr_Destination q) = Inr (dh, n) \<and>
        ota_BindingHash a = request_binding env q dh)"

definition auth_ok :: "VerEnv \<Rightarrow> ver_event list \<Rightarrow> verificationChallengeRecord list \<Rightarrow> oneTimeAuthorizationRecord \<Rightarrow> bool" where
  "auth_ok env log chs a \<longleftrightarrow>
     (\<exists>ch \<in> set chs. auth_backed env log a ch) \<and> consumptions log (ota_AuthorizationHash a) = (if ota_ConsumedAt a = None then 0 else 1)"

definition ver_inv :: "VerEnv \<Rightarrow> VerificationPolicy \<Rightarrow> time \<Rightarrow> ver_event list \<Rightarrow> VerDB \<Rightarrow> bool" where
  "ver_inv env pol t log db \<longleftrightarrow>
     distinct (map vch_ChallengeID (vdb_challenges db)) \<and> (\<forall>ch \<in> set (vdb_challenges db). challenge_ok pol t log ch) \<and>
     (\<forall>i. i \<notin> vch_ChallengeID ` set (vdb_challenges db) \<longrightarrow> guesses log i True = 0 \<and> guesses log i False = 0) \<and>
     (\<forall>a \<in> set (vdb_auths db). auth_ok env log (vdb_challenges db) a) \<and> distinct (map ota_AuthorizationHash (vdb_auths db)) \<and>
     (\<forall>h. h \<notin> ota_AuthorizationHash ` set (vdb_auths db) \<longrightarrow> consumptions log h = 0)"

lemma guesses_Nil [simp]: "guesses [] i ok = 0" "consumptions [] h = 0"
  by (simp_all add: guesses_def consumptions_def)

lemma guesses_Cons [simp]:
  "guesses (Ev_Compared j q raw b # log) i ok = (if j = i \<and> b = ok then 1 else 0) + guesses log i ok"
  "guesses (Ev_Consumed h c # log) i ok = guesses log i ok"
  "consumptions (Ev_Compared j q raw b # log) h' = consumptions log h'"
  "consumptions (Ev_Consumed h c # log) h' = (if h = h' then 1 else 0) + consumptions log h'"
  by (simp_all add: guesses_def consumptions_def)

lemma ver_invD:
  assumes "ver_inv env pol t log db"
  shows "distinct (map vch_ChallengeID (vdb_challenges db))" "\<forall>ch \<in> set (vdb_challenges db). challenge_ok pol t log ch"
    "\<forall>i. i \<notin> vch_ChallengeID ` set (vdb_challenges db) \<longrightarrow> guesses log i True = 0 \<and> guesses log i False = 0"
    "\<forall>a \<in> set (vdb_auths db). auth_ok env log (vdb_challenges db) a" "distinct (map ota_AuthorizationHash (vdb_auths db))"
    "\<forall>h. h \<notin> ota_AuthorizationHash ` set (vdb_auths db) \<longrightarrow> consumptions log h = 0"
  using assms unfolding ver_inv_def by blast+

lemma ver_invI:
  assumes "distinct (map vch_ChallengeID (vdb_challenges db))" "\<And>ch. ch \<in> set (vdb_challenges db) \<Longrightarrow> challenge_ok pol t log ch"
    and "\<forall>i. i \<notin> set (map vch_ChallengeID (vdb_challenges db)) \<longrightarrow> guesses log i True = 0 \<and> guesses log i False = 0"
    and "\<And>a. a \<in> set (vdb_auths db) \<Longrightarrow> auth_ok env log (vdb_challenges db) a" "distinct (map ota_AuthorizationHash (vdb_auths db))"
    and "\<forall>h. h \<notin> set (map ota_AuthorizationHash (vdb_auths db)) \<longrightarrow> consumptions log h = 0"
  shows "ver_inv env pol t log db"
  using assms unfolding ver_inv_def by simp

lemma auth_backed_consumed: "auth_backed env log a ch \<Longrightarrow> vch_ChallengeID ch = ota_ChallengeID a \<and> vch_ConsumedAt ch \<noteq> None"
  by (simp add: auth_backed_def)

lemma auth_backed_update [simp]: "auth_backed env log (a\<lparr>ota_ConsumedAt := v\<rparr>) ch = auth_backed env log a ch"
  by (simp add: auth_backed_def)

lemma auth_backed_mono: "auth_backed env log a ch \<Longrightarrow> set log \<subseteq> set log' \<Longrightarrow> auth_backed env log' a ch"
  unfolding auth_backed_def by blast

lemma auth_ok_mono:
  assumes "auth_ok env log chs a" "set log \<subseteq> set log'" "consumptions log' (ota_AuthorizationHash a) = consumptions log (ota_AuthorizationHash a)"
    and "\<And>ch. ch \<in> set chs \<Longrightarrow> vch_ConsumedAt ch \<noteq> None \<Longrightarrow> ch \<in> set chs'"
  shows "auth_ok env log' chs' a"
proof -
  from assms(1) obtain ch where "ch \<in> set chs" "auth_backed env log a ch" unfolding auth_ok_def by blast
  with assms(2,4) have "ch \<in> set chs'" "auth_backed env log' a ch" by (auto dest: auth_backed_consumed intro: auth_backed_mono)
  with assms(1,3) show ?thesis unfolding auth_ok_def by auto
qed

lemma challenge_ok_later: "challenge_ok pol t log ch \<Longrightarrow> t \<le> now \<Longrightarrow> challenge_ok pol now log ch"
  by (auto simp: challenge_ok_def)

lemma unat_inc_below: "w < (m :: uint32) \<Longrightarrow> unat (w + 1) = Suc (unat w) \<and> w + 1 \<le> m"
proof -
  assume less: "w < m"
  then have "w \<noteq> - 1" using word_order.not_eq_extremum by force
  then have "unat (w + 1) = Suc (unat w)" using word_plus_one_nonzero [of w] by (simp add: unatSuc add.commute [of _ 1])
  with less show ?thesis by (simp add: word_le_nat_alt word_less_nat_alt)
qed

lemma canonical_time_le: "canonicalVerificationTime t \<le> t"
  by (auto simp: canonicalVerificationTime_def IsZero_def simp flip: minus_mod_eq_div_mult)

lemma challenge_ok_wrong:
  assumes "challenge_ok pol t log ch" "vch_ConsumedAt ch = None" "vch_Attempts ch < vch_MaxAttempts ch"
  shows "challenge_ok pol t (Ev_Compared (vch_ChallengeID ch) q raw False # log) (ch\<lparr>vch_Attempts := vch_Attempts ch + 1\<rparr>)"
  using assms unat_inc_below [OF assms(3)] by (simp add: challenge_ok_def)

lemma challenge_ok_right:
  assumes "challenge_ok pol t log ch" "vch_ConsumedAt ch = None" "vch_Attempts ch < vch_MaxAttempts ch"
  shows "challenge_ok pol t (Ev_Compared (vch_ChallengeID ch) q raw True # log) (ch\<lparr>vch_ConsumedAt := Some now\<rparr>)"
  using assms by (simp add: challenge_ok_def)

lemma challenge_ok_other:
  "challenge_ok pol t log ch \<Longrightarrow> vch_ChallengeID ch \<noteq> i \<Longrightarrow> challenge_ok pol t (Ev_Compared i q raw b # log) ch"
  by (auto simp: challenge_ok_def)

lemma ver_inv_later: "ver_inv env pol t log db \<Longrightarrow> t \<le> now \<Longrightarrow> ver_inv env pol now log db"
  unfolding ver_inv_def by (elim conjE, intro conjI) (assumption | blast intro: challenge_ok_later)+

lemma create_inv:
  assumes inv: "ver_inv env pol t log db" and "t \<le> now" "now mod 1000 = 0" "CreateVerificationChallenge env pol rnd now q db = Inr (rc, db')"
  shows "ver_inv env pol now log db'"
proof -
  note i = ver_invD [OF inv]
  have later: "\<forall>ch \<in> set (vdb_challenges db). challenge_ok pol now log ch" using i(2) assms(2) challenge_ok_later by blast
  from assms(4) show ?thesis
  proof (cases rule: create_cases)
    case Replay
    show ?thesis unfolding Replay by (rule ver_inv_later [OF inv assms(2)])
  next
    case (Fresh ch)
    have "canonicalVerificationTime now \<le> now" by (simp add: canonical_time_le)
    moreover have "guesses log (vch_ChallengeID ch) True = 0 \<and> guesses log (vch_ChallengeID ch) False = 0" using i(3) Fresh(4) by (metis imageE)
    ultimately have "challenge_ok pol now log ch" using Fresh by (simp add: challenge_ok_def)
    moreover have "auth_ok env log (vdb_challenges db') a" if "a \<in> set (vdb_auths db)" for a
      using i(4) that Fresh(2) by (auto intro: auth_ok_mono [where log = log and chs = "vdb_challenges db"])
    ultimately show ?thesis using i later Fresh(2-4) unfolding ver_inv_def by auto
  qed
qed

lemma verify_inv:
  assumes inv: "ver_inv env pol t log db" and "t \<le> now"
    and fresh: "\<forall>a \<in> set (vdb_auths db). ota_AuthorizationHash a \<noteq> HashAuthorization (ve_protection env) raw"
    and run: "VerifyChallenge env pol raw now q db = (res, db')"
  shows "ver_inv env pol now (case compared env pol now q db of None \<Rightarrow> log | Some ch \<Rightarrow> Ev_Compared (vch_ChallengeID ch) q raw (\<not> isl res) # log) db'"
proof -
  note i = ver_invD [OF inv]
  have later: "challenge_ok pol now log ch" if "ch \<in> set (vdb_challenges db)" for ch using i(2) that assms(2) challenge_ok_later by blast
  have same: "c = ch" if "c \<in> set (vdb_challenges db)" "ch \<in> set (vdb_challenges db)" "vch_ChallengeID c = vch_ChallengeID ch" for c ch
    using i(1) that by (auto simp: distinct_map inj_on_def)
  have open': "\<forall>ch. compared env pol now q db = Some ch \<longrightarrow> (\<forall>a \<in> set (vdb_auths db). ota_ChallengeID a \<noteq> vch_ChallengeID ch)"
  proof (intro allI impI ballI notI)
    fix ch a assume ch: "compared env pol now q db = Some ch" and a: "a \<in> set (vdb_auths db)" "ota_ChallengeID a = vch_ChallengeID ch"
    from i(4) a(1) obtain c where "c \<in> set (vdb_challenges db)" "auth_backed env log a c" unfolding auth_ok_def by blast
    with auth_backed_consumed [of env log a c] same [of c ch] compared_Some(1,2) [OF ch] a(2) show False by simp
  qed
  from run fresh open' show ?thesis
  proof (cases rule: verify_cases)
    case Skip
    with ver_inv_later [OF inv assms(2)] show ?thesis by simp
  next
    case (Wrong ch)
    note c = compared_Some [OF Wrong(1)]
    let ?log = "Ev_Compared (vch_ChallengeID ch) q raw False # log"
    let ?chs = "map (\<lambda>x. if vch_ChallengeID x = vch_ChallengeID ch then x\<lparr>vch_Attempts := vch_Attempts ch + 1\<rparr> else x) (vdb_challenges db)"
    have db': "vdb_challenges db' = ?chs" "vdb_auths db' = vdb_auths db" using Wrong(3) by simp_all
    have ids: "map vch_ChallengeID ?chs = map vch_ChallengeID (vdb_challenges db)" by (simp add: comp_def)
    have "ver_inv env pol now ?log db'"
    proof (rule ver_invI, unfold db' ids)
      show "challenge_ok pol now ?log x" if "x \<in> set ?chs" for x
        using that same [OF _ c(1)] challenge_ok_wrong [OF later [OF c(1)] c(2,3)] challenge_ok_other [OF later] by auto
      show "auth_ok env ?log ?chs a" if "a \<in> set (vdb_auths db)" for a
        by (rule auth_ok_mono [OF i(4) [rule_format, OF that]]) (use same [OF _ c(1)] c(2) in \<open>force+\<close>)
      show "\<forall>j. j \<notin> set (map vch_ChallengeID (vdb_challenges db)) \<longrightarrow> guesses ?log j True = 0 \<and> guesses ?log j False = 0"
        using i(3) c(1) by auto
    qed (use i(1,5,6) in simp_all)
    with Wrong show ?thesis by simp
  next
    case (Right ch a)
    note c = compared_Some [OF Right(1)]
    let ?log = "Ev_Compared (vch_ChallengeID ch) q raw True # log"
    let ?chs = "map (\<lambda>x. if vch_ChallengeID x = vch_ChallengeID ch then x\<lparr>vch_ConsumedAt := Some now\<rparr> else x) (vdb_challenges db)"
    have ids: "map vch_ChallengeID ?chs = map vch_ChallengeID (vdb_challenges db)" by (simp add: comp_def)
    have new: "ota_AuthorizationHash a \<notin> ota_AuthorizationHash ` set (vdb_auths db)" using fresh Right(6) by (metis imageE)
    have "auth_backed env ?log a (ch\<lparr>vch_ConsumedAt := Some now\<rparr>)"
      unfolding auth_backed_def using Right(3,6,7,8) c(4)
      by (elim exE conjE, intro conjI exI [of _ q] exI [of _ raw] exI) simp_all
    moreover have "ch\<lparr>vch_ConsumedAt := Some now\<rparr> \<in> set ?chs" using c(1) by force
    ultimately have a: "auth_ok env ?log ?chs a" unfolding auth_ok_def using Right(9) i(6) new by auto
    have "ver_inv env pol now ?log db'"
    proof (rule ver_invI, unfold Right(4,5) ids)
      show "challenge_ok pol now ?log x" if "x \<in> set ?chs" for x
        using that same [OF _ c(1)] challenge_ok_right [OF later [OF c(1)] c(2,3)] challenge_ok_other [OF later] by auto
      have "auth_ok env ?log ?chs x" if "x \<in> set (vdb_auths db)" for x
        by (rule auth_ok_mono [OF i(4) [rule_format, OF that]]) (use same [OF _ c(1)] c(2) in \<open>force+\<close>)
      with a show "auth_ok env ?log ?chs x" if "x \<in> set (a # vdb_auths db)" for x using that by auto
      show "\<forall>j. j \<notin> set (map vch_ChallengeID (vdb_challenges db)) \<longrightarrow> guesses ?log j True = 0 \<and> guesses ?log j False = 0"
        using i(3) c(1) by auto
    qed (use i(1,5,6) new in simp_all)
    with Right show ?thesis by simp
  qed
qed

lemma consume_inv:
  assumes inv: "ver_inv env pol t log db" and "t \<le> now" and run: "ConsumeOneTimeAuthorization env now q db = Inr (rc, db')"
  shows "ver_inv env pol now (Ev_Consumed (HashAuthorization (ve_protection env) (car_Code q)) q # log) db'"
proof -
  note i = ver_invD [OF inv]
  obtain a dh n where a: "a \<in> set (vdb_auths db)" "ota_AuthorizationHash a = HashAuthorization (ve_protection env) (car_Code q)"
      "ota_ConsumedAt a = None" "vdb_challenges db' = vdb_challenges db"
      "vdb_auths db' = map (\<lambda>x. if ota_AuthorizationHash x = ota_AuthorizationHash a \<and> ota_ConsumedAt x = None then x\<lparr>ota_ConsumedAt := Some now\<rparr> else x) (vdb_auths db)"
    using run by (rule consume_cases)
  let ?log = "Ev_Consumed (ota_AuthorizationHash a) q # log"
  have same: "x = a" if "x \<in> set (vdb_auths db)" "ota_AuthorizationHash x = ota_AuthorizationHash a" for x
    using i(5) a(1) that by (auto simp: distinct_map inj_on_def)
  have "challenge_ok pol now ?log ch" if "ch \<in> set (vdb_challenges db)" for ch
    using i(2) that assms(2) challenge_ok_later [of pol t log ch now] by (auto simp: challenge_ok_def)
  moreover have "auth_ok env ?log (vdb_challenges db) x" if "x \<in> set (vdb_auths db')" for x
  proof -
    from that a(5) obtain y where y: "y \<in> set (vdb_auths db)"
      "x = (if ota_AuthorizationHash y = ota_AuthorizationHash a \<and> ota_ConsumedAt y = None then y\<lparr>ota_ConsumedAt := Some now\<rparr> else y)" by auto
    show ?thesis
    proof (cases "y = a")
      case True
      with y(2) a(3) have x: "x = a\<lparr>ota_ConsumedAt := Some now\<rparr>" by simp
      from i(4) a(1,3) obtain ch where "ch \<in> set (vdb_challenges db)" "auth_backed env log a ch" "consumptions log (ota_AuthorizationHash a) = 0"
        unfolding auth_ok_def by auto
      moreover from this(2) have "auth_backed env ?log x ch" using x auth_backed_mono [of env log a ch ?log] by (simp add: subset_insertI)
      ultimately show ?thesis using x unfolding auth_ok_def by auto
    next
      case False
      with y same have "x = y" "ota_AuthorizationHash y \<noteq> ota_AuthorizationHash a" by auto
      with auth_ok_mono [OF i(4) [rule_format, OF y(1)], of ?log "vdb_challenges db"] show ?thesis by (simp add: subset_insertI)
    qed
  qed
  moreover have "map ota_AuthorizationHash (vdb_auths db') = map ota_AuthorizationHash (vdb_auths db)" using a(5) by (auto simp: comp_def)
  moreover from this have "ota_AuthorizationHash ` set (vdb_auths db') = ota_AuthorizationHash ` set (vdb_auths db)" by (metis set_map)
  ultimately show ?thesis using i(1,3,5,6) a(1,2,4) unfolding ver_inv_def by (auto intro: rev_image_eqI)
qed

lemma ver_run_inv: "ver_run env pol t log db \<Longrightarrow> ver_inv env pol t log db"
proof (induction rule: ver_run.induct)
  case start
  show ?case by (simp add: ver_inv_def empty_vdb_def)
next
  case (create t log db now rnd q rc db')
  then show ?case by - (rule create_inv [where t = t]; assumption)
next
  case (verify t log db now raw q res db')
  then show ?case by - (rule verify_inv [where t = t]; assumption)
next
  case (consume t log db now q rc db')
  then show ?case by - (rule consume_inv [where t = t]; assumption)
next
  case (outbox t log db ob)
  then show ?case by (simp add: ver_inv_def)
qed

section \<open>What the codes protect\<close>

lemma tries_word:
  assumes "VerificationPolicy_Validate pol = None"
  shows "unat (word_of_int (vpol_MaxVerificationTries pol) :: uint32) = nat (vpol_MaxVerificationTries pol)" "1 \<le> vpol_MaxVerificationTries pol"
  using assms by (auto simp: VerificationPolicy_Validate_def unsigned_of_int take_bit_int_eq_self split: if_splits)

text \<open>
  C17: guessing is bounded. In every history of creations, verifications and consumptions, the codes
  compared with one challenge, right and wrong ones together, are at most \<open>MaxVerificationTries\<close>,
  and at most one of them was right.\<close>

theorem verification_guesses_bounded:
  assumes "ver_run env pol t log db"
  shows "guesses log i True + guesses log i False \<le> nat (vpol_MaxVerificationTries pol) \<and> guesses log i True \<le> 1"
proof (cases "i \<in> vch_ChallengeID ` set (vdb_challenges db)")
  case True
  then obtain ch where ch: "ch \<in> set (vdb_challenges db)" "i = vch_ChallengeID ch" by auto
  with ver_invD(2) [OF ver_run_inv [OF assms]] have "challenge_ok pol t log ch" by blast
  then show ?thesis using ch(2) tries_word [of pol] by (auto simp: challenge_ok_def word_le_nat_alt word_less_nat_alt split: if_splits)
next
  case False
  with ver_invD(3) [OF ver_run_inv [OF assms]] show ?thesis by simp
qed

text \<open>The authorizations behind the consumptions of a history stay in the table, with the binding of the consuming request.\<close>

definition consumed_binding :: "VerEnv \<Rightarrow> VerDB \<Rightarrow> string \<Rightarrow> ConsumeAuthorizationRequest \<Rightarrow> bool" where
  "consumed_binding env db h c \<longleftrightarrow> h = HashAuthorization (ve_protection env) (car_Code c) \<and>
     (\<exists>dh n. DestinationHash (ve_unicode env) (ve_protection env) (car_Channel c) (car_Destination c) = Inr (dh, n) \<and>
       (h, BindingHash (ve_protection env) (car_Purpose c) (car_UserID c) (car_TenantID c) (car_FlowID c) (car_Channel c) dh)
         \<in> (\<lambda>a. (ota_AuthorizationHash a, ota_BindingHash a)) ` set (vdb_auths db))"

lemma consumed_binding_mono:
  "consumed_binding env db h c \<Longrightarrow>
     (\<lambda>a. (ota_AuthorizationHash a, ota_BindingHash a)) ` set (vdb_auths db) \<subseteq> (\<lambda>a. (ota_AuthorizationHash a, ota_BindingHash a)) ` set (vdb_auths db') \<Longrightarrow>
     consumed_binding env db' h c"
  unfolding consumed_binding_def by blast

lemma VerifyChallenge_auths: "VerifyChallenge env pol raw now q db = (res, db') \<Longrightarrow> set (vdb_auths db) \<subseteq> set (vdb_auths db')"
  by (auto simp: VerifyChallenge_def verify_tx_def Let_def split: if_splits option.splits sum.splits)

lemma ver_run_consumed: "ver_run env pol t log db \<Longrightarrow> Ev_Consumed h c \<in> set log \<Longrightarrow> consumed_binding env db h c"
proof (induction rule: ver_run.induct)
  case (create t log db now rnd q rc db')
  from create(4) have "vdb_auths db' = vdb_auths db" by (cases rule: create_cases) simp_all
  with consumed_binding_mono [OF create.IH [OF create.prems]] show ?case by simp
next
  case (verify t log db now raw q res db')
  from verify(6) have "Ev_Consumed h c \<in> set log" by (auto split: option.splits)
  with verify consumed_binding_mono [OF verify(5)] VerifyChallenge_auths [OF verify(4)] show ?case by (simp add: image_mono)
next
  case (consume t log db now q rc db')
  from consume(3) obtain a dh n where a: "a \<in> set (vdb_auths db)" "ota_AuthorizationHash a = HashAuthorization (ve_protection env) (car_Code q)"
      "DestinationHash (ve_unicode env) (ve_protection env) (car_Channel q) (car_Destination q) = Inr (dh, n)"
      "ota_BindingHash a = BindingHash (ve_protection env) (car_Purpose q) (car_UserID q) (car_TenantID q) (car_FlowID q) (car_Channel q) dh"
      "vdb_auths db' = map (\<lambda>x. if ota_AuthorizationHash x = ota_AuthorizationHash a \<and> ota_ConsumedAt x = None then x\<lparr>ota_ConsumedAt := Some now\<rparr> else x) (vdb_auths db)"
    by (rule consume_cases)
  let ?key = "\<lambda>a. (ota_AuthorizationHash a, ota_BindingHash a)"
  have same: "?key ` set (vdb_auths db') = ?key ` set (vdb_auths db)" unfolding a(5) set_map image_image by (rule image_cong) simp_all
  show ?case
  proof (cases "Ev_Consumed h c \<in> set log")
    case True
    with consume.IH same show ?thesis by (auto intro: consumed_binding_mono)
  next
    case False
    with consume.prems have "h = ota_AuthorizationHash a" "c = q" using a(2) by auto
    moreover have "?key a \<in> ?key ` set (vdb_auths db')" unfolding same using a(1) by blast
    ultimately show ?thesis using a(2-4) unfolding consumed_binding_def by auto
  qed
next
  case (outbox t log db ob)
  from consumed_binding_mono [OF outbox.IH [OF outbox.prems]] show ?case by simp
qed simp

text \<open>
  C18: an authorization is single-use and was earned. If one was consumed, it was consumed exactly
  once, and the history has a verification request that presented the right code for a challenge
  with the same binding (purpose, user, tenant, flow, channel and destination) as the consuming
  request, and whose answer was that authorization.\<close>

theorem authorization_single_use:
  assumes "ver_run env pol t log db" "Ev_Consumed h c \<in> set log"
  shows "consumptions log h = 1 \<and>
    (\<exists>ch \<in> set (vdb_challenges db). \<exists>q raw dh n dh' n'.
       Ev_Compared (vch_ChallengeID ch) q raw True \<in> set log \<and> vch_CodeHash ch = HashCode (ve_protection env) (vch_ChallengeID ch) (vvr_Code q) \<and>
       HashAuthorization (ve_protection env) raw = HashAuthorization (ve_protection env) (car_Code c) \<and>
       DestinationHash (ve_unicode env) (ve_protection env) (vvr_Channel q) (vvr_Destination q) = Inr (dh, n) \<and>
       DestinationHash (ve_unicode env) (ve_protection env) (car_Channel c) (car_Destination c) = Inr (dh', n') \<and>
       request_binding env q dh =
         BindingHash (ve_protection env) (car_Purpose c) (car_UserID c) (car_TenantID c) (car_FlowID c) (car_Channel c) dh')"
proof -
  obtain a dh' n' where a: "a \<in> set (vdb_auths db)" "h = HashAuthorization (ve_protection env) (car_Code c)" "ota_AuthorizationHash a = h"
      "DestinationHash (ve_unicode env) (ve_protection env) (car_Channel c) (car_Destination c) = Inr (dh', n')"
      "ota_BindingHash a = BindingHash (ve_protection env) (car_Purpose c) (car_UserID c) (car_TenantID c) (car_FlowID c) (car_Channel c) dh'"
    using ver_run_consumed [OF assms] unfolding consumed_binding_def by auto
  have ok: "auth_ok env log (vdb_challenges db) a" using ver_invD(4) [OF ver_run_inv [OF assms(1)]] a(1) by blast
  have "0 < consumptions log h" using assms(2) unfolding consumptions_def by (force simp: filter_empty_conv)
  then have "consumptions log h = 1" using ok a(3) by (auto simp: auth_ok_def split: if_splits)
  moreover obtain ch where ch: "ch \<in> set (vdb_challenges db)" "auth_backed env log a ch" using ok unfolding auth_ok_def by blast
  then obtain q raw dh n where "Ev_Compared (vch_ChallengeID ch) q raw True \<in> set log" "HashAuthorization (ve_protection env) raw = h"
      "vch_CodeHash ch = HashCode (ve_protection env) (vch_ChallengeID ch) (vvr_Code q)"
      "DestinationHash (ve_unicode env) (ve_protection env) (vvr_Channel q) (vvr_Destination q) = Inr (dh, n)" "ota_BindingHash a = request_binding env q dh"
    unfolding auth_backed_def a(3) by blast
  ultimately show ?thesis using a(2,4,5) ch(1) by (intro conjI bexI [of _ ch] exI [of _ q] exI [of _ raw] exI [of _ dh] exI [of _ n] exI [of _ dh'] exI [of _ n']) simp_all
qed

text \<open>The times at which codes were sent to one target, newest first.\<close>

definition send_times :: "string \<Rightarrow> string \<Rightarrow> string \<Rightarrow> VerDB \<Rightarrow> time list" where
  "send_times user purpose dest db = map vch_CreatedAt (filter (same_target user purpose dest) (vdb_challenges db))"

definition sends_paced :: "VerificationPolicy \<Rightarrow> time list \<Rightarrow> bool" where
  "sends_paced pol ts \<longleftrightarrow> sorted_wrt (\<lambda>later earlier. earlier + vpol_ResendInterval pol \<le> later) ts \<and>
     (\<forall>s. int (length (filter (\<lambda>u. s \<le> u \<and> u \<le> s + vpol_SendLimitWindow pol) ts)) \<le> max 0 (vpol_MaxSendsPerWindow pol))"

lemma send_times_map:
  assumes "\<And>ch. vch_CreatedAt (f ch) = vch_CreatedAt ch" "\<And>ch. same_target user purpose dest (f ch) = same_target user purpose dest ch"
    and "vdb_challenges db' = map f (vdb_challenges db)"
  shows "send_times user purpose dest db' = send_times user purpose dest db"
  using assms by (simp add: send_times_def filter_map comp_def)

lemma sends_paced_step:
  assumes "sends_paced pol (map vch_CreatedAt sent)" "rate_limit pol now sent = None" "VerificationPolicy_Validate pol = None"
  shows "sends_paced pol (now # map vch_CreatedAt sent)"
proof -
  let ?w = "vpol_SendLimitWindow pol"
  have "u + vpol_ResendInterval pol \<le> now" if "u \<in> vch_CreatedAt ` set sent" for u
  proof -
    have "u \<le> Max (vch_CreatedAt ` set sent)" using that by simp
    moreover have "\<not> now < Max (vch_CreatedAt ` set sent) + vpol_ResendInterval pol"
      using assms(2) that by (auto simp: rate_limit_def Let_def split: if_splits)
    ultimately show ?thesis by linarith
  qed
  then have "sorted_wrt (\<lambda>later earlier. earlier + vpol_ResendInterval pol \<le> later) (now # map vch_CreatedAt sent)"
    using assms(1) by (simp add: sends_paced_def)
  moreover have "int (length (filter (\<lambda>u. s \<le> u \<and> u \<le> s + ?w) (now # map vch_CreatedAt sent))) \<le> max 0 (vpol_MaxSendsPerWindow pol)" for s
  proof (cases "s \<le> now \<and> now \<le> s + ?w")
    case True
    have "length (filter (\<lambda>u. s \<le> u \<and> u \<le> s + ?w) (map vch_CreatedAt sent)) \<le> length (filter (\<lambda>ch. now - ?w \<le> vch_CreatedAt ch) sent)"
      unfolding filter_map length_map comp_def by (rule length_filter_mono) (use True in auto)
    moreover have "int (length (filter (\<lambda>ch. now - ?w \<le> vch_CreatedAt ch) sent)) < vpol_MaxSendsPerWindow pol"
      using assms(2) by (auto simp: rate_limit_def Let_def split: if_splits)
    ultimately show ?thesis using True by simp
  next
    case False
    have "int (length (filter (\<lambda>u. s \<le> u \<and> u \<le> s + ?w) (map vch_CreatedAt sent))) \<le> max 0 (vpol_MaxSendsPerWindow pol)"
      using assms(1) unfolding sends_paced_def by blast
    with False show ?thesis by (auto simp: not_le)
  qed
  ultimately show ?thesis unfolding sends_paced_def by blast
qed

lemma send_times_frame [simp]:
  "send_times user purpose dest (db\<lparr>vdb_auths := x\<rparr>) = send_times user purpose dest db"
  "send_times user purpose dest (db\<lparr>vdb_outbox := y\<rparr>) = send_times user purpose dest db"
  "send_times user purpose dest (cancel_outbox i now db) = send_times user purpose dest db"
  "send_times user purpose dest (update_challenge i (\<lambda>c. c\<lparr>vch_Attempts := n\<rparr>) db) = send_times user purpose dest db"
  "send_times user purpose dest (update_challenge i (\<lambda>c. c\<lparr>vch_ConsumedAt := v\<rparr>) db) = send_times user purpose dest db"
proof -
  show "send_times user purpose dest (update_challenge i (\<lambda>c. c\<lparr>vch_Attempts := n\<rparr>) db) = send_times user purpose dest db"
    by (rule send_times_map [where f = "\<lambda>ch. if vch_ChallengeID ch = i then ch\<lparr>vch_Attempts := n\<rparr> else ch"]) (simp_all add: same_target_def)
  show "send_times user purpose dest (update_challenge i (\<lambda>c. c\<lparr>vch_ConsumedAt := v\<rparr>) db) = send_times user purpose dest db"
    by (rule send_times_map [where f = "\<lambda>ch. if vch_ChallengeID ch = i then ch\<lparr>vch_ConsumedAt := v\<rparr> else ch"]) (simp_all add: same_target_def)
qed (simp_all add: send_times_def)

lemma VerifyChallenge_times:
  "VerifyChallenge env pol raw now q db = (res, db') \<Longrightarrow> send_times user purpose dest db' = send_times user purpose dest db"
  by (auto simp: VerifyChallenge_def verify_tx_def Let_def split: if_splits option.splits sum.splits)

text \<open>
  Codes are paced. In every history under one policy, the codes sent to one user for one purpose
  at one destination are at least \<open>ResendInterval\<close> apart, and no interval of the length of
  \<open>SendLimitWindow\<close>, wherever it starts, has more than \<open>MaxSendsPerWindow\<close> of them.\<close>

lemma verification_sends_paced: "ver_run env pol t log db \<Longrightarrow> sends_paced pol (send_times user purpose dest db)"
proof (induction rule: ver_run.induct)
  case start
  show ?case by (simp add: send_times_def sends_paced_def empty_vdb_def)
next
  case (create t log db now rnd q rc db')
  from create(4) show ?case
  proof (cases rule: create_cases)
    case Replay
    with create.IH show ?thesis by simp
  next
    case (Fresh ch)
    have now: "canonicalVerificationTime now = now" using create(3) by (auto simp: canonicalVerificationTime_def IsZero_def)
    show ?thesis
    proof (cases "same_target user purpose dest ch")
      case True
      then have "sends_paced pol (now # send_times user purpose dest db)"
        using sends_paced_step [OF create.IH [unfolded send_times_def], of now] Fresh(1,9) by (simp add: send_times_def same_target_def)
      with True Fresh(2,8) now show ?thesis by (simp add: send_times_def)
    next
      case False
      with Fresh(2) create.IH show ?thesis by (simp add: send_times_def)
    qed
  qed
next
  case (verify t log db now raw q res db')
  from VerifyChallenge_times [OF verify(4)] verify.IH show ?case by simp
next
  case (consume t log db now q rc db')
  from consume(3) have "vdb_challenges db' = vdb_challenges db" by (rule consume_cases)
  with consume.IH show ?case by (simp add: send_times_def)
next
  case (outbox t log db ob)
  then show ?case by (simp add: send_times_def)
qed

section \<open>A code that arrives is accepted\<close>

text \<open>The requests that answer a challenge and redeem its authorization with the data of its request.\<close>

definition answer :: "VerificationChallengeRequest \<Rightarrow> string \<Rightarrow> string \<Rightarrow> VerifyChallengeRequest" where
  "answer q i code = \<lparr>vvr_ChallengeID = i, vvr_FlowID = vcr_FlowID q, vvr_Purpose = vcr_Purpose q, vvr_UserID = vcr_UserID q,
     vvr_TenantID = vcr_TenantID q, vvr_Channel = vcr_Channel q, vvr_Destination = vcr_Destination q, vvr_Code = code\<rparr>"

definition redeem :: "VerificationChallengeRequest \<Rightarrow> string \<Rightarrow> ConsumeAuthorizationRequest" where
  "redeem q raw = \<lparr>car_Code = raw, car_FlowID = vcr_FlowID q, car_Purpose = vcr_Purpose q, car_UserID = vcr_UserID q,
     car_TenantID = vcr_TenantID q, car_Channel = vcr_Channel q, car_Destination = vcr_Destination q\<rparr>"

definition code_of :: "VerificationPolicy \<Rightarrow> Randomness \<Rightarrow> string" where
  "code_of pol rnd = map (\<lambda>d. char_of (48 + d mod 10)) (take (nat (vpol_CodeDigits pol)) (rnd_Digits rnd))"

lemma code_of_plain: "TrimSpace (code_of pol rnd) = code_of pol rnd"
proof (rule TrimSpace_plain, rule ballI)
  fix c assume "c \<in> set (code_of pol rnd)"
  then obtain d :: nat where d: "c = char_of (48 + d mod 10)" by (auto simp: code_of_def)
  have "d mod 10 < 10" by simp
  then have "byte c = 48 + d mod 10" unfolding d byte_char_of by simp
  then show "byte c \<notin> {9..13} \<union> {32} \<and> byte c < 128" using \<open>d mod 10 < 10\<close> by auto
qed

lemma challenge_id_plain: "TrimSpace (''vch-'' @ EncodeToString s) = ''vch-'' @ EncodeToString s"
proof (rule TrimSpace_plain, rule ballI)
  fix c assume "c \<in> set (''vch-'' @ EncodeToString s)"
  then consider "c \<in> set ''vch-''" | "c \<in> set (EncodeToString s)" by auto
  then show "byte c \<notin> {9..13} \<union> {32} \<and> byte c < 128"
  proof cases
    case 1
    have "\<forall>c \<in> set ''vch-''. byte c \<notin> {9..13} \<union> {32} \<and> byte c < 128" by code_simp
    with 1 show ?thesis by blast
  qed (rule EncodeToString_plain)
qed

lemma create_fresh:
  assumes "CreateVerificationChallenge env pol rnd now q db = Inr (rc, db')" "findChallengeByBusinessEvent db (vcr_BusinessEventID q) = None"
  obtains ch r dh n ct kv where "VerificationPolicy_Validate pol = None" "vcr_Purpose q \<in> set verification_purposes"
    "DestinationHash (ve_unicode env) (ve_protection env) (vcr_Channel q) (vcr_Destination q) = Inr (dh, n)"
    "vdb_challenges db' = ch # vdb_challenges db" "vdb_outbox db' = r # vdb_outbox db" "vdb_auths db' = vdb_auths db"
    "vch_ChallengeID ch = ''vch-'' @ EncodeToString (rnd_Secret rnd)" "vrc_ChallengeID rc = vch_ChallengeID ch"
    "\<forall>x \<in> set (vdb_challenges db). vch_ChallengeID x \<noteq> vch_ChallengeID ch"
    "vch_BindingHash ch = BindingHash (ve_protection env) (vcr_Purpose q) (vcr_UserID q) (vcr_TenantID q) (vcr_FlowID q) (vcr_Channel q) dh"
    "vch_CodeHash ch = HashCode (ve_protection env) (vch_ChallengeID ch) (code_of pol rnd)" "vch_ConsumedAt ch = None" "vch_Attempts ch = 0"
    "vch_MaxAttempts ch = word_of_int (vpol_MaxVerificationTries pol)" "vch_ExpiresAt ch = vrc_ExpiresAt rc"
    "ob_ChallengeID r = vch_ChallengeID ch" "ob_SecretCiphertext r = ct" "ob_KeyVersion r = kv"
    "ProtectNotification (ve_aead env) (ve_protection env) (rnd_Nonce2 rnd) (ob_EventID r) ''secret'' (code_of pol rnd) = Inr (ct, kv)"
proof -
  from assms(1) obtain dh n where ok: "VerificationPolicy_Validate pol = None" "vcr_Purpose q \<in> set verification_purposes"
    and dh: "DestinationHash (ve_unicode env) (ve_protection env) (vcr_Channel q) (vcr_Destination q) = Inr (dh, n)"
    and tx: "create_challenge_tx env pol rnd now q dh n db = Inr (rc, db')"
    by (auto simp: CreateVerificationChallenge_def ChallengeRequest_Validate_def Purpose_Valid_def split: option.splits if_splits)
  have digits: "\<not> (vpol_CodeDigits pol < 4 \<or> vpol_CodeDigits pol > 10)"
    using ok(1) by (auto simp: VerificationPolicy_Validate_def split: if_splits)
  from tx assms(2) digits show thesis
    by (auto simp: create_challenge_tx_def GenerateCode_def Let_def code_of_def [symmetric] split: option.splits if_splits intro!: that [OF ok dh])
qed

lemma verify_succeeds:
  assumes "VerificationPolicy_Validate pol = None" "find (\<lambda>c. vch_ChallengeID c = i) (vdb_challenges db) = Some ch" "TrimSpace i = i"
    and "TrimSpace code \<noteq> ''''" "DestinationHash (ve_unicode env) (ve_protection env) (vcr_Channel q) (vcr_Destination q) = Inr (dh, n)"
    and "32 \<le> length (vp_hmacKey (ve_protection env))"
    and "vch_BindingHash ch = BindingHash (ve_protection env) (vcr_Purpose q) (vcr_UserID q) (vcr_TenantID q) (vcr_FlowID q) (vcr_Channel q) dh"
    and "vch_CodeHash ch = HashCode (ve_protection env) (vch_ChallengeID ch) code" "vch_ConsumedAt ch = None" "vch_Attempts ch < vch_MaxAttempts ch"
    and "now < vch_ExpiresAt ch"
    and "\<forall>a \<in> set (vdb_auths db). ota_AuthorizationHash a \<noteq> HashAuthorization (ve_protection env) raw \<and> ota_ChallengeID a \<noteq> vch_ChallengeID ch"
  obtains oa db' a where "VerifyChallenge env pol raw now (answer q i code) db = (Inr oa, db')" "oa_Code oa = raw"
    "compared env pol now (answer q i code) db = Some ch" "vdb_auths db' = a # vdb_auths db" "ota_ConsumedAt a = None" "ota_ExpiresAt a = oa_ExpiresAt oa"
    "ota_AuthorizationHash a = HashAuthorization (ve_protection env) raw" "ota_BindingHash a = vch_BindingHash ch"
    "oa_ExpiresAt oa = canonicalVerificationTime (now + vpol_AuthorizationTTL pol)"
proof -
  have nonempty: "mac (ve_protection env) x y \<noteq> []" for x y using mac_nonempty assms(6) by blast
  show thesis
    using assms nonempty
    by (intro that [where a = "\<lparr>ota_AuthorizationHash = HashAuthorization (ve_protection env) raw, ota_ChallengeID = vch_ChallengeID ch,
        ota_BindingHash = vch_BindingHash ch, ota_Purpose = vch_Purpose ch, ota_UserID = vch_UserID ch, ota_TenantID = vch_TenantID ch,
        ota_FlowID = vch_FlowID ch, ota_Channel = vch_Channel ch, ota_DestinationHash = vch_DestinationHash ch,
        ota_ExpiresAt = canonicalVerificationTime (now + vpol_AuthorizationTTL pol), ota_ConsumedAt = None,
        ota_CreatedAt = canonicalVerificationTime now\<rparr>"])
      (auto simp: VerifyChallenge_def verify_tx_def answer_def verify_refusal_def compared_def request_binding_def constantVerificationEqual_iff
        BindingHash_def HashCode_def Let_def)
qed

lemma consume_succeeds:
  assumes "vdb_auths db = a # as" "ota_AuthorizationHash a = HashAuthorization (ve_protection env) raw" "TrimSpace raw \<noteq> ''''"
    and "DestinationHash (ve_unicode env) (ve_protection env) (vcr_Channel q) (vcr_Destination q) = Inr (dh, n)"
    and "32 \<le> length (vp_hmacKey (ve_protection env))" "ota_ConsumedAt a = None" "now < ota_ExpiresAt a"
    and "ota_BindingHash a = BindingHash (ve_protection env) (vcr_Purpose q) (vcr_UserID q) (vcr_TenantID q) (vcr_FlowID q) (vcr_Channel q) dh"
  obtains rc db' where "ConsumeOneTimeAuthorization env now (redeem q raw) db = Inr (rc, db')"
proof -
  have "mac (ve_protection env) x y \<noteq> []" for x y using mac_nonempty assms(5) by blast
  with assms that show thesis
    by (simp add: ConsumeOneTimeAuthorization_def consume_tx_def redeem_def constantVerificationEqual_iff BindingHash_def)
qed

lemma flow_verify:
  assumes run: "ver_run env pol t log db" and p: "NewVerificationProtection active ks hmacKey = Inr (ve_protection env)"
    and create: "CreateVerificationChallenge env pol rnd now q db = Inr (rc, db')" "findChallengeByBusinessEvent db (vcr_BusinessEventID q) = None"
    and digits: "rnd_Digits rnd \<noteq> []" and raw: "\<forall>a \<in> set (vdb_auths db). ota_AuthorizationHash a \<noteq> HashAuthorization (ve_protection env) raw"
    and "now' < vrc_ExpiresAt rc"
  obtains ch oa db'' a dh n where
    "VerifyChallenge env pol raw now' (answer q (vrc_ChallengeID rc) (code_of pol rnd)) db' = (Inr oa, db'')" "oa_Code oa = raw"
    "compared env pol now' (answer q (vrc_ChallengeID rc) (code_of pol rnd)) db' = Some ch" "vch_ChallengeID ch = vrc_ChallengeID rc"
    "vdb_auths db'' = a # vdb_auths db"
    "ota_ConsumedAt a = None" "ota_ExpiresAt a = oa_ExpiresAt oa" "ota_AuthorizationHash a = HashAuthorization (ve_protection env) raw"
    "DestinationHash (ve_unicode env) (ve_protection env) (vcr_Channel q) (vcr_Destination q) = Inr (dh, n)"
    "ota_BindingHash a = BindingHash (ve_protection env) (vcr_Purpose q) (vcr_UserID q) (vcr_TenantID q) (vcr_FlowID q) (vcr_Channel q) dh"
    "oa_ExpiresAt oa = canonicalVerificationTime (now' + vpol_AuthorizationTTL pol)"
proof -
  from create obtain ch dh n where c: "VerificationPolicy_Validate pol = None"
      "DestinationHash (ve_unicode env) (ve_protection env) (vcr_Channel q) (vcr_Destination q) = Inr (dh, n)"
      "vdb_challenges db' = ch # vdb_challenges db" "vdb_auths db' = vdb_auths db"
      "vch_ChallengeID ch = ''vch-'' @ EncodeToString (rnd_Secret rnd)" "vrc_ChallengeID rc = vch_ChallengeID ch"
      "\<forall>x \<in> set (vdb_challenges db). vch_ChallengeID x \<noteq> vch_ChallengeID ch"
      "vch_BindingHash ch = BindingHash (ve_protection env) (vcr_Purpose q) (vcr_UserID q) (vcr_TenantID q) (vcr_FlowID q) (vcr_Channel q) dh"
      "vch_CodeHash ch = HashCode (ve_protection env) (vch_ChallengeID ch) (code_of pol rnd)" "vch_ConsumedAt ch = None" "vch_Attempts ch = 0"
      "vch_MaxAttempts ch = word_of_int (vpol_MaxVerificationTries pol)" "vch_ExpiresAt ch = vrc_ExpiresAt rc"
    by (rule create_fresh)
  have id': "TrimSpace (vrc_ChallengeID rc) = vrc_ChallengeID rc" using c(5,6) challenge_id_plain by simp
  have found: "find (\<lambda>x. vch_ChallengeID x = vrc_ChallengeID rc) (vdb_challenges db') = Some ch" using c(3,6) by simp
  have "nat (vpol_CodeDigits pol) \<noteq> 0" using c(1) by (auto simp: VerificationPolicy_Validate_def split: if_splits)
  with digits have code: "TrimSpace (code_of pol rnd) \<noteq> ''''" unfolding code_of_plain by (auto simp: code_of_def)
  have tries: "vch_Attempts ch < vch_MaxAttempts ch" using c(11,12) tries_word [OF c(1)] by (simp add: word_less_nat_alt)
  have auths: "\<forall>a \<in> set (vdb_auths db'). ota_AuthorizationHash a \<noteq> HashAuthorization (ve_protection env) raw \<and> ota_ChallengeID a \<noteq> vch_ChallengeID ch"
  proof (intro ballI conjI)
    fix a assume a: "a \<in> set (vdb_auths db')"
    with raw c(4) show "ota_AuthorizationHash a \<noteq> HashAuthorization (ve_protection env) raw" by simp
    from a c(4) ver_invD(4) [OF ver_run_inv [OF run]] obtain x where "x \<in> set (vdb_challenges db)" "auth_backed env log a x"
      unfolding auth_ok_def by auto
    with c(7) auth_backed_consumed show "ota_ChallengeID a \<noteq> vch_ChallengeID ch" by metis
  qed
  have expiry: "now' < vch_ExpiresAt ch" using c(13) assms(7) by simp
  show thesis
    by (rule verify_succeeds [OF c(1) found id' code c(2) NewVerificationProtection_fields(1) [OF p] c(8,9,10) tries expiry auths])
      (rule that, use c(2,4,6,8) in simp_all)
qed

text \<open>
  C19: a code that arrives is accepted. After a challenge was created, its row of the outbox decrypts
  to a code; the request that answers the challenge with that code before it expires gets an
  authorization, and that authorization can be redeemed before it expires in turn.\<close>

theorem verification_flow_completes:
  assumes run: "ver_run env pol t log db" and p: "NewVerificationProtection active ks hmacKey = Inr (ve_protection env)"
    and opens: "\<And>key n aad plain. ae_Open (ve_aead env) key n aad (ae_Seal (ve_aead env) key n aad plain) = Some plain"
    and longer: "\<And>key n aad plain. ae_Seal (ve_aead env) key n aad plain \<noteq> []"
    and create: "CreateVerificationChallenge env pol rnd now q db = Inr (rc, db')" "findChallengeByBusinessEvent db (vcr_BusinessEventID q) = None"
    and rnd: "rnd_Digits rnd \<noteq> []" "length (rnd_Nonce2 rnd) = NonceSize"
    and raw: "\<forall>a \<in> set (vdb_auths db). ota_AuthorizationHash a \<noteq> HashAuthorization (ve_protection env) raw" "TrimSpace raw \<noteq> ''''"
    and now': "now' < vrc_ExpiresAt rc"
  shows "\<exists>r code oa db''. r \<in> set (vdb_outbox db') \<and> ob_ChallengeID r = vrc_ChallengeID rc \<and>
    DecryptNotification (ve_aead env) (ve_protection env) (ob_EventID r) ''secret'' (ob_SecretCiphertext r) (ob_KeyVersion r) = Inr code \<and>
    VerifyChallenge env pol raw now' (answer q (vrc_ChallengeID rc) code) db' = (Inr oa, db'') \<and> oa_Code oa = raw \<and>
    (\<forall>now''. now'' < oa_ExpiresAt oa \<longrightarrow> \<not> isl (ConsumeOneTimeAuthorization env now'' (redeem q raw) db''))"
proof -
  from create obtain r ct kv where r: "vdb_outbox db' = r # vdb_outbox db" "ob_ChallengeID r = vrc_ChallengeID rc" "ob_SecretCiphertext r = ct" "ob_KeyVersion r = kv"
      "ProtectNotification (ve_aead env) (ve_protection env) (rnd_Nonce2 rnd) (ob_EventID r) ''secret'' (code_of pol rnd) = Inr (ct, kv)"
    by (rule create_fresh) simp
  have dec: "DecryptNotification (ve_aead env) (ve_protection env) (ob_EventID r) ''secret'' (ob_SecretCiphertext r) (ob_KeyVersion r) = Inr (code_of pol rnd)"
    by (rule decrypt_protected [OF p rnd(2) longer, of "ob_EventID r" "''secret''" "code_of pol rnd"]) (use r opens in simp)
  obtain oa db'' a dh n where v: "VerifyChallenge env pol raw now' (answer q (vrc_ChallengeID rc) (code_of pol rnd)) db' = (Inr oa, db'')" "oa_Code oa = raw"
      "vdb_auths db'' = a # vdb_auths db"
      "ota_ConsumedAt a = None" "ota_ExpiresAt a = oa_ExpiresAt oa" "ota_AuthorizationHash a = HashAuthorization (ve_protection env) raw"
      "DestinationHash (ve_unicode env) (ve_protection env) (vcr_Channel q) (vcr_Destination q) = Inr (dh, n)"
      "ota_BindingHash a = BindingHash (ve_protection env) (vcr_Purpose q) (vcr_UserID q) (vcr_TenantID q) (vcr_FlowID q) (vcr_Channel q) dh"
    by (rule flow_verify [OF run p create rnd(1) raw(1) now'])
  have "\<not> isl (ConsumeOneTimeAuthorization env now'' (redeem q raw) db'')" if "now'' < oa_ExpiresAt oa" for now''
  proof -
    from that v(5) have "now'' < ota_ExpiresAt a" by simp
    from consume_succeeds [OF v(3,6) raw(2) v(7) NewVerificationProtection_fields(1) [OF p] v(4) this v(8)]
    obtain rc' db3 where "ConsumeOneTimeAuthorization env now'' (redeem q raw) db'' = Inr (rc', db3)" by blast
    then show ?thesis by simp
  qed
  with v(1,2) r(1,2) dec show ?thesis by (intro exI [of _ r] exI [of _ "code_of pol rnd"] exI [of _ oa] exI [of _ db'']) simp
qed

section \<open>Example histories\<close>

definition ex_venv :: VerEnv where
  "ex_venv = \<lparr>ve_unicode = \<lparr>ut_ToLower = (\<lambda>s. s), ut_IsDigit = (\<lambda>r. r \<noteq> '''' \<and> is_digit (hd r))\<rparr>, ve_aead = ex_aead, ve_protection = ex_protection\<rparr>"

definition ex_vpolicy :: VerificationPolicy where
  "ex_vpolicy = \<lparr>vpol_CodeTTL = 5 * Minute, vpol_AuthorizationTTL = 10 * Minute, vpol_ResendInterval = Minute, vpol_SendLimitWindow = Hour,
     vpol_MaxSendsPerWindow = 5, vpol_MaxVerificationTries = 3, vpol_CodeDigits = 6\<rparr>"

definition ex_vrequest :: VerificationChallengeRequest where
  "ex_vrequest = \<lparr>vcr_BusinessEventID = ''evt-1'', vcr_FlowID = ''flow-1'', vcr_Purpose = ''login'', vcr_UserID = ''ada'', vcr_TenantID = '''',
     vcr_Channel = Channel_Email, vcr_Destination = ''ada@example.org''\<rparr>"

definition ex_vrandom :: Randomness where
  "ex_vrandom = \<lparr>rnd_Secret = replicate 24 CHR ''s'', rnd_Digits = [4, 8, 2, 9, 1, 3], rnd_Nonce1 = replicate 12 CHR ''n'',
     rnd_Nonce2 = replicate 12 CHR ''m''\<rparr>"

lemma ex_vfields:
  "ve_aead ex_venv = ex_aead" "ve_protection ex_venv = ex_protection" "vpol_MaxSendsPerWindow ex_vpolicy = 5"
  "vcr_BusinessEventID ex_vrequest = ''evt-1''" "vcr_UserID ex_vrequest = ''ada''" "vcr_Channel ex_vrequest = Channel_Email"
  "vcr_Destination ex_vrequest = ''ada@example.org''" "rnd_Secret ex_vrandom = replicate 24 CHR ''s''" "rnd_Nonce1 ex_vrandom = replicate 12 CHR ''n''"
  "rnd_Nonce2 ex_vrandom = replicate 12 CHR ''m''" "vdb_challenges empty_vdb = []" "vdb_auths empty_vdb = []" "vdb_outbox empty_vdb = []"
  by (simp_all only: ex_venv_def ex_vpolicy_def ex_vrequest_def ex_vrandom_def empty_vdb_def VerEnv.simps VerificationPolicy.simps
      VerificationChallengeRequest.simps Randomness.simps VerDB.simps)

lemma ex_vparts:
  "VerificationPolicy_Validate ex_vpolicy = None" "ChallengeRequest_Validate ex_vrequest = None"
  "normalizeVerificationDestination (ve_unicode ex_venv) Channel_Email ''ada@example.org'' = Inr ''ada@example.org''"
  "TrimSpace ''evt-1'' = ''evt-1''" "TrimSpace ''ada'' = ''ada''"
  by code_simp+

lemma ex_vprotect: "\<exists>ct. ProtectNotification ex_aead ex_protection nonce e f v = Inr (ct, ''v1'')"
  by (simp add: ProtectNotification_def ex_protection_def valid_key_def)

lemma ex_vcreate:
  obtains rc db where "CreateVerificationChallenge ex_venv ex_vpolicy ex_vrandom 3000 ex_vrequest empty_vdb = Inr (rc, db)"
    "vrc_ExpiresAt rc = 3000 + 5 * Minute" "vrc_ChallengeID rc = ''vch-'' @ EncodeToString (replicate 24 CHR ''s'')"
proof -
  let ?e = "stableSecurityEventID ''evt-1''"
  obtain c1 where c1: "ProtectNotification ex_aead ex_protection (replicate 12 CHR ''n'') ?e ''destination'' ''ada@example.org'' = Inr (c1, ''v1'')"
    using ex_vprotect by blast
  obtain c2 where c2: "ProtectNotification ex_aead ex_protection (replicate 12 CHR ''m'') ?e ''secret'' (code_of ex_vpolicy ex_vrandom) = Inr (c2, ''v1'')"
    using ex_vprotect by blast
  have code: "GenerateCode (rnd_Digits ex_vrandom) (vpol_CodeDigits ex_vpolicy) = Inr (code_of ex_vpolicy ex_vrandom)"
    by (simp add: GenerateCode_def code_of_def ex_vpolicy_def)
  have expiry: "canonicalVerificationTime (3000 + vpol_CodeTTL ex_vpolicy) = 3000 + 5 * Minute"
    by (simp add: canonicalVerificationTime_def IsZero_def ex_vpolicy_def duration_defs)
  have "\<exists>rc db. CreateVerificationChallenge ex_venv ex_vpolicy ex_vrandom 3000 ex_vrequest empty_vdb = Inr (rc, db) \<and>
      vrc_ExpiresAt rc = 3000 + 5 * Minute \<and> vrc_ChallengeID rc = ''vch-'' @ EncodeToString (replicate 24 CHR ''s'')"
    by (simp add: CreateVerificationChallenge_def ex_vparts create_challenge_tx_def DestinationHash_def ex_vfields c1 c2 code expiry
        findChallengeByBusinessEvent_def rate_limit_def Let_def)
  with that show thesis by blast
qed

text \<open>A history in which the code was answered at once and the authorization redeemed.\<close>

lemma ex_vhistory:
  obtains log db c where "ver_run ex_venv ex_vpolicy 3000 (Ev_Consumed (HashAuthorization ex_protection ''raw'') c # log) db"
    "guesses log (''vch-'' @ EncodeToString (replicate 24 CHR ''s'')) True = 1"
    "send_times ''ada'' ''login'' (mac ex_protection ''destination/email'' ''ada@example.org'') db = [3000]"
proof -
  obtain rc db1 where c: "CreateVerificationChallenge ex_venv ex_vpolicy ex_vrandom 3000 ex_vrequest empty_vdb = Inr (rc, db1)"
      "vrc_ExpiresAt rc = 3000 + 5 * Minute" "vrc_ChallengeID rc = ''vch-'' @ EncodeToString (replicate 24 CHR ''s'')"
    by (rule ex_vcreate)
  have p: "NewVerificationProtection ''v1'' [(''v1'', replicate 32 CHR ''k'')] (replicate 32 CHR ''h'') = Inr (ve_protection ex_venv)"
    unfolding ex_vfields by (rule ex_protection_ok)
  have r1: "ver_run ex_venv ex_vpolicy 3000 [] db1" by (rule ver_run.create [OF ver_run.start _ _ c(1)]) simp_all
  have none: "findChallengeByBusinessEvent empty_vdb (vcr_BusinessEventID ex_vrequest) = None" by (simp add: findChallengeByBusinessEvent_def ex_vfields)
  have raw: "TrimSpace ''raw'' \<noteq> ''''" by code_simp
  let ?a = "answer ex_vrequest (vrc_ChallengeID rc) (code_of ex_vpolicy ex_vrandom)"
  obtain ch oa db2 a dh n where v: "VerifyChallenge ex_venv ex_vpolicy ''raw'' 3000 ?a db1 = (Inr oa, db2)"
      "compared ex_venv ex_vpolicy 3000 ?a db1 = Some ch" "vch_ChallengeID ch = vrc_ChallengeID rc" "vdb_auths db2 = a # vdb_auths empty_vdb"
      "ota_ConsumedAt a = None" "ota_ExpiresAt a = oa_ExpiresAt oa" "ota_AuthorizationHash a = HashAuthorization (ve_protection ex_venv) ''raw''"
      "DestinationHash (ve_unicode ex_venv) (ve_protection ex_venv) (vcr_Channel ex_vrequest) (vcr_Destination ex_vrequest) = Inr (dh, n)"
      "ota_BindingHash a = BindingHash (ve_protection ex_venv) (vcr_Purpose ex_vrequest) (vcr_UserID ex_vrequest) (vcr_TenantID ex_vrequest)
         (vcr_FlowID ex_vrequest) (vcr_Channel ex_vrequest) dh"
      "oa_ExpiresAt oa = canonicalVerificationTime (3000 + vpol_AuthorizationTTL ex_vpolicy)"
    by (rule flow_verify [OF ver_run.start p c(1) none, of "''raw''" 3000])
      (simp_all add: c(2) ex_vfields ex_vrandom_def duration_defs)
  have auths: "vdb_auths db1 = []" using c(1) by (cases rule: create_cases) (simp_all add: ex_vfields)
  have "ver_run ex_venv ex_vpolicy 3000 [Ev_Compared (vrc_ChallengeID rc) ?a ''raw'' True] db2"
    using ver_run.verify [OF r1 _ _ v(1)] v(2,3) auths by simp
  moreover have "3000 < ota_ExpiresAt a"
    using v(6,10) by (simp add: canonicalVerificationTime_def IsZero_def ex_vpolicy_def duration_defs)
  from consume_succeeds [OF v(4,7) raw v(8) NewVerificationProtection_fields(1) [OF p] v(5) this v(9)]
  obtain rc' db3 where cons: "ConsumeOneTimeAuthorization ex_venv 3000 (redeem ex_vrequest ''raw'') db2 = Inr (rc', db3)" by blast
  ultimately have run: "ver_run ex_venv ex_vpolicy 3000
      (Ev_Consumed (HashAuthorization ex_protection ''raw'') (redeem ex_vrequest ''raw'') # [Ev_Compared (vrc_ChallengeID rc) ?a ''raw'' True]) db3"
    using ver_run.consume [OF _ _ cons, of ex_vpolicy 3000] by (simp add: redeem_def ex_vfields)
  have "send_times ''ada'' ''login'' (mac ex_protection ''destination/email'' ''ada@example.org'') db1 = [3000]"
    using c(1)
    by (auto simp: CreateVerificationChallenge_def ex_vparts create_challenge_tx_def DestinationHash_def ex_vfields findChallengeByBusinessEvent_def
        send_times_def same_target_def Let_def canonicalVerificationTime_def IsZero_def ex_vrequest_def split: option.splits if_splits)
  moreover have "vdb_challenges db3 = vdb_challenges db2" using cons by (rule consume_cases)
  ultimately have times: "send_times ''ada'' ''login'' (mac ex_protection ''destination/email'' ''ada@example.org'') db3 = [3000]"
    using VerifyChallenge_times [OF v(1)] by (simp add: send_times_def)
  show thesis by (rule that [OF run _ times]) (simp add: c(3))
qed

theorem verification_guesses_bounded_witness:
  "\<exists>log db. ver_run ex_venv ex_vpolicy 3000 log db \<and>
     guesses log (''vch-'' @ EncodeToString (replicate 24 CHR ''s'')) True = 1 \<and>
     guesses log (''vch-'' @ EncodeToString (replicate 24 CHR ''s'')) True + guesses log (''vch-'' @ EncodeToString (replicate 24 CHR ''s'')) False \<le> 3"
proof -
  obtain log db c where r: "ver_run ex_venv ex_vpolicy 3000 (Ev_Consumed (HashAuthorization ex_protection ''raw'') c # log) db"
    "guesses log (''vch-'' @ EncodeToString (replicate 24 CHR ''s'')) True = 1" by (rule ex_vhistory)
  have "vpol_MaxVerificationTries ex_vpolicy = 3" by (simp add: ex_vpolicy_def)
  with verification_guesses_bounded [OF r(1), of "''vch-'' @ EncodeToString (replicate 24 CHR ''s'')"] r show ?thesis
    by (intro exI [of _ "Ev_Consumed (HashAuthorization ex_protection ''raw'') c # log"] exI [of _ db]) simp
qed

theorem authorization_single_use_witness:
  "\<exists>log db c. ver_run ex_venv ex_vpolicy 3000 (Ev_Consumed (HashAuthorization ex_protection ''raw'') c # log) db \<and>
     consumptions (Ev_Consumed (HashAuthorization ex_protection ''raw'') c # log) (HashAuthorization ex_protection ''raw'') = 1"
proof -
  obtain log db c where r: "ver_run ex_venv ex_vpolicy 3000 (Ev_Consumed (HashAuthorization ex_protection ''raw'') c # log) db" by (rule ex_vhistory)
  have "Ev_Consumed (HashAuthorization ex_protection ''raw'') c \<in> set (Ev_Consumed (HashAuthorization ex_protection ''raw'') c # log)" by simp
  from authorization_single_use [OF r this] r show ?thesis by blast
qed

lemma verification_sends_paced_witness:
  "\<exists>log db. ver_run ex_venv ex_vpolicy 3000 log db \<and>
     send_times ''ada'' ''login'' (mac ex_protection ''destination/email'' ''ada@example.org'') db = [3000] \<and> sends_paced ex_vpolicy [3000]"
proof -
  obtain log db c where r: "ver_run ex_venv ex_vpolicy 3000 (Ev_Consumed (HashAuthorization ex_protection ''raw'') c # log) db"
    "send_times ''ada'' ''login'' (mac ex_protection ''destination/email'' ''ada@example.org'') db = [3000]" by (rule ex_vhistory)
  from verification_sends_paced [OF r(1), of "''ada''" "''login''" "mac ex_protection ''destination/email'' ''ada@example.org''"] r show ?thesis
    by auto
qed

theorem verification_flow_completes_witness:
  "\<exists>rc db1 r code oa db2. CreateVerificationChallenge ex_venv ex_vpolicy ex_vrandom 3000 ex_vrequest empty_vdb = Inr (rc, db1) \<and>
     r \<in> set (vdb_outbox db1) \<and> DecryptNotification ex_aead ex_protection (ob_EventID r) ''secret'' (ob_SecretCiphertext r) (ob_KeyVersion r) = Inr code \<and>
     VerifyChallenge ex_venv ex_vpolicy ''raw'' 4000 (answer ex_vrequest (vrc_ChallengeID rc) code) db1 = (Inr oa, db2) \<and> oa_Code oa = ''raw''"
proof -
  obtain rc db1 where c: "CreateVerificationChallenge ex_venv ex_vpolicy ex_vrandom 3000 ex_vrequest empty_vdb = Inr (rc, db1)"
      "vrc_ExpiresAt rc = 3000 + 5 * Minute" by (rule ex_vcreate)
  have p: "NewVerificationProtection ''v1'' [(''v1'', replicate 32 CHR ''k'')] (replicate 32 CHR ''h'') = Inr (ve_protection ex_venv)"
    unfolding ex_vfields by (rule ex_protection_ok)
  have raw: "TrimSpace ''raw'' \<noteq> ''''" by code_simp
  have "findChallengeByBusinessEvent empty_vdb (vcr_BusinessEventID ex_vrequest) = None" by (simp add: findChallengeByBusinessEvent_def ex_vfields)
  from verification_flow_completes [OF ver_run.start p _ _ c(1) this _ _ _ raw, of 4000] c show ?thesis
    by (fastforce simp: ex_vfields ex_aead_laws ex_vrandom_def duration_defs)
qed

section \<open>Repeating a notification request\<close>

lemma notificationBinding_update [simp]: "notificationBinding env (r\<lparr>ob_BindingHash := b\<rparr>) secret = notificationBinding env r secret"
  by (simp add: notificationBinding_def)

lemma protect_total:
  assumes "NewVerificationProtection active ks hmacKey = Inr p"
  shows "\<exists>ct. ProtectNotification c p nonce e f v = Inr (ct, vp_activeVersion p)"
  using NewVerificationProtection_fields(3) [OF assms] by (auto simp: ProtectNotification_def)

text \<open>
  Once a notification was enqueued, a request with the same business event and the same secret
  is answered with the receipt of the first one and changes nothing, before it expires, whatever its
  recipient, kind, purpose and destination are. A repeated request is idempotent; but the stored
  binding is compared with a binding computed from the stored row itself, so another request that
  reuses the event for another user or destination is not refused as a conflict.\<close>

lemma enqueue_repeat_same_event:
  assumes p: "NewVerificationProtection active ks hmacKey = Inr (ve_protection env)"
    and first: "EnqueueSecurityNotification env n1 n2 now q db = Inr (rc, db')"
      "find (\<lambda>r. ob_BusinessEventID r = TrimSpace (snr_BusinessEventID q)) (vdb_outbox db) = None"
    and again: "NotificationRequest_Validate q' = None" "TrimSpace (snr_BusinessEventID q') = TrimSpace (snr_BusinessEventID q)"
      "snr_Secret q' = snr_Secret q" "DestinationHash (ve_unicode env) (ve_protection env) (snr_Channel q') (snr_Destination q') = Inr (dh, n)"
      "now' < snr_ExpiresAt q'"
  shows "EnqueueSecurityNotification env n1' n2' now' q' db' = Inr (rc, db')"
proof -
  let ?p = "ve_protection env" let ?e = "stableSecurityEventID (snr_BusinessEventID q')"
  have key: "32 \<le> length (vp_hmacKey ?p)" by (rule NewVerificationProtection_fields(1) [OF p])
  from first obtain r where r: "vdb_outbox db' = r # vdb_outbox db" "rc = notificationReceipt r" "ob_BusinessEventID r = TrimSpace (snr_BusinessEventID q)"
      "ob_BindingHash r = notificationBinding env r (snr_Secret q)"
    by (auto simp: EnqueueSecurityNotification_def Let_def split: option.splits if_splits)
  have same: "constantVerificationEqual (ob_BindingHash r) (notificationBinding env r (snr_Secret q'))"
    using r(4) again(3) mac_nonempty [OF key] by (simp add: constantVerificationEqual_iff notificationBinding_def NotificationBindingHash_def)
  obtain c1 where c1: "ProtectNotification (ve_aead env) ?p n1' ?e ''destination'' n = Inr (c1, vp_activeVersion ?p)" using protect_total [OF p] by blast
  obtain c2 where c2: "ProtectNotification (ve_aead env) ?p n2' ?e ''secret'' (snr_Secret q') = Inr (c2, vp_activeVersion ?p)" using protect_total [OF p] by blast
  show ?thesis using again r(1-3) same c1 c2 by (auto simp: EnqueueSecurityNotification_def Let_def)
qed

definition ex_notice :: "string \<Rightarrow> string \<Rightarrow> SecurityNotificationRequest" where
  "ex_notice user dest = \<lparr>snr_BusinessEventID = ''evt-1'', snr_Kind = ''login_lock'', snr_Purpose = ''login'', snr_UserID = user, snr_TenantID = '''',
     snr_FlowID = '''', snr_Channel = Channel_Email, snr_Destination = dest, snr_Secret = '''', snr_ExpiresAt = 9000\<rparr>"

lemma ex_notice_first:
  obtains rc db where "EnqueueSecurityNotification ex_venv n1 n2 3000 (ex_notice ''ada'' ''ada@example.org'') empty_vdb = Inr (rc, db)"
proof -
  have valid: "NotificationRequest_Validate (ex_notice ''ada'' ''ada@example.org'') = None" by code_simp
  obtain c1 where c1: "ProtectNotification ex_aead ex_protection n1 (stableSecurityEventID ''evt-1'') ''destination'' ''ada@example.org'' = Inr (c1, ''v1'')"
    using ex_vprotect by blast
  have f: "snr_BusinessEventID (ex_notice u d) = ''evt-1''" "snr_Channel (ex_notice u d) = Channel_Email" "snr_Destination (ex_notice u d) = d"
    "snr_Secret (ex_notice u d) = ''''" "snr_ExpiresAt (ex_notice u d) = 9000" for u d by (simp_all add: ex_notice_def)
  have "\<not> isl (EnqueueSecurityNotification ex_venv n1 n2 3000 (ex_notice ''ada'' ''ada@example.org'') empty_vdb)"
    by (simp add: EnqueueSecurityNotification_def valid f ex_vfields ex_vparts DestinationHash_def c1 bind_result_def Let_def)
  then show thesis using that by (cases "EnqueueSecurityNotification ex_venv n1 n2 3000 (ex_notice ''ada'' ''ada@example.org'') empty_vdb") auto
qed

lemma enqueue_repeat_same_event_witness:
  "\<exists>rc db. EnqueueSecurityNotification ex_venv ''n1'' ''n2'' 3000 (ex_notice ''ada'' ''ada@example.org'') empty_vdb = Inr (rc, db) \<and>
     EnqueueSecurityNotification ex_venv ''n3'' ''n4'' 4000 (ex_notice ''bob'' ''bob@example.org'') db = Inr (rc, db)"
proof -
  obtain rc db where first: "EnqueueSecurityNotification ex_venv ''n1'' ''n2'' 3000 (ex_notice ''ada'' ''ada@example.org'') empty_vdb = Inr (rc, db)"
    by (rule ex_notice_first)
  have p: "NewVerificationProtection ''v1'' [(''v1'', replicate 32 CHR ''k'')] (replicate 32 CHR ''h'') = Inr (ve_protection ex_venv)"
    unfolding ex_vfields by (rule ex_protection_ok)
  have valid: "NotificationRequest_Validate (ex_notice ''bob'' ''bob@example.org'') = None"
    "normalizeVerificationDestination (ve_unicode ex_venv) Channel_Email ''bob@example.org'' = Inr ''bob@example.org''" by code_simp+
  have "DestinationHash (ve_unicode ex_venv) (ve_protection ex_venv) (snr_Channel (ex_notice ''bob'' ''bob@example.org''))
      (snr_Destination (ex_notice ''bob'' ''bob@example.org'')) = Inr (mac ex_protection ''destination/email'' ''bob@example.org'', ''bob@example.org'')"
    using valid(2) by (simp add: DestinationHash_def ex_notice_def ex_vfields)
  from enqueue_repeat_same_event [OF p first _ valid(1) _ _ this, of 4000] first show ?thesis
    by (auto simp: ex_vfields ex_notice_def)
qed

end
