(* ===== verification/Lease.thy ===== *)
theory Lease
  imports Entitlement
begin

section \<open>Two contracts of the durable tasks\<close>

text \<open>
  The provisioning task and the time-transition task follow the same two protocols, stated here
  once. \<open>sealed\<close>: a record carries the digest of its other fields; \<open>Seal\<close> writes it and
  \<open>Integrity\<close> compares it. \<open>leased\<close>: a worker claims the task for a limited time and receives a
  fencing token; every write checks the owner, the token and the clock. What follows from the two
  contracts is proved here and holds for both tasks by interpretation.
\<close>

locale sealed =
  fixes hash :: "'s \<Rightarrow> string" and set_hash :: "string \<Rightarrow> 's \<Rightarrow> 's"
    and digest :: "'s \<Rightarrow> string" and seal :: "'s \<Rightarrow> 's"
  assumes hash_set: "hash (set_hash h s) = h"
    and set_set: "set_hash h (set_hash h' s) = set_hash h s"
    and set_get: "set_hash (hash s) s = s"
    and seal: "seal s = set_hash (digest (set_hash '''' s)) s"
begin

lemma seal_idem: "seal (seal s) = seal s"
  by (simp add: seal set_set)

lemma seal_verifies: "hash (seal s) = hash (seal (seal s))"
  by (simp add: seal_idem)

lemma verifies_iff: "hash s = hash (seal s) \<longleftrightarrow> seal s = s"
proof
  assume "hash s = hash (seal s)"
  then have "set_hash (hash s) s = seal s" by (simp add: seal hash_set)
  then show "seal s = s" by (simp add: set_get)
qed simp

text \<open>A verified value with any other stored digest no longer verifies.\<close>

lemma other_hash:
  assumes "seal s = s" "h \<noteq> hash s"
  shows "hash (set_hash h s) \<noteq> hash (seal (set_hash h s))"
proof -
  have "hash (seal (set_hash h s)) = hash (seal s)" by (simp add: seal set_set hash_set)
  with assms show ?thesis by (simp add: hash_set)
qed

text \<open>A value that verifies is determined by its other fields.\<close>

lemma verified_determined:
  assumes "seal s = s" "seal s' = s'" "set_hash '''' s = set_hash '''' s'"
  shows "s = s'"
  using assms by (metis seal set_set)

end

locale leased =
  fixes token :: "'s \<Rightarrow> uint64" and owns :: "'s \<Rightarrow> string \<Rightarrow> uint64 \<Rightarrow> time \<Rightarrow> bool"
    and claim :: "'s \<Rightarrow> 's \<Rightarrow> bool" and claimable :: "'s \<Rightarrow> time \<Rightarrow> bool"
    and step :: "'s \<Rightarrow> 's \<Rightarrow> bool"
  assumes owns_token: "owns s w k now \<Longrightarrow> k = token s"
    and owns_owner: "owns s w k now \<Longrightarrow> owns s w' k' now' \<Longrightarrow> w = w'"
    and owned_not_claimable: "owns s w k now \<Longrightarrow> \<not> claimable s now"
    and claim_step: "claim s s' \<Longrightarrow> step s s'"
    and claim_token: "claim s s' \<Longrightarrow> token s < token s'"
    and step_token: "step s s' \<Longrightarrow> token s \<le> token s'"
begin

lemma mutual_exclusion: "owns s w k now \<Longrightarrow> owns s w' k' now' \<Longrightarrow> w = w' \<and> k = k'"
  using owns_token owns_owner by blast

lemma steps_token: "step\<^sup>*\<^sup>* s s' \<Longrightarrow> token s \<le> token s'"
  by (induction rule: rtranclp_induct) (auto dest: step_token)

lemma fenced:
  assumes "step\<^sup>*\<^sup>* s s1" "claim s1 s2" "step\<^sup>*\<^sup>* s2 s3" "k \<le> token s"
  shows "\<not> owns s3 w k now"
proof
  assume "owns s3 w k now"
  then have "k = token s3" by (rule owns_token)
  moreover have "token s \<le> token s1" "token s1 < token s2" "token s2 \<le> token s3"
    using assms steps_token claim_token by auto
  ultimately show False using assms(4) by simp
qed

end

end
