(* ===== verification/Security_Delivery.thy ===== *)
theory Security_Delivery
  imports Verification Lease
begin

section \<open>Delivery of security notifications\<close>

text \<open>
  The outbox side of the verification repository: \<open>persistence/verification_delivery.go\<close> (claims with
  fenced leases, completion, failure with backoff), the older claim and completion of
  \<open>persistence/verification.go\<close>, the retry policy of \<open>domain/notification_delivery.go\<close>, the worker of
  \<open>notification/application/security_delivery_worker.go\<close> and the service of
  \<open>access/application/verification.go\<close>. The sender is an argument: whether it declares its sends
  idempotent, and what a call returned. Rows locked by other transactions (\<open>SKIP LOCKED\<close>) and the
  order of identifiers in the database are arguments of the claim.
\<close>

subsection \<open>Retry policy\<close>

abbreviation State_RetryWait :: string where "State_RetryWait \<equiv> ''RETRY_WAIT''"
abbreviation State_ManualReview :: string where "State_ManualReview \<equiv> ''MANUAL_REVIEW''"

record NotificationRetryPolicy =
  nrp_MaxAttempts :: uint32
  nrp_Backoff :: "duration list"
  nrp_LeaseDuration :: duration
  nrp_SendTimeout :: duration

definition EnterpriseNotificationRetryPolicy :: NotificationRetryPolicy where
  "EnterpriseNotificationRetryPolicy =
     \<lparr>nrp_MaxAttempts = 5, nrp_Backoff = [30 * Second, 2 * Minute, 10 * Minute, 30 * Minute], nrp_LeaseDuration = Minute, nrp_SendTimeout = 15 * Second\<rparr>"

fun backoff_valid :: "duration \<Rightarrow> duration list \<Rightarrow> bool" where
  "backoff_valid previous [] = True"
| "backoff_valid previous (delay # r) = (if delay \<le> 0 \<or> delay > 24 * Hour \<or> delay < previous then False else backoff_valid delay r)"

definition RetryPolicy_Validate :: "NotificationRetryPolicy \<Rightarrow> ver_error err" where
  "RetryPolicy_Validate pol =
     (if nrp_MaxAttempts pol < 1 \<or> nrp_MaxAttempts pol > 20 \<or> length (nrp_Backoff pol) \<noteq> unat (nrp_MaxAttempts pol - 1) then Some Ver_Invalid
      else if nrp_LeaseDuration pol < 5 * Second \<or> nrp_LeaseDuration pol > 5 * Minute \<or> nrp_SendTimeout pol < Second \<or>
              nrp_SendTimeout pol \<ge> nrp_LeaseDuration pol then Some Ver_Invalid
      else if \<not> backoff_valid 0 (nrp_Backoff pol) then Some Ver_Invalid
      else None)"

definition NextDelay :: "NotificationRetryPolicy \<Rightarrow> uint32 \<Rightarrow> duration \<times> bool" where
  "NextDelay pol attempt =
     (if RetryPolicy_Validate pol \<noteq> None \<or> attempt = 0 \<or> attempt \<ge> nrp_MaxAttempts pol then (0, False)
      else (nrp_Backoff pol ! unat (attempt - 1), True))"

record ReliableSecurityNotificationClaim =
  rsc_Claim :: SecurityNotificationClaim
  rsc_WorkerID :: string
  rsc_LeaseToken :: uint64
  rsc_LeaseUntil :: time
  rsc_RecoveredUnknownOutcome :: bool

definition ReliableClaim_Validate :: "ReliableSecurityNotificationClaim \<Rightarrow> ver_error err" where
  "ReliableClaim_Validate c =
     (if TrimSpace (snc_EventID (rsc_Claim c)) = '''' \<or> TrimSpace (rsc_WorkerID c) = '''' \<or> snc_Attempt (rsc_Claim c) = 0 \<or>
         rsc_LeaseToken c = 0 \<or> IsZero (rsc_LeaseUntil c) then Some Ver_Lease else None)"

record NotificationDeliveryAttemptResult =
  nar_EventID :: string
  nar_State :: string
  nar_FailureCode :: string
  nar_Attempt :: uint32
  nar_NextAttemptAt :: "time option"

definition empty_claim :: SecurityNotificationClaim where
  "empty_claim = \<lparr>snc_EventID = '''', snc_BusinessEventID = '''', snc_Kind = '''', snc_Purpose = '''', snc_UserID = '''', snc_TenantID = '''',
     snc_FlowID = '''', snc_Channel = '''', snc_Destination = '''', snc_Secret = '''', snc_ExpiresAt = 0, snc_Attempt = 0\<rparr>"

definition empty_reliable_claim :: ReliableSecurityNotificationClaim where
  "empty_reliable_claim = \<lparr>rsc_Claim = empty_claim, rsc_WorkerID = '''', rsc_LeaseToken = 0, rsc_LeaseUntil = 0, rsc_RecoveredUnknownOutcome = False\<rparr>"

definition empty_receipt :: NotificationDeliveryReceipt where
  "empty_receipt = \<lparr>ndr_EventID = '''', ndr_State = '''', ndr_ProviderReceipt = '''', ndr_FailureCode = '''', ndr_Attempt = 0, ndr_DeliveredAt = None\<rparr>"

definition empty_result :: NotificationDeliveryAttemptResult where
  "empty_result = \<lparr>nar_EventID = '''', nar_State = '''', nar_FailureCode = '''', nar_Attempt = 0, nar_NextAttemptAt = None\<rparr>"

subsection \<open>Columns written by each operation\<close>

type_synonym row = securityNotificationOutboxRecord

definition update_row :: "string \<Rightarrow> (row \<Rightarrow> row) \<Rightarrow> VerDB \<Rightarrow> VerDB" where
  "update_row i f db = db\<lparr>vdb_outbox := map (\<lambda>r. if ob_EventID r = i then f r else r) (vdb_outbox db)\<rparr>"

definition find_event :: "string \<Rightarrow> VerDB \<Rightarrow> row option" where
  "find_event i db = find (\<lambda>r. ob_EventID r = i) (vdb_outbox db)"

definition erased :: "row \<Rightarrow> row" where
  "erased r = r\<lparr>ob_DestinationCiphertext := '''', ob_SecretCiphertext := ''''\<rparr>"

definition lease_row :: "string \<Rightarrow> uint64 \<Rightarrow> time \<Rightarrow> uint32 \<Rightarrow> time \<Rightarrow> row \<Rightarrow> row" where
  "lease_row workerID token until attempts now r = r\<lparr>ob_State := State_Sending, ob_Attempts := attempts, ob_FailureCode := '''',
     ob_LeaseOwner := workerID, ob_LeaseToken := token, ob_LeaseUntil := Some until, ob_LastAttemptAt := Some now, ob_NextAttemptAt := None,
     ob_UpdatedAt := now\<rparr>"

definition deliver_row :: "string \<Rightarrow> time \<Rightarrow> row \<Rightarrow> row" where
  "deliver_row receipt now r = (erased r)\<lparr>ob_State := State_Delivered, ob_ProviderReceipt := receipt, ob_FailureCode := '''', ob_DeliveredAt := Some now,
     ob_LeaseOwner := '''', ob_LeaseUntil := None, ob_NextAttemptAt := None, ob_UpdatedAt := now\<rparr>"

definition retry_row :: "string \<Rightarrow> time \<Rightarrow> time \<Rightarrow> row \<Rightarrow> row" where
  "retry_row code again now r = r\<lparr>ob_State := State_RetryWait, ob_FailureCode := code, ob_LeaseOwner := '''', ob_LeaseUntil := None,
     ob_NextAttemptAt := Some again, ob_UpdatedAt := now\<rparr>"

definition final_row :: "string \<Rightarrow> time \<Rightarrow> row \<Rightarrow> row" where
  "final_row code now r = (erased r)\<lparr>ob_State := State_ManualReview, ob_FailureCode := sanitizeFailureCode code, ob_LeaseOwner := '''',
     ob_LeaseUntil := None, ob_NextAttemptAt := None, ob_UpdatedAt := now\<rparr>"

definition finalizeSecurityNotification :: "row \<Rightarrow> time \<Rightarrow> string \<Rightarrow> VerDB \<Rightarrow> NotificationDeliveryReceipt \<times> VerDB" where
  "finalizeSecurityNotification r now failureCode db =
     (notificationReceipt (r\<lparr>ob_State := State_ManualReview, ob_FailureCode := sanitizeFailureCode failureCode\<rparr>),
      update_row (ob_EventID r) (final_row failureCode now) db)"

subsection \<open>The fenced claim\<close>

definition claim_due :: "NotificationRetryPolicy \<Rightarrow> time \<Rightarrow> row \<Rightarrow> bool" where
  "claim_due pol now r \<longleftrightarrow>
     ob_State r = State_Pending \<or>
     (ob_State r = State_Failed \<or> ob_State r = State_RetryWait) \<and> (case ob_NextAttemptAt r of None \<Rightarrow> True | Some at \<Rightarrow> at \<le> now) \<or>
     ob_State r = State_Sending \<and> (case ob_LeaseUntil r of Some until \<Rightarrow> until \<le> now | None \<Rightarrow> ob_UpdatedAt r \<le> now - nrp_LeaseDuration pol)"

definition row_key :: "row \<Rightarrow> time" where
  "row_key r = (case ob_NextAttemptAt r of None \<Rightarrow> ob_CreatedAt r | Some at \<Rightarrow> at)"

fun first_row :: "(string \<Rightarrow> string \<Rightarrow> bool) \<Rightarrow> row list \<Rightarrow> row option" where
  "first_row before [] = None"
| "first_row before (r # rs) =
     (case first_row before rs of
        None \<Rightarrow> Some r
      | Some s \<Rightarrow> Some (if row_key s < row_key r \<or> row_key s = row_key r \<and> before (ob_EventID s) (ob_EventID r) then s else r))"

definition opened :: "VerEnv \<Rightarrow> row \<Rightarrow> ver_error + string \<times> string" where
  "opened env r =
     bind_result (DecryptNotification (ve_aead env) (ve_protection env) (ob_EventID r) ''destination'' (ob_DestinationCiphertext r) (ob_KeyVersion r)) (\<lambda>destination.
     bind_result (if ob_SecretCiphertext r \<noteq> '''' then
                    DecryptNotification (ve_aead env) (ve_protection env) (ob_EventID r) ''secret'' (ob_SecretCiphertext r) (ob_KeyVersion r)
                  else Inr '''') (\<lambda>secret.
     if \<not> constantVerificationEqual (ob_BindingHash r) (notificationBinding env r secret) then Inl Ver_CipherCorrupt
     else Inr (destination, secret)))"

definition claim_of :: "row \<Rightarrow> string \<Rightarrow> string \<Rightarrow> uint32 \<Rightarrow> SecurityNotificationClaim" where
  "claim_of r destination secret attempt =
     \<lparr>snc_EventID = ob_EventID r, snc_BusinessEventID = ob_BusinessEventID r, snc_Kind = ob_Kind r, snc_Purpose = ob_Purpose r, snc_UserID = ob_UserID r,
      snc_TenantID = ob_TenantID r, snc_FlowID = ob_FlowID r, snc_Channel = ob_Channel r, snc_Destination = destination, snc_Secret = secret,
      snc_ExpiresAt = ob_ExpiresAt r, snc_Attempt = attempt\<rparr>"

definition ClaimNextSecurityNotification ::
  "VerEnv \<Rightarrow> (string \<Rightarrow> string \<Rightarrow> bool) \<Rightarrow> string list \<Rightarrow> string \<Rightarrow> NotificationRetryPolicy \<Rightarrow> time \<Rightarrow> VerDB
     \<Rightarrow> ver_error + ReliableSecurityNotificationClaim \<times> NotificationDeliveryReceipt \<times> VerDB" where
  "ClaimNextSecurityNotification env before locked workerID pol now db =
     (if TrimSpace workerID = '''' \<or> length workerID > 96 \<or> RetryPolicy_Validate pol \<noteq> None then Inl Ver_NotificationUnavailable
      else case first_row before (filter (\<lambda>r. claim_due pol now r \<and> ob_EventID r \<notin> set locked) (vdb_outbox db)) of
        None \<Rightarrow> Inr (empty_reliable_claim, empty_receipt, db)
      | Some r \<Rightarrow>
        if \<not> now < ob_ExpiresAt r then
          (case finalizeSecurityNotification r now ''NOTIFICATION_EXPIRED'' db of (receipt, db') \<Rightarrow> Inr (empty_reliable_claim, receipt, db'))
        else if ob_Attempts r \<ge> nrp_MaxAttempts pol then
          (case finalizeSecurityNotification r now ''DELIVERY_RETRIES_EXHAUSTED'' db of (receipt, db') \<Rightarrow> Inr (empty_reliable_claim, receipt, db'))
        else if ob_LeaseToken r = MaxUint64 then Inl Ver_NotificationUnavailable
        else bind_result (opened env r) (\<lambda>(destination, secret).
          let attempts = ob_Attempts r + 1; until = canonicalVerificationTime (now + nrp_LeaseDuration pol); token = ob_LeaseToken r + 1 in
          Inr (\<lparr>rsc_Claim = claim_of r destination secret attempts, rsc_WorkerID = workerID, rsc_LeaseToken = token, rsc_LeaseUntil = until,
                rsc_RecoveredUnknownOutcome = (ob_State r = State_Sending)\<rparr>,
               (notificationReceipt r)\<lparr>ndr_State := State_Sending, ndr_Attempt := attempts\<rparr>,
               update_row (ob_EventID r) (lease_row workerID token until attempts now) db)))"

definition row_owned :: "row \<Rightarrow> string \<Rightarrow> uint64 \<Rightarrow> time \<Rightarrow> bool" where
  "row_owned r workerID token now \<longleftrightarrow>
     ob_State r = State_Sending \<and> ob_LeaseOwner r = workerID \<and> ob_LeaseToken r = token \<and> (case ob_LeaseUntil r of None \<Rightarrow> False | Some until \<Rightarrow> now < until)"

definition reliableLocked :: "ReliableSecurityNotificationClaim \<Rightarrow> time \<Rightarrow> VerDB \<Rightarrow> ver_error + row" where
  "reliableLocked c now db =
     (case ReliableClaim_Validate c of
        Some e \<Rightarrow> Inl e
      | None \<Rightarrow>
        case find_event (snc_EventID (rsc_Claim c)) db of
          None \<Rightarrow> Inl Ver_NotificationUnavailable
        | Some r \<Rightarrow>
          if ob_State r = State_Delivered then Inr r
          else if \<not> row_owned r (rsc_WorkerID c) (rsc_LeaseToken c) now then Inl Ver_Lease
          else Inr r)"

definition CompleteReliableSecurityNotification ::
  "ReliableSecurityNotificationClaim \<Rightarrow> string \<Rightarrow> time \<Rightarrow> VerDB \<Rightarrow> ver_error + NotificationDeliveryReceipt \<times> VerDB" where
  "CompleteReliableSecurityNotification c providerReceipt now db =
     (if TrimSpace providerReceipt = '''' \<or> length providerReceipt > 200 then Inl Ver_NotificationUnavailable
      else bind_result (reliableLocked c now db) (\<lambda>r.
        if ob_State r = State_Delivered then Inr (notificationReceipt r, db)
        else Inr (notificationReceipt (deliver_row (TrimSpace providerReceipt) now r),
                  update_row (ob_EventID r) (deliver_row (TrimSpace providerReceipt) now) db)))"

definition FailReliableSecurityNotification ::
  "ReliableSecurityNotificationClaim \<Rightarrow> string \<Rightarrow> bool \<Rightarrow> NotificationRetryPolicy \<Rightarrow> time \<Rightarrow> VerDB \<Rightarrow> ver_error + NotificationDeliveryReceipt \<times> VerDB" where
  "FailReliableSecurityNotification c failureCode retryable pol now db =
     (if RetryPolicy_Validate pol \<noteq> None then Inl Ver_NotificationUnavailable
      else bind_result (reliableLocked c now db) (\<lambda>r.
        if ob_State r = State_Delivered then Inr (notificationReceipt r, db)
        else let code = sanitizeFailureCode failureCode; (delay, hasRetry) = NextDelay pol (ob_Attempts r) in
          if retryable \<and> hasRetry \<and> now + delay < ob_ExpiresAt r then
            Inr (notificationReceipt (r\<lparr>ob_State := State_RetryWait, ob_FailureCode := code\<rparr>),
                 update_row (ob_EventID r) (retry_row code (canonicalVerificationTime (now + delay)) now) db)
          else Inr (finalizeSecurityNotification r now
            (if retryable \<and> \<not> hasRetry then ''DELIVERY_RETRIES_EXHAUSTED''
             else if retryable \<and> hasRetry \<and> \<not> now + delay < ob_ExpiresAt r then ''NOTIFICATION_EXPIRES_BEFORE_RETRY''
             else code) db)))"

subsection \<open>The older claim and completion\<close>

text \<open>
  Both return a receipt beside a refusal, and the claim erases an expired row while it refuses. The
  result is the claim (empty unless granted), the receipt and the refusal.\<close>

definition ClaimSecurityNotification ::
  "VerEnv \<Rightarrow> string \<Rightarrow> time \<Rightarrow> VerDB \<Rightarrow> (SecurityNotificationClaim \<times> NotificationDeliveryReceipt \<times> ver_error err) \<times> VerDB" where
  "ClaimSecurityNotification env eventID now db =
     (if TrimSpace eventID = '''' then ((empty_claim, empty_receipt, Some Ver_NotificationUnavailable), db)
      else case find_event (TrimSpace eventID) db of
        None \<Rightarrow> ((empty_claim, empty_receipt, Some Ver_NotificationUnavailable), db)
      | Some r \<Rightarrow>
        if ob_State r = State_Delivered then ((empty_claim, notificationReceipt r, None), db)
        else if ob_State r = State_Sending then ((empty_claim, notificationReceipt r, Some Ver_InFlight), db)
        else if ob_State r \<noteq> State_Pending \<and> ob_State r \<noteq> State_Failed then
          ((empty_claim, notificationReceipt r, Some Ver_NotificationUnavailable), db)
        else if \<not> now < ob_ExpiresAt r then
          (let expire = (\<lambda>r. (erased r)\<lparr>ob_State := State_Failed, ob_FailureCode := ''NOTIFICATION_EXPIRED'', ob_UpdatedAt := now\<rparr>) in
           ((empty_claim, notificationReceipt (expire r), Some Ver_NotificationUnavailable), update_row (ob_EventID r) expire db))
        else case opened env r of
          Inl e \<Rightarrow> ((empty_claim, empty_receipt, Some e), db)
        | Inr (destination, secret) \<Rightarrow>
          let attempts = ob_Attempts r + 1;
              sending = (\<lambda>r. r\<lparr>ob_State := State_Sending, ob_Attempts := attempts, ob_FailureCode := '''', ob_UpdatedAt := now\<rparr>)
          in ((claim_of r destination secret attempts,
               notificationReceipt (r\<lparr>ob_State := State_Sending, ob_Attempts := attempts\<rparr>), None), update_row (ob_EventID r) sending db))"

definition CompleteSecurityNotification ::
  "SecurityNotificationClaim \<Rightarrow> string \<Rightarrow> string \<Rightarrow> bool \<Rightarrow> time \<Rightarrow> VerDB \<Rightarrow> (NotificationDeliveryReceipt \<times> ver_error err) \<times> VerDB" where
  "CompleteSecurityNotification c providerReceipt failureCode delivered now db =
     (if TrimSpace (snc_EventID c) = '''' \<or> snc_Attempt c = 0 then ((empty_receipt, Some Ver_NotificationUnavailable), db)
      else case find_event (snc_EventID c) db of
        None \<Rightarrow> ((empty_receipt, Some Ver_NotificationUnavailable), db)
      | Some r \<Rightarrow>
        if ob_State r = State_Delivered then ((notificationReceipt r, None), db)
        else if ob_State r \<noteq> State_Sending \<or> ob_Attempts r \<noteq> snc_Attempt c then ((empty_receipt, Some Ver_InFlight), db)
        else
          let done = (if delivered then (\<lambda>r. (erased r)\<lparr>ob_State := State_Delivered, ob_ProviderReceipt := TrimSpace providerReceipt,
                        ob_FailureCode := '''', ob_DeliveredAt := Some now, ob_UpdatedAt := now\<rparr>)
                      else (\<lambda>r. r\<lparr>ob_State := State_Failed, ob_FailureCode := sanitizeFailureCode failureCode, ob_UpdatedAt := now\<rparr>))
          in ((notificationReceipt (done r), None), update_row (ob_EventID r) done db))"

subsection \<open>The worker\<close>

record DeliveryFailure =
  df_FailureCode :: string
  df_Retryable :: bool
  df_OutcomeKnown :: bool

text \<open>
  What a call of the sender returned: a provider receipt, or an error, which may carry a delivery
  failure and may be a deadline or a cancellation.\<close>

datatype delivery_error = DE_Repository ver_error | DE_ContextEnded | DE_Send "DeliveryFailure option" bool

datatype send_result = Sent string | Send_Error "DeliveryFailure option" bool

text \<open>The sender's declaration, \<open>None\<close> when it does not make one, and its call.\<close>

record Sender =
  snd_Idempotent :: "bool option"
  snd_Send :: "SecurityNotificationClaim \<Rightarrow> send_result"

record SecurityDeliveryWorker =
  sdw_Sender :: Sender
  sdw_Policy :: NotificationRetryPolicy
  sdw_WorkerID :: string

definition Worker_Validate :: "SecurityDeliveryWorker \<Rightarrow> ver_error err" where
  "Worker_Validate w =
     (if TrimSpace (sdw_WorkerID w) = '''' \<or> length (sdw_WorkerID w) > 96 \<or> RetryPolicy_Validate (sdw_Policy w) \<noteq> None
      then Some Ver_NotificationUnavailable else None)"

definition retry_safe :: "Sender \<Rightarrow> bool" where
  "retry_safe s \<longleftrightarrow> snd_Idempotent s = Some True"

definition classifySecurityDeliveryFailure :: "Sender \<Rightarrow> DeliveryFailure option \<Rightarrow> bool \<Rightarrow> string \<times> bool" where
  "classifySecurityDeliveryFailure s failure deadline =
     (let (code, retryable, knownOutcome) =
            (case failure of None \<Rightarrow> (''PROVIDER_FAILURE_UNCLASSIFIED'', True, False)
             | Some f \<Rightarrow> (df_FailureCode f, df_Retryable f, df_OutcomeKnown f));
          (code, retryable, knownOutcome) = (if deadline then (''DELIVERY_OUTCOME_UNKNOWN'', True, False) else (code, retryable, knownOutcome))
      in (code, if \<not> knownOutcome then retryable \<and> retry_safe s else retryable))"

text \<open>
  One round of the worker. \<open>meanwhile\<close> is what other transactions did to the tables between the claim
  and the last step, \<open>t0\<close> and \<open>t1\<close> are the clocks of the two transactions, and \<open>cancelled\<close> says that the
  context of the caller ended. A claim whose earlier outcome is unknown is given up without a send
  unless the sender is idempotent; the second part settles the claim after the call returned.\<close>

definition gives_up :: "Sender \<Rightarrow> ReliableSecurityNotificationClaim \<Rightarrow> bool" where
  "gives_up s c \<longleftrightarrow> rsc_RecoveredUnknownOutcome c \<and> \<not> retry_safe s"

definition settle ::
  "SecurityDeliveryWorker \<Rightarrow> ReliableSecurityNotificationClaim \<Rightarrow> send_result \<Rightarrow> bool \<Rightarrow> time \<Rightarrow> VerDB
     \<Rightarrow> ver_error + NotificationDeliveryReceipt option \<times> VerDB" where
  "settle w c res cancelled now db =
     (case res of
        Sent providerReceipt \<Rightarrow> bind_result (CompleteReliableSecurityNotification c providerReceipt now db) (\<lambda>(r, db'). Inr (Some r, db'))
      | Send_Error failure deadline \<Rightarrow>
        if cancelled then Inr (None, db)
        else case classifySecurityDeliveryFailure (sdw_Sender w) failure deadline of (code, retryable) \<Rightarrow>
          bind_result (FailReliableSecurityNotification c code retryable (sdw_Policy w) now db) (\<lambda>(r, db'). Inr (Some r, db')))"

definition RunOnce ::
  "VerEnv \<Rightarrow> (string \<Rightarrow> string \<Rightarrow> bool) \<Rightarrow> string list \<Rightarrow> (VerDB \<Rightarrow> VerDB) \<Rightarrow> time \<Rightarrow> time \<Rightarrow> bool \<Rightarrow> SecurityDeliveryWorker \<Rightarrow> VerDB
     \<Rightarrow> (NotificationDeliveryAttemptResult \<times> delivery_error err) \<times> VerDB" where
  "RunOnce env before locked meanwhile t0 t1 cancelled w db =
     (case Worker_Validate w of
        Some e \<Rightarrow> ((empty_result, Some (DE_Repository e)), db)
      | None \<Rightarrow>
        case ClaimNextSecurityNotification env before locked (sdw_WorkerID w) (sdw_Policy w) t0 db of
          Inl e \<Rightarrow> ((empty_result, Some (DE_Repository e)), db)
        | Inr (c, _, db1) \<Rightarrow>
          if snc_EventID (rsc_Claim c) = '''' then ((empty_result, None), db1)
          else
            let result = empty_result\<lparr>nar_EventID := snc_EventID (rsc_Claim c), nar_Attempt := snc_Attempt (rsc_Claim c)\<rparr>;
                db2 = meanwhile db1;
                outcome = (if gives_up (sdw_Sender w) c
                  then bind_result (FailReliableSecurityNotification c ''DELIVERY_OUTCOME_UNKNOWN'' False (sdw_Policy w) t1 db2) (\<lambda>(r, db'). Inr (Some r, db'))
                  else settle w c (snd_Send (sdw_Sender w) (rsc_Claim c)) cancelled t1 db2)
            in case outcome of
                 Inl e \<Rightarrow> ((result, Some (DE_Repository e)), db2)
               | Inr (None, db3) \<Rightarrow> ((result, Some DE_ContextEnded), db3)
               | Inr (Some r, db3) \<Rightarrow> ((result\<lparr>nar_State := ndr_State r, nar_FailureCode := ndr_FailureCode r\<rparr>, None), db3))"

subsection \<open>The verification service\<close>

definition SendVerificationCode ::
  "VerEnv \<Rightarrow> VerificationPolicy \<Rightarrow> Randomness \<Rightarrow> time \<Rightarrow> VerificationChallengeRequest \<Rightarrow> VerDB
     \<Rightarrow> ver_error + (VerificationChallengeReceipt \<times> NotificationDeliveryReceipt) \<times> VerDB" where
  "SendVerificationCode env pol rnd now q db =
     bind_result (CreateVerificationChallenge env pol rnd now q db) (\<lambda>(challenge, db').
       Inr ((challenge, empty_receipt\<lparr>ndr_EventID := vrc_NotificationEventID challenge, ndr_State := vrc_DeliveryState challenge\<rparr>), db'))"

definition DeliverSecurityNotification ::
  "VerEnv \<Rightarrow> Sender option \<Rightarrow> (VerDB \<Rightarrow> VerDB) \<Rightarrow> time \<Rightarrow> time \<Rightarrow> string \<Rightarrow> VerDB \<Rightarrow> (NotificationDeliveryReceipt \<times> delivery_error err) \<times> VerDB" where
  "DeliverSecurityNotification env sender meanwhile t0 t1 eventID db =
     (case ClaimSecurityNotification env eventID t0 db of
        ((c, receipt, Some e), db1) \<Rightarrow> ((receipt, Some (DE_Repository e)), db1)
      | ((c, receipt, None), db1) \<Rightarrow>
        if snc_EventID c = '''' then ((receipt, None), db1)
        else case sender of
          None \<Rightarrow>
            (case CompleteSecurityNotification c '''' ''CHANNEL_UNAVAILABLE'' False t1 (meanwhile db1) of
               ((failed, Some e), db2) \<Rightarrow> ((failed, Some (DE_Repository e)), db2)
             | ((failed, None), db2) \<Rightarrow> ((failed, Some (DE_Repository Ver_NotificationUnavailable)), db2))
        | Some s \<Rightarrow>
          case snd_Send s c of
            Send_Error failure deadline \<Rightarrow>
              (case CompleteSecurityNotification c '''' ''DELIVERY_FAILED'' False t1 (meanwhile db1) of
                 ((failed, Some e), db2) \<Rightarrow> ((failed, Some (DE_Repository e)), db2)
               | ((failed, None), db2) \<Rightarrow> ((failed, Some (DE_Send failure deadline)), db2))
          | Sent providerReceipt \<Rightarrow>
              (case CompleteSecurityNotification c providerReceipt '''' True t1 (meanwhile db1) of
                 ((receipt, e), db2) \<Rightarrow> ((receipt, map_option DE_Repository e), db2)))"

section \<open>Rows through their life\<close>

text \<open>Every change of a row by one of the operations; a settled row is never changed.\<close>

abbreviation settled_states :: "string set" where "settled_states \<equiv> {State_Delivered, State_Cancelled, State_ManualReview}"

inductive row_leased :: "row \<Rightarrow> row \<Rightarrow> bool" where
  "ob_State r \<notin> settled_states \<Longrightarrow> ob_LeaseToken r \<noteq> MaxUint64 \<Longrightarrow>
     row_leased r (lease_row worker (ob_LeaseToken r + 1) until (ob_Attempts r + 1) now r)"

inductive row_step :: "row \<Rightarrow> row \<Rightarrow> bool" where
  same: "row_step r r"
| lease: "row_leased r r' \<Longrightarrow> row_step r r'"
| deliver: "ob_State r = State_Sending \<Longrightarrow> row_step r (deliver_row receipt now r)"
| retry: "ob_State r = State_Sending \<Longrightarrow> row_step r (retry_row code again now r)"
| final: "ob_State r \<notin> settled_states \<Longrightarrow> row_step r (final_row code now r)"
| expire: "ob_State r \<notin> settled_states \<Longrightarrow>
    row_step r ((erased r)\<lparr>ob_State := State_Failed, ob_FailureCode := ''NOTIFICATION_EXPIRED'', ob_UpdatedAt := now\<rparr>)"
| send: "ob_State r \<notin> settled_states \<Longrightarrow>
    row_step r (r\<lparr>ob_State := State_Sending, ob_Attempts := ob_Attempts r + 1, ob_FailureCode := '''', ob_UpdatedAt := now\<rparr>)"
| sent: "ob_State r = State_Sending \<Longrightarrow>
    row_step r ((erased r)\<lparr>ob_State := State_Delivered, ob_ProviderReceipt := receipt, ob_FailureCode := '''', ob_DeliveredAt := Some now, ob_UpdatedAt := now\<rparr>)"
| failed: "ob_State r = State_Sending \<Longrightarrow> row_step r (r\<lparr>ob_State := State_Failed, ob_FailureCode := code, ob_UpdatedAt := now\<rparr>)"
| cancel: "ob_State r \<notin> settled_states \<Longrightarrow>
    row_step r (r\<lparr>ob_State := State_Cancelled, ob_DestinationCiphertext := '''', ob_SecretCiphertext := '''', ob_FailureCode := ''CHALLENGE_CONSUMED'', ob_UpdatedAt := now\<rparr>)"

lemmas row_defs = lease_row_def deliver_row_def retry_row_def final_row_def erased_def

lemma row_leased_token: "row_leased r r' \<Longrightarrow> ob_LeaseToken r < ob_LeaseToken r'"
  by (erule row_leased.cases) (simp add: lease_row_def word_plus_one_gt)

lemma row_step_event: "row_step r r' \<Longrightarrow> ob_EventID r' = ob_EventID r"
  by (erule row_step.cases) (auto simp: row_defs elim: row_leased.cases)

lemma row_step_token: "row_step r r' \<Longrightarrow> ob_LeaseToken r \<le> ob_LeaseToken r'"
  by (erule row_step.cases) (auto simp: row_defs dest: row_leased_token)

lemma row_step_settled: "row_step r r' \<Longrightarrow> ob_State r \<in> settled_states \<Longrightarrow> r' = r"
  by (erule row_step.cases) (auto elim: row_leased.cases)

interpretation delivery: leased ob_LeaseToken row_owned row_leased "\<lambda>r now. claim_due pol now r" row_step for pol
proof unfold_locales
  show "ob_LeaseToken s \<le> ob_LeaseToken s'" if "row_step s s'" for s s' by (rule row_step_token [OF that])
  show "ob_LeaseToken s < ob_LeaseToken s'" if "row_leased s s'" for s s' by (rule row_leased_token [OF that])
  show "row_step s s'" if "row_leased s s'" for s s' by (rule row_step.lease [OF that])
  show "\<not> claim_due pol now s" if "row_owned s w k now" for s w k now
    using that by (auto simp: row_owned_def claim_due_def split: option.splits)
qed (auto simp: row_owned_def)

section \<open>Histories of the outbox\<close>

text \<open>One transaction of any operation that writes the outbox; refused ones leave it as it is.\<close>

inductive outbox_step :: "VerEnv \<Rightarrow> VerDB \<Rightarrow> VerDB \<Rightarrow> bool" for env where
  create: "CreateVerificationChallenge env pol rnd now q db = Inr (rc, db') \<Longrightarrow> outbox_step env db db'"
| verify: "VerifyChallenge env pol raw now v db = (res, db') \<Longrightarrow> outbox_step env db db'"
| consume: "ConsumeOneTimeAuthorization env now a db = Inr (ac, db') \<Longrightarrow> outbox_step env db db'"
| enqueue: "EnqueueSecurityNotification env n1 n2 now s db = Inr (nr, db') \<Longrightarrow> outbox_step env db db'"
| claim: "ClaimNextSecurityNotification env before locked worker rp now db = Inr (c, nr, db') \<Longrightarrow> outbox_step env db db'"
| complete: "CompleteReliableSecurityNotification c receipt now db = Inr (nr, db') \<Longrightarrow> outbox_step env db db'"
| fail: "FailReliableSecurityNotification c code retryable rp now db = Inr (nr, db') \<Longrightarrow> outbox_step env db db'"
| old_claim: "ClaimSecurityNotification env i now db = (oc, db') \<Longrightarrow> outbox_step env db db'"
| old_complete: "CompleteSecurityNotification sc receipt code ok now db = (orc, db') \<Longrightarrow> outbox_step env db db'"

text \<open>What every operation does to the rows: it adds at most a pending one and changes those there are by one step each.\<close>

inductive rows_step :: "row list \<Rightarrow> row list \<Rightarrow> bool" where
  change: "(\<And>r. r \<in> set rows \<Longrightarrow> row_step r (f r)) \<Longrightarrow> rows_step rows (map f rows)"
| insert: "ob_EventID r \<notin> ob_EventID ` set rows \<Longrightarrow> ob_State r = State_Pending \<Longrightarrow> ob_LeaseToken r = 0 \<Longrightarrow> ob_Attempts r = 0 \<Longrightarrow> rows_step rows (r # rows)"

lemma rows_step_same: "rows_step rows rows"
  using rows_step.change [of rows "\<lambda>r. r"] by (simp add: row_step.same)

lemma rows_step_distinct:
  assumes "rows_step rows rows'" "distinct (map ob_EventID rows)"
  shows "distinct (map ob_EventID rows')"
  using assms
proof cases
  case (change f)
  then have "map ob_EventID rows' = map ob_EventID rows" by (auto dest: row_step_event)
  with assms(2) show ?thesis by (simp only:)
qed auto

lemma update_row_step:
  assumes "distinct (map ob_EventID (vdb_outbox db))" "r \<in> set (vdb_outbox db)" "row_step r (f r)"
  shows "rows_step (vdb_outbox db) (vdb_outbox (update_row (ob_EventID r) f db))"
proof -
  have "x = r" if "x \<in> set (vdb_outbox db)" "ob_EventID x = ob_EventID r" for x using assms(1,2) that by (auto simp: distinct_map inj_on_def)
  then have "row_step x (if ob_EventID x = ob_EventID r then f x else x)" if "x \<in> set (vdb_outbox db)" for x
    using that assms(3) by (auto simp: row_step.same)
  then show ?thesis unfolding update_row_def by (simp add: rows_step.change)
qed

lemma find_event_Some: "find_event i db = Some r \<Longrightarrow> r \<in> set (vdb_outbox db) \<and> ob_EventID r = i"
  by (auto simp: find_event_def find_Some_iff)

lemma first_row_in: "first_row before rs = Some r \<Longrightarrow> r \<in> set rs"
  by (induction rs arbitrary: r) (auto split: option.splits if_splits)

lemma claim_due_open: "claim_due pol now r \<Longrightarrow> ob_State r \<notin> settled_states"
  by (auto simp: claim_due_def)

lemma claim_cases:
  assumes "ClaimNextSecurityNotification env before locked worker pol now db = Inr (c, nr, db')"
  obtains (Nothing) "db' = db" "snc_EventID (rsc_Claim c) = ''''"
  | (Final) r code where "r \<in> set (vdb_outbox db)" "claim_due pol now r" "db' = update_row (ob_EventID r) (final_row code now) db" "snc_EventID (rsc_Claim c) = ''''"
  | (Lease) r until where "r \<in> set (vdb_outbox db)" "claim_due pol now r" "ob_Attempts r < nrp_MaxAttempts pol" "ob_LeaseToken r \<noteq> MaxUint64"
      "db' = update_row (ob_EventID r) (lease_row worker (ob_LeaseToken r + 1) until (ob_Attempts r + 1) now) db"
      "snc_EventID (rsc_Claim c) = ob_EventID r" "rsc_LeaseToken c = ob_LeaseToken r + 1" "rsc_WorkerID c = worker"
      "rsc_RecoveredUnknownOutcome c = (ob_State r = State_Sending)" "now < ob_ExpiresAt r" "snc_Attempt (rsc_Claim c) = ob_Attempts r + 1"
proof (cases "first_row before (filter (\<lambda>r. claim_due pol now r \<and> ob_EventID r \<notin> set locked) (vdb_outbox db))")
  case None
  with assms Nothing show thesis by (auto simp: ClaimNextSecurityNotification_def empty_reliable_claim_def empty_claim_def split: if_splits)
next
  case (Some r)
  then have r: "r \<in> set (vdb_outbox db)" "claim_due pol now r" by (auto dest: first_row_in)
  from assms Some have "\<exists>code. db' = update_row (ob_EventID r) (final_row code now) db \<and> snc_EventID (rsc_Claim c) = ''''"
    if "\<not> now < ob_ExpiresAt r \<or> ob_Attempts r \<ge> nrp_MaxAttempts pol"
    using that by (auto simp: ClaimNextSecurityNotification_def finalizeSecurityNotification_def empty_reliable_claim_def empty_claim_def split: if_splits)
  moreover from assms Some have "\<exists>until. thesis" if "now < ob_ExpiresAt r" "ob_Attempts r < nrp_MaxAttempts pol"
    using that r by (auto simp: ClaimNextSecurityNotification_def claim_of_def Let_def not_le split: if_splits intro!: Lease [of r])
  ultimately show thesis using Final [OF r] by (meson not_le)
qed

lemma reliable_owned:
  assumes "reliableLocked c now db = Inr r" "ob_State r \<noteq> State_Delivered"
  shows "r \<in> set (vdb_outbox db)" "ob_EventID r = snc_EventID (rsc_Claim c)" "row_owned r (rsc_WorkerID c) (rsc_LeaseToken c) now"
    "ob_State r = State_Sending"
  using assms by (auto simp: reliableLocked_def row_owned_def dest: find_event_Some split: option.splits if_splits)

lemma complete_cases:
  assumes "CompleteReliableSecurityNotification c receipt now db = Inr (nr, db')"
  obtains (Nothing) "db' = db"
  | (Deliver) r where "r \<in> set (vdb_outbox db)" "ob_EventID r = snc_EventID (rsc_Claim c)" "row_owned r (rsc_WorkerID c) (rsc_LeaseToken c) now"
      "ob_State r = State_Sending" "db' = update_row (ob_EventID r) (deliver_row (TrimSpace receipt) now) db"
proof -
  from assms obtain r where l: "reliableLocked c now db = Inr r"
    by (auto simp: CompleteReliableSecurityNotification_def split: if_splits)
  show thesis
  proof (cases "ob_State r = State_Delivered")
    case True
    with assms l Nothing show thesis by (auto simp: CompleteReliableSecurityNotification_def split: if_splits)
  next
    case False
    with assms l show thesis by (intro Deliver [OF reliable_owned [OF l False]]) (auto simp: CompleteReliableSecurityNotification_def split: if_splits)
  qed
qed

lemma fail_cases:
  assumes "FailReliableSecurityNotification c code retryable pol now db = Inr (nr, db')"
  obtains (Nothing) "db' = db"
  | (Retry) r again where "r \<in> set (vdb_outbox db)" "ob_EventID r = snc_EventID (rsc_Claim c)" "row_owned r (rsc_WorkerID c) (rsc_LeaseToken c) now"
      "ob_State r = State_Sending" "retryable" "db' = update_row (ob_EventID r) (retry_row (sanitizeFailureCode code) again now) db"
      "ob_Attempts r < nrp_MaxAttempts pol" "again < ob_ExpiresAt r"
  | (Final) r fc where "r \<in> set (vdb_outbox db)" "ob_EventID r = snc_EventID (rsc_Claim c)" "row_owned r (rsc_WorkerID c) (rsc_LeaseToken c) now"
      "ob_State r = State_Sending" "db' = update_row (ob_EventID r) (final_row fc now) db"
proof -
  from assms obtain r where l: "reliableLocked c now db = Inr r"
    by (auto simp: FailReliableSecurityNotification_def split: if_splits)
  obtain delay hasRetry where d: "NextDelay pol (ob_Attempts r) = (delay, hasRetry)" by (cases "NextDelay pol (ob_Attempts r)")
  show thesis
  proof (cases "ob_State r = State_Delivered")
    case True
    with assms l Nothing show thesis by (auto simp: FailReliableSecurityNotification_def split: if_splits)
  next
    case False
    note o = reliable_owned [OF l False]
    show thesis
    proof (cases "retryable \<and> hasRetry \<and> now + delay < ob_ExpiresAt r")
      case True
      have "canonicalVerificationTime (now + delay) < ob_ExpiresAt r" using True canonical_time_le [of "now + delay"] by linarith
      with True d assms l False show thesis
        by (intro Retry [OF o]) (auto simp: FailReliableSecurityNotification_def NextDelay_def Let_def not_le split: if_splits)
    next
      case no: False
      with d assms l False show thesis
        by (auto simp: FailReliableSecurityNotification_def finalizeSecurityNotification_def Let_def split: if_split_asm intro!: Final [OF o])
    qed
  qed
qed

text \<open>What a request does to the outbox: it adds a pending row, cancels the rows of a challenge or leaves it as it is.\<close>

definition fresh_row :: "row \<Rightarrow> row list \<Rightarrow> bool" where
  "fresh_row r rows \<longleftrightarrow> ob_EventID r \<notin> ob_EventID ` set rows \<and> ob_State r = State_Pending \<and> ob_LeaseToken r = 0 \<and> ob_Attempts r = 0"

lemma fresh_rowI:
  "\<forall>x \<in> set rows. ob_EventID x \<noteq> ob_EventID r \<Longrightarrow> ob_State r = State_Pending \<Longrightarrow> ob_LeaseToken r = 0 \<Longrightarrow> ob_Attempts r = 0 \<Longrightarrow> fresh_row r rows"
  unfolding fresh_row_def by force

inductive request_rows :: "row list \<Rightarrow> row list \<Rightarrow> bool" where
  none: "request_rows rows rows"
| add: "fresh_row r rows \<Longrightarrow> request_rows rows (r # rows)"
| cancel: "request_rows rows (map (\<lambda>r.
     if ob_ChallengeID r = i \<and> (ob_State r = State_Pending \<or> ob_State r = State_Failed)
     then r\<lparr>ob_State := State_Cancelled, ob_DestinationCiphertext := '''', ob_SecretCiphertext := '''', ob_FailureCode := ''CHALLENGE_CONSUMED'',
            ob_UpdatedAt := now\<rparr> else r) rows)"

lemma request_rows_step: "request_rows rows rows' \<Longrightarrow> rows_step rows rows'"
  by (erule request_rows.cases) (auto intro!: rows_step_same rows_step.insert rows_step.change row_step.same row_step.cancel simp: fresh_row_def)

lemma create_tx_rows:
  assumes "create_challenge_tx env pol rnd now q dh n db = Inr (rc, db')"
  shows "request_rows (vdb_outbox db) (vdb_outbox db')"
proof (cases "findChallengeByBusinessEvent db (vcr_BusinessEventID q)")
  case (Some ch)
  with assms have "db' = db" by (auto simp: create_challenge_tx_def Let_def split: if_splits)
  then show ?thesis by (simp add: request_rows.none)
next
  case None
  show ?thesis
  proof (cases "rate_limit pol now (filter (same_target (TrimSpace (vcr_UserID q)) (vcr_Purpose q) dh) (vdb_challenges db))")
    case none: None
    from assms None none obtain r where r: "vdb_outbox db' = r # vdb_outbox db" "\<forall>x \<in> set (vdb_outbox db). ob_EventID x \<noteq> ob_EventID r"
        "ob_State r = State_Pending" "ob_LeaseToken r = 0" "ob_Attempts r = 0"
      by (auto simp: create_challenge_tx_def empty_outbox_def Let_def split: if_splits)
    then show ?thesis by (simp add: request_rows.add fresh_rowI)
  qed (use assms None in \<open>auto simp: create_challenge_tx_def Let_def\<close>)
qed

lemma create_rows: "CreateVerificationChallenge env pol rnd now q db = Inr (rc, db') \<Longrightarrow> request_rows (vdb_outbox db) (vdb_outbox db')"
  by (auto simp: CreateVerificationChallenge_def split: option.splits intro: create_tx_rows)

lemma verify_rows: "VerifyChallenge env pol raw now v db = (res, db') \<Longrightarrow> request_rows (vdb_outbox db) (vdb_outbox db')"
  by (auto simp: VerifyChallenge_def verify_tx_def cancel_outbox_def Let_def split: option.splits if_splits sum.splits)
    (rule request_rows.none request_rows.cancel)+

lemma consume_tx_rows: "consume_tx h b now db = Inr (ac, db') \<Longrightarrow> vdb_outbox db' = vdb_outbox db"
  by (cases "find (\<lambda>a. ota_AuthorizationHash a = h) (vdb_auths db)") (auto simp: consume_tx_def split: if_splits)

lemma consume_rows: "ConsumeOneTimeAuthorization env now a db = Inr (ac, db') \<Longrightarrow> vdb_outbox db' = vdb_outbox db"
  by (auto simp: ConsumeOneTimeAuthorization_def split: if_splits dest: consume_tx_rows)

lemma enqueue_rows:
  assumes "EnqueueSecurityNotification env n1 n2 now s db = Inr (nr, db')"
  shows "request_rows (vdb_outbox db) (vdb_outbox db')"
proof (cases "find (\<lambda>r. ob_BusinessEventID r = TrimSpace (snr_BusinessEventID s)) (vdb_outbox db)")
  case (Some x)
  with assms have "db' = db" by (auto simp: EnqueueSecurityNotification_def Let_def split: option.splits if_splits)
  then show ?thesis by (simp add: request_rows.none)
next
  case None
  with assms obtain r where "vdb_outbox db' = r # vdb_outbox db" "\<forall>x \<in> set (vdb_outbox db). ob_EventID x \<noteq> ob_EventID r"
      "ob_State r = State_Pending" "ob_LeaseToken r = 0" "ob_Attempts r = 0"
    by (auto simp: EnqueueSecurityNotification_def empty_outbox_def Let_def split: option.splits if_splits)
  then show ?thesis by (simp add: request_rows.add fresh_rowI)
qed

lemma find_event_update: "(\<And>r. ob_EventID (f r) = ob_EventID r) \<Longrightarrow> find_event i (update_row j f db) = map_option (\<lambda>r. if i = j then f r else r) (find_event i db)"
proof -
  assume f: "\<And>r. ob_EventID (f r) = ob_EventID r"
  have "find (\<lambda>r. ob_EventID r = i) (map (\<lambda>r. if ob_EventID r = j then f r else r) rows) =
      map_option (\<lambda>r. if i = j then f r else r) (find (\<lambda>r. ob_EventID r = i) rows)" for rows
    using f by (induction rows) auto
  then show ?thesis by (simp add: find_event_def update_row_def)
qed

lemma find_key: "distinct (map k xs) \<Longrightarrow> x \<in> set xs \<Longrightarrow> find (\<lambda>y. k y = k x) xs = Some x"
  by (induction xs) force+

lemma find_event_in: "distinct (map ob_EventID (vdb_outbox db)) \<Longrightarrow> r \<in> set (vdb_outbox db) \<Longrightarrow> find_event (ob_EventID r) db = Some r"
  unfolding find_event_def by (rule find_key)

lemma old_claim_rows:
  assumes "distinct (map ob_EventID (vdb_outbox db))" "ClaimSecurityNotification env i now db = (oc, db')"
  shows "rows_step (vdb_outbox db) (vdb_outbox db')"
proof (cases "find_event (TrimSpace i) db")
  case None
  with assms(2) have "db' = db" by (auto simp: ClaimSecurityNotification_def split: if_splits)
  then show ?thesis by (simp add: rows_step_same)
next
  case (Some r)
  with find_event_Some have r: "r \<in> set (vdb_outbox db)" by blast
  from assms(2) Some show ?thesis
    by (auto simp: ClaimSecurityNotification_def Let_def split: if_split_asm sum.split_asm
        intro!: rows_step_same update_row_step [OF assms(1) r] row_step.expire row_step.send)
qed

lemma old_complete_rows:
  assumes "distinct (map ob_EventID (vdb_outbox db))" "CompleteSecurityNotification sc receipt code ok now db = (orc, db')"
  shows "rows_step (vdb_outbox db) (vdb_outbox db')"
proof (cases "find_event (snc_EventID sc) db")
  case None
  with assms(2) have "db' = db" by (auto simp: CompleteSecurityNotification_def split: if_splits)
  then show ?thesis by (simp add: rows_step_same)
next
  case (Some r)
  with find_event_Some have r: "r \<in> set (vdb_outbox db)" by blast
  from assms(2) Some show ?thesis
    by (auto simp: CompleteSecurityNotification_def Let_def split: if_split_asm
        intro!: rows_step_same update_row_step [OF assms(1) r] row_step.sent row_step.failed)
qed

lemma claim_rows:
  assumes "distinct (map ob_EventID (vdb_outbox db))" "ClaimNextSecurityNotification env before locked worker rp now db = Inr (c, nr, db')"
  shows "rows_step (vdb_outbox db) (vdb_outbox db')"
  using assms(2)
proof (cases rule: claim_cases)
  case (Final r code)
  then show ?thesis by (auto intro: update_row_step [OF assms(1)] row_step.final dest: claim_due_open)
next
  case (Lease r until)
  then have "row_leased r (lease_row worker (ob_LeaseToken r + 1) until (ob_Attempts r + 1) now r)"
    by (intro row_leased.intros claim_due_open)
  with Lease show ?thesis by (auto intro: update_row_step [OF assms(1)] row_step.lease)
qed (simp add: rows_step_same)

lemma complete_rows:
  assumes "distinct (map ob_EventID (vdb_outbox db))" "CompleteReliableSecurityNotification c receipt now db = Inr (nr, db')"
  shows "rows_step (vdb_outbox db) (vdb_outbox db')"
  using assms(2)
proof (cases rule: complete_cases)
  case (Deliver r)
  show ?thesis unfolding Deliver(5) by (rule update_row_step [OF assms(1) Deliver(1)]) (rule row_step.deliver [OF Deliver(4)])
qed (simp add: rows_step_same)

lemma fail_rows:
  assumes "distinct (map ob_EventID (vdb_outbox db))" "FailReliableSecurityNotification c code retryable rp now db = Inr (nr, db')"
  shows "rows_step (vdb_outbox db) (vdb_outbox db')"
  using assms(2)
proof (cases rule: fail_cases)
  case (Retry r again)
  show ?thesis unfolding Retry(6) by (rule update_row_step [OF assms(1) Retry(1)]) (rule row_step.retry [OF Retry(4)])
next
  case (Final r fc)
  show ?thesis unfolding Final(5) by (rule update_row_step [OF assms(1) Final(1)], rule row_step.final) (simp add: Final(4))
qed (simp add: rows_step_same)

lemma outbox_step_rows:
  assumes "distinct (map ob_EventID (vdb_outbox db))" "outbox_step env db db'"
  shows "rows_step (vdb_outbox db) (vdb_outbox db')"
  using assms(2)
  by cases (auto intro: request_rows_step create_rows verify_rows enqueue_rows claim_rows [OF assms(1)] complete_rows [OF assms(1)] fail_rows [OF assms(1)]
      old_claim_rows [OF assms(1)] old_complete_rows [OF assms(1)] simp: consume_rows rows_step_same)

definition out_reach :: "VerEnv \<Rightarrow> VerDB \<Rightarrow> bool" where
  "out_reach env db \<longleftrightarrow> (outbox_step env)\<^sup>*\<^sup>* empty_vdb db"

lemma outbox_steps_keyed:
  "(outbox_step env)\<^sup>*\<^sup>* db db' \<Longrightarrow> distinct (map ob_EventID (vdb_outbox db)) \<Longrightarrow> distinct (map ob_EventID (vdb_outbox db'))"
  by (induction rule: rtranclp_induct) (auto intro: rows_step_distinct outbox_step_rows)

lemma out_reach_keyed: "out_reach env db \<Longrightarrow> distinct (map ob_EventID (vdb_outbox db))"
  unfolding out_reach_def by (erule outbox_steps_keyed) (simp add: empty_vdb_def)

lemma find_map_key: "\<forall>r \<in> set rows. k (f r) = k r \<Longrightarrow> find (\<lambda>r. k r = i) (map f rows) = map_option f (find (\<lambda>r. k r = i) rows)"
  by (induction rows) auto

lemma rows_step_find:
  assumes "rows_step rows rows'" "find (\<lambda>r. ob_EventID r = i) rows = Some r"
  shows "\<exists>r'. find (\<lambda>r. ob_EventID r = i) rows' = Some r' \<and> row_step r r'"
  using assms
proof cases
  case (change f)
  have "find (\<lambda>r. ob_EventID r = i) (map f rows) = map_option f (find (\<lambda>r. ob_EventID r = i) rows)"
    by (rule find_map_key) (use change(2) row_step_event in blast)
  moreover have "r \<in> set rows" using assms(2) by (auto simp: find_Some_iff)
  ultimately show ?thesis using assms(2) change by auto
next
  case (insert x)
  with assms(2) have "ob_EventID x \<noteq> i" by (auto simp: find_Some_iff)
  with insert assms(2) row_step.same show ?thesis by auto
qed

lemma outbox_steps_row:
  assumes "(outbox_step env)\<^sup>*\<^sup>* db db'" "distinct (map ob_EventID (vdb_outbox db))" "find_event i db = Some r"
  shows "\<exists>r'. find_event i db' = Some r' \<and> row_step\<^sup>*\<^sup>* r r'"
  using assms
proof (induction rule: rtranclp_induct)
  case (step db1 db2)
  then obtain r1 where r1: "find_event i db1 = Some r1" "row_step\<^sup>*\<^sup>* r r1" by blast
  have "rows_step (vdb_outbox db1) (vdb_outbox db2)" using outbox_step_rows [OF outbox_steps_keyed [OF step(1,4)] step(2)] .
  from rows_step_find [OF this r1(1) [unfolded find_event_def]] r1(2) show ?case
    unfolding find_event_def by (blast intro: rtranclp.rtrancl_into_rtrancl)
qed auto

definition row_erased :: "row \<Rightarrow> bool" where
  "row_erased r \<longleftrightarrow> (ob_State r \<in> settled_states \<longrightarrow> ob_DestinationCiphertext r = '''' \<and> ob_SecretCiphertext r = '''')"

lemma row_step_erased: "row_step r r' \<Longrightarrow> row_erased r \<Longrightarrow> row_erased r'"
  by (erule row_step.cases) (auto simp: row_erased_def row_defs elim!: row_leased.cases)

lemma rows_step_erased: "rows_step rows rows' \<Longrightarrow> \<forall>r \<in> set rows. row_erased r \<Longrightarrow> \<forall>r \<in> set rows'. row_erased r"
proof (erule rows_step.cases)
  fix r rs assume "rows' = r # rs" "rows = rs" "ob_State r = State_Pending" "\<forall>r \<in> set rows. row_erased r"
  then show ?thesis by (simp add: row_erased_def)
qed (auto intro: row_step_erased)

lemma out_reach_erased: "out_reach env db \<Longrightarrow> \<forall>r \<in> set (vdb_outbox db). row_erased r"
  unfolding out_reach_def
proof (induction rule: rtranclp_induct)
  case (step db1 db2)
  have "distinct (map ob_EventID (vdb_outbox db1))" by (rule out_reach_keyed) (use step(1) in \<open>simp add: out_reach_def\<close>)
  from rows_step_erased [OF outbox_step_rows [OF this step(2)] step(3)] show ?case .
qed (simp add: empty_vdb_def)

lemma row_steps_settled: "row_step\<^sup>*\<^sup>* r r' \<Longrightarrow> ob_State r \<in> settled_states \<Longrightarrow> r' = r"
  by (induction rule: rtranclp_induct) (auto dest: row_step_settled)

text \<open>
  C22: a settled notification holds no secret and stays settled. In every history of the repository a
  row that is delivered, cancelled or handed to manual review has neither the encrypted destination
  nor the encrypted secret any more, and whatever happens later the row is never changed again, so it
  is never sent again either.\<close>

theorem notification_settled_erased:
  assumes "out_reach env db" "r \<in> set (vdb_outbox db)" "ob_State r \<in> settled_states"
  shows "ob_DestinationCiphertext r = '''' \<and> ob_SecretCiphertext r = '''' \<and>
    (\<forall>db'. (outbox_step env)\<^sup>*\<^sup>* db db' \<longrightarrow> find_event (ob_EventID r) db' = Some r)"
proof -
  note keyed = out_reach_keyed [OF assms(1)]
  have "find_event (ob_EventID r) db' = Some r" if "(outbox_step env)\<^sup>*\<^sup>* db db'" for db'
    using outbox_steps_row [OF that keyed find_event_in [OF keyed assms(2)]] row_steps_settled assms(3) by blast
  then show ?thesis using out_reach_erased [OF assms(1)] assms(2,3) by (auto simp: row_erased_def)
qed

lemma claim_lease:
  assumes "distinct (map ob_EventID (vdb_outbox db))" "ClaimNextSecurityNotification env before locked worker pol now db = Inr (c, nr, db')"
    and "snc_EventID (rsc_Claim c) \<noteq> ''''"
  obtains r r' where "find_event (snc_EventID (rsc_Claim c)) db = Some r" "find_event (snc_EventID (rsc_Claim c)) db' = Some r'" "row_leased r r'"
    "ob_LeaseToken r' = rsc_LeaseToken c"
  using assms(2)
proof (cases rule: claim_cases)
  case (Lease r until)
  let ?r = "lease_row worker (ob_LeaseToken r + 1) until (ob_Attempts r + 1) now r"
  have "find_event (ob_EventID r) db' = Some ?r"
    unfolding Lease(5) using find_event_in [OF assms(1) Lease(1)] by (subst find_event_update) (simp_all add: lease_row_def)
  moreover have "row_leased r ?r" using Lease(2,4) by (intro row_leased.intros claim_due_open)
  ultimately show thesis using find_event_in [OF assms(1) Lease(1)] Lease(6,7) by (intro that [of r ?r]) (simp_all add: lease_row_def)
qed (use assms(3) in simp_all)

lemma not_owned_no_change:
  assumes "find_event (snc_EventID (rsc_Claim c)) db = Some r" "\<And>now. \<not> row_owned r (rsc_WorkerID c) (rsc_LeaseToken c) now"
  shows "CompleteReliableSecurityNotification c receipt now db = Inr (nr, db') \<Longrightarrow> db' = db"
    "FailReliableSecurityNotification c code retryable rp now db = Inr (nr, db') \<Longrightarrow> db' = db"
proof -
  have "reliableLocked c now db \<noteq> Inr x" if "ob_State x \<noteq> State_Delivered" for x now
    using that assms by (auto simp: reliableLocked_def split: option.splits)
  then show "CompleteReliableSecurityNotification c receipt now db = Inr (nr, db') \<Longrightarrow> db' = db"
    "FailReliableSecurityNotification c code retryable rp now db = Inr (nr, db') \<Longrightarrow> db' = db"
    by (auto simp: CompleteReliableSecurityNotification_def FailReliableSecurityNotification_def Let_def split: if_splits)
qed

text \<open>
  Fencing. Once another claim was granted on the same notification, the worker of the earlier
  claim changes nothing any more, whenever it reports and whatever happened in between: its completion
  and its failure report are refused, or only repeat the receipt of a delivered row.\<close>

lemma notification_fencing:
  assumes "out_reach env db" "ClaimNextSecurityNotification env before locked worker pol now db = Inr (c, nr, db1)" "snc_EventID (rsc_Claim c) \<noteq> ''''"
    and "(outbox_step env)\<^sup>*\<^sup>* db1 db2"
    and "ClaimNextSecurityNotification env before' locked' worker' pol' now' db2 = Inr (c', nr', db3)" "snc_EventID (rsc_Claim c') = snc_EventID (rsc_Claim c)"
    and "(outbox_step env)\<^sup>*\<^sup>* db3 db4"
  shows "(CompleteReliableSecurityNotification c receipt t db4 = Inr (rc, db5) \<longrightarrow> db5 = db4) \<and>
    (FailReliableSecurityNotification c code retryable rp t db4 = Inr (rc', db6) \<longrightarrow> db6 = db4)"
proof -
  let ?i = "snc_EventID (rsc_Claim c)"
  note k0 = out_reach_keyed [OF assms(1)]
  have k1: "distinct (map ob_EventID (vdb_outbox db1))" by (rule rows_step_distinct [OF claim_rows [OF k0 assms(2)] k0])
  have k2: "distinct (map ob_EventID (vdb_outbox db2))" by (rule outbox_steps_keyed [OF assms(4) k1])
  have k3: "distinct (map ob_EventID (vdb_outbox db3))" by (rule rows_step_distinct [OF claim_rows [OF k2 assms(5)] k2])
  obtain r1 where r1: "find_event ?i db1 = Some r1" "ob_LeaseToken r1 = rsc_LeaseToken c" by (rule claim_lease [OF k0 assms(2,3)])
  obtain r2 where r2: "find_event ?i db2 = Some r2" "row_step\<^sup>*\<^sup>* r1 r2" using outbox_steps_row [OF assms(4) k1 r1(1)] by blast
  have "snc_EventID (rsc_Claim c') \<noteq> ''''" using assms(3,6) by simp
  from claim_lease [OF k2 assms(5) this] obtain r3 where r3: "find_event ?i db3 = Some r3" "row_leased r2 r3" using assms(6) r2(1) by auto
  obtain r4 where r4: "find_event ?i db4 = Some r4" "row_step\<^sup>*\<^sup>* r3 r4" using outbox_steps_row [OF assms(7) k3 r3(1)] by blast
  have "\<not> row_owned r4 (rsc_WorkerID c) (rsc_LeaseToken c) now" for now
    by (rule delivery.fenced [OF r2(2) r3(2) r4(2)]) (simp add: r1(2))
  from not_owned_no_change [OF r4(1) this] show ?thesis by blast
qed

section \<open>Nothing is sent twice\<close>

text \<open>The provider certainly did not deliver: it reported a failure with a known outcome.\<close>

fun surely_failed :: "send_result \<Rightarrow> bool" where
  "surely_failed (Sent receipt) = False"
| "surely_failed (Send_Error None deadline) = False"
| "surely_failed (Send_Error (Some f) deadline) = (df_OutcomeKnown f \<and> \<not> deadline)"

abbreviation claim_event :: "ReliableSecurityNotificationClaim \<Rightarrow> string" where "claim_event c \<equiv> snc_EventID (rsc_Claim c)"

text \<open>
  Workers that share a sender, interleaved with requests. \<open>held\<close> are the claims granted and not yet
  acted upon, \<open>sent\<close> those whose call has returned, with its result, and \<open>log\<close> lists for every call the
  notification and whether it certainly failed. A worker that stops leaves its claim where it is.\<close>

inductive worker_run ::
  "VerEnv \<Rightarrow> Sender \<Rightarrow> ReliableSecurityNotificationClaim list \<Rightarrow> (ReliableSecurityNotificationClaim \<times> send_result) list \<Rightarrow> (string \<times> bool) list \<Rightarrow> VerDB \<Rightarrow> bool"
  for env s where
  start: "worker_run env s [] [] [] empty_vdb"
| request: "worker_run env s held sent log db \<Longrightarrow> request_rows (vdb_outbox db) (vdb_outbox db') \<Longrightarrow> worker_run env s held sent log db'"
| claim: "worker_run env s held sent log db \<Longrightarrow> sdw_Sender w = s \<Longrightarrow> Worker_Validate w = None \<Longrightarrow>
     ClaimNextSecurityNotification env before locked (sdw_WorkerID w) (sdw_Policy w) now db = Inr (c, nr, db') \<Longrightarrow>
     worker_run env s (if claim_event c = '''' then held else c # held) sent log db'"
| give_up: "worker_run env s held sent log db \<Longrightarrow> c \<in> set held \<Longrightarrow> gives_up s c \<Longrightarrow>
     FailReliableSecurityNotification c ''DELIVERY_OUTCOME_UNKNOWN'' False pol now db = Inr (nr, db') \<Longrightarrow>
     worker_run env s (remove1 c held) sent log db'"
| send: "worker_run env s held sent log db \<Longrightarrow> c \<in> set held \<Longrightarrow> \<not> gives_up s c \<Longrightarrow>
     worker_run env s (remove1 c held) ((c, res) # sent) ((claim_event c, surely_failed res) # log) db"
| settle: "worker_run env s held sent log db \<Longrightarrow> (c, res) \<in> set sent \<Longrightarrow> sdw_Sender w = s \<Longrightarrow>
     settle w c res cancelled now db = Inr (nr, db') \<Longrightarrow> worker_run env s held (remove1 (c, res) sent) log db'"

text \<open>The messages that may have reached the recipient: calls that did not certainly fail, and claims that still may send.\<close>

definition risky :: "(string \<times> bool) list \<Rightarrow> string \<Rightarrow> nat" where
  "risky log i = length (filter (\<lambda>(j, failed). j = i \<and> \<not> failed) log)"

definition may_send :: "ReliableSecurityNotificationClaim list \<Rightarrow> string \<Rightarrow> nat" where
  "may_send held i = length (filter (\<lambda>c. claim_event c = i \<and> \<not> rsc_RecoveredUnknownOutcome c) held)"

definition quiet :: "VerDB \<Rightarrow> string \<Rightarrow> bool" where
  "quiet db i \<longleftrightarrow> (case find_event i db of None \<Rightarrow> True | Some r \<Rightarrow> ob_State r \<notin> insert State_Sending settled_states)"

definition worker_inv ::
  "ReliableSecurityNotificationClaim list \<Rightarrow> (ReliableSecurityNotificationClaim \<times> send_result) list \<Rightarrow> (string \<times> bool) list \<Rightarrow> VerDB \<Rightarrow> bool" where
  "worker_inv held sent log db \<longleftrightarrow>
     distinct (map ob_EventID (vdb_outbox db)) \<and>
     (\<forall>i. risky log i + may_send held i \<le> 1) \<and> (\<forall>i. quiet db i \<longrightarrow> risky log i + may_send held i = 0) \<and>
     (\<forall>c \<in> set held \<union> fst ` set sent. \<exists>r. find_event (claim_event c) db = Some r \<and> rsc_LeaseToken c \<le> ob_LeaseToken r) \<and>
     (\<forall>(c, res) \<in> set sent. surely_failed res \<longrightarrow>
        (\<forall>r. find_event (claim_event c) db = Some r \<longrightarrow> ob_State r = State_Sending \<longrightarrow> ob_LeaseToken r = rsc_LeaseToken c \<longrightarrow>
           risky log (claim_event c) + may_send held (claim_event c) = 0))"

text \<open>Changes that never open a notification again: rows are added pending, or settled, or left alone.\<close>

definition calm :: "VerDB \<Rightarrow> VerDB \<Rightarrow> bool" where
  "calm db db' \<longleftrightarrow> (\<forall>i. find_event i db' = find_event i db \<or>
     find_event i db = None \<and> (\<exists>r. find_event i db' = Some r \<and> ob_State r = State_Pending) \<or>
     (\<exists>r r'. find_event i db = Some r \<and> find_event i db' = Some r' \<and> ob_LeaseToken r \<le> ob_LeaseToken r' \<and> ob_State r' \<in> settled_states))"

lemma worker_invD:
  assumes "worker_inv held sent log db"
  shows "distinct (map ob_EventID (vdb_outbox db))" "\<And>i. risky log i + may_send held i \<le> 1" "\<And>i. quiet db i \<Longrightarrow> risky log i + may_send held i = 0"
    "\<And>c. c \<in> set held \<union> fst ` set sent \<Longrightarrow> \<exists>r. find_event (claim_event c) db = Some r \<and> rsc_LeaseToken c \<le> ob_LeaseToken r"
    "\<And>c res r. (c, res) \<in> set sent \<Longrightarrow> surely_failed res \<Longrightarrow> find_event (claim_event c) db = Some r \<Longrightarrow> ob_State r = State_Sending \<Longrightarrow>
       ob_LeaseToken r = rsc_LeaseToken c \<Longrightarrow> risky log (claim_event c) + may_send held (claim_event c) = 0"
  using assms unfolding worker_inv_def by blast+

lemma worker_inv_calm:
  assumes inv: "worker_inv held sent log db" and "calm db db'" "distinct (map ob_EventID (vdb_outbox db'))"
  shows "worker_inv held sent log db'"
proof -
  note i = worker_invD [OF inv]
  have q: "quiet db i" if "quiet db' i" for i using assms(2) that unfolding calm_def quiet_def by (auto split: option.splits dest: spec [of _ i])
  have t: "\<exists>r. find_event (claim_event c) db' = Some r \<and> rsc_LeaseToken c \<le> ob_LeaseToken r" if "c \<in> set held \<union> fst ` set sent" for c
  proof -
    from that have "\<exists>r. find_event (claim_event c) db = Some r \<and> rsc_LeaseToken c \<le> ob_LeaseToken r" by (rule i(4))
    then obtain r where r: "find_event (claim_event c) db = Some r" "rsc_LeaseToken c \<le> ob_LeaseToken r" by blast
    from assms(2) [unfolded calm_def, rule_format, of "claim_event c"] r show ?thesis by (auto intro: order_trans)
  qed
  have s: "risky log (claim_event c) + may_send held (claim_event c) = 0"
    if "(c, res) \<in> set sent" "surely_failed res" "find_event (claim_event c) db' = Some r" "ob_State r = State_Sending" "ob_LeaseToken r = rsc_LeaseToken c" for c res r
  proof -
    from assms(2) [unfolded calm_def, rule_format, of "claim_event c"] that(3,4) have "find_event (claim_event c) db = Some r" by auto
    with i(5) that show ?thesis by blast
  qed
  show ?thesis unfolding worker_inv_def using assms(3) i(2) i(3) [OF q] t s by blast
qed

lemma calm_update:
  assumes "distinct (map ob_EventID (vdb_outbox db))" "r \<in> set (vdb_outbox db)" "\<And>x. ob_EventID (f x) = ob_EventID x"
    and "ob_State (f r) \<in> settled_states" "ob_LeaseToken (f r) = ob_LeaseToken r"
  shows "calm db (update_row (ob_EventID r) f db)"
proof -
  have "find_event i (update_row (ob_EventID r) f db) = (if i = ob_EventID r then Some (f r) else find_event i db)" for i
    using find_event_in [OF assms(1,2)] find_event_update [OF assms(3)] by (auto simp: map_option_idI)
  then show ?thesis unfolding calm_def using assms(4,5) find_event_in [OF assms(1,2)] by auto
qed

lemma calm_same [simp]: "calm db db"
  by (simp add: calm_def)

lemma calm_request:
  assumes "request_rows (vdb_outbox db) (vdb_outbox db')"
  shows "calm db db'"
  using assms
proof cases
  case (add r)
  have "find_event i db = None" if "ob_EventID r = i" for i
    using that add(2) by (metis find_event_Some fresh_row_def image_eqI not_Some_eq)
  then show ?thesis using add by (auto simp: calm_def find_event_def fresh_row_def)
next
  case (cancel i now)
  let ?f = "\<lambda>r. if ob_ChallengeID r = i \<and> (ob_State r = State_Pending \<or> ob_State r = State_Failed)
     then r\<lparr>ob_State := State_Cancelled, ob_DestinationCiphertext := '''', ob_SecretCiphertext := '''', ob_FailureCode := ''CHALLENGE_CONSUMED'',
            ob_UpdatedAt := now\<rparr> else r"
  have "find_event j db' = map_option ?f (find_event j db)" for j
    unfolding find_event_def cancel by (rule find_map_key) simp
  then have "find_event j db' = find_event j db \<or> (\<exists>r. find_event j db = Some r \<and> find_event j db' = Some (?f r) \<and> ob_State (?f r) \<in> settled_states)" for j
    by (cases "find_event j db") simp_all
  moreover have "ob_LeaseToken r \<le> ob_LeaseToken (?f r)" for r by simp
  ultimately show ?thesis unfolding calm_def by blast
qed (simp add: calm_def find_event_def)

lemma calm_fail:
  assumes "distinct (map ob_EventID (vdb_outbox db))" "FailReliableSecurityNotification c code False pol now db = Inr (nr, db')"
  shows "calm db db'"
  using assms(2)
proof (cases rule: fail_cases)
  case (Final r fc)
  show ?thesis unfolding Final(5) by (rule calm_update [OF assms(1) Final(1)]) (simp_all add: final_row_def erased_def)
qed simp_all

lemma calm_complete:
  assumes "distinct (map ob_EventID (vdb_outbox db))" "CompleteReliableSecurityNotification c receipt now db = Inr (nr, db')"
  shows "calm db db'"
  using assms(2)
proof (cases rule: complete_cases)
  case (Deliver r)
  show ?thesis unfolding Deliver(5) by (rule calm_update [OF assms(1) Deliver(1)]) (simp_all add: deliver_row_def erased_def)
qed simp

lemma may_send_pos: "c \<in> set held \<Longrightarrow> \<not> rsc_RecoveredUnknownOutcome c \<Longrightarrow> 1 \<le> may_send held (claim_event c)"
  unfolding may_send_def by (induction held) auto

lemma may_send_remove: "c \<in> set held \<Longrightarrow> may_send (remove1 c held) i = may_send held i - (if claim_event c = i \<and> \<not> rsc_RecoveredUnknownOutcome c then 1 else 0)"
proof (induction held)
  case (Cons a held)
  have "1 \<le> may_send held (claim_event c)" if "c \<in> set held" "\<not> rsc_RecoveredUnknownOutcome c" using may_send_pos that by blast
  with Cons show ?case by (auto simp: may_send_def)
qed simp

lemma worker_inv_fewer:
  assumes inv: "worker_inv held sent log db" and "set held' \<subseteq> set held" "set sent' \<subseteq> set sent" "\<And>i. may_send held' i \<le> may_send held i"
  shows "worker_inv held' sent' log db"
proof -
  note i = worker_invD [OF inv]
  have "c \<in> set held \<union> fst ` set sent" if "c \<in> set held' \<union> fst ` set sent'" for c using that assms(2,3) by auto
  then have t: "\<exists>r. find_event (claim_event c) db = Some r \<and> rsc_LeaseToken c \<le> ob_LeaseToken r" if "c \<in> set held' \<union> fst ` set sent'" for c
    using that i(4) by blast
  have less: "risky log j + may_send held' j \<le> risky log j + may_send held j" for j using assms(4) by simp
  have "risky log j + may_send held' j \<le> 1" for j using less [of j] i(2) [of j] by linarith
  moreover have "risky log j + may_send held' j = 0" if "risky log j + may_send held j = 0" for j using less [of j] that by linarith
  ultimately show ?thesis unfolding worker_inv_def using i(1,3,5) t assms(3) by (auto 0 3)
qed

lemma worker_inv_send:
  assumes inv: "worker_inv held sent log db" and c: "c \<in> set held" "\<not> rsc_RecoveredUnknownOutcome c"
  shows "worker_inv (remove1 c held) ((c, res) # sent) ((claim_event c, surely_failed res) # log) db"
proof -
  note i = worker_invD [OF inv]
  let ?log = "(claim_event c, surely_failed res) # log"
  have risk: "risky ?log j + may_send (remove1 c held) j = risky log j + may_send held j - (if claim_event c = j \<and> surely_failed res then 1 else 0)" for j
    using may_send_pos [OF c] c(2) by (auto simp: may_send_remove [OF c(1)] risky_def)
  have own: "risky log (claim_event c) + may_send held (claim_event c) = 1" using i(2) [of "claim_event c"] may_send_pos [OF c] by linarith
  have bound: "risky ?log j + may_send (remove1 c held) j \<le> 1" for j using i(2) [of j] unfolding risk by linarith
  have q: "risky ?log j + may_send (remove1 c held) j = 0" if "quiet db j" for j using i(3) [OF that] unfolding risk by linarith
  have t: "\<exists>r. find_event (claim_event x) db = Some r \<and> rsc_LeaseToken x \<le> ob_LeaseToken r"
    if "x \<in> set (remove1 c held) \<union> fst ` set ((c, res) # sent)" for x
    by (rule i(4)) (use that c(1) set_remove1_subset [of c held] in auto)
  have s: "risky ?log (claim_event x) + may_send (remove1 c held) (claim_event x) = 0"
    if "(x, y) \<in> set ((c, res) # sent)" "surely_failed y" "find_event (claim_event x) db = Some r" "ob_State r = State_Sending" "ob_LeaseToken r = rsc_LeaseToken x" for x y r
  proof (cases "(x, y) = (c, res)")
    case True
    with that(2) own show ?thesis unfolding risk by simp
  next
    case False
    with that i(5) [of x y r] have "risky log (claim_event x) + may_send held (claim_event x) = 0" by auto
    then show ?thesis unfolding risk by simp
  qed
  show ?thesis unfolding worker_inv_def using i(1) bound q t s by blast
qed

lemma worker_inv_lease:
  assumes inv: "worker_inv held sent log db" and run: "ClaimNextSecurityNotification env before locked worker pol now db = Inr (c, nr, db')"
  shows "worker_inv (if claim_event c = '''' then held else c # held) sent log db'"
proof -
  note i = worker_invD [OF inv]
  have keyed: "distinct (map ob_EventID (vdb_outbox db'))" by (rule rows_step_distinct [OF claim_rows [OF i(1) run] i(1)])
  from run show ?thesis
  proof (cases rule: claim_cases)
    case Nothing
    with inv show ?thesis by simp
  next
    case (Final r code)
    have "calm db db'" unfolding Final(3) by (rule calm_update [OF i(1) Final(1)]) (simp_all add: final_row_def erased_def)
    from worker_inv_calm [OF inv this keyed] Final(4) show ?thesis by simp
  next
    case (Lease r until)
    let ?r = "lease_row worker (ob_LeaseToken r + 1) until (ob_Attempts r + 1) now r"
    have old: "find_event (ob_EventID r) db = Some r" by (rule find_event_in [OF i(1) Lease(1)])
    have find': "find_event j db' = (if j = ob_EventID r then Some ?r else find_event j db)" for j
      unfolding Lease(5) using old by (subst find_event_update) (auto simp: lease_row_def map_option_idI)
    have up: "ob_LeaseToken r < ob_LeaseToken r + 1" by (rule word_plus_one_gt [OF Lease(4)])
    have q0: "risky log (ob_EventID r) + may_send held (ob_EventID r) = 0" if "\<not> rsc_RecoveredUnknownOutcome c"
      by (rule i(3)) (use that Lease(2,9) old in \<open>auto simp: quiet_def claim_due_def\<close>)
    have risk: "risky log j + may_send (c # held) j = risky log j + may_send held j + (if j = ob_EventID r \<and> \<not> rsc_RecoveredUnknownOutcome c then 1 else 0)" for j
      using Lease(6) by (simp add: may_send_def)
    have bound: "risky log j + may_send (c # held) j \<le> 1" for j unfolding risk using i(2) [of j] q0 by auto
    have q: "risky log j + may_send (c # held) j = 0" if "quiet db' j" for j
    proof -
      from that have "j \<noteq> ob_EventID r" "quiet db j" by (auto simp: quiet_def find' lease_row_def split: if_splits)
      with i(3) risk show ?thesis by simp
    qed
    have t: "\<exists>x. find_event (claim_event d) db' = Some x \<and> rsc_LeaseToken d \<le> ob_LeaseToken x" if "d \<in> set (c # held) \<union> fst ` set sent" for d
    proof (cases "d \<in> set held \<union> fst ` set sent")
      case True
      with i(4) [OF True] old up show ?thesis by (auto simp: find' lease_row_def)
    next
      case False
      with that have "d = c" by auto
      then show ?thesis using Lease(6,7) by (simp add: find' lease_row_def)
    qed
    have s: "risky log (claim_event x) + may_send (c # held) (claim_event x) = 0"
      if "(x, y) \<in> set sent" "surely_failed y" "find_event (claim_event x) db' = Some z" "ob_State z = State_Sending" "ob_LeaseToken z = rsc_LeaseToken x" for x y z
    proof -
      have x: "x \<in> set held \<union> fst ` set sent" using that(1) by force
      then obtain z' where "find_event (claim_event x) db = Some z'" "rsc_LeaseToken x \<le> ob_LeaseToken z'" using i(4) by blast
      with that(3,5) old up have "claim_event x \<noteq> ob_EventID r" by (auto simp: find' lease_row_def split: if_splits)
      with that i(5) [of x y z] risk show ?thesis by (simp add: find')
    qed
    have "worker_inv (c # held) sent log db'" unfolding worker_inv_def using keyed bound q t s by blast
    moreover from this have "worker_inv held sent log db'" by (rule worker_inv_fewer) (auto simp: may_send_def)
    ultimately show ?thesis by simp
  qed
qed

lemma retryable_surely_failed:
  assumes "\<not> retry_safe s" "classifySecurityDeliveryFailure s failure deadline = (code, True)"
  shows "surely_failed (Send_Error failure deadline)"
  using assms by (cases failure) (auto simp: classifySecurityDeliveryFailure_def split: if_splits)

lemma worker_inv_settle:
  assumes inv: "worker_inv held sent log db" and c: "(c, res) \<in> set sent" and safe: "\<not> retry_safe (sdw_Sender w)"
    and run: "settle w c res cancelled now db = Inr (nr, db')"
  shows "worker_inv held sent log db'"
proof -
  note i = worker_invD [OF inv]
  have calm: "worker_inv held sent log db'" if "calm db db'" "rows_step (vdb_outbox db) (vdb_outbox db')"
    by (rule worker_inv_calm [OF inv that(1) rows_step_distinct [OF that(2) i(1)]])
  show ?thesis
  proof (cases res)
    case (Sent receipt)
    with run obtain x where "CompleteReliableSecurityNotification c receipt now db = Inr (x, db')" by (auto simp: settle_def)
    then show ?thesis by (intro calm calm_complete [OF i(1)] complete_rows [OF i(1)])
  next
    case (Send_Error failure deadline)
    show ?thesis
    proof (cases cancelled)
      case True
      with run Send_Error inv show ?thesis by (simp add: settle_def)
    next
      case False
      obtain code retryable where cl: "classifySecurityDeliveryFailure (sdw_Sender w) failure deadline = (code, retryable)" by fastforce
      with run Send_Error False obtain x where f: "FailReliableSecurityNotification c code retryable (sdw_Policy w) now db = Inr (x, db')"
        by (auto simp: settle_def)
      note keyed = rows_step_distinct [OF fail_rows [OF i(1) f] i(1)]
      from f show ?thesis
      proof (cases rule: fail_cases)
        case (Retry r again)
        from retryable_surely_failed [OF safe, of failure deadline code] Retry(5) cl have "surely_failed res" by (simp add: Send_Error)
        moreover have old: "find_event (ob_EventID r) db = Some r" by (rule find_event_in [OF i(1) Retry(1)])
        ultimately have zero: "risky log (ob_EventID r) + may_send held (ob_EventID r) = 0"
          using i(5) [OF c] Retry(2,3,4) by (simp add: row_owned_def)
        have find': "find_event j db' = (if j = ob_EventID r then Some (retry_row (sanitizeFailureCode code) again now r) else find_event j db)" for j
          unfolding Retry(6) using old by (subst find_event_update) (auto simp: retry_row_def map_option_idI)
        have q: "risky log j + may_send held j = 0" if "quiet db' j" for j
          using that zero i(3) [of j] by (cases "j = ob_EventID r") (auto simp: quiet_def find')
        have t: "\<exists>x. find_event (claim_event d) db' = Some x \<and> rsc_LeaseToken d \<le> ob_LeaseToken x" if "d \<in> set held \<union> fst ` set sent" for d
          using i(4) [OF that] old by (auto simp: find' retry_row_def)
        have s: "risky log (claim_event x) + may_send held (claim_event x) = 0"
          if "(x, y) \<in> set sent" "surely_failed y" "find_event (claim_event x) db' = Some z" "ob_State z = State_Sending" "ob_LeaseToken z = rsc_LeaseToken x" for x y z
          using that i(5) [of x y z] zero by (cases "claim_event x = ob_EventID r") (auto simp: find')
        show ?thesis unfolding worker_inv_def using keyed i(2) q t s by blast
      next
        case (Final r fc)
        have "calm db db'" unfolding Final(5) by (rule calm_update [OF i(1) Final(1)]) (simp_all add: final_row_def erased_def)
        then show ?thesis by (rule worker_inv_calm [OF inv _ keyed])
      qed (use inv in simp)
    qed
  qed
qed

lemma worker_run_inv:
  assumes "worker_run env s held sent log db" "\<not> retry_safe s"
  shows "worker_inv held sent log db"
  using assms(1)
proof (induction rule: worker_run.induct)
  case start
  show ?case by (simp add: worker_inv_def risky_def may_send_def empty_vdb_def)
next
  case (request held sent log db db')
  show ?case
    by (rule worker_inv_calm [OF request(3) calm_request [OF request(2)] rows_step_distinct [OF request_rows_step [OF request(2)] worker_invD(1) [OF request(3)]]])
next
  case (claim held sent log db w before locked now c nr db')
  then show ?case by - (rule worker_inv_lease)
next
  case (give_up held sent log db c pol now nr db')
  have "worker_inv held sent log db'"
    by (rule worker_inv_calm [OF give_up.IH calm_fail [OF worker_invD(1) [OF give_up.IH] give_up(4)]
        rows_step_distinct [OF fail_rows [OF worker_invD(1) [OF give_up.IH] give_up(4)] worker_invD(1) [OF give_up.IH]]])
  then show ?case by (rule worker_inv_fewer) (use give_up(2) set_remove1_subset [of c held] in \<open>auto simp: may_send_remove\<close>)
next
  case (send held sent log db c res)
  then show ?case using assms(2) by (intro worker_inv_send) (auto simp: gives_up_def)
next
  case (settle held sent log db c res w cancelled now nr db')
  have "worker_inv held sent log db'" by (rule worker_inv_settle [OF settle.IH settle(2) _ settle(4)]) (simp add: settle(3) assms(2))
  then show ?case by (rule worker_inv_fewer) (use set_remove1_subset [of "(c, res)" sent] in auto)
qed


text \<open>How often a notification was claimed or sent, by the attempts its row has counted.\<close>

definition calls :: "(string \<times> bool) list \<Rightarrow> string \<Rightarrow> nat" where
  "calls log i = length (filter (\<lambda>(j, failed). j = i) log)"

definition held_for :: "ReliableSecurityNotificationClaim list \<Rightarrow> string \<Rightarrow> nat" where
  "held_for held i = length (filter (\<lambda>c. claim_event c = i) held)"

definition attempts_of :: "VerDB \<Rightarrow> string \<Rightarrow> nat" where
  "attempts_of db i = (case find_event i db of None \<Rightarrow> 0 | Some r \<Rightarrow> unat (ob_Attempts r))"

definition calls_inv :: "ReliableSecurityNotificationClaim list \<Rightarrow> (string \<times> bool) list \<Rightarrow> VerDB \<Rightarrow> bool" where
  "calls_inv held log db \<longleftrightarrow> distinct (map ob_EventID (vdb_outbox db)) \<and> (\<forall>i. calls log i + held_for held i \<le> attempts_of db i \<and> attempts_of db i \<le> 20)"

lemma attempts_of_update:
  assumes "\<And>x. ob_EventID (f x) = ob_EventID x" "\<And>x. ob_Attempts (f x) = ob_Attempts x"
  shows "attempts_of (update_row j f db) i = attempts_of db i"
  using find_event_update [OF assms(1), of i j db] assms(2) by (auto simp: attempts_of_def split: option.splits)

lemma attempts_of_request:
  assumes "request_rows (vdb_outbox db) (vdb_outbox db')"
  shows "attempts_of db' i = attempts_of db i"
  using assms
proof cases
  case (add r)
  have "find_event i db = None" if "ob_EventID r = i"
    using that add(2) by (metis find_event_Some fresh_row_def image_eqI not_Some_eq)
  with add show ?thesis by (auto simp: attempts_of_def find_event_def fresh_row_def)
next
  case (cancel j now)
  have "find_event i db' = map_option (\<lambda>r. if ob_ChallengeID r = j \<and> (ob_State r = State_Pending \<or> ob_State r = State_Failed)
     then r\<lparr>ob_State := State_Cancelled, ob_DestinationCiphertext := '''', ob_SecretCiphertext := '''', ob_FailureCode := ''CHALLENGE_CONSUMED'',
            ob_UpdatedAt := now\<rparr> else r) (find_event i db)"
    unfolding find_event_def cancel by (rule find_map_key) simp
  then show ?thesis by (auto simp: attempts_of_def split: option.splits)
qed (simp add: attempts_of_def find_event_def)

lemma attempts_of_fail: "FailReliableSecurityNotification c code retryable pol now db = Inr (nr, db') \<Longrightarrow> attempts_of db' i = attempts_of db i"
  by (erule fail_cases) (simp_all add: attempts_of_update retry_row_def final_row_def erased_def)

lemma attempts_of_complete: "CompleteReliableSecurityNotification c receipt now db = Inr (nr, db') \<Longrightarrow> attempts_of db' i = attempts_of db i"
  by (erule complete_cases) (simp_all add: attempts_of_update deliver_row_def erased_def)

lemma settle_rows:
  assumes "distinct (map ob_EventID (vdb_outbox db))" "settle w c res cancelled now db = Inr (nr, db')"
  shows "rows_step (vdb_outbox db) (vdb_outbox db') \<and> attempts_of db' i = attempts_of db i"
  using assms(2)
  by (auto simp: settle_def rows_step_same split: send_result.splits if_splits prod.splits
      dest: complete_rows [OF assms(1)] fail_rows [OF assms(1)] attempts_of_fail attempts_of_complete)

lemma calls_inv_keep:
  assumes "calls_inv held log db" "rows_step (vdb_outbox db) (vdb_outbox db')" "\<And>i. attempts_of db' i = attempts_of db i"
  shows "calls_inv held log db'"
  using assms rows_step_distinct [OF assms(2)] by (simp add: calls_inv_def)

lemma held_for_remove: "c \<in> set held \<Longrightarrow> held_for (remove1 c held) i + (if claim_event c = i then 1 else 0) = held_for held i"
  unfolding held_for_def by (induction held) auto

lemma calls_inv_claim:
  assumes inv: "calls_inv held log db" and run: "ClaimNextSecurityNotification env before locked worker pol now db = Inr (c, nr, db')"
  shows "calls_inv (if claim_event c = '''' then held else c # held) log db'"
proof -
  have keyed: "distinct (map ob_EventID (vdb_outbox db))" using inv by (simp add: calls_inv_def)
  note rows = claim_rows [OF keyed run]
  from run show ?thesis
  proof (cases rule: claim_cases)
    case Nothing
    with inv show ?thesis by simp
  next
    case (Final r code)
    have "attempts_of db' i = attempts_of db i" for i unfolding Final(3) by (rule attempts_of_update) (simp_all add: final_row_def erased_def)
    with calls_inv_keep [OF inv rows] Final(4) show ?thesis by simp
  next
    case (Lease r until)
    have valid: "RetryPolicy_Validate pol = None" using run by (auto simp: ClaimNextSecurityNotification_def split: if_splits)
    then have max: "unat (nrp_MaxAttempts pol) \<le> 20" by (auto simp: RetryPolicy_Validate_def word_less_nat_alt split: if_splits)
    have inc: "unat (ob_Attempts r + 1) = Suc (unat (ob_Attempts r))" "unat (ob_Attempts r) < unat (nrp_MaxAttempts pol)"
      using unat_inc_below [OF Lease(3)] Lease(3) by (simp_all add: word_less_nat_alt)
    have old: "find_event (ob_EventID r) db = Some r" by (rule find_event_in [OF keyed Lease(1)])
    have att: "attempts_of db' i = attempts_of db i + (if i = ob_EventID r then 1 else 0)" for i
      unfolding Lease(5) attempts_of_def using old inc(1) by (subst find_event_update) (auto simp: lease_row_def split: option.splits)
    have own: "attempts_of db (ob_EventID r) < 20" using old inc(2) max by (simp add: attempts_of_def)
    have b: "calls log i + held_for held i \<le> attempts_of db i \<and> attempts_of db i \<le> 20" for i using inv by (simp add: calls_inv_def)
    have "calls log i + held_for (c # held) i \<le> attempts_of db' i \<and> attempts_of db' i \<le> 20" for i
      using b [of i] own Lease(6) att [of i] by (auto simp: held_for_def)
    moreover have "held_for held i \<le> held_for (c # held) i" for i by (simp add: held_for_def)
    ultimately show ?thesis using rows_step_distinct [OF rows keyed] by (auto simp: calls_inv_def intro: order_trans [OF add_left_mono])
  qed
qed

lemma worker_run_calls: "worker_run env s held sent log db \<Longrightarrow> calls_inv held log db"
proof (induction rule: worker_run.induct)
  case start
  show ?case by (simp add: calls_inv_def calls_def held_for_def attempts_of_def empty_vdb_def find_event_def)
next
  case (request held sent log db db')
  then show ?case by (intro calls_inv_keep [OF request(3)] request_rows_step attempts_of_request)
next
  case (claim held sent log db w before locked now c nr db')
  then show ?case by - (rule calls_inv_claim)
next
  case (give_up held sent log db c pol now nr db')
  have "distinct (map ob_EventID (vdb_outbox db))" using give_up.IH by (simp add: calls_inv_def)
  then have "calls_inv held log db'" using calls_inv_keep [OF give_up.IH fail_rows] give_up(4) attempts_of_fail by blast
  then show ?case using held_for_remove [OF give_up(2)] unfolding calls_inv_def by (metis add_le_mono le_add1 le_trans order_refl)
next
  case (send held sent log db c res)
  have "calls ((claim_event c, surely_failed res) # log) i + held_for (remove1 c held) i = calls log i + held_for held i" for i
    using held_for_remove [OF send(2), of i] by (auto simp: calls_def)
  with send.IH show ?case by (simp add: calls_inv_def)
next
  case (settle held sent log db c res w cancelled now nr db')
  have "distinct (map ob_EventID (vdb_outbox db))" using settle.IH by (simp add: calls_inv_def)
  from settle_rows [OF this settle(4)] show ?case by (intro calls_inv_keep [OF settle.IH]) auto
qed

text \<open>
  Delivery ends. Whatever the sender declares and however the workers interleave, a notification
  is handed to the sender at most as often as its row counts attempts, and at most twenty times, the
  largest number of attempts a valid policy allows.\<close>

lemma notification_calls_bounded:
  assumes "worker_run env s held sent log db"
  shows "calls log i \<le> attempts_of db i \<and> attempts_of db i \<le> 20"
  using worker_run_calls [OF assms] by (auto simp: calls_inv_def dest: spec [of _ i])

section \<open>Progress of a worker\<close>

lemma claim_succeeds:
  assumes "TrimSpace worker \<noteq> ''''" "length worker \<le> 96" "RetryPolicy_Validate pol = None"
    and "first_row before (filter (\<lambda>r. claim_due pol now r \<and> ob_EventID r \<notin> set locked) (vdb_outbox db)) = Some r"
    and "now < ob_ExpiresAt r" "ob_Attempts r < nrp_MaxAttempts pol" "ob_LeaseToken r \<noteq> MaxUint64" "opened env r = Inr (destination, secret)"
  shows "ClaimNextSecurityNotification env before locked worker pol now db =
    Inr (\<lparr>rsc_Claim = claim_of r destination secret (ob_Attempts r + 1), rsc_WorkerID = worker, rsc_LeaseToken = ob_LeaseToken r + 1,
           rsc_LeaseUntil = canonicalVerificationTime (now + nrp_LeaseDuration pol), rsc_RecoveredUnknownOutcome = (ob_State r = State_Sending)\<rparr>,
         (notificationReceipt r)\<lparr>ndr_State := State_Sending, ndr_Attempt := ob_Attempts r + 1\<rparr>,
         update_row (ob_EventID r) (lease_row worker (ob_LeaseToken r + 1) (canonicalVerificationTime (now + nrp_LeaseDuration pol)) (ob_Attempts r + 1) now) db)"
  using assms by (auto simp: ClaimNextSecurityNotification_def Let_def bind_result_def)

text \<open>
  What else may happen to the tables while a worker holds the lease of the notification \<open>e\<close>, with the token
  \<open>token\<close> and until \<open>until\<close>: any request, a claim of any worker whose clock is before the end of the lease, and
  any settlement of another claim, one of the same notification with another token included; the older claim of one
  notification, and the older completion of another notification. Only the older completion of the same notification,
  which compares attempts and not tokens, is not among them.\<close>

inductive beside :: "VerEnv \<Rightarrow> string \<Rightarrow> uint64 \<Rightarrow> time \<Rightarrow> VerDB \<Rightarrow> VerDB \<Rightarrow> bool" for env e token until where
  request: "request_rows (vdb_outbox db) (vdb_outbox db') \<Longrightarrow> beside env e token until db db'"
| claim: "ClaimNextSecurityNotification env before locked worker pol now db = Inr (c, nr, db') \<Longrightarrow> now < until \<Longrightarrow> beside env e token until db db'"
| complete: "CompleteReliableSecurityNotification c receipt now db = Inr (nr, db') \<Longrightarrow> (claim_event c, rsc_LeaseToken c) \<noteq> (e, token) \<Longrightarrow>
     beside env e token until db db'"
| fail: "FailReliableSecurityNotification c code retryable pol now db = Inr (nr, db') \<Longrightarrow> (claim_event c, rsc_LeaseToken c) \<noteq> (e, token) \<Longrightarrow>
     beside env e token until db db'"
| old_claim: "ClaimSecurityNotification env i now db = (oc, db') \<Longrightarrow> beside env e token until db db'"
| old_complete: "CompleteSecurityNotification sc receipt code ok now db = (orc, db') \<Longrightarrow> snc_EventID sc \<noteq> e \<Longrightarrow> beside env e token until db db'"

definition lease_held :: "string \<Rightarrow> uint64 \<Rightarrow> time \<Rightarrow> row \<Rightarrow> VerDB \<Rightarrow> bool" where
  "lease_held e token until r db \<longleftrightarrow> distinct (map ob_EventID (vdb_outbox db)) \<and> find_event e db = Some r \<and>
     ob_State r = State_Sending \<and> ob_LeaseToken r = token \<and> ob_LeaseUntil r = Some until"

lemma lease_held_row: "lease_held e token until r db \<Longrightarrow> x \<in> set (vdb_outbox db) \<Longrightarrow> ob_EventID x = e \<Longrightarrow> x = r"
  using find_event_in [of db x] by (auto simp: lease_held_def)

lemma lease_held_update:
  assumes "lease_held e token until r db" "x \<in> set (vdb_outbox db)" "x \<noteq> r" "\<And>y. ob_EventID (f y) = ob_EventID y"
  shows "find_event e (update_row (ob_EventID x) f db) = Some r"
proof -
  have "ob_EventID x \<noteq> e" using lease_held_row [OF assms(1,2)] assms(3) by blast
  then show ?thesis using assms(1) by (simp add: find_event_update [OF assms(4)] lease_held_def)
qed

lemma lease_held_request:
  assumes "lease_held e token until r db" "request_rows (vdb_outbox db) (vdb_outbox db')"
  shows "find_event e db' = Some r"
  using assms(2)
proof cases
  case (add x)
  have "r \<in> set (vdb_outbox db)" "ob_EventID r = e" using assms(1) find_event_Some by (auto simp: lease_held_def)
  then have "ob_EventID x \<noteq> e" using add(2) by (auto simp: fresh_row_def)
  then show ?thesis using assms(1) add(1) by (simp add: lease_held_def find_event_def)
next
  case (cancel j now)
  show ?thesis using assms(1) unfolding find_event_def cancel lease_held_def by (subst find_map_key) auto
qed (use assms(1) in \<open>simp add: lease_held_def find_event_def\<close>)

lemma lease_held_old_claim:
  assumes "lease_held e token until r db" "ClaimSecurityNotification env i now db = (oc, db')"
  shows "find_event e db' = Some r"
proof (cases "TrimSpace i = e")
  case True
  then show ?thesis using assms by (auto simp: ClaimSecurityNotification_def lease_held_def split: if_split_asm)
next
  case False
  have keep: "find_event e (update_row (ob_EventID x) f db) = Some r" if "find_event (TrimSpace i) db = Some x" "\<And>y. ob_EventID (f y) = ob_EventID y" for x f
    using that(1) assms(1) False find_event_Some [OF that(1)] by (simp add: find_event_update [OF that(2)] lease_held_def)
  show ?thesis
  proof (cases "find_event (TrimSpace i) db")
    case None
    then show ?thesis using assms by (auto simp: ClaimSecurityNotification_def lease_held_def split: if_split_asm)
  next
    case (Some x)
    then show ?thesis using assms keep [OF Some]
      by (auto simp: ClaimSecurityNotification_def lease_held_def Let_def erased_def split: if_split_asm sum.split_asm prod.split_asm)
  qed
qed

lemma lease_held_old_complete:
  assumes "lease_held e token until r db" "CompleteSecurityNotification sc receipt code ok now db = (orc, db')" "snc_EventID sc \<noteq> e"
  shows "find_event e db' = Some r"
proof (cases "find_event (snc_EventID sc) db")
  case None
  then show ?thesis using assms by (auto simp: CompleteSecurityNotification_def lease_held_def split: if_split_asm)
next
  case (Some x)
  have keep: "find_event e (update_row (ob_EventID x) f db) = Some r" if "\<And>y. ob_EventID (f y) = ob_EventID y" for f
    using assms(1,3) find_event_Some [OF Some] by (simp add: find_event_update [OF that] lease_held_def)
  show ?thesis using assms Some keep
    by (auto simp: CompleteSecurityNotification_def lease_held_def Let_def erased_def split: if_split_asm)
qed

lemma beside_keeps_lease:
  assumes "beside env e token until db db'" "lease_held e token until r db"
  shows "lease_held e token until r db'"
proof -
  note keyed = assms(2) [unfolded lease_held_def, THEN conjunct1]
  have "rows_step (vdb_outbox db) (vdb_outbox db') \<and> find_event e db' = Some r" using assms(1)
  proof cases
    case request
    then show ?thesis using request_rows_step lease_held_request [OF assms(2)] by blast
  next
    case (claim before locked worker pol now c nr)
    have due: "x \<noteq> r" if "claim_due pol now x" for x
      using that assms(2) claim(2) by (auto simp: claim_due_def lease_held_def)
    from claim(1) have "find_event e db' = Some r"
    proof (cases rule: claim_cases)
      case Nothing
      then show ?thesis using assms(2) by (simp add: lease_held_def)
    next
      case (Final x code)
      then show ?thesis using lease_held_update [OF assms(2) Final(1) due] by (simp add: final_row_def erased_def)
    next
      case (Lease x until')
      then show ?thesis using lease_held_update [OF assms(2) Lease(1) due] by (simp add: lease_row_def)
    qed
    then show ?thesis using claim_rows [OF keyed claim(1)] by blast
  next
    case (complete c receipt now nr)
    have other: "x \<noteq> r" if "ob_EventID x = claim_event c" "row_owned x (rsc_WorkerID c) (rsc_LeaseToken c) now" for x
      using that complete(2) assms(2) find_event_Some by (auto simp: row_owned_def lease_held_def)
    from complete(1) have "find_event e db' = Some r"
    proof (cases rule: complete_cases)
      case Nothing
      then show ?thesis using assms(2) by (simp add: lease_held_def)
    next
      case (Deliver x)
      then show ?thesis using lease_held_update [OF assms(2) Deliver(1) other] by (simp add: deliver_row_def erased_def)
    qed
    then show ?thesis using complete_rows [OF keyed complete(1)] by blast
  next
    case (fail c code retryable pol now nr)
    have other: "x \<noteq> r" if "ob_EventID x = claim_event c" "row_owned x (rsc_WorkerID c) (rsc_LeaseToken c) now" for x
      using that fail(2) assms(2) find_event_Some by (auto simp: row_owned_def lease_held_def)
    from fail(1) have "find_event e db' = Some r"
    proof (cases rule: fail_cases)
      case Nothing
      then show ?thesis using assms(2) by (simp add: lease_held_def)
    next
      case (Retry x again)
      then show ?thesis using lease_held_update [OF assms(2) Retry(1) other] by (simp add: retry_row_def)
    next
      case (Final x fc)
      then show ?thesis using lease_held_update [OF assms(2) Final(1) other] by (simp add: final_row_def erased_def)
    qed
    then show ?thesis using fail_rows [OF keyed fail(1)] by blast
  next
    case (old_claim i now oc)
    then show ?thesis using old_claim_rows [OF keyed] lease_held_old_claim [OF assms(2)] by blast
  next
    case (old_complete sc receipt code ok now orc)
    then show ?thesis using old_complete_rows [OF keyed] lease_held_old_complete [OF assms(2)] by blast
  qed
  then show ?thesis using assms(2) rows_step_distinct [OF _ keyed] by (simp add: lease_held_def)
qed

lemma besides_keep_lease: "(beside env e token until)\<^sup>*\<^sup>* db db' \<Longrightarrow> lease_held e token until r db \<Longrightarrow> lease_held e token until r db'"
  by (induction rule: rtranclp_induct) (auto intro: beside_keeps_lease)

text \<open>
  C23: a row is delivered by one round of a worker when all of the following hold. The worker is valid and the
  identifiers of the outbox are distinct. The row is the first of those that are due and not locked. At the claim it has not
  expired, has attempts left under the policy, its lease token is not the largest, its identifier is not blank, and its
  destination and secret can be opened. If it was left sending by a worker whose lease has ended, the
  sender declares its sends idempotent (otherwise the worker gives it up without a send). The sender answers with a receipt
  that is not blank and has at most 200 bytes, and the worker settles before its lease ends. In between, other
  requests and workers may do whatever \<open>beside\<close> allows. Then the sender has received the destination and the
  secret of the row, and the row ends delivered, with the receipt and without them.\<close>

theorem worker_delivers:
  assumes "Worker_Validate w = None" "distinct (map ob_EventID (vdb_outbox db))"
    and next_row: "first_row before (filter (\<lambda>r. claim_due (sdw_Policy w) t0 r \<and> ob_EventID r \<notin> set locked) (vdb_outbox db)) = Some r"
    and row: "ob_State r = State_Sending \<Longrightarrow> retry_safe (sdw_Sender w)" "t0 < ob_ExpiresAt r" "ob_Attempts r < nrp_MaxAttempts (sdw_Policy w)" "ob_LeaseToken r \<noteq> MaxUint64"
      "opened env r = Inr (destination, secret)" "TrimSpace (ob_EventID r) \<noteq> ''''"
    and sent: "snd_Send (sdw_Sender w) (claim_of r destination secret (ob_Attempts r + 1)) = Sent receipt" "TrimSpace receipt \<noteq> ''''" "length receipt \<le> 200"
    and "0 \<le> t1" "t1 < canonicalVerificationTime (t0 + nrp_LeaseDuration (sdw_Policy w))"
    and others: "\<And>d. (beside env (ob_EventID r) (ob_LeaseToken r + 1) (canonicalVerificationTime (t0 + nrp_LeaseDuration (sdw_Policy w))))\<^sup>*\<^sup>* d (meanwhile d)"
  shows "\<exists>result db' r'. RunOnce env before locked meanwhile t0 t1 cancelled w db = ((result, None), db') \<and> nar_EventID result = ob_EventID r \<and>
    nar_State result = State_Delivered \<and> find_event (ob_EventID r) db' = Some r' \<and> ob_State r' = State_Delivered \<and> ob_ProviderReceipt r' = TrimSpace receipt \<and>
    ob_DestinationCiphertext r' = '''' \<and> ob_SecretCiphertext r' = ''''"
proof -
  let ?until = "canonicalVerificationTime (t0 + nrp_LeaseDuration (sdw_Policy w))"
  let ?lease = "lease_row (sdw_WorkerID w) (ob_LeaseToken r + 1) ?until (ob_Attempts r + 1) t0"
  let ?c = "\<lparr>rsc_Claim = claim_of r destination secret (ob_Attempts r + 1), rsc_WorkerID = sdw_WorkerID w, rsc_LeaseToken = ob_LeaseToken r + 1,
           rsc_LeaseUntil = ?until, rsc_RecoveredUnknownOutcome = (ob_State r = State_Sending)\<rparr>"
  let ?db1 = "update_row (ob_EventID r) ?lease db" let ?db2 = "meanwhile ?db1"
  have w: "TrimSpace (sdw_WorkerID w) \<noteq> ''''" "length (sdw_WorkerID w) \<le> 96" "RetryPolicy_Validate (sdw_Policy w) = None"
    using assms(1) by (auto simp: Worker_Validate_def split: if_splits)
  note claim = claim_succeeds [OF w next_row row(2-5)]
  have r: "r \<in> set (vdb_outbox db)" using first_row_in [OF next_row] by auto
  have "find_event (ob_EventID r) ?db1 = Some (?lease r)"
    using find_event_in [OF assms(2) r] by (subst find_event_update) (simp_all add: lease_row_def)
  moreover have "distinct (map ob_EventID (vdb_outbox ?db1))" using rows_step_distinct [OF claim_rows [OF assms(2) claim] assms(2)] .
  ultimately have "lease_held (ob_EventID r) (ob_LeaseToken r + 1) ?until (?lease r) ?db1" by (simp add: lease_held_def lease_row_def)
  then have one: "find_event (ob_EventID r) ?db2 = Some (?lease r)" using besides_keep_lease [OF others] by (simp add: lease_held_def)
  have nz: "ob_LeaseToken r + 1 \<noteq> 0" "ob_Attempts r + 1 \<noteq> 0"
    using word_plus_one_nonzero [OF row(4)] unat_inc_below [OF row(3)] by auto
  then have "ReliableClaim_Validate ?c = None" using row(6) w(1) assms(13,14) by (auto simp: ReliableClaim_Validate_def claim_of_def IsZero_def)
  then have "reliableLocked ?c t1 ?db2 = Inr (?lease r)"
    using one assms(14) by (simp add: reliableLocked_def claim_of_def row_owned_def lease_row_def)
  then have fin: "CompleteReliableSecurityNotification ?c receipt t1 ?db2 =
      Inr (notificationReceipt (deliver_row (TrimSpace receipt) t1 (?lease r)), update_row (ob_EventID r) (deliver_row (TrimSpace receipt) t1) ?db2)"
    using sent(2,3) by (simp add: CompleteReliableSecurityNotification_def lease_row_def)
  have two: "find_event (ob_EventID r) (update_row (ob_EventID r) (deliver_row (TrimSpace receipt) t1) ?db2) = Some (deliver_row (TrimSpace receipt) t1 (?lease r))"
    using one by (subst find_event_update) (simp_all add: deliver_row_def erased_def)
  have "ob_EventID r \<noteq> ''''" using row(6) by auto
  moreover have "\<not> gives_up (sdw_Sender w) ?c" using row(1) by (auto simp: gives_up_def)
  ultimately have "RunOnce env before locked meanwhile t0 t1 cancelled w db =
      ((empty_result\<lparr>nar_EventID := ob_EventID r, nar_Attempt := ob_Attempts r + 1, nar_State := State_Delivered, nar_FailureCode := ''''\<rparr>, None),
        update_row (ob_EventID r) (deliver_row (TrimSpace receipt) t1) ?db2)"
    using assms(1) claim sent(1) fin
    by (simp add: RunOnce_def settle_def claim_of_def notificationReceipt_def deliver_row_def bind_result_def Let_def)
  with two show ?thesis by (auto simp: deliver_row_def erased_def empty_result_def)
qed

text \<open>
  A row that cannot be opened blocks the queue. When the first row in line has a field that does
  not decrypt (its key version was removed, for instance), the claim fails and changes nothing, so the
  row stays first and no later row is claimed until it expires.\<close>

lemma unreadable_row_blocks:
  assumes "TrimSpace worker \<noteq> ''''" "length worker \<le> 96" "RetryPolicy_Validate pol = None"
    and "first_row before (filter (\<lambda>r. claim_due pol now r \<and> ob_EventID r \<notin> set locked) (vdb_outbox db)) = Some r"
    and "now < ob_ExpiresAt r" "ob_Attempts r < nrp_MaxAttempts pol" "ob_LeaseToken r \<noteq> MaxUint64" "opened env r = Inl e"
  shows "ClaimNextSecurityNotification env before locked worker pol now db = Inl e"
  using assms by (auto simp: ClaimNextSecurityNotification_def bind_result_def)

text \<open>Consuming a challenge cancels only pending and failed rows: a row that waits for its next attempt keeps its code and stays due.\<close>

lemma cancel_keeps_retry_wait:
  "r \<in> set (vdb_outbox db) \<Longrightarrow> ob_State r = State_RetryWait \<Longrightarrow> r \<in> set (vdb_outbox (cancel_outbox i now db))"
  by (force simp: cancel_outbox_def)

section \<open>Example deliveries\<close>

definition ex_alert :: SecurityNotificationRequest where
  "ex_alert = (ex_notice ''ada'' ''ada@example.org'')\<lparr>snr_ExpiresAt := Hour\<rparr>"

definition ex_sender :: Sender where
  "ex_sender = \<lparr>snd_Idempotent = None, snd_Send = (\<lambda>c. Sent ''msg-1'')\<rparr>"

definition ex_worker :: SecurityDeliveryWorker where
  "ex_worker = \<lparr>sdw_Sender = ex_sender, sdw_Policy = EnterpriseNotificationRetryPolicy, sdw_WorkerID = ''w1''\<rparr>"

lemma ex_worker_valid:
  "RetryPolicy_Validate EnterpriseNotificationRetryPolicy = None" "Worker_Validate ex_worker = None" "TrimSpace ''w1'' \<noteq> ''''" "TrimSpace ''w2'' \<noteq> ''''"
  "NotificationRequest_Validate ex_alert = None"
  by code_simp+

lemma ex_alert_row:
  obtains rc db r where "EnqueueSecurityNotification ex_venv (replicate 12 CHR ''n'') n2 3000 ex_alert empty_vdb = Inr (rc, db)" "vdb_outbox db = [r]"
    "fresh_row r []" "ob_ExpiresAt r = Hour" "TrimSpace (ob_EventID r) = ob_EventID r" "ob_EventID r \<noteq> ''''" "opened ex_venv r = Inr (''ada@example.org'', '''')"
proof -
  let ?e = "stableSecurityEventID ''evt-1''"
  obtain ct where ct: "ProtectNotification ex_aead ex_protection (replicate 12 CHR ''n'') ?e ''destination'' ''ada@example.org'' = Inr (ct, vp_activeVersion ex_protection)"
    "DecryptNotification ex_aead ex_protection ?e ''destination'' ct (vp_activeVersion ex_protection) = Inr ''ada@example.org''"
    by (rule decrypt_protected [OF ex_protection_ok _ ex_aead_laws(3), of "replicate 12 CHR ''n''" ?e "''destination''" "''ada@example.org''"])
      (simp_all add: ex_aead_laws(1))
  have f: "snr_BusinessEventID ex_alert = ''evt-1''" "snr_Channel ex_alert = Channel_Email" "snr_Destination ex_alert = ''ada@example.org''"
    "snr_Secret ex_alert = ''''" "snr_ExpiresAt ex_alert = Hour" by (simp_all add: ex_alert_def ex_notice_def)
  have late: "3000 < Hour" "canonicalVerificationTime Hour = Hour" by (simp_all add: duration_defs canonicalVerificationTime_def IsZero_def)
  have "\<exists>rc db r. EnqueueSecurityNotification ex_venv (replicate 12 CHR ''n'') n2 3000 ex_alert empty_vdb = Inr (rc, db) \<and> vdb_outbox db = [r] \<and>
      fresh_row r [] \<and> ob_ExpiresAt r = Hour \<and> ob_EventID r = ?e \<and> ob_DestinationCiphertext r = ct \<and> ob_KeyVersion r = vp_activeVersion ex_protection \<and>
      ob_SecretCiphertext r = '''' \<and> ob_BindingHash r = notificationBinding ex_venv r ''''"
    using ct(1) by (simp add: EnqueueSecurityNotification_def ex_worker_valid(5) f ex_vfields ex_vparts DestinationHash_def late bind_result_def Let_def
        fresh_row_def empty_outbox_def notificationBinding_def)
  then obtain rc db r where r: "EnqueueSecurityNotification ex_venv (replicate 12 CHR ''n'') n2 3000 ex_alert empty_vdb = Inr (rc, db)" "vdb_outbox db = [r]"
      "fresh_row r []" "ob_ExpiresAt r = Hour" "ob_EventID r = ?e" "ob_DestinationCiphertext r = ct" "ob_KeyVersion r = vp_activeVersion ex_protection"
      "ob_SecretCiphertext r = ''''" "ob_BindingHash r = notificationBinding ex_venv r ''''"
    by blast
  have "notificationBinding ex_venv r '''' \<noteq> ''''"
    using mac_nonempty [OF NewVerificationProtection_fields(1) [OF ex_protection_ok]] by (simp add: notificationBinding_def NotificationBindingHash_def ex_vfields)
  then have "opened ex_venv r = Inr (''ada@example.org'', '''')" using r(5-9) ct(2) by (simp add: opened_def ex_vfields constantVerificationEqual_iff bind_result_def)
  moreover have "TrimSpace (ob_EventID r) = ob_EventID r" unfolding r(5) by (rule stableSecurityEventID_plain)
  moreover have "ob_EventID r \<noteq> ''''" by (simp add: r(5) stableSecurityEventID_def)
  ultimately show thesis using r(1-4) that by blast
qed

lemma ex_first: "fresh_row r [] \<Longrightarrow> vdb_outbox db = [r] \<Longrightarrow>
    first_row before (filter (\<lambda>r. claim_due pol now r \<and> ob_EventID r \<notin> set []) (vdb_outbox db)) = Some r"
  by (simp add: fresh_row_def claim_due_def)

lemma ex_fresh: "fresh_row r [] \<Longrightarrow> ob_Attempts r = 0 \<and> ob_LeaseToken r = 0 \<and> ob_State r = State_Pending"
  by (simp add: fresh_row_def)

lemma ex_policy_values:
  "nrp_MaxAttempts EnterpriseNotificationRetryPolicy = 5" "nrp_LeaseDuration EnterpriseNotificationRetryPolicy = Minute"
  by (simp_all add: EnterpriseNotificationRetryPolicy_def)

theorem worker_delivers_witness:
  "\<exists>rc db r result db'. EnqueueSecurityNotification ex_venv (replicate 12 CHR ''n'') [] 3000 ex_alert empty_vdb = Inr (rc, db) \<and> vdb_outbox db = [r] \<and>
     RunOnce ex_venv (\<lambda>a b. False) [] (cancel_outbox ''ch-1'' 4500) 4000 5000 False ex_worker db = ((result, None), db') \<and> nar_State result = State_Delivered"
proof -
  obtain rc db r where r: "EnqueueSecurityNotification ex_venv (replicate 12 CHR ''n'') [] 3000 ex_alert empty_vdb = Inr (rc, db)" "vdb_outbox db = [r]"
    "fresh_row r []" "ob_ExpiresAt r = Hour" "TrimSpace (ob_EventID r) = ob_EventID r" "ob_EventID r \<noteq> ''''" "opened ex_venv r = Inr (''ada@example.org'', '''')"
    by (rule ex_alert_row)
  have lease: "canonicalVerificationTime (4000 + Minute) = 4000 + Minute" by (simp add: duration_defs canonicalVerificationTime_def IsZero_def)
  have receipt: "TrimSpace ''msg-1'' \<noteq> ''''" by code_simp
  have d: "distinct (map ob_EventID (vdb_outbox db))" using r(2) by simp
  have e: "opened ex_venv r = Inr (''ada@example.org'', '''')" by (rule r(7))
  have "sdw_Policy ex_worker = EnterpriseNotificationRetryPolicy" "sdw_Sender ex_worker = ex_sender" by (simp_all add: ex_worker_def)
  moreover have "(beside ex_venv i token until)\<^sup>*\<^sup>* x (cancel_outbox ''ch-1'' 4500 x)" for i token until x
    by (intro r_into_rtranclp beside.request) (auto simp: cancel_outbox_def intro: request_rows.cancel)
  ultimately show ?thesis
    using worker_delivers [OF ex_worker_valid(2) d ex_first [OF r(3,2)] _ _ _ _ e _ _ receipt, where ?t0.0 = 4000 and ?t1.0 = 5000 and cancelled = False and before = "\<lambda>a b. False"
        and meanwhile = "cancel_outbox ''ch-1'' 4500"]
    ex_fresh [OF r(3)] r lease
    by (fastforce simp: ex_policy_values ex_sender_def duration_defs)
qed

lemma ex_reach:
  obtains rc db r where "out_reach ex_venv db" "vdb_outbox db = [r]"
    "fresh_row r []" "ob_ExpiresAt r = Hour" "TrimSpace (ob_EventID r) = ob_EventID r" "ob_EventID r \<noteq> ''''" "opened ex_venv r = Inr (''ada@example.org'', '''')"
proof -
  obtain rc db r where r: "EnqueueSecurityNotification ex_venv (replicate 12 CHR ''n'') [] 3000 ex_alert empty_vdb = Inr (rc, db)" "vdb_outbox db = [r]"
    "fresh_row r []" "ob_ExpiresAt r = Hour" "TrimSpace (ob_EventID r) = ob_EventID r" "ob_EventID r \<noteq> ''''" "opened ex_venv r = Inr (''ada@example.org'', '''')"
    by (rule ex_alert_row)
  have "out_reach ex_venv db" unfolding out_reach_def using outbox_step.enqueue [OF r(1)] by blast
  then show thesis using r(2-) by (rule that)
qed

theorem notification_settled_erased_witness:
  "\<exists>db r. out_reach ex_venv db \<and> r \<in> set (vdb_outbox db) \<and> ob_State r = State_ManualReview \<and> ob_DestinationCiphertext r = '''' \<and>
     find_event (ob_EventID r) db = Some r"
proof -
  obtain db r where r: "out_reach ex_venv db" "vdb_outbox db = [r]" "fresh_row r []" "ob_ExpiresAt r = Hour" by (rule ex_reach)
  let ?db = "update_row (ob_EventID r) (final_row ''NOTIFICATION_EXPIRED'' (2 * Hour)) db" let ?r = "final_row ''NOTIFICATION_EXPIRED'' (2 * Hour) r"
  have "\<exists>nr. ClaimNextSecurityNotification ex_venv (\<lambda>a b. False) [] ''w1'' EnterpriseNotificationRetryPolicy (2 * Hour) db = Inr (empty_reliable_claim, nr, ?db)"
    using ex_first [OF r(3,2), of _ EnterpriseNotificationRetryPolicy "2 * Hour"] r(4)
    by (auto simp: ClaimNextSecurityNotification_def ex_worker_valid finalizeSecurityNotification_def duration_defs)
  then have reach: "out_reach ex_venv ?db" using r(1) outbox_step.claim unfolding out_reach_def by (meson rtranclp.rtrancl_into_rtrancl)
  have rows: "vdb_outbox ?db = [?r]" using r(2) by (simp add: update_row_def)
  then have "?r \<in> set (vdb_outbox ?db)" "ob_State ?r = State_ManualReview" by (simp_all add: final_row_def)
  with notification_settled_erased [OF reach, of ?r] reach show ?thesis by blast
qed

lemma opened_lease: "opened env (lease_row worker token until attempts now r) = opened env r"
  by (simp add: opened_def notificationBinding_def lease_row_def)

lemma notification_fencing_witness:
  "\<exists>db c nr db1 c' nr' db2. out_reach ex_venv db \<and>
     ClaimNextSecurityNotification ex_venv (\<lambda>a b. False) [] ''w1'' EnterpriseNotificationRetryPolicy 4000 db = Inr (c, nr, db1) \<and>
     ClaimNextSecurityNotification ex_venv (\<lambda>a b. False) [] ''w2'' EnterpriseNotificationRetryPolicy (4000 + Minute) db1 = Inr (c', nr', db2) \<and>
     claim_event c' = claim_event c \<and> claim_event c \<noteq> '''' \<and>
     (\<exists>e. CompleteReliableSecurityNotification c ''msg-1'' (4000 + Minute) db2 = Inl e \<or>
       (\<exists>rc. CompleteReliableSecurityNotification c ''msg-1'' (4000 + Minute) db2 = Inr (rc, db2)))"
proof -
  obtain db r where r: "out_reach ex_venv db" "vdb_outbox db = [r]" "fresh_row r []" "ob_ExpiresAt r = Hour" "ob_EventID r \<noteq> ''''"
    "opened ex_venv r = Inr (''ada@example.org'', '''')" by (rule ex_reach)
  note f = ex_fresh [OF r(3)]
  have lease: "canonicalVerificationTime (4000 + Minute) = 4000 + Minute" by (simp add: duration_defs canonicalVerificationTime_def IsZero_def)
  let ?r1 = "lease_row ''w1'' 1 (4000 + Minute) 1 4000 r"
  obtain c nr where c: "ClaimNextSecurityNotification ex_venv (\<lambda>a b. False) [] ''w1'' EnterpriseNotificationRetryPolicy 4000 db =
      Inr (c, nr, update_row (ob_EventID r) (lease_row ''w1'' 1 (4000 + Minute) 1 4000) db)" "claim_event c = ob_EventID r"
    using claim_succeeds [OF ex_worker_valid(3) _ ex_worker_valid(1) ex_first [OF r(3,2)] _ _ _ r(6), of 4000 "\<lambda>a b. False"] f r(4) lease
    by (auto simp: ex_policy_values claim_of_def duration_defs)
  let ?db1 = "update_row (ob_EventID r) (lease_row ''w1'' 1 (4000 + Minute) 1 4000) db"
  have one: "vdb_outbox ?db1 = [?r1]" using r(2) by (simp add: update_row_def)
  have due: "first_row (\<lambda>a b. False) (filter (\<lambda>x. claim_due EnterpriseNotificationRetryPolicy (4000 + Minute) x \<and> ob_EventID x \<notin> set []) (vdb_outbox ?db1)) = Some ?r1"
    unfolding one by (simp add: claim_due_def lease_row_def)
  have open1: "opened ex_venv ?r1 = Inr (''ada@example.org'', '''')"
    using r(6) opened_lease by simp
  have "ob_ExpiresAt ?r1 = Hour" "ob_Attempts ?r1 = 1" "ob_LeaseToken ?r1 = 1" "ob_EventID ?r1 = ob_EventID r" using r(4) by (simp_all add: lease_row_def)
  note f1 = this
  obtain c' nr' db2 where c': "ClaimNextSecurityNotification ex_venv (\<lambda>a b. False) [] ''w2'' EnterpriseNotificationRetryPolicy (4000 + Minute) ?db1 = Inr (c', nr', db2)"
      "claim_event c' = ob_EventID r"
    using claim_succeeds [OF ex_worker_valid(4) _ ex_worker_valid(1) due _ _ _ open1] f1
    by (auto simp: ex_policy_values claim_of_def duration_defs)
  have same: "claim_event c' = claim_event c" "claim_event c \<noteq> ''''" using c(2) c'(2) r(5) by auto
  note fenced = notification_fencing [OF r(1) c(1) same(2) rtranclp.rtrancl_refl c'(1) same(1) rtranclp.rtrancl_refl]
  have "\<exists>e. CompleteReliableSecurityNotification c ''msg-1'' (4000 + Minute) db2 = Inl e \<or>
       (\<exists>rc. CompleteReliableSecurityNotification c ''msg-1'' (4000 + Minute) db2 = Inr (rc, db2))"
  proof (cases "CompleteReliableSecurityNotification c ''msg-1'' (4000 + Minute) db2")
    case (Inr x)
    with fenced [of "''msg-1''" "4000 + Minute" "fst x" "snd x"] show ?thesis by (cases x) auto
  qed blast
  with r(1) c(1) c'(1) same show ?thesis by blast
qed

lemma ex_worker_run:
  obtains held sent db i where "worker_run ex_venv ex_sender held sent [(i, False)] db"
proof -
  obtain rc db r where r: "EnqueueSecurityNotification ex_venv (replicate 12 CHR ''n'') [] 3000 ex_alert empty_vdb = Inr (rc, db)" "vdb_outbox db = [r]"
    "fresh_row r []" "ob_ExpiresAt r = Hour" "ob_EventID r \<noteq> ''''" "opened ex_venv r = Inr (''ada@example.org'', '''')"
    by (rule ex_alert_row)
  have start: "worker_run ex_venv ex_sender [] [] [] db" by (rule worker_run.request [OF worker_run.start enqueue_rows [OF r(1)]])
  obtain c nr db1 where c: "ClaimNextSecurityNotification ex_venv (\<lambda>a b. False) [] (sdw_WorkerID ex_worker) (sdw_Policy ex_worker) 4000 db = Inr (c, nr, db1)"
      "claim_event c = ob_EventID r" "\<not> rsc_RecoveredUnknownOutcome c"
    using claim_succeeds [OF ex_worker_valid(3) _ ex_worker_valid(1) ex_first [OF r(3,2)] _ _ _ r(6), of 4000 "\<lambda>a b. False"] ex_fresh [OF r(3)] r(4)
    by (auto simp: ex_policy_values claim_of_def ex_worker_def duration_defs)
  have "worker_run ex_venv ex_sender [c] [] [] db1"
    using worker_run.claim [OF start _ ex_worker_valid(2) c(1)] c(2) r(5) by (simp add: ex_worker_def)
  from worker_run.send [OF this, of c "Sent ''msg-1''"] c(2,3)
  have "worker_run ex_venv ex_sender [] [(c, Sent ''msg-1'')] [(ob_EventID r, False)] db1" by (simp add: gives_up_def)
  then show thesis by (rule that)
qed


lemma notification_calls_bounded_witness:
  "\<exists>held sent db i. worker_run ex_venv ex_sender held sent [(i, False)] db \<and> calls [(i, False)] i = 1 \<and> 1 \<le> attempts_of db i \<and> attempts_of db i \<le> 20"
proof -
  obtain held sent db i where run: "worker_run ex_venv ex_sender held sent [(i, False)] db" by (rule ex_worker_run)
  have "calls [(i, False)] (i) = 1" by (simp add: calls_def)
  with notification_calls_bounded [OF run, of i] run show ?thesis by (metis (no_types))
qed

end
