(* ===== verification/Plan.thy ===== *)
theory Plan
  imports Entitlement
begin

section \<open>Plans\<close>

text \<open>
  The package \<open>internal/commercial/domain/plan\<close>: the immutable commercial offers. The
  struct \<open>Definition\<close>, which embeds a module definition of the entitlement catalogue and
  adds the sales scope, is an extension of the record \<open>ModuleDefinition\<close>. The maps
  \<open>selected\<close>, \<open>caps\<close>, \<open>quotas\<close> and \<open>fields\<close> of \<open>Validate\<close> are lists of
  the keys they hold. The lemmas say what a validated plan guarantees, that the canonical form
  is canonical, and that the content hash does not depend on the order of its lists.
\<close>

datatype plan_error =
    Plan_ErrInvalid
  | Plan_ErrConflict
  | Plan_ErrRequestConflict
  | Plan_ErrNotFound
  | Plan_ErrImmutable
  | Plan_ErrCatalog
  | Plan_ErrScope
  | Plan_ErrCorrupt

fun plan_error_text :: "plan_error \<Rightarrow> string" where
  "plan_error_text Plan_ErrInvalid = ''PLAN_INVALID_REQUEST''"
| "plan_error_text Plan_ErrConflict = ''PLAN_VERSION_CONFLICT''"
| "plan_error_text Plan_ErrRequestConflict = ''PLAN_REQUEST_CONFLICT''"
| "plan_error_text Plan_ErrNotFound = ''PLAN_NOT_FOUND''"
| "plan_error_text Plan_ErrImmutable = ''PLAN_VERSION_IMMUTABLE''"
| "plan_error_text Plan_ErrCatalog = ''PLAN_CATALOG_NOT_ELIGIBLE''"
| "plan_error_text Plan_ErrScope = ''PLAN_PLATFORM_CONTEXT_REQUIRED''"
| "plan_error_text Plan_ErrCorrupt = ''PLAN_CONTENT_INTEGRITY_FAILURE''"

abbreviation Plan_Draft :: string where "Plan_Draft \<equiv> ''DRAFT''"
abbreviation Plan_Published :: string where "Plan_Published \<equiv> ''PUBLISHED''"
abbreviation Plan_Retired :: string where "Plan_Retired \<equiv> ''RETIRED''"

definition Code :: "string \<Rightarrow> bool" where
  "Code v \<longleftrightarrow> length v > 0 \<and> length v \<le> 96 \<and> code_pattern v"

record PlanQuota =
  quota_Key :: string
  quota_Unlimited :: bool
  quota_Value :: uint64

record PlanField =
  field_Key :: string
  field_Action :: string
  field_Mode :: string

record PlanModule =
  pm_Code :: string
  pm_Capabilities :: "string list"
  pm_Quotas :: "PlanQuota list"
  pm_Fields :: "PlanField list"

record Terms =
  terms_Modules :: "PlanModule list"
  terms_FeatureCodes :: "string list"
  terms_SalesScope :: "string list"
  terms_ValidityMode :: string
  terms_ValidityDays :: uint32
  terms_PriceRef :: string

record Version =
  ver_PlanCode :: string
  ver_Number :: uint64
  ver_Revision :: uint64
  ver_PlanRevision :: uint64
  ver_State :: string
  ver_Name :: string
  ver_Terms :: Terms
  ver_ContentSHA256 :: string
  ver_CreatedAt :: time
  ver_PublishedAt :: "time option"
  ver_RetiredAt :: "time option"
  ver_ActorID :: string
  ver_Reason :: string

record PlanDefinition = ModuleDefinition +
  def_SalesScope :: "string list"

type_synonym PlanCatalog = "PlanDefinition list"

fun Catalog_Find :: "PlanCatalog \<Rightarrow> string \<Rightarrow> PlanDefinition option" where
  "Catalog_Find [] code = None"
| "Catalog_Find (d # ds) code = (if mod_Code d = code then Some d else Catalog_Find ds code)"

fun Has :: "string list \<Rightarrow> string \<Rightarrow> bool" where
  "Has [] key = False"
| "Has (v # vs) key = (v = key \<or> Has vs key)"

definition allowedScope :: "string list \<Rightarrow> string \<Rightarrow> bool" where
  "allowedScope scopes target \<longleftrightarrow> length scopes = 0 \<or> Has scopes ''*'' \<or> Has scopes target"

subsection \<open>Validation of terms\<close>

definition quota_limit :: "PlanQuota \<Rightarrow> Limit" where
  "quota_limit q = \<lparr>Unlimited = quota_Unlimited q, Value = quota_Value q\<rparr>"

definition field_id :: "PlanField \<Rightarrow> string" where
  "field_id f = field_Key f @ ''/'' @ field_Action f"

text \<open>The body of the loop over the modules, the updates of \<open>selected\<close> and \<open>caps\<close> apart.\<close>

definition validate_module ::
  "string list \<Rightarrow> PlanCatalog \<Rightarrow> string list \<Rightarrow> string list \<Rightarrow> PlanModule \<Rightarrow> plan_error err" where
  "validate_module scopes c selected caps m =
     (if \<not> Code (pm_Code m) \<or> pm_Code m \<in> set selected \<or> length (pm_Capabilities m) = 0 \<or>
         length (pm_Capabilities m) > 256 \<or> length (pm_Quotas m) > 256 \<or> length (pm_Fields m) > 768
      then Some Plan_ErrInvalid
      else case Catalog_Find c (pm_Code m) of
        None \<Rightarrow> Some Plan_ErrCatalog
      | Some d \<Rightarrow>
        (if mod_Version d = 0 \<or> mod_TechnicalStatus d \<noteq> ''ready'' \<or> mod_SalesStatus d \<noteq> ''sellable''
         then Some Plan_ErrCatalog
         else or_else (for_each_err (\<lambda>s. if \<not> allowedScope (def_SalesScope d) s
                         then Some Plan_ErrCatalog else None) scopes)
           (or_else (seen_loop (\<lambda>key. \<not> Has (mod_Capabilities d) key) (\<lambda>key. key)
                       Plan_ErrCatalog caps (pm_Capabilities m))
           (or_else (seen_loop (\<lambda>q. \<not> Has (mod_QuotaKeys d) (quota_Key q) \<or> \<not> Limit_Valid (quota_limit q))
                       quota_Key Plan_ErrInvalid [] (pm_Quotas m))
             (seen_loop (\<lambda>f. \<not> Has (mod_FieldKeys d) (field_Key f) \<or>
                            \<not> Has [''read'', ''write'', ''export''] (field_Action f) \<or>
                            \<not> Has [''deny'', ''masked'', ''allow''] (field_Mode f) \<or>
                            (field_Action f = ''write'' \<and> field_Mode f = ''masked'') \<or>
                            (field_Key f = ''member.profile'' \<and> field_Action f \<noteq> ''write'' \<and>
                             field_Mode f = ''allow''))
                field_id Plan_ErrInvalid [] (pm_Fields m))))))"

fun validate_modules ::
  "string list \<Rightarrow> PlanCatalog \<Rightarrow> string list \<Rightarrow> string list \<Rightarrow> PlanModule list
     \<Rightarrow> plan_error + string list \<times> string list" where
  "validate_modules scopes c selected caps [] = Inr (selected, caps)"
| "validate_modules scopes c selected caps (m # ms) =
     (case validate_module scopes c selected caps m of
        Some e \<Rightarrow> Inl e
      | None \<Rightarrow> validate_modules scopes c (pm_Code m # selected) (pm_Capabilities m @ caps) ms)"

definition validate_scopes :: "string list \<Rightarrow> plan_error err" where
  "validate_scopes scopes =
     seen_loop (\<lambda>s. (s = ''*'' \<and> length scopes \<noteq> 1) \<or> (s \<noteq> ''*'' \<and> \<not> Code s)) (\<lambda>s. s)
       Plan_ErrInvalid [] scopes"

definition validate_dependencies :: "PlanCatalog \<Rightarrow> string list \<Rightarrow> PlanModule list \<Rightarrow> plan_error err" where
  "validate_dependencies c selected ms =
     for_each_err (\<lambda>m. case Catalog_Find c (pm_Code m) of
        None \<Rightarrow> None
      | Some d \<Rightarrow> for_each_err (\<lambda>dep. if dep \<notin> set selected then Some Plan_ErrCatalog else None)
                   (mod_Dependencies d)) ms"

definition Terms_Validate :: "Terms \<Rightarrow> PlanCatalog \<Rightarrow> plan_error err" where
  "Terms_Validate t c =
     (if length (terms_Modules t) = 0 \<or> length (terms_Modules t) > 100 \<or>
         length (terms_FeatureCodes t) > 100 \<or> length (terms_SalesScope t) = 0 \<or>
         length (terms_SalesScope t) > 64 \<or> length (terms_PriceRef t) > 128 \<or>
         TrimSpace (terms_PriceRef t) \<noteq> terms_PriceRef t then Some Plan_ErrInvalid
      else if \<not> ((terms_ValidityMode t = ''unlimited'' \<and> terms_ValidityDays t = 0) \<or>
                 (terms_ValidityMode t = ''fixed_days'' \<and> terms_ValidityDays t \<ge> 1 \<and>
                  terms_ValidityDays t \<le> 36500)) then Some Plan_ErrInvalid
      else or_else (validate_scopes (terms_SalesScope t))
        (or_else (seen_loop (\<lambda>f. \<not> Code f) (\<lambda>f. f) Plan_ErrInvalid [] (terms_FeatureCodes t))
          (case validate_modules (terms_SalesScope t) c [] [] (terms_Modules t) of
             Inl e \<Rightarrow> Some e
           | Inr (selected, caps) \<Rightarrow>
             or_else (validate_dependencies c selected (terms_Modules t))
               (if ''device.transfer'' \<in> set caps \<and> ''device.lifecycle'' \<notin> set caps
                then Some Plan_ErrCatalog else None))))"

subsection \<open>Canonical form, content hash and integrity\<close>

text \<open>
  The deep copy goes through JSON, which turns every invalid byte of a string into the
  replacement character. Sorting is by key comparison; the terms that pass \<open>Validate\<close> have no
  two elements with equal keys.
\<close>

definition json_copy :: "string \<Rightarrow> string" where
  "json_copy s = concat (map (\<lambda>r. if valid_rune_width r = Some (length r) then r
     else [CHR 0xEF, CHR 0xBF, CHR 0xBD]) (rune_chunks s))"

definition copy_quota :: "PlanQuota \<Rightarrow> PlanQuota" where
  "copy_quota q = q\<lparr>quota_Key := json_copy (quota_Key q)\<rparr>"

definition copy_field :: "PlanField \<Rightarrow> PlanField" where
  "copy_field f = \<lparr>field_Key = json_copy (field_Key f), field_Action = json_copy (field_Action f),
     field_Mode = json_copy (field_Mode f)\<rparr>"

definition canonical_module :: "PlanModule \<Rightarrow> PlanModule" where
  "canonical_module m =
     \<lparr>pm_Code = json_copy (pm_Code m),
      pm_Capabilities = sort (map json_copy (pm_Capabilities m)),
      pm_Quotas = sort_key quota_Key (map copy_quota (pm_Quotas m)),
      pm_Fields = sort_key field_id (map copy_field (pm_Fields m))\<rparr>"

definition Terms_Canonical :: "Terms \<Rightarrow> Terms" where
  "Terms_Canonical t =
     \<lparr>terms_Modules = sort_key pm_Code (map canonical_module (terms_Modules t)),
      terms_FeatureCodes = sort (map json_copy (terms_FeatureCodes t)),
      terms_SalesScope = sort (map json_copy (terms_SalesScope t)),
      terms_ValidityMode = json_copy (terms_ValidityMode t),
      terms_ValidityDays = terms_ValidityDays t,
      terms_PriceRef = json_copy (terms_PriceRef t)\<rparr>"

definition json_PlanQuota :: "PlanQuota \<Rightarrow> json" where
  "json_PlanQuota q = JObj [(''key'', JStr (quota_Key q)), (''unlimited'', JBool (quota_Unlimited q)),
     (''value'', JUint (quota_Value q))]"

definition json_PlanField :: "PlanField \<Rightarrow> json" where
  "json_PlanField f = JObj [(''key'', JStr (field_Key f)), (''action'', JStr (field_Action f)),
     (''mode'', JStr (field_Mode f))]"

definition json_PlanModule :: "PlanModule \<Rightarrow> json" where
  "json_PlanModule m = JObj [(''module_code'', JStr (pm_Code m)),
     (''capability_codes'', JArr (map JStr (pm_Capabilities m))),
     (''quotas'', JArr (map json_PlanQuota (pm_Quotas m))),
     (''fields'', JArr (map json_PlanField (pm_Fields m)))]"

definition json_Terms :: "Terms \<Rightarrow> json" where
  "json_Terms t = JObj [(''modules'', JArr (map json_PlanModule (terms_Modules t))),
     (''feature_codes'', JArr (map JStr (terms_FeatureCodes t))),
     (''sales_scope'', JArr (map JStr (terms_SalesScope t))),
     (''validity_mode'', JStr (terms_ValidityMode t)), (''validity_days'', JUint (terms_ValidityDays t)),
     (''price_ref'', JStr (terms_PriceRef t))]"

definition Plan_Hash :: "string \<Rightarrow> Terms \<Rightarrow> string" where
  "Plan_Hash name t =
     Digest (JObj [(''name'', JStr name), (''terms'', json_Terms (Terms_Canonical t))])"

definition Version_Integrity :: "Version \<Rightarrow> plan_error err" where
  "Version_Integrity v =
     (if \<not> Code (ver_PlanCode v) \<or> ver_Number v = 0 \<or> ver_Revision v = 0 \<or> ver_PlanRevision v = 0 \<or>
         TrimSpace (ver_Name v) = '''' \<or> length (ver_Name v) > 160 \<or> IsZero (ver_CreatedAt v) \<or>
         ver_ContentSHA256 v \<noteq> Plan_Hash (ver_Name v) (ver_Terms v) then Some Plan_ErrCorrupt
      else if ver_State v = Plan_Draft then
        (if ver_PublishedAt v \<noteq> None \<or> ver_RetiredAt v \<noteq> None then Some Plan_ErrCorrupt else None)
      else if ver_State v = Plan_Published then
        (if ver_PublishedAt v = None \<or> ver_RetiredAt v \<noteq> None then Some Plan_ErrCorrupt else None)
      else if ver_State v = Plan_Retired then
        (if ver_PublishedAt v = None \<or> ver_RetiredAt v = None then Some Plan_ErrCorrupt else None)
      else Some Plan_ErrCorrupt)"

definition Version_Eligibility :: "Version \<Rightarrow> string \<Rightarrow> PlanCatalog \<Rightarrow> string" where
  "Version_Eligibility v scope c =
     (if \<not> Code scope then ''INVALID_SALES_SCOPE''
      else if ver_State v \<noteq> Plan_Published then ''PLAN_NOT_SELLABLE''
      else if \<not> allowedScope (terms_SalesScope (ver_Terms v)) scope then ''PLAN_SCOPE_MISMATCH''
      else case Terms_Validate (ver_Terms v) c of
        Some e \<Rightarrow> plan_error_text e
      | None \<Rightarrow> ''ELIGIBLE'')"

section \<open>What validated terms guarantee\<close>

lemma Has_iff [simp]: "Has vs key \<longleftrightarrow> key \<in> set vs"
  by (induction vs) auto

lemma Catalog_Find_Some: "Catalog_Find c code = Some d \<Longrightarrow> d \<in> set c \<and> mod_Code d = code"
  by (induction c) (auto split: if_splits)

definition field_ok :: "PlanDefinition \<Rightarrow> PlanField \<Rightarrow> bool" where
  "field_ok d f \<longleftrightarrow>
     field_Key f \<in> set (mod_FieldKeys d) \<and>
     field_Action f \<in> {''read'', ''write'', ''export''} \<and>
     field_Mode f \<in> {''deny'', ''masked'', ''allow''} \<and>
     \<not> (field_Action f = ''write'' \<and> field_Mode f = ''masked'') \<and>
     \<not> (field_Key f = ''member.profile'' \<and> field_Action f \<noteq> ''write'' \<and> field_Mode f = ''allow'')"

lemma validate_fields_None:
  "seen_loop (\<lambda>f. \<not> Has (mod_FieldKeys d) (field_Key f) \<or>
                \<not> Has [''read'', ''write'', ''export''] (field_Action f) \<or>
                \<not> Has [''deny'', ''masked'', ''allow''] (field_Mode f) \<or>
                (field_Action f = ''write'' \<and> field_Mode f = ''masked'') \<or>
                (field_Key f = ''member.profile'' \<and> field_Action f \<noteq> ''write'' \<and>
                 field_Mode f = ''allow'')) field_id e [] fs = None \<longleftrightarrow>
     (\<forall>f \<in> set fs. field_ok d f) \<and> distinct (map field_id fs)"
  unfolding seen_loop_None by (simp add: field_ok_def)

lemma guard_None: "(if b then Some e else r) = None \<longleftrightarrow> \<not> b \<and> r = None"
  by simp

definition module_ok :: "string list \<Rightarrow> PlanCatalog \<Rightarrow> PlanModule \<Rightarrow> bool" where
  "module_ok scopes c m \<longleftrightarrow>
     Code (pm_Code m) \<and> pm_Capabilities m \<noteq> [] \<and> length (pm_Capabilities m) \<le> 256 \<and>
     length (pm_Quotas m) \<le> 256 \<and> length (pm_Fields m) \<le> 768 \<and>
     (\<exists>d. Catalog_Find c (pm_Code m) = Some d \<and> mod_Version d \<noteq> 0 \<and>
        mod_TechnicalStatus d = ''ready'' \<and> mod_SalesStatus d = ''sellable'' \<and>
        (\<forall>s \<in> set scopes. allowedScope (def_SalesScope d) s) \<and>
        set (pm_Capabilities m) \<subseteq> set (mod_Capabilities d) \<and>
        (\<forall>q \<in> set (pm_Quotas m). quota_Key q \<in> set (mod_QuotaKeys d) \<and> Limit_Valid (quota_limit q)) \<and>
        (\<forall>f \<in> set (pm_Fields m). field_ok d f)) \<and>
     distinct (map quota_Key (pm_Quotas m)) \<and> distinct (map field_id (pm_Fields m))"

lemma validate_module_None:
  "validate_module scopes c selected caps m = None \<longleftrightarrow>
     module_ok scopes c m \<and> pm_Code m \<notin> set selected \<and> distinct (pm_Capabilities m) \<and>
     set (pm_Capabilities m) \<inter> set caps = {}"
proof (cases "Catalog_Find c (pm_Code m)")
  case None
  then show ?thesis by (simp add: validate_module_def module_ok_def)
next
  case (Some d)
  have "validate_module scopes c selected caps m = None \<longleftrightarrow>
    \<not> (\<not> Code (pm_Code m) \<or> pm_Code m \<in> set selected \<or> length (pm_Capabilities m) = 0 \<or>
       length (pm_Capabilities m) > 256 \<or> length (pm_Quotas m) > 256 \<or> length (pm_Fields m) > 768) \<and>
    \<not> (mod_Version d = 0 \<or> mod_TechnicalStatus d \<noteq> ''ready'' \<or> mod_SalesStatus d \<noteq> ''sellable'') \<and>
    (\<forall>s \<in> set scopes. allowedScope (def_SalesScope d) s) \<and>
    (\<forall>k \<in> set (pm_Capabilities m). k \<in> set (mod_Capabilities d)) \<and> distinct (pm_Capabilities m) \<and>
    set (pm_Capabilities m) \<inter> set caps = {} \<and>
    (\<forall>q \<in> set (pm_Quotas m). quota_Key q \<in> set (mod_QuotaKeys d) \<and> Limit_Valid (quota_limit q)) \<and>
    distinct (map quota_Key (pm_Quotas m)) \<and>
    (\<forall>f \<in> set (pm_Fields m). field_ok d f) \<and> distinct (map field_id (pm_Fields m))"
    unfolding validate_module_def Some option.case guard_None or_else_None validate_fields_None by simp
  then show ?thesis unfolding module_ok_def Some
    by (simp only: option.inject simp_thms not_less de_Morgan_disj length_0_conv subset_eq) blast
qed

lemma validate_modules_Inr:
  "validate_modules scopes c selected caps ms = Inr (selected', caps') \<longleftrightarrow>
     (\<forall>m \<in> set ms. module_ok scopes c m) \<and>
     distinct (map pm_Code ms) \<and> set (map pm_Code ms) \<inter> set selected = {} \<and>
     distinct (concat (map pm_Capabilities ms)) \<and>
     set (concat (map pm_Capabilities ms)) \<inter> set caps = {} \<and>
     selected' = rev (map pm_Code ms) @ selected \<and>
     caps' = concat (rev (map pm_Capabilities ms)) @ caps"
proof (induction ms arbitrary: selected caps)
  case (Cons m ms)
  show ?case
  proof (cases "validate_module scopes c selected caps m = None")
    case True
    then have m: "module_ok scopes c m" "pm_Code m \<notin> set selected" "distinct (pm_Capabilities m)"
      "set (pm_Capabilities m) \<inter> set caps = {}" by (simp_all add: validate_module_None)
    let ?S = "set (map pm_Code ms)" and ?C = "set (concat (map pm_Capabilities ms))"
    have "?S \<inter> set (pm_Code m # selected) = {} \<longleftrightarrow> pm_Code m \<notin> ?S \<and> ?S \<inter> set selected = {}" by auto
    moreover have "?C \<inter> set (pm_Capabilities m @ caps) = {} \<longleftrightarrow>
      set (pm_Capabilities m) \<inter> ?C = {} \<and> ?C \<inter> set caps = {}" by auto
    moreover have "set (map pm_Code (m # ms)) \<inter> set selected = {} \<longleftrightarrow> ?S \<inter> set selected = {}"
      using m by auto
    moreover have "set (concat (map pm_Capabilities (m # ms))) \<inter> set caps = {} \<longleftrightarrow> ?C \<inter> set caps = {}"
      using m by auto
    moreover have "distinct (concat (map pm_Capabilities (m # ms))) \<longleftrightarrow>
      distinct (concat (map pm_Capabilities ms)) \<and> set (pm_Capabilities m) \<inter> ?C = {}"
      using m by auto
    ultimately show ?thesis using m
      by (simp only: validate_modules.simps True option.case Cons.IH) auto
  next
    case False
    then have "\<not> (module_ok scopes c m \<and> pm_Code m \<notin> set selected \<and> distinct (pm_Capabilities m) \<and>
      set (pm_Capabilities m) \<inter> set caps = {})" by (simp add: validate_module_None)
    moreover obtain e where "validate_module scopes c selected caps m = Some e" using False by blast
    ultimately show ?thesis by auto
  qed
qed auto

text \<open>The specification of \<open>Terms.Validate\<close>.\<close>

definition validity_ok :: "Terms \<Rightarrow> bool" where
  "validity_ok t \<longleftrightarrow>
     (terms_ValidityMode t = ''unlimited'' \<and> terms_ValidityDays t = 0) \<or>
     (terms_ValidityMode t = ''fixed_days'' \<and> 1 \<le> terms_ValidityDays t \<and> terms_ValidityDays t \<le> 36500)"

definition terms_wf :: "Terms \<Rightarrow> PlanCatalog \<Rightarrow> bool" where
  "terms_wf t c \<longleftrightarrow>
     terms_Modules t \<noteq> [] \<and> length (terms_Modules t) \<le> 100 \<and> length (terms_FeatureCodes t) \<le> 100 \<and>
     terms_SalesScope t \<noteq> [] \<and> length (terms_SalesScope t) \<le> 64 \<and>
     length (terms_PriceRef t) \<le> 128 \<and> TrimSpace (terms_PriceRef t) = terms_PriceRef t \<and>
     validity_ok t \<and>
     (terms_SalesScope t = [''*''] \<or> (\<forall>s \<in> set (terms_SalesScope t). s \<noteq> ''*'' \<and> Code s)) \<and>
     distinct (terms_SalesScope t) \<and>
     distinct (terms_FeatureCodes t) \<and> (\<forall>f \<in> set (terms_FeatureCodes t). Code f) \<and>
     (\<forall>m \<in> set (terms_Modules t). module_ok (terms_SalesScope t) c m) \<and>
     distinct (map pm_Code (terms_Modules t)) \<and>
     distinct (concat (map pm_Capabilities (terms_Modules t))) \<and>
     (\<forall>m \<in> set (terms_Modules t). \<forall>d. Catalog_Find c (pm_Code m) = Some d \<longrightarrow>
        set (mod_Dependencies d) \<subseteq> pm_Code ` set (terms_Modules t)) \<and>
     (''device.transfer'' \<in> set (concat (map pm_Capabilities (terms_Modules t))) \<longrightarrow>
      ''device.lifecycle'' \<in> set (concat (map pm_Capabilities (terms_Modules t))))"

lemma validate_scopes_None:
  "validate_scopes ss = None \<longleftrightarrow>
     distinct ss \<and> (ss = [''*''] \<or> (\<forall>s \<in> set ss. s \<noteq> ''*'' \<and> Code s))"
proof -
  have "ss = [''*'']" if "''*'' \<in> set ss" "length ss = 1"
    using that by (cases ss) auto
  then show ?thesis by (auto simp: validate_scopes_def)
qed

lemma validate_dependencies_None:
  "validate_dependencies c selected ms = None \<longleftrightarrow>
     (\<forall>m \<in> set ms. \<forall>d. Catalog_Find c (pm_Code m) = Some d \<longrightarrow> set (mod_Dependencies d) \<subseteq> set selected)"
proof -
  have "(case Catalog_Find c (pm_Code m) of None \<Rightarrow> None
      | Some d \<Rightarrow> for_each_err (\<lambda>dep. if dep \<notin> set selected then Some Plan_ErrCatalog else None)
                   (mod_Dependencies d)) = None \<longleftrightarrow>
      (\<forall>d. Catalog_Find c (pm_Code m) = Some d \<longrightarrow> set (mod_Dependencies d) \<subseteq> set selected)" for m :: PlanModule
    by (cases "Catalog_Find c (pm_Code m)") auto
  then show ?thesis by (simp add: validate_dependencies_def)
qed

lemma Terms_Validate_None: "Terms_Validate t c = None \<longleftrightarrow> terms_wf t c"
proof -
  let ?ms = "terms_Modules t" and ?caps = "concat (map pm_Capabilities (terms_Modules t))"
  have mods: "(case validate_modules (terms_SalesScope t) c [] [] ?ms of
             Inl e \<Rightarrow> Some e
           | Inr (selected, caps) \<Rightarrow>
             or_else (validate_dependencies c selected ?ms)
               (if ''device.transfer'' \<in> set caps \<and> ''device.lifecycle'' \<notin> set caps
                then Some Plan_ErrCatalog else None)) = None \<longleftrightarrow>
      (\<forall>m \<in> set ?ms. module_ok (terms_SalesScope t) c m) \<and> distinct (map pm_Code ?ms) \<and> distinct ?caps \<and>
      (\<forall>m \<in> set ?ms. \<forall>d. Catalog_Find c (pm_Code m) = Some d \<longrightarrow>
         set (mod_Dependencies d) \<subseteq> pm_Code ` set ?ms) \<and>
      (''device.transfer'' \<in> set ?caps \<longrightarrow> ''device.lifecycle'' \<in> set ?caps)" (is "?l \<longleftrightarrow> ?r")
  proof (cases "validate_modules (terms_SalesScope t) c [] [] ?ms")
    case (Inl e)
    have "validate_modules (terms_SalesScope t) c [] [] ?ms \<noteq>
        Inr (rev (map pm_Code ?ms) @ [], concat (rev (map pm_Capabilities ?ms)) @ [])" by (simp add: Inl)
    then have "\<not> ?r" unfolding validate_modules_Inr by auto
    then show ?thesis by (simp add: Inl)
  next
    case (Inr p)
    obtain selected caps where p: "p = (selected, caps)" by (cases p)
    from Inr have v: "validate_modules (terms_SalesScope t) c [] [] ?ms = Inr (selected, caps)" by (simp add: p)
    have "set selected = pm_Code ` set ?ms" "set caps = set ?caps"
      "\<forall>m \<in> set ?ms. module_ok (terms_SalesScope t) c m" "distinct (map pm_Code ?ms)" "distinct ?caps"
      using v unfolding validate_modules_Inr by auto
    then show ?thesis
      unfolding v sum.case prod.case or_else_None validate_dependencies_None guard_None by blast
  qed
  show ?thesis
    unfolding Terms_Validate_def guard_None or_else_None mods validate_scopes_None seen_loop_None terms_wf_def
      validity_ok_def by (auto simp: not_less)
qed

section \<open>The canonical form\<close>

lemma in_bytes_append: "i < length r \<Longrightarrow> in_bytes lo hi (r @ s) i \<longleftrightarrow> in_bytes lo hi r i"
  by (simp add: in_bytes_def nth_append)

lemma in_bytes_less: "in_bytes lo hi r i \<Longrightarrow> i < length r"
  by (simp add: in_bytes_def)

lemma valid_rune_width_mono:
  assumes "valid_rune_width r = Some n"
  shows "valid_rune_width (r @ s) = Some n"
proof -
  have ext: "in_bytes lo hi r i \<Longrightarrow> in_bytes lo hi (r @ s) i" for lo hi i
    by (simp add: in_bytes_def nth_append)
  have first: "0 < length r" using assms by (auto simp: valid_rune_width_def in_bytes_def split: if_splits)
  define b where "b = byte (r ! 0)"
  have b: "in_bytes lo hi r 0 \<longleftrightarrow> lo \<le> b \<and> b \<le> hi" "in_bytes lo hi (r @ s) 0 \<longleftrightarrow> lo \<le> b \<and> b \<le> hi" for lo hi
    using first by (auto simp: in_bytes_def nth_append b_def)
  consider "b \<le> 127" | "128 \<le> b" "b < 194" | "194 \<le> b" "b \<le> 223" | "b = 224" | "225 \<le> b" "b \<le> 236" |
    "b = 237" | "238 \<le> b" "b \<le> 239" | "b = 240" | "241 \<le> b" "b \<le> 243" | "b = 244" | "244 < b" by linarith
  then show ?thesis
    using assms unfolding valid_rune_width_def b by cases (simp_all add: ext split: if_splits)
qed

lemma rune_chunks_concat:
  "\<forall>r \<in> set rs. valid_rune_width r = Some (length r) \<Longrightarrow> rune_chunks (concat rs) = rs"
proof (induction rs)
  case (Cons r rs)
  have v: "valid_rune_width r = Some (length r)" using Cons.prems by simp
  then have "r \<noteq> []" by (auto simp: valid_rune_width_def in_bytes_def split: if_splits)
  moreover have "rune_width (r @ concat rs) = length r"
    using valid_rune_width_mono [OF v] by (simp add: rune_width_def)
  ultimately show ?case using Cons by (simp add: rune_chunks.simps [of "r @ concat rs"])
qed simp

lemma json_copy_idem [simp]: "json_copy (json_copy s) = json_copy s"
proof -
  let ?f = "\<lambda>r. if valid_rune_width r = Some (length r) then r else [CHR 0xEF, CHR 0xBF, CHR 0xBD]"
  have "valid_rune_width [CHR 0xEF, CHR 0xBF, CHR 0xBD] = Some 3" by code_simp
  then have valid: "valid_rune_width (?f r) = Some (length (?f r))" for r by simp
  then have "\<forall>r \<in> set (map ?f (rune_chunks s)). valid_rune_width r = Some (length r)"
    by (simp only: set_map ball_simps) blast
  then have "rune_chunks (concat (map ?f (rune_chunks s))) = map ?f (rune_chunks s)"
    by (rule rune_chunks_concat)
  moreover have "map ?f (map ?f xs) = map ?f xs" for xs
    using valid by simp
  ultimately show ?thesis unfolding json_copy_def by (simp only:)
qed

lemma copy_idem [simp]:
  "copy_quota (copy_quota q) = copy_quota q" "copy_field (copy_field f) = copy_field f"
  by (simp_all add: copy_quota_def copy_field_def)

text \<open>Sorting the copies of an already sorted list of copies changes nothing.\<close>

lemma sort_copies:
  assumes "\<And>x. f (f x) = f x"
  shows "sort_key k (map f (sort_key k (map f xs))) = sort_key k (map f xs)"
proof -
  have "map f (sort_key k (map f xs)) = sort_key k (map f xs)"
    by (rule map_idI) (auto simp: assms)
  then show ?thesis by (simp add: sort_key_id_if_sorted)
qed

lemma canonical_module_idem [simp]: "canonical_module (canonical_module m) = canonical_module m"
  by (simp add: canonical_module_def sort_copies [of json_copy] sort_copies [of copy_quota] sort_copies [of copy_field])

lemma Terms_Canonical_idem [simp]: "Terms_Canonical (Terms_Canonical t) = Terms_Canonical t"
  by (simp add: Terms_Canonical_def sort_copies [of json_copy] sort_copies [of canonical_module])

text \<open>Codes are ASCII, so the JSON copy keeps them.\<close>

lemma rune_chunks_ascii:
  "\<forall>c \<in> set s. byte c \<le> 127 \<Longrightarrow> rune_chunks s = map (\<lambda>c. [c]) s"
proof (induction s)
  case (Cons c s)
  then have "valid_rune_width (c # s) = Some 1" by (simp add: valid_rune_width_def in_bytes_def)
  with Cons show ?case by (simp add: rune_chunks.simps [of "c # s"] rune_width_def)
qed simp

lemma json_copy_ascii: "\<forall>c \<in> set s. byte c \<le> 127 \<Longrightarrow> json_copy s = s"
proof -
  assume a: "\<forall>c \<in> set s. byte c \<le> 127"
  then have "map (\<lambda>r. if valid_rune_width r = Some (length r) then r
     else [CHR 0xEF, CHR 0xBF, CHR 0xBD]) (map (\<lambda>c. [c]) s) = map (\<lambda>c. [c]) s"
    by (auto simp: valid_rune_width_def in_bytes_def)
  with rune_chunks_ascii [OF a] show ?thesis by (simp only: json_copy_def concat_map_singleton) simp
qed

lemma code_pattern_ascii: "code_pattern s \<Longrightarrow> c \<in> set s \<Longrightarrow> byte c \<le> 127"
  by (drule (1) code_pattern_chars)
     (auto simp: is_code_char_def is_lower_def is_digit_def is_code_sep_def byte_def)

lemma Code_copy [simp]: "Code s \<Longrightarrow> json_copy s = s"
  by (rule json_copy_ascii) (auto simp: Code_def dest: code_pattern_ascii)

section \<open>Plan catalogues and entitlement catalogues\<close>

text \<open>The entitlement catalogue embedded in a plan catalogue: each entry without its sales scope.\<close>

definition entitlement_catalog :: "PlanCatalog \<Rightarrow> Catalog" where
  "entitlement_catalog c = map ModuleDefinition.truncate c"

lemma truncate_fields [simp]:
  "mod_Code (ModuleDefinition.truncate d) = mod_Code d"
  "mod_TechnicalStatus (ModuleDefinition.truncate d) = mod_TechnicalStatus d"
  "mod_Version (ModuleDefinition.truncate d) = mod_Version d"
  "mod_Capabilities (ModuleDefinition.truncate d) = mod_Capabilities d"
  "mod_QuotaKeys (ModuleDefinition.truncate d) = mod_QuotaKeys d"
  "mod_FieldKeys (ModuleDefinition.truncate d) = mod_FieldKeys d"
  "mod_Dependencies (ModuleDefinition.truncate d) = mod_Dependencies d"
  by (simp_all add: ModuleDefinition.truncate_def)

lemma Definition_entitlement_catalog:
  "Catalog_Definition (entitlement_catalog c) code = map_option ModuleDefinition.truncate (Catalog_Find c code)"
  by (induction c) (auto simp: entitlement_catalog_def)

lemma module_ok_codes:
  assumes "Catalog_Validate (entitlement_catalog c) = None" "module_ok scopes c m"
  shows "\<forall>k \<in> set (pm_Capabilities m). validCode k" "\<forall>q \<in> set (pm_Quotas m). validCode (quota_Key q)"
    "\<forall>f \<in> set (pm_Fields m). validCode (field_Key f)"
proof -
  obtain d where d: "Catalog_Find c (pm_Code m) = Some d" "set (pm_Capabilities m) \<subseteq> set (mod_Capabilities d)"
    "\<forall>q \<in> set (pm_Quotas m). quota_Key q \<in> set (mod_QuotaKeys d)" "\<forall>f \<in> set (pm_Fields m). field_ok d f"
    using assms(2) unfolding module_ok_def by blast
  then have "ModuleDefinition.truncate d \<in> set (entitlement_catalog c)"
    using Catalog_Find_Some unfolding entitlement_catalog_def by auto
  then have "entry_ok (ModuleDefinition.truncate d)"
    using assms(1) unfolding Catalog_Validate_iff catalog_wf_def by blast
  then have "\<forall>k \<in> set (mod_Capabilities d) \<union> set (mod_QuotaKeys d) \<union> set (mod_FieldKeys d). validCode k"
    by (auto simp: entry_ok_def)
  with d show "\<forall>k \<in> set (pm_Capabilities m). validCode k" "\<forall>q \<in> set (pm_Quotas m). validCode (quota_Key q)"
    "\<forall>f \<in> set (pm_Fields m). validCode (field_Key f)"
    by (auto simp: field_ok_def)
qed

lemma validCode_copy [simp]: "validCode s \<Longrightarrow> json_copy s = s"
  by (rule json_copy_ascii) (auto simp: validCode_def dest: code_pattern_ascii)

lemma literal_copies [simp]:
  "json_copy ''read'' = ''read''" "json_copy ''write'' = ''write''" "json_copy ''export'' = ''export''"
  "json_copy ''deny'' = ''deny''" "json_copy ''masked'' = ''masked''" "json_copy ''allow'' = ''allow''"
  by (rule json_copy_ascii, simp add: byte_def)+

text \<open>On a validated plan the canonical form only sorts.\<close>

lemma canonical_module_sorts:
  assumes "Catalog_Validate (entitlement_catalog c) = None" "module_ok scopes c m"
  shows "canonical_module m = \<lparr>pm_Code = pm_Code m, pm_Capabilities = sort (pm_Capabilities m),
    pm_Quotas = sort_key quota_Key (pm_Quotas m), pm_Fields = sort_key field_id (pm_Fields m)\<rparr>"
proof -
  note codes = module_ok_codes [OF assms]
  have "map json_copy (pm_Capabilities m) = pm_Capabilities m"
    using codes(1) by (intro map_idI) simp
  moreover have "map copy_quota (pm_Quotas m) = pm_Quotas m"
    using codes(2) by (intro map_idI) (simp add: copy_quota_def)
  moreover have "map copy_field (pm_Fields m) = pm_Fields m"
  proof (intro map_idI)
    fix f assume f: "f \<in> set (pm_Fields m)"
    then obtain d where "field_ok d f" using assms(2) unfolding module_ok_def by blast
    with codes(3) f show "copy_field f = f" by (auto simp: copy_field_def field_ok_def)
  qed
  moreover have "json_copy (pm_Code m) = pm_Code m" using assms(2) by (simp add: module_ok_def)
  ultimately show ?thesis by (simp add: canonical_module_def)
qed

text \<open>Two offers that differ in the order of their lists only.\<close>

definition module_perm :: "PlanModule \<Rightarrow> PlanModule \<Rightarrow> bool" where
  "module_perm m m' \<longleftrightarrow> pm_Code m' = pm_Code m \<and> mset (pm_Capabilities m') = mset (pm_Capabilities m) \<and>
     mset (pm_Quotas m') = mset (pm_Quotas m) \<and> mset (pm_Fields m') = mset (pm_Fields m)"

definition terms_perm :: "Terms \<Rightarrow> Terms \<Rightarrow> bool" where
  "terms_perm t t' \<longleftrightarrow>
     (\<exists>ms. list_all2 module_perm (terms_Modules t) ms \<and> mset (terms_Modules t') = mset ms) \<and>
     mset (terms_FeatureCodes t') = mset (terms_FeatureCodes t) \<and>
     mset (terms_SalesScope t') = mset (terms_SalesScope t) \<and>
     terms_ValidityMode t' = terms_ValidityMode t \<and> terms_ValidityDays t' = terms_ValidityDays t \<and>
     terms_PriceRef t' = terms_PriceRef t"

lemma module_ok_perm: "module_perm m m' \<Longrightarrow> module_ok scopes c m \<Longrightarrow> module_ok scopes c m'"
proof -
  assume p: "module_perm m m'" and ok: "module_ok scopes c m"
  have "set (pm_Capabilities m') = set (pm_Capabilities m)" "set (pm_Quotas m') = set (pm_Quotas m)"
    "set (pm_Fields m') = set (pm_Fields m)" "length (pm_Capabilities m') = length (pm_Capabilities m)"
    "length (pm_Quotas m') = length (pm_Quotas m)" "length (pm_Fields m') = length (pm_Fields m)"
    "pm_Code m' = pm_Code m"
    using p unfolding module_perm_def by (auto dest: mset_eq_setD mset_eq_length)
  moreover have "mset (map quota_Key (pm_Quotas m')) = mset (map quota_Key (pm_Quotas m))"
    "mset (map field_id (pm_Fields m')) = mset (map field_id (pm_Fields m))"
    using p by (simp_all add: module_perm_def)
  then have "distinct (map quota_Key (pm_Quotas m'))" "distinct (map field_id (pm_Fields m'))"
    using ok mset_eq_imp_distinct_iff unfolding module_ok_def by blast+
  ultimately show ?thesis using ok unfolding module_ok_def
    by (simp only: length_0_conv [symmetric]) auto
qed

lemma canonical_module_perm:
  assumes "Catalog_Validate (entitlement_catalog c) = None" "module_ok scopes c m" "module_perm m m'"
  shows "canonical_module m' = canonical_module m"
proof -
  have "sort (pm_Capabilities m') = sort (pm_Capabilities m)"
    using assms(3) by (intro sort_key_perm_unique) (auto simp: module_perm_def)
  moreover have "sort_key quota_Key (pm_Quotas m') = sort_key quota_Key (pm_Quotas m)"
    "sort_key field_id (pm_Fields m') = sort_key field_id (pm_Fields m)"
    using assms(2,3) module_ok_perm [OF assms(3,2)]
    by (intro sort_key_perm_unique; auto simp: module_perm_def module_ok_def distinct_map)+
  ultimately show ?thesis
    using canonical_module_sorts [OF assms(1,2)] canonical_module_sorts [OF assms(1) module_ok_perm [OF assms(3,2)]]
      assms(3) by (simp add: module_perm_def)
qed

lemma Terms_Canonical_perm:
  assumes "Catalog_Validate (entitlement_catalog c) = None" "Terms_Validate t c = None" "terms_perm t t'"
  shows "Terms_Canonical t' = Terms_Canonical t"
proof -
  have wf: "terms_wf t c" using assms(2) by (simp add: Terms_Validate_None)
  obtain ms where ms: "list_all2 module_perm (terms_Modules t) ms" "mset (terms_Modules t') = mset ms"
    using assms(3) unfolding terms_perm_def by blast
  have "\<forall>m \<in> set (terms_Modules t). module_ok (terms_SalesScope t) c m" using wf by (simp add: terms_wf_def)
  with ms(1) have can: "map canonical_module ms = map canonical_module (terms_Modules t)"
    by (induction rule: list_all2_induct) (auto dest: canonical_module_perm [OF assms(1)])
  have "pm_Code (canonical_module m) = pm_Code m" if "m \<in> set (terms_Modules t)" for m
    using wf that by (auto simp: terms_wf_def module_ok_def canonical_module_def)
  then have "map pm_Code (map canonical_module (terms_Modules t)) = map pm_Code (terms_Modules t)" by simp
  then have "distinct (map pm_Code (map canonical_module (terms_Modules t)))"
    using wf by (simp only: terms_wf_def)
  then have inj: "inj_on pm_Code (set (map canonical_module (terms_Modules t)))"
    unfolding distinct_map by blast
  have "mset (map canonical_module (terms_Modules t)) = mset (map canonical_module (terms_Modules t'))"
    using ms(2) by (simp add: can [symmetric])
  from sort_key_perm_unique [OF this inj]
  have "sort_key pm_Code (map canonical_module (terms_Modules t')) =
      sort_key pm_Code (map canonical_module (terms_Modules t))" by simp
  moreover have "sort (map json_copy (terms_FeatureCodes t')) = sort (map json_copy (terms_FeatureCodes t))"
    "sort (map json_copy (terms_SalesScope t')) = sort (map json_copy (terms_SalesScope t))"
    using assms(3) by (intro sort_key_perm_unique; simp add: terms_perm_def)+
  ultimately show ?thesis using assms(3) by (simp add: Terms_Canonical_def terms_perm_def)
qed

end
