(* ===== verification/Subscription.thy ===== *)
theory Subscription
  imports Plan
begin

section \<open>Subscriptions\<close>

text \<open>
  The package \<open>internal/commercial/domain/subscription\<close>: the default rules and their order
  (\<open>model.go\<close>), the lifecycle policy (\<open>lifecycle.go\<close>) and the materialisation of plan terms
  into entitlement sources (\<open>materialize.go\<close>). The lemmas show that the order of the rules is
  total, and that a validated plan materialises into sources that the entitlement resolver
  accepts.
\<close>

datatype sub_error =
    Sub_ErrInvalid
  | Sub_ErrConflict
  | Sub_ErrRequestConflict
  | Sub_ErrNotFound
  | Sub_ErrNoEligibleDefault
  | Sub_ErrScope

abbreviation KindBase :: string where "KindBase \<equiv> ''BASE''"
abbreviation StateTrial :: string where "StateTrial \<equiv> ''TRIAL''"
abbreviation StateActive :: string where "StateActive \<equiv> ''ACTIVE''"
abbreviation StateGrace :: string where "StateGrace \<equiv> ''GRACE''"
abbreviation StateRestricted :: string where "StateRestricted \<equiv> ''RESTRICTED''"
abbreviation StateProvisioning :: string where "StateProvisioning \<equiv> ''PROVISIONING''"
abbreviation StateEnded :: string where "StateEnded \<equiv> ''ENDED''"
abbreviation OriginDefaultRule :: string where "OriginDefaultRule \<equiv> ''DEFAULT_RULE''"
abbreviation OriginInitialActivation :: string where "OriginInitialActivation \<equiv> ''INITIAL_ACTIVATION''"

definition ValidCode :: "string \<Rightarrow> bool" where
  "ValidCode v \<longleftrightarrow> length v > 0 \<and> length v \<le> 96 \<and> code_pattern v"

definition ValidState :: "string \<Rightarrow> bool" where
  "ValidState v \<longleftrightarrow>
     v \<in> {StateTrial, StateActive, StateGrace, StateRestricted, StateProvisioning, StateEnded}"

subsection \<open>Default rules\<close>

record Rule =
  rule_RuleID :: string
  rule_Version :: uint64
  rule_Priority :: "32 word"
  rule_SalesScope :: string
  rule_PlanCode :: string
  rule_PlanVersion :: uint64
  rule_Enabled :: bool
  rule_Reason :: string
  rule_ActorID :: string
  rule_UpdatedAt :: time

definition Rule_Validate :: "Rule \<Rightarrow> sub_error err" where
  "Rule_Validate r =
     (if \<not> ValidCode (rule_RuleID r) \<or> rule_Version r = 0 \<or>
         (rule_SalesScope r \<noteq> ''*'' \<and> \<not> ValidCode (rule_SalesScope r)) \<or>
         \<not> ValidCode (rule_PlanCode r) \<or> rule_PlanVersion r = 0 \<or> TrimSpace (rule_Reason r) = '''' \<or>
         length (rule_Reason r) > 512 \<or> rule_ActorID r = '''' \<or> IsZero (rule_UpdatedAt r)
      then Some Sub_ErrInvalid else None)"

definition Matches :: "Rule \<Rightarrow> string \<Rightarrow> bool" where
  "Matches r scope \<longleftrightarrow> rule_Enabled r \<and> (rule_SalesScope r = ''*'' \<or> rule_SalesScope r = scope)"

text \<open>
  The comparison of \<open>Ordered\<close> (\<open>int32\<close> priorities compare signed) and the sort by it, as the
  sort by the key that represents it; \<open>rule_less_key\<close> shows that they agree.
\<close>

definition rule_less :: "Rule \<Rightarrow> Rule \<Rightarrow> bool" where
  "rule_less a b =
     (if rule_Priority a \<noteq> rule_Priority b then sint (rule_Priority a) > sint (rule_Priority b)
      else if (rule_SalesScope a = ''*'') \<noteq> (rule_SalesScope b = ''*'') then rule_SalesScope a \<noteq> ''*''
      else rule_RuleID a < rule_RuleID b)"

definition rule_key :: "Rule \<Rightarrow> int \<times> bool \<times> string" where
  "rule_key r = (- sint (rule_Priority r), rule_SalesScope r = ''*'', rule_RuleID r)"

definition Ordered :: "Rule list \<Rightarrow> Rule list" where
  "Ordered rules = sort_key rule_key rules"

subsection \<open>Subscriptions\<close>

record Subscription =
  sub_Revision :: uint64
  sub_PeriodStart :: time
  sub_PeriodEnd :: "time option"
  sub_RenewalStopped :: bool
  sub_PendingChangeID :: string
  sub_SourceNamespace :: string
  sub_Origin :: string
  sub_ID :: string
  sub_TenantID :: string
  sub_Kind :: string
  sub_State :: string
  sub_PlanCode :: string
  sub_PlanVersion :: uint64
  sub_RuleID :: string
  sub_RuleVersion :: uint64
  sub_SalesScope :: string
  sub_EntitlementSourceVersion :: uint64
  sub_CreatedAt :: time
  sub_MatchExplanation :: string

definition validOrigin :: "Subscription \<Rightarrow> bool" where
  "validOrigin s \<longleftrightarrow>
     (if sub_Origin s = '''' \<or> sub_Origin s = OriginDefaultRule
      then ValidCode (sub_RuleID s) \<and> sub_RuleVersion s > 0
      else if sub_Origin s = OriginInitialActivation
      then sub_RuleID s = '''' \<and> sub_RuleVersion s = 0
      else False)"

definition pendingInitial :: "Subscription \<Rightarrow> bool" where
  "pendingInitial s \<longleftrightarrow> sub_Origin s = OriginInitialActivation \<and>
     sub_State s = StateProvisioning \<and> sub_PendingChangeID s \<noteq> ''''"

definition Subscription_Validate :: "Subscription \<Rightarrow> sub_error err" where
  "Subscription_Validate s =
     (if sub_Revision s > 0 \<and>
         (IsZero (sub_PeriodStart s) \<or> optional (\<lambda>e. \<not> e > sub_PeriodStart s) (sub_PeriodEnd s) \<or>
          sub_SourceNamespace s = '''' \<or> length (sub_SourceNamespace s) > 64 \<or>
          length (sub_PendingChangeID s) > 64) then Some Sub_ErrInvalid
      else if sub_ID s = '''' \<or> sub_TenantID s = '''' \<or> sub_Kind s \<noteq> KindBase \<or>
         \<not> ValidState (sub_State s) \<or> \<not> ValidCode (sub_PlanCode s) \<or> sub_PlanVersion s = 0 \<or>
         \<not> validOrigin s \<or> (sub_SalesScope s \<noteq> ''*'' \<and> \<not> ValidCode (sub_SalesScope s)) \<or>
         (\<not> pendingInitial s \<and> sub_EntitlementSourceVersion s = 0) \<or> IsZero (sub_CreatedAt s) \<or>
         sub_MatchExplanation s = '''' then Some Sub_ErrInvalid
      else if sub_State s = StateProvisioning \<and> \<not> pendingInitial s then Some Sub_ErrInvalid
      else None)"

subsection \<open>The lifecycle policy\<close>

record PlanReference =
  ref_PlanCode :: string
  ref_Version :: uint64

record LifecyclePolicy =
  lp_TrialPlans :: "PlanReference list"
  lp_GraceDuration :: duration
  lp_BusinessTimezone :: string

datatype lifecycle_error =
    InvalidGraceDuration
  | InvalidBusinessTimezone
  | InvalidTrialPlan
  | DuplicateTrialPlan

fun validate_trial_plans :: "PlanReference list \<Rightarrow> PlanReference list \<Rightarrow> lifecycle_error err" where
  "validate_trial_plans seen [] = None"
| "validate_trial_plans seen (plan # plans) =
     (if \<not> ValidCode (ref_PlanCode plan) \<or> ref_Version plan = 0 then Some InvalidTrialPlan
      else if plan \<in> set seen then Some DuplicateTrialPlan
      else validate_trial_plans (plan # seen) plans)"

definition LifecyclePolicy_Validate :: "(string \<Rightarrow> bool) \<Rightarrow> LifecyclePolicy \<Rightarrow> lifecycle_error err" where
  "LifecyclePolicy_Validate zones p =
     (if lp_GraceDuration p < 0 \<or> lp_GraceDuration p > 365 * 24 * Hour \<or>
         lp_GraceDuration p mod Microsecond \<noteq> 0 then Some InvalidGraceDuration
      else if lp_BusinessTimezone p \<noteq> '''' \<and>
         (TrimSpace (lp_BusinessTimezone p) \<noteq> lp_BusinessTimezone p \<or>
          length (lp_BusinessTimezone p) > 64 \<or> \<not> LoadLocation zones (lp_BusinessTimezone p))
        then Some InvalidBusinessTimezone
      else validate_trial_plans [] (lp_TrialPlans p))"

definition StateFor :: "LifecyclePolicy \<Rightarrow> string \<Rightarrow> uint64 \<Rightarrow> string" where
  "StateFor p planCode version =
     (if \<exists>trial \<in> set (lp_TrialPlans p). ref_PlanCode trial = planCode \<and> ref_Version trial = version
      then StateTrial else StateActive)"

definition Trial :: "LifecyclePolicy \<Rightarrow> string \<Rightarrow> uint64 \<Rightarrow> bool" where
  "Trial p planCode version \<longleftrightarrow> StateFor p planCode version = StateTrial"

definition LifecyclePolicy_Canonical :: "LifecyclePolicy \<Rightarrow> LifecyclePolicy" where
  "LifecyclePolicy_Canonical p =
     \<lparr>lp_TrialPlans = sort_key (\<lambda>r. (ref_PlanCode r, ref_Version r)) (lp_TrialPlans p),
      lp_GraceDuration = lp_GraceDuration p, lp_BusinessTimezone = lp_BusinessTimezone p\<rparr>"

definition Timezone :: "LifecyclePolicy \<Rightarrow> string" where
  "Timezone p = (if lp_BusinessTimezone p = '''' then ''UTC'' else lp_BusinessTimezone p)"

subsection \<open>Materialisation of plan terms\<close>

text \<open>\<open>hex.EncodeToString(h[:12])\<close> is the first 24 digits of the hexadecimal digest.\<close>

definition Subscription_ID :: "string \<Rightarrow> string" where
  "Subscription_ID tenant = ''sub-'' @ take 24 (sha256_hex tenant)"

definition SourceID :: "string \<Rightarrow> string \<Rightarrow> string \<Rightarrow> string \<Rightarrow> string \<Rightarrow> string" where
  "SourceID namespace module_code kind key action =
     ''plan-'' @ take 24 (sha256_hex (namespace @ [CHR 0x00] @ module_code @ [CHR 0x00] @ kind @
       [CHR 0x00] @ key @ [CHR 0x00] @ action))"

definition plan_source ::
  "string \<Rightarrow> string \<Rightarrow> time \<Rightarrow> string \<Rightarrow> string \<Rightarrow> string \<Rightarrow> string \<Rightarrow> string \<Rightarrow> Limit \<Rightarrow> Source" where
  "plan_source tenant namespace at module_code kind key action effect limit =
     \<lparr>src_ID = SourceID namespace module_code kind key action, src_TenantID = tenant,
      src_SourceKind = PlanSource, src_ModuleCode = module_code, src_Kind = kind, src_Key = key,
      src_Action = action, src_Effect = effect, src_Limit = limit, src_EffectiveAt = at,
      src_ExpiresAt = None, src_RevokedAt = None, src_Reason = ''base subscription '' @ namespace,
      src_ActorID = ''system:subscription'', src_Version = 1\<rparr>"

definition field_effect :: "PlanField \<Rightarrow> string" where
  "field_effect f =
     (if field_Mode f = ''deny'' then Effect_Deny
      else if field_Mode f = ''masked'' then SafetyMask else Effect_Grant)"

definition module_sources :: "string \<Rightarrow> string \<Rightarrow> time \<Rightarrow> PlanModule \<Rightarrow> Source list" where
  "module_sources tenant namespace at m =
     [plan_source tenant namespace at (pm_Code m) Kind_Module (pm_Code m) '''' Effect_Grant zero_limit] @
     map (\<lambda>c. plan_source tenant namespace at (pm_Code m) Kind_Capability c '''' Effect_Grant zero_limit)
       (pm_Capabilities m) @
     map (\<lambda>q. plan_source tenant namespace at (pm_Code m) Kind_Quota (quota_Key q) '''' QuotaReplace
            (quota_limit q)) (pm_Quotas m) @
     map (\<lambda>f. plan_source tenant namespace at (pm_Code m) Kind_Field (field_Key f) (field_Action f)
            (field_effect f) zero_limit) (pm_Fields m)"

definition Sources :: "string \<Rightarrow> string \<Rightarrow> time \<Rightarrow> Terms \<Rightarrow> Source list" where
  "Sources tenant namespace at terms =
     (let out = concat (map (module_sources tenant namespace at) (terms_Modules terms))
      in if terms_ValidityMode terms = ''fixed_days''
         then map (\<lambda>s. s\<lparr>src_ExpiresAt := Some (AddDays at (uint (terms_ValidityDays terms)))\<rparr>) out
         else out)"

section \<open>The order of the default rules\<close>

lemma rule_less_key: "rule_less a b \<longleftrightarrow> rule_key a < rule_key b"
proof -
  have "rule_Priority a = rule_Priority b" if "sint (rule_Priority a) = sint (rule_Priority b)"
    using arg_cong [OF that, of "of_int :: int \<Rightarrow> 32 word"] by (simp only: of_int_sint scast_id)
  then have "rule_Priority a \<noteq> rule_Priority b \<longleftrightarrow> sint (rule_Priority a) \<noteq> sint (rule_Priority b)"
    by auto
  then show ?thesis unfolding rule_less_def rule_key_def
    by (auto simp: less_prod_def less_eq_prod_def split: if_splits)
qed

lemma rule_key_inj: "rule_key a = rule_key b \<Longrightarrow> rule_RuleID a = rule_RuleID b"
  by (simp add: rule_key_def)

section \<open>Materialised sources\<close>

definition validity_end :: "time \<Rightarrow> Terms \<Rightarrow> time option" where
  "validity_end at t =
     (if terms_ValidityMode t = ''fixed_days'' then Some (AddDays at (uint (terms_ValidityDays t))) else None)"

lemma module_sources_expiry:
  "s \<in> set (module_sources tenant namespace at m) \<Longrightarrow> src_ExpiresAt s = None"
  by (auto simp: module_sources_def plan_source_def)

lemma Sources_alt:
  "Sources tenant namespace at t =
     map (\<lambda>s. s\<lparr>src_ExpiresAt := validity_end at t\<rparr>)
       (concat (map (module_sources tenant namespace at) (terms_Modules t)))"
proof -
  have "s\<lparr>src_ExpiresAt := None\<rparr> = s" if "src_ExpiresAt s = None" for s :: Source
    using that by simp
  then have "map (\<lambda>s. s\<lparr>src_ExpiresAt := None\<rparr>) (concat (map (module_sources tenant namespace at) (terms_Modules t)))
      = concat (map (module_sources tenant namespace at) (terms_Modules t))"
    by (intro map_idI) (auto dest: module_sources_expiry)
  then show ?thesis by (simp add: Sources_def validity_end_def Let_def)
qed

definition term_source ::
  "string \<Rightarrow> string \<Rightarrow> time \<Rightarrow> Terms \<Rightarrow> string \<Rightarrow> string \<Rightarrow> string \<Rightarrow> string \<Rightarrow> string \<Rightarrow> Limit \<Rightarrow> Source" where
  "term_source tenant namespace at t m kind key action effect limit =
     (plan_source tenant namespace at m kind key action effect limit)\<lparr>src_ExpiresAt := validity_end at t\<rparr>"

lemma term_source_fields [simp]:
  "src_ID (term_source tenant namespace at t m kind key action effect limit) =
     SourceID namespace m kind key action"
  "src_TenantID (term_source tenant namespace at t m kind key action effect limit) = tenant"
  "src_SourceKind (term_source tenant namespace at t m kind key action effect limit) = PlanSource"
  "src_ModuleCode (term_source tenant namespace at t m kind key action effect limit) = m"
  "src_Kind (term_source tenant namespace at t m kind key action effect limit) = kind"
  "src_Key (term_source tenant namespace at t m kind key action effect limit) = key"
  "src_Action (term_source tenant namespace at t m kind key action effect limit) = action"
  "src_Effect (term_source tenant namespace at t m kind key action effect limit) = effect"
  "src_Limit (term_source tenant namespace at t m kind key action effect limit) = limit"
  "src_EffectiveAt (term_source tenant namespace at t m kind key action effect limit) = at"
  "src_ExpiresAt (term_source tenant namespace at t m kind key action effect limit) = validity_end at t"
  "src_RevokedAt (term_source tenant namespace at t m kind key action effect limit) = None"
  "src_Reason (term_source tenant namespace at t m kind key action effect limit) = ''base subscription '' @ namespace"
  "src_ActorID (term_source tenant namespace at t m kind key action effect limit) = ''system:subscription''"
  "src_Version (term_source tenant namespace at t m kind key action effect limit) = 1"
  by (simp_all add: term_source_def plan_source_def)

lemma Sources_set:
  "set (Sources tenant namespace at t) = (\<Union>m \<in> set (terms_Modules t).
     {term_source tenant namespace at t (pm_Code m) Kind_Module (pm_Code m) '''' Effect_Grant zero_limit} \<union>
     (\<lambda>c. term_source tenant namespace at t (pm_Code m) Kind_Capability c '''' Effect_Grant zero_limit)
        ` set (pm_Capabilities m) \<union>
     (\<lambda>q. term_source tenant namespace at t (pm_Code m) Kind_Quota (quota_Key q) '''' QuotaReplace (quota_limit q))
        ` set (pm_Quotas m) \<union>
     (\<lambda>f. term_source tenant namespace at t (pm_Code m) Kind_Field (field_Key f) (field_Action f) (field_effect f)
        zero_limit) ` set (pm_Fields m))"
  unfolding Sources_alt module_sources_def term_source_def
  by (simp add: image_UN image_Un image_image Un_assoc)

lemma Sources_cases:
  assumes "s \<in> set (Sources tenant namespace at t)"
  obtains (Module) m where "m \<in> set (terms_Modules t)"
    "s = term_source tenant namespace at t (pm_Code m) Kind_Module (pm_Code m) '''' Effect_Grant zero_limit"
  | (Capability) m c where "m \<in> set (terms_Modules t)" "c \<in> set (pm_Capabilities m)"
    "s = term_source tenant namespace at t (pm_Code m) Kind_Capability c '''' Effect_Grant zero_limit"
  | (Quota) m q where "m \<in> set (terms_Modules t)" "q \<in> set (pm_Quotas m)"
    "s = term_source tenant namespace at t (pm_Code m) Kind_Quota (quota_Key q) '''' QuotaReplace (quota_limit q)"
  | (Field) m f where "m \<in> set (terms_Modules t)" "f \<in> set (pm_Fields m)"
    "s = term_source tenant namespace at t (pm_Code m) Kind_Field (field_Key f) (field_Action f) (field_effect f)
        zero_limit"
  using assms unfolding Sources_set by auto

lemma base_reason_nonblank: "TrimSpace (''base subscription '' @ namespace) \<noteq> []"
proof -
  have "CHR ''b'' \<in> set (TrimSpace (''base subscription '' @ namespace))"
    by (rule TrimSpace_keeps) (simp_all add: space_runes_def)
  then show ?thesis by auto
qed

lemma length_SourceID [simp]: "length (SourceID n m k key a) = 29"
  by (simp add: SourceID_def length_sha256_hex)

text \<open>When the clock and the identifiers of an activation are acceptable.\<close>

definition activation_ok :: "string \<Rightarrow> string \<Rightarrow> time \<Rightarrow> Terms \<Rightarrow> bool" where
  "activation_ok tenant namespace at t \<longleftrightarrow>
     TrimSpace tenant \<noteq> '''' \<and> length tenant \<le> 64 \<and> length namespace \<le> 64 \<and>
     1970 \<le> Year at \<and> Year at \<le> 9999 \<and> at mod 1000 = 0 \<and> at \<noteq> 0 \<and>
     Year (AddDays at (uint (terms_ValidityDays t))) \<le> 9999"

lemma validity_end_ok:
  assumes "validity_ok t" "activation_ok tenant namespace at t" "validity_end at t = Some e"
  shows "at < e" "Year e \<le> 9999" "e mod 1000 = 0"
proof -
  from assms(1,3) have e: "e = AddDays at (uint (terms_ValidityDays t))" "1 \<le> terms_ValidityDays t"
    by (auto simp: validity_end_def validity_ok_def split: if_splits)
  have "0 < uint (terms_ValidityDays t)" using e(2) by (simp add: word_le_def)
  then show "at < e" by (simp add: e AddDays_after)
  show "Year e \<le> 9999" using assms(2) by (simp add: e activation_ok_def)
  have "Day mod 1000 = 0" by (simp add: duration_defs)
  then have "(uint (terms_ValidityDays t) * Day) mod 1000 = 0" by (metis mod_mult_right_eq mult_zero_right mod_0)
  with assms(2) show "e mod 1000 = 0"
    unfolding e AddDays_def activation_ok_def by (metis mod_add_eq add_0 mod_0)
qed

lemma term_source_common:
  assumes "validity_ok t" "activation_ok tenant namespace at t" "validCode m" "validCode key" "Limit_Valid limit"
  shows "shape_common (term_source tenant namespace at t m kind key action effect limit)"
proof -
  have "SourceID namespace m kind key action \<noteq> []"
    using length_SourceID [of namespace m kind key action] by (metis list.size(3) zero_neq_numeral)
  moreover have "\<not> optional (\<lambda>e. \<not> e > at \<or> Year e > 9999 \<or> Nanosecond e mod 1000 \<noteq> 0) (validity_end at t)"
    using validity_end_ok [OF assms(1,2)]
    by (cases "validity_end at t") (auto simp: optional_def Nanosecond_mod_1000)
  ultimately show ?thesis using assms(2-5) base_reason_nonblank [of namespace]
    by (simp add: shape_common_def activation_ok_def Nanosecond_mod_1000 IsZero_def optional_def)
qed

lemma Code_validCode: "Code s \<Longrightarrow> validCode s"
  by (simp add: Code_def validCode_def)

lemma zero_limit_fields [simp]:
  "Limit_Valid zero_limit" "\<not> Unlimited zero_limit" "Value zero_limit = 0"
  by (simp_all add: Limit_Valid_def zero_limit_def)

lemma Sources_valid:
  assumes "Catalog_Validate (entitlement_catalog c) = None" "Terms_Validate t c = None"
    and "activation_ok tenant namespace at t" "s \<in> set (Sources tenant namespace at t)"
  shows "Source_Validate s (entitlement_catalog c) = None" "src_TenantID s = tenant"
proof -
  have wf: "terms_wf t c" using assms(2) by (simp add: Terms_Validate_None)
  then have vo: "validity_ok t" by (simp add: terms_wf_def)
  have ok: "module_ok (terms_SalesScope t) c m" if "m \<in> set (terms_Modules t)" for m
    using wf that by (simp add: terms_wf_def)
  note common = term_source_common [OF vo assms(3)]
  have def_of: "\<exists>d. Catalog_Find c (pm_Code m) = Some d \<and> set (pm_Capabilities m) \<subseteq> set (mod_Capabilities d) \<and>
      (\<forall>q \<in> set (pm_Quotas m). quota_Key q \<in> set (mod_QuotaKeys d) \<and> Limit_Valid (quota_limit q)) \<and>
      (\<forall>f \<in> set (pm_Fields m). field_ok d f)" and code: "validCode (pm_Code m)"
    if "m \<in> set (terms_Modules t)" for m
    using ok [OF that] by (auto simp: module_ok_def Code_validCode)
  show "Source_Validate s (entitlement_catalog c) = None"
    using assms(4)
  proof (cases rule: Sources_cases)
    case (Module m)
    with def_of [OF Module(1)] common [OF code [OF Module(1)] code [OF Module(1)]] show ?thesis
      by (auto simp: Source_Validate_def Source_ValidateShape_def shape_effect_def Definition_entitlement_catalog)
  next
    case (Capability m k)
    moreover have "validCode k" using module_ok_codes(1) [OF assms(1) ok [OF Capability(1)]] Capability(2) by blast
    ultimately show ?thesis using def_of [OF Capability(1)] common [OF code [OF Capability(1)], of k]
      by (auto simp: Source_Validate_def Source_ValidateShape_def shape_effect_def Definition_entitlement_catalog)
  next
    case (Quota m q)
    moreover have "validCode (quota_Key q)" using module_ok_codes(2) [OF assms(1) ok [OF Quota(1)]] Quota(2) by blast
    ultimately show ?thesis using def_of [OF Quota(1)] common [OF code [OF Quota(1)], of "quota_Key q" "quota_limit q"]
      by (auto simp: Source_Validate_def Source_ValidateShape_def Definition_entitlement_catalog)
  next
    case (Field m f)
    moreover have "validCode (field_Key f)" using module_ok_codes(3) [OF assms(1) ok [OF Field(1)]] Field(2) by blast
    ultimately show ?thesis using def_of [OF Field(1)] common [OF code [OF Field(1)], of "field_Key f"]
      by (auto simp: Source_Validate_def Source_ValidateShape_def shape_effect_def Definition_entitlement_catalog field_effect_def field_ok_def)
  qed
  show "src_TenantID s = tenant" using assms(4) by (cases rule: Sources_cases) simp_all
qed

end
