(* ===== verification/Sha_Eval.thy ===== *)
theory Sha_Eval
  imports Go_Digest
begin

unbundle bit_operations_syntax

section \<open>Evaluating SHA-256 inside the logic\<close>

text \<open>
  \<open>sha256_hex\<close> is defined over 32-bit words, as the standard states it. This theory gives an
  equal definition over lists of bits (least significant first), which rewriting evaluates
  quickly, and makes it the code equation of \<open>sha256_hex\<close>: identifiers and digests of concrete
  values can then be computed in proofs. The test vectors of the standard close the theory.
\<close>

type_synonym bits = "bool list"

fun bl_xor :: "bits \<Rightarrow> bits \<Rightarrow> bits" where
  "bl_xor (a # as) (b # bs) = (if a then \<not> b else b) # bl_xor as bs"
| "bl_xor as bs = []"

fun bl_add :: "bool \<Rightarrow> bits \<Rightarrow> bits \<Rightarrow> bits" where
  "bl_add c (a # as) (b # bs) =
     (if a then (if b then c # bl_add True as bs else (\<not> c) # bl_add c as bs)
      else (if b then (\<not> c) # bl_add c as bs else c # bl_add False as bs))"
| "bl_add c as bs = []"

fun bl_ch :: "bits \<Rightarrow> bits \<Rightarrow> bits \<Rightarrow> bits" where
  "bl_ch (e # es) (f # fs) (g # gs) = (if e then f else g) # bl_ch es fs gs"
| "bl_ch es fs gs = []"

fun bl_maj :: "bits \<Rightarrow> bits \<Rightarrow> bits \<Rightarrow> bits" where
  "bl_maj (a # as) (b # bs) (c # cs) = (if a then b \<or> c else b \<and> c) # bl_maj as bs cs"
| "bl_maj as bs cs = []"

definition bl_plus :: "bits \<Rightarrow> bits \<Rightarrow> bits" where
  "bl_plus a b = bl_add False a b"
definition bl_rotr :: "nat \<Rightarrow> bits \<Rightarrow> bits" where
  "bl_rotr n w = drop n w @ take n w"
definition bl_shr :: "nat \<Rightarrow> bits \<Rightarrow> bits" where
  "bl_shr n w = drop n w @ replicate n False"

type_synonym bl_state = "bits \<times> bits \<times> bits \<times> bits \<times> bits \<times> bits \<times> bits \<times> bits"

fun bl_extend :: "nat \<Rightarrow> bits list \<Rightarrow> bits list" where
  "bl_extend 0 r = r"
| "bl_extend (Suc n) r =
     (let a = r ! 1; b = r ! 14;
          s1 = bl_xor (bl_xor (bl_rotr 17 a) (bl_rotr 19 a)) (bl_shr 10 a);
          s0 = bl_xor (bl_xor (bl_rotr 7 b) (bl_rotr 18 b)) (bl_shr 3 b)
      in bl_extend n (bl_plus (bl_plus (bl_plus s1 (r ! 6)) s0) (r ! 15) # r))"

fun bl_round :: "bits \<times> bits \<Rightarrow> bl_state \<Rightarrow> bl_state" where
  "bl_round (k, w) (a, b, c, d, e, f, g, h) =
     (let t1 = bl_plus (bl_plus (bl_plus (bl_plus h
                 (bl_xor (bl_xor (bl_rotr 6 e) (bl_rotr 11 e)) (bl_rotr 25 e))) (bl_ch e f g)) k) w;
          t2 = bl_plus (bl_xor (bl_xor (bl_rotr 2 a) (bl_rotr 13 a)) (bl_rotr 22 a)) (bl_maj a b c)
      in (bl_plus t1 t2, a, b, c, bl_plus d t1, e, f, g))"

definition nibble_bits :: "char \<Rightarrow> bits" where
  "nibble_bits c =
     (if c = CHR ''0'' then [False, False, False, False]
      else if c = CHR ''1'' then [True, False, False, False]
      else if c = CHR ''2'' then [False, True, False, False]
      else if c = CHR ''3'' then [True, True, False, False]
      else if c = CHR ''4'' then [False, False, True, False]
      else if c = CHR ''5'' then [True, False, True, False]
      else if c = CHR ''6'' then [False, True, True, False]
      else if c = CHR ''7'' then [True, True, True, False]
      else if c = CHR ''8'' then [False, False, False, True]
      else if c = CHR ''9'' then [True, False, False, True]
      else if c = CHR ''a'' then [False, True, False, True]
      else if c = CHR ''b'' then [True, True, False, True]
      else if c = CHR ''c'' then [False, False, True, True]
      else if c = CHR ''d'' then [True, False, True, True]
      else if c = CHR ''e'' then [False, True, True, True]
      else if c = CHR ''f'' then [True, True, True, True]
      else [])"

definition hex_bits :: "string \<Rightarrow> bits" where
  "hex_bits s = concat (map nibble_bits (rev s))"

definition bl_k :: "bits list" where
  "bl_k = map hex_bits
    [''428a2f98'', ''71374491'', ''b5c0fbcf'', ''e9b5dba5'', ''3956c25b'', ''59f111f1'',
     ''923f82a4'', ''ab1c5ed5'', ''d807aa98'', ''12835b01'', ''243185be'', ''550c7dc3'',
     ''72be5d74'', ''80deb1fe'', ''9bdc06a7'', ''c19bf174'', ''e49b69c1'', ''efbe4786'',
     ''0fc19dc6'', ''240ca1cc'', ''2de92c6f'', ''4a7484aa'', ''5cb0a9dc'', ''76f988da'',
     ''983e5152'', ''a831c66d'', ''b00327c8'', ''bf597fc7'', ''c6e00bf3'', ''d5a79147'',
     ''06ca6351'', ''14292967'', ''27b70a85'', ''2e1b2138'', ''4d2c6dfc'', ''53380d13'',
     ''650a7354'', ''766a0abb'', ''81c2c92e'', ''92722c85'', ''a2bfe8a1'', ''a81a664b'',
     ''c24b8b70'', ''c76c51a3'', ''d192e819'', ''d6990624'', ''f40e3585'', ''106aa070'',
     ''19a4c116'', ''1e376c08'', ''2748774c'', ''34b0bcb5'', ''391c0cb3'', ''4ed8aa4a'',
     ''5b9cca4f'', ''682e6ff3'', ''748f82ee'', ''78a5636f'', ''84c87814'', ''8cc70208'',
     ''90befffa'', ''a4506ceb'', ''bef9a3f7'', ''c67178f2'']"

definition bl_init :: bl_state where
  "bl_init = (hex_bits ''6a09e667'',
     hex_bits ''bb67ae85'',
     hex_bits ''3c6ef372'',
     hex_bits ''a54ff53a'',
     hex_bits ''510e527f'',
     hex_bits ''9b05688c'',
     hex_bits ''1f83d9ab'',
     hex_bits ''5be0cd19'')"

fun bl_sum :: "bl_state \<Rightarrow> bl_state \<Rightarrow> bl_state" where
  "bl_sum (a, b, c, d, e, f, g, h) (a', b', c', d', e', f', g', h') =
     (bl_plus a a', bl_plus b b', bl_plus c c', bl_plus d d', bl_plus e e', bl_plus f f',
      bl_plus g g', bl_plus h h')"

definition bl_block :: "bl_state \<Rightarrow> bits list \<Rightarrow> bl_state" where
  "bl_block st ws = bl_sum st (fold bl_round (zip bl_k (rev (bl_extend 48 (rev ws)))) st)"

function bl_blocks :: "bl_state \<Rightarrow> bits list \<Rightarrow> bl_state" where
  "bl_blocks st ws =
     (if ws = [] then st else bl_blocks (bl_block st (take 16 ws)) (drop 16 ws))"
  by pat_completeness auto
termination
  by (relation "measure (length \<circ> snd)") auto

declare bl_blocks.simps [simp del]

text \<open>Bytes as bits, the bit length of the message as eight bytes, and the padded message.\<close>

definition char_bits :: "char \<Rightarrow> bits" where
  "char_bits c = (case c of Char b0 b1 b2 b3 b4 b5 b6 b7 \<Rightarrow> [b0, b1, b2, b3, b4, b5, b6, b7])"

fun bl_inc :: "bits \<Rightarrow> bits" where
  "bl_inc [] = []"
| "bl_inc (b # bs) = (if b then False # bl_inc bs else True # bs)"

fun bl_length :: "string \<Rightarrow> bits" where
  "bl_length [] = replicate 61 False"
| "bl_length (c # cs) = bl_inc (bl_length cs)"

fun bl_bytes :: "bits \<Rightarrow> bits list" where
  "bl_bytes (a # b # c # d # e # f # g # h # bs) = [a, b, c, d, e, f, g, h] # bl_bytes bs"
| "bl_bytes bs = []"

definition bl_pad :: "string \<Rightarrow> bits list" where
  "bl_pad m =
     map char_bits m @ [char_bits (CHR 0x80)] @
     replicate ((119 - length m mod 64) mod 64) (replicate 8 False) @
     rev (bl_bytes ([False, False, False] @ bl_length m))"

fun bl_words :: "bits list \<Rightarrow> bits list" where
  "bl_words (a # b # c # d # bs) = (d @ c @ b @ a) # bl_words bs"
| "bl_words bs = []"

fun hex_nibble :: "bool \<Rightarrow> bool \<Rightarrow> bool \<Rightarrow> bool \<Rightarrow> char" where
  "hex_nibble False False False False = CHR ''0''"
| "hex_nibble True False False False = CHR ''1''"
| "hex_nibble False True False False = CHR ''2''"
| "hex_nibble True True False False = CHR ''3''"
| "hex_nibble False False True False = CHR ''4''"
| "hex_nibble True False True False = CHR ''5''"
| "hex_nibble False True True False = CHR ''6''"
| "hex_nibble True True True False = CHR ''7''"
| "hex_nibble False False False True = CHR ''8''"
| "hex_nibble True False False True = CHR ''9''"
| "hex_nibble False True False True = CHR ''a''"
| "hex_nibble True True False True = CHR ''b''"
| "hex_nibble False False True True = CHR ''c''"
| "hex_nibble True False True True = CHR ''d''"
| "hex_nibble False True True True = CHR ''e''"
| "hex_nibble True True True True = CHR ''f''"

fun bl_hex_word :: "bits \<Rightarrow> string" where
  "bl_hex_word (a # b # c # d # bs) = bl_hex_word bs @ [hex_nibble a b c d]"
| "bl_hex_word bs = []"

fun bl_hex_state :: "bl_state \<Rightarrow> string" where
  "bl_hex_state (a, b, c, d, e, f, g, h) =
     bl_hex_word a @ bl_hex_word b @ bl_hex_word c @ bl_hex_word d @
     bl_hex_word e @ bl_hex_word f @ bl_hex_word g @ bl_hex_word h"

definition bl_sha256_hex :: "string \<Rightarrow> string" where
  "bl_sha256_hex m = bl_hex_state (bl_blocks bl_init (bl_words (bl_pad m)))"

section \<open>The two definitions agree\<close>

definition wd :: "bits \<Rightarrow> 32 word" where
  "wd bs = horner_sum of_bool 2 bs"

definition val :: "bits \<Rightarrow> nat" where
  "val bs = horner_sum of_bool 2 bs"

lemma bit_wd [bit_simps]: "bit (wd bs) n \<longleftrightarrow> n < 32 \<and> n < length bs \<and> bs ! n"
  by (simp add: wd_def bit_horner_sum_bit_word_iff)

lemma wd_val: "wd bs = word_of_nat (val bs)"
  by (induction bs) (simp_all add: wd_def val_def)

lemma lengths [simp]:
  "length (bl_xor a b) = min (length a) (length b)" "length (bl_add c a b) = min (length a) (length b)"
  "length (bl_plus a b) = min (length a) (length b)" "length (bl_rotr n a) = length a"
  "n \<le> length a \<Longrightarrow> length (bl_shr n a) = length a"
proof -
  show "length (bl_xor a b) = min (length a) (length b)" by (induction a b rule: bl_xor.induct) auto
  show add: "length (bl_add c a b) = min (length a) (length b)" for c a b
    by (induction c a b rule: bl_add.induct) auto
  show "length (bl_plus a b) = min (length a) (length b)" by (simp add: bl_plus_def add)
  show "length (bl_rotr n a) = length a" by (simp add: bl_rotr_def)
  show "n \<le> length a \<Longrightarrow> length (bl_shr n a) = length a" by (simp add: bl_shr_def)
qed

lemma lengths3 [simp]:
  "length (bl_ch e f g) = min (length e) (min (length f) (length g))"
  "length (bl_maj e f g) = min (length e) (min (length f) (length g))"
  by (induction e f g rule: bl_ch.induct) auto

lemma nth_bl_xor: "i < length a \<Longrightarrow> i < length b \<Longrightarrow> bl_xor a b ! i \<longleftrightarrow> (a ! i) \<noteq> (b ! i)"
proof (induction a b arbitrary: i rule: bl_xor.induct)
  case (1 a as b bs)
  then show ?case by (cases i) auto
qed auto

lemma nth_bl_ch:
  "i < length e \<Longrightarrow> i < length f \<Longrightarrow> i < length g \<Longrightarrow> bl_ch e f g ! i \<longleftrightarrow> (if e ! i then f ! i else g ! i)"
proof (induction e f g arbitrary: i rule: bl_ch.induct)
  case (1 e es f fs g gs)
  then show ?case by (cases i) auto
qed auto

lemma nth_bl_maj:
  "i < length a \<Longrightarrow> i < length b \<Longrightarrow> i < length c \<Longrightarrow>
     bl_maj a b c ! i \<longleftrightarrow> (if a ! i then b ! i \<or> c ! i else b ! i \<and> c ! i)"
proof (induction a b c arbitrary: i rule: bl_maj.induct)
  case (1 a as b bs c cs)
  then show ?case by (cases i) auto
qed auto

text \<open>32-bit lists.\<close>

abbreviation w32 :: "bits \<Rightarrow> bool" where "w32 bs \<equiv> length bs = 32"

lemma wd_xor: "w32 a \<Longrightarrow> w32 b \<Longrightarrow> wd (bl_xor a b) = wd a XOR wd b"
  by (rule bit_word_eqI) (simp add: bit_simps nth_bl_xor)

lemma wd_ch: "w32 e \<Longrightarrow> w32 f \<Longrightarrow> w32 g \<Longrightarrow> wd (bl_ch e f g) = (wd e AND wd f) XOR (NOT (wd e) AND wd g)"
  by (rule bit_word_eqI) (auto simp: bit_simps nth_bl_ch)

lemma wd_maj: "w32 a \<Longrightarrow> w32 b \<Longrightarrow> w32 c \<Longrightarrow>
    wd (bl_maj a b c) = (wd a AND wd b) XOR (wd a AND wd c) XOR (wd b AND wd c)"
  by (rule bit_word_eqI) (auto simp: bit_simps nth_bl_maj)

lemma wd_shr: "w32 a \<Longrightarrow> n \<le> 32 \<Longrightarrow> wd (bl_shr n a) = drop_bit n (wd a)"
  by (rule bit_word_eqI) (auto simp: bit_simps bl_shr_def nth_append)

lemma wd_rotr: "w32 a \<Longrightarrow> 0 < n \<Longrightarrow> n < 32 \<Longrightarrow> wd (bl_rotr n a) = rotr n (wd a)"
  by (rule bit_word_eqI) (auto simp: bit_simps bl_rotr_def rotr_def nth_append not_less)

lemma bl_add_sum:
  "length a = length b \<Longrightarrow>
     \<exists>k. of_bool c + wd a + wd b = wd (bl_add c a b) + 2 ^ length a * k"
proof (induction c a b rule: bl_add.induct)
  case (1 c a as b bs)
  define c' where "c' = (if a then (if b then True else c) else (if b then c else False))"
  obtain k where k: "of_bool c' + wd as + wd bs = wd (bl_add c' as bs) + 2 ^ length as * k"
    using 1 unfolding c'_def by (cases a; cases b) auto
  define x where "x = (if a = b then c else \<not> c)"
  have add: "bl_add c (a # as) (b # bs) = x # bl_add c' as bs"
    by (auto simp: c'_def x_def)
  have "(of_bool c :: 32 word) + of_bool a + of_bool b = of_bool x + 2 * of_bool c'"
    by (auto simp: c'_def x_def)
  then have "of_bool c + wd (a # as) + wd (b # bs) = of_bool x + 2 * (of_bool c' + wd as + wd bs)"
    by (simp add: wd_def algebra_simps)
  also have "\<dots> = wd (x # bl_add c' as bs) + 2 ^ length (a # as) * k"
    by (simp add: k) (simp add: wd_def algebra_simps)
  finally show ?case unfolding add by blast
qed (auto simp: wd_def)

lemma wd_plus: "w32 a \<Longrightarrow> w32 b \<Longrightarrow> wd (bl_plus a b) = wd a + wd b"
proof -
  assume w: "w32 a" "w32 b"
  have z: "(2 :: 32 word) ^ length a = 0" by (simp only: w exp_eq_zero_iff) simp
  obtain k where "of_bool False + wd a + wd b = wd (bl_add False a b) + 2 ^ length a * k"
    using bl_add_sum [of a b False] w by auto
  then show ?thesis unfolding z by (simp add: bl_plus_def)
qed

lemmas wd_simps = wd_xor wd_ch wd_maj wd_shr wd_rotr wd_plus

fun wd_state :: "bl_state \<Rightarrow> sha_state" where
  "wd_state (a, b, c, d, e, f, g, h) = (wd a, wd b, wd c, wd d, wd e, wd f, wd g, wd h)"

fun w32_state :: "bl_state \<Rightarrow> bool" where
  "w32_state (a, b, c, d, e, f, g, h) \<longleftrightarrow> w32 a \<and> w32 b \<and> w32 c \<and> w32 d \<and> w32 e \<and> w32 f \<and> w32 g \<and> w32 h"

lemma bl_round_correct:
  "w32 k \<Longrightarrow> w32 w \<Longrightarrow> w32_state st \<Longrightarrow>
     wd_state (bl_round (k, w) st) = sha_round (wd k, wd w) (wd_state st) \<and> w32_state (bl_round (k, w) st)"
  by (cases st rule: w32_state.cases) (simp add: wd_simps xor.assoc Let_def)

lemma bl_rounds_correct:
  "\<forall>(k, w) \<in> set kws. w32 k \<and> w32 w \<Longrightarrow> w32_state st \<Longrightarrow>
     wd_state (fold bl_round kws st) = fold sha_round (map (map_prod wd wd) kws) (wd_state st) \<and>
     w32_state (fold bl_round kws st)"
proof (induction kws arbitrary: st)
  case (Cons kw kws)
  obtain k w where kw: "kw = (k, w)" by (cases kw)
  with Cons bl_round_correct [of k w st] show ?case by simp
qed simp

lemma bl_extend_correct:
  "\<forall>w \<in> set r. w32 w \<Longrightarrow> 16 \<le> length r \<Longrightarrow>
     map wd (bl_extend n r) = sha_extend n (map wd r) \<and> (\<forall>w \<in> set (bl_extend n r). w32 w)"
proof (induction n r rule: bl_extend.induct)
  case (2 n r)
  have w: "w32 (r ! i)" if "i < 16" for i using 2 that by simp
  define x where "x = bl_plus (bl_plus (bl_plus
      (bl_xor (bl_xor (bl_rotr 17 (r ! 1)) (bl_rotr 19 (r ! 1))) (bl_shr 10 (r ! 1))) (r ! 6))
      (bl_xor (bl_xor (bl_rotr 7 (r ! 14)) (bl_rotr 18 (r ! 14))) (bl_shr 3 (r ! 14)))) (r ! 15)"
  have "w32 x" by (simp add: x_def w)
  moreover have "wd x = (rotr 17 (wd (r ! 1)) XOR rotr 19 (wd (r ! 1)) XOR drop_bit 10 (wd (r ! 1))) + wd (r ! 6) +
      (rotr 7 (wd (r ! 14)) XOR rotr 18 (wd (r ! 14)) XOR drop_bit 3 (wd (r ! 14))) + wd (r ! 15)"
    by (simp add: x_def w wd_simps xor.assoc)
  moreover have "bl_extend (Suc n) r = bl_extend n (x # r)" by (simp add: x_def Let_def)
  moreover have "map wd (bl_extend n (x # r)) = sha_extend n (map wd (x # r)) \<and> (\<forall>w \<in> set (bl_extend n (x # r)). w32 w)"
    using "2.IH" "2.prems" \<open>w32 x\<close> unfolding x_def by (simp add: Let_def)
  ultimately show ?case using "2.prems" by (simp add: Let_def)
qed simp

lemma bl_k_correct: "map wd bl_k = sha_k" "\<forall>k \<in> set bl_k. w32 k"
proof -
  have "list_all w32 bl_k" by code_simp
  then show "\<forall>k \<in> set bl_k. w32 k" by (simp add: list_all_iff)
  show "map wd bl_k = sha_k"
    by (simp add: bl_k_def sha_k_def wd_def hex_bits_def nibble_bits_def)
qed

lemma bl_init_correct: "wd_state bl_init = sha_init" "w32_state bl_init"
proof -
  show "w32_state bl_init" by code_simp
  show "wd_state bl_init = sha_init"
    by (simp add: bl_init_def sha_init_def wd_def hex_bits_def nibble_bits_def)
qed

lemma bl_block_correct:
  assumes "\<forall>w \<in> set ws. w32 w" "length ws = 16" "w32_state st"
  shows "wd_state (bl_block st ws) = sha_block (wd_state st) (map wd ws)" "w32_state (bl_block st ws)"
proof -
  let ?e = "bl_extend 48 (rev ws)"
  have e: "map wd ?e = sha_extend 48 (rev (map wd ws))" "\<forall>w \<in> set ?e. w32 w"
    using bl_extend_correct [of "rev ws" 48] assms by (simp_all add: rev_map)
  have z: "map (map_prod wd wd) (zip bl_k (rev ?e)) = zip sha_k (rev (sha_extend 48 (rev (map wd ws))))"
    by (simp add: zip_map_map [symmetric] bl_k_correct(1) e(1) rev_map [symmetric] map_prod_def)
  have "\<forall>(k, w) \<in> set (zip bl_k (rev ?e)). w32 k \<and> w32 w"
    using e(2) bl_k_correct(2) by (auto dest: set_zip_leftD set_zip_rightD)
  from bl_rounds_correct [OF this assms(3)] have f:
    "wd_state (fold bl_round (zip bl_k (rev ?e)) st) =
       fold sha_round (zip sha_k (rev (sha_extend 48 (rev (map wd ws))))) (wd_state st)"
    "w32_state (fold bl_round (zip bl_k (rev ?e)) st)" by (simp_all add: z)
  have sum: "wd_state (bl_sum x y) = sha_add (wd_state x) (wd_state y) \<and> w32_state (bl_sum x y)"
    if "w32_state x" "w32_state y" for x y
    using that by (cases x rule: w32_state.cases; cases y rule: w32_state.cases) (simp add: wd_plus)
  show "wd_state (bl_block st ws) = sha_block (wd_state st) (map wd ws)" "w32_state (bl_block st ws)"
    using sum [OF assms(3) f(2)] f(1) by (simp_all add: bl_block_def sha_block_def)
qed

lemma bl_blocks_correct:
  "\<forall>w \<in> set ws. w32 w \<Longrightarrow> 16 dvd length ws \<Longrightarrow> w32_state st \<Longrightarrow>
     wd_state (bl_blocks st ws) = sha_blocks (wd_state st) (map wd ws) \<and> w32_state (bl_blocks st ws)"
proof (induction st ws rule: bl_blocks.induct)
  case (1 st ws)
  show ?case
  proof (cases "ws = []")
    case True
    with 1 show ?thesis by (simp add: bl_blocks.simps [of st "[]"] sha_blocks.simps [of "wd_state st" "[]"])
  next
    case False
    then have len: "16 \<le> length ws" using 1(3) by (auto dest: dvd_imp_le)
    then have t: "length (take 16 ws) = 16" "\<forall>w \<in> set (take 16 ws). w32 w" "\<forall>w \<in> set (drop 16 ws). w32 w"
      "16 dvd length (drop 16 ws)"
      using 1(2,3) by (auto dest: in_set_takeD in_set_dropD)
    note b = bl_block_correct [OF t(2,1) 1(4)]
    from 1(1) [OF False t(3,4) b(2)] False b(1) show ?thesis
      by (simp add: bl_blocks.simps [of st ws] sha_blocks.simps [of "wd_state st" "map wd ws"] take_map drop_map)
  qed
qed

subsection \<open>Padding\<close>

lemma val_Cons [simp]: "val (b # bs) = of_bool b + 2 * val bs" "val [] = 0"
  by (simp_all add: val_def)

lemma val_append: "val (xs @ ys) = val xs + 2 ^ length xs * val ys"
  by (simp add: val_def horner_sum_append)

lemma val_less: "val bs < 2 ^ length bs"
  by (simp add: val_def horner_sum_bound)

lemma val_char_bits: "val (char_bits c) = byte c" "length (char_bits c) = 8"
  by (cases c; simp add: char_bits_def byte_def of_char_def)+

lemma val_replicate [simp]: "val (replicate n False) = 0"
  by (induction n) simp_all

lemma bl_inc_correct: "val (bl_inc bs) = (val bs + 1) mod 2 ^ length bs" "length (bl_inc bs) = length bs"
proof (induction bs)
  case (Cons b bs)
  have "(2 * val bs + 2) mod (2 * 2 ^ length bs) = 2 * ((val bs + 1) mod 2 ^ length bs)"
    using mult_mod_right [of 2 "val bs + 1" "2 ^ length bs"] by simp
  moreover have "2 * val bs + 1 < 2 * 2 ^ length bs" using val_less [of bs] by linarith
  ultimately show "val (bl_inc (b # bs)) = (val (b # bs) + 1) mod 2 ^ length (b # bs)" using Cons by simp
  show "length (bl_inc (b # bs)) = length (b # bs)" using Cons by simp
qed simp_all

lemma bl_length_correct: "val (bl_length m) = length m mod 2 ^ 61" "length (bl_length m) = 61"
proof (induction m)
  case (Cons c m)
  then show "val (bl_length (c # m)) = length (c # m) mod 2 ^ 61" "length (bl_length (c # m)) = 61"
    by (simp_all add: bl_inc_correct mod_Suc_eq)
qed simp_all

lemma bl_bytes_correct:
  "length bs = 8 * n \<Longrightarrow>
     map val (bl_bytes bs) = map (\<lambda>i. val bs div 256 ^ i mod 256) [0..<n] \<and>
     (\<forall>b \<in> set (bl_bytes bs). length b = 8)"
proof (induction bs arbitrary: n rule: bl_bytes.induct)
  case (1 a b c d e f g h bs)
  then obtain k where n: "n = Suc k" "length bs = 8 * k" by (cases n) auto
  let ?x = "[a, b, c, d, e, f, g, h]"
  have v: "val (a # b # c # d # e # f # g # h # bs) = val ?x + 256 * val bs"
    using val_append [of ?x bs] by simp
  have x: "val ?x < 256" using val_less [of ?x] by simp
  have "(val ?x + 256 * val bs) div 256 ^ Suc i mod 256 = val bs div 256 ^ i mod 256" for i
    using x by (simp add: div_mult2_eq)
  moreover have "(val ?x + 256 * val bs) mod 256 = val ?x" using x by simp
  ultimately have m: "map (\<lambda>i. (val ?x + 256 * val bs) div 256 ^ i mod 256) [0..<Suc k] =
      val ?x # map (\<lambda>i. val bs div 256 ^ i mod 256) [0..<k]"
    by (simp add: upt_conv_Cons map_Suc_upt [symmetric] comp_def del: upt_Suc power_Suc val_Cons)
  from 1(1) [OF n(2)] have IH: "map val (bl_bytes bs) = map (\<lambda>i. val bs div 256 ^ i mod 256) [0..<k]"
    "\<forall>b \<in> set (bl_bytes bs). length b = 8" by blast+
  show ?case unfolding bl_bytes.simps v n(1) m list.map IH(1) using IH(2) by (intro conjI refl) simp
qed auto

lemma bl_pad_correct: "map val (bl_pad m) = sha_pad m" "\<forall>b \<in> set (bl_pad m). length b = 8"
proof -
  let ?l = "[False, False, False] @ bl_length m"
  have len: "length ?l = 8 * 8" by (simp add: bl_length_correct)
  have "val ?l = 8 * (length m mod 2 ^ 61)" by (simp add: bl_length_correct)
  also have "\<dots> = (8 * length m) mod 2 ^ 64" using mult_mod_right [of 8 "length m" "2 ^ 61"] by simp
  finally have v: "val ?l = (8 * length m) mod 256 ^ 8" by simp
  have "(x mod 256 ^ 8) div 256 ^ i mod 256 = x div 256 ^ i mod 256" if "i < 8" for x i :: nat
  proof -
    have "(256 :: nat) ^ 8 = 256 ^ i * 256 ^ (8 - i)" using that by (simp add: power_add [symmetric])
    then have "(x mod 256 ^ 8) div 256 ^ i = x div 256 ^ i mod 256 ^ (8 - i)"
      by (simp only: mod_mult2_eq) simp
    moreover have "(256 :: nat) dvd 256 ^ (8 - i)" using that by (simp add: dvd_power)
    ultimately show ?thesis by (simp add: mod_mod_cancel)
  qed
  then have "map (\<lambda>i. val ?l div 256 ^ i mod 256) [0..<8] = map (\<lambda>i. 8 * length m div 256 ^ i mod 256) [0..<8]"
    unfolding v by (intro map_cong) auto
  then have "map val (rev (bl_bytes ?l)) = map (\<lambda>i. 8 * length m div 256 ^ i mod 256) (rev [0..<8])"
    using bl_bytes_correct [OF len] by (simp only: rev_map [symmetric])
  moreover have "rev [0..<8] = [7, 6, 5, 4, 3, 2, 1, 0]" by (simp add: upt_rec)
  ultimately have t: "map val (rev (bl_bytes ?l)) =
      map (\<lambda>i. 8 * length m div 256 ^ i mod 256) [7, 6, 5, 4, 3, 2, 1, 0]" by (simp only:)
  have h: "val (char_bits (CHR 0x80)) = 128" by (simp add: char_bits_def)
  show "map val (bl_pad m) = sha_pad m"
    unfolding bl_pad_def sha_pad_def map_append Let_def t
    by (simp add: val_char_bits(1) h [unfolded val_char_bits(1)] map_replicate_const [symmetric] comp_def del: upt_Suc)
  show "\<forall>b \<in> set (bl_pad m). length b = 8"
    using bl_bytes_correct [OF len] by (auto simp: bl_pad_def val_char_bits)
qed

lemma bl_words_correct:
  "\<forall>b \<in> set bs. length b = 8 \<Longrightarrow>
     map wd (bl_words bs) = be_words (map val bs) \<and> (\<forall>w \<in> set (bl_words bs). w32 w) \<and>
     length (bl_words bs) = length bs div 4"
proof (induction bs rule: bl_words.induct)
  case (1 a b c d bs)
  then have "val (d @ c @ b @ a) = ((val a * 256 + val b) * 256 + val c) * 256 + val d"
    by (simp add: val_append)
  with 1 show ?case by (simp add: wd_val)
qed auto

lemma length_bl_pad: "64 dvd length (bl_pad m)"
proof -
  have "length (bl_bytes bs) = n" if "length bs = 8 * n" for bs n
    using arg_cong [OF conjunct1 [OF bl_bytes_correct [OF that]], of length] by simp
  from this [of "[False, False, False] @ bl_length m" 8]
  have "length (bl_pad m) = length m + 9 + (119 - length m mod 64) mod 64"
    by (simp add: bl_pad_def bl_length_correct)
  also have "64 dvd \<dots>"
  proof -
    define x where "x = length m mod 64"
    have "x < 64" by (simp add: x_def)
    have "length m = 64 * (length m div 64) + x" by (simp add: x_def)
    moreover have "(119 - x) mod 64 = (if x \<le> 55 then 55 - x else 119 - x)"
      using \<open>x < 64\<close> by (auto simp: mod_if)
    ultimately have "length m + 9 + (119 - x) mod 64 = 64 * (length m div 64 + (if x \<le> 55 then 1 else 2))"
      using \<open>x < 64\<close> by (simp split: if_splits)
    then show ?thesis unfolding x_def by (metis dvd_triv_left)
  qed
  finally show ?thesis .
qed

lemma hex_nibble_correct:
  "hex_nibble a b c d = hex_digit (of_bool a + 2 * (of_bool b + 2 * (of_bool c + 2 * of_bool d)))"
  by (cases a; cases b; cases c; cases d) (simp_all, code_simp+)

lemma bl_hex_word_correct:
  "length bs = 4 * n \<Longrightarrow> bl_hex_word bs = map (\<lambda>i. hex_digit (val bs div 16 ^ i mod 16)) (rev [0..<n])"
proof (induction bs arbitrary: n rule: bl_hex_word.induct)
  case (1 a b c d bs)
  then obtain k where n: "n = Suc k" "length bs = 4 * k" by (cases n) auto
  let ?x = "of_bool a + 2 * (of_bool b + 2 * (of_bool c + 2 * of_bool d)) :: nat"
  have v: "val (a # b # c # d # bs) = ?x + 16 * val bs" by simp
  have x: "?x < 16" by (cases a; cases b; cases c; cases d) simp_all
  have "(?x + 16 * val bs) div 16 ^ Suc i mod 16 = val bs div 16 ^ i mod 16" for i
    using x by (simp add: div_mult2_eq)
  moreover have "(?x + 16 * val bs) mod 16 = ?x" using x by simp
  ultimately have "map (\<lambda>i. hex_digit ((?x + 16 * val bs) div 16 ^ i mod 16)) [0..<Suc k] =
      hex_digit ?x # map (\<lambda>i. hex_digit (val bs div 16 ^ i mod 16)) [0..<k]"
    by (simp add: upt_conv_Cons map_Suc_upt [symmetric] comp_def del: upt_Suc power_Suc val_Cons)
  then have "map (\<lambda>i. hex_digit ((?x + 16 * val bs) div 16 ^ i mod 16)) (rev [0..<Suc k]) =
      map (\<lambda>i. hex_digit (val bs div 16 ^ i mod 16)) (rev [0..<k]) @ [hex_digit ?x]"
    by (simp only: rev_map [symmetric] rev.simps)
  then show ?case unfolding bl_hex_word.simps 1(1) [OF n(2)] v n(1) hex_nibble_correct by (rule sym)
qed auto

lemma bl_hex_wd: "w32 bs \<Longrightarrow> bl_hex_word bs = hex_word (wd bs)"
proof -
  assume w: "w32 bs"
  then have "val bs < 2 ^ 32" using val_less [of bs] by simp
  then have u: "unat (wd bs) = val bs" by (simp add: wd_val unat_of_nat)
  have "rev [0..<8] = [7, 6, 5, 4, 3, 2, 1, 0]" by (simp add: upt_rec)
  with bl_hex_word_correct [of bs 8] w show ?thesis by (simp only: hex_word_def u)
qed

lemma bl_sha256_hex_correct: "bl_sha256_hex m = sha256_hex m"
proof -
  let ?ws = "bl_words (bl_pad m)"
  have ws: "map wd ?ws = be_words (sha_pad m)" "\<forall>w \<in> set ?ws. w32 w" "length ?ws = length (bl_pad m) div 4"
    using bl_words_correct [OF bl_pad_correct(2)] bl_pad_correct(1) by auto
  moreover have "16 dvd length ?ws" using length_bl_pad [of m] ws(3) by (auto elim!: dvdE)
  ultimately have "wd_state (bl_blocks bl_init ?ws) = sha_blocks sha_init (be_words (sha_pad m))"
    "w32_state (bl_blocks bl_init ?ws)"
    using bl_blocks_correct [of ?ws bl_init] bl_init_correct by auto
  moreover have "bl_hex_state st = hex_state (wd_state st)" if "w32_state st" for st
    using that by (cases st rule: w32_state.cases) (simp add: bl_hex_wd)
  ultimately show ?thesis by (simp add: bl_sha256_hex_def sha256_hex_def)
qed

text \<open>The bit lists evaluate \<open>sha256_hex\<close>; the standard's test vectors.\<close>

lemma sha256_hex_code [code]: "sha256_hex m = bl_sha256_hex m"
  by (simp only: bl_sha256_hex_correct)

lemma sha256_abc: "sha256_hex ''abc'' = ''ba7816bf8f01cfea414140de5dae2223b00361a396177a9cb410ff61f20015ad''"
  by code_simp

lemma sha256_empty: "sha256_hex '''' = ''e3b0c44298fc1c149afbf4c8996fb92427ae41e4649b934ca495991b7852b855''"
  by code_simp
end
