(* ===== verification/Activation.thy ===== *)
theory Activation
  imports Resolve_Props Subscription Sha_Eval
begin

text \<open>
  Plans, subscriptions and the resolver together: what a tenant is entitled to when a validated
  plan is materialised by \<open>Sources\<close> and resolved by \<open>Resolve\<close>.
\<close>

section \<open>What an activated plan entitles\<close>

lemma term_source_active:
  "Source_Active (term_source tenant namespace at t m kind key action effect limit) now \<longleftrightarrow>
     at \<le> now \<and> (case validity_end at t of None \<Rightarrow> True | Some e \<Rightarrow> now < e)"
  by (auto simp: Source_Active_iff)

lemma Sources_active:
  assumes "at \<le> now" "case validity_end at t of None \<Rightarrow> True | Some e \<Rightarrow> now < e"
  shows "active (Sources tenant namespace at t) now m kind key action effect \<longleftrightarrow>
    (\<exists>s \<in> set (Sources tenant namespace at t). src_ModuleCode s = m \<and> src_Kind s = kind \<and> src_Key s = key \<and>
       src_Action s = action \<and> src_Effect s = effect)"
proof -
  have "Source_Active s now" if "s \<in> set (Sources tenant namespace at t)" for s
    using that by (cases rule: Sources_cases) (simp_all add: term_source_active assms)
  then show ?thesis by (auto simp: active_def)
qed

lemma Sources_module_grant:
  assumes "m \<in> set (terms_Modules t)" "at \<le> now" "case validity_end at t of None \<Rightarrow> True | Some e \<Rightarrow> now < e"
  shows "active (Sources tenant namespace at t) now (pm_Code m) Kind_Module (pm_Code m) '''' Effect_Grant"
proof -
  have "term_source tenant namespace at t (pm_Code m) Kind_Module (pm_Code m) '''' Effect_Grant zero_limit
      \<in> set (Sources tenant namespace at t)" unfolding Sources_set using assms(1) by blast
  then show ?thesis unfolding Sources_active [OF assms(2,3)] by force
qed

lemma Sources_no_denial:
  assumes "kind \<in> {Kind_Module, Kind_Capability}" "effect \<in> {Effect_Deny, SafetyDeny}"
  shows "\<not> active (Sources tenant namespace at t) now m kind key action effect"
proof
  assume "active (Sources tenant namespace at t) now m kind key action effect"
  then obtain s where s: "s \<in> set (Sources tenant namespace at t)" "src_Kind s = kind" "src_Effect s = effect"
    by (auto simp: active_def)
  from s(1) show False using s(2,3) assms by (cases rule: Sources_cases) auto
qed

lemma Sources_entitled:
  assumes cat: "Catalog_Validate (entitlement_catalog c) = None" and wf: "terms_wf t c"
    and time: "at \<le> now" "case validity_end at t of None \<Rightarrow> True | Some e \<Rightarrow> now < e"
  shows "code \<in> pm_Code ` set (terms_Modules t) \<Longrightarrow>
    entitled (entitlement_catalog c) (Sources tenant namespace at t) now code"
proof -
  let ?c = "entitlement_catalog c" and ?ss = "Sources tenant namespace at t"
  have "wf ((dep_edges ?c)\<inverse>)"
    using cat finite_dep_edges by (simp add: Catalog_Validate_iff finite_acyclic_wf_converse)
  then show "code \<in> pm_Code ` set (terms_Modules t) \<Longrightarrow> entitled ?c ?ss now code"
  proof (induction code rule: wf_induct_rule)
    case (less code)
    then obtain m where m: "m \<in> set (terms_Modules t)" "code = pm_Code m" by blast
    then have "module_ok (terms_SalesScope t) c m" using wf by (simp add: terms_wf_def)
    then obtain d where d: "Catalog_Find c code = Some d" "mod_TechnicalStatus d = ''ready''"
      "set (pm_Capabilities m) \<subseteq> set (mod_Capabilities d)" "pm_Capabilities m \<noteq> []"
      unfolding module_ok_def m(2) by blast
    let ?d = "ModuleDefinition.truncate d"
    have def: "Catalog_Definition ?c code = Some ?d" by (simp add: Definition_entitlement_catalog d)
    have deps: "set (mod_Dependencies d) \<subseteq> pm_Code ` set (terms_Modules t)"
      using wf m d(1) by (auto simp: terms_wf_def)
    have "entitled ?c ?ss now dep" if dep: "dep \<in> set (mod_Dependencies d)" for dep
    proof -
      have sel: "dep \<in> pm_Code ` set (terms_Modules t)" using deps dep by blast
      then obtain m' where "m' \<in> set (terms_Modules t)" "dep = pm_Code m'" by blast
      then obtain d' where "Catalog_Find c dep = Some d'" using wf by (auto simp: terms_wf_def module_ok_def)
      then have "dep \<in> known ?c" by (simp add: known_Definition Definition_entitlement_catalog)
      then have "(code, dep) \<in> dep_edges ?c"
        using def dep by (simp add: dep_edges_def)
      then show ?thesis using less.IH sel by blast
    qed
    moreover have "local_reason ?ss now code ?d = ''ALLOWED''"
    proof -
      obtain k where k: "k \<in> set (mod_Capabilities d)" using d(3,4) by (cases "pm_Capabilities m") auto
      have "capDenial ?ss now code k = ''''" for k by (simp add: capDenial_def Sources_no_denial)
      with k d(2) Sources_module_grant [OF m(1) time] show ?thesis
        unfolding m(2) by (auto simp: local_reason_def Sources_no_denial Let_def)
    qed
    ultimately show ?case using def by (intro entitled.entitledI [of _ _ ?d]) auto
  qed
qed

text \<open>What holds of the setting in which a plan is activated and then resolved.\<close>

definition activated ::
  "PlanCatalog \<Rightarrow> Terms \<Rightarrow> string \<Rightarrow> string \<Rightarrow> time \<Rightarrow> time \<Rightarrow> bool" where
  "activated c t tenant namespace at now \<longleftrightarrow>
     Catalog_Validate (entitlement_catalog c) = None \<and> Terms_Validate t c = None \<and>
     activation_ok tenant namespace at t \<and> distinct (map src_ID (Sources tenant namespace at t)) \<and>
     at \<le> now \<and> now \<noteq> 0 \<and> (case validity_end at t of None \<Rightarrow> True | Some e \<Rightarrow> now < e)"

lemma activatedD:
  assumes "activated c t tenant namespace at now"
  shows "Catalog_Validate (entitlement_catalog c) = None" "Terms_Validate t c = None" "terms_wf t c"
    "activation_ok tenant namespace at t" "distinct (map src_ID (Sources tenant namespace at t))"
    "at \<le> now" "now \<noteq> 0" "case validity_end at t of None \<Rightarrow> True | Some e \<Rightarrow> now < e"
  using assms by (simp_all add: activated_def Terms_Validate_None)

lemma Sources_SourceKind: "s \<in> set (Sources tenant namespace at t) \<Longrightarrow> src_SourceKind s = PlanSource"
  by (auto simp: Sources_set)

lemma activated_resolves:
  assumes "activated c t tenant namespace at now"
  shows "\<exists>r. Resolve tenant revision now (entitlement_catalog c) (Sources tenant namespace at t) [] = Some (Inr r)"
proof (rule Resolve_succeeds)
  note a = activatedD [OF assms]
  show "tenant \<noteq> ''''" using a(4) by (auto simp: activation_ok_def)
  show "\<not> IsZero now" using a(7) by (simp add: IsZero_def)
  show "Catalog_Validate (entitlement_catalog c) = None" by (rule a(1))
  show "\<forall>s \<in> set (Sources tenant namespace at t).
      src_TenantID s = tenant \<and> Source_Validate s (entitlement_catalog c) = None"
    using Sources_valid [OF a(1,2,4)] by blast
  have "map identity (Sources tenant namespace at t) = map (\<lambda>s. PlanSource @ ''/'' @ src_ID s) (Sources tenant namespace at t)"
    by (simp add: identity_def Sources_SourceKind)
  also have "\<dots> = map (\<lambda>i. PlanSource @ ''/'' @ i) (map src_ID (Sources tenant namespace at t))" by simp
  finally show "distinct (map identity (Sources tenant namespace at t))"
    using a(5) by (simp only: distinct_map) (auto simp: inj_on_def)
qed simp

lemma filter_singleton:
  assumes "distinct xs" "\<And>x. x \<in> set xs \<Longrightarrow> P x \<longleftrightarrow> x = a" "a \<in> set xs"
  shows "filter P xs = [a]"
  using assms
proof (induction xs)
  case (Cons x xs)
  show ?case
  proof (cases "x = a")
    case True
    with Cons.prems have "filter P xs = []" by (auto simp: filter_empty_conv)
    with True Cons.prems show ?thesis by simp
  next
    case False
    with Cons show ?thesis by auto
  qed
qed simp

lemma activated_quota_sources:
  assumes "activated c t tenant namespace at now" "m \<in> set (terms_Modules t)" "q \<in> set (pm_Quotas m)"
  shows "quota_sources (Sources tenant namespace at t) now (pm_Code m) (quota_Key q) =
    [term_source tenant namespace at t (pm_Code m) Kind_Quota (quota_Key q) '''' QuotaReplace (quota_limit q)]"
  unfolding quota_sources_def
proof (rule filter_singleton)
  note a = activatedD [OF assms(1)]
  let ?s = "term_source tenant namespace at t (pm_Code m) Kind_Quota (quota_Key q) '''' QuotaReplace (quota_limit q)"
  show "distinct (Sources tenant namespace at t)" using a(5) by (simp add: distinct_map)
  show "?s \<in> set (Sources tenant namespace at t)" unfolding Sources_set using assms(2,3) by blast
  fix s assume s: "s \<in> set (Sources tenant namespace at t)"
  have same: "m' = m" if "m' \<in> set (terms_Modules t)" "pm_Code m' = pm_Code m" for m'
    using a(3) that assms(2) by (auto simp: terms_wf_def distinct_map dest: inj_onD)
  have sameq: "q' = q" if "q' \<in> set (pm_Quotas m)" "quota_Key q' = quota_Key q" for q'
    using a(3) that assms(2,3) by (auto simp: terms_wf_def module_ok_def distinct_map dest: inj_onD)
  have act: "Source_Active ?s now" using a(6,8) by (simp add: term_source_active)
  from s show "\<not> (src_Kind s \<noteq> Kind_Quota \<or> src_ModuleCode s \<noteq> pm_Code m \<or> src_Key s \<noteq> quota_Key q \<or>
      \<not> Source_Active s now) \<longleftrightarrow> s = ?s"
  proof (cases rule: Sources_cases)
    case (Quota m' q')
    show ?thesis
    proof (cases "pm_Code m' = pm_Code m \<and> quota_Key q' = quota_Key q")
      case True
      then have "m' = m" "q' = q" using same sameq Quota(1,2) by auto
      with Quota(3) act show ?thesis by simp
    next
      case False
      moreover have "s \<noteq> ?s" using False Quota(3) term_source_fields(4,6) by metis
      ultimately show ?thesis using Quota(3) by simp
    qed
  qed (auto dest: arg_cong [where f = src_Kind])
qed

lemma activated_definition:
  assumes "activated c t tenant namespace at now" "m \<in> set (terms_Modules t)"
  obtains d where "ModuleDefinition.truncate d \<in> set (entitlement_catalog c)" "mod_Code d = pm_Code m"
    "set (pm_Capabilities m) \<subseteq> set (mod_Capabilities d)" "quota_Key ` set (pm_Quotas m) \<subseteq> set (mod_QuotaKeys d)"
    "field_Key ` set (pm_Fields m) \<subseteq> set (mod_FieldKeys d)" "\<forall>f \<in> set (pm_Fields m). field_ok d f"
proof -
  have "module_ok (terms_SalesScope t) c m" using activatedD(3) [OF assms(1)] assms(2) by (simp add: terms_wf_def)
  then obtain d where d: "Catalog_Find c (pm_Code m) = Some d" "set (pm_Capabilities m) \<subseteq> set (mod_Capabilities d)"
    "\<forall>q \<in> set (pm_Quotas m). quota_Key q \<in> set (mod_QuotaKeys d)" "\<forall>f \<in> set (pm_Fields m). field_ok d f"
    unfolding module_ok_def by blast
  from Catalog_Find_Some [OF d(1)] have "d \<in> set c" "mod_Code d = pm_Code m" by auto
  with d show ?thesis by (intro that [of d]) (auto simp: entitlement_catalog_def field_ok_def)
qed

lemma activated_entitled:
  assumes "activated c t tenant namespace at now" "m \<in> set (terms_Modules t)"
  shows "entitled (entitlement_catalog c) (Sources tenant namespace at t) now (pm_Code m)"
  using activatedD [OF assms(1)] Sources_entitled assms(2) by blast

lemma activated_capability:
  assumes act: "activated c t tenant namespace at now"
    and r: "Resolve tenant revision now (entitlement_catalog c) (Sources tenant namespace at t) [] = Some (Inr r)"
    and m: "m \<in> set (terms_Modules t)"
    and d: "d \<in> set (entitlement_catalog c)" "mod_Code d = pm_Code m" "cap \<in> set (mod_Capabilities d)"
  shows "\<exists>dec \<in> set (res_Decisions r). dec_Kind dec = Kind_Capability \<and> dec_Key dec = cap \<and> dec_Allowed dec"
proof -
  let ?ss = "Sources tenant namespace at t" and ?c = "entitlement_catalog c"
  have "capability_decision (ordered_sources ?ss) now d (reason_ref ?c ?ss now (mod_Code d)) cap
      \<in> set (plain_decisions (ordered_sources ?ss) now d (reason_ref ?c ?ss now (mod_Code d)))"
    using d(3) by (simp add: plain_decisions_def)
  from Resolve_decision_in [OF r d(1) this] obtain x where x: "x \<in> set (res_Decisions r)"
    "plain x = capability_decision (ordered_sources ?ss) now d (reason_ref ?c ?ss now (mod_Code d)) cap" by blast
  have "capability_reason (ordered_sources ?ss) now d (reason_ref ?c ?ss now (mod_Code d)) cap = ''ALLOWED''"
    unfolding capability_reason_allowed using activated_entitled [OF act m]
      Sources_module_grant [OF m activatedD(6,8) [OF act]] d(2)
    by (simp add: reason_ref_allowed Sources_no_denial)
  with x(1) arg_cong [OF x(2), of dec_Kind] arg_cong [OF x(2), of dec_Key] arg_cong [OF x(2), of dec_Allowed]
  show ?thesis by auto
qed

lemma activated_quota:
  assumes act: "activated c t tenant namespace at now"
    and r: "Resolve tenant revision now (entitlement_catalog c) (Sources tenant namespace at t) [] = Some (Inr r)"
    and m: "m \<in> set (terms_Modules t)" and q: "q \<in> set (pm_Quotas m)"
  shows "\<exists>dec \<in> set (res_Decisions r). dec_Kind dec = Kind_Quota \<and> dec_ModuleCode dec = pm_Code m \<and>
    dec_Key dec = quota_Key q \<and> dec_Allowed dec \<and> dec_Limit dec = quota_limit q"
proof -
  let ?ss = "Sources tenant namespace at t" and ?c = "entitlement_catalog c"
  obtain d :: PlanDefinition where d: "ModuleDefinition.truncate d \<in> set ?c" "mod_Code d = pm_Code m"
    and keys: "quota_Key ` set (pm_Quotas m) \<subseteq> set (mod_QuotaKeys d)"
    by (rule activated_definition [OF act m]) (rule that)
  have key: "quota_Key q \<in> set (mod_QuotaKeys (ModuleDefinition.truncate d))" using keys q by auto
  obtain x where x: "x \<in> set (res_Decisions r)"
    "plain x = quota_decision (ordered_sources ?ss) now (ModuleDefinition.truncate d)
       (reason_ref ?c ?ss now (mod_Code d)) (quota_Key q)"
    using quota_decision_in [OF r d(1) key] by auto
  have "mset (quota_sources (ordered_sources ?ss) now (pm_Code m) (quota_Key q)) =
      mset (quota_sources ?ss now (pm_Code m) (quota_Key q))" by (simp add: quota_sources_def)
  then have qs: "quota_sources (ordered_sources ?ss) now (pm_Code m) (quota_Key q) =
      [term_source tenant namespace at t (pm_Code m) Kind_Quota (quota_Key q) '''' QuotaReplace (quota_limit q)]"
    by (simp add: activated_quota_sources [OF act m q])
  have "quota_outcome (reason_ref ?c ?ss now (mod_Code d)) (quota_sources (ordered_sources ?ss) now (pm_Code m) (quota_Key q))
      = (True, ''ALLOWED'', quota_limit q)"
    using activated_entitled [OF act m] unfolding qs d(2) reason_ref_allowed [symmetric]
    by (simp add: quota_outcome_def quota_replacements_def quota_base_def quota_additions_def Let_def)
  with x(1) arg_cong [OF x(2), of dec_Kind] arg_cong [OF x(2), of dec_Key] arg_cong [OF x(2), of dec_Allowed]
    arg_cong [OF x(2), of dec_Limit] arg_cong [OF x(2), of dec_ModuleCode] d(2)
  show ?thesis by (auto simp: quota_decision_def blank_decision_def)
qed

lemma activated_field_active:
  assumes act: "activated c t tenant namespace at now" and m: "m \<in> set (terms_Modules t)" and f: "f \<in> set (pm_Fields m)"
  shows "active (Sources tenant namespace at t) now (pm_Code m) Kind_Field (field_Key f) (field_Action f) e \<longleftrightarrow>
    e = field_effect f"
proof
  note a = activatedD [OF act]
  assume "active (Sources tenant namespace at t) now (pm_Code m) Kind_Field (field_Key f) (field_Action f) e"
  then obtain s where s: "s \<in> set (Sources tenant namespace at t)" "src_ModuleCode s = pm_Code m"
    "src_Kind s = Kind_Field" "src_Key s = field_Key f" "src_Action s = field_Action f" "src_Effect s = e"
    unfolding active_def by blast
  from s(1) show "e = field_effect f"
  proof (cases rule: Sources_cases)
    case (Field m' f')
    then have eq: "pm_Code m' = pm_Code m" "field_Key f' = field_Key f" "field_Action f' = field_Action f"
      using s by simp_all
    have "m' = m" using a(3) eq(1) Field(1) m by (auto simp: terms_wf_def distinct_map dest: inj_onD)
    moreover have "field_id f' = field_id f" using eq by (simp add: field_id_def)
    ultimately have "f' = f"
      using a(3) Field(2) f m by (auto simp: terms_wf_def module_ok_def distinct_map dest: inj_onD)
    with Field(3) s(6) show ?thesis by simp
  qed (use s(3) in simp_all)
next
  note a = activatedD [OF act]
  assume "e = field_effect f"
  moreover have "term_source tenant namespace at t (pm_Code m) Kind_Field (field_Key f) (field_Action f) (field_effect f)
      zero_limit \<in> set (Sources tenant namespace at t)" unfolding Sources_set using m f by blast
  ultimately show "active (Sources tenant namespace at t) now (pm_Code m) Kind_Field (field_Key f) (field_Action f) e"
    unfolding Sources_active [OF a(6,8)] by force
qed

lemma activated_field:
  assumes act: "activated c t tenant namespace at now"
    and r: "Resolve tenant revision now (entitlement_catalog c) (Sources tenant namespace at t) [] = Some (Inr r)"
    and m: "m \<in> set (terms_Modules t)" and f: "f \<in> set (pm_Fields m)"
  shows "\<exists>d \<in> set (res_Decisions r). dec_Kind d = Kind_Field \<and> dec_ModuleCode d = pm_Code m \<and>
    dec_Key d = field_Key f \<and> dec_Action d = field_Action f \<and>
    (dec_Allowed d \<longleftrightarrow> field_Mode f = ''allow'') \<and> (dec_Masked d \<longleftrightarrow> field_Mode f = ''masked'')"
proof -
  let ?ss = "Sources tenant namespace at t" and ?c = "entitlement_catalog c"
  obtain d :: PlanDefinition where d: "ModuleDefinition.truncate d \<in> set ?c" "mod_Code d = pm_Code m"
    and keys: "field_Key ` set (pm_Fields m) \<subseteq> set (mod_FieldKeys d)" and fok: "\<forall>f \<in> set (pm_Fields m). field_ok d f"
    by (rule activated_definition [OF act m]) (rule that)
  have f': "field_Action f \<in> {''read'', ''write'', ''export''}" "field_Mode f \<in> {''deny'', ''masked'', ''allow''}"
    using fok f by (auto simp: field_ok_def)
  let ?d = "ModuleDefinition.truncate d" and ?reason = "reason_ref ?c ?ss now (pm_Code m)"
  let ?p = "field_decision (ordered_sources ?ss) now ?d ?reason (field_Key f) (field_Action f)"
  have "?p \<in> set (plain_decisions (ordered_sources ?ss) now ?d ?reason)"
    using keys f f'(1) by (intro field_in_plain) auto
  then obtain x where x: "x \<in> set (res_Decisions r)" "plain x = ?p"
    using Resolve_decision_in [OF r d(1)] d(2) by auto
  have al: "?reason = ''ALLOWED''" using activated_entitled [OF act m] by (simp add: reason_ref_allowed)
  have "field_reason (ordered_sources ?ss) now ?d ?reason (field_Key f) (field_Action f) = ''ALLOWED'' \<longleftrightarrow>
      field_Mode f = ''allow''"
    using f'(2) unfolding field_reason_def active_ordered truncate_fields d(2) activated_field_active [OF act m f] al
    by (auto simp: field_effect_def)
  moreover have "dec_Masked ?p \<longleftrightarrow> field_Mode f = ''masked''"
    using f'(2) unfolding field_decision_def Let_def active_ordered truncate_fields d(2) activated_field_active [OF act m f]
    by (auto simp: field_effect_def)
  ultimately show ?thesis
    using x(1) arg_cong [OF x(2), of dec_Kind] arg_cong [OF x(2), of dec_Key] arg_cong [OF x(2), of dec_Allowed]
      arg_cong [OF x(2), of dec_Masked] arg_cong [OF x(2), of dec_ModuleCode] arg_cong [OF x(2), of dec_Action] d(2)
    by auto
qed

section \<open>A concrete activation\<close>

definition ex_plan_catalog :: PlanCatalog where
  "ex_plan_catalog =
     [\<lparr>mod_Code = ''crm'', mod_TechnicalStatus = ''ready'', mod_SalesStatus = ''sellable'', mod_Version = 1,
       mod_Capabilities = [''crm.read'', ''crm.write''], mod_QuotaKeys = [''seats''], mod_FieldKeys = [''phone''],
       mod_Dependencies = [], def_SalesScope = [''*'']\<rparr>]"

definition ex_terms :: Terms where
  "ex_terms =
     \<lparr>terms_Modules = [\<lparr>pm_Code = ''crm'', pm_Capabilities = [''crm.read''],
        pm_Quotas = [\<lparr>quota_Key = ''seats'', quota_Unlimited = False, quota_Value = 10\<rparr>],
        pm_Fields = [\<lparr>field_Key = ''phone'', field_Action = ''read'', field_Mode = ''masked''\<rparr>]\<rparr>],
      terms_FeatureCodes = [], terms_SalesScope = [''*''], terms_ValidityMode = ''fixed_days'',
      terms_ValidityDays = 30, terms_PriceRef = ''''\<rparr>"

lemma ex_plan_ok: "Catalog_Validate (entitlement_catalog ex_plan_catalog) = None"
    "Terms_Validate ex_terms ex_plan_catalog = None"
  by code_simp+

lemma ex_activation_ok: "activation_ok ''t1'' ''ns'' (date 2026 1 1) ex_terms"
  by code_simp
lemma ex_source_ids:
  "SourceID ''ns'' ''crm'' ''module'' ''crm'' '''' = ''plan-c0bb535f721a153e2ac8a0b1''"
  "SourceID ''ns'' ''crm'' ''capability'' ''crm.read'' '''' = ''plan-2ffc674631914b5a1c081a39''"
  "SourceID ''ns'' ''crm'' ''quota'' ''seats'' '''' = ''plan-c068bce78e67571cdd459ba7''"
  "SourceID ''ns'' ''crm'' ''field'' ''phone'' ''read'' = ''plan-2babe66110b24f3dd28d200b''"
  by code_simp+

lemma ex_ids: "distinct (map src_ID (Sources ''t1'' ''ns'' (date 2026 1 1) ex_terms))"
  by (simp add: Sources_def module_sources_def plan_source_def ex_terms_def ex_source_ids)

definition ex_activation :: time where
  "ex_activation = date 2026 1 1"

lemma ex_activated: "activated ex_plan_catalog ex_terms ''t1'' ''ns'' ex_activation (ex_activation + Day)"
proof -
  have "(case validity_end ex_activation ex_terms of None \<Rightarrow> True | Some e \<Rightarrow> ex_activation + Day < e)"
    "ex_activation \<le> ex_activation + Day" "ex_activation + Day \<noteq> 0" by code_simp+
  then show ?thesis unfolding activated_def
    using ex_plan_ok ex_activation_ok ex_ids by (simp only: ex_activation_def) simp
qed

lemma ex_terms_module: "hd (terms_Modules ex_terms) \<in> set (terms_Modules ex_terms)"
  by (simp add: ex_terms_def)

section \<open>Properties\<close>

text \<open>
  C6: An activated plan is delivered. When a plan that passed validation against the catalogue is
  materialised for a tenant and resolved at an instant of its validity, the resolution succeeds,
  every capability the plan sells is allowed, and every quota the plan sets is allowed with
  exactly the limit of the plan. Every field action of the plan has a decision: it carries the
  mask exactly when the mode is \<open>masked\<close>, the mode \<open>allow\<close> allows the action and the mode
  \<open>deny\<close> refuses it. Whether the action itself is allowed under the mode \<open>masked\<close> is not part of
  this property; \<open>activated_field_modes\<close> below says what the code does there.
\<close>

theorem activated_plan_delivers:
  assumes "activated c t tenant namespace at now"
  shows "\<exists>r. Resolve tenant revision now (entitlement_catalog c) (Sources tenant namespace at t) [] = Some (Inr r) \<and>
    (\<forall>m \<in> set (terms_Modules t).
       (\<forall>cap \<in> set (pm_Capabilities m). \<exists>d \<in> set (res_Decisions r).
          dec_Kind d = Kind_Capability \<and> dec_Key d = cap \<and> dec_Allowed d) \<and>
       (\<forall>q \<in> set (pm_Quotas m). \<exists>d \<in> set (res_Decisions r).
          dec_Kind d = Kind_Quota \<and> dec_ModuleCode d = pm_Code m \<and> dec_Key d = quota_Key q \<and>
          dec_Allowed d \<and> dec_Limit d = quota_limit q) \<and>
       (\<forall>f \<in> set (pm_Fields m). \<exists>d \<in> set (res_Decisions r).
          dec_Kind d = Kind_Field \<and> dec_ModuleCode d = pm_Code m \<and> dec_Key d = field_Key f \<and> dec_Action d = field_Action f \<and>
          (dec_Masked d \<longleftrightarrow> field_Mode f = ''masked'') \<and>
          (field_Mode f = ''allow'' \<longrightarrow> dec_Allowed d) \<and> (field_Mode f = ''deny'' \<longrightarrow> \<not> dec_Allowed d)))"
proof -
  note a = activatedD [OF assms]
  let ?c = "entitlement_catalog c" and ?ss = "Sources tenant namespace at t"
  obtain r where r: "Resolve tenant revision now ?c ?ss [] = Some (Inr r)"
    using activated_resolves [OF assms] by blast
  show ?thesis
  proof (intro exI [of _ r] conjI ballI)
    show "Resolve tenant revision now ?c ?ss [] = Some (Inr r)" by (rule r)
  next
    fix m cap assume m: "m \<in> set (terms_Modules t)" and cap: "cap \<in> set (pm_Capabilities m)"
    obtain d :: PlanDefinition where d: "ModuleDefinition.truncate d \<in> set ?c" "mod_Code d = pm_Code m"
      "set (pm_Capabilities m) \<subseteq> set (mod_Capabilities d)"
      by (rule activated_definition [OF assms m]) (rule that)
    with cap show "\<exists>d \<in> set (res_Decisions r). dec_Kind d = Kind_Capability \<and> dec_Key d = cap \<and> dec_Allowed d"
      using activated_capability [OF assms r m d(1), of cap] by auto
  next
    fix m q assume m: "m \<in> set (terms_Modules t)" and q: "q \<in> set (pm_Quotas m)"
    show "\<exists>d \<in> set (res_Decisions r). dec_Kind d = Kind_Quota \<and> dec_ModuleCode d = pm_Code m \<and>
        dec_Key d = quota_Key q \<and> dec_Allowed d \<and> dec_Limit d = quota_limit q"
      by (rule activated_quota [OF assms r m q])
  next
    fix m f assume m: "m \<in> set (terms_Modules t)" and f: "f \<in> set (pm_Fields m)"
    show "\<exists>d \<in> set (res_Decisions r). dec_Kind d = Kind_Field \<and> dec_ModuleCode d = pm_Code m \<and> dec_Key d = field_Key f \<and>
        dec_Action d = field_Action f \<and> (dec_Masked d \<longleftrightarrow> field_Mode f = ''masked'') \<and>
        (field_Mode f = ''allow'' \<longrightarrow> dec_Allowed d) \<and> (field_Mode f = ''deny'' \<longrightarrow> \<not> dec_Allowed d)"
      using activated_field [OF assms r m f] by fastforce
  qed
qed

lemma activated_plan_delivers_witness:
  "\<exists>r. Resolve ''t1'' 1 (ex_activation + Day) (entitlement_catalog ex_plan_catalog)
         (Sources ''t1'' ''ns'' ex_activation ex_terms) [] = Some (Inr r) \<and>
     (\<exists>d \<in> set (res_Decisions r). dec_Key d = ''crm.read'' \<and> dec_Allowed d) \<and>
     (\<exists>d \<in> set (res_Decisions r). dec_Key d = ''seats'' \<and> dec_Limit d = \<lparr>Unlimited = False, Value = 10\<rparr>) \<and>
     (\<exists>d \<in> set (res_Decisions r). dec_Key d = ''phone'' \<and> dec_Action d = ''read'' \<and> dec_Masked d)"
  using activated_plan_delivers [OF ex_activated, of 1]
  by (auto simp: ex_terms_def quota_limit_def)

text \<open>
  Every source that a validated plan materialises into, at an acceptable instant, is a valid
  source of the tenant with respect to the catalogue the plan was validated against: the
  resolver never rejects what the subscription package writes.
\<close>

lemma materialised_sources_valid:
  assumes "Catalog_Validate (entitlement_catalog c) = None" "Terms_Validate t c = None"
    and "activation_ok tenant namespace at t"
  shows "\<forall>s \<in> set (Sources tenant namespace at t).
    Source_Validate s (entitlement_catalog c) = None \<and> src_TenantID s = tenant"
  using Sources_valid [OF assms] by blast

lemma materialised_sources_valid_witness:
  "Source_Validate (hd (Sources ''t1'' ''ns'' ex_activation ex_terms)) (entitlement_catalog ex_plan_catalog) = None \<and>
   src_TenantID (hd (Sources ''t1'' ''ns'' ex_activation ex_terms)) = ''t1''"
proof -
  have "hd (Sources ''t1'' ''ns'' ex_activation ex_terms) \<in> set (Sources ''t1'' ''ns'' ex_activation ex_terms)"
    by (rule hd_in_set) (simp add: Sources_def ex_terms_def module_sources_def)
  with materialised_sources_valid [OF ex_plan_ok ex_activation_ok [folded ex_activation_def]] show ?thesis by blast
qed

text \<open>
  Selling a module entitles to the whole module. \<open>Sources\<close> grants each selected module besides
  the listed capabilities, so an activated plan allows every capability of the module that the
  current catalogue holds, whether the plan lists it or not.
\<close>

lemma activated_module_entitles_catalogue:
  assumes "activated c t tenant namespace at now"
    and "Resolve tenant revision now (entitlement_catalog c) (Sources tenant namespace at t) [] = Some (Inr r)"
    and "m \<in> set (terms_Modules t)" "d \<in> set (entitlement_catalog c)" "mod_Code d = pm_Code m"
    and "cap \<in> set (mod_Capabilities d)"
  shows "\<exists>dec \<in> set (res_Decisions r). dec_Kind dec = Kind_Capability \<and> dec_Key dec = cap \<and> dec_Allowed dec"
  by (rule activated_capability [OF assms])

lemma activated_module_entitles_catalogue_witness:
  "''crm.write'' \<notin> set (pm_Capabilities (hd (terms_Modules ex_terms))) \<and>
   (\<exists>r. Resolve ''t1'' 1 (ex_activation + Day) (entitlement_catalog ex_plan_catalog)
         (Sources ''t1'' ''ns'' ex_activation ex_terms) [] = Some (Inr r) \<and>
      (\<exists>dec \<in> set (res_Decisions r). dec_Key dec = ''crm.write'' \<and> dec_Allowed dec))"
proof -
  obtain r where r: "Resolve ''t1'' 1 (ex_activation + Day) (entitlement_catalog ex_plan_catalog)
         (Sources ''t1'' ''ns'' ex_activation ex_terms) [] = Some (Inr r)"
    using activated_resolves [OF ex_activated] by blast
  have d: "ModuleDefinition.truncate (hd ex_plan_catalog) \<in> set (entitlement_catalog ex_plan_catalog)"
    "mod_Code (ModuleDefinition.truncate (hd ex_plan_catalog)) = pm_Code (hd (terms_Modules ex_terms))"
    "''crm.write'' \<in> set (mod_Capabilities (ModuleDefinition.truncate (hd ex_plan_catalog)))"
    by (simp_all add: ex_plan_catalog_def ex_terms_def entitlement_catalog_def)
  have "''crm.write'' \<notin> set (pm_Capabilities (hd (terms_Modules ex_terms)))" by (simp add: ex_terms_def)
  then show ?thesis
    using r activated_module_entitles_catalogue [OF ex_activated r ex_terms_module d] by blast
qed

text \<open>
  The field modes of a plan as the resolver reads them: the mode \<open>allow\<close> is the only one that
  allows the field action. The mode \<open>masked\<close> sets the mask on the decision but leaves the action
  refused, because it materialises into a mask without a grant.
\<close>

lemma activated_field_modes:
  assumes "activated c t tenant namespace at now"
    and "Resolve tenant revision now (entitlement_catalog c) (Sources tenant namespace at t) [] = Some (Inr r)"
    and "m \<in> set (terms_Modules t)" "f \<in> set (pm_Fields m)"
  shows "\<exists>d \<in> set (res_Decisions r). dec_Kind d = Kind_Field \<and> dec_ModuleCode d = pm_Code m \<and>
    dec_Key d = field_Key f \<and> dec_Action d = field_Action f \<and>
    (dec_Allowed d \<longleftrightarrow> field_Mode f = ''allow'') \<and> (dec_Masked d \<longleftrightarrow> field_Mode f = ''masked'')"
  by (rule activated_field [OF assms])

lemma activated_field_modes_witness:
  "\<exists>r. Resolve ''t1'' 1 (ex_activation + Day) (entitlement_catalog ex_plan_catalog)
         (Sources ''t1'' ''ns'' ex_activation ex_terms) [] = Some (Inr r) \<and>
     (\<exists>d \<in> set (res_Decisions r). dec_Key d = ''phone'' \<and> dec_Action d = ''read'' \<and>
        \<not> dec_Allowed d \<and> dec_Masked d)"
proof -
  obtain r where r: "Resolve ''t1'' 1 (ex_activation + Day) (entitlement_catalog ex_plan_catalog)
         (Sources ''t1'' ''ns'' ex_activation ex_terms) [] = Some (Inr r)"
    using activated_resolves [OF ex_activated] by blast
  have f: "hd (pm_Fields (hd (terms_Modules ex_terms))) \<in> set (pm_Fields (hd (terms_Modules ex_terms)))"
    by (simp add: ex_terms_def)
  have fs: "field_Key (hd (pm_Fields (hd (terms_Modules ex_terms)))) = ''phone''"
    "field_Action (hd (pm_Fields (hd (terms_Modules ex_terms)))) = ''read''"
    "field_Mode (hd (pm_Fields (hd (terms_Modules ex_terms)))) = ''masked''" by (simp_all add: ex_terms_def)
  from activated_field_modes [OF ex_activated r ex_terms_module f, unfolded fs] r show ?thesis by fastforce
qed

end
