(* ===== verification/Provisioning.thy ===== *)
theory Provisioning
  imports Lease
begin

section \<open>Durable provisioning\<close>

text \<open>
  The package \<open>internal/commercial/domain/provisioning\<close>: the durable task that prepares the
  adapters of a confirmed change and activates it (\<open>model.go\<close>), and the immutable events of the
  outbox (\<open>event.go\<close>). A method with a pointer receiver returns the updated task; an error
  discards it, as every caller does. An index out of range, where Go panics, is the error
  \<open>Prov_IndexPanic\<close>; the invariant shows that no reachable task runs into it.
\<close>

subsection \<open>Constants, keys and digests\<close>

abbreviation Queued :: string where "Queued \<equiv> ''QUEUED''"
abbreviation Running :: string where "Running \<equiv> ''RUNNING''"
abbreviation RetryWait :: string where "RetryWait \<equiv> ''RETRY_WAIT''"
abbreviation Ready :: string where "Ready \<equiv> ''READY''"
abbreviation Applied :: string where "Applied \<equiv> ''APPLIED''"
abbreviation Failed :: string where "Failed \<equiv> ''FAILED''"
abbreviation ReconcileRequired :: string where "ReconcileRequired \<equiv> ''RECONCILIATION_REQUIRED''"
abbreviation Cancelled :: string where "Cancelled \<equiv> ''CANCELLED''"
abbreviation WaitingStep :: string where "WaitingStep \<equiv> ''WAITING''"
abbreviation RunningStep :: string where "RunningStep \<equiv> ''RUNNING''"
abbreviation ReadyStep :: string where "ReadyStep \<equiv> ''READY''"
abbreviation Absent :: string where "Absent \<equiv> ''ABSENT''"
abbreviation Unknown :: string where "Unknown \<equiv> ''UNKNOWN''"
abbreviation PrepareStage :: string where "PrepareStage \<equiv> ''PREPARE''"
abbreviation ReconcileStage :: string where "ReconcileStage \<equiv> ''RECONCILE''"
abbreviation ActivateStage :: string where "ActivateStage \<equiv> ''ACTIVATE''"
abbreviation Retryable :: string where "Retryable \<equiv> ''RETRYABLE''"
abbreviation Permanent :: string where "Permanent \<equiv> ''PERMANENT''"

datatype prov_error =
    Prov_ErrInvalid
  | Prov_ErrScope
  | Prov_ErrNotFound
  | Prov_ErrConflict
  | Prov_ErrKeyConflict
  | Prov_ErrLease
  | Prov_ErrCorrupt
  | Prov_ErrCancellation
  | Prov_ErrRetry
  | Prov_ErrStale
  | Prov_ErrUnavailable
  | Prov_IndexPanic

definition Key :: "string \<Rightarrow> bool" where
  "Key s \<longleftrightarrow> key_pattern s"

definition Tenant :: "string \<Rightarrow> bool" where
  "Tenant s \<longleftrightarrow> length s \<le> 64 \<and> Key s"

definition Reason :: "string \<Rightarrow> bool" where
  "Reason s \<longleftrightarrow> TrimSpace s \<noteq> '''' \<and> length s \<le> 512"

definition TaskID :: "string \<Rightarrow> string" where
  "TaskID changeID = ''job-'' @ take 48 (Digest (JStr changeID))"

record Requirement =
  req_Code :: string
  req_Adapter :: string
  req_Version :: string
  req_MaxAttempts :: uint32

definition Requirement_Validate :: "Requirement \<Rightarrow> prov_error err" where
  "Requirement_Validate r =
     (if \<not> Key (req_Code r) \<or> \<not> Key (req_Adapter r) \<or> \<not> Key (req_Version r) \<or>
         req_MaxAttempts r < 1 \<or> req_MaxAttempts r > 10 then Some Prov_ErrInvalid else None)"

definition ValidateRequirements :: "Requirement list \<Rightarrow> prov_error err" where
  "ValidateRequirements rs =
     (if length rs > 16 then Some Prov_ErrInvalid
      else seen_loop (\<lambda>r. Requirement_Validate r \<noteq> None) req_Code Prov_ErrInvalid [] rs)"

subsection \<open>Tasks\<close>

record Step =
  st_Requirement :: Requirement
  st_IdempotencyKey :: string
  st_State :: string
  st_Effect :: string
  st_Attempts :: uint32
  st_CycleAttempts :: uint32
  st_Reconciliations :: uint32
  st_Evidence :: string
  st_FailureCode :: string

record Approval =
  app_ChangeID :: string
  app_ActorID :: string
  app_PreviewHash :: string
  app_TargetHash :: string
  app_TargetPlanCode :: string
  app_TargetPlanVersion :: uint64
  app_SubscriptionRevision :: uint64
  app_SourceVersion :: uint64
  app_EntitlementVersion :: uint64
  app_CatalogRevision :: uint64

record Completion =
  com_ChangeID :: string
  com_SubscriptionRevision :: uint64
  com_SourceVersion :: uint64
  com_EntitlementVersion :: uint64
  com_AppliedAt :: time

record Task =
  task_ID :: string
  task_TenantID :: string
  task_Approval :: Approval
  task_Revision :: uint64
  task_State :: string
  task_Steps :: "Step list"
  task_StepIndex :: int
  task_Stage :: string
  task_NextAttemptAt :: time
  task_CreatedAt :: time
  task_UpdatedAt :: time
  task_Deadline :: time
  task_LeaseOwner :: string
  task_LeaseToken :: uint64
  task_LeaseUntil :: "time option"
  task_FailureCode :: string
  task_RetryAllowed :: bool
  task_CancellationDisabled :: bool
  task_RetryCycles :: uint32
  task_ActivationAttempts :: uint32
  task_Completion :: "Completion option"
  task_Hash :: string

definition json_Requirement :: "Requirement \<Rightarrow> json" where
  "json_Requirement r = JObj [(''code'', JStr (req_Code r)), (''adapter'', JStr (req_Adapter r)),
     (''version'', JStr (req_Version r)), (''max_attempts'', JUint (req_MaxAttempts r))]"

definition json_Step :: "Step \<Rightarrow> json" where
  "json_Step s = JObj ([(''requirement'', json_Requirement (st_Requirement s)),
     (''idempotency_key'', JStr (st_IdempotencyKey s)), (''state'', JStr (st_State s)),
     (''effect'', JStr (st_Effect s)), (''attempts'', JUint (st_Attempts s)),
     (''cycle_attempts'', JUint (st_CycleAttempts s)),
     (''reconciliations'', JUint (st_Reconciliations s))] @
     omit_str ''evidence'' (st_Evidence s) @ omit_str ''failure_code'' (st_FailureCode s))"

definition json_Approval :: "Approval \<Rightarrow> json" where
  "json_Approval a = JObj [(''change_id'', JStr (app_ChangeID a)), (''actor_id'', JStr (app_ActorID a)),
     (''preview_hash'', JStr (app_PreviewHash a)), (''target_hash'', JStr (app_TargetHash a)),
     (''target_plan_code'', JStr (app_TargetPlanCode a)),
     (''target_plan_version'', JUint (app_TargetPlanVersion a)),
     (''subscription_revision'', JUint (app_SubscriptionRevision a)),
     (''source_version'', JUint (app_SourceVersion a)),
     (''entitlement_version'', JUint (app_EntitlementVersion a)),
     (''catalog_revision'', JUint (app_CatalogRevision a))]"

definition json_Completion :: "Completion \<Rightarrow> json" where
  "json_Completion c = JObj [(''change_id'', JStr (com_ChangeID c)),
     (''subscription_revision'', JUint (com_SubscriptionRevision c)),
     (''source_version'', JUint (com_SourceVersion c)),
     (''entitlement_version'', JUint (com_EntitlementVersion c)),
     (''applied_at'', JTime (com_AppliedAt c))]"

definition json_Task :: "Task \<Rightarrow> json" where
  "json_Task t = JObj ([(''task_id'', JStr (task_ID t)), (''tenant_id'', JStr (task_TenantID t)),
     (''approval'', json_Approval (task_Approval t)), (''revision'', JUint (task_Revision t)),
     (''state'', JStr (task_State t)), (''steps'', JArr (map json_Step (task_Steps t))),
     (''step_index'', JNum (task_StepIndex t)), (''stage'', JStr (task_Stage t)),
     (''next_attempt_at'', JTime (task_NextAttemptAt t)), (''created_at'', JTime (task_CreatedAt t)),
     (''updated_at'', JTime (task_UpdatedAt t)), (''deadline'', JTime (task_Deadline t))] @
     omit_str ''lease_owner'' (task_LeaseOwner t) @ [(''lease_token'', JUint (task_LeaseToken t))] @
     omit_time ''lease_until'' (task_LeaseUntil t) @ omit_str ''failure_code'' (task_FailureCode t) @
     [(''retry_allowed'', JBool (task_RetryAllowed t))] @
     omit_bool ''cancellation_disabled'' (task_CancellationDisabled t) @
     [(''retry_cycles'', JUint (task_RetryCycles t)),
      (''activation_attempts'', JUint (task_ActivationAttempts t))] @
     (case task_Completion t of None \<Rightarrow> [] | Some c \<Rightarrow> [(''completion'', json_Completion c)]) @
     [(''hash'', JStr (task_Hash t))])"

definition Task_Seal :: "Task \<Rightarrow> Task" where
  "Task_Seal t = t\<lparr>task_Hash := Digest (json_Task (t\<lparr>task_Hash := ''''\<rparr>))\<rparr>"

definition step_key :: "string \<Rightarrow> nat \<Rightarrow> Requirement \<Rightarrow> string" where
  "step_key taskID i r =
     ''prep-'' @ take 48 (Digest (JArr [JStr taskID, JNum (int i), json_Requirement r]))"

definition step_error :: "Task \<Rightarrow> nat \<Rightarrow> Step \<Rightarrow> bool" where
  "step_error t i s \<longleftrightarrow>
     Requirement_Validate (st_Requirement s) \<noteq> None \<or>
     st_IdempotencyKey s \<noteq> step_key (task_ID t) i (st_Requirement s) \<or>
     st_CycleAttempts s > st_Attempts s \<or> st_CycleAttempts s > req_MaxAttempts (st_Requirement s) \<or>
     length (st_Evidence s) > 1024 \<or> length (st_FailureCode s) > 128 \<or>
     st_State s \<notin> {WaitingStep, RunningStep, ReadyStep} \<or>
     st_Effect s \<notin> {Absent, Unknown, ReadyStep} \<or>
     (int i < task_StepIndex t \<and>
      (st_State s \<noteq> ReadyStep \<or> st_Effect s \<noteq> ReadyStep \<or> st_Evidence s = ''''))"

definition Task_Integrity :: "Task \<Rightarrow> prov_error err" where
  "Task_Integrity t =
     (let a = task_Approval t in
      if \<not> Tenant (task_TenantID t) \<or> task_ID t \<noteq> TaskID (app_ChangeID a) \<or> \<not> Key (app_ChangeID a) \<or>
         task_Revision t = 0 \<or> app_ActorID a = '''' \<or> length (app_PreviewHash a) \<noteq> 64 \<or>
         length (app_TargetHash a) \<noteq> 64 \<or> \<not> Key (app_TargetPlanCode a) \<or>
         app_TargetPlanVersion a = 0 \<or> app_SubscriptionRevision a = 0 \<or> app_SourceVersion a = 0 \<or>
         app_EntitlementVersion a = 0 \<or> app_CatalogRevision a = 0 \<or> length (task_Steps t) < 1 \<or>
         length (task_Steps t) > 16 \<or> task_StepIndex t < 0 \<or>
         task_StepIndex t > int (length (task_Steps t)) \<or> IsZero (task_CreatedAt t) \<or>
         \<not> task_Deadline t > task_CreatedAt t \<or> task_Hash t \<noteq> task_Hash (Task_Seal t)
        then Some Prov_ErrCorrupt
      else if task_State t \<notin> {Queued, Running, RetryWait, Ready, Applied, Failed, ReconcileRequired, Cancelled}
        then Some Prov_ErrCorrupt
      else if \<exists>i < length (task_Steps t). step_error t i (task_Steps t ! i) then Some Prov_ErrCorrupt
      else if task_State t = Running \<and>
         (task_LeaseOwner t = '''' \<or> task_LeaseUntil t = None \<or> task_LeaseToken t = 0)
        then Some Prov_ErrCorrupt
      else if task_State t \<noteq> Running \<and> (task_LeaseOwner t \<noteq> '''' \<or> task_LeaseUntil t \<noteq> None)
        then Some Prov_ErrCorrupt
      else if task_State t = Applied \<and>
         (case task_Completion t of
            None \<Rightarrow> True
          | Some c \<Rightarrow> com_ChangeID c \<noteq> app_ChangeID a \<or> com_EntitlementVersion c = 0 \<or>
              com_SourceVersion c = 0 \<or>
              com_SubscriptionRevision c \<noteq> app_SubscriptionRevision a + 1)
        then Some Prov_ErrCorrupt
      else None)"

definition new_step :: "string \<Rightarrow> nat \<Rightarrow> Requirement \<Rightarrow> Step" where
  "new_step taskID i r =
     \<lparr>st_Requirement = r, st_IdempotencyKey = step_key taskID i r, st_State = WaitingStep,
      st_Effect = Absent, st_Attempts = 0, st_CycleAttempts = 0, st_Reconciliations = 0,
      st_Evidence = '''', st_FailureCode = ''''\<rparr>"

definition Task_New :: "string \<Rightarrow> Approval \<Rightarrow> Requirement list \<Rightarrow> time \<Rightarrow> prov_error + Task" where
  "Task_New tenant a rs now =
     (if length rs = 0 \<or> ValidateRequirements rs \<noteq> None then Inl Prov_ErrInvalid
      else
        let t = Task_Seal
          \<lparr>task_ID = TaskID (app_ChangeID a), task_TenantID = tenant, task_Approval = a,
           task_Revision = 1, task_State = Queued,
           task_Steps = map (\<lambda>(i, r). new_step (TaskID (app_ChangeID a)) i r) (enumerate 0 rs),
           task_StepIndex = 0, task_Stage = PrepareStage, task_NextAttemptAt = now,
           task_CreatedAt = now, task_UpdatedAt = now, task_Deadline = now + 24 * Hour,
           task_LeaseOwner = '''', task_LeaseToken = 0, task_LeaseUntil = None,
           task_FailureCode = '''', task_RetryAllowed = False, task_CancellationDisabled = False,
           task_RetryCycles = 0, task_ActivationAttempts = 0, task_Completion = None,
           task_Hash = ''''\<rparr>
        in case Task_Integrity t of Some e \<Rightarrow> Inl e | None \<Rightarrow> Inr t)"

subsection \<open>Operations\<close>

definition Task_Terminal :: "Task \<Rightarrow> bool" where
  "Task_Terminal t \<longleftrightarrow> task_State t = Applied \<or> task_State t = Cancelled"

definition Task_Due :: "Task \<Rightarrow> time \<Rightarrow> bool" where
  "Task_Due t now =
     (if task_State t = Running then optional (\<lambda>u. \<not> now < u) (task_LeaseUntil t)
      else (task_State t = Queued \<or> task_State t = RetryWait \<or> task_State t = Ready) \<and>
           \<not> now < task_NextAttemptAt t)"

definition Task_release :: "Task \<Rightarrow> Task" where
  "Task_release t = t\<lparr>task_LeaseOwner := '''', task_LeaseUntil := None\<rparr>"

definition finishRevision :: "Task \<Rightarrow> time \<Rightarrow> Task" where
  "finishRevision t now = Task_Seal (t\<lparr>task_Revision := task_Revision t + 1, task_UpdatedAt := now\<rparr>)"

text \<open>The early exits of \<open>Claim\<close> that give the task up, and the lease it takes otherwise.\<close>

definition give_up :: "Task \<Rightarrow> string \<Rightarrow> string \<Rightarrow> bool \<Rightarrow> time \<Rightarrow> Task" where
  "give_up t state failure retry now =
     finishRevision (Task_release (t\<lparr>task_State := state, task_FailureCode := failure,
       task_RetryAllowed := retry\<rparr>)) now"

definition take_lease :: "Task \<Rightarrow> string \<Rightarrow> time \<Rightarrow> duration \<Rightarrow> Task" where
  "take_lease t owner now lease =
     finishRevision (t\<lparr>task_State := Running, task_LeaseOwner := owner,
       task_LeaseToken := task_LeaseToken t + 1, task_LeaseUntil := Some (now + lease)\<rparr>) now"

definition update_step :: "Task \<Rightarrow> nat \<Rightarrow> Step \<Rightarrow> Task" where
  "update_step t i s = t\<lparr>task_Steps := (task_Steps t)[i := s]\<rparr>"

definition claim_step :: "Task \<Rightarrow> string \<Rightarrow> time \<Rightarrow> duration \<Rightarrow> nat \<Rightarrow> Task" where
  "claim_step t owner now lease i =
     (let s = task_Steps t ! i; expired = (task_State t = Running)
      in if expired \<or> st_Effect s = Unknown then
           (if st_Reconciliations s \<ge> 32
            then give_up t ReconcileRequired ''RECONCILIATION_LIMIT_REACHED'' False now
            else take_lease (update_step (t\<lparr>task_Stage := ReconcileStage\<rparr>) i
                   (s\<lparr>st_Reconciliations := st_Reconciliations s + 1, st_State := RunningStep,
                      st_Effect := Unknown\<rparr>)) owner now lease)
         else if st_CycleAttempts s \<ge> req_MaxAttempts (st_Requirement s)
           then give_up t Failed ''PREPARATION_RETRIES_EXHAUSTED'' True now
         else take_lease (update_step (t\<lparr>task_Stage := PrepareStage\<rparr>) i
                (s\<lparr>st_Attempts := st_Attempts s + 1, st_CycleAttempts := st_CycleAttempts s + 1,
                   st_State := RunningStep, st_Effect := Unknown\<rparr>)) owner now lease)"

definition Task_Claim :: "Task \<Rightarrow> string \<Rightarrow> time \<Rightarrow> duration \<Rightarrow> prov_error + Task" where
  "Task_Claim t owner now lease =
     (if \<not> Key owner \<or> lease < 5 * Second \<or> lease > 5 * Minute \<or> \<not> Task_Due t now \<or>
         task_Revision t = MaxUint64 \<or> task_LeaseToken t = MaxUint64 then Inl Prov_ErrConflict
      else if \<not> now < task_Deadline t
        then Inr (give_up t ReconcileRequired ''APPROVAL_DEADLINE_EXCEEDED'' False now)
      else if task_StepIndex t = int (length (task_Steps t)) then
        (let t1 = t\<lparr>task_Stage := ActivateStage,
                    task_ActivationAttempts := task_ActivationAttempts t + 1\<rparr>
         in if task_ActivationAttempts t1 > 3
            then Inr (give_up t1 Failed ''ACTIVATION_RETRIES_EXHAUSTED'' True now)
            else Inr (take_lease t1 owner now lease))
      else if task_StepIndex t < 0 \<or> task_StepIndex t > int (length (task_Steps t))
        then Inl Prov_IndexPanic
      else Inr (claim_step t owner now lease (nat (task_StepIndex t))))"

definition Task_Owns :: "Task \<Rightarrow> string \<Rightarrow> uint64 \<Rightarrow> time \<Rightarrow> bool" where
  "Task_Owns t owner token now \<longleftrightarrow>
     task_State t = Running \<and> task_LeaseOwner t = owner \<and> task_LeaseToken t = token \<and>
     optional (\<lambda>u. now < u) (task_LeaseUntil t)"

record Observation =
  obs_Outcome :: string
  obs_Evidence :: string
  obs_FailureCode :: string

definition Observation_Validate :: "Observation \<Rightarrow> prov_error err" where
  "Observation_Validate ob =
     (if length (obs_Evidence ob) > 1024 \<or> TrimSpace (obs_Evidence ob) = '''' \<or>
         length (obs_FailureCode ob) > 128 then Some Prov_ErrInvalid
      else if obs_Outcome ob \<notin> {ReadyStep, Absent, Retryable, Permanent, Unknown} then Some Prov_ErrInvalid
      else if obs_Outcome ob \<noteq> ReadyStep \<and> obs_Outcome ob \<noteq> Absent \<and> \<not> Key (obs_FailureCode ob)
        then Some Prov_ErrInvalid
      else None)"

definition Backoff :: "uint32 \<Rightarrow> duration" where
  "Backoff n = 2 ^ unat (if n > 6 then 6 else n) * Second"

definition observe_step :: "Task \<Rightarrow> Observation \<Rightarrow> time \<Rightarrow> nat \<Rightarrow> Task" where
  "observe_step t ob now i =
     (let s = (task_Steps t ! i)\<lparr>st_Evidence := obs_Evidence ob, st_FailureCode := obs_FailureCode ob\<rparr>
      in if obs_Outcome ob = ReadyStep then
           (let t1 = (update_step t i (s\<lparr>st_State := ReadyStep, st_Effect := ReadyStep\<rparr>))
                       \<lparr>task_StepIndex := task_StepIndex t + 1, task_State := Queued, task_NextAttemptAt := now\<rparr>
            in if task_StepIndex t1 = int (length (task_Steps t1))
               then t1\<lparr>task_State := Ready, task_Stage := ActivateStage\<rparr> else t1)
         else if obs_Outcome ob = Absent \<or> obs_Outcome ob = Retryable then
           (let t1 = (update_step t i (s\<lparr>st_State := WaitingStep, st_Effect := Absent\<rparr>))
                       \<lparr>task_RetryAllowed := True\<rparr>
            in if st_CycleAttempts s \<ge> req_MaxAttempts (st_Requirement s)
               then t1\<lparr>task_State := Failed, task_FailureCode := ''PREPARATION_RETRIES_EXHAUSTED''\<rparr>
               else t1\<lparr>task_State := RetryWait, task_NextAttemptAt := now + Backoff (st_CycleAttempts s)\<rparr>)
         else if obs_Outcome ob = Permanent then
           (update_step t i (s\<lparr>st_State := WaitingStep, st_Effect := Absent\<rparr>))\<lparr>task_State := Failed\<rparr>
         else if obs_Outcome ob = Unknown then
           (update_step t i (s\<lparr>st_State := WaitingStep, st_Effect := Unknown\<rparr>))
             \<lparr>task_State := ReconcileRequired, task_RetryAllowed := True\<rparr>
         else update_step t i s)"

definition Task_Observe :: "Task \<Rightarrow> string \<Rightarrow> uint64 \<Rightarrow> Observation \<Rightarrow> time \<Rightarrow> prov_error + Task" where
  "Task_Observe t owner token ob now =
     (if \<not> Task_Owns t owner token now then Inl Prov_ErrLease
      else if Observation_Validate ob \<noteq> None then Inl Prov_ErrInvalid
      else
        let t0 = t\<lparr>task_FailureCode := obs_FailureCode ob, task_RetryAllowed := False\<rparr>
        in if task_Stage t = ActivateStage then
             Inr (finishRevision (Task_release
               (if obs_Outcome ob = Retryable
                then t0\<lparr>task_State := RetryWait,
                        task_NextAttemptAt := now + Backoff (task_ActivationAttempts t),
                        task_RetryAllowed := True\<rparr>
                else t0\<lparr>task_State := ReconcileRequired\<rparr>)) now)
           else if task_StepIndex t < 0 \<or> task_StepIndex t \<ge> int (length (task_Steps t))
             then Inl Prov_IndexPanic
           else Inr (finishRevision (Task_release (observe_step t0 ob now (nat (task_StepIndex t)))) now))"

definition Task_Cancellable :: "Task \<Rightarrow> bool" where
  "Task_Cancellable t \<longleftrightarrow>
     \<not> (task_CancellationDisabled t \<or> task_State t = Running \<or> Task_Terminal t) \<and>
     (\<forall>s \<in> set (task_Steps t). \<not> (st_Effect s \<noteq> Absent \<or> st_State s = ReadyStep))"

definition Task_Cancel :: "Task \<Rightarrow> time \<Rightarrow> prov_error + Task" where
  "Task_Cancel t now =
     (if \<not> Task_Cancellable t then Inl Prov_ErrCancellation
      else Inr (finishRevision (Task_release
        (t\<lparr>task_State := Cancelled, task_RetryAllowed := False\<rparr>)) now))"

definition Task_Retry :: "Task \<Rightarrow> time \<Rightarrow> prov_error + Task" where
  "Task_Retry t now =
     (if (task_State t \<noteq> Failed \<and> task_State t \<noteq> ReconcileRequired) \<or> \<not> task_RetryAllowed t \<or>
         \<not> now < task_Deadline t \<or> task_RetryCycles t \<ge> 10 then Inl Prov_ErrRetry
      else if task_StepIndex t < 0 then Inl Prov_IndexPanic
      else
        let t1 = t\<lparr>task_RetryCycles := task_RetryCycles t + 1, task_ActivationAttempts := 0\<rparr>;
            i = nat (task_StepIndex t);
            t2 = (if task_StepIndex t < int (length (task_Steps t))
                  then update_step t1 i
                    ((task_Steps t ! i)\<lparr>st_CycleAttempts := 0, st_State := WaitingStep\<rparr>)
                  else t1)
        in Inr (finishRevision (Task_release (t2\<lparr>task_State := Queued, task_NextAttemptAt := now,
             task_RetryAllowed := False\<rparr>)) now))"

definition Task_Complete :: "Task \<Rightarrow> string \<Rightarrow> uint64 \<Rightarrow> Completion \<Rightarrow> time \<Rightarrow> prov_error + Task" where
  "Task_Complete t owner token c now =
     (let a = task_Approval t in
      if \<not> Task_Owns t owner token now \<or> task_Stage t \<noteq> ActivateStage \<or>
         task_StepIndex t \<noteq> int (length (task_Steps t)) then Inl Prov_ErrLease
      else if com_ChangeID c \<noteq> app_ChangeID a \<or>
         com_SubscriptionRevision c \<noteq> app_SubscriptionRevision a + 1 \<or>
         com_SourceVersion c \<le> app_SourceVersion a \<or>
         com_EntitlementVersion c \<le> app_EntitlementVersion a \<or> IsZero (com_AppliedAt c)
        then Inl Prov_ErrCorrupt
      else
        let t1 = finishRevision (Task_release (t\<lparr>task_State := Applied, task_Completion := Some c,
                   task_RetryAllowed := False, task_FailureCode := ''''\<rparr>)) now
        in case Task_Integrity t1 of Some e \<Rightarrow> Inl e | None \<Rightarrow> Inr t1)"

subsection \<open>Events\<close>

record Event =
  ev_ID :: string
  ev_TenantID :: string
  ev_AggregateID :: string
  ev_AggregateVersion :: uint64
  ev_ChangeID :: string
  ev_TaskID :: string
  ev_Status :: string
  ev_SourceVersion :: uint64
  ev_EntitlementVersion :: uint64
  ev_OccurredAt :: time
  ev_Hash :: string

definition json_Event :: "Event \<Rightarrow> json" where
  "json_Event e = JObj ([(''event_id'', JStr (ev_ID e)), (''tenant_id'', JStr (ev_TenantID e)),
     (''aggregate_id'', JStr (ev_AggregateID e)),
     (''aggregate_version'', JUint (ev_AggregateVersion e)), (''change_id'', JStr (ev_ChangeID e))] @
     omit_str ''task_id'' (ev_TaskID e) @
     [(''status'', JStr (ev_Status e)), (''source_version'', JUint (ev_SourceVersion e)),
      (''entitlement_version'', JUint (ev_EntitlementVersion e)),
      (''occurred_at'', JTime (ev_OccurredAt e)), (''hash'', JStr (ev_Hash e))])"

definition event_id :: "Event \<Rightarrow> string" where
  "event_id e = ''evt-'' @ take 48 (Digest (JArr [JStr (ev_TenantID e), JStr (ev_AggregateID e),
     JUint (ev_AggregateVersion e)]))"

definition Event_Seal :: "Event \<Rightarrow> Event" where
  "Event_Seal e =
     (let e1 = e\<lparr>ev_ID := event_id e\<rparr>
      in e1\<lparr>ev_Hash := Digest (json_Event (e1\<lparr>ev_Hash := ''''\<rparr>))\<rparr>)"

definition Event_Integrity :: "Event \<Rightarrow> prov_error err" where
  "Event_Integrity e =
     (let sealed = Event_Seal e
      in if \<not> Tenant (ev_TenantID e) \<or> \<not> Key (ev_AggregateID e) \<or> ev_AggregateVersion e = 0 \<or>
            \<not> Key (ev_ChangeID e) \<or> IsZero (ev_OccurredAt e) \<or> ev_SourceVersion e = 0 \<or>
            ev_EntitlementVersion e = 0 \<or> ev_ID sealed \<noteq> ev_ID e \<or> ev_Hash sealed \<noteq> ev_Hash e
         then Some Prov_ErrCorrupt
         else if ev_Status e \<notin> {Applied, ''SCHEDULED'', ''PROVISIONING'', Cancelled}
         then Some Prov_ErrCorrupt
         else None)"

definition ClassifyDelivery :: "Event \<Rightarrow> string \<Rightarrow> uint64 \<Rightarrow> string \<Rightarrow> prov_error + string" where
  "ClassifyDelivery e inboxHash lastVersion lastHash =
     (if Event_Integrity e \<noteq> None then Inl Prov_ErrCorrupt
      else if inboxHash \<noteq> '''' then
        (if inboxHash \<noteq> ev_Hash e then Inl Prov_ErrCorrupt else Inr ''DUPLICATE'')
      else if ev_AggregateVersion e < lastVersion then Inr ''STALE''
      else if ev_AggregateVersion e = lastVersion then
        (if ev_Hash e \<noteq> lastHash then Inl Prov_ErrCorrupt else Inr ''DUPLICATE'')
      else Inr ''APPLIED'')"

section \<open>The task as a sealed and leased record\<close>

interpretation task_seal: sealed task_Hash "\<lambda>h t. t\<lparr>task_Hash := h\<rparr>" "\<lambda>t. Digest (json_Task t)" Task_Seal
  by unfold_locales (simp_all add: Task_Seal_def)

lemma Task_Seal_fields [simp]:
  "task_ID (Task_Seal t) = task_ID t" "task_TenantID (Task_Seal t) = task_TenantID t"
  "task_Approval (Task_Seal t) = task_Approval t" "task_Revision (Task_Seal t) = task_Revision t"
  "task_State (Task_Seal t) = task_State t" "task_Steps (Task_Seal t) = task_Steps t"
  "task_StepIndex (Task_Seal t) = task_StepIndex t" "task_Stage (Task_Seal t) = task_Stage t"
  "task_NextAttemptAt (Task_Seal t) = task_NextAttemptAt t" "task_CreatedAt (Task_Seal t) = task_CreatedAt t"
  "task_UpdatedAt (Task_Seal t) = task_UpdatedAt t" "task_Deadline (Task_Seal t) = task_Deadline t"
  "task_LeaseOwner (Task_Seal t) = task_LeaseOwner t" "task_LeaseToken (Task_Seal t) = task_LeaseToken t"
  "task_LeaseUntil (Task_Seal t) = task_LeaseUntil t" "task_FailureCode (Task_Seal t) = task_FailureCode t"
  "task_RetryAllowed (Task_Seal t) = task_RetryAllowed t"
  "task_CancellationDisabled (Task_Seal t) = task_CancellationDisabled t"
  "task_RetryCycles (Task_Seal t) = task_RetryCycles t"
  "task_ActivationAttempts (Task_Seal t) = task_ActivationAttempts t"
  "task_Completion (Task_Seal t) = task_Completion t"
  by (simp_all add: Task_Seal_def)

lemma finishRevision_fields [simp]:
  "task_ID (finishRevision t now) = task_ID t" "task_TenantID (finishRevision t now) = task_TenantID t"
  "task_Approval (finishRevision t now) = task_Approval t"
  "task_Revision (finishRevision t now) = task_Revision t + 1"
  "task_State (finishRevision t now) = task_State t" "task_Steps (finishRevision t now) = task_Steps t"
  "task_StepIndex (finishRevision t now) = task_StepIndex t" "task_Stage (finishRevision t now) = task_Stage t"
  "task_NextAttemptAt (finishRevision t now) = task_NextAttemptAt t"
  "task_CreatedAt (finishRevision t now) = task_CreatedAt t"
  "task_Deadline (finishRevision t now) = task_Deadline t"
  "task_LeaseOwner (finishRevision t now) = task_LeaseOwner t"
  "task_LeaseToken (finishRevision t now) = task_LeaseToken t"
  "task_LeaseUntil (finishRevision t now) = task_LeaseUntil t"
  "task_RetryAllowed (finishRevision t now) = task_RetryAllowed t"
  "task_RetryCycles (finishRevision t now) = task_RetryCycles t"
  "task_ActivationAttempts (finishRevision t now) = task_ActivationAttempts t"
  "task_Completion (finishRevision t now) = task_Completion t"
  by (simp_all add: finishRevision_def)

lemmas task_ops = give_up_def take_lease_def update_step_def Task_release_def

section \<open>The task invariant\<close>

text \<open>Integrity taken apart: what no operation changes, the steps, the lease and the completion.\<close>

definition static_ok :: "Task \<Rightarrow> bool" where
  "static_ok t \<longleftrightarrow>
     (let a = task_Approval t in
      Tenant (task_TenantID t) \<and> task_ID t = TaskID (app_ChangeID a) \<and> Key (app_ChangeID a) \<and>
      app_ActorID a \<noteq> '''' \<and> length (app_PreviewHash a) = 64 \<and> length (app_TargetHash a) = 64 \<and>
      Key (app_TargetPlanCode a) \<and> app_TargetPlanVersion a \<noteq> 0 \<and> app_SubscriptionRevision a \<noteq> 0 \<and>
      app_SourceVersion a \<noteq> 0 \<and> app_EntitlementVersion a \<noteq> 0 \<and> app_CatalogRevision a \<noteq> 0 \<and>
      \<not> length (task_Steps t) < 1 \<and> \<not> length (task_Steps t) > 16 \<and> \<not> IsZero (task_CreatedAt t) \<and>
      task_Deadline t > task_CreatedAt t)"

definition lease_ok :: "Task \<Rightarrow> bool" where
  "lease_ok t \<longleftrightarrow>
     (if task_State t = Running
      then task_LeaseOwner t \<noteq> '''' \<and> task_LeaseUntil t \<noteq> None \<and> task_LeaseToken t \<noteq> 0
      else task_LeaseOwner t = '''' \<and> task_LeaseUntil t = None)"

definition applied_ok :: "Task \<Rightarrow> bool" where
  "applied_ok t \<longleftrightarrow> (task_State t = Applied \<longrightarrow>
     (case task_Completion t of
        None \<Rightarrow> False
      | Some c \<Rightarrow> com_ChangeID c = app_ChangeID (task_Approval t) \<and> com_EntitlementVersion c \<noteq> 0 \<and>
          com_SourceVersion c \<noteq> 0 \<and>
          com_SubscriptionRevision c = app_SubscriptionRevision (task_Approval t) + 1))"

abbreviation task_states :: "string set" where
  "task_states \<equiv> {Queued, Running, RetryWait, Ready, Applied, Failed, ReconcileRequired, Cancelled}"

lemma Task_Integrity_None:
  "Task_Integrity t = None \<longleftrightarrow>
     static_ok t \<and> task_Revision t \<noteq> 0 \<and> 0 \<le> task_StepIndex t \<and>
     task_StepIndex t \<le> int (length (task_Steps t)) \<and> Task_Seal t = t \<and> task_State t \<in> task_states \<and>
     (\<forall>i < length (task_Steps t). \<not> step_error t i (task_Steps t ! i)) \<and> lease_ok t \<and> applied_ok t"
proof -
  have seal: "task_Hash t = task_Hash (Task_Seal t) \<longleftrightarrow> Task_Seal t = t" by (rule task_seal.verifies_iff)
  have c: "(case task_Completion t of
            None \<Rightarrow> True
          | Some c \<Rightarrow> com_ChangeID c \<noteq> app_ChangeID a \<or> com_EntitlementVersion c = 0 \<or>
              com_SourceVersion c = 0 \<or>
              com_SubscriptionRevision c \<noteq> app_SubscriptionRevision a + 1) \<longleftrightarrow>
      \<not> (case task_Completion t of
        None \<Rightarrow> False
      | Some c \<Rightarrow> com_ChangeID c = app_ChangeID a \<and> com_EntitlementVersion c \<noteq> 0 \<and>
          com_SourceVersion c \<noteq> 0 \<and>
          com_SubscriptionRevision c = app_SubscriptionRevision a + 1)" for a
    by (cases "task_Completion t") auto
  have guard: "(if b then Some e else r) = None \<longleftrightarrow> \<not> b \<and> r = None" for b :: bool and e :: prov_error and r
    by simp
  have head: "\<not> (\<not> Tenant (task_TenantID t) \<or> task_ID t \<noteq> TaskID (app_ChangeID a) \<or> \<not> Key (app_ChangeID a) \<or>
         task_Revision t = 0 \<or> app_ActorID a = '''' \<or> length (app_PreviewHash a) \<noteq> 64 \<or>
         length (app_TargetHash a) \<noteq> 64 \<or> \<not> Key (app_TargetPlanCode a) \<or>
         app_TargetPlanVersion a = 0 \<or> app_SubscriptionRevision a = 0 \<or> app_SourceVersion a = 0 \<or>
         app_EntitlementVersion a = 0 \<or> app_CatalogRevision a = 0 \<or> length (task_Steps t) < 1 \<or>
         length (task_Steps t) > 16 \<or> task_StepIndex t < 0 \<or>
         task_StepIndex t > int (length (task_Steps t)) \<or> IsZero (task_CreatedAt t) \<or>
         \<not> task_Deadline t > task_CreatedAt t \<or> task_Hash t \<noteq> task_Hash (Task_Seal t)) \<longleftrightarrow>
      static_ok t \<and> task_Revision t \<noteq> 0 \<and> \<not> task_StepIndex t < 0 \<and>
      \<not> task_StepIndex t > int (length (task_Steps t)) \<and> Task_Seal t = t" if "a = task_Approval t" for a
    unfolding static_ok_def Let_def seal that by blast
  have lease: "\<not> (task_State t = Running \<and> (task_LeaseOwner t = '''' \<or> task_LeaseUntil t = None \<or> task_LeaseToken t = 0)) \<and>
      \<not> (task_State t \<noteq> Running \<and> (task_LeaseOwner t \<noteq> '''' \<or> task_LeaseUntil t \<noteq> None)) \<longleftrightarrow> lease_ok t"
    unfolding lease_ok_def by (cases "task_State t = Running") simp_all
  show ?thesis
    unfolding Task_Integrity_def Let_def guard head [OF refl] c lease [symmetric] applied_ok_def
      not_less [symmetric] by blast
qed

text \<open>
  Steps with their counters. A step is attempted at most ten times per retry cycle and reconciled
  at most 32 times, so none of the 32-bit counters ever wraps around.
\<close>

definition step_ok :: "string \<Rightarrow> int \<Rightarrow> nat \<Rightarrow> nat \<Rightarrow> Step \<Rightarrow> bool" where
  "step_ok tid idx cycles i s \<longleftrightarrow>
     Requirement_Validate (st_Requirement s) = None \<and>
     st_IdempotencyKey s = step_key tid i (st_Requirement s) \<and>
     st_CycleAttempts s \<le> st_Attempts s \<and> st_CycleAttempts s \<le> req_MaxAttempts (st_Requirement s) \<and>
     length (st_Evidence s) \<le> 1024 \<and> length (st_FailureCode s) \<le> 128 \<and>
     st_State s \<in> {WaitingStep, RunningStep, ReadyStep} \<and> st_Effect s \<in> {Absent, Unknown, ReadyStep} \<and>
     (int i < idx \<longrightarrow> st_State s = ReadyStep \<and> st_Effect s = ReadyStep \<and> st_Evidence s \<noteq> '''') \<and>
     unat (st_Attempts s) \<le> 10 * cycles + unat (st_CycleAttempts s) \<and> unat (st_Reconciliations s) \<le> 32"

definition steps_ok :: "Task \<Rightarrow> bool" where
  "steps_ok t \<longleftrightarrow> (\<forall>i < length (task_Steps t).
     step_ok (task_ID t) (task_StepIndex t) (unat (task_RetryCycles t)) i (task_Steps t ! i))"

text \<open>The claims that the counters of a task account for.\<close>

definition step_claims :: "Step \<Rightarrow> nat" where
  "step_claims s = unat (st_Attempts s) + unat (st_Reconciliations s)"

definition claims_used :: "Task \<Rightarrow> nat" where
  "claims_used t = sum_list (map step_claims (task_Steps t)) + 3 * unat (task_RetryCycles t) +
     min 3 (unat (task_ActivationAttempts t))"

text \<open>How many revisions a state may be ahead of its claims and retry cycles.\<close>

definition rev_slack :: "string \<Rightarrow> nat" where
  "rev_slack state =
     (if state = Running then 0 else if state \<in> {Queued, RetryWait, Ready, Applied} then 1
      else if state \<in> {Failed, ReconcileRequired} then 2 else 3)"

definition core_ok :: "Task \<Rightarrow> bool" where
  "core_ok t \<longleftrightarrow>
     static_ok t \<and> 0 \<le> task_StepIndex t \<and> task_StepIndex t \<le> int (length (task_Steps t)) \<and>
     task_State t \<in> task_states \<and> steps_ok t \<and> lease_ok t \<and> applied_ok t \<and>
     unat (task_RetryCycles t) \<le> 10 \<and> unat (task_ActivationAttempts t) \<le> 4 \<and>
     (task_State t \<in> {Queued, Running, RetryWait, Ready} \<longrightarrow> unat (task_ActivationAttempts t) \<le> 3) \<and>
     (task_State t = Running \<longrightarrow>
        (task_Stage t = ActivateStage \<longleftrightarrow> task_StepIndex t = int (length (task_Steps t)))) \<and>
     unat (task_LeaseToken t) \<le> claims_used t"

definition rev_ok :: "uint64 \<Rightarrow> Task \<Rightarrow> bool" where
  "rev_ok r t \<longleftrightarrow> r \<noteq> 0 \<and>
     unat r \<le> 2 * unat (task_LeaseToken t) + 2 * unat (task_RetryCycles t) + rev_slack (task_State t)"

definition task_inv :: "Task \<Rightarrow> bool" where
  "task_inv t \<longleftrightarrow> core_ok t \<and> rev_ok (task_Revision t) t \<and> Task_Seal t = t"

lemma core_okD:
  assumes "core_ok t"
  shows "static_ok t" "task_State t \<in> task_states" "steps_ok t" "lease_ok t" "applied_ok t"
    "unat (task_RetryCycles t) \<le> 10" "unat (task_ActivationAttempts t) \<le> 4"
    "unat (task_LeaseToken t) \<le> claims_used t" "0 \<le> task_StepIndex t"
    "task_StepIndex t \<le> int (length (task_Steps t))"
    "task_State t \<in> {Queued, Running, RetryWait, Ready} \<Longrightarrow> unat (task_ActivationAttempts t) \<le> 3"
    "task_State t = Running \<Longrightarrow> task_Stage t = ActivateStage \<longleftrightarrow> task_StepIndex t = int (length (task_Steps t))"
  using assms unfolding core_ok_def by blast+

lemma step_ok_error: "step_ok (task_ID t) (task_StepIndex t) n i s \<Longrightarrow> \<not> step_error t i s"
  by (auto simp: step_ok_def step_error_def)

lemma task_inv_integrity: "task_inv t \<Longrightarrow> Task_Integrity t = None"
proof -
  assume inv: "task_inv t"
  then have "\<forall>i < length (task_Steps t). \<not> step_error t i (task_Steps t ! i)"
    unfolding task_inv_def core_ok_def steps_ok_def using step_ok_error by blast
  with inv show ?thesis unfolding Task_Integrity_None task_inv_def core_ok_def rev_ok_def by blast
qed

text \<open>The bounds: 142 claims per step and three activations per cycle.\<close>

lemma step_ok_claims: "step_ok tid idx cycles i s \<Longrightarrow> cycles \<le> 10 \<Longrightarrow> step_claims s \<le> 142"
proof -
  assume s: "step_ok tid idx cycles i s" and c: "cycles \<le> 10"
  have "unat (st_CycleAttempts s) \<le> 10"
    using s unfolding step_ok_def Requirement_Validate_def
    by (auto simp: word_le_nat_alt word_less_nat_alt split: if_splits)
  with s c show ?thesis by (auto simp: step_ok_def step_claims_def)
qed

lemma claims_bound:
  assumes "core_ok t"
  shows "claims_used t \<le> 2305"
proof -
  have c: "unat (task_RetryCycles t) \<le> 10" and len: "length (task_Steps t) \<le> 16"
    using core_okD(6) [OF assms] core_okD(1) [OF assms] unfolding static_ok_def Let_def by simp_all
  have "step_claims s \<le> 142" if "s \<in> set (task_Steps t)" for s
    using that core_okD(3) [OF assms] step_ok_claims [OF _ c] unfolding steps_ok_def in_set_conv_nth by blast
  then have "sum_list (map step_claims (task_Steps t)) \<le> length (task_Steps t) * 142"
    using sum_list_mono [of "task_Steps t" step_claims "\<lambda>_. 142"] by (simp add: sum_list_triv)
  with c len show ?thesis unfolding claims_used_def by linarith
qed

lemma core_bounds:
  assumes "core_ok t"
  shows "unat (task_LeaseToken t) \<le> 2305" "unat (task_RetryCycles t) \<le> 10"
  using core_okD(6,8) [OF assms] claims_bound [OF assms] by simp_all

lemma rev_bound: "core_ok t \<Longrightarrow> rev_ok r t \<Longrightarrow> unat r \<le> 4633"
  using core_bounds [of t] by (auto simp: rev_ok_def rev_slack_def split: if_splits)

lemma unat_inc32: "unat (w :: uint32) < 4294967295 \<Longrightarrow> unat (w + 1) = unat w + 1"
  by (subst unat_add_lem [THEN iffD1]) simp_all

lemma unat_inc64: "unat (w :: uint64) \<le> 5000 \<Longrightarrow> unat (w + 1) = unat w + 1"
  by (subst unat_add_lem [THEN iffD1]) simp_all

text \<open>Every operation ends in \<open>finishRevision\<close>; this is what is left to show of the task before it.\<close>

lemma finish_inv:
  assumes "core_ok t'" "core_ok t" "rev_ok (task_Revision t) t" "task_Revision t' = task_Revision t"
    and "2 * unat (task_LeaseToken t) + 2 * unat (task_RetryCycles t) + rev_slack (task_State t) <
      2 * unat (task_LeaseToken t') + 2 * unat (task_RetryCycles t') + rev_slack (task_State t')"
  shows "task_inv (finishRevision t' now)"
proof -
  have u: "unat (task_Revision t + 1) = unat (task_Revision t) + 1"
    using rev_bound [OF assms(2,3)] by (intro unat_inc64) simp
  have "core_ok (finishRevision t' now)"
    using assms(1) unfolding core_ok_def static_ok_def steps_ok_def lease_ok_def applied_ok_def claims_used_def
      finishRevision_fields .
  moreover have "rev_ok (task_Revision (finishRevision t' now)) (finishRevision t' now)"
    using assms(3-5) u by (auto simp: rev_ok_def unat_eq_0 [symmetric])
  moreover have "Task_Seal (finishRevision t' now) = finishRevision t' now"
    by (simp add: finishRevision_def task_seal.seal_idem)
  ultimately show ?thesis by (simp add: task_inv_def)
qed

subsection \<open>Preservation\<close>

text \<open>The fields that no operation changes.\<close>

definition frame :: "Task \<Rightarrow> string \<times> string \<times> Approval \<times> nat \<times> time \<times> time" where
  "frame t = (task_ID t, task_TenantID t, task_Approval t, length (task_Steps t), task_CreatedAt t, task_Deadline t)"

lemma static_frame: "frame t = frame t' \<Longrightarrow> static_ok t' = static_ok t"
  unfolding static_ok_def frame_def by simp

lemma steps_ok_same:
  assumes "steps_ok t" "task_ID t' = task_ID t" "task_Steps t' = task_Steps t" "task_StepIndex t' = task_StepIndex t"
    and "task_RetryCycles t' = task_RetryCycles t"
  shows "steps_ok t'"
  using assms unfolding steps_ok_def by simp

lemma step_ok_mono:
  assumes "step_ok tid idx n i s" "n \<le> n'" "int i < idx' \<Longrightarrow> int i < idx"
  shows "step_ok tid idx' n' i s"
proof -
  have "unat (st_Attempts s) \<le> 10 * n' + unat (st_CycleAttempts s)"
    using assms(1,2) unfolding step_ok_def by linarith
  with assms(1,3) show ?thesis unfolding step_ok_def by blast
qed

text \<open>Replacing the step at the index.\<close>

lemma steps_ok_update:
  assumes "steps_ok t" "i < length (task_Steps t)"
    and "task_ID t' = task_ID t" "task_Steps t' = (task_Steps t)[i := s]"
    and "unat (task_RetryCycles t) \<le> unat (task_RetryCycles t')"
    and "task_StepIndex t \<le> task_StepIndex t'" "task_StepIndex t' \<le> int i + 1" "task_StepIndex t = int i"
    and "step_ok (task_ID t) (task_StepIndex t') (unat (task_RetryCycles t')) i s"
  shows "steps_ok t'"
  unfolding steps_ok_def
proof (intro allI impI)
  fix j assume j: "j < length (task_Steps t')"
  then have old: "step_ok (task_ID t) (task_StepIndex t) (unat (task_RetryCycles t)) j (task_Steps t ! j)"
    using assms(1,4) by (simp add: steps_ok_def)
  show "step_ok (task_ID t') (task_StepIndex t') (unat (task_RetryCycles t')) j (task_Steps t' ! j)"
  proof (cases "j = i")
    case True
    with assms show ?thesis by simp
  next
    case False
    then have "int j < task_StepIndex t' \<Longrightarrow> int j < task_StepIndex t" using assms(7,8) by linarith
    then have "step_ok (task_ID t) (task_StepIndex t') (unat (task_RetryCycles t')) j (task_Steps t ! j)"
      by (rule step_ok_mono [OF old assms(5)])
    with False assms(3,4) show ?thesis by simp
  qed
qed

lemma sum_claims_update:
  assumes "i < length xs"
  shows "sum_list (map step_claims (xs[i := s])) + step_claims (xs ! i) = sum_list (map step_claims xs) + step_claims s"
  using assms elem_le_sum_list [of i "map step_claims xs"]
  by (simp add: map_update sum_list_update)

abbreviation due_states :: "string set" where
  "due_states \<equiv> {Queued, Running, RetryWait, Ready}"

lemma due_slack: "state \<in> due_states \<Longrightarrow> rev_slack state \<le> 1"
  by (auto simp: rev_slack_def)

lemma give_up_inv:
  assumes inv: "task_inv t" "task_State t \<in> due_states" and state: "state \<in> {Failed, ReconcileRequired}"
    and same: "frame t0 = frame t" "task_Steps t0 = task_Steps t" "task_StepIndex t0 = task_StepIndex t"
      "task_RetryCycles t0 = task_RetryCycles t" "task_LeaseToken t0 = task_LeaseToken t"
      "task_Revision t0 = task_Revision t"
    and act: "unat (task_ActivationAttempts t) \<le> unat (task_ActivationAttempts t0)"
      "unat (task_ActivationAttempts t0) \<le> 4"
  shows "task_inv (give_up t0 state failure retry now)"
proof -
  have core: "core_ok t" "rev_ok (task_Revision t) t" using inv(1) by (simp_all add: task_inv_def)
  note c = core_okD [OF core(1)]
  let ?t = "Task_release (t0\<lparr>task_State := state, task_FailureCode := failure, task_RetryAllowed := retry\<rparr>)"
  have fr: "frame t = frame ?t" using same(1) by (simp add: frame_def Task_release_def)
  have "claims_used t \<le> claims_used ?t"
    using act(1) same by (simp add: claims_used_def Task_release_def)
  moreover have "steps_ok ?t"
    by (rule steps_ok_same [OF c(3)]) (use same in \<open>simp_all add: Task_release_def frame_def\<close>)
  moreover have "task_State ?t = state" "task_LeaseToken ?t = task_LeaseToken t" "lease_ok ?t" "applied_ok ?t"
    "task_RetryCycles ?t = task_RetryCycles t" "task_ActivationAttempts ?t = task_ActivationAttempts t0"
    "task_StepIndex ?t = task_StepIndex t" "task_Steps ?t = task_Steps t"
    using same state by (auto simp: Task_release_def lease_ok_def applied_ok_def)
  ultimately have "core_ok ?t"
    using c(1,6,8,9,10) act(2) state static_frame [OF fr] unfolding core_ok_def by auto
  moreover have "rev_slack (task_State t) < rev_slack state" using due_slack [OF inv(2)] state
    by (auto simp: rev_slack_def)
  ultimately show ?thesis unfolding give_up_def
    by (intro finish_inv [OF _ core]) (use same in \<open>simp_all add: Task_release_def\<close>)
qed

lemma take_lease_inv:
  assumes inv: "task_inv t" "task_State t \<in> due_states" and owner: "Key owner"
    and same: "frame t0 = frame t" "task_StepIndex t0 = task_StepIndex t"
      "task_RetryCycles t0 = task_RetryCycles t" "task_LeaseToken t0 = task_LeaseToken t"
      "task_Revision t0 = task_Revision t"
    and steps: "steps_ok t0" "claims_used t < claims_used t0"
    and act: "unat (task_ActivationAttempts t0) \<le> 3"
    and stage: "task_Stage t0 = ActivateStage \<longleftrightarrow> task_StepIndex t = int (length (task_Steps t))"
  shows "task_inv (take_lease t0 owner now lease)"
proof -
  have core: "core_ok t" "rev_ok (task_Revision t) t" using inv(1) by (simp_all add: task_inv_def)
  note c = core_okD [OF core(1)]
  let ?t = "t0\<lparr>task_State := Running, task_LeaseOwner := owner, task_LeaseToken := task_LeaseToken t0 + 1,
      task_LeaseUntil := Some (now + lease)\<rparr>"
  have tok: "unat (task_LeaseToken t0 + 1) = unat (task_LeaseToken t) + 1"
    unfolding same using core_bounds(1) [OF core(1)] by (intro unat_inc64) simp
  then have nz: "task_LeaseToken t0 + 1 \<noteq> 0" by (metis add_is_0 one_neq_zero unat_0)
  have fr: "frame t = frame ?t" using same(1) by (simp add: frame_def)
  have "steps_ok ?t" by (rule steps_ok_same [OF steps(1)]) simp_all
  moreover have "lease_ok ?t" using owner nz key_pattern_nonempty by (auto simp: lease_ok_def Key_def)
  moreover have "applied_ok ?t" by (simp add: applied_ok_def)
  moreover have "unat (task_LeaseToken ?t) \<le> claims_used ?t"
    using tok c(8) steps(2) by (simp add: claims_used_def)
  moreover have "length (task_Steps t0) = length (task_Steps t)" using same(1) by (simp add: frame_def)
  ultimately have "core_ok ?t"
    using c(1,6,9,10) act stage same static_frame [OF fr] unfolding core_ok_def by auto
  moreover have "rev_slack (task_State t) \<le> 1" using due_slack [OF inv(2)] .
  ultimately show ?thesis unfolding take_lease_def
    by (intro finish_inv [OF _ core]) (use same tok in \<open>simp_all add: rev_slack_def\<close>)
qed

lemma step_reconcile_ok:
  assumes "step_ok tid (int i) n i s" "\<not> st_Reconciliations s \<ge> 32"
  defines "s' \<equiv> s\<lparr>st_Reconciliations := st_Reconciliations s + 1, st_State := RunningStep, st_Effect := Unknown\<rparr>"
  shows "step_ok tid (int i) n i s'" "step_claims s' = step_claims s + 1"
proof -
  have "unat (st_Reconciliations s) < 32" using assms(2) by (simp add: word_le_nat_alt)
  then have u: "unat (st_Reconciliations s + 1) = unat (st_Reconciliations s) + 1" by (intro unat_inc32) simp
  then show "step_claims s' = step_claims s + 1" by (simp add: step_claims_def s'_def)
  show "step_ok tid (int i) n i s'"
    using assms(1) u \<open>unat (st_Reconciliations s) < 32\<close> unfolding step_ok_def s'_def by simp
qed

lemma step_prepare_ok:
  assumes "step_ok tid (int i) n i s" "n \<le> 10" "\<not> st_CycleAttempts s \<ge> req_MaxAttempts (st_Requirement s)"
  defines "s' \<equiv> s\<lparr>st_Attempts := st_Attempts s + 1, st_CycleAttempts := st_CycleAttempts s + 1,
                   st_State := RunningStep, st_Effect := Unknown\<rparr>"
  shows "step_ok tid (int i) n i s'" "step_claims s' = step_claims s + 1"
proof -
  have m: "req_MaxAttempts (st_Requirement s) \<le> 10"
    using assms(1) unfolding step_ok_def Requirement_Validate_def by (auto split: if_splits)
  have lt: "unat (st_CycleAttempts s) < unat (req_MaxAttempts (st_Requirement s))"
    using assms(3) by (simp add: word_le_nat_alt)
  moreover have "unat (req_MaxAttempts (st_Requirement s)) \<le> 10" using m by (simp add: word_le_nat_alt)
  ultimately have c: "unat (st_CycleAttempts s) < 10" by simp
  have a: "unat (st_Attempts s) \<le> 10 * n + unat (st_CycleAttempts s)" "unat (st_CycleAttempts s) \<le> unat (st_Attempts s)"
    using assms(1) unfolding step_ok_def by (simp_all add: word_le_nat_alt)
  have u: "unat (st_Attempts s + 1) = unat (st_Attempts s) + 1" "unat (st_CycleAttempts s + 1) = unat (st_CycleAttempts s) + 1"
    using a c assms(2) by (intro unat_inc32; simp)+
  show "step_claims s' = step_claims s + 1" using u by (simp add: step_claims_def s'_def)
  show "step_ok tid (int i) n i s'"
    using assms(1) u a lt unfolding step_ok_def s'_def by (simp add: word_le_nat_alt)
qed

lemma Task_Due_state: "Task_Due t now \<Longrightarrow> task_State t \<in> due_states"
  by (auto simp: Task_Due_def split: if_splits)

lemma step_at:
  assumes "task_inv t" "task_StepIndex t = int i" "i < length (task_Steps t)"
  shows "step_ok (task_ID t) (int i) (unat (task_RetryCycles t)) i (task_Steps t ! i)"
    "unat (task_RetryCycles t) \<le> 10" "steps_ok t"
proof -
  have core: "core_ok t" using assms(1) by (simp add: task_inv_def)
  show "unat (task_RetryCycles t) \<le> 10" "steps_ok t" using core_okD(6,3) [OF core] by blast+
  then show "step_ok (task_ID t) (int i) (unat (task_RetryCycles t)) i (task_Steps t ! i)"
    using assms(2,3) unfolding steps_ok_def by simp
qed

lemma lease_step_inv:
  assumes inv: "task_inv t" "task_State t \<in> due_states" "Key owner"
    and i: "task_StepIndex t = int i" "i < length (task_Steps t)"
    and s: "step_ok (task_ID t) (int i) (unat (task_RetryCycles t)) i s" "step_claims s = step_claims (task_Steps t ! i) + 1"
    and stage: "stage \<noteq> ActivateStage"
  shows "task_inv (take_lease (update_step (t\<lparr>task_Stage := stage\<rparr>) i s) owner now lease)"
proof (rule take_lease_inv [OF inv])
  let ?t = "update_step (t\<lparr>task_Stage := stage\<rparr>) i s"
  have core: "core_ok t" using inv(1) by (simp add: task_inv_def)
  show "steps_ok ?t"
    by (rule steps_ok_update [OF step_at(3) [OF inv(1) i] i(2)]) (use i s in \<open>simp_all add: update_step_def\<close>)
  show "claims_used t < claims_used ?t"
    using sum_claims_update [OF i(2), of s] s(2) by (simp add: claims_used_def update_step_def)
  show "unat (task_ActivationAttempts ?t) \<le> 3"
    using core_okD(11) [OF core inv(2)] by (simp add: update_step_def)
  show "(task_Stage ?t = ActivateStage) = (task_StepIndex t = int (length (task_Steps t)))"
    using stage i by (simp add: update_step_def)
qed (simp_all add: update_step_def frame_def)

lemma claim_step_inv:
  assumes inv: "task_inv t" "task_State t \<in> due_states" "Key owner"
    and i: "task_StepIndex t = int i" "i < length (task_Steps t)"
  shows "task_inv (claim_step t owner now lease i)"
proof -
  have "unat (task_ActivationAttempts t) \<le> 4"
    using core_okD(7) [of t] inv(1) by (simp add: task_inv_def)
  then have give: "task_inv (give_up t state f r now)" if "state \<in> {Failed, ReconcileRequired}" for state f r
    by (intro give_up_inv [OF inv(1,2) that]) simp_all
  note s = step_at [OF inv(1) i]
  show ?thesis
    unfolding claim_step_def Let_def
    using give lease_step_inv [OF inv i step_reconcile_ok [OF s(1)]]
      lease_step_inv [OF inv i step_prepare_ok [OF s(1,2)]] by simp
qed

lemma Task_Claim_inv:
  assumes inv: "task_inv t" and claim: "Task_Claim t owner now lease = Inr t'"
  shows "task_inv t'"
proof -
  have g: "Key owner" "Task_Due t now" using claim by (auto simp: Task_Claim_def split: if_splits)
  have due: "task_State t \<in> due_states" using Task_Due_state [OF g(2)] .
  have core: "core_ok t" using inv by (simp add: task_inv_def)
  note c = core_okD [OF core]
  let ?t1 = "t\<lparr>task_Stage := ActivateStage, task_ActivationAttempts := task_ActivationAttempts t + 1\<rparr>"
  have act: "unat (task_ActivationAttempts t) \<le> 3" using c(11) due by blast
  then have u: "unat (task_ActivationAttempts t + 1) = unat (task_ActivationAttempts t) + 1"
    by (intro unat_inc32) simp
  consider (deadline) "t' = give_up t ReconcileRequired ''APPROVAL_DEADLINE_EXCEEDED'' False now"
    | (exhausted) "t' = give_up ?t1 Failed ''ACTIVATION_RETRIES_EXHAUSTED'' True now"
    | (activate) "\<not> task_ActivationAttempts t + 1 > 3" "task_StepIndex t = int (length (task_Steps t))"
        "t' = take_lease ?t1 owner now lease"
    | (step) "t' = claim_step t owner now lease (nat (task_StepIndex t))" "0 \<le> task_StepIndex t"
        "task_StepIndex t < int (length (task_Steps t))"
    using claim by (force simp: Task_Claim_def Let_def split: if_splits)
  then show ?thesis
  proof cases
    case deadline
    show ?thesis unfolding deadline by (rule give_up_inv [OF inv due]) (use act in simp_all)
  next
    case exhausted
    show ?thesis unfolding exhausted by (rule give_up_inv [OF inv due]) (use act u in \<open>simp_all add: frame_def\<close>)
  next
    case activate
    have "unat (task_ActivationAttempts t + 1) \<le> 3" using activate(1) by (simp add: word_less_nat_alt)
    moreover have "steps_ok ?t1" by (rule steps_ok_same [OF c(3)]) simp_all
    ultimately show ?thesis unfolding activate(3)
      by (intro take_lease_inv [OF inv due g(1)]) (use u activate(2) in \<open>simp_all add: frame_def claims_used_def\<close>)
  next
    case step
    then have i: "task_StepIndex t = int (nat (task_StepIndex t))" "nat (task_StepIndex t) < length (task_Steps t)" by auto
    show ?thesis unfolding step(1) by (rule claim_step_inv [OF inv due g(1) i])
  qed
qed

text \<open>An operation that leaves the task without a lease.\<close>

lemma release_inv:
  assumes inv: "task_inv t"
    and same: "frame t' = frame t" "task_Revision t' = task_Revision t" "task_LeaseToken t' = task_LeaseToken t"
    and steps: "steps_ok t'" "claims_used t \<le> claims_used t'"
    and idx: "0 \<le> task_StepIndex t'" "task_StepIndex t' \<le> int (length (task_Steps t'))"
    and st: "task_State t' \<in> task_states" "task_State t' \<noteq> Running" "applied_ok t'"
    and cnt: "unat (task_RetryCycles t') \<le> 10" "unat (task_ActivationAttempts t') \<le> 4"
      "task_State t' \<in> due_states \<Longrightarrow> unat (task_ActivationAttempts t') \<le> 3"
    and slack: "2 * unat (task_RetryCycles t) + rev_slack (task_State t) <
      2 * unat (task_RetryCycles t') + rev_slack (task_State t')"
  shows "task_inv (finishRevision (Task_release t') now)"
proof -
  have core: "core_ok t" "rev_ok (task_Revision t) t" using inv by (simp_all add: task_inv_def)
  note c = core_okD [OF core(1)]
  let ?t = "Task_release t'"
  have f: "task_State ?t = task_State t'" "task_LeaseToken ?t = task_LeaseToken t" "task_Steps ?t = task_Steps t'"
    "task_RetryCycles ?t = task_RetryCycles t'" "task_ActivationAttempts ?t = task_ActivationAttempts t'"
    "task_StepIndex ?t = task_StepIndex t'" "claims_used ?t = claims_used t'" "task_Revision ?t = task_Revision t"
    using same by (simp_all add: Task_release_def claims_used_def)
  have fr: "frame t = frame ?t" using same(1) by (simp add: frame_def Task_release_def)
  have "steps_ok ?t" by (rule steps_ok_same [OF steps(1)]) (simp_all add: Task_release_def)
  moreover have "lease_ok ?t" using st by (simp add: lease_ok_def Task_release_def)
  moreover have "applied_ok ?t \<longleftrightarrow> applied_ok t'" by (cases "task_Completion t'") (simp_all add: applied_ok_def Task_release_def)
  then have "applied_ok ?t" using st(3) by blast
  moreover have "unat (task_LeaseToken t) \<le> claims_used t'" using c(8) steps(2) by (rule le_trans)
  ultimately have "core_ok ?t"
    unfolding core_ok_def f using static_frame [OF fr] c(1) st(1,2) cnt idx by blast
  then show ?thesis by (rule finish_inv [OF _ core]) (use slack in \<open>simp_all add: f\<close>)
qed

lemma step_observed_ok:
  assumes "step_ok tid (int i) n i s" "length ev \<le> 1024" "length fc \<le> 128"
    and "st' \<in> {WaitingStep, RunningStep, ReadyStep}" "ef' \<in> {Absent, Unknown, ReadyStep}"
    and "idx = int i \<or> (idx = int i + 1 \<and> st' = ReadyStep \<and> ef' = ReadyStep \<and> ev \<noteq> '''')"
  defines "s' \<equiv> s\<lparr>st_Evidence := ev, st_FailureCode := fc, st_State := st', st_Effect := ef'\<rparr>"
  shows "step_ok tid idx n i s'" "step_claims s' = step_claims s"
proof -
  show "step_claims s' = step_claims s" by (simp add: step_claims_def s'_def)
  show "step_ok tid idx n i s'" using assms(1-6) unfolding step_ok_def s'_def by auto
qed

lemma Owns_running: "Task_Owns t owner token now \<Longrightarrow> task_State t = Running"
  by (simp add: Task_Owns_def)

lemma observe_step_inv:
  assumes inv: "task_inv t" "task_State t = Running" and i: "task_StepIndex t = int i" "i < length (task_Steps t)"
    and ob: "Observation_Validate ob = None"
    and t0: "t0 = t\<lparr>task_FailureCode := fc, task_RetryAllowed := ra\<rparr>"
  shows "task_inv (finishRevision (Task_release (observe_step t0 ob now i)) now)"
proof -
  have core: "core_ok t" using inv by (simp add: task_inv_def)
  note c = core_okD [OF core]
  note s = step_at [OF inv(1) i]
  have o: "length (obs_Evidence ob) \<le> 1024" "length (obs_FailureCode ob) \<le> 128" "obs_Evidence ob \<noteq> ''''"
    "obs_Outcome ob \<in> {ReadyStep, Absent, Retryable, Permanent, Unknown}"
    using ob by (auto simp: Observation_Validate_def split: if_splits)
  have leave: "task_inv (finishRevision (Task_release t') now)"
    if t': "frame t' = frame t" "task_Revision t' = task_Revision t" "task_LeaseToken t' = task_LeaseToken t"
        "task_Steps t' = (task_Steps t)[i := (task_Steps t ! i)\<lparr>st_Evidence := obs_Evidence ob,
           st_FailureCode := obs_FailureCode ob, st_State := st', st_Effect := ef'\<rparr>]"
        "task_RetryCycles t' = task_RetryCycles t" "task_ActivationAttempts t' = task_ActivationAttempts t"
      and ok: "st' \<in> {WaitingStep, RunningStep, ReadyStep}" "ef' \<in> {Absent, Unknown, ReadyStep}"
        "task_StepIndex t' = int i \<or> (task_StepIndex t' = int i + 1 \<and> st' = ReadyStep \<and> ef' = ReadyStep)"
        "task_State t' \<in> {Queued, Ready, RetryWait, Failed, ReconcileRequired}"
    for t' st' ef'
  proof (rule release_inv [OF inv(1) t'(1,2,3)])
    have idx: "task_StepIndex t' = int i \<or>
        (task_StepIndex t' = int i + 1 \<and> st' = ReadyStep \<and> ef' = ReadyStep \<and> obs_Evidence ob \<noteq> '''')"
      using ok(3) o(3) by blast
    note s' = step_observed_ok [OF s(1) o(1,2) ok(1,2) idx]
    show "steps_ok t'"
      by (rule steps_ok_update [OF s(3) i(2) _ t'(4)]) (use t' i ok(3) s'(1) in \<open>auto simp: frame_def\<close>)
    show "claims_used t \<le> claims_used t'"
      using sum_claims_update [OF i(2), of "(task_Steps t ! i)\<lparr>st_Evidence := obs_Evidence ob,
           st_FailureCode := obs_FailureCode ob, st_State := st', st_Effect := ef'\<rparr>"] s'(2)
      unfolding claims_used_def t' by linarith
    show "0 \<le> task_StepIndex t'" "task_StepIndex t' \<le> int (length (task_Steps t'))"
      using ok(3) i(2) by (auto simp: t'(4))
    show "task_State t' \<in> task_states" "task_State t' \<noteq> Running" "applied_ok t'"
      using ok(4) by (auto simp: applied_ok_def)
    show "unat (task_RetryCycles t') \<le> 10" "unat (task_ActivationAttempts t') \<le> 4"
      "unat (task_ActivationAttempts t') \<le> 3"
      using c(6,7,11) inv(2) by (simp_all add: t')
    show "2 * unat (task_RetryCycles t) + rev_slack (task_State t) <
        2 * unat (task_RetryCycles t') + rev_slack (task_State t')"
      using ok(4) inv(2) by (auto simp: t' rev_slack_def)
  qed
  note leaves = leave [where st' = ReadyStep and ef' = ReadyStep] leave [where st' = WaitingStep and ef' = Absent]
    leave [where st' = WaitingStep and ef' = Unknown]
  consider (ready) "obs_Outcome ob = ReadyStep" | (absent) "obs_Outcome ob \<in> {Absent, Retryable}"
    | (permanent) "obs_Outcome ob = Permanent" | (unknown) "obs_Outcome ob = Unknown" using o(4) by blast
  then show ?thesis
  proof cases
    case ready
    have "observe_step t0 ob now i = (let t1 = t0\<lparr>task_Steps := (task_Steps t)[i := (task_Steps t ! i)\<lparr>
        st_Evidence := obs_Evidence ob, st_FailureCode := obs_FailureCode ob, st_State := ReadyStep,
        st_Effect := ReadyStep\<rparr>], task_StepIndex := int i + 1, task_State := Queued, task_NextAttemptAt := now\<rparr>
      in if int i + 1 = int (length (task_Steps t)) then t1\<lparr>task_State := Ready, task_Stage := ActivateStage\<rparr> else t1)"
      using ready i by (simp add: observe_step_def t0 update_step_def Let_def)
    then show ?thesis using i by (simp only: Let_def) (cases "int i + 1 = int (length (task_Steps t))";
      simp only: if_True if_False; intro leaves(1); simp add: t0 frame_def)
  next
    case absent
    have "observe_step t0 ob now i = (let t1 = t0\<lparr>task_Steps := (task_Steps t)[i := (task_Steps t ! i)\<lparr>
        st_Evidence := obs_Evidence ob, st_FailureCode := obs_FailureCode ob, st_State := WaitingStep,
        st_Effect := Absent\<rparr>], task_RetryAllowed := True\<rparr>
      in if st_CycleAttempts (task_Steps t ! i) \<ge> req_MaxAttempts (st_Requirement (task_Steps t ! i))
         then t1\<lparr>task_State := Failed, task_FailureCode := ''PREPARATION_RETRIES_EXHAUSTED''\<rparr>
         else t1\<lparr>task_State := RetryWait,
           task_NextAttemptAt := now + Backoff (st_CycleAttempts (task_Steps t ! i))\<rparr>)"
      using absent by (auto simp: observe_step_def t0 update_step_def Let_def)
    then show ?thesis using i by (simp only: Let_def)
      (cases "st_CycleAttempts (task_Steps t ! i) \<ge> req_MaxAttempts (st_Requirement (task_Steps t ! i))";
       simp only: if_True if_False; intro leaves(2); simp add: t0 frame_def)
  next
    case permanent
    then show ?thesis unfolding observe_step_def Let_def
      by simp (rule leaves(2); use i in \<open>simp add: t0 update_step_def frame_def\<close>)
  next
    case unknown
    then show ?thesis unfolding observe_step_def Let_def
      by simp (rule leaves(3); use i in \<open>simp add: t0 update_step_def frame_def\<close>)
  qed
qed

lemma Task_Observe_inv:
  assumes inv: "task_inv t" and "Task_Observe t owner token ob now = Inr t'"
  shows "task_inv t'"
proof -
  have core: "core_ok t" using inv by (simp add: task_inv_def)
  note c = core_okD [OF core]
  have own: "Task_Owns t owner token now" and ob: "Observation_Validate ob = None"
    using assms(2) by (auto simp: Task_Observe_def split: if_splits)
  note run = Owns_running [OF own]
  let ?t0 = "t\<lparr>task_FailureCode := obs_FailureCode ob, task_RetryAllowed := False\<rparr>"
  show ?thesis
  proof (cases "task_Stage t = ActivateStage")
    case True
    have leave: "task_inv (finishRevision (Task_release u) now)"
      if "frame u = frame t" "task_Steps u = task_Steps t" "task_StepIndex u = task_StepIndex t"
        "task_RetryCycles u = task_RetryCycles t" "task_ActivationAttempts u = task_ActivationAttempts t"
        "task_Revision u = task_Revision t" "task_LeaseToken u = task_LeaseToken t"
        "task_State u \<in> {RetryWait, ReconcileRequired}" for u
    proof (rule release_inv [OF inv that(1,6,7)])
      show "steps_ok u" by (rule steps_ok_same [OF c(3)]) (use that in \<open>simp_all add: frame_def\<close>)
      show "unat (task_ActivationAttempts u) \<le> 3" using c(11) run by (simp add: that)
    qed (use that c run in \<open>auto simp: claims_used_def applied_ok_def rev_slack_def\<close>)
    let ?u = "if obs_Outcome ob = Retryable
        then ?t0\<lparr>task_State := RetryWait, task_NextAttemptAt := now + Backoff (task_ActivationAttempts t),
               task_RetryAllowed := True\<rparr>
        else ?t0\<lparr>task_State := ReconcileRequired\<rparr>"
    have "t' = finishRevision (Task_release ?u) now"
      using assms(2) own ob True by (simp add: Task_Observe_def Let_def)
    then show ?thesis by (auto simp: frame_def intro!: leave)
  next
    case False
    then obtain i where i: "task_StepIndex t = int i" "i < length (task_Steps t)"
      using c(9,10,12) run by (metis nat_0_le order_le_less of_nat_less_iff)
    have "t' = finishRevision (Task_release (observe_step ?t0 ob now i)) now"
      using assms(2) own ob False i by (auto simp: Task_Observe_def Let_def split: if_splits)
    then show ?thesis using observe_step_inv [OF inv run i ob refl] by simp
  qed
qed

lemma Task_Cancel_inv:
  assumes inv: "task_inv t" and "Task_Cancel t now = Inr t'"
  shows "task_inv t'"
proof -
  have core: "core_ok t" using inv by (simp add: task_inv_def)
  note c = core_okD [OF core]
  let ?u = "t\<lparr>task_State := Cancelled, task_RetryAllowed := False\<rparr>"
  have t': "t' = finishRevision (Task_release ?u) now" and can: "Task_Cancellable t"
    using assms(2) by (auto simp: Task_Cancel_def split: if_splits)
  have "rev_slack (task_State t) < 3"
    using can c(2) by (auto simp: Task_Cancellable_def Task_Terminal_def rev_slack_def)
  moreover have "steps_ok ?u" by (rule steps_ok_same [OF c(3)]) simp_all
  ultimately show ?thesis unfolding t'
    by (intro release_inv [OF inv]) (use c in \<open>simp_all add: frame_def claims_used_def applied_ok_def rev_slack_def\<close>)
qed

lemma step_retry_ok:
  assumes "step_ok tid (int i) n i s"
  shows "step_ok tid (int i) (Suc n) i (s\<lparr>st_CycleAttempts := 0, st_State := WaitingStep\<rparr>)"
proof -
  have "unat (st_CycleAttempts s) \<le> 10"
    using assms unfolding step_ok_def Requirement_Validate_def
    by (auto simp: word_le_nat_alt word_less_nat_alt split: if_splits)
  moreover have "unat (st_Attempts s) \<le> 10 * n + unat (st_CycleAttempts s)" using assms unfolding step_ok_def by blast
  ultimately show ?thesis using assms unfolding step_ok_def by simp
qed

lemma Task_Retry_inv:
  assumes inv: "task_inv t" and retry: "Task_Retry t now = Inr t'"
  shows "task_inv t'"
proof -
  have core: "core_ok t" using inv by (simp add: task_inv_def)
  note c = core_okD [OF core]
  have g: "task_State t \<in> {Failed, ReconcileRequired}" "\<not> task_RetryCycles t \<ge> 10" "\<not> task_StepIndex t < 0"
    using retry by (auto simp: Task_Retry_def Let_def split: if_splits)
  have rc: "unat (task_RetryCycles t) < 10" using g(2) by (simp add: word_le_nat_alt)
  then have u: "unat (task_RetryCycles t + 1) = Suc (unat (task_RetryCycles t))" by (subst unat_inc32) simp_all
  define t2 where "t2 = (if task_StepIndex t < int (length (task_Steps t))
      then update_step (t\<lparr>task_RetryCycles := task_RetryCycles t + 1, task_ActivationAttempts := 0\<rparr>) (nat (task_StepIndex t))
        ((task_Steps t ! nat (task_StepIndex t))\<lparr>st_CycleAttempts := 0, st_State := WaitingStep\<rparr>)
      else t\<lparr>task_RetryCycles := task_RetryCycles t + 1, task_ActivationAttempts := 0\<rparr>)"
  let ?u = "t2\<lparr>task_State := Queued, task_NextAttemptAt := now, task_RetryAllowed := False\<rparr>"
  have t': "t' = finishRevision (Task_release ?u) now"
    using retry by (simp add: Task_Retry_def Let_def t2_def split: if_splits)
  have f: "frame ?u = frame t" "task_RetryCycles ?u = task_RetryCycles t + 1" "task_ActivationAttempts ?u = 0"
    "task_StepIndex ?u = task_StepIndex t" "task_Revision ?u = task_Revision t" "task_LeaseToken ?u = task_LeaseToken t"
    "length (task_Steps ?u) = length (task_Steps t)" "task_ID ?u = task_ID t"
    by (simp_all add: t2_def update_step_def frame_def)
  have "steps_ok ?u \<and> sum_list (map step_claims (task_Steps ?u)) = sum_list (map step_claims (task_Steps t))"
  proof (cases "task_StepIndex t < int (length (task_Steps t))")
    case True
    define i where "i = nat (task_StepIndex t)"
    define s where "s = (task_Steps t ! i)\<lparr>st_CycleAttempts := 0, st_State := WaitingStep\<rparr>"
    have i: "task_StepIndex t = int i" "i < length (task_Steps t)" using True c(9) by (auto simp: i_def)
    have st: "task_Steps ?u = (task_Steps t)[i := s]" using True by (simp add: t2_def update_step_def i_def s_def)
    have "step_ok (task_ID t) (int i) (Suc (unat (task_RetryCycles t))) i s"
      unfolding s_def by (rule step_retry_ok [OF step_at(1) [OF inv i]])
    then have "steps_ok ?u" using steps_ok_update [OF c(3) i(2) f(8) st] i f u by simp
    moreover have "step_claims s = step_claims (task_Steps t ! i)" by (simp add: s_def step_claims_def)
    ultimately show ?thesis using sum_claims_update [OF i(2), of s] by (simp add: st)
  next
    case False
    then have "task_Steps ?u = task_Steps t" by (simp add: t2_def)
    moreover have "step_ok (task_ID t) (task_StepIndex t) (Suc (unat (task_RetryCycles t))) i (task_Steps t ! i)"
      if "i < length (task_Steps t)" for i
      using c(3) that unfolding steps_ok_def by (auto intro: step_ok_mono)
    ultimately show ?thesis unfolding steps_ok_def f u by simp
  qed
  then have "steps_ok ?u" "claims_used t \<le> claims_used ?u" using u f by (simp_all add: claims_used_def)
  then show ?thesis unfolding t'
    by (intro release_inv [OF inv]) (use f u rc g c in \<open>auto simp: applied_ok_def rev_slack_def\<close>)
qed

definition completed :: "Task \<Rightarrow> Completion \<Rightarrow> time \<Rightarrow> Task" where
  "completed t c now = finishRevision (Task_release (t\<lparr>task_State := Applied, task_Completion := Some c,
     task_RetryAllowed := False, task_FailureCode := ''''\<rparr>)) now"

definition completion_matches :: "Task \<Rightarrow> Completion \<Rightarrow> bool" where
  "completion_matches t c \<longleftrightarrow>
     com_ChangeID c = app_ChangeID (task_Approval t) \<and>
     com_SubscriptionRevision c = app_SubscriptionRevision (task_Approval t) + 1 \<and>
     app_SourceVersion (task_Approval t) < com_SourceVersion c \<and>
     app_EntitlementVersion (task_Approval t) < com_EntitlementVersion c \<and> \<not> IsZero (com_AppliedAt c)"

lemma completed_inv:
  assumes inv: "task_inv t" "task_State t = Running" and m: "completion_matches t c"
  shows "task_inv (completed t c now)"
proof -
  have core: "core_ok t" using inv by (simp add: task_inv_def)
  note k = core_okD [OF core]
  let ?u = "t\<lparr>task_State := Applied, task_Completion := Some c, task_RetryAllowed := False, task_FailureCode := ''''\<rparr>"
  have "com_SourceVersion c \<noteq> 0" "com_EntitlementVersion c \<noteq> 0" using m by (auto simp: completion_matches_def)
  then have "applied_ok ?u" using m by (simp add: applied_ok_def completion_matches_def)
  moreover have "steps_ok ?u" by (rule steps_ok_same [OF k(3)]) simp_all
  ultimately show ?thesis unfolding completed_def
    by (intro release_inv [OF inv(1)]) (use inv k in \<open>simp_all add: frame_def claims_used_def rev_slack_def\<close>)
qed

text \<open>The closing integrity check of \<open>Complete\<close> never fails on a task that satisfies the invariant.\<close>

lemma Task_Complete_iff:
  assumes "task_inv t"
  shows "Task_Complete t owner token c now = Inr t' \<longleftrightarrow>
    Task_Owns t owner token now \<and> task_Stage t = ActivateStage \<and>
    task_StepIndex t = int (length (task_Steps t)) \<and> completion_matches t c \<and> t' = completed t c now"
proof -
  have int: "Task_Integrity (completed t c now) = None" if "Task_Owns t owner token now" "completion_matches t c"
    using completed_inv [OF assms _ that(2)] task_inv_integrity that(1) by (simp add: Task_Owns_def)
  show ?thesis
  proof (cases "Task_Owns t owner token now \<and> completion_matches t c")
    case True
    with int show ?thesis
      by (auto simp: Task_Complete_def Let_def completed_def completion_matches_def not_le split: option.splits)
  next
    case False
    then show ?thesis by (auto simp: Task_Complete_def Let_def completion_matches_def)
  qed
qed

lemma Task_Complete_inv:
  assumes inv: "task_inv t" and "Task_Complete t owner token c now = Inr t'"
  shows "task_inv t'"
  using assms(2) completed_inv [OF inv] unfolding Task_Complete_iff [OF inv] by (auto simp: Task_Owns_def)

lemma task_inv_new:
  assumes "Task_New tenant a rs now = Inr t"
  shows "task_inv t"
proof -
  have int: "Task_Integrity t = None"
    using assms by (auto simp: Task_New_def Let_def split: if_splits option.splits)
  have f: "task_State t = Queued" "task_Revision t = 1" "task_RetryCycles t = 0" "task_ActivationAttempts t = 0"
    "task_LeaseToken t = 0"
    "\<forall>s \<in> set (task_Steps t). st_Attempts s = 0 \<and> st_CycleAttempts s = 0 \<and> st_Reconciliations s = 0"
    using assms by (auto simp: Task_New_def Let_def new_step_def split: if_splits option.splits)
  note i = int [unfolded Task_Integrity_None]
  have "steps_ok t" unfolding steps_ok_def
  proof (intro allI impI)
    fix j assume j: "j < length (task_Steps t)"
    then have "\<not> step_error t j (task_Steps t ! j)" using i by blast
    with f(6) j show "step_ok (task_ID t) (task_StepIndex t) (unat (task_RetryCycles t)) j (task_Steps t ! j)"
      by (auto simp: step_ok_def step_error_def not_less)
  qed
  then have "core_ok t" using i f unfolding core_ok_def by simp
  moreover have "rev_ok (task_Revision t) t" using f by (simp add: rev_ok_def rev_slack_def)
  ultimately show ?thesis using i by (simp add: task_inv_def)
qed

section \<open>Reachable tasks\<close>

text \<open>
  The life of a task: it is created, possibly marked as not cancellable and sealed again (as the
  confirmation of an initial activation does), and then any operations are applied to it, by any
  workers at any instants.
\<close>

inductive task_step :: "Task \<Rightarrow> Task \<Rightarrow> bool" where
  claim: "Task_Claim t owner now lease = Inr t' \<Longrightarrow> task_step t t'"
| observe: "Task_Observe t owner token ob now = Inr t' \<Longrightarrow> task_step t t'"
| cancel: "Task_Cancel t now = Inr t' \<Longrightarrow> task_step t t'"
| retry: "Task_Retry t now = Inr t' \<Longrightarrow> task_step t t'"
| complete: "Task_Complete t owner token c now = Inr t' \<Longrightarrow> task_step t t'"

inductive_cases task_stepE: "task_step t t'"

inductive task_reachable :: "Task \<Rightarrow> bool" where
  new: "Task_New tenant a rs now = Inr t \<Longrightarrow> task_reachable t"
| disable: "Task_New tenant a rs now = Inr t \<Longrightarrow>
    task_reachable (Task_Seal (t\<lparr>task_CancellationDisabled := True\<rparr>))"
| step: "task_reachable t \<Longrightarrow> task_step t t' \<Longrightarrow> task_reachable t'"

lemma task_step_inv: "task_inv t \<Longrightarrow> task_step t t' \<Longrightarrow> task_inv t'"
  by (erule task_stepE)
     (blast intro: Task_Claim_inv Task_Observe_inv Task_Cancel_inv Task_Retry_inv Task_Complete_inv)+

lemma task_inv_disable: "task_inv t \<Longrightarrow> task_inv (Task_Seal (t\<lparr>task_CancellationDisabled := True\<rparr>))"
proof -
  assume inv: "task_inv t"
  let ?t = "Task_Seal (t\<lparr>task_CancellationDisabled := True\<rparr>)"
  have f: "frame ?t = frame t" "task_State ?t = task_State t" "task_Steps ?t = task_Steps t"
    "task_StepIndex ?t = task_StepIndex t" "task_Stage ?t = task_Stage t" "task_LeaseToken ?t = task_LeaseToken t"
    "task_RetryCycles ?t = task_RetryCycles t" "task_ActivationAttempts ?t = task_ActivationAttempts t"
    "claims_used ?t = claims_used t" "task_ID ?t = task_ID t" "task_Revision ?t = task_Revision t"
    "lease_ok ?t = lease_ok t"
    by (simp_all add: frame_def claims_used_def lease_ok_def)
  have "applied_ok ?t = applied_ok t" by (cases "task_Completion t") (simp_all add: applied_ok_def)
  moreover have "steps_ok ?t = steps_ok t" by (simp add: steps_ok_def)
  ultimately show ?thesis
    using inv static_frame [OF f(1) [symmetric]] task_seal.seal_idem
    unfolding task_inv_def core_ok_def rev_ok_def f by simp
qed

lemma task_reachable_inv: "task_reachable t \<Longrightarrow> task_inv t"
  by (induction rule: task_reachable.induct) (blast intro: task_inv_new task_inv_disable task_step_inv)+

end
