(* ===== verification/Subscription_Change.thy ===== *)
theory Subscription_Change
  imports Activation Provisioning
begin

section \<open>Changes of a subscription\<close>

text \<open>
  The package \<open>internal/commercial/domain/subscriptionchange\<close>: what a plan change means
  (\<open>model.go\<close>: input, preview, receipt, period, classification) and what it does to the
  entitlement sources (\<open>project.go\<close>). Go maps that are filled by a loop are lists of assignments
  read from the back, so that the last assignment to a key wins; \<open>sortedKeys\<close> sorts their keys.
\<close>

subsection \<open>Constants, keys and digests\<close>

abbreviation Initial :: string where "Initial \<equiv> ''INITIAL''"
abbreviation Switch :: string where "Switch \<equiv> ''SWITCH''"
abbreviation Renew :: string where "Renew \<equiv> ''RENEW''"
abbreviation StopRenewal :: string where "StopRenewal \<equiv> ''STOP_RENEWAL''"
abbreviation Immediate :: string where "Immediate \<equiv> ''IMMEDIATE''"
abbreviation Scheduled :: string where "Scheduled \<equiv> ''SCHEDULED''"
abbreviation Chg_Applied :: string where "Chg_Applied \<equiv> ''APPLIED''"
abbreviation Chg_Provisioning :: string where "Chg_Provisioning \<equiv> ''PROVISIONING''"
abbreviation Chg_Failed :: string where "Chg_Failed \<equiv> ''FAILED''"

datatype change_error =
    Chg_ErrInvalid
  | Chg_ErrConflict
  | Chg_ErrRequestConflict
  | Chg_ErrExpired
  | Chg_ErrNotFound
  | Chg_ErrTarget
  | Chg_ErrScope
  | Chg_ErrPending
  | Chg_ErrPeriod
  | Chg_ErrQuota
  | Chg_ErrCorrupt

definition chg_Key :: "string \<Rightarrow> bool" where
  "chg_Key s \<longleftrightarrow> key_pattern s"

definition chg_Tenant :: "string \<Rightarrow> bool" where
  "chg_Tenant s \<longleftrightarrow> length s \<le> 64 \<and> chg_Key s"

definition chg_Reason :: "string \<Rightarrow> bool" where
  "chg_Reason s \<longleftrightarrow> TrimSpace s \<noteq> '''' \<and> length s \<le> 512"

definition chg_ID :: "string \<Rightarrow> string \<Rightarrow> string \<Rightarrow> string" where
  "chg_ID actor tenant key = ''chg-'' @ take 48 (Digest (JArr [JStr actor, JStr tenant, JStr key]))"

subsection \<open>Inputs\<close>

record Input =
  in_TenantID :: string
  in_RequestID :: string
  in_Action :: string
  in_TargetPlanCode :: string
  in_TargetPlanVersion :: uint64
  in_SalesScope :: string
  in_EffectiveAt :: "time option"
  in_Reason :: string

definition json_Input :: "Input \<Rightarrow> json" where
  "json_Input i = JObj ([(''tenant_id'', JStr (in_TenantID i)), (''request_id'', JStr (in_RequestID i)),
     (''action'', JStr (in_Action i)), (''target_plan_code'', JStr (in_TargetPlanCode i)),
     (''target_plan_version'', JUint (in_TargetPlanVersion i))] @ omit_str ''sales_scope'' (in_SalesScope i) @
     omit_time ''effective_at'' (in_EffectiveAt i) @ [(''reason'', JStr (in_Reason i))])"

definition chg_CanonicalTime :: "time \<Rightarrow> time" where
  "chg_CanonicalTime t =
     (let remainder = Nanosecond t mod 1000 in if remainder \<noteq> 0 then t + (1000 - remainder) else t)"

definition Input_Validate :: "Input \<Rightarrow> change_error err" where
  "Input_Validate i =
     (if optional (\<lambda>e. IsZero e \<or> Year e < 1970 \<or> Year e > 9999 \<or> Nanosecond e mod 1000 \<noteq> 0) (in_EffectiveAt i)
        then Some Chg_ErrInvalid
      else if \<not> chg_Tenant (in_TenantID i) \<or> \<not> chg_Key (in_RequestID i) \<or> \<not> chg_Reason (in_Reason i)
        then Some Chg_ErrInvalid
      else if in_Action i = Initial then
        (if \<not> Code (in_TargetPlanCode i) \<or> in_TargetPlanVersion i = 0 \<or> \<not> ValidCode (in_SalesScope i) \<or>
            in_EffectiveAt i \<noteq> None then Some Chg_ErrInvalid else None)
      else if in_Action i = Switch \<or> in_Action i = Renew then
        (if \<not> Code (in_TargetPlanCode i) \<or> in_TargetPlanVersion i = 0 \<or> in_SalesScope i \<noteq> ''''
         then Some Chg_ErrInvalid else None)
      else if in_Action i = StopRenewal then
        (if in_TargetPlanCode i \<noteq> '''' \<or> in_TargetPlanVersion i \<noteq> 0 \<or> in_SalesScope i \<noteq> '''' \<or>
            in_EffectiveAt i \<noteq> None then Some Chg_ErrInvalid else None)
      else Some Chg_ErrInvalid)"

subsection \<open>Previews\<close>

record Dependency =
  dep_ModuleCode :: string
  dep_Requires :: "string list"

record QuotaImpact =
  qi_ModuleCode :: string
  qi_Key :: string
  qi_Before :: Limit
  qi_After :: Limit
  qi_UsageKnown :: bool
  qi_Used :: uint64
  qi_OverLimit :: bool
  qi_Policy :: string
  qi_Evidence :: string

text \<open>The map of message parameters is an association list with distinct keys.\<close>

record Impact =
  imp_Code :: string
  imp_Severity :: string
  imp_Subject :: string
  imp_Before :: string
  imp_After :: string
  imp_UsageKnown :: bool
  imp_CurrentUsage :: uint64
  imp_Blocking :: bool
  imp_ActionRequired :: string
  imp_MessageKey :: string
  imp_MessageParameters :: "(string \<times> string) list"

definition Impact_Valid :: "Impact \<Rightarrow> bool" where
  "Impact_Valid i =
     (if \<not> chg_Key (imp_Code i) \<or> \<not> chg_Key (imp_Subject i) \<or> \<not> chg_Key (imp_MessageKey i) \<or>
         (imp_Severity i \<noteq> ''INFO'' \<and> imp_Severity i \<noteq> ''WARNING'' \<and> imp_Severity i \<noteq> ''DANGER'') then False
      else if imp_Blocking i \<and> imp_ActionRequired i = '''' then False
      else \<forall>(key, _) \<in> set (imp_MessageParameters i). chg_Key key)"

record Preview =
  pre_ProvisioningRequirements :: "Requirement list"
  pre_ChangeID :: string
  pre_ActorID :: string
  pre_Input :: Input
  pre_Fingerprint :: string
  pre_Hash :: string
  pre_Before :: Subscription
  pre_Target :: Version
  pre_Current :: EntResult
  pre_Projected :: EntResult
  pre_Classification :: string
  pre_Mode :: string
  pre_CreatedAt :: time
  pre_ExpiresAt :: time
  pre_EffectiveAt :: time
  pre_EntitlementExpiresAt :: "time option"
  pre_Dependencies :: "Dependency list"
  pre_Quotas :: "QuotaImpact list"
  pre_Impacts :: "string list"
  pre_ImpactDetails :: "Impact list"
  pre_QuotaValidationRequired :: bool
  pre_PricingBasis :: string

definition zero_Subscription :: Subscription where
  "zero_Subscription =
     \<lparr>sub_Revision = 0, sub_PeriodStart = 0, sub_PeriodEnd = None, sub_RenewalStopped = False,
      sub_PendingChangeID = '''', sub_SourceNamespace = '''', sub_Origin = '''', sub_ID = '''',
      sub_TenantID = '''', sub_Kind = '''', sub_State = '''', sub_PlanCode = '''', sub_PlanVersion = 0,
      sub_RuleID = '''', sub_RuleVersion = 0, sub_SalesScope = '''', sub_EntitlementSourceVersion = 0,
      sub_CreatedAt = 0, sub_MatchExplanation = ''''\<rparr>"

definition json_Subscription :: "Subscription \<Rightarrow> json" where
  "json_Subscription s = JObj (omit_uint ''revision'' (sub_Revision s) @
     [(''period_start'', JTime (sub_PeriodStart s))] @ omit_time ''period_end'' (sub_PeriodEnd s) @
     omit_bool ''renewal_stopped'' (sub_RenewalStopped s) @
     omit_str ''pending_change_id'' (sub_PendingChangeID s) @
     omit_str ''source_namespace'' (sub_SourceNamespace s) @ omit_str ''origin'' (sub_Origin s) @
     [(''subscription_id'', JStr (sub_ID s)), (''tenant_id'', JStr (sub_TenantID s)),
      (''kind'', JStr (sub_Kind s)), (''state'', JStr (sub_State s)), (''plan_code'', JStr (sub_PlanCode s)),
      (''plan_version'', JUint (sub_PlanVersion s)), (''rule_id'', JStr (sub_RuleID s)),
      (''rule_version'', JUint (sub_RuleVersion s)), (''sales_scope'', JStr (sub_SalesScope s)),
      (''entitlement_source_version'', JUint (sub_EntitlementSourceVersion s)),
      (''created_at'', JTime (sub_CreatedAt s)), (''match_explanation'', JStr (sub_MatchExplanation s))])"

definition json_Version :: "Version \<Rightarrow> json" where
  "json_Version v = JObj ([(''plan_code'', JStr (ver_PlanCode v)), (''version'', JUint (ver_Number v)),
     (''revision'', JUint (ver_Revision v)), (''plan_revision'', JUint (ver_PlanRevision v)),
     (''state'', JStr (ver_State v)), (''name'', JStr (ver_Name v)), (''terms'', json_Terms (ver_Terms v)),
     (''content_sha256'', JStr (ver_ContentSHA256 v)), (''created_at'', JTime (ver_CreatedAt v))] @
     omit_time ''published_at'' (ver_PublishedAt v) @ omit_time ''retired_at'' (ver_RetiredAt v) @
     [(''actor_id'', JStr (ver_ActorID v)), (''reason'', JStr (ver_Reason v))])"

definition json_Dependency :: "Dependency \<Rightarrow> json" where
  "json_Dependency d = JObj [(''module_code'', JStr (dep_ModuleCode d)),
     (''requires'', JArr (map JStr (dep_Requires d)))]"

definition json_QuotaImpact :: "QuotaImpact \<Rightarrow> json" where
  "json_QuotaImpact q = JObj [(''module_code'', JStr (qi_ModuleCode q)), (''key'', JStr (qi_Key q)),
     (''before'', json_Limit (qi_Before q)), (''after'', json_Limit (qi_After q)),
     (''usage_known'', JBool (qi_UsageKnown q)), (''used'', JUint (qi_Used q)),
     (''over_limit'', JBool (qi_OverLimit q)), (''policy'', JStr (qi_Policy q)),
     (''evidence'', JStr (qi_Evidence q))]"

definition json_Impact :: "Impact \<Rightarrow> json" where
  "json_Impact i = JObj ([(''code'', JStr (imp_Code i)), (''severity'', JStr (imp_Severity i)),
     (''subject'', JStr (imp_Subject i))] @ omit_str ''before'' (imp_Before i) @
     omit_str ''after'' (imp_After i) @ [(''usage_known'', JBool (imp_UsageKnown i))] @
     omit_uint ''current_usage'' (imp_CurrentUsage i) @ [(''blocking'', JBool (imp_Blocking i))] @
     omit_str ''action_required'' (imp_ActionRequired i) @ [(''message_key'', JStr (imp_MessageKey i))] @
     (if imp_MessageParameters i = [] then []
      else [(''message_parameters'', JObj (map (map_prod id JStr) (sort_key fst (imp_MessageParameters i))))]))"

definition json_Preview :: "Preview \<Rightarrow> json" where
  "json_Preview p = JObj (
     omit_list ''provisioning_requirements'' json_Requirement (pre_ProvisioningRequirements p) @
     [(''change_id'', JStr (pre_ChangeID p)), (''actor_id'', JStr (pre_ActorID p)),
      (''input'', json_Input (pre_Input p)), (''fingerprint'', JStr (pre_Fingerprint p)),
      (''hash'', JStr (pre_Hash p)), (''before'', json_Subscription (pre_Before p)),
      (''target'', json_Version (pre_Target p)), (''current'', json_EntResult (pre_Current p)),
      (''projected'', json_EntResult (pre_Projected p)), (''classification'', JStr (pre_Classification p)),
      (''mode'', JStr (pre_Mode p)), (''created_at'', JTime (pre_CreatedAt p)),
      (''expires_at'', JTime (pre_ExpiresAt p)), (''effective_at'', JTime (pre_EffectiveAt p))] @
     omit_time ''entitlement_expires_at'' (pre_EntitlementExpiresAt p) @
     [(''dependencies'', JArr (map json_Dependency (pre_Dependencies p))),
      (''quotas'', JArr (map json_QuotaImpact (pre_Quotas p))),
      (''impacts'', JArr (map JStr (pre_Impacts p)))] @
     omit_list ''impact_details'' json_Impact (pre_ImpactDetails p) @
     [(''quota_validation_required'', JBool (pre_QuotaValidationRequired p)),
      (''pricing_basis'', JStr (pre_PricingBasis p))])"

definition Preview_Seal :: "Preview \<Rightarrow> Preview" where
  "Preview_Seal p = p\<lparr>pre_Hash := Digest (json_Preview (p\<lparr>pre_Hash := ''''\<rparr>))\<rparr>"

definition Preview_Integrity :: "Preview \<Rightarrow> change_error err" where
  "Preview_Integrity p =
     (let initial = (in_Action (pre_Input p) = Initial);
          beforeValid = (if initial then pre_Before p = zero_Subscription
            else sub_TenantID (pre_Before p) = in_TenantID (pre_Input p) \<and> sub_Revision (pre_Before p) > 0);
          currentValid = (if initial then res_EntitlementVersion (pre_Current p) > 0
            else res_SourceVersion (pre_Current p) > 0 \<and> res_EntitlementVersion (pre_Current p) > 0)
      in if ValidateRequirements (pre_ProvisioningRequirements p) \<noteq> None \<or>
            Input_Validate (pre_Input p) \<noteq> None \<or> pre_ActorID p = '''' \<or>
            pre_ChangeID p \<noteq> chg_ID (pre_ActorID p) (in_TenantID (pre_Input p)) (in_RequestID (pre_Input p)) \<or>
            pre_Fingerprint p \<noteq> Digest (json_Input (pre_Input p)) \<or> \<not> pre_CreatedAt p < pre_ExpiresAt p \<or>
            pre_Hash p \<noteq> pre_Hash (Preview_Seal p) \<or> \<not> beforeValid \<or> \<not> currentValid \<or>
            Version_Integrity (pre_Target p) \<noteq> None then Some Chg_ErrCorrupt
         else if \<exists>impact \<in> set (pre_ImpactDetails p). \<not> Impact_Valid impact then Some Chg_ErrCorrupt
         else None)"

subsection \<open>Receipts\<close>

record Receipt =
  rec_ProvisioningTaskID :: string
  rec_FailureCode :: string
  rec_ChangeID :: string
  rec_TenantID :: string
  rec_ActorID :: string
  rec_RequestID :: string
  rec_Fingerprint :: string
  rec_PreviewHash :: string
  rec_Hash :: string
  rec_Action :: string
  rec_Status :: string
  rec_Mode :: string
  rec_ConfirmedAt :: time
  rec_EffectiveAt :: time
  rec_EntitlementExpiresAt :: "time option"
  rec_Reason :: string
  rec_Before :: Subscription
  rec_After :: Subscription
  rec_BeforeSourceVersion :: uint64
  rec_AfterSourceVersion :: uint64
  rec_BeforeEntitlementVersion :: uint64
  rec_AfterEntitlementVersion :: uint64
  rec_QuotaValidationRequired :: bool
  rec_PricingAuthority :: string
  rec_Quotas :: "QuotaImpact list"

definition json_Receipt :: "Receipt \<Rightarrow> json" where
  "json_Receipt r = JObj (omit_str ''provisioning_task_id'' (rec_ProvisioningTaskID r) @
     omit_str ''failure_code'' (rec_FailureCode r) @
     [(''change_id'', JStr (rec_ChangeID r)), (''tenant_id'', JStr (rec_TenantID r)),
      (''actor_id'', JStr (rec_ActorID r)), (''request_id'', JStr (rec_RequestID r)),
      (''fingerprint'', JStr (rec_Fingerprint r)), (''preview_hash'', JStr (rec_PreviewHash r)),
      (''hash'', JStr (rec_Hash r)), (''action'', JStr (rec_Action r)), (''status'', JStr (rec_Status r)),
      (''mode'', JStr (rec_Mode r)), (''confirmed_at'', JTime (rec_ConfirmedAt r)),
      (''effective_at'', JTime (rec_EffectiveAt r))] @
     omit_time ''entitlement_expires_at'' (rec_EntitlementExpiresAt r) @
     [(''reason'', JStr (rec_Reason r)), (''before'', json_Subscription (rec_Before r)),
      (''after'', json_Subscription (rec_After r)),
      (''before_source_version'', JUint (rec_BeforeSourceVersion r)),
      (''after_source_version'', JUint (rec_AfterSourceVersion r)),
      (''before_entitlement_version'', JUint (rec_BeforeEntitlementVersion r)),
      (''after_entitlement_version'', JUint (rec_AfterEntitlementVersion r)),
      (''quota_validation_required'', JBool (rec_QuotaValidationRequired r)),
      (''pricing_authority'', JStr (rec_PricingAuthority r)),
      (''quotas'', JArr (map json_QuotaImpact (rec_Quotas r)))])"

definition Receipt_Seal :: "Receipt \<Rightarrow> Receipt" where
  "Receipt_Seal r = r\<lparr>rec_Hash := Digest (json_Receipt (r\<lparr>rec_Hash := ''''\<rparr>))\<rparr>"

definition Receipt_Integrity :: "Receipt \<Rightarrow> change_error err" where
  "Receipt_Integrity r =
     (let before = rec_Before r; after = rec_After r;
          transitionValid =
            (if rec_Action r = Initial
             then before = zero_Subscription \<and> sub_TenantID after = rec_TenantID r \<and> sub_Revision after \<ge> 1 \<and>
                  sub_Origin after = OriginInitialActivation \<and> rec_Mode r = Immediate
             else if rec_Action r \<noteq> Switch \<and> rec_Action r \<noteq> Renew \<and> rec_Action r \<noteq> StopRenewal then False
             else sub_TenantID before = rec_TenantID r \<and> sub_TenantID after = rec_TenantID r \<and>
                  sub_Revision after \<ge> sub_Revision before + 1 \<and> sub_Revision after > 0)
      in if \<not> chg_Tenant (rec_TenantID r) \<or> \<not> chg_Key (rec_RequestID r) \<or> \<not> chg_Key (rec_ChangeID r) \<or>
            rec_ActorID r = '''' \<or> rec_Hash r \<noteq> rec_Hash (Receipt_Seal r) \<or> \<not> transitionValid \<or>
            IsZero (rec_ConfirmedAt r) \<or> length (rec_PreviewHash r) \<noteq> 64 \<or>
            (rec_Status r \<noteq> Chg_Applied \<and> rec_Status r \<noteq> Scheduled \<and> rec_Status r \<noteq> Chg_Provisioning \<and>
             rec_Status r \<noteq> Chg_Failed) \<or>
            (rec_Status r = Chg_Failed \<and> \<not> chg_Key (rec_FailureCode r)) \<or>
            (rec_Status r \<noteq> Chg_Failed \<and> rec_FailureCode r \<noteq> '''') \<or>
            (rec_Status r = Chg_Provisioning \<and>
             (rec_ProvisioningTaskID r \<noteq> TaskID (rec_ChangeID r) \<or> sub_PendingChangeID after \<noteq> rec_ChangeID r \<or>
              (rec_Mode r \<noteq> Immediate \<and> rec_Mode r \<noteq> Scheduled)))
         then Some Chg_ErrCorrupt else None)"

subsection \<open>Periods\<close>

definition Normalize :: "Subscription \<Rightarrow> Version \<Rightarrow> change_error + Subscription" where
  "Normalize s p =
     (if sub_PlanCode s \<noteq> ver_PlanCode p \<or> sub_PlanVersion s \<noteq> ver_Number p \<or> Subscription_Validate s \<noteq> None
        then Inl Chg_ErrCorrupt
      else
        let s1 = (if sub_Revision s = 0
              then let s' = s\<lparr>sub_Revision := 1, sub_PeriodStart := sub_CreatedAt s\<rparr>
                   in if terms_ValidityMode (ver_Terms p) = ''fixed_days''
                      then s'\<lparr>sub_PeriodEnd := Some (AddDays (sub_CreatedAt s) (uint (terms_ValidityDays (ver_Terms p))))\<rparr>
                      else s'
              else s);
            s2 = (if sub_SourceNamespace s1 = '''' then s1\<lparr>sub_SourceNamespace := sub_ID s1\<rparr> else s1)
        in if IsZero (sub_PeriodStart s2) \<or> optional (\<lambda>e. \<not> e > sub_PeriodStart s2) (sub_PeriodEnd s2)
           then Inl Chg_ErrCorrupt else Inr s2)"

text \<open>The mode and the instant of a change, then the end of the period it opens.\<close>

definition period_start :: "Input \<Rightarrow> Subscription \<Rightarrow> string \<Rightarrow> time \<Rightarrow> change_error + string \<times> time" where
  "period_start i before classification now =
     (case in_EffectiveAt i of
        Some e \<Rightarrow> if \<not> e > now \<or> e > AddYears now 100 then Inl Chg_ErrInvalid else Inr (Scheduled, e)
      | None \<Rightarrow>
        if in_Action i = Switch \<and> classification = ''DOWNGRADE'' then
          (case sub_PeriodEnd before of
             None \<Rightarrow> Inl Chg_ErrPeriod
           | Some e \<Rightarrow> if e > now then Inr (Scheduled, e) else Inr (Immediate, now))
        else Inr (Immediate, now))"

definition Period ::
  "Input \<Rightarrow> Subscription \<Rightarrow> string \<Rightarrow> time \<Rightarrow> Terms \<Rightarrow> change_error + string \<times> time \<times> time option" where
  "Period i before classification now target =
     (case period_start i before classification now of
        Inl err \<Rightarrow> Inl err
      | Inr (mode, at) \<Rightarrow>
        if in_Action i = StopRenewal then Inr (Immediate, now, sub_PeriodEnd before)
        else if in_Action i = Renew then
          (case sub_PeriodEnd before of
             None \<Rightarrow> Inl Chg_ErrPeriod
           | Some e \<Rightarrow>
             if terms_ValidityMode target \<noteq> ''fixed_days'' then Inl Chg_ErrPeriod
             else let base = (if e > at then e else at)
                  in Inr (mode, at, Some (AddDays base (uint (terms_ValidityDays target)))))
        else if terms_ValidityMode target = ''fixed_days''
          then Inr (mode, at, Some (AddDays at (uint (terms_ValidityDays target))))
        else Inr (mode, at, None))"

subsection \<open>Classification\<close>

definition mode_rank :: "string \<Rightarrow> int" where
  "mode_rank mode = (if mode = ''masked'' then 1 else if mode = ''allow'' then 2 else 0)"

definition features :: "Terms \<Rightarrow> (string \<times> int) list" where
  "features t = concat (map (\<lambda>m.
       [(''m/'' @ pm_Code m, 1)] @
       map (\<lambda>c. (''c/'' @ pm_Code m @ ''/'' @ c, 1)) (pm_Capabilities m) @
       map (\<lambda>f. (''f/'' @ pm_Code m @ ''/'' @ field_Key f @ ''/'' @ field_Action f, mode_rank (field_Mode f)))
         (pm_Fields m)) (terms_Modules t))"

text \<open>Reading a Go map that was filled by these assignments; a missing key has the zero value.\<close>

definition lookup :: "'v \<Rightarrow> ('k \<times> 'v) list \<Rightarrow> 'k \<Rightarrow> 'v" where
  "lookup zero assigned k = (case map_of (rev assigned) k of None \<Rightarrow> zero | Some v \<Rightarrow> v)"

definition Less :: "Limit \<Rightarrow> Limit \<Rightarrow> bool" where
  "Less a b \<longleftrightarrow> \<not> Unlimited a \<and> (Unlimited b \<or> Value a < Value b)"

definition quota_values :: "Terms \<Rightarrow> (string \<times> Limit) list" where
  "quota_values t = concat (map (\<lambda>m. map (\<lambda>q. (pm_Code m @ ''/'' @ quota_Key q, quota_limit q)) (pm_Quotas m))
     (terms_Modules t))"

definition quota_names :: "Terms \<Rightarrow> (string \<times> string \<times> string) list" where
  "quota_names t = concat (map (\<lambda>m. map (\<lambda>q. (pm_Code m @ ''/'' @ quota_Key q, pm_Code m, quota_Key q)) (pm_Quotas m))
     (terms_Modules t))"

definition sortedKeys :: "(string \<times> 'v) list \<Rightarrow> string list" where
  "sortedKeys m = sort (remdups (map fst m))"

definition quota_impact :: "string \<times> string \<Rightarrow> Limit \<Rightarrow> Limit \<Rightarrow> QuotaImpact" where
  "quota_impact name before after =
     \<lparr>qi_ModuleCode = fst name, qi_Key = snd name, qi_Before = before, qi_After = after, qi_UsageKnown = False,
      qi_Used = 0, qi_OverLimit = False, qi_Policy = '''', qi_Evidence = ''''\<rparr>"

definition QuotaChanges :: "Terms \<Rightarrow> Terms \<Rightarrow> QuotaImpact list" where
  "QuotaChanges a b =
     (let keys = quota_names a @ quota_names b
      in filter (\<lambda>q. qi_Before q \<noteq> qi_After q)
           (map (\<lambda>k. quota_impact (lookup ('''', '''') keys k) (lookup zero_limit (quota_values a) k)
                  (lookup zero_limit (quota_values b) k)) (sortedKeys keys)))"

definition goes_down :: "Terms \<Rightarrow> Terms \<Rightarrow> bool" where
  "goes_down a b \<longleftrightarrow>
     (\<exists>k \<in> set (map fst (features a)). lookup 0 (features b) k < lookup 0 (features a) k) \<or>
     (\<exists>q \<in> set (QuotaChanges a b). Less (qi_After q) (qi_Before q)) \<or>
     (terms_ValidityMode a = ''unlimited'' \<and> terms_ValidityMode b \<noteq> ''unlimited'') \<or>
     (terms_ValidityMode a = ''fixed_days'' \<and> terms_ValidityMode b = ''fixed_days'' \<and>
      terms_ValidityDays b < terms_ValidityDays a)"

definition goes_up :: "Terms \<Rightarrow> Terms \<Rightarrow> bool" where
  "goes_up a b \<longleftrightarrow>
     (\<exists>k \<in> set (map fst (features a)). lookup 0 (features b) k > lookup 0 (features a) k) \<or>
     (\<exists>k \<in> set (map fst (features b)). lookup 0 (features b) k > lookup 0 (features a) k) \<or>
     (\<exists>q \<in> set (QuotaChanges a b). \<not> Less (qi_After q) (qi_Before q)) \<or>
     (terms_ValidityMode a \<noteq> ''unlimited'' \<and> terms_ValidityMode b = ''unlimited'') \<or>
     (terms_ValidityMode a = ''fixed_days'' \<and> terms_ValidityMode b = ''fixed_days'' \<and>
      terms_ValidityDays b > terms_ValidityDays a)"

definition Classify :: "Terms \<Rightarrow> Terms \<Rightarrow> string" where
  "Classify a b =
     (if goes_down a b then ''DOWNGRADE'' else if goes_up a b then ''UPGRADE'' else ''SAME_TIER'')"

subsection \<open>Projection of the sources\<close>

text \<open>\<open>sameInstant\<close> of two optional instants is their equality.\<close>

definition sameInstant :: "time option \<Rightarrow> time option \<Rightarrow> bool" where
  "sameInstant a b \<longleftrightarrow> (a = None \<and> b = None) \<or> (a \<noteq> None \<and> b \<noteq> None \<and> the a = the b)"

definition expected_sources :: "Subscription \<Rightarrow> Version \<Rightarrow> Source list" where
  "expected_sources s p =
     map (\<lambda>v. v\<lparr>src_ExpiresAt := sub_PeriodEnd s\<rparr>)
       (Sources (sub_TenantID s) (sub_SourceNamespace s) (sub_PeriodStart s) (ver_Terms p))"

definition altered :: "Subscription \<Rightarrow> Source \<Rightarrow> Source \<Rightarrow> bool" where
  "altered s v x \<longleftrightarrow>
     src_TenantID v \<noteq> sub_TenantID s \<or> src_ModuleCode v \<noteq> src_ModuleCode x \<or> src_Kind v \<noteq> src_Kind x \<or>
     src_Key v \<noteq> src_Key x \<or> src_Action v \<noteq> src_Action x \<or> src_Effect v \<noteq> src_Effect x \<or>
     src_Limit v \<noteq> src_Limit x \<or> src_EffectiveAt v \<noteq> sub_PeriodStart s \<or>
     \<not> sameInstant (src_ExpiresAt v) (sub_PeriodEnd s) \<or> src_Version v = 0"

fun check_current ::
  "Subscription \<Rightarrow> (string \<rightharpoonup> Source) \<Rightarrow> string list \<Rightarrow> Source list \<Rightarrow> change_error + string list" where
  "check_current s expected seen [] = Inr seen"
| "check_current s expected seen (v # vs) =
     (if src_SourceKind v \<noteq> PlanSource then check_current s expected seen vs
      else case expected (src_ID v) of
        None \<Rightarrow> if src_RevokedAt v = None then Inl Chg_ErrCorrupt else check_current s expected seen vs
      | Some x \<Rightarrow>
        if src_ID v \<in> set seen \<or> altered s v x then Inl Chg_ErrCorrupt
        else if optional (\<lambda>r. r < src_EffectiveAt v \<or> optional (\<lambda>e. r > e) (src_ExpiresAt v)) (src_RevokedAt v)
          then Inl Chg_ErrCorrupt
        else check_current s expected (src_ID v # seen) vs)"

definition ValidateCurrentSources :: "Subscription \<Rightarrow> Version \<Rightarrow> Source list \<Rightarrow> change_error err" where
  "ValidateCurrentSources s p sources =
     (let assigned = map (\<lambda>v. (src_ID v, v)) (expected_sources s p);
          n = length (remdups (map fst assigned))
      in case check_current s (map_of (rev assigned)) [] sources of
           Inl e \<Rightarrow> Some e
         | Inr seen \<Rightarrow> if length seen \<noteq> n \<or> n = 0 then Some Chg_ErrCorrupt else None)"

definition new_sources :: "string \<Rightarrow> string \<Rightarrow> time \<Rightarrow> time option \<Rightarrow> Terms \<Rightarrow> Source list" where
  "new_sources tenant cid at end t = map (\<lambda>v. v\<lparr>src_ExpiresAt := end\<rparr>) (Sources tenant cid at t)"

fun keep_initial :: "string \<Rightarrow> Source list \<Rightarrow> change_error + Source list" where
  "keep_initial tenant [] = Inr []"
| "keep_initial tenant (v # vs) =
     (if src_TenantID v \<noteq> tenant then Inl Chg_ErrCorrupt
      else if src_SourceKind v = PlanSource \<and> src_RevokedAt v = None then Inl Chg_ErrConflict
      else bind_result (keep_initial tenant vs) (\<lambda>out. Inr (v # out)))"

definition ProjectInitialSources ::
  "string \<Rightarrow> Version \<Rightarrow> Source list \<Rightarrow> string \<Rightarrow> time \<Rightarrow> time option \<Rightarrow> change_error + Source list" where
  "ProjectInitialSources tenant target sources cid at end =
     (if \<not> chg_Tenant tenant \<or> \<not> chg_Key cid \<or> Version_Integrity target \<noteq> None \<or> IsZero at then Inl Chg_ErrInvalid
      else bind_result (keep_initial tenant sources)
        (\<lambda>out. Inr (out @ new_sources tenant cid at end (ver_Terms target))))"

fun revoke_live :: "time \<Rightarrow> Source list \<Rightarrow> change_error + Source list" where
  "revoke_live at [] = Inr []"
| "revoke_live at (v # vs) =
     (if src_SourceKind v = PlanSource \<and> src_RevokedAt v = None then
        (if at < src_EffectiveAt v \<or> src_Version v = MaxUint64 then Inl Chg_ErrCorrupt
         else bind_result (revoke_live at vs)
           (\<lambda>out. Inr (v\<lparr>src_RevokedAt := Some at, src_Version := src_Version v + 1\<rparr> # out)))
      else bind_result (revoke_live at vs) (\<lambda>out. Inr (v # out)))"

definition ProjectSources ::
  "Subscription \<Rightarrow> Version \<Rightarrow> Version \<Rightarrow> Source list \<Rightarrow> string \<Rightarrow> time \<Rightarrow> time option \<Rightarrow> change_error + Source list" where
  "ProjectSources s old target sources cid at end =
     (case ValidateCurrentSources s old sources of
        Some e \<Rightarrow> Inl e
      | None \<Rightarrow> bind_result (revoke_live at sources)
          (\<lambda>out. Inr (out @ new_sources (sub_TenantID s) cid at end (ver_Terms target))))"

definition DefaultQuotaImpacts :: "QuotaImpact list \<Rightarrow> QuotaImpact list" where
  "DefaultQuotaImpacts changes = map (\<lambda>q.
     let q1 = q\<lparr>qi_Policy := ''NOT_REQUIRED_NO_REDUCTION''\<rparr>
     in if Less (qi_After q1) (qi_Before q1)
        then q1\<lparr>qi_Policy := ''REVALIDATE_BEFORE_EXECUTION'', qi_Evidence := ''CE-19 usage adapter not connected''\<rparr>
        else q1) changes"

text \<open>One entry of the report, then the loop; the error comes with the flag that goes with it.\<close>

definition report_mismatch :: "QuotaImpact \<Rightarrow> QuotaImpact \<Rightarrow> bool" where
  "report_mismatch expected q \<longleftrightarrow>
     qi_ModuleCode q \<noteq> qi_ModuleCode expected \<or> qi_Key q \<noteq> qi_Key expected \<or> qi_Before q \<noteq> qi_Before expected \<or>
     qi_After q \<noteq> qi_After expected \<or> qi_Policy q = '''' \<or>
     (\<not> qi_UsageKnown q \<and> (qi_Used q \<noteq> 0 \<or> qi_OverLimit q))"

definition over_limit :: "QuotaImpact \<Rightarrow> bool" where
  "over_limit q \<longleftrightarrow> qi_UsageKnown q \<and> \<not> Unlimited (qi_After q) \<and> qi_Used q > Value (qi_After q)"

fun check_report :: "string \<Rightarrow> bool \<Rightarrow> (QuotaImpact \<times> QuotaImpact) list \<Rightarrow> bool \<times> change_error err" where
  "check_report mode deferred [] = (deferred, None)"
| "check_report mode deferred ((expected, q) # rest) =
     (if report_mismatch expected q then (False, Some Chg_ErrCorrupt)
      else if \<not> Less (qi_After q) (qi_Before q) then check_report mode deferred rest
      else if qi_UsageKnown q \<and> qi_Evidence q = '''' then (False, Some Chg_ErrCorrupt)
      else if qi_OverLimit q \<noteq> over_limit q then (False, Some Chg_ErrCorrupt)
      else if \<not> qi_UsageKnown q \<or> over_limit q then
        (if mode = Immediate then (True, Some Chg_ErrQuota) else check_report mode True rest)
      else check_report mode deferred rest)"

definition CheckQuotaReport :: "QuotaImpact list \<Rightarrow> QuotaImpact list \<Rightarrow> string \<Rightarrow> bool \<times> change_error err" where
  "CheckQuotaReport requested report mode =
     (if length requested \<noteq> length report then (False, Some Chg_ErrCorrupt)
      else check_report mode False (zip requested report))"

end
