(* ===== verification/Change_Props.thy ===== *)
theory Change_Props
  imports Subscription_Change
begin

text \<open>
  What a plan change guarantees: the classification agrees with what the terms really take away,
  the projected sources replace the old plan completely, the period is sound and a reduction of a
  quota is only let through on evidence.
\<close>

section \<open>Sealed previews and receipts\<close>

interpretation preview_seal: sealed pre_Hash "\<lambda>h p. p\<lparr>pre_Hash := h\<rparr>" "\<lambda>p. Digest (json_Preview p)" Preview_Seal
  by unfold_locales (simp_all add: Preview_Seal_def)

interpretation receipt_seal: sealed rec_Hash "\<lambda>h r. r\<lparr>rec_Hash := h\<rparr>" "\<lambda>r. Digest (json_Receipt r)" Receipt_Seal
  by unfold_locales (simp_all add: Receipt_Seal_def)

lemma Preview_Integrity_seal: "Preview_Integrity p = None \<Longrightarrow> Preview_Seal p = p"
  by (simp add: Preview_Integrity_def preview_seal.verifies_iff [symmetric] Let_def split: if_splits)

lemma Receipt_Integrity_seal: "Receipt_Integrity r = None \<Longrightarrow> Receipt_Seal r = r"
  by (simp add: Receipt_Integrity_def receipt_seal.verifies_iff [symmetric] Let_def split: if_splits)

lemma preview_other_hash:
  "Preview_Integrity p = None \<Longrightarrow> h \<noteq> pre_Hash p \<Longrightarrow> Preview_Integrity (p\<lparr>pre_Hash := h\<rparr>) = Some Chg_ErrCorrupt"
  using preview_seal.other_hash [OF Preview_Integrity_seal] by (simp add: Preview_Integrity_def Let_def)

lemma receipt_other_hash:
  "Receipt_Integrity r = None \<Longrightarrow> h \<noteq> rec_Hash r \<Longrightarrow> Receipt_Integrity (r\<lparr>rec_Hash := h\<rparr>) = Some Chg_ErrCorrupt"
  using receipt_seal.other_hash [OF Receipt_Integrity_seal] by (simp add: Receipt_Integrity_def Let_def)

section \<open>Reading the maps of a classification\<close>

lemma lookup_agree:
  assumes "(k, v) \<in> set xs" "\<And>v'. (k, v') \<in> set xs \<Longrightarrow> v' = v"
  shows "lookup zero xs k = v"
proof -
  obtain v' where v': "map_of (rev xs) k = Some v'" using assms(1) weak_map_of_SomeI [of k v "rev xs"] by auto
  then have "(k, v') \<in> set xs" using map_of_SomeD by fastforce
  with assms(2) v' show ?thesis by (simp add: lookup_def)
qed

lemma lookup_absent: "k \<notin> fst ` set xs \<Longrightarrow> lookup zero xs k = zero"
proof -
  assume "k \<notin> fst ` set xs"
  then have "map_of (rev xs) k = None" by (simp add: map_of_eq_None_iff)
  then show ?thesis by (simp add: lookup_def)
qed

lemma lookup_cases: "lookup zero xs k = zero \<or> (k, lookup zero xs k) \<in> set xs"
proof (cases "map_of (rev xs) k")
  case (Some v)
  then show ?thesis using map_of_SomeD [OF Some] by (simp add: lookup_def)
qed (simp add: lookup_def)

lemma mode_rank_nonneg: "0 \<le> mode_rank mode"
  by (simp add: mode_rank_def)

lemma features_set:
  "(k, v) \<in> set (features t) \<longleftrightarrow> (\<exists>m \<in> set (terms_Modules t).
     (k = ''m/'' @ pm_Code m \<and> v = 1) \<or>
     (\<exists>c \<in> set (pm_Capabilities m). k = ''c/'' @ pm_Code m @ ''/'' @ c \<and> v = 1) \<or>
     (\<exists>f \<in> set (pm_Fields m). k = ''f/'' @ pm_Code m @ ''/'' @ field_id f \<and> v = mode_rank (field_Mode f)))"
  by (auto simp: features_def field_id_def)

lemma feature_nonneg: "(k, v) \<in> set (features t) \<Longrightarrow> 0 \<le> v"
  by (auto simp: features_set mode_rank_nonneg)

abbreviation rank_of :: "Terms \<Rightarrow> string \<Rightarrow> int" where
  "rank_of t \<equiv> lookup 0 (features t)"

abbreviation limit_of :: "Terms \<Rightarrow> string \<Rightarrow> Limit" where
  "limit_of t \<equiv> lookup zero_limit (quota_values t)"

lemma rank_nonneg: "0 \<le> rank_of t k"
  using lookup_cases [of 0 "features t" k] feature_nonneg by auto

lemma rank_pos_key: "0 < rank_of t k \<Longrightarrow> k \<in> fst ` set (features t)"
  using lookup_absent [of k "features t" 0] by force

section \<open>Classification by what is taken away\<close>

definition limit_le :: "Limit \<Rightarrow> Limit \<Rightarrow> bool" where
  "limit_le a b \<longleftrightarrow> Unlimited b \<or> (\<not> Unlimited a \<and> Value a \<le> Value b)"

definition validity_le :: "Terms \<Rightarrow> Terms \<Rightarrow> bool" where
  "validity_le a b \<longleftrightarrow>
     (if terms_ValidityMode a = ''unlimited'' then terms_ValidityMode b = ''unlimited''
      else terms_ValidityMode b = ''unlimited'' \<or> terms_ValidityDays a \<le> terms_ValidityDays b)"

text \<open>
  \<open>keeps a b\<close>: the terms \<open>b\<close> give everything the terms \<open>a\<close> give: every module with all its
  capabilities, every field at least as openly, every quota at least as high, and as long.
\<close>

definition keeps :: "Terms \<Rightarrow> Terms \<Rightarrow> bool" where
  "keeps a b \<longleftrightarrow> validity_le a b \<and>
     (\<forall>m \<in> set (terms_Modules a). \<exists>m' \<in> set (terms_Modules b). pm_Code m' = pm_Code m \<and>
        set (pm_Capabilities m) \<subseteq> set (pm_Capabilities m') \<and>
        (\<forall>f \<in> set (pm_Fields m). mode_rank (field_Mode f) = 0 \<or>
           (\<exists>f' \<in> set (pm_Fields m'). field_id f' = field_id f \<and> mode_rank (field_Mode f) \<le> mode_rank (field_Mode f'))) \<and>
        (\<forall>q \<in> set (pm_Quotas m). quota_limit q = zero_limit \<or>
           (\<exists>q' \<in> set (pm_Quotas m'). quota_Key q' = quota_Key q \<and> limit_le (quota_limit q) (quota_limit q'))))"

text \<open>What of the well-formedness the classification needs.\<close>

definition readable :: "Terms \<Rightarrow> bool" where
  "readable t \<longleftrightarrow> distinct (map pm_Code (terms_Modules t)) \<and> validity_ok t \<and>
     (\<forall>m \<in> set (terms_Modules t). CHR ''/'' \<notin> set (pm_Code m) \<and> distinct (map field_id (pm_Fields m)) \<and>
        distinct (map quota_Key (pm_Quotas m)) \<and> (\<forall>q \<in> set (pm_Quotas m). Limit_Valid (quota_limit q)))"

lemma terms_wf_readable: "terms_wf t c \<Longrightarrow> readable t"
  unfolding terms_wf_def readable_def module_ok_def
  by (auto simp: Code_def dest: code_pattern_no_slash)

lemma readable_module:
  "readable t \<Longrightarrow> m \<in> set (terms_Modules t) \<Longrightarrow> m' \<in> set (terms_Modules t) \<Longrightarrow> pm_Code m = pm_Code m' \<Longrightarrow> m = m'"
  by (auto simp: readable_def distinct_map dest: inj_onD)

lemma readable_join:
  assumes "readable t" "m \<in> set (terms_Modules t)" "readable t'" "m' \<in> set (terms_Modules t')"
  shows "pm_Code m @ ''/'' @ x = pm_Code m' @ ''/'' @ y \<longleftrightarrow> pm_Code m = pm_Code m' \<and> x = y"
  using assms by (intro slash_join_inject) (auto simp: readable_def)

lemma rank_of_module: "readable t \<Longrightarrow> m \<in> set (terms_Modules t) \<Longrightarrow> rank_of t (''m/'' @ pm_Code m) = 1"
  by (rule lookup_agree) (auto simp: features_set)

lemma rank_of_capability:
  "readable t \<Longrightarrow> m \<in> set (terms_Modules t) \<Longrightarrow> c \<in> set (pm_Capabilities m) \<Longrightarrow>
     rank_of t (''c/'' @ pm_Code m @ ''/'' @ c) = 1"
  by (rule lookup_agree) (auto simp: features_set)

lemma rank_of_field:
  assumes "readable t" "m \<in> set (terms_Modules t)" "f \<in> set (pm_Fields m)"
  shows "rank_of t (''f/'' @ pm_Code m @ ''/'' @ field_id f) = mode_rank (field_Mode f)"
proof (rule lookup_agree)
  show "(''f/'' @ pm_Code m @ ''/'' @ field_id f, mode_rank (field_Mode f)) \<in> set (features t)"
    using assms by (auto simp: features_set)
  fix v assume "(''f/'' @ pm_Code m @ ''/'' @ field_id f, v) \<in> set (features t)"
  then obtain m' f' where m': "m' \<in> set (terms_Modules t)" "f' \<in> set (pm_Fields m')" "v = mode_rank (field_Mode f')"
    "pm_Code m @ ''/'' @ field_id f = pm_Code m' @ ''/'' @ field_id f'" by (auto simp: features_set)
  then have "m' = m" "field_id f' = field_id f"
    using readable_join [OF assms(1,2) assms(1) m'(1)] readable_module assms by metis+
  then have "f' = f" using assms m'(2) by (auto simp: readable_def distinct_map dest: inj_onD)
  with m' show "v = mode_rank (field_Mode f)" by simp
qed

lemma quota_values_set:
  "(k, v) \<in> set (quota_values t) \<longleftrightarrow>
     (\<exists>m \<in> set (terms_Modules t). \<exists>q \<in> set (pm_Quotas m). k = pm_Code m @ ''/'' @ quota_Key q \<and> v = quota_limit q)"
  by (auto simp: quota_values_def)

lemma limit_of_quota:
  assumes "readable t" "m \<in> set (terms_Modules t)" "q \<in> set (pm_Quotas m)"
  shows "limit_of t (pm_Code m @ ''/'' @ quota_Key q) = quota_limit q"
proof (rule lookup_agree)
  show "(pm_Code m @ ''/'' @ quota_Key q, quota_limit q) \<in> set (quota_values t)"
    using assms by (auto simp: quota_values_set)
  fix v assume "(pm_Code m @ ''/'' @ quota_Key q, v) \<in> set (quota_values t)"
  then obtain m' q' where m': "m' \<in> set (terms_Modules t)" "q' \<in> set (pm_Quotas m')" "v = quota_limit q'"
    "pm_Code m @ ''/'' @ quota_Key q = pm_Code m' @ ''/'' @ quota_Key q'" by (auto simp: quota_values_set)
  then have "m' = m" "quota_Key q' = quota_Key q"
    using readable_join [OF assms(1,2) assms(1) m'(1)] readable_module assms by metis+
  then have "q' = q" using assms m'(2) by (auto simp: readable_def distinct_map dest: inj_onD)
  with m' show "v = quota_limit q" by simp
qed

lemma limit_of_valid: "readable t \<Longrightarrow> Limit_Valid (limit_of t k)"
  using lookup_cases [of zero_limit "quota_values t" k] by (auto simp: quota_values_set readable_def)

lemma Less_limit_le: "Less a b \<longleftrightarrow> \<not> limit_le b a"
  unfolding Less_def limit_le_def by (simp add: not_le)

lemma limit_le_antisym: "Limit_Valid a \<Longrightarrow> Limit_Valid b \<Longrightarrow> limit_le a b \<Longrightarrow> limit_le b a \<Longrightarrow> a = b"
  by (cases a; cases b) (auto simp: limit_le_def Limit_Valid_def)

lemma limit_le_refl [simp]: "limit_le a a" and limit_le_zero [simp]: "limit_le zero_limit a"
  by (simp_all add: limit_le_def zero_limit_def)

definition terms_le :: "Terms \<Rightarrow> Terms \<Rightarrow> bool" where
  "terms_le a b \<longleftrightarrow> validity_le a b \<and> (\<forall>k. rank_of a k \<le> rank_of b k) \<and> (\<forall>k. limit_le (limit_of a k) (limit_of b k))"

lemma rank_key_cases:
  assumes "readable b" "0 < rank_of b k"
  obtains (Module) m where "m \<in> set (terms_Modules b)" "k = ''m/'' @ pm_Code m" "rank_of b k = 1"
  | (Capability) m c where "m \<in> set (terms_Modules b)" "c \<in> set (pm_Capabilities m)"
      "k = ''c/'' @ pm_Code m @ ''/'' @ c" "rank_of b k = 1"
  | (Field) m f where "m \<in> set (terms_Modules b)" "f \<in> set (pm_Fields m)"
      "k = ''f/'' @ pm_Code m @ ''/'' @ field_id f" "rank_of b k = mode_rank (field_Mode f)"
proof -
  have "(k, rank_of b k) \<in> set (features b)" using lookup_cases [of 0 "features b" k] assms(2) by auto
  then show thesis unfolding features_set using that by blast
qed

lemma limit_key_cases:
  assumes "limit_of b k \<noteq> zero_limit"
  obtains m q where "m \<in> set (terms_Modules b)" "q \<in> set (pm_Quotas m)" "k = pm_Code m @ ''/'' @ quota_Key q"
    "limit_of b k = quota_limit q"
proof -
  have "(k, limit_of b k) \<in> set (quota_values b)" using lookup_cases [of zero_limit "quota_values b" k] assms by auto
  then show thesis unfolding quota_values_set using that by blast
qed

lemma keeps_imp_rank:
  assumes ab: "readable a" "readable b" and k: "keeps a b"
  shows "rank_of a key \<le> rank_of b key"
proof (cases "0 < rank_of a key")
  case False
  then show ?thesis using rank_nonneg [of b key] by linarith
next
  case True
  with ab(1) show ?thesis
  proof (cases rule: rank_key_cases)
    case (Module m)
    then obtain m' where m': "m' \<in> set (terms_Modules b)" "pm_Code m' = pm_Code m" using k unfolding keeps_def by blast
    then show ?thesis using rank_of_module [OF ab(2) m'(1)] Module by simp
  next
    case (Capability m c)
    then obtain m' where m': "m' \<in> set (terms_Modules b)" "pm_Code m' = pm_Code m" "c \<in> set (pm_Capabilities m')"
      using k unfolding keeps_def by blast
    then show ?thesis using rank_of_capability [OF ab(2) m'(1,3)] Capability by simp
  next
    case (Field m f)
    then have "mode_rank (field_Mode f) \<noteq> 0" using True by simp
    then obtain m' f' where m': "m' \<in> set (terms_Modules b)" "pm_Code m' = pm_Code m" "f' \<in> set (pm_Fields m')"
      "field_id f' = field_id f" "mode_rank (field_Mode f) \<le> mode_rank (field_Mode f')"
      using k Field unfolding keeps_def by blast
    then show ?thesis using rank_of_field [OF ab(2) m'(1,3)] Field by simp
  qed
qed

lemma keeps_imp_limit:
  assumes ab: "readable a" "readable b" and k: "keeps a b"
  shows "limit_le (limit_of a key) (limit_of b key)"
proof (cases "limit_of a key = zero_limit")
  case True
  then show ?thesis by simp
next
  case False
  then obtain m q where q: "m \<in> set (terms_Modules a)" "q \<in> set (pm_Quotas m)" "key = pm_Code m @ ''/'' @ quota_Key q"
    "limit_of a key = quota_limit q" by (rule limit_key_cases)
  with False obtain m' q' where m': "m' \<in> set (terms_Modules b)" "pm_Code m' = pm_Code m" "q' \<in> set (pm_Quotas m')"
    "quota_Key q' = quota_Key q" "limit_le (quota_limit q) (quota_limit q')" using k unfolding keeps_def by metis
  then show ?thesis using limit_of_quota [OF ab(2) m'(1,3)] q by simp
qed

lemma terms_le_imp_keeps:
  assumes ab: "readable a" "readable b" and le: "terms_le a b"
  shows "keeps a b"
  unfolding keeps_def
proof (intro conjI ballI)
  show "validity_le a b" using le by (simp add: terms_le_def)
  fix m assume m: "m \<in> set (terms_Modules a)"
  have up: "rank_of a k \<le> rank_of b k" "limit_le (limit_of a k) (limit_of b k)" for k using le by (auto simp: terms_le_def)
  have "0 < rank_of b (''m/'' @ pm_Code m)" using up(1) [of "''m/'' @ pm_Code m"] rank_of_module [OF ab(1) m] by simp
  from ab(2) this obtain m' where m': "m' \<in> set (terms_Modules b)" "pm_Code m' = pm_Code m"
    by (cases rule: rank_key_cases) auto
  have same: "m'' = m'" if "m'' \<in> set (terms_Modules b)" "pm_Code m'' = pm_Code m" for m''
    using readable_module [OF ab(2) that(1) m'(1)] that(2) m'(2) by simp
  have join: "pm_Code m'' = pm_Code m \<and> y = x" if "pm_Code m @ ''/'' @ x = pm_Code m'' @ ''/'' @ y" "m'' \<in> set (terms_Modules b)"
    for m'' x y using readable_join [OF ab(1) m ab(2) that(2)] that(1) by auto
  have "set (pm_Capabilities m) \<subseteq> set (pm_Capabilities m')"
  proof
    fix c assume c: "c \<in> set (pm_Capabilities m)"
    have "0 < rank_of b (''c/'' @ pm_Code m @ ''/'' @ c)"
      using up(1) [of "''c/'' @ pm_Code m @ ''/'' @ c"] rank_of_capability [OF ab(1) m c] by simp
    from ab(2) this obtain m'' c' where "m'' \<in> set (terms_Modules b)" "c' \<in> set (pm_Capabilities m'')"
      "pm_Code m @ ''/'' @ c = pm_Code m'' @ ''/'' @ c'" by (cases rule: rank_key_cases) auto
    then show "c \<in> set (pm_Capabilities m')" using join same by blast
  qed
  moreover have "\<exists>f' \<in> set (pm_Fields m'). field_id f' = field_id f \<and> mode_rank (field_Mode f) \<le> mode_rank (field_Mode f')"
    if f: "f \<in> set (pm_Fields m)" "mode_rank (field_Mode f) \<noteq> 0" for f
  proof -
    have r: "mode_rank (field_Mode f) \<le> rank_of b (''f/'' @ pm_Code m @ ''/'' @ field_id f)"
      using up(1) [of "''f/'' @ pm_Code m @ ''/'' @ field_id f"] rank_of_field [OF ab(1) m f(1)] by simp
    then have "0 < rank_of b (''f/'' @ pm_Code m @ ''/'' @ field_id f)"
      using f(2) mode_rank_nonneg [of "field_Mode f"] by linarith
    from ab(2) this obtain m'' f' where "m'' \<in> set (terms_Modules b)" "f' \<in> set (pm_Fields m'')"
      "pm_Code m @ ''/'' @ field_id f = pm_Code m'' @ ''/'' @ field_id f'"
      "rank_of b (''f/'' @ pm_Code m @ ''/'' @ field_id f) = mode_rank (field_Mode f')"
      by (cases rule: rank_key_cases) auto
    then show ?thesis using join same r by metis
  qed
  moreover have "\<exists>q' \<in> set (pm_Quotas m'). quota_Key q' = quota_Key q \<and> limit_le (quota_limit q) (quota_limit q')"
    if q: "q \<in> set (pm_Quotas m)" "quota_limit q \<noteq> zero_limit" for q
  proof -
    let ?k = "pm_Code m @ ''/'' @ quota_Key q"
    have l: "limit_le (quota_limit q) (limit_of b ?k)" using up(2) [of ?k] limit_of_quota [OF ab(1) m q(1)] by simp
    have "Limit_Valid (quota_limit q)" using ab(1) m q(1) by (auto simp: readable_def)
    then have "limit_of b ?k \<noteq> zero_limit" using l q(2) limit_le_antisym [of "quota_limit q" zero_limit] by auto
    then obtain m'' q' where "m'' \<in> set (terms_Modules b)" "q' \<in> set (pm_Quotas m'')"
      "?k = pm_Code m'' @ ''/'' @ quota_Key q'" "limit_of b ?k = quota_limit q'" by (rule limit_key_cases)
    then show ?thesis using join same l by metis
  qed
  ultimately show "\<exists>m' \<in> set (terms_Modules b). pm_Code m' = pm_Code m \<and> set (pm_Capabilities m) \<subseteq> set (pm_Capabilities m') \<and>
        (\<forall>f \<in> set (pm_Fields m). mode_rank (field_Mode f) = 0 \<or>
           (\<exists>f' \<in> set (pm_Fields m'). field_id f' = field_id f \<and> mode_rank (field_Mode f) \<le> mode_rank (field_Mode f'))) \<and>
        (\<forall>q \<in> set (pm_Quotas m). quota_limit q = zero_limit \<or>
           (\<exists>q' \<in> set (pm_Quotas m'). quota_Key q' = quota_Key q \<and> limit_le (quota_limit q) (quota_limit q')))"
    using m' by blast
qed

lemma keeps_iff: "readable a \<Longrightarrow> readable b \<Longrightarrow> keeps a b \<longleftrightarrow> terms_le a b"
  using keeps_imp_rank keeps_imp_limit terms_le_imp_keeps by (metis keeps_def terms_le_def)

lemma quota_keys: "fst ` set (quota_names t) = fst ` set (quota_values t)"
  by (force simp: quota_names_def quota_values_def)

lemma quota_impact_fields [simp]:
  "qi_Before (quota_impact n x y) = x" "qi_After (quota_impact n x y) = y"
  by (simp_all add: quota_impact_def)

lemma QuotaChanges_set:
  "set (QuotaChanges a b) = {quota_impact (lookup ([], []) (quota_names a @ quota_names b) k) (limit_of a k) (limit_of b k) |k.
     limit_of a k \<noteq> limit_of b k}"
proof -
  have keys: "set (sortedKeys (quota_names a @ quota_names b)) = fst ` set (quota_values a) \<union> fst ` set (quota_values b)"
    by (simp add: sortedKeys_def image_Un quota_keys)
  have "k \<in> fst ` set (quota_values a) \<union> fst ` set (quota_values b)" if "limit_of a k \<noteq> limit_of b k" for k
    using that lookup_absent [of k "quota_values a" zero_limit] lookup_absent [of k "quota_values b" zero_limit] by (metis UnCI)
  then show ?thesis unfolding QuotaChanges_def Let_def set_filter set_map keys by fastforce
qed

lemma QuotaChanges_iff:
  "(\<exists>q \<in> set (QuotaChanges a b). P (qi_Before q) (qi_After q)) \<longleftrightarrow>
     (\<exists>k. limit_of a k \<noteq> limit_of b k \<and> P (limit_of a k) (limit_of b k))"
  unfolding QuotaChanges_set by fastforce

lemma limit_le_linear: "limit_le x y \<or> limit_le y x"
  unfolding limit_le_def by (meson linear)

lemma limit_neq_le:
  assumes "readable a" "readable b"
  shows "limit_of a k \<noteq> limit_of b k \<and> limit_le (limit_of a k) (limit_of b k) \<longleftrightarrow> \<not> limit_le (limit_of b k) (limit_of a k)"
  using limit_le_antisym [OF limit_of_valid [OF assms(1)] limit_of_valid [OF assms(2)]] limit_le_linear limit_le_refl by metis

lemma goes_down_iff:
  assumes "readable a" "readable b"
  shows "goes_down a b \<longleftrightarrow> \<not> terms_le a b"
proof -
  have "(\<exists>k \<in> set (map fst (features a)). rank_of b k < rank_of a k) \<longleftrightarrow> (\<exists>k. rank_of b k < rank_of a k)"
    using rank_pos_key [of a] rank_nonneg [of b] unfolding set_map by (meson le_less_trans)
  moreover have "(\<exists>q \<in> set (QuotaChanges a b). Less (qi_After q) (qi_Before q)) \<longleftrightarrow>
      (\<exists>k. \<not> limit_le (limit_of a k) (limit_of b k))"
    using QuotaChanges_iff [of a b "\<lambda>x y. Less y x"] unfolding Less_limit_le by (metis limit_le_refl)
  moreover have "(terms_ValidityMode a = ''unlimited'' \<and> terms_ValidityMode b \<noteq> ''unlimited'') \<or>
     (terms_ValidityMode a = ''fixed_days'' \<and> terms_ValidityMode b = ''fixed_days'' \<and>
      terms_ValidityDays b < terms_ValidityDays a) \<longleftrightarrow> \<not> validity_le a b"
    using assms by (auto simp: readable_def validity_ok_def validity_le_def not_le)
  ultimately have "goes_down a b \<longleftrightarrow> (\<exists>k. rank_of b k < rank_of a k) \<or>
      (\<exists>k. \<not> limit_le (limit_of a k) (limit_of b k)) \<or> \<not> validity_le a b" unfolding goes_down_def by blast
  then show ?thesis unfolding terms_le_def by (meson not_le)
qed

lemma goes_up_iff:
  assumes "readable a" "readable b"
  shows "goes_up a b \<longleftrightarrow> \<not> terms_le b a"
proof -
  have "(\<exists>k \<in> set (map fst (features a)). rank_of b k > rank_of a k) \<or>
      (\<exists>k \<in> set (map fst (features b)). rank_of b k > rank_of a k) \<longleftrightarrow> (\<exists>k. rank_of a k < rank_of b k)"
    using rank_pos_key [of b] rank_nonneg [of a] unfolding set_map by (meson le_less_trans)
  moreover have "(\<exists>q \<in> set (QuotaChanges a b). \<not> Less (qi_After q) (qi_Before q)) \<longleftrightarrow>
      (\<exists>k. \<not> limit_le (limit_of b k) (limit_of a k))"
    using QuotaChanges_iff [of a b "\<lambda>x y. \<not> Less y x"] limit_neq_le [OF assms] unfolding Less_limit_le by blast
  moreover have "(terms_ValidityMode a \<noteq> ''unlimited'' \<and> terms_ValidityMode b = ''unlimited'') \<or>
     (terms_ValidityMode a = ''fixed_days'' \<and> terms_ValidityMode b = ''fixed_days'' \<and>
      terms_ValidityDays b > terms_ValidityDays a) \<longleftrightarrow> \<not> validity_le b a"
    using assms by (auto simp: readable_def validity_ok_def validity_le_def not_le)
  ultimately have "goes_up a b \<longleftrightarrow> (\<exists>k. rank_of a k < rank_of b k) \<or>
      (\<exists>k. \<not> limit_le (limit_of b k) (limit_of a k)) \<or> \<not> validity_le b a" unfolding goes_up_def by blast
  then show ?thesis unfolding terms_le_def by (meson not_le)
qed

lemma Classify_keeps:
  "readable a \<Longrightarrow> readable b \<Longrightarrow>
     Classify a b = (if \<not> keeps a b then ''DOWNGRADE'' else if \<not> keeps b a then ''UPGRADE'' else ''SAME_TIER'')"
  by (simp add: Classify_def goes_down_iff goes_up_iff keeps_iff)

lemma validity_le_trans:
  "readable a \<Longrightarrow> readable b \<Longrightarrow> validity_le a b \<Longrightarrow> validity_le b c \<Longrightarrow> validity_le a c"
  by (simp add: validity_le_def readable_def validity_ok_def split: if_splits) (meson order.trans)+

lemma limit_le_trans: "limit_le x y \<Longrightarrow> limit_le y z \<Longrightarrow> limit_le x z"
  unfolding limit_le_def by (meson order.trans)

lemma terms_le_trans: "readable a \<Longrightarrow> readable b \<Longrightarrow> terms_le a b \<Longrightarrow> terms_le b c \<Longrightarrow> terms_le a c"
  unfolding terms_le_def using validity_le_trans limit_le_trans by (meson order.trans)

section \<open>Live sources decide\<close>

text \<open>The decisions of a resolution depend on the active sources only.\<close>

definition live :: "Source list \<Rightarrow> time \<Rightarrow> Source list" where
  "live ss at = filter (\<lambda>s. Source_Active s at) ss"

lemma active_live [simp]: "active (live ss at) at = active ss at"
  by (intro ext) (auto simp: active_def live_def)

lemma quota_sources_live [simp]: "quota_sources (live ss at) at = quota_sources ss at"
  by (intro ext) (auto simp: quota_sources_def live_def intro: filter_cong)

lemma reason_live [simp]:
  "capDenial (live ss at) at = capDenial ss at" "local_reason (live ss at) at = local_reason ss at"
proof -
  show cap: "capDenial (live ss at) at = capDenial ss at" by (intro ext) (simp only: capDenial_def active_live)
  show "local_reason (live ss at) at = local_reason ss at"
    by (intro ext) (simp only: local_reason_def active_live cap)
qed

lemma entitled_local:
  assumes "entitled c ss at code" "local_reason ss at = local_reason ss' at"
  shows "entitled c ss' at code"
  using assms(1)
proof (induction rule: entitled.induct)
  case (entitledI code m)
  then show ?case using assms(2) by (intro entitled.entitledI [of _ _ m]) auto
qed

lemma reason_ref_live [simp]: "reason_ref c (live ss at) at = reason_ref c ss at"
proof -
  have "entitled c (live ss at) at code \<longleftrightarrow> entitled c ss at code" for code
    using entitled_local [of c _ at code] reason_live(2) by metis
  then show ?thesis by (intro ext) (simp add: reason_ref_def split: option.split)
qed

lemma plain_decisions_live: "plain_decisions (live ss at) at m reason = plain_decisions ss at m reason"
proof -
  have "capability_decision (live ss at) at = capability_decision ss at"
    "quota_decision (live ss at) at = quota_decision ss at" "field_decision (live ss at) at = field_decision ss at"
    by (intro ext, simp add: capability_decision_def capability_reason_def quota_decision_def field_decision_def field_reason_def)+
  then show ?thesis by (simp add: plain_decisions_def)
qed

lemma Resolve_live:
  assumes "Resolve tenant revision at c ss requested = Some (Inr r)" "Resolve tenant revision' at c ss' requested = Some (Inr r')"
    and "live ss at = live ss' at"
  shows "map plain (res_Decisions r) = map plain (res_Decisions r')"
proof -
  have eq: "live (ordered_sources ss) at = live (ordered_sources ss') at"
    using assms(3) by (simp add: live_def ordered_sources_def filter_sort)
  have "plain_decisions (ordered_sources ss) at m reason = plain_decisions (ordered_sources ss') at m reason"
    "reason_ref c (ordered_sources ss) at code = reason_ref c (ordered_sources ss') at code" for m reason code
    using plain_decisions_live reason_ref_live eq by metis+
  then show ?thesis unfolding Resolve_success(10) [OF assms(1)] Resolve_success(10) [OF assms(2)] by simp
qed

section \<open>Projection of the sources\<close>

definition revoked :: "time \<Rightarrow> Source \<Rightarrow> Source" where
  "revoked at v =
     (if src_SourceKind v = PlanSource \<and> src_RevokedAt v = None
      then v\<lparr>src_RevokedAt := Some at, src_Version := src_Version v + 1\<rparr> else v)"

lemma revoke_live_Inr:
  "revoke_live at vs = Inr out \<longleftrightarrow> out = map (revoked at) vs \<and>
     (\<forall>v \<in> set vs. src_SourceKind v = PlanSource \<longrightarrow> src_RevokedAt v = None \<longrightarrow>
        src_EffectiveAt v \<le> at \<and> src_Version v \<noteq> MaxUint64)"
  by (induction vs arbitrary: out) (auto simp: revoked_def)

lemma ProjectSources_Inr:
  "ProjectSources s old target sources cid at end = Inr out \<longleftrightarrow>
     ValidateCurrentSources s old sources = None \<and>
     (\<forall>v \<in> set sources. src_SourceKind v = PlanSource \<longrightarrow> src_RevokedAt v = None \<longrightarrow>
        src_EffectiveAt v \<le> at \<and> src_Version v \<noteq> MaxUint64) \<and>
     out = map (revoked at) sources @ new_sources (sub_TenantID s) cid at end (ver_Terms target)"
  by (auto simp: ProjectSources_def revoke_live_Inr split: option.splits)

lemma revoked_inactive:
  assumes "src_SourceKind v = PlanSource" "at \<le> now" "\<And>r. src_RevokedAt v = Some r \<Longrightarrow> r \<le> at"
  shows "\<not> Source_Active (revoked at v) now"
  using assms by (cases "src_RevokedAt v") (auto simp: revoked_def Source_Active_iff)

lemma live_revoked:
  assumes "at \<le> now" "\<forall>v \<in> set vs. \<forall>r. src_SourceKind v = PlanSource \<longrightarrow> src_RevokedAt v = Some r \<longrightarrow> r \<le> at"
  shows "live (map (revoked at) vs) now = live (filter (\<lambda>v. src_SourceKind v \<noteq> PlanSource) vs) now"
  using assms(2)
proof (induction vs)
  case (Cons v vs)
  then show ?case
  proof (cases "src_SourceKind v = PlanSource")
    case True
    then have "\<not> Source_Active (revoked at v) now" using Cons.prems assms(1) by (intro revoked_inactive) auto
    with True Cons show ?thesis by (simp add: live_def)
  next
    case False
    then have "revoked at v = v" by (simp add: revoked_def)
    with False Cons show ?thesis by (simp add: live_def)
  qed
qed (simp add: live_def)

lemma live_append: "live (xs @ ys) at = live xs at @ live ys at"
  by (simp add: live_def)

section \<open>Current sources\<close>

definition planned :: "(string \<rightharpoonup> Source) \<Rightarrow> Source list \<Rightarrow> Source list" where
  "planned expected vs = filter (\<lambda>v. src_SourceKind v = PlanSource \<and> expected (src_ID v) \<noteq> None) vs"

definition current_ok :: "Subscription \<Rightarrow> (string \<rightharpoonup> Source) \<Rightarrow> Source \<Rightarrow> bool" where
  "current_ok s expected v \<longleftrightarrow> src_SourceKind v = PlanSource \<longrightarrow>
     (case expected (src_ID v) of None \<Rightarrow> src_RevokedAt v \<noteq> None | Some x \<Rightarrow> \<not> altered s v x)"

lemma check_current_Inr:
  "check_current s expected seen vs = Inr seen' \<Longrightarrow>
     seen' = rev (map src_ID (planned expected vs)) @ seen \<and> (distinct seen \<longrightarrow> distinct seen') \<and>
     (\<forall>v \<in> set vs. current_ok s expected v)"
proof (induction vs arbitrary: seen)
  case (Cons v vs)
  show ?case
  proof (cases "src_SourceKind v = PlanSource")
    case False
    with Cons show ?thesis by (simp add: planned_def current_ok_def)
  next
    case plan: True
    show ?thesis
    proof (cases "expected (src_ID v)")
      case None
      with plan Cons.prems have "src_RevokedAt v \<noteq> None" "check_current s expected seen vs = Inr seen'"
        by (auto split: if_splits)
      with plan None Cons.IH show ?thesis by (simp add: planned_def current_ok_def)
    next
      case (Some x)
      with plan Cons.prems have step: "src_ID v \<notin> set seen" "\<not> altered s v x"
        "check_current s expected (src_ID v # seen) vs = Inr seen'" by (auto split: if_splits)
      have p: "planned expected (v # vs) = v # planned expected vs" using plan Some by (simp add: planned_def)
      have "current_ok s expected v" using Some step(2) by (simp add: current_ok_def)
      moreover have "distinct (src_ID v # seen)" if "distinct seen" using that step(1) by simp
      ultimately show ?thesis using Cons.IH [OF step(3)] unfolding p by (metis list.simps(9) rev.simps(2) append_Cons
        append_Nil append_assoc set_ConsD)
    qed
  qed
qed (simp add: planned_def)

lemma ValidateCurrentSources_None:
  assumes "ValidateCurrentSources s p sources = None"
  defines "expected \<equiv> map_of (rev (map (\<lambda>v. (src_ID v, v)) (expected_sources s p)))"
  shows "\<forall>v \<in> set sources. current_ok s expected v"
    "set (map src_ID (planned expected sources)) = src_ID ` set (expected_sources s p)"
    "distinct (map src_ID (planned expected sources))"
proof -
  let ?n = "length (remdups (map fst (map (\<lambda>v. (src_ID v, v)) (expected_sources s p))))"
  obtain seen where seen: "check_current s expected [] sources = Inr seen" "length seen = ?n"
    using assms by (auto simp: ValidateCurrentSources_def Let_def split: sum.splits if_splits)
  from check_current_Inr [OF seen(1)] have c: "seen = rev (map src_ID (planned expected sources))" "distinct seen"
    "\<forall>v \<in> set sources. current_ok s expected v" by auto
  show "\<forall>v \<in> set sources. current_ok s expected v" by (rule c(3))
  show d: "distinct (map src_ID (planned expected sources))" using c(1,2) by simp
  have dom: "expected i \<noteq> None \<longleftrightarrow> i \<in> src_ID ` set (expected_sources s p)" for i
    by (force simp: expected_def map_of_eq_None_iff image_image)
  have "set (map src_ID (planned expected sources)) \<subseteq> src_ID ` set (expected_sources s p)"
    unfolding planned_def using dom by auto
  moreover have "card (set (map src_ID (planned expected sources))) = length seen"
    using distinct_card [OF d] by (simp add: c(1))
  moreover have "length seen = card (src_ID ` set (expected_sources s p))"
    unfolding seen(2) by (simp add: length_remdups_card_conv comp_def image_image)
  ultimately show "set (map src_ID (planned expected sources)) = src_ID ` set (expected_sources s p)"
    by (intro card_subset_eq) simp_all
qed

section \<open>A concrete change\<close>

definition ex_small :: Terms where
  "ex_small = ex_terms\<lparr>terms_Modules := [\<lparr>pm_Code = ''crm'', pm_Capabilities = [''crm.write''], pm_Quotas = [], pm_Fields = []\<rparr>]\<rparr>"

definition ex_large :: Terms where
  "ex_large = ex_terms\<lparr>terms_Modules := [\<lparr>pm_Code = ''crm'', pm_Capabilities = [''crm.read'', ''crm.write''],
     pm_Quotas = [\<lparr>quota_Key = ''seats'', quota_Unlimited = True, quota_Value = 0\<rparr>],
     pm_Fields = [\<lparr>field_Key = ''phone'', field_Action = ''read'', field_Mode = ''allow''\<rparr>]\<rparr>]\<rparr>"

lemma ex_change_terms_ok: "Terms_Validate ex_small ex_plan_catalog = None" "Terms_Validate ex_large ex_plan_catalog = None"
  by code_simp+

lemma ex_new_ids:
  "SourceID ''n2'' ''crm'' ''module'' ''crm'' '''' = ''plan-9c86e032cdf177f9d046a243''"
  "SourceID ''n2'' ''crm'' ''capability'' ''crm.write'' '''' = ''plan-d37613c6bb30eeb591c239af''"
  by code_simp+

definition ex_version :: "Terms \<Rightarrow> Version" where
  "ex_version t = \<lparr>ver_PlanCode = ''basic'', ver_Number = 1, ver_Revision = 1, ver_PlanRevision = 1, ver_State = Plan_Published,
     ver_Name = ''Basic'', ver_Terms = t, ver_ContentSHA256 = '''', ver_CreatedAt = ex_activation, ver_PublishedAt = Some ex_activation,
     ver_RetiredAt = None, ver_ActorID = ''admin'', ver_Reason = ''''\<rparr>"

definition ex_subscription :: Subscription where
  "ex_subscription = zero_Subscription\<lparr>sub_Revision := 1, sub_PeriodStart := ex_activation,
     sub_PeriodEnd := Some (ex_activation + 30 * Day), sub_SourceNamespace := ''ns'', sub_ID := ''sub-1'', sub_TenantID := ''t1'',
     sub_Kind := KindBase, sub_State := StateActive, sub_PlanCode := ''basic'', sub_PlanVersion := 1,
     sub_RuleID := ''default'', sub_RuleVersion := 1, sub_SalesScope := ''*'', sub_EntitlementSourceVersion := 1,
     sub_CreatedAt := ex_activation, sub_MatchExplanation := ''rule''\<rparr>"

definition ex_plan_source :: "string \<Rightarrow> string \<Rightarrow> time \<Rightarrow> time \<Rightarrow> string \<Rightarrow> string \<Rightarrow> string \<Rightarrow> string \<Rightarrow> uint64 \<Rightarrow> Source" where
  "ex_plan_source i ns at e kind key action effect n =
     \<lparr>src_ID = i, src_TenantID = ''t1'', src_SourceKind = PlanSource, src_ModuleCode = ''crm'', src_Kind = kind, src_Key = key,
      src_Action = action, src_Effect = effect, src_Limit = \<lparr>Unlimited = False, Value = n\<rparr>, src_EffectiveAt = at,
      src_ExpiresAt = Some e, src_RevokedAt = None, src_Reason = ''base subscription '' @ ns,
      src_ActorID = ''system:subscription'', src_Version = 1\<rparr>"

definition ex_current :: "Source list" where
  "ex_current =
     [ex_plan_source ''plan-c0bb535f721a153e2ac8a0b1'' ''ns'' ex_activation (ex_activation + 30 * Day) ''module'' ''crm'' '''' ''grant'' 0,
      ex_plan_source ''plan-2ffc674631914b5a1c081a39'' ''ns'' ex_activation (ex_activation + 30 * Day) ''capability'' ''crm.read'' '''' ''grant'' 0,
      ex_plan_source ''plan-c068bce78e67571cdd459ba7'' ''ns'' ex_activation (ex_activation + 30 * Day) ''quota'' ''seats'' '''' ''quota_replace'' 10,
      ex_plan_source ''plan-2babe66110b24f3dd28d200b'' ''ns'' ex_activation (ex_activation + 30 * Day) ''field'' ''phone'' ''read'' ''safety_mask'' 0]"

lemma ex_expected: "expected_sources ex_subscription (ex_version ex_terms) = ex_current"
  by (simp add: expected_sources_def ex_subscription_def ex_version_def ex_current_def ex_plan_source_def Sources_def
      module_sources_def plan_source_def ex_terms_def ex_source_ids quota_limit_def field_effect_def zero_limit_def)

lemma ex_current_ok: "ValidateCurrentSources ex_subscription (ex_version ex_terms) ex_current = None"
proof -
  have "check_current ex_subscription (map_of (rev (map (\<lambda>v. (src_ID v, v)) ex_current))) [] ex_current =
      Inr (rev (map src_ID ex_current))" "length (remdups (map src_ID ex_current)) = length ex_current"
    by code_simp+
  then show ?thesis by (simp add: ValidateCurrentSources_def ex_expected comp_def) (simp add: ex_current_def)
qed

definition ex_change_at :: time where "ex_change_at = ex_activation + 10 * Day"

definition ex_added :: "Source list" where
  "ex_added = new_sources ''t1'' ''n2'' ex_change_at (Some (ex_change_at + 30 * Day)) ex_small"

lemma ex_project: "ProjectSources ex_subscription (ex_version ex_terms) (ex_version ex_small) ex_current ''n2'' ex_change_at
    (Some (ex_change_at + 30 * Day)) = Inr (map (revoked ex_change_at) ex_current @ ex_added)"
proof -
  have "ex_activation \<le> ex_change_at" by code_simp
  then have "\<forall>v \<in> set ex_current. src_EffectiveAt v \<le> ex_change_at \<and> src_Version v \<noteq> MaxUint64"
    by (simp add: ex_current_def ex_plan_source_def)
  moreover have "ver_Terms (ex_version ex_small) = ex_small" "sub_TenantID ex_subscription = ''t1''"
    by (simp_all add: ex_version_def ex_subscription_def)
  ultimately show ?thesis unfolding ProjectSources_Inr ex_added_def using ex_current_ok by simp
qed

lemma ex_added_list: "ex_added =
     [ex_plan_source (SourceID ''n2'' ''crm'' ''module'' ''crm'' '''') ''n2'' ex_change_at (ex_change_at + 30 * Day) ''module'' ''crm'' '''' ''grant'' 0,
      ex_plan_source (SourceID ''n2'' ''crm'' ''capability'' ''crm.write'' '''') ''n2'' ex_change_at (ex_change_at + 30 * Day)
        ''capability'' ''crm.write'' '''' ''grant'' 0]"
  by (simp add: ex_added_def new_sources_def ex_plan_source_def Sources_def module_sources_def plan_source_def ex_small_def
      ex_terms_def quota_limit_def zero_limit_def)

lemma ex_change_resolves:
  "\<exists>r. Resolve ''t1'' 8 (ex_change_at + Day) (entitlement_catalog ex_plan_catalog) (map (revoked ex_change_at) ex_current @ ex_added) [] = Some (Inr r)"
  "\<exists>r. Resolve ''t1'' 8 (ex_change_at + Day) (entitlement_catalog ex_plan_catalog) ex_added [] = Some (Inr r)"
proof -
  let ?all = "map (revoked ex_change_at) ex_current @ ex_added"
  have z: "\<not> IsZero (ex_change_at + Day)" by code_simp
  have "list_all (\<lambda>s. src_TenantID s = ''t1'' \<and> Source_Validate s (entitlement_catalog ex_plan_catalog) = None) ?all"
    "distinct (map identity ?all)"
    unfolding ex_added_list ex_new_ids by code_simp+
  then have ok: "\<forall>s \<in> set ?all. src_TenantID s = ''t1'' \<and> Source_Validate s (entitlement_catalog ex_plan_catalog) = None"
    "distinct (map identity ?all)" by (simp_all add: list_all_iff)
  show "\<exists>r. Resolve ''t1'' 8 (ex_change_at + Day) (entitlement_catalog ex_plan_catalog) ?all [] = Some (Inr r)"
    by (rule Resolve_succeeds [OF _ z ex_plan_ok(1) ok]) simp_all
  show "\<exists>r. Resolve ''t1'' 8 (ex_change_at + Day) (entitlement_catalog ex_plan_catalog) ex_added [] = Some (Inr r)"
    using ok by (intro Resolve_succeeds [OF _ z ex_plan_ok(1)]) simp_all
qed

section \<open>Properties\<close>

text \<open>
  C10: A plan change takes over completely. When the projection of a change at an instant succeeds
  and earlier generations of plan sources were revoked by then, every resolution from that instant
  on gives, decision by decision, the same module, capability, quota and field outcomes as if the
  tenant had only the sources of the new plan and its untouched overrides and add-ons: nothing of
  the old plan remains and nothing else is lost.
\<close>

theorem change_takes_over:
  assumes "ProjectSources s old target sources cid at end = Inr out"
    and "\<forall>v \<in> set sources. \<forall>r. src_SourceKind v = PlanSource \<longrightarrow> src_RevokedAt v = Some r \<longrightarrow> r \<le> at"
    and "at \<le> now"
    and "Resolve tenant revision now c out requested = Some (Inr res)"
    and "Resolve tenant revision now c (filter (\<lambda>v. src_SourceKind v \<noteq> PlanSource) sources @
      new_sources (sub_TenantID s) cid at end (ver_Terms target)) requested = Some (Inr res')"
  shows "map plain (res_Decisions res) = map plain (res_Decisions res')"
proof (rule Resolve_live [OF assms(4,5)])
  have "out = map (revoked at) sources @ new_sources (sub_TenantID s) cid at end (ver_Terms target)"
    using assms(1) by (simp add: ProjectSources_Inr)
  then show "live out now = live (filter (\<lambda>v. src_SourceKind v \<noteq> PlanSource) sources @
      new_sources (sub_TenantID s) cid at end (ver_Terms target)) now"
    using live_revoked [OF assms(3,2)] by (simp add: live_append)
qed

lemma change_takes_over_witness:
  "\<exists>r r'. Resolve ''t1'' 8 (ex_change_at + Day) (entitlement_catalog ex_plan_catalog)
     (map (revoked ex_change_at) ex_current @ ex_added) [] = Some (Inr r) \<and>
   Resolve ''t1'' 8 (ex_change_at + Day) (entitlement_catalog ex_plan_catalog) ex_added [] = Some (Inr r') \<and>
   map plain (res_Decisions r) = map plain (res_Decisions r')"
proof -
  obtain r r' where r: "Resolve ''t1'' 8 (ex_change_at + Day) (entitlement_catalog ex_plan_catalog)
      (map (revoked ex_change_at) ex_current @ ex_added) [] = Some (Inr r)"
    "Resolve ''t1'' 8 (ex_change_at + Day) (entitlement_catalog ex_plan_catalog) ex_added [] = Some (Inr r')"
    using ex_change_resolves by blast
  have n: "\<forall>v \<in> set ex_current. \<forall>r. src_SourceKind v = PlanSource \<longrightarrow> src_RevokedAt v = Some r \<longrightarrow> r \<le> ex_change_at"
    "filter (\<lambda>v. src_SourceKind v \<noteq> PlanSource) ex_current = []"
    by (simp_all add: ex_current_def ex_plan_source_def)
  have t: "ver_Terms (ex_version ex_small) = ex_small" "sub_TenantID ex_subscription = ''t1''" "ex_change_at \<le> ex_change_at + Day"
    by (simp_all add: ex_version_def ex_subscription_def duration_defs)
  have "map plain (res_Decisions r) = map plain (res_Decisions r')"
    by (rule change_takes_over [OF ex_project n(1) t(3) r(1)]) (use r(2) in \<open>simp add: n t ex_added_def\<close>)
  with r show ?thesis by blast
qed

text \<open>
  The classification of a change is exact. For two validated terms, a change is a downgrade
  exactly when something is taken away (a module, a capability, an opener field mode, a higher
  quota or a longer validity), an upgrade exactly when nothing is taken away but the way back
  would, and of the same tier when neither direction takes anything away.
\<close>

lemma change_classification:
  assumes "Terms_Validate a c = None" "Terms_Validate b c' = None"
  shows "(Classify a b = ''DOWNGRADE'' \<longleftrightarrow> \<not> keeps a b) \<and>
    (Classify a b = ''UPGRADE'' \<longleftrightarrow> keeps a b \<and> \<not> keeps b a) \<and>
    (Classify a b = ''SAME_TIER'' \<longleftrightarrow> keeps a b \<and> keeps b a)"
  using Classify_keeps [of a b] terms_wf_readable assms by (auto simp: Terms_Validate_None)

lemma change_classification_witness:
  "keeps ex_terms ex_large \<and> \<not> keeps ex_large ex_terms \<and> \<not> keeps ex_terms ex_small"
proof -
  have cl: "Classify ex_terms ex_large = ''UPGRADE''" "Classify ex_terms ex_small = ''DOWNGRADE''" by code_simp+
  show ?thesis
    using change_classification [OF ex_plan_ok(2) ex_change_terms_ok(2)] change_classification [OF ex_plan_ok(2) ex_change_terms_ok(1)] cl
    by simp
qed

text \<open>
  The live plan authority is complete and unaltered when the check accepts it: for every source
  the plan version materialises there is exactly one stored plan source with its identifier, it has
  the same tenant, module, key, effect, limit and period, and every other plan source is revoked.
\<close>

lemma change_current_complete:
  assumes "ValidateCurrentSources s p sources = None" "x \<in> set (expected_sources s p)"
    and "distinct (map src_ID (expected_sources s p))"
  shows "(\<exists>!v. v \<in> set sources \<and> src_SourceKind v = PlanSource \<and> src_ID v = src_ID x) \<and>
    (\<forall>v \<in> set sources. src_SourceKind v = PlanSource \<and> src_ID v = src_ID x \<longrightarrow> \<not> altered s v x) \<and>
    (\<forall>v \<in> set sources. src_SourceKind v = PlanSource \<and> src_ID v \<notin> src_ID ` set (expected_sources s p) \<longrightarrow>
       src_RevokedAt v \<noteq> None)"
proof -
  let ?e = "map_of (rev (map (\<lambda>v. (src_ID v, v)) (expected_sources s p)))"
  note v = ValidateCurrentSources_None [OF assms(1)]
  have x: "?e (src_ID x) = Some x"
    using assms(2,3) by (intro map_of_is_SomeI) (simp_all add: rev_map [symmetric] comp_def image_iff)
  have none: "?e i = None" if "i \<notin> src_ID ` set (expected_sources s p)" for i
    using that by (auto simp: map_of_eq_None_iff)
  have mem: "u \<in> set (planned ?e sources)" if "u \<in> set sources" "src_SourceKind u = PlanSource" "src_ID u = src_ID x" for u
    using that x by (simp add: planned_def)
  have "src_ID x \<in> set (map src_ID (planned ?e sources))" unfolding v(2) using assms(2) by blast
  then obtain u where u: "u \<in> set sources" "src_SourceKind u = PlanSource" "src_ID u = src_ID x"
    by (auto simp: planned_def)
  have inj: "inj_on src_ID (set (planned ?e sources))" using v(3) by (simp add: distinct_map)
  have uniq: "u' = u" if "u' \<in> set sources" "src_SourceKind u' = PlanSource" "src_ID u' = src_ID x" for u'
    using inj_onD [OF inj, of u' u] mem [OF that] mem [OF u] that u by simp
  have "\<not> altered s u' x" if "u' \<in> set sources" "src_SourceKind u' = PlanSource" "src_ID u' = src_ID x" for u'
    using v(1) that x by (auto simp: current_ok_def)
  moreover have "src_RevokedAt u' \<noteq> None"
    if "u' \<in> set sources" "src_SourceKind u' = PlanSource" "src_ID u' \<notin> src_ID ` set (expected_sources s p)" for u'
    using v(1) that(1,2) none [OF that(3)] by (auto simp: current_ok_def)
  ultimately show ?thesis using u uniq by blast
qed

lemma change_current_complete_witness:
  "\<not> altered ex_subscription (hd ex_current) (hd ex_current)"
proof -
  have d: "distinct (map src_ID ex_current)" by code_simp
  have h: "hd ex_current \<in> set ex_current" "src_SourceKind (hd ex_current) = PlanSource"
    by (simp_all add: ex_current_def ex_plan_source_def)
  show ?thesis using change_current_complete [OF ex_current_ok, unfolded ex_expected, OF h(1) d] h by blast
qed

section \<open>Periods and quota reports\<close>

lemma AddDays_mono: "s \<le> t \<Longrightarrow> AddDays s n \<le> AddDays t n"
  by (simp add: AddDays_def)

lemma days_positive: "validity_ok t \<Longrightarrow> terms_ValidityMode t = ''fixed_days'' \<Longrightarrow> 0 < uint (terms_ValidityDays t)"
  by (auto simp: validity_ok_def word_le_def)

lemma period_start_Inr:
  assumes "period_start i before cls now = Inr (mode, at)"
  shows "now \<le> at" "mode = (if now < at then Scheduled else Immediate)"
    "in_EffectiveAt i = Some e \<Longrightarrow> at = e"
    "in_EffectiveAt i = None \<Longrightarrow> in_Action i = Switch \<Longrightarrow> cls = ''DOWNGRADE'' \<Longrightarrow>
       \<exists>e. sub_PeriodEnd before = Some e \<and> at = max e now"
    "in_EffectiveAt i = None \<Longrightarrow> \<not> (in_Action i = Switch \<and> cls = ''DOWNGRADE'') \<Longrightarrow> at = now"
  using assms by (auto simp: period_start_def split: option.splits if_splits)

text \<open>
  The period of a change is sound. A successful \<open>Period\<close> never starts in the past, is
  immediate exactly when it starts now, honours a requested instant, puts a plain downgrade at the
  end of the paid period, and (for terms with a valid validity) opens a period that ends after its
  start. A renewal never shortens the running period: it ends at least the days of the target
  after both the running end and the start.
\<close>

lemma change_period_sound:
  assumes "Period i before cls now target = Inr (mode, at, end)" "validity_ok target" "in_Action i \<noteq> StopRenewal"
  shows "now \<le> at \<and> mode = (if now < at then Scheduled else Immediate) \<and>
    (\<forall>e. in_EffectiveAt i = Some e \<longrightarrow> at = e) \<and>
    (in_EffectiveAt i = None \<and> in_Action i = Switch \<and> cls = ''DOWNGRADE'' \<longrightarrow>
       (\<exists>e. sub_PeriodEnd before = Some e \<and> at = max e now)) \<and>
    (\<forall>e. end = Some e \<longrightarrow> at < e) \<and>
    (end = None \<longleftrightarrow> terms_ValidityMode target = ''unlimited'') \<and>
    (in_Action i = Renew \<longrightarrow> (\<exists>old e. sub_PeriodEnd before = Some old \<and> end = Some e \<and>
       e = AddDays (max old at) (uint (terms_ValidityDays target)) \<and> old < e))"
proof -
  from assms(1,3) obtain mode' at' where st: "period_start i before cls now = Inr (mode', at')"
    by (auto simp: Period_def split: sum.splits)
  then have eq: "mode' = mode" "at' = at"
    using assms(1,3) by (auto simp: Period_def Let_def split: if_splits option.splits)
  note p = period_start_Inr [OF st [unfolded eq]]
  have u: "terms_ValidityMode target \<noteq> ''fixed_days'' \<longleftrightarrow> terms_ValidityMode target = ''unlimited''"
    using assms(2) by (auto simp: validity_ok_def)
  have after: "terms_ValidityMode target = ''fixed_days'' \<Longrightarrow> t < AddDays t (uint (terms_ValidityDays target))" for t
    using days_positive [OF assms(2)] AddDays_after by blast
  show ?thesis
  proof (cases "in_Action i = Renew")
    case True
    then obtain old where old: "sub_PeriodEnd before = Some old" "terms_ValidityMode target = ''fixed_days''"
      "end = Some (AddDays (max old at) (uint (terms_ValidityDays target)))"
      using assms(1,3) st eq by (auto simp: Period_def Let_def max_def split: if_splits option.splits)
    have "max old at < AddDays (max old at) (uint (terms_ValidityDays target))" by (rule after [OF old(2)])
    with p old u True show ?thesis by auto
  next
    case False
    then have "end = (if terms_ValidityMode target = ''fixed_days''
        then Some (AddDays at (uint (terms_ValidityDays target))) else None)"
      using assms(1,3) st eq by (auto simp: Period_def split: if_splits)
    with p u False after [of at] show ?thesis by (auto split: if_splits)
  qed
qed

definition ex_input :: Input where
  "ex_input = \<lparr>in_TenantID = ''t1'', in_RequestID = ''req-1'', in_Action = Renew, in_TargetPlanCode = ''basic'',
     in_TargetPlanVersion = 1, in_SalesScope = '''', in_EffectiveAt = None, in_Reason = ''renewal''\<rparr>"

lemma change_period_sound_witness:
  "\<exists>e. Period ex_input ex_subscription ''SAME_TIER'' ex_change_at ex_terms = Inr (Immediate, ex_change_at, Some e) \<and>
     ex_activation + 30 * Day < e"
proof -
  have p: "Period ex_input ex_subscription ''SAME_TIER'' ex_change_at ex_terms =
      Inr (Immediate, ex_change_at, Some (ex_activation + 60 * Day))" by code_simp
  have "validity_ok ex_terms" "in_Action ex_input = Renew" "sub_PeriodEnd ex_subscription = Some (ex_activation + 30 * Day)" by code_simp+
  then have "ex_activation + 30 * Day < ex_activation + 60 * Day"
    using change_period_sound [OF p] by simp
  with p show ?thesis by blast
qed

text \<open>What a report says of one reduced quota, and whether it must wait.\<close>

definition reported :: "QuotaImpact \<times> QuotaImpact \<Rightarrow> bool" where
  "reported p \<longleftrightarrow> \<not> report_mismatch (fst p) (snd p) \<and>
     (Less (qi_After (snd p)) (qi_Before (snd p)) \<longrightarrow>
        \<not> (qi_UsageKnown (snd p) \<and> qi_Evidence (snd p) = '''') \<and> qi_OverLimit (snd p) = over_limit (snd p))"

definition must_wait :: "QuotaImpact \<Rightarrow> bool" where
  "must_wait q \<longleftrightarrow> Less (qi_After q) (qi_Before q) \<and> (\<not> qi_UsageKnown q \<or> over_limit q)"

lemma check_report_None:
  "check_report mode deferred ps = (d, None) \<longleftrightarrow>
     (\<forall>p \<in> set ps. reported p \<and> (mode = Immediate \<longrightarrow> \<not> must_wait (snd p))) \<and>
     d = (deferred \<or> (\<exists>p \<in> set ps. must_wait (snd p)))"
proof (induction ps arbitrary: deferred)
  case (Cons p ps)
  obtain e q where p: "p = (e, q)" by (cases p)
  show ?case
    using Cons by (cases "must_wait q"; cases "Less (qi_After q) (qi_Before q)")
      (auto simp: p reported_def must_wait_def)
qed auto

text \<open>
  A reduction is only let through on evidence. The quota report is accepted exactly when it
  answers every requested change, entry by entry, each reduction with known usage carries evidence
  and is flagged over the limit exactly when the usage exceeds the new limit; it is deferred
  exactly when some reduction has unknown usage or exceeds the new limit; and in immediate mode
  such a report is refused. An accepted immediate change therefore leaves no tenant above a limit.
\<close>

lemma change_quota_report:
  "CheckQuotaReport requested report mode = (deferred, None) \<longleftrightarrow>
     length requested = length report \<and> (\<forall>p \<in> set (zip requested report). reported p) \<and>
     (deferred \<longleftrightarrow> (\<exists>q \<in> set report. must_wait q)) \<and> (mode = Immediate \<longrightarrow> \<not> deferred)"
proof (cases "length requested = length report")
  case True
  then have s: "(\<exists>p \<in> set (zip requested report). must_wait (snd p)) \<longleftrightarrow> (\<exists>q \<in> set report. must_wait q)"
    by (metis (no_types, lifting) image_iff map_snd_zip set_map)
  show ?thesis using True s by (auto simp: CheckQuotaReport_def check_report_None)
qed (simp add: CheckQuotaReport_def)

lemma change_quota_report_witness:
  "CheckQuotaReport (QuotaChanges ex_terms ex_small) (DefaultQuotaImpacts (QuotaChanges ex_terms ex_small)) Scheduled = (True, None)"
proof -
  have "length (QuotaChanges ex_terms ex_small) = length (DefaultQuotaImpacts (QuotaChanges ex_terms ex_small))"
    "list_all reported (zip (QuotaChanges ex_terms ex_small) (DefaultQuotaImpacts (QuotaChanges ex_terms ex_small)))"
    "list_ex must_wait (DefaultQuotaImpacts (QuotaChanges ex_terms ex_small))" by code_simp+
  then show ?thesis by (simp add: change_quota_report list_all_iff list_ex_iff)
qed

end
