(* ===== verification/Time_Transition.thy ===== *)
theory Time_Transition
  imports Lease
begin

section \<open>Time transitions\<close>

text \<open>
  The package \<open>internal/commercial/domain/timetransition\<close>: the durable task that carries a
  commercial time boundary (a scheduled change, the expiry of an entitlement, the end of a
  subscription period) to the worker that applies it. A method with a pointer receiver returns the
  updated task; an error discards it, as every caller does.
\<close>

subsection \<open>The task\<close>

abbreviation ScheduledChange :: string where "ScheduledChange \<equiv> ''SCHEDULED_CHANGE''"
abbreviation EntitlementExpiry :: string where "EntitlementExpiry \<equiv> ''ENTITLEMENT_EXPIRY''"
abbreviation SubscriptionBoundary :: string where "SubscriptionBoundary \<equiv> ''SUBSCRIPTION_BOUNDARY''"
abbreviation tt_Queued :: string where "tt_Queued \<equiv> ''QUEUED''"
abbreviation tt_Running :: string where "tt_Running \<equiv> ''RUNNING''"
abbreviation tt_Applied :: string where "tt_Applied \<equiv> ''APPLIED''"
abbreviation tt_Superseded :: string where "tt_Superseded \<equiv> ''SUPERSEDED''"
abbreviation tt_ReconcileRequired :: string where "tt_ReconcileRequired \<equiv> ''RECONCILIATION_REQUIRED''"

datatype tt_error =
    TT_ErrInvalid
  | TT_ErrNotFound
  | TT_ErrConflict
  | TT_ErrLease
  | TT_ErrCorrupt

definition tt_Key :: "string \<Rightarrow> bool" where
  "tt_Key v \<longleftrightarrow> key_pattern v"

definition tt_Tenant :: "string \<Rightarrow> bool" where
  "tt_Tenant v \<longleftrightarrow> length v \<le> 64 \<and> tt_Key v"

definition tt_CanonicalTime :: "time \<Rightarrow> time" where
  "tt_CanonicalTime v = Truncate v Microsecond"

definition tt_ID :: "string \<Rightarrow> string \<Rightarrow> string \<Rightarrow> uint64 \<Rightarrow> time \<Rightarrow> string" where
  "tt_ID kind tenant authority version due =
     ''time-'' @ take 48 (Digest (JArr [JStr kind, JStr tenant, JStr authority, JUint version,
       JTime (tt_CanonicalTime due)]))"

record Transition =
  tr_ID :: string
  tr_Kind :: string
  tr_TenantID :: string
  tr_AuthorityID :: string
  tr_AuthorityVersion :: uint64
  tr_DueAt :: time
  tr_BusinessTimezone :: string
  tr_Revision :: uint64
  tr_State :: string
  tr_LeaseOwner :: string
  tr_LeaseToken :: uint64
  tr_LeaseUntil :: "time option"
  tr_Outcome :: string
  tr_CreatedAt :: time
  tr_UpdatedAt :: time
  tr_Hash :: string

definition json_Transition :: "Transition \<Rightarrow> json" where
  "json_Transition t = JObj ([(''transition_id'', JStr (tr_ID t)), (''kind'', JStr (tr_Kind t)),
     (''tenant_id'', JStr (tr_TenantID t)), (''authority_id'', JStr (tr_AuthorityID t)),
     (''authority_version'', JUint (tr_AuthorityVersion t)), (''due_at'', JTime (tr_DueAt t)),
     (''business_timezone'', JStr (tr_BusinessTimezone t)), (''revision'', JUint (tr_Revision t)),
     (''state'', JStr (tr_State t))] @ omit_str ''lease_owner'' (tr_LeaseOwner t) @
     [(''lease_token'', JUint (tr_LeaseToken t))] @ omit_time ''lease_until'' (tr_LeaseUntil t) @
     omit_str ''outcome'' (tr_Outcome t) @
     [(''created_at'', JTime (tr_CreatedAt t)), (''updated_at'', JTime (tr_UpdatedAt t)),
      (''hash'', JStr (tr_Hash t))])"

definition Transition_Seal :: "Transition \<Rightarrow> Transition" where
  "Transition_Seal t = t\<lparr>tr_Hash := Digest (json_Transition (t\<lparr>tr_Hash := ''''\<rparr>))\<rparr>"

definition Transition_Terminal :: "Transition \<Rightarrow> bool" where
  "Transition_Terminal t \<longleftrightarrow>
     tr_State t = tt_Applied \<or> tr_State t = tt_Superseded \<or> tr_State t = tt_ReconcileRequired"

definition Transition_Integrity :: "(string \<Rightarrow> bool) \<Rightarrow> Transition \<Rightarrow> tt_error err" where
  "Transition_Integrity zones t =
     (if \<not> tt_Key (tr_ID t) \<or>
         tr_ID t \<noteq> tt_ID (tr_Kind t) (tr_TenantID t) (tr_AuthorityID t) (tr_AuthorityVersion t) (tr_DueAt t) \<or>
         \<not> tt_Tenant (tr_TenantID t) \<or> \<not> tt_Key (tr_AuthorityID t) \<or> tr_AuthorityVersion t = 0 \<or>
         tr_Revision t = 0 \<or> IsZero (tr_DueAt t) \<or> Location (tr_DueAt t) \<noteq> UTC \<or>
         IsZero (tr_CreatedAt t) \<or> tr_UpdatedAt t < tr_CreatedAt t \<or>
         tr_Hash t \<noteq> tr_Hash (Transition_Seal t) \<or> tr_BusinessTimezone t = '''' \<or>
         length (tr_BusinessTimezone t) > 64 then Some TT_ErrCorrupt
      else if \<not> LoadLocation zones (tr_BusinessTimezone t) then Some TT_ErrCorrupt
      else if tr_Kind t \<notin> {ScheduledChange, EntitlementExpiry, SubscriptionBoundary} then Some TT_ErrCorrupt
      else if tr_State t \<notin> {tt_Queued, tt_Running, tt_Applied, tt_Superseded, tt_ReconcileRequired}
        then Some TT_ErrCorrupt
      else if tr_State t = tt_Running \<and>
         (\<not> tt_Key (tr_LeaseOwner t) \<or> tr_LeaseToken t = 0 \<or>
          \<not> optional (\<lambda>u. u > tr_UpdatedAt t) (tr_LeaseUntil t)) then Some TT_ErrCorrupt
      else if tr_State t \<noteq> tt_Running \<and> (tr_LeaseOwner t \<noteq> '''' \<or> tr_LeaseUntil t \<noteq> None)
        then Some TT_ErrCorrupt
      else if (tr_State t = tt_Applied \<or> tr_State t = tt_Superseded \<or> tr_State t = tt_ReconcileRequired) \<noteq>
         (TrimSpace (tr_Outcome t) \<noteq> '''') then Some TT_ErrCorrupt
      else None)"

text \<open>What every operation ends in: \<open>return t.Integrity()\<close> on the sealed task.\<close>

definition checked :: "(string \<Rightarrow> bool) \<Rightarrow> Transition \<Rightarrow> tt_error + Transition" where
  "checked zones t = (case Transition_Integrity zones t of Some e \<Rightarrow> Inl e | None \<Rightarrow> Inr t)"

definition NewInTimezone ::
  "(string \<Rightarrow> bool) \<Rightarrow> string \<Rightarrow> string \<Rightarrow> string \<Rightarrow> uint64 \<Rightarrow> time \<Rightarrow> time \<Rightarrow> string \<Rightarrow> tt_error + Transition" where
  "NewInTimezone zones kind tenant authority version due now businessTimezone =
     (let due = tt_CanonicalTime due; now = tt_CanonicalTime now in
      if TrimSpace businessTimezone \<noteq> businessTimezone \<or> businessTimezone = '''' \<or> length businessTimezone > 64
        then Inl TT_ErrInvalid
      else if \<not> LoadLocation zones businessTimezone then Inl TT_ErrInvalid
      else checked zones (Transition_Seal
        \<lparr>tr_ID = tt_ID kind tenant authority version due, tr_Kind = kind, tr_TenantID = tenant,
         tr_AuthorityID = authority, tr_AuthorityVersion = version, tr_DueAt = due,
         tr_BusinessTimezone = businessTimezone, tr_Revision = 1, tr_State = tt_Queued,
         tr_LeaseOwner = '''', tr_LeaseToken = 0, tr_LeaseUntil = None, tr_Outcome = '''',
         tr_CreatedAt = now, tr_UpdatedAt = now, tr_Hash = ''''\<rparr>))"

definition Transition_New ::
  "(string \<Rightarrow> bool) \<Rightarrow> string \<Rightarrow> string \<Rightarrow> string \<Rightarrow> uint64 \<Rightarrow> time \<Rightarrow> time \<Rightarrow> tt_error + Transition" where
  "Transition_New zones kind tenant authority version due now =
     NewInTimezone zones kind tenant authority version due now ''UTC''"

definition Transition_Due :: "Transition \<Rightarrow> time \<Rightarrow> bool" where
  "Transition_Due t now =
     (let now = tt_CanonicalTime now in
      if tr_State t = tt_Running then optional (\<lambda>u. \<not> now < u) (tr_LeaseUntil t)
      else tr_State t = tt_Queued \<and> \<not> now < tr_DueAt t)"

definition Transition_Owns :: "Transition \<Rightarrow> string \<Rightarrow> uint64 \<Rightarrow> time \<Rightarrow> bool" where
  "Transition_Owns t owner token now \<longleftrightarrow>
     tr_State t = tt_Running \<and> tr_LeaseOwner t = owner \<and> tr_LeaseToken t = token \<and>
     optional (\<lambda>u. tt_CanonicalTime now < u) (tr_LeaseUntil t)"

definition Transition_Claim ::
  "(string \<Rightarrow> bool) \<Rightarrow> Transition \<Rightarrow> string \<Rightarrow> time \<Rightarrow> duration \<Rightarrow> tt_error + Transition" where
  "Transition_Claim zones t owner now lease =
     (let now = tt_CanonicalTime now in
      if \<not> tt_Key owner \<or> lease < 5 * Second \<or> lease > 5 * Minute \<or> \<not> Transition_Due t now \<or>
         tr_Revision t = MaxUint64 \<or> tr_LeaseToken t = MaxUint64 then Inl TT_ErrConflict
      else checked zones (Transition_Seal
        (t\<lparr>tr_State := tt_Running, tr_LeaseOwner := owner, tr_LeaseToken := tr_LeaseToken t + 1,
           tr_LeaseUntil := Some (tt_CanonicalTime (now + lease)), tr_Revision := tr_Revision t + 1,
           tr_UpdatedAt := now\<rparr>)))"

definition Transition_Finish ::
  "(string \<Rightarrow> bool) \<Rightarrow> Transition \<Rightarrow> string \<Rightarrow> uint64 \<Rightarrow> string \<Rightarrow> string \<Rightarrow> time \<Rightarrow> tt_error + Transition" where
  "Transition_Finish zones t owner token state outcome now =
     (let now = tt_CanonicalTime now in
      if \<not> Transition_Owns t owner token now \<or> TrimSpace outcome = '''' \<or> length outcome > 160 \<or>
         tr_Revision t = MaxUint64 then Inl TT_ErrLease
      else if state \<notin> {tt_Applied, tt_Superseded, tt_ReconcileRequired} then Inl TT_ErrInvalid
      else checked zones (Transition_Seal
        (t\<lparr>tr_State := state, tr_Outcome := TrimSpace outcome, tr_LeaseOwner := '''',
           tr_LeaseUntil := None, tr_Revision := tr_Revision t + 1, tr_UpdatedAt := now\<rparr>)))"

subsection \<open>The seal and the integrity check\<close>

interpretation transition_seal: sealed tr_Hash "\<lambda>h t. t\<lparr>tr_Hash := h\<rparr>" "\<lambda>t. Digest (json_Transition t)" Transition_Seal
  by unfold_locales (simp_all add: Transition_Seal_def)

lemma Transition_Seal_fields [simp]:
  "tr_ID (Transition_Seal t) = tr_ID t" "tr_Kind (Transition_Seal t) = tr_Kind t"
  "tr_TenantID (Transition_Seal t) = tr_TenantID t" "tr_AuthorityID (Transition_Seal t) = tr_AuthorityID t"
  "tr_AuthorityVersion (Transition_Seal t) = tr_AuthorityVersion t" "tr_DueAt (Transition_Seal t) = tr_DueAt t"
  "tr_BusinessTimezone (Transition_Seal t) = tr_BusinessTimezone t" "tr_Revision (Transition_Seal t) = tr_Revision t"
  "tr_State (Transition_Seal t) = tr_State t" "tr_LeaseOwner (Transition_Seal t) = tr_LeaseOwner t"
  "tr_LeaseToken (Transition_Seal t) = tr_LeaseToken t" "tr_LeaseUntil (Transition_Seal t) = tr_LeaseUntil t"
  "tr_Outcome (Transition_Seal t) = tr_Outcome t" "tr_CreatedAt (Transition_Seal t) = tr_CreatedAt t"
  "tr_UpdatedAt (Transition_Seal t) = tr_UpdatedAt t"
  by (simp_all add: Transition_Seal_def)

lemma CanonicalTime_idem [simp]: "tt_CanonicalTime (tt_CanonicalTime t) = tt_CanonicalTime t"
  by (simp add: tt_CanonicalTime_def)

lemma CanonicalTime_seconds: "0 < n \<Longrightarrow> tt_CanonicalTime t < tt_CanonicalTime (tt_CanonicalTime t + n * Second)"
  by (simp add: tt_CanonicalTime_def Truncate_def duration_defs minus_mod_eq_mult_div)

lemma CanonicalTime_lease:
  assumes "5 * Second \<le> lease"
  shows "tt_CanonicalTime t < tt_CanonicalTime (tt_CanonicalTime t + lease)"
proof -
  have "tt_CanonicalTime t < tt_CanonicalTime (tt_CanonicalTime t + 5 * Second)" by (rule CanonicalTime_seconds) simp
  also have "\<dots> \<le> tt_CanonicalTime (tt_CanonicalTime t + lease)"
    unfolding tt_CanonicalTime_def by (rule Truncate_mono) (use assms in simp)
  finally show ?thesis .
qed

text \<open>What the operations never change, and what they do.\<close>

definition identity_ok :: "(string \<Rightarrow> bool) \<Rightarrow> Transition \<Rightarrow> bool" where
  "identity_ok zones t \<longleftrightarrow>
     tt_Key (tr_ID t) \<and>
     tr_ID t = tt_ID (tr_Kind t) (tr_TenantID t) (tr_AuthorityID t) (tr_AuthorityVersion t) (tr_DueAt t) \<and>
     tt_Tenant (tr_TenantID t) \<and> tt_Key (tr_AuthorityID t) \<and> tr_AuthorityVersion t \<noteq> 0 \<and>
     \<not> IsZero (tr_DueAt t) \<and> \<not> IsZero (tr_CreatedAt t) \<and> tr_BusinessTimezone t \<noteq> '''' \<and>
     length (tr_BusinessTimezone t) \<le> 64 \<and> LoadLocation zones (tr_BusinessTimezone t) \<and>
     tr_Kind t \<in> {ScheduledChange, EntitlementExpiry, SubscriptionBoundary}"

definition state_ok :: "Transition \<Rightarrow> bool" where
  "state_ok t \<longleftrightarrow>
     (case tr_State t = tt_Running of
        True \<Rightarrow> tt_Key (tr_LeaseOwner t) \<and> tr_LeaseToken t \<noteq> 0 \<and> optional (\<lambda>u. u > tr_UpdatedAt t) (tr_LeaseUntil t)
      | False \<Rightarrow> tr_LeaseOwner t = '''' \<and> tr_LeaseUntil t = None) \<and>
     tr_State t \<in> {tt_Queued, tt_Running, tt_Applied, tt_Superseded, tt_ReconcileRequired} \<and>
     (Transition_Terminal t \<longleftrightarrow> TrimSpace (tr_Outcome t) \<noteq> '''')"

lemma Integrity_None:
  "Transition_Integrity zones t = None \<longleftrightarrow>
     identity_ok zones t \<and> state_ok t \<and> tr_Revision t \<noteq> 0 \<and> tr_CreatedAt t \<le> tr_UpdatedAt t \<and> Transition_Seal t = t"
proof (cases "tr_State t = tt_Running")
  case True
  then show ?thesis
    by (simp add: Transition_Integrity_def identity_ok_def state_ok_def Transition_Terminal_def Location_def
        transition_seal.verifies_iff [symmetric] linorder_not_less [symmetric] del: not_less) blast
next
  case False
  then show ?thesis
    by (simp add: Transition_Integrity_def identity_ok_def state_ok_def Transition_Terminal_def Location_def
        transition_seal.verifies_iff [symmetric] linorder_not_less [symmetric] del: not_less) blast
qed

lemma checked_Inr [simp]: "checked zones t = Inr t' \<longleftrightarrow> Transition_Integrity zones t = None \<and> t' = t"
  by (auto simp: checked_def split: option.splits)

subsection \<open>The life of a transition\<close>

inductive tr_step :: "(string \<Rightarrow> bool) \<Rightarrow> Transition \<Rightarrow> Transition \<Rightarrow> bool" for zones where
  claim: "Transition_Claim zones t owner now lease = Inr t' \<Longrightarrow> tr_step zones t t'"
| finish: "Transition_Finish zones t owner token state outcome now = Inr t' \<Longrightarrow> tr_step zones t t'"

inductive tr_reachable :: "(string \<Rightarrow> bool) \<Rightarrow> Transition \<Rightarrow> bool" for zones where
  new: "NewInTimezone zones kind tenant authority version due now tz = Inr t \<Longrightarrow> tr_reachable zones t"
| step: "tr_reachable zones t \<Longrightarrow> tr_step zones t t' \<Longrightarrow> tr_reachable zones t'"

inductive_cases tr_stepE: "tr_step zones t t'"

text \<open>The task that a claim and the task that a finish leave behind.\<close>

definition claimed :: "Transition \<Rightarrow> string \<Rightarrow> time \<Rightarrow> duration \<Rightarrow> Transition" where
  "claimed t owner now lease = Transition_Seal
     (t\<lparr>tr_State := tt_Running, tr_LeaseOwner := owner, tr_LeaseToken := tr_LeaseToken t + 1,
        tr_LeaseUntil := Some (tt_CanonicalTime (tt_CanonicalTime now + lease)), tr_Revision := tr_Revision t + 1,
        tr_UpdatedAt := tt_CanonicalTime now\<rparr>)"

definition finished :: "Transition \<Rightarrow> string \<Rightarrow> string \<Rightarrow> time \<Rightarrow> Transition" where
  "finished t state outcome now = Transition_Seal
     (t\<lparr>tr_State := state, tr_Outcome := TrimSpace outcome, tr_LeaseOwner := '''',
        tr_LeaseUntil := None, tr_Revision := tr_Revision t + 1, tr_UpdatedAt := tt_CanonicalTime now\<rparr>)"

lemma Claim_Inr:
  "Transition_Claim zones t owner now lease = Inr t' \<longleftrightarrow>
     tt_Key owner \<and> 5 * Second \<le> lease \<and> lease \<le> 5 * Minute \<and> Transition_Due t now \<and>
     tr_Revision t \<noteq> MaxUint64 \<and> tr_LeaseToken t \<noteq> MaxUint64 \<and> Transition_Integrity zones t' = None \<and>
     t' = claimed t owner now lease"
  by (auto simp: Transition_Claim_def claimed_def Let_def Transition_Due_def)

lemma Finish_Inr:
  "Transition_Finish zones t owner token state outcome now = Inr t' \<longleftrightarrow>
     Transition_Owns t owner token now \<and> TrimSpace outcome \<noteq> '''' \<and> length outcome \<le> 160 \<and>
     tr_Revision t \<noteq> MaxUint64 \<and> state \<in> {tt_Applied, tt_Superseded, tt_ReconcileRequired} \<and>
     Transition_Integrity zones t' = None \<and> t' = finished t state outcome now"
  by (auto simp: Transition_Finish_def finished_def Let_def Transition_Owns_def)

lemma after_fields [simp]:
  "tr_State (claimed t owner now lease) = tt_Running" "tr_LeaseOwner (claimed t owner now lease) = owner"
  "tr_LeaseToken (claimed t owner now lease) = tr_LeaseToken t + 1"
  "tr_LeaseUntil (claimed t owner now lease) = Some (tt_CanonicalTime (tt_CanonicalTime now + lease))"
  "tr_Revision (claimed t owner now lease) = tr_Revision t + 1" "tr_UpdatedAt (claimed t owner now lease) = tt_CanonicalTime now"
  "tr_Outcome (claimed t owner now lease) = tr_Outcome t" "tr_CreatedAt (claimed t owner now lease) = tr_CreatedAt t"
  "tr_DueAt (claimed t owner now lease) = tr_DueAt t"
  "tr_State (finished t state outcome now) = state" "tr_LeaseOwner (finished t state outcome now) = ''''"
  "tr_LeaseUntil (finished t state outcome now) = None" "tr_LeaseToken (finished t state outcome now) = tr_LeaseToken t"
  "tr_Revision (finished t state outcome now) = tr_Revision t + 1" "tr_UpdatedAt (finished t state outcome now) = tt_CanonicalTime now"
  "tr_Outcome (finished t state outcome now) = TrimSpace outcome" "tr_CreatedAt (finished t state outcome now) = tr_CreatedAt t"
  "tr_DueAt (finished t state outcome now) = tr_DueAt t"
  "Transition_Seal (claimed t owner now lease) = claimed t owner now lease"
  "Transition_Seal (finished t state outcome now) = finished t state outcome now"
  by (simp_all add: claimed_def finished_def transition_seal.seal_idem)

lemma after_identity [simp]:
  "identity_ok zones (claimed t owner now lease) \<longleftrightarrow> identity_ok zones t"
  "identity_ok zones (finished t state outcome now) \<longleftrightarrow> identity_ok zones t"
  by (simp_all add: claimed_def finished_def identity_ok_def)

text \<open>
  The invariant: integrity, one revision at least per lease, and no lease before the transition
  is due.
\<close>

definition tr_inv :: "(string \<Rightarrow> bool) \<Rightarrow> Transition \<Rightarrow> bool" where
  "tr_inv zones t \<longleftrightarrow> Transition_Integrity zones t = None \<and> tr_LeaseToken t < tr_Revision t \<and>
     (tr_State t = tt_Running \<longrightarrow> tr_DueAt t \<le> tr_UpdatedAt t)"

lemma Due_not_early:
  assumes "tr_inv zones t" "Transition_Due t now"
  shows "tr_DueAt t \<le> tt_CanonicalTime now"
proof (cases "tr_State t = tt_Running")
  case True
  with assms(1) have "tr_DueAt t \<le> tr_UpdatedAt t" "optional (\<lambda>u. u > tr_UpdatedAt t) (tr_LeaseUntil t)"
    by (simp_all add: tr_inv_def Integrity_None state_ok_def)
  with assms(2) True show ?thesis by (auto simp: Transition_Due_def optional_def split: option.splits)
next
  case False
  with assms(2) show ?thesis by (simp add: Transition_Due_def Let_def)
qed

lemma word_succ_less:
  "a < b \<Longrightarrow> b \<noteq> - 1 \<Longrightarrow> a + 1 < b + (1 :: 'a::len word)" "a < b \<Longrightarrow> b \<noteq> - 1 \<Longrightarrow> a < b + (1 :: 'a::len word)"
proof -
  assume ab: "a < b" and b: "b \<noteq> - 1"
  have lt: "b < b + 1" using b by (rule word_plus_one_gt)
  then show "a < b + 1" using ab by order
  have "a + 1 \<le> b" using ab by (rule inc_le)
  then show "a + 1 < b + 1" using lt by order
qed

lemma tr_step_inv: "tr_step zones t t' \<Longrightarrow> tr_inv zones t \<Longrightarrow> tr_inv zones t'"
proof (erule tr_stepE)
  fix owner now lease
  assume inv: "tr_inv zones t" and c: "Transition_Claim zones t owner now lease = Inr t'"
  then have "tr_DueAt t \<le> tt_CanonicalTime now" by (auto simp: Claim_Inr intro: Due_not_early)
  with inv c show ?thesis by (auto simp: tr_inv_def Claim_Inr word_succ_less)
next
  fix owner token state outcome now
  assume inv: "tr_inv zones t" and f: "Transition_Finish zones t owner token state outcome now = Inr t'"
  then show ?thesis by (auto simp: tr_inv_def Finish_Inr word_succ_less)
qed

lemma tr_inv_new: "NewInTimezone zones kind tenant authority version due now tz = Inr t \<Longrightarrow> tr_inv zones t"
  by (auto simp: tr_inv_def NewInTimezone_def Let_def split: if_splits)

lemma tr_reachable_inv: "tr_reachable zones t \<Longrightarrow> tr_inv zones t"
  by (induction rule: tr_reachable.induct) (auto intro: tr_inv_new tr_step_inv)

lemma terminal_no_tr_step: "Transition_Terminal t \<Longrightarrow> \<not> tr_step zones t t'"
  by (auto elim!: tr_stepE simp: Transition_Terminal_def Claim_Inr Finish_Inr Transition_Due_def Transition_Owns_def)

text \<open>The closing integrity check only refuses a clock before the creation of the task.\<close>

lemma Claim_integrity:
  assumes "Transition_Integrity zones t = None" "tt_Key owner" "5 * Second \<le> lease" "Transition_Due t now"
    "tr_Revision t \<noteq> MaxUint64" "tr_LeaseToken t \<noteq> MaxUint64"
  shows "Transition_Integrity zones (claimed t owner now lease) = None \<longleftrightarrow> tr_CreatedAt t \<le> tt_CanonicalTime now"
proof -
  from assms(1) have t: "identity_ok zones t" "state_ok t" by (simp_all add: Integrity_None)
  have "\<not> Transition_Terminal t" using assms(4) by (auto simp: Transition_Terminal_def Transition_Due_def Let_def)
  then have "TrimSpace (tr_Outcome t) = ''''" using t(2) by (simp add: state_ok_def)
  then show ?thesis
    using assms t(1) CanonicalTime_lease [OF assms(3), of now] word_plus_one_nonzero [of "tr_LeaseToken t"]
      word_plus_one_nonzero [of "tr_Revision t"]
    by (simp add: Integrity_None state_ok_def optional_def Transition_Terminal_def)
qed

lemma Finish_integrity:
  assumes "Transition_Integrity zones t = None" "TrimSpace outcome \<noteq> ''''" "tr_Revision t \<noteq> MaxUint64"
    "state \<in> {tt_Applied, tt_Superseded, tt_ReconcileRequired}"
  shows "Transition_Integrity zones (finished t state outcome now) = None \<longleftrightarrow> tr_CreatedAt t \<le> tt_CanonicalTime now"
proof -
  have "Transition_Terminal (finished t state outcome now)" "state \<noteq> tt_Running"
    using assms(4) by (auto simp: Transition_Terminal_def)
  moreover have "identity_ok zones t" using assms(1) by (simp add: Integrity_None)
  ultimately show ?thesis
    using assms(2,3,4) word_plus_one_nonzero [of "tr_Revision t"] by (simp add: Integrity_None state_ok_def)
qed

subsection \<open>The lease protocol of the transition\<close>

definition tr_claims :: "(string \<Rightarrow> bool) \<Rightarrow> Transition \<Rightarrow> Transition \<Rightarrow> bool" where
  "tr_claims zones t t' \<longleftrightarrow> (\<exists>owner now lease. Transition_Claim zones t owner now lease = Inr t')"

definition tr_claimable :: "(string \<Rightarrow> bool) \<Rightarrow> Transition \<Rightarrow> time \<Rightarrow> bool" where
  "tr_claimable zones t now \<longleftrightarrow> (\<exists>owner lease t'. Transition_Claim zones t owner now lease = Inr t')"

interpretation transition_lease: leased tr_LeaseToken Transition_Owns "tr_claims zones" "tr_claimable zones" "tr_step zones"
  for zones
proof
  show "Transition_Owns t w k now \<Longrightarrow> k = tr_LeaseToken t" for t w k now by (simp add: Transition_Owns_def)
  show "Transition_Owns t w k now \<Longrightarrow> Transition_Owns t w' k' now' \<Longrightarrow> w = w'" for t w w' k k' now now'
    by (simp add: Transition_Owns_def)
  show "Transition_Owns t w k now \<Longrightarrow> \<not> tr_claimable zones t now" for t w k now
    by (auto simp: tr_claimable_def Claim_Inr Transition_Owns_def Transition_Due_def optional_def split: option.splits)
  show "tr_claims zones t t' \<Longrightarrow> tr_step zones t t'" for t t'
    by (auto simp: tr_claims_def intro: tr_step.claim)
  show "tr_claims zones t t' \<Longrightarrow> tr_LeaseToken t < tr_LeaseToken t'" for t t'
    using word_plus_one_gt by (auto simp: tr_claims_def Claim_Inr)
  show "tr_step zones t t' \<Longrightarrow> tr_LeaseToken t \<le> tr_LeaseToken t'" for t t'
    using word_plus_one_gt [of "tr_LeaseToken t"] by (auto elim!: tr_stepE simp: Claim_Inr Finish_Inr order.strict_implies_order)
qed

section \<open>A concrete transition\<close>

definition ex_due :: time where "ex_due = date 2026 3 1"

definition ex_queued :: Transition where
  "ex_queued = Transition_Seal
     \<lparr>tr_ID = tt_ID ScheduledChange ''t1'' ''chg-1'' 4 ex_due, tr_Kind = ScheduledChange, tr_TenantID = ''t1'',
      tr_AuthorityID = ''chg-1'', tr_AuthorityVersion = 4, tr_DueAt = ex_due, tr_BusinessTimezone = ''UTC'',
      tr_Revision = 1, tr_State = tt_Queued, tr_LeaseOwner = '''', tr_LeaseToken = 0, tr_LeaseUntil = None,
      tr_Outcome = '''', tr_CreatedAt = ex_due - Day, tr_UpdatedAt = ex_due - Day, tr_Hash = ''''\<rparr>"

lemma tr_ex_times: "tt_CanonicalTime ex_due = ex_due" "tt_CanonicalTime (ex_due - Day) = ex_due - Day"
  "tt_CanonicalTime (ex_due + 5 * Minute) = ex_due + 5 * Minute" "\<not> IsZero ex_due" "\<not> IsZero (ex_due - Day)"
  "0 < Day" "0 < Second" "0 < Minute" "5 * Second \<le> 5 * Minute"
  by code_simp+

lemma tr_ex_keys: "tt_Key ''chg-1''" "tt_Key ''w1''" "tt_Key ''w2''" "tt_Tenant ''t1''" "TrimSpace ''UTC'' = ''UTC''"
  "TrimSpace ''done'' = ''done''"
  by code_simp+

lemma tt_Key_ID: "tt_Key (tt_ID kind tenant authority version due)"
  unfolding tt_Key_def tt_ID_def by (rule key_pattern_digest_id; code_simp)

lemma ex_queued_new: "Transition_New zones ScheduledChange ''t1'' ''chg-1'' 4 ex_due (ex_due - Day) = Inr ex_queued"
proof -
  have "Transition_Integrity zones ex_queued = None"
    by (simp add: Integrity_None ex_queued_def identity_ok_def state_ok_def Transition_Terminal_def tt_Key_ID tr_ex_keys
        tr_ex_times transition_seal.seal_idem)
  then show ?thesis
    by (simp add: Transition_New_def NewInTimezone_def Let_def tr_ex_keys tr_ex_times ex_queued_def)
qed

lemma ex_queued_reachable: "tr_reachable zones ex_queued"
  using ex_queued_new [of zones] by (auto simp: Transition_New_def intro: tr_reachable.new)

lemma ex_claim_transition: "Transition_Claim zones ex_queued ''w1'' ex_due (5 * Minute) = Inr (claimed ex_queued ''w1'' ex_due (5 * Minute))"
proof -
  have i: "Transition_Integrity zones ex_queued = None" using tr_reachable_inv [OF ex_queued_reachable] by (simp add: tr_inv_def)
  have d: "Transition_Due ex_queued ex_due" by (simp add: Transition_Due_def ex_queued_def tr_ex_times)
  have f: "tr_Revision ex_queued = 1" "tr_LeaseToken ex_queued = 0" "tr_CreatedAt ex_queued = ex_due - Day"
    by (simp_all add: ex_queued_def)
  have "Transition_Integrity zones (claimed ex_queued ''w1'' ex_due (5 * Minute)) = None"
    using Claim_integrity [OF i tr_ex_keys(2) tr_ex_times(9) d] f tr_ex_times by simp
  then show ?thesis using d f tr_ex_times(9) by (simp add: Claim_Inr tr_ex_keys)
qed

lemma ex_finish_transition:
  "Transition_Finish zones (claimed ex_queued ''w1'' ex_due (5 * Minute)) ''w1'' 1 tt_Applied ''done'' ex_due =
     Inr (finished (claimed ex_queued ''w1'' ex_due (5 * Minute)) tt_Applied ''done'' ex_due)"
proof -
  let ?t = "claimed ex_queued ''w1'' ex_due (5 * Minute)"
  have i: "Transition_Integrity zones ?t = None" using ex_claim_transition [of zones] by (simp add: Claim_Inr)
  have f: "tr_Revision ?t = 2" "tr_LeaseToken ?t = 1" "tr_CreatedAt ?t = ex_due - Day" by (simp_all add: ex_queued_def)
  have "Transition_Integrity zones (finished ?t tt_Applied ''done'' ex_due) = None"
    using Finish_integrity [OF i, of "''done''" tt_Applied ex_due] f tr_ex_keys tr_ex_times by simp
  then show ?thesis using f by (simp add: Finish_Inr tr_ex_keys tr_ex_times Transition_Owns_def optional_def)
qed

section \<open>Properties\<close>

text \<open>
  No time boundary is executed early, and none is lost. For every reachable transition, a
  worker with a proper name and a lease between 5 seconds and 5 minutes obtains the lease exactly
  when the transition is due, its revision counter is not exhausted and the clock is not before
  the creation of the task; and whoever obtains it does so at or after the boundary.
\<close>

lemma transition_claimed_when_due:
  assumes "tr_reachable zones t" "tt_Key owner" "5 * Second \<le> lease" "lease \<le> 5 * Minute"
  shows "((\<exists>t'. Transition_Claim zones t owner now lease = Inr t') \<longleftrightarrow>
            Transition_Due t now \<and> tr_Revision t \<noteq> MaxUint64 \<and> tr_CreatedAt t \<le> tt_CanonicalTime now) \<and>
    (Transition_Due t now \<longrightarrow> tr_DueAt t \<le> now)"
proof -
  have inv: "tr_inv zones t" by (rule tr_reachable_inv [OF assms(1)])
  then have i: "Transition_Integrity zones t = None" and lt: "tr_LeaseToken t < tr_Revision t" by (simp_all add: tr_inv_def)
  have "tr_LeaseToken t \<noteq> MaxUint64" using lt word_order.extremum_strict [of "tr_Revision t"] by auto
  then have "(\<exists>t'. Transition_Claim zones t owner now lease = Inr t') \<longleftrightarrow>
      Transition_Due t now \<and> tr_Revision t \<noteq> MaxUint64 \<and> tr_CreatedAt t \<le> tt_CanonicalTime now"
    using Claim_integrity [OF i assms(2,3)] assms(2-4) by (auto simp: Claim_Inr)
  moreover have "tt_CanonicalTime now \<le> now" by (simp add: tt_CanonicalTime_def Truncate_le)
  ultimately show ?thesis using Due_not_early [OF inv, of now] by auto
qed

lemma transition_claimed_when_due_witness:
  "(\<exists>t'. Transition_Claim (\<lambda>_. False) ex_queued ''w2'' ex_due (5 * Minute) = Inr t') \<and>
   \<not> (\<exists>t'. Transition_Claim (\<lambda>_. False) ex_queued ''w2'' (ex_due - Day) (5 * Minute) = Inr t')"
proof -
  have d: "Transition_Due ex_queued ex_due" "\<not> Transition_Due ex_queued (ex_due - Day)"
    using tr_ex_times by (simp_all add: Transition_Due_def ex_queued_def)
  have f: "tr_Revision ex_queued \<noteq> MaxUint64" "tr_CreatedAt ex_queued \<le> tt_CanonicalTime ex_due"
    using tr_ex_times by (simp_all add: ex_queued_def)
  note r = transition_claimed_when_due [OF ex_queued_reachable tr_ex_keys(3) tr_ex_times(9) order.refl, of "\<lambda>_. False"]
  show ?thesis using r [of ex_due] r [of "ex_due - Day"] d f by simp
qed

text \<open>
  A time boundary is settled once. After a worker has finished a transition, no claim and no
  further finish succeeds, by anyone at any time; and a worker whose lease was taken over in the
  meantime can no longer finish it.
\<close>

lemma transition_settled_once:
  assumes "Transition_Finish zones t owner token state outcome now = Inr t'"
  shows "Transition_Claim zones t' owner' now' lease \<noteq> Inr u \<and>
    Transition_Finish zones t' owner' token' state' outcome' now' \<noteq> Inr u \<and>
    ((tr_step zones)\<^sup>*\<^sup>* s1 s2 \<longrightarrow> tr_claims zones s2 s3 \<longrightarrow> (tr_step zones)\<^sup>*\<^sup>* s3 t \<longrightarrow> tr_LeaseToken s1 < token)"
proof -
  have "Transition_Terminal t'" using assms by (auto simp: Finish_Inr Transition_Terminal_def)
  then have no: "\<not> tr_step zones t' u" for u by (rule terminal_no_tr_step)
  have own: "Transition_Owns t owner token now" using assms by (simp add: Finish_Inr)
  have "tr_LeaseToken s1 < token" if "(tr_step zones)\<^sup>*\<^sup>* s1 s2" "tr_claims zones s2 s3" "(tr_step zones)\<^sup>*\<^sup>* s3 t"
    using transition_lease.fenced [OF that, of token owner now] own by (meson not_le)
  with no show ?thesis by (blast intro: tr_step.intros)
qed

lemma transition_settled_once_witness:
  "\<forall>now lease u. Transition_Claim (\<lambda>_. False)
     (finished (claimed ex_queued ''w1'' ex_due (5 * Minute)) tt_Applied ''done'' ex_due) ''w2'' now lease \<noteq> Inr u"
  using transition_settled_once [OF ex_finish_transition] by blast

text \<open>
  Every reachable transition passes its own integrity check whatever claims and finishes were
  applied to it in whatever order, its fencing token stays below its revision (so the token never
  overflows first), and the same task with any other stored digest is refused as corrupt.
\<close>

lemma transition_integrity:
  assumes "tr_reachable zones t"
  shows "Transition_Integrity zones t = None \<and> tr_LeaseToken t < tr_Revision t \<and>
    (h \<noteq> tr_Hash t \<longrightarrow> Transition_Integrity zones (t\<lparr>tr_Hash := h\<rparr>) = Some TT_ErrCorrupt)"
proof -
  have ok: "Transition_Integrity zones t = None" "tr_LeaseToken t < tr_Revision t"
    using tr_reachable_inv [OF assms] by (simp_all add: tr_inv_def)
  then have "Transition_Seal t = t" by (simp add: Integrity_None)
  then have "Transition_Integrity zones (t\<lparr>tr_Hash := h\<rparr>) = Some TT_ErrCorrupt" if "h \<noteq> tr_Hash t"
    using transition_seal.other_hash [of t h] that by (simp add: Transition_Integrity_def)
  with ok show ?thesis by blast
qed

lemma transition_integrity_witness:
  "Transition_Integrity (\<lambda>_. False) (finished (claimed ex_queued ''w1'' ex_due (5 * Minute)) tt_Applied ''done'' ex_due) = None"
  using transition_integrity [OF tr_reachable.step [OF tr_reachable.step [OF ex_queued_reachable
    tr_step.claim [OF ex_claim_transition]] tr_step.finish [OF ex_finish_transition]]] by blast

end
