(* ===== verification/Provisioning_Props.thy ===== *)
theory Provisioning_Props
  imports Provisioning
begin

text \<open>
  What the provisioning protocol guarantees: the lease contract of \<open>Lease\<close> interpreted on the
  task of \<open>Provisioning\<close>, the absorbing states, a concrete task that is prepared and activated,
  and the properties of the durable task.
\<close>

section \<open>The lease protocol of the task\<close>

text \<open>A claim that obtains the lease, a step of a task that satisfies the invariant, and an instant at which somebody may claim.\<close>

definition task_claims :: "Task \<Rightarrow> Task \<Rightarrow> bool" where
  "task_claims t t' \<longleftrightarrow> task_inv t \<and> task_State t' = Running \<and> (\<exists>owner now lease. Task_Claim t owner now lease = Inr t')"

definition task_moves :: "Task \<Rightarrow> Task \<Rightarrow> bool" where
  "task_moves t t' \<longleftrightarrow> task_inv t \<and> task_step t t'"

definition task_claimable :: "Task \<Rightarrow> time \<Rightarrow> bool" where
  "task_claimable t now \<longleftrightarrow> (\<exists>owner lease t'. Task_Claim t owner now lease = Inr t')"

lemma token_fields [simp]:
  "task_LeaseToken (give_up t state f r now) = task_LeaseToken t"
  "task_LeaseToken (take_lease t owner now lease) = task_LeaseToken t + 1"
  "task_LeaseToken (update_step t i s) = task_LeaseToken t"
  "task_LeaseToken (Task_release t) = task_LeaseToken t"
  "task_State (give_up t state f r now) = state" "task_State (take_lease t owner now lease) = Running"
  by (simp_all add: task_ops)

lemma Claim_token:
  assumes "Task_Claim t owner now lease = Inr t'"
  shows "task_LeaseToken t' = (if task_State t' = Running then task_LeaseToken t + 1 else task_LeaseToken t)"
    "task_LeaseToken t \<noteq> MaxUint64"
  using assms by (auto simp: Task_Claim_def claim_step_def Let_def split: if_splits)

lemma observe_step_token: "task_LeaseToken (observe_step t ob now i) = task_LeaseToken t"
  by (simp add: observe_step_def update_step_def Let_def)

lemma task_step_token: "task_step t t' \<Longrightarrow> task_LeaseToken t \<le> task_LeaseToken t'"
proof (erule task_stepE)
  fix owner now lease assume "Task_Claim t owner now lease = Inr t'"
  then show ?thesis using Claim_token [of t owner now lease t'] word_plus_one_gt [of "task_LeaseToken t"]
    by (auto split: if_splits)
next
  fix owner token ob now assume "Task_Observe t owner token ob now = Inr t'"
  then show ?thesis by (auto simp: Task_Observe_def Let_def observe_step_token split: if_splits)
next
  fix now assume "Task_Cancel t now = Inr t'"
  then show ?thesis by (auto simp: Task_Cancel_def split: if_splits)
next
  fix now assume "Task_Retry t now = Inr t'"
  then show ?thesis by (auto simp: Task_Retry_def Let_def split: if_splits)
next
  fix owner token c now assume "Task_Complete t owner token c now = Inr t'"
  then show ?thesis by (auto simp: Task_Complete_def Let_def split: if_splits option.splits)
qed

interpretation task_lease: leased task_LeaseToken Task_Owns task_claims task_claimable task_moves
proof
  show "Task_Owns t w k now \<Longrightarrow> k = task_LeaseToken t" for t w k now by (simp add: Task_Owns_def)
  show "Task_Owns t w k now \<Longrightarrow> Task_Owns t w' k' now' \<Longrightarrow> w = w'" for t w w' k k' now now'
    by (simp add: Task_Owns_def)
  show "Task_Owns t w k now \<Longrightarrow> \<not> task_claimable t now" for t w k now
    by (auto simp: task_claimable_def Task_Claim_def Task_Owns_def Task_Due_def optional_def
        split: if_splits option.splits)
  show "task_claims t t' \<Longrightarrow> task_moves t t'" for t t'
    by (auto simp: task_claims_def task_moves_def intro: task_step.claim)
  show "task_claims t t' \<Longrightarrow> task_LeaseToken t < task_LeaseToken t'" for t t'
    using Claim_token word_plus_one_gt by (fastforce simp: task_claims_def)
  show "task_moves t t' \<Longrightarrow> task_LeaseToken t \<le> task_LeaseToken t'" for t t'
    by (auto simp: task_moves_def intro: task_step_token)
qed

lemma task_steps_moves:
  assumes "task_step\<^sup>*\<^sup>* t t'" "task_inv t"
  shows "task_moves\<^sup>*\<^sup>* t t' \<and> task_inv t'"
  using assms
proof (induction rule: rtranclp_induct)
  case (step u v)
  then show ?case using task_step_inv by (auto simp: task_moves_def intro: rtranclp.rtrancl_into_rtrancl)
qed simp

section \<open>Absorbing states\<close>

lemma terminal_no_step: "Task_Terminal t \<Longrightarrow> \<not> task_step t t'"
  by (auto elim!: task_stepE simp: Task_Terminal_def Task_Claim_def Task_Due_def Task_Observe_def Task_Owns_def
      Task_Cancel_def Task_Cancellable_def Task_Retry_def Task_Complete_def Let_def split: if_splits)

lemma observe_step_state: "task_State (observe_step t ob now i) \<in> {Queued, Ready, RetryWait, Failed, ReconcileRequired, task_State t}"
  by (simp add: observe_step_def update_step_def Let_def)

lemma Observe_state:
  assumes "Task_Observe t owner token ob now = Inr t'"
  shows "task_State t' \<in> {Queued, Ready, RetryWait, Failed, ReconcileRequired, Running}"
  using assms observe_step_state [of "t\<lparr>task_FailureCode := obs_FailureCode ob, task_RetryAllowed := False\<rparr>"
      ob now "nat (task_StepIndex t)"]
  by (auto simp: Task_Observe_def Task_Owns_def Task_release_def Let_def split: if_splits)

lemma step_to_applied:
  assumes "task_step t t'" "task_State t' = Applied"
  shows "task_StepIndex t' = int (length (task_Steps t'))"
  using assms(1)
proof cases
  case (claim owner now lease)
  with assms(2) show ?thesis by (auto simp: Task_Claim_def claim_step_def Let_def split: if_splits)
next
  case (observe owner token ob now)
  then have "task_State t' \<noteq> Applied" by (auto dest: Observe_state)
  with assms(2) show ?thesis by blast
next
  case (cancel now)
  with assms(2) show ?thesis by (auto simp: Task_Cancel_def Task_release_def split: if_splits)
next
  case (retry now)
  with assms(2) show ?thesis by (auto simp: Task_Retry_def Task_release_def Let_def split: if_splits)
next
  case (complete owner token c now)
  then show ?thesis by (auto simp: Task_Complete_def Task_release_def Let_def split: if_splits option.splits)
qed

lemma step_to_cancelled:
  assumes "task_step t t'" "task_State t' = Cancelled"
  shows "\<forall>s \<in> set (task_Steps t'). st_Effect s = Absent \<and> st_State s \<noteq> ReadyStep"
  using assms(1)
proof cases
  case (claim owner now lease)
  with assms(2) show ?thesis by (auto simp: Task_Claim_def claim_step_def Let_def split: if_splits)
next
  case (observe owner token ob now)
  then have "task_State t' \<noteq> Cancelled" by (auto dest: Observe_state)
  with assms(2) show ?thesis by blast
next
  case (cancel now)
  then show ?thesis by (auto simp: Task_Cancel_def Task_Cancellable_def Task_release_def split: if_splits)
next
  case (retry now)
  with assms(2) show ?thesis by (auto simp: Task_Retry_def Task_release_def Let_def split: if_splits)
next
  case (complete owner token c now)
  with assms(2) show ?thesis by (auto simp: Task_Complete_def Task_release_def Let_def split: if_splits option.splits)
qed

lemma applied_ready:
  "task_reachable t \<Longrightarrow> task_State t = Applied \<Longrightarrow> task_StepIndex t = int (length (task_Steps t))"
proof (induction rule: task_reachable.induct)
  case (step t t')
  then show ?case using step_to_applied by blast
qed (auto simp: Task_New_def Let_def split: if_splits option.splits)

lemma cancelled_absent:
  "task_reachable t \<Longrightarrow> task_State t = Cancelled \<Longrightarrow>
     \<forall>s \<in> set (task_Steps t). st_Effect s = Absent \<and> st_State s \<noteq> ReadyStep"
proof (induction rule: task_reachable.induct)
  case (step t t')
  then show ?case using step_to_cancelled by blast
qed (auto simp: Task_New_def Let_def split: if_splits option.splits)

lemma steps_ok_in:
  "steps_ok t \<Longrightarrow> s \<in> set (task_Steps t) \<Longrightarrow>
     \<exists>i. step_ok (task_ID t) (task_StepIndex t) (unat (task_RetryCycles t)) i s"
  by (auto simp: steps_ok_def in_set_conv_nth)

lemma small_not_max: "unat (w :: uint64) \<le> 5000 \<Longrightarrow> w \<noteq> MaxUint64"
  using unat_inc64 [of w] by auto

lemma step_ok_counters:
  "step_ok tid idx n i s \<Longrightarrow> n \<le> 10 \<Longrightarrow> unat (st_Attempts s) \<le> 110 \<and> unat (st_Reconciliations s) \<le> 32"
proof -
  assume s: "step_ok tid idx n i s" and n: "n \<le> 10"
  have "unat (st_CycleAttempts s) \<le> 10"
    using s unfolding step_ok_def Requirement_Validate_def
    by (auto simp: word_le_nat_alt word_less_nat_alt split: if_splits)
  with s n show ?thesis unfolding step_ok_def by linarith
qed

section \<open>A concrete task\<close>

definition ex_approval :: Approval where
  "ex_approval = \<lparr>app_ChangeID = ''chg-1'', app_ActorID = ''admin'', app_PreviewHash = replicate 64 (CHR ''a''),
     app_TargetHash = replicate 64 (CHR ''b''), app_TargetPlanCode = ''basic'', app_TargetPlanVersion = 1,
     app_SubscriptionRevision = 3, app_SourceVersion = 4, app_EntitlementVersion = 5, app_CatalogRevision = 6\<rparr>"

definition ex_requirement :: Requirement where
  "ex_requirement = \<lparr>req_Code = ''storage'', req_Adapter = ''s3'', req_Version = ''v1'', req_MaxAttempts = 3\<rparr>"

definition ex_now :: time where "ex_now = date 2026 1 1"

definition ex_blank :: Task where
  "ex_blank = \<lparr>task_ID = TaskID ''chg-1'', task_TenantID = ''t1'', task_Approval = ex_approval, task_Revision = 1,
     task_State = Queued, task_Steps = [new_step (TaskID ''chg-1'') 0 ex_requirement], task_StepIndex = 0,
     task_Stage = PrepareStage, task_NextAttemptAt = ex_now, task_CreatedAt = ex_now, task_UpdatedAt = ex_now,
     task_Deadline = ex_now + 24 * Hour, task_LeaseOwner = '''', task_LeaseToken = 0, task_LeaseUntil = None,
     task_FailureCode = '''', task_RetryAllowed = False, task_CancellationDisabled = False, task_RetryCycles = 0,
     task_ActivationAttempts = 0, task_Completion = None, task_Hash = ''''\<rparr>"

definition ex_task :: Task where "ex_task = Task_Seal ex_blank"

lemma ex_keys: "Key ''chg-1''" "Key ''basic''" "Key ''w1''" "Key ''w2''" "Tenant ''t1''" "Key ''storage''" "Key ''s3''" "Key ''v1''"
  by code_simp+

lemma ex_times: "ex_now \<noteq> 0" "0 < Hour" "Hour = 3600000000000" "Minute = 60000000000" "Second = 1000000000"
  by code_simp+

lemma ex_requirement_ok: "Requirement_Validate ex_requirement = None"
  by (simp add: Requirement_Validate_def ex_requirement_def ex_keys)

lemma ex_new: "Task_New ''t1'' ex_approval [ex_requirement] ex_now = Inr ex_task"
proof -
  have "Task_Integrity ex_task = None"
    unfolding Task_Integrity_None ex_task_def task_seal.seal_idem static_ok_def lease_ok_def applied_ok_def step_error_def
    using ex_requirement_ok ex_times by (simp add: ex_blank_def ex_approval_def ex_keys IsZero_def new_step_def)
  then show ?thesis
    by (simp add: Task_New_def ValidateRequirements_def ex_requirement_ok Let_def ex_task_def ex_blank_def ex_approval_def
        numeral_eq_Suc enumerate_eq_zip)
qed

definition ex_claimed :: Task where
  "ex_claimed = claim_step ex_task ''w1'' ex_now (30 * Second) 0"

lemma ex_claim: "Task_Claim ex_task ''w1'' ex_now (30 * Second) = Inr ex_claimed" "task_State ex_claimed = Running"
  "task_LeaseToken ex_claimed = 1" "task_LeaseUntil ex_claimed = Some (ex_now + 30 * Second)"
  "task_LeaseOwner ex_claimed = ''w1''"
  using ex_times by (simp_all add: Task_Claim_def ex_claimed_def claim_step_def Let_def task_ops ex_task_def ex_blank_def ex_keys
      Task_Due_def new_step_def ex_requirement_def)

section \<open>Properties\<close>

text \<open>
  C4: Every reachable task passes its own integrity check, whatever operations were applied in
  whatever order, and its counters are bounded: at most 110 attempts and 32 reconciliations per
  step, 2305 leases and 4633 revisions. In particular no counter ever wraps around and the
  overflow guards of \<open>Claim\<close> never fire.
\<close>

theorem provisioning_integrity_bounded:
  assumes "task_reachable t"
  shows "Task_Integrity t = None \<and> unat (task_Revision t) \<le> 4633 \<and> unat (task_LeaseToken t) \<le> 2305 \<and>
    (\<forall>s \<in> set (task_Steps t). unat (st_Attempts s) \<le> 110 \<and> unat (st_Reconciliations s) \<le> 32)"
proof -
  have inv: "task_inv t" by (rule task_reachable_inv [OF assms])
  then have core: "core_ok t" "rev_ok (task_Revision t) t" by (simp_all add: task_inv_def)
  have "unat (st_Attempts s) \<le> 110 \<and> unat (st_Reconciliations s) \<le> 32" if "s \<in> set (task_Steps t)" for s
  proof -
    obtain i where "step_ok (task_ID t) (task_StepIndex t) (unat (task_RetryCycles t)) i s"
      using steps_ok_in [OF core_okD(3) [OF core(1)] \<open>s \<in> set (task_Steps t)\<close>] by blast
    from step_ok_counters [OF this core_okD(6) [OF core(1)]] show ?thesis .
  qed
  with task_inv_integrity [OF inv] rev_bound [OF core] core_bounds(1) [OF core(1)] show ?thesis by blast
qed

lemma provisioning_integrity_bounded_witness:
  "Task_Integrity ex_claimed = None \<and> unat (task_Revision ex_claimed) \<le> 4633"
  using provisioning_integrity_bounded [OF task_reachable.step [OF task_reachable.new [OF ex_new] task_step.claim [OF ex_claim(1)]]]
  by blast

text \<open>
  C5: Fencing. Once a later claim obtains the lease, no holder of an earlier token owns the task
  again, at any instant and after any further operations; a worker that was presumed dead
  cannot write.
\<close>

theorem provisioning_fencing:
  assumes "task_reachable t" "task_step\<^sup>*\<^sup>* t t1" "Task_Claim t1 owner now lease = Inr t2" "task_State t2 = Running"
    and "task_step\<^sup>*\<^sup>* t2 t3" "k \<le> task_LeaseToken t"
  shows "\<not> Task_Owns t3 w k later"
proof -
  have inv: "task_inv t" by (rule task_reachable_inv [OF assms(1)])
  have m1: "task_moves\<^sup>*\<^sup>* t t1" "task_inv t1" using task_steps_moves [OF assms(2) inv] by blast+
  have c: "task_claims t1 t2" using m1(2) assms(3,4) by (auto simp: task_claims_def)
  have "task_inv t2" using task_step_inv [OF m1(2) task_step.claim [OF assms(3)]] .
  then have "task_moves\<^sup>*\<^sup>* t2 t3" using task_steps_moves [OF assms(5)] by blast
  from task_lease.fenced [OF m1(1) c this assms(6)] show ?thesis .
qed

lemma provisioning_fencing_witness: "\<not> Task_Owns ex_claimed ''w2'' 0 ex_now"
  using provisioning_fencing [OF task_reachable.new [OF ex_new] rtranclp.rtrancl_refl ex_claim(1,2) rtranclp.rtrancl_refl,
      of 0 "''w2''" ex_now] by simp

text \<open>
  Mutual exclusion. At most one worker with one token owns a task, and while it owns it nobody
  can claim the task.
\<close>

lemma provisioning_mutual_exclusion:
  assumes "Task_Owns t w k now" "Task_Owns t w' k' now'"
  shows "w = w' \<and> k = k' \<and> (\<forall>owner lease. Task_Claim t owner now lease = Inl Prov_ErrConflict)"
proof -
  have "\<not> Task_Due t now"
    using assms(1) by (auto simp: Task_Owns_def Task_Due_def optional_def split: option.splits)
  then have "\<forall>owner lease. Task_Claim t owner now lease = Inl Prov_ErrConflict" by (simp add: Task_Claim_def)
  with task_lease.mutual_exclusion [OF assms] show ?thesis by blast
qed

lemma provisioning_mutual_exclusion_witness:
  "Task_Claim ex_claimed ''w2'' ex_now (30 * Second) = Inl Prov_ErrConflict"
proof -
  have "Task_Owns ex_claimed ''w1'' 1 ex_now"
    using ex_claim ex_times by (simp add: Task_Owns_def optional_def)
  from provisioning_mutual_exclusion [OF this this] show ?thesis by blast
qed

text \<open>
  A change is applied only when all of it is prepared: in a reachable task that is applied,
  every step is ready, has the ready effect and carries the provider's evidence.
\<close>

lemma provisioning_applied_prepared:
  assumes "task_reachable t" "task_State t = Applied" "s \<in> set (task_Steps t)"
  shows "st_State s = ReadyStep \<and> st_Effect s = ReadyStep \<and> st_Evidence s \<noteq> ''''"
proof -
  have core: "core_ok t" using task_reachable_inv [OF assms(1)] by (simp add: task_inv_def)
  obtain i where i: "i < length (task_Steps t)" "s = task_Steps t ! i" using assms(3) by (auto simp: in_set_conv_nth)
  have "step_ok (task_ID t) (task_StepIndex t) (unat (task_RetryCycles t)) i s"
    using core_okD(3) [OF core] i by (simp add: steps_ok_def)
  moreover have "int i < task_StepIndex t" using applied_ready [OF assms(1,2)] i(1) by simp
  ultimately show ?thesis unfolding step_ok_def by blast
qed

definition ex_observation :: Observation where
  "ex_observation = \<lparr>obs_Outcome = ReadyStep, obs_Evidence = ''ref-1'', obs_FailureCode = ''''\<rparr>"

definition ex_completion :: Completion where
  "ex_completion = \<lparr>com_ChangeID = ''chg-1'', com_SubscriptionRevision = 4, com_SourceVersion = 5,
     com_EntitlementVersion = 6, com_AppliedAt = ex_now\<rparr>"

lemma ex_observation_ok: "Observation_Validate ex_observation = None"
  by code_simp

lemma ex_applied: "\<exists>t. task_reachable t \<and> task_State t = Applied \<and> length (task_Steps t) = 1"
proof -
  define t0 where "t0 = ex_claimed\<lparr>task_FailureCode := '''', task_RetryAllowed := False\<rparr>"
  define t1 where "t1 = finishRevision (Task_release (observe_step t0 ex_observation ex_now 0)) ex_now"
  define t2 where "t2 = take_lease (t1\<lparr>task_Stage := ActivateStage, task_ActivationAttempts := 1\<rparr>) ''w2'' ex_now (30 * Second)"
  have own: "Task_Owns ex_claimed ''w1'' 1 ex_now"
    using ex_claim ex_times by (simp add: Task_Owns_def optional_def)
  have c: "task_Stage ex_claimed = PrepareStage" "task_StepIndex ex_claimed = 0" "length (task_Steps ex_claimed) = 1"
    "task_ActivationAttempts ex_claimed = 0" "task_Deadline ex_claimed = ex_now + 24 * Hour" "task_Revision ex_claimed = 2"
    "task_LeaseToken ex_claimed = 1" "task_Approval ex_claimed = ex_approval"
    by (simp_all add: ex_claimed_def claim_step_def Let_def task_ops ex_task_def ex_blank_def new_step_def ex_requirement_def)
  have o: "Task_Observe ex_claimed ''w1'' 1 ex_observation ex_now = Inr t1"
    using own ex_observation_ok c by (simp add: Task_Observe_def t1_def t0_def ex_observation_def)
  have t1: "task_State t1 = Ready" "task_StepIndex t1 = 1" "length (task_Steps t1) = 1" "task_NextAttemptAt t1 = ex_now"
    "task_ActivationAttempts t1 = 0" "task_Deadline t1 = ex_now + 24 * Hour" "task_Revision t1 = 3" "task_LeaseToken t1 = 1"
    "task_Approval t1 = ex_approval"
    using c by (simp_all add: t1_def t0_def observe_step_def ex_observation_def Let_def task_ops)
  have cl: "Task_Claim t1 ''w2'' ex_now (30 * Second) = Inr t2"
    using t1 ex_times ex_keys by (simp add: Task_Claim_def Task_Due_def t2_def Let_def)
  have t2: "task_Stage t2 = ActivateStage" "task_StepIndex t2 = 1" "length (task_Steps t2) = 1" "Task_Owns t2 ''w2'' 2 ex_now"
    "task_Approval t2 = ex_approval"
    using t1 ex_times by (simp_all add: t2_def take_lease_def Task_Owns_def optional_def)
  have r: "task_reachable t2"
    by (rule task_reachable.step [OF task_reachable.step [OF task_reachable.step [OF task_reachable.new [OF ex_new]
      task_step.claim [OF ex_claim(1)]] task_step.observe [OF o]] task_step.claim [OF cl]])
  have "completion_matches t2 ex_completion"
    using t2 ex_times by (simp add: completion_matches_def ex_completion_def ex_approval_def IsZero_def)
  then have "Task_Complete t2 ''w2'' 2 ex_completion ex_now = Inr (completed t2 ex_completion ex_now)"
    using t2 by (simp add: Task_Complete_iff [OF task_reachable_inv [OF r]])
  then have "task_reachable (completed t2 ex_completion ex_now)"
    by (rule task_reachable.step [OF r task_step.complete])
  moreover have "task_State (completed t2 ex_completion ex_now) = Applied" "length (task_Steps (completed t2 ex_completion ex_now)) = 1"
    using t2 by (simp_all add: completed_def Task_release_def)
  ultimately show ?thesis by blast
qed

lemma provisioning_applied_prepared_witness:
  "\<exists>t. task_reachable t \<and> task_State t = Applied \<and> st_State (hd (task_Steps t)) = ReadyStep"
proof -
  obtain t where t: "task_reachable t" "task_State t = Applied" "length (task_Steps t) = 1" using ex_applied by blast
  then have "hd (task_Steps t) \<in> set (task_Steps t)" by (cases "task_Steps t") auto
  from provisioning_applied_prepared [OF t(1,2) this] t show ?thesis by blast
qed

text \<open>
  A cancelled task leaves nothing behind: no step of it has, or may have, an effect at a
  provider.
\<close>

lemma provisioning_cancelled_clean:
  assumes "task_reachable t" "task_State t = Cancelled" "s \<in> set (task_Steps t)"
  shows "st_Effect s = Absent"
  using cancelled_absent [OF assms(1,2)] assms(3) by blast

lemma ex_cancel: "Task_Cancel ex_task ex_now =
    Inr (finishRevision (Task_release (ex_task\<lparr>task_State := Cancelled, task_RetryAllowed := False\<rparr>)) ex_now)"
  by (simp add: Task_Cancel_def Task_Cancellable_def Task_Terminal_def ex_task_def ex_blank_def new_step_def)

lemma provisioning_cancelled_clean_witness:
  "\<exists>t. Task_Cancel ex_task ex_now = Inr t \<and> st_Effect (hd (task_Steps t)) = Absent"
proof -
  let ?t = "finishRevision (Task_release (ex_task\<lparr>task_State := Cancelled, task_RetryAllowed := False\<rparr>)) ex_now"
  have "hd (task_Steps ?t) \<in> set (task_Steps ?t)" by (simp add: Task_release_def ex_task_def ex_blank_def)
  moreover have "task_State ?t = Cancelled" by (simp add: Task_release_def)
  ultimately have "st_Effect (hd (task_Steps ?t)) = Absent"
    using provisioning_cancelled_clean [OF task_reachable.step [OF task_reachable.new [OF ex_new] task_step.cancel [OF ex_cancel]]]
    by blast
  with ex_cancel show ?thesis by blast
qed

text \<open>
  An effect that may exist is reconciled, never repeated. A claim that starts the stage
  \<open>PREPARE\<close> found a task whose lease had not expired and whose current step is not in doubt.
\<close>

lemma provisioning_unknown_reconciled:
  assumes "Task_Claim t owner now lease = Inr t'" "task_State t' = Running" "task_Stage t' = PrepareStage"
  shows "task_State t \<noteq> Running \<and> st_Effect (task_Steps t ! nat (task_StepIndex t)) \<noteq> Unknown \<and>
    st_Effect (task_Steps t' ! nat (task_StepIndex t)) = Unknown"
  using assms
  by (auto simp: Task_Claim_def claim_step_def task_ops Let_def split: if_splits)

lemma provisioning_unknown_reconciled_witness: "st_Effect (hd (task_Steps ex_claimed)) = Unknown"
proof -
  have st: "task_Stage ex_claimed = PrepareStage" "task_StepIndex ex_task = 0" "task_Steps ex_claimed \<noteq> []"
    by (simp_all add: ex_claimed_def claim_step_def Let_def task_ops ex_task_def ex_blank_def new_step_def ex_requirement_def)
  show ?thesis using provisioning_unknown_reconciled [OF ex_claim(1,2) st(1)] st(2,3) by (simp add: hd_conv_nth)
qed

text \<open>
  A due task can always be taken. For a reachable task that is due, any worker with a proper
  name and a lease between 5 seconds and 5 minutes gets an answer: either the lease, until exactly
  the requested instant, or the task is given up for good or until an operator retries it. No
  index is ever out of range and no counter is exhausted.
\<close>

lemma provisioning_claim_total:
  assumes "task_reachable t" "Task_Due t now" "Key owner" "5 * Second \<le> lease" "lease \<le> 5 * Minute"
  shows "\<exists>t'. Task_Claim t owner now lease = Inr t' \<and>
    ((task_State t' = Running \<and> Task_Owns t' owner (task_LeaseToken t + 1) now \<and> task_LeaseUntil t' = Some (now + lease)) \<or>
     task_State t' \<in> {Failed, ReconcileRequired})"
proof -
  have inv: "task_inv t" by (rule task_reachable_inv [OF assms(1)])
  then have core: "core_ok t" "rev_ok (task_Revision t) t" by (simp_all add: task_inv_def)
  note c = core_okD [OF core(1)]
  have "task_Revision t \<noteq> MaxUint64" "task_LeaseToken t \<noteq> MaxUint64"
    using rev_bound [OF core] core_bounds(1) [OF core(1)] by (intro small_not_max; simp)+
  then have g: "\<not> (\<not> Key owner \<or> lease < 5 * Second \<or> lease > 5 * Minute \<or> \<not> Task_Due t now \<or>
         task_Revision t = MaxUint64 \<or> task_LeaseToken t = MaxUint64)" using assms by simp
  have "0 < lease" using assms(4) by (simp add: Second_def)
  then have own: "Task_Owns (take_lease u owner now lease) owner k now \<longleftrightarrow> k = task_LeaseToken u + 1"
    "task_LeaseUntil (take_lease u owner now lease) = Some (now + lease)" for u k
    by (auto simp: Task_Owns_def take_lease_def optional_def)
  show ?thesis unfolding Task_Claim_def if_not_P [OF g] using c(9,10)
    by (simp add: claim_step_def update_step_def own Let_def)
qed

lemma provisioning_claim_total_witness:
  "\<exists>t'. Task_Claim ex_task ''w2'' ex_now (5 * Minute) = Inr t'"
  using provisioning_claim_total [OF task_reachable.new [OF ex_new], of ex_now "''w2''" "5 * Minute"] ex_keys ex_times
  by (auto simp: Task_Due_def ex_task_def ex_blank_def)

end
