(* ===== verification/Tenant_Model.thy ===== *)
theory Tenant_Model
  imports Go_Digest Go_Time
begin

section \<open>Tenants, members, roles and data policies: the access domain\<close>

text \<open>
  \<open>internal/access/domain/model.go\<close> and \<open>data_policy.go\<close>: the aggregates the access services load,
  change and store, with the rows of the tables they are stored in
  (\<open>internal/access/infrastructure/persistence/store.go\<close>). Statuses, scopes and codes are the strings of
  the source. A method with a pointer receiver takes the value and returns the changed value or
  the error; a receiver is never nil in the callers that are modelled. A row holds every column
  an operation of the development reads or writes; the contact columns of a membership
  (\<open>email\<close>, \<open>phone\<close>, their ciphertexts and lookup hashes) are left out.
\<close>

subsection \<open>Statuses, scopes and codes\<close>

abbreviation DataScopeNone :: string where "DataScopeNone \<equiv> ''none''"
abbreviation DataScopeSelf :: string where "DataScopeSelf \<equiv> ''self''"
abbreviation DataScopeSites :: string where "DataScopeSites \<equiv> ''sites''"
abbreviation DataScopeAll :: string where "DataScopeAll \<equiv> ''all''"

abbreviation TenantStatusPending :: string where "TenantStatusPending \<equiv> ''pending''"
abbreviation TenantStatusActive :: string where "TenantStatusActive \<equiv> ''active''"
abbreviation TenantStatusSuspended :: string where "TenantStatusSuspended \<equiv> ''suspended''"
abbreviation TenantStatusClosed :: string where "TenantStatusClosed \<equiv> ''closed''"

abbreviation MemberInvited :: string where "MemberInvited \<equiv> ''invited''"
abbreviation MemberActive :: string where "MemberActive \<equiv> ''active''"
abbreviation MemberSuspended :: string where "MemberSuspended \<equiv> ''suspended''"
abbreviation MemberRemoved :: string where "MemberRemoved \<equiv> ''removed''"

abbreviation WebActorUser :: string where "WebActorUser \<equiv> ''user''"
abbreviation WebActorPlatform :: string where "WebActorPlatform \<equiv> ''platform''"
abbreviation AuthMethodWeb :: string where "AuthMethodWeb \<equiv> ''web-session''"

abbreviation RoleActive :: string where "RoleActive \<equiv> ''active''"
abbreviation RoleDisabled :: string where "RoleDisabled \<equiv> ''disabled''"
abbreviation OwnerRoleName :: string where "OwnerRoleName \<equiv> ''owner''"
abbreviation AdminRoleName :: string where "AdminRoleName \<equiv> ''tenant_admin''"
abbreviation OwnerRoleCode :: string where "OwnerRoleCode \<equiv> ''tenant_owner''"
abbreviation AdminRoleCode :: string where "AdminRoleCode \<equiv> ''tenant_admin''"

abbreviation PolicyActive :: string where "PolicyActive \<equiv> ''active''"
abbreviation PolicyRevoked :: string where "PolicyRevoked \<equiv> ''revoked''"

definition OwnerRequiredPermissions :: "string list" where
  "OwnerRequiredPermissions = [''commercial.catalog.read'', ''tenant.audit.export'', ''tenant.audit.read'', ''tenant.entitlement.read'',
     ''tenant.member.manage'', ''tenant.member.read'', ''tenant.organization.manage'', ''tenant.organization.read'', ''tenant.role.manage'',
     ''tenant.role.read'', ''tenant.subscription.manage'']"

datatype acc_error =
    Acc_InvalidTenantTransition | Acc_InvalidMemberTransition | Acc_InvalidMemberProfile | Acc_InvalidRoleTransition
  | Acc_ProtectedOwnerRole | Acc_ProtectedSystemRole | Acc_InvalidDataPolicy
  | Acc_RoleNotFound | Acc_RoleConflict | Acc_RoleProtected | Acc_RoleInUse | Acc_RoleMember | Acc_LastTenantOwner
  | Acc_PolicyNotFound | Acc_PolicyConflict | Acc_PolicyUnavailable
  | Acc_MemberNotFound | Acc_MemberConflict | Acc_MemberSelfDeactivation | Acc_MemberProtectedOwner | Acc_ScopeUnavailable
  | Acc_InvalidRoleRequest | Acc_InvalidMemberRequest | Acc_TenantContextRequired | Acc_Unauthorized
  | Acc_IdempotencyKeyRequired | Acc_SelfDeletionIrreversible | Acc_SelfContactUnavailable | Acc_VerificationInvalid
  | Acc_TenantNotFound | Acc_TenantConflict
  | Acc_WebIdentityUnbound | Acc_WebSessionInvalid | Acc_WebSessionChanged | Acc_WebTenantDenied | Acc_WebLoginFlow
  | Acc_ServiceReplay
  | Acc_Duplicate \<comment> \<open>a primary key or unique index refuses the row\<close>
  | Acc_Message string \<comment> \<open>an error built with \<open>errors.New\<close>\<close>
  | Acc_Collaborator string \<comment> \<open>the error of a service outside the component\<close>

subsection \<open>Tenants\<close>

record Tenant =
  ten_ID :: string
  ten_Name :: string
  ten_Status :: string
  ten_Version :: uint64
  ten_CreatedAt :: time
  ten_UpdatedAt :: time

definition NewTenant :: "string \<Rightarrow> string \<Rightarrow> time \<Rightarrow> Tenant" where
  "NewTenant i name now = \<lparr>ten_ID = i, ten_Name = name, ten_Status = TenantStatusPending, ten_Version = 1, ten_CreatedAt = now, ten_UpdatedAt = now\<rparr>"

definition Tenant_Rename :: "string \<Rightarrow> time \<Rightarrow> Tenant \<Rightarrow> acc_error + Tenant" where
  "Tenant_Rename name now t =
     (if ten_Status t = TenantStatusClosed then Inl Acc_InvalidTenantTransition
      else Inr (t\<lparr>ten_Name := name, ten_UpdatedAt := now\<rparr>))"

definition Tenant_Activate :: "time \<Rightarrow> Tenant \<Rightarrow> acc_error + Tenant" where
  "Tenant_Activate now t =
     (if ten_Status t \<noteq> TenantStatusPending \<and> ten_Status t \<noteq> TenantStatusSuspended then Inl Acc_InvalidTenantTransition
      else Inr (t\<lparr>ten_Status := TenantStatusActive, ten_UpdatedAt := now\<rparr>))"

definition Tenant_Suspend :: "time \<Rightarrow> Tenant \<Rightarrow> acc_error + Tenant" where
  "Tenant_Suspend now t =
     (if ten_Status t \<noteq> TenantStatusActive then Inl Acc_InvalidTenantTransition
      else Inr (t\<lparr>ten_Status := TenantStatusSuspended, ten_UpdatedAt := now\<rparr>))"

definition Tenant_Close :: "time \<Rightarrow> Tenant \<Rightarrow> acc_error + Tenant" where
  "Tenant_Close now t =
     (if ten_Status t \<noteq> TenantStatusActive \<and> ten_Status t \<noteq> TenantStatusSuspended then Inl Acc_InvalidTenantTransition
      else Inr (t\<lparr>ten_Status := TenantStatusClosed, ten_UpdatedAt := now\<rparr>))"

subsection \<open>Members\<close>

record MemberRoleSummary =
  mrs_ID :: string
  mrs_Name :: string
  mrs_Status :: string

record Membership =
  ms_TenantID :: string
  ms_UserID :: string
  ms_Status :: string
  ms_Version :: uint64
  ms_Name :: string
  ms_Phone :: string
  ms_EmployeeID :: string
  ms_Position :: string
  ms_DepartmentID :: string
  ms_AvatarAssetRef :: string
  ms_Roles :: "MemberRoleSummary list"
  ms_DerivedDataScope :: string
  ms_CreatedAt :: time
  ms_UpdatedAt :: time

definition Membership_UpdateProfile :: "string \<Rightarrow> string \<Rightarrow> string \<Rightarrow> string \<Rightarrow> string \<Rightarrow> time \<Rightarrow> Membership \<Rightarrow> acc_error + Membership" where
  "Membership_UpdateProfile name phone employeeID position departmentID now m =
     (if ms_Status m = MemberRemoved then Inl Acc_InvalidMemberProfile
      else let name = TrimSpace name; phone = TrimSpace phone; employeeID = TrimSpace employeeID;
               position = TrimSpace position; departmentID = TrimSpace departmentID
        in if rune_count name > 100 \<or> rune_count phone > 40 \<or> rune_count employeeID > 64 \<or> rune_count position > 100 \<or> rune_count departmentID > 64
           then Inl Acc_InvalidMemberProfile
           else Inr (m\<lparr>ms_Name := name, ms_Phone := phone, ms_EmployeeID := employeeID, ms_Position := position,
                       ms_DepartmentID := departmentID, ms_UpdatedAt := now\<rparr>))"

definition Membership_Activate :: "time \<Rightarrow> Membership \<Rightarrow> acc_error + Membership" where
  "Membership_Activate now m =
     (if ms_Status m \<noteq> MemberInvited \<and> ms_Status m \<noteq> MemberSuspended then Inl Acc_InvalidMemberTransition
      else Inr (m\<lparr>ms_Status := MemberActive, ms_UpdatedAt := now\<rparr>))"

definition Membership_Suspend :: "time \<Rightarrow> Membership \<Rightarrow> acc_error + Membership" where
  "Membership_Suspend now m =
     (if ms_Status m \<noteq> MemberActive then Inl Acc_InvalidMemberTransition
      else Inr (m\<lparr>ms_Status := MemberSuspended, ms_UpdatedAt := now\<rparr>))"

definition Membership_Remove :: "time \<Rightarrow> Membership \<Rightarrow> acc_error + Membership" where
  "Membership_Remove now m =
     (if ms_Status m = MemberRemoved then Inl Acc_InvalidMemberTransition
      else Inr (m\<lparr>ms_Status := MemberRemoved, ms_UpdatedAt := now\<rparr>))"

definition Membership_Restore :: "time \<Rightarrow> Membership \<Rightarrow> acc_error + Membership" where
  "Membership_Restore now m =
     (if ms_Status m \<noteq> MemberRemoved then Inl Acc_InvalidMemberTransition
      else Inr (m\<lparr>ms_Status := MemberActive, ms_UpdatedAt := now\<rparr>))"

subsection \<open>Roles\<close>

record PermissionGrant =
  gr_TenantID :: string
  gr_RoleID :: string
  gr_Permission :: string
  gr_Scope :: string

record DataPolicyReference =
  dpr_PolicyID :: string
  dpr_PolicyName :: string
  dpr_PolicyVersion :: uint64
  dpr_AcceptedVersion :: uint64
  dpr_Effective :: bool
  dpr_InvalidReason :: string

record Role =
  role_ID :: string
  role_TenantID :: string
  role_Name :: string
  role_Description :: string
  role_Code :: string
  role_System :: bool
  role_MemberCount :: uint64
  role_Status :: string
  role_Permissions :: "PermissionGrant list"
  role_DataPolicy :: "DataPolicyReference option"
  role_Version :: uint64
  role_UpdatedAt :: time

definition NewRole :: "string \<Rightarrow> string \<Rightarrow> string \<Rightarrow> time \<Rightarrow> Role" where
  "NewRole i tenantID name now =
     \<lparr>role_ID = i, role_TenantID = tenantID, role_Name = name, role_Description = '''', role_Code = '''', role_System = False, role_MemberCount = 0,
      role_Status = RoleActive, role_Permissions = [], role_DataPolicy = None, role_Version = 1, role_UpdatedAt = now\<rparr>"

definition NewOwnerRole :: "string \<Rightarrow> string \<Rightarrow> time \<Rightarrow> Role" where
  "NewOwnerRole i tenantID now =
     (NewRole i tenantID OwnerRoleName now)
       \<lparr>role_Code := OwnerRoleCode, role_System := True,
        role_Permissions := map (\<lambda>p. \<lparr>gr_TenantID = tenantID, gr_RoleID = i, gr_Permission = p, gr_Scope = DataScopeAll\<rparr>) OwnerRequiredPermissions\<rparr>"

definition NewAdminRole :: "string \<Rightarrow> string \<Rightarrow> time \<Rightarrow> Role" where
  "NewAdminRole i tenantID now = (NewRole i tenantID AdminRoleName now)\<lparr>role_Code := AdminRoleCode, role_System := True\<rparr>"

definition IsOwner :: "Role \<Rightarrow> bool" where
  "IsOwner r \<longleftrightarrow> role_Code r = OwnerRoleCode \<or> (role_Code r = '''' \<and> role_Name r = OwnerRoleName)"

definition IsSystemRole :: "Role \<Rightarrow> bool" where
  "IsSystemRole r \<longleftrightarrow> role_System r \<or> role_Code r = OwnerRoleCode \<or> role_Code r = AdminRoleCode"

definition Role_Rename :: "string \<Rightarrow> time \<Rightarrow> Role \<Rightarrow> acc_error + Role" where
  "Role_Rename name now r =
     (let name = TrimSpace name
      in if role_Status r = RoleDisabled \<or> IsSystemRole r \<or> name = '''' \<or> name = OwnerRoleName \<or> name = AdminRoleName \<or>
            name = OwnerRoleCode \<or> name = AdminRoleCode
         then Inl Acc_InvalidRoleTransition
         else Inr (r\<lparr>role_Name := name, role_UpdatedAt := now\<rparr>))"

definition Role_UpdateDescription :: "string \<Rightarrow> time \<Rightarrow> Role \<Rightarrow> acc_error + Role" where
  "Role_UpdateDescription description now r =
     (if IsSystemRole r then Inl Acc_ProtectedSystemRole
      else let description = TrimSpace description
        in if rune_count description > 120 then Inl Acc_InvalidRoleTransition
           else Inr (r\<lparr>role_Description := description, role_UpdatedAt := now\<rparr>))"

definition Role_Disable :: "time \<Rightarrow> Role \<Rightarrow> acc_error + Role" where
  "Role_Disable now r =
     (if role_Status r \<noteq> RoleActive then Inl Acc_InvalidRoleTransition
      else if IsOwner r then Inl Acc_ProtectedOwnerRole
      else if IsSystemRole r then Inl Acc_ProtectedSystemRole
      else Inr (r\<lparr>role_Status := RoleDisabled, role_UpdatedAt := now\<rparr>))"

definition Role_Enable :: "time \<Rightarrow> Role \<Rightarrow> acc_error + Role" where
  "Role_Enable now r =
     (if role_Status r \<noteq> RoleDisabled then Inl Acc_InvalidRoleTransition
      else if IsSystemRole r then Inl Acc_ProtectedSystemRole
      else Inr (r\<lparr>role_Status := RoleActive, role_UpdatedAt := now\<rparr>))"

text \<open>The map \<open>values\<close> keeps the last scope of each permission; an absent permission reads as the empty scope.\<close>

definition containsOwnerRequiredPermissions :: "PermissionGrant list \<Rightarrow> bool" where
  "containsOwnerRequiredPermissions grants \<longleftrightarrow>
     (let values = map_of (rev (map (\<lambda>g. (gr_Permission g, gr_Scope g)) grants))
      in \<forall>required \<in> set OwnerRequiredPermissions. values required = Some DataScopeAll)"

definition Role_ReplacePermissions :: "PermissionGrant list \<Rightarrow> time \<Rightarrow> Role \<Rightarrow> acc_error + Role" where
  "Role_ReplacePermissions grants now r =
     (if IsOwner r \<and> \<not> containsOwnerRequiredPermissions grants then Inl Acc_ProtectedOwnerRole
      else Inr (r\<lparr>role_Permissions := sort_key gr_Permission grants, role_UpdatedAt := now\<rparr>))"

subsection \<open>Data policies\<close>

record DataPolicy =
  pol_ID :: string
  pol_TenantID :: string
  pol_Name :: string
  pol_Status :: string
  pol_SiteIDs :: "string list"
  pol_Version :: uint64
  pol_NotBefore :: "time option"
  pol_ExpiresAt :: "time option"
  pol_CreatedAt :: time
  pol_UpdatedAt :: time

text \<open>The loop over site identifiers that trims, refuses and drops repetitions; the limit is in bytes.\<close>

fun normalize_sites :: "nat \<Rightarrow> string list \<Rightarrow> string list \<Rightarrow> string list option" where
  "normalize_sites limit seen [] = Some (rev seen)"
| "normalize_sites limit seen (v # vs) =
     (let v = TrimSpace v
      in if v = '''' \<or> length v > limit then None
         else normalize_sites limit (if v \<in> set seen then seen else v # seen) vs)"

definition window_bad :: "time option \<Rightarrow> time option \<Rightarrow> bool" where
  "window_bad notBefore expiresAt \<longleftrightarrow> (case (notBefore, expiresAt) of (Some nb, Some e) \<Rightarrow> \<not> e > nb | _ \<Rightarrow> False)"

definition Policy_Apply :: "string \<Rightarrow> string list \<Rightarrow> time option \<Rightarrow> time option \<Rightarrow> time \<Rightarrow> DataPolicy \<Rightarrow> acc_error + DataPolicy" where
  "Policy_Apply name siteIDs notBefore expiresAt now p =
     (if pol_Status p = PolicyRevoked then Inl Acc_InvalidDataPolicy
      else let name = TrimSpace name
        in if name = '''' \<or> rune_count name > 100 then Inl Acc_InvalidDataPolicy
           else if window_bad notBefore expiresAt then Inl Acc_InvalidDataPolicy
           else case normalize_sites 160 [] siteIDs of
                  None \<Rightarrow> Inl Acc_InvalidDataPolicy
                | Some normalized \<Rightarrow> Inr (p\<lparr>pol_Name := name, pol_SiteIDs := sort normalized, pol_NotBefore := notBefore,
                                              pol_ExpiresAt := expiresAt, pol_UpdatedAt := now\<rparr>))"

definition NewDataPolicy :: "string \<Rightarrow> string \<Rightarrow> string \<Rightarrow> string list \<Rightarrow> time option \<Rightarrow> time option \<Rightarrow> time \<Rightarrow> acc_error + DataPolicy" where
  "NewDataPolicy i tenantID name siteIDs notBefore expiresAt now =
     (let p = \<lparr>pol_ID = TrimSpace i, pol_TenantID = TrimSpace tenantID, pol_Name = '''', pol_Status = PolicyActive, pol_SiteIDs = [], pol_Version = 1,
               pol_NotBefore = None, pol_ExpiresAt = None, pol_CreatedAt = now, pol_UpdatedAt = now\<rparr>
      in if pol_ID p = '''' \<or> length (pol_ID p) > 160 \<or> pol_TenantID p = '''' then Inl Acc_InvalidDataPolicy
         else Policy_Apply name siteIDs notBefore expiresAt now p)"

definition EffectiveAt :: "time \<Rightarrow> DataPolicy \<Rightarrow> bool \<times> string" where
  "EffectiveAt now p =
     (if pol_Status p = PolicyRevoked then (False, ''revoked'')
      else if pol_Status p \<noteq> PolicyActive then (False, ''missing'')
      else case pol_NotBefore p of Some nb \<Rightarrow>
             (if now < nb then (False, ''not_started'')
              else case pol_ExpiresAt p of Some e \<Rightarrow> (if \<not> now < e then (False, ''expired'') else (True, '''')) | None \<Rightarrow> (True, ''''))
           | None \<Rightarrow> (case pol_ExpiresAt p of Some e \<Rightarrow> (if \<not> now < e then (False, ''expired'') else (True, '''')) | None \<Rightarrow> (True, '''')))"

subsection \<open>The tables\<close>

text \<open>The row of a tenant: the columns of the domain object and those of the profile and the branding.\<close>

record tenantRecord = Tenant +
  tnr_ShortName :: string
  tnr_Industry :: string
  tnr_CompanySize :: string
  tnr_Timezone :: string
  tnr_ContactName :: string
  tnr_Phone :: string
  tnr_Email :: string
  tnr_Address :: string
  tnr_Description :: string
  tnr_LogoAssetRef :: string
  tnr_BrandPreset :: string
  tnr_BrandPrimary :: string

record userRecord =
  usr_ID :: string
  usr_Status :: string

record membershipRecord =
  mem_TenantID :: string
  mem_UserID :: string
  mem_Status :: string
  mem_Name :: string
  mem_EmployeeID :: string
  mem_Position :: string
  mem_DepartmentID :: string
  mem_AvatarAssetRef :: string
  mem_SelfDeletedAt :: "time option"
  mem_Version :: uint64
  mem_CreatedAt :: time
  mem_UpdatedAt :: time

record roleRecord =
  rr_ID :: string
  rr_TenantID :: string
  rr_Name :: string
  rr_Description :: string
  rr_RoleCode :: "string option"
  rr_SystemRole :: bool
  rr_DataPolicyID :: "string option"
  rr_DataPolicyAcceptedVersion :: "uint64 option"
  rr_Status :: string
  rr_Version :: uint64

record memberRoleRecord =
  mr_TenantID :: string
  mr_UserID :: string
  mr_RoleID :: string

record permissionGrantRecord =
  pg_TenantID :: string
  pg_RoleID :: string
  pg_Permission :: string
  pg_Scope :: string

record memberSiteRecord =
  site_TenantID :: string
  site_UserID :: string
  site_SiteID :: string

record dataPolicyRecord =
  dp_TenantID :: string
  dp_ID :: string
  dp_Name :: string
  dp_Status :: string
  dp_Version :: uint64
  dp_NotBefore :: "time option"
  dp_ExpiresAt :: "time option"
  dp_CreatedAt :: time
  dp_UpdatedAt :: time

record dataPolicySiteRecord =
  dps_TenantID :: string
  dps_PolicyID :: string
  dps_SiteID :: string

record removedRoleSnapshotRecord =
  rrs_TenantID :: string
  rrs_UserID :: string
  rrs_RoleID :: string
  rrs_RemovedVersion :: uint64
  rrs_CapturedAt :: time

record removedSiteSnapshotRecord =
  rss_TenantID :: string
  rss_UserID :: string
  rss_SiteID :: string
  rss_RemovedVersion :: uint64
  rss_CapturedAt :: time

record roleCreationRecord =
  rcr_Key :: string
  rcr_TenantID :: string
  rcr_Fingerprint :: string
  rcr_Payload :: "Role option"

record apiTokenRecord =
  tok_Hash :: string
  tok_TenantID :: string
  tok_UserID :: string
  tok_ExpiresAt :: "time option"
  tok_Disabled :: bool
  tok_CreatedAt :: time

record memberStatusAppealRecord =
  map_TenantID :: string
  map_UserID :: string
  map_AppealID :: string
  map_MembershipStatus :: string
  map_State :: string
  map_Reason :: string
  map_NotificationEvents :: "string list"
  map_SubmittedAt :: time
  map_UpdatedAt :: time

record webIdentityRecord =
  wid_Issuer :: string
  wid_Subject :: string
  wid_ActorKind :: string
  wid_ActorID :: string
  wid_Email :: string
  wid_CreatedAt :: time
  wid_UpdatedAt :: time

record webSessionRecord =
  wsr_TokenHash :: string
  wsr_Issuer :: string
  wsr_Subject :: string
  wsr_ActiveTenantID :: string
  wsr_ContextVersion :: uint64
  wsr_CSRFToken :: string
  wsr_ExpiresAt :: time
  wsr_RevokedAt :: "time option"
  wsr_RevokedReason :: string
  wsr_RevokedScope :: string
  wsr_CreatedAt :: time
  wsr_UpdatedAt :: time

record webLoginFlowRecord =
  wlf_StateHash :: string
  wlf_BrowserHash :: string
  wlf_CodeVerifier :: string
  wlf_NonceHash :: string
  wlf_ReturnTo :: string
  wlf_ExpiresAt :: time
  wlf_CreatedAt :: time

record platformCredentialRecord =
  plc_TokenHash :: string
  plc_Subject :: string
  plc_Disabled :: bool
  plc_CreatedAt :: time

record platformPermissionGrantRecord =
  plg_Subject :: string
  plg_Permission :: string

record serviceAPICredentialRecord =
  sac_KeyID :: string
  sac_Subject :: string
  sac_TenantID :: string
  sac_SecretDigest :: string
  sac_Disabled :: bool
  sac_NotBefore :: "time option"
  sac_ExpiresAt :: "time option"
  sac_CreatedAt :: time
  sac_UpdatedAt :: time

record serviceAPIOperationRecord =
  sao_KeyID :: string
  sao_Operation :: string

record serviceAPINonceRecord =
  san_KeyID :: string
  san_Nonce :: string
  san_ExpiresAt :: time
  san_CreatedAt :: time

record AccDB =
  adb_tenants :: "tenantRecord list"
  adb_users :: "userRecord list"
  adb_memberships :: "membershipRecord list"
  adb_roles :: "roleRecord list"
  adb_member_roles :: "memberRoleRecord list"
  adb_grants :: "permissionGrantRecord list"
  adb_member_sites :: "memberSiteRecord list"
  adb_policies :: "dataPolicyRecord list"
  adb_policy_sites :: "dataPolicySiteRecord list"
  adb_removed_roles :: "removedRoleSnapshotRecord list"
  adb_removed_sites :: "removedSiteSnapshotRecord list"
  adb_role_creations :: "roleCreationRecord list"
  adb_api_tokens :: "apiTokenRecord list"
  adb_appeals :: "memberStatusAppealRecord list"
  adb_web_identities :: "webIdentityRecord list"
  adb_web_sessions :: "webSessionRecord list"
  adb_login_flows :: "webLoginFlowRecord list"
  adb_platform_credentials :: "platformCredentialRecord list"
  adb_platform_grants :: "platformPermissionGrantRecord list"
  adb_service_credentials :: "serviceAPICredentialRecord list"
  adb_service_operations :: "serviceAPIOperationRecord list"
  adb_service_nonces :: "serviceAPINonceRecord list"

definition empty_adb :: AccDB where
  "empty_adb = \<lparr>adb_tenants = [], adb_users = [], adb_memberships = [], adb_roles = [], adb_member_roles = [], adb_grants = [], adb_member_sites = [],
     adb_policies = [], adb_policy_sites = [], adb_removed_roles = [], adb_removed_sites = [], adb_role_creations = [],
     adb_api_tokens = [], adb_appeals = [], adb_web_identities = [], adb_web_sessions = [], adb_login_flows = [], adb_platform_credentials = [],
     adb_platform_grants = [], adb_service_credentials = [], adb_service_operations = [], adb_service_nonces = []\<rparr>"

text \<open>The caller a request was authenticated as (\<open>identity.FromContext\<close>), when there is one.\<close>

record Principal =
  prn_Authenticated :: bool
  prn_Subject :: string
  prn_TenantID :: string
  prn_UserID :: string
  prn_Roles :: "string list"
  prn_AuthMethod :: string

definition trustedTenantID :: "Principal option \<Rightarrow> acc_error + string" where
  "trustedTenantID ctx =
     (case ctx of None \<Rightarrow> Inl Acc_TenantContextRequired
      | Some p \<Rightarrow> if \<not> prn_Authenticated p \<or> TrimSpace (prn_TenantID p) = '''' then Inl Acc_TenantContextRequired
                  else Inr (TrimSpace (prn_TenantID p)))"

text \<open>A conditional update: the matching rows are replaced.\<close>

definition update_where :: "('r \<Rightarrow> bool) \<Rightarrow> ('r \<Rightarrow> 'r) \<Rightarrow> 'r list \<Rightarrow> 'r list" where
  "update_where P f rows = map (\<lambda>r. if P r then f r else r) rows"

end
