(* ===== verification/Tenant_Roles.thy ===== *)
theory Tenant_Roles
  imports Tenant_Model
begin

section \<open>Tenant roles, their permissions and members\<close>

text \<open>
  The role repository (\<open>internal/access/infrastructure/persistence/role.go\<close>, \<open>role_creation.go\<close>), the data
  policy repository (\<open>data_policy.go\<close>) and the service over them
  (\<open>internal/access/application/tenant_role_permission.go\<close>, \<open>tenant_role_creation.go\<close>,
  \<open>tenant_role_invariant.go\<close>, \<open>tenant_data_policy.go\<close>). Every operation is one root transaction: it returns
  an error, and then the tables are rolled back, or its result with the tables. The indexes of
  the schema (the primary keys, a name and a code per tenant) refuse a row with \<open>Acc_Duplicate\<close>.
\<close>

subsection \<open>Reading roles and policies\<close>

definition roleCodePointer :: "string \<Rightarrow> string option" where
  "roleCodePointer value = (let value = TrimSpace value in if value = '''' then None else Some value)"

definition roleCodeValue :: "string option \<Rightarrow> string" where
  "roleCodeValue value = (case value of None \<Rightarrow> '''' | Some v \<Rightarrow> TrimSpace v)"

definition isOwnerRoleRecord :: "roleRecord \<Rightarrow> bool" where
  "isOwnerRoleRecord r \<longleftrightarrow> rr_RoleCode r = Some OwnerRoleCode \<or> (rr_RoleCode r = None \<and> rr_Name r = OwnerRoleName)"

definition role_is :: "string \<Rightarrow> string \<Rightarrow> roleRecord \<Rightarrow> bool" where
  "role_is tenantID roleID r \<longleftrightarrow> rr_TenantID r = tenantID \<and> rr_ID r = roleID"

definition role_at :: "string \<Rightarrow> string \<Rightarrow> AccDB \<Rightarrow> roleRecord option" where
  "role_at tenantID roleID db = find (role_is tenantID roleID) (adb_roles db)"

definition member_is :: "string \<Rightarrow> string \<Rightarrow> membershipRecord \<Rightarrow> bool" where
  "member_is tenantID userID m \<longleftrightarrow> mem_TenantID m = tenantID \<and> mem_UserID m = userID"

definition member_at :: "string \<Rightarrow> string \<Rightarrow> AccDB \<Rightarrow> membershipRecord option" where
  "member_at tenantID userID db = find (member_is tenantID userID) (adb_memberships db)"

definition memberCount :: "string \<Rightarrow> string \<Rightarrow> AccDB \<Rightarrow> nat" where
  "memberCount tenantID roleID db = length (filter (\<lambda>a. mr_TenantID a = tenantID \<and> mr_RoleID a = roleID) (adb_member_roles db))"

definition policyFromRecord :: "AccDB \<Rightarrow> dataPolicyRecord \<Rightarrow> DataPolicy" where
  "policyFromRecord db row =
     (let sites = filter (\<lambda>s. dps_TenantID s = dp_TenantID row \<and> dps_PolicyID s = dp_ID row) (adb_policy_sites db)
      in \<lparr>pol_ID = dp_ID row, pol_TenantID = dp_TenantID row, pol_Name = dp_Name row, pol_Status = dp_Status row,
          pol_SiteIDs = sort (map dps_SiteID sites), pol_Version = dp_Version row, pol_NotBefore = dp_NotBefore row,
          pol_ExpiresAt = dp_ExpiresAt row, pol_CreatedAt = dp_CreatedAt row, pol_UpdatedAt = dp_UpdatedAt row\<rparr>)"

definition policy_is :: "string \<Rightarrow> string \<Rightarrow> dataPolicyRecord \<Rightarrow> bool" where
  "policy_is tenantID policyID p \<longleftrightarrow> dp_TenantID p = tenantID \<and> dp_ID p = policyID"

definition policy_at :: "string \<Rightarrow> string \<Rightarrow> AccDB \<Rightarrow> dataPolicyRecord option" where
  "policy_at tenantID policyID db = find (policy_is tenantID policyID) (adb_policies db)"

definition Policy_Get :: "string \<Rightarrow> string \<Rightarrow> AccDB \<Rightarrow> acc_error + DataPolicy" where
  "Policy_Get tenantID policyID db =
     (case policy_at (TrimSpace tenantID) (TrimSpace policyID) db of
        None \<Rightarrow> Inl Acc_PolicyNotFound
      | Some row \<Rightarrow> Inr (policyFromRecord db row))"

definition roleDataPolicyReference :: "time \<Rightarrow> AccDB \<Rightarrow> roleRecord \<Rightarrow> DataPolicyReference option" where
  "roleDataPolicyReference now db r =
     (case rr_DataPolicyID r of
        None \<Rightarrow> None
      | Some pid \<Rightarrow>
          if TrimSpace pid = '''' then None
          else let accepted = (case rr_DataPolicyAcceptedVersion r of None \<Rightarrow> 0 | Some v \<Rightarrow> v)
            in case Policy_Get (rr_TenantID r) pid db of
                 Inl e \<Rightarrow> Some \<lparr>dpr_PolicyID = pid, dpr_PolicyName = '''', dpr_PolicyVersion = 0, dpr_AcceptedVersion = accepted,
                                  dpr_Effective = False, dpr_InvalidReason = ''missing''\<rparr>
               | Inr p \<Rightarrow> Some \<lparr>dpr_PolicyID = pol_ID p, dpr_PolicyName = pol_Name p, dpr_PolicyVersion = pol_Version p,
                                  dpr_AcceptedVersion = accepted, dpr_Effective = fst (EffectiveAt now p),
                                  dpr_InvalidReason = snd (EffectiveAt now p)\<rparr>)"

definition role_grants :: "string \<Rightarrow> string \<Rightarrow> AccDB \<Rightarrow> permissionGrantRecord list" where
  "role_grants tenantID roleID db =
     sort_key pg_Permission (filter (\<lambda>g. pg_TenantID g = tenantID \<and> pg_RoleID g = roleID) (adb_grants db))"

definition roleFromRecord :: "time \<Rightarrow> AccDB \<Rightarrow> roleRecord \<Rightarrow> Role" where
  "roleFromRecord now db row =
     \<lparr>role_ID = rr_ID row, role_TenantID = rr_TenantID row, role_Name = rr_Name row, role_Description = rr_Description row,
      role_Code = roleCodeValue (rr_RoleCode row), role_System = rr_SystemRole row,
      role_MemberCount = of_nat (memberCount (rr_TenantID row) (rr_ID row) db), role_Status = rr_Status row,
      role_Permissions = map (\<lambda>g. \<lparr>gr_TenantID = rr_TenantID row, gr_RoleID = rr_ID row, gr_Permission = pg_Permission g, gr_Scope = pg_Scope g\<rparr>)
        (role_grants (rr_TenantID row) (rr_ID row) db),
      role_DataPolicy = roleDataPolicyReference now db row, role_Version = rr_Version row, role_UpdatedAt = 0\<rparr>"

definition Role_Get :: "time \<Rightarrow> string \<Rightarrow> string \<Rightarrow> AccDB \<Rightarrow> acc_error + Role" where
  "Role_Get now tenantID roleID db =
     (case role_at tenantID roleID db of None \<Rightarrow> Inl Acc_RoleNotFound | Some row \<Rightarrow> Inr (roleFromRecord now db row))"

definition currentActiveOwners :: "string \<Rightarrow> string \<Rightarrow> AccDB \<Rightarrow> nat" where
  "currentActiveOwners tenantID roleID db =
     length [mr_UserID a. a \<leftarrow> adb_member_roles db, mr_TenantID a = tenantID \<and> mr_RoleID a = roleID,
               m \<leftarrow> adb_memberships db, mem_TenantID m = mr_TenantID a \<and> mem_UserID m = mr_UserID a \<and> mem_Status m = MemberActive]"

subsection \<open>Writing roles\<close>

definition insert_role :: "roleRecord \<Rightarrow> AccDB \<Rightarrow> acc_error + AccDB" where
  "insert_role row db =
     (if \<exists>r \<in> set (adb_roles db). rr_ID r = rr_ID row \<or>
           (rr_TenantID r = rr_TenantID row \<and> (rr_Name r = rr_Name row \<or> (rr_RoleCode row \<noteq> None \<and> rr_RoleCode r = rr_RoleCode row)))
      then Inl Acc_Duplicate
      else Inr (db\<lparr>adb_roles := adb_roles db @ [row]\<rparr>))"

definition insert_member_role :: "memberRoleRecord \<Rightarrow> AccDB \<Rightarrow> acc_error + AccDB" where
  "insert_member_role a db =
     (if a \<in> set (adb_member_roles db) then Inl Acc_Duplicate else Inr (db\<lparr>adb_member_roles := adb_member_roles db @ [a]\<rparr>))"

definition ensure_member_role :: "memberRoleRecord \<Rightarrow> AccDB \<Rightarrow> AccDB" where
  "ensure_member_role a db =
     (if a \<in> set (adb_member_roles db) then db else db\<lparr>adb_member_roles := adb_member_roles db @ [a]\<rparr>)"

definition grant_is :: "string \<Rightarrow> string \<Rightarrow> string \<Rightarrow> permissionGrantRecord \<Rightarrow> bool" where
  "grant_is tenantID roleID permission g \<longleftrightarrow> pg_TenantID g = tenantID \<and> pg_RoleID g = roleID \<and> pg_Permission g = permission"

definition insert_grant :: "permissionGrantRecord \<Rightarrow> permissionGrantRecord list \<Rightarrow> acc_error + permissionGrantRecord list" where
  "insert_grant g gs =
     (if \<exists>h \<in> set gs. grant_is (pg_TenantID g) (pg_RoleID g) (pg_Permission g) h then Inl Acc_Duplicate else Inr (gs @ [g]))"

definition role_row :: "Role \<Rightarrow> roleRecord" where
  "role_row r = \<lparr>rr_ID = role_ID r, rr_TenantID = role_TenantID r, rr_Name = role_Name r, rr_Description = role_Description r,
     rr_RoleCode = roleCodePointer (role_Code r), rr_SystemRole = role_System r, rr_DataPolicyID = None, rr_DataPolicyAcceptedVersion = None,
     rr_Status = role_Status r, rr_Version = role_Version r\<rparr>"

definition Role_Create :: "Role \<Rightarrow> AccDB \<Rightarrow> acc_error + AccDB" where
  "Role_Create r db = insert_role (role_row r) db"

definition ensureTenantAdminRole :: "string \<Rightarrow> time \<Rightarrow> AccDB \<Rightarrow> acc_error + AccDB" where
  "ensureTenantAdminRole tenantID now db =
     (let adminID = tenantID @ '':admin''
      in case role_at tenantID adminID db of
           Some existing \<Rightarrow>
             if rr_RoleCode existing \<noteq> Some AdminRoleCode \<or> \<not> rr_SystemRole existing
             then (if \<exists>r \<in> set (adb_roles db). rr_TenantID r = tenantID \<and> rr_ID r \<noteq> adminID \<and> rr_RoleCode r = Some AdminRoleCode then Inl Acc_Duplicate
                   else Inr (db\<lparr>adb_roles := update_where (role_is tenantID adminID)
                               (\<lambda>r. r\<lparr>rr_RoleCode := Some AdminRoleCode, rr_SystemRole := True, rr_Status := RoleActive\<rparr>) (adb_roles db)\<rparr>))
             else Inr db
         | None \<Rightarrow> insert_role (role_row (NewAdminRole adminID tenantID now)) db)"

fun insert_grants :: "permissionGrantRecord list \<Rightarrow> permissionGrantRecord list \<Rightarrow> acc_error + permissionGrantRecord list" where
  "insert_grants [] gs = Inr gs"
| "insert_grants (g # rest) gs = bind_result (insert_grant g gs) (insert_grants rest)"

definition grant_row :: "PermissionGrant \<Rightarrow> permissionGrantRecord" where
  "grant_row g = \<lparr>pg_TenantID = gr_TenantID g, pg_RoleID = gr_RoleID g, pg_Permission = gr_Permission g, pg_Scope = gr_Scope g\<rparr>"

definition BootstrapOwner :: "string \<Rightarrow> string \<Rightarrow> time \<Rightarrow> AccDB \<Rightarrow> acc_error + (Role \<times> AccDB)" where
  "BootstrapOwner tenantID userID now db =
     (let tenantID = TrimSpace tenantID; userID = TrimSpace userID; roleID = tenantID @ '':owner'';
          assignment = \<lparr>mr_TenantID = tenantID, mr_UserID = userID, mr_RoleID = roleID\<rparr>
      in if tenantID = '''' \<or> userID = '''' then Inl (Acc_Message ''owner bootstrap requires tenant and user'')
         else if \<not> (\<exists>m \<in> set (adb_memberships db). member_is tenantID userID m \<and> mem_Status m = MemberActive) then Inl Acc_RoleMember
         else case role_at tenantID roleID db of
           Some existing \<Rightarrow>
             if rr_Name existing \<noteq> OwnerRoleName \<or> rr_Status existing \<noteq> RoleActive then Inl Acc_RoleConflict
             else
               bind_result
                 (if rr_RoleCode existing \<noteq> Some OwnerRoleCode \<or> \<not> rr_SystemRole existing
                  then (if \<exists>r \<in> set (adb_roles db). rr_TenantID r = tenantID \<and> rr_ID r \<noteq> roleID \<and> rr_RoleCode r = Some OwnerRoleCode
                        then Inl Acc_Duplicate
                        else Inr (db\<lparr>adb_roles := update_where (role_is tenantID roleID)
                                    (\<lambda>r. r\<lparr>rr_RoleCode := Some OwnerRoleCode, rr_SystemRole := True\<rparr>) (adb_roles db)\<rparr>))
                  else Inr db) (\<lambda>db1.
               bind_result (ensureTenantAdminRole tenantID now db1) (\<lambda>db2.
               let db3 = ensure_member_role assignment db2
               in bind_result (Role_Get now tenantID roleID db3) (\<lambda>r. Inr (r, db3))))
         | None \<Rightarrow>
             let owner = NewOwnerRole roleID tenantID now
             in bind_result (insert_role (role_row owner) db) (\<lambda>db1.
                bind_result (ensureTenantAdminRole tenantID now db1) (\<lambda>db2.
                bind_result (insert_grants (map (\<lambda>g. \<lparr>pg_TenantID = tenantID, pg_RoleID = roleID, pg_Permission = gr_Permission g, pg_Scope = gr_Scope g\<rparr>)
                               (role_Permissions owner)) (adb_grants db2)) (\<lambda>gs.
                bind_result (insert_member_role assignment (db2\<lparr>adb_grants := gs\<rparr>)) (\<lambda>db4.
                bind_result (Role_Get now tenantID roleID db4) (\<lambda>r. Inr (r, db4)))))))"

definition bump_version :: "string \<Rightarrow> string \<Rightarrow> uint64 \<Rightarrow> (roleRecord \<Rightarrow> roleRecord) \<Rightarrow> AccDB \<Rightarrow> acc_error + AccDB" where
  "bump_version tenantID roleID expected f db =
     (let hit = (\<lambda>r. role_is tenantID roleID r \<and> rr_Version r = expected)
      in if length (filter hit (adb_roles db)) \<noteq> 1 then Inl Acc_RoleConflict
         else Inr (db\<lparr>adb_roles := update_where hit (\<lambda>r. (f r)\<lparr>rr_Version := rr_Version r + 1\<rparr>) (adb_roles db)\<rparr>))"

definition Role_Update :: "Role \<Rightarrow> uint64 \<Rightarrow> AccDB \<Rightarrow> acc_error + (Role \<times> AccDB)" where
  "Role_Update role expected db =
     (if expected = 0 then Inl (Acc_Message ''role update requires repository, value and version'')
      else case role_at (role_TenantID role) (role_ID role) db of
        None \<Rightarrow> Inl Acc_RoleNotFound
      | Some locked \<Rightarrow>
          if rr_Version locked \<noteq> expected then Inl Acc_RoleConflict
          else if rr_SystemRole locked \<and> (rr_Name locked \<noteq> role_Name role \<or> rr_Description locked \<noteq> role_Description role \<or> rr_Status locked \<noteq> role_Status role)
            then Inl Acc_RoleProtected
          else if rr_Status locked = RoleActive \<and> role_Status role = RoleDisabled \<and> memberCount (role_TenantID role) (role_ID role) db > 0
            then Inl Acc_RoleInUse
          else if \<exists>r \<in> set (adb_roles db). rr_TenantID r = role_TenantID role \<and> rr_Name r = role_Name role \<and> rr_ID r \<noteq> role_ID role
            then Inl Acc_Duplicate
          else bind_result
            (bump_version (role_TenantID role) (role_ID role) expected
               (\<lambda>r. r\<lparr>rr_Name := role_Name role, rr_Description := role_Description role, rr_Status := role_Status role\<rparr>) db)
            (\<lambda>db'. Inr (role\<lparr>role_Version := expected + 1\<rparr>, db')))"

definition Role_Delete :: "time \<Rightarrow> string \<Rightarrow> string \<Rightarrow> uint64 \<Rightarrow> AccDB \<Rightarrow> acc_error + (Role \<times> AccDB)" where
  "Role_Delete now tenantID roleID expected db =
     (if TrimSpace tenantID = '''' \<or> TrimSpace roleID = '''' \<or> expected = 0 then Inl (Acc_Message ''role delete requires tenant, role and version'')
      else case role_at tenantID roleID db of
        None \<Rightarrow> Inl Acc_RoleNotFound
      | Some locked \<Rightarrow>
          if rr_Version locked \<noteq> expected then Inl Acc_RoleConflict
          else if rr_SystemRole locked \<or> isOwnerRoleRecord locked then Inl Acc_RoleProtected
          else if memberCount tenantID roleID db > 0 then Inl Acc_RoleInUse
          else Inr (roleFromRecord now db locked,
                    db\<lparr>adb_grants := filter (\<lambda>g. \<not> (pg_TenantID g = tenantID \<and> pg_RoleID g = roleID)) (adb_grants db),
                       adb_roles := filter (\<lambda>r. \<not> (role_is tenantID roleID r \<and> rr_Version r = expected)) (adb_roles db)\<rparr>))"

text \<open>\<open>ReplacePermissions\<close>: the grants that are gone are deleted, then each desired grant is created or its scope changed.\<close>

definition drop_removed_grants :: "string \<Rightarrow> string \<Rightarrow> string list \<Rightarrow> permissionGrantRecord list \<Rightarrow> permissionGrantRecord list" where
  "drop_removed_grants tenantID roleID desired gs =
     filter (\<lambda>g. \<not> (pg_TenantID g = tenantID \<and> pg_RoleID g = roleID \<and> pg_Permission g \<notin> set desired)) gs"

fun apply_grants :: "string \<Rightarrow> string \<Rightarrow> (string \<Rightarrow> string option) \<Rightarrow> PermissionGrant list \<Rightarrow> permissionGrantRecord list
    \<Rightarrow> acc_error + permissionGrantRecord list" where
  "apply_grants tenantID roleID existing [] gs = Inr gs"
| "apply_grants tenantID roleID existing (g # rest) gs =
     (case existing (gr_Permission g) of
        None \<Rightarrow> bind_result (insert_grant \<lparr>pg_TenantID = tenantID, pg_RoleID = roleID, pg_Permission = gr_Permission g, pg_Scope = gr_Scope g\<rparr> gs)
                  (apply_grants tenantID roleID existing rest)
      | Some scope \<Rightarrow>
          apply_grants tenantID roleID existing rest
            (if scope \<noteq> gr_Scope g then update_where (grant_is tenantID roleID (gr_Permission g)) (\<lambda>h. h\<lparr>pg_Scope := gr_Scope g\<rparr>) gs else gs))"

definition ReplacePermissions :: "Role \<Rightarrow> uint64 \<Rightarrow> AccDB \<Rightarrow> acc_error + (Role \<times> AccDB)" where
  "ReplacePermissions role expected db =
     (if expected = 0 then Inl (Acc_Message ''permission replacement requires repository, value and version'')
      else case role_at (role_TenantID role) (role_ID role) db of
        None \<Rightarrow> Inl Acc_RoleNotFound
      | Some locked \<Rightarrow>
          if rr_Version locked \<noteq> expected then Inl Acc_RoleConflict
          else
            let existing = map_of (map (\<lambda>g. (pg_Permission g, pg_Scope g)) (role_grants (role_TenantID role) (role_ID role) db));
                desired = map gr_Permission (role_Permissions role)
            in bind_result (apply_grants (role_TenantID role) (role_ID role) existing (role_Permissions role)
                              (drop_removed_grants (role_TenantID role) (role_ID role) desired (adb_grants db))) (\<lambda>gs.
               bind_result (bump_version (role_TenantID role) (role_ID role) expected (\<lambda>r. r) (db\<lparr>adb_grants := gs\<rparr>)) (\<lambda>db'.
               Inr (role\<lparr>role_Version := expected + 1\<rparr>, db'))))"

definition AssignMember :: "time \<Rightarrow> string \<Rightarrow> string \<Rightarrow> string \<Rightarrow> AccDB \<Rightarrow> acc_error + (Role \<times> AccDB)" where
  "AssignMember now tenantID roleID userID db =
     (if \<not> (\<exists>r \<in> set (adb_roles db). role_is tenantID roleID r \<and> rr_Status r = RoleActive) then Inl Acc_RoleNotFound
      else if \<not> (\<exists>m \<in> set (adb_memberships db). member_is tenantID userID m \<and> mem_Status m \<in> {MemberInvited, MemberActive}) then Inl Acc_RoleMember
      else let db' = ensure_member_role \<lparr>mr_TenantID = tenantID, mr_UserID = userID, mr_RoleID = roleID\<rparr> db
        in bind_result (Role_Get now tenantID roleID db') (\<lambda>r. Inr (r, db')))"

definition RevokeMember :: "time \<Rightarrow> string \<Rightarrow> string \<Rightarrow> string \<Rightarrow> AccDB \<Rightarrow> acc_error + (Role \<times> AccDB)" where
  "RevokeMember now tenantID roleID userID db =
     (case role_at tenantID roleID db of
        None \<Rightarrow> Inl Acc_RoleNotFound
      | Some role \<Rightarrow>
          let assignment = \<lparr>mr_TenantID = tenantID, mr_UserID = userID, mr_RoleID = roleID\<rparr>
          in if assignment \<notin> set (adb_member_roles db) then bind_result (Role_Get now tenantID roleID db) (\<lambda>r. Inr (r, db))
             else if isOwnerRoleRecord role \<and> currentActiveOwners tenantID roleID db \<le> 1 then Inl Acc_LastTenantOwner
             else let db' = db\<lparr>adb_member_roles := filter (\<lambda>a. a \<noteq> assignment) (adb_member_roles db)\<rparr>
               in bind_result (Role_Get now tenantID roleID db') (\<lambda>r. Inr (r, db')))"

text \<open>\<open>First\<close> orders by the primary key.\<close>

definition owner_role_row :: "string \<Rightarrow> AccDB \<Rightarrow> roleRecord option" where
  "owner_role_row tenantID db =
     (case sort_key rr_ID (filter (\<lambda>r. rr_TenantID r = tenantID \<and> isOwnerRoleRecord r) (adb_roles db)) of [] \<Rightarrow> None | r # _ \<Rightarrow> Some r)"

definition AssertMemberCanDeactivate :: "string \<Rightarrow> string \<Rightarrow> AccDB \<Rightarrow> acc_error err" where
  "AssertMemberCanDeactivate tenantID userID db =
     (let tenantID = TrimSpace tenantID; userID = TrimSpace userID
      in if tenantID = '''' \<or> userID = '''' then Some (Acc_Message ''owner deactivation check requires tenant and user'')
         else case owner_role_row tenantID db of
           None \<Rightarrow> None
         | Some owner \<Rightarrow>
             if \<lparr>mr_TenantID = tenantID, mr_UserID = userID, mr_RoleID = rr_ID owner\<rparr> \<notin> set (adb_member_roles db) then None
             else if currentActiveOwners tenantID (rr_ID owner) db \<le> 1 then Some Acc_LastTenantOwner
             else None)"

subsection \<open>Data policies\<close>

definition replaceSites :: "string \<Rightarrow> string \<Rightarrow> string list \<Rightarrow> dataPolicySiteRecord list \<Rightarrow> acc_error + dataPolicySiteRecord list" where
  "replaceSites tenantID policyID ids rows =
     (if \<not> distinct ids then Inl Acc_Duplicate
      else Inr (filter (\<lambda>s. \<not> (dps_TenantID s = tenantID \<and> dps_PolicyID s = policyID)) rows @
                map (\<lambda>i. \<lparr>dps_TenantID = tenantID, dps_PolicyID = policyID, dps_SiteID = i\<rparr>) ids))"

definition Policy_Create :: "DataPolicy \<Rightarrow> AccDB \<Rightarrow> acc_error + AccDB" where
  "Policy_Create p db =
     (if policy_at (pol_TenantID p) (pol_ID p) db \<noteq> None then Inl Acc_Duplicate
      else bind_result (replaceSites (pol_TenantID p) (pol_ID p) (pol_SiteIDs p) (adb_policy_sites db)) (\<lambda>sites.
        Inr (db\<lparr>adb_policies := adb_policies db @
                  [\<lparr>dp_TenantID = pol_TenantID p, dp_ID = pol_ID p, dp_Name = pol_Name p, dp_Status = pol_Status p, dp_Version = pol_Version p,
                    dp_NotBefore = pol_NotBefore p, dp_ExpiresAt = pol_ExpiresAt p, dp_CreatedAt = pol_CreatedAt p, dp_UpdatedAt = pol_UpdatedAt p\<rparr>],
                adb_policy_sites := sites\<rparr>)))"

definition policy_cas :: "string \<Rightarrow> string \<Rightarrow> uint64 \<Rightarrow> (dataPolicyRecord \<Rightarrow> dataPolicyRecord) \<Rightarrow> AccDB \<Rightarrow> acc_error + AccDB" where
  "policy_cas tenantID policyID expected f db =
     (let hit = (\<lambda>p. policy_is tenantID policyID p \<and> dp_Version p = expected)
      in if length (filter hit (adb_policies db)) \<noteq> 1 then Inl Acc_PolicyConflict
         else Inr (db\<lparr>adb_policies := update_where hit (\<lambda>p. (f p)\<lparr>dp_Version := dp_Version p + 1\<rparr>) (adb_policies db)\<rparr>))"

definition Policy_Update :: "DataPolicy \<Rightarrow> uint64 \<Rightarrow> AccDB \<Rightarrow> acc_error + (DataPolicy \<times> AccDB)" where
  "Policy_Update p expected db =
     (if expected = 0 then Inl Acc_PolicyConflict
      else case policy_at (pol_TenantID p) (pol_ID p) db of
        None \<Rightarrow> Inl Acc_PolicyNotFound
      | Some locked \<Rightarrow>
          if dp_Version locked \<noteq> expected then Inl Acc_PolicyConflict
          else if dp_Status locked \<noteq> PolicyActive then Inl Acc_PolicyUnavailable
          else bind_result (policy_cas (pol_TenantID p) (pol_ID p) expected
                 (\<lambda>q. q\<lparr>dp_Name := pol_Name p, dp_NotBefore := pol_NotBefore p, dp_ExpiresAt := pol_ExpiresAt p, dp_UpdatedAt := pol_UpdatedAt p\<rparr>) db) (\<lambda>db1.
               bind_result (replaceSites (pol_TenantID p) (pol_ID p) (pol_SiteIDs p) (adb_policy_sites db1)) (\<lambda>sites.
               Inr (p\<lparr>pol_Version := expected + 1\<rparr>, db1\<lparr>adb_policy_sites := sites\<rparr>))))"

definition Policy_Revoke :: "string \<Rightarrow> string \<Rightarrow> uint64 \<Rightarrow> time \<Rightarrow> AccDB \<Rightarrow> acc_error + (DataPolicy \<times> AccDB)" where
  "Policy_Revoke tenantID policyID expected now db =
     (case policy_at tenantID policyID db of
        None \<Rightarrow> Inl Acc_PolicyNotFound
      | Some row \<Rightarrow>
          if dp_Version row \<noteq> expected then Inl Acc_PolicyConflict
          else if dp_Status row \<noteq> PolicyActive then Inl Acc_PolicyUnavailable
          else bind_result (policy_cas tenantID policyID expected (\<lambda>q. q\<lparr>dp_Status := PolicyRevoked, dp_UpdatedAt := now\<rparr>) db) (\<lambda>db'.
               bind_result (Policy_Get tenantID policyID db') (\<lambda>p. Inr (p, db'))))"

definition SetDataPolicy :: "string \<Rightarrow> string \<Rightarrow> uint64 \<Rightarrow> string \<Rightarrow> uint64 \<Rightarrow> time \<Rightarrow> AccDB \<Rightarrow> acc_error + (Role \<times> AccDB)" where
  "SetDataPolicy tenantID roleID roleVersion policyID policyVersion now db =
     (case role_at tenantID roleID db of
        None \<Rightarrow> Inl Acc_RoleNotFound
      | Some role \<Rightarrow>
          if rr_Version role \<noteq> roleVersion then Inl Acc_RoleConflict
          else
            let policyID = TrimSpace policyID;
                updates = (if policyID = '''' then
                             (if policyVersion \<noteq> 0 then Inl Acc_PolicyConflict
                              else Inr (\<lambda>r. r\<lparr>rr_DataPolicyID := None, rr_DataPolicyAcceptedVersion := None\<rparr>))
                           else case policy_at tenantID policyID db of
                             None \<Rightarrow> Inl Acc_PolicyUnavailable
                           | Some row \<Rightarrow>
                               if dp_Version row \<noteq> policyVersion then Inl Acc_PolicyConflict
                               else if \<not> fst (EffectiveAt now (policyFromRecord db row)) then Inl Acc_PolicyUnavailable
                               else Inr (\<lambda>r. r\<lparr>rr_DataPolicyID := Some policyID, rr_DataPolicyAcceptedVersion := Some policyVersion\<rparr>))
            in bind_result updates (\<lambda>f.
               bind_result (bump_version tenantID roleID roleVersion f db) (\<lambda>db'.
               bind_result (Role_Get now tenantID roleID db') (\<lambda>r. Inr (r, db')))))"

subsection \<open>Creating a role once\<close>

text \<open>
  \<open>CreateOnce\<close>: the receipt row of a key is inserted or found, and a finished receipt answers with
  the role it stored. The JSON text of the payload is the role it decodes to. A replay
  (\<open>ports.IsRoleCreationReplay\<close>) only reads the receipt.
\<close>

definition claim_receipt :: "bool \<Rightarrow> roleCreationRecord \<Rightarrow> roleCreationRecord list \<Rightarrow> bool \<times> roleCreationRecord list" where
  "claim_receipt replay fresh rows =
     (if \<not> replay \<and> (\<forall>c \<in> set rows. rcr_Key c \<noteq> rcr_Key fresh) then (True, rows @ [fresh]) else (False, rows))"

definition CreateOnce :: "bool \<Rightarrow> Role \<Rightarrow> string \<Rightarrow> string \<Rightarrow> AccDB \<Rightarrow> acc_error + (Role \<times> AccDB)" where
  "CreateOnce replay role key fingerprint db =
     (if role_TenantID role = '''' \<or> length key \<noteq> 64 \<or> length fingerprint \<noteq> 64 then Inl (Acc_Message ''invalid role creation receipt'')
      else
        let (inserted, receipts) = claim_receipt replay
              \<lparr>rcr_Key = key, rcr_TenantID = role_TenantID role, rcr_Fingerprint = fingerprint, rcr_Payload = None\<rparr> (adb_role_creations db)
        in case find (\<lambda>c. rcr_Key c = key) receipts of
             None \<Rightarrow> Inl Acc_RoleConflict
           | Some row \<Rightarrow>
               if rcr_TenantID row \<noteq> role_TenantID role \<or> rcr_Fingerprint row \<noteq> fingerprint then Inl Acc_RoleConflict
               else case rcr_Payload row of
                 Some original \<Rightarrow>
                   if role_ID original = '''' \<or> role_TenantID original \<noteq> role_TenantID role \<or> role_Version original \<noteq> 1 \<or> role_System original \<or>
                      length (role_Permissions original) \<noteq> 0
                   then Inl (Acc_Message ''corrupt role creation receipt'')
                   else Inr (original, db\<lparr>adb_role_creations := receipts\<rparr>)
               | None \<Rightarrow>
                   if \<not> inserted \<or> replay then Inl (Acc_Message ''incomplete role creation receipt'')
                   else bind_result (Role_Create role (db\<lparr>adb_role_creations := receipts\<rparr>)) (\<lambda>db'.
                     let hit = (\<lambda>c. rcr_Key c = key \<and> rcr_TenantID c = role_TenantID role \<and> rcr_Fingerprint c = fingerprint \<and> rcr_Payload c = None)
                     in if length (filter hit (adb_role_creations db')) \<noteq> 1 then Inl (Acc_Message ''role creation receipt lease lost'')
                        else Inr (role, db'\<lparr>adb_role_creations := update_where hit (\<lambda>c. c\<lparr>rcr_Payload := Some role\<rparr>) (adb_role_creations db')\<rparr>)))"

text \<open>
  The request's transport key and the deterministic protobuf encoding of the request are made
  outside the program; the encoding is an argument.
\<close>

definition createTenantRoleOnce :: "Principal option \<Rightarrow> bool \<Rightarrow> string \<Rightarrow> string \<Rightarrow> Role \<Rightarrow> AccDB \<Rightarrow> acc_error + (Role \<times> AccDB)" where
  "createTenantRoleOnce ctx replay transportKey payload role db =
     (case ctx of None \<Rightarrow> Inl Acc_InvalidRoleRequest
      | Some p \<Rightarrow>
          if \<not> prn_Authenticated p \<or> prn_Subject p = '''' \<or> prn_TenantID p \<noteq> role_TenantID role then Inl Acc_InvalidRoleRequest
          else if transportKey = '''' then Inl Acc_IdempotencyKeyRequired
          else case marshal (JArr [JStr ''tenant.role.create'', JStr (prn_TenantID p), JStr (prn_Subject p), JStr (prn_UserID p), JStr transportKey]) of
                 None \<Rightarrow> Inl (Acc_Message ''json'')
               | Some owner \<Rightarrow> CreateOnce replay role (sha256_hex owner) (sha256_hex payload) db)"

subsection \<open>The service\<close>

definition BootstrapTenantOwnerRole :: "string \<Rightarrow> string \<Rightarrow> time \<Rightarrow> AccDB \<Rightarrow> acc_error + (Role \<times> AccDB)" where
  "BootstrapTenantOwnerRole tenantID userID now db =
     (if TrimSpace tenantID = '''' \<or> TrimSpace userID = '''' then Inl Acc_InvalidRoleRequest
      else BootstrapOwner (TrimSpace tenantID) (TrimSpace userID) now db)"

definition CreateTenantRole :: "Principal option \<Rightarrow> bool \<Rightarrow> string \<Rightarrow> string \<Rightarrow> string \<Rightarrow> string \<Rightarrow> string \<Rightarrow> time \<Rightarrow> AccDB
    \<Rightarrow> acc_error + (Role \<times> AccDB)" where
  "CreateTenantRole ctx replay transportKey payload roleID name description now db =
     (let name = TrimSpace name; description = TrimSpace description
      in if name = '''' \<or> rune_count name > 100 \<or> rune_count description > 120 \<or> name = OwnerRoleName \<or> name = AdminRoleName \<or>
            name = OwnerRoleCode \<or> name = AdminRoleCode then Inl Acc_InvalidRoleRequest
         else bind_result (trustedTenantID ctx) (\<lambda>tenantID.
           createTenantRoleOnce ctx replay transportKey payload ((NewRole roleID tenantID name now)\<lparr>role_Description := description\<rparr>) db))"

definition mutateRole :: "Principal option \<Rightarrow> string \<Rightarrow> uint64 \<Rightarrow> (Role \<Rightarrow> acc_error + Role) \<Rightarrow> time \<Rightarrow> AccDB \<Rightarrow> acc_error + (Role \<times> AccDB)" where
  "mutateRole ctx roleID expected f now db =
     bind_result (trustedTenantID ctx) (\<lambda>tenantID.
     bind_result (Role_Get now tenantID roleID db) (\<lambda>current.
     if role_Version current \<noteq> expected then Inl Acc_RoleConflict
     else bind_result (f current) (\<lambda>changed. Role_Update changed expected db)))"

definition UpdateTenantRole :: "Principal option \<Rightarrow> string \<Rightarrow> string \<Rightarrow> string \<Rightarrow> uint64 \<Rightarrow> time \<Rightarrow> AccDB \<Rightarrow> acc_error + (Role \<times> AccDB)" where
  "UpdateTenantRole ctx roleID name description version now db =
     (if TrimSpace roleID = '''' \<or> TrimSpace name = '''' \<or> version = 0 \<or> rune_count (TrimSpace name) > 100 \<or> rune_count (TrimSpace description) > 120
      then Inl Acc_InvalidRoleRequest
      else mutateRole ctx (TrimSpace roleID) version
        (\<lambda>role. bind_result (Role_Rename (TrimSpace name) now role) (Role_UpdateDescription (TrimSpace description) now)) now db)"

definition DisableTenantRole :: "Principal option \<Rightarrow> string \<Rightarrow> uint64 \<Rightarrow> time \<Rightarrow> AccDB \<Rightarrow> acc_error + (Role \<times> AccDB)" where
  "DisableTenantRole ctx roleID version now db =
     (if TrimSpace roleID = '''' \<or> version = 0 then Inl Acc_InvalidRoleRequest
      else mutateRole ctx (TrimSpace roleID) version (Role_Disable now) now db)"

definition EnableTenantRole :: "Principal option \<Rightarrow> string \<Rightarrow> uint64 \<Rightarrow> time \<Rightarrow> AccDB \<Rightarrow> acc_error + (Role \<times> AccDB)" where
  "EnableTenantRole ctx roleID version now db =
     (if TrimSpace roleID = '''' \<or> version = 0 then Inl Acc_InvalidRoleRequest
      else mutateRole ctx (TrimSpace roleID) version (Role_Enable now) now db)"

definition DeleteTenantRole :: "Principal option \<Rightarrow> string \<Rightarrow> uint64 \<Rightarrow> time \<Rightarrow> AccDB \<Rightarrow> acc_error + (Role \<times> AccDB)" where
  "DeleteTenantRole ctx roleID version now db =
     (if TrimSpace roleID = '''' \<or> version = 0 then Inl Acc_InvalidRoleRequest
      else bind_result (trustedTenantID ctx) (\<lambda>tenantID. Role_Delete now tenantID (TrimSpace roleID) version db))"

text \<open>The protobuf enum of a scope: its number.\<close>

definition dataScopeDomain :: "int \<Rightarrow> string option" where
  "dataScopeDomain scope =
     (if scope = 1 then Some DataScopeNone else if scope = 2 then Some DataScopeSelf else if scope = 3 then Some DataScopeSites
      else if scope = 4 then Some DataScopeAll else None)"

fun grant_inputs :: "string \<Rightarrow> string \<Rightarrow> string list \<Rightarrow> (string \<times> int) option list \<Rightarrow> acc_error + PermissionGrant list" where
  "grant_inputs tenantID roleID seen [] = Inr []"
| "grant_inputs tenantID roleID seen (None # rest) = Inl Acc_InvalidRoleRequest"
| "grant_inputs tenantID roleID seen (Some (permission, scope) # rest) =
     (let permission = TrimSpace permission
      in case dataScopeDomain scope of
           None \<Rightarrow> Inl Acc_InvalidRoleRequest
         | Some sc \<Rightarrow>
             if permission = '''' \<or> permission \<in> set seen then Inl Acc_InvalidRoleRequest
             else bind_result (grant_inputs tenantID roleID (permission # seen) rest) (\<lambda>gs.
               Inr (\<lparr>gr_TenantID = tenantID, gr_RoleID = roleID, gr_Permission = permission, gr_Scope = sc\<rparr> # gs)))"

definition permissionGrantInputs :: "string \<Rightarrow> string \<Rightarrow> (string \<times> int) option list \<Rightarrow> acc_error + PermissionGrant list" where
  "permissionGrantInputs tenantID roleID inputs =
     bind_result (grant_inputs tenantID roleID [] inputs) (\<lambda>gs. Inr (sort_key gr_Permission gs))"

definition SetTenantRolePermissions :: "Principal option \<Rightarrow> string \<Rightarrow> uint64 \<Rightarrow> (string \<times> int) option list \<Rightarrow> time \<Rightarrow> AccDB
    \<Rightarrow> acc_error + (Role \<times> AccDB)" where
  "SetTenantRolePermissions ctx roleID version inputs now db =
     (if TrimSpace roleID = '''' \<or> version = 0 then Inl Acc_InvalidRoleRequest
      else bind_result (trustedTenantID ctx) (\<lambda>tenantID.
        bind_result (permissionGrantInputs tenantID (TrimSpace roleID) inputs) (\<lambda>grants.
        bind_result (Role_Get now tenantID (TrimSpace roleID) db) (\<lambda>current.
        if role_Version current \<noteq> version then Inl Acc_RoleConflict
        else bind_result (Role_ReplacePermissions grants now current) (\<lambda>changed. ReplacePermissions changed version db)))))"

definition AssignTenantRoleMember :: "Principal option \<Rightarrow> string \<Rightarrow> string \<Rightarrow> time \<Rightarrow> AccDB \<Rightarrow> acc_error + (Role \<times> AccDB)" where
  "AssignTenantRoleMember ctx roleID userID now db =
     (if TrimSpace roleID = '''' \<or> TrimSpace userID = '''' then Inl Acc_InvalidRoleRequest
      else bind_result (trustedTenantID ctx) (\<lambda>tenantID. AssignMember now tenantID (TrimSpace roleID) (TrimSpace userID) db))"

definition RevokeTenantRoleMember :: "Principal option \<Rightarrow> string \<Rightarrow> string \<Rightarrow> time \<Rightarrow> AccDB \<Rightarrow> acc_error + (Role \<times> AccDB)" where
  "RevokeTenantRoleMember ctx roleID userID now db =
     (if TrimSpace roleID = '''' \<or> TrimSpace userID = '''' then Inl Acc_InvalidRoleRequest
      else bind_result (trustedTenantID ctx) (\<lambda>tenantID. RevokeMember now tenantID (TrimSpace roleID) (TrimSpace userID) db))"

definition AssertTenantMemberDeactivationAllowed :: "Principal option \<Rightarrow> string \<Rightarrow> AccDB \<Rightarrow> acc_error err" where
  "AssertTenantMemberDeactivationAllowed ctx userID db =
     (if TrimSpace userID = '''' then Some Acc_InvalidRoleRequest
      else case trustedTenantID ctx of Inl e \<Rightarrow> Some e | Inr tenantID \<Rightarrow> AssertMemberCanDeactivate tenantID (TrimSpace userID) db)"

text \<open>
  Data policies. The site directory (\<open>ListAssignableRoleSites\<close>) belongs to another component and is an
  argument: it answers a list of identifiers with an error or with the sites it resolved (a nil
  entry is \<open>None\<close>) and their number. The two bounds of a policy are given as parsed times.
\<close>

type_synonym site_directory = "string list \<Rightarrow> acc_error + (string option list \<times> int)"

definition validatePolicySites :: "site_directory option \<Rightarrow> string list \<Rightarrow> acc_error err" where
  "validatePolicySites directory ids =
     (if ids = [] then None
      else case directory of
        None \<Rightarrow> Some Acc_PolicyUnavailable
      | Some ask \<Rightarrow>
          (case ask ids of
             Inl e \<Rightarrow> Some e
           | Inr (sites, n) \<Rightarrow>
               if length sites \<noteq> length ids \<or> n \<noteq> int (length ids) then Some Acc_PolicyUnavailable
               else if None \<in> set sites then Some Acc_PolicyUnavailable
               else if \<exists>i \<in> set ids. i \<notin> (TrimSpace \<circ> the) ` set sites then Some Acc_PolicyUnavailable
               else None))"

definition normalizePolicySites :: "string list \<Rightarrow> acc_error + string list" where
  "normalizePolicySites values = (case normalize_sites 160 [] values of None \<Rightarrow> Inl Acc_InvalidDataPolicy | Some out \<Rightarrow> Inr (sort out))"

definition policyWindow :: "time option \<Rightarrow> time option \<Rightarrow> acc_error + (time option \<times> time option)" where
  "policyWindow nb e = (if window_bad nb e then Inl Acc_InvalidDataPolicy else Inr (nb, e))"

definition policy_inputs :: "site_directory option \<Rightarrow> string list \<Rightarrow> time option \<Rightarrow> time option
    \<Rightarrow> acc_error + (string list \<times> time option \<times> time option)" where
  "policy_inputs directory siteIDs nb e =
     bind_result (normalizePolicySites siteIDs) (\<lambda>sites.
     case validatePolicySites directory sites of
       Some err \<Rightarrow> Inl err
     | None \<Rightarrow> bind_result (policyWindow nb e) (\<lambda>(nb, e). Inr (sites, nb, e)))"

definition CreateTenantDataPolicy :: "Principal option \<Rightarrow> site_directory option \<Rightarrow> string \<Rightarrow> string \<Rightarrow> string \<Rightarrow> string list \<Rightarrow> time option \<Rightarrow> time option
    \<Rightarrow> time \<Rightarrow> AccDB \<Rightarrow> acc_error + (DataPolicy \<times> AccDB)" where
  "CreateTenantDataPolicy ctx directory fresh policyID name siteIDs nb e now db =
     bind_result (trustedTenantID ctx) (\<lambda>tenantID.
     bind_result (policy_inputs directory siteIDs nb e) (\<lambda>(sites, nb, e).
     let i = (if TrimSpace policyID = '''' then fresh else TrimSpace policyID)
     in bind_result (NewDataPolicy i tenantID name sites nb e now) (\<lambda>p.
        bind_result (Policy_Create p db) (\<lambda>db'. Inr (p, db')))))"

definition UpdateTenantDataPolicy :: "Principal option \<Rightarrow> site_directory option \<Rightarrow> string \<Rightarrow> string \<Rightarrow> string list \<Rightarrow> time option \<Rightarrow> time option \<Rightarrow> uint64
    \<Rightarrow> time \<Rightarrow> AccDB \<Rightarrow> acc_error + (DataPolicy \<times> AccDB)" where
  "UpdateTenantDataPolicy ctx directory policyID name siteIDs nb e version now db =
     (if TrimSpace policyID = '''' \<or> version = 0 then Inl Acc_InvalidRoleRequest
      else bind_result (trustedTenantID ctx) (\<lambda>tenantID.
        bind_result (policy_inputs directory siteIDs nb e) (\<lambda>(sites, nb, e).
        bind_result (Policy_Get tenantID (TrimSpace policyID) db) (\<lambda>current.
        if pol_Version current \<noteq> version then Inl Acc_PolicyConflict
        else bind_result (Policy_Apply name sites nb e now current) (\<lambda>p. Policy_Update p version db)))))"

definition RevokeTenantDataPolicy :: "Principal option \<Rightarrow> string \<Rightarrow> uint64 \<Rightarrow> time \<Rightarrow> AccDB \<Rightarrow> acc_error + (DataPolicy \<times> AccDB)" where
  "RevokeTenantDataPolicy ctx policyID version now db =
     (if TrimSpace policyID = '''' \<or> version = 0 then Inl Acc_InvalidRoleRequest
      else bind_result (trustedTenantID ctx) (\<lambda>tenantID. Policy_Revoke tenantID (TrimSpace policyID) version now db))"

definition SetTenantRoleDataPolicy :: "Principal option \<Rightarrow> string \<Rightarrow> uint64 \<Rightarrow> string \<Rightarrow> uint64 \<Rightarrow> time \<Rightarrow> AccDB \<Rightarrow> acc_error + (Role \<times> AccDB)" where
  "SetTenantRoleDataPolicy ctx roleID version policyID policyVersion now db =
     (let policyID = TrimSpace policyID
      in if TrimSpace roleID = '''' \<or> version = 0 then Inl Acc_InvalidRoleRequest
         else if (policyID = '''' \<and> policyVersion \<noteq> 0) \<or> (policyID \<noteq> '''' \<and> policyVersion = 0) then Inl Acc_InvalidRoleRequest
         else bind_result (trustedTenantID ctx) (\<lambda>tenantID. SetDataPolicy tenantID (TrimSpace roleID) version policyID policyVersion now db))"

end
