(* ===== verification/Tenant_Role_Props.thy ===== *)
theory Tenant_Role_Props
  imports Tenant_Roles
begin

section \<open>Tenant roles: the owner is kept, permissions are replaced, tenants are isolated\<close>

text \<open>
  What the role service of \<open>Tenant_Roles\<close> promises. The keys of the four tables it shares with the
  member service are an invariant (\<open>acc_keys\<close>), and so is the owner of a tenant: \<open>keeps_owners\<close> relates the
  tables before and after an operation, is transitive, and is proved for each operation, then
  for a whole request (\<open>role_step\<close>). \<open>foreign\<close> is the frame of a tenant, composed in the same way.
\<close>

subsection \<open>Keys of the tables\<close>

definition role_clash :: "roleRecord \<Rightarrow> roleRecord \<Rightarrow> bool" where
  "role_clash r r' \<longleftrightarrow> rr_TenantID r = rr_TenantID r' \<and> (rr_Name r = rr_Name r' \<or> (rr_RoleCode r \<noteq> None \<and> rr_RoleCode r = rr_RoleCode r'))"

definition role_rows_ok :: "roleRecord list \<Rightarrow> bool" where
  "role_rows_ok rows \<longleftrightarrow> distinct (map rr_ID rows) \<and> (\<forall>r \<in> set rows. \<forall>r' \<in> set rows. role_clash r r' \<longrightarrow> rr_ID r = rr_ID r')"

definition member_key :: "membershipRecord \<Rightarrow> string \<times> string" where
  "member_key m = (mem_TenantID m, mem_UserID m)"

definition grant_key :: "permissionGrantRecord \<Rightarrow> string \<times> string \<times> string" where
  "grant_key g = (pg_TenantID g, pg_RoleID g, pg_Permission g)"

definition acc_keys :: "AccDB \<Rightarrow> bool" where
  "acc_keys db \<longleftrightarrow> role_rows_ok (adb_roles db) \<and> distinct (map member_key (adb_memberships db)) \<and> distinct (adb_member_roles db) \<and>
     distinct (map grant_key (adb_grants db))"

lemma acc_keysD:
  assumes "acc_keys db"
  shows "role_rows_ok (adb_roles db)" "distinct (map member_key (adb_memberships db))" "distinct (adb_member_roles db)"
    "distinct (map grant_key (adb_grants db))"
  using assms by (simp_all add: acc_keys_def)

lemma acc_keysI:
  assumes "role_rows_ok (adb_roles db)" "distinct (map member_key (adb_memberships db))" "distinct (adb_member_roles db)"
    "distinct (map grant_key (adb_grants db))"
  shows "acc_keys db"
  using assms by (simp add: acc_keys_def)

lemma role_clash_sym: "role_clash r r' \<longleftrightarrow> role_clash r' r"
  unfolding role_clash_def by metis

lemma role_rows_same: "role_rows_ok rows \<Longrightarrow> r \<in> set rows \<Longrightarrow> r' \<in> set rows \<Longrightarrow> rr_ID r = rr_ID r' \<Longrightarrow> r = r'"
  by (auto simp: role_rows_ok_def distinct_map inj_on_def)

lemma role_rows_clash: "role_rows_ok rows \<Longrightarrow> r \<in> set rows \<Longrightarrow> r' \<in> set rows \<Longrightarrow> role_clash r r' \<Longrightarrow> r = r'"
  by (rule role_rows_same) (auto simp: role_rows_ok_def)

lemma set_update_where: "set (update_where P f rows) = (\<lambda>r. if P r then f r else r) ` set rows"
  by (simp add: update_where_def)

lemma map_update_where: "(\<And>r. k (f r) = k r) \<Longrightarrow> map k (update_where P f rows) = map k rows"
  by (simp add: update_where_def)

lemma role_rows_ok_update:
  assumes ok: "role_rows_ok rows"
    and keep: "\<And>r. rr_ID (f r) = rr_ID r" "\<And>r. rr_TenantID (f r) = rr_TenantID r"
    and one: "\<And>r r'. P r \<Longrightarrow> P r' \<Longrightarrow> rr_ID r = rr_ID r'"
    and fresh: "\<And>r r'. r \<in> set rows \<Longrightarrow> r' \<in> set rows \<Longrightarrow> P r \<Longrightarrow> \<not> P r' \<Longrightarrow> role_clash (f r) r' \<Longrightarrow> rr_ID r = rr_ID r'"
  shows "role_rows_ok (update_where P f rows)"
proof -
  have "rr_ID s = rr_ID s'"
    if s: "s \<in> set (update_where P f rows)" "s' \<in> set (update_where P f rows)" and cl: "role_clash s s'" for s s'
  proof -
    obtain r r' where r: "r \<in> set rows" "s = (if P r then f r else r)" and r': "r' \<in> set rows" "s' = (if P r' then f r' else r')"
      using s by (auto simp: set_update_where)
    have "rr_ID r = rr_ID r'"
    proof (cases "P r"; cases "P r'")
      assume "P r" "P r'" then show ?thesis by (rule one)
    next
      assume "P r" "\<not> P r'" then show ?thesis using fresh [OF r(1) r'(1)] cl r(2) r'(2) by simp
    next
      assume "\<not> P r" "P r'" then show ?thesis using fresh [OF r'(1) r(1)] cl [unfolded role_clash_sym [of s]] r(2) r'(2) by simp
    next
      assume "\<not> P r" "\<not> P r'" then show ?thesis using ok cl r r' by (simp add: role_rows_ok_def)
    qed
    then show ?thesis using r r' keep by simp
  qed
  moreover have "distinct (map rr_ID (update_where P f rows))"
    using ok keep by (simp add: map_update_where role_rows_ok_def)
  ultimately show ?thesis unfolding role_rows_ok_def by blast
qed

lemma role_rows_ok_filter: "role_rows_ok rows \<Longrightarrow> role_rows_ok (filter P rows)"
  by (simp add: role_rows_ok_def distinct_map_filter)

lemma role_rows_ok_snoc:
  assumes ok: "role_rows_ok rows"
    and fresh: "\<forall>r \<in> set rows. rr_ID r \<noteq> rr_ID row \<and> \<not> role_clash row r"
  shows "role_rows_ok (rows @ [row])"
proof -
  have old: "rr_ID r = rr_ID r'" if "r \<in> set rows" "r' \<in> set rows" "role_clash r r'" for r r'
    using that ok by (simp add: role_rows_ok_def)
  have new: "\<not> role_clash row r" "\<not> role_clash r row" if "r \<in> set rows" for r
    using fresh that role_clash_sym [of r row] by blast+
  have "rr_ID r = rr_ID r'" if "r \<in> set (rows @ [row])" "r' \<in> set (rows @ [row])" "role_clash r r'" for r r'
    using that old new by auto
  moreover have "distinct (map rr_ID (rows @ [row]))" using ok fresh by (auto simp: role_rows_ok_def)
  ultimately show ?thesis unfolding role_rows_ok_def by blast
qed

lemma role_at_Some: "role_at t i db = Some r \<Longrightarrow> r \<in> set (adb_roles db) \<and> rr_TenantID r = t \<and> rr_ID r = i"
  by (auto simp: role_at_def find_Some_iff role_is_def)

lemma role_at_row: "role_rows_ok (adb_roles db) \<Longrightarrow> r \<in> set (adb_roles db) \<Longrightarrow> role_at (rr_TenantID r) (rr_ID r) db = Some r"
  using role_rows_same [of "adb_roles db"]
  by (cases "role_at (rr_TenantID r) (rr_ID r) db") (auto simp: role_at_def find_None_iff find_Some_iff role_is_def)

lemma role_get_after: "Role_Get now t i db = Inr r \<Longrightarrow> role_at t i db \<noteq> None"
  by (auto simp: Role_Get_def split: option.splits)

subsection \<open>The owner of a tenant\<close>

definition owner_row :: "string \<Rightarrow> roleRecord \<Rightarrow> bool" where
  "owner_row t r \<longleftrightarrow> rr_TenantID r = t \<and> rr_ID r = t @ '':owner'' \<and> rr_Name r = OwnerRoleName \<and> rr_RoleCode r = Some OwnerRoleCode \<and> rr_SystemRole r \<and> rr_Status r = RoleActive"

definition owner_grants :: "string \<Rightarrow> string \<Rightarrow> permissionGrantRecord list \<Rightarrow> bool" where
  "owner_grants t i gs \<longleftrightarrow>
     (\<forall>p \<in> set OwnerRequiredPermissions. \<lparr>pg_TenantID = t, pg_RoleID = i, pg_Permission = p, pg_Scope = DataScopeAll\<rparr> \<in> set gs)"

definition active_member :: "string \<Rightarrow> string \<Rightarrow> membershipRecord list \<Rightarrow> bool" where
  "active_member t u ms \<longleftrightarrow> (\<exists>m \<in> set ms. member_is t u m \<and> mem_Status m = MemberActive)"

text \<open>\<open>owned_except V t db\<close>: tenant \<open>t\<close> has its owner role with every required permission, and an active owner outside \<open>V\<close>.\<close>

definition owned_except :: "string set \<Rightarrow> string \<Rightarrow> AccDB \<Rightarrow> bool" where
  "owned_except V t db \<longleftrightarrow> (\<exists>r \<in> set (adb_roles db). owner_row t r \<and> owner_grants t (rr_ID r) (adb_grants db) \<and>
     (\<exists>u. u \<notin> V \<and> \<lparr>mr_TenantID = t, mr_UserID = u, mr_RoleID = rr_ID r\<rparr> \<in> set (adb_member_roles db) \<and> active_member t u (adb_memberships db)))"

abbreviation owned :: "string \<Rightarrow> AccDB \<Rightarrow> bool" where
  "owned \<equiv> owned_except {}"

lemma owned_exceptE:
  assumes "owned_except V t db"
  obtains r u where "r \<in> set (adb_roles db)" "owner_row t r" "owner_grants t (rr_ID r) (adb_grants db)" "u \<notin> V"
    "\<lparr>mr_TenantID = t, mr_UserID = u, mr_RoleID = rr_ID r\<rparr> \<in> set (adb_member_roles db)" "active_member t u (adb_memberships db)"
  using assms by (auto simp: owned_except_def)

lemma owned_exceptI:
  assumes "r \<in> set (adb_roles db)" "owner_row t r" "owner_grants t (rr_ID r) (adb_grants db)" "u \<notin> V"
    "\<lparr>mr_TenantID = t, mr_UserID = u, mr_RoleID = rr_ID r\<rparr> \<in> set (adb_member_roles db)" "active_member t u (adb_memberships db)"
  shows "owned_except V t db"
  using assms by (auto simp: owned_except_def)

lemma owned_keep:
  assumes "owned_except W t db"
    and "\<And>r. r \<in> set (adb_roles db) \<Longrightarrow> owner_row t r \<Longrightarrow> \<exists>r' \<in> set (adb_roles db'). owner_row t r' \<and> rr_ID r' = rr_ID r"
    and "\<And>r. r \<in> set (adb_roles db) \<Longrightarrow> owner_row t r \<Longrightarrow> owner_grants t (rr_ID r) (adb_grants db) \<Longrightarrow> owner_grants t (rr_ID r) (adb_grants db')"
    and "\<And>a. a \<in> set (adb_member_roles db) \<Longrightarrow> mr_TenantID a = t \<Longrightarrow> mr_UserID a \<notin> W \<Longrightarrow> a \<in> set (adb_member_roles db')"
    and "\<And>u. u \<notin> W \<Longrightarrow> active_member t u (adb_memberships db) \<Longrightarrow> active_member t u (adb_memberships db')"
    and "V \<subseteq> W"
  shows "owned_except V t db'"
proof -
  obtain r u where r: "r \<in> set (adb_roles db)" "owner_row t r" "owner_grants t (rr_ID r) (adb_grants db)" "u \<notin> W"
    "\<lparr>mr_TenantID = t, mr_UserID = u, mr_RoleID = rr_ID r\<rparr> \<in> set (adb_member_roles db)" "active_member t u (adb_memberships db)"
    using assms(1) by (rule owned_exceptE)
  obtain r' where r': "r' \<in> set (adb_roles db')" "owner_row t r'" "rr_ID r' = rr_ID r" using assms(2) r by blast
  show ?thesis
    by (rule owned_exceptI [of r' _ _ u]) (use r r' assms(3-6) in auto)
qed

lemma owner_row_unique:
  assumes "role_rows_ok rows" "r \<in> set rows" "owner_row t r" "r' \<in> set rows" "rr_TenantID r' = t" "isOwnerRoleRecord r'"
  shows "r' = r"
  using assms(6) by (intro role_rows_clash [OF assms(1,4,2)]) (use assms(3,5) in \<open>auto simp: role_clash_def owner_row_def isOwnerRoleRecord_def\<close>)

lemma owner_role_row_found:
  assumes "role_rows_ok (adb_roles db)" "r \<in> set (adb_roles db)" "owner_row t r"
  shows "owner_role_row t db = Some r"
proof -
  let ?l = "sort_key rr_ID (filter (\<lambda>r. rr_TenantID r = t \<and> isOwnerRoleRecord r) (adb_roles db))"
  have "r \<in> set ?l" using assms by (auto simp: owner_row_def isOwnerRoleRecord_def)
  then obtain s rest where l: "?l = s # rest" by (cases ?l) auto
  then have "s \<in> set ?l" by simp
  then have "s = r" using owner_row_unique [OF assms(1-3)] by auto
  then show ?thesis using l by (simp add: owner_role_row_def)
qed

lemma join_length: "length [g a. a \<leftarrow> as, P a, m \<leftarrow> ms, Q a m] = sum_list (map (\<lambda>a. if P a then length (filter (Q a) ms) else 0) as)"
proof (induction as)
  case (Cons a as)
  have "length [g a. m \<leftarrow> ms, Q a m] = length (filter (Q a) ms)" by (induction ms) auto
  then show ?case using Cons.IH by simp
qed simp

lemma sum_list_only: "distinct as \<Longrightarrow> (\<And>a. a \<in> set as \<Longrightarrow> a \<noteq> a0 \<Longrightarrow> f a = (0::nat)) \<Longrightarrow> sum_list (map f as) \<le> f a0"
proof (induction as)
  case (Cons a as)
  have "sum_list (map f as) = 0" if "a = a0" using that Cons.prems by auto
  then show ?case using Cons by (cases "a = a0") auto
qed simp

lemma join_le_one:
  assumes "distinct as" "length (filter (Q a0) ms) \<le> 1"
    and "\<And>a m. a \<in> set as \<Longrightarrow> m \<in> set ms \<Longrightarrow> P a \<Longrightarrow> Q a m \<Longrightarrow> a = a0"
  shows "length [g a. a \<leftarrow> as, P a, m \<leftarrow> ms, Q a m] \<le> 1"
proof -
  let ?f = "\<lambda>a. if P a then length (filter (Q a) ms) else 0"
  have "sum_list (map ?f as) \<le> ?f a0"
    by (rule sum_list_only [OF assms(1)]) (use assms(3) in \<open>auto simp: filter_empty_conv\<close>)
  also have "?f a0 \<le> 1" using assms(2) by simp
  finally show ?thesis by (simp only: join_length)
qed

lemma distinct_key_le_one: "distinct (map k xs) \<Longrightarrow> length (filter (\<lambda>x. k x = v) xs) \<le> 1"
proof (induction xs)
  case (Cons x xs)
  have "filter (\<lambda>y. k y = v) xs = []" if "k x = v" using that Cons.prems by (simp add: filter_empty_conv image_iff) metis
  then show ?case using Cons by (cases "k x = v") auto
qed simp

lemma other_owner:
  assumes keys: "acc_keys db" and many: "1 < currentActiveOwners t i db"
  shows "\<exists>u'. u' \<noteq> u \<and> \<lparr>mr_TenantID = t, mr_UserID = u', mr_RoleID = i\<rparr> \<in> set (adb_member_roles db) \<and> active_member t u' (adb_memberships db)"
proof (rule ccontr)
  let ?Q = "\<lambda>a m. mem_TenantID m = mr_TenantID a \<and> mem_UserID m = mr_UserID a \<and> mem_Status m = MemberActive"
  let ?a = "\<lparr>mr_TenantID = t, mr_UserID = u, mr_RoleID = i\<rparr>"
  assume none: "\<not> ?thesis"
  have "length [mr_UserID a. a \<leftarrow> adb_member_roles db, mr_TenantID a = t \<and> mr_RoleID a = i, m \<leftarrow> adb_memberships db, ?Q a m] \<le> 1"
  proof (rule join_le_one [where ?a0.0 = ?a])
    show "distinct (adb_member_roles db)" using keys by (rule acc_keysD)
    have "length (filter (\<lambda>m. member_key m = (t, u)) (adb_memberships db)) \<le> 1"
      using acc_keysD(2) [OF keys] by (rule distinct_key_le_one)
    then show "length (filter (?Q ?a) (adb_memberships db)) \<le> 1"
      by (rule order_trans [rotated]) (auto simp: member_key_def intro!: length_filter_mono)
    show "a = ?a" if "a \<in> set (adb_member_roles db)" "m \<in> set (adb_memberships db)" "mr_TenantID a = t \<and> mr_RoleID a = i" "?Q a m" for a m
    proof -
      have a: "a = \<lparr>mr_TenantID = t, mr_UserID = mr_UserID a, mr_RoleID = i\<rparr>" using that(3) by (cases a) simp
      have "active_member t (mr_UserID a) (adb_memberships db)" using that by (auto simp: active_member_def member_is_def)
      then have "mr_UserID a = u" using none that(1) a by metis
      then show ?thesis using a by simp
    qed
  qed
  then show False using many by (simp add: currentActiveOwners_def)
qed

lemma deactivation_leaves_owner:
  assumes keys: "acc_keys db" and own: "owned t db" and ok: "AssertMemberCanDeactivate t u db = None" and plain: "TrimSpace t = t" "TrimSpace u = u"
  shows "owned_except {u} t db"
proof -
  obtain r v where r: "r \<in> set (adb_roles db)" "owner_row t r" "owner_grants t (rr_ID r) (adb_grants db)"
    "\<lparr>mr_TenantID = t, mr_UserID = v, mr_RoleID = rr_ID r\<rparr> \<in> set (adb_member_roles db)" "active_member t v (adb_memberships db)"
    using own by (rule owned_exceptE)
  have row: "owner_role_row t db = Some r" by (rule owner_role_row_found [OF acc_keysD(1) [OF keys] r(1,2)])
  show ?thesis
  proof (cases "\<lparr>mr_TenantID = t, mr_UserID = u, mr_RoleID = rr_ID r\<rparr> \<in> set (adb_member_roles db)")
    case True
    then have "1 < currentActiveOwners t (rr_ID r) db"
      using ok row plain by (simp add: AssertMemberCanDeactivate_def Let_def split: if_split_asm)
    from other_owner [OF keys this, of u] show ?thesis using r by (auto intro: owned_exceptI)
  next
    case False
    then have "v \<noteq> u" using r(4) by auto
    then show ?thesis using r by (auto intro: owned_exceptI)
  qed
qed

subsection \<open>Every operation keeps the keys and the owner\<close>

text \<open>A change of the tables that keeps the keys, and the owner of every tenant outside \<open>V\<close>.\<close>

definition keeps_owners :: "AccDB \<Rightarrow> AccDB \<Rightarrow> bool" where
  "keeps_owners db db' \<longleftrightarrow> acc_keys db' \<and> (\<forall>t. owned t db \<longrightarrow> owned t db')"

lemma keeps_refl: "acc_keys db \<Longrightarrow> keeps_owners db db"
  by (simp add: keeps_owners_def)

lemma keeps_trans: "keeps_owners a b \<Longrightarrow> keeps_owners b c \<Longrightarrow> keeps_owners a c"
  by (simp add: keeps_owners_def)

lemma keeps_keys: "keeps_owners a b \<Longrightarrow> acc_keys b"
  by (simp add: keeps_owners_def)

lemma keeps_insert_role:
  assumes keys: "acc_keys db" and ins: "insert_role row db = Inr db'"
  shows "keeps_owners db db'"
proof -
  have db': "db' = db\<lparr>adb_roles := adb_roles db @ [row]\<rparr>"
    and fresh: "\<forall>r \<in> set (adb_roles db). rr_ID r \<noteq> rr_ID row \<and> \<not> role_clash row r"
    using ins by (auto simp: insert_role_def role_clash_def split: if_split_asm)
  have "acc_keys db'"
    using acc_keysD [OF keys] role_rows_ok_snoc [OF acc_keysD(1) [OF keys] fresh] by (intro acc_keysI) (simp_all add: db')
  moreover have "owned t db'" if "owned t db" for t
    by (rule owned_keep [OF that]) (auto simp: db')
  ultimately show ?thesis by (simp add: keeps_owners_def)
qed

lemma keeps_roles_update:
  assumes keys: "acc_keys db"
    and db': "db' = db\<lparr>adb_roles := update_where P f (adb_roles db)\<rparr>"
    and keep: "\<And>r. rr_ID (f r) = rr_ID r" "\<And>r. rr_TenantID (f r) = rr_TenantID r"
    and one: "\<And>r r'. P r \<Longrightarrow> P r' \<Longrightarrow> rr_ID r = rr_ID r'"
    and fresh: "\<And>r r'. r \<in> set (adb_roles db) \<Longrightarrow> r' \<in> set (adb_roles db) \<Longrightarrow> P r \<Longrightarrow> \<not> P r' \<Longrightarrow> role_clash (f r) r' \<Longrightarrow> rr_ID r = rr_ID r'"
    and own: "\<And>r t. r \<in> set (adb_roles db) \<Longrightarrow> P r \<Longrightarrow> owner_row t r \<Longrightarrow> owner_row t (f r)"
  shows "keeps_owners db db'"
proof -
  have "role_rows_ok (update_where P f (adb_roles db))"
    by (rule role_rows_ok_update [OF acc_keysD(1) [OF keys] keep one fresh])
  then have "acc_keys db'" using acc_keysD [OF keys] by (intro acc_keysI) (simp_all add: db')
  moreover have "owned t db'" if o: "owned t db" for t
  proof (rule owned_keep [OF o])
    fix r assume r: "r \<in> set (adb_roles db)" "owner_row t r"
    let ?r = "if P r then f r else r"
    have "?r \<in> set (adb_roles db')" using r(1) by (simp add: db' set_update_where)
    moreover have "owner_row t ?r \<and> rr_ID ?r = rr_ID r" using own r keep by simp
    ultimately show "\<exists>r' \<in> set (adb_roles db'). owner_row t r' \<and> rr_ID r' = rr_ID r" by blast
  qed (auto simp: db')
  ultimately show ?thesis by (simp add: keeps_owners_def)
qed

lemma keeps_bump:
  assumes keys: "acc_keys db" and bump: "bump_version t i v f db = Inr db'"
    and keep: "\<And>r. rr_ID (f r) = rr_ID r" "\<And>r. rr_TenantID (f r) = rr_TenantID r" "\<And>r. rr_RoleCode (f r) = rr_RoleCode r"
    and fresh: "\<And>r r'. r \<in> set (adb_roles db) \<Longrightarrow> r' \<in> set (adb_roles db) \<Longrightarrow> role_is t i r \<Longrightarrow> rr_TenantID r' = t \<Longrightarrow> rr_Name (f r) = rr_Name r' \<Longrightarrow> rr_ID r' = i"
    and own: "\<And>r t'. r \<in> set (adb_roles db) \<Longrightarrow> role_is t i r \<Longrightarrow> owner_row t' r \<Longrightarrow> owner_row t' (f r)"
  shows "keeps_owners db db'"
proof (rule keeps_roles_update [OF keys])
  show "db' = db\<lparr>adb_roles := update_where (\<lambda>r. role_is t i r \<and> rr_Version r = v) (\<lambda>r. (f r)\<lparr>rr_Version := rr_Version r + 1\<rparr>) (adb_roles db)\<rparr>"
    using bump by (simp add: bump_version_def Let_def split: if_split_asm)
  fix r r' assume r: "r \<in> set (adb_roles db)" "r' \<in> set (adb_roles db)" "role_is t i r \<and> rr_Version r = v"
    and cl: "role_clash ((f r)\<lparr>rr_Version := rr_Version r + 1\<rparr>) r'"
  show "rr_ID r = rr_ID r'"
  proof (cases "rr_Name (f r) = rr_Name r'")
    case True
    have "rr_TenantID r' = t" using r(3) cl by (simp add: role_is_def role_clash_def keep)
    then have "rr_ID r' = i" using fresh [OF r(1,2)] r(3) True by blast
    then show ?thesis using r(3) by (simp add: role_is_def)
  next
    case False
    then have "role_clash r r'" using cl by (simp add: role_clash_def keep) metis
    then show ?thesis using role_rows_clash [OF acc_keysD(1) [OF keys] r(1,2)] by simp
  qed
qed (use keep own in \<open>auto simp: role_is_def owner_row_def\<close>)

lemma keeps_member_role:
  assumes keys: "acc_keys db"
  shows "keeps_owners db (ensure_member_role a db)"
proof -
  have "acc_keys (ensure_member_role a db)" using acc_keysD [OF keys] by (intro acc_keysI) (auto simp: ensure_member_role_def)
  moreover have "owned t (ensure_member_role a db)" if "owned t db" for t
    by (rule owned_keep [OF that]) (auto simp: ensure_member_role_def)
  ultimately show ?thesis by (simp add: keeps_owners_def)
qed

lemma keeps_insert_member_role:
  assumes keys: "acc_keys db" and ins: "insert_member_role a db = Inr db'"
  shows "keeps_owners db db'"
proof -
  have "db' = ensure_member_role a db" using ins by (simp add: insert_member_role_def ensure_member_role_def split: if_split_asm)
  then show ?thesis using keeps_member_role [OF keys] by simp
qed

text \<open>A change that touches none of the four tables.\<close>

definition same_access :: "AccDB \<Rightarrow> AccDB \<Rightarrow> bool" where
  "same_access db db' \<longleftrightarrow> adb_roles db' = adb_roles db \<and> adb_memberships db' = adb_memberships db \<and> adb_member_roles db' = adb_member_roles db \<and>
     adb_grants db' = adb_grants db"

lemma same_access_keeps: "acc_keys db \<Longrightarrow> same_access db db' \<Longrightarrow> keeps_owners db db'"
  by (simp add: keeps_owners_def same_access_def acc_keys_def owned_except_def)

lemma bump_version_fields:
  assumes "bump_version t i v f db = Inr db'"
  shows "adb_memberships db' = adb_memberships db" "adb_member_roles db' = adb_member_roles db" "adb_grants db' = adb_grants db"
  using assms by (auto simp: bump_version_def Let_def split: if_split_asm)

lemma bump_version_at:
  assumes keys: "acc_keys db" and at: "role_at t i db = Some r" "rr_Version r = v"
    and keep: "\<And>r. rr_ID (f r) = rr_ID r" "\<And>r. rr_TenantID (f r) = rr_TenantID r"
    and bump: "bump_version t i v f (db\<lparr>adb_grants := gs\<rparr>) = Inr db'"
  shows "role_at t i db' = Some ((f r)\<lparr>rr_Version := v + 1\<rparr>)"
proof -
  let ?P = "\<lambda>r. role_is t i r \<and> rr_Version r = v" and ?g = "\<lambda>r. (f r)\<lparr>rr_Version := rr_Version r + 1\<rparr>"
  have db': "adb_roles db' = update_where ?P ?g (adb_roles db)" using bump by (auto simp: bump_version_def Let_def split: if_split_asm)
  have r: "r \<in> set (adb_roles db)" "role_is t i r" using role_at_Some [OF at(1)] by (auto simp: role_is_def)
  have "role_rows_ok (adb_roles db)" using keys by (rule acc_keysD)
  then have only: "x = r" if "x \<in> set (adb_roles db)" "role_is t i x" for x
    using role_rows_same that r by (simp add: role_is_def)
  have "find (role_is t i) (map (\<lambda>r. if ?P r then ?g r else r) rows) = map_option ?g (find (role_is t i) rows)"
    if "set rows \<subseteq> set (adb_roles db)" for rows
    using that
  proof (induction rows)
    case (Cons x rows)
    then show ?case using only [of x] at(2) keep by (auto simp: role_is_def)
  qed simp
  then show ?thesis using at by (simp add: role_at_def db' update_where_def)
qed

lemma keeps_Role_Update:
  assumes keys: "acc_keys db" and upd: "Role_Update role v db = Inr (role', db')"
  shows "keeps_owners db db'"
proof -
  let ?t = "role_TenantID role" and ?i = "role_ID role"
  let ?f = "\<lambda>r. r\<lparr>rr_Name := role_Name role, rr_Description := role_Description role, rr_Status := role_Status role\<rparr>"
  obtain locked where at: "role_at ?t ?i db = Some locked"
    and sys: "rr_SystemRole locked \<longrightarrow> rr_Name locked = role_Name role \<and> rr_Status locked = role_Status role"
    and name: "\<forall>r \<in> set (adb_roles db). rr_TenantID r = ?t \<and> rr_Name r = role_Name role \<longrightarrow> rr_ID r = ?i"
    and bump: "bump_version ?t ?i v ?f db = Inr db'"
    using upd by (auto simp: Role_Update_def split: if_split_asm option.split_asm)
  have "locked = r" if "r \<in> set (adb_roles db)" "role_is ?t ?i r" for r
    using role_rows_same [OF acc_keysD(1) [OF keys]] that role_at_Some [OF at] by (simp add: role_is_def)
  then have own: "owner_row t' (?f r)" if "r \<in> set (adb_roles db)" "role_is ?t ?i r" "owner_row t' r" for r t'
    using that sys by (auto simp: owner_row_def)
  show ?thesis by (rule keeps_bump [OF keys bump]) (use name own in \<open>simp_all\<close>)
qed

lemma keeps_Role_Delete:
  assumes keys: "acc_keys db" and del: "Role_Delete now t i v db = Inr (role, db')"
  shows "keeps_owners db db'"
proof -
  obtain locked where at: "role_at t i db = Some locked" and sys: "\<not> rr_SystemRole locked"
    and db': "db' = db\<lparr>adb_grants := filter (\<lambda>g. \<not> (pg_TenantID g = t \<and> pg_RoleID g = i)) (adb_grants db),
                 adb_roles := filter (\<lambda>r. \<not> (role_is t i r \<and> rr_Version r = v)) (adb_roles db)\<rparr>"
    using del by (auto simp: Role_Delete_def split: if_split_asm option.split_asm)
  have other: "\<not> (rr_TenantID r = t \<and> rr_ID r = i)" if "r \<in> set (adb_roles db)" "owner_row t' r" for r t'
    using role_rows_same [OF acc_keysD(1) [OF keys], of r locked] that role_at_Some [OF at] sys by (auto simp: owner_row_def)
  have "acc_keys db'"
    using acc_keysD [OF keys] by (intro acc_keysI) (simp_all add: db' role_rows_ok_filter distinct_map_filter)
  moreover have "owned t' db'" if "owned t' db" for t'
  proof (rule owned_keep [OF that])
    fix r assume r: "r \<in> set (adb_roles db)" "owner_row t' r"
    show "\<exists>r' \<in> set (adb_roles db'). owner_row t' r' \<and> rr_ID r' = rr_ID r"
      using r other [OF r] by (auto simp: db' role_is_def)
    show "owner_grants t' (rr_ID r) (adb_grants db')" if "owner_grants t' (rr_ID r) (adb_grants db)"
      using that r(2) other [OF r] by (auto simp: db' owner_grants_def owner_row_def)
  qed (auto simp: db')
  ultimately show ?thesis by (simp add: keeps_owners_def)
qed

lemma keeps_Assign: "acc_keys db \<Longrightarrow> AssignMember now t i u db = Inr (role, db') \<Longrightarrow> keeps_owners db db'"
  using keeps_member_role by (auto simp: AssignMember_def Let_def split: if_split_asm)

lemma keeps_Revoke:
  assumes keys: "acc_keys db" and rev: "RevokeMember now t i u db = Inr (role, db')"
  shows "keeps_owners db db'"
proof -
  let ?a = "\<lparr>mr_TenantID = t, mr_UserID = u, mr_RoleID = i\<rparr>"
  obtain locked where at: "role_at t i db = Some locked"
    and "db' = db \<or> (\<not> (isOwnerRoleRecord locked \<and> currentActiveOwners t i db \<le> 1) \<and>
      db' = db\<lparr>adb_member_roles := filter (\<lambda>a. a \<noteq> ?a) (adb_member_roles db)\<rparr>)"
    using rev by (auto simp: RevokeMember_def Let_def split: if_split_asm option.split_asm)
  then consider "db' = db" | "\<not> (isOwnerRoleRecord locked \<and> currentActiveOwners t i db \<le> 1)"
      "db' = db\<lparr>adb_member_roles := filter (\<lambda>a. a \<noteq> ?a) (adb_member_roles db)\<rparr>" by blast
  then show ?thesis
  proof cases
    case 1
    then show ?thesis using keeps_refl [OF keys] by simp
  next
    case 2
    have "acc_keys db'" using acc_keysD [OF keys] by (intro acc_keysI) (simp_all add: 2(2))
    moreover have "owned t' db'" if own: "owned t' db" for t'
    proof -
      obtain r v where r: "r \<in> set (adb_roles db)" "owner_row t' r" "owner_grants t' (rr_ID r) (adb_grants db)"
        "\<lparr>mr_TenantID = t', mr_UserID = v, mr_RoleID = rr_ID r\<rparr> \<in> set (adb_member_roles db)" "active_member t' v (adb_memberships db)"
        using own by (rule owned_exceptE)
      have "\<exists>w. (w \<noteq> u \<or> t' \<noteq> t \<or> rr_ID r \<noteq> i) \<and> \<lparr>mr_TenantID = t', mr_UserID = w, mr_RoleID = rr_ID r\<rparr> \<in> set (adb_member_roles db) \<and>
              active_member t' w (adb_memberships db)"
      proof (cases "t' = t \<and> rr_ID r = i")
        case True
        then have "locked = r" using role_rows_same [OF acc_keysD(1) [OF keys], of locked r] role_at_Some [OF at] r(1) by simp
        then have "1 < currentActiveOwners t i db" using 2(1) r(2) by (auto simp: isOwnerRoleRecord_def owner_row_def)
        from other_owner [OF keys this, of u] show ?thesis using True by auto
      qed (use r in blast)
      then show ?thesis using r by (auto simp: 2(2) intro: owned_exceptI)
    qed
    ultimately show ?thesis by (simp add: keeps_owners_def)
  qed
qed

lemma keeps_ensureAdmin:
  assumes keys: "acc_keys db" and adm: "ensureTenantAdminRole t now db = Inr db'"
  shows "keeps_owners db db'"
proof (cases "role_at t (t @ '':admin'') db")
  case None
  then show ?thesis using adm keeps_insert_role [OF keys] by (auto simp: ensureTenantAdminRole_def Let_def)
next
  case (Some existing)
  let ?f = "\<lambda>r. r\<lparr>rr_RoleCode := Some AdminRoleCode, rr_SystemRole := True, rr_Status := RoleActive\<rparr>"
  let ?P = "role_is t (t @ '':admin'')"
  consider "db' = db" | "db' = db\<lparr>adb_roles := update_where ?P ?f (adb_roles db)\<rparr>"
      "\<forall>r \<in> set (adb_roles db). rr_TenantID r = t \<and> rr_RoleCode r = Some AdminRoleCode \<longrightarrow> rr_ID r = t @ '':admin''"
      "rr_RoleCode existing \<noteq> Some AdminRoleCode \<or> \<not> rr_SystemRole existing"
    using adm Some by (auto simp: ensureTenantAdminRole_def Let_def split: if_split_asm)
  then show ?thesis
  proof cases
    case 1
    then show ?thesis using keeps_refl [OF keys] by simp
  next
    case 2
    show ?thesis
    proof (rule keeps_roles_update [OF keys 2(1)])
      fix r r' assume r: "r \<in> set (adb_roles db)" "r' \<in> set (adb_roles db)" "?P r" "role_clash (?f r) r'"
      show "rr_ID r = rr_ID r'"
      proof (cases "rr_Name r = rr_Name r'")
        case True
        then have "role_clash r r'" using r(4) by (simp add: role_clash_def)
        then show ?thesis using role_rows_clash [OF acc_keysD(1) [OF keys] r(1,2)] by simp
      next
        case False
        then show ?thesis using 2(2) r by (auto simp: role_clash_def role_is_def)
      qed
    qed (auto simp: role_is_def owner_row_def)
  qed
qed

lemma insert_grants_result:
  "insert_grants gs rows = Inr rows' \<Longrightarrow> distinct (map grant_key rows) \<Longrightarrow> rows' = rows @ gs \<and> distinct (map grant_key rows')"
proof (induction gs arbitrary: rows)
  case (Cons g gs)
  then have fresh: "grant_key g \<notin> grant_key ` set rows" and rest: "insert_grants gs (rows @ [g]) = Inr rows'"
    by (auto simp: insert_grant_def grant_is_def grant_key_def split: if_split_asm)
  then have "distinct (map grant_key (rows @ [g]))" using Cons.prems(2) by simp
  have IH: "rows' = (rows @ [g]) @ gs \<and> distinct (map grant_key rows')" by (rule Cons.IH [OF rest \<open>distinct (map grant_key (rows @ [g]))\<close>])
  show ?case by (rule conjI [OF _ conjunct2 [OF IH]]) (use IH in simp)
qed simp

lemma owner_permissions [simp]:
  "role_Permissions (NewOwnerRole i t now) =
     map (\<lambda>p. \<lparr>gr_TenantID = t, gr_RoleID = i, gr_Permission = p, gr_Scope = DataScopeAll\<rparr>) OwnerRequiredPermissions"
  by (simp add: NewOwnerRole_def)

lemma keeps_more_grants:
  assumes keys: "acc_keys db" and gs: "set (adb_grants db) \<subseteq> set gs" "distinct (map grant_key gs)"
  shows "keeps_owners db (db\<lparr>adb_grants := gs\<rparr>)"
proof -
  have "acc_keys (db\<lparr>adb_grants := gs\<rparr>)" using acc_keysD [OF keys] gs(2) by (intro acc_keysI) simp_all
  moreover have "owned t (db\<lparr>adb_grants := gs\<rparr>)" if "owned t db" for t
    by (rule owned_keep [OF that]) (use gs(1) in \<open>auto simp: owner_grants_def\<close>)
  ultimately show ?thesis by (simp add: keeps_owners_def)
qed

lemma owner_code_keeps:
  assumes keys: "acc_keys db"
    and free: "\<forall>r \<in> set (adb_roles db). rr_TenantID r = t \<and> rr_RoleCode r = Some OwnerRoleCode \<longrightarrow> rr_ID r = i"
  shows "keeps_owners db (db\<lparr>adb_roles := update_where (role_is t i) (\<lambda>r. r\<lparr>rr_RoleCode := Some OwnerRoleCode, rr_SystemRole := True\<rparr>) (adb_roles db)\<rparr>)"
proof (rule keeps_roles_update [OF keys refl])
  fix r r' assume r: "r \<in> set (adb_roles db)" "r' \<in> set (adb_roles db)" "role_is t i r"
    "role_clash (r\<lparr>rr_RoleCode := Some OwnerRoleCode, rr_SystemRole := True\<rparr>) r'"
  show "rr_ID r = rr_ID r'"
  proof (cases "rr_Name r = rr_Name r'")
    case True
    then have "role_clash r r'" using r(4) by (simp add: role_clash_def)
    then show ?thesis using role_rows_clash [OF acc_keysD(1) [OF keys] r(1,2)] by simp
  next
    case False
    then show ?thesis using free r by (auto simp: role_clash_def role_is_def)
  qed
qed (auto simp: role_is_def owner_row_def)

lemma bootstrap_cases [consumes 1, case_names Existing First]:
  assumes boot: "BootstrapOwner t0 u0 now db = Inr (role, db')"
  obtains db1 db2 where "role_at (TrimSpace t0) (TrimSpace t0 @ '':owner'') db \<noteq> None"
      "db1 = db \<or> (\<forall>r \<in> set (adb_roles db). rr_TenantID r = TrimSpace t0 \<and> rr_RoleCode r = Some OwnerRoleCode \<longrightarrow> rr_ID r = TrimSpace t0 @ '':owner'') \<and>
         db1 = db\<lparr>adb_roles := update_where (role_is (TrimSpace t0) (TrimSpace t0 @ '':owner'')) (\<lambda>r. r\<lparr>rr_RoleCode := Some OwnerRoleCode, rr_SystemRole := True\<rparr>) (adb_roles db)\<rparr>"
      "ensureTenantAdminRole (TrimSpace t0) now db1 = Inr db2"
      "db' = ensure_member_role \<lparr>mr_TenantID = TrimSpace t0, mr_UserID = TrimSpace u0, mr_RoleID = TrimSpace t0 @ '':owner''\<rparr> db2"
  | db1 db2 gs where "role_at (TrimSpace t0) (TrimSpace t0 @ '':owner'') db = None"
      "active_member (TrimSpace t0) (TrimSpace u0) (adb_memberships db)"
      "insert_role (role_row (NewOwnerRole (TrimSpace t0 @ '':owner'') (TrimSpace t0) now)) db = Inr db1"
      "ensureTenantAdminRole (TrimSpace t0) now db1 = Inr db2"
      "insert_grants (map (\<lambda>p. \<lparr>pg_TenantID = TrimSpace t0, pg_RoleID = TrimSpace t0 @ '':owner'', pg_Permission = p, pg_Scope = DataScopeAll\<rparr>)
         OwnerRequiredPermissions) (adb_grants db2) = Inr gs"
      "insert_member_role \<lparr>mr_TenantID = TrimSpace t0, mr_UserID = TrimSpace u0, mr_RoleID = TrimSpace t0 @ '':owner''\<rparr> (db2\<lparr>adb_grants := gs\<rparr>) = Inr db'"
proof (cases "role_at (TrimSpace t0) (TrimSpace t0 @ '':owner'') db")
  case None
  show thesis
  proof -
    let ?t = "TrimSpace t0" and ?i = "TrimSpace t0 @ '':owner''"
    obtain db1 db2 gs where "active_member ?t (TrimSpace u0) (adb_memberships db)" "insert_role (role_row (NewOwnerRole ?i ?t now)) db = Inr db1"
      "ensureTenantAdminRole ?t now db1 = Inr db2"
      "insert_grants (map (\<lambda>p. \<lparr>pg_TenantID = ?t, pg_RoleID = ?i, pg_Permission = p, pg_Scope = DataScopeAll\<rparr>) OwnerRequiredPermissions) (adb_grants db2) = Inr gs"
      "insert_member_role \<lparr>mr_TenantID = ?t, mr_UserID = TrimSpace u0, mr_RoleID = ?i\<rparr> (db2\<lparr>adb_grants := gs\<rparr>) = Inr db'"
      using boot None by (auto simp: BootstrapOwner_def Let_def comp_def active_member_def split: if_split_asm)
    then show thesis by (rule that(2) [OF None])
  qed
next
  case (Some existing)
  let ?u = "db\<lparr>adb_roles := update_where (role_is (TrimSpace t0) (TrimSpace t0 @ '':owner'')) (\<lambda>r. r\<lparr>rr_RoleCode := Some OwnerRoleCode, rr_SystemRole := True\<rparr>) (adb_roles db)\<rparr>"
  show thesis
    using boot Some by (auto simp: BootstrapOwner_def Let_def split: if_split_asm intro: that(1) [of db] that(1) [of ?u])
qed

lemma keeps_Bootstrap:
  assumes keys: "acc_keys db" and boot: "BootstrapOwner t u now db = Inr (role, db')"
  shows "keeps_owners db db'"
  using boot
proof (cases rule: bootstrap_cases)
  case (Existing db1 db2)
  have 1: "keeps_owners db db1" using Existing(2) keeps_refl [OF keys] owner_code_keeps [OF keys] by auto
  have 2: "keeps_owners db1 db2" by (rule keeps_ensureAdmin [OF keeps_keys [OF 1] Existing(3)])
  show ?thesis
    unfolding Existing(4) by (rule keeps_trans [OF keeps_trans [OF 1 2] keeps_member_role [OF keeps_keys [OF 2]]])
next
  case (First db1 db2 gs)
  have 1: "keeps_owners db db1" by (rule keeps_insert_role [OF keys First(3)])
  have 2: "keeps_owners db1 db2" by (rule keeps_ensureAdmin [OF keeps_keys [OF 1] First(4)])
  note gs = insert_grants_result [OF First(5) acc_keysD(4) [OF keeps_keys [OF 2]]]
  have 3: "keeps_owners db2 (db2\<lparr>adb_grants := gs\<rparr>)"
    by (rule keeps_more_grants [OF keeps_keys [OF 2] _ conjunct2 [OF gs]]) (simp add: conjunct1 [OF gs])
  show ?thesis
    by (rule keeps_trans [OF keeps_trans [OF keeps_trans [OF 1 2] 3] keeps_insert_member_role [OF keeps_keys [OF 3] First(6)]])
qed

lemma ensureAdmin_frame:
  assumes "ensureTenantAdminRole t now db = Inr db'"
  shows "adb_memberships db' = adb_memberships db" "adb_member_roles db' = adb_member_roles db" "adb_grants db' = adb_grants db"
    "owner_row t' r \<Longrightarrow> r \<in> set (adb_roles db) \<Longrightarrow> r \<in> set (adb_roles db')"
  using assms by (auto simp: ensureTenantAdminRole_def insert_role_def Let_def set_update_where role_is_def owner_row_def split: if_split_asm option.split_asm)

lemma TrimSpace_owner_code [simp]: "TrimSpace OwnerRoleCode = OwnerRoleCode" "TrimSpace AdminRoleCode = AdminRoleCode"
  by (code_simp, code_simp)

text \<open>The first bootstrap of a tenant gives it an owner.\<close>

lemma bootstrap_first_owned:
  assumes keys: "acc_keys db" and boot: "BootstrapOwner t u now db = Inr (role, db')"
    and first: "role_at (TrimSpace t) (TrimSpace t @ '':owner'') db = None"
  shows "owned (TrimSpace t) db'"
  using boot
proof (cases rule: bootstrap_cases)
  case (First db1 db2 gs)
  let ?row = "role_row (NewOwnerRole (TrimSpace t @ '':owner'') (TrimSpace t) now)"
  have 1: "keeps_owners db db1" by (rule keeps_insert_role [OF keys First(3)])
  have 2: "keeps_owners db1 db2" by (rule keeps_ensureAdmin [OF keeps_keys [OF 1] First(4)])
  note gs = insert_grants_result [OF First(5) acc_keysD(4) [OF keeps_keys [OF 2]]]
  have row: "owner_row (TrimSpace t) ?row" "rr_ID ?row = TrimSpace t @ '':owner''"
    by (simp_all add: owner_row_def role_row_def NewOwnerRole_def NewRole_def roleCodePointer_def Let_def)
  have db1: "adb_memberships db1 = adb_memberships db" "?row \<in> set (adb_roles db1)"
    using First(3) by (auto simp: insert_role_def split: if_split_asm)
  have "?row \<in> set (adb_roles db2)" by (rule ensureAdmin_frame(4) [OF First(4) row(1) db1(2)])
  moreover have db': "adb_roles db' = adb_roles db2" "adb_grants db' = gs" "adb_memberships db' = adb_memberships db"
      "\<lparr>mr_TenantID = TrimSpace t, mr_UserID = TrimSpace u, mr_RoleID = TrimSpace t @ '':owner''\<rparr> \<in> set (adb_member_roles db')"
    using First(6) ensureAdmin_frame [OF First(4)] db1(1) by (auto simp: insert_member_role_def split: if_split_asm)
  ultimately show ?thesis
    using First(2) row conjunct1 [OF gs] by (intro owned_exceptI [of ?row _ _ "TrimSpace u"]) (auto simp: owner_grants_def)
qed (use first in simp)

subsection \<open>Replacing the permissions of a role\<close>

definition desired_row :: "string \<Rightarrow> string \<Rightarrow> PermissionGrant \<Rightarrow> permissionGrantRecord" where
  "desired_row t i g = \<lparr>pg_TenantID = t, pg_RoleID = i, pg_Permission = gr_Permission g, pg_Scope = gr_Scope g\<rparr>"

definition other_rows :: "string \<Rightarrow> string \<Rightarrow> string set \<Rightarrow> permissionGrantRecord list \<Rightarrow> permissionGrantRecord set" where
  "other_rows t i ps gs = {g \<in> set gs. \<not> (pg_TenantID g = t \<and> pg_RoleID g = i \<and> pg_Permission g \<in> ps)}"

lemma grant_key_unique: "distinct (map grant_key gs) \<Longrightarrow> g \<in> set gs \<Longrightarrow> h \<in> set gs \<Longrightarrow> grant_key g = grant_key h \<Longrightarrow> g = h"
  by (auto simp: distinct_map inj_on_def)

lemma grant_key_scope [simp]: "grant_key (h\<lparr>pg_Scope := sc\<rparr>) = grant_key h"
  by (simp add: grant_key_def)

lemma update_scope_rows:
  assumes "distinct (map grant_key gs)" "h \<in> set gs" "grant_is t i p h"
  shows "set (update_where (grant_is t i p) (\<lambda>h. h\<lparr>pg_Scope := sc\<rparr>) gs) =
    other_rows t i {p} gs \<union> {\<lparr>pg_TenantID = t, pg_RoleID = i, pg_Permission = p, pg_Scope = sc\<rparr>}"
proof -
  have "h'\<lparr>pg_Scope := sc\<rparr> = \<lparr>pg_TenantID = t, pg_RoleID = i, pg_Permission = p, pg_Scope = sc\<rparr>" if "grant_is t i p h'" for h'
    using that by (cases h') (simp add: grant_is_def)
  then have "(\<lambda>r. if grant_is t i p r then r\<lparr>pg_Scope := sc\<rparr> else r) ` set gs =
      {g \<in> set gs. \<not> grant_is t i p g} \<union> {\<lparr>pg_TenantID = t, pg_RoleID = i, pg_Permission = p, pg_Scope = sc\<rparr>}"
    using assms(2,3) by force
  then show ?thesis by (simp add: set_update_where other_rows_def grant_is_def)
qed

lemma other_rows_step:
  assumes "set gs' = other_rows t i {p} gs \<union> {\<lparr>pg_TenantID = t, pg_RoleID = i, pg_Permission = p, pg_Scope = sc\<rparr>}" "p \<notin> ps"
  shows "other_rows t i ps gs' = other_rows t i (insert p ps) gs \<union> {\<lparr>pg_TenantID = t, pg_RoleID = i, pg_Permission = p, pg_Scope = sc\<rparr>}"
  unfolding other_rows_def assms(1) using assms(2) by auto

lemma apply_grants_rows:
  assumes "apply_grants t i existing ps gs = Inr gs'" "distinct (map grant_key gs)" "distinct (map gr_Permission ps)"
    and "\<And>g sc. g \<in> set ps \<Longrightarrow> existing (gr_Permission g) = Some sc \<longleftrightarrow> \<lparr>pg_TenantID = t, pg_RoleID = i, pg_Permission = gr_Permission g, pg_Scope = sc\<rparr> \<in> set gs"
  shows "distinct (map grant_key gs') \<and> set gs' = other_rows t i (gr_Permission ` set ps) gs \<union> desired_row t i ` set ps"
  using assms
proof (induction ps arbitrary: gs)
  case Nil
  then show ?case by (simp add: other_rows_def)
next
  case (Cons g ps)
  let ?p = "gr_Permission g" and ?row = "desired_row t i g"
  have new: "?p \<notin> gr_Permission ` set ps" using Cons.prems(3) by simp
  obtain gs1 where rest: "apply_grants t i existing ps gs1 = Inr gs'" and d1: "distinct (map grant_key gs1)"
    and s1: "set gs1 = other_rows t i {?p} gs \<union> {\<lparr>pg_TenantID = t, pg_RoleID = i, pg_Permission = ?p, pg_Scope = gr_Scope g\<rparr>}"
  proof (cases "existing ?p")
    case None
    have absent: "\<not> grant_is t i ?p h" if "h \<in> set gs" for h
      using Cons.prems(4) [of g "pg_Scope h"] None that by (cases h) (auto simp: grant_is_def)
    have "insert_grant ?row gs = Inr (gs @ [?row])" using absent by (auto simp: insert_grant_def desired_row_def)
    then have "apply_grants t i existing ps (gs @ [?row]) = Inr gs'" using Cons.prems(1) None by (auto simp: desired_row_def)
    moreover have "grant_key ?row \<notin> grant_key ` set gs"
      using absent by (fastforce simp: desired_row_def grant_key_def grant_is_def)
    then have "distinct (map grant_key (gs @ [?row]))" using Cons.prems(2) by simp
    moreover have "set (gs @ [?row]) = other_rows t i {?p} gs \<union> {\<lparr>pg_TenantID = t, pg_RoleID = i, pg_Permission = ?p, pg_Scope = gr_Scope g\<rparr>}"
      using absent by (auto simp: other_rows_def desired_row_def grant_is_def)
    ultimately show thesis by (rule that)
  next
    case (Some sc)
    let ?h = "\<lparr>pg_TenantID = t, pg_RoleID = i, pg_Permission = ?p, pg_Scope = sc\<rparr>"
    let ?gs1 = "if sc \<noteq> gr_Scope g then update_where (grant_is t i ?p) (\<lambda>h. h\<lparr>pg_Scope := gr_Scope g\<rparr>) gs else gs"
    have h: "?h \<in> set gs" using Cons.prems(4) [of g sc] Some by simp
    have "apply_grants t i existing ps ?gs1 = Inr gs'" using Cons.prems(1) Some by simp
    moreover have "distinct (map grant_key ?gs1)" using Cons.prems(2) by (simp add: map_update_where)
    moreover have "set ?gs1 = other_rows t i {?p} gs \<union> {\<lparr>pg_TenantID = t, pg_RoleID = i, pg_Permission = ?p, pg_Scope = gr_Scope g\<rparr>}"
    proof (cases "sc = gr_Scope g")
      case True
      have "h' \<in> other_rows t i {?p} gs \<or> h' = ?h" if "h' \<in> set gs" for h'
        using grant_key_unique [OF Cons.prems(2) that h] that by (auto simp: grant_key_def other_rows_def)
      then have "set gs \<subseteq> other_rows t i {?p} gs \<union> {?h}" by blast
      moreover have "other_rows t i {?p} gs \<union> {?h} \<subseteq> set gs" using h by (simp add: other_rows_def)
      ultimately show ?thesis using True by (simp only: subset_antisym if_False simp_thms)
    next
      case False
      then show ?thesis using update_scope_rows [OF Cons.prems(2) h, of t i ?p] by (simp add: grant_is_def)
    qed
    ultimately show thesis by (rule that)
  qed
  have "existing (gr_Permission g') = Some sc \<longleftrightarrow> \<lparr>pg_TenantID = t, pg_RoleID = i, pg_Permission = gr_Permission g', pg_Scope = sc\<rparr> \<in> set gs1"
    if "g' \<in> set ps" for g' sc
  proof -
    have "gr_Permission g' \<noteq> ?p" using that new by (metis imageI)
    then show ?thesis using Cons.prems(4) [of g' sc] that unfolding s1 by (simp add: other_rows_def)
  qed
  from Cons.IH [OF rest d1 _ this] Cons.prems(3)
  have IH: "distinct (map grant_key gs')" "set gs' = other_rows t i (gr_Permission ` set ps) gs1 \<union> desired_row t i ` set ps" by simp_all
  show ?case using IH by (simp add: other_rows_step [OF s1 new] desired_row_def)
qed

lemma drop_removed_rows:
  "set (drop_removed_grants t i desired gs) = {g \<in> set gs. pg_TenantID g = t \<and> pg_RoleID g = i \<longrightarrow> pg_Permission g \<in> set desired}"
  by (auto simp: drop_removed_grants_def)

lemma map_of_grants:
  assumes "distinct (map grant_key gs)"
  shows "map_of (map (\<lambda>g. (pg_Permission g, pg_Scope g)) (sort_key pg_Permission (filter (\<lambda>g. pg_TenantID g = t \<and> pg_RoleID g = i) gs))) p = Some sc \<longleftrightarrow>
    \<lparr>pg_TenantID = t, pg_RoleID = i, pg_Permission = p, pg_Scope = sc\<rparr> \<in> set gs"
proof -
  let ?f = "filter (\<lambda>g. pg_TenantID g = t \<and> pg_RoleID g = i) gs"
  have "inj_on pg_Permission (set ?f)" using assms by (auto simp: distinct_map inj_on_def grant_key_def)
  moreover have "distinct ?f" using assms by (simp add: distinct_map)
  ultimately have "distinct (map pg_Permission (sort_key pg_Permission ?f))" by (simp add: distinct_map)
  then have "distinct (map fst (map (\<lambda>g. (pg_Permission g, pg_Scope g)) (sort_key pg_Permission ?f)))" by (simp add: comp_def)
  then have "map_of (map (\<lambda>g. (pg_Permission g, pg_Scope g)) (sort_key pg_Permission ?f)) p = Some sc \<longleftrightarrow>
      (p, sc) \<in> (\<lambda>g. (pg_Permission g, pg_Scope g)) ` set ?f" by (simp add: map_of_eq_Some_iff)
  also have "\<dots> \<longleftrightarrow> \<lparr>pg_TenantID = t, pg_RoleID = i, pg_Permission = p, pg_Scope = sc\<rparr> \<in> set gs"
  proof
    assume "(p, sc) \<in> (\<lambda>g. (pg_Permission g, pg_Scope g)) ` set ?f"
    then obtain g where g: "g \<in> set gs" "pg_TenantID g = t" "pg_RoleID g = i" "pg_Permission g = p" "pg_Scope g = sc" by auto
    then have "g = \<lparr>pg_TenantID = t, pg_RoleID = i, pg_Permission = p, pg_Scope = sc\<rparr>" by (intro permissionGrantRecord.equality) simp_all
    with g(1) show "\<lparr>pg_TenantID = t, pg_RoleID = i, pg_Permission = p, pg_Scope = sc\<rparr> \<in> set gs" by simp
  qed force
  finally show ?thesis .
qed

text \<open>The repository's difference of old and new grants is the replacement of the role's grants.\<close>

lemma ReplacePermissions_rows:
  assumes keys: "acc_keys db" and rep: "ReplacePermissions role v db = Inr (role', db')"
    and perms: "distinct (map gr_Permission (role_Permissions role))"
  obtains gs where "distinct (map grant_key gs)"
    "set gs = {g \<in> set (adb_grants db). \<not> (pg_TenantID g = role_TenantID role \<and> pg_RoleID g = role_ID role)} \<union>
       desired_row (role_TenantID role) (role_ID role) ` set (role_Permissions role)"
    "bump_version (role_TenantID role) (role_ID role) v (\<lambda>r. r) (db\<lparr>adb_grants := gs\<rparr>) = Inr db'"
proof -
  let ?t = "role_TenantID role" and ?i = "role_ID role" and ?ps = "role_Permissions role"
  let ?ex = "map_of (map (\<lambda>g. (pg_Permission g, pg_Scope g)) (role_grants ?t ?i db))"
  let ?gs0 = "drop_removed_grants ?t ?i (map gr_Permission ?ps) (adb_grants db)"
  obtain gs where app: "apply_grants ?t ?i ?ex ?ps ?gs0 = Inr gs"
    and bump: "bump_version ?t ?i v (\<lambda>r. r) (db\<lparr>adb_grants := gs\<rparr>) = Inr db'"
    using rep by (auto simp: ReplacePermissions_def Let_def split: if_split_asm option.split_asm)
  have d0: "distinct (map grant_key ?gs0)" using acc_keysD(4) [OF keys] by (simp add: drop_removed_grants_def distinct_map_filter)
  have "?ex (gr_Permission g) = Some sc \<longleftrightarrow> \<lparr>pg_TenantID = ?t, pg_RoleID = ?i, pg_Permission = gr_Permission g, pg_Scope = sc\<rparr> \<in> set ?gs0"
    if "g \<in> set ?ps" for g sc
    using that map_of_grants [OF acc_keysD(4) [OF keys]] by (simp add: role_grants_def drop_removed_rows)
  from apply_grants_rows [OF app d0 perms this]
  have gs: "distinct (map grant_key gs)" "set gs = other_rows ?t ?i (gr_Permission ` set ?ps) ?gs0 \<union> desired_row ?t ?i ` set ?ps" by simp_all
  moreover have "other_rows ?t ?i (gr_Permission ` set ?ps) ?gs0 = {g \<in> set (adb_grants db). \<not> (pg_TenantID g = ?t \<and> pg_RoleID g = ?i)}"
    unfolding other_rows_def drop_removed_rows by auto
  ultimately show thesis using bump by (intro that [of gs]) simp_all
qed

lemma grant_inputs_result:
  assumes "grant_inputs t i seen inputs = Inr gs"
  shows "distinct (map gr_Permission gs) \<and> gr_Permission ` set gs \<inter> set seen = {} \<and>
    (\<forall>g \<in> set gs. gr_TenantID g = t \<and> gr_RoleID g = i \<and> gr_Permission g \<noteq> '''')"
  using assms
proof (induction t i seen inputs arbitrary: gs rule: grant_inputs.induct)
  case (3 t i seen permission scope rest)
  then obtain sc gs' where sc: "dataScopeDomain scope = Some sc" "TrimSpace permission \<noteq> ''''" "TrimSpace permission \<notin> set seen"
    and rest: "grant_inputs t i (TrimSpace permission # seen) rest = Inr gs'"
    and gs: "gs = \<lparr>gr_TenantID = t, gr_RoleID = i, gr_Permission = TrimSpace permission, gr_Scope = sc\<rparr> # gs'"
    by (auto simp: Let_def split: option.split_asm if_split_asm)
  have "distinct (map gr_Permission gs') \<and> gr_Permission ` set gs' \<inter> set (TrimSpace permission # seen) = {} \<and>
      (\<forall>g \<in> set gs'. gr_TenantID g = t \<and> gr_RoleID g = i \<and> gr_Permission g \<noteq> '''')"
    by (rule "3.IH" [OF refl sc(1) _ rest]) (use sc in simp)
  then show ?case using sc gs by auto
qed auto

lemma permission_inputs_result:
  assumes "permissionGrantInputs t i inputs = Inr gs"
  shows "distinct (map gr_Permission gs)" "sort_key gr_Permission gs = gs" "\<forall>g \<in> set gs. gr_TenantID g = t \<and> gr_RoleID g = i \<and> gr_Permission g \<noteq> ''''"
proof -
  obtain xs where xs: "grant_inputs t i [] inputs = Inr xs" "gs = sort_key gr_Permission xs"
    using assms by (auto simp: permissionGrantInputs_def)
  note r = grant_inputs_result [OF xs(1)]
  have "inj_on gr_Permission (set xs)" "distinct xs" using conjunct1 [OF r] by (simp_all add: distinct_map)
  then show "distinct (map gr_Permission gs)" by (simp add: xs(2) distinct_map)
  show "sort_key gr_Permission gs = gs" by (simp add: xs(2) sort_key_id_if_sorted)
  show "\<forall>g \<in> set gs. gr_TenantID g = t \<and> gr_RoleID g = i \<and> gr_Permission g \<noteq> ''''" using r by (simp add: xs(2))
qed

lemma contains_required_rows:
  assumes "containsOwnerRequiredPermissions grants" "p \<in> set OwnerRequiredPermissions"
  shows "\<lparr>pg_TenantID = t, pg_RoleID = i, pg_Permission = p, pg_Scope = DataScopeAll\<rparr> \<in> desired_row t i ` set grants"
proof -
  have "map_of (rev (map (\<lambda>g. (gr_Permission g, gr_Scope g)) grants)) p = Some DataScopeAll"
    using assms by (simp add: containsOwnerRequiredPermissions_def)
  then have "(p, DataScopeAll) \<in> (\<lambda>g. (gr_Permission g, gr_Scope g)) ` set grants" by (auto dest: map_of_SomeD)
  then show ?thesis by (auto simp: desired_row_def)
qed

lemma keeps_Replace:
  assumes keys: "acc_keys db" and rep: "ReplacePermissions role v db = Inr (role', db')"
    and perms: "distinct (map gr_Permission (role_Permissions role))"
    and owner: "\<And>r. r \<in> set (adb_roles db) \<Longrightarrow> role_is (role_TenantID role) (role_ID role) r \<Longrightarrow> isOwnerRoleRecord r \<Longrightarrow>
      containsOwnerRequiredPermissions (role_Permissions role)"
  shows "keeps_owners db db'"
proof -
  let ?t = "role_TenantID role" and ?i = "role_ID role"
  obtain gs where gs: "distinct (map grant_key gs)"
      "set gs = {g \<in> set (adb_grants db). \<not> (pg_TenantID g = ?t \<and> pg_RoleID g = ?i)} \<union> desired_row ?t ?i ` set (role_Permissions role)"
    and bump: "bump_version ?t ?i v (\<lambda>r. r) (db\<lparr>adb_grants := gs\<rparr>) = Inr db'"
    using ReplacePermissions_rows [OF keys rep perms] .
  let ?db1 = "db\<lparr>adb_grants := gs\<rparr>"
  have "acc_keys ?db1" using acc_keysD [OF keys] gs(1) by (intro acc_keysI) simp_all
  moreover have "owned t' ?db1" if "owned t' db" for t'
  proof (rule owned_keep [OF that])
    fix r assume r: "r \<in> set (adb_roles db)" "owner_row t' r" "owner_grants t' (rr_ID r) (adb_grants db)"
    show "owner_grants t' (rr_ID r) (adb_grants ?db1)"
    proof (cases "t' = ?t \<and> rr_ID r = ?i")
      case True
      then have "containsOwnerRequiredPermissions (role_Permissions role)"
        using owner [of r] r by (auto simp: role_is_def owner_row_def isOwnerRoleRecord_def)
      then show ?thesis using True contains_required_rows by (simp add: owner_grants_def gs(2))
    next
      case False
      then show ?thesis using r(3) by (auto simp: owner_grants_def gs(2))
    qed
  qed auto
  ultimately have "keeps_owners db ?db1" by (simp add: keeps_owners_def)
  moreover have "keeps_owners ?db1 db'"
  proof (rule keeps_bump [OF \<open>acc_keys ?db1\<close> bump])
    fix r r' assume "r \<in> set (adb_roles ?db1)" "r' \<in> set (adb_roles ?db1)" "role_is ?t ?i r" "rr_TenantID r' = ?t" "rr_Name r = rr_Name r'"
    then show "rr_ID r' = ?i"
      using role_rows_clash [OF acc_keysD(1) [OF keys], of r r'] by (auto simp: role_clash_def role_is_def)
  qed simp_all
  ultimately show ?thesis by (rule keeps_trans)
qed

lemma keeps_SetDataPolicy:
  assumes keys: "acc_keys db" and set: "SetDataPolicy t i v pid pv now db = Inr (role, db')"
  shows "keeps_owners db db'"
proof -
  have "\<exists>f. bump_version t i v f db = Inr db' \<and> (\<forall>r. rr_ID (f r) = rr_ID r \<and> rr_TenantID (f r) = rr_TenantID r \<and> rr_RoleCode (f r) = rr_RoleCode r \<and>
      rr_Name (f r) = rr_Name r \<and> (\<forall>t'. owner_row t' (f r) = owner_row t' r))"
    using set by (auto simp: SetDataPolicy_def Let_def owner_row_def split: if_split_asm option.split_asm)
  then obtain f where f: "bump_version t i v f db = Inr db'" "\<And>r. rr_ID (f r) = rr_ID r" "\<And>r. rr_TenantID (f r) = rr_TenantID r"
    "\<And>r. rr_RoleCode (f r) = rr_RoleCode r" "\<And>r. rr_Name (f r) = rr_Name r" "\<And>r t'. owner_row t' (f r) = owner_row t' r" by blast
  show ?thesis
  proof (rule keeps_bump [OF keys f(1)])
    fix r r' assume "r \<in> set (adb_roles db)" "r' \<in> set (adb_roles db)" "role_is t i r" "rr_TenantID r' = t" "rr_Name (f r) = rr_Name r'"
    then show "rr_ID r' = i"
      using role_rows_clash [OF acc_keysD(1) [OF keys], of r r'] by (auto simp: role_clash_def role_is_def f(5))
  qed (simp_all add: f)
qed

lemma keeps_CreateOnce:
  assumes keys: "acc_keys db" and create: "CreateOnce replay role key fp db = Inr (role', db')"
  shows "keeps_owners db db'"
proof -
  let ?rc = "\<lambda>cs. db\<lparr>adb_role_creations := cs\<rparr>"
  have "(\<exists>cs. db' = ?rc cs) \<or> (\<exists>cs db1 cs'. insert_role (role_row role) (?rc cs) = Inr db1 \<and> db' = db1\<lparr>adb_role_creations := cs'\<rparr>)"
    using create by (auto simp: CreateOnce_def Role_Create_def Let_def split: if_split_asm option.split_asm prod.split_asm)
  then consider cs where "db' = ?rc cs" | cs db1 cs' where "insert_role (role_row role) (?rc cs) = Inr db1" "db' = db1\<lparr>adb_role_creations := cs'\<rparr>" by blast
  then show ?thesis
  proof cases
    case 1
    then show ?thesis by (intro same_access_keeps [OF keys]) (simp add: same_access_def)
  next
    case 2
    have 1: "keeps_owners db (?rc cs)" by (intro same_access_keeps [OF keys]) (simp add: same_access_def)
    have 2: "keeps_owners (?rc cs) db1" by (rule keeps_insert_role [OF keeps_keys [OF 1] 2(1)])
    have 3: "keeps_owners db1 db'" by (intro same_access_keeps [OF keeps_keys [OF 2]]) (simp add: same_access_def \<open>db' = _\<close>)
    show ?thesis by (rule keeps_trans [OF keeps_trans [OF 1 2] 3])
  qed
qed

lemma policy_same_access:
  "Policy_Create p db = Inr db' \<Longrightarrow> same_access db db'"
  "Policy_Update p v db = Inr (q, db') \<Longrightarrow> same_access db db'"
  "Policy_Revoke t pid v now db = Inr (q, db') \<Longrightarrow> same_access db db'"
  by (auto simp: Policy_Create_def Policy_Update_def Policy_Revoke_def policy_cas_def Let_def same_access_def split: if_split_asm option.split_asm)

subsection \<open>The role service keeps every tenant's owner\<close>

text \<open>The requests of the role service that change the tables, each with its arguments.\<close>

datatype role_action =
    Bootstrap_Owner string string time
  | Create_Role "Principal option" bool string string string string string time
  | Update_Role "Principal option" string string string uint64 time
  | Disable_Role "Principal option" string uint64 time
  | Enable_Role "Principal option" string uint64 time
  | Delete_Role "Principal option" string uint64 time
  | Set_Permissions "Principal option" string uint64 "(string \<times> int) option list" time
  | Assign_Member "Principal option" string string time
  | Revoke_Member "Principal option" string string time
  | Set_Data_Policy "Principal option" string uint64 string uint64 time
  | Create_Policy "Principal option" "site_directory option" string string string "string list" "time option" "time option" time
  | Update_Policy "Principal option" "site_directory option" string string "string list" "time option" "time option" uint64 time
  | Revoke_Policy "Principal option" string uint64 time

text \<open>A request and the tables it commits; an error rolls the transaction back.\<close>

definition committed :: "AccDB \<Rightarrow> acc_error + ('a \<times> AccDB) \<Rightarrow> AccDB" where
  "committed db r = (case r of Inl e \<Rightarrow> db | Inr (x, db') \<Rightarrow> db')"

fun role_step :: "role_action \<Rightarrow> AccDB \<Rightarrow> AccDB" where
  "role_step (Bootstrap_Owner t u now) db = committed db (BootstrapTenantOwnerRole t u now db)"
| "role_step (Create_Role ctx replay key payload i name desc now) db = committed db (CreateTenantRole ctx replay key payload i name desc now db)"
| "role_step (Update_Role ctx i name desc v now) db = committed db (UpdateTenantRole ctx i name desc v now db)"
| "role_step (Disable_Role ctx i v now) db = committed db (DisableTenantRole ctx i v now db)"
| "role_step (Enable_Role ctx i v now) db = committed db (EnableTenantRole ctx i v now db)"
| "role_step (Delete_Role ctx i v now) db = committed db (DeleteTenantRole ctx i v now db)"
| "role_step (Set_Permissions ctx i v inputs now) db = committed db (SetTenantRolePermissions ctx i v inputs now db)"
| "role_step (Assign_Member ctx i u now) db = committed db (AssignTenantRoleMember ctx i u now db)"
| "role_step (Revoke_Member ctx i u now) db = committed db (RevokeTenantRoleMember ctx i u now db)"
| "role_step (Set_Data_Policy ctx i v pid pv now) db = committed db (SetTenantRoleDataPolicy ctx i v pid pv now db)"
| "role_step (Create_Policy ctx dir fresh pid name sites nb e now) db = committed db (CreateTenantDataPolicy ctx dir fresh pid name sites nb e now db)"
| "role_step (Update_Policy ctx dir pid name sites nb e v now) db = committed db (UpdateTenantDataPolicy ctx dir pid name sites nb e v now db)"
| "role_step (Revoke_Policy ctx pid v now) db = committed db (RevokeTenantDataPolicy ctx pid v now db)"

lemma committed_keeps: "acc_keys db \<Longrightarrow> (\<And>x db'. r = Inr (x, db') \<Longrightarrow> keeps_owners db db') \<Longrightarrow> keeps_owners db (committed db r)"
  by (auto simp: committed_def keeps_refl split: sum.split)

lemma keeps_mutate:
  assumes "acc_keys db" "mutateRole ctx i v f now db = Inr (role, db')"
  shows "keeps_owners db db'"
  using assms by (auto simp: mutateRole_def split: if_split_asm intro: keeps_Role_Update)

lemma role_get_owner:
  assumes "acc_keys db" "Role_Get now t i db = Inr role" "r \<in> set (adb_roles db)" "role_is t i r" "isOwnerRoleRecord r"
  shows "IsOwner role" "role_TenantID role = t" "role_ID role = i"
proof -
  have "role_at t i db = Some r" using assms(1,3,4) role_at_row [of db r] by (simp add: acc_keys_def role_is_def)
  then have "role = roleFromRecord now db r" using assms(2) by (simp add: Role_Get_def)
  then show "IsOwner role" "role_TenantID role = t" "role_ID role = i"
    using assms(4,5) by (auto simp: roleFromRecord_def IsOwner_def isOwnerRoleRecord_def roleCodeValue_def role_is_def)
qed

lemma role_get_ids: "Role_Get now t i db = Inr role \<Longrightarrow> role_TenantID role = t \<and> role_ID role = i"
  by (auto simp: Role_Get_def roleFromRecord_def dest: role_at_Some split: option.split_asm)

lemma keeps_SetPermissions:
  assumes keys: "acc_keys db" and set: "SetTenantRolePermissions ctx i v inputs now db = Inr (role, db')"
  shows "keeps_owners db db'"
proof -
  obtain t gs cur ch where t: "trustedTenantID ctx = Inr t" and gs: "permissionGrantInputs t (TrimSpace i) inputs = Inr gs"
    and cur: "Role_Get now t (TrimSpace i) db = Inr cur" and ch: "Role_ReplacePermissions gs now cur = Inr ch"
    and rep: "ReplacePermissions ch v db = Inr (role, db')"
    using set by (auto simp: SetTenantRolePermissions_def split: if_split_asm)
  have ch': "role_Permissions ch = gs" "role_TenantID ch = t" "role_ID ch = TrimSpace i" "IsOwner cur \<longrightarrow> containsOwnerRequiredPermissions gs"
    using ch permission_inputs_result(2) [OF gs] role_get_ids [OF cur] by (auto simp: Role_ReplacePermissions_def split: if_split_asm)
  show ?thesis
  proof (rule keeps_Replace [OF keys rep])
    show "distinct (map gr_Permission (role_Permissions ch))" using permission_inputs_result(1) [OF gs] by (simp add: ch'(1))
    show "containsOwnerRequiredPermissions (role_Permissions ch)"
      if "r \<in> set (adb_roles db)" "role_is (role_TenantID ch) (role_ID ch) r" "isOwnerRoleRecord r" for r
      using role_get_owner [OF keys cur that(1)] that(2,3) ch' by simp
  qed
qed

definition creation_key :: "Principal option \<Rightarrow> string \<Rightarrow> string option" where
  "creation_key ctx transportKey =
     (case ctx of None \<Rightarrow> None
      | Some p \<Rightarrow> if \<not> prn_Authenticated p \<or> prn_Subject p = [] \<or> transportKey = [] then None
                  else map_option sha256_hex (marshal (JArr [JStr ''tenant.role.create'', JStr (prn_TenantID p), JStr (prn_Subject p),
                         JStr (prn_UserID p), JStr transportKey])))"

lemma create_once_key:
  assumes "creation_key ctx tk = Some k" "role_TenantID role = prn_TenantID (the ctx)"
  shows "createTenantRoleOnce ctx replay tk payload role db = CreateOnce replay role k (sha256_hex payload) db"
  using assms by (auto simp: creation_key_def createTenantRoleOnce_def split: if_split_asm option.split_asm)

lemma create_once_call:
  assumes "createTenantRoleOnce ctx replay tk payload role db = Inr (role', db')"
  obtains k where "creation_key ctx tk = Some k" "role_TenantID role = prn_TenantID (the ctx)"
    "CreateOnce replay role k (sha256_hex payload) db = Inr (role', db')"
proof -
  obtain p where ctx: "ctx = Some p" using assms by (cases ctx) (simp_all add: createTenantRoleOnce_def)
  have p: "prn_Authenticated p" "prn_Subject p \<noteq> []" "prn_TenantID p = role_TenantID role" "tk \<noteq> []"
    using assms by (simp_all add: ctx createTenantRoleOnce_def split: if_split_asm)
  let ?m = "marshal (JArr [JStr ''tenant.role.create'', JStr (prn_TenantID p), JStr (prn_Subject p), JStr (prn_UserID p), JStr tk])"
  obtain m where m: "?m = Some m" using assms p by (cases ?m) (simp_all add: ctx createTenantRoleOnce_def)
  have key: "creation_key ctx tk = Some (sha256_hex m)" using p m by (simp add: creation_key_def ctx)
  show thesis by (rule that [OF key]) (use assms p create_once_key [OF key, of role] in \<open>simp_all add: ctx\<close>)
qed

lemma create_role_call:
  assumes "CreateTenantRole ctx replay key payload i name desc now db = Inr (role, db')"
  obtains t where "trustedTenantID ctx = Inr t"
    "createTenantRoleOnce ctx replay key payload ((NewRole i t (TrimSpace name) now)\<lparr>role_Description := TrimSpace desc\<rparr>) db = Inr (role, db')"
  using assms by (auto simp: CreateTenantRole_def Let_def split: if_split_asm)

lemma keeps_create:
  assumes keys: "acc_keys db" and create: "CreateTenantRole ctx replay key payload i name desc now db = Inr (role, db')"
  shows "keeps_owners db db'"
proof -
  from create obtain r where "createTenantRoleOnce ctx replay key payload r db = Inr (role, db')" by (rule create_role_call)
  then obtain k where "CreateOnce replay r k (sha256_hex payload) db = Inr (role, db')" by (rule create_once_call)
  then show ?thesis by (rule keeps_CreateOnce [OF keys])
qed

lemma keeps_role_step: "acc_keys db \<Longrightarrow> keeps_owners db (role_step a db)"
proof (cases a)
  case (Create_Policy ctx dir fresh pid name sites nb e now)
  assume keys: "acc_keys db"
  show ?thesis unfolding Create_Policy role_step.simps
    by (rule committed_keeps [OF keys], rule same_access_keeps [OF keys])
      (auto simp: CreateTenantDataPolicy_def Let_def split: if_split_asm dest!: policy_same_access(1))
next
  case (Update_Policy ctx dir pid name sites nb e v now)
  assume keys: "acc_keys db"
  show ?thesis unfolding Update_Policy role_step.simps
    by (rule committed_keeps [OF keys], rule same_access_keeps [OF keys])
      (auto simp: UpdateTenantDataPolicy_def split: if_split_asm dest!: policy_same_access(2))
next
  case (Revoke_Policy ctx pid v now)
  assume keys: "acc_keys db"
  show ?thesis unfolding Revoke_Policy role_step.simps
    by (rule committed_keeps [OF keys], rule same_access_keeps [OF keys])
      (auto simp: RevokeTenantDataPolicy_def split: if_split_asm dest!: policy_same_access(3))
qed (auto intro!: committed_keeps simp: BootstrapTenantOwnerRole_def UpdateTenantRole_def DisableTenantRole_def EnableTenantRole_def
      DeleteTenantRole_def AssignTenantRoleMember_def RevokeTenantRoleMember_def SetTenantRoleDataPolicy_def Let_def
    intro: keeps_create keeps_Bootstrap keeps_mutate keeps_Role_Delete keeps_SetPermissions keeps_Assign keeps_Revoke keeps_SetDataPolicy split: if_split_asm)

subsection \<open>Properties\<close>

text \<open>
  C39: setting the permissions of a role stores exactly the permissions of the request: the
  role's grants afterwards are the requested ones, each once and with the requested scope, the
  grants of every other role are untouched, and the version of the role moves by one. The
  repository works out a difference of old and new grants; the result is that of replacing them.\<close>

theorem permissions_replaced:
  assumes keys: "acc_keys db" and set: "SetTenantRolePermissions ctx i v inputs now db = Inr (role, db')"
  shows "\<exists>t wanted. trustedTenantID ctx = Inr t \<and> permissionGrantInputs t (TrimSpace i) inputs = Inr wanted \<and>
    role_Permissions role = wanted \<and> distinct (map gr_Permission wanted) \<and>
    {g \<in> set (adb_grants db'). pg_TenantID g = t \<and> pg_RoleID g = TrimSpace i} = desired_row t (TrimSpace i) ` set wanted \<and>
    {g \<in> set (adb_grants db'). \<not> (pg_TenantID g = t \<and> pg_RoleID g = TrimSpace i)} =
      {g \<in> set (adb_grants db). \<not> (pg_TenantID g = t \<and> pg_RoleID g = TrimSpace i)} \<and>
    (\<exists>r. role_at t (TrimSpace i) db = Some r \<and> rr_Version r = v \<and> role_at t (TrimSpace i) db' = Some (r\<lparr>rr_Version := v + 1\<rparr>)) \<and>
    role_Version role = v + 1"
proof -
  obtain t gs cur ch where t: "trustedTenantID ctx = Inr t" and gs: "permissionGrantInputs t (TrimSpace i) inputs = Inr gs"
    and cur: "Role_Get now t (TrimSpace i) db = Inr cur" and ch: "Role_ReplacePermissions gs now cur = Inr ch"
    and rep: "ReplacePermissions ch v db = Inr (role, db')"
    using set by (auto simp: SetTenantRolePermissions_def split: if_split_asm)
  have ch': "role_Permissions ch = gs" "role_TenantID ch = t" "role_ID ch = TrimSpace i"
    using ch permission_inputs_result(2) [OF gs] role_get_ids [OF cur] by (auto simp: Role_ReplacePermissions_def split: if_split_asm)
  have d: "distinct (map gr_Permission (role_Permissions ch))" using permission_inputs_result(1) [OF gs] by (simp add: ch'(1))
  have role: "role = ch\<lparr>role_Version := v + 1\<rparr>" using rep by (auto simp: ReplacePermissions_def Let_def split: if_split_asm option.split_asm)
  obtain rows where rows: "set rows = {g \<in> set (adb_grants db). \<not> (pg_TenantID g = t \<and> pg_RoleID g = TrimSpace i)} \<union> desired_row t (TrimSpace i) ` set gs"
    and bump: "bump_version t (TrimSpace i) v (\<lambda>r. r) (db\<lparr>adb_grants := rows\<rparr>) = Inr db'"
    using ReplacePermissions_rows [OF keys rep d] unfolding ch' .
  have grants: "adb_grants db' = rows" using bump_version_fields(3) [OF bump] by simp
  obtain r where r: "role_at t (TrimSpace i) db = Some r" "rr_Version r = v"
    using rep ch' by (auto simp: ReplacePermissions_def split: if_split_asm option.split_asm)
  have "role_at t (TrimSpace i) db' = Some (r\<lparr>rr_Version := v + 1\<rparr>)"
    using bump_version_at [OF keys r(1,2)] bump by simp
  then show ?thesis
    using t gs role ch' d r grants rows by (auto simp: desired_row_def)
qed

subsection \<open>Requests of one tenant leave the others alone\<close>

text \<open>The tables the role service never writes.\<close>

definition outside :: "AccDB \<Rightarrow> tenantRecord list \<times> userRecord list \<times> apiTokenRecord list \<times> memberStatusAppealRecord list \<times> webIdentityRecord list \<times>
    webSessionRecord list \<times> webLoginFlowRecord list \<times> platformCredentialRecord list \<times> platformPermissionGrantRecord list \<times>
    serviceAPICredentialRecord list \<times> serviceAPIOperationRecord list \<times> serviceAPINonceRecord list" where
  [simp]: "outside db = (adb_tenants db, adb_users db, adb_api_tokens db, adb_appeals db, adb_web_identities db, adb_web_sessions db, adb_login_flows db,
     adb_platform_credentials db, adb_platform_grants db, adb_service_credentials db, adb_service_operations db, adb_service_nonces db)"

definition foreign :: "string \<Rightarrow> AccDB \<Rightarrow> AccDB \<Rightarrow> bool" where
  "foreign t db db' \<longleftrightarrow> outside db' = outside db \<and> (\<forall>t'. t' \<noteq> t \<longrightarrow>
     filter (\<lambda>r. rr_TenantID r = t') (adb_roles db') = filter (\<lambda>r. rr_TenantID r = t') (adb_roles db) \<and>
     filter (\<lambda>m. mem_TenantID m = t') (adb_memberships db') = filter (\<lambda>m. mem_TenantID m = t') (adb_memberships db) \<and>
     filter (\<lambda>a. mr_TenantID a = t') (adb_member_roles db') = filter (\<lambda>a. mr_TenantID a = t') (adb_member_roles db) \<and>
     filter (\<lambda>g. pg_TenantID g = t') (adb_grants db') = filter (\<lambda>g. pg_TenantID g = t') (adb_grants db) \<and>
     filter (\<lambda>s. site_TenantID s = t') (adb_member_sites db') = filter (\<lambda>s. site_TenantID s = t') (adb_member_sites db) \<and>
     filter (\<lambda>p. dp_TenantID p = t') (adb_policies db') = filter (\<lambda>p. dp_TenantID p = t') (adb_policies db) \<and>
     filter (\<lambda>s. dps_TenantID s = t') (adb_policy_sites db') = filter (\<lambda>s. dps_TenantID s = t') (adb_policy_sites db) \<and>
     filter (\<lambda>s. rrs_TenantID s = t') (adb_removed_roles db') = filter (\<lambda>s. rrs_TenantID s = t') (adb_removed_roles db) \<and>
     filter (\<lambda>s. rss_TenantID s = t') (adb_removed_sites db') = filter (\<lambda>s. rss_TenantID s = t') (adb_removed_sites db) \<and>
     filter (\<lambda>c. rcr_TenantID c = t') (adb_role_creations db') = filter (\<lambda>c. rcr_TenantID c = t') (adb_role_creations db))"

lemma foreign_refl [simp, intro]: "foreign t db db"
  by (simp add: foreign_def)

lemma foreign_trans: "foreign t a b \<Longrightarrow> foreign t b c \<Longrightarrow> foreign t a c"
  by (simp add: foreign_def)

lemma filter_update_other: "(\<And>r. P r \<Longrightarrow> \<not> Q r \<and> \<not> Q (f r)) \<Longrightarrow> filter Q (update_where P f rows) = filter Q rows"
  by (induction rows) (auto simp: update_where_def)

lemma filter_conj_other: "(\<And>r. Q r \<Longrightarrow> P r) \<Longrightarrow> filter (\<lambda>r. P r \<and> Q r) rows = filter Q rows"
  by (induction rows) auto

lemma foreign_insert_role: "insert_role row db = Inr db' \<Longrightarrow> foreign (rr_TenantID row) db db'"
  by (auto simp: insert_role_def foreign_def split: if_split_asm)

lemma foreign_bump:
  assumes "bump_version t i v f db = Inr db'" "\<And>r. rr_TenantID (f r) = rr_TenantID r"
  shows "foreign t db db'"
  using assms by (auto simp: bump_version_def Let_def foreign_def role_is_def split: if_split_asm intro!: filter_update_other)

lemma foreign_member_role: "foreign (mr_TenantID a) db (ensure_member_role a db)"
  by (auto simp: ensure_member_role_def foreign_def)

lemma foreign_admin:
  assumes "ensureTenantAdminRole t now db = Inr db'"
  shows "foreign t db db'"
proof (cases "role_at t (t @ '':admin'') db")
  case None
  have "rr_TenantID (role_row (NewAdminRole i t now)) = t" for i by (simp add: role_row_def NewAdminRole_def NewRole_def)
  then show ?thesis using assms None foreign_insert_role by (fastforce simp: ensureTenantAdminRole_def Let_def)
next
  case (Some r)
  then show ?thesis
    using assms by (auto simp: ensureTenantAdminRole_def Let_def foreign_def role_is_def split: if_split_asm intro!: filter_update_other)
qed

lemma foreign_grants:
  "foreign t (db\<lparr>adb_grants := gs\<rparr>) db' \<Longrightarrow> (\<And>t'. t' \<noteq> t \<Longrightarrow> filter (\<lambda>g. pg_TenantID g = t') gs = filter (\<lambda>g. pg_TenantID g = t') (adb_grants db))
    \<Longrightarrow> foreign t db db'"
  by (simp add: foreign_def)

lemma insert_grants_append: "insert_grants gs rows = Inr rows' \<Longrightarrow> rows' = rows @ gs"
proof (induction gs arbitrary: rows)
  case (Cons g gs)
  then have "insert_grants gs (rows @ [g]) = Inr rows'" by (auto simp: insert_grant_def split: if_split_asm)
  from Cons.IH [OF this] show ?case by simp
qed simp

lemma foreign_Bootstrap:
  assumes boot: "BootstrapOwner t u now db = Inr (role, db')"
  shows "foreign (TrimSpace t) db db'"
  using boot
proof (cases rule: bootstrap_cases)
  case (Existing db1 db2)
  have 1: "foreign (TrimSpace t) db db1" using Existing(2) by (auto simp: foreign_def role_is_def intro!: filter_update_other)
  have 2: "foreign (TrimSpace t) db1 db2" by (rule foreign_admin [OF Existing(3)])
  have 3: "foreign (TrimSpace t) db2 db'"
    unfolding Existing(4) using foreign_member_role [of "\<lparr>mr_TenantID = TrimSpace t, mr_UserID = TrimSpace u, mr_RoleID = TrimSpace t @ '':owner''\<rparr>"] by simp
  show ?thesis by (rule foreign_trans [OF foreign_trans [OF 1 2] 3])
next
  case (First db1 db2 gs)
  have "rr_TenantID (role_row (NewOwnerRole i (TrimSpace t) now)) = TrimSpace t" for i by (simp add: role_row_def NewOwnerRole_def NewRole_def)
  then have 1: "foreign (TrimSpace t) db db1" using foreign_insert_role [OF First(3)] by simp
  have 2: "foreign (TrimSpace t) db1 db2" by (rule foreign_admin [OF First(4)])
  have 3: "foreign (TrimSpace t) (db2\<lparr>adb_grants := gs\<rparr>) db'" using First(6) by (auto simp: insert_member_role_def foreign_def split: if_split_asm)
  have "foreign (TrimSpace t) db2 db'"
    by (rule foreign_grants [OF 3]) (simp add: insert_grants_append [OF First(5)] filter_map comp_def)
  then show ?thesis by (rule foreign_trans [OF foreign_trans [OF 1 2]])
qed

lemma apply_grants_foreign:
  assumes "apply_grants t i existing ps gs = Inr gs'" "t' \<noteq> t"
  shows "filter (\<lambda>g. pg_TenantID g = t') gs' = filter (\<lambda>g. pg_TenantID g = t') gs"
  using assms(1)
proof (induction ps arbitrary: gs)
  case (Cons g ps)
  have upd: "filter (\<lambda>g. pg_TenantID g = t') (update_where (grant_is t i p) (\<lambda>h. h\<lparr>pg_Scope := sc\<rparr>) gs) = filter (\<lambda>g. pg_TenantID g = t') gs" for p sc
    using assms(2) by (intro filter_update_other) (auto simp: grant_is_def)
  show ?case
  proof (cases "existing (gr_Permission g)")
    case None
    then obtain gs1 where "insert_grant (desired_row t i g) gs = Inr gs1" "apply_grants t i existing ps gs1 = Inr gs'"
      using Cons.prems by (auto simp: desired_row_def)
    then show ?thesis using Cons.IH assms(2) by (auto simp: insert_grant_def desired_row_def split: if_split_asm)
  next
    case (Some sc)
    let ?gs1 = "if sc \<noteq> gr_Scope g then update_where (grant_is t i (gr_Permission g)) (\<lambda>h. h\<lparr>pg_Scope := gr_Scope g\<rparr>) gs else gs"
    have "apply_grants t i existing ps ?gs1 = Inr gs'" using Cons.prems Some by simp
    from Cons.IH [OF this] show ?thesis using upd by (simp split: if_split_asm)
  qed
qed simp

lemma foreign_Replace:
  assumes "ReplacePermissions role v db = Inr (role', db')"
  shows "foreign (role_TenantID role) db db'"
proof -
  let ?t = "role_TenantID role" and ?i = "role_ID role" and ?ps = "role_Permissions role"
  obtain ex gs where app: "apply_grants ?t ?i ex ?ps (drop_removed_grants ?t ?i (map gr_Permission ?ps) (adb_grants db)) = Inr gs"
    and bump: "bump_version ?t ?i v (\<lambda>r. r) (db\<lparr>adb_grants := gs\<rparr>) = Inr db'"
    using assms by (auto simp: ReplacePermissions_def Let_def split: if_split_asm option.split_asm)
  show ?thesis
    by (rule foreign_grants [OF foreign_bump [OF bump]])
      (auto simp: apply_grants_foreign [OF app] drop_removed_grants_def intro!: filter_conj_other)
qed

lemma foreign_Update: "Role_Update role v db = Inr (role', db') \<Longrightarrow> foreign (role_TenantID role) db db'"
  by (auto simp: Role_Update_def split: if_split_asm option.split_asm elim!: foreign_bump)

lemma foreign_Delete: "Role_Delete now t i v db = Inr (role, db') \<Longrightarrow> foreign t db db'"
  by (auto simp: Role_Delete_def foreign_def role_is_def split: if_split_asm option.split_asm intro!: filter_conj_other)

lemma foreign_Assign: "AssignMember now t i u db = Inr (role, db') \<Longrightarrow> foreign t db db'"
  using foreign_member_role [of "\<lparr>mr_TenantID = t, mr_UserID = u, mr_RoleID = i\<rparr>" db] by (auto simp: AssignMember_def Let_def split: if_split_asm)

lemma foreign_Revoke: "RevokeMember now t i u db = Inr (role, db') \<Longrightarrow> foreign t db db'"
  by (auto simp: RevokeMember_def Let_def foreign_def split: if_split_asm option.split_asm intro!: filter_conj_other)

lemma foreign_SetDataPolicy:
  assumes "SetDataPolicy t i v pid pv now db = Inr (role, db')"
  shows "foreign t db db'"
proof -
  obtain f where "bump_version t i v f db = Inr db'" "\<And>r. rr_TenantID (f r) = rr_TenantID r"
    using assms by (auto simp: SetDataPolicy_def Let_def split: if_split_asm option.split_asm)
  then show ?thesis by (rule foreign_bump)
qed

lemma foreign_policy_cas:
  assumes "policy_cas t pid v f db = Inr db'" "\<And>p. dp_TenantID (f p) = dp_TenantID p"
  shows "foreign t db db'"
  using assms by (auto simp: policy_cas_def Let_def foreign_def policy_is_def split: if_split_asm intro!: filter_update_other)

lemma foreign_sites:
  "replaceSites t pid ids (adb_policy_sites db) = Inr sites \<Longrightarrow> foreign t db (db\<lparr>adb_policy_sites := sites\<rparr>)"
  by (auto simp: replaceSites_def foreign_def filter_map comp_def split: if_split_asm intro!: filter_conj_other)

lemma foreign_Policy_Create: "Policy_Create p db = Inr db' \<Longrightarrow> foreign (pol_TenantID p) db db'"
  by (auto simp: Policy_Create_def foreign_def dest!: foreign_sites split: if_split_asm)

lemma foreign_Policy_Update:
  assumes "Policy_Update p v db = Inr (q, db')"
  shows "foreign (pol_TenantID p) db db'"
proof -
  obtain f db1 sites where "policy_cas (pol_TenantID p) (pol_ID p) v f db = Inr db1" "\<And>p. dp_TenantID (f p) = dp_TenantID p"
      "replaceSites (pol_TenantID p) (pol_ID p) (pol_SiteIDs p) (adb_policy_sites db1) = Inr sites" "db' = db1\<lparr>adb_policy_sites := sites\<rparr>"
    using assms by (auto simp: Policy_Update_def split: if_split_asm option.split_asm)
  then show ?thesis using foreign_trans [OF foreign_policy_cas foreign_sites] by simp
qed

lemma foreign_Policy_Revoke: "Policy_Revoke t pid v now db = Inr (q, db') \<Longrightarrow> foreign t db db'"
  by (auto simp: Policy_Revoke_def split: if_split_asm option.split_asm elim!: foreign_policy_cas)

lemma claim_receipt_foreign: "claim_receipt replay fresh rows = (b, rows') \<Longrightarrow> t' \<noteq> rcr_TenantID fresh
    \<Longrightarrow> filter (\<lambda>c. rcr_TenantID c = t') rows' = filter (\<lambda>c. rcr_TenantID c = t') rows"
  by (auto simp: claim_receipt_def split: if_split_asm)

lemma foreign_CreateOnce:
  assumes create: "CreateOnce replay role key fp db = Inr (role', db')"
  shows "foreign (role_TenantID role) db db'"
proof -
  let ?fresh = "\<lparr>rcr_Key = key, rcr_TenantID = role_TenantID role, rcr_Fingerprint = fp, rcr_Payload = None\<rparr>"
  obtain ins cs where cl: "claim_receipt replay ?fresh (adb_role_creations db) = (ins, cs)" by (cases "claim_receipt replay ?fresh (adb_role_creations db)")
  let ?P = "\<lambda>c. rcr_Key c = key \<and> rcr_TenantID c = role_TenantID role \<and> rcr_Fingerprint c = fp \<and> rcr_Payload c = None"
  let ?f = "\<lambda>c. c\<lparr>rcr_Payload := Some role\<rparr>"
  have 1: "foreign (role_TenantID role) db (db\<lparr>adb_role_creations := cs\<rparr>)"
    using claim_receipt_foreign [OF cl] by (simp add: foreign_def)
  consider "db' = db\<lparr>adb_role_creations := cs\<rparr>" | db1 where "insert_role (role_row role) (db\<lparr>adb_role_creations := cs\<rparr>) = Inr db1"
      "db' = db1\<lparr>adb_role_creations := update_where ?P ?f (adb_role_creations db1)\<rparr>"
    using create cl by (auto simp: CreateOnce_def Role_Create_def Let_def split: if_split_asm option.split_asm)
  then show ?thesis
  proof cases
    case 1
    then show ?thesis using \<open>foreign (role_TenantID role) db (db\<lparr>adb_role_creations := cs\<rparr>)\<close> by simp
  next
    case 2
    have "foreign (role_TenantID role) (db\<lparr>adb_role_creations := cs\<rparr>) db1" using foreign_insert_role [OF 2(1)] by (simp add: role_row_def)
    moreover have "foreign (role_TenantID role) db1 db'" by (auto simp: 2(2) foreign_def intro!: filter_update_other)
    ultimately show ?thesis using foreign_trans [OF foreign_trans [OF 1]] by blast
  qed
qed

definition ctx_tenant :: "Principal option \<Rightarrow> string option" where
  "ctx_tenant ctx = (case trustedTenantID ctx of Inl e \<Rightarrow> None | Inr t \<Rightarrow> Some t)"

fun action_tenant :: "role_action \<Rightarrow> string option" where
  "action_tenant (Bootstrap_Owner t u now) = Some (TrimSpace t)"
| "action_tenant (Create_Role ctx replay key payload i name desc now) = ctx_tenant ctx"
| "action_tenant (Update_Role ctx i name desc v now) = ctx_tenant ctx"
| "action_tenant (Disable_Role ctx i v now) = ctx_tenant ctx"
| "action_tenant (Enable_Role ctx i v now) = ctx_tenant ctx"
| "action_tenant (Delete_Role ctx i v now) = ctx_tenant ctx"
| "action_tenant (Set_Permissions ctx i v inputs now) = ctx_tenant ctx"
| "action_tenant (Assign_Member ctx i u now) = ctx_tenant ctx"
| "action_tenant (Revoke_Member ctx i u now) = ctx_tenant ctx"
| "action_tenant (Set_Data_Policy ctx i v pid pv now) = ctx_tenant ctx"
| "action_tenant (Create_Policy ctx dir fresh pid name sites nb e now) = ctx_tenant ctx"
| "action_tenant (Update_Policy ctx dir pid name sites nb e v now) = ctx_tenant ctx"
| "action_tenant (Revoke_Policy ctx pid v now) = ctx_tenant ctx"

definition within :: "string option \<Rightarrow> AccDB \<Rightarrow> AccDB \<Rightarrow> bool" where
  "within t db db' \<longleftrightarrow> db' = db \<or> (\<exists>t'. t = Some t' \<and> foreign t' db db')"

lemma committed_within: "(\<And>x db'. r = Inr (x, db') \<Longrightarrow> within t db db') \<Longrightarrow> within t db (committed db r)"
  by (auto simp: committed_def within_def split: sum.split)

lemma withinI: "trustedTenantID ctx = Inr t \<Longrightarrow> foreign t db db' \<Longrightarrow> within (ctx_tenant ctx) db db'"
  by (simp add: within_def ctx_tenant_def)

lemma foreign_mutate:
  assumes "mutateRole ctx i v f now db = Inr (role, db')" "\<And>r r'. f r = Inr r' \<Longrightarrow> role_TenantID r' = role_TenantID r"
  shows "within (ctx_tenant ctx) db db'"
proof -
  obtain t cur ch where t: "trustedTenantID ctx = Inr t" "Role_Get now t i db = Inr cur" "f cur = Inr ch" "Role_Update ch v db = Inr (role, db')"
    using assms(1) by (auto simp: mutateRole_def split: if_split_asm)
  have "role_TenantID ch = t" using assms(2) [OF t(3)] role_get_ids [OF t(2)] by simp
  then show ?thesis using foreign_Update [OF t(4)] by (intro withinI [OF t(1)]) simp
qed

lemma role_ops_tenant:
  "Role_Rename name now r = Inr r' \<Longrightarrow> role_TenantID r' = role_TenantID r"
  "Role_UpdateDescription desc now r = Inr r' \<Longrightarrow> role_TenantID r' = role_TenantID r"
  "Role_Disable now r = Inr r' \<Longrightarrow> role_TenantID r' = role_TenantID r"
  "Role_Enable now r = Inr r' \<Longrightarrow> role_TenantID r' = role_TenantID r"
  "Role_ReplacePermissions gs now r = Inr r' \<Longrightarrow> role_TenantID r' = role_TenantID r"
  by (auto simp: Role_Rename_def Role_UpdateDescription_def Role_Disable_def Role_Enable_def Role_ReplacePermissions_def Let_def split: if_split_asm)

lemma policy_ops_tenant:
  "Policy_Apply name sites nb e now p = Inr p' \<Longrightarrow> pol_TenantID p' = pol_TenantID p"
  "NewDataPolicy i t name sites nb e now = Inr p' \<Longrightarrow> pol_TenantID p' = TrimSpace t"
  "Policy_Get t pid db = Inr p' \<Longrightarrow> pol_TenantID p' = TrimSpace t"
  by (auto simp: NewDataPolicy_def Policy_Apply_def Policy_Get_def policyFromRecord_def policy_at_def policy_is_def find_Some_iff Let_def
      split: if_split_asm option.split_asm)

lemma trusted_plain: "trustedTenantID ctx = Inr t \<Longrightarrow> TrimSpace t = t"
  by (auto simp: trustedTenantID_def split: if_split_asm option.split_asm)

lemma within_SetPermissions:
  assumes "SetTenantRolePermissions ctx i v inputs now db = Inr (role, db')"
  shows "within (ctx_tenant ctx) db db'"
proof -
  obtain t gs cur ch where t: "trustedTenantID ctx = Inr t" "Role_Get now t (TrimSpace i) db = Inr cur" "Role_ReplacePermissions gs now cur = Inr ch"
    "ReplacePermissions ch v db = Inr (role, db')"
    using assms by (auto simp: SetTenantRolePermissions_def split: if_split_asm)
  have "role_TenantID ch = t" using role_ops_tenant(5) [OF t(3)] role_get_ids [OF t(2)] by simp
  then show ?thesis using foreign_Replace [OF t(4)] by (intro withinI [OF t(1)]) simp
qed

lemma within_create:
  assumes "CreateTenantRole ctx replay key payload i name desc now db = Inr (role, db')"
  shows "within (ctx_tenant ctx) db db'"
proof -
  from assms obtain t where t: "trustedTenantID ctx = Inr t" and
    "createTenantRoleOnce ctx replay key payload ((NewRole i t (TrimSpace name) now)\<lparr>role_Description := TrimSpace desc\<rparr>) db = Inr (role, db')"
    by (rule create_role_call)
  then obtain k where "CreateOnce replay ((NewRole i t (TrimSpace name) now)\<lparr>role_Description := TrimSpace desc\<rparr>) k (sha256_hex payload) db = Inr (role, db')"
    by (elim create_once_call)
  from foreign_CreateOnce [OF this] show ?thesis by (intro withinI [OF t]) (simp add: NewRole_def)
qed

lemma within_policies:
  "CreateTenantDataPolicy ctx dir fresh pid name sites nb e now db = Inr (p, db') \<Longrightarrow> within (ctx_tenant ctx) db db'"
  "UpdateTenantDataPolicy ctx dir pid name sites nb e v now db = Inr (p, db') \<Longrightarrow> within (ctx_tenant ctx) db db'"
  "RevokeTenantDataPolicy ctx pid v now db = Inr (p, db') \<Longrightarrow> within (ctx_tenant ctx) db db'"
  by (fastforce simp: CreateTenantDataPolicy_def UpdateTenantDataPolicy_def RevokeTenantDataPolicy_def Let_def split: if_split_asm
      dest: policy_ops_tenant trusted_plain foreign_Policy_Create foreign_Policy_Update foreign_Policy_Revoke intro: withinI)+

lemma role_step_within: "within (action_tenant a) db (role_step a db)"
proof (cases a)
  case (Bootstrap_Owner t u now)
  show ?thesis unfolding Bootstrap_Owner role_step.simps action_tenant.simps
    by (rule committed_within) (auto simp: BootstrapTenantOwnerRole_def within_def split: if_split_asm dest!: foreign_Bootstrap)
next
  case (Update_Role ctx i name desc v now)
  show ?thesis unfolding Update_Role role_step.simps action_tenant.simps
    by (rule committed_within)
      (auto simp: UpdateTenantRole_def split: if_split_asm dest!: role_ops_tenant elim!: foreign_mutate)
qed (auto intro!: committed_within simp: DisableTenantRole_def EnableTenantRole_def
      DeleteTenantRole_def AssignTenantRoleMember_def RevokeTenantRoleMember_def SetTenantRoleDataPolicy_def Let_def
    intro: within_create foreign_mutate role_ops_tenant within_SetPermissions within_policies
      withinI [OF _ foreign_Delete] withinI [OF _ foreign_Assign] withinI [OF _ foreign_Revoke] withinI [OF _ foreign_SetDataPolicy]
    split: if_split_asm)

lemma role_step_outside: "outside (role_step a db) = outside db"
  using role_step_within [of a db] unfolding within_def foreign_def by auto

text \<open>
  C37: tenants are isolated: a request of the role service, whatever identifiers it names, changes
  no role, assignment, grant, policy, site or receipt of a tenant other than the authenticated
  one (the bootstrapped one, for the bootstrap).\<close>

theorem role_requests_isolated:
  "\<forall>t. action_tenant a \<noteq> Some t \<longrightarrow>
     filter (\<lambda>r. rr_TenantID r = t) (adb_roles (role_step a db)) = filter (\<lambda>r. rr_TenantID r = t) (adb_roles db) \<and>
     filter (\<lambda>m. mem_TenantID m = t) (adb_memberships (role_step a db)) = filter (\<lambda>m. mem_TenantID m = t) (adb_memberships db) \<and>
     filter (\<lambda>r. mr_TenantID r = t) (adb_member_roles (role_step a db)) = filter (\<lambda>r. mr_TenantID r = t) (adb_member_roles db) \<and>
     filter (\<lambda>g. pg_TenantID g = t) (adb_grants (role_step a db)) = filter (\<lambda>g. pg_TenantID g = t) (adb_grants db) \<and>
     filter (\<lambda>s. site_TenantID s = t) (adb_member_sites (role_step a db)) = filter (\<lambda>s. site_TenantID s = t) (adb_member_sites db) \<and>
     filter (\<lambda>p. dp_TenantID p = t) (adb_policies (role_step a db)) = filter (\<lambda>p. dp_TenantID p = t) (adb_policies db) \<and>
     filter (\<lambda>s. dps_TenantID s = t) (adb_policy_sites (role_step a db)) = filter (\<lambda>s. dps_TenantID s = t) (adb_policy_sites db) \<and>
     filter (\<lambda>c. rcr_TenantID c = t) (adb_role_creations (role_step a db)) = filter (\<lambda>c. rcr_TenantID c = t) (adb_role_creations db)"
proof -
  consider "role_step a db = db" | t' where "action_tenant a = Some t'" "foreign t' db (role_step a db)"
    using role_step_within [of a db] by (auto simp: within_def)
  then show ?thesis
  proof cases
    case 2
    then show ?thesis by (simp add: foreign_def)
  qed simp
qed

lemma find_update_where:
  "(\<And>c. Q (f c) = Q c) \<Longrightarrow> find Q (update_where P f rows) = map_option (\<lambda>c. if P c then f c else c) (find Q rows)"
  by (induction rows) (auto simp: update_where_def)

text \<open>A finished receipt, and what \<open>CreateOnce\<close> answers to it.\<close>

definition finished :: "string \<Rightarrow> string \<Rightarrow> Role \<Rightarrow> AccDB \<Rightarrow> bool" where
  "finished key fp r db \<longleftrightarrow> (\<exists>row. find (\<lambda>c. rcr_Key c = key) (adb_role_creations db) = Some row \<and> rcr_TenantID row = role_TenantID r \<and>
     rcr_Fingerprint row = fp \<and> rcr_Payload row = Some r \<and> role_ID r \<noteq> '''' \<and> role_Version r = 1 \<and> \<not> role_System r \<and> role_Permissions r = [])"

lemma CreateOnce_finishes:
  assumes create: "CreateOnce replay role key fp db = Inr (role', db')"
    and fresh: "role_ID role \<noteq> ''''" "role_Version role = 1" "\<not> role_System role" "role_Permissions role = []"
  shows "finished key fp role' db' \<and> role_TenantID role' = role_TenantID role"
proof -
  let ?fresh = "\<lparr>rcr_Key = key, rcr_TenantID = role_TenantID role, rcr_Fingerprint = fp, rcr_Payload = None\<rparr>"
  obtain ins cs where cl: "claim_receipt replay ?fresh (adb_role_creations db) = (ins, cs)" by (cases "claim_receipt replay ?fresh (adb_role_creations db)")
  let ?P = "\<lambda>c. rcr_Key c = key \<and> rcr_TenantID c = role_TenantID role \<and> rcr_Fingerprint c = fp \<and> rcr_Payload c = None"
  obtain row where found: "find (\<lambda>c. rcr_Key c = key) cs = Some row"
    using create cl by (cases "find (\<lambda>c. rcr_Key c = key) cs") (simp_all add: CreateOnce_def split: if_split_asm)
  have "\<exists>e. CreateOnce replay role key fp db = Inl e" if "rcr_TenantID row \<noteq> role_TenantID role \<or> rcr_Fingerprint row \<noteq> fp"
    unfolding CreateOnce_def cl using that found by simp
  then have ids: "rcr_TenantID row = role_TenantID role" "rcr_Fingerprint row = fp" using create by auto
  note row = found ids
  show ?thesis
  proof (cases "rcr_Payload row")
    case None
    have "\<exists>db1. insert_role (role_row role) (db\<lparr>adb_role_creations := cs\<rparr>) = Inr db1 \<and> role' = role \<and>
      db' = db1\<lparr>adb_role_creations := update_where ?P (\<lambda>c. c\<lparr>rcr_Payload := Some role\<rparr>) (adb_role_creations db1)\<rparr>"
      using create unfolding CreateOnce_def cl by (auto simp: row None Role_Create_def Let_def split: if_split_asm)
    then obtain db1 where db1: "insert_role (role_row role) (db\<lparr>adb_role_creations := cs\<rparr>) = Inr db1" "role' = role"
      "db' = db1\<lparr>adb_role_creations := update_where ?P (\<lambda>c. c\<lparr>rcr_Payload := Some role\<rparr>) (adb_role_creations db1)\<rparr>" by blast
    have "adb_role_creations db1 = cs" using db1(1) by (auto simp: insert_role_def split: if_split_asm)
    moreover have "rcr_Key row = key" using row(1) by (auto simp: find_Some_iff)
    ultimately show ?thesis using row None db1 fresh by (simp add: finished_def find_update_where)
  next
    case (Some r)
    then have "role' = r" "db' = db\<lparr>adb_role_creations := cs\<rparr>" "role_ID r \<noteq> []" "role_TenantID r = role_TenantID role" "role_Version r = 1"
      "\<not> role_System r" "role_Permissions r = []"
      using create unfolding CreateOnce_def cl by (simp_all add: row split: if_split_asm)
    then show ?thesis using row Some by (simp add: finished_def)
  qed
qed

lemma CreateOnce_finished:
  assumes fin: "finished key fp r db" and role: "role_TenantID role = role_TenantID r" "role_TenantID r \<noteq> ''''" "length key = 64" "length fp = 64"
  shows "CreateOnce replay role key fp db = Inr (r, db)"
proof -
  obtain row where row: "find (\<lambda>c. rcr_Key c = key) (adb_role_creations db) = Some row" "rcr_TenantID row = role_TenantID r" "rcr_Fingerprint row = fp"
    "rcr_Payload row = Some r" "role_ID r \<noteq> ''''" "role_Version r = 1" "\<not> role_System r" "role_Permissions r = []"
    using fin by (auto simp: finished_def)
  have "row \<in> set (adb_role_creations db)" "rcr_Key row = key" using row(1) by (auto simp: find_Some_iff)
  then have "claim_receipt replay \<lparr>rcr_Key = key, rcr_TenantID = role_TenantID role, rcr_Fingerprint = fp, rcr_Payload = None\<rparr> (adb_role_creations db) =
      (False, adb_role_creations db)" by (auto simp: claim_receipt_def)
  then show ?thesis using row role by (simp add: CreateOnce_def)
qed

lemma creation_key_length: "creation_key ctx tk = Some k \<Longrightarrow> length k = 64"
  by (auto simp: creation_key_def split: if_split_asm option.split_asm)

text \<open>
  Creating a role is idempotent: a request repeated by the same caller under the same
  transport key, as a retry or as a replay, whenever it arrives and whatever identifier is drawn
  for it, answers with the role of the first one and changes nothing.\<close>

lemma role_created_once:
  assumes first: "CreateTenantRole ctx replay key payload i name desc now db = Inr (role, db')" and i: "i \<noteq> ''''"
  shows "CreateTenantRole ctx replay' key payload i' name desc now' db' = Inr (role, db')"
proof -
  let ?r = "\<lambda>i t now. (NewRole i t (TrimSpace name) now)\<lparr>role_Description := TrimSpace desc\<rparr>"
  obtain t where t: "trustedTenantID ctx = Inr t" and call: "createTenantRoleOnce ctx replay key payload (?r i t now) db = Inr (role, db')"
    using first by (rule create_role_call)
  obtain k where k: "creation_key ctx key = Some k" "role_TenantID (?r i t now) = prn_TenantID (the ctx)"
    and once: "CreateOnce replay (?r i t now) k (sha256_hex payload) db = Inr (role, db')"
    using call by (rule create_once_call)
  have tne: "t \<noteq> ''''" using t by (auto simp: trustedTenantID_def split: option.split_asm if_split_asm)
  have fin: "finished k (sha256_hex payload) role db' \<and> role_TenantID role = t"
    using CreateOnce_finishes [OF once] i by (simp add: NewRole_def)
  have "createTenantRoleOnce ctx replay' key payload (?r i' t now') db' = CreateOnce replay' (?r i' t now') k (sha256_hex payload) db'"
    by (rule create_once_key [OF k(1)]) (use k(2) in \<open>simp add: NewRole_def\<close>)
  also have "\<dots> = Inr (role, db')"
    by (rule CreateOnce_finished) (use fin tne creation_key_length [OF k(1)] in \<open>simp_all add: NewRole_def\<close>)
  finally show ?thesis using first t by (auto simp: CreateTenantRole_def Let_def bind_result_def split: if_split_asm)
qed

subsection \<open>Witnesses\<close>

definition ex_role_row :: "string \<Rightarrow> string \<Rightarrow> string \<Rightarrow> roleRecord" where
  "ex_role_row t i name = \<lparr>rr_ID = i, rr_TenantID = t, rr_Name = name, rr_Description = '''', rr_RoleCode = None, rr_SystemRole = False,
     rr_DataPolicyID = None, rr_DataPolicyAcceptedVersion = None, rr_Status = RoleActive, rr_Version = 1\<rparr>"

definition ex_membership :: "string \<Rightarrow> string \<Rightarrow> membershipRecord" where
  "ex_membership t u = \<lparr>mem_TenantID = t, mem_UserID = u, mem_Status = MemberActive, mem_Name = ''Ada'', mem_EmployeeID = '''', mem_Position = '''',
     mem_DepartmentID = '''', mem_AvatarAssetRef = '''', mem_SelfDeletedAt = None, mem_Version = 1, mem_CreatedAt = 5, mem_UpdatedAt = 5\<rparr>"

definition ex_grant :: "string \<Rightarrow> string \<Rightarrow> string \<Rightarrow> string \<Rightarrow> permissionGrantRecord" where
  "ex_grant t i p sc = \<lparr>pg_TenantID = t, pg_RoleID = i, pg_Permission = p, pg_Scope = sc\<rparr>"

definition ex_acc :: AccDB where
  "ex_acc = empty_adb\<lparr>adb_memberships := [ex_membership ''t1'' ''u1'', ex_membership ''t2'' ''u1''],
     adb_roles := [ex_role_row ''t1'' ''r1'' ''clerk'', ex_role_row ''t2'' ''r2'' ''clerk''],
     adb_grants := [ex_grant ''t1'' ''r1'' ''order.read'' DataScopeSelf, ex_grant ''t1'' ''r1'' ''order.write'' DataScopeAll,
       ex_grant ''t2'' ''r2'' ''order.read'' DataScopeAll]\<rparr>"

definition ex_caller :: "string \<Rightarrow> string \<Rightarrow> Principal option" where
  "ex_caller t u = Some \<lparr>prn_Authenticated = True, prn_Subject = ''user:'' @ u, prn_TenantID = t, prn_UserID = u, prn_Roles = [OwnerRoleName], prn_AuthMethod = ''web-session''\<rparr>"

lemma ex_acc_keys: "acc_keys ex_acc"
  by code_simp

lemma ex_set_permissions:
  "isl (SetTenantRolePermissions (ex_caller ''t1'' ''u1'') '' r1 '' 1 [Some (''order.read'', 4), Some (''site.read'', 3)] 9 ex_acc) = False"
  by code_simp

theorem permissions_replaced_witness:
  "\<exists>role db'. SetTenantRolePermissions (ex_caller ''t1'' ''u1'') '' r1 '' 1 [Some (''order.read'', 4), Some (''site.read'', 3)] 9 ex_acc = Inr (role, db') \<and>
     role_Version role = 2 \<and> ex_grant ''t2'' ''r2'' ''order.read'' DataScopeAll \<in> set (adb_grants db')"
proof -
  let ?r = "SetTenantRolePermissions (ex_caller ''t1'' ''u1'') '' r1 '' 1 [Some (''order.read'', 4), Some (''site.read'', 3)] 9 ex_acc"
  obtain role db' where r: "?r = Inr (role, db')" using ex_set_permissions by (cases ?r) auto
  have "TrimSpace ''t1'' = ''t1''" by code_simp
  then have t: "trustedTenantID (ex_caller ''t1'' ''u1'') = Inr ''t1''" by (simp add: trustedTenantID_def ex_caller_def)
  from permissions_replaced [OF ex_acc_keys r] obtain t' where t': "trustedTenantID (ex_caller ''t1'' ''u1'') = Inr t'" and v: "role_Version role = 1 + 1"
    and rest: "{g \<in> set (adb_grants db'). \<not> (pg_TenantID g = t' \<and> pg_RoleID g = TrimSpace '' r1 '')} =
       {g \<in> set (adb_grants ex_acc). \<not> (pg_TenantID g = t' \<and> pg_RoleID g = TrimSpace '' r1 '')}" by blast
  let ?g = "ex_grant ''t2'' ''r2'' ''order.read'' DataScopeAll"
  have "?g \<in> {g \<in> set (adb_grants ex_acc). \<not> (pg_TenantID g = t' \<and> pg_RoleID g = TrimSpace '' r1 '')}"
    using t t' by (simp add: ex_acc_def ex_grant_def)
  then have "?g \<in> set (adb_grants db')" unfolding rest [symmetric] by simp
  moreover have "role_Version role = 2" using v by simp
  ultimately show ?thesis using r by blast
qed

theorem role_requests_isolated_witness:
  "filter (\<lambda>r. rr_TenantID r = ''t2'') (adb_roles (role_step (Delete_Role (ex_caller ''t1'' ''u1'') ''r2'' 1 9) ex_acc)) = [ex_role_row ''t2'' ''r2'' ''clerk'']"
proof -
  have "TrimSpace ''t1'' = ''t1''" by code_simp
  then have "action_tenant (Delete_Role (ex_caller ''t1'' ''u1'') ''r2'' 1 9) \<noteq> Some ''t2''"
    by (simp add: ctx_tenant_def trustedTenantID_def ex_caller_def)
  with role_requests_isolated [of "Delete_Role (ex_caller ''t1'' ''u1'') ''r2'' 1 9" ex_acc]
  have "filter (\<lambda>r. rr_TenantID r = ''t2'') (adb_roles (role_step (Delete_Role (ex_caller ''t1'' ''u1'') ''r2'' 1 9) ex_acc)) =
      filter (\<lambda>r. rr_TenantID r = ''t2'') (adb_roles ex_acc)" by blast
  then show ?thesis by (simp add: ex_acc_def ex_role_row_def)
qed

lemma ex_creation:
  "\<exists>role db'. CreateTenantRole (ex_caller ''t1'' ''u1'') False ''k'' payload ''r9'' ''auditor'' ''reads'' 9 ex_acc = Inr (role, db')"
proof -
  have trim: "TrimSpace ''t1'' = ''t1''" "TrimSpace ''auditor'' = ''auditor''" "TrimSpace ''reads'' = ''reads''" "TrimSpace '''' = ''''"
    "rune_count ''auditor'' = 7" "rune_count ''reads'' = 5" by (code_simp, code_simp, code_simp, code_simp, code_simp, code_simp)
  let ?role = "(NewRole ''r9'' ''t1'' ''auditor'' 9)\<lparr>role_Description := ''reads''\<rparr>"
  have "creation_key (ex_caller ''t1'' ''u1'') ''k'' \<noteq> None" by (simp add: creation_key_def ex_caller_def)
  then obtain k where k: "creation_key (ex_caller ''t1'' ''u1'') ''k'' = Some k" by blast
  have "createTenantRoleOnce (ex_caller ''t1'' ''u1'') False ''k'' payload ?role ex_acc = CreateOnce False ?role k (sha256_hex payload) ex_acc"
    by (rule create_once_key [OF k]) (simp add: ex_caller_def NewRole_def)
  moreover have "\<exists>db'. CreateOnce False ?role k (sha256_hex payload) ex_acc = Inr (?role, db')"
    using creation_key_length [OF k]
    by (simp add: CreateOnce_def claim_receipt_def ex_acc_def empty_adb_def NewRole_def Role_Create_def insert_role_def role_row_def roleCodePointer_def ex_role_row_def Let_def)
  ultimately show ?thesis
    by (simp add: CreateTenantRole_def trim trustedTenantID_def ex_caller_def bind_result_def Let_def) blast
qed

lemma role_created_once_witness:
  "\<exists>role db'. CreateTenantRole (ex_caller ''t1'' ''u1'') False ''k'' ''p'' ''r9'' ''auditor'' ''reads'' 9 ex_acc = Inr (role, db') \<and>
     CreateTenantRole (ex_caller ''t1'' ''u1'') True ''k'' ''p'' ''r10'' ''auditor'' ''reads'' 99 db' = Inr (role, db')"
proof -
  obtain role db' where c: "CreateTenantRole (ex_caller ''t1'' ''u1'') False ''k'' ''p'' ''r9'' ''auditor'' ''reads'' 9 ex_acc = Inr (role, db')"
    using ex_creation by blast
  from role_created_once [OF c, of True "''r10''" 99] c show ?thesis by blast
qed

end
