(* ===== verification/Tenant_Members.thy ===== *)
theory Tenant_Members
  imports Tenant_Role_Props
begin

section \<open>The lifecycle of tenant members\<close>

text \<open>
  The member repository (\<open>internal/access/infrastructure/persistence/member.go\<close>, \<open>member_lifecycle.go\<close>,
  \<open>member_business_scope.go\<close>) and the services over it
  (\<open>internal/access/application/tenant_member_lifecycle.go\<close>, \<open>member_business_scope.go\<close>), with the deletion of
  the own membership of \<open>tenant_self_security.go\<close>. They call the role service of \<open>Tenant_Roles\<close> in the
  same root transaction: to assign and revoke roles and to ask whether a member may be deactivated.
  What other components answer is a field of \<open>MemberEnv\<close>: the contact columns (their decryption, checks
  and protection), the department and activation tables, the staging of a notification and the
  verification of a challenge; none of them writes a table of \<open>AccDB\<close>.
\<close>

record MemberEnv =
  me_read :: "membershipRecord \<Rightarrow> acc_error err"
  me_phone :: "membershipRecord \<Rightarrow> string"
  me_contacts :: "Membership \<Rightarrow> acc_error err"
  me_department :: "string \<Rightarrow> acc_error err"
  me_activation :: "string \<Rightarrow> string \<Rightarrow> acc_error err"
  me_notify :: "Membership \<Rightarrow> string \<Rightarrow> acc_error err"
  me_verified :: "membershipRecord \<Rightarrow> acc_error err"

definition guard :: "'e err \<Rightarrow> 'e + 'a \<Rightarrow> 'e + 'a" where
  "guard e k = (case e of Some x \<Rightarrow> Inl x | None \<Rightarrow> k)"

lemma guard_Inr [simp]: "guard e k = Inr x \<longleftrightarrow> e = None \<and> k = Inr x"
  by (cases e) (simp_all add: guard_def)

subsection \<open>Reading a member\<close>

definition scopeRank :: "string \<Rightarrow> nat" where
  "scopeRank scope = (if scope = DataScopeSelf then 1 else if scope = DataScopeSites then 2 else if scope = DataScopeAll then 3 else 0)"

text \<open>The rows of the join of assignments, roles and, outer, grants; an absent grant reads as the empty scope.\<close>

definition access_rows :: "string \<Rightarrow> string \<Rightarrow> AccDB \<Rightarrow> (roleRecord \<times> string) list" where
  "access_rows tenantID userID db =
     sort_key (\<lambda>(r, sc). (rr_Name r, rr_ID r))
       [(r, sc). a \<leftarrow> adb_member_roles db, mr_TenantID a = tenantID \<and> mr_UserID a = userID,
          r \<leftarrow> adb_roles db, rr_ID r = mr_RoleID a \<and> rr_TenantID r = mr_TenantID a,
          sc \<leftarrow> (case filter (\<lambda>g. pg_RoleID g = rr_ID r \<and> pg_TenantID g = rr_TenantID r) (adb_grants db) of [] \<Rightarrow> [''''] | gs \<Rightarrow> map pg_Scope gs)]"

fun enrich_loop :: "string list \<Rightarrow> MemberRoleSummary list \<Rightarrow> string \<Rightarrow> (roleRecord \<times> string) list \<Rightarrow> MemberRoleSummary list \<times> string" where
  "enrich_loop seen roles scope [] = (roles, scope)"
| "enrich_loop seen roles scope ((r, sc) # rest) =
     enrich_loop (rr_ID r # seen)
       (if rr_ID r \<in> set seen then roles else roles @ [\<lparr>mrs_ID = rr_ID r, mrs_Name = rr_Name r, mrs_Status = rr_Status r\<rparr>])
       (if rr_Status r = RoleActive \<and> scopeRank sc > scopeRank scope then sc else scope) rest"

definition enrichMemberAccess :: "AccDB \<Rightarrow> Membership \<Rightarrow> Membership" where
  "enrichMemberAccess db m =
     (case enrich_loop [] [] DataScopeNone (access_rows (ms_TenantID m) (ms_UserID m) db) of
        (roles, scope) \<Rightarrow> m\<lparr>ms_Roles := sort_key (\<lambda>r. (mrs_Name r, mrs_ID r)) roles, ms_DerivedDataScope := scope\<rparr>)"

definition memberFromRecord :: "MemberEnv \<Rightarrow> AccDB \<Rightarrow> membershipRecord \<Rightarrow> acc_error + Membership" where
  "memberFromRecord env db row =
     (if \<forall>u \<in> set (adb_users db). usr_ID u \<noteq> mem_UserID row then Inl (Acc_Message ''record not found'')
      else guard (me_read env row)
        (Inr (enrichMemberAccess db
           \<lparr>ms_TenantID = mem_TenantID row, ms_UserID = mem_UserID row, ms_Status = mem_Status row, ms_Version = mem_Version row, ms_Name = mem_Name row,
            ms_Phone = me_phone env row, ms_EmployeeID = mem_EmployeeID row, ms_Position = mem_Position row, ms_DepartmentID = mem_DepartmentID row,
            ms_AvatarAssetRef = mem_AvatarAssetRef row, ms_Roles = [], ms_DerivedDataScope = DataScopeNone, ms_CreatedAt = mem_CreatedAt row,
            ms_UpdatedAt = mem_UpdatedAt row\<rparr>)))"

definition Member_Get :: "MemberEnv \<Rightarrow> string \<Rightarrow> string \<Rightarrow> AccDB \<Rightarrow> acc_error + Membership" where
  "Member_Get env tenantID userID db =
     (case member_at tenantID userID db of None \<Rightarrow> Inl Acc_MemberNotFound | Some row \<Rightarrow> memberFromRecord env db row)"

subsection \<open>Writing a member\<close>

definition member_cas :: "string \<Rightarrow> string \<Rightarrow> uint64 \<Rightarrow> (membershipRecord \<Rightarrow> membershipRecord) \<Rightarrow> AccDB \<Rightarrow> acc_error + AccDB" where
  "member_cas tenantID userID expected f db =
     (let hit = (\<lambda>m. member_is tenantID userID m \<and> mem_Version m = expected)
      in if length (filter hit (adb_memberships db)) \<noteq> 1 then Inl Acc_MemberConflict
         else Inr (db\<lparr>adb_memberships := update_where hit (\<lambda>m. (f m)\<lparr>mem_Version := mem_Version m + 1\<rparr>) (adb_memberships db)\<rparr>))"

text \<open>
  The web sessions a user has open in a tenant, which every deactivation revokes in the same transaction
  (\<open>web_session.go\<close>). A session belongs to the user that its identity is bound to.
\<close>

definition session_of_member :: "string \<Rightarrow> string \<Rightarrow> webIdentityRecord list \<Rightarrow> webSessionRecord \<Rightarrow> bool" where
  "session_of_member userID tenantID identities s \<longleftrightarrow> wsr_ActiveTenantID s = tenantID \<and>
     (\<exists>i \<in> set identities. wid_Issuer i = wsr_Issuer s \<and> wid_Subject i = wsr_Subject s \<and> wid_ActorKind i = WebActorUser \<and> wid_ActorID i = userID)"

definition revoke_row :: "time \<Rightarrow> string \<Rightarrow> string \<Rightarrow> webSessionRecord \<Rightarrow> webSessionRecord" where
  "revoke_row now reason scope s =
     s\<lparr>wsr_RevokedAt := Some now, wsr_RevokedReason := TrimSpace reason, wsr_RevokedScope := scope, wsr_ContextVersion := wsr_ContextVersion s + 1,
       wsr_UpdatedAt := now\<rparr>"

definition revokeWebSessionsForTenantMember :: "time \<Rightarrow> string \<Rightarrow> string \<Rightarrow> string \<Rightarrow> AccDB \<Rightarrow> AccDB" where
  "revokeWebSessionsForTenantMember now userID tenantID reason db =
     (let u = TrimSpace userID; t = TrimSpace tenantID
      in if u = '''' \<or> t = '''' then db
         else db\<lparr>adb_web_sessions := update_where (\<lambda>s. session_of_member u t (adb_web_identities db) s \<and> wsr_RevokedAt s = None)
                    (revoke_row now reason (''tenant:'' @ t)) (adb_web_sessions db)\<rparr>)"

definition Member_Update :: "MemberEnv \<Rightarrow> time \<Rightarrow> Membership \<Rightarrow> uint64 \<Rightarrow> AccDB \<Rightarrow> acc_error + (Membership \<times> AccDB)" where
  "Member_Update env now m expected db =
     (if expected = 0 then Inl (Acc_Message ''member update requires repository, value and version'')
      else guard (me_contacts env m)
        (if filter (member_is (ms_TenantID m) (ms_UserID m)) (adb_memberships db) = [] then Inl Acc_MemberNotFound
         else bind_result (member_cas (ms_TenantID m) (ms_UserID m) expected
           (\<lambda>r. r\<lparr>mem_Status := ms_Status m, mem_Name := ms_Name m, mem_EmployeeID := ms_EmployeeID m, mem_Position := ms_Position m,
                   mem_DepartmentID := ms_DepartmentID m, mem_UpdatedAt := ms_UpdatedAt m\<rparr>) db)
           (\<lambda>db'. Inr (m\<lparr>ms_Version := expected + 1\<rparr>,
              if ms_Status m = MemberSuspended then revokeWebSessionsForTenantMember now (ms_UserID m) (ms_TenantID m) ''membership_suspended'' db'
              else if ms_Status m = MemberRemoved then revokeWebSessionsForTenantMember now (ms_UserID m) (ms_TenantID m) ''membership_removed'' db'
              else db'))))"

definition role_of_member :: "string \<Rightarrow> string \<Rightarrow> memberRoleRecord \<Rightarrow> bool" where
  "role_of_member tenantID userID a \<longleftrightarrow> mr_TenantID a = tenantID \<and> mr_UserID a = userID"

definition site_of_member :: "string \<Rightarrow> string \<Rightarrow> memberSiteRecord \<Rightarrow> bool" where
  "site_of_member tenantID userID s \<longleftrightarrow> site_TenantID s = tenantID \<and> site_UserID s = userID"

definition Member_Remove :: "Membership \<Rightarrow> uint64 \<Rightarrow> time \<Rightarrow> AccDB \<Rightarrow> acc_error + (Membership \<times> AccDB)" where
  "Member_Remove m expected now db =
     (let t = ms_TenantID m; u = ms_UserID m
      in if expected = 0 then Inl (Acc_Message ''member removal requires repository, member and version'')
         else if ms_Status m \<noteq> MemberRemoved then Inl Acc_InvalidMemberTransition
         else case member_at t u db of
           None \<Rightarrow> Inl Acc_MemberNotFound
         | Some locked \<Rightarrow>
             if mem_Version locked \<noteq> expected \<or> mem_Status locked = MemberRemoved then Inl Acc_MemberConflict
             else
               let db1 = db\<lparr>adb_removed_roles := filter (\<lambda>s. \<not> (rrs_TenantID s = t \<and> rrs_UserID s = u)) (adb_removed_roles db) @
                             map (\<lambda>a. \<lparr>rrs_TenantID = t, rrs_UserID = u, rrs_RoleID = mr_RoleID a, rrs_RemovedVersion = expected + 1, rrs_CapturedAt = now\<rparr>)
                               (filter (role_of_member t u) (adb_member_roles db)),
                           adb_removed_sites := filter (\<lambda>s. \<not> (rss_TenantID s = t \<and> rss_UserID s = u)) (adb_removed_sites db) @
                             map (\<lambda>s. \<lparr>rss_TenantID = t, rss_UserID = u, rss_SiteID = site_SiteID s, rss_RemovedVersion = expected + 1, rss_CapturedAt = now\<rparr>)
                               (filter (site_of_member t u) (adb_member_sites db)),
                           adb_member_roles := filter (\<lambda>a. \<not> role_of_member t u a) (adb_member_roles db),
                           adb_member_sites := filter (\<lambda>s. \<not> site_of_member t u s) (adb_member_sites db)\<rparr>
               in bind_result (member_cas t u expected (\<lambda>r. r\<lparr>mem_Status := MemberRemoved, mem_UpdatedAt := ms_UpdatedAt m\<rparr>) db1) (\<lambda>db2.
                  Inr (m\<lparr>ms_Version := expected + 1\<rparr>, revokeWebSessionsForTenantMember now u t ''membership_removed'' db2)))"

definition Member_Restore :: "Membership \<Rightarrow> uint64 \<Rightarrow> AccDB \<Rightarrow> acc_error + ((Membership \<times> string list) \<times> AccDB)" where
  "Member_Restore m expected db =
     (let t = ms_TenantID m; u = ms_UserID m
      in if expected = 0 then Inl (Acc_Message ''member restore requires repository, member and version'')
         else if ms_Status m \<noteq> MemberActive then Inl Acc_InvalidMemberTransition
         else case member_at t u db of
           None \<Rightarrow> Inl Acc_MemberNotFound
         | Some locked \<Rightarrow>
             if mem_Version locked \<noteq> expected \<or> mem_Status locked \<noteq> MemberRemoved then Inl Acc_MemberConflict
             else if mem_SelfDeletedAt locked \<noteq> None then Inl Acc_SelfDeletionIrreversible
             else
               let roleIDs = [rrs_RoleID s. s \<leftarrow> adb_removed_roles db, rrs_TenantID s = t \<and> rrs_UserID s = u \<and> rrs_RemovedVersion s = expected,
                                r \<leftarrow> adb_roles db, rr_TenantID r = rrs_TenantID s \<and> rr_ID r = rrs_RoleID s \<and> rr_Status r = RoleActive]
               in bind_result (member_cas t u expected (\<lambda>r. r\<lparr>mem_Status := MemberActive, mem_UpdatedAt := ms_UpdatedAt m\<rparr>) db) (\<lambda>db'.
                  Inr ((m\<lparr>ms_Version := expected + 1\<rparr>, sort roleIDs), db')))"

subsection \<open>The service\<close>

definition normalizeMemberLifecycleReason :: "string \<Rightarrow> acc_error + string" where
  "normalizeMemberLifecycleReason value =
     (let value = TrimSpace value in if rune_count value > 500 then Inl Acc_InvalidMemberRequest else Inr value)"

definition assertTenantMemberDeactivationActor :: "Principal option \<Rightarrow> Membership \<Rightarrow> acc_error err" where
  "assertTenantMemberDeactivationActor ctx m =
     (case ctx of None \<Rightarrow> Some Acc_TenantContextRequired
      | Some p \<Rightarrow>
          if \<not> prn_Authenticated p then Some Acc_TenantContextRequired
          else if prn_UserID p \<noteq> '''' \<and> prn_UserID p = ms_UserID m then Some Acc_MemberSelfDeactivation
          else if \<not> (\<exists>r \<in> set (ms_Roles m). mrs_Name r = OwnerRoleName \<and> mrs_Status r = RoleActive) then None
          else if OwnerRoleName \<in> set (prn_Roles p) then None
          else Some Acc_MemberProtectedOwner)"

definition member_mutate :: "MemberEnv \<Rightarrow> time \<Rightarrow> Principal option \<Rightarrow> string \<Rightarrow> uint64 \<Rightarrow> string \<Rightarrow> bool \<Rightarrow> (Membership \<Rightarrow> acc_error err) \<Rightarrow> (Membership \<Rightarrow> acc_error + Membership)
    \<Rightarrow> AccDB \<Rightarrow> acc_error + (Membership \<times> AccDB)" where
  "member_mutate env now ctx userID expected reason lifecycleEvent beforeApply f db =
     bind_result (trustedTenantID ctx) (\<lambda>tenantID.
     bind_result (Member_Get env tenantID userID db) (\<lambda>current.
     if ms_Version current \<noteq> expected then Inl Acc_MemberConflict
     else guard (beforeApply current)
       (bind_result (f current) (\<lambda>changed.
        bind_result (Member_Update env now changed expected db) (\<lambda>(stored, db').
        guard (if lifecycleEvent then me_notify env stored reason else None) (Inr (stored, db')))))))"

definition ActivateTenantMember :: "MemberEnv \<Rightarrow> Principal option \<Rightarrow> string \<Rightarrow> uint64 \<Rightarrow> string \<Rightarrow> time \<Rightarrow> AccDB \<Rightarrow> acc_error + (Membership \<times> AccDB)" where
  "ActivateTenantMember env ctx userID version reason now db =
     (if TrimSpace userID = '''' \<or> version = 0 then Inl Acc_InvalidMemberRequest
      else bind_result (normalizeMemberLifecycleReason reason) (\<lambda>reason.
        bind_result (trustedTenantID ctx) (\<lambda>tenantID.
        bind_result (Member_Get env tenantID (TrimSpace userID) db) (\<lambda>current.
        guard (if ms_Status current = MemberInvited then me_activation env tenantID (TrimSpace userID) else None)
          (member_mutate env now ctx (TrimSpace userID) version reason True (\<lambda>m. None) (Membership_Activate now) db)))))"

definition SuspendTenantMember :: "MemberEnv \<Rightarrow> Principal option \<Rightarrow> string \<Rightarrow> uint64 \<Rightarrow> string \<Rightarrow> time \<Rightarrow> AccDB \<Rightarrow> acc_error + (Membership \<times> AccDB)" where
  "SuspendTenantMember env ctx userID version reason now db =
     (if TrimSpace userID = '''' \<or> version = 0 then Inl Acc_InvalidMemberRequest
      else bind_result (normalizeMemberLifecycleReason reason) (\<lambda>reason.
        member_mutate env now ctx (TrimSpace userID) version reason True
          (\<lambda>m. or_else (assertTenantMemberDeactivationActor ctx m) (AssertTenantMemberDeactivationAllowed ctx (TrimSpace userID) db))
          (Membership_Suspend now) db))"

definition RemoveTenantMember :: "MemberEnv \<Rightarrow> Principal option \<Rightarrow> string \<Rightarrow> uint64 \<Rightarrow> string \<Rightarrow> time \<Rightarrow> AccDB \<Rightarrow> acc_error + (Membership \<times> AccDB)" where
  "RemoveTenantMember env ctx userID version reason now db =
     (if TrimSpace userID = '''' \<or> version = 0 then Inl Acc_InvalidMemberRequest
      else bind_result (normalizeMemberLifecycleReason reason) (\<lambda>reason.
        bind_result (trustedTenantID ctx) (\<lambda>tenantID.
        bind_result (Member_Get env tenantID (TrimSpace userID) db) (\<lambda>current.
        if ms_Version current \<noteq> version then Inl Acc_MemberConflict
        else guard (assertTenantMemberDeactivationActor ctx current)
          (guard (AssertTenantMemberDeactivationAllowed ctx (TrimSpace userID) db)
            (bind_result (Membership_Remove now current) (\<lambda>changed.
             bind_result (Member_Remove changed version now db) (\<lambda>(stored, db').
             guard (me_notify env stored reason) (Inr (stored, db'))))))))))"

fun assign_roles :: "Principal option \<Rightarrow> string \<Rightarrow> time \<Rightarrow> string list \<Rightarrow> AccDB \<Rightarrow> acc_error + AccDB" where
  "assign_roles ctx userID now [] db = Inr db"
| "assign_roles ctx userID now (roleID # rest) db =
     bind_result (AssignTenantRoleMember ctx roleID userID now db) (\<lambda>(r, db'). assign_roles ctx userID now rest db')"

fun revoke_roles :: "Principal option \<Rightarrow> string \<Rightarrow> time \<Rightarrow> string list \<Rightarrow> AccDB \<Rightarrow> acc_error + AccDB" where
  "revoke_roles ctx userID now [] db = Inr db"
| "revoke_roles ctx userID now (roleID # rest) db =
     bind_result (RevokeTenantRoleMember ctx roleID userID now db) (\<lambda>(r, db'). revoke_roles ctx userID now rest db')"

definition RestoreTenantMember :: "MemberEnv \<Rightarrow> Principal option \<Rightarrow> string \<Rightarrow> uint64 \<Rightarrow> string \<Rightarrow> time \<Rightarrow> AccDB \<Rightarrow> acc_error + (Membership \<times> AccDB)" where
  "RestoreTenantMember env ctx userID version reason now db =
     (if TrimSpace userID = '''' \<or> version = 0 then Inl Acc_InvalidMemberRequest
      else bind_result (normalizeMemberLifecycleReason reason) (\<lambda>reason.
        bind_result (trustedTenantID ctx) (\<lambda>tenantID.
        bind_result (Member_Get env tenantID (TrimSpace userID) db) (\<lambda>current.
        if ms_Version current \<noteq> version \<or> ms_Status current \<noteq> MemberRemoved then Inl Acc_MemberConflict
        else bind_result (Membership_Restore now current) (\<lambda>changed.
          bind_result (Member_Restore changed version db) (\<lambda>((stored, roleIDs), db1).
          bind_result (assign_roles ctx (TrimSpace userID) now roleIDs db1) (\<lambda>db2.
          guard (me_notify env stored reason)
            (bind_result (Member_Get env tenantID (TrimSpace userID) db2) (\<lambda>readback. Inr (readback, db2))))))))))"

fun role_ids_loop :: "string list \<Rightarrow> string list \<Rightarrow> acc_error + string list" where
  "role_ids_loop seen [] = Inr (rev seen)"
| "role_ids_loop seen (v # vs) =
     (let v = TrimSpace v
      in if v = '''' then Inl Acc_InvalidMemberRequest
         else if v \<in> set seen then Inl Acc_InvalidMemberRequest
         else role_ids_loop (v # seen) vs)"

definition normalizeTenantMemberRoleIDs :: "string list \<Rightarrow> acc_error + string list" where
  "normalizeTenantMemberRoleIDs values = (if values = [] then Inl Acc_InvalidMemberRequest else role_ids_loop [] values)"

record MemberProfile =
  mp_Email :: string
  mp_Name :: string
  mp_Phone :: string
  mp_EmployeeID :: string
  mp_Position :: string
  mp_DepartmentID :: string

text \<open>
  \<open>UpdateTenantMember\<close> revokes the roles that are gone while it ranges over a map, whose order Go does
  not fix: \<open>order\<close> is the order of this run.
\<close>

definition UpdateTenantMember :: "MemberEnv \<Rightarrow> Principal option \<Rightarrow> (string list \<Rightarrow> string list) \<Rightarrow> string \<Rightarrow> uint64 \<Rightarrow> MemberProfile \<Rightarrow> string list \<Rightarrow> time \<Rightarrow> AccDB
    \<Rightarrow> acc_error + (Membership \<times> AccDB)" where
  "UpdateTenantMember env ctx order userID version q roleIDs now db =
     (if TrimSpace userID = '''' \<or> version = 0 then Inl Acc_InvalidMemberRequest
      else bind_result (normalizeTenantMemberRoleIDs roleIDs) (\<lambda>roleIDs.
        if TrimSpace (mp_Email q) = '''' \<and> TrimSpace (mp_Phone q) = '''' then Inl Acc_InvalidMemberRequest
        else bind_result (trustedTenantID ctx) (\<lambda>tenantID.
          guard (me_department env (TrimSpace (mp_DepartmentID q)))
          (bind_result (Member_Get env tenantID (TrimSpace userID) db) (\<lambda>value.
           if ms_Version value \<noteq> version then Inl Acc_MemberConflict
           else bind_result (Membership_UpdateProfile (mp_Name q) (mp_Phone q) (mp_EmployeeID q) (mp_Position q) (mp_DepartmentID q) now value) (\<lambda>changed.
             bind_result (Member_Update env now changed version db) (\<lambda>(current, db1).
             let existing = map mrs_ID (ms_Roles current)
             in bind_result (assign_roles ctx (TrimSpace userID) now (filter (\<lambda>i. i \<notin> set existing) roleIDs) db1) (\<lambda>db2.
                bind_result (revoke_roles ctx (TrimSpace userID) now (order (filter (\<lambda>i. i \<notin> set roleIDs) existing)) db2) (\<lambda>db3.
                bind_result (Member_Get env tenantID (TrimSpace userID) db3) (\<lambda>readback. Inr (readback, db3))))))))))) "

definition UpdateTenantMemberProfile :: "MemberEnv \<Rightarrow> Principal option \<Rightarrow> string \<Rightarrow> uint64 \<Rightarrow> MemberProfile \<Rightarrow> time \<Rightarrow> AccDB \<Rightarrow> acc_error + (Membership \<times> AccDB)" where
  "UpdateTenantMemberProfile env ctx userID version q now db =
     (if TrimSpace userID = '''' \<or> version = 0 then Inl Acc_InvalidMemberRequest
      else member_mutate env now ctx (TrimSpace userID) version '''' False
        (\<lambda>current. if TrimSpace (mp_DepartmentID q) = TrimSpace (ms_DepartmentID current) then None else me_department env (TrimSpace (mp_DepartmentID q)))
        (Membership_UpdateProfile (mp_Name q) (mp_Phone q) (mp_EmployeeID q) (mp_Position q) (mp_DepartmentID q) now) db)"

text \<open>
  \<open>CompleteTenantDeletion\<close>: a member deletes the own membership. The row is locked, so the conditional update of the
  checked row always finds it.
\<close>

abbreviation DefaultPersonalAvatarAssetRef :: string where "DefaultPersonalAvatarAssetRef \<equiv> ''avatar:coffee-blue''"

definition CompleteTenantDeletion :: "MemberEnv \<Rightarrow> string \<Rightarrow> string \<Rightarrow> uint64 \<Rightarrow> time \<Rightarrow> AccDB \<Rightarrow> acc_error + (unit \<times> AccDB)" where
  "CompleteTenantDeletion env userID tenantID expected now db =
     (let u = TrimSpace userID; t = TrimSpace tenantID
      in if expected = 0 \<or> u = '''' \<or> t = '''' then Inl Acc_VerificationInvalid
         else guard (AssertMemberCanDeactivate t u db)
           (case member_at t u db of
              None \<Rightarrow> Inl Acc_MemberNotFound
            | Some member \<Rightarrow>
                if mem_Status member \<noteq> MemberActive \<or> mem_Version member \<noteq> expected \<or> mem_SelfDeletedAt member \<noteq> None then Inl Acc_MemberConflict
                else guard (me_verified env member)
                  (let db1 = db\<lparr>adb_member_roles := filter (\<lambda>a. \<not> role_of_member t u a) (adb_member_roles db),
                                adb_member_sites := filter (\<lambda>s. \<not> site_of_member t u s) (adb_member_sites db),
                                adb_removed_roles := filter (\<lambda>s. \<not> (rrs_TenantID s = t \<and> rrs_UserID s = u)) (adb_removed_roles db),
                                adb_removed_sites := filter (\<lambda>s. \<not> (rss_TenantID s = t \<and> rss_UserID s = u)) (adb_removed_sites db),
                                adb_appeals := filter (\<lambda>a. \<not> (map_TenantID a = t \<and> map_UserID a = u)) (adb_appeals db)\<rparr>
                   in bind_result (member_cas t u expected
                        (\<lambda>r. r\<lparr>mem_Status := MemberRemoved, mem_Name := '''', mem_EmployeeID := '''', mem_Position := '''', mem_DepartmentID := '''',
                               mem_AvatarAssetRef := DefaultPersonalAvatarAssetRef, mem_SelfDeletedAt := Some now, mem_UpdatedAt := now\<rparr>) db1)
                        (\<lambda>db2. Inr ((), revokeWebSessionsForTenantMember now u t ''membership_self_deleted''
                           (db2\<lparr>adb_api_tokens := update_where (\<lambda>k. tok_TenantID k = t \<and> tok_UserID k = u \<and> \<not> tok_Disabled k)
                              (\<lambda>k. k\<lparr>tok_Disabled := True\<rparr>) (adb_api_tokens db2)\<rparr>))))))"

subsection \<open>The business scope of a member\<close>

record MemberBusinessScope =
  mbs_TenantID :: string
  mbs_UserID :: string
  mbs_SiteIDs :: "string list"
  mbs_Version :: uint64
  mbs_UpdatedAt :: time

definition memberBusinessScopeSiteIDs :: "string \<Rightarrow> string \<Rightarrow> AccDB \<Rightarrow> string list" where
  "memberBusinessScopeSiteIDs tenantID userID db = sort (map site_SiteID (filter (site_of_member tenantID userID) (adb_member_sites db)))"

definition GetBusinessScope :: "string \<Rightarrow> string \<Rightarrow> AccDB \<Rightarrow> acc_error + MemberBusinessScope" where
  "GetBusinessScope tenantID userID db =
     (let t = TrimSpace tenantID; u = TrimSpace userID
      in if t = '''' \<or> u = '''' then Inl Acc_MemberNotFound
         else case member_at t u db of
           None \<Rightarrow> Inl Acc_MemberNotFound
         | Some m \<Rightarrow> Inr \<lparr>mbs_TenantID = t, mbs_UserID = u, mbs_SiteIDs = memberBusinessScopeSiteIDs t u db, mbs_Version = mem_Version m,
                          mbs_UpdatedAt = mem_UpdatedAt m\<rparr>)"

definition ReplaceBusinessScope :: "string \<Rightarrow> string \<Rightarrow> uint64 \<Rightarrow> string list \<Rightarrow> time \<Rightarrow> AccDB \<Rightarrow> acc_error + (MemberBusinessScope \<times> AccDB)" where
  "ReplaceBusinessScope tenantID userID expected siteIDs now db =
     (let t = TrimSpace tenantID; u = TrimSpace userID
      in if expected = 0 then Inl (Acc_Message ''member business scope requires repository and version'')
         else if t = '''' \<or> u = '''' then Inl Acc_MemberNotFound
         else case normalize_sites 64 [] siteIDs of
           None \<Rightarrow> Inl Acc_ScopeUnavailable
         | Some sites \<Rightarrow>
             (let normalized = sort sites
              in case member_at t u db of
                   None \<Rightarrow> Inl Acc_MemberNotFound
                 | Some m \<Rightarrow>
                     if mem_Status m = MemberRemoved then Inl Acc_ScopeUnavailable
                     else if mem_Version m \<noteq> expected then Inl Acc_MemberConflict
                     else if memberBusinessScopeSiteIDs t u db = normalized
                       then Inr (\<lparr>mbs_TenantID = t, mbs_UserID = u, mbs_SiteIDs = normalized, mbs_Version = mem_Version m, mbs_UpdatedAt = mem_UpdatedAt m\<rparr>, db)
                     else
                       let db1 = db\<lparr>adb_member_sites := filter (\<lambda>s. \<not> site_of_member t u s) (adb_member_sites db) @
                                     map (\<lambda>i. \<lparr>site_TenantID = t, site_UserID = u, site_SiteID = i\<rparr>) normalized\<rparr>
                       in bind_result (member_cas t u expected (\<lambda>r. r\<lparr>mem_UpdatedAt := now\<rparr>) db1) (\<lambda>db2.
                          Inr (\<lparr>mbs_TenantID = t, mbs_UserID = u, mbs_SiteIDs = normalized, mbs_Version = expected + 1, mbs_UpdatedAt = now\<rparr>, db2))))"

definition validateTenantMemberBusinessScopeSites :: "site_directory \<Rightarrow> string list \<Rightarrow> acc_error err" where
  "validateTenantMemberBusinessScopeSites ask ids =
     (case ask ids of
        Inl e \<Rightarrow> Some Acc_ScopeUnavailable
      | Inr (sites, n) \<Rightarrow>
          if n \<noteq> int (length ids) \<or> length sites \<noteq> length ids then Some Acc_ScopeUnavailable
          else if \<exists>s \<in> set sites. s = None \<or> TrimSpace (the s) = '''' then Some Acc_ScopeUnavailable
          else if \<exists>i \<in> set ids. i \<notin> (TrimSpace \<circ> the) ` set sites then Some Acc_ScopeUnavailable
          else None)"

definition normalizeTenantMemberBusinessScopeSiteIDs :: "string list \<Rightarrow> acc_error + string list" where
  "normalizeTenantMemberBusinessScopeSiteIDs values =
     (case normalize_sites 64 [] values of None \<Rightarrow> Inl Acc_InvalidMemberRequest | Some out \<Rightarrow> Inr (sort out))"

definition SetTenantMemberBusinessScope :: "Principal option \<Rightarrow> site_directory \<Rightarrow> string \<Rightarrow> uint64 \<Rightarrow> string list \<Rightarrow> time \<Rightarrow> AccDB
    \<Rightarrow> acc_error + (MemberBusinessScope \<times> AccDB)" where
  "SetTenantMemberBusinessScope ctx ask userID version siteIDs now db =
     (if TrimSpace userID = '''' \<or> version = 0 then Inl Acc_InvalidMemberRequest
      else bind_result (trustedTenantID ctx) (\<lambda>tenantID.
        bind_result (normalizeTenantMemberBusinessScopeSiteIDs siteIDs) (\<lambda>sites.
        bind_result (GetBusinessScope tenantID (TrimSpace userID) db) (\<lambda>current.
        if mbs_Version current \<noteq> version then Inl Acc_MemberConflict
        else guard (if sites = [] then None else validateTenantMemberBusinessScopeSites ask sites)
          (ReplaceBusinessScope tenantID (TrimSpace userID) version sites now db)))))"

end
