(* ===== verification/Tenant_Member_Props.thy ===== *)
theory Tenant_Member_Props
  imports Tenant_Members
begin

section \<open>Members and owners: what the lifecycle keeps\<close>

text \<open>
  Every operation of \<open>Tenant_Members\<close> keeps the owner invariant of \<open>Tenant_Role_Props\<close>. Together with the role
  requests they form the histories \<open>acc_run\<close>, over which the last owner of a tenant is shown to stay. Removal
  and restoration are inverse up to the roles that are no longer active and the sites.
\<close>

subsection \<open>Every member operation keeps the owners\<close>

lemma member_cas_result:
  assumes "member_cas t u v f db = Inr db'"
  shows "db' = db\<lparr>adb_memberships := update_where (\<lambda>m. member_is t u m \<and> mem_Version m = v) (\<lambda>m. (f m)\<lparr>mem_Version := mem_Version m + 1\<rparr>) (adb_memberships db)\<rparr>"
    "length (filter (\<lambda>m. member_is t u m \<and> mem_Version m = v) (adb_memberships db)) = 1"
  using assms by (simp_all add: member_cas_def Let_def split: if_split_asm)

text \<open>The conditional update neither reads nor writes the sessions and the tokens.\<close>

definition with_credentials :: "webSessionRecord list \<Rightarrow> apiTokenRecord list \<Rightarrow> AccDB \<Rightarrow> AccDB" where
  "with_credentials ss ks db = db\<lparr>adb_web_sessions := ss, adb_api_tokens := ks\<rparr>"

lemma with_credentials_fields [simp]:
  "adb_memberships (with_credentials ss ks db) = adb_memberships db" "adb_roles (with_credentials ss ks db) = adb_roles db"
  "adb_grants (with_credentials ss ks db) = adb_grants db" "adb_member_roles (with_credentials ss ks db) = adb_member_roles db"
  "adb_member_sites (with_credentials ss ks db) = adb_member_sites db" "adb_removed_roles (with_credentials ss ks db) = adb_removed_roles db"
  "adb_removed_sites (with_credentials ss ks db) = adb_removed_sites db" "adb_users (with_credentials ss ks db) = adb_users db"
  "adb_tenants (with_credentials ss ks db) = adb_tenants db" "adb_web_sessions (with_credentials ss ks db) = ss" "adb_api_tokens (with_credentials ss ks db) = ks"
  "adb_web_identities (with_credentials ss ks db) = adb_web_identities db"
  by (simp_all add: with_credentials_def)

lemma member_cas_credentials:
  "member_cas t u v g db = Inr d \<Longrightarrow> member_cas t u v g (with_credentials ss ks db) = Inr (with_credentials ss ks d)"
  by (auto simp: member_cas_def with_credentials_def Let_def split: if_split_asm)

lemma revoke_fields [simp]:
  "adb_memberships (revokeWebSessionsForTenantMember now u t reason db) = adb_memberships db" "adb_roles (revokeWebSessionsForTenantMember now u t reason db) = adb_roles db"
  "adb_grants (revokeWebSessionsForTenantMember now u t reason db) = adb_grants db" "adb_member_roles (revokeWebSessionsForTenantMember now u t reason db) = adb_member_roles db"
  "adb_member_sites (revokeWebSessionsForTenantMember now u t reason db) = adb_member_sites db"
  "adb_removed_roles (revokeWebSessionsForTenantMember now u t reason db) = adb_removed_roles db" "adb_users (revokeWebSessionsForTenantMember now u t reason db) = adb_users db"
  "adb_tenants (revokeWebSessionsForTenantMember now u t reason db) = adb_tenants db" "adb_api_tokens (revokeWebSessionsForTenantMember now u t reason db) = adb_api_tokens db"
  "adb_web_identities (revokeWebSessionsForTenantMember now u t reason db) = adb_web_identities db"
  by (simp_all add: revokeWebSessionsForTenantMember_def Let_def)

lemma member_cas_revoke:
  "member_cas t u v g db = Inr d \<Longrightarrow>
   member_cas t u v g (revokeWebSessionsForTenantMember now u' t' reason db) = Inr (revokeWebSessionsForTenantMember now u' t' reason d)"
  by (auto simp: member_cas_def revokeWebSessionsForTenantMember_def Let_def split: if_split_asm)

lemma revoke_is_credentials:
  obtains ss where "revokeWebSessionsForTenantMember now u t reason db = with_credentials ss (adb_api_tokens db) db"
  by (cases "TrimSpace u = [] \<or> TrimSpace t = []")
    (auto simp: revokeWebSessionsForTenantMember_def with_credentials_def Let_def intro: that [of "adb_web_sessions db"] that)

definition keeps_member_key :: "(membershipRecord \<Rightarrow> membershipRecord) \<Rightarrow> bool" where
  "keeps_member_key f \<longleftrightarrow> (\<forall>m. mem_TenantID (f m) = mem_TenantID m \<and> mem_UserID (f m) = mem_UserID m)"

lemma active_member_cas:
  assumes cas: "member_cas t u v f db = Inr db'" and key: "keeps_member_key f"
    and still: "(t', u') \<noteq> (t, u) \<or> (\<forall>m \<in> set (adb_memberships db). member_is t u m \<and> mem_Version m = v \<and> mem_Status m = MemberActive \<longrightarrow> mem_Status (f m) = MemberActive)"
    and act: "active_member t' u' (adb_memberships db)"
  shows "active_member t' u' (adb_memberships db')"
proof -
  obtain m where m: "m \<in> set (adb_memberships db)" "member_is t' u' m" "mem_Status m = MemberActive" using act by (auto simp: active_member_def)
  let ?m = "if member_is t u m \<and> mem_Version m = v then (f m)\<lparr>mem_Version := mem_Version m + 1\<rparr> else m"
  have "?m \<in> set (adb_memberships db')" using m(1) by (simp add: member_cas_result(1) [OF cas] set_update_where)
  moreover have "member_is t' u' ?m" using m(2) key by (simp add: member_is_def keeps_member_key_def)
  moreover have "mem_Status ?m = MemberActive" using m still by (auto simp: member_is_def)
  ultimately show ?thesis unfolding active_member_def by blast
qed

lemma member_keys_cas:
  assumes "member_cas t u v f db = Inr db'" "keeps_member_key f" "acc_keys db"
  shows "acc_keys db'"
  using acc_keysD [OF assms(3)] assms(2)
  by (intro acc_keysI) (simp_all add: member_cas_result(1) [OF assms(1)] map_update_where member_key_def keeps_member_key_def)

lemma keeps_with_credentials:
  assumes "acc_keys db"
  shows "keeps_owners db (with_credentials ss ks db)" "acc_keys (with_credentials ss ks db)"
proof -
  show 1: "keeps_owners db (with_credentials ss ks db)" by (rule same_access_keeps [OF assms]) (simp add: same_access_def)
  show "acc_keys (with_credentials ss ks db)" by (rule keeps_keys [OF 1])
qed

lemma keeps_member_cas:
  assumes cas: "member_cas t u v f db = Inr db'" and key: "keeps_member_key f" and keys: "acc_keys db"
    and still: "\<forall>m \<in> set (adb_memberships db). member_is t u m \<and> mem_Version m = v \<and> mem_Status m = MemberActive \<longrightarrow> mem_Status (f m) = MemberActive"
  shows "keeps_owners db db'"
proof -
  have "owned t' db'" if "owned t' db" for t'
    by (rule owned_keep [OF that]) (use active_member_cas [OF cas key] still in \<open>auto simp: member_cas_result(1) [OF cas]\<close>)
  then show ?thesis using member_keys_cas [OF cas key keys] by (simp add: keeps_owners_def)
qed

text \<open>A deactivation: the member may lose the roles and stops being active, after the check of the role service.\<close>

lemma keeps_deactivation:
  assumes keys: "acc_keys db" and ok: "AssertMemberCanDeactivate t u db = None" and plain: "TrimSpace t = t" "TrimSpace u = u"
    and frame: "adb_roles db1 = adb_roles db" "adb_grants db1 = adb_grants db" "adb_memberships db1 = adb_memberships db"
      "distinct (adb_member_roles db1)" "\<And>a. a \<in> set (adb_member_roles db) \<Longrightarrow> \<not> role_of_member t u a \<Longrightarrow> a \<in> set (adb_member_roles db1)"
    and cas: "member_cas t u v f db1 = Inr db'" and key: "keeps_member_key f"
  shows "keeps_owners db db'"
proof -
  have k1: "acc_keys db1" using acc_keysD [OF keys] frame by (intro acc_keysI) simp_all
  note db' = member_cas_result(1) [OF cas]
  have "owned t' db'" if own: "owned t' db" for t'
  proof -
    let ?W = "if t' = t then {u} else {}"
    have "owned_except ?W t' db" using own deactivation_leaves_owner [OF keys _ ok plain] by auto
    then show ?thesis
    proof (rule owned_keep)
      show "a \<in> set (adb_member_roles db')" if "a \<in> set (adb_member_roles db)" "mr_TenantID a = t'" "mr_UserID a \<notin> ?W" for a
        using frame(5) [OF that(1)] that(2,3) by (auto simp: db' role_of_member_def split: if_split_asm)
      show "active_member t' u' (adb_memberships db')" if "u' \<notin> ?W" "active_member t' u' (adb_memberships db)" for u'
        using active_member_cas [OF cas key, of t' u'] that frame(3) by (simp split: if_split_asm)
    qed (use frame in \<open>auto simp: db'\<close>)
  qed
  then show ?thesis using member_keys_cas [OF cas key k1] by (simp add: keeps_owners_def)
qed

lemma keeps_assign_roles: "acc_keys db \<Longrightarrow> assign_roles ctx u now ids db = Inr db' \<Longrightarrow> keeps_owners db db'"
proof (induction ids arbitrary: db)
  case (Cons i ids)
  obtain r db1 where a: "AssignTenantRoleMember ctx i u now db = Inr (r, db1)" and rest: "assign_roles ctx u now ids db1 = Inr db'"
    using Cons.prems(2) by auto
  have 1: "keeps_owners db db1" using a Cons.prems(1) by (auto simp: AssignTenantRoleMember_def split: if_split_asm intro: keeps_Assign)
  then show ?case using Cons.IH [OF keeps_keys [OF 1] rest] by (rule keeps_trans)
qed (simp add: keeps_refl)

lemma keeps_revoke_roles: "acc_keys db \<Longrightarrow> revoke_roles ctx u now ids db = Inr db' \<Longrightarrow> keeps_owners db db'"
proof (induction ids arbitrary: db)
  case (Cons i ids)
  obtain r db1 where a: "RevokeTenantRoleMember ctx i u now db = Inr (r, db1)" and rest: "revoke_roles ctx u now ids db1 = Inr db'"
    using Cons.prems(2) by auto
  have 1: "keeps_owners db db1" using a Cons.prems(1) by (auto simp: RevokeTenantRoleMember_def split: if_split_asm intro: keeps_Revoke)
  then show ?case using Cons.IH [OF keeps_keys [OF 1] rest] by (rule keeps_trans)
qed (simp add: keeps_refl)

lemma member_at_row: "acc_keys db \<Longrightarrow> m \<in> set (adb_memberships db) \<Longrightarrow> member_is t u m \<Longrightarrow> member_at t u db = Some m"
proof -
  assume keys: "acc_keys db" and m: "m \<in> set (adb_memberships db)" "member_is t u m"
  obtain m' where m': "member_at t u db = Some m'" using m by (cases "member_at t u db") (auto simp: member_at_def find_None_iff)
  then have "m' \<in> set (adb_memberships db)" "member_is t u m'" by (auto simp: member_at_def find_Some_iff)
  then have "m' = m" using acc_keysD(2) [OF keys] m by (auto simp: distinct_map inj_on_def member_key_def member_is_def)
  then show ?thesis using m' by simp
qed

lemma enrichMemberAccess_fields [simp]:
  "ms_Status (enrichMemberAccess db m) = ms_Status m" "ms_Version (enrichMemberAccess db m) = ms_Version m"
  "ms_TenantID (enrichMemberAccess db m) = ms_TenantID m" "ms_UserID (enrichMemberAccess db m) = ms_UserID m"
  by (simp_all add: enrichMemberAccess_def split: prod.split)

lemma member_at_Some: "member_at t u db = Some m \<Longrightarrow> m \<in> set (adb_memberships db) \<and> mem_TenantID m = t \<and> mem_UserID m = u"
  by (auto simp: member_at_def find_Some_iff member_is_def)

lemma Member_Get_row:
  assumes "Member_Get env t u db = Inr m"
  obtains row where "member_at t u db = Some row" "ms_Status m = mem_Status row" "ms_Version m = mem_Version row" "ms_TenantID m = t" "ms_UserID m = u"
proof -
  obtain row where row: "member_at t u db = Some row" using assms by (cases "member_at t u db") (simp_all add: Member_Get_def)
  then show thesis using assms member_at_Some [OF row] by (intro that [of row]) (auto simp: Member_Get_def memberFromRecord_def split: if_split_asm)
qed

lemma Member_Update_stored:
  assumes upd: "Member_Update env now m v db = Inr (m', db')" and ids: "ms_TenantID m = t" "ms_UserID m = u"
  shows "\<exists>d ss. member_cas t u v (\<lambda>r. r\<lparr>mem_Status := ms_Status m, mem_Name := ms_Name m, mem_EmployeeID := ms_EmployeeID m, mem_Position := ms_Position m,
      mem_DepartmentID := ms_DepartmentID m, mem_UpdatedAt := ms_UpdatedAt m\<rparr>) db = Inr d \<and> db' = with_credentials ss (adb_api_tokens db) d"
proof -
  let ?g = "\<lambda>r. r\<lparr>mem_Status := ms_Status m, mem_Name := ms_Name m, mem_EmployeeID := ms_EmployeeID m, mem_Position := ms_Position m,
      mem_DepartmentID := ms_DepartmentID m, mem_UpdatedAt := ms_UpdatedAt m\<rparr>"
  have "\<exists>d. member_cas t u v ?g db = Inr d \<and> db' = (if ms_Status m = MemberSuspended then revokeWebSessionsForTenantMember now u t ''membership_suspended'' d
      else if ms_Status m = MemberRemoved then revokeWebSessionsForTenantMember now u t ''membership_removed'' d else d)"
    using upd ids by (cases "ms_Status m = MemberSuspended"; cases "ms_Status m = MemberRemoved") (simp_all add: Member_Update_def split: if_split_asm, blast+)
  then obtain d where d: "member_cas t u v ?g db = Inr d" and db': "db' = (if ms_Status m = MemberSuspended then revokeWebSessionsForTenantMember now u t ''membership_suspended'' d
      else if ms_Status m = MemberRemoved then revokeWebSessionsForTenantMember now u t ''membership_removed'' d else d)" by blast
  have "db' = d \<or> (\<exists>reason. db' = revokeWebSessionsForTenantMember now u t reason d)" unfolding db' by auto
  note d = d this
  have tok: "adb_api_tokens d = adb_api_tokens db" by (simp add: member_cas_result(1) [OF d(1)])
  have "\<exists>ss. db' = with_credentials ss (adb_api_tokens d) d"
  proof (cases "db' = d")
    case True
    then show ?thesis by (intro exI [of _ "adb_web_sessions d"]) (simp add: with_credentials_def)
  next
    case False
    then show ?thesis using d(2) revoke_is_credentials by metis
  qed
  then show ?thesis using d(1) tok by auto
qed

text \<open>The stored change of a membership: its conditional update, and the status it had and gets.\<close>

lemma member_mutate_result:
  assumes keys: "acc_keys db" and mut: "member_mutate env now ctx u v reason ev before f db = Inr (m, db')"
    and same: "\<And>c c'. f c = Inr c' \<Longrightarrow> ms_TenantID c' = ms_TenantID c \<and> ms_UserID c' = ms_UserID c"
  obtains t cur ch g ss where "trustedTenantID ctx = Inr t" "Member_Get env t u db = Inr cur" "before cur = None" "f cur = Inr ch"
    "member_cas t u v g (with_credentials ss (adb_api_tokens db) db) = Inr db'" "keeps_member_key g" "\<And>r. mem_Status (g r) = ms_Status ch" "ms_Version cur = v"
proof -
  obtain t cur ch where t: "trustedTenantID ctx = Inr t" "Member_Get env t u db = Inr cur" "before cur = None" "f cur = Inr ch"
    "Member_Update env now ch v db = Inr (m, db')" "ms_Version cur = v"
    using mut by (auto simp: member_mutate_def split: if_split_asm)
  have ids: "ms_TenantID ch = t" "ms_UserID ch = u" using same [OF t(4)] t(2) by (auto elim!: Member_Get_row)
  let ?g = "\<lambda>r. r\<lparr>mem_Status := ms_Status ch, mem_Name := ms_Name ch, mem_EmployeeID := ms_EmployeeID ch, mem_Position := ms_Position ch,
                   mem_DepartmentID := ms_DepartmentID ch, mem_UpdatedAt := ms_UpdatedAt ch\<rparr>"
  have "\<exists>d ss. member_cas t u v ?g db = Inr d \<and> db' = with_credentials ss (adb_api_tokens db) d"
    using t(5) ids by (rule Member_Update_stored)
  then obtain ss where "member_cas t u v ?g (with_credentials ss (adb_api_tokens db) db) = Inr db'" using member_cas_credentials by blast
  then show thesis using t by (intro that [of t cur ch ?g ss]) (simp_all add: keeps_member_key_def)
qed

lemma membership_ops_ids:
  "Membership_Activate now c = Inr c' \<Longrightarrow> ms_TenantID c' = ms_TenantID c \<and> ms_UserID c' = ms_UserID c"
  "Membership_Suspend now c = Inr c' \<Longrightarrow> ms_TenantID c' = ms_TenantID c \<and> ms_UserID c' = ms_UserID c"
  "Membership_Remove now c = Inr c' \<Longrightarrow> ms_TenantID c' = ms_TenantID c \<and> ms_UserID c' = ms_UserID c"
  "Membership_Restore now c = Inr c' \<Longrightarrow> ms_TenantID c' = ms_TenantID c \<and> ms_UserID c' = ms_UserID c"
  "Membership_UpdateProfile a b d e g now c = Inr c' \<Longrightarrow> ms_TenantID c' = ms_TenantID c \<and> ms_UserID c' = ms_UserID c \<and> ms_Status c' = ms_Status c"
  by (auto simp: Membership_Activate_def Membership_Suspend_def Membership_Remove_def Membership_Restore_def Membership_UpdateProfile_def Let_def split: if_split_asm)

lemma keeps_mutate_active:
  assumes keys: "acc_keys db" and mut: "member_mutate env now ctx u v reason ev before f db = Inr (m, db')"
    and same: "\<And>c c'. f c = Inr c' \<Longrightarrow> ms_TenantID c' = ms_TenantID c \<and> ms_UserID c' = ms_UserID c"
    and active: "\<And>c c'. f c = Inr c' \<Longrightarrow> ms_Status c = MemberActive \<Longrightarrow> ms_Status c' = MemberActive"
  shows "keeps_owners db db'"
  using keys mut same
proof (rule member_mutate_result)
  fix t cur ch g ss assume t: "Member_Get env t u db = Inr cur" "f cur = Inr ch" "member_cas t u v g (with_credentials ss (adb_api_tokens db) db) = Inr db'" "keeps_member_key g"
    "\<And>r. mem_Status (g r) = ms_Status ch"
  obtain row where row: "member_at t u db = Some row" "ms_Status cur = mem_Status row" using t(1) by (rule Member_Get_row)
  have "mem_Status (g m) = MemberActive" if "m \<in> set (adb_memberships db)" "member_is t u m" "mem_Status m = MemberActive" for m
  proof -
    have "row = m" using member_at_row [OF keys that(1,2)] row(1) by simp
    then show ?thesis using active [OF t(2)] t(5) row(2) that(3) by simp
  qed
  then have "keeps_owners (with_credentials ss (adb_api_tokens db) db) db'"
    by (intro keeps_member_cas [OF t(3,4) keeps_with_credentials(2) [OF keys]]) simp
  then show ?thesis by (rule keeps_trans [OF keeps_with_credentials(1) [OF keys]])
qed

lemma deactivation_allowed:
  "AssertTenantMemberDeactivationAllowed ctx u db = None \<Longrightarrow> trustedTenantID ctx = Inr t \<Longrightarrow> AssertMemberCanDeactivate t (TrimSpace u) db = None"
  by (simp add: AssertTenantMemberDeactivationAllowed_def split: if_split_asm)

lemma keeps_Suspend:
  assumes keys: "acc_keys db" and sus: "SuspendTenantMember env ctx u v reason now db = Inr (m, db')"
  shows "keeps_owners db db'"
proof -
  obtain reason' where mut: "member_mutate env now ctx (TrimSpace u) v reason' True
      (\<lambda>m. or_else (assertTenantMemberDeactivationActor ctx m) (AssertTenantMemberDeactivationAllowed ctx (TrimSpace u) db)) (Membership_Suspend now) db = Inr (m, db')"
    using sus by (auto simp: SuspendTenantMember_def split: if_split_asm)
  show ?thesis
    using keys mut membership_ops_ids(2)
  proof (rule member_mutate_result)
    fix t cur ch g ss assume t: "trustedTenantID ctx = Inr t"
      "or_else (assertTenantMemberDeactivationActor ctx cur) (AssertTenantMemberDeactivationAllowed ctx (TrimSpace u) db) = None"
      "member_cas t (TrimSpace u) v g (with_credentials ss (adb_api_tokens db) db) = Inr db'" "keeps_member_key g"
    have "AssertMemberCanDeactivate t (TrimSpace u) db = None" using deactivation_allowed [OF _ t(1), of "TrimSpace u"] t(2) by simp
    then show ?thesis
      by (rule keeps_deactivation [OF keys _ trusted_plain [OF t(1)] TrimSpace_idem _ _ _ _ _ t(3,4)]) (use acc_keysD(3) [OF keys] in simp_all)
  qed
qed

text \<open>What a removal and a deletion write beside the row of the member.\<close>

definition removed_tables :: "string \<Rightarrow> string \<Rightarrow> uint64 \<Rightarrow> time \<Rightarrow> AccDB \<Rightarrow> AccDB" where
  "removed_tables t u v now db = revokeWebSessionsForTenantMember now u t ''membership_removed''
     (db\<lparr>adb_removed_roles := filter (\<lambda>s. \<not> (rrs_TenantID s = t \<and> rrs_UserID s = u)) (adb_removed_roles db) @
          map (\<lambda>a. \<lparr>rrs_TenantID = t, rrs_UserID = u, rrs_RoleID = mr_RoleID a, rrs_RemovedVersion = v, rrs_CapturedAt = now\<rparr>)
            (filter (role_of_member t u) (adb_member_roles db)),
        adb_removed_sites := filter (\<lambda>s. \<not> (rss_TenantID s = t \<and> rss_UserID s = u)) (adb_removed_sites db) @
          map (\<lambda>s. \<lparr>rss_TenantID = t, rss_UserID = u, rss_SiteID = site_SiteID s, rss_RemovedVersion = v, rss_CapturedAt = now\<rparr>)
            (filter (site_of_member t u) (adb_member_sites db)),
        adb_member_roles := filter (\<lambda>a. \<not> role_of_member t u a) (adb_member_roles db),
        adb_member_sites := filter (\<lambda>s. \<not> site_of_member t u s) (adb_member_sites db)\<rparr>)"

definition deleted_tables :: "string \<Rightarrow> string \<Rightarrow> time \<Rightarrow> AccDB \<Rightarrow> AccDB" where
  "deleted_tables t u now db = revokeWebSessionsForTenantMember now u t ''membership_self_deleted''
     (db\<lparr>adb_member_roles := filter (\<lambda>a. \<not> role_of_member t u a) (adb_member_roles db),
        adb_member_sites := filter (\<lambda>s. \<not> site_of_member t u s) (adb_member_sites db),
        adb_removed_roles := filter (\<lambda>s. \<not> (rrs_TenantID s = t \<and> rrs_UserID s = u)) (adb_removed_roles db),
        adb_removed_sites := filter (\<lambda>s. \<not> (rss_TenantID s = t \<and> rss_UserID s = u)) (adb_removed_sites db),
        adb_appeals := filter (\<lambda>a. \<not> (map_TenantID a = t \<and> map_UserID a = u)) (adb_appeals db),
        adb_api_tokens := update_where (\<lambda>k. tok_TenantID k = t \<and> tok_UserID k = u \<and> \<not> tok_Disabled k) (\<lambda>k. k\<lparr>tok_Disabled := True\<rparr>) (adb_api_tokens db)\<rparr>)"

lemma RemoveTenantMember_result:
  assumes rem: "RemoveTenantMember env ctx u v reason now db = Inr (m, db')"
  obtains t cur g where "trustedTenantID ctx = Inr t" "Member_Get env t (TrimSpace u) db = Inr cur" "ms_Version cur = v"
    "assertTenantMemberDeactivationActor ctx cur = None" "AssertMemberCanDeactivate t (TrimSpace u) db = None"
    "member_cas t (TrimSpace u) v g (removed_tables t (TrimSpace u) (v + 1) now db) = Inr db'" "keeps_member_key g" "\<And>r. mem_Status (g r) = MemberRemoved"
    "\<And>r. mem_SelfDeletedAt (g r) = mem_SelfDeletedAt r" "v \<noteq> 0" "TrimSpace u \<noteq> ''''" "ms_Status cur \<noteq> MemberRemoved"
proof -
  obtain t cur ch reason' where t: "trustedTenantID ctx = Inr t" "Member_Get env t (TrimSpace u) db = Inr cur" "ms_Version cur = v"
    "assertTenantMemberDeactivationActor ctx cur = None" "AssertTenantMemberDeactivationAllowed ctx (TrimSpace u) db = None"
    "Membership_Remove now cur = Inr ch" "Member_Remove ch v now db = Inr (m, db')" and nz: "TrimSpace u \<noteq> ''''" "v \<noteq> 0"
    using rem by (auto simp: RemoveTenantMember_def split: if_split_asm)
  have ids: "ms_TenantID ch = t" "ms_UserID ch = TrimSpace u" using membership_ops_ids(3) [OF t(6)] t(2) by (auto elim!: Member_Get_row)
  let ?g = "\<lambda>r. r\<lparr>mem_Status := MemberRemoved, mem_UpdatedAt := ms_UpdatedAt ch\<rparr>"
  have "member_cas t (TrimSpace u) v ?g (removed_tables t (TrimSpace u) (v + 1) now db) = Inr db'"
    using t(7) by (auto simp: Member_Remove_def ids removed_tables_def Let_def intro!: member_cas_revoke split: if_split_asm option.split_asm)
  moreover have "AssertMemberCanDeactivate t (TrimSpace u) db = None" using deactivation_allowed [OF t(5,1)] by simp
  moreover have "ms_Status cur \<noteq> MemberRemoved" using t(6) by (simp add: Membership_Remove_def split: if_split_asm)
  ultimately show thesis using t nz by (intro that [of t cur ?g]) (simp_all add: keeps_member_key_def)
qed

lemma keeps_Remove:
  assumes keys: "acc_keys db" and rem: "RemoveTenantMember env ctx u v reason now db = Inr (m, db')"
  shows "keeps_owners db db'"
  using rem
proof (rule RemoveTenantMember_result)
  fix t g assume t: "trustedTenantID ctx = Inr t" "AssertMemberCanDeactivate t (TrimSpace u) db = None"
    "member_cas t (TrimSpace u) v g (removed_tables t (TrimSpace u) (v + 1) now db) = Inr db'" "keeps_member_key g"
  show ?thesis
    by (rule keeps_deactivation [OF keys t(2) trusted_plain [OF t(1)] TrimSpace_idem _ _ _ _ _ t(3,4)])
      (use acc_keysD [OF keys] in \<open>simp_all add: removed_tables_def\<close>)
qed

lemma CompleteTenantDeletion_result:
  assumes "CompleteTenantDeletion env u0 t0 v now db = Inr (x, db')"
  obtains t u g where "t = TrimSpace t0" "u = TrimSpace u0" "AssertMemberCanDeactivate t u db = None" "member_cas t u v g (deleted_tables t u now db) = Inr db'"
    "keeps_member_key g" "\<And>r. mem_Status (g r) = MemberRemoved" "\<And>r. mem_SelfDeletedAt (g r) = Some now"
proof -
  let ?t = "TrimSpace t0" and ?u = "TrimSpace u0"
  let ?g = "\<lambda>r. r\<lparr>mem_Status := MemberRemoved, mem_Name := [], mem_EmployeeID := [], mem_Position := [], mem_DepartmentID := [],
     mem_AvatarAssetRef := DefaultPersonalAvatarAssetRef, mem_SelfDeletedAt := Some now, mem_UpdatedAt := now\<rparr>"
  let ?ks = "update_where (\<lambda>k. tok_TenantID k = ?t \<and> tok_UserID k = ?u \<and> \<not> tok_Disabled k) (\<lambda>k. k\<lparr>tok_Disabled := True\<rparr>) (adb_api_tokens db)"
  let ?db1 = "db\<lparr>adb_member_roles := filter (\<lambda>a. \<not> role_of_member ?t ?u a) (adb_member_roles db),
        adb_member_sites := filter (\<lambda>s. \<not> site_of_member ?t ?u s) (adb_member_sites db),
        adb_removed_roles := filter (\<lambda>s. \<not> (rrs_TenantID s = ?t \<and> rrs_UserID s = ?u)) (adb_removed_roles db),
        adb_removed_sites := filter (\<lambda>s. \<not> (rss_TenantID s = ?t \<and> rss_UserID s = ?u)) (adb_removed_sites db),
        adb_appeals := filter (\<lambda>a. \<not> (map_TenantID a = ?t \<and> map_UserID a = ?u)) (adb_appeals db)\<rparr>"
  have "\<exists>d. AssertMemberCanDeactivate ?t ?u db = None \<and> member_cas ?t ?u v ?g ?db1 = Inr d \<and>
      db' = revokeWebSessionsForTenantMember now ?u ?t ''membership_self_deleted'' (d\<lparr>adb_api_tokens := update_where (\<lambda>k. tok_TenantID k = ?t \<and> tok_UserID k = ?u \<and> \<not> tok_Disabled k)
        (\<lambda>k. k\<lparr>tok_Disabled := True\<rparr>) (adb_api_tokens d)\<rparr>)"
    using assms by (auto simp: CompleteTenantDeletion_def Let_def split: if_split_asm option.split_asm)
  then obtain d where d: "AssertMemberCanDeactivate ?t ?u db = None" "member_cas ?t ?u v ?g ?db1 = Inr d"
    "db' = revokeWebSessionsForTenantMember now ?u ?t ''membership_self_deleted'' (d\<lparr>adb_api_tokens := update_where (\<lambda>k. tok_TenantID k = ?t \<and> tok_UserID k = ?u \<and> \<not> tok_Disabled k)
        (\<lambda>k. k\<lparr>tok_Disabled := True\<rparr>) (adb_api_tokens d)\<rparr>)" by blast
  have tok: "adb_api_tokens d = adb_api_tokens db" by (simp add: member_cas_result(1) [OF d(2)])
  have "with_credentials (adb_web_sessions d) ?ks d = d\<lparr>adb_api_tokens := ?ks\<rparr>" "with_credentials (adb_web_sessions d) ?ks ?db1 = ?db1\<lparr>adb_api_tokens := ?ks\<rparr>"
    by (simp_all add: with_credentials_def member_cas_result(1) [OF d(2)])
  then have "member_cas ?t ?u v ?g (?db1\<lparr>adb_api_tokens := ?ks\<rparr>) = Inr (d\<lparr>adb_api_tokens := ?ks\<rparr>)" using member_cas_credentials [OF d(2)] by metis
  from member_cas_revoke [OF this] have "member_cas ?t ?u v ?g (deleted_tables ?t ?u now db) = Inr db'" by (simp add: deleted_tables_def d(3) tok)
  then show thesis using d(1) by (intro that [of ?t ?u ?g]) (simp_all add: keeps_member_key_def)
qed

lemma keeps_CompleteTenantDeletion:
  assumes keys: "acc_keys db" and del: "CompleteTenantDeletion env u0 t0 v now db = Inr (x, db')"
  shows "keeps_owners db db'"
  using del
proof (rule CompleteTenantDeletion_result)
  fix t u g assume t: "t = TrimSpace t0" "u = TrimSpace u0" "AssertMemberCanDeactivate t u db = None" "member_cas t u v g (deleted_tables t u now db) = Inr db'" "keeps_member_key g"
  show ?thesis
    by (rule keeps_deactivation [OF keys t(3) _ _ _ _ _ _ _ t(4,5)]) (use acc_keysD [OF keys] t(1,2) in \<open>simp_all add: deleted_tables_def\<close>)
qed

lemma RestoreTenantMember_result:
  assumes res: "RestoreTenantMember env ctx u v reason now db = Inr (m, db')"
  obtains t row g db1 where "trustedTenantID ctx = Inr t" "member_at t (TrimSpace u) db = Some row" "mem_Version row = v" "mem_Status row = MemberRemoved"
    "mem_SelfDeletedAt row = None" "member_cas t (TrimSpace u) v g db = Inr db1" "keeps_member_key g" "\<And>r. mem_Status (g r) = MemberActive"
    "assign_roles ctx (TrimSpace u) now (sort [rrs_RoleID s. s \<leftarrow> adb_removed_roles db, rrs_TenantID s = t \<and> rrs_UserID s = TrimSpace u \<and> rrs_RemovedVersion s = v,
       r \<leftarrow> adb_roles db, rr_TenantID r = rrs_TenantID s \<and> rr_ID r = rrs_RoleID s \<and> rr_Status r = RoleActive]) db1 = Inr db'"
proof -
  obtain t cur ch st ids db1 where t: "trustedTenantID ctx = Inr t" "Member_Get env t (TrimSpace u) db = Inr cur" "Membership_Restore now cur = Inr ch"
    "Member_Restore ch v db = Inr ((st, ids), db1)" "assign_roles ctx (TrimSpace u) now ids db1 = Inr db'"
    using res by (auto simp: RestoreTenantMember_def split: if_split_asm)
  have i: "ms_TenantID ch = t" "ms_UserID ch = TrimSpace u" using membership_ops_ids(4) [OF t(3)] t(2) by (auto elim!: Member_Get_row)
  let ?g = "\<lambda>r. r\<lparr>mem_Status := MemberActive, mem_UpdatedAt := ms_UpdatedAt ch\<rparr>"
  obtain row where row: "member_at t (TrimSpace u) db = Some row" using t(2) by (rule Member_Get_row)
  have "mem_Version row = v" "mem_Status row = MemberRemoved" "mem_SelfDeletedAt row = None" "member_cas t (TrimSpace u) v ?g db = Inr db1"
    "ids = sort [rrs_RoleID s. s \<leftarrow> adb_removed_roles db, rrs_TenantID s = t \<and> rrs_UserID s = TrimSpace u \<and> rrs_RemovedVersion s = v,
       r \<leftarrow> adb_roles db, rr_TenantID r = rrs_TenantID s \<and> rr_ID r = rrs_RoleID s \<and> rr_Status r = RoleActive]"
    using t(4) by (auto simp: Member_Restore_def i row Let_def split: if_split_asm)
  then show thesis using t row by (intro that [of t row ?g db1]) (simp_all add: keeps_member_key_def)
qed

lemma keeps_Restore:
  assumes keys: "acc_keys db" and res: "RestoreTenantMember env ctx u v reason now db = Inr (m, db')"
  shows "keeps_owners db db'"
  using res
proof (rule RestoreTenantMember_result)
  fix t g ids db1 assume t: "member_cas t (TrimSpace u) v g db = Inr db1" "keeps_member_key g" "\<And>r. mem_Status (g r) = MemberActive"
    "assign_roles ctx (TrimSpace u) now (ids :: string list) db1 = Inr db'"
  have 1: "keeps_owners db db1" by (rule keeps_member_cas [OF t(1,2) keys]) (simp add: t(3))
  show ?thesis by (rule keeps_trans [OF 1 keeps_assign_roles [OF keeps_keys [OF 1] t(4)]])
qed

lemma keeps_Activate:
  assumes "acc_keys db" "ActivateTenantMember env ctx u v reason now db = Inr (m, db')"
  shows "keeps_owners db db'"
  using assms(2) by (auto simp: ActivateTenantMember_def split: if_split_asm
      elim!: keeps_mutate_active [OF assms(1)] dest: membership_ops_ids(1)) (auto simp: Membership_Activate_def split: if_split_asm)

lemma keeps_Profile:
  assumes "acc_keys db" "UpdateTenantMemberProfile env ctx u v q now db = Inr (m, db')"
  shows "keeps_owners db db'"
  using assms(2) by (auto simp: UpdateTenantMemberProfile_def split: if_split_asm elim!: keeps_mutate_active [OF assms(1)] dest: membership_ops_ids(5))

lemma keeps_UpdateTenantMember:
  assumes keys: "acc_keys db" and upd: "UpdateTenantMember env ctx order u v q ids now db = Inr (m, db')"
  shows "keeps_owners db db'"
proof -
  obtain t cur ch st as rs db1 db2 where t: "Member_Get env t (TrimSpace u) db = Inr cur"
    "Membership_UpdateProfile (mp_Name q) (mp_Phone q) (mp_EmployeeID q) (mp_Position q) (mp_DepartmentID q) now cur = Inr ch"
    "Member_Update env now ch v db = Inr (st, db1)" "assign_roles ctx (TrimSpace u) now as db1 = Inr db2" "revoke_roles ctx (TrimSpace u) now rs db2 = Inr db'"
    "trustedTenantID ctx = Inr t" "ms_Version cur = v"
    using upd by (auto simp: UpdateTenantMember_def Let_def split: if_split_asm)
  have "member_mutate env now ctx (TrimSpace u) v '''' False (\<lambda>m. None)
      (Membership_UpdateProfile (mp_Name q) (mp_Phone q) (mp_EmployeeID q) (mp_Position q) (mp_DepartmentID q) now) db = Inr (st, db1)"
    using t by (simp add: member_mutate_def)
  then have 1: "keeps_owners db db1" by (rule keeps_mutate_active [OF keys]) (auto dest: membership_ops_ids(5))
  have 2: "keeps_owners db1 db2" by (rule keeps_assign_roles [OF keeps_keys [OF 1] t(4)])
  show ?thesis by (rule keeps_trans [OF keeps_trans [OF 1 2] keeps_revoke_roles [OF keeps_keys [OF 2] t(5)]])
qed

lemma ReplaceBusinessScope_result:
  assumes rep: "ReplaceBusinessScope t0 u0 v ids now db = Inr (sc, db')"
  obtains sites where "normalize_sites 64 [] ids = Some sites" "mbs_SiteIDs sc = sort sites" "db' = db" "memberBusinessScopeSiteIDs (TrimSpace t0) (TrimSpace u0) db = sort sites"
  | sites g where "normalize_sites 64 [] ids = Some sites" "mbs_SiteIDs sc = sort sites"
    "member_cas (TrimSpace t0) (TrimSpace u0) v g (db\<lparr>adb_member_sites := filter (\<lambda>s. \<not> site_of_member (TrimSpace t0) (TrimSpace u0) s) (adb_member_sites db) @
       map (\<lambda>i. \<lparr>site_TenantID = TrimSpace t0, site_UserID = TrimSpace u0, site_SiteID = i\<rparr>) (sort sites)\<rparr>) = Inr db'"
    "keeps_member_key g" "\<And>r. mem_Status (g r) = mem_Status r"
proof -
  let ?t = "TrimSpace t0" and ?u = "TrimSpace u0" and ?g = "\<lambda>r. r\<lparr>mem_UpdatedAt := now\<rparr>"
  obtain sites where s: "normalize_sites 64 [] ids = Some sites"
    using rep by (cases "normalize_sites 64 [] ids") (simp_all add: ReplaceBusinessScope_def Let_def split: if_split_asm)
  obtain row where row: "member_at ?t ?u db = Some row"
    using rep s by (cases "member_at ?t ?u db") (simp_all add: ReplaceBusinessScope_def Let_def split: if_split_asm)
  show thesis
  proof (cases "memberBusinessScopeSiteIDs ?t ?u db = sort sites")
    case True
    then show thesis using rep s row by (intro that(1)) (auto simp: ReplaceBusinessScope_def Let_def split: if_split_asm)
  next
    case False
    then show thesis using rep s row by (intro that(2) [of sites ?g]) (auto simp: ReplaceBusinessScope_def Let_def keeps_member_key_def split: if_split_asm)
  qed
qed

lemma keeps_ReplaceBusinessScope:
  assumes keys: "acc_keys db" and rep: "ReplaceBusinessScope t u v ids now db = Inr (sc, db')"
  shows "keeps_owners db db'"
  using rep
proof (cases rule: ReplaceBusinessScope_result)
  case 1
  then show ?thesis using keeps_refl [OF keys] by simp
next
  case (2 sites g)
  let ?db1 = "db\<lparr>adb_member_sites := filter (\<lambda>s. \<not> site_of_member (TrimSpace t) (TrimSpace u) s) (adb_member_sites db) @
       map (\<lambda>i. \<lparr>site_TenantID = TrimSpace t, site_UserID = TrimSpace u, site_SiteID = i\<rparr>) (sort sites)\<rparr>"
  have 1: "keeps_owners db ?db1" by (rule same_access_keeps [OF keys]) (simp add: same_access_def)
  show ?thesis by (rule keeps_trans [OF 1 keeps_member_cas [OF 2(3,4) keeps_keys [OF 1]]]) (simp add: 2(5))
qed

subsection \<open>Requests and histories\<close>

datatype acc_action =
    Role_Request role_action
  | Activate_Member MemberEnv "Principal option" string uint64 string time
  | Suspend_Member MemberEnv "Principal option" string uint64 string time
  | Remove_Member MemberEnv "Principal option" string uint64 string time
  | Restore_Member MemberEnv "Principal option" string uint64 string time
  | Update_Member MemberEnv "Principal option" "string list \<Rightarrow> string list" string uint64 MemberProfile "string list" time
  | Update_Profile MemberEnv "Principal option" string uint64 MemberProfile time
  | Delete_Own_Membership MemberEnv string string uint64 time
  | Set_Business_Scope "Principal option" site_directory string uint64 "string list" time

fun acc_step :: "acc_action \<Rightarrow> AccDB \<Rightarrow> AccDB" where
  "acc_step (Role_Request a) db = role_step a db"
| "acc_step (Activate_Member env ctx u v reason now) db = committed db (ActivateTenantMember env ctx u v reason now db)"
| "acc_step (Suspend_Member env ctx u v reason now) db = committed db (SuspendTenantMember env ctx u v reason now db)"
| "acc_step (Remove_Member env ctx u v reason now) db = committed db (RemoveTenantMember env ctx u v reason now db)"
| "acc_step (Restore_Member env ctx u v reason now) db = committed db (RestoreTenantMember env ctx u v reason now db)"
| "acc_step (Update_Member env ctx order u v q ids now) db = committed db (UpdateTenantMember env ctx order u v q ids now db)"
| "acc_step (Update_Profile env ctx u v q now) db = committed db (UpdateTenantMemberProfile env ctx u v q now db)"
| "acc_step (Delete_Own_Membership env u t v now) db = committed db (CompleteTenantDeletion env u t v now db)"
| "acc_step (Set_Business_Scope ctx ask u v ids now) db = committed db (SetTenantMemberBusinessScope ctx ask u v ids now db)"

lemma keeps_acc_step: "acc_keys db \<Longrightarrow> keeps_owners db (acc_step a db)"
  by (cases a) (auto intro!: committed_keeps intro: keeps_role_step keeps_Activate keeps_Suspend keeps_Remove keeps_Restore keeps_UpdateTenantMember
      keeps_Profile keeps_CompleteTenantDeletion keeps_ReplaceBusinessScope simp: SetTenantMemberBusinessScope_def split: if_split_asm)

text \<open>A history: the requests in the order their transactions commit.\<close>

definition acc_run :: "acc_action list \<Rightarrow> AccDB \<Rightarrow> AccDB" where
  "acc_run as db = fold acc_step as db"

lemma keeps_acc_run: "acc_keys db \<Longrightarrow> keeps_owners db (acc_run as db)"
proof (induction as arbitrary: db)
  case (Cons a as)
  have 1: "keeps_owners db (acc_step a db)" by (rule keeps_acc_step [OF Cons.prems])
  show ?case using keeps_trans [OF 1 Cons.IH [OF keeps_keys [OF 1]]] by (simp add: acc_run_def)
qed (simp add: acc_run_def keeps_refl)

text \<open>
  C24: a tenant never loses its last owner. Once the bootstrap of a tenant has committed, every
  history of role, data policy and member requests, of whatever callers and whatever the
  collaborators answer, leaves the tenant with its owner role: an active system role named
  \<open>owner\<close>, holding each required permission on all data, and assigned to an active member.\<close>

theorem tenant_owner_kept:
  assumes keys: "acc_keys db" and boot: "BootstrapTenantOwnerRole t u now db = Inr (role, db')"
    and first: "role_at (TrimSpace t) (TrimSpace t @ '':owner'') db = None"
  shows "\<exists>r v. r \<in> set (adb_roles (acc_run as db')) \<and> rr_TenantID r = TrimSpace t \<and> rr_Name r = OwnerRoleName \<and> rr_RoleCode r = Some OwnerRoleCode \<and>
    rr_SystemRole r \<and> rr_Status r = RoleActive \<and>
    (\<forall>p \<in> set OwnerRequiredPermissions. \<lparr>pg_TenantID = TrimSpace t, pg_RoleID = rr_ID r, pg_Permission = p, pg_Scope = DataScopeAll\<rparr> \<in> set (adb_grants (acc_run as db'))) \<and>
    \<lparr>mr_TenantID = TrimSpace t, mr_UserID = v, mr_RoleID = rr_ID r\<rparr> \<in> set (adb_member_roles (acc_run as db')) \<and>
    (\<exists>m \<in> set (adb_memberships (acc_run as db')). mem_TenantID m = TrimSpace t \<and> mem_UserID m = v \<and> mem_Status m = MemberActive)"
proof -
  have boot': "BootstrapOwner (TrimSpace t) (TrimSpace u) now db = Inr (role, db')"
    using boot by (simp add: BootstrapTenantOwnerRole_def split: if_split_asm)
  have own: "owned (TrimSpace t) db'" using bootstrap_first_owned [OF keys boot'] first by simp
  have "acc_keys db'" using keeps_keys [OF keeps_Bootstrap [OF keys boot']] .
  from keeps_acc_run [OF this, of as] own have "owned (TrimSpace t) (acc_run as db')" by (simp add: keeps_owners_def)
  then obtain r v where "r \<in> set (adb_roles (acc_run as db'))" "owner_row (TrimSpace t) r" "owner_grants (TrimSpace t) (rr_ID r) (adb_grants (acc_run as db'))"
    "\<lparr>mr_TenantID = TrimSpace t, mr_UserID = v, mr_RoleID = rr_ID r\<rparr> \<in> set (adb_member_roles (acc_run as db'))"
    "active_member (TrimSpace t) v (adb_memberships (acc_run as db'))" by (rule owned_exceptE)
  then show ?thesis by (intro exI [of _ r] exI [of _ v]) (simp add: owner_row_def owner_grants_def active_member_def member_is_def)
qed

lemma cas_result_rows:
  assumes keys: "acc_keys db" and cas: "member_cas t u v g db1 = Inr db'" and key: "keeps_member_key g" and same: "adb_memberships db1 = adb_memberships db"
    and row: "member_at t u db = Some row" "mem_Version row = v" and m: "m \<in> set (adb_memberships db')" "member_is t u m"
  shows "m = (g row)\<lparr>mem_Version := v + 1\<rparr>"
proof -
  obtain m0 where m0: "m0 \<in> set (adb_memberships db)" "m = (if member_is t u m0 \<and> mem_Version m0 = v then (g m0)\<lparr>mem_Version := mem_Version m0 + 1\<rparr> else m0)"
    using m(1) by (auto simp: member_cas_result(1) [OF cas] set_update_where same)
  have "member_is t u m0" using m(2) m0(2) key by (auto simp: member_is_def keeps_member_key_def split: if_split_asm)
  then have "m0 = row" using member_at_row [OF keys m0(1)] row(1) by simp
  then show ?thesis using m0(2) \<open>member_is t u m0\<close> row(2) by simp
qed

subsection \<open>Removing and restoring a member\<close>

lemma AssignTenantRoleMember_succeeds:
  assumes ctx: "trustedTenantID ctx = Inr t" and u: "TrimSpace u = u" "u \<noteq> ''''" and i: "TrimSpace i = i" "i \<noteq> ''''"
    and role: "\<exists>r \<in> set (adb_roles db). rr_TenantID r = t \<and> rr_ID r = i \<and> rr_Status r = RoleActive" and act: "active_member t u (adb_memberships db)"
  shows "\<exists>x. AssignTenantRoleMember ctx i u now db = Inr (x, ensure_member_role \<lparr>mr_TenantID = t, mr_UserID = u, mr_RoleID = i\<rparr> db)"
proof -
  let ?db = "ensure_member_role \<lparr>mr_TenantID = t, mr_UserID = u, mr_RoleID = i\<rparr> db"
  have "role_at t i ?db \<noteq> None" using role by (auto simp: role_at_def find_None_iff role_is_def ensure_member_role_def)
  then obtain x where "Role_Get now t i ?db = Inr x" by (auto simp: Role_Get_def)
  moreover have "\<exists>m \<in> set (adb_memberships db). member_is t u m \<and> mem_Status m \<in> {MemberInvited, MemberActive}" using act by (auto simp: active_member_def)
  moreover have "\<exists>r \<in> set (adb_roles db). role_is t i r \<and> rr_Status r = RoleActive" using role by (auto simp: role_is_def)
  ultimately show ?thesis using ctx u i by (simp add: AssignTenantRoleMember_def AssignMember_def bind_result_def Let_def)
qed

lemma assign_roles_succeeds:
  assumes ctx: "trustedTenantID ctx = Inr t" and u: "TrimSpace u = u" "u \<noteq> ''''"
    and ids: "\<And>i. i \<in> set ids \<Longrightarrow> TrimSpace i = i \<and> i \<noteq> '''' \<and> (\<exists>r \<in> set (adb_roles db). rr_TenantID r = t \<and> rr_ID r = i \<and> rr_Status r = RoleActive)"
    and act: "active_member t u (adb_memberships db)"
  shows "\<exists>as. assign_roles ctx u now ids db = Inr (db\<lparr>adb_member_roles := as\<rparr>) \<and>
    set as = set (adb_member_roles db) \<union> (\<lambda>i. \<lparr>mr_TenantID = t, mr_UserID = u, mr_RoleID = i\<rparr>) ` set ids"
  using ids act
proof (induction ids arbitrary: db)
  case Nil
  show ?case by (intro exI [of _ "adb_member_roles db"]) simp
next
  case (Cons i ids)
  let ?a = "\<lparr>mr_TenantID = t, mr_UserID = u, mr_RoleID = i\<rparr>"
  obtain bs where bs: "ensure_member_role ?a db = db\<lparr>adb_member_roles := bs\<rparr>" "set bs = insert ?a (set (adb_member_roles db))"
  proof (cases "?a \<in> set (adb_member_roles db)")
    case True
    then show thesis by (intro that [of "adb_member_roles db"]) (auto simp: ensure_member_role_def)
  next
    case False
    then show thesis by (intro that [of "adb_member_roles db @ [?a]"]) (auto simp: ensure_member_role_def)
  qed
  obtain x where x: "AssignTenantRoleMember ctx i u now db = Inr (x, db\<lparr>adb_member_roles := bs\<rparr>)"
    using AssignTenantRoleMember_succeeds [OF ctx u, of i db now] Cons.prems bs(1) by auto
  have "\<exists>as. assign_roles ctx u now ids (db\<lparr>adb_member_roles := bs\<rparr>) = Inr (db\<lparr>adb_member_roles := as\<rparr>) \<and>
      set as = set bs \<union> (\<lambda>i. \<lparr>mr_TenantID = t, mr_UserID = u, mr_RoleID = i\<rparr>) ` set ids"
    using Cons.IH [of "db\<lparr>adb_member_roles := bs\<rparr>"] Cons.prems by simp
  then show ?case using x bs(2) by (auto simp: bind_result_def)
qed

definition roles_of :: "string \<Rightarrow> string \<Rightarrow> AccDB \<Rightarrow> string set" where
  "roles_of t u db = {i. \<lparr>mr_TenantID = t, mr_UserID = u, mr_RoleID = i\<rparr> \<in> set (adb_member_roles db)}"

definition active_role :: "string \<Rightarrow> string \<Rightarrow> AccDB \<Rightarrow> bool" where
  "active_role t i db \<longleftrightarrow> (\<exists>r \<in> set (adb_roles db). rr_TenantID r = t \<and> rr_ID r = i \<and> rr_Status r = RoleActive)"

text \<open>What the collaborators answer in an undisturbed run.\<close>

definition undisturbed :: "MemberEnv \<Rightarrow> bool" where
  "undisturbed env \<longleftrightarrow> (\<forall>m. me_read env m = None) \<and> (\<forall>m reason. me_notify env m reason = None)"

lemma cas_succeeds:
  assumes keys: "acc_keys db" and row: "member_at t u db = Some row" "mem_Version row = v"
  shows "\<exists>db'. member_cas t u v g db = Inr db'"
proof -
  let ?P = "\<lambda>m. member_is t u m \<and> mem_Version m = v"
  have r: "row \<in> set (adb_memberships db)" "member_is t u row" using member_at_Some [OF row(1)] by (auto simp: member_is_def)
  have "length (filter ?P (adb_memberships db)) \<le> length (filter (\<lambda>m. member_key m = (t, u)) (adb_memberships db))"
    by (rule length_filter_mono) (simp add: member_is_def member_key_def)
  then have "length (filter ?P (adb_memberships db)) \<le> 1"
    using distinct_key_le_one [OF acc_keysD(2) [OF keys], of "(t, u)"] by simp
  moreover have "filter ?P (adb_memberships db) \<noteq> []" using r row(2) by (auto simp: filter_empty_conv)
  ultimately have "length (filter ?P (adb_memberships db)) = 1" by (cases "filter ?P (adb_memberships db)") auto
  then show ?thesis by (simp add: member_cas_def Let_def)
qed

lemma Member_Get_users:
  "Member_Get env t u db = Inr m \<Longrightarrow> \<exists>x \<in> set (adb_users db). usr_ID x = u"
  by (auto simp: Member_Get_def memberFromRecord_def dest!: member_at_Some split: option.split_asm if_split_asm)

lemma Member_Get_succeeds:
  assumes "member_at t u db = Some row" "\<exists>x \<in> set (adb_users db). usr_ID x = u" "me_read env row = None"
  shows "\<exists>m. Member_Get env t u db = Inr m"
  using assms member_at_Some [OF assms(1)] by (auto simp: Member_Get_def memberFromRecord_def guard_def)

lemma removed_row:
  assumes keys: "acc_keys db" and cas: "member_cas t u v g (removed_tables t u w now db) = Inr db1" and key: "keeps_member_key g"
    and row: "member_at t u db = Some row" "mem_Version row = v"
  shows "member_at t u db1 = Some ((g row)\<lparr>mem_Version := v + 1\<rparr>)"
proof -
  have r: "row \<in> set (adb_memberships db)" "member_is t u row" using member_at_Some [OF row(1)] by (auto simp: member_is_def)
  have same: "adb_memberships (removed_tables t u w now db) = adb_memberships db" by (simp add: removed_tables_def)
  have k1: "acc_keys (removed_tables t u w now db)" using acc_keysD [OF keys] by (intro acc_keysI) (simp_all add: removed_tables_def)
  let ?m = "(g row)\<lparr>mem_Version := v + 1\<rparr>"
  have "?m \<in> set (adb_memberships db1)"
    unfolding member_cas_result(1) [OF cas] using r row(2) by (force simp: set_update_where same image_iff)
  moreover have "member_is t u ?m" using r(2) key by (simp add: member_is_def keeps_member_key_def)
  ultimately show ?thesis by (rule member_at_row [OF member_keys_cas [OF cas key k1]])
qed

lemma removed_snapshot:
  assumes cas: "member_cas t u v g (removed_tables t u w now db) = Inr db1"
  shows "adb_roles db1 = adb_roles db" "adb_users db1 = adb_users db"
    "set (adb_member_roles db1) = {a \<in> set (adb_member_roles db). \<not> role_of_member t u a}"
    "set (adb_member_sites db1) = {s \<in> set (adb_member_sites db). \<not> site_of_member t u s}"
    "{s \<in> set (adb_removed_roles db1). rrs_TenantID s = t \<and> rrs_UserID s = u} =
       (\<lambda>a. \<lparr>rrs_TenantID = t, rrs_UserID = u, rrs_RoleID = mr_RoleID a, rrs_RemovedVersion = w, rrs_CapturedAt = now\<rparr>) ` {a \<in> set (adb_member_roles db). role_of_member t u a}"
  by (auto simp: member_cas_result(1) [OF cas] removed_tables_def)

lemma roles_of_image: "roles_of t u db = mr_RoleID ` {a \<in> set (adb_member_roles db). role_of_member t u a}"
proof -
  have "a = \<lparr>mr_TenantID = t, mr_UserID = u, mr_RoleID = mr_RoleID a\<rparr>" if "role_of_member t u a" for a
    using that by (cases a) (simp add: role_of_member_def)
  then have "i \<in> roles_of t u db" if "a \<in> set (adb_member_roles db)" "role_of_member t u a" "i = mr_RoleID a" for a i
    using that by (metis roles_of_def mem_Collect_eq)
  then show ?thesis by (force simp: roles_of_def role_of_member_def)
qed

lemma image_compr: "{k s |s. s \<in> f ` A \<and> P s \<and> Q s} = {k (f a) |a. a \<in> A \<and> P (f a) \<and> Q (f a)}"
  by blast

text \<open>Restoring an accepted row: the stored result, given the row and undisturbed collaborators.\<close>

lemma restore_succeeds:
  assumes keys: "acc_keys db" and ctx: "trustedTenantID ctx = Inr t" and u: "TrimSpace u \<noteq> []"
    and row: "member_at t (TrimSpace u) db = Some row" "mem_Version row = w" "mem_Status row = MemberRemoved" "mem_SelfDeletedAt row = None" "w \<noteq> 0"
    and user: "\<exists>x \<in> set (adb_users db). usr_ID x = TrimSpace u" and und: "undisturbed env" and reason: "rune_count (TrimSpace reason) \<le> 500"
    and plain: "\<forall>r \<in> set (adb_roles db). TrimSpace (rr_ID r) = rr_ID r \<and> rr_ID r \<noteq> []"
  shows "\<exists>m db'. RestoreTenantMember env ctx u w reason now db = Inr (m, db') \<and> ms_Status m = MemberActive \<and> adb_member_sites db' = adb_member_sites db \<and>
    set (adb_member_roles db') = set (adb_member_roles db) \<union> (\<lambda>i. \<lparr>mr_TenantID = t, mr_UserID = TrimSpace u, mr_RoleID = i\<rparr>) `
      {rrs_RoleID s |s. s \<in> set (adb_removed_roles db) \<and> rrs_TenantID s = t \<and> rrs_UserID s = TrimSpace u \<and> rrs_RemovedVersion s = w \<and> active_role t (rrs_RoleID s) db}"
proof -
  let ?u = "TrimSpace u" and ?g = "\<lambda>r. r\<lparr>mem_Status := MemberActive, mem_UpdatedAt := now\<rparr>"
  have read: "me_read env r = None" for r using und by (simp add: undisturbed_def)
  obtain c where c: "Member_Get env t ?u db = Inr c" using Member_Get_succeeds [OF row(1) user read] by blast
  have cf: "ms_Status c = MemberRemoved" "ms_Version c = w" "ms_TenantID c = t" "ms_UserID c = ?u" using c row by (auto elim!: Member_Get_row)
  obtain db2 where cas: "member_cas t ?u w ?g db = Inr db2" using cas_succeeds [OF keys row(1,2), of ?g] by blast
  note db2 = member_cas_result(1) [OF cas]
  let ?ids = "sort [rrs_RoleID s. s \<leftarrow> adb_removed_roles db, rrs_TenantID s = t \<and> rrs_UserID s = ?u \<and> rrs_RemovedVersion s = w,
       r \<leftarrow> adb_roles db, rr_TenantID r = rrs_TenantID s \<and> rr_ID r = rrs_RoleID s \<and> rr_Status r = RoleActive]"
  let ?ch = "c\<lparr>ms_Status := MemberActive, ms_UpdatedAt := now\<rparr>"
  have stored: "Member_Restore ?ch w db = Inr ((?ch\<lparr>ms_Version := w + 1\<rparr>, ?ids), db2)"
    using row cas by (simp add: Member_Restore_def cf bind_result_def Let_def)
  have ids: "set ?ids = {rrs_RoleID s |s. s \<in> set (adb_removed_roles db) \<and> rrs_TenantID s = t \<and> rrs_UserID s = ?u \<and> rrs_RemovedVersion s = w \<and> active_role t (rrs_RoleID s) db}"
    by (auto simp: active_role_def)
  have r: "row \<in> set (adb_memberships db)" "member_is t ?u row" using member_at_Some [OF row(1)] by (auto simp: member_is_def)
  have new: "(?g row)\<lparr>mem_Version := w + 1\<rparr> \<in> set (adb_memberships db2)" "member_is t ?u ((?g row)\<lparr>mem_Version := w + 1\<rparr>)"
    unfolding db2 using r row(2) by (force simp: set_update_where image_iff, simp add: member_is_def)
  then have act: "active_member t ?u (adb_memberships db2)" by (auto simp: active_member_def)
  have "\<exists>as. assign_roles ctx ?u now ?ids db2 = Inr (db2\<lparr>adb_member_roles := as\<rparr>) \<and>
      set as = set (adb_member_roles db2) \<union> (\<lambda>i. \<lparr>mr_TenantID = t, mr_UserID = ?u, mr_RoleID = i\<rparr>) ` set ?ids"
    using plain u by (intro assign_roles_succeeds [OF ctx _ _ _ act]) (auto simp: db2)
  then obtain as where as: "assign_roles ctx ?u now ?ids db2 = Inr (db2\<lparr>adb_member_roles := as\<rparr>)"
    "set as = set (adb_member_roles db2) \<union> (\<lambda>i. \<lparr>mr_TenantID = t, mr_UserID = ?u, mr_RoleID = i\<rparr>) ` set ?ids" by blast
  let ?db3 = "db2\<lparr>adb_member_roles := as\<rparr>"
  have "acc_keys db2" by (rule member_keys_cas [OF cas _ keys]) (simp add: keeps_member_key_def)
  then have row3: "member_at t ?u ?db3 = Some ((?g row)\<lparr>mem_Version := w + 1\<rparr>)" using member_at_row [OF _ new] by (simp add: member_at_def)
  have "\<exists>x \<in> set (adb_users ?db3). usr_ID x = ?u" using user by (simp add: db2)
  then obtain m where m: "Member_Get env t ?u ?db3 = Inr m" using Member_Get_succeeds [OF row3 _ read] by blast
  have "ms_Status m = MemberActive" using m row3 by (auto elim!: Member_Get_row)
  moreover have "RestoreTenantMember env ctx u w reason now db = Inr (m, ?db3)"
    using u row(5) ctx reason c cf stored as(1) m und
    by (simp add: RestoreTenantMember_def normalizeMemberLifecycleReason_def Membership_Restore_def undisturbed_def guard_def bind_result_def Let_def)
  ultimately show ?thesis using as(2) ids by (intro exI [of _ m] exI [of _ ?db3]) (simp add: db2)
qed

text \<open>
  The tables after a removal and the restore that follows it. The sites of the member are in the snapshot of the removal
  and \<open>RestoreTenantMember\<close> does not read them: the last clause records it, and the design document asks for the opposite.\<close>

lemma removed_member_tables:
  assumes keys: "acc_keys db" and rem: "RemoveTenantMember env ctx u v reason now db = Inr (m, db1)"
    and plain: "\<forall>r \<in> set (adb_roles db). TrimSpace (rr_ID r) = rr_ID r \<and> rr_ID r \<noteq> ''''"
    and alive: "\<forall>m \<in> set (adb_memberships db). mem_SelfDeletedAt m \<noteq> None \<longrightarrow> mem_Status m = MemberRemoved"
    and caller: "trustedTenantID ctx' = trustedTenantID ctx" and und: "undisturbed env'" and v: "v \<noteq> MaxUint64"
    and reason': "rune_count (TrimSpace reason') \<le> 500"
  shows "\<exists>t m' db2. trustedTenantID ctx = Inr t \<and> RestoreTenantMember env' ctx' u (v + 1) reason' now' db1 = Inr (m', db2) \<and>
    ms_Status m' = MemberActive \<and> roles_of t (TrimSpace u) db1 = {} \<and>
    roles_of t (TrimSpace u) db2 = {i \<in> roles_of t (TrimSpace u) db. active_role t i db} \<and>
    (\<forall>s \<in> set (adb_member_sites db2). \<not> site_of_member t (TrimSpace u) s)"
  using rem
proof (rule RemoveTenantMember_result)
  fix t cur g assume t: "trustedTenantID ctx = Inr t" "Member_Get env t (TrimSpace u) db = Inr cur" "ms_Version cur = v"
    and cas: "member_cas t (TrimSpace u) v g (removed_tables t (TrimSpace u) (v + 1) now db) = Inr db1" and key: "keeps_member_key g"
    and g: "\<And>r. mem_Status (g r) = MemberRemoved" "\<And>r. mem_SelfDeletedAt (g r) = mem_SelfDeletedAt r"
    and u: "TrimSpace u \<noteq> ''''" and st: "ms_Status cur \<noteq> MemberRemoved"
  let ?u = "TrimSpace u"
  obtain row where row: "member_at t ?u db = Some row" "mem_Version row = v" "mem_Status row \<noteq> MemberRemoved" using t(2) by (rule Member_Get_row) (use t(3) st in auto)
  let ?row1 = "(g row)\<lparr>mem_Version := v + 1\<rparr>"
  have row1: "member_at t ?u db1 = Some ?row1" by (rule removed_row [OF keys cas key row(1,2)])
  have fresh: "mem_SelfDeletedAt ?row1 = None" using alive member_at_Some [OF row(1)] row(3) by (auto simp: g(2))
  have keys1: "acc_keys db1" using keeps_keys [OF keeps_Remove [OF keys rem]] .
  note snap = removed_snapshot [OF cas]
  have v1: "v + 1 \<noteq> 0" using v by (rule word_plus_one_nonzero)
  have user: "\<exists>x \<in> set (adb_users db1). usr_ID x = ?u" using Member_Get_users [OF t(2)] by (simp add: snap(2))
  have st1: "mem_Version ?row1 = v + 1" "mem_Status ?row1 = MemberRemoved" by (simp_all add: g(1))
  have caller': "trustedTenantID ctx' = Inr t" using caller t(1) by simp
  have plain1: "\<forall>r \<in> set (adb_roles db1). TrimSpace (rr_ID r) = rr_ID r \<and> rr_ID r \<noteq> []" using plain by (simp add: snap(1))
  obtain m' db2 where res: "RestoreTenantMember env' ctx' u (v + 1) reason' now' db1 = Inr (m', db2)" "ms_Status m' = MemberActive"
      "adb_member_sites db2 = adb_member_sites db1"
      "set (adb_member_roles db2) = set (adb_member_roles db1) \<union> (\<lambda>i. \<lparr>mr_TenantID = t, mr_UserID = ?u, mr_RoleID = i\<rparr>) `
        {rrs_RoleID s |s. s \<in> set (adb_removed_roles db1) \<and> rrs_TenantID s = t \<and> rrs_UserID s = ?u \<and> rrs_RemovedVersion s = v + 1 \<and> active_role t (rrs_RoleID s) db1}"
    using restore_succeeds [OF keys1 caller' u row1 st1 fresh v1 user und reason' plain1, of now'] by blast
  have none: "roles_of t ?u db1 = {}" by (simp add: roles_of_image snap(3))
  have "{rrs_RoleID s |s. s \<in> set (adb_removed_roles db1) \<and> rrs_TenantID s = t \<and> rrs_UserID s = ?u \<and> rrs_RemovedVersion s = v + 1 \<and> active_role t (rrs_RoleID s) db1} =
      {rrs_RoleID s |s. s \<in> {s \<in> set (adb_removed_roles db1). rrs_TenantID s = t \<and> rrs_UserID s = ?u} \<and> rrs_RemovedVersion s = v + 1 \<and> active_role t (rrs_RoleID s) db}"
    by (auto simp: active_role_def snap(1))
  also have "\<dots> = {i \<in> roles_of t ?u db. active_role t i db}" unfolding snap(5) roles_of_image image_compr by auto
  finally have "roles_of t ?u db2 = {i \<in> roles_of t ?u db. active_role t i db}" using none res(4) by (auto simp: roles_of_def)
  then show ?thesis using t(1) res none snap(4) by auto
qed

text \<open>
  C38: removing a member and restoring it gives the membership and its roles back. The removal takes every role
  away; the restore that follows, by a caller of the same tenant, with the version the removal left (not the largest), a reason
  of at most 500 characters and collaborators that do not refuse, is accepted, makes the member active again and
  assigns exactly the roles the member had that are still active. The tables have unique keys and role identifiers that are not empty and
  have no white space around them, and a member that deleted itself is a removed one.\<close>

theorem removed_member_restored:
  assumes keys: "acc_keys db" and rem: "RemoveTenantMember env ctx u v reason now db = Inr (m, db1)"
    and plain: "\<forall>r \<in> set (adb_roles db). TrimSpace (rr_ID r) = rr_ID r \<and> rr_ID r \<noteq> ''''"
    and alive: "\<forall>m \<in> set (adb_memberships db). mem_SelfDeletedAt m \<noteq> None \<longrightarrow> mem_Status m = MemberRemoved"
    and caller: "trustedTenantID ctx' = trustedTenantID ctx" and und: "undisturbed env'" and v: "v \<noteq> MaxUint64"
    and reason': "rune_count (TrimSpace reason') \<le> 500"
  shows "\<exists>t m' db2. trustedTenantID ctx = Inr t \<and> RestoreTenantMember env' ctx' u (v + 1) reason' now' db1 = Inr (m', db2) \<and>
    ms_Status m' = MemberActive \<and> roles_of t (TrimSpace u) db1 = {} \<and>
    roles_of t (TrimSpace u) db2 = {i \<in> roles_of t (TrimSpace u) db. active_role t i db}"
  using removed_member_tables [OF assms, of now'] by blast

subsection \<open>Witnesses\<close>

definition ex_env :: MemberEnv where
  "ex_env = \<lparr>me_read = \<lambda>r. None, me_phone = \<lambda>r. '''', me_contacts = \<lambda>m. None, me_department = \<lambda>d. None, me_activation = \<lambda>t u. None,
     me_notify = \<lambda>m r. None, me_verified = \<lambda>r. None\<rparr>"

definition ex_tenant :: "string \<Rightarrow> tenantRecord" where
  "ex_tenant i = \<lparr>ten_ID = i, ten_Name = ''Acme'', ten_Status = TenantStatusActive, ten_Version = 1, ten_CreatedAt = 5, ten_UpdatedAt = 5, tnr_ShortName = '''', tnr_Industry = '''',
     tnr_CompanySize = '''', tnr_Timezone = ''Asia/Shanghai'', tnr_ContactName = '''', tnr_Phone = '''', tnr_Email = '''', tnr_Address = '''', tnr_Description = '''',
     tnr_LogoAssetRef = '''', tnr_BrandPreset = ''blue'', tnr_BrandPrimary = ''''\<rparr>"

text \<open>A tenant with two members; one has an active and a disabled role and a site.\<close>

definition ex_team :: AccDB where
  "ex_team = empty_adb\<lparr>adb_tenants := [ex_tenant ''t1''],
     adb_users := [\<lparr>usr_ID = ''u1'', usr_Status = ''active''\<rparr>, \<lparr>usr_ID = ''u2'', usr_Status = ''active''\<rparr>],
     adb_memberships := [ex_membership ''t1'' ''u1'', ex_membership ''t1'' ''u2''],
     adb_roles := [ex_role_row ''t1'' ''r1'' ''clerk'', (ex_role_row ''t1'' ''r2'' ''porter'')\<lparr>rr_Status := RoleDisabled\<rparr>],
     adb_member_roles := [\<lparr>mr_TenantID = ''t1'', mr_UserID = ''u2'', mr_RoleID = ''r1''\<rparr>, \<lparr>mr_TenantID = ''t1'', mr_UserID = ''u2'', mr_RoleID = ''r2''\<rparr>],
     adb_grants := [ex_grant ''t1'' ''r1'' ''order.read'' DataScopeSelf],
     adb_member_sites := [\<lparr>site_TenantID = ''t1'', site_UserID = ''u2'', site_SiteID = ''s1''\<rparr>]\<rparr>"

lemma ex_team_keys: "acc_keys ex_team"
  by code_simp

lemma ex_bootstrap: "isl (BootstrapTenantOwnerRole ''t1'' ''u1'' 9 ex_team) = False"
  by code_simp

theorem tenant_owner_kept_witness:
  "\<exists>role db' r. BootstrapTenantOwnerRole ''t1'' ''u1'' 9 ex_team = Inr (role, db') \<and>
     r \<in> set (adb_roles (acc_run [Remove_Member ex_env (ex_caller ''t1'' ''u2'') ''u1'' 1 '''' 10, Delete_Own_Membership ex_env ''u1'' ''t1'' 1 11] db')) \<and>
     rr_TenantID r = ''t1'' \<and> rr_Name r = OwnerRoleName \<and> rr_Status r = RoleActive"
proof -
  have trim: "TrimSpace ''t1'' = ''t1''" by code_simp
  have "role_at ''t1'' (''t1'' @ '':owner'') ex_team = None" by code_simp
  then have first: "role_at (TrimSpace ''t1'') (TrimSpace ''t1'' @ '':owner'') ex_team = None" unfolding trim .
  obtain role db' where b: "BootstrapTenantOwnerRole ''t1'' ''u1'' 9 ex_team = Inr (role, db')"
    using ex_bootstrap by (cases "BootstrapTenantOwnerRole ''t1'' ''u1'' 9 ex_team") auto
  from tenant_owner_kept [OF ex_team_keys b first] b show ?thesis unfolding trim by blast
qed

lemma ex_removal: "isl (RemoveTenantMember ex_env (ex_caller ''t1'' ''u1'') ''u2'' 1 ''left'' 9 ex_team) = False"
  by code_simp

theorem removed_member_restored_witness:
  "\<exists>m db1 m' db2. RemoveTenantMember ex_env (ex_caller ''t1'' ''u1'') ''u2'' 1 ''left'' 9 ex_team = Inr (m, db1) \<and>
     RestoreTenantMember ex_env (ex_caller ''t1'' ''u1'') ''u2'' 2 ''back'' 10 db1 = Inr (m', db2) \<and>
     ms_Status m' = MemberActive \<and> roles_of ''t1'' ''u2'' db2 = {''r1''}"
proof -
  have trim: "TrimSpace ''u2'' = ''u2''" by code_simp
  have trim': "TrimSpace ''t1'' = ''t1''" by code_simp
  have caller: "trustedTenantID (ex_caller ''t1'' ''u1'') = Inr ''t1''" using trim' by (simp add: trustedTenantID_def ex_caller_def)
  obtain m db1 where r: "RemoveTenantMember ex_env (ex_caller ''t1'' ''u1'') ''u2'' 1 ''left'' 9 ex_team = Inr (m, db1)"
    using ex_removal by (cases "RemoveTenantMember ex_env (ex_caller ''t1'' ''u1'') ''u2'' 1 ''left'' 9 ex_team") auto
  have plain: "\<forall>r \<in> set (adb_roles ex_team). TrimSpace (rr_ID r) = rr_ID r \<and> rr_ID r \<noteq> ''''" by code_simp
  have alive: "\<forall>m \<in> set (adb_memberships ex_team). mem_SelfDeletedAt m \<noteq> None \<longrightarrow> mem_Status m = MemberRemoved" by code_simp
  have und: "undisturbed ex_env" by (simp add: undisturbed_def ex_env_def)
  have v: "(1 :: uint64) \<noteq> MaxUint64" by code_simp
  have reason: "rune_count (TrimSpace ''back'') \<le> 500" by code_simp
  obtain m' db2 where r2: "RestoreTenantMember ex_env (ex_caller ''t1'' ''u1'') ''u2'' (1 + 1) ''back'' 10 db1 = Inr (m', db2)" "ms_Status m' = MemberActive"
      "roles_of ''t1'' (TrimSpace ''u2'') db2 = {i \<in> roles_of ''t1'' (TrimSpace ''u2'') ex_team. active_role ''t1'' i ex_team}"
    using removed_member_restored [OF ex_team_keys r plain alive refl und v reason, of 10] caller by auto
  have "roles_of ''t1'' ''u2'' ex_team = {''r1'', ''r2''}" by (auto simp: roles_of_def ex_team_def)
  moreover have "active_role ''t1'' ''r1'' ex_team" "\<not> active_role ''t1'' ''r2'' ex_team" by (simp_all add: active_role_def ex_team_def ex_role_row_def)
  ultimately have "roles_of ''t1'' ''u2'' db2 = {''r1''}" using r2(3) unfolding trim by auto
  then show ?thesis using r r2(1,2) by (intro exI [of _ m] exI [of _ db1] exI [of _ m'] exI [of _ db2]) simp
qed

end
