(* ===== verification/Business_Scope.thy ===== *)
theory Business_Scope
  imports Tenant_Member_Props
begin

section \<open>Current grants and the effective business scope\<close>

text \<open>
  What a request may do and where: \<open>internal/access/domain/effective_business_scope.go\<close> with the snapshot
  that feeds it (\<open>internal/access/infrastructure/persistence/effective_business_scope.go\<close>), and the
  grants of the current roles (\<open>current_authorization.go\<close>, \<open>branding.go\<close>, \<open>store.go\<close>). A query is a list
  comprehension over the tables in the order of its joins.
\<close>

subsection \<open>The effective business scope\<close>

record BusinessScopeGrant =
  bsg_Scope :: string
  bsg_PolicyID :: string
  bsg_Policy :: "DataPolicy option"

record EffectiveBusinessScope =
  ebs_All :: bool
  ebs_Self :: bool
  ebs_Sites :: bool
  ebs_MemberSiteIDs :: "string list"
  ebs_PolicyBound :: bool
  ebs_PolicySiteIDs :: "string list"

definition normalizedBusinessSites :: "string list \<Rightarrow> string list" where
  "normalizedBusinessSites values = sort (remdups (filter (\<lambda>v. v \<noteq> '''') (map TrimSpace values)))"

definition intersectBusinessSites :: "string list \<Rightarrow> string list \<Rightarrow> string list" where
  "intersectBusinessSites left right = filter (\<lambda>v. v \<in> set right) left"

fun scope_loop :: "string \<Rightarrow> time \<Rightarrow> EffectiveBusinessScope \<Rightarrow> string list \<Rightarrow> BusinessScopeGrant list \<Rightarrow> acc_error + (EffectiveBusinessScope \<times> string list)" where
  "scope_loop tenantID now result ceiling [] = Inr (result, ceiling)"
| "scope_loop tenantID now result ceiling (grant # rest) =
     (if bsg_Scope grant \<notin> {DataScopeAll, DataScopeSelf, DataScopeSites} then scope_loop tenantID now result ceiling rest
      else
        let result = (if bsg_Scope grant = DataScopeAll then result\<lparr>ebs_All := True\<rparr>
                      else if bsg_Scope grant = DataScopeSelf then result\<lparr>ebs_Self := True\<rparr>
                      else result\<lparr>ebs_Sites := True\<rparr>)
        in if bsg_PolicyID grant = '''' then scope_loop tenantID now result ceiling rest
           else case bsg_Policy grant of
             None \<Rightarrow> Inl Acc_InvalidDataPolicy
           | Some policy \<Rightarrow>
               if pol_ID policy \<noteq> bsg_PolicyID grant \<or> tenantID = '''' \<or> pol_TenantID policy \<noteq> tenantID \<or> pol_Version policy = 0 then Inl Acc_InvalidDataPolicy
               else if \<not> fst (EffectiveAt now policy) then Inl Acc_InvalidDataPolicy
               else scope_loop tenantID now (result\<lparr>ebs_PolicyBound := True\<rparr>) (intersectBusinessSites ceiling (pol_SiteIDs policy)) rest)"

definition ResolveEffectiveBusinessScope :: "string \<Rightarrow> BusinessScopeGrant list \<Rightarrow> string list \<Rightarrow> time \<Rightarrow> acc_error + EffectiveBusinessScope" where
  "ResolveEffectiveBusinessScope tenantID grants memberSites now =
     (let sites = normalizedBusinessSites memberSites
      in bind_result (scope_loop tenantID now
           \<lparr>ebs_All = False, ebs_Self = False, ebs_Sites = False, ebs_MemberSiteIDs = sites, ebs_PolicyBound = False, ebs_PolicySiteIDs = []\<rparr> sites grants)
           (\<lambda>(result, ceiling). Inr (if ebs_PolicyBound result then result\<lparr>ebs_PolicySiteIDs := ceiling\<rparr> else result)))"

subsection \<open>The snapshot of a member\<close>

text \<open>The active memberships of a user in a tenant, joined with the active tenant and the active account.\<close>

definition live_memberships :: "string \<Rightarrow> string \<Rightarrow> AccDB \<Rightarrow> membershipRecord list" where
  "live_memberships tenantID userID db =
     [m. m \<leftarrow> adb_memberships db, member_is tenantID userID m \<and> mem_Status m = MemberActive,
         t \<leftarrow> adb_tenants db, ten_ID t = mem_TenantID m \<and> ten_Status t = TenantStatusActive,
         u \<leftarrow> adb_users db, usr_ID u = mem_UserID m \<and> usr_Status u = ''active'']"

definition live_grants :: "string \<Rightarrow> string \<Rightarrow> AccDB \<Rightarrow> (roleRecord \<times> permissionGrantRecord) list" where
  "live_grants tenantID userID db =
     [(r, g). m \<leftarrow> live_memberships tenantID userID db,
         a \<leftarrow> adb_member_roles db, mr_TenantID a = mem_TenantID m \<and> mr_UserID a = mem_UserID m,
         r \<leftarrow> adb_roles db, rr_ID r = mr_RoleID a \<and> rr_TenantID r = mr_TenantID a \<and> rr_Status r = RoleActive,
         g \<leftarrow> adb_grants db, pg_RoleID g = rr_ID r \<and> pg_TenantID g = rr_TenantID r]"

text \<open>The policy a role refers to, by the outer join on the tenant and the identifier, with its sites.\<close>

definition referenced_policy :: "AccDB \<Rightarrow> roleRecord \<Rightarrow> DataPolicy option" where
  "referenced_policy db r =
     (case rr_DataPolicyID r of
        None \<Rightarrow> None
      | Some pid \<Rightarrow>
          map_option (\<lambda>p. \<lparr>pol_ID = dp_ID p, pol_TenantID = dp_TenantID p, pol_Name = '''', pol_Status = dp_Status p,
             pol_SiteIDs = map dps_SiteID (filter (\<lambda>s. dps_TenantID s = rr_TenantID r \<and> dps_PolicyID s = dp_ID p) (adb_policy_sites db)),
             pol_Version = dp_Version p, pol_NotBefore = dp_NotBefore p, pol_ExpiresAt = dp_ExpiresAt p, pol_CreatedAt = 0, pol_UpdatedAt = 0\<rparr>)
            (policy_at (rr_TenantID r) pid db))"

definition scope_grant :: "AccDB \<Rightarrow> roleRecord \<times> permissionGrantRecord \<Rightarrow> BusinessScopeGrant" where
  "scope_grant db rg = (case rg of (r, g) \<Rightarrow>
     \<lparr>bsg_Scope = pg_Scope g, bsg_PolicyID = (case rr_DataPolicyID r of None \<Rightarrow> '''' | Some pid \<Rightarrow> pid), bsg_Policy = referenced_policy db r\<rparr>)"

definition ResolveBusinessScope :: "string \<Rightarrow> string \<Rightarrow> string \<Rightarrow> time \<Rightarrow> AccDB \<Rightarrow> acc_error + EffectiveBusinessScope" where
  "ResolveBusinessScope tenantID userID permission now db =
     (let t = TrimSpace tenantID; u = TrimSpace userID
      in if t = '''' \<or> u = '''' \<or> TrimSpace permission = '''' then Inl Acc_Unauthorized
         else
           let rows = sort_key (\<lambda>(r, g). rr_ID r) (filter (\<lambda>(r, g). pg_Permission g = permission) (live_grants t u db));
               memberSites = sort (map site_SiteID (filter (site_of_member t u) (adb_member_sites db)))
           in ResolveEffectiveBusinessScope t (map (scope_grant db) rows) memberSites now)"

subsection \<open>The grants of the current roles\<close>

record Grant =
  grant_Permission :: string
  grant_RoleID :: string
  grant_Scope :: string

definition implicit_grant :: "string \<Rightarrow> string \<Rightarrow> string \<Rightarrow> string \<Rightarrow> AccDB \<Rightarrow> Grant list" where
  "implicit_grant permission scope tenantID userID db =
     (if length (live_memberships tenantID userID db) \<noteq> 1 then []
      else [\<lparr>grant_Permission = permission, grant_RoleID = ''membership:'' @ tenantID @ '':'' @ userID, grant_Scope = scope\<rparr>])"

definition resolveBrandingReadGrant :: "string \<Rightarrow> string \<Rightarrow> AccDB \<Rightarrow> Grant list" where
  "resolveBrandingReadGrant tenantID userID db =
     (if tenantID = '''' \<or> userID = '''' then [] else implicit_grant ''tenant.branding.read'' DataScopeAll tenantID userID db)"

definition resolvePersonalProfileSelfGrant :: "string \<Rightarrow> string \<Rightarrow> AccDB \<Rightarrow> Grant list" where
  "resolvePersonalProfileSelfGrant tenantID userID db =
     (let t = TrimSpace tenantID; u = TrimSpace userID
      in if t = '''' \<or> u = '''' then [] else implicit_grant ''tenant.personal_profile.self'' DataScopeSelf t u db)"

definition currentGrantRequestsPermission :: "string list \<Rightarrow> string \<Rightarrow> bool" where
  "currentGrantRequestsPermission permissions expected \<longleftrightarrow> permissions = [] \<or> expected \<in> set permissions"

definition ResolveCurrentGrants :: "string \<Rightarrow> string \<Rightarrow> string list \<Rightarrow> AccDB \<Rightarrow> Grant list" where
  "ResolveCurrentGrants tenantID userID permissions db =
     (let t = TrimSpace tenantID; u = TrimSpace userID;
          keys = filter (\<lambda>v. v \<noteq> '''') (map TrimSpace permissions)
      in if t = '''' \<or> u = '''' then []
         else if permissions \<noteq> [] \<and> keys = [] then []
         else
           let rows = filter (\<lambda>(r, g). permissions = [] \<or> pg_Permission g \<in> set keys) (live_grants t u db);
               explicit = map (\<lambda>(r, g). \<lparr>grant_Permission = pg_Permission g, grant_RoleID = rr_ID r, grant_Scope = pg_Scope g\<rparr>)
                 (sort_key (\<lambda>(r, g). (pg_Permission g, rr_ID r)) rows);
               branding = (if currentGrantRequestsPermission permissions ''tenant.branding.read'' then resolveBrandingReadGrant t u db else []);
               profile = (if currentGrantRequestsPermission permissions ''tenant.personal_profile.self'' then resolvePersonalProfileSelfGrant t u db else [])
           in sort_key (\<lambda>g. (grant_Permission g, grant_RoleID g)) (explicit @ branding @ profile))"

definition ResolveGrants :: "string \<Rightarrow> string list \<Rightarrow> string list \<Rightarrow> AccDB \<Rightarrow> Grant list" where
  "ResolveGrants tenantID roles permissions db =
     (let keys = filter (\<lambda>v. v \<noteq> '''') (map TrimSpace permissions)
      in if TrimSpace tenantID = '''' \<or> roles = [] \<or> permissions = [] then []
         else if keys = [] then []
         else [\<lparr>grant_Permission = pg_Permission g, grant_RoleID = rr_ID r, grant_Scope = pg_Scope g\<rparr>.
                 r \<leftarrow> adb_roles db, rr_TenantID r = tenantID \<and> rr_Status r = RoleActive \<and> rr_Name r \<in> set roles,
                 g \<leftarrow> adb_grants db, pg_RoleID g = rr_ID r \<and> pg_TenantID g = rr_TenantID r \<and> pg_Permission g \<in> set keys])"

definition ResolveMemberSites :: "string \<Rightarrow> string \<Rightarrow> AccDB \<Rightarrow> string list" where
  "ResolveMemberSites tenantID userID db =
     (if TrimSpace tenantID = '''' \<or> TrimSpace userID = '''' then []
      else sort (map site_SiteID (filter (site_of_member tenantID userID) (adb_member_sites db))))"

text \<open>\<open>effectiveDataPolicies\<close>: the widest scope of each permission; an unknown scope ranks with none.\<close>

record CurrentDataPolicy =
  cdp_Permission :: string
  cdp_Scope :: string
  cdp_SiteIDs :: "string list"

definition policy_rank :: "string \<Rightarrow> nat" where
  "policy_rank scope = (if scope = DataScopeSelf then 1 else if scope = DataScopeSites then 2 else if scope = DataScopeAll then 3 else 0)"

fun best_scopes :: "(string \<Rightarrow> string option) \<Rightarrow> string list \<Rightarrow> Grant list \<Rightarrow> (string \<Rightarrow> string option) \<times> string list" where
  "best_scopes best keys [] = (best, keys)"
| "best_scopes best keys (g # rest) =
     (let scope = TrimSpace (grant_Scope g); p = grant_Permission g;
          held = (case best p of None \<Rightarrow> '''' | Some s \<Rightarrow> s);
          best1 = (if policy_rank scope > policy_rank held then best(p \<mapsto> scope) else best);
          best2 = (if best1 p = None then best1(p \<mapsto> scope) else best1)
      in best_scopes best2 (if p \<in> set keys then keys else p # keys) rest)"

definition effectiveDataPolicies :: "Grant list \<Rightarrow> string list \<Rightarrow> CurrentDataPolicy list" where
  "effectiveDataPolicies grants sites =
     (case best_scopes (\<lambda>p. None) [] grants of (best, keys) \<Rightarrow>
        map (\<lambda>p. let scope = the (best p)
                 in \<lparr>cdp_Permission = p, cdp_Scope = scope, cdp_SiteIDs = (if scope = DataScopeSites then sites else [])\<rparr>) (sort keys))"

subsection \<open>The ceiling of the data policies\<close>

definition grants_access :: "BusinessScopeGrant \<Rightarrow> bool" where
  "grants_access g \<longleftrightarrow> bsg_Scope g \<in> {DataScopeAll, DataScopeSelf, DataScopeSites}"

definition policy_bound :: "BusinessScopeGrant \<Rightarrow> bool" where
  "policy_bound g \<longleftrightarrow> grants_access g \<and> bsg_PolicyID g \<noteq> ''''"

definition reference_valid :: "string \<Rightarrow> time \<Rightarrow> BusinessScopeGrant \<Rightarrow> bool" where
  "reference_valid t now g \<longleftrightarrow> (case bsg_Policy g of None \<Rightarrow> False
     | Some p \<Rightarrow> pol_ID p = bsg_PolicyID g \<and> t \<noteq> '''' \<and> pol_TenantID p = t \<and> pol_Version p \<noteq> 0 \<and> fst (EffectiveAt now p))"

definition within_policies_of :: "BusinessScopeGrant list \<Rightarrow> string \<Rightarrow> bool" where
  "within_policies_of gs x \<longleftrightarrow> (\<forall>g \<in> set gs. policy_bound g \<longrightarrow> x \<in> set (pol_SiteIDs (the (bsg_Policy g))))"

lemma within_policies_of_simps [simp]:
  "within_policies_of [] = (\<lambda>x. True)"
  "within_policies_of (g # gs) = (\<lambda>x. (policy_bound g \<longrightarrow> x \<in> set (pol_SiteIDs (the (bsg_Policy g)))) \<and> within_policies_of gs x)"
  by (auto simp: within_policies_of_def fun_eq_iff)

lemma scope_loop_exact:
  "scope_loop t now r c gs =
     (if \<exists>g \<in> set gs. policy_bound g \<and> \<not> reference_valid t now g then Inl Acc_InvalidDataPolicy
      else Inr (r\<lparr>ebs_All := ebs_All r \<or> (\<exists>g \<in> set gs. bsg_Scope g = DataScopeAll), ebs_Self := ebs_Self r \<or> (\<exists>g \<in> set gs. bsg_Scope g = DataScopeSelf),
                   ebs_Sites := ebs_Sites r \<or> (\<exists>g \<in> set gs. bsg_Scope g = DataScopeSites),
                   ebs_PolicyBound := ebs_PolicyBound r \<or> (\<exists>g \<in> set gs. policy_bound g)\<rparr>,
                filter (within_policies_of gs) c))"
proof (induction gs arbitrary: r c)
  case (Cons g gs)
  have ceiling: "filter (within_policies_of gs) (intersectBusinessSites c ss) = filter (\<lambda>x. x \<in> set ss \<and> within_policies_of gs x) c" for ss
    by (simp add: intersectBusinessSites_def conj_commute)
  have rv: "reference_valid t now g = (case bsg_Policy g of None \<Rightarrow> False
     | Some p \<Rightarrow> pol_ID p = bsg_PolicyID g \<and> t \<noteq> [] \<and> pol_TenantID p = t \<and> pol_Version p \<noteq> 0 \<and> fst (EffectiveAt now p))"
    by (rule reference_valid_def)
  consider "\<not> grants_access g" | "bsg_Scope g = DataScopeAll" | "bsg_Scope g = DataScopeSelf" | "bsg_Scope g = DataScopeSites"
    by (auto simp: grants_access_def)
  then show ?case
  proof cases
    case 1
    then have "scope_loop t now r c (g # gs) = scope_loop t now r c gs" "\<not> policy_bound g"
      "bsg_Scope g \<noteq> DataScopeAll" "bsg_Scope g \<noteq> DataScopeSelf" "bsg_Scope g \<noteq> DataScopeSites"
      by (simp_all add: grants_access_def policy_bound_def)
    then show ?thesis using Cons.IH [of r c] by simp
  next
    case 2
    then have "policy_bound g = (bsg_PolicyID g \<noteq> [])" by (simp add: policy_bound_def grants_access_def)
    then show ?thesis using 2 by (cases "bsg_PolicyID g = []"; cases "bsg_Policy g") (auto simp: rv ceiling Cons.IH Let_def)
  next
    case 3
    then have "policy_bound g = (bsg_PolicyID g \<noteq> [])" by (simp add: policy_bound_def grants_access_def)
    then show ?thesis using 3 by (cases "bsg_PolicyID g = []"; cases "bsg_Policy g") (auto simp: rv ceiling Cons.IH Let_def)
  next
    case 4
    then have "policy_bound g = (bsg_PolicyID g \<noteq> [])" by (simp add: policy_bound_def grants_access_def)
    then show ?thesis using 4 by (cases "bsg_PolicyID g = []"; cases "bsg_Policy g") (auto simp: rv ceiling Cons.IH Let_def)
  qed
qed simp


subsection \<open>Grants are those of the current active roles\<close>

definition directory_keys :: "AccDB \<Rightarrow> bool" where
  "directory_keys db \<longleftrightarrow> distinct (map ten_ID (adb_tenants db)) \<and> distinct (map usr_ID (adb_users db))"

definition live :: "string \<Rightarrow> string \<Rightarrow> AccDB \<Rightarrow> bool" where
  "live t u db \<longleftrightarrow> active_member t u (adb_memberships db) \<and> (\<exists>x \<in> set (adb_tenants db). ten_ID x = t \<and> ten_Status x = TenantStatusActive) \<and>
     (\<exists>x \<in> set (adb_users db). usr_ID x = u \<and> usr_Status x = ''active'')"

lemma set_live_memberships:
  "m \<in> set (live_memberships t u db) \<longleftrightarrow> m \<in> set (adb_memberships db) \<and> member_is t u m \<and> mem_Status m = MemberActive \<and> live t u db"
  by (auto simp: live_memberships_def live_def active_member_def member_is_def)

lemma live_memberships_empty: "\<not> live t u db \<Longrightarrow> live_memberships t u db = []"
  using set_live_memberships [of _ t u db] by (cases "live_memberships t u db") auto

lemma live_memberships_one:
  assumes keys: "acc_keys db" and dir: "directory_keys db" and live: "live t u db"
  shows "length (live_memberships t u db) = 1"
proof -
  let ?P = "\<lambda>m. member_is t u m \<and> mem_Status m = MemberActive"
  let ?T = "\<lambda>m x. ten_ID x = mem_TenantID m \<and> ten_Status x = TenantStatusActive" and ?U = "\<lambda>m y. usr_ID y = mem_UserID m \<and> usr_Status y = ''active''"
  let ?f = "\<lambda>m. length (if ?P m then [m. x \<leftarrow> adb_tenants db, ?T m x, y \<leftarrow> adb_users db, ?U m y] else [])"
  obtain m0 where m0: "m0 \<in> set (adb_memberships db)" "?P m0" using live by (auto simp: live_def active_member_def)
  obtain x0 where x0: "x0 \<in> set (adb_tenants db)" "ten_ID x0 = t" using live by (auto simp: live_def)
  have tens: "distinct (adb_tenants db)" "x = x0" if "x \<in> set (adb_tenants db)" "ten_ID x = t" for x
    using dir x0 that by (auto simp: directory_keys_def distinct_map inj_on_def)
  have users: "length (filter (?U m) (adb_users db)) \<le> 1" for m
    using dir distinct_key_le_one [of usr_ID "adb_users db" "mem_UserID m"] length_filter_mono [of "?U m" "\<lambda>y. usr_ID y = mem_UserID m" "adb_users db"]
    by (simp add: directory_keys_def)
  have "length (live_memberships t u db) = sum_list (map ?f (adb_memberships db))"
    unfolding live_memberships_def by (simp add: length_concat comp_def)
  also have "\<dots> \<le> ?f m0"
  proof (rule sum_list_only)
    show "distinct (adb_memberships db)" using acc_keysD(2) [OF keys] by (simp add: distinct_map)
    show "?f m = 0" if "m \<in> set (adb_memberships db)" "m \<noteq> m0" for m
      using member_at_row [OF keys that(1), of t u] member_at_row [OF keys m0(1), of t u] m0(2) that(2) by auto
  qed
  also have "?f m0 \<le> 1"
    using join_le_one [where ?a0.0 = x0 and g = "\<lambda>x. m0" and P = "?T m0" and Q = "\<lambda>x. ?U m0", OF tens(1) [OF x0] users] tens(2) m0(2) by (simp add: member_is_def)
  finally have "length (live_memberships t u db) \<le> 1" .
  moreover have "live_memberships t u db \<noteq> []"
    using live set_live_memberships [of m0 t u db] m0 by auto
  ultimately show ?thesis by (cases "live_memberships t u db") auto
qed
lemma set_live_grants:
  "(r, g) \<in> set (live_grants t u db) \<longleftrightarrow> live t u db \<and> r \<in> set (adb_roles db) \<and> rr_TenantID r = t \<and> rr_Status r = RoleActive \<and>
     \<lparr>mr_TenantID = t, mr_UserID = u, mr_RoleID = rr_ID r\<rparr> \<in> set (adb_member_roles db) \<and> g \<in> set (adb_grants db) \<and> pg_RoleID g = rr_ID r \<and> pg_TenantID g = t"
proof
  assume "(r, g) \<in> set (live_grants t u db)"
  then obtain m a where m: "m \<in> set (live_memberships t u db)" and a: "a \<in> set (adb_member_roles db)" "mr_TenantID a = mem_TenantID m" "mr_UserID a = mem_UserID m"
    and r: "r \<in> set (adb_roles db)" "rr_ID r = mr_RoleID a" "rr_TenantID r = mr_TenantID a" "rr_Status r = RoleActive"
    and g: "g \<in> set (adb_grants db)" "pg_RoleID g = rr_ID r" "pg_TenantID g = rr_TenantID r"
    by (auto simp: live_grants_def)
  have k: "mem_TenantID m = t" "mem_UserID m = u" "live t u db" using m by (auto simp: set_live_memberships member_is_def)
  then have "a = \<lparr>mr_TenantID = t, mr_UserID = u, mr_RoleID = rr_ID r\<rparr>" using a r by (intro memberRoleRecord.equality) simp_all
  with a(1) have "\<lparr>mr_TenantID = t, mr_UserID = u, mr_RoleID = rr_ID r\<rparr> \<in> set (adb_member_roles db)" by blast
  then show "live t u db \<and> r \<in> set (adb_roles db) \<and> rr_TenantID r = t \<and> rr_Status r = RoleActive \<and>
     \<lparr>mr_TenantID = t, mr_UserID = u, mr_RoleID = rr_ID r\<rparr> \<in> set (adb_member_roles db) \<and> g \<in> set (adb_grants db) \<and> pg_RoleID g = rr_ID r \<and> pg_TenantID g = t"
    using a(2) r(1,3,4) g k by simp
next
  let ?a = "\<lparr>mr_TenantID = t, mr_UserID = u, mr_RoleID = rr_ID r\<rparr>"
  assume h: "live t u db \<and> r \<in> set (adb_roles db) \<and> rr_TenantID r = t \<and> rr_Status r = RoleActive \<and>
     ?a \<in> set (adb_member_roles db) \<and> g \<in> set (adb_grants db) \<and> pg_RoleID g = rr_ID r \<and> pg_TenantID g = t"
  then obtain m where "m \<in> set (live_memberships t u db)" "mem_TenantID m = t" "mem_UserID m = u"
    by (auto simp: set_live_memberships member_is_def live_def active_member_def)
  then show "(r, g) \<in> set (live_grants t u db)" using h unfolding live_grants_def by (auto intro!: bexI [of _ m] bexI [of _ ?a] bexI [of _ r] bexI [of _ g])
qed

lemma live_grants_empty: "\<not> live t u db \<Longrightarrow> live_grants t u db = []"
  by (simp add: live_grants_def live_memberships_empty)

lemma implicit_grant_live:
  assumes "acc_keys db" "directory_keys db"
  shows "implicit_grant p sc t u db =
    (if live t u db then [\<lparr>grant_Permission = p, grant_RoleID = ''membership:'' @ t @ '':'' @ u, grant_Scope = sc\<rparr>] else [])"
  using live_memberships_one [OF assms, of t u] by (simp add: implicit_grant_def live_memberships_empty)

lemma image_pairs: "(\<lambda>(a, b). f a b) ` {x \<in> S. case x of (a, b) \<Rightarrow> Q a b} = {f a b |a b. (a, b) \<in> S \<and> Q a b}"
  by force

lemma implicit_names_plain:
  "TrimSpace ''tenant.branding.read'' = ''tenant.branding.read''"
  "TrimSpace ''tenant.personal_profile.self'' = ''tenant.personal_profile.self''"
  by (code_simp, code_simp)

text \<open>
  C35: the current grants, exactly. A caller who is not an active member of an active tenant with an active
  account has none. Every other caller has, among the permissions asked for, those of the active
  roles assigned to it now, each with the scope the role has, and the two every member holds:
  to read the branding and to see the own profile.\<close>

theorem current_grants_exact:
  assumes keys: "acc_keys db" "directory_keys db" and t: "t = TrimSpace t0" "t \<noteq> ''''" and u: "u = TrimSpace u0" "u \<noteq> ''''"
  shows "set (ResolveCurrentGrants t0 u0 perms db) =
    (if \<not> (\<exists>m \<in> set (adb_memberships db). mem_TenantID m = t \<and> mem_UserID m = u \<and> mem_Status m = MemberActive) \<or>
        \<not> (\<exists>x \<in> set (adb_tenants db). ten_ID x = t \<and> ten_Status x = TenantStatusActive) \<or>
        \<not> (\<exists>x \<in> set (adb_users db). usr_ID x = u \<and> usr_Status x = ''active'') then {}
     else {\<lparr>grant_Permission = pg_Permission g, grant_RoleID = rr_ID r, grant_Scope = pg_Scope g\<rparr> |r g.
             r \<in> set (adb_roles db) \<and> rr_TenantID r = t \<and> rr_Status r = RoleActive \<and>
             \<lparr>mr_TenantID = t, mr_UserID = u, mr_RoleID = rr_ID r\<rparr> \<in> set (adb_member_roles db) \<and>
             g \<in> set (adb_grants db) \<and> pg_TenantID g = t \<and> pg_RoleID g = rr_ID r \<and>
             (perms = [] \<or> pg_Permission g \<in> TrimSpace ` set perms - {''''})} \<union>
          (if perms = [] \<or> ''tenant.branding.read'' \<in> set perms
           then {\<lparr>grant_Permission = ''tenant.branding.read'', grant_RoleID = ''membership:'' @ t @ '':'' @ u, grant_Scope = DataScopeAll\<rparr>} else {}) \<union>
          (if perms = [] \<or> ''tenant.personal_profile.self'' \<in> set perms
           then {\<lparr>grant_Permission = ''tenant.personal_profile.self'', grant_RoleID = ''membership:'' @ t @ '':'' @ u, grant_Scope = DataScopeSelf\<rparr>} else {}))"
  (is "_ = (if ?dead then {} else ?G \<union> ?B \<union> ?P)")
proof -
  define ks where "ks = filter (\<lambda>v. v \<noteq> []) (map TrimSpace perms)"
  have dead: "?dead \<longleftrightarrow> \<not> live t u db" by (simp add: live_def active_member_def member_is_def)
  have tt: "TrimSpace t = t" "TrimSpace u = u" using t u by simp_all
  have ks: "set ks = TrimSpace ` set perms - {[]}" by (auto simp: ks_def)
  note unf = ResolveCurrentGrants_def Let_def ks_def [symmetric] t(1) [symmetric] u(1) [symmetric] currentGrantRequestsPermission_def resolveBrandingReadGrant_def
    resolvePersonalProfileSelfGrant_def tt implicit_grant_live [OF keys]
  have G: "(\<lambda>(r, g). \<lparr>grant_Permission = pg_Permission g, grant_RoleID = rr_ID r, grant_Scope = pg_Scope g\<rparr>) `
      {x \<in> set (live_grants t u db). case x of (r, g) \<Rightarrow> perms = [] \<or> pg_Permission g \<in> set ks} = ?G" if "live t u db"
    unfolding image_pairs set_live_grants ks using that by (intro Collect_cong ex_cong1) auto
  show ?thesis
  proof (cases "perms \<noteq> [] \<and> ks = []")
    case True
    then have blank: "TrimSpace p = []" if "p \<in> set perms" for p using that by (simp add: ks_def filter_empty_conv)
    have "''tenant.branding.read'' \<notin> set perms" "''tenant.personal_profile.self'' \<notin> set perms" using blank implicit_names_plain by force+
    moreover have "TrimSpace ` set perms - {''''} = {}" using blank by auto
    ultimately show ?thesis using True t(2) u(2) by (simp add: unf) blast
  next
    case False
    then have go: "(perms \<noteq> [] \<and> ks = []) = False" by blast
    have "set (ResolveCurrentGrants t0 u0 perms db) =
        (\<lambda>(r, g). \<lparr>grant_Permission = pg_Permission g, grant_RoleID = rr_ID r, grant_Scope = pg_Scope g\<rparr>) `
          {x \<in> set (live_grants t u db). case x of (r, g) \<Rightarrow> perms = [] \<or> pg_Permission g \<in> set ks} \<union>
        (if live t u db then ?B \<union> ?P else {})"
      unfolding unf go using t(2) u(2) by simp
    then show ?thesis using G unfolding dead by (cases "live t u db") (simp_all add: live_grants_empty Un_assoc)
  qed
qed

subsection \<open>A deactivated member has no access\<close>

lemma cas_deactivates:
  assumes keys: "acc_keys db" and cas: "member_cas t u v g db = Inr db'" and key: "keeps_member_key g" and st: "\<And>r. mem_Status (g r) \<noteq> MemberActive"
  shows "\<not> active_member t u (adb_memberships db')"
proof -
  have "length (filter (\<lambda>m. member_is t u m \<and> mem_Version m = v) (adb_memberships db)) = 1" by (rule member_cas_result(2) [OF cas])
  then have "filter (\<lambda>m. member_is t u m \<and> mem_Version m = v) (adb_memberships db) \<noteq> []" by auto
  then obtain row where "row \<in> set (adb_memberships db)" "member_is t u row" "mem_Version row = v" by (auto simp: filter_empty_conv)
  then have row: "member_at t u db = Some row" "mem_Version row = v" using member_at_row [OF keys] by auto
  have "mem_Status m \<noteq> MemberActive" if "m \<in> set (adb_memberships db')" "member_is t u m" for m
    unfolding cas_result_rows [OF keys cas key refl row that] using st by simp
  then show ?thesis by (auto simp: active_member_def)
qed

text \<open>
  C25: deactivation ends access at once. After a member was suspended, removed or has deleted the own
  membership, no permission is granted to it any more and no action has a business scope for it,
  whatever roles, policies and sites it still refers to.\<close>

theorem deactivated_member_has_no_access:
  assumes keys: "acc_keys db" and ctx: "trustedTenantID ctx = Inr (TrimSpace t)" and u: "TrimSpace u \<noteq> ''''" "TrimSpace t \<noteq> ''''" and p: "TrimSpace p \<noteq> ''''"
    and off: "SuspendTenantMember env ctx u v reason now db = Inr (m, db') \<or> RemoveTenantMember env ctx u v reason now db = Inr (m, db') \<or>
      CompleteTenantDeletion env u t v now db = Inr ((), db')"
  shows "ResolveCurrentGrants t u perms db' = [] \<and>
    (\<exists>sc. ResolveBusinessScope t u p now' db' = Inr sc \<and> \<not> ebs_All sc \<and> \<not> ebs_Self sc \<and> \<not> ebs_Sites sc \<and> ebs_PolicySiteIDs sc = [])"
proof -
  have "\<exists>g db1. member_cas (TrimSpace t) (TrimSpace u) v g db1 = Inr db' \<and> keeps_member_key g \<and> (\<forall>r. mem_Status (g r) \<noteq> MemberActive) \<and> acc_keys db1"
    using off
  proof (elim disjE)
    assume "SuspendTenantMember env ctx u v reason now db = Inr (m, db')"
    then obtain r' b where mut: "member_mutate env now ctx (TrimSpace u) v r' True b (Membership_Suspend now) db = Inr (m, db')"
      by (auto simp: SuspendTenantMember_def split: if_split_asm)
    show ?thesis
      using keys mut membership_ops_ids(2)
    proof (rule member_mutate_result)
      fix s cur ch g ss assume g: "trustedTenantID ctx = Inr s" "Membership_Suspend now cur = Inr ch"
        "member_cas s (TrimSpace u) v g (with_credentials ss (adb_api_tokens db) db) = Inr db'" "keeps_member_key g"
        "\<And>r. mem_Status (g r) = ms_Status ch"
      have "ms_Status ch \<noteq> MemberActive" using g(2) by (auto simp: Membership_Suspend_def split: if_split_asm)
      then show ?thesis using g ctx keeps_with_credentials(2) [OF keys] by (intro exI [of _ g] exI [of _ "with_credentials ss (adb_api_tokens db) db"]) simp
    qed
  next
    assume "RemoveTenantMember env ctx u v reason now db = Inr (m, db')"
    then show ?thesis
    proof (rule RemoveTenantMember_result)
      fix s g assume g: "trustedTenantID ctx = Inr s" "member_cas s (TrimSpace u) v g (removed_tables s (TrimSpace u) (v + 1) now db) = Inr db'"
        "keeps_member_key g" "\<And>r. mem_Status (g r) = MemberRemoved"
      have "acc_keys (removed_tables s (TrimSpace u) (v + 1) now db)" using acc_keysD [OF keys] by (intro acc_keysI) (simp_all add: removed_tables_def)
      then show ?thesis using g ctx by (intro exI [of _ g] exI [of _ "removed_tables s (TrimSpace u) (v + 1) now db"]) simp
    qed
  next
    assume "CompleteTenantDeletion env u t v now db = Inr ((), db')"
    then show ?thesis
    proof (rule CompleteTenantDeletion_result)
      fix t' u' g assume g: "t' = TrimSpace t" "u' = TrimSpace u" "member_cas t' u' v g (deleted_tables t' u' now db) = Inr db'" "keeps_member_key g"
        "\<And>r. mem_Status (g r) = MemberRemoved"
      have "acc_keys (deleted_tables t' u' now db)" using acc_keysD [OF keys] by (intro acc_keysI) (simp_all add: deleted_tables_def)
      then show ?thesis using g by (intro exI [of _ g] exI [of _ "deleted_tables t' u' now db"]) simp
    qed
  qed
  then obtain g db1 where g: "member_cas (TrimSpace t) (TrimSpace u) v g db1 = Inr db'" "keeps_member_key g" "\<And>r. mem_Status (g r) \<noteq> MemberActive" "acc_keys db1"
    by blast
  have "\<not> live (TrimSpace t) (TrimSpace u) db'" using cas_deactivates [OF g(4,1-3)] by (simp add: live_def)
  note none = live_memberships_empty [OF this] live_grants_empty [OF this]
  have "ResolveCurrentGrants t u perms db' = []"
    by (simp add: ResolveCurrentGrants_def Let_def resolveBrandingReadGrant_def resolvePersonalProfileSelfGrant_def implicit_grant_def none)
  moreover have "\<exists>sc. ResolveBusinessScope t u p now' db' = Inr sc \<and> \<not> ebs_All sc \<and> \<not> ebs_Self sc \<and> \<not> ebs_Sites sc \<and> ebs_PolicySiteIDs sc = []"
    using u p by (simp add: ResolveBusinessScope_def ResolveEffectiveBusinessScope_def none Let_def bind_result_def)
  ultimately show ?thesis by blast
qed

subsection \<open>The widest scope of a permission\<close>

definition scopes_of :: "Grant list \<Rightarrow> string \<Rightarrow> string list" where
  "scopes_of gs p = map (TrimSpace \<circ> grant_Scope) (filter (\<lambda>g. grant_Permission g = p) gs)"

lemma scopes_of_simps [simp]:
  "scopes_of [] p = []" "scopes_of (gs @ [g]) p = scopes_of gs p @ (if grant_Permission g = p then [TrimSpace (grant_Scope g)] else [])"
  by (simp_all add: scopes_of_def)

text \<open>What the loop holds after the grants \<open>gs\<close>: for each permission seen a scope of theirs of the highest rank.\<close>

definition best_after :: "Grant list \<Rightarrow> (string \<Rightarrow> string option) \<Rightarrow> string list \<Rightarrow> bool" where
  "best_after gs best keys \<longleftrightarrow> distinct keys \<and> set keys = grant_Permission ` set gs \<and>
     (\<forall>p. (best p = None \<longleftrightarrow> scopes_of gs p = []) \<and>
          (\<forall>s. best p = Some s \<longrightarrow> s \<in> set (scopes_of gs p) \<and> (\<forall>s' \<in> set (scopes_of gs p). policy_rank s' \<le> policy_rank s)))"

lemma policy_rank_Nil [simp]: "policy_rank [] = 0"
  by (simp add: policy_rank_def)

lemma best_scopes_inv:
  "best_after gs best keys \<Longrightarrow> best_scopes best keys hs = (best', keys') \<Longrightarrow> best_after (gs @ hs) best' keys'"
proof (induction hs arbitrary: gs best keys)
  case (Cons g hs)
  let ?s = "TrimSpace (grant_Scope g)" and ?p = "grant_Permission g"
  let ?held = "case best ?p of None \<Rightarrow> [] | Some s \<Rightarrow> s"
  let ?b1 = "if policy_rank ?s > policy_rank ?held then best(?p \<mapsto> ?s) else best"
  let ?b2 = "if ?b1 ?p = None then ?b1(?p \<mapsto> ?s) else ?b1"
  let ?k = "if ?p \<in> set keys then keys else ?p # keys"
  have go: "best_scopes ?b2 ?k hs = (best', keys')" using Cons.prems(2) by (simp add: Let_def)
  have "best_after (gs @ [g]) ?b2 ?k"
    unfolding best_after_def
  proof (intro conjI allI impI)
    fix p
    show "?b2 p = None \<longleftrightarrow> scopes_of (gs @ [g]) p = []"
      using Cons.prems(1) by (cases "p = ?p") (auto simp: best_after_def split: if_split_asm)
    fix s assume s: "?b2 p = Some s"
    have "s \<in> set (scopes_of (gs @ [g]) p) \<and> (\<forall>s' \<in> set (scopes_of (gs @ [g]) p). policy_rank s' \<le> policy_rank s)"
    proof (cases "p = ?p")
      case True
      have inv: "(best ?p = None) = (scopes_of gs ?p = [])" "best ?p = Some a \<Longrightarrow> a \<in> set (scopes_of gs ?p) \<and> (\<forall>s' \<in> set (scopes_of gs ?p). policy_rank s' \<le> policy_rank a)" for a
        using Cons.prems(1) unfolding best_after_def by blast+
      show ?thesis
      proof (cases "best ?p")
        case None
        then show ?thesis using s True inv(1) by (simp split: if_split_asm)
      next
        case (Some a)
        then show ?thesis using s True inv(2) [OF Some] by (auto split: if_split_asm intro: order_trans less_imp_le)
      qed
    next
      case False
      then show ?thesis using s Cons.prems(1) by (auto simp: best_after_def split: if_split_asm)
    qed
    then show "s \<in> set (scopes_of (gs @ [g]) p)" "\<forall>s' \<in> set (scopes_of (gs @ [g]) p). policy_rank s' \<le> policy_rank s" by auto
  qed (use Cons.prems(1) in \<open>auto simp: best_after_def\<close>)
  from Cons.IH [OF this go] show ?case by simp
qed simp

text \<open>
  The data policy shown for each permission is its widest grant. The permissions come in order, each once, and
  each with a scope that one of its grants has and that none of them exceeds; the sites are
  listed for the scope of sites only.\<close>

lemma data_policies_widest:
  "map cdp_Permission (effectiveDataPolicies gs sites) = sorted_list_of_set (grant_Permission ` set gs) \<and>
   (\<forall>d \<in> set (effectiveDataPolicies gs sites).
      (\<exists>g \<in> set gs. grant_Permission g = cdp_Permission d \<and> TrimSpace (grant_Scope g) = cdp_Scope d) \<and>
      (\<forall>g \<in> set gs. grant_Permission g = cdp_Permission d \<longrightarrow> policy_rank (TrimSpace (grant_Scope g)) \<le> policy_rank (cdp_Scope d)) \<and>
      cdp_SiteIDs d = (if cdp_Scope d = DataScopeSites then sites else []))"
proof -
  obtain best keys where b: "best_scopes (\<lambda>p. None) [] gs = (best, keys)" by (cases "best_scopes (\<lambda>p. None) [] gs")
  have "best_after [] (\<lambda>p. None) []" by (simp add: best_after_def)
  from best_scopes_inv [OF this b] have inv: "best_after gs best keys" by simp
  have "sort keys = sorted_list_of_set (grant_Permission ` set gs)"
    using inv sorted_list_of_set_sort_remdups [of keys] by (simp add: best_after_def distinct_remdups_id)
  moreover have "(\<exists>g \<in> set gs. grant_Permission g = p \<and> TrimSpace (grant_Scope g) = the (best p)) \<and>
      (\<forall>g \<in> set gs. grant_Permission g = p \<longrightarrow> policy_rank (TrimSpace (grant_Scope g)) \<le> policy_rank (the (best p)))" if "p \<in> set keys" for p
  proof -
    have "scopes_of gs p \<noteq> []" using that inv by (auto simp: best_after_def scopes_of_def filter_empty_conv)
    then obtain s where "best p = Some s" using inv by (auto simp: best_after_def)
    then have s: "the (best p) \<in> set (scopes_of gs p)" "\<forall>s' \<in> set (scopes_of gs p). policy_rank s' \<le> policy_rank (the (best p))"
      using inv by (simp_all add: best_after_def)
    then show ?thesis by (auto simp: scopes_of_def)
  qed
  moreover have "set keys = set (sort keys)" by simp
  ultimately show ?thesis
    unfolding effectiveDataPolicies_def b Let_def prod.case by (intro conjI ballI) (auto simp: comp_def simp del: set_sort)
qed

subsection \<open>Witnesses\<close>

definition ex_policy :: DataPolicy where
  "ex_policy = \<lparr>pol_ID = ''p1'', pol_TenantID = ''t1'', pol_Name = '''', pol_Status = PolicyActive, pol_SiteIDs = [''s2'', ''s3''], pol_Version = 1,
     pol_NotBefore = None, pol_ExpiresAt = Some 50, pol_CreatedAt = 0, pol_UpdatedAt = 0\<rparr>"

definition ex_scope_grants :: "BusinessScopeGrant list" where
  "ex_scope_grants = [\<lparr>bsg_Scope = DataScopeSites, bsg_PolicyID = '''', bsg_Policy = None\<rparr>, \<lparr>bsg_Scope = DataScopeSelf, bsg_PolicyID = ''p1'', bsg_Policy = Some ex_policy\<rparr>]"

lemma ex_sites: "normalizedBusinessSites ['' s2'', ''s1''] = [''s1'', ''s2'']"
  by code_simp

lemma ex_policy_effective: "fst (EffectiveAt 9 ex_policy)"
  by code_simp


lemma ex_team_directory: "directory_keys ex_team"
  by code_simp

theorem current_grants_exact_witness:
  "\<lparr>grant_Permission = ''order.read'', grant_RoleID = ''r1'', grant_Scope = DataScopeSelf\<rparr> \<in>
     set (ResolveCurrentGrants '' t1'' ''u2'' ['' order.read'', ''tenant.branding.read''] ex_team)"
proof -
  let ?g = "ex_grant ''t1'' ''r1'' ''order.read'' DataScopeSelf" and ?r = "ex_role_row ''t1'' ''r1'' ''clerk''"
  have t: "''t1'' = TrimSpace '' t1''" by code_simp
  have u: "''u2'' = TrimSpace ''u2''" by code_simp
  have ne: "''t1'' \<noteq> ''''" "''u2'' \<noteq> ''''" by simp_all
  note eq = current_grants_exact [OF ex_team_keys ex_team_directory t ne(1) u ne(2), of "['' order.read'', ''tenant.branding.read'']"]
  have "\<exists>m \<in> set (adb_memberships ex_team). mem_TenantID m = ''t1'' \<and> mem_UserID m = ''u2'' \<and> mem_Status m = MemberActive" by code_simp
  moreover have "\<exists>x \<in> set (adb_tenants ex_team). ten_ID x = ''t1'' \<and> ten_Status x = TenantStatusActive" by code_simp
  moreover have "\<exists>x \<in> set (adb_users ex_team). usr_ID x = ''u2'' \<and> usr_Status x = ''active''" by code_simp
  moreover have "TrimSpace '' order.read'' = ''order.read''" by code_simp
  then have "?r \<in> set (adb_roles ex_team) \<and> rr_TenantID ?r = ''t1'' \<and> rr_Status ?r = RoleActive \<and>
      \<lparr>mr_TenantID = ''t1'', mr_UserID = ''u2'', mr_RoleID = rr_ID ?r\<rparr> \<in> set (adb_member_roles ex_team) \<and> ?g \<in> set (adb_grants ex_team) \<and> pg_TenantID ?g = ''t1'' \<and>
      pg_RoleID ?g = rr_ID ?r \<and> pg_Permission ?g \<in> TrimSpace ` set ['' order.read'', ''tenant.branding.read''] - {''''}"
    by (simp add: ex_team_def ex_role_row_def ex_grant_def)
  moreover have "\<lparr>grant_Permission = pg_Permission ?g, grant_RoleID = rr_ID ?r, grant_Scope = pg_Scope ?g\<rparr> =
      \<lparr>grant_Permission = ''order.read'', grant_RoleID = ''r1'', grant_Scope = DataScopeSelf\<rparr>" by (simp add: ex_role_row_def ex_grant_def)
  ultimately show ?thesis unfolding eq by (simp only: if_False if_True simp_thms) (rule UnI1, rule UnI1, unfold mem_Collect_eq, metis)
qed

theorem deactivated_member_has_no_access_witness:
  "\<exists>m db'. SuspendTenantMember ex_env (ex_caller ''t1'' ''u1'') ''u2'' 1 '''' 9 ex_team = Inr (m, db') \<and> ResolveCurrentGrants ''t1'' ''u2'' [] db' = []"
proof -
  let ?s = "SuspendTenantMember ex_env (ex_caller ''t1'' ''u1'') ''u2'' 1 '''' 9 ex_team"
  have "isl ?s = False" by code_simp
  then obtain m db' where s: "?s = Inr (m, db')" by (cases ?s) auto
  have t: "TrimSpace ''t1'' = ''t1''" by code_simp
  have u: "TrimSpace ''u2'' \<noteq> ''''" by code_simp
  have t': "TrimSpace ''t1'' \<noteq> ''''" by code_simp
  have p: "TrimSpace ''order.read'' \<noteq> ''''" by code_simp
  have caller: "trustedTenantID (ex_caller ''t1'' ''u1'') = Inr (TrimSpace ''t1'')" using t by (simp add: trustedTenantID_def ex_caller_def)
  from deactivated_member_has_no_access [OF ex_team_keys caller u t' p disjI1 [OF s], of "[]"] s show ?thesis by blast
qed

lemma data_policies_widest_witness:
  "map cdp_Permission (effectiveDataPolicies [\<lparr>grant_Permission = ''b'', grant_RoleID = ''r1'', grant_Scope = DataScopeSelf\<rparr>,
     \<lparr>grant_Permission = ''a'', grant_RoleID = ''r1'', grant_Scope = DataScopeAll\<rparr>, \<lparr>grant_Permission = ''b'', grant_RoleID = ''r2'', grant_Scope = DataScopeSites\<rparr>] [''s1'']) = [''a'', ''b'']"
proof -
  have "sorted_list_of_set {''b'', ''a''} = [''a'', ''b'']" by (simp add: sorted_list_of_set_insert_remove) 
  then show ?thesis using data_policies_widest [of "[\<lparr>grant_Permission = ''b'', grant_RoleID = ''r1'', grant_Scope = DataScopeSelf\<rparr>,
     \<lparr>grant_Permission = ''a'', grant_RoleID = ''r1'', grant_Scope = DataScopeAll\<rparr>, \<lparr>grant_Permission = ''b'', grant_RoleID = ''r2'', grant_Scope = DataScopeSites\<rparr>]" "[''s1'']"]
    by (simp add: insert_commute)
qed

end
