(* ===== verification/Departments.thy ===== *)
theory Departments
  imports Business_Scope
begin

section \<open>Departments\<close>

text \<open>
  The department aggregate (\<open>internal/access/domain/department.go\<close>), its repository
  (\<open>infrastructure/persistence/department.go\<close>) and the service over it
  (\<open>application/tenant_department_management.go\<close>). A row has the columns of the aggregate, so one record serves
  both; the table is a list of rows. The leader of a department is checked against the membership table of \<open>AccDB\<close>,
  which no department operation writes. \<open>lower\<close> is the Unicode case mapping behind \<open>strings.ToLower\<close>, and the
  identifier of a new department is the random value of this run (\<open>newMemberUserID\<close>): nothing is assumed of either.

  A service call is one transaction: on an error the table is as it was. A change is composed of what it reads and checks
  (\<open>department_prepare\<close>) and of the write it ends with (\<open>Department_Store\<close>); \<open>run_departments\<close> executes calls one after the
  other, and \<open>department_history\<close> interleaves them there. Strings are compared exactly, where the database applies the collation of
  the column, and a version at its maximum comes round in \<open>Department_Store\<close>, where the database refuses the statement. The mapping of a department to the generated response message is left out.
\<close>

subsection \<open>The aggregate\<close>

abbreviation DepartmentActive :: string where "DepartmentActive \<equiv> ''active''"
abbreviation DepartmentDisabled :: string where "DepartmentDisabled \<equiv> ''disabled''"

datatype dep_error =
    Dep_Invalid | Dep_InvalidMove | Dep_InvalidStatus
  | Dep_NotFound | Dep_Conflict | Dep_Exists | Dep_Hierarchy | Dep_Leader | Dep_Assignment
  | Dep_InvalidRequest
  | Dep_VersionRequired \<comment> \<open>the repository's message for an update without a version\<close>
  | Dep_Access acc_error

record Department =
  dt_ID :: string
  dt_TenantID :: string
  dt_Name :: string
  dt_ParentID :: string
  dt_LeaderUserID :: string
  dt_Email :: string
  dt_Phone :: string
  dt_Status :: string
  dt_Sort :: int
  dt_Version :: uint64
  dt_CreatedAt :: time
  dt_UpdatedAt :: time

text \<open>The fields a request gives, as the service passes them on.\<close>

record DepartmentForm =
  df_Name :: string
  df_ParentID :: string
  df_LeaderUserID :: string
  df_Email :: string
  df_Phone :: string
  df_Sort :: int

definition Department_Update :: "(string \<Rightarrow> string) \<Rightarrow> DepartmentForm \<Rightarrow> time \<Rightarrow> Department \<Rightarrow> dep_error + Department" where
  "Department_Update lower q now d =
     (let name = TrimSpace (df_Name q); parentID = TrimSpace (df_ParentID q); leader = TrimSpace (df_LeaderUserID q);
          email = TrimSpace (lower (df_Email q)); phone = TrimSpace (df_Phone q)
      in if name = '''' \<or> rune_count name > 100 \<or> rune_count parentID > 64 \<or> rune_count leader > 64 \<or> rune_count email > 320 \<or> rune_count phone > 40
         then Inl Dep_Invalid
         else if parentID \<noteq> '''' \<and> parentID = dt_ID d then Inl Dep_InvalidMove
         else Inr (d\<lparr>dt_Name := name, dt_ParentID := parentID, dt_LeaderUserID := leader, dt_Email := email, dt_Phone := phone,
                     dt_Sort := df_Sort q, dt_UpdatedAt := now\<rparr>))"

definition NewDepartment :: "(string \<Rightarrow> string) \<Rightarrow> string \<Rightarrow> string \<Rightarrow> DepartmentForm \<Rightarrow> time \<Rightarrow> dep_error + Department" where
  "NewDepartment lower i tenantID q now =
     bind_result (Department_Update lower q now
         \<lparr>dt_ID = TrimSpace i, dt_TenantID = TrimSpace tenantID, dt_Name = '''', dt_ParentID = '''', dt_LeaderUserID = '''', dt_Email = '''',
          dt_Phone = '''', dt_Status = DepartmentActive, dt_Sort = 0, dt_Version = 1, dt_CreatedAt = now, dt_UpdatedAt = now\<rparr>)
       (\<lambda>d. if dt_ID d = '''' \<or> dt_TenantID d = '''' then Inl Dep_Invalid else Inr d)"

definition Department_Disable :: "time \<Rightarrow> Department \<Rightarrow> dep_error + Department" where
  "Department_Disable now d =
     (if dt_Status d \<noteq> DepartmentActive then Inl Dep_InvalidStatus
      else Inr (d\<lparr>dt_Status := DepartmentDisabled, dt_UpdatedAt := now\<rparr>))"

definition Department_Enable :: "time \<Rightarrow> Department \<Rightarrow> dep_error + Department" where
  "Department_Enable now d =
     (if dt_Status d \<noteq> DepartmentDisabled then Inl Dep_InvalidStatus
      else Inr (d\<lparr>dt_Status := DepartmentActive, dt_UpdatedAt := now\<rparr>))"

subsection \<open>The repository\<close>

type_synonym dep_table = "Department list"

definition dep_is :: "string \<Rightarrow> string \<Rightarrow> Department \<Rightarrow> bool" where
  "dep_is tenantID departmentID r \<longleftrightarrow> dt_TenantID r = tenantID \<and> dt_ID r = departmentID"

text \<open>The primary key is the identifier, and a tenant uses a name once.\<close>

definition dep_clash :: "Department \<Rightarrow> Department \<Rightarrow> bool" where
  "dep_clash d r \<longleftrightarrow> dt_ID r = dt_ID d \<or> dt_TenantID r = dt_TenantID d \<and> dt_Name r = dt_Name d"

definition Department_Create :: "Department \<Rightarrow> dep_table \<Rightarrow> dep_error + dep_table" where
  "Department_Create d rows = (if \<exists>r \<in> set rows. dep_clash d r then Inl Dep_Exists else Inr (rows @ [d]))"

definition Department_Get :: "string \<Rightarrow> string \<Rightarrow> dep_table \<Rightarrow> dep_error + Department" where
  "Department_Get tenantID departmentID rows =
     (case find (dep_is (TrimSpace tenantID) (TrimSpace departmentID)) rows of None \<Rightarrow> Inl Dep_NotFound | Some r \<Rightarrow> Inr r)"

definition Department_List :: "string \<Rightarrow> dep_table \<Rightarrow> Department list" where
  "Department_List tenantID rows =
     sort_key (\<lambda>r. (dt_Sort r, dt_Name r, dt_ID r)) (filter (\<lambda>r. dt_TenantID r = TrimSpace tenantID) rows)"

definition Department_classifyWrite :: "string \<Rightarrow> string \<Rightarrow> dep_table \<Rightarrow> dep_error" where
  "Department_classifyWrite tenantID departmentID rows =
     (if length (filter (dep_is tenantID departmentID) rows) = 0 then Dep_NotFound else Dep_Conflict)"

text \<open>
  The conditional update of the row of a version. The unique index on the name refuses the statement when another
  row of the tenant has the name already.
\<close>

definition Department_Store :: "Department \<Rightarrow> uint64 \<Rightarrow> dep_table \<Rightarrow> dep_error + (Department \<times> dep_table)" where
  "Department_Store d expected rows =
     (if expected = 0 then Inl Dep_VersionRequired
      else let hit = (\<lambda>r. dep_is (dt_TenantID d) (dt_ID d) r \<and> dt_Version r = expected)
        in if (\<exists>r \<in> set rows. hit r) \<and> (\<exists>r \<in> set rows. dt_ID r \<noteq> dt_ID d \<and> dt_TenantID r = dt_TenantID d \<and> dt_Name r = dt_Name d)
           then Inl Dep_Exists
           else if length (filter hit rows) \<noteq> 1 then Inl (Department_classifyWrite (dt_TenantID d) (dt_ID d) rows)
           else Inr (d\<lparr>dt_Version := expected + 1\<rparr>,
             update_where hit (\<lambda>r. r\<lparr>dt_Name := dt_Name d, dt_ParentID := dt_ParentID d, dt_LeaderUserID := dt_LeaderUserID d, dt_Email := dt_Email d,
               dt_Phone := dt_Phone d, dt_Status := dt_Status d, dt_Sort := dt_Sort d, dt_Version := dt_Version r + 1, dt_UpdatedAt := dt_UpdatedAt d\<rparr>) rows))"

text \<open>
  The loop of \<open>ValidateParent\<close>. It ends because an iteration that goes on has found the row of \<open>current\<close>, an
  identifier of the table that was not visited before.
\<close>

function walk_parents :: "dep_table \<Rightarrow> string \<Rightarrow> string \<Rightarrow> string list \<Rightarrow> string \<Rightarrow> dep_error err" where
  "walk_parents rows tenantID departmentID visited current =
     (if current = '''' then None
      else if current \<in> set visited \<or> current = departmentID then Some Dep_Hierarchy
      else case find (dep_is tenantID current) rows of
          None \<Rightarrow> Some Dep_Hierarchy
        | Some row \<Rightarrow> if dt_Status row \<noteq> DepartmentActive then Some Dep_Hierarchy
                      else walk_parents rows tenantID departmentID (current # visited) (dt_ParentID row))"
  by pat_completeness auto

termination
proof (relation "measure (\<lambda>(rows, t, d, visited, current). card (dt_ID ` set rows - set visited))", simp, goal_cases)
  case (1 rows t d visited current row)
  then have "current \<in> dt_ID ` set rows - set visited" by (auto simp: find_Some_iff dep_is_def)
  then have "dt_ID ` set rows - insert current (set visited) \<subset> dt_ID ` set rows - set visited" by blast
  then show ?case by (simp add: psubset_card_mono)
qed

declare walk_parents.simps [simp del]

definition ValidateParent :: "string \<Rightarrow> string \<Rightarrow> string \<Rightarrow> dep_table \<Rightarrow> dep_error err" where
  "ValidateParent tenantID departmentID parentID rows =
     (let parentID = TrimSpace parentID; departmentID = TrimSpace departmentID
      in if parentID = '''' then None
         else if parentID = departmentID then Some Dep_Hierarchy
         else walk_parents rows tenantID departmentID [] parentID)"

definition ValidateLeader :: "string \<Rightarrow> string \<Rightarrow> AccDB \<Rightarrow> dep_error err" where
  "ValidateLeader tenantID userID db =
     (let userID = TrimSpace userID
      in if userID = '''' then None
         else if \<exists>m \<in> set (adb_memberships db). mem_TenantID m = tenantID \<and> mem_UserID m = userID \<and> mem_Status m = MemberActive
         then None else Some Dep_Leader)"

definition AssertMemberAssignmentAllowed :: "string \<Rightarrow> string \<Rightarrow> dep_table \<Rightarrow> dep_error err" where
  "AssertMemberAssignmentAllowed tenantID departmentID rows =
     (let departmentID = TrimSpace departmentID
      in if departmentID = '''' then None
         else case find (\<lambda>r. dep_is tenantID departmentID r \<and> dt_Status r = DepartmentActive) rows of None \<Rightarrow> Some Dep_Assignment | Some _ \<Rightarrow> None)"

definition OrganizationPermissions :: "string list" where
  "OrganizationPermissions = [''tenant.organization.read'', ''tenant.organization.manage'']"

text \<open>The migration gives every owner role the two permissions; a grant that is there already is left as it is.\<close>

definition grant_or_keep :: "permissionGrantRecord \<Rightarrow> permissionGrantRecord list \<Rightarrow> permissionGrantRecord list" where
  "grant_or_keep g rows = (case insert_grant g rows of Inl e \<Rightarrow> rows | Inr rows' \<Rightarrow> rows')"

definition AutoMigrateTenantDepartment :: "AccDB \<Rightarrow> AccDB" where
  "AutoMigrateTenantDepartment db =
     db\<lparr>adb_grants := fold (\<lambda>role. fold (\<lambda>p. grant_or_keep \<lparr>pg_TenantID = rr_TenantID role, pg_RoleID = rr_ID role, pg_Permission = p, pg_Scope = DataScopeAll\<rparr>)
         OrganizationPermissions) (filter (\<lambda>r. rr_Name r = OwnerRoleName) (adb_roles db)) (adb_grants db)\<rparr>"

lemma fold_concat_nested: "fold f (concat (map (\<lambda>x. map (g x) ys) xs)) = fold (\<lambda>x. fold (\<lambda>y. f (g x y)) ys) xs"
  by (induction xs) (simp_all add: fold_map comp_def)

text \<open>The migration may run again: after the first time it changes nothing.\<close>

lemma grant_or_keep_present: "h \<in> set rows \<Longrightarrow> grant_key h = grant_key g \<Longrightarrow> grant_or_keep g rows = rows"
  by (auto simp: grant_or_keep_def insert_grant_def grant_is_def grant_key_def)

lemma grant_or_keep_keys: "grant_key ` set (grant_or_keep g rows) = insert (grant_key g) (grant_key ` set rows)"
proof (cases "\<exists>h \<in> set rows. grant_key h = grant_key g")
  case True
  then obtain h where "h \<in> set rows" "grant_key h = grant_key g" by blast
  then show ?thesis using imageI [of h "set rows" grant_key] by (simp add: grant_or_keep_present insert_absorb)
next
  case False
  then have "grant_or_keep g rows = rows @ [g]" by (auto simp: grant_or_keep_def insert_grant_def grant_is_def grant_key_def)
  then show ?thesis by simp
qed

lemma fold_grant_or_keep_keys: "grant_key ` set (fold grant_or_keep gs rows) = grant_key ` set gs \<union> grant_key ` set rows"
  by (induction gs arbitrary: rows) (auto simp: grant_or_keep_keys)

lemma fold_grant_or_keep_done: "grant_key ` set gs \<subseteq> grant_key ` set rows \<Longrightarrow> fold grant_or_keep gs rows = rows"
proof (induction gs)
  case (Cons g gs)
  then obtain h where "h \<in> set rows" "grant_key h = grant_key g" by auto
  then show ?case using Cons by (simp add: grant_or_keep_present)
qed simp

definition organization_grants :: "AccDB \<Rightarrow> permissionGrantRecord list" where
  "organization_grants db = concat (map (\<lambda>role. map (\<lambda>p. \<lparr>pg_TenantID = rr_TenantID role, pg_RoleID = rr_ID role, pg_Permission = p, pg_Scope = DataScopeAll\<rparr>)
     OrganizationPermissions) (filter (\<lambda>r. rr_Name r = OwnerRoleName) (adb_roles db)))"

lemma AutoMigrateTenantDepartment_fold:
  "AutoMigrateTenantDepartment db = db\<lparr>adb_grants := fold grant_or_keep (organization_grants db) (adb_grants db)\<rparr>"
  by (simp add: AutoMigrateTenantDepartment_def organization_grants_def fold_concat_nested)

lemma AutoMigrateTenantDepartment_idem: "AutoMigrateTenantDepartment (AutoMigrateTenantDepartment db) = AutoMigrateTenantDepartment db"
  by (simp add: AutoMigrateTenantDepartment_fold organization_grants_def fold_grant_or_keep_done fold_grant_or_keep_keys)

subsection \<open>The service\<close>

definition dep_tenant :: "Principal option \<Rightarrow> dep_error + string" where
  "dep_tenant ctx = (case trustedTenantID ctx of Inl e \<Rightarrow> Inl (Dep_Access e) | Inr t \<Rightarrow> Inr t)"

definition CreateTenantDepartment :: "(string \<Rightarrow> string) \<Rightarrow> Principal option \<Rightarrow> string \<Rightarrow> DepartmentForm \<Rightarrow> time \<Rightarrow> AccDB \<Rightarrow> dep_table
    \<Rightarrow> dep_error + (Department \<times> dep_table)" where
  "CreateTenantDepartment lower ctx newID q now db rows =
     (if TrimSpace (df_Name q) = '''' then Inl Dep_InvalidRequest
      else bind_result (dep_tenant ctx) (\<lambda>tenantID.
        guard (ValidateParent tenantID newID (df_ParentID q) rows)
        (guard (ValidateLeader tenantID (df_LeaderUserID q) db)
        (bind_result (NewDepartment lower newID tenantID q now) (\<lambda>value.
         bind_result (Department_Create value rows) (\<lambda>rows'. Inr (value, rows')))))))"

definition GetTenantDepartment :: "Principal option \<Rightarrow> string \<Rightarrow> dep_table \<Rightarrow> dep_error + Department" where
  "GetTenantDepartment ctx departmentID rows =
     (if TrimSpace departmentID = '''' then Inl Dep_InvalidRequest
      else bind_result (dep_tenant ctx) (\<lambda>tenantID. Department_Get tenantID (TrimSpace departmentID) rows))"

definition ListTenantDepartments :: "Principal option \<Rightarrow> dep_table \<Rightarrow> dep_error + Department list" where
  "ListTenantDepartments ctx rows = bind_result (dep_tenant ctx) (\<lambda>tenantID. Inr (Department_List tenantID rows))"

text \<open>\<open>mutate\<close>: what a call reads and checks, and the write it ends with.\<close>

definition department_prepare :: "Principal option \<Rightarrow> string \<Rightarrow> uint64 \<Rightarrow> (Department \<Rightarrow> dep_error + Department) \<Rightarrow> dep_table \<Rightarrow> dep_error + Department" where
  "department_prepare ctx departmentID expected f rows =
     bind_result (dep_tenant ctx) (\<lambda>tenantID.
     bind_result (Department_Get tenantID (TrimSpace departmentID) rows) (\<lambda>current.
     if dt_Version current \<noteq> expected then Inl Dep_Conflict else f current))"

definition department_mutate :: "Principal option \<Rightarrow> string \<Rightarrow> uint64 \<Rightarrow> (Department \<Rightarrow> dep_error + Department) \<Rightarrow> dep_table
    \<Rightarrow> dep_error + (Department \<times> dep_table)" where
  "department_mutate ctx departmentID expected f rows =
     bind_result (department_prepare ctx departmentID expected f rows) (\<lambda>d. Department_Store d expected rows)"

text \<open>What \<open>UpdateTenantDepartment\<close> hands to \<open>mutate\<close>: the two checks on the tables it reads, then the aggregate's \<open>Update\<close>.\<close>

definition department_change :: "(string \<Rightarrow> string) \<Rightarrow> DepartmentForm \<Rightarrow> time \<Rightarrow> AccDB \<Rightarrow> dep_table \<Rightarrow> Department \<Rightarrow> dep_error + Department" where
  "department_change lower q now db rows d =
     guard (ValidateParent (dt_TenantID d) (dt_ID d) (df_ParentID q) rows)
     (guard (ValidateLeader (dt_TenantID d) (df_LeaderUserID q) db) (Department_Update lower q now d))"

definition UpdateTenantDepartment :: "(string \<Rightarrow> string) \<Rightarrow> Principal option \<Rightarrow> string \<Rightarrow> uint64 \<Rightarrow> DepartmentForm \<Rightarrow> time \<Rightarrow> AccDB \<Rightarrow> dep_table
    \<Rightarrow> dep_error + (Department \<times> dep_table)" where
  "UpdateTenantDepartment lower ctx departmentID version q now db rows =
     (if TrimSpace departmentID = '''' \<or> TrimSpace (df_Name q) = '''' \<or> version = 0 then Inl Dep_InvalidRequest
      else department_mutate ctx departmentID version (department_change lower q now db rows) rows)"

definition EnableTenantDepartment :: "Principal option \<Rightarrow> string \<Rightarrow> uint64 \<Rightarrow> time \<Rightarrow> dep_table \<Rightarrow> dep_error + (Department \<times> dep_table)" where
  "EnableTenantDepartment ctx departmentID version now rows =
     (if TrimSpace departmentID = '''' \<or> version = 0 then Inl Dep_InvalidRequest
      else department_mutate ctx departmentID version (Department_Enable now) rows)"

definition DisableTenantDepartment :: "Principal option \<Rightarrow> string \<Rightarrow> uint64 \<Rightarrow> time \<Rightarrow> dep_table \<Rightarrow> dep_error + (Department \<times> dep_table)" where
  "DisableTenantDepartment ctx departmentID version now rows =
     (if TrimSpace departmentID = '''' \<or> version = 0 then Inl Dep_InvalidRequest
      else department_mutate ctx departmentID version (Department_Disable now) rows)"

definition AssertTenantMemberDepartmentAssignmentAllowed :: "Principal option \<Rightarrow> string \<Rightarrow> dep_table \<Rightarrow> dep_error err" where
  "AssertTenantMemberDepartmentAssignmentAllowed ctx departmentID rows =
     (case dep_tenant ctx of Inl e \<Rightarrow> Some e | Inr tenantID \<Rightarrow> AssertMemberAssignmentAllowed tenantID departmentID rows)"

subsection \<open>The hierarchy\<close>

text \<open>The edges from a department of a tenant to its parent.\<close>

definition parent_of :: "dep_table \<Rightarrow> string \<Rightarrow> (string \<times> string) set" where
  "parent_of rows t = {(dt_ID r, dt_ParentID r) | r. r \<in> set rows \<and> dt_TenantID r = t \<and> dt_ParentID r \<noteq> ''''}"

lemma parent_of_iff: "(c, p) \<in> parent_of rows t \<longleftrightarrow> (\<exists>r \<in> set rows. dt_ID r = c \<and> dt_ParentID r = p \<and> dt_TenantID r = t \<and> p \<noteq> [])"
  by (auto simp: parent_of_def)

definition dep_key :: "Department \<Rightarrow> string \<times> string" where
  "dep_key r = (dt_TenantID r, dt_ID r)"

definition dep_name_key :: "Department \<Rightarrow> string \<times> string" where
  "dep_name_key r = (dt_TenantID r, dt_Name r)"

text \<open>The keys of the table, with the form of the identifiers that its rows have.\<close>

definition dep_keys :: "dep_table \<Rightarrow> bool" where
  "dep_keys rows \<longleftrightarrow> distinct (map dt_ID rows) \<and> distinct (map dep_name_key rows) \<and>
     (\<forall>r \<in> set rows. dt_ID r \<noteq> '''' \<and> TrimSpace (dt_ID r) = dt_ID r \<and> TrimSpace (dt_TenantID r) = dt_TenantID r)"

text \<open>A forest per tenant: a parent is a department of the same tenant, and no department is above itself.\<close>

definition dep_forest :: "dep_table \<Rightarrow> bool" where
  "dep_forest rows \<longleftrightarrow> dep_keys rows \<and> (\<forall>r \<in> set rows. dt_ParentID r = '''' \<or> (dt_TenantID r, dt_ParentID r) \<in> dep_key ` set rows) \<and>
     (\<forall>t. acyclic (parent_of rows t))"

lemma dep_forestD:
  assumes "dep_forest rows"
  shows "dep_keys rows" "distinct (map dt_ID rows)" "distinct (map dep_name_key rows)"
    "r \<in> set rows \<Longrightarrow> dt_ID r \<noteq> []" "r \<in> set rows \<Longrightarrow> TrimSpace (dt_ID r) = dt_ID r" "r \<in> set rows \<Longrightarrow> TrimSpace (dt_TenantID r) = dt_TenantID r"
    "r \<in> set rows \<Longrightarrow> dt_ParentID r = [] \<or> (dt_TenantID r, dt_ParentID r) \<in> dep_key ` set rows" "acyclic (parent_of rows t)"
  using assms by (simp_all add: dep_forest_def dep_keys_def)

lemma dep_row_unique: "distinct (map dt_ID rows) \<Longrightarrow> r \<in> set rows \<Longrightarrow> r' \<in> set rows \<Longrightarrow> dt_ID r = dt_ID r' \<Longrightarrow> r = r'"
  by (auto simp: distinct_map inj_on_def)

lemma find_dep_iff:
  assumes "distinct (map dt_ID rows)"
  shows "find (dep_is t i) rows = Some r \<longleftrightarrow> r \<in> set rows \<and> dep_is t i r"
proof
  assume "find (dep_is t i) rows = Some r"
  then show "r \<in> set rows \<and> dep_is t i r" by (auto simp: find_Some_iff)
next
  assume r: "r \<in> set rows \<and> dep_is t i r"
  then obtain r' where r': "find (dep_is t i) rows = Some r'" by (cases "find (dep_is t i) rows") (auto simp: find_None_iff)
  then have "r' \<in> set rows \<and> dep_is t i r'" by (auto simp: find_Some_iff)
  then show "find (dep_is t i) rows = Some r" using r r' dep_row_unique [OF assms, of r r'] by (simp add: dep_is_def)
qed

lemma parent_of_step:
  assumes "distinct (map dt_ID rows)" "find (dep_is t c) rows = Some r"
  shows "(c, p) \<in> parent_of rows t \<longleftrightarrow> p = dt_ParentID r \<and> p \<noteq> []"
  using assms dep_row_unique [OF assms(1), of r] by (auto simp: find_dep_iff [OF assms(1)] parent_of_def dep_is_def)

text \<open>An active department of the tenant.\<close>

definition dep_active :: "dep_table \<Rightarrow> string \<Rightarrow> string \<Rightarrow> bool" where
  "dep_active rows t i \<longleftrightarrow> (\<exists>r \<in> set rows. dep_is t i r \<and> dt_Status r = DepartmentActive)"

lemma dep_active_find:
  assumes "distinct (map dt_ID rows)"
  shows "dep_active rows t i \<longleftrightarrow> (\<exists>r. find (dep_is t i) rows = Some r \<and> dt_Status r = DepartmentActive)"
  by (auto simp: dep_active_def find_dep_iff [OF assms])

subsection \<open>The walk to the root\<close>

lemma walk_parents_sound:
  "distinct (map dt_ID rows) \<Longrightarrow> walk_parents rows t d visited c = None \<Longrightarrow> c \<noteq> [] \<Longrightarrow> (c, a) \<in> (parent_of rows t)\<^sup>* \<Longrightarrow> a \<noteq> d \<and> dep_active rows t a"
proof (induction rows t d visited c rule: walk_parents.induct)
  case (1 rows t d visited c)
  obtain r where r: "find (dep_is t c) rows = Some r" "dt_Status r = DepartmentActive" "c \<noteq> d" "c \<notin> set visited"
      "walk_parents rows t d (c # visited) (dt_ParentID r) = None"
    using 1(3,4) by (subst (asm) walk_parents.simps) (auto split: if_split_asm option.split_asm)
  show ?case
  proof (cases "c = a")
    case True
    then show ?thesis using r(1,2,3) 1 by (auto simp: dep_active_def find_Some_iff)
  next
    case False
    then obtain p where "(c, p) \<in> parent_of rows t" "(p, a) \<in> (parent_of rows t)\<^sup>*" using 1(5) by (meson converse_rtranclE)
    then show ?thesis using 1(1) r parent_of_step [OF 1(2) r(1), of p] 1 by auto
  qed
qed

lemma walk_parents_complete:
  "distinct (map dt_ID rows) \<Longrightarrow> acyclic (parent_of rows t) \<Longrightarrow> \<forall>v \<in> set visited. (v, c) \<in> (parent_of rows t)\<^sup>+ \<Longrightarrow>
   (\<And>a. (c, a) \<in> (parent_of rows t)\<^sup>* \<Longrightarrow> a \<noteq> d \<and> dep_active rows t a) \<Longrightarrow> walk_parents rows t d visited c = None"
proof (induction rows t d visited c rule: walk_parents.induct)
  case (1 rows t d visited c)
  have c: "c \<noteq> d" "dep_active rows t c" using 1(5) [of c] by simp_all
  obtain r where r: "find (dep_is t c) rows = Some r" "dt_Status r = DepartmentActive" using c(2) by (auto simp: dep_active_find [OF 1(2)])
  have new: "c \<notin> set visited" using 1(3,4) by (auto simp: acyclic_def)
  have "walk_parents rows t d (c # visited) (dt_ParentID r) = None" if "c \<noteq> []"
  proof (cases "dt_ParentID r = []")
    case True
    then show ?thesis by (simp add: walk_parents.simps)
  next
    case False
    then have step: "(c, dt_ParentID r) \<in> parent_of rows t" using parent_of_step [OF 1(2) r(1)] by simp
    then have visited: "\<forall>v \<in> set (c # visited). (v, dt_ParentID r) \<in> (parent_of rows t)\<^sup>+" using 1(4) by (auto intro: trancl_into_trancl)
    have line: "a \<noteq> d \<and> dep_active rows t a" if "(dt_ParentID r, a) \<in> (parent_of rows t)\<^sup>*" for a
      by (rule 1(5)) (rule converse_rtrancl_into_rtrancl [OF step that])
    show ?thesis by (rule 1(1) [OF that _ r(1) _ 1(2,3) visited line]) (use new c(1) r(2) in simp_all)
  qed
  then show ?case using r c(1) new by (subst walk_parents.simps) auto
qed

text \<open>A refusal is always the hierarchy error.\<close>

lemma walk_parents_cases: "walk_parents rows t d visited c \<in> {None, Some Dep_Hierarchy}"
proof (induction rows t d visited c rule: walk_parents.induct)
  case (1 rows t d visited c)
  then show ?case by (subst walk_parents.simps) (auto split: option.split)
qed

text \<open>What a parent has to be: none, or a department whose whole line is active and does not pass the department itself.\<close>

definition parent_allowed :: "dep_table \<Rightarrow> string \<Rightarrow> string \<Rightarrow> string \<Rightarrow> bool" where
  "parent_allowed rows t d p \<longleftrightarrow> p = '''' \<or> (\<forall>a. (p, a) \<in> (parent_of rows t)\<^sup>* \<longrightarrow> a \<noteq> d \<and> dep_active rows t a)"

lemma ValidateParent_iff:
  assumes "dep_forest rows"
  shows "ValidateParent t d p rows = None \<longleftrightarrow> parent_allowed rows t (TrimSpace d) (TrimSpace p)"
proof (cases "TrimSpace p = []")
  case False
  note ids = dep_forestD(2) [OF assms]
  show ?thesis
  proof
    assume "ValidateParent t d p rows = None"
    then have "walk_parents rows t (TrimSpace d) [] (TrimSpace p) = None" using False by (simp add: ValidateParent_def Let_def split: if_split_asm)
    then show "parent_allowed rows t (TrimSpace d) (TrimSpace p)"
      using walk_parents_sound [OF ids _ False] False by (simp add: parent_allowed_def)
  next
    assume ok: "parent_allowed rows t (TrimSpace d) (TrimSpace p)"
    then have all: "a \<noteq> TrimSpace d \<and> dep_active rows t a" if "(TrimSpace p, a) \<in> (parent_of rows t)\<^sup>*" for a
      using False that by (simp add: parent_allowed_def)
    have "walk_parents rows t (TrimSpace d) [] (TrimSpace p) = None"
      by (rule walk_parents_complete [OF ids dep_forestD(8) [OF assms]]) (use all in auto)
    then show "ValidateParent t d p rows = None" using all [of "TrimSpace p"] by (simp add: ValidateParent_def Let_def)
  qed
qed (simp add: ValidateParent_def parent_allowed_def)

lemma ValidateParent_cases: "ValidateParent t d p rows \<in> {None, Some Dep_Hierarchy}"
  using walk_parents_cases [of rows t "TrimSpace d" "[]" "TrimSpace p"] by (simp add: ValidateParent_def Let_def)

subsection \<open>The forest is kept\<close>

lemma parent_of_append: "parent_of (rows @ [d]) t = parent_of rows t \<union> (if dt_TenantID d = t \<and> dt_ParentID d \<noteq> [] then {(dt_ID d, dt_ParentID d)} else {})"
  by (auto simp: parent_of_def)

lemma acyclic_new_parent:
  assumes "dep_forest rows" "parent_allowed rows t d p" "p \<noteq> []"
  shows "acyclic (insert (d, p) (parent_of rows t))"
  using assms dep_forestD(8) [OF assms(1)] by (auto simp: acyclic_insert parent_allowed_def)

lemma parent_allowed_present: "parent_allowed rows t d p \<Longrightarrow> p = [] \<or> (t, p) \<in> dep_key ` set rows"
  by (force simp: parent_allowed_def dep_active_def dep_is_def dep_key_def)

lemma Department_Update_result:
  assumes "Department_Update lower q now d = Inr d'"
  shows "d' = d\<lparr>dt_Name := TrimSpace (df_Name q), dt_ParentID := TrimSpace (df_ParentID q), dt_LeaderUserID := TrimSpace (df_LeaderUserID q),
      dt_Email := TrimSpace (lower (df_Email q)), dt_Phone := TrimSpace (df_Phone q), dt_Sort := df_Sort q, dt_UpdatedAt := now\<rparr>"
  using assms by (simp add: Department_Update_def Let_def split: if_split_asm)

lemma dep_tenant_trimmed: "dep_tenant ctx = Inr t \<Longrightarrow> TrimSpace t = t \<and> t \<noteq> []"
  by (auto simp: dep_tenant_def trustedTenantID_def split: option.split_asm if_split_asm sum.split_asm)

lemma NewDepartment_result:
  assumes "NewDepartment lower i t q now = Inr d"
  shows "dt_ID d = TrimSpace i" "dt_TenantID d = TrimSpace t" "dt_ParentID d = TrimSpace (df_ParentID q)" "dt_ID d \<noteq> []" "dt_Version d = 1" "dt_Status d = DepartmentActive"
  using assms by (auto simp: NewDepartment_def dest!: Department_Update_result split: if_split_asm)

lemma Department_Create_forest:
  assumes forest: "dep_forest rows" and create: "Department_Create d rows = Inr rows'"
    and form: "dt_ID d \<noteq> []" "TrimSpace (dt_ID d) = dt_ID d" "TrimSpace (dt_TenantID d) = dt_TenantID d"
    and parent: "parent_allowed rows (dt_TenantID d) (dt_ID d) (dt_ParentID d)"
  shows "dep_forest rows'" "rows' = rows @ [d]"
proof -
  have fresh: "\<not> dep_clash d r" if "r \<in> set rows" for r using create that by (auto simp: Department_Create_def split: if_split_asm)
  show rows': "rows' = rows @ [d]" using create by (simp add: Department_Create_def split: if_split_asm)
  have "dt_ID d \<notin> dt_ID ` set rows" "dep_name_key d \<notin> dep_name_key ` set rows" using fresh by (force simp: dep_clash_def dep_name_key_def)+
  then have "dep_keys rows'" using dep_forestD(1) [OF forest] form by (simp add: rows' dep_keys_def)
  moreover have "dt_ParentID r = [] \<or> (dt_TenantID r, dt_ParentID r) \<in> dep_key ` set rows'" if "r \<in> set rows'" for r
    using that dep_forestD(7) [OF forest, of r] parent_allowed_present [OF parent] by (auto simp: rows')
  moreover have "acyclic (parent_of rows' t)" for t
    using dep_forestD(8) [OF forest, of t] acyclic_new_parent [OF forest parent] by (auto simp: rows' parent_of_append)
  ultimately show "dep_forest rows'" by (simp add: dep_forest_def)
qed

text \<open>A write that reaches its row replaces that row by the value and nothing else.\<close>

lemma Department_Store_result:
  assumes ids: "distinct (map dt_ID rows)" and row: "row \<in> set rows" "dep_key row = dep_key d" "dt_CreatedAt row = dt_CreatedAt d"
    and store: "Department_Store d v rows = Inr (d', rows')"
  shows "d' = d\<lparr>dt_Version := v + 1\<rparr>" "dt_Version row = v" "v \<noteq> 0" "rows' = update_where (\<lambda>r. r = row) (\<lambda>r. d') rows"
    "\<And>r. r \<in> set rows \<Longrightarrow> dt_ID r \<noteq> dt_ID d \<Longrightarrow> dep_name_key r \<noteq> dep_name_key d"
proof -
  let ?hit = "\<lambda>r. dep_is (dt_TenantID d) (dt_ID d) r \<and> dt_Version r = v"
  have hit: "?hit r \<longleftrightarrow> r = row \<and> dt_Version row = v" if "r \<in> set rows" for r
    using dep_row_unique [OF ids that row(1)] row(2) by (auto simp: dep_is_def dep_key_def)
  have one: "length (filter ?hit rows) = 1" and v: "v \<noteq> 0" and names: "\<not> ((\<exists>r \<in> set rows. ?hit r) \<and> (\<exists>r \<in> set rows. dt_ID r \<noteq> dt_ID d \<and> dt_TenantID r = dt_TenantID d \<and> dt_Name r = dt_Name d))"
    and d': "d' = d\<lparr>dt_Version := v + 1\<rparr>" and rows': "rows' = update_where ?hit (\<lambda>r. r\<lparr>dt_Name := dt_Name d, dt_ParentID := dt_ParentID d, dt_LeaderUserID := dt_LeaderUserID d, dt_Email := dt_Email d,
               dt_Phone := dt_Phone d, dt_Status := dt_Status d, dt_Sort := dt_Sort d, dt_Version := dt_Version r + 1, dt_UpdatedAt := dt_UpdatedAt d\<rparr>) rows"
    using store by (simp_all add: Department_Store_def Let_def split: if_split_asm)
  have "filter ?hit rows \<noteq> []" using one by (metis One_nat_def length_greater_0_conv zero_less_one)
  then show version: "dt_Version row = v" using hit by (auto simp: filter_empty_conv)
  show "d' = d\<lparr>dt_Version := v + 1\<rparr>" "v \<noteq> 0" by (fact d' v)+
  show "rows' = update_where (\<lambda>r. r = row) (\<lambda>r. d') rows"
    unfolding rows' d' update_where_def using row(2,3) version
    by (intro map_cong refl) (auto simp: hit dep_key_def intro!: Department.equality)
  show "dep_name_key r \<noteq> dep_name_key d" if "r \<in> set rows" "dt_ID r \<noteq> dt_ID d" for r
    using names that row(1) hit [OF row(1)] version by (auto simp: dep_name_key_def)
qed

lemma parent_of_replace:
  assumes "dep_key row = dep_key d"
  shows "parent_of (update_where (\<lambda>r. r = row) (\<lambda>r. d) rows) t
     \<subseteq> parent_of rows t \<union> (if dt_TenantID d = t \<and> dt_ParentID d \<noteq> [] then {(dt_ID d, dt_ParentID d)} else {})"
  by (auto simp: parent_of_def set_update_where)

text \<open>The write keeps the keys of the table.\<close>

lemma Department_Store_keys:
  assumes keys: "dep_keys rows" and row: "row \<in> set rows" "dep_key row = dep_key d" "dt_CreatedAt row = dt_CreatedAt d"
    and store: "Department_Store d v rows = Inr (d', rows')"
  shows "dep_keys rows'" "dep_key ` set rows' = dep_key ` set rows"
proof -
  have ids: "distinct (map dt_ID rows)" using keys by (simp add: dep_keys_def)
  note res = Department_Store_result [OF ids row store]
  have key: "dep_key row = dep_key d'" "dep_name_key d' = dep_name_key d" "dt_ID d' = dt_ID row" "dt_TenantID d' = dt_TenantID row"
    using row(2) by (simp_all add: res(1) dep_key_def dep_name_key_def)
  have same: "map dep_key rows' = map dep_key rows" "map dt_ID rows' = map dt_ID rows"
    using key by (auto simp: res(4) update_where_def)
  then show "dep_key ` set rows' = dep_key ` set rows" by (metis set_map)
  have names: "distinct (map dep_name_key rows')"
    unfolding distinct_map
  proof (intro conjI inj_onI)
    show "distinct rows'" using same(2) ids by (metis distinct_map)
    fix x y assume xy: "x \<in> set rows'" "y \<in> set rows'" "dep_name_key x = dep_name_key y"
    have "x = d' \<or> x \<in> set rows \<and> x \<noteq> row" "y = d' \<or> y \<in> set rows \<and> y \<noteq> row" using xy by (auto simp: res(4) set_update_where split: if_split_asm)
    moreover have "dep_name_key r \<noteq> dep_name_key d'" if "r \<in> set rows" "r \<noteq> row" for r
      using res(5) [OF that(1)] that dep_row_unique [OF ids that(1) row(1)] key row(2) by (auto simp: dep_key_def)
    moreover have "inj_on dep_name_key (set rows)" using keys by (simp add: dep_keys_def distinct_map)
    ultimately show "x = y" using xy(3) by (auto simp: inj_on_def) metis+
  qed
  then show "dep_keys rows'" using keys same(2) row(1) key(3,4) by (auto simp: dep_keys_def res(4) set_update_where)
qed

lemma acyclic_replace:
  assumes "acyclic (parent_of rows t)" "row \<in> set rows" "dep_key row = dep_key d"
    and parent: "dt_ParentID d = dt_ParentID row \<or> dt_ParentID d = [] \<or> (dt_ParentID d, dt_ID d) \<notin> (parent_of rows (dt_TenantID d))\<^sup>*"
  shows "acyclic (parent_of (update_where (\<lambda>r. r = row) (\<lambda>r. d) rows) t)"
proof (cases "dt_TenantID d = t \<and> dt_ParentID d \<noteq> []")
  case True
  have "acyclic (insert (dt_ID d, dt_ParentID d) (parent_of rows t))"
  proof (cases "dt_ParentID d = dt_ParentID row")
    case same: True
    then have "(dt_ID d, dt_ParentID d) \<in> parent_of rows t" using True assms(2,3) by (auto simp: parent_of_iff dep_key_def)
    then show ?thesis using assms(1) by (simp add: insert_absorb)
  qed (use assms(1) parent True in \<open>auto simp: acyclic_insert\<close>)
  then show ?thesis by (rule acyclic_subset) (use parent_of_replace [OF assms(3), of rows t] True in simp)
next
  case False
  then show ?thesis using parent_of_replace [OF assms(3), of rows t] by (intro acyclic_subset [OF assms(1)]) (auto split: if_split_asm)
qed

lemma Department_Store_forest:
  assumes forest: "dep_forest rows" and row: "row \<in> set rows" "dep_key row = dep_key d" "dt_CreatedAt row = dt_CreatedAt d"
    and store: "Department_Store d v rows = Inr (d', rows')"
    and parent: "dt_ParentID d = dt_ParentID row \<or> parent_allowed rows (dt_TenantID d) (dt_ID d) (dt_ParentID d)"
  shows "dep_forest rows'"
proof -
  note res = Department_Store_result [OF dep_forestD(2) [OF forest] row store]
  note keys = Department_Store_keys [OF dep_forestD(1) [OF forest] row store]
  have key: "dep_key row = dep_key d'" "dt_ParentID d' = dt_ParentID d" "dt_ID d' = dt_ID d" "dt_TenantID d' = dt_TenantID d"
    using row(2) by (simp_all add: res(1) dep_key_def)
  have "dt_ParentID r = [] \<or> (dt_TenantID r, dt_ParentID r) \<in> dep_key ` set rows'" if "r \<in> set rows'" for r
  proof -
    have "dt_ParentID d' = [] \<or> (dt_TenantID d', dt_ParentID d') \<in> dep_key ` set rows"
      using parent parent_allowed_present [of rows "dt_TenantID d" "dt_ID d" "dt_ParentID d"] dep_forestD(7) [OF forest row(1)] key row(2)
      by (auto simp: dep_key_def)
    then show ?thesis using that dep_forestD(7) [OF forest] unfolding keys(2) by (auto simp: res(4) set_update_where split: if_split_asm)
  qed
  moreover have "dt_ParentID d' = dt_ParentID row \<or> dt_ParentID d' = [] \<or> (dt_ParentID d', dt_ID d') \<notin> (parent_of rows (dt_TenantID d'))\<^sup>*"
    unfolding key using parent by (auto simp: parent_allowed_def)
  then have "acyclic (parent_of rows' t)" for t
    unfolding res(4) by (rule acyclic_replace [OF dep_forestD(8) [OF forest] row(1) key(1)])
  ultimately show ?thesis using keys(1) by (simp add: dep_forest_def)
qed

subsection \<open>Calls and runs\<close>

datatype DepartmentCall =
    CreateCall string DepartmentForm
  | UpdateCall string uint64 DepartmentForm
  | EnableCall string uint64
  | DisableCall string uint64

definition department_call :: "(string \<Rightarrow> string) \<Rightarrow> Principal option \<Rightarrow> time \<Rightarrow> AccDB \<Rightarrow> DepartmentCall \<Rightarrow> dep_table \<Rightarrow> dep_error + (Department \<times> dep_table)" where
  "department_call lower ctx now db call rows =
     (case call of
        CreateCall i q \<Rightarrow> CreateTenantDepartment lower ctx i q now db rows
      | UpdateCall i v q \<Rightarrow> UpdateTenantDepartment lower ctx i v q now db rows
      | EnableCall i v \<Rightarrow> EnableTenantDepartment ctx i v now rows
      | DisableCall i v \<Rightarrow> DisableTenantDepartment ctx i v now rows)"

text \<open>A run of calls, each of its own caller, time and member table; a failed call leaves the table as it was.\<close>

fun run_departments :: "(string \<Rightarrow> string) \<Rightarrow> (Principal option \<times> time \<times> AccDB \<times> DepartmentCall) list \<Rightarrow> dep_table \<Rightarrow> dep_table" where
  "run_departments lower [] rows = rows"
| "run_departments lower ((ctx, now, db, call) # rest) rows =
     run_departments lower rest (case department_call lower ctx now db call rows of Inl e \<Rightarrow> rows | Inr (d, rows') \<Rightarrow> rows')"

text \<open>What the three changes have in common: the value keeps the key of the row, and its parent is the old one or an allowed one.\<close>

definition department_change_ok :: "dep_table \<Rightarrow> Department \<Rightarrow> Department \<Rightarrow> bool" where
  "department_change_ok rows row d \<longleftrightarrow> dep_key d = dep_key row \<and> dt_CreatedAt d = dt_CreatedAt row \<and> dt_Version d = dt_Version row \<and>
     (dt_ParentID d = dt_ParentID row \<or> parent_allowed rows (dt_TenantID row) (dt_ID row) (dt_ParentID d))"

lemma change_ok_Update:
  assumes "dep_forest rows" "row \<in> set rows" "department_change lower q now db rows row = Inr d"
  shows "department_change_ok rows row d"
  using assms dep_forestD(5) [OF assms(1,2)]
  by (auto simp: department_change_def department_change_ok_def dep_key_def ValidateParent_iff dest!: Department_Update_result)

lemma change_ok_status:
  "Department_Enable now row = Inr d \<Longrightarrow> department_change_ok rows row d" "Department_Disable now row = Inr d \<Longrightarrow> department_change_ok rows row d"
  by (auto simp: Department_Enable_def Department_Disable_def department_change_ok_def dep_key_def split: if_split_asm)

lemma department_prepare_result:
  assumes forest: "dep_forest rows" and ready: "department_prepare ctx i v f rows = Inr d"
  shows "\<exists>t row. dep_tenant ctx = Inr t \<and> row \<in> set rows \<and> dep_is t (TrimSpace i) row \<and> dt_Version row = v \<and> f row = Inr d"
proof -
  obtain t where t: "dep_tenant ctx = Inr t" using ready by (auto simp: department_prepare_def)
  then obtain row where "find (dep_is t (TrimSpace i)) rows = Some row" "dt_Version row = v" "f row = Inr d"
    using ready dep_tenant_trimmed [OF t] by (auto simp: department_prepare_def Department_Get_def split: option.split_asm if_split_asm)
  then show ?thesis using t by (auto simp: find_dep_iff [OF dep_forestD(2) [OF forest]])
qed

lemma department_mutate_result:
  assumes forest: "dep_forest rows" and run: "department_mutate ctx i v f rows = Inr (d', rows')"
    and ok: "\<And>row d. row \<in> set rows \<Longrightarrow> f row = Inr d \<Longrightarrow> department_change_ok rows row d"
  shows "dep_forest rows' \<and> (\<exists>t row. dep_tenant ctx = Inr t \<and> row \<in> set rows \<and> dep_is t (TrimSpace i) row \<and> dt_Version row = v \<and> dt_Version d' = v + 1 \<and>
     dep_key d' = dep_key row \<and> rows' = update_where (\<lambda>r. r = row) (\<lambda>r. d') rows)"
proof -
  obtain d where d: "department_prepare ctx i v f rows = Inr d" and store: "Department_Store d v rows = Inr (d', rows')"
    using run by (auto simp: department_mutate_def)
  obtain t row where t: "dep_tenant ctx = Inr t" "row \<in> set rows" "dep_is t (TrimSpace i) row" "dt_Version row = v" "f row = Inr d"
    using department_prepare_result [OF forest d] by blast
  have row: "dep_key row = dep_key d" "dt_CreatedAt row = dt_CreatedAt d"
    and parent: "dt_ParentID d = dt_ParentID row \<or> parent_allowed rows (dt_TenantID d) (dt_ID d) (dt_ParentID d)"
    using ok [OF t(2,5)] by (auto simp: department_change_ok_def dep_key_def)
  note res = Department_Store_result [OF dep_forestD(2) [OF forest] t(2) row store]
  have "dep_key d' = dep_key row" using row(1) by (simp add: res(1) dep_key_def)
  then show ?thesis using Department_Store_forest [OF forest t(2) row store parent] t res(1,4) by auto
qed

text \<open>The department and the version a call changes; a creation has none.\<close>

fun call_target :: "DepartmentCall \<Rightarrow> (string \<times> uint64) option" where
  "call_target (CreateCall i q) = None"
| "call_target (UpdateCall i v q) = Some (TrimSpace i, v)"
| "call_target (EnableCall i v) = Some (TrimSpace i, v)"
| "call_target (DisableCall i v) = Some (TrimSpace i, v)"

lemma department_call_change:
  assumes forest: "dep_forest rows" and run: "department_call lower ctx now db call rows = Inr (d', rows')" and target: "call_target call = Some (i, v)"
  shows "dep_forest rows' \<and> (\<exists>t row. dep_tenant ctx = Inr t \<and> row \<in> set rows \<and> dep_is t i row \<and> dt_Version row = v \<and> dt_Version d' = v + 1 \<and>
     dep_key d' = dep_key row \<and> rows' = update_where (\<lambda>r. r = row) (\<lambda>r. d') rows)"
proof (cases call)
  case (UpdateCall j w q)
  then have "department_mutate ctx j w (department_change lower q now db rows) rows = Inr (d', rows')"
    using run by (simp add: department_call_def UpdateTenantDepartment_def split: if_split_asm)
  from department_mutate_result [OF forest this] change_ok_Update [OF forest] show ?thesis using target UpdateCall by simp
next
  case (EnableCall j w)
  then have "department_mutate ctx j w (Department_Enable now) rows = Inr (d', rows')"
    using run by (simp add: department_call_def EnableTenantDepartment_def split: if_split_asm)
  from department_mutate_result [OF forest this] change_ok_status(1) show ?thesis using target EnableCall by simp
next
  case (DisableCall j w)
  then have "department_mutate ctx j w (Department_Disable now) rows = Inr (d', rows')"
    using run by (simp add: department_call_def DisableTenantDepartment_def split: if_split_asm)
  from department_mutate_result [OF forest this] change_ok_status(2) show ?thesis using target DisableCall by simp
qed (use target in simp)

lemma department_call_create:
  assumes forest: "dep_forest rows" and run: "CreateTenantDepartment lower ctx i q now db rows = Inr (d, rows')"
  shows "dep_forest rows' \<and> rows' = rows @ [d]"
proof -
  obtain t where t: "dep_tenant ctx = Inr t" "ValidateParent t i (df_ParentID q) rows = None" "NewDepartment lower i t q now = Inr d" "Department_Create d rows = Inr rows'"
    using run by (auto simp: CreateTenantDepartment_def split: if_split_asm)
  note new = NewDepartment_result [OF t(3)]
  have "parent_allowed rows (dt_TenantID d) (dt_ID d) (dt_ParentID d)"
    using t(2) dep_tenant_trimmed [OF t(1)] by (simp add: ValidateParent_iff [OF forest] new)
  then show ?thesis using Department_Create_forest [OF forest t(4)] new by simp
qed

lemma department_call_forest:
  assumes forest: "dep_forest rows" and run: "department_call lower ctx now db call rows = Inr (d, rows')"
  shows "dep_forest rows'"
proof (cases "call_target call")
  case None
  then obtain i q where "call = CreateCall i q" by (cases call) simp_all
  then show ?thesis using run department_call_create [OF forest] by (auto simp: department_call_def)
next
  case (Some iv)
  then show ?thesis using department_call_change [OF forest run] by (cases iv) simp
qed

lemma run_departments_forest: "dep_forest rows \<Longrightarrow> dep_forest (run_departments lower calls rows)"
  by (induction lower calls rows rule: run_departments.induct) (auto split: sum.split dest: department_call_forest)

lemma dep_forest_Nil: "dep_forest []"
  by (simp add: dep_forest_def dep_keys_def parent_of_def acyclic_def)

subsection \<open>Interleaved calls\<close>

text \<open>
  \<open>ValidateParent\<close> takes no locks, so calls of different transactions are not serial. A call is split where the code can be
  interrupted by the others: \<open>department_read\<close> is all it reads and checks, on one state of the table (the snapshot of
  its transaction), and \<open>department_commit\<close> the statement that writes.
\<close>

datatype DepartmentWrite = InsertRow Department | WriteRow uint64 Department

definition department_read :: "(string \<Rightarrow> string) \<Rightarrow> Principal option \<Rightarrow> time \<Rightarrow> AccDB \<Rightarrow> DepartmentCall \<Rightarrow> dep_table \<Rightarrow> dep_error + DepartmentWrite" where
  "department_read lower ctx now db call rows =
     (case call of
        CreateCall i q \<Rightarrow>
          if TrimSpace (df_Name q) = '''' then Inl Dep_InvalidRequest
          else bind_result (dep_tenant ctx) (\<lambda>tenantID.
            guard (ValidateParent tenantID i (df_ParentID q) rows)
            (guard (ValidateLeader tenantID (df_LeaderUserID q) db)
            (bind_result (NewDepartment lower i tenantID q now) (\<lambda>d. Inr (InsertRow d)))))
      | UpdateCall i v q \<Rightarrow>
          if TrimSpace i = '''' \<or> TrimSpace (df_Name q) = '''' \<or> v = 0 then Inl Dep_InvalidRequest
          else bind_result (department_prepare ctx i v (department_change lower q now db rows) rows) (\<lambda>d. Inr (WriteRow v d))
      | EnableCall i v \<Rightarrow>
          if TrimSpace i = '''' \<or> v = 0 then Inl Dep_InvalidRequest
          else bind_result (department_prepare ctx i v (Department_Enable now) rows) (\<lambda>d. Inr (WriteRow v d))
      | DisableCall i v \<Rightarrow>
          if TrimSpace i = '''' \<or> v = 0 then Inl Dep_InvalidRequest
          else bind_result (department_prepare ctx i v (Department_Disable now) rows) (\<lambda>d. Inr (WriteRow v d)))"

fun department_commit :: "DepartmentWrite \<Rightarrow> dep_table \<Rightarrow> dep_error + (Department \<times> dep_table)" where
  "department_commit (InsertRow d) rows = bind_result (Department_Create d rows) (\<lambda>rows'. Inr (d, rows'))"
| "department_commit (WriteRow v d) rows = Department_Store d v rows"

text \<open>The two halves, run together, are the call.\<close>

lemma department_call_split:
  "department_call lower ctx now db call rows = bind_result (department_read lower ctx now db call rows) (\<lambda>w. department_commit w rows)"
  by (auto simp: department_call_def department_read_def CreateTenantDepartment_def UpdateTenantDepartment_def EnableTenantDepartment_def
      DisableTenantDepartment_def department_mutate_def bind_result_def guard_def split: DepartmentCall.split sum.split option.split)

text \<open>A move gives a department that is there another parent.\<close>

fun moves :: "dep_table \<Rightarrow> DepartmentWrite \<Rightarrow> bool" where
  "moves rows (InsertRow d) = False"
| "moves rows (WriteRow v d) = (\<exists>r \<in> set rows. dep_key r = dep_key d \<and> dt_ParentID r \<noteq> dt_ParentID d)"

text \<open>
  The histories of the service. \<open>pending\<close> are the calls that have read and not yet written, each with whether it moves its
  department; a call may also fail or be rolled back. With \<open>apart\<close>, a move reads only while no other move is pending.
  A version counter at its end is not increased: the database refuses the statement.
\<close>

inductive department_history :: "(string \<Rightarrow> string) \<Rightarrow> bool \<Rightarrow> (bool \<times> DepartmentWrite) list \<Rightarrow> dep_table \<Rightarrow> bool" for lower apart where
  start: "department_history lower apart [] []"
| read: "department_history lower apart pending rows \<Longrightarrow> department_read lower ctx now db call rows = Inr w \<Longrightarrow>
     apart \<longrightarrow> moves rows w \<longrightarrow> True \<notin> fst ` set pending \<Longrightarrow> department_history lower apart ((moves rows w, w) # pending) rows"
| commit: "department_history lower apart pending rows \<Longrightarrow> (m, w) \<in> set pending \<Longrightarrow> department_commit w rows = Inr (d, rows') \<Longrightarrow> dt_Version d \<noteq> 0 \<Longrightarrow>
     department_history lower apart (remove1 (m, w) pending) rows'"
| drop: "department_history lower apart pending rows \<Longrightarrow> department_history lower apart (remove1 x pending) rows"

definition parent_present :: "dep_table \<Rightarrow> Department \<Rightarrow> bool" where
  "parent_present rows d \<longleftrightarrow> dt_ParentID d = [] \<or> (dt_TenantID d, dt_ParentID d) \<in> dep_key ` set rows"

definition dep_wf :: "dep_table \<Rightarrow> bool" where
  "dep_wf rows \<longleftrightarrow> dep_keys rows \<and> (\<forall>r \<in> set rows. parent_present rows r)"

text \<open>What every pending call carries, and what a pending call carries when moves keep apart.\<close>

fun pending_ok :: "dep_table \<Rightarrow> DepartmentWrite \<Rightarrow> bool" where
  "pending_ok rows (InsertRow d) \<longleftrightarrow> parent_present rows d \<and> dt_ID d \<noteq> [] \<and> TrimSpace (dt_ID d) = dt_ID d \<and> TrimSpace (dt_TenantID d) = dt_TenantID d"
| "pending_ok rows (WriteRow v d) \<longleftrightarrow> parent_present rows d \<and>
     (\<exists>r \<in> set rows. dep_key r = dep_key d \<and> dt_CreatedAt r = dt_CreatedAt d \<and> v \<le> dt_Version r)"

definition parent_free :: "dep_table \<Rightarrow> Department \<Rightarrow> bool" where
  "parent_free rows d \<longleftrightarrow> dt_ParentID d = [] \<or> (dt_ParentID d, dt_ID d) \<notin> (parent_of rows (dt_TenantID d))\<^sup>*"

fun pending_safe :: "dep_table \<Rightarrow> bool \<times> DepartmentWrite \<Rightarrow> bool" where
  "pending_safe rows (m, InsertRow d) = True"
| "pending_safe rows (m, WriteRow v d) = (\<forall>r \<in> set rows. dep_key r = dep_key d \<longrightarrow> dt_Version r = v \<longrightarrow>
     (if m then parent_free rows d else dt_ParentID r = dt_ParentID d))"

definition history_inv :: "bool \<Rightarrow> (bool \<times> DepartmentWrite) list \<Rightarrow> dep_table \<Rightarrow> bool" where
  "history_inv apart pending rows \<longleftrightarrow> dep_wf rows \<and> (\<forall>x \<in> set pending. pending_ok rows (snd x)) \<and>
     (apart \<longrightarrow> (\<forall>t. acyclic (parent_of rows t)) \<and> (\<forall>x \<in> set pending. pending_safe rows x) \<and> length (filter fst pending) \<le> 1)"

lemma dep_wfD:
  assumes "dep_wf rows"
  shows "dep_keys rows" "distinct (map dt_ID rows)" "r \<in> set rows \<Longrightarrow> parent_present rows r"
    "r \<in> set rows \<Longrightarrow> TrimSpace (dt_ID r) = dt_ID r"
  using assms by (simp_all add: dep_wf_def dep_keys_def)

lemma ValidateParent_sound:
  assumes "distinct (map dt_ID rows)" "ValidateParent t d p rows = None"
  shows "parent_allowed rows t (TrimSpace d) (TrimSpace p)"
proof (cases "TrimSpace p = []")
  case False
  then have "walk_parents rows t (TrimSpace d) [] (TrimSpace p) = None" using assms(2) by (simp add: ValidateParent_def Let_def split: if_split_asm)
  then show ?thesis using walk_parents_sound [OF assms(1) _ False] by (simp add: parent_allowed_def)
qed (simp add: parent_allowed_def)

lemma parent_allowed_free: "parent_allowed rows (dt_TenantID d) (dt_ID d) (dt_ParentID d) \<Longrightarrow> parent_present rows d \<and> parent_free rows d"
  using parent_allowed_present [of rows "dt_TenantID d" "dt_ID d" "dt_ParentID d"] by (auto simp: parent_present_def parent_free_def parent_allowed_def)

text \<open>What a call has read holds of the table it has read.\<close>

lemma prepared_ok:
  assumes wf: "dep_wf rows" and ready: "department_prepare ctx i v f rows = Inr d"
    and keeps: "\<And>row. row \<in> set rows \<Longrightarrow> f row = Inr d \<Longrightarrow> dep_key d = dep_key row \<and> dt_CreatedAt d = dt_CreatedAt row \<and>
      (dt_ParentID d = dt_ParentID row \<or> parent_allowed rows (dt_TenantID d) (dt_ID d) (dt_ParentID d))"
  shows "pending_ok rows (WriteRow v d) \<and> pending_safe rows (moves rows (WriteRow v d), WriteRow v d)"
proof -
  obtain t where t: "dep_tenant ctx = Inr t" using ready by (auto simp: department_prepare_def)
  then obtain row where "find (dep_is t (TrimSpace i)) rows = Some row" "dt_Version row = v" "f row = Inr d"
    using ready dep_tenant_trimmed [OF t] by (auto simp: department_prepare_def Department_Get_def split: option.split_asm if_split_asm)
  then have row: "row \<in> set rows" "dt_Version row = v" "f row = Inr d" by (auto simp: find_Some_iff)
  note k = keeps [OF row(1,3)]
  have only: "r = row" if "r \<in> set rows" "dep_key r = dep_key d" for r
    using dep_row_unique [OF dep_wfD(2) [OF wf] that(1) row(1)] that(2) k by (auto simp: dep_key_def)
  have "parent_present rows d"
  proof (cases "dt_ParentID d = dt_ParentID row")
    case True
    then show ?thesis using k dep_wfD(3) [OF wf row(1)] by (simp add: parent_present_def dep_key_def)
  qed (use k parent_allowed_free in blast)
  then have "pending_ok rows (WriteRow v d)" using row(1,2) k by (auto intro!: bexI [of _ row])
  moreover have "moves rows (WriteRow v d) \<longleftrightarrow> dt_ParentID row \<noteq> dt_ParentID d" using only row(1) k by auto
  then have "pending_safe rows (moves rows (WriteRow v d), WriteRow v d)" using only k parent_allowed_free [of rows d] by auto
  ultimately show ?thesis by blast
qed

lemma department_read_ok:
  assumes wf: "dep_wf rows" and run: "department_read lower ctx now db call rows = Inr w"
  shows "pending_ok rows w \<and> pending_safe rows (moves rows w, w)"
proof (cases call)
  case (CreateCall i q)
  then obtain t d where t: "dep_tenant ctx = Inr t" "ValidateParent t i (df_ParentID q) rows = None" "NewDepartment lower i t q now = Inr d" "w = InsertRow d"
    using run by (auto simp: department_read_def split: if_split_asm)
  note new = NewDepartment_result [OF t(3)]
  have "parent_allowed rows (dt_TenantID d) (dt_ID d) (dt_ParentID d)"
    using ValidateParent_sound [OF dep_wfD(2) [OF wf] t(2)] dep_tenant_trimmed [OF t(1)] by (simp add: new)
  then show ?thesis using parent_allowed_free new by (auto simp: t(4))
next
  case (UpdateCall i v q)
  then obtain d where d: "department_prepare ctx i v (department_change lower q now db rows) rows = Inr d" "w = WriteRow v d"
    using run by (auto simp: department_read_def split: if_split_asm)
  have "dep_key d = dep_key row \<and> dt_CreatedAt d = dt_CreatedAt row \<and> parent_allowed rows (dt_TenantID d) (dt_ID d) (dt_ParentID d)"
    if "row \<in> set rows" "department_change lower q now db rows row = Inr d" for row
    using that dep_wfD(4) [OF wf that(1)] ValidateParent_sound [OF dep_wfD(2) [OF wf], of "dt_TenantID row" "dt_ID row" "df_ParentID q"]
    by (auto simp: department_change_def dep_key_def dest!: Department_Update_result)
  then show ?thesis using prepared_ok [OF wf d(1)] by (auto simp: d(2))
next
  case (EnableCall i v)
  then obtain d where d: "department_prepare ctx i v (Department_Enable now) rows = Inr d" "w = WriteRow v d"
    using run by (auto simp: department_read_def split: if_split_asm)
  show ?thesis unfolding d(2) by (rule prepared_ok [OF wf d(1)]) (auto simp: Department_Enable_def dep_key_def split: if_split_asm)
next
  case (DisableCall i v)
  then obtain d where d: "department_prepare ctx i v (Department_Disable now) rows = Inr d" "w = WriteRow v d"
    using run by (auto simp: department_read_def split: if_split_asm)
  show ?thesis unfolding d(2) by (rule prepared_ok [OF wf d(1)]) (auto simp: Department_Disable_def dep_key_def split: if_split_asm)
qed

text \<open>A new row: no department is below it yet.\<close>

lemma no_way_to_new:
  assumes "dep_wf rows" "i \<notin> dt_ID ` set rows" "(p, i) \<in> (parent_of rows t)\<^sup>*"
  shows "p = i"
proof (rule ccontr)
  assume "p \<noteq> i"
  then obtain x where "(x, i) \<in> parent_of rows t" using assms(3) by (metis rtranclE)
  then obtain r where "r \<in> set rows" "dt_ParentID r = i" "i \<noteq> []" by (auto simp: parent_of_iff)
  then have "(dt_TenantID r, i) \<in> dep_key ` set rows" using dep_wfD(3) [OF assms(1)] by (auto simp: parent_present_def)
  then show False using assms(2) by (auto simp: dep_key_def)
qed

lemma parent_present_id: "parent_present rows d \<Longrightarrow> dt_ParentID d \<noteq> [] \<Longrightarrow> dt_ParentID d \<in> dt_ID ` set rows"
  by (auto simp: parent_present_def dep_key_def)

lemma parent_present_mono: "parent_present rows d \<Longrightarrow> dep_key ` set rows \<subseteq> dep_key ` set rows' \<Longrightarrow> parent_present rows' d"
  by (auto simp: parent_present_def)

lemma insert_keeps:
  assumes wf: "dep_wf rows" and d: "pending_ok rows (InsertRow d)" and create: "Department_Create d rows = Inr rows'"
  shows "dep_wf rows'" "pending_ok rows w \<Longrightarrow> pending_ok rows' w"
    "(\<forall>t. acyclic (parent_of rows t)) \<Longrightarrow> acyclic (parent_of rows' t)"
    "pending_ok rows (snd x) \<Longrightarrow> pending_safe rows x \<Longrightarrow> pending_safe rows' x"
proof -
  have fresh: "\<not> dep_clash d r" if "r \<in> set rows" for r using create that by (auto simp: Department_Create_def split: if_split_asm)
  have rows': "rows' = rows @ [d]" using create by (simp add: Department_Create_def split: if_split_asm)
  have new: "dt_ID d \<notin> dt_ID ` set rows" "dep_name_key d \<notin> dep_name_key ` set rows" using fresh by (force simp: dep_clash_def dep_name_key_def)+
  have more: "parent_present rows r \<Longrightarrow> parent_present rows' r" for r by (erule parent_present_mono) (auto simp: rows')
  have "dep_keys rows'" using dep_wfD(1) [OF wf] d new by (simp add: rows' dep_keys_def)
  then show "dep_wf rows'" using dep_wfD(3) [OF wf] d more by (auto simp: dep_wf_def rows')
  show "pending_ok rows w \<Longrightarrow> pending_ok rows' w" using more by (cases w) (auto simp: rows')
  have far: "(p, dt_ID d) \<notin> (parent_of rows t)\<^sup>*" if "p \<in> dt_ID ` set rows" for p t using no_way_to_new [OF wf new(1), of p t] new(1) that by blast
  show "acyclic (parent_of rows' t)" if all: "\<forall>t. acyclic (parent_of rows t)"
  proof (cases "dt_TenantID d = t \<and> dt_ParentID d \<noteq> []")
    case True
    then have "(dt_ParentID d, dt_ID d) \<notin> (parent_of rows t)\<^sup>*" using d by (intro far parent_present_id) simp_all
    then show ?thesis using all True by (simp add: rows' parent_of_append acyclic_insert)
  next
    case False
    then have "parent_of rows' t = parent_of rows t" by (auto simp: rows' parent_of_append)
    then show ?thesis using all by simp
  qed
  show "pending_safe rows' x" if "pending_ok rows (snd x)" "pending_safe rows x"
  proof (cases x)
    case (Pair m w)
    show ?thesis
    proof (cases w)
      case (WriteRow v e)
      have e: "parent_present rows e" "dep_key e \<in> dep_key ` set rows" using that(1) by (auto simp: Pair WriteRow intro: image_eqI [OF sym])
      have "parent_free rows' e" if free: "parent_free rows e"
      proof (cases "dt_ParentID e = []")
        case False
        then have "(dt_ParentID e, dt_ID d) \<notin> (parent_of rows (dt_TenantID e))\<^sup>*" by (intro far parent_present_id [OF e(1)])
        then show ?thesis using free False by (simp add: parent_free_def rows' parent_of_append rtrancl_insert)
      qed (simp add: parent_free_def)
      moreover have "dep_key d \<noteq> dep_key e" using e(2) new(1) by (auto simp: dep_key_def)
      ultimately show ?thesis using that(2) by (auto simp: Pair WriteRow rows')
    qed (simp add: Pair)
  qed
qed

text \<open>A write of a version that is still there.\<close>

lemma write_keeps:
  assumes wf: "dep_wf rows" and d: "pending_ok rows (WriteRow v d)" and store: "Department_Store d v rows = Inr (d', rows')" and no: "dt_Version d' \<noteq> 0"
  shows "dep_wf rows'" "pending_ok rows w \<Longrightarrow> pending_ok rows' w"
    "(\<forall>t. acyclic (parent_of rows t)) \<Longrightarrow> pending_safe rows (m, WriteRow v d) \<Longrightarrow> acyclic (parent_of rows' t)"
    "pending_safe rows (m, WriteRow v d) \<Longrightarrow> pending_ok rows u \<Longrightarrow> pending_safe rows (m', u) \<Longrightarrow> \<not> (m \<and> m') \<Longrightarrow> pending_safe rows' (m', u)"
proof -
  obtain row where row: "row \<in> set rows" "dep_key row = dep_key d" "dt_CreatedAt row = dt_CreatedAt d" using d by auto
  note res = Department_Store_result [OF dep_wfD(2) [OF wf] row store]
  note keys = Department_Store_keys [OF dep_wfD(1) [OF wf] row store]
  have more: "parent_present rows' r = parent_present rows r" for r by (simp add: parent_present_def keys(2))
  have new: "dep_key d' = dep_key d" "dt_ParentID d' = dt_ParentID d" "dt_CreatedAt d' = dt_CreatedAt d" "parent_present rows d'" "dt_Version d' = v + 1"
    using d by (simp_all add: res(1) dep_key_def parent_present_def)
  have in_rows: "r \<in> set rows' \<longleftrightarrow> r = d' \<or> r \<in> set rows \<and> r \<noteq> row" for r using row(1) by (auto simp: res(4) set_update_where)
  have only: "r = row" if "r \<in> set rows" "dep_key r = dep_key d" for r
    using dep_row_unique [OF dep_wfD(2) [OF wf] that(1) row(1)] that(2) row(2) by (auto simp: dep_key_def)
  have later: "v < v + 1" using no new(5) by (simp add: word_less_nat_alt add.commute unatSuc)
  show "dep_wf rows'" using keys(1) dep_wfD(3) [OF wf] new(4) by (auto simp: dep_wf_def more in_rows)
  show "pending_ok rows' w" if w: "pending_ok rows w"
  proof (cases w)
    case (WriteRow u e)
    then obtain r where r: "r \<in> set rows" "dep_key r = dep_key e" "dt_CreatedAt r = dt_CreatedAt e" "u \<le> dt_Version r" "parent_present rows e" using w by auto
    have "\<exists>r \<in> set rows'. dep_key r = dep_key e \<and> dt_CreatedAt r = dt_CreatedAt e \<and> u \<le> dt_Version r"
    proof (cases "r = row")
      case True
      then show ?thesis using r row new res(2) later by (intro bexI [of _ d']) (auto simp: in_rows)
    qed (use r in \<open>auto simp: in_rows\<close>)
    then show ?thesis using r(5) by (auto simp: WriteRow more)
  qed (use w in \<open>auto simp: more\<close>)
  have parent: "dt_ParentID d' = dt_ParentID row \<or> dt_ParentID d' = [] \<or> (dt_ParentID d', dt_ID d') \<notin> (parent_of rows (dt_TenantID d'))\<^sup>*"
    if "pending_safe rows (m, WriteRow v d)"
    using that row res(2) new(1,2) by (auto simp: parent_free_def dep_key_def split: if_split_asm)
  show "acyclic (parent_of rows' t)" if "\<forall>t. acyclic (parent_of rows t)" "pending_safe rows (m, WriteRow v d)"
    unfolding res(4) by (rule acyclic_replace [OF _ row(1) _ parent [OF that(2)]]) (use that(1) row(2) new(1) in simp_all)
  show "pending_safe rows' (m', u)" if safe: "pending_safe rows (m, WriteRow v d)" "pending_ok rows u" "pending_safe rows (m', u)" "\<not> (m \<and> m')"
  proof (cases u)
    case (WriteRow u' e)
    have "u' \<noteq> v + 1" if "dep_key d' = dep_key e"
      using that safe(2) only new(1) res(2) later by (auto simp: WriteRow)
    moreover have "parent_free rows' e" if m': "m'" "parent_free rows e"
    proof -
      have "dt_ParentID row = dt_ParentID d" using safe(1,4) row res(2) m'(1) by auto
      then have "parent_of rows' (dt_TenantID e) \<subseteq> parent_of rows (dt_TenantID e)"
        using row(1,2) new(1,2) by (auto simp: parent_of_iff in_rows dep_key_def) metis+
      then show ?thesis using m'(2) rtrancl_mono by (auto simp: parent_free_def)
    qed
    ultimately show ?thesis using safe(3) new(5) by (auto simp: WriteRow in_rows split: if_split_asm)
  qed simp
qed

lemma flagged_once:
  assumes "length (filter fst xs) \<le> 1" "(m, w) \<in> set xs" "(m', w') \<in> set (remove1 (m, w) xs)"
  shows "\<not> (m \<and> m')"
proof
  assume m: "m \<and> m'"
  then have "length (filter fst (remove1 (m, w) xs)) = length (filter fst xs) - 1" using assms(2) by (simp add: filter_remove1 length_remove1)
  moreover have "(m', w') \<in> set (filter fst (remove1 (m, w) xs))" using assms(3) m by simp
  ultimately show False using assms(1) by (metis diff_is_0_eq length_0_conv list.set(1) empty_iff)
qed

lemma history_inv_remove: "history_inv apart pending rows \<Longrightarrow> history_inv apart (remove1 x pending) rows"
proof -
  have "length (filter fst (remove1 x pending)) \<le> length (filter fst pending)" by (induction pending) auto
  then show "history_inv apart pending rows \<Longrightarrow> history_inv apart (remove1 x pending) rows"
    unfolding history_inv_def using set_remove1_subset [of x pending] by (meson le_trans subsetD)
qed

lemma department_history_inv: "department_history lower apart pending rows \<Longrightarrow> history_inv apart pending rows"
proof (induction rule: department_history.induct)
  case start
  then show ?case using dep_forest_Nil by (simp add: history_inv_def dep_wf_def dep_forest_def)
next
  case (read pending rows ctx now db call w)
  then have "dep_wf rows" by (simp add: history_inv_def)
  from department_read_ok [OF this read(2)] read(3,4) show ?case
    unfolding history_inv_def by (auto simp: filter_empty_conv image_iff)
next
  case (commit pending rows m w d rows')
  note inv = commit.IH [unfolded history_inv_def]
  have wf: "dep_wf rows" and ok: "pending_ok rows w" and safe: "apart \<Longrightarrow> pending_safe rows (m, w)" using inv commit(2) by auto
  have rest: "pending_ok rows (snd x)" "apart \<Longrightarrow> pending_safe rows x" "apart \<Longrightarrow> \<not> (m \<and> fst x)" if x: "x \<in> set (remove1 (m, w) pending)" for x
  proof -
    have "x \<in> set pending" using x set_remove1_subset by fast
    then show "pending_ok rows (snd x)" "apart \<Longrightarrow> pending_safe rows x" using inv by blast+
    show "\<not> (m \<and> fst x)" if apart using flagged_once [of pending m w "fst x" "snd x"] inv commit(2) x that by simp
  qed
  have "dep_wf rows' \<and> (\<forall>x \<in> set (remove1 (m, w) pending). pending_ok rows' (snd x)) \<and>
      (apart \<longrightarrow> (\<forall>t. acyclic (parent_of rows' t)) \<and> (\<forall>x \<in> set (remove1 (m, w) pending). pending_safe rows' x))"
  proof (cases w)
    case (InsertRow e)
    then have create: "Department_Create e rows = Inr rows'" using commit(3) by auto
    show ?thesis using insert_keeps [OF wf ok [unfolded InsertRow] create] rest inv by blast
  next
    case (WriteRow v e)
    then have store: "Department_Store e v rows = Inr (d, rows')" using commit(3) by simp
    note keep = write_keeps [OF wf ok [unfolded WriteRow] store commit(4)]
    show ?thesis using keep(1,2) keep(3) [OF _ safe [unfolded WriteRow]] keep(4) [OF safe [unfolded WriteRow]] rest inv by (metis prod.collapse)
  qed
  then show ?case using history_inv_remove [OF commit.IH, of "(m, w)"] by (simp add: history_inv_def)
next
  case (drop pending rows x)
  then show ?case by - (rule history_inv_remove)
qed

subsection \<open>Versions\<close>

lemma dep_key_iff: "dep_is t i r \<longleftrightarrow> dep_key r = (t, i)"
  by (auto simp: dep_is_def dep_key_def)

lemma dep_key_unique: "dep_forest rows \<Longrightarrow> r \<in> set rows \<Longrightarrow> r' \<in> set rows \<Longrightarrow> dep_key r = dep_key r' \<Longrightarrow> r = r'"
  by (auto simp: dep_key_def dest: dep_forestD(2) dep_row_unique)

text \<open>A call advances the version of a department by one or not at all.\<close>

lemma department_call_version:
  assumes forest: "dep_forest rows" and run: "department_call lower ctx now db call rows = Inr (d, rows')" and row: "row \<in> set rows"
  shows "\<exists>r \<in> set rows'. dep_key r = dep_key row \<and> (dt_Version r = dt_Version row \<or> dt_Version r = dt_Version row + 1)"
proof (cases "call_target call")
  case None
  then obtain i q where "call = CreateCall i q" by (cases call) simp_all
  then have "rows' = rows @ [d]" using run department_call_create [OF forest] by (auto simp: department_call_def)
  then show ?thesis using row by auto
next
  case (Some iv)
  then obtain x where x: "x \<in> set rows" "dt_Version d = dt_Version x + 1" "dep_key d = dep_key x" "rows' = update_where (\<lambda>r. r = x) (\<lambda>r. d) rows"
    using department_call_change [OF forest run] by (cases iv) auto
  show ?thesis
  proof (cases "row = x")
    case True
    then show ?thesis using x by (intro bexI [of _ d]) (auto simp: set_update_where)
  next
    case False
    then show ?thesis using x(4) row by (intro bexI [of _ row]) (auto simp: set_update_where)
  qed
qed

lemma run_departments_version:
  "dep_forest rows \<Longrightarrow> row \<in> set rows \<Longrightarrow>
   \<exists>r \<in> set (run_departments lower calls rows). \<exists>n \<le> length calls. dep_key r = dep_key row \<and> dt_Version r = dt_Version row + of_nat n"
proof (induction lower calls rows arbitrary: row rule: run_departments.induct)
  case (2 lower ctx now db call rest rows)
  let ?next = "case department_call lower ctx now db call rows of Inl e \<Rightarrow> rows | Inr (d, rows') \<Rightarrow> rows'"
  have "dep_forest ?next \<and> (\<exists>r \<in> set ?next. \<exists>k \<le> 1. dep_key r = dep_key row \<and> dt_Version r = dt_Version row + of_nat k)"
  proof (cases "department_call lower ctx now db call rows")
    case (Inl e)
    then show ?thesis using 2(2,3) by (auto intro!: bexI [of _ row] exI [of _ 0])
  next
    case (Inr dr)
    obtain d rows' where dr: "dr = (d, rows')" by (cases dr)
    then have run: "department_call lower ctx now db call rows = Inr (d, rows')" using Inr by simp
    obtain r where r: "r \<in> set rows'" "dep_key r = dep_key row" "dt_Version r = dt_Version row \<or> dt_Version r = dt_Version row + 1"
      using department_call_version [OF 2(2) run 2(3)] by blast
    from r(3) have "\<exists>k \<le> 1. dt_Version r = dt_Version row + of_nat k"
    proof
      assume "dt_Version r = dt_Version row"
      then show ?thesis by (intro exI [of _ 0]) simp
    next
      assume "dt_Version r = dt_Version row + 1"
      then show ?thesis by (intro exI [of _ 1]) simp
    qed
    then show ?thesis using run r department_call_forest [OF 2(2) run] by auto
  qed
  then obtain r k where r: "dep_forest ?next" "r \<in> set ?next" "k \<le> 1" "dep_key r = dep_key row" "dt_Version r = dt_Version row + of_nat k" by blast
  obtain r' n where "r' \<in> set (run_departments lower rest ?next)" "n \<le> length rest" "dep_key r' = dep_key r" "dt_Version r' = dt_Version r + of_nat n"
    using 2(1) [OF r(1,2)] by blast
  then show ?case using r by (intro bexI [of _ r'] exI [of _ "k + n"]) (simp_all add: add.assoc)
qed (auto intro!: exI [of _ 0])

lemma version_never_again:
  fixes v :: uint64
  assumes "n < 2 ^ 64 - 1"
  shows "v + 1 + of_nat n \<noteq> v"
proof
  assume "v + 1 + of_nat n = v"
  then have "(of_nat (n + 1) :: uint64) = 0" by (simp add: add.assoc add.commute)
  then have "(2 :: nat) ^ 64 dvd n + 1" by (simp only: word_of_nat_eq_0_iff) simp
  then show False using assms by (auto dest: dvd_imp_le)
qed

subsection \<open>Where members may be assigned\<close>

text \<open>
  What the member service asks of departments before it stores an assignment: the answer \<open>None\<close> to a trimmed
  identifier means that members may be in the department.
\<close>

locale assignment_gate =
  fixes env :: MemberEnv and present :: "string \<Rightarrow> bool"
  assumes gate: "me_department env d = None \<Longrightarrow> TrimSpace d = d \<Longrightarrow> d \<noteq> [] \<Longrightarrow> present d"
begin

lemma gated: "me_department env (TrimSpace d) = None \<Longrightarrow> TrimSpace d = [] \<or> present (TrimSpace d)"
  using gate [of "TrimSpace d"] by auto

lemma profile_assigns:
  assumes "UpdateTenantMemberProfile env ctx u v q now db = Inr (m, db')"
  shows "\<exists>t cur row. trustedTenantID ctx = Inr t \<and> Member_Get env t (TrimSpace u) db = Inr cur \<and> row \<in> set (adb_memberships db') \<and> member_is t (TrimSpace u) row \<and>
     mem_DepartmentID row = TrimSpace (mp_DepartmentID q) \<and>
     (mem_DepartmentID row = [] \<or> mem_DepartmentID row = TrimSpace (ms_DepartmentID cur) \<or> present (mem_DepartmentID row))"
proof -
  let ?f = "Membership_UpdateProfile (mp_Name q) (mp_Phone q) (mp_EmployeeID q) (mp_Position q) (mp_DepartmentID q) now"
  let ?before = "\<lambda>current. if TrimSpace (mp_DepartmentID q) = TrimSpace (ms_DepartmentID current) then None else me_department env (TrimSpace (mp_DepartmentID q))"
  have mut: "member_mutate env now ctx (TrimSpace u) v [] False ?before ?f db = Inr (m, db')"
    using assms by (simp add: UpdateTenantMemberProfile_def split: if_split_asm)
  obtain t cur ch where t: "trustedTenantID ctx = Inr t" "Member_Get env t (TrimSpace u) db = Inr cur" "?before cur = None" "?f cur = Inr ch"
    "Member_Update env now ch v db = Inr (m, db')"
    using mut unfolding member_mutate_def by (auto simp del: if_split split: if_split_asm)
  have dept: "ms_DepartmentID ch = TrimSpace (mp_DepartmentID q)" "ms_TenantID ch = ms_TenantID cur" "ms_UserID ch = ms_UserID cur"
    using t(4) by (auto simp: Membership_UpdateProfile_def Let_def split: if_split_asm)
  have ids: "ms_TenantID ch = t" "ms_UserID ch = TrimSpace u" using t(2) dept(2,3) by (auto elim!: Member_Get_row)
  obtain d ss where d: "member_cas t (TrimSpace u) v (\<lambda>r. r\<lparr>mem_Status := ms_Status ch, mem_Name := ms_Name ch, mem_EmployeeID := ms_EmployeeID ch, mem_Position := ms_Position ch,
      mem_DepartmentID := ms_DepartmentID ch, mem_UpdatedAt := ms_UpdatedAt ch\<rparr>) db = Inr d" "db' = with_credentials ss (adb_api_tokens db) d"
    using Member_Update_stored [OF t(5) ids] by blast
  obtain r where "r \<in> set (adb_memberships db)" "member_is t (TrimSpace u) r \<and> mem_Version r = v"
  proof -
    have "filter (\<lambda>m. member_is t (TrimSpace u) m \<and> mem_Version m = v) (adb_memberships db) \<noteq> []"
      using member_cas_result(2) [OF d(1)] by (metis length_0_conv zero_neq_one)
    then show ?thesis using that by (auto simp: filter_empty_conv)
  qed
  then have "\<exists>row \<in> set (adb_memberships d). member_is t (TrimSpace u) row \<and> mem_DepartmentID row = ms_DepartmentID ch"
    unfolding member_cas_result(1) [OF d(1)] AccDB.select_convs AccDB.surjective
    by (simp add: set_update_where bex_simps del: Set.image_constant_conv if_image_distrib) (rule bexI [of _ r], simp_all add: member_is_def)
  then obtain row where row: "row \<in> set (adb_memberships db')" "member_is t (TrimSpace u) row" "mem_DepartmentID row = TrimSpace (mp_DepartmentID q)"
    by (auto simp: d(2) with_credentials_def dept(1))
  have "mem_DepartmentID row = [] \<or> mem_DepartmentID row = TrimSpace (ms_DepartmentID cur) \<or> present (mem_DepartmentID row)"
    using t(3) gated [of "mp_DepartmentID q"] by (auto simp: row(3) split: if_split_asm)
  then show ?thesis using t(1,2) row by blast
qed

lemma update_assigns:
  assumes "UpdateTenantMember env ctx order u v q ids now db = Inr (m, db')"
  shows "TrimSpace (mp_DepartmentID q) = [] \<or> present (TrimSpace (mp_DepartmentID q))"
  using assms by (intro gated) (auto simp: UpdateTenantMember_def split: if_split_asm)

end

text \<open>The department service answers that question in the caller's tenant.\<close>

definition department_gate :: "Principal option \<Rightarrow> dep_table \<Rightarrow> string \<Rightarrow> acc_error err" where
  "department_gate ctx rows departmentID =
     map_option (\<lambda>e. Acc_Collaborator ''department'') (AssertTenantMemberDepartmentAssignmentAllowed ctx departmentID rows)"

definition assignable :: "Principal option \<Rightarrow> dep_table \<Rightarrow> string \<Rightarrow> bool" where
  "assignable ctx rows departmentID \<longleftrightarrow> (\<exists>t. trustedTenantID ctx = Inr t \<and> dep_active rows t departmentID)"

interpretation dg: assignment_gate "env\<lparr>me_department := department_gate ctx rows\<rparr>" "assignable ctx rows" for env ctx rows
proof
  fix d assume "me_department (env\<lparr>me_department := department_gate ctx rows\<rparr>) d = None" and d: "TrimSpace d = d" "d \<noteq> []"
  then have "AssertTenantMemberDepartmentAssignmentAllowed ctx d rows = None" by (simp add: department_gate_def)
  then show "assignable ctx rows d"
    using d by (auto simp: AssertTenantMemberDepartmentAssignmentAllowed_def AssertMemberAssignmentAllowed_def dep_tenant_def assignable_def dep_active_def
      find_Some_iff dep_is_def split: sum.split_asm option.split_asm)
qed

subsection \<open>Properties\<close>

text \<open>
  C31: The departments form a forest in every tenant when moves do not overlap. From an empty table, calls executed one
  after the other, whatever they are and whoever makes them, leave unique identifiers, names unique per tenant, parents that are
  departments of the same tenant, and no department above itself (\<open>dep_forest\<close>). When the calls of different transactions interleave,
  each reading one state of the table before it writes, and no version counter is exhausted, the keys and the parents
  are as before; no department is above itself provided that a call that gives an existing department another
  parent reads only while no other such call is between its read and its write. Without that proviso it fails, as
  \<open>department_moves_skew\<close> below shows: the code takes no locks that would ensure it.
\<close>

theorem departments_form_forest:
  "dep_forest (run_departments lower calls []) \<and>
   (department_history lower apart pending rows \<longrightarrow>
     distinct (map dt_ID rows) \<and> distinct (map (\<lambda>r. (dt_TenantID r, dt_Name r)) rows) \<and>
     (\<lambda>r. (dt_TenantID r, dt_ParentID r)) ` {r \<in> set rows. dt_ParentID r \<noteq> []} \<subseteq> (\<lambda>r. (dt_TenantID r, dt_ID r)) ` set rows \<and>
     (apart \<longrightarrow> acyclic (parent_of rows t)))"
proof (intro conjI impI run_departments_forest [OF dep_forest_Nil])
  assume "department_history lower apart pending rows"
  note inv = department_history_inv [OF this, unfolded history_inv_def]
  then have wf: "dep_wf rows" by blast
  from dep_wfD(1) [OF wf] show "distinct (map dt_ID rows)" "distinct (map (\<lambda>r. (dt_TenantID r, dt_Name r)) rows)"
    by (simp_all add: dep_keys_def dep_name_key_def [abs_def])
  show "(\<lambda>r. (dt_TenantID r, dt_ParentID r)) ` {r \<in> set rows. dt_ParentID r \<noteq> []} \<subseteq> (\<lambda>r. (dt_TenantID r, dt_ID r)) ` set rows"
    using dep_wfD(3) [OF wf] by (auto simp: parent_present_def dep_key_def [abs_def])
  show "apart \<Longrightarrow> acyclic (parent_of rows t)" using inv by blast
qed


text \<open>
  C34: A version of a department is changed at most once. When an update, an enabling or a disabling with a version
  has succeeded, the stored value has the next version and no other department has changed; after it, and after any
  further calls (fewer than \<open>2 ^ 64 - 1\<close> of them, so that the counter does not come round), no call of the tenant with
  that department and that version succeeds.
\<close>

theorem department_version_once:
  assumes rows: "rows = run_departments lower earlier []"
    and first: "department_call lower ctx now db call rows = Inr (d, rows1)"
    and target: "call_target call = Some (i, v)" "call_target call2 = Some (i, v)" "dep_tenant ctx2 = dep_tenant ctx"
    and few: "length others < 2 ^ 64 - 1"
  shows "d \<in> set rows1 \<and> dt_ID d = i \<and> dt_Version d = v + 1 \<and> [r \<leftarrow> rows1. dt_ID r \<noteq> i] = [r \<leftarrow> rows. dt_ID r \<noteq> i] \<and>
    department_call lower ctx2 now2 db2 call2 (run_departments lower others rows1) \<noteq> Inr x"
proof -
  have forest: "dep_forest rows" unfolding rows by (rule run_departments_forest [OF dep_forest_Nil])
  obtain t row where t: "dep_tenant ctx = Inr t" "row \<in> set rows" "dep_is t i row" "dt_Version d = v + 1" "dep_key d = dep_key row"
      "rows1 = update_where (\<lambda>r. r = row) (\<lambda>r. d) rows" and forest1: "dep_forest rows1"
    using department_call_change [OF forest first target(1)] by blast
  have d: "d \<in> set rows1" "dt_ID d = i" "dep_key d = (t, i)" using t by (auto simp: set_update_where dep_key_iff dep_key_def)
  have others: "[r \<leftarrow> rows1. dt_ID r \<noteq> i] = [r \<leftarrow> rows. dt_ID r \<noteq> i]"
    unfolding t(6) by (rule filter_update_other) (use t(3) d(2) in \<open>auto simp: dep_is_def\<close>)
  have "department_call lower ctx2 now2 db2 call2 (run_departments lower others rows1) \<noteq> Inr x"
  proof
    assume second: "department_call lower ctx2 now2 db2 call2 (run_departments lower others rows1) = Inr x"
    obtain d2 rows2 where x: "x = (d2, rows2)" by (cases x)
    note forest2 = run_departments_forest [OF forest1, of lower others]
    obtain r2 where r2: "r2 \<in> set (run_departments lower others rows1)" "dep_is t i r2" "dt_Version r2 = v"
      using department_call_change [OF forest2 second [unfolded x] target(2)] t(1) target(3) by auto
    obtain r n where r: "r \<in> set (run_departments lower others rows1)" "n \<le> length others" "dep_key r = dep_key d" "dt_Version r = dt_Version d + of_nat n"
      using run_departments_version [OF forest1 d(1), of lower others] by blast
    have "r = r2" by (rule dep_key_unique [OF forest2 r(1) r2(1)]) (use r(3) r2(2) d(3) in \<open>simp add: dep_key_iff\<close>)
    then show False using r(2,4) r2(3) t(4) version_never_again [of n v] few by simp
  qed
  then show ?thesis using d(1,2) t(4) others by blast
qed

text \<open>
  C32: Composition of members and departments: when a change of a member's profile succeeds with the department service
  behind it, the stored membership names no department, the department the member had before, or a department of the
  caller's own tenant that is active at that moment.
\<close>

theorem member_department_active:
  assumes "UpdateTenantMemberProfile (env\<lparr>me_department := department_gate ctx rows\<rparr>) ctx u v q now db = Inr (m, db')"
  shows "\<exists>t cur row. trustedTenantID ctx = Inr t \<and> Member_Get (env\<lparr>me_department := department_gate ctx rows\<rparr>) t (TrimSpace u) db = Inr cur \<and>
     row \<in> set (adb_memberships db') \<and> member_is t (TrimSpace u) row \<and> mem_DepartmentID row = TrimSpace (mp_DepartmentID q) \<and>
     (mem_DepartmentID row \<in> {[], TrimSpace (ms_DepartmentID cur)} \<or>
      (\<exists>dep \<in> set rows. dt_TenantID dep = t \<and> dt_ID dep = mem_DepartmentID row \<and> dt_Status dep = DepartmentActive))"
  using dg.profile_assigns [OF assms] by (force simp: assignable_def dep_active_def dep_is_def)

abbreviation ex_form :: "string \<Rightarrow> string \<Rightarrow> DepartmentForm" where
  "ex_form name parent \<equiv> \<lparr>df_Name = name, df_ParentID = parent, df_LeaderUserID = '''', df_Email = '''', df_Phone = '''', df_Sort = 0\<rparr>"

definition ex_departments :: dep_table where
  "ex_departments = run_departments (\<lambda>s. s)
     [(ex_caller ''t1'' ''u1'', 5, ex_acc, CreateCall ''a'' (ex_form ''A'' '''')), (ex_caller ''t1'' ''u1'', 6, ex_acc, CreateCall ''b'' (ex_form ''B'' ''''))] []"

definition ex_move :: "string \<Rightarrow> string \<Rightarrow> string \<Rightarrow> dep_error + Department" where
  "ex_move i name parent = department_prepare (ex_caller ''t1'' ''u1'') i 1 (department_change (\<lambda>s. s) (ex_form name parent) 7 ex_acc ex_departments) ex_departments"

definition ex_row :: "string \<Rightarrow> string \<Rightarrow> string \<Rightarrow> time \<Rightarrow> time \<Rightarrow> uint64 \<Rightarrow> Department" where
  "ex_row i name parent created updated version = \<lparr>dt_ID = i, dt_TenantID = ''t1'', dt_Name = name, dt_ParentID = parent, dt_LeaderUserID = '''',
     dt_Email = '''', dt_Phone = '''', dt_Status = DepartmentActive, dt_Sort = 0, dt_Version = version, dt_CreatedAt = created, dt_UpdatedAt = updated\<rparr>"

text \<open>
  The checks of a move are made on the rows that the call reads, and only the row that moves is written under its
  version. Two calls of different transactions that have both read the table before either writes therefore both
  succeed, although each is refused after the other: moving \<open>a\<close> below \<open>b\<close> and \<open>b\<close> below \<open>a\<close> at the same time leaves a
  cycle.
\<close>

lemma department_moves_skew:
  "\<exists>a b a' b' rows1 rows2. ex_move ''a'' ''A'' ''b'' = Inr a \<and> ex_move ''b'' ''B'' ''a'' = Inr b \<and>
     Department_Store a 1 ex_departments = Inr (a', rows1) \<and> Department_Store b 1 rows1 = Inr (b', rows2) \<and>
     UpdateTenantDepartment (\<lambda>s. s) (ex_caller ''t1'' ''u1'') ''b'' 1 (ex_form ''B'' ''a'') 7 ex_acc rows1 = Inl Dep_Hierarchy \<and>
     \<not> acyclic (parent_of rows2 ''t1'')"
proof (intro exI conjI)
  show "ex_move ''a'' ''A'' ''b'' = Inr (ex_row ''a'' ''A'' ''b'' 5 7 1)" by code_simp
  show "ex_move ''b'' ''B'' ''a'' = Inr (ex_row ''b'' ''B'' ''a'' 6 7 1)" by code_simp
  show "Department_Store (ex_row ''a'' ''A'' ''b'' 5 7 1) 1 ex_departments
      = Inr (ex_row ''a'' ''A'' ''b'' 5 7 2, [ex_row ''a'' ''A'' ''b'' 5 7 2, ex_row ''b'' ''B'' '''' 6 6 1])" by code_simp
  show "Department_Store (ex_row ''b'' ''B'' ''a'' 6 7 1) 1 [ex_row ''a'' ''A'' ''b'' 5 7 2, ex_row ''b'' ''B'' '''' 6 6 1]
      = Inr (ex_row ''b'' ''B'' ''a'' 6 7 2, [ex_row ''a'' ''A'' ''b'' 5 7 2, ex_row ''b'' ''B'' ''a'' 6 7 2])" by code_simp
  show "UpdateTenantDepartment (\<lambda>s. s) (ex_caller ''t1'' ''u1'') ''b'' 1 (ex_form ''B'' ''a'') 7 ex_acc [ex_row ''a'' ''A'' ''b'' 5 7 2, ex_row ''b'' ''B'' '''' 6 6 1]
      = Inl Dep_Hierarchy" by code_simp
  have "(''a'', ''b'') \<in> parent_of [ex_row ''a'' ''A'' ''b'' 5 7 2, ex_row ''b'' ''B'' ''a'' 6 7 2] ''t1''"
    "(''b'', ''a'') \<in> parent_of [ex_row ''a'' ''A'' ''b'' 5 7 2, ex_row ''b'' ''B'' ''a'' 6 7 2] ''t1''" by (simp_all add: parent_of_iff ex_row_def)
  then show "\<not> acyclic (parent_of [ex_row ''a'' ''A'' ''b'' 5 7 2, ex_row ''b'' ''B'' ''a'' 6 7 2] ''t1'')"
    unfolding acyclic_def by (meson trancl.intros)
qed

subsection \<open>Witnesses\<close>

text \<open>A rename of \<open>b\<close> and a move of \<open>a\<close> below \<open>b\<close> that both read before either writes.\<close>

lemma ex_interleaved:
  "department_history (\<lambda>s. s) True [] [ex_row ''a'' ''A'' ''b'' 5 7 2, ex_row ''b'' ''C'' '''' 6 8 2]"
proof -
  let ?ctx = "ex_caller ''t1'' ''u1''"
  let ?a = "ex_row ''a'' ''A'' '''' 5 5 1" and ?b = "ex_row ''b'' ''B'' '''' 6 6 1"
  let ?move = "WriteRow 1 (ex_row ''a'' ''A'' ''b'' 5 7 1)" and ?name = "WriteRow 1 (ex_row ''b'' ''C'' '''' 6 8 1)"
  have reads: "department_read (\<lambda>s. s) ?ctx 5 ex_acc (CreateCall ''a'' (ex_form ''A'' '''')) [] = Inr (InsertRow ?a)"
    "department_read (\<lambda>s. s) ?ctx 6 ex_acc (CreateCall ''b'' (ex_form ''B'' '''')) [?a] = Inr (InsertRow ?b)"
    "department_read (\<lambda>s. s) ?ctx 7 ex_acc (UpdateCall ''a'' 1 (ex_form ''A'' ''b'')) [?a, ?b] = Inr ?move"
    "department_read (\<lambda>s. s) ?ctx 8 ex_acc (UpdateCall ''b'' 1 (ex_form ''C'' '''')) [?a, ?b] = Inr ?name" by code_simp+
  have writes: "department_commit (InsertRow ?a) [] = Inr (?a, [?a])" "department_commit (InsertRow ?b) [?a] = Inr (?b, [?a, ?b])"
    "department_commit ?name [?a, ?b] = Inr (ex_row ''b'' ''C'' '''' 6 8 2, [?a, ex_row ''b'' ''C'' '''' 6 8 2])"
    "department_commit ?move [?a, ex_row ''b'' ''C'' '''' 6 8 2] = Inr (ex_row ''a'' ''A'' ''b'' 5 7 2, [ex_row ''a'' ''A'' ''b'' 5 7 2, ex_row ''b'' ''C'' '''' 6 8 2])"
    by code_simp+
  have flags: "moves [?a, ?b] ?move" "\<not> moves [?a, ?b] ?name" by code_simp+
  have v: "dt_Version (ex_row i n p c u 1) \<noteq> 0" "dt_Version (ex_row i n p c u 2) \<noteq> 0" for i n p c u by (simp_all add: ex_row_def)
  note hist = department_history.intros [where lower = "\<lambda>s. s" and apart = True]
  have "department_history (\<lambda>s. s) True [] [?a]" using hist(3) [where m = False, OF hist(2) [OF hist(1) reads(1)] _ writes(1) v(1)] by simp
  from hist(3) [where m = False, OF hist(2) [OF this reads(2)] _ writes(2) v(1)] have "department_history (\<lambda>s. s) True [] [?a, ?b]" by simp
  from hist(2) [OF this reads(3)] have "department_history (\<lambda>s. s) True [(True, ?move)] [?a, ?b]" by (simp add: flags del: moves.simps)
  from hist(2) [OF this reads(4)] have "department_history (\<lambda>s. s) True [(False, ?name), (True, ?move)] [?a, ?b]" by (simp add: flags del: moves.simps)
  from hist(3) [where m = False, OF this _ writes(3) v(2)] have "department_history (\<lambda>s. s) True [(True, ?move)] [?a, ex_row ''b'' ''C'' '''' 6 8 2]" by simp
  from hist(3) [where m = True, OF this _ writes(4) v(2)] show ?thesis by simp
qed

theorem departments_form_forest_witness:
  "department_history (\<lambda>s. s) True [] [ex_row ''a'' ''A'' ''b'' 5 7 2, ex_row ''b'' ''C'' '''' 6 8 2] \<and>
   acyclic (parent_of [ex_row ''a'' ''A'' ''b'' 5 7 2, ex_row ''b'' ''C'' '''' 6 8 2] ''t1'')"
  using ex_interleaved departments_form_forest [where lower = "\<lambda>s. s" and apart = True and pending = "[]" and t = "''t1''"] by blast

theorem department_version_once_witness:
  "ex_departments = run_departments (\<lambda>s. s)
     [(ex_caller ''t1'' ''u1'', 5, ex_acc, CreateCall ''a'' (ex_form ''A'' '''')), (ex_caller ''t1'' ''u1'', 6, ex_acc, CreateCall ''b'' (ex_form ''B'' ''''))] [] \<and>
   department_call (\<lambda>s. s) (ex_caller ''t1'' ''u1'') 7 ex_acc (UpdateCall ''a'' 1 (ex_form ''A'' ''b'')) ex_departments
     = Inr (ex_row ''a'' ''A'' ''b'' 5 7 2, [ex_row ''a'' ''A'' ''b'' 5 7 2, ex_row ''b'' ''B'' '''' 6 6 1]) \<and>
   dt_Version (ex_row ''a'' ''A'' ''b'' 5 7 2) = 1 + 1 \<and>
   department_call (\<lambda>s. s) (ex_caller ''t1'' ''u2'') 9 ex_acc (DisableCall '' a'' 1)
     (run_departments (\<lambda>s. s) [(ex_caller ''t1'' ''u1'', 8, ex_acc, DisableCall ''b'' 1)] [ex_row ''a'' ''A'' ''b'' 5 7 2, ex_row ''b'' ''B'' '''' 6 6 1])
     \<noteq> Inr (ex_row ''a'' ''A'' ''b'' 5 7 2, [])"
proof -
  have first: "department_call (\<lambda>s. s) (ex_caller ''t1'' ''u1'') 7 ex_acc (UpdateCall ''a'' 1 (ex_form ''A'' ''b'')) ex_departments
     = Inr (ex_row ''a'' ''A'' ''b'' 5 7 2, [ex_row ''a'' ''A'' ''b'' 5 7 2, ex_row ''b'' ''B'' '''' 6 6 1])" by code_simp
  have targets: "call_target (UpdateCall ''a'' 1 (ex_form ''A'' ''b'')) = Some (''a'', 1)" "call_target (DisableCall '' a'' 1) = Some (''a'', 1)"
    "dep_tenant (ex_caller ''t1'' ''u2'') = dep_tenant (ex_caller ''t1'' ''u1'')" by code_simp+
  have few: "length [(ex_caller ''t1'' ''u1'', 8 :: time, ex_acc, DisableCall ''b'' 1)] < 2 ^ 64 - 1" by simp
  show ?thesis using ex_departments_def first department_version_once [OF ex_departments_def first targets few] by blast
qed

abbreviation ex_profile :: MemberProfile where
  "ex_profile \<equiv> \<lparr>mp_Email = '''', mp_Name = ''Ada'', mp_Phone = '''', mp_EmployeeID = '''', mp_Position = '''', mp_DepartmentID = '' b ''\<rparr>"

theorem member_department_active_witness:
  "\<exists>m db' row. UpdateTenantMemberProfile (ex_env\<lparr>me_department := department_gate (ex_caller ''t1'' ''u1'') ex_departments\<rparr>) (ex_caller ''t1'' ''u1'') ''u1'' 1 ex_profile 7 ex_team = Inr (m, db') \<and>
   row \<in> set (adb_memberships db') \<and> mem_DepartmentID row = ''b''"
proof -
  let ?call = "UpdateTenantMemberProfile (ex_env\<lparr>me_department := department_gate (ex_caller ''t1'' ''u1'') ex_departments\<rparr>) (ex_caller ''t1'' ''u1'') ''u1'' 1 ex_profile 7 ex_team"
  have ok: "(case ?call of Inl e \<Rightarrow> False | Inr x \<Rightarrow> True)" by code_simp
  then obtain m db' where run: "?call = Inr (m, db')" by (auto split: sum.split_asm)
  have "TrimSpace (mp_DepartmentID ex_profile) = ''b''" by code_simp
  then show ?thesis using run member_department_active [OF run] by auto
qed

end
