(* ===== verification/Web_Session.thy ===== *)
theory Web_Session
  imports Business_Scope
begin

section \<open>Web sessions, identities and login flows\<close>

text \<open>
  \<open>internal/access/infrastructure/persistence/web_session.go\<close> with the two authentications it rests on
  (\<open>Authenticate\<close> of \<open>store.go\<close>, \<open>AuthenticatePlatformSubject\<close> of \<open>platform.go\<close>). Most of these operations are not
  transactions: what a statement wrote stays when a later one fails, so they return the tables
  beside the result or the error. The random token and the CSRF secret are arguments.
\<close>

type_synonym 'a stored = "(acc_error + 'a) \<times> AccDB"

record WebIdentity =
  wi_Issuer :: string
  wi_Subject :: string
  wi_ActorKind :: string
  wi_ActorID :: string

record WebTenant =
  wt_ID :: string
  wt_Name :: string
  wt_Timezone :: string

record WebSessionContext =
  wsc_ActorKind :: string
  wsc_UserID :: string
  wsc_PlatformSubject :: string
  wsc_ActiveTenantID :: string
  wsc_ActiveTenantTimezone :: string
  wsc_ContextVersion :: uint64
  wsc_Tenants :: "WebTenant list"
  wsc_ExpiresAt :: time
  wsc_CSRFToken :: string

record WebSessionAuthentication =
  wsa_Principal :: Principal
  wsa_Session :: WebSessionContext

record WebLoginFlow =
  flow_CodeVerifier :: string
  flow_NonceHash :: string
  flow_ReturnTo :: string

definition TokenHash :: "string \<Rightarrow> string" where
  "TokenHash raw = sha256_hex raw"

definition no_principal :: Principal where
  "no_principal = \<lparr>prn_Authenticated = False, prn_Subject = '''', prn_TenantID = '''', prn_UserID = '''', prn_Roles = [], prn_AuthMethod = ''''\<rparr>"

subsection \<open>Principals\<close>

text \<open>The names of the active roles a member has, as the joined query lists them.\<close>

definition active_role_names :: "string \<Rightarrow> string \<Rightarrow> AccDB \<Rightarrow> string list" where
  "active_role_names tenantID userID db =
     [rr_Name r. a \<leftarrow> adb_member_roles db, mr_TenantID a = tenantID \<and> mr_UserID a = userID,
        r \<leftarrow> adb_roles db, rr_ID r = mr_RoleID a \<and> rr_TenantID r = mr_TenantID a \<and> rr_Status r = RoleActive]"

definition tenant_active :: "string \<Rightarrow> AccDB \<Rightarrow> bool" where
  "tenant_active tenantID db \<longleftrightarrow> (\<exists>t \<in> set (adb_tenants db). ten_ID t = tenantID \<and> ten_Status t = TenantStatusActive)"

definition user_active :: "string \<Rightarrow> AccDB \<Rightarrow> bool" where
  "user_active userID db \<longleftrightarrow> (\<exists>u \<in> set (adb_users db). usr_ID u = userID \<and> usr_Status u = ''active'')"

definition membership_active :: "string \<Rightarrow> string \<Rightarrow> AccDB \<Rightarrow> bool" where
  "membership_active tenantID userID db \<longleftrightarrow> (\<exists>m \<in> set (adb_memberships db). member_is tenantID userID m \<and> mem_Status m = MemberActive)"

definition Authenticate :: "string \<Rightarrow> string \<Rightarrow> time \<Rightarrow> AccDB \<Rightarrow> acc_error + Principal" where
  "Authenticate apiKeyMethod rawToken now db =
     (if TrimSpace rawToken = '''' then Inl Acc_Unauthorized
      else case find (\<lambda>k. tok_Hash k = TokenHash rawToken \<and> \<not> tok_Disabled k) (adb_api_tokens db) of
        None \<Rightarrow> Inl Acc_Unauthorized
      | Some token \<Rightarrow>
          if (case tok_ExpiresAt token of None \<Rightarrow> False | Some e \<Rightarrow> \<not> e > now) then Inl Acc_Unauthorized
          else if \<not> tenant_active (tok_TenantID token) db then Inl Acc_Unauthorized
          else if \<not> membership_active (tok_TenantID token) (tok_UserID token) db then Inl Acc_Unauthorized
          else Inr \<lparr>prn_Authenticated = True, prn_Subject = ''user:'' @ tok_UserID token, prn_TenantID = tok_TenantID token, prn_UserID = tok_UserID token,
                    prn_Roles = sort (active_role_names (tok_TenantID token) (tok_UserID token) db), prn_AuthMethod = apiKeyMethod\<rparr>)"

definition serviceAPIPrincipalAvailable :: "string \<Rightarrow> time \<Rightarrow> AccDB \<Rightarrow> bool" where
  "serviceAPIPrincipalAvailable subject now db \<longleftrightarrow> TrimSpace subject \<noteq> '''' \<and>
     (\<exists>c \<in> set (adb_service_credentials db). sac_Subject c = TrimSpace subject \<and> \<not> sac_Disabled c \<and>
        (case sac_NotBefore c of None \<Rightarrow> True | Some nb \<Rightarrow> nb \<le> now) \<and> (case sac_ExpiresAt c of None \<Rightarrow> True | Some e \<Rightarrow> e > now))"

definition AuthenticatePlatformSubject :: "string \<Rightarrow> string \<Rightarrow> time \<Rightarrow> AccDB \<Rightarrow> acc_error + Principal" where
  "AuthenticatePlatformSubject subject authMethod now db =
     (if TrimSpace subject = '''' \<or> TrimSpace authMethod = '''' then Inl Acc_Unauthorized
      else if (\<forall>c \<in> set (adb_platform_credentials db). \<not> (plc_Subject c = TrimSpace subject \<and> \<not> plc_Disabled c)) \<and> \<not> serviceAPIPrincipalAvailable subject now db
      then Inl Acc_Unauthorized
      else Inr (no_principal\<lparr>prn_Subject := TrimSpace subject, prn_AuthMethod := authMethod, prn_Authenticated := True\<rparr>))"

definition resolveWebUserPrincipal :: "string \<Rightarrow> string \<Rightarrow> AccDB \<Rightarrow> acc_error + Principal" where
  "resolveWebUserPrincipal userID tenantID db =
     (if \<not> user_active userID db then Inl Acc_Unauthorized
      else if \<not> tenant_active tenantID db then Inl Acc_Unauthorized
      else if \<not> membership_active tenantID userID db then Inl Acc_Unauthorized
      else Inr \<lparr>prn_Authenticated = True, prn_Subject = ''user:'' @ userID, prn_TenantID = tenantID, prn_UserID = userID,
                prn_Roles = sort (active_role_names tenantID userID db), prn_AuthMethod = AuthMethodWeb\<rparr>)"

definition listWebTenants :: "string \<Rightarrow> AccDB \<Rightarrow> WebTenant list" where
  "listWebTenants userID db =
     sort_key (\<lambda>t. (wt_Name t, wt_ID t))
       [\<lparr>wt_ID = ten_ID t, wt_Name = ten_Name t, wt_Timezone = tnr_Timezone t\<rparr>.
          m \<leftarrow> adb_memberships db, mem_UserID m = userID \<and> mem_Status m = MemberActive,
          t \<leftarrow> adb_tenants db, ten_ID t = mem_TenantID m \<and> ten_Status t = TenantStatusActive]"

subsection \<open>Identities\<close>

definition identity_at :: "string \<Rightarrow> string \<Rightarrow> AccDB \<Rightarrow> webIdentityRecord option" where
  "identity_at issuer subject db = find (\<lambda>i. wid_Issuer i = issuer \<and> wid_Subject i = subject) (adb_web_identities db)"

definition webIdentityFromRecord :: "webIdentityRecord \<Rightarrow> WebIdentity" where
  "webIdentityFromRecord r = \<lparr>wi_Issuer = wid_Issuer r, wi_Subject = wid_Subject r, wi_ActorKind = wid_ActorKind r, wi_ActorID = wid_ActorID r\<rparr>"

definition new_identity :: "string \<Rightarrow> string \<Rightarrow> string \<Rightarrow> string \<Rightarrow> time \<Rightarrow> webIdentityRecord" where
  "new_identity issuer subject kind actor now = \<lparr>wid_Issuer = issuer, wid_Subject = subject, wid_ActorKind = kind, wid_ActorID = actor,
     wid_Email = '''', wid_CreatedAt = now, wid_UpdatedAt = now\<rparr>"

definition ensure_identity :: "webIdentityRecord \<Rightarrow> AccDB \<Rightarrow> AccDB" where
  "ensure_identity candidate db =
     (if identity_at (wid_Issuer candidate) (wid_Subject candidate) db \<noteq> None then db
      else db\<lparr>adb_web_identities := adb_web_identities db @ [candidate]\<rparr>)"

definition validateWebIdentityAuthority :: "time \<Rightarrow> webIdentityRecord \<Rightarrow> AccDB \<Rightarrow> acc_error err" where
  "validateWebIdentityAuthority now link db =
     (if wid_ActorKind link = WebActorUser then
        (if length (filter (\<lambda>u. usr_ID u = wid_ActorID link \<and> usr_Status u = ''active'') (adb_users db)) \<noteq> 1 then Some Acc_Unauthorized else None)
      else if wid_ActorKind link = WebActorPlatform then
        (case AuthenticatePlatformSubject (wid_ActorID link) AuthMethodWeb now db of Inl e \<Rightarrow> Some e | Inr p \<Rightarrow> None)
      else Some Acc_WebIdentityUnbound)"

definition BindOIDCPlatformIdentity :: "string \<Rightarrow> string \<Rightarrow> string \<Rightarrow> time \<Rightarrow> AccDB \<Rightarrow> unit stored" where
  "BindOIDCPlatformIdentity issuer subject platformSubject now db =
     (let issuer = TrimSpace issuer; subject = TrimSpace subject; platformSubject = TrimSpace platformSubject
      in if issuer = '''' \<or> subject = '''' \<or> platformSubject = '''' then (Inl Acc_WebIdentityUnbound, db)
         else case AuthenticatePlatformSubject platformSubject AuthMethodWeb now db of
           Inl e \<Rightarrow> (Inl Acc_WebIdentityUnbound, db)
         | Inr p \<Rightarrow>
             (case identity_at issuer subject db of
                Some existing \<Rightarrow>
                  if wid_ActorKind existing \<noteq> WebActorPlatform \<or> wid_ActorID existing \<noteq> platformSubject
                  then (Inl (Acc_Message ''OIDC identity already bound to a different actor''), db) else (Inr (), db)
              | None \<Rightarrow> (Inr (), ensure_identity (new_identity issuer subject WebActorPlatform platformSubject now) db)))"

abbreviation first_party_prefix :: string where "first_party_prefix \<equiv> ''biz-user:''"

definition ResolveOrBindFirstPartyOIDCIdentity :: "string \<Rightarrow> string \<Rightarrow> time \<Rightarrow> AccDB \<Rightarrow> WebIdentity stored" where
  "ResolveOrBindFirstPartyOIDCIdentity issuer subject now db =
     (let issuer = TrimSpace issuer; subject = TrimSpace subject
      in if issuer = '''' \<or> take (length first_party_prefix) subject \<noteq> first_party_prefix then (Inl Acc_WebIdentityUnbound, db)
         else
           let userID = TrimSpace (drop (length first_party_prefix) subject)
           in if userID = '''' then (Inl Acc_WebIdentityUnbound, db)
              else if \<not> user_active userID db then (Inl Acc_WebIdentityUnbound, db)
              else case identity_at issuer subject db of
                Some existing \<Rightarrow>
                  if wid_ActorKind existing \<noteq> WebActorUser \<or> wid_ActorID existing \<noteq> userID
                  then (Inl (Acc_Message ''first-party OIDC identity already bound to a different actor''), db)
                  else (Inr (webIdentityFromRecord existing), db)
              | None \<Rightarrow>
                  (let db1 = ensure_identity (new_identity issuer subject WebActorUser userID now) db
                   in case identity_at issuer subject db1 of
                        None \<Rightarrow> (Inl (Acc_Message ''record not found''), db1)
                      | Some existing \<Rightarrow>
                          if wid_ActorKind existing \<noteq> WebActorUser \<or> wid_ActorID existing \<noteq> userID
                          then (Inl (Acc_Message ''first-party OIDC identity binding conflict''), db1)
                          else (Inr (webIdentityFromRecord existing), db1)))"

text \<open>\<open>find_user\<close> is the lookup of an active account by its normalised address: \<open>None\<close> when there is none.\<close>

definition ResolveOrBindOIDCIdentity :: "(string \<Rightarrow> acc_error + userRecord option) \<Rightarrow> string \<Rightarrow> string \<Rightarrow> string \<Rightarrow> bool \<Rightarrow> time \<Rightarrow> AccDB \<Rightarrow> WebIdentity stored" where
  "ResolveOrBindOIDCIdentity find_user issuer subject email emailVerified now db =
     (let issuer = TrimSpace issuer; subject = TrimSpace subject; email = TrimSpace email;
          answer = (\<lambda>link d. case validateWebIdentityAuthority now link d of Some e \<Rightarrow> (Inl e, d) | None \<Rightarrow> (Inr (webIdentityFromRecord link), d))
      in if issuer = '''' \<or> subject = '''' then (Inl Acc_WebIdentityUnbound, db)
         else case identity_at issuer subject db of
           Some link \<Rightarrow> answer link db
         | None \<Rightarrow>
             if \<not> emailVerified \<or> email = '''' then (Inl Acc_WebIdentityUnbound, db)
             else case find_user email of
               Inl e \<Rightarrow> (Inl e, db)
             | Inr None \<Rightarrow> (Inl Acc_WebIdentityUnbound, db)
             | Inr (Some user) \<Rightarrow>
                 (let db1 = ensure_identity (new_identity issuer subject WebActorUser (usr_ID user) now) db
                  in case identity_at issuer subject db1 of
                       None \<Rightarrow> (Inl (Acc_Message ''record not found''), db1)
                     | Some link \<Rightarrow> answer link db1))"

subsection \<open>Sessions\<close>

definition revokeWebSessionByHash :: "time \<Rightarrow> string \<Rightarrow> string \<Rightarrow> string \<Rightarrow> AccDB \<Rightarrow> AccDB" where
  "revokeWebSessionByHash now tokenHash reason scope db =
     (if TrimSpace tokenHash = '''' then db
      else db\<lparr>adb_web_sessions := update_where (\<lambda>s. wsr_TokenHash s = tokenHash \<and> wsr_RevokedAt s = None)
                 (revoke_row now reason (TrimSpace scope)) (adb_web_sessions db)\<rparr>)"

definition session_context :: "webIdentityRecord \<Rightarrow> webSessionRecord \<Rightarrow> WebSessionContext" where
  "session_context link r = \<lparr>wsc_ActorKind = wid_ActorKind link, wsc_UserID = '''', wsc_PlatformSubject = '''', wsc_ActiveTenantID = '''',
     wsc_ActiveTenantTimezone = '''', wsc_ContextVersion = wsr_ContextVersion r, wsc_Tenants = [], wsc_ExpiresAt = wsr_ExpiresAt r, wsc_CSRFToken = wsr_CSRFToken r\<rparr>"

definition timezone_of :: "string \<Rightarrow> WebTenant list \<Rightarrow> string" where
  "timezone_of tenantID tenants = (case find (\<lambda>t. wt_ID t = tenantID) tenants of None \<Rightarrow> '''' | Some t \<Rightarrow> wt_Timezone t)"

definition authenticateWebSessionRecord :: "time \<Rightarrow> webSessionRecord \<Rightarrow> AccDB \<Rightarrow> WebSessionAuthentication stored" where
  "authenticateWebSessionRecord now r db =
     (case identity_at (wsr_Issuer r) (wsr_Subject r) db of
        None \<Rightarrow> (Inl Acc_WebSessionInvalid, db)
      | Some link \<Rightarrow>
          (case validateWebIdentityAuthority now link db of
             Some e \<Rightarrow> (Inl e, db)
           | None \<Rightarrow>
               if wid_ActorKind link = WebActorPlatform then
                 (case AuthenticatePlatformSubject (wid_ActorID link) AuthMethodWeb now db of
                    Inl e \<Rightarrow> (Inl e, db)
                  | Inr p \<Rightarrow> (Inr \<lparr>wsa_Principal = p, wsa_Session = (session_context link r)\<lparr>wsc_PlatformSubject := wid_ActorID link\<rparr>\<rparr>, db))
               else if wid_ActorKind link = WebActorUser then
                 (let tenants = listWebTenants (wid_ActorID link) db;
                      session = (session_context link r)\<lparr>wsc_UserID := wid_ActorID link, wsc_Tenants := tenants\<rparr>
                  in if wsr_ActiveTenantID r = '''' then (Inr \<lparr>wsa_Principal = no_principal, wsa_Session = session\<rparr>, db)
                     else case resolveWebUserPrincipal (wid_ActorID link) (wsr_ActiveTenantID r) db of
                       Inl e \<Rightarrow> (Inl Acc_WebSessionInvalid,
                                  revokeWebSessionByHash now (wsr_TokenHash r) ''tenant_authority_invalid'' (''tenant:'' @ wsr_ActiveTenantID r) db)
                     | Inr p \<Rightarrow> (Inr \<lparr>wsa_Principal = p, wsa_Session = session\<lparr>wsc_ActiveTenantID := wsr_ActiveTenantID r,
                                  wsc_ActiveTenantTimezone := timezone_of (wsr_ActiveTenantID r) tenants\<rparr>\<rparr>, db))
               else (Inl Acc_WebSessionInvalid, db)))"

definition session_at :: "string \<Rightarrow> AccDB \<Rightarrow> webSessionRecord option" where
  "session_at tokenHash db = find (\<lambda>s. wsr_TokenHash s = tokenHash) (adb_web_sessions db)"

definition AuthenticateWebSession :: "time \<Rightarrow> string \<Rightarrow> AccDB \<Rightarrow> WebSessionAuthentication stored" where
  "AuthenticateWebSession now rawToken db =
     (if TrimSpace rawToken = '''' then (Inl Acc_WebSessionInvalid, db)
      else case session_at (TokenHash rawToken) db of
        None \<Rightarrow> (Inl Acc_WebSessionInvalid, db)
      | Some r \<Rightarrow>
          if wsr_RevokedAt r \<noteq> None \<or> \<not> wsr_ExpiresAt r > now then (Inl Acc_WebSessionInvalid, db)
          else authenticateWebSessionRecord now r db)"

definition insert_session :: "webSessionRecord \<Rightarrow> AccDB \<Rightarrow> acc_error + AccDB" where
  "insert_session r db =
     (if session_at (wsr_TokenHash r) db \<noteq> None then Inl Acc_Duplicate
      else Inr (db\<lparr>adb_web_sessions := adb_web_sessions db @ [r]\<rparr>))"

definition CreateWebSession :: "string \<Rightarrow> string \<Rightarrow> time \<Rightarrow> WebIdentity \<Rightarrow> time \<Rightarrow> AccDB \<Rightarrow> (string \<times> WebSessionAuthentication) stored" where
  "CreateWebSession token csrf now webIdentity ttl db =
     (if ttl \<le> 0 \<or> TrimSpace (wi_Issuer webIdentity) = '''' \<or> TrimSpace (wi_Subject webIdentity) = '''' then (Inl Acc_WebSessionInvalid, db)
      else case ResolveOrBindOIDCIdentity (\<lambda>e. Inr None) (wi_Issuer webIdentity) (wi_Subject webIdentity) '''' False now db of
        (Inl e, db1) \<Rightarrow> (Inl e, db1)
      | (Inr authoritative, db1) \<Rightarrow>
          (let activeTenant = (if wi_ActorKind authoritative = WebActorUser then
                 (case listWebTenants (wi_ActorID authoritative) db1 of [t] \<Rightarrow> wt_ID t | _ \<Rightarrow> '''') else '''');
               r = \<lparr>wsr_TokenHash = TokenHash token, wsr_Issuer = wi_Issuer authoritative, wsr_Subject = wi_Subject authoritative, wsr_ActiveTenantID = activeTenant,
                    wsr_ContextVersion = 1, wsr_CSRFToken = csrf, wsr_ExpiresAt = now + ttl, wsr_RevokedAt = None, wsr_RevokedReason = '''', wsr_RevokedScope = '''',
                    wsr_CreatedAt = now, wsr_UpdatedAt = now\<rparr>
           in case insert_session r db1 of
                Inl e \<Rightarrow> (Inl e, db1)
              | Inr db2 \<Rightarrow>
                  (case authenticateWebSessionRecord now r db2 of
                     (Inl e, db3) \<Rightarrow> (Inl e, db3)
                   | (Inr a, db3) \<Rightarrow> (Inr (token, a), db3))))"

text \<open>
  \<open>SwitchWebSessionTenant\<close> checks the session and the membership and then updates the row it has seen by
  its context version. \<open>meanwhile\<close> is what other requests commit between the check and the update.
\<close>

definition switch_hit :: "time \<Rightarrow> string \<Rightarrow> uint64 \<Rightarrow> webSessionRecord \<Rightarrow> bool" where
  "switch_hit now tokenHash version s \<longleftrightarrow> wsr_TokenHash s = tokenHash \<and> wsr_ContextVersion s = version \<and> wsr_RevokedAt s = None \<and> wsr_ExpiresAt s > now"

definition SwitchWebSessionTenant :: "(AccDB \<Rightarrow> AccDB) \<Rightarrow> string \<Rightarrow> time \<Rightarrow> string \<Rightarrow> string \<Rightarrow> AccDB \<Rightarrow> WebSessionAuthentication stored" where
  "SwitchWebSessionTenant meanwhile csrf now rawToken tenantID db =
     (let tenantID = TrimSpace tenantID
      in if TrimSpace rawToken = '''' \<or> tenantID = '''' then (Inl Acc_WebTenantDenied, db)
         else case AuthenticateWebSession now rawToken db of
           (Inl e, db1) \<Rightarrow> (Inl e, db1)
         | (Inr a, db1) \<Rightarrow>
             if wsc_ActorKind (wsa_Session a) \<noteq> WebActorUser \<or> wsc_UserID (wsa_Session a) = '''' then (Inl Acc_WebTenantDenied, db1)
             else case resolveWebUserPrincipal (wsc_UserID (wsa_Session a)) tenantID db1 of
               Inl e \<Rightarrow> (Inl Acc_WebTenantDenied, db1)
             | Inr p \<Rightarrow>
                 (let db2 = meanwhile db1; hit = switch_hit now (TokenHash rawToken) (wsc_ContextVersion (wsa_Session a));
                      db3 = db2\<lparr>adb_web_sessions := update_where hit
                        (\<lambda>s. s\<lparr>wsr_ActiveTenantID := tenantID, wsr_ContextVersion := wsr_ContextVersion s + 1, wsr_CSRFToken := csrf, wsr_UpdatedAt := now\<rparr>)
                        (adb_web_sessions db2)\<rparr>
                  in if length (filter hit (adb_web_sessions db2)) \<noteq> 1 then
                       (case AuthenticateWebSession now rawToken db3 of
                          (Inl e, db4) \<Rightarrow> (Inl e, db4)
                        | (Inr b, db4) \<Rightarrow> (Inl Acc_WebSessionChanged, db4))
                     else AuthenticateWebSession now rawToken db3))"

definition RefreshWebSession :: "time \<Rightarrow> string \<Rightarrow> time \<Rightarrow> time \<Rightarrow> AccDB \<Rightarrow> (WebSessionAuthentication \<times> bool) stored" where
  "RefreshWebSession now rawToken refreshWindow ttl db =
     (if TrimSpace rawToken = '''' \<or> refreshWindow \<le> 0 \<or> ttl \<le> 0 \<or> refreshWindow \<ge> ttl then (Inl Acc_WebSessionInvalid, db)
      else case session_at (TokenHash rawToken) db of
        None \<Rightarrow> (Inl Acc_WebSessionInvalid, db)
      | Some r \<Rightarrow>
          if wsr_RevokedAt r \<noteq> None \<or> \<not> wsr_ExpiresAt r > now then (Inl Acc_WebSessionInvalid, db)
          else
            let refreshed = (wsr_ExpiresAt r - now \<le> refreshWindow);
                r' = (if refreshed then r\<lparr>wsr_ExpiresAt := now + ttl, wsr_UpdatedAt := now\<rparr> else r);
                db1 = (if refreshed then db\<lparr>adb_web_sessions := update_where (\<lambda>s. wsr_TokenHash s = wsr_TokenHash r \<and> wsr_RevokedAt s = None)
                         (\<lambda>s. s\<lparr>wsr_ExpiresAt := now + ttl, wsr_UpdatedAt := now\<rparr>) (adb_web_sessions db)\<rparr> else db)
            in case authenticateWebSessionRecord now r' db1 of
                 (Inl e, db2) \<Rightarrow> (Inl e, db2)
               | (Inr a, db2) \<Rightarrow> (Inr (a, refreshed), db2))"

definition RevokeWebSession :: "time \<Rightarrow> string \<Rightarrow> AccDB \<Rightarrow> AccDB" where
  "RevokeWebSession now rawToken db =
     (if TrimSpace rawToken = '''' then db else revokeWebSessionByHash now (TokenHash rawToken) ''logout'' ''session'' db)"

definition ValidateWebSessionCSRF :: "WebSessionAuthentication \<Rightarrow> string \<Rightarrow> bool" where
  "ValidateWebSessionCSRF a provided \<longleftrightarrow>
     (let expected = wsc_CSRFToken (wsa_Session a)
      in \<not> (expected = '''' \<or> provided = '''' \<or> length expected \<noteq> length provided) \<and> expected = provided)"

subsection \<open>Login flows\<close>

definition CreateWebLoginFlow :: "string \<Rightarrow> string \<Rightarrow> string \<Rightarrow> string \<Rightarrow> string \<Rightarrow> time \<Rightarrow> time \<Rightarrow> AccDB \<Rightarrow> unit stored" where
  "CreateWebLoginFlow state browser codeVerifier nonce returnTo ttl now db =
     (if ttl \<le> 0 \<or> state = '''' \<or> browser = '''' \<or> codeVerifier = '''' \<or> nonce = '''' then (Inl Acc_WebLoginFlow, db)
      else
        let db1 = db\<lparr>adb_login_flows := filter (\<lambda>f. \<not> wlf_ExpiresAt f \<le> now) (adb_login_flows db)\<rparr>;
            row = \<lparr>wlf_StateHash = TokenHash state, wlf_BrowserHash = TokenHash browser, wlf_CodeVerifier = codeVerifier, wlf_NonceHash = TokenHash nonce,
                   wlf_ReturnTo = returnTo, wlf_ExpiresAt = now + ttl, wlf_CreatedAt = now\<rparr>
        in if \<exists>f \<in> set (adb_login_flows db1). wlf_StateHash f = TokenHash state then (Inl Acc_Duplicate, db1)
           else (Inr (), db1\<lparr>adb_login_flows := adb_login_flows db1 @ [row]\<rparr>))"

text \<open>
  \<open>ConsumeWebLoginFlow\<close> is a transaction: the error for an expired flow rolls the delete of its row back.
\<close>

definition ConsumeWebLoginFlow :: "string \<Rightarrow> string \<Rightarrow> time \<Rightarrow> AccDB \<Rightarrow> WebLoginFlow stored" where
  "ConsumeWebLoginFlow state browser now db =
     (if state = '''' \<or> browser = '''' then (Inl Acc_WebLoginFlow, db)
      else case find (\<lambda>f. wlf_StateHash f = TokenHash state \<and> wlf_BrowserHash f = TokenHash browser) (adb_login_flows db) of
        None \<Rightarrow> (Inl Acc_WebLoginFlow, db)
      | Some row \<Rightarrow>
          if \<not> wlf_ExpiresAt row > now then (Inl Acc_WebLoginFlow, db)
          else (Inr \<lparr>flow_CodeVerifier = wlf_CodeVerifier row, flow_NonceHash = wlf_NonceHash row, flow_ReturnTo = wlf_ReturnTo row\<rparr>,
                db\<lparr>adb_login_flows := filter (\<lambda>f. wlf_StateHash f \<noteq> wlf_StateHash row) (adb_login_flows db)\<rparr>))"

subsection \<open>Histories\<close>

text \<open>
  Everything that reads or writes sessions, in the order the requests commit: member and role requests,
  identities, sessions and flows. The requests that commit while a switch is under way are part of it.
\<close>

datatype sess_action =
    Member_Request acc_action
  | Bind_Platform string string string time
  | First_Party string string time
  | Bind_OIDC "string \<Rightarrow> acc_error + userRecord option" string string string bool time
  | Create_Session string string time WebIdentity time
  | Use_Session time string
  | Switch_Session "sess_action list" string time string string
  | Refresh_Session time string time time
  | Revoke_Session time string
  | Create_Flow string string string string string time time
  | Consume_Flow string string time

fun sess_step :: "sess_action \<Rightarrow> AccDB \<Rightarrow> AccDB"
  and sess_run :: "sess_action list \<Rightarrow> AccDB \<Rightarrow> AccDB" where
  "sess_step (Member_Request a) db = acc_step a db"
| "sess_step (Bind_Platform issuer subject ps now) db = snd (BindOIDCPlatformIdentity issuer subject ps now db)"
| "sess_step (First_Party issuer subject now) db = snd (ResolveOrBindFirstPartyOIDCIdentity issuer subject now db)"
| "sess_step (Bind_OIDC fu issuer subject email verified now) db = snd (ResolveOrBindOIDCIdentity fu issuer subject email verified now db)"
| "sess_step (Create_Session token csrf now i ttl) db = snd (CreateWebSession token csrf now i ttl db)"
| "sess_step (Use_Session now raw) db = snd (AuthenticateWebSession now raw db)"
| "sess_step (Switch_Session others csrf now raw tenant) db = snd (SwitchWebSessionTenant (sess_run others) csrf now raw tenant db)"
| "sess_step (Refresh_Session now raw window ttl) db = snd (RefreshWebSession now raw window ttl db)"
| "sess_step (Revoke_Session now raw) db = RevokeWebSession now raw db"
| "sess_step (Create_Flow state browser verifier nonce returnTo ttl now) db = snd (CreateWebLoginFlow state browser verifier nonce returnTo ttl now db)"
| "sess_step (Consume_Flow state browser now) db = snd (ConsumeWebLoginFlow state browser now db)"
| "sess_run [] db = db"
| "sess_run (a # as) db = sess_run as (sess_step a db)"

subsection \<open>A revoked session stays revoked\<close>

definition session_keys :: "AccDB \<Rightarrow> bool" where
  "session_keys db \<longleftrightarrow> distinct (map wsr_TokenHash (adb_web_sessions db))"

definition dead :: "string \<Rightarrow> AccDB \<Rightarrow> bool" where
  "dead h db \<longleftrightarrow> (\<exists>s \<in> set (adb_web_sessions db). wsr_TokenHash s = h \<and> wsr_RevokedAt s \<noteq> None)"

definition progress :: "AccDB \<Rightarrow> AccDB \<Rightarrow> bool" where
  "progress db db' \<longleftrightarrow> (session_keys db \<longrightarrow> session_keys db') \<and> (\<forall>h. dead h db \<longrightarrow> dead h db')"

lemma progress_refl [simp, intro]: "progress db db"
  by (simp add: progress_def)

lemma progress_trans: "progress a b \<Longrightarrow> progress b c \<Longrightarrow> progress a c"
  by (simp add: progress_def)

lemma progress_same: "adb_web_sessions db' = adb_web_sessions db \<Longrightarrow> progress db db'"
  by (simp add: progress_def session_keys_def dead_def)

lemma progress_frame: "progress a b \<Longrightarrow> adb_web_sessions a' = adb_web_sessions a \<Longrightarrow> adb_web_sessions b' = adb_web_sessions b \<Longrightarrow> progress a' b'"
  by (simp add: progress_def session_keys_def dead_def)

lemma progress_update:
  assumes "adb_web_sessions db' = update_where P f (adb_web_sessions db)" "\<And>s. P s \<Longrightarrow> wsr_TokenHash (f s) = wsr_TokenHash s"
    "\<And>s. P s \<Longrightarrow> wsr_RevokedAt s \<noteq> None \<Longrightarrow> wsr_RevokedAt (f s) \<noteq> None"
  shows "progress db db'"
proof -
  have "map wsr_TokenHash (adb_web_sessions db') = map wsr_TokenHash (adb_web_sessions db)"
    using assms(1,2) by (simp add: update_where_def comp_def if_distrib cong: if_cong)
  moreover have "dead h db'" if dead: "dead h db" for h
  proof -
    obtain s where s: "s \<in> set (adb_web_sessions db)" "wsr_TokenHash s = h" "wsr_RevokedAt s \<noteq> None" using dead by (auto simp: dead_def)
    have "(if P s then f s else s) \<in> set (adb_web_sessions db')" using s(1) by (simp add: assms(1) update_where_def)
    then show ?thesis using s(2,3) assms(2,3) [of s] unfolding dead_def by (intro bexI) auto
  qed
  ultimately show ?thesis by (simp add: progress_def session_keys_def)
qed

lemma session_row_fields [simp]:
  "wsr_TokenHash (revoke_row now reason scope s) = wsr_TokenHash s" "wsr_RevokedAt (revoke_row now reason scope s) = Some now"
  by (simp_all add: revoke_row_def)

lemma progress_revokeByHash: "progress db (revokeWebSessionByHash now h reason scope db)"
  by (cases "TrimSpace h = []") (auto simp: revokeWebSessionByHash_def intro!: progress_update)

lemma progress_revokeMember: "progress db (revokeWebSessionsForTenantMember now u t reason db)"
  by (cases "TrimSpace u = [] \<or> TrimSpace t = []") (auto simp: revokeWebSessionsForTenantMember_def Let_def intro!: progress_update)

lemma progress_ensure_identity: "progress db (ensure_identity c db)"
  by (rule progress_same) (simp add: ensure_identity_def)

lemma progress_authenticate_record: "progress db (snd (authenticateWebSessionRecord now r db))"
  by (auto simp: authenticateWebSessionRecord_def Let_def progress_revokeByHash split: option.split sum.split)

lemma progress_authenticate: "progress db (snd (AuthenticateWebSession now raw db))"
  by (auto simp: AuthenticateWebSession_def progress_authenticate_record split: option.split)

lemma progress_insert: "insert_session r db = Inr db' \<Longrightarrow> progress db db'"
  by (auto simp: insert_session_def session_at_def find_None_iff progress_def session_keys_def dead_def split: if_split_asm) blast

lemma progress_OIDC: "progress db (snd (ResolveOrBindOIDCIdentity fu issuer subject email verified now db))"
  by (auto simp: ResolveOrBindOIDCIdentity_def Let_def progress_ensure_identity split: option.split sum.split)

lemma progress_create: "progress db (snd (CreateWebSession token csrf now i ttl db))"
proof (cases "ttl \<le> 0 \<or> TrimSpace (wi_Issuer i) = [] \<or> TrimSpace (wi_Subject i) = []")
  case False
  let ?o = "ResolveOrBindOIDCIdentity (\<lambda>e. Inr None) (wi_Issuer i) (wi_Subject i) [] False now db"
  obtain res db1 where o: "?o = (res, db1)" by (cases ?o)
  have 1: "progress db db1" using progress_OIDC [of db "\<lambda>e. Inr None" "wi_Issuer i" "wi_Subject i" "[]" False now] by (simp add: o)
  show ?thesis
  proof (cases res)
    case (Inl e)
    then show ?thesis using False 1 o by (simp add: CreateWebSession_def)
  next
    case (Inr w)
    let ?t = "if wi_ActorKind w = WebActorUser then (case listWebTenants (wi_ActorID w) db1 of [t] \<Rightarrow> wt_ID t | _ \<Rightarrow> []) else []"
    let ?r = "\<lparr>wsr_TokenHash = TokenHash token, wsr_Issuer = wi_Issuer w, wsr_Subject = wi_Subject w, wsr_ActiveTenantID = ?t,
       wsr_ContextVersion = 1, wsr_CSRFToken = csrf, wsr_ExpiresAt = now + ttl, wsr_RevokedAt = None, wsr_RevokedReason = [], wsr_RevokedScope = [],
       wsr_CreatedAt = now, wsr_UpdatedAt = now\<rparr>"
    show ?thesis
    proof (cases "insert_session ?r db1")
      case (Inl e)
      then show ?thesis using False 1 o \<open>res = Inr w\<close> by (simp add: CreateWebSession_def Let_def)
    next
      case ins: (Inr db2)
      have "progress db1 (snd (authenticateWebSessionRecord now ?r db2))" by (rule progress_trans [OF progress_insert [OF ins] progress_authenticate_record])
      then have "progress db (snd (authenticateWebSessionRecord now ?r db2))" by (rule progress_trans [OF 1])
      moreover have "snd (CreateWebSession token csrf now i ttl db) = snd (authenticateWebSessionRecord now ?r db2)"
        using False o \<open>res = Inr w\<close> ins by (simp add: CreateWebSession_def Let_def split: prod.split sum.split)
      ultimately show ?thesis by simp
    qed
  qed
qed (auto simp: CreateWebSession_def)

lemma progress_switch:
  assumes meanwhile: "\<And>d. progress d (meanwhile d)"
  shows "progress db (snd (SwitchWebSessionTenant meanwhile csrf now raw tenant db))"
proof -
  obtain res db1 where a: "AuthenticateWebSession now raw db = (res, db1)" by (cases "AuthenticateWebSession now raw db")
  have 1: "progress db db1" using progress_authenticate [of db now raw] by (simp add: a)
  let ?hit = "\<lambda>v. switch_hit now (TokenHash raw) v"
  let ?db3 = "\<lambda>v d. d\<lparr>adb_web_sessions := update_where (?hit v)
       (\<lambda>s. s\<lparr>wsr_ActiveTenantID := TrimSpace tenant, wsr_ContextVersion := wsr_ContextVersion s + 1, wsr_CSRFToken := csrf, wsr_UpdatedAt := now\<rparr>) (adb_web_sessions d)\<rparr>"
  have "progress (meanwhile db1) (?db3 v (meanwhile db1))" for v
    by (rule progress_update [where P = "?hit v"]) (auto simp: switch_hit_def)
  then have 3: "progress db (?db3 v (meanwhile db1))" for v using progress_trans [OF progress_trans [OF 1 meanwhile]] by blast
  have 4: "progress db (snd (AuthenticateWebSession now raw (?db3 v (meanwhile db1))))" for v by (rule progress_trans [OF 3 progress_authenticate])
  show ?thesis
  proof (cases res)
    case (Inl e)
    then show ?thesis using 1 a by (simp add: SwitchWebSessionTenant_def Let_def)
  next
    case (Inr w)
    let ?d = "?db3 (wsc_ContextVersion (wsa_Session w)) (meanwhile db1)"
    obtain x d where x: "AuthenticateWebSession now raw ?d = (x, d)" by (cases "AuthenticateWebSession now raw ?d")
    have "progress db d" using 4 [of "wsc_ContextVersion (wsa_Session w)"] x by simp
    then show ?thesis using 1 a Inr x by (cases x) (simp_all add: SwitchWebSessionTenant_def Let_def split: sum.split)
  qed
qed

lemma snd_answer: "snd (case x of (Inl e, d) \<Rightarrow> (Inl e, d) | (Inr a, d) \<Rightarrow> (Inr (f a), d)) = snd x"
  by (cases x; cases "fst x") auto

lemma progress_refresh: "progress db (snd (RefreshWebSession now raw window ttl db))"
proof (cases "session_at (TokenHash raw) db")
  case (Some r)
  let ?d = "db\<lparr>adb_web_sessions := update_where (\<lambda>s. wsr_TokenHash s = wsr_TokenHash r \<and> wsr_RevokedAt s = None)
     (\<lambda>s. s\<lparr>wsr_ExpiresAt := now + ttl, wsr_UpdatedAt := now\<rparr>) (adb_web_sessions db)\<rparr>"
  have "progress db ?d" by (rule progress_update [where P = "\<lambda>s. wsr_TokenHash s = wsr_TokenHash r \<and> wsr_RevokedAt s = None"
        and f = "\<lambda>s. s\<lparr>wsr_ExpiresAt := now + ttl, wsr_UpdatedAt := now\<rparr>"]) auto
  then have "progress db (snd (authenticateWebSessionRecord now r' ?d))" for r' by (rule progress_trans [OF _ progress_authenticate_record])
  then show ?thesis using Some by (simp add: RefreshWebSession_def Let_def snd_answer progress_authenticate_record)
qed (simp add: RefreshWebSession_def)

lemma Member_Update_progress: "Member_Update env now m v db = Inr (m', db') \<Longrightarrow> progress db db'"
proof -
  assume "Member_Update env now m v db = Inr (m', db')"
  then obtain d g reason where d: "member_cas (ms_TenantID m) (ms_UserID m) v g db = Inr d"
    "db' = d \<or> db' = revokeWebSessionsForTenantMember now (ms_UserID m) (ms_TenantID m) reason d"
    unfolding Member_Update_def by (auto split: if_split_asm)
  have "progress db d" by (rule progress_same) (simp add: member_cas_result(1) [OF d(1)])
  then show ?thesis using d(2) progress_trans [OF _ progress_revokeMember] by blast
qed

lemma mutate_progress: "member_mutate env now ctx u v reason ev before f db = Inr (m, db') \<Longrightarrow> progress db db'"
  by (auto simp: member_mutate_def split: if_split_asm dest: Member_Update_progress)

lemma cas_progress: "member_cas t u v g db = Inr db' \<Longrightarrow> progress db db'"
  by (drule member_cas_result(1)) (simp add: progress_same)

lemma foreign_sessions: "foreign t db db' \<Longrightarrow> adb_web_sessions db' = adb_web_sessions db"
  by (simp add: foreign_def)

lemma assign_roles_sessions: "assign_roles ctx u now ids db = Inr db' \<Longrightarrow> adb_web_sessions db' = adb_web_sessions db"
  by (induction ids arbitrary: db) (auto simp: AssignTenantRoleMember_def split: if_split_asm dest!: foreign_Assign foreign_sessions)

lemma revoke_roles_sessions: "revoke_roles ctx u now ids db = Inr db' \<Longrightarrow> adb_web_sessions db' = adb_web_sessions db"
  by (induction ids arbitrary: db) (auto simp: RevokeTenantRoleMember_def split: if_split_asm dest!: foreign_Revoke foreign_sessions)

lemma committed_progress: "(\<And>x db'. r = Inr (x, db') \<Longrightarrow> progress db db') \<Longrightarrow> progress db (committed db r)"
  by (auto simp: committed_def split: sum.split)

lemma removed_tables_progress: "progress db (removed_tables t u v now db)"
  unfolding removed_tables_def by (rule progress_trans [OF progress_same progress_revokeMember]) simp

lemma deleted_tables_progress: "progress db (deleted_tables t u now db)"
  unfolding deleted_tables_def by (rule progress_trans [OF progress_same progress_revokeMember]) simp

lemma remove_progress: "RemoveTenantMember env ctx u v reason now db = Inr (m, db') \<Longrightarrow> progress db db'"
  by (erule RemoveTenantMember_result) (blast intro: progress_trans removed_tables_progress cas_progress)

lemma delete_progress: "CompleteTenantDeletion env u t v now db = Inr (x, db') \<Longrightarrow> progress db db'"
  by (erule CompleteTenantDeletion_result) (blast intro: progress_trans deleted_tables_progress cas_progress)

lemma restore_progress: "RestoreTenantMember env ctx u v reason now db = Inr (m, db') \<Longrightarrow> progress db db'"
  by (erule RestoreTenantMember_result) (blast intro: progress_trans cas_progress progress_same assign_roles_sessions)

lemma update_progress: "UpdateTenantMember env ctx order u v q ids now db = Inr (m, db') \<Longrightarrow> progress db db'"
  by (auto simp: UpdateTenantMember_def Let_def split: if_split_asm
      dest!: Member_Update_progress assign_roles_sessions revoke_roles_sessions intro: progress_frame [OF _ refl])

lemma scope_progress: "ReplaceBusinessScope t u v ids now db = Inr (sc, db') \<Longrightarrow> progress db db'"
  by (erule ReplaceBusinessScope_result) (auto dest!: cas_progress intro: progress_frame [OF _ _ refl])

lemma acc_step_progress: "progress db (acc_step a db)"
proof (cases a)
  case (Role_Request x)
  show ?thesis unfolding Role_Request acc_step.simps using role_step_outside [of x db] by (intro progress_same) simp
qed (auto intro!: committed_progress simp: ActivateTenantMember_def SuspendTenantMember_def UpdateTenantMemberProfile_def SetTenantMemberBusinessScope_def
      split: if_split_asm intro: mutate_progress remove_progress delete_progress restore_progress update_progress scope_progress)

lemma sess_progress: "progress db (sess_step a db)" "progress db (sess_run as db)"
proof (induction a db and as db rule: sess_step_sess_run.induct)
  case (7 others csrf now raw tenant db)
  then show ?case unfolding sess_step.simps by (intro progress_switch)
next
  case (13 a as db)
  then show ?case by (simp add: progress_trans [of db "sess_step a db"])
qed (auto simp: acc_step_progress progress_OIDC progress_create progress_authenticate progress_refresh RevokeWebSession_def progress_revokeByHash
   BindOIDCPlatformIdentity_def ResolveOrBindFirstPartyOIDCIdentity_def progress_ensure_identity Let_def CreateWebLoginFlow_def ConsumeWebLoginFlow_def
   intro: progress_same split: option.split sum.split)

lemma set_active_role_names:
  "set (active_role_names t u db) = {rr_Name q |q. q \<in> set (adb_roles db) \<and> rr_TenantID q = t \<and> rr_Status q = RoleActive \<and>
     \<lparr>mr_TenantID = t, mr_UserID = u, mr_RoleID = rr_ID q\<rparr> \<in> set (adb_member_roles db)}" (is "_ = ?R")
proof (intro set_eqI iffI)
  fix n assume "n \<in> set (active_role_names t u db)"
  then obtain a q where a: "a \<in> set (adb_member_roles db)" "mr_TenantID a = t" "mr_UserID a = u" and q: "q \<in> set (adb_roles db)" "rr_ID q = mr_RoleID a"
    "rr_TenantID q = mr_TenantID a" "rr_Status q = RoleActive" "n = rr_Name q" by (auto simp: active_role_names_def)
  have "a = \<lparr>mr_TenantID = t, mr_UserID = u, mr_RoleID = rr_ID q\<rparr>" using a q by (intro memberRoleRecord.equality) simp_all
  with a(1) have "\<lparr>mr_TenantID = t, mr_UserID = u, mr_RoleID = rr_ID q\<rparr> \<in> set (adb_member_roles db)" by blast
  then show "n \<in> ?R" using a(2) q by auto
next
  fix n assume "n \<in> ?R"
  then obtain q where "q \<in> set (adb_roles db)" "rr_TenantID q = t" "rr_Status q = RoleActive" "n = rr_Name q"
    "\<lparr>mr_TenantID = t, mr_UserID = u, mr_RoleID = rr_ID q\<rparr> \<in> set (adb_member_roles db)" by blast
  then show "n \<in> set (active_role_names t u db)" unfolding active_role_names_def by force
qed

lemma session_at_unique:
  assumes "session_keys db" "s \<in> set (adb_web_sessions db)" "wsr_TokenHash s = h"
  shows "session_at h db = Some s"
proof -
  obtain s' where s': "session_at h db = Some s'" using assms(2,3) by (cases "session_at h db") (auto simp: session_at_def find_None_iff)
  then have "s' \<in> set (adb_web_sessions db)" "wsr_TokenHash s' = h" by (auto simp: session_at_def find_Some_iff)
  then have "s' = s" using assms by (auto simp: session_keys_def distinct_map inj_on_def)
  then show ?thesis using s' by simp
qed

lemma dead_refused:
  assumes "session_keys db" "dead (TokenHash raw) db"
  shows "AuthenticateWebSession now raw db = (Inl Acc_WebSessionInvalid, db)"
proof -
  obtain s where s: "s \<in> set (adb_web_sessions db)" "wsr_TokenHash s = TokenHash raw" "wsr_RevokedAt s \<noteq> None" using assms(2) by (auto simp: dead_def)
  show ?thesis using session_at_unique [OF assms(1) s(1,2)] s(3) by (simp add: AuthenticateWebSession_def)
qed

lemma dead_forever:
  assumes "session_keys db" "dead (TokenHash raw) db"
  shows "AuthenticateWebSession now raw (sess_run as db) = (Inl Acc_WebSessionInvalid, sess_run as db)"
  using sess_progress(2) [of db as] assms by (intro dead_refused) (auto simp: progress_def)

text \<open>What a deactivation leaves of the sessions of the member.\<close>

lemma revoke_ends:
  assumes "TrimSpace u = u" "u \<noteq> []" "TrimSpace t = t" "t \<noteq> []" "s \<in> set (adb_web_sessions db)" "session_of_member u t (adb_web_identities db) s"
  shows "dead (wsr_TokenHash s) (revokeWebSessionsForTenantMember now u t reason db)"
proof -
  let ?P = "\<lambda>s. session_of_member u t (adb_web_identities db) s \<and> wsr_RevokedAt s = None"
  let ?s = "if ?P s then revoke_row now reason (''tenant:'' @ t) s else s"
  have "?s \<in> set (adb_web_sessions (revokeWebSessionsForTenantMember now u t reason db))"
    using assms(1-5) by (simp add: revokeWebSessionsForTenantMember_def update_where_def Let_def)
  moreover have "wsr_TokenHash ?s = wsr_TokenHash s" "wsr_RevokedAt ?s \<noteq> None" using assms(6) by auto
  ultimately show ?thesis unfolding dead_def by blast
qed

lemma dead_same: "adb_web_sessions db' = adb_web_sessions db \<Longrightarrow> dead h db' = dead h db"
  by (simp add: dead_def)

lemma suspend_ends:
  assumes sus: "SuspendTenantMember env ctx u v reason now db = Inr (m, db')" and ctx: "trustedTenantID ctx = Inr t"
    and s: "s \<in> set (adb_web_sessions db)" "session_of_member (TrimSpace u) t (adb_web_identities db) s"
  shows "dead (wsr_TokenHash s) db'"
proof -
  obtain r' b where mut: "member_mutate env now ctx (TrimSpace u) v r' True b (Membership_Suspend now) db = Inr (m, db')" and u: "TrimSpace u \<noteq> []"
    using sus by (auto simp: SuspendTenantMember_def split: if_split_asm)
  obtain cur ch where c: "Member_Get env t (TrimSpace u) db = Inr cur" "Membership_Suspend now cur = Inr ch" "Member_Update env now ch v db = Inr (m, db')"
    using mut ctx by (auto simp: member_mutate_def split: if_split_asm)
  have ids: "ms_TenantID ch = t" "ms_UserID ch = TrimSpace u" using membership_ops_ids(2) [OF c(2)] c(1) by (auto elim!: Member_Get_row)
  have st: "ms_Status ch = MemberSuspended" using c(2) by (auto simp: Membership_Suspend_def split: if_split_asm)
  obtain d g where d: "member_cas t (TrimSpace u) v g db = Inr d"
    "db' = revokeWebSessionsForTenantMember now (TrimSpace u) t ''membership_suspended'' d"
    using c(3) ids st by (auto simp: Member_Update_def split: if_split_asm)
  have same: "adb_web_sessions d = adb_web_sessions db" "adb_web_identities d = adb_web_identities db" by (simp_all add: member_cas_result(1) [OF d(1)])
  have t: "TrimSpace t = t" "t \<noteq> []" using ctx by (auto simp: trustedTenantID_def split: option.split_asm if_split_asm)
  show ?thesis unfolding d(2) using s same by (intro revoke_ends) (simp_all add: t u)
qed

lemma remove_ends:
  assumes rem: "RemoveTenantMember env ctx u v reason now db = Inr (m, db')" and ctx: "trustedTenantID ctx = Inr t"
    and s: "s \<in> set (adb_web_sessions db)" "session_of_member (TrimSpace u) t (adb_web_identities db) s"
  shows "dead (wsr_TokenHash s) db'"
  using rem
proof (rule RemoveTenantMember_result)
  fix t' g assume t': "trustedTenantID ctx = Inr t'" "member_cas t' (TrimSpace u) v g (removed_tables t' (TrimSpace u) (v + 1) now db) = Inr db'" "TrimSpace u \<noteq> ''''"
  have t: "TrimSpace t = t" "t \<noteq> []" "t' = t" using ctx t'(1) by (auto simp: trustedTenantID_def split: option.split_asm if_split_asm)
  have "dead (wsr_TokenHash s) (removed_tables t (TrimSpace u) (v + 1) now db)"
    unfolding removed_tables_def using s by (intro revoke_ends) (simp_all add: t t'(3))
  then show ?thesis using cas_progress [OF t'(2)] t(3) by (simp add: progress_def)
qed

lemma delete_ends:
  assumes del: "CompleteTenantDeletion env u0 t0 v now db = Inr (x, db')"
    and s: "s \<in> set (adb_web_sessions db)" "session_of_member (TrimSpace u0) (TrimSpace t0) (adb_web_identities db) s"
  shows "dead (wsr_TokenHash s) db'"
proof -
  have ne: "TrimSpace u0 \<noteq> []" "TrimSpace t0 \<noteq> []" using del by (auto simp: CompleteTenantDeletion_def Let_def split: if_split_asm)
  show ?thesis
    using del
  proof (rule CompleteTenantDeletion_result)
    fix t u g assume t: "t = TrimSpace t0" "u = TrimSpace u0" "member_cas t u v g (deleted_tables t u now db) = Inr db'"
    have "dead (wsr_TokenHash s) (deleted_tables t u now db)"
      unfolding deleted_tables_def using s ne by (intro revoke_ends) (simp_all add: t)
    then show ?thesis using cas_progress [OF t(3)] by (simp add: progress_def)
  qed
qed

lemma deactivation_keys:
  "SuspendTenantMember env ctx u v reason now db = Inr (m, db') \<or> RemoveTenantMember env ctx u v reason now db = Inr (m, db') \<or>
   CompleteTenantDeletion env u t v now db = Inr ((), db') \<Longrightarrow> session_keys db \<Longrightarrow> session_keys db'"
  by (auto simp: SuspendTenantMember_def progress_def split: if_split_asm dest!: mutate_progress remove_progress delete_progress)

text \<open>
  C26: deactivation ends the web sessions for good. Once a member was suspended, removed or has deleted the
  own membership, no token of a session it had open in that tenant is ever accepted again: not in any
  later history of member requests, logins, switches, refreshes and revocations, even if the
  member is restored in it.\<close>

theorem deactivation_ends_sessions:
  assumes keys: "session_keys db" and ctx: "trustedTenantID ctx = Inr (TrimSpace t)"
    and off: "SuspendTenantMember env ctx u v reason now db = Inr (m, db') \<or> RemoveTenantMember env ctx u v reason now db = Inr (m, db') \<or>
      CompleteTenantDeletion env u t v now db = Inr ((), db')"
    and s: "s \<in> set (adb_web_sessions db)" "wsr_TokenHash s = TokenHash raw" "wsr_ActiveTenantID s = TrimSpace t"
    and owner: "i \<in> set (adb_web_identities db)" "wid_Issuer i = wsr_Issuer s" "wid_Subject i = wsr_Subject s" "wid_ActorKind i = WebActorUser" "wid_ActorID i = TrimSpace u"
  shows "AuthenticateWebSession now' raw (sess_run as db') = (Inl Acc_WebSessionInvalid, sess_run as db')"
proof -
  have of_member: "session_of_member (TrimSpace u) (TrimSpace t) (adb_web_identities db) s" using s(3) owner by (auto simp: session_of_member_def)
  have "dead (TokenHash raw) db'"
    using off suspend_ends [OF _ ctx s(1) of_member] remove_ends [OF _ ctx s(1) of_member] delete_ends [OF _ s(1) of_member] s(2) by metis
  then show ?thesis by (rule dead_forever [OF deactivation_keys [OF off keys]])
qed

lemma resolved_principal:
  assumes "resolveWebUserPrincipal u t db = Inr p"
  shows "prn_Authenticated p \<and> prn_UserID p = u \<and> prn_TenantID p = t \<and> (\<exists>x \<in> set (adb_tenants db). ten_ID x = t \<and> ten_Status x = TenantStatusActive) \<and>
    (\<exists>m \<in> set (adb_memberships db). mem_TenantID m = t \<and> mem_UserID m = u \<and> mem_Status m = MemberActive) \<and>
    set (prn_Roles p) = {rr_Name q |q. q \<in> set (adb_roles db) \<and> rr_TenantID q = t \<and> rr_Status q = RoleActive \<and>
      \<lparr>mr_TenantID = t, mr_UserID = u, mr_RoleID = rr_ID q\<rparr> \<in> set (adb_member_roles db)}"
  using assms unfolding set_active_role_names [symmetric]
  by (auto simp: resolveWebUserPrincipal_def tenant_active_def membership_active_def member_is_def split: if_split_asm)

lemma platform_principal:
  assumes "AuthenticatePlatformSubject subject method now db = Inr p"
  shows "prn_Subject p = TrimSpace subject \<and> ((\<exists>c \<in> set (adb_platform_credentials db). plc_Subject c = TrimSpace subject \<and> \<not> plc_Disabled c) \<or>
    (\<exists>c \<in> set (adb_service_credentials db). sac_Subject c = TrimSpace subject \<and> \<not> sac_Disabled c))"
  using assms by (auto simp: AuthenticatePlatformSubject_def serviceAPIPrincipalAvailable_def split: if_split_asm)

text \<open>
  C27: a web session carries current authority only. If a token is accepted, its row is neither revoked nor
  expired and its identity is bound to an actor in good standing now: a user session without
  a tenant has no principal, one with a tenant acts for a user with an active account as an
  active member of the active tenant, with the names of exactly the active roles the member has at
  this moment, and a platform session has a credential that is still enabled.\<close>

theorem session_authority_current:
  assumes ok: "AuthenticateWebSession now raw db = (Inr a, db')"
  shows "db' = db \<and> (\<exists>r i. r \<in> set (adb_web_sessions db) \<and> wsr_TokenHash r = TokenHash raw \<and> wsr_RevokedAt r = None \<and> now < wsr_ExpiresAt r \<and>
      i \<in> set (adb_web_identities db) \<and> wid_Issuer i = wsr_Issuer r \<and> wid_Subject i = wsr_Subject r \<and>
      (if wid_ActorKind i = WebActorUser
       then (\<exists>x \<in> set (adb_users db). usr_ID x = wid_ActorID i \<and> usr_Status x = ''active'') \<and>
         (if wsr_ActiveTenantID r = '''' then wsa_Principal a = no_principal
          else prn_Authenticated (wsa_Principal a) \<and> prn_UserID (wsa_Principal a) = wid_ActorID i \<and> prn_TenantID (wsa_Principal a) = wsr_ActiveTenantID r \<and>
            (\<exists>x \<in> set (adb_tenants db). ten_ID x = wsr_ActiveTenantID r \<and> ten_Status x = TenantStatusActive) \<and>
            (\<exists>m \<in> set (adb_memberships db). mem_TenantID m = wsr_ActiveTenantID r \<and> mem_UserID m = wid_ActorID i \<and> mem_Status m = MemberActive) \<and>
            set (prn_Roles (wsa_Principal a)) = {rr_Name q |q. q \<in> set (adb_roles db) \<and> rr_TenantID q = wsr_ActiveTenantID r \<and> rr_Status q = RoleActive \<and>
              \<lparr>mr_TenantID = wsr_ActiveTenantID r, mr_UserID = wid_ActorID i, mr_RoleID = rr_ID q\<rparr> \<in> set (adb_member_roles db)})
       else wid_ActorKind i = WebActorPlatform \<and> prn_Subject (wsa_Principal a) = TrimSpace (wid_ActorID i) \<and>
         ((\<exists>c \<in> set (adb_platform_credentials db). plc_Subject c = TrimSpace (wid_ActorID i) \<and> \<not> plc_Disabled c) \<or>
          (\<exists>c \<in> set (adb_service_credentials db). sac_Subject c = TrimSpace (wid_ActorID i) \<and> \<not> sac_Disabled c))))"
proof -
  obtain r where r: "session_at (TokenHash raw) db = Some r" "wsr_RevokedAt r = None" "now < wsr_ExpiresAt r" "authenticateWebSessionRecord now r db = (Inr a, db')"
    using ok by (auto simp: AuthenticateWebSession_def split: if_split_asm option.split_asm)
  have row: "r \<in> set (adb_web_sessions db)" "wsr_TokenHash r = TokenHash raw" using r(1) by (auto simp: session_at_def find_Some_iff)
  obtain i where i: "identity_at (wsr_Issuer r) (wsr_Subject r) db = Some i" using r(4) by (auto simp: authenticateWebSessionRecord_def split: option.split_asm)
  have valid: "validateWebIdentityAuthority now i db = None" using r(4) i by (auto simp: authenticateWebSessionRecord_def split: option.split_asm)
  have ident: "i \<in> set (adb_web_identities db)" "wid_Issuer i = wsr_Issuer r" "wid_Subject i = wsr_Subject r"
    using i by (auto simp: identity_at_def find_Some_iff)
  note auth = r(4) [unfolded authenticateWebSessionRecord_def i valid option.case Let_def]
  show ?thesis
  proof (cases "wid_ActorKind i = WebActorUser")
    case True
    have "\<exists>x \<in> set (adb_users db). usr_ID x = wid_ActorID i \<and> usr_Status x = ''active''"
    proof (rule ccontr)
      assume "\<not> ?thesis"
      then have "filter (\<lambda>u. usr_ID u = wid_ActorID i \<and> usr_Status u = ''active'') (adb_users db) = []" by (auto simp: filter_empty_conv)
      then show False using valid True by (simp add: validateWebIdentityAuthority_def)
    qed
    moreover have "db' = db" using auth True by (auto split: if_split_asm sum.split_asm)
    moreover have "wsa_Principal a = no_principal" if "wsr_ActiveTenantID r = []" using auth True that by auto
    moreover have "resolveWebUserPrincipal (wid_ActorID i) (wsr_ActiveTenantID r) db = Inr (wsa_Principal a)" if "wsr_ActiveTenantID r \<noteq> []"
      using auth True that by (auto split: sum.split_asm)
    ultimately show ?thesis using r row ident True
      by (intro conjI exI [of _ r] exI [of _ i]) (auto dest!: resolved_principal)
  next
    case False
    then have kind: "wid_ActorKind i = WebActorPlatform" using valid by (simp add: validateWebIdentityAuthority_def split: if_split_asm)
    obtain p where p: "AuthenticatePlatformSubject (wid_ActorID i) AuthMethodWeb now db = Inr p" "wsa_Principal a = p" "db' = db"
      using auth kind by (auto split: sum.split_asm)
    then show ?thesis using r row ident kind
      by (intro conjI exI [of _ r] exI [of _ i]) (auto dest!: platform_principal)
  qed
qed

lemma session_authority_unchanged: "AuthenticateWebSession now raw db = (Inr a, db') \<Longrightarrow> db' = db"
  by (auto simp: AuthenticateWebSession_def authenticateWebSessionRecord_def Let_def split: if_split_asm option.split_asm sum.split_asm)

subsection \<open>Switching the tenant\<close>

text \<open>The rows a switch hits: at most the one of its token.\<close>

lemma switch_one:
  assumes "session_keys db" "length (filter (switch_hit now h v) (adb_web_sessions db)) = 1"
  obtains s where "session_at h db = Some s" "wsr_ContextVersion s = v" "wsr_RevokedAt s = None" "now < wsr_ExpiresAt s"
proof -
  have "filter (switch_hit now h v) (adb_web_sessions db) \<noteq> []" using assms(2) by auto
  then obtain s where s: "s \<in> set (adb_web_sessions db)" "switch_hit now h v s" by (auto simp: filter_empty_conv)
  then show thesis using session_at_unique [OF assms(1) s(1)] by (intro that [of s]) (auto simp: switch_hit_def)
qed

lemma session_at_update:
  assumes "\<And>s. wsr_TokenHash (f s) = wsr_TokenHash s"
  shows "session_at h (db\<lparr>adb_web_sessions := update_where P f (adb_web_sessions db)\<rparr>) = map_option (\<lambda>s. if P s then f s else s) (session_at h db)"
  using assms by (simp add: session_at_def find_update_where)

lemma authenticated_context:
  assumes "AuthenticateWebSession now raw db = (Inr a, db')" "session_at (TokenHash raw) db = Some s"
  shows "wsc_ContextVersion (wsa_Session a) = wsr_ContextVersion s \<and> wsc_CSRFToken (wsa_Session a) = wsr_CSRFToken s \<and>
    (wsc_ActorKind (wsa_Session a) = WebActorUser \<longrightarrow> wsc_ActiveTenantID (wsa_Session a) = wsr_ActiveTenantID s)"
  using assms by (auto simp: AuthenticateWebSession_def authenticateWebSessionRecord_def session_context_def Let_def
      split: if_split_asm option.split_asm sum.split_asm)

text \<open>
  C28: switching the tenant of a session is optimistic and complete. If a switch is answered with a session,
  whatever other requests committed between its check and its write, they left the
  version it had read untouched, and the stored session is for the requested tenant, has the next
  version and the fresh CSRF token; the token of before no longer validates.\<close>

theorem session_switch_atomic:
  assumes keys: "session_keys db" and ok: "SwitchWebSessionTenant (sess_run others) csrf now raw tenant db = (Inr b, db')" and fresh: "csrf \<noteq> wsc_CSRFToken (wsa_Session a)"
    and before: "AuthenticateWebSession now raw db = (Inr a, db0)"
  shows "\<exists>s s'. session_at (TokenHash raw) (sess_run others db0) = Some s \<and> wsr_ContextVersion s = wsc_ContextVersion (wsa_Session a) \<and> wsr_RevokedAt s = None \<and>
    session_at (TokenHash raw) db' = Some s' \<and> wsr_ActiveTenantID s' = TrimSpace tenant \<and> wsr_ContextVersion s' = wsr_ContextVersion s + 1 \<and>
    wsr_CSRFToken s' = csrf \<and> wsc_CSRFToken (wsa_Session b) = csrf \<and> \<not> ValidateWebSessionCSRF b (wsc_CSRFToken (wsa_Session a))"
proof -
  let ?v = "wsc_ContextVersion (wsa_Session a)" and ?d = "sess_run others db0"
  let ?hit = "switch_hit now (TokenHash raw) ?v"
  let ?f = "\<lambda>s. s\<lparr>wsr_ActiveTenantID := TrimSpace tenant, wsr_ContextVersion := wsr_ContextVersion s + 1, wsr_CSRFToken := csrf, wsr_UpdatedAt := now\<rparr>"
  let ?d3 = "?d\<lparr>adb_web_sessions := update_where ?hit ?f (adb_web_sessions ?d)\<rparr>"
  have one: "length (filter ?hit (adb_web_sessions ?d)) = 1 \<and> AuthenticateWebSession now raw ?d3 = (Inr b, db')"
    using ok before by (auto simp: SwitchWebSessionTenant_def Let_def split: if_split_asm sum.split_asm prod.split_asm)
  have "session_keys ?d" using sess_progress(2) [of db0 others] progress_authenticate [of db now raw] keys before by (simp add: progress_def)
  then obtain s where s: "session_at (TokenHash raw) ?d = Some s" "wsr_ContextVersion s = ?v" "wsr_RevokedAt s = None" "now < wsr_ExpiresAt s"
    by (rule switch_one [of ?d now "TokenHash raw" ?v]) (use one in simp)
  have hash: "wsr_TokenHash s = TokenHash raw" using s(1) by (auto simp: session_at_def find_Some_iff)
  have s': "session_at (TokenHash raw) ?d3 = Some (?f s)" using s hash by (simp add: session_at_update switch_hit_def)
  have "db' = ?d3" using session_authority_unchanged one by blast
  moreover have "wsc_CSRFToken (wsa_Session b) = csrf" using authenticated_context [of now raw ?d3 b db', OF _ s'] one by simp
  ultimately show ?thesis using s s' fresh by (intro exI [of _ s] exI [of _ "?f s"]) (simp add: ValidateWebSessionCSRF_def Let_def)
qed

subsection \<open>Login flows are used once\<close>

text \<open>A consumed flow is gone, whichever browser presents it again and whenever.\<close>

lemma login_flow_single_use:
  assumes "ConsumeWebLoginFlow state browser now db = (Inr f, db')"
  shows "ConsumeWebLoginFlow state browser' now' db' = (Inl Acc_WebLoginFlow, db')"
proof -
  obtain row where row: "find (\<lambda>f. wlf_StateHash f = TokenHash state \<and> wlf_BrowserHash f = TokenHash browser) (adb_login_flows db) = Some row"
    "db' = db\<lparr>adb_login_flows := filter (\<lambda>f. wlf_StateHash f \<noteq> wlf_StateHash row) (adb_login_flows db)\<rparr>"
    using assms by (auto simp: ConsumeWebLoginFlow_def split: if_split_asm option.split_asm)
  then have "wlf_StateHash row = TokenHash state" by (auto simp: find_Some_iff)
  then have "find (\<lambda>f. wlf_StateHash f = TokenHash state \<and> wlf_BrowserHash f = TokenHash browser') (adb_login_flows db') = None"
    by (auto simp: row(2) find_None_iff)
  then show ?thesis by (simp add: ConsumeWebLoginFlow_def)
qed

subsection \<open>Witnesses\<close>

definition ex_identity :: webIdentityRecord where
  "ex_identity = new_identity ''idp'' ''biz-user:u2'' WebActorUser ''u2'' 5"

definition ex_session :: "string \<Rightarrow> webSessionRecord" where
  "ex_session h = \<lparr>wsr_TokenHash = h, wsr_Issuer = ''idp'', wsr_Subject = ''biz-user:u2'', wsr_ActiveTenantID = ''t1'', wsr_ContextVersion = 3,
     wsr_CSRFToken = ''c1'', wsr_ExpiresAt = 100, wsr_RevokedAt = None, wsr_RevokedReason = '''', wsr_RevokedScope = '''', wsr_CreatedAt = 5, wsr_UpdatedAt = 5\<rparr>"

definition ex_web :: "string \<Rightarrow> AccDB" where
  "ex_web h = ex_team\<lparr>adb_web_identities := [ex_identity], adb_web_sessions := [ex_session h]\<rparr>"

lemma ex_web_fields [simp]:
  "adb_web_sessions (ex_web h) = [ex_session h]" "adb_web_identities (ex_web h) = [ex_identity]" "session_keys (ex_web h)"
  by (simp_all add: ex_web_def session_keys_def)

lemma ex_plain: "TrimSpace ''u2'' = ''u2''" "TrimSpace ''t1'' = ''t1''" "TrimSpace ''tok'' = ''tok''"
  by (code_simp, code_simp, code_simp)

lemma ex_suspension: "isl (SuspendTenantMember ex_env (ex_caller ''t1'' ''u1'') ''u2'' 1 '''' 9 (ex_web h)) = False"
  by code_simp

theorem deactivation_ends_sessions_witness:
  "\<exists>m db'. SuspendTenantMember ex_env (ex_caller ''t1'' ''u1'') ''u2'' 1 '''' 9 (ex_web (TokenHash ''tok'')) = Inr (m, db') \<and>
     fst (AuthenticateWebSession 20 ''tok'' (sess_run [Member_Request (Activate_Member ex_env (ex_caller ''t1'' ''u1'') ''u2'' 2 '''' 10), Refresh_Session 12 ''tok'' 30 60] db')) =
       Inl Acc_WebSessionInvalid"
proof -
  let ?db = "ex_web (TokenHash ''tok'')"
  let ?r = "SuspendTenantMember ex_env (ex_caller ''t1'' ''u1'') ''u2'' 1 '''' 9 ?db"
  obtain m db' where s: "?r = Inr (m, db')" using ex_suspension [of "TokenHash ''tok''"] by (cases ?r) auto
  have ctx: "trustedTenantID (ex_caller ''t1'' ''u1'') = Inr (TrimSpace ''t1'')" using ex_plain(2) by (simp add: trustedTenantID_def ex_caller_def)
  have "AuthenticateWebSession 20 ''tok'' (sess_run as db') = (Inl Acc_WebSessionInvalid, sess_run as db')" for as
    by (rule deactivation_ends_sessions [OF ex_web_fields(3) ctx disjI1 [OF s], of "ex_session (TokenHash ''tok'')" "''tok''" ex_identity])
      (simp_all add: ex_session_def ex_identity_def new_identity_def ex_plain)
  then show ?thesis using s by (intro exI [of _ m] exI [of _ db']) (simp del: sess_run.simps)
qed

lemma ex_authentication:
  "\<exists>a. AuthenticateWebSession 20 ''tok'' (ex_web (TokenHash ''tok'')) = (Inr a, ex_web (TokenHash ''tok'')) \<and> wsc_CSRFToken (wsa_Session a) = ''c1'' \<and>
     wsc_ActorKind (wsa_Session a) = WebActorUser \<and> wsc_UserID (wsa_Session a) = ''u2'' \<and> wsc_ContextVersion (wsa_Session a) = 3"
proof -
  let ?db = "ex_web (TokenHash ''tok'')"
  have at: "session_at (TokenHash ''tok'') ?db = Some (ex_session (TokenHash ''tok''))" by (simp add: session_at_def ex_session_def)
  have id: "identity_at ''idp'' ''biz-user:u2'' ?db = Some ex_identity" by (simp add: identity_at_def ex_identity_def new_identity_def)
  have "validateWebIdentityAuthority 20 ex_identity ?db = None"
    by (simp add: validateWebIdentityAuthority_def ex_identity_def new_identity_def ex_web_def ex_team_def)
  moreover obtain p where "resolveWebUserPrincipal ''u2'' ''t1'' ?db = Inr p"
    by (simp add: resolveWebUserPrincipal_def user_active_def tenant_active_def membership_active_def member_is_def ex_web_def ex_team_def ex_tenant_def ex_membership_def)
  moreover have "wid_ActorKind ex_identity = WebActorUser" "wid_ActorID ex_identity = ''u2''" by (simp_all add: ex_identity_def new_identity_def)
  ultimately show ?thesis
    using at id ex_plain(3) by (simp add: AuthenticateWebSession_def authenticateWebSessionRecord_def session_context_def ex_session_def Let_def)
qed

theorem session_authority_current_witness:
  "\<exists>a. AuthenticateWebSession 20 ''tok'' (ex_web (TokenHash ''tok'')) = (Inr a, ex_web (TokenHash ''tok'')) \<and>
     (\<exists>r. r \<in> set (adb_web_sessions (ex_web (TokenHash ''tok''))) \<and> wsr_TokenHash r = TokenHash ''tok'' \<and> 20 < wsr_ExpiresAt r)"
proof -
  obtain a where a: "AuthenticateWebSession 20 ''tok'' (ex_web (TokenHash ''tok'')) = (Inr a, ex_web (TokenHash ''tok''))" using ex_authentication by blast
  from session_authority_current [OF a] a show ?thesis by blast
qed

lemma ex_switch:
  "\<exists>b db'. SwitchWebSessionTenant (sess_run []) ''c2'' 20 ''tok'' ''t1'' (ex_web (TokenHash ''tok'')) = (Inr b, db')"
proof -
  let ?db = "ex_web (TokenHash ''tok'')"
  obtain a where a: "AuthenticateWebSession 20 ''tok'' ?db = (Inr a, ?db)" "wsc_ActorKind (wsa_Session a) = WebActorUser" "wsc_UserID (wsa_Session a) = ''u2''"
    "wsc_ContextVersion (wsa_Session a) = 3" using ex_authentication by blast
  let ?s = "(ex_session (TokenHash ''tok''))\<lparr>wsr_ActiveTenantID := ''t1'', wsr_ContextVersion := 4, wsr_CSRFToken := ''c2'', wsr_UpdatedAt := 20\<rparr>"
  let ?db3 = "?db\<lparr>adb_web_sessions := [?s]\<rparr>"
  have at: "session_at (TokenHash ''tok'') ?db3 = Some ?s" by (simp add: session_at_def ex_session_def)
  have id: "identity_at ''idp'' ''biz-user:u2'' ?db3 = Some ex_identity" by (simp add: identity_at_def ex_identity_def new_identity_def)
  have "validateWebIdentityAuthority 20 ex_identity ?db3 = None"
    by (simp add: validateWebIdentityAuthority_def ex_identity_def new_identity_def ex_web_def ex_team_def)
  moreover obtain p where "resolveWebUserPrincipal ''u2'' ''t1'' ?db3 = Inr p" "resolveWebUserPrincipal ''u2'' ''t1'' ?db = Inr p"
    by (simp add: resolveWebUserPrincipal_def user_active_def tenant_active_def membership_active_def member_is_def active_role_names_def
        ex_web_def ex_team_def ex_tenant_def ex_membership_def)
  moreover have "wid_ActorKind ex_identity = WebActorUser" "wid_ActorID ex_identity = ''u2''" by (simp_all add: ex_identity_def new_identity_def)
  ultimately have "\<exists>b. AuthenticateWebSession 20 ''tok'' ?db3 = (Inr b, ?db3)" "resolveWebUserPrincipal ''u2'' ''t1'' ?db = Inr p"
    using at id ex_plain(3) by (simp_all add: AuthenticateWebSession_def authenticateWebSessionRecord_def session_context_def ex_session_def Let_def)
  then show ?thesis using a ex_plain
    by (simp add: SwitchWebSessionTenant_def Let_def switch_hit_def update_where_def ex_session_def) blast
qed

theorem session_switch_atomic_witness:
  "\<exists>b db'. SwitchWebSessionTenant (sess_run []) ''c2'' 20 ''tok'' ''t1'' (ex_web (TokenHash ''tok'')) = (Inr b, db') \<and> wsc_CSRFToken (wsa_Session b) = ''c2''"
proof -
  obtain b db' where b: "SwitchWebSessionTenant (sess_run []) ''c2'' 20 ''tok'' ''t1'' (ex_web (TokenHash ''tok'')) = (Inr b, db')" using ex_switch by blast
  obtain a where a: "AuthenticateWebSession 20 ''tok'' (ex_web (TokenHash ''tok'')) = (Inr a, ex_web (TokenHash ''tok''))" "wsc_CSRFToken (wsa_Session a) = ''c1''"
    using ex_authentication by blast
  have "''c2'' \<noteq> wsc_CSRFToken (wsa_Session a)" using a(2) by simp
  from session_switch_atomic [OF ex_web_fields(3) b this a(1)] b show ?thesis by blast
qed

end
