(* ===== verification/Service_Access.thy ===== *)
theory Service_Access
  imports Web_Session
begin

section \<open>Platform and service access\<close>

text \<open>
  \<open>internal/access/infrastructure/persistence/platform.go\<close> and \<open>service_api_signature.go\<close>: the credentials and direct
  grants of platform subjects, and the signed access of services: keys with their operations,
  secret digests and validity, and the nonces that make a signature good for one request.
\<close>

subsection \<open>Platform subjects\<close>

definition ensure_platform_credential :: "platformCredentialRecord \<Rightarrow> AccDB \<Rightarrow> AccDB" where
  "ensure_platform_credential c db =
     (if \<exists>r \<in> set (adb_platform_credentials db). plc_TokenHash r = plc_TokenHash c then db
      else db\<lparr>adb_platform_credentials := adb_platform_credentials db @ [c]\<rparr>)"

definition ensure_platform_grant :: "platformPermissionGrantRecord \<Rightarrow> AccDB \<Rightarrow> AccDB" where
  "ensure_platform_grant g db =
     (if g \<in> set (adb_platform_grants db) then db else db\<lparr>adb_platform_grants := adb_platform_grants db @ [g]\<rparr>)"

definition BootstrapPlatform :: "string \<Rightarrow> string \<Rightarrow> string list \<Rightarrow> time \<Rightarrow> AccDB \<Rightarrow> acc_error + AccDB" where
  "BootstrapPlatform subject token permissions now db =
     (let subject = TrimSpace subject; token = TrimSpace token
      in if subject = '''' \<or> token = '''' \<or> permissions = [] then Inl (Acc_Message ''platform bootstrap requires subject, token and permissions'')
         else Inr (fold (\<lambda>p. ensure_platform_grant \<lparr>plg_Subject = subject, plg_Permission = p\<rparr>) (filter (\<lambda>p. p \<noteq> '''') (map TrimSpace permissions))
           (ensure_platform_credential \<lparr>plc_TokenHash = TokenHash token, plc_Subject = subject, plc_Disabled = False, plc_CreatedAt = now\<rparr> db)))"

definition AuthenticatePlatform :: "string \<Rightarrow> string \<Rightarrow> AccDB \<Rightarrow> acc_error + Principal" where
  "AuthenticatePlatform apiKeyMethod rawToken db =
     (if TrimSpace rawToken = '''' then Inl Acc_Unauthorized
      else case find (\<lambda>c. plc_TokenHash c = TokenHash rawToken \<and> \<not> plc_Disabled c) (adb_platform_credentials db) of
        None \<Rightarrow> Inl Acc_Unauthorized
      | Some c \<Rightarrow> Inr (no_principal\<lparr>prn_Subject := plc_Subject c, prn_AuthMethod := apiKeyMethod, prn_Authenticated := True\<rparr>))"

definition PrincipalGrants :: "bool \<Rightarrow> Principal \<Rightarrow> string list \<Rightarrow> time \<Rightarrow> AccDB \<Rightarrow> Grant list" where
  "PrincipalGrants tenantBound p permissions now db =
     (if tenantBound then ResolveCurrentGrants (prn_TenantID p) (prn_UserID p) permissions db
      else let subject = TrimSpace (prn_Subject p); keys = filter (\<lambda>v. v \<noteq> '''') (map TrimSpace permissions)
        in if subject = '''' \<or> permissions = [] then []
           else case AuthenticatePlatformSubject subject (prn_AuthMethod p) now db of
             Inl e \<Rightarrow> []
           | Inr q \<Rightarrow>
               if keys = [] then []
               else sort_key grant_Permission (map (\<lambda>g. \<lparr>grant_Permission = plg_Permission g, grant_RoleID = ''direct:'' @ subject, grant_Scope = ''''\<rparr>)
                 (filter (\<lambda>g. plg_Subject g = subject \<and> plg_Permission g \<in> set keys) (adb_platform_grants db))))"

subsection \<open>Service keys\<close>

definition canonicalServiceAPIOperations :: "string list \<Rightarrow> string list" where
  "canonicalServiceAPIOperations values = sort (remdups (filter (\<lambda>v. v \<noteq> '''') (map TrimSpace values)))"

record ServiceAPICredentialBootstrap =
  sab_KeyID :: string
  sab_Subject :: string
  sab_TenantID :: string
  sab_SecretDigest :: string
  sab_Operations :: "string list"
  sab_Disabled :: bool
  sab_NotBefore :: "time option"
  sab_ExpiresAt :: "time option"

record ServiceAPICredential =
  sc_KeyID :: string
  sc_Subject :: string
  sc_TenantID :: string
  sc_Operations :: "string list"
  sc_Disabled :: bool
  sc_NotBefore :: "time option"
  sc_ExpiresAt :: "time option"

text \<open>The upsert of a key: a key that exists keeps its \<open>disabled\<close> flag and the instant it was created.\<close>

definition upsert_credential :: "serviceAPICredentialRecord \<Rightarrow> serviceAPICredentialRecord list \<Rightarrow> serviceAPICredentialRecord list" where
  "upsert_credential c rows =
     (if \<exists>r \<in> set rows. sac_KeyID r = sac_KeyID c
      then update_where (\<lambda>r. sac_KeyID r = sac_KeyID c)
             (\<lambda>r. r\<lparr>sac_Subject := sac_Subject c, sac_TenantID := sac_TenantID c, sac_SecretDigest := sac_SecretDigest c, sac_NotBefore := sac_NotBefore c,
                     sac_ExpiresAt := sac_ExpiresAt c, sac_UpdatedAt := sac_UpdatedAt c\<rparr>) rows
      else rows @ [c])"

fun bootstrap_keys :: "time \<Rightarrow> ServiceAPICredentialBootstrap list \<Rightarrow> AccDB \<Rightarrow> acc_error + AccDB" where
  "bootstrap_keys now [] db = Inr db"
| "bootstrap_keys now (value # rest) db =
     (let keyID = TrimSpace (sab_KeyID value); subject = TrimSpace (sab_Subject value); digest = TrimSpace (sab_SecretDigest value);
          operations = canonicalServiceAPIOperations (sab_Operations value)
      in if keyID = '''' \<or> subject = '''' \<or> length digest \<noteq> 64 \<or> sab_Operations value = [] then Inl (Acc_Message ''invalid service api credential bootstrap'')
         else if operations = [] then Inl (Acc_Message ''service api credential operations are required'')
         else bootstrap_keys now rest
           (db\<lparr>adb_service_credentials := upsert_credential
                 \<lparr>sac_KeyID = keyID, sac_Subject = subject, sac_TenantID = TrimSpace (sab_TenantID value), sac_SecretDigest = digest, sac_Disabled = sab_Disabled value,
                  sac_NotBefore = sab_NotBefore value, sac_ExpiresAt = sab_ExpiresAt value, sac_CreatedAt = now, sac_UpdatedAt = now\<rparr> (adb_service_credentials db),
               adb_service_operations := filter (\<lambda>o'. sao_KeyID o' \<noteq> keyID) (adb_service_operations db) @
                 map (\<lambda>op. \<lparr>sao_KeyID = keyID, sao_Operation = op\<rparr>) operations\<rparr>))"

definition BootstrapServiceAPICredentials :: "time \<Rightarrow> ServiceAPICredentialBootstrap list \<Rightarrow> AccDB \<Rightarrow> acc_error + AccDB" where
  "BootstrapServiceAPICredentials now values db = bootstrap_keys now values db"

definition ResolveServiceAPICredential :: "string \<Rightarrow> string \<Rightarrow> string \<Rightarrow> string \<Rightarrow> time \<Rightarrow> AccDB \<Rightarrow> acc_error + ServiceAPICredential" where
  "ResolveServiceAPICredential keyID secretDigest operation tenantID now db =
     (let keyID = TrimSpace keyID; secretDigest = TrimSpace secretDigest; operation = TrimSpace operation; tenantID = TrimSpace tenantID
      in if keyID = '''' \<or> length secretDigest \<noteq> 64 \<or> operation = '''' then Inl Acc_Unauthorized
         else case find (\<lambda>r. sac_KeyID r = keyID) (adb_service_credentials db) of
           None \<Rightarrow> Inl Acc_Unauthorized
         | Some row \<Rightarrow>
             if sac_Disabled row \<or> sac_SecretDigest row \<noteq> secretDigest then Inl Acc_Unauthorized
             else if (case sac_NotBefore row of None \<Rightarrow> False | Some nb \<Rightarrow> now < nb) then Inl Acc_Unauthorized
             else if (case sac_ExpiresAt row of None \<Rightarrow> False | Some e \<Rightarrow> \<not> now < e) then Inl Acc_Unauthorized
             else if sac_TenantID row \<noteq> '''' \<and> sac_TenantID row \<noteq> tenantID then Inl Acc_Unauthorized
             else if length (filter (\<lambda>r. sao_KeyID r = keyID \<and> sao_Operation r = operation) (adb_service_operations db)) \<noteq> 1 then Inl Acc_Unauthorized
             else Inr \<lparr>sc_KeyID = sac_KeyID row, sc_Subject = sac_Subject row, sc_TenantID = sac_TenantID row,
                       sc_Operations = sort (map sao_Operation (filter (\<lambda>r. sao_KeyID r = keyID) (adb_service_operations db))),
                       sc_Disabled = sac_Disabled row, sc_NotBefore = sac_NotBefore row, sc_ExpiresAt = sac_ExpiresAt row\<rparr>)"

definition DisableServiceAPICredential :: "string \<Rightarrow> time \<Rightarrow> AccDB \<Rightarrow> unit stored" where
  "DisableServiceAPICredential keyID now db =
     (let hit = (\<lambda>r. sac_KeyID r = TrimSpace keyID);
          db1 = db\<lparr>adb_service_credentials := update_where hit (\<lambda>r. r\<lparr>sac_Disabled := True, sac_UpdatedAt := now\<rparr>) (adb_service_credentials db)\<rparr>
      in if length (filter hit (adb_service_credentials db)) \<noteq> 1 then (Inl Acc_Unauthorized, db1) else (Inr (), db1))"

subsection \<open>Nonces\<close>

text \<open>
  Old nonces are deleted after an acceptance, a thousand at most; which of them is up to the database: \<open>pick\<close> is
  the order of this run.
\<close>

definition sweep_nonces :: "(serviceAPINonceRecord list \<Rightarrow> serviceAPINonceRecord list) \<Rightarrow> time \<Rightarrow> serviceAPINonceRecord list \<Rightarrow> serviceAPINonceRecord list" where
  "sweep_nonces pick now rows =
     (let gone = take 1000 (pick (filter (\<lambda>r. san_ExpiresAt r < now - Hour) rows))
      in filter (\<lambda>r. \<not> (r \<in> set gone \<and> san_ExpiresAt r < now - Hour)) rows)"

definition ConsumeServiceAPINonce :: "(serviceAPINonceRecord list \<Rightarrow> serviceAPINonceRecord list) \<Rightarrow> string \<Rightarrow> string \<Rightarrow> time \<Rightarrow> time \<Rightarrow> AccDB \<Rightarrow> unit stored" where
  "ConsumeServiceAPINonce pick keyID nonce expiresAt now db =
     (let keyID = TrimSpace keyID; nonce = TrimSpace nonce
      in if keyID = '''' \<or> nonce = '''' then (Inl Acc_Unauthorized, db)
         else if \<exists>r \<in> set (adb_service_nonces db). san_KeyID r = keyID \<and> san_Nonce r = nonce then (Inl Acc_ServiceReplay, db)
         else (Inr (), db\<lparr>adb_service_nonces := sweep_nonces pick now
                 (adb_service_nonces db @ [\<lparr>san_KeyID = keyID, san_Nonce = nonce, san_ExpiresAt = expiresAt, san_CreatedAt = now\<rparr>])\<rparr>))"

subsection \<open>Histories\<close>

datatype service_action =
    Bootstrap_Keys time "ServiceAPICredentialBootstrap list"
  | Disable_Key string time
  | Consume_Nonce "serviceAPINonceRecord list \<Rightarrow> serviceAPINonceRecord list" string string time time
  | Bootstrap_Platform string string "string list" time

fun service_step :: "service_action \<Rightarrow> AccDB \<Rightarrow> AccDB" where
  "service_step (Bootstrap_Keys now values) db = (case BootstrapServiceAPICredentials now values db of Inl e \<Rightarrow> db | Inr db' \<Rightarrow> db')"
| "service_step (Disable_Key k now) db = snd (DisableServiceAPICredential k now db)"
| "service_step (Consume_Nonce pick k n e now) db = snd (ConsumeServiceAPINonce pick k n e now db)"
| "service_step (Bootstrap_Platform s t ps now) db = (case BootstrapPlatform s t ps now db of Inl e \<Rightarrow> db | Inr db' \<Rightarrow> db')"

definition service_run :: "service_action list \<Rightarrow> AccDB \<Rightarrow> AccDB" where
  "service_run as db = fold service_step as db"

subsection \<open>A disabled key stays disabled\<close>

definition key_off :: "string \<Rightarrow> serviceAPICredentialRecord list \<Rightarrow> bool" where
  "key_off k rows \<longleftrightarrow> k \<in> set (map sac_KeyID rows) \<and> (\<forall>r \<in> set rows. sac_KeyID r = k \<longrightarrow> sac_Disabled r)"

definition key_disabled :: "string \<Rightarrow> AccDB \<Rightarrow> bool" where
  "key_disabled k db \<longleftrightarrow> key_off k (adb_service_credentials db)"

lemma key_off_update:
  assumes "key_off k rows" "\<And>r. sac_KeyID (f r) = sac_KeyID r" "\<And>r. sac_Disabled r \<Longrightarrow> sac_Disabled (f r)"
  shows "key_off k (update_where P f rows)"
  using assms unfolding key_off_def map_update_where [of sac_KeyID f, OF assms(2)] by (auto simp: set_update_where)

lemma upsert_keeps_disabled: "key_off k rows \<Longrightarrow> key_off k (upsert_credential c rows)"
proof (cases "\<exists>r \<in> set rows. sac_KeyID r = sac_KeyID c")
  case True
  then show "key_off k rows \<Longrightarrow> ?thesis" unfolding upsert_credential_def by (simp add: key_off_update)
next
  case False
  then show "key_off k rows \<Longrightarrow> ?thesis" by (auto simp: upsert_credential_def key_off_def)
qed

lemma bootstrap_keeps_disabled: "bootstrap_keys now vs db = Inr db' \<Longrightarrow> key_disabled k db \<Longrightarrow> key_disabled k db'"
proof (induction vs arbitrary: db)
  case (Cons v vs)
  show ?case
    using Cons.prems(1) by (auto simp: Let_def split: if_split_asm intro!: Cons.IH)
      (use Cons.prems(2) in \<open>simp add: key_disabled_def upsert_keeps_disabled\<close>)
qed simp

lemma platform_bootstrap_frame:
  "BootstrapPlatform s t ps now db = Inr db' \<Longrightarrow> adb_service_credentials db' = adb_service_credentials db \<and> adb_service_nonces db' = adb_service_nonces db"
proof -
  have "adb_service_credentials (fold (\<lambda>p. ensure_platform_grant \<lparr>plg_Subject = x, plg_Permission = p\<rparr>) qs d) = adb_service_credentials d \<and>
      adb_service_nonces (fold (\<lambda>p. ensure_platform_grant \<lparr>plg_Subject = x, plg_Permission = p\<rparr>) qs d) = adb_service_nonces d" for qs d x
    by (induction qs arbitrary: d) (simp_all add: ensure_platform_grant_def)
  then show "BootstrapPlatform s t ps now db = Inr db' \<Longrightarrow> ?thesis"
    by (auto simp: BootstrapPlatform_def Let_def ensure_platform_credential_def split: if_split_asm)
qed

lemma service_step_disabled: "key_disabled k db \<Longrightarrow> key_disabled k (service_step a db)"
proof (cases a)
  case (Bootstrap_Keys now vs)
  then show "key_disabled k db \<Longrightarrow> ?thesis" by (auto simp: BootstrapServiceAPICredentials_def bootstrap_keeps_disabled split: sum.split)
next
  case (Bootstrap_Platform s t ps now)
  then show "key_disabled k db \<Longrightarrow> ?thesis" by (auto simp: key_disabled_def dest!: platform_bootstrap_frame split: sum.split)
qed (auto simp: key_disabled_def DisableServiceAPICredential_def ConsumeServiceAPINonce_def key_off_update Let_def)

lemma service_run_disabled: "key_disabled k db \<Longrightarrow> key_disabled k (service_run as db)"
  by (induction as arbitrary: db) (auto simp: service_run_def service_step_disabled)

text \<open>
  C30: a disabled service key stays disabled. After the key was disabled no history of reloads of the trusted
  configuration, other revocations and requests makes it resolve again, with whatever secret, for
  whatever operation and tenant, at whatever time.\<close>

theorem service_key_never_resurrected:
  assumes "DisableServiceAPICredential k now db = (Inr (), db')"
  shows "ResolveServiceAPICredential k digest operation tenant now' (service_run as db') = Inl Acc_Unauthorized"
proof -
  have one: "length (filter (\<lambda>r. sac_KeyID r = TrimSpace k) (adb_service_credentials db)) = 1"
    and db': "db' = db\<lparr>adb_service_credentials := update_where (\<lambda>r. sac_KeyID r = TrimSpace k) (\<lambda>r. r\<lparr>sac_Disabled := True, sac_UpdatedAt := now\<rparr>) (adb_service_credentials db)\<rparr>"
    using assms by (auto simp: DisableServiceAPICredential_def Let_def split: if_split_asm)
  have "filter (\<lambda>r. sac_KeyID r = TrimSpace k) (adb_service_credentials db) \<noteq> []" using one by auto
  then have "TrimSpace k \<in> set (map sac_KeyID (adb_service_credentials db'))" by (force simp: db' map_update_where filter_empty_conv image_iff)
  then have "key_disabled (TrimSpace k) db'" by (auto simp: db' key_disabled_def key_off_def set_update_where)
  then have off: "key_disabled (TrimSpace k) (service_run as db')" by (rule service_run_disabled)
  then obtain r where r: "find (\<lambda>r. sac_KeyID r = TrimSpace k) (adb_service_credentials (service_run as db')) = Some r"
    by (cases "find (\<lambda>r. sac_KeyID r = TrimSpace k) (adb_service_credentials (service_run as db'))") (auto simp: key_disabled_def key_off_def find_None_iff)
  have "sac_Disabled r" using off r by (auto simp: key_disabled_def key_off_def find_Some_iff)
  then show ?thesis using r by (simp add: ResolveServiceAPICredential_def Let_def)
qed

subsection \<open>A nonce is accepted once\<close>

definition nonce_kept :: "string \<Rightarrow> string \<Rightarrow> time \<Rightarrow> AccDB \<Rightarrow> bool" where
  "nonce_kept k n e db \<longleftrightarrow> (\<exists>r \<in> set (adb_service_nonces db). san_KeyID r = k \<and> san_Nonce r = n \<and> san_ExpiresAt r = e)"

lemma sweep_keeps: "r \<in> set rows \<Longrightarrow> now \<le> san_ExpiresAt r + Hour \<Longrightarrow> r \<in> set (sweep_nonces pick now rows)"
  by (simp add: sweep_nonces_def Let_def)

fun swept_at :: "service_action \<Rightarrow> time \<Rightarrow> bool" where
  "swept_at (Consume_Nonce pick k n e now) limit \<longleftrightarrow> limit < now"
| "swept_at a limit \<longleftrightarrow> False"

lemma bootstrap_nonces: "bootstrap_keys now vs db = Inr db' \<Longrightarrow> adb_service_nonces db' = adb_service_nonces db"
  by (induction vs arbitrary: db) (auto simp: Let_def split: if_split_asm)

lemma service_step_nonce: "nonce_kept k n e db \<Longrightarrow> \<not> swept_at a (e + Hour) \<Longrightarrow> nonce_kept k n e (service_step a db)"
proof (cases a)
  case (Consume_Nonce pick k' n' e' now)
  assume kept: "nonce_kept k n e db" and a: "\<not> swept_at a (e + Hour)"
  obtain r where r: "r \<in> set (adb_service_nonces db)" "san_KeyID r = k" "san_Nonce r = n" "san_ExpiresAt r = e" using kept by (auto simp: nonce_kept_def)
  have "r \<in> set (sweep_nonces pick now (adb_service_nonces db @ [x]))" for x
    by (rule sweep_keeps) (use r a Consume_Nonce in auto)
  then show ?thesis using r Consume_Nonce by (auto simp: ConsumeServiceAPINonce_def nonce_kept_def Let_def)
next
  case (Bootstrap_Keys now vs)
  then show "nonce_kept k n e db \<Longrightarrow> ?thesis"
    by (auto simp: BootstrapServiceAPICredentials_def nonce_kept_def dest!: bootstrap_nonces split: sum.split)
next
  case (Bootstrap_Platform s t ps now)
  then show "nonce_kept k n e db \<Longrightarrow> ?thesis" by (auto simp: nonce_kept_def dest!: platform_bootstrap_frame split: sum.split)
qed (auto simp: nonce_kept_def DisableServiceAPICredential_def Let_def)

lemma service_run_nonce:
  "nonce_kept k n e db \<Longrightarrow> \<forall>a \<in> set as. \<not> swept_at a (e + Hour) \<Longrightarrow> nonce_kept k n e (service_run as db)"
  by (induction as arbitrary: db) (simp_all add: service_run_def service_step_nonce)

text \<open>
  C29: a signed request cannot be replayed. A nonce that was accepted for a key is refused with the replay error
  whenever it comes again, until an hour after the validity it was stored with, in every history of
  requests, reloads and revocations and whatever the sweeps delete.\<close>

theorem service_nonce_once:
  assumes first: "ConsumeServiceAPINonce pick k n e now db = (Inr (), db')" and fresh: "now \<le> e + Hour"
    and history: "\<forall>a \<in> set as. \<not> swept_at a (e + Hour)"
  shows "ConsumeServiceAPINonce pick' k n e' now' (service_run as db') = (Inl Acc_ServiceReplay, service_run as db')"
proof -
  let ?r = "\<lparr>san_KeyID = TrimSpace k, san_Nonce = TrimSpace n, san_ExpiresAt = e, san_CreatedAt = now\<rparr>"
  have ok: "TrimSpace k \<noteq> []" "TrimSpace n \<noteq> []" and db': "db' = db\<lparr>adb_service_nonces := sweep_nonces pick now (adb_service_nonces db @ [?r])\<rparr>"
    using first by (auto simp: ConsumeServiceAPINonce_def Let_def split: if_split_asm)
  have "?r \<in> set (sweep_nonces pick now (adb_service_nonces db @ [?r]))" using fresh by (intro sweep_keeps) simp_all
  then have "nonce_kept (TrimSpace k) (TrimSpace n) e db'" unfolding db' nonce_kept_def by (intro bexI [of _ ?r]) simp_all
  then have "nonce_kept (TrimSpace k) (TrimSpace n) e (service_run as db')" using history by (rule service_run_nonce)
  then show ?thesis using ok by (auto simp: ConsumeServiceAPINonce_def nonce_kept_def Let_def)
qed

text \<open>A key that resolves is enabled, within its validity, bound to the tenant if to any, and allowed the operation.\<close>

lemma service_credential_sound:
  assumes "ResolveServiceAPICredential k digest operation tenant now db = Inr c"
  shows "\<exists>r \<in> set (adb_service_credentials db). sac_KeyID r = TrimSpace k \<and> \<not> sac_Disabled r \<and> sac_SecretDigest r = TrimSpace digest \<and>
    (sac_TenantID r = [] \<or> sac_TenantID r = TrimSpace tenant) \<and> TrimSpace operation \<in> set (sc_Operations c)"
proof -
  obtain r where r: "find (\<lambda>r. sac_KeyID r = TrimSpace k) (adb_service_credentials db) = Some r" "\<not> sac_Disabled r" "sac_SecretDigest r = TrimSpace digest"
    "sac_TenantID r = [] \<or> sac_TenantID r = TrimSpace tenant"
    and n: "length (filter (\<lambda>r. sao_KeyID r = TrimSpace k \<and> sao_Operation r = TrimSpace operation) (adb_service_operations db)) = 1"
    and c: "sc_Operations c = sort (map sao_Operation (filter (\<lambda>r. sao_KeyID r = TrimSpace k) (adb_service_operations db)))"
    using assms unfolding ResolveServiceAPICredential_def Let_def by (auto split: if_split_asm option.split_asm)
  have "filter (\<lambda>r. sao_KeyID r = TrimSpace k \<and> sao_Operation r = TrimSpace operation) (adb_service_operations db) \<noteq> []" using n by auto
  then have "TrimSpace operation \<in> set (sc_Operations c)" by (auto simp: c filter_empty_conv image_iff)
  then show ?thesis using r by (intro bexI [of _ r]) (auto simp: find_Some_iff)
qed

subsection \<open>Witnesses\<close>

definition ex_key :: serviceAPICredentialRecord where
  "ex_key = \<lparr>sac_KeyID = ''k1'', sac_Subject = ''svc'', sac_TenantID = '''', sac_SecretDigest = ''d'', sac_Disabled = False, sac_NotBefore = None, sac_ExpiresAt = None,
     sac_CreatedAt = 1, sac_UpdatedAt = 1\<rparr>"

definition ex_service :: AccDB where
  "ex_service = empty_adb\<lparr>adb_service_credentials := [ex_key]\<rparr>"

lemma ex_disable: "\<exists>db'. DisableServiceAPICredential ''k1'' 5 ex_service = (Inr (), db')"
proof -
  have "TrimSpace ''k1'' = ''k1''" by code_simp
  then show ?thesis by (simp add: DisableServiceAPICredential_def ex_service_def ex_key_def Let_def)
qed

theorem service_key_never_resurrected_witness:
  "\<exists>db'. DisableServiceAPICredential ''k1'' 5 ex_service = (Inr (), db') \<and>
     ResolveServiceAPICredential ''k1'' ''d'' ''op'' '''' 9 (service_run [Bootstrap_Platform ''ops'' ''tok'' [''p''] 7] db') = Inl Acc_Unauthorized"
proof -
  obtain db' where d: "DisableServiceAPICredential ''k1'' 5 ex_service = (Inr (), db')" using ex_disable by blast
  from service_key_never_resurrected [OF d, of "''d''" "''op''" "''''" 9 "[Bootstrap_Platform ''ops'' ''tok'' [''p''] 7]"] d show ?thesis by blast
qed

lemma ex_consume: "\<exists>db'. ConsumeServiceAPINonce id ''k1'' ''n1'' 60 50 ex_service = (Inr (), db')"
proof -
  have "TrimSpace ''k1'' = ''k1''" by code_simp
  moreover have "TrimSpace ''n1'' = ''n1''" by code_simp
  ultimately show ?thesis by (simp add: ConsumeServiceAPINonce_def ex_service_def empty_adb_def Let_def)
qed

theorem service_nonce_once_witness:
  "\<exists>db'. ConsumeServiceAPINonce id ''k1'' ''n1'' 60 50 ex_service = (Inr (), db') \<and>
     fst (ConsumeServiceAPINonce id ''k1'' ''n1'' 90 55 (service_run [Consume_Nonce id ''k1'' ''n2'' 70 52, Disable_Key ''k1'' 53] db')) = Inl Acc_ServiceReplay"
proof -
  obtain db' where c: "ConsumeServiceAPINonce id ''k1'' ''n1'' 60 50 ex_service = (Inr (), db')" using ex_consume by blast
  have h: "\<forall>a \<in> set [Consume_Nonce id ''k1'' ''n2'' 70 52, Disable_Key ''k1'' 53]. \<not> swept_at a (60 + Hour)"
    by (simp add: Hour_def Minute_def Second_def)
  have "(50 :: time) \<le> 60 + Hour" by (simp add: Hour_def Minute_def Second_def)
  from service_nonce_once [OF c this h, of id 90 55] c show ?thesis by simp
qed

end
