(* ===== verification/Devices.thy ===== *)
theory Devices
  imports Business_Scope
begin

section \<open>Devices and sites\<close>

text \<open>
  \<open>internal/deviceops\<close>: the tables of devices and sites with their generated repositories
  (\<open>infrastructure/persistence/zz_yunka_repositories_gen.go\<close>, \<open>scoped.go\<close>), the guard that puts the caller's current
  business scope into the context of a request (\<open>security/scope.go\<close>) and the services behind it
  (\<open>application/service.go\<close>, \<open>local_composition.go\<close>, \<open>cross_application_transfer.go\<close>, \<open>remote_saga.go\<close>,
  \<open>site_scope_directory.go\<close>, \<open>device_owner_invariant.go\<close>).

  A row is the domain value beside the time of its deletion: the records embed \<open>gorm.DeletedAt\<close>, so every query of a
  repository passes over deleted rows and \<open>Delete\<close> only sets the time. Unique keys see deleted rows too. What the
  gateway has established about a request is the record \<open>AuthorizedRequest\<close>; the resolver of business scopes is an
  argument of the guard, as in the code, and so are the calls of child operations and the staging of a saga. A service
  call is one transaction: on an error the tables are as they were.
\<close>

subsection \<open>Tables\<close>

datatype dev_error =
    Dev_Invalid | Dev_NotFound | Dev_Conflict | Dev_ScopeMissing | Dev_Denied | Dev_DelegatedDenied | Dev_ProofRequired
  | Dev_TenantRequired \<comment> \<open>no trusted tenant principal\<close>
  | Dev_TargetUnavailable | Dev_ValueRequired
  | Dev_Duplicate \<comment> \<open>a primary key or unique index refuses the row\<close>
  | Dev_Access acc_error
  | Dev_Stager string

record Device =
  dev_ID :: string
  dev_TenantID :: string
  dev_CreatedBy :: string
  dev_Name :: string
  dev_Serial :: string
  dev_SiteID :: string
  dev_Version :: uint64
  dev_CreatedAt :: time
  dev_UpdatedAt :: time

record DevicePORecord =
  dpr_Domain :: Device
  dpr_DeletedAt :: "time option"

record Site =
  st_ID :: string
  st_TenantID :: string
  st_Name :: string
  st_Version :: uint64
  st_CreatedAt :: time
  st_UpdatedAt :: time

record SitePORecord =
  spr_Domain :: Site
  spr_DeletedAt :: "time option"

record DevDB =
  ddb_devices :: "DevicePORecord list"
  ddb_sites :: "SitePORecord list"

subsection \<open>The context of a request\<close>

record AuthorizedRequest =
  arq_Principal :: Principal
  arq_Operation :: string
  arq_Permissions :: "string list"
  arq_Allowed :: bool

record Scope =
  sco_All :: bool
  sco_Self :: bool
  sco_Sites :: bool
  sco_UserID :: string
  sco_SiteIDs :: "string list"
  sco_TenantID :: string
  sco_PolicyBound :: bool
  sco_PolicySiteIDs :: "string list"

record DelegatedResourceProof =
  prf_OwnerTenantID :: string
  prf_GranteeTenantID :: string
  prf_ResourceID :: string
  prf_Permission :: string
  prf_DelegationID :: string
  prf_DelegationVersion :: uint64

record DevContext =
  ctx_Principal :: "Principal option"
  ctx_Authorized :: "AuthorizedRequest option"
  ctx_Scope :: "Scope option"
  ctx_Proof :: "DelegatedResourceProof option"

definition WithScope :: "DevContext \<Rightarrow> Scope \<Rightarrow> DevContext" where
  "WithScope ctx scope = ctx\<lparr>ctx_Scope := Some scope\<rparr>"

definition RequireScope :: "DevContext \<Rightarrow> dev_error + Scope" where
  "RequireScope ctx = (case ctx_Scope ctx of None \<Rightarrow> Inl Dev_ScopeMissing | Some s \<Rightarrow> Inr s)"

definition trustedTenant :: "DevContext \<Rightarrow> dev_error + string" where
  "trustedTenant ctx =
     (case ctx_Principal ctx of
        None \<Rightarrow> Inl Dev_TenantRequired
      | Some p \<Rightarrow> if \<not> prn_Authenticated p \<or> prn_TenantID p = '''' then Inl Dev_TenantRequired else Inr (prn_TenantID p))"

subsection \<open>The guard of the business scope\<close>

definition AllowsSite :: "Scope \<Rightarrow> string \<Rightarrow> bool" where
  "AllowsSite scope siteID \<longleftrightarrow>
     (if sco_PolicyBound scope \<and> siteID \<notin> set (sco_PolicySiteIDs scope) then False
      else if sco_All scope \<or> sco_Self scope then True
      else if \<not> sco_Sites scope then False
      else siteID \<in> set (sco_SiteIDs scope))"

text \<open>The requests the guard looks into, and the site a write asks for.\<close>

datatype DeviceRequest =
    ListDevicesRequest
  | GetDeviceRequest string
  | CreateDeviceRequest string string string
  | UpdateDeviceRequest string uint64 string string
  | DeleteDeviceRequest string uint64
  | TransferDeviceRequest string string uint64
  | ValidateTransferTargetRequest string

fun requested_site :: "DeviceRequest \<Rightarrow> string" where
  "requested_site (ValidateTransferTargetRequest siteID) = TrimSpace siteID"
| "requested_site (CreateDeviceRequest siteID name serial) = TrimSpace siteID"
| "requested_site (UpdateDeviceRequest i version name siteID) = TrimSpace siteID"
| "requested_site (TransferDeviceRequest i siteID version) = TrimSpace siteID"
| "requested_site _ = ''''"

definition resource_permission :: "string \<Rightarrow> string" where
  "resource_permission operation =
     (if operation \<in> {''device.list'', ''device.get''} then ''device.read''
      else if operation \<in> {''device.create'', ''device.provision.remote''} then ''device.create''
      else if operation \<in> {''device.update'', ''device.transfer'', ''device.transfer.local''} then ''device.update''
      else if operation = ''device.delete'' then ''device.delete''
      else if operation = ''site.validate_transfer_target'' then ''site.read''
      else '''')"

type_synonym scope_resolver = "string \<Rightarrow> string \<Rightarrow> string \<Rightarrow> acc_error + EffectiveBusinessScope"

definition Guard_Prepare :: "scope_resolver \<Rightarrow> DevContext \<Rightarrow> AuthorizedRequest \<Rightarrow> DeviceRequest \<Rightarrow> dev_error + DevContext" where
  "Guard_Prepare policies ctx authorized input =
     (let p = arq_Principal authorized; permission = resource_permission (arq_Operation authorized)
      in if permission = '''' then Inl Dev_Denied
         else case policies (prn_TenantID p) (prn_UserID p) permission of
           Inl e \<Rightarrow> if e = Acc_InvalidDataPolicy then Inl Dev_Denied else Inl (Dev_Access e)
         | Inr current \<Rightarrow>
             let scope = \<lparr>sco_All = ebs_All current, sco_Self = ebs_Self current, sco_Sites = ebs_Sites current, sco_UserID = prn_UserID p,
                          sco_SiteIDs = ebs_MemberSiteIDs current, sco_TenantID = prn_TenantID p, sco_PolicyBound = ebs_PolicyBound current,
                          sco_PolicySiteIDs = ebs_PolicySiteIDs current\<rparr>
             in if \<not> sco_All scope \<and> \<not> sco_Sites scope \<and> \<not> sco_Self scope then Inl Dev_Denied
                else if (sco_Sites scope \<or> sco_Self scope \<or> sco_PolicyBound scope) \<and> (TrimSpace (sco_UserID scope) = '''' \<or> TrimSpace (sco_TenantID scope) = '''')
                then Inl Dev_Denied
                else if requested_site input \<noteq> '''' \<and> \<not> AllowsSite scope (requested_site input) then Inl Dev_Denied
                else Inr (WithScope ctx scope))"

subsection \<open>The repositories\<close>

definition live_device :: "string \<Rightarrow> DevicePORecord \<Rightarrow> bool" where
  "live_device tenantID r \<longleftrightarrow> dpr_DeletedAt r = None \<and> dev_TenantID (dpr_Domain r) = tenantID"

definition live_site :: "string \<Rightarrow> SitePORecord \<Rightarrow> bool" where
  "live_site tenantID r \<longleftrightarrow> spr_DeletedAt r = None \<and> st_TenantID (spr_Domain r) = tenantID"

text \<open>
  The conditions \<open>applyDeviceDataScope\<close> adds to a query. Its subquery over the sites is SQL text, to which no
  condition on deleted rows is added.
\<close>

definition applyDeviceDataScope :: "Scope \<Rightarrow> DevDB \<Rightarrow> Device \<Rightarrow> bool" where
  "applyDeviceDataScope scope db d \<longleftrightarrow>
     (if sco_PolicyBound scope
      then if sco_TenantID scope = '''' \<or> sco_PolicySiteIDs scope = [] then False
           else dev_SiteID d \<in> set (sco_PolicySiteIDs scope) \<and>
                (\<exists>s \<in> set (ddb_sites db). st_TenantID (spr_Domain s) = sco_TenantID scope \<and> st_ID (spr_Domain s) = dev_SiteID d)
      else True) \<and>
     (if sco_All scope then True
      else if sco_Sites scope \<and> sco_Self scope
      then if sco_SiteIDs scope = [] then dev_CreatedBy d = sco_UserID scope
           else dev_SiteID d \<in> set (sco_SiteIDs scope) \<or> dev_CreatedBy d = sco_UserID scope
      else if sco_Sites scope then if sco_SiteIDs scope = [] then False else dev_SiteID d \<in> set (sco_SiteIDs scope)
      else if sco_Self scope then dev_CreatedBy d = sco_UserID scope
      else False)"

definition ListVisible :: "DevContext \<Rightarrow> DevDB \<Rightarrow> dev_error + Device list" where
  "ListVisible ctx db =
     bind_result (RequireScope ctx) (\<lambda>scope.
     bind_result (trustedTenant ctx) (\<lambda>tenantID.
     Inr (sort_key (\<lambda>d. - dev_CreatedAt d)
       (map dpr_Domain (filter (\<lambda>r. live_device tenantID r \<and> applyDeviceDataScope scope db (dpr_Domain r)) (ddb_devices db))))))"

definition GetVisible :: "DevContext \<Rightarrow> string \<Rightarrow> DevDB \<Rightarrow> dev_error + Device" where
  "GetVisible ctx i db =
     bind_result (RequireScope ctx) (\<lambda>scope.
     bind_result (trustedTenant ctx) (\<lambda>tenantID.
     case find (\<lambda>r. live_device tenantID r \<and> applyDeviceDataScope scope db (dpr_Domain r) \<and> dev_ID (dpr_Domain r) = i) (ddb_devices db) of
       None \<Rightarrow> Inl Dev_NotFound | Some r \<Rightarrow> Inr (dpr_Domain r)))"

definition device_clash :: "Device \<Rightarrow> DevicePORecord \<Rightarrow> bool" where
  "device_clash d r \<longleftrightarrow> dev_ID (dpr_Domain r) = dev_ID d \<or> dev_TenantID (dpr_Domain r) = dev_TenantID d \<and> dev_Serial (dpr_Domain r) = dev_Serial d"

definition Device_Create :: "DevContext \<Rightarrow> Device \<Rightarrow> time \<Rightarrow> DevDB \<Rightarrow> dev_error + (Device \<times> DevDB)" where
  "Device_Create ctx d now db =
     bind_result (trustedTenant ctx) (\<lambda>tenantID.
     let d = d\<lparr>dev_TenantID := tenantID, dev_Version := (if dev_Version d = 0 then 1 else dev_Version d),
               dev_CreatedAt := (if IsZero (dev_CreatedAt d) then now else dev_CreatedAt d), dev_UpdatedAt := now\<rparr>
     in if \<exists>r \<in> set (ddb_devices db). device_clash d r then Inl Dev_Duplicate
        else Inr (d, db\<lparr>ddb_devices := ddb_devices db @ [\<lparr>dpr_Domain = d, dpr_DeletedAt = None\<rparr>]\<rparr>))"

definition Device_Get :: "DevContext \<Rightarrow> string \<Rightarrow> DevDB \<Rightarrow> dev_error + Device" where
  "Device_Get ctx i db =
     bind_result (trustedTenant ctx) (\<lambda>tenantID.
     case find (\<lambda>r. live_device tenantID r \<and> dev_ID (dpr_Domain r) = i) (ddb_devices db) of
       None \<Rightarrow> Inl Dev_NotFound | Some r \<Rightarrow> Inr (dpr_Domain r))"

text \<open>\<open>List\<close> with a limit and an offset: neither applies when it is not positive.\<close>

definition page_of :: "int \<Rightarrow> int \<Rightarrow> 'a list \<Rightarrow> 'a list" where
  "page_of limit offset xs = (let ys = (if offset > 0 then drop (nat offset) xs else xs) in if limit > 0 then take (nat limit) ys else ys)"

definition Device_List :: "DevContext \<Rightarrow> int \<Rightarrow> int \<Rightarrow> DevDB \<Rightarrow> dev_error + Device list" where
  "Device_List ctx limit offset db =
     bind_result (trustedTenant ctx) (\<lambda>tenantID.
     Inr (page_of limit offset (sort_key (\<lambda>d. - dev_CreatedAt d) (map dpr_Domain (filter (live_device tenantID) (ddb_devices db))))))"

definition device_at :: "string \<Rightarrow> string \<Rightarrow> uint64 \<Rightarrow> DevicePORecord \<Rightarrow> bool" where
  "device_at tenantID i version r \<longleftrightarrow> live_device tenantID r \<and> dev_ID (dpr_Domain r) = i \<and> dev_Version (dpr_Domain r) = version"

definition Device_Update :: "DevContext \<Rightarrow> Device \<Rightarrow> uint64 \<Rightarrow> time \<Rightarrow> DevDB \<Rightarrow> dev_error + DevDB" where
  "Device_Update ctx d expected now db =
     (if dev_ID d = '''' then Inl Dev_ValueRequired
      else bind_result (trustedTenant ctx) (\<lambda>tenantID.
        let hit = device_at tenantID (dev_ID d) expected
        in if (\<exists>r \<in> set (ddb_devices db). hit r) \<and>
              (\<exists>r \<in> set (ddb_devices db). dev_ID (dpr_Domain r) \<noteq> dev_ID d \<and> dev_TenantID (dpr_Domain r) = tenantID \<and> dev_Serial (dpr_Domain r) = dev_Serial d)
           then Inl Dev_Duplicate
           else if length (filter hit (ddb_devices db)) \<noteq> 1 then Inl Dev_Conflict
           else Inr (db\<lparr>ddb_devices := update_where hit
             (\<lambda>r. r\<lparr>dpr_Domain := (dpr_Domain r)\<lparr>dev_CreatedBy := dev_CreatedBy d, dev_Name := dev_Name d, dev_Serial := dev_Serial d, dev_SiteID := dev_SiteID d,
                dev_Version := dev_Version (dpr_Domain r) + 1, dev_UpdatedAt := now\<rparr>\<rparr>) (ddb_devices db)\<rparr>)))"

definition Device_Delete :: "DevContext \<Rightarrow> string \<Rightarrow> uint64 \<Rightarrow> time \<Rightarrow> DevDB \<Rightarrow> dev_error + DevDB" where
  "Device_Delete ctx i expected now db =
     bind_result (trustedTenant ctx) (\<lambda>tenantID.
     let hit = device_at tenantID i expected
     in if length (filter hit (ddb_devices db)) \<noteq> 1 then Inl Dev_Conflict
        else Inr (db\<lparr>ddb_devices := update_where hit (\<lambda>r. r\<lparr>dpr_DeletedAt := Some now\<rparr>) (ddb_devices db)\<rparr>))"

definition Site_Create :: "DevContext \<Rightarrow> Site \<Rightarrow> time \<Rightarrow> DevDB \<Rightarrow> dev_error + (Site \<times> DevDB)" where
  "Site_Create ctx s now db =
     bind_result (trustedTenant ctx) (\<lambda>tenantID.
     let s = s\<lparr>st_TenantID := tenantID, st_Version := (if st_Version s = 0 then 1 else st_Version s),
               st_CreatedAt := (if IsZero (st_CreatedAt s) then now else st_CreatedAt s), st_UpdatedAt := now\<rparr>
     in if \<exists>r \<in> set (ddb_sites db). st_ID (spr_Domain r) = st_ID s then Inl Dev_Duplicate
        else Inr (s, db\<lparr>ddb_sites := ddb_sites db @ [\<lparr>spr_Domain = s, spr_DeletedAt = None\<rparr>]\<rparr>))"

definition Site_Get :: "DevContext \<Rightarrow> string \<Rightarrow> DevDB \<Rightarrow> dev_error + Site" where
  "Site_Get ctx i db =
     bind_result (trustedTenant ctx) (\<lambda>tenantID.
     case find (\<lambda>r. live_site tenantID r \<and> st_ID (spr_Domain r) = i) (ddb_sites db) of
       None \<Rightarrow> Inl Dev_NotFound | Some r \<Rightarrow> Inr (spr_Domain r))"

definition Site_List :: "DevContext \<Rightarrow> int \<Rightarrow> int \<Rightarrow> DevDB \<Rightarrow> dev_error + Site list" where
  "Site_List ctx limit offset db =
     bind_result (trustedTenant ctx) (\<lambda>tenantID.
     Inr (page_of limit offset (sort_key (\<lambda>s. - st_CreatedAt s) (map spr_Domain (filter (live_site tenantID) (ddb_sites db))))))"

definition site_at :: "string \<Rightarrow> string \<Rightarrow> uint64 \<Rightarrow> SitePORecord \<Rightarrow> bool" where
  "site_at tenantID i version r \<longleftrightarrow> live_site tenantID r \<and> st_ID (spr_Domain r) = i \<and> st_Version (spr_Domain r) = version"

definition Site_Update :: "DevContext \<Rightarrow> Site \<Rightarrow> uint64 \<Rightarrow> time \<Rightarrow> DevDB \<Rightarrow> dev_error + DevDB" where
  "Site_Update ctx s expected now db =
     (if st_ID s = '''' then Inl Dev_ValueRequired
      else bind_result (trustedTenant ctx) (\<lambda>tenantID.
        let hit = site_at tenantID (st_ID s) expected
        in if length (filter hit (ddb_sites db)) \<noteq> 1 then Inl Dev_Conflict
           else Inr (db\<lparr>ddb_sites := update_where hit (\<lambda>r. r\<lparr>spr_Domain := (spr_Domain r)\<lparr>st_Name := st_Name s, st_Version := st_Version (spr_Domain r) + 1,
             st_UpdatedAt := now\<rparr>\<rparr>) (ddb_sites db)\<rparr>)))"

definition Site_Delete :: "DevContext \<Rightarrow> string \<Rightarrow> uint64 \<Rightarrow> time \<Rightarrow> DevDB \<Rightarrow> dev_error + DevDB" where
  "Site_Delete ctx i expected now db =
     bind_result (trustedTenant ctx) (\<lambda>tenantID.
     let hit = site_at tenantID i expected
     in if length (filter hit (ddb_sites db)) \<noteq> 1 then Inl Dev_Conflict
        else Inr (db\<lparr>ddb_sites := update_where hit (\<lambda>r. r\<lparr>spr_DeletedAt := Some now\<rparr>) (ddb_sites db)\<rparr>))"

subsection \<open>The services\<close>

definition ListDevices :: "DevContext \<Rightarrow> DevDB \<Rightarrow> dev_error + Device list" where
  "ListDevices ctx db = ListVisible ctx db"

definition GetDevice :: "DevContext \<Rightarrow> string \<Rightarrow> DevDB \<Rightarrow> dev_error + Device" where
  "GetDevice ctx i db = (if TrimSpace i = '''' then Inl Dev_Invalid else GetVisible ctx (TrimSpace i) db)"

text \<open>
  \<open>CreateDevice\<close>, and \<open>Provision\<close>, which stages the remote steps of the new device in the same transaction:
  \<open>stage\<close> is what the stager answers to the plan of the device.
\<close>

definition Provision :: "(Device \<Rightarrow> dev_error err) \<Rightarrow> DevContext \<Rightarrow> string \<Rightarrow> string \<Rightarrow> string \<Rightarrow> string \<Rightarrow> time \<Rightarrow> DevDB \<Rightarrow> dev_error + (Device \<times> DevDB)" where
  "Provision stage ctx newID siteID name serial now db =
     (let siteID = TrimSpace siteID; name = TrimSpace name; serial = TrimSpace serial
      in if siteID = '''' \<or> name = '''' \<or> serial = '''' then Inl Dev_Invalid
         else case RequireScope ctx of
           Inl e \<Rightarrow> Inl Dev_ScopeMissing
         | Inr access \<Rightarrow>
             if TrimSpace (sco_UserID access) = '''' then Inl Dev_ScopeMissing
             else bind_result (Site_Get ctx siteID db) (\<lambda>site.
               bind_result (Device_Create ctx \<lparr>dev_ID = newID, dev_TenantID = '''', dev_CreatedBy = sco_UserID access, dev_Name = name, dev_Serial = serial,
                   dev_SiteID = siteID, dev_Version = 0, dev_CreatedAt = 0, dev_UpdatedAt = 0\<rparr> now db) (\<lambda>(value, db').
                 guard (stage value) (Inr (value, db')))))"

definition CreateDevice :: "DevContext \<Rightarrow> string \<Rightarrow> string \<Rightarrow> string \<Rightarrow> string \<Rightarrow> time \<Rightarrow> DevDB \<Rightarrow> dev_error + (Device \<times> DevDB)" where
  "CreateDevice ctx newID siteID name serial now db =
     (let siteID = TrimSpace siteID; name = TrimSpace name; serial = TrimSpace serial
      in if siteID = '''' \<or> name = '''' \<or> serial = '''' then Inl Dev_Invalid
         else case RequireScope ctx of
           Inl e \<Rightarrow> Inl Dev_ScopeMissing
         | Inr access \<Rightarrow>
             if TrimSpace (sco_UserID access) = '''' then Inl Dev_ScopeMissing
             else bind_result (Site_Get ctx siteID db) (\<lambda>site.
               Device_Create ctx \<lparr>dev_ID = newID, dev_TenantID = '''', dev_CreatedBy = sco_UserID access, dev_Name = name, dev_Serial = serial,
                   dev_SiteID = siteID, dev_Version = 0, dev_CreatedAt = 0, dev_UpdatedAt = 0\<rparr> now db))"

text \<open>A target site is asked for through a child operation, when the service has one: its answer is the site's identifier.\<close>

type_synonym target_check = "(string \<Rightarrow> dev_error + string option) option"

definition check_target :: "target_check \<Rightarrow> string \<Rightarrow> dev_error err" where
  "check_target targets siteID =
     (case targets of
        None \<Rightarrow> Some Dev_TargetUnavailable
      | Some ask \<Rightarrow> (case ask siteID of Inl e \<Rightarrow> Some e | Inr target \<Rightarrow> if target \<noteq> Some siteID then Some Dev_Invalid else None))"

definition UpdateDevice :: "target_check \<Rightarrow> DevContext \<Rightarrow> string \<Rightarrow> uint64 \<Rightarrow> string \<Rightarrow> string \<Rightarrow> time \<Rightarrow> DevDB \<Rightarrow> dev_error + (Device \<times> DevDB)" where
  "UpdateDevice targets ctx i version name siteID now db =
     (if TrimSpace i = '''' \<or> version = 0 then Inl Dev_Invalid
      else bind_result (GetVisible ctx (TrimSpace i) db) (\<lambda>current.
        let name = (if TrimSpace name = '''' then dev_Name current else TrimSpace name);
            siteID = (if TrimSpace siteID = '''' then dev_SiteID current else TrimSpace siteID)
        in guard (if siteID \<noteq> dev_SiteID current then check_target targets siteID else None)
          (bind_result (Device_Update ctx (current\<lparr>dev_Name := name, dev_SiteID := siteID\<rparr>) version now db) (\<lambda>db'.
           bind_result (GetVisible ctx (dev_ID current) db') (\<lambda>d. Inr (d, db'))))))"

definition DeleteDevice :: "DevContext \<Rightarrow> string \<Rightarrow> uint64 \<Rightarrow> time \<Rightarrow> DevDB \<Rightarrow> dev_error + DevDB" where
  "DeleteDevice ctx i version now db =
     (if TrimSpace i = '''' \<or> version = 0 then Inl Dev_Invalid
      else bind_result (GetVisible ctx (TrimSpace i) db) (\<lambda>current. Device_Delete ctx (dev_ID current) version now db))"

definition LocalTransfer :: "DevContext \<Rightarrow> string \<Rightarrow> uint64 \<Rightarrow> string \<Rightarrow> string \<Rightarrow> time \<Rightarrow> DevDB \<Rightarrow> dev_error + (Device \<times> DevDB)" where
  "LocalTransfer ctx i version name siteID now db =
     (if TrimSpace i = '''' \<or> TrimSpace siteID = '''' \<or> version = 0 then Inl Dev_Invalid
      else bind_result (GetVisible ctx (TrimSpace i) db) (\<lambda>current.
        bind_result (Site_Get ctx (TrimSpace siteID) db) (\<lambda>site.
        let d = current\<lparr>dev_SiteID := TrimSpace siteID, dev_Name := (if TrimSpace name = '''' then dev_Name current else TrimSpace name)\<rparr>
        in bind_result (Device_Update ctx d version now db) (\<lambda>db'.
           bind_result (GetVisible ctx (dev_ID current) db') (\<lambda>d. Inr (d, db'))))))"

definition ValidateTransferTarget :: "DevContext \<Rightarrow> string \<Rightarrow> DevDB \<Rightarrow> dev_error + Site" where
  "ValidateTransferTarget ctx siteID db = (if TrimSpace siteID = '''' then Inl Dev_Invalid else Site_Get ctx (TrimSpace siteID) db)"

text \<open>The transfer is composed of the two child operations \<open>sites\<close> and \<open>devices\<close>.\<close>

definition TransferDevice :: "(string \<Rightarrow> dev_error + string option) \<Rightarrow> (string \<Rightarrow> uint64 \<Rightarrow> string \<Rightarrow> dev_error + 'a) \<Rightarrow> string \<Rightarrow> string \<Rightarrow> uint64 \<Rightarrow> dev_error + 'a" where
  "TransferDevice sites devices i target version =
     (if TrimSpace i = '''' \<or> TrimSpace target = '''' \<or> version = 0 then Inl Dev_Invalid
      else bind_result (sites (TrimSpace target)) (\<lambda>answer.
        case answer of
          None \<Rightarrow> Inl Dev_Invalid
        | Some siteID \<Rightarrow> if TrimSpace siteID = '''' \<or> siteID \<noteq> TrimSpace target then Inl Dev_Invalid
                         else devices (TrimSpace i) version siteID))"

definition AssertDeviceOwnedByActorTenant :: "DevContext \<Rightarrow> string \<Rightarrow> DevDB \<Rightarrow> dev_error err" where
  "AssertDeviceOwnedByActorTenant ctx deviceID db =
     (if TrimSpace deviceID = '''' then Some Dev_Invalid
      else case Device_Get ctx (TrimSpace deviceID) db of Inl e \<Rightarrow> Some e | Inr d \<Rightarrow> None)"

subsection \<open>The directory of sites\<close>

fun assignable_ids :: "string list \<Rightarrow> string list \<Rightarrow> dev_error + string list" where
  "assignable_ids ids [] = Inr ids"
| "assignable_ids ids (raw # rest) =
     (let i = TrimSpace raw
      in if i = '''' then Inl Dev_Invalid
         else if i \<in> set ids then assignable_ids ids rest
         else assignable_ids (ids @ [i]) rest)"

fun get_sites :: "DevContext \<Rightarrow> string list \<Rightarrow> DevDB \<Rightarrow> dev_error + Site list" where
  "get_sites ctx [] db = Inr []"
| "get_sites ctx (i # ids) db = bind_result (Site_Get ctx i db) (\<lambda>s. bind_result (get_sites ctx ids db) (\<lambda>rest. Inr (s # rest)))"

definition resolveAssignableSites :: "DevContext \<Rightarrow> string list \<Rightarrow> DevDB \<Rightarrow> dev_error + (Site list \<times> nat)" where
  "resolveAssignableSites ctx values db =
     bind_result (assignable_ids [] values) (\<lambda>ids.
     if ids = [] then Inl Dev_Invalid
     else bind_result (get_sites ctx (sort ids) db) (\<lambda>sites. Inr (sites, length sites)))"

definition ListAssignableRoleSites :: "DevContext \<Rightarrow> bool \<Rightarrow> string list \<Rightarrow> DevDB \<Rightarrow> dev_error + (Site list \<times> nat)" where
  "ListAssignableRoleSites ctx resolve siteIDs db = (if \<not> resolve then Inl Dev_Invalid else resolveAssignableSites ctx siteIDs db)"

definition Contains :: "string \<Rightarrow> string \<Rightarrow> bool" where
  "Contains s sub \<longleftrightarrow> (\<exists>i \<in> {0..length s}. take (length sub) (drop i s) = sub)"

text \<open>
  One page of the directory. The page and its size are 32 bits wide and a page has at most 100 entries, so the
  product of the source does not leave 64 bits and natural numbers serve.
\<close>

definition site_page :: "uint32 \<Rightarrow> uint32 \<Rightarrow> Site list \<Rightarrow> Site list" where
  "site_page page pageSize filtered =
     (let start = (unat page - 1) * unat pageSize
      in if start \<ge> length filtered then [] else take (min (start + unat pageSize) (length filtered) - start) (drop start filtered))"

definition ListAssignableMemberSites :: "(string \<Rightarrow> string) \<Rightarrow> DevContext \<Rightarrow> bool \<Rightarrow> string list \<Rightarrow> string \<Rightarrow> uint32 \<Rightarrow> uint32 \<Rightarrow> DevDB
    \<Rightarrow> dev_error + (Site list \<times> nat)" where
  "ListAssignableMemberSites lower ctx resolve siteIDs query page pageSize db =
     (if resolve then resolveAssignableSites ctx siteIDs db
      else
        let query = lower (TrimSpace query); page = (if page = 0 then 1 else page); pageSize = (if pageSize = 0 then 20 else pageSize)
        in if rune_count query > 200 then Inl Dev_Invalid
           else if pageSize > 100 then Inl Dev_Invalid
           else bind_result (Site_List ctx 0 0 db) (\<lambda>sites.
             let filtered = sort_key (\<lambda>s. (st_Name s, st_ID s))
                   (filter (\<lambda>s. query = '''' \<or> Contains (lower (st_ID s)) query \<or> Contains (lower (st_Name s)) query) sites)
             in Inr (site_page page pageSize filtered, length filtered)))"

subsection \<open>What a scope admits\<close>

text \<open>
  The devices a business scope admits, said once: all of them, those of the member's sites, or the member's own; below
  a data policy only those on its sites, as far as the sites are the tenant's.
\<close>

definition scope_admits :: "EffectiveBusinessScope \<Rightarrow> string \<Rightarrow> string \<Rightarrow> DevDB \<Rightarrow> Device \<Rightarrow> bool" where
  "scope_admits sc tenantID userID db d \<longleftrightarrow>
     (ebs_All sc \<or> ebs_Sites sc \<and> dev_SiteID d \<in> set (ebs_MemberSiteIDs sc) \<or> ebs_Self sc \<and> dev_CreatedBy d = userID) \<and>
     (ebs_PolicyBound sc \<longrightarrow> dev_SiteID d \<in> set (ebs_PolicySiteIDs sc) \<and>
        (\<exists>s \<in> set (ddb_sites db). st_TenantID (spr_Domain s) = tenantID \<and> st_ID (spr_Domain s) = dev_SiteID d))"

definition scope_of :: "EffectiveBusinessScope \<Rightarrow> Principal \<Rightarrow> Scope" where
  "scope_of sc p = \<lparr>sco_All = ebs_All sc, sco_Self = ebs_Self sc, sco_Sites = ebs_Sites sc, sco_UserID = prn_UserID p, sco_SiteIDs = ebs_MemberSiteIDs sc,
     sco_TenantID = prn_TenantID p, sco_PolicyBound = ebs_PolicyBound sc, sco_PolicySiteIDs = ebs_PolicySiteIDs sc\<rparr>"

lemma applyDeviceDataScope_iff:
  "prn_TenantID p \<noteq> [] \<Longrightarrow> applyDeviceDataScope (scope_of sc p) db d \<longleftrightarrow> scope_admits sc (prn_TenantID p) (prn_UserID p) db d"
  by (auto simp: applyDeviceDataScope_def scope_of_def scope_admits_def)

text \<open>A prepared request: the scope in its context is the current one of the caller, and it allows the site that is asked for.\<close>

lemma Guard_Prepare_result:
  assumes "Guard_Prepare policies ctx a req = Inr ctx'"
  shows "\<exists>sc. policies (prn_TenantID (arq_Principal a)) (prn_UserID (arq_Principal a)) (resource_permission (arq_Operation a)) = Inr sc \<and>
     ctx' = ctx\<lparr>ctx_Scope := Some (scope_of sc (arq_Principal a))\<rparr> \<and> (ebs_All sc \<or> ebs_Sites sc \<or> ebs_Self sc) \<and>
     (requested_site req \<noteq> [] \<longrightarrow> AllowsSite (scope_of sc (arq_Principal a)) (requested_site req))"
  using assms by (auto simp: Guard_Prepare_def WithScope_def scope_of_def Let_def split: sum.split_asm if_split_asm)

lemma trustedTenant_result: "trustedTenant ctx = Inr t \<Longrightarrow> \<exists>p. ctx_Principal ctx = Some p \<and> prn_Authenticated p \<and> t = prn_TenantID p \<and> t \<noteq> []"
  by (auto simp: trustedTenant_def split: option.split_asm if_split_asm)

text \<open>The context of a prepared request whose principal is the one the operation was authorized for.\<close>

definition prepared :: "EffectiveBusinessScope \<Rightarrow> Principal \<Rightarrow> DevContext \<Rightarrow> bool" where
  "prepared sc p ctx \<longleftrightarrow> ctx_Scope ctx = Some (scope_of sc p) \<and> ctx_Principal ctx = Some p"

lemma prepared_tenant: "prepared sc p ctx \<Longrightarrow> trustedTenant ctx = Inr t \<Longrightarrow> t = prn_TenantID p \<and> t \<noteq> []"
  by (auto simp: prepared_def dest: trustedTenant_result)

lemma GetVisible_row:
  assumes "prepared sc p ctx" "GetVisible ctx i db = Inr d"
  shows "\<exists>r \<in> set (ddb_devices db). dpr_DeletedAt r = None \<and> d = dpr_Domain r \<and> dev_ID d = i \<and> dev_TenantID d = prn_TenantID p \<and>
     scope_admits sc (prn_TenantID p) (prn_UserID p) db d \<and> trustedTenant ctx = Inr (prn_TenantID p) \<and> prn_TenantID p \<noteq> []"
proof -
  obtain t where t: "trustedTenant ctx = Inr t" using assms(2) by (auto simp: GetVisible_def)
  note tenant = prepared_tenant [OF assms(1) t]
  obtain r where "find (\<lambda>r. live_device t r \<and> applyDeviceDataScope (scope_of sc p) db (dpr_Domain r) \<and> dev_ID (dpr_Domain r) = i) (ddb_devices db) = Some r" "d = dpr_Domain r"
    using assms t by (auto simp: GetVisible_def RequireScope_def prepared_def split: option.split_asm)
  then show ?thesis using t tenant by (auto simp: find_Some_iff live_device_def applyDeviceDataScope_iff intro!: bexI [of _ r])
qed

lemma ListVisible_exact:
  assumes "prepared sc p ctx" "ListVisible ctx db = Inr ds"
  shows "set ds = {d. \<exists>r \<in> set (ddb_devices db). dpr_DeletedAt r = None \<and> d = dpr_Domain r \<and> dev_TenantID d = prn_TenantID p \<and>
     scope_admits sc (prn_TenantID p) (prn_UserID p) db d}"
proof -
  obtain t where t: "trustedTenant ctx = Inr t" using assms(2) by (auto simp: ListVisible_def)
  note tenant = prepared_tenant [OF assms(1) t]
  then show ?thesis using assms t by (auto simp: ListVisible_def RequireScope_def prepared_def live_device_def applyDeviceDataScope_iff)
qed

subsection \<open>Writes\<close>

text \<open>The identifiers of devices are unique, deleted rows included.\<close>

definition dev_keys :: "DevDB \<Rightarrow> bool" where
  "dev_keys db \<longleftrightarrow> distinct (map (dev_ID \<circ> dpr_Domain) (ddb_devices db))"

lemma dev_keys_unique: "dev_keys db \<Longrightarrow> r \<in> set (ddb_devices db) \<Longrightarrow> r' \<in> set (ddb_devices db) \<Longrightarrow> dev_ID (dpr_Domain r) = dev_ID (dpr_Domain r') \<Longrightarrow> r = r'"
  by (auto simp: dev_keys_def distinct_map inj_on_def)

text \<open>A write that replaces one row.\<close>

definition replaces :: "DevicePORecord \<Rightarrow> DevicePORecord \<Rightarrow> DevDB \<Rightarrow> DevDB \<Rightarrow> bool" where
  "replaces r r' db db' \<longleftrightarrow> r \<in> set (ddb_devices db) \<and> db' = db\<lparr>ddb_devices := update_where (\<lambda>x. x = r) (\<lambda>x. r') (ddb_devices db)\<rparr> \<and>
     dev_ID (dpr_Domain r') = dev_ID (dpr_Domain r) \<and> dev_TenantID (dpr_Domain r') = dev_TenantID (dpr_Domain r)"

lemma replaces_keys: "dev_keys db \<Longrightarrow> replaces r r' db db' \<Longrightarrow> dev_keys db'"
  unfolding replaces_def dev_keys_def update_where_def
  by (elim conjE) (simp, subst map_cong [OF refl, of _ _ "\<lambda>x. dev_ID (dpr_Domain x)"], auto simp: comp_def)

lemma device_hit:
  assumes keys: "dev_keys db" and r: "r \<in> set (ddb_devices db)" and i: "dev_ID (dpr_Domain r) = i"
    and one: "length (filter (device_at t i v) (ddb_devices db)) = 1"
  shows "device_at t i v r" "update_where (device_at t i v) f (ddb_devices db) = update_where (\<lambda>x. x = r) (\<lambda>x. f r) (ddb_devices db)"
proof -
  have "filter (device_at t i v) (ddb_devices db) \<noteq> []" using one by (metis length_0_conv zero_neq_one)
  then obtain x where x: "x \<in> set (ddb_devices db)" "device_at t i v x" by (auto simp: filter_empty_conv)
  then have "x = r" using dev_keys_unique [OF keys x(1) r] i by (simp add: device_at_def)
  then show hit: "device_at t i v r" using x by simp
  show "update_where (device_at t i v) f (ddb_devices db) = update_where (\<lambda>x. x = r) (\<lambda>x. f r) (ddb_devices db)"
    unfolding update_where_def
  proof (intro map_cong refl)
    fix x assume "x \<in> set (ddb_devices db)"
    then have "device_at t i v x \<longleftrightarrow> x = r" using hit dev_keys_unique [OF keys _ r, of x] i by (auto simp: device_at_def)
    then show "(if device_at t i v x then f x else x) = (if x = r then f r else x)" by auto
  qed
qed

lemma Device_Update_replaces:
  assumes keys: "dev_keys db" and upd: "Device_Update ctx d v now db = Inr db'" and r: "r \<in> set (ddb_devices db)" "dev_ID (dpr_Domain r) = dev_ID d"
    and same: "dev_CreatedBy d = dev_CreatedBy (dpr_Domain r)" "dev_Serial d = dev_Serial (dpr_Domain r)"
  shows "replaces r (r\<lparr>dpr_Domain := (dpr_Domain r)\<lparr>dev_Name := dev_Name d, dev_SiteID := dev_SiteID d, dev_Version := v + 1, dev_UpdatedAt := now\<rparr>\<rparr>) db db'"
proof -
  obtain t where t: "trustedTenant ctx = Inr t" using upd by (auto simp: Device_Update_def split: if_split_asm)
  let ?f = "\<lambda>r. r\<lparr>dpr_Domain := (dpr_Domain r)\<lparr>dev_CreatedBy := dev_CreatedBy d, dev_Name := dev_Name d, dev_Serial := dev_Serial d, dev_SiteID := dev_SiteID d,
                dev_Version := dev_Version (dpr_Domain r) + 1, dev_UpdatedAt := now\<rparr>\<rparr>"
  have one: "length (filter (device_at t (dev_ID d) v) (ddb_devices db)) = 1" and db': "db' = db\<lparr>ddb_devices := update_where (device_at t (dev_ID d) v) ?f (ddb_devices db)\<rparr>"
    using upd t by (auto simp: Device_Update_def Let_def split: if_split_asm)
  note hit = device_hit [OF keys r one]
  have "?f r = r\<lparr>dpr_Domain := (dpr_Domain r)\<lparr>dev_Name := dev_Name d, dev_SiteID := dev_SiteID d, dev_Version := v + 1, dev_UpdatedAt := now\<rparr>\<rparr>"
    using hit(1) same by (auto simp: device_at_def intro!: DevicePORecord.equality Device.equality)
  then show ?thesis unfolding replaces_def db' hit(2) using r(1) by simp
qed

lemma Device_Delete_replaces:
  assumes keys: "dev_keys db" and del: "Device_Delete ctx i v now db = Inr db'" and r: "r \<in> set (ddb_devices db)" "dev_ID (dpr_Domain r) = i"
  shows "replaces r (r\<lparr>dpr_DeletedAt := Some now\<rparr>) db db'"
proof -
  obtain t where t: "trustedTenant ctx = Inr t" using del by (auto simp: Device_Delete_def)
  have one: "length (filter (device_at t i v) (ddb_devices db)) = 1"
    and db': "db' = db\<lparr>ddb_devices := update_where (device_at t i v) (\<lambda>r. r\<lparr>dpr_DeletedAt := Some now\<rparr>) (ddb_devices db)\<rparr>"
    using del t by (auto simp: Device_Delete_def Let_def split: if_split_asm)
  show ?thesis unfolding replaces_def db' device_hit(2) [OF keys r one] using r(1) by simp
qed

text \<open>The writes of a caller, each prepared by the guard for its own request.\<close>

datatype DeviceWrite =
    DoCreate string string string string
  | DoUpdate string uint64 string string
  | DoDelete string uint64

fun write_request :: "DeviceWrite \<Rightarrow> DeviceRequest" where
  "write_request (DoCreate newID siteID name serial) = CreateDeviceRequest siteID name serial"
| "write_request (DoUpdate i version name siteID) = UpdateDeviceRequest i version name siteID"
| "write_request (DoDelete i version) = DeleteDeviceRequest i version"

fun device_write :: "target_check \<Rightarrow> DevContext \<Rightarrow> time \<Rightarrow> DeviceWrite \<Rightarrow> DevDB \<Rightarrow> dev_error + DevDB" where
  "device_write targets ctx now (DoCreate newID siteID name serial) db = bind_result (CreateDevice ctx newID siteID name serial now db) (\<lambda>(d, db'). Inr db')"
| "device_write targets ctx now (DoUpdate i version name siteID) db = bind_result (UpdateDevice targets ctx i version name siteID now db) (\<lambda>(d, db'). Inr db')"
| "device_write targets ctx now (DoDelete i version) db = DeleteDevice ctx i version now db"

definition guarded_write :: "scope_resolver \<Rightarrow> target_check \<Rightarrow> DevContext \<Rightarrow> AuthorizedRequest \<Rightarrow> time \<Rightarrow> DeviceWrite \<Rightarrow> DevDB \<Rightarrow> dev_error + DevDB" where
  "guarded_write policies targets ctx a now w db =
     bind_result (Guard_Prepare policies ctx a (write_request w)) (\<lambda>ctx'. device_write targets ctx' now w db)"

text \<open>What such a write may do: the row it takes away was live, the tenant's and in scope, and so is the row it leaves.\<close>

definition confined :: "EffectiveBusinessScope \<Rightarrow> Principal \<Rightarrow> DevDB \<Rightarrow> DevDB \<Rightarrow> bool" where
  "confined sc p db db' \<longleftrightarrow> dev_keys db' \<and> ddb_sites db' = ddb_sites db \<and>
     (\<forall>r \<in> set (ddb_devices db) - set (ddb_devices db'). dpr_DeletedAt r = None \<and> dev_TenantID (dpr_Domain r) = prn_TenantID p \<and>
        scope_admits sc (prn_TenantID p) (prn_UserID p) db (dpr_Domain r)) \<and>
     (\<forall>r \<in> set (ddb_devices db') - set (ddb_devices db). dev_TenantID (dpr_Domain r) = prn_TenantID p \<and>
        scope_admits sc (prn_TenantID p) (prn_UserID p) db' (dpr_Domain r))"

lemma scope_admits_sites: "ddb_sites db' = ddb_sites db \<Longrightarrow> scope_admits sc t u db' d = scope_admits sc t u db d"
  by (simp add: scope_admits_def)

lemma confined_replaces:
  assumes "dev_keys db" "replaces r r' db db'" "dpr_DeletedAt r = None" "dev_TenantID (dpr_Domain r) = prn_TenantID p"
    "scope_admits sc (prn_TenantID p) (prn_UserID p) db (dpr_Domain r)" "scope_admits sc (prn_TenantID p) (prn_UserID p) db' (dpr_Domain r')"
  shows "confined sc p db db'"
  using assms replaces_keys [OF assms(1,2)] by (auto simp: confined_def replaces_def set_update_where)

lemma confined_create:
  assumes keys: "dev_keys db" and ctx: "prepared sc p ctx" and allowed: "AllowsSite (scope_of sc p) (TrimSpace siteID)" "ebs_All sc \<or> ebs_Sites sc \<or> ebs_Self sc"
    and create: "CreateDevice ctx newID siteID name serial now db = Inr (d, db')"
  shows "confined sc p db db'"
proof -
  obtain x s where x: "Site_Get ctx (TrimSpace siteID) db = Inr s" "Device_Create ctx x now db = Inr (d, db')" "dev_SiteID x = TrimSpace siteID" "dev_CreatedBy x = prn_UserID p"
    using create ctx by (auto simp: CreateDevice_def Let_def RequireScope_def prepared_def scope_of_def split: if_split_asm)
  obtain t where t: "trustedTenant ctx = Inr t" using x(2) by (auto simp: Device_Create_def)
  note tenant = prepared_tenant [OF ctx t]
  have db': "db' = db\<lparr>ddb_devices := ddb_devices db @ [\<lparr>dpr_Domain = d, dpr_DeletedAt = None\<rparr>]\<rparr>" and d: "dev_TenantID d = t" "dev_SiteID d = TrimSpace siteID" "dev_CreatedBy d = prn_UserID p"
    and fresh: "\<forall>r \<in> set (ddb_devices db). \<not> device_clash d r"
    using x(2,3,4) t by (auto simp: Device_Create_def Let_def split: if_split_asm)
  have "\<exists>s \<in> set (ddb_sites db). st_TenantID (spr_Domain s) = t \<and> st_ID (spr_Domain s) = TrimSpace siteID"
    using x(1) t by (auto simp: Site_Get_def find_Some_iff live_site_def split: option.split_asm intro: nth_mem)
  then have "scope_admits sc (prn_TenantID p) (prn_UserID p) db' d"
    using allowed tenant d by (auto simp: scope_admits_def AllowsSite_def scope_of_def db' split: if_split_asm)
  moreover have "dev_ID d \<notin> (dev_ID \<circ> dpr_Domain) ` set (ddb_devices db)" using fresh by (auto simp: device_clash_def)
  ultimately show ?thesis using keys tenant d(1) by (auto simp: confined_def db' dev_keys_def)
qed

lemma confined_update:
  assumes keys: "dev_keys db" and ctx: "prepared sc p ctx" and upd: "UpdateDevice targets ctx i version name siteID now db = Inr (d, db')"
  shows "confined sc p db db'"
proof -
  obtain cur x where cur: "GetVisible ctx (TrimSpace i) db = Inr cur" "Device_Update ctx x version now db = Inr db'" "GetVisible ctx (dev_ID cur) db' = Inr d"
    "dev_ID x = dev_ID cur" "dev_CreatedBy x = dev_CreatedBy cur" "dev_Serial x = dev_Serial cur"
    using upd by (auto simp: UpdateDevice_def Let_def split: if_split_asm)
  obtain r where r: "r \<in> set (ddb_devices db)" "dpr_DeletedAt r = None" "cur = dpr_Domain r" "dev_TenantID cur = prn_TenantID p"
    "scope_admits sc (prn_TenantID p) (prn_UserID p) db cur"
    using GetVisible_row [OF ctx cur(1)] by blast
  define r' where "r' = r\<lparr>dpr_Domain := (dpr_Domain r)\<lparr>dev_Name := dev_Name x, dev_SiteID := dev_SiteID x, dev_Version := version + 1, dev_UpdatedAt := now\<rparr>\<rparr>"
  have rep: "replaces r r' db db'" unfolding r'_def by (rule Device_Update_replaces [OF keys cur(2) r(1)]) (use cur r in simp_all)
  obtain y where y: "y \<in> set (ddb_devices db')" "d = dpr_Domain y" "dev_ID d = dev_ID cur" "scope_admits sc (prn_TenantID p) (prn_UserID p) db' d"
    using GetVisible_row [OF ctx cur(3)] by blast
  have "r' \<in> set (ddb_devices db')" "dev_ID (dpr_Domain r') = dev_ID cur" using rep r(3) by (auto simp: replaces_def set_update_where)
  then have "y = r'" using dev_keys_unique [OF replaces_keys [OF keys rep] y(1)] y(2,3) by metis
  then have "scope_admits sc (prn_TenantID p) (prn_UserID p) db' (dpr_Domain r')" using y(2,4) by metis
  then show ?thesis by (rule confined_replaces [OF keys rep r(2) r(4,5) [unfolded r(3)]])
qed

lemma confined_delete:
  assumes keys: "dev_keys db" and ctx: "prepared sc p ctx" and del: "DeleteDevice ctx i version now db = Inr db'"
  shows "confined sc p db db'"
proof -
  obtain cur where cur: "GetVisible ctx (TrimSpace i) db = Inr cur" "Device_Delete ctx (dev_ID cur) version now db = Inr db'"
    using del by (auto simp: DeleteDevice_def split: if_split_asm)
  obtain r where r: "r \<in> set (ddb_devices db)" "dpr_DeletedAt r = None" "cur = dpr_Domain r" "dev_TenantID cur = prn_TenantID p"
    "scope_admits sc (prn_TenantID p) (prn_UserID p) db cur"
    using GetVisible_row [OF ctx cur(1)] by blast
  have rep: "replaces r (r\<lparr>dpr_DeletedAt := Some now\<rparr>) db db'" by (rule Device_Delete_replaces [OF keys cur(2) r(1)]) (use r in simp)
  have "ddb_sites db' = ddb_sites db" using rep by (simp add: replaces_def)
  then have "scope_admits sc (prn_TenantID p) (prn_UserID p) db' (dpr_Domain (r\<lparr>dpr_DeletedAt := Some now\<rparr>))" using r(3,5) by (simp add: scope_admits_sites [of db' db])
  then show ?thesis by (rule confined_replaces [OF keys rep r(2) r(4,5) [unfolded r(3)]])
qed

lemma guarded_write_confined:
  assumes keys: "dev_keys db" and p: "ctx_Principal ctx = Some (arq_Principal a)" and run: "guarded_write policies targets ctx a now w db = Inr db'"
  shows "\<exists>sc. policies (prn_TenantID (arq_Principal a)) (prn_UserID (arq_Principal a)) (resource_permission (arq_Operation a)) = Inr sc \<and> confined sc (arq_Principal a) db db'"
proof -
  obtain ctx' where ctx': "Guard_Prepare policies ctx a (write_request w) = Inr ctx'" and w: "device_write targets ctx' now w db = Inr db'"
    using run by (auto simp: guarded_write_def)
  obtain sc where sc: "policies (prn_TenantID (arq_Principal a)) (prn_UserID (arq_Principal a)) (resource_permission (arq_Operation a)) = Inr sc"
    "ctx' = ctx\<lparr>ctx_Scope := Some (scope_of sc (arq_Principal a))\<rparr>" "ebs_All sc \<or> ebs_Sites sc \<or> ebs_Self sc"
    "requested_site (write_request w) \<noteq> [] \<longrightarrow> AllowsSite (scope_of sc (arq_Principal a)) (requested_site (write_request w))"
    using Guard_Prepare_result [OF ctx'] by blast
  have ready: "prepared sc (arq_Principal a) ctx'" using sc(2) p by (simp add: prepared_def)
  have "confined sc (arq_Principal a) db db'"
  proof (cases w)
    case (DoCreate newID siteID name serial)
    then obtain d where create: "CreateDevice ctx' newID siteID name serial now db = Inr (d, db')" using w by auto
    then have "TrimSpace siteID \<noteq> []" by (auto simp: CreateDevice_def Let_def split: if_split_asm)
    then show ?thesis using sc(3,4) DoCreate by (intro confined_create [OF keys ready _ _ create]) simp_all
  qed (use w confined_update [OF keys ready] confined_delete [OF keys ready] in auto)
  then show ?thesis using sc(1) by blast
qed

subsection \<open>The directory behind the members' sites\<close>

lemma assignable_ids_result: "assignable_ids ids raws = Inr out \<Longrightarrow> distinct ids \<Longrightarrow> distinct out \<and> set out = set ids \<union> TrimSpace ` set raws \<and> [] \<notin> TrimSpace ` set raws"
  by (induction ids raws rule: assignable_ids.induct) (auto simp: Let_def split: if_split_asm)

lemma Site_Get_result:
  "Site_Get ctx i db = Inr s \<Longrightarrow> trustedTenant ctx = Inr t \<Longrightarrow> st_ID s = i \<and> (\<exists>r \<in> set (ddb_sites db). live_site t r \<and> spr_Domain r = s)"
  by (auto simp: Site_Get_def find_Some_iff split: option.split_asm intro: nth_mem)

lemma get_sites_result:
  "get_sites ctx ids db = Inr sites \<Longrightarrow> trustedTenant ctx = Inr t \<Longrightarrow>
   map st_ID sites = ids \<and> set sites \<subseteq> spr_Domain ` {r \<in> set (ddb_sites db). live_site t r}"
proof (induction ids arbitrary: sites)
  case (Cons i ids)
  then obtain s rest where s: "Site_Get ctx i db = Inr s" "get_sites ctx ids db = Inr rest" "sites = s # rest" by auto
  show ?case using Cons.IH [OF s(2) Cons.prems(2)] Site_Get_result [OF s(1) Cons.prems(2)] s(3) by auto
qed simp

lemma normalize_sites_set: "normalize_sites limit seen raws = Some out \<Longrightarrow> set out = set seen \<union> TrimSpace ` set raws"
  by (induction limit seen raws rule: normalize_sites.induct) (auto simp: Let_def split: if_split_asm)

text \<open>
  What the access services ask of the directory of sites: every identifier it answers with is a site that may be
  assigned.
\<close>

locale site_provider =
  fixes ask :: site_directory and assignable :: "string \<Rightarrow> bool"
  assumes directory: "ask ids = Inr (sites, n) \<Longrightarrow> Some i \<in> set sites \<Longrightarrow> assignable (TrimSpace i)"
begin

lemma validated_sites:
  assumes "validateTenantMemberBusinessScopeSites ask ids = None" "i \<in> set ids"
  shows "assignable i"
proof -
  obtain sites n where ask: "ask ids = Inr (sites, n)" using assms(1) by (cases "ask ids") (auto simp: validateTenantMemberBusinessScopeSites_def)
  have "\<forall>s \<in> set sites. s \<noteq> None" "i \<in> (TrimSpace \<circ> the) ` set sites"
    using assms ask by (auto simp: validateTenantMemberBusinessScopeSites_def split: if_split_asm)
  then obtain s where "Some s \<in> set sites" "i = TrimSpace s" by (auto simp: image_iff)
  then show ?thesis using directory [OF ask] by simp
qed

lemma assigned_sites:
  assumes "SetTenantMemberBusinessScope ctx ask userID version siteIDs now db = Inr (sc, db')" "i \<in> set (mbs_SiteIDs sc)"
  shows "assignable i"
proof -
  obtain t sites where s: "normalizeTenantMemberBusinessScopeSiteIDs siteIDs = Inr sites" "ReplaceBusinessScope t (TrimSpace userID) version sites now db = Inr (sc, db')"
      "sites \<noteq> [] \<longrightarrow> validateTenantMemberBusinessScopeSites ask sites = None"
    using assms(1) by (auto simp: SetTenantMemberBusinessScope_def split: if_split_asm)
  have "\<exists>out. normalize_sites 64 [] sites = Some out \<and> mbs_SiteIDs sc = sort out"
    by (rule ReplaceBusinessScope_result [OF s(2)]) blast+
  then obtain out where out: "normalize_sites 64 [] sites = Some out" "mbs_SiteIDs sc = sort out" by blast
  obtain first where first: "normalize_sites 64 [] siteIDs = Some first" "sites = sort first"
    using s(1) by (auto simp: normalizeTenantMemberBusinessScopeSiteIDs_def split: option.split_asm)
  have "set out = set sites" using normalize_sites_set [OF out(1)] normalize_sites_set [OF first(1)] first(2) by (auto simp: image_iff)
  then have "i \<in> set sites" using assms(2) out(2) by simp
  then show ?thesis using s(3) validated_sites by auto
qed

end

text \<open>
  The answer of \<open>resolveAssignableSites\<close> as the access services read it, and that the service of \<open>deviceops\<close> keeps what
  they rely on: a site it answers with is a site of the caller's tenant that is not deleted.
\<close>

definition site_answer :: "DevContext \<Rightarrow> DevDB \<Rightarrow> site_directory" where
  "site_answer ctx db ids =
     (case resolveAssignableSites ctx ids db of
        Inl e \<Rightarrow> Inl (Acc_Collaborator ''sites'')
      | Inr (sites, n) \<Rightarrow> Inr (map (Some \<circ> st_ID) sites, int n))"

definition site_present :: "DevContext \<Rightarrow> DevDB \<Rightarrow> string \<Rightarrow> bool" where
  "site_present ctx db i \<longleftrightarrow> (\<exists>t r. trustedTenant ctx = Inr t \<and> r \<in> set (ddb_sites db) \<and> live_site t r \<and> st_ID (spr_Domain r) = i)"

interpretation sd: site_provider "site_answer ctx db" "site_present ctx db" for ctx db
proof
  fix ids sites n i assume ask: "site_answer ctx db ids = Inr (sites, n)" and i: "Some i \<in> set sites"
  obtain ids' ss where ids: "assignable_ids [] ids = Inr ids'" "get_sites ctx (sort ids') db = Inr ss" "sites = map (Some \<circ> st_ID) ss" "ids' \<noteq> []"
    using ask by (auto simp: site_answer_def resolveAssignableSites_def split: sum.split_asm if_split_asm)
  have "sort ids' \<noteq> []" using ids(4) by (metis set_empty set_sort)
  then obtain t where t: "trustedTenant ctx = Inr t" using ids(2) by (cases "sort ids'") (auto simp: Site_Get_def)
  note get = get_sites_result [OF ids(2) t]
  have "i \<in> set (map st_ID ss)" using i ids(3) by auto
  then have "i \<in> set ids'" using get by simp
  then have "TrimSpace i = i" using assignable_ids_result [OF ids(1)] by auto
  moreover obtain s where "s \<in> set ss" "st_ID s = i" using i ids(3) by auto
  ultimately show "site_present ctx db (TrimSpace i)" using get t by (auto simp: site_present_def)
qed

subsection \<open>Pages\<close>

lemma site_page_slice: "site_page page pageSize xs = take (unat pageSize) (drop ((unat page - 1) * unat pageSize) xs)"
  by (auto simp: site_page_def Let_def min_def)

text \<open>Every entry is on the page its position says, so the pages together show the whole directory, without repetition.\<close>

lemma site_page_covers:
  assumes "k < length xs" "0 < unat pageSize" "unat page = k div unat pageSize + 1"
  shows "xs ! k \<in> set (site_page page pageSize xs)"
proof -
  have start: "(unat page - 1) * unat pageSize \<le> k" "(unat page - 1) * unat pageSize + k mod unat pageSize = k" using assms(3) by simp_all
  have "k mod unat pageSize < unat pageSize" using assms(2) by simp
  moreover have "drop ((unat page - 1) * unat pageSize) xs ! (k mod unat pageSize) = xs ! k"
    using start assms(1) by (subst nth_drop) (linarith, simp only: start(2))
  moreover have "k mod unat pageSize < length (drop ((unat page - 1) * unat pageSize) xs)"
    unfolding length_drop using start assms(1) by linarith
  ultimately show ?thesis unfolding site_page_slice in_set_conv_nth by (intro exI [of _ "k mod unat pageSize"]) simp
qed

subsection \<open>Properties\<close>

text \<open>
  Composition of the business scopes and the devices: a prepared listing returns exactly the devices of the caller's
  tenant that are not deleted and that the scope resolved for the caller at that moment admits: all devices, those on
  the member's sites or the member's own, and below data policies only those on sites that all of them allow.
\<close>

lemma devices_listed_in_scope:
  assumes "Guard_Prepare (\<lambda>t u p. ResolveBusinessScope t u p at adb) ctx a ListDevicesRequest = Inr ctx'" "ctx_Principal ctx = Some (arq_Principal a)"
    and "ListDevices ctx' db = Inr ds"
  shows "\<exists>sc. ResolveBusinessScope (prn_TenantID (arq_Principal a)) (prn_UserID (arq_Principal a)) (resource_permission (arq_Operation a)) at adb = Inr sc \<and>
    set ds = {d. \<exists>r \<in> set (ddb_devices db). dpr_DeletedAt r = None \<and> d = dpr_Domain r \<and> dev_TenantID d = prn_TenantID (arq_Principal a) \<and>
       (ebs_All sc \<or> ebs_Sites sc \<and> dev_SiteID d \<in> set (ebs_MemberSiteIDs sc) \<or> ebs_Self sc \<and> dev_CreatedBy d = prn_UserID (arq_Principal a)) \<and>
       (ebs_PolicyBound sc \<longrightarrow> dev_SiteID d \<in> set (ebs_PolicySiteIDs sc) \<and>
          (\<exists>s \<in> set (ddb_sites db). st_TenantID (spr_Domain s) = prn_TenantID (arq_Principal a) \<and> st_ID (spr_Domain s) = dev_SiteID d))}"
proof -
  obtain sc where sc: "ResolveBusinessScope (prn_TenantID (arq_Principal a)) (prn_UserID (arq_Principal a)) (resource_permission (arq_Operation a)) at adb = Inr sc"
      "ctx' = ctx\<lparr>ctx_Scope := Some (scope_of sc (arq_Principal a))\<rparr>"
    using Guard_Prepare_result [OF assms(1)] by blast
  have "prepared sc (arq_Principal a) ctx'" using sc(2) assms(2) by (simp add: prepared_def)
  from ListVisible_exact [OF this assms(3) [unfolded ListDevices_def]] show ?thesis
    by (intro exI [of _ sc] conjI sc(1)) (simp only: scope_admits_def)
qed

text \<open>
  A prepared creation, update or deletion that succeeds stays inside the caller's current scope: a row that is no
  longer as it was had been a live device of the caller's tenant that the scope admitted, a row that is new or changed
  is a device of that tenant that the scope admits afterwards, and identifiers stay unique; no site changes.
\<close>

lemma device_writes_confined:
  assumes keys: "distinct (map (dev_ID \<circ> dpr_Domain) (ddb_devices db))" and p: "ctx_Principal ctx = Some p" "arq_Principal a = p"
    and run: "guarded_write (\<lambda>t u perm. ResolveBusinessScope t u perm at adb) targets ctx a now w db = Inr db'"
  shows "\<exists>sc. ResolveBusinessScope (prn_TenantID p) (prn_UserID p) (resource_permission (arq_Operation a)) at adb = Inr sc \<and>
    distinct (map (dev_ID \<circ> dpr_Domain) (ddb_devices db')) \<and> ddb_sites db' = ddb_sites db \<and>
    (\<forall>r \<in> set (ddb_devices db) - set (ddb_devices db'). dpr_DeletedAt r = None \<and> dev_TenantID (dpr_Domain r) = prn_TenantID p \<and>
       scope_admits sc (prn_TenantID p) (prn_UserID p) db (dpr_Domain r)) \<and>
    (\<forall>r \<in> set (ddb_devices db') - set (ddb_devices db). dev_TenantID (dpr_Domain r) = prn_TenantID p \<and>
       scope_admits sc (prn_TenantID p) (prn_UserID p) db' (dpr_Domain r))"
  using guarded_write_confined [OF _ _ run, unfolded dev_keys_def] keys p by (simp add: confined_def dev_keys_def)

text \<open>
  Composition of the members' sites with the directory of sites: when the sites of a member are set with the
  directory of \<open>deviceops\<close> behind the check, every site of the result is a site of the caller's tenant that is not deleted.
\<close>

lemma member_sites_exist:
  assumes "SetTenantMemberBusinessScope ctx (site_answer dctx ddb) userID version siteIDs now db = Inr (sc, db')" "i \<in> set (mbs_SiteIDs sc)"
  shows "\<exists>t r. trustedTenant dctx = Inr t \<and> r \<in> set (ddb_sites ddb) \<and> spr_DeletedAt r = None \<and> st_TenantID (spr_Domain r) = t \<and> st_ID (spr_Domain r) = i"
  using sd.assigned_sites [OF assms] by (auto simp: site_present_def live_site_def)

subsection \<open>Witnesses\<close>

abbreviation ex_p :: "string \<Rightarrow> Principal" where
  "ex_p u \<equiv> the (ex_caller ''t1'' u)"

definition ex_dev_authorized :: "string \<Rightarrow> AuthorizedRequest" where
  "ex_dev_authorized operation = \<lparr>arq_Principal = ex_p ''u2'', arq_Operation = operation, arq_Permissions = [], arq_Allowed = True\<rparr>"

definition ex_dev_ctx :: DevContext where
  "ex_dev_ctx = \<lparr>ctx_Principal = Some (ex_p ''u2''), ctx_Authorized = None, ctx_Scope = None, ctx_Proof = None\<rparr>"

definition ex_site :: "string \<Rightarrow> string \<Rightarrow> SitePORecord" where
  "ex_site t i = \<lparr>spr_Domain = \<lparr>st_ID = i, st_TenantID = t, st_Name = i, st_Version = 1, st_CreatedAt = 5, st_UpdatedAt = 5\<rparr>, spr_DeletedAt = None\<rparr>"

definition ex_device :: "string \<Rightarrow> string \<Rightarrow> string \<Rightarrow> string \<Rightarrow> DevicePORecord" where
  "ex_device t i site user = \<lparr>dpr_Domain = \<lparr>dev_ID = i, dev_TenantID = t, dev_CreatedBy = user, dev_Name = ''Lamp'', dev_Serial = i, dev_SiteID = site, dev_Version = 1,
     dev_CreatedAt = 5, dev_UpdatedAt = 5\<rparr>, dpr_DeletedAt = None\<rparr>"

definition ex_devices :: DevDB where
  "ex_devices = \<lparr>ddb_devices = [ex_device ''t1'' ''d1'' ''s1'' ''u1'', ex_device ''t1'' ''d2'' ''s2'' ''u1'', ex_device ''t2'' ''d3'' ''s1'' ''u1''],
     ddb_sites = [ex_site ''t1'' ''s1'', ex_site ''t1'' ''s2'']\<rparr>"

text \<open>The member \<open>u2\<close> of the team is on the site \<open>s1\<close> and may see and change the devices of the own sites.\<close>

definition ex_access :: AccDB where
  "ex_access = ex_team\<lparr>adb_grants := [ex_grant ''t1'' ''r1'' ''device.read'' DataScopeSites, ex_grant ''t1'' ''r1'' ''device.update'' DataScopeSites]\<rparr>"

abbreviation ex_resolver :: scope_resolver where
  "ex_resolver \<equiv> \<lambda>t u p. ResolveBusinessScope t u p 9 ex_access"

lemma devices_listed_in_scope_witness:
  "\<exists>ctx' ds. Guard_Prepare ex_resolver ex_dev_ctx (ex_dev_authorized ''device.list'') ListDevicesRequest = Inr ctx' \<and> ListDevices ctx' ex_devices = Inr ds \<and>
     dpr_Domain (ex_device ''t1'' ''d1'' ''s1'' ''u1'') \<in> set ds \<and> dpr_Domain (ex_device ''t2'' ''d3'' ''s1'' ''u1'') \<notin> set ds"
proof -
  let ?sc = "\<lparr>sco_All = False, sco_Self = False, sco_Sites = True, sco_UserID = ''u2'', sco_SiteIDs = [''s1''], sco_TenantID = ''t1'', sco_PolicyBound = False, sco_PolicySiteIDs = []\<rparr>"
  have guard: "Guard_Prepare ex_resolver ex_dev_ctx (ex_dev_authorized ''device.list'') ListDevicesRequest = Inr (ex_dev_ctx\<lparr>ctx_Scope := Some ?sc\<rparr>)" by code_simp
  have p: "ctx_Principal ex_dev_ctx = Some (arq_Principal (ex_dev_authorized ''device.list''))" by code_simp
  have run: "ListDevices (ex_dev_ctx\<lparr>ctx_Scope := Some ?sc\<rparr>) ex_devices = Inr [dpr_Domain (ex_device ''t1'' ''d1'' ''s1'' ''u1'')]" by code_simp
  have "dpr_Domain (ex_device ''t2'' ''d3'' ''s1'' ''u1'') \<notin> set [dpr_Domain (ex_device ''t1'' ''d1'' ''s1'' ''u1'')]"
    using devices_listed_in_scope [OF guard p run] by (auto simp: ex_device_def ex_dev_authorized_def ex_caller_def)
  then show ?thesis using guard run by auto
qed

lemma device_writes_confined_witness:
  "\<exists>db' sc. guarded_write ex_resolver None ex_dev_ctx (ex_dev_authorized ''device.update'') 9 (DoUpdate ''d1'' 1 ''Lantern'' '''') ex_devices = Inr db' \<and>
     ex_device ''t1'' ''d1'' ''s1'' ''u1'' \<notin> set (ddb_devices db') \<and> ResolveBusinessScope ''t1'' ''u2'' ''device.update'' 9 ex_access = Inr sc \<and>
     scope_admits sc ''t1'' ''u2'' ex_devices (dpr_Domain (ex_device ''t1'' ''d1'' ''s1'' ''u1'')) \<and>
     guarded_write ex_resolver None ex_dev_ctx (ex_dev_authorized ''device.update'') 9 (DoUpdate ''d2'' 1 ''Lantern'' '''') ex_devices = Inl Dev_NotFound"
proof -
  let ?call = "\<lambda>i. guarded_write ex_resolver None ex_dev_ctx (ex_dev_authorized ''device.update'') 9 (DoUpdate i 1 ''Lantern'' '''') ex_devices"
  let ?r = "ex_device ''t1'' ''d1'' ''s1'' ''u1''"
  have keys: "distinct (map (dev_ID \<circ> dpr_Domain) (ddb_devices ex_devices))" by code_simp
  have p: "ctx_Principal ex_dev_ctx = Some (ex_p ''u2'')" "arq_Principal (ex_dev_authorized ''device.update'') = ex_p ''u2''" by code_simp+
  have "(case ?call ''d1'' of Inl e \<Rightarrow> False | Inr db' \<Rightarrow> ?r \<notin> set (ddb_devices db'))" by code_simp
  then obtain db' where run: "?call ''d1'' = Inr db'" "?r \<notin> set (ddb_devices db')" by (auto split: sum.split_asm)
  have other: "?call ''d2'' = Inl Dev_NotFound" by code_simp
  have r: "?r \<in> set (ddb_devices ex_devices)" by (simp add: ex_devices_def)
  show ?thesis using device_writes_confined [OF keys p run(1)] run other r
    by (auto simp: ex_caller_def ex_dev_authorized_def resource_permission_def)
qed

lemma member_sites_exist_witness:
  "\<exists>sc db' r. SetTenantMemberBusinessScope (ex_caller ''t1'' ''u1'') (site_answer ex_dev_ctx ex_devices) ''u2'' 1 ['' s2 ''] 9 ex_team = Inr (sc, db') \<and>
     mbs_SiteIDs sc = [''s2''] \<and> r \<in> set (ddb_sites ex_devices) \<and> st_ID (spr_Domain r) = ''s2''"
proof -
  let ?call = "SetTenantMemberBusinessScope (ex_caller ''t1'' ''u1'') (site_answer ex_dev_ctx ex_devices) ''u2'' 1 ['' s2 ''] 9 ex_team"
  have "(case ?call of Inl e \<Rightarrow> False | Inr (sc, db') \<Rightarrow> mbs_SiteIDs sc = [''s2''])" by code_simp
  then obtain sc db' where run: "?call = Inr (sc, db')" "mbs_SiteIDs sc = [''s2'']" by (auto split: sum.split_asm)
  show ?thesis using member_sites_exist [OF run(1), of "''s2''"] run by auto
qed

end
