(* ===== verification/Delegations.thy ===== *)
theory Delegations
  imports Devices
begin

section \<open>Delegation of devices to other tenants\<close>

text \<open>
  A tenant lends a device to another tenant: the aggregate (\<open>internal/access/domain/delegation.go\<close>), its repository with
  the slots that serialize it (\<open>infrastructure/persistence/delegation.go\<close>), the service
  (\<open>application/tenant_delegation.go\<close>), the resolver of live delegations (\<open>delegation_security.go\<close>) and, on the side
  of the devices, the guard, the proof it leaves in the context and the repository that insists on it
  (\<open>internal/deviceops/security/delegated.go\<close>, \<open>infrastructure/persistence/delegated.go\<close>, \<open>delegated_security.go\<close>,
  \<open>application/delegated.go\<close>).

  The permissions of a row are kept as the list: \<open>json.Marshal\<close> and \<open>json.Unmarshal\<close> of a list of strings are inverse
  to each other. Instants of expiry are whole milliseconds, so the precision of the column does not matter. The answers
  of the child operations that \<open>GrantTenantDeviceDelegation\<close> calls are arguments, as are the random identifiers.
\<close>

subsection \<open>The aggregate\<close>

abbreviation DelegationActive :: string where "DelegationActive \<equiv> ''active''"
abbreviation DelegationRevoked :: string where "DelegationRevoked \<equiv> ''revoked''"
abbreviation ResourceDevice :: string where "ResourceDevice \<equiv> ''device''"

datatype del_error =
    Del_InvalidTransition | Del_NotFound | Del_Conflict | Del_InvalidRequest
  | Del_TenantRequired | Del_VersionRequired
  | Del_Duplicate \<comment> \<open>a primary key or unique index refuses the row\<close>
  | Del_Access acc_error
  | Del_Child string

record TenantDelegation =
  td_ID :: string
  td_OwnerTenantID :: string
  td_GranteeTenantID :: string
  td_ResourceKind :: string
  td_ResourceID :: string
  td_Permissions :: "string list"
  td_Status :: string
  td_Version :: uint64
  td_ExpiresAt :: "time option"
  td_CreatedAt :: time
  td_UpdatedAt :: time

definition NewTenantDelegation :: "string \<Rightarrow> string \<Rightarrow> string \<Rightarrow> string \<Rightarrow> string \<Rightarrow> string list \<Rightarrow> time option \<Rightarrow> time \<Rightarrow> TenantDelegation" where
  "NewTenantDelegation i owner grantee kind resource permissions expiresAt now =
     \<lparr>td_ID = i, td_OwnerTenantID = owner, td_GranteeTenantID = grantee, td_ResourceKind = kind, td_ResourceID = resource, td_Permissions = permissions,
      td_Status = DelegationActive, td_Version = 1, td_ExpiresAt = expiresAt, td_CreatedAt = now, td_UpdatedAt = now\<rparr>"

definition Delegation_Revoke :: "time \<Rightarrow> TenantDelegation \<Rightarrow> del_error + TenantDelegation" where
  "Delegation_Revoke now d =
     (if td_Status d \<noteq> DelegationActive then Inl Del_InvalidTransition else Inr (d\<lparr>td_Status := DelegationRevoked, td_UpdatedAt := now\<rparr>))"

definition Expired :: "time \<Rightarrow> TenantDelegation \<Rightarrow> bool" where
  "Expired now d \<longleftrightarrow> (case td_ExpiresAt d of None \<Rightarrow> False | Some e \<Rightarrow> \<not> e > now)"

subsection \<open>The repository\<close>

text \<open>A row is the delegation beside its active key, which the unique index admits once among the keys that are set.\<close>

record tenantDelegationRecord =
  tdr_Domain :: TenantDelegation
  tdr_ActiveKey :: "string option"

record DelDB =
  del_rows :: "tenantDelegationRecord list"
  del_slots :: "string list"

definition delegationActiveKey :: "string \<Rightarrow> string \<Rightarrow> string \<Rightarrow> string \<Rightarrow> string" where
  "delegationActiveKey owner grantee kind resource = sha256_hex (owner @ [CHR 0x00] @ grantee @ [CHR 0x00] @ kind @ [CHR 0x00] @ resource)"

definition trustedDelegationOwner :: "Principal option \<Rightarrow> del_error + string" where
  "trustedDelegationOwner ctx =
     (case ctx of None \<Rightarrow> Inl Del_TenantRequired
      | Some p \<Rightarrow> if \<not> prn_Authenticated p \<or> TrimSpace (prn_TenantID p) = '''' then Inl Del_TenantRequired else Inr (TrimSpace (prn_TenantID p)))"

text \<open>The slot of an authority is created once and then only locked.\<close>

definition acquireDelegationAuthoritySlot :: "string \<Rightarrow> DelDB \<Rightarrow> DelDB" where
  "acquireDelegationAuthoritySlot key db = (if key \<in> set (del_slots db) then db else db\<lparr>del_slots := del_slots db @ [key]\<rparr>)"

definition sameDelegationAuthority :: "TenantDelegation \<Rightarrow> TenantDelegation \<Rightarrow> bool" where
  "sameDelegationAuthority existing requested \<longleftrightarrow>
     td_OwnerTenantID existing = td_OwnerTenantID requested \<and> td_GranteeTenantID existing = td_GranteeTenantID requested \<and>
     td_ResourceKind existing = td_ResourceKind requested \<and> td_ResourceID existing = td_ResourceID requested \<and>
     td_Permissions existing = td_Permissions requested \<and> td_ExpiresAt existing = td_ExpiresAt requested"

definition insert_delegation :: "tenantDelegationRecord \<Rightarrow> DelDB \<Rightarrow> del_error + DelDB" where
  "insert_delegation row db =
     (if \<exists>r \<in> set (del_rows db). td_ID (tdr_Domain r) = td_ID (tdr_Domain row) \<or> tdr_ActiveKey row \<noteq> None \<and> tdr_ActiveKey r = tdr_ActiveKey row
      then Inl Del_Duplicate else Inr (db\<lparr>del_rows := del_rows db @ [row]\<rparr>))"

definition createOrResolveActiveDelegation :: "tenantDelegationRecord \<Rightarrow> string \<Rightarrow> TenantDelegation \<Rightarrow> time \<Rightarrow> DelDB \<Rightarrow> del_error + (TenantDelegation \<times> DelDB)" where
  "createOrResolveActiveDelegation row key requested now db =
     (let db = acquireDelegationAuthoritySlot key db;
          create = (\<lambda>db. bind_result (insert_delegation row db) (\<lambda>db'. Inr (tdr_Domain row, db')))
      in case find (\<lambda>r. td_OwnerTenantID (tdr_Domain r) = td_OwnerTenantID requested \<and> tdr_ActiveKey r = Some key \<and> td_Status (tdr_Domain r) = DelegationActive) (del_rows db) of
           None \<Rightarrow> create db
         | Some occupied \<Rightarrow>
             if \<not> Expired now (tdr_Domain occupied)
             then if \<not> sameDelegationAuthority (tdr_Domain occupied) requested then Inl Del_Conflict else Inr (tdr_Domain occupied, db)
             else
               let hit = (\<lambda>r. td_ID (tdr_Domain r) = td_ID (tdr_Domain occupied) \<and> td_OwnerTenantID (tdr_Domain r) = td_OwnerTenantID requested \<and>
                            td_Status (tdr_Domain r) = DelegationActive \<and> tdr_ActiveKey r = Some key \<and> Expired now (tdr_Domain r))
               in if length (filter hit (del_rows db)) \<noteq> 1 then Inl Del_Conflict
                  else create (db\<lparr>del_rows := update_where hit (\<lambda>r. r\<lparr>tdr_ActiveKey := None\<rparr>) (del_rows db)\<rparr>))"

definition CreateOrGetActive :: "Principal option \<Rightarrow> TenantDelegation \<Rightarrow> time \<Rightarrow> DelDB \<Rightarrow> del_error + (TenantDelegation \<times> DelDB)" where
  "CreateOrGetActive ctx d now db =
     bind_result (trustedDelegationOwner ctx) (\<lambda>owner.
     let d = d\<lparr>td_OwnerTenantID := owner, td_Permissions := sort (td_Permissions d)\<rparr>;
         key = delegationActiveKey owner (td_GranteeTenantID d) (td_ResourceKind d) (td_ResourceID d)
     in createOrResolveActiveDelegation \<lparr>tdr_Domain = d, tdr_ActiveKey = Some key\<rparr> key d now db)"

definition Delegation_Get :: "Principal option \<Rightarrow> string \<Rightarrow> DelDB \<Rightarrow> del_error + TenantDelegation" where
  "Delegation_Get ctx i db =
     bind_result (trustedDelegationOwner ctx) (\<lambda>owner.
     case find (\<lambda>r. td_OwnerTenantID (tdr_Domain r) = owner \<and> td_ID (tdr_Domain r) = TrimSpace i) (del_rows db) of
       None \<Rightarrow> Inl Del_NotFound | Some r \<Rightarrow> Inr (tdr_Domain r))"

definition Delegation_List :: "Principal option \<Rightarrow> DelDB \<Rightarrow> del_error + TenantDelegation list" where
  "Delegation_List ctx db =
     bind_result (trustedDelegationOwner ctx) (\<lambda>owner.
     Inr (sort_key (\<lambda>d. (td_CreatedAt d, td_ID d)) (map tdr_Domain (filter (\<lambda>r. td_OwnerTenantID (tdr_Domain r) = owner) (del_rows db)))))"

definition Delegation_Update :: "Principal option \<Rightarrow> TenantDelegation \<Rightarrow> uint64 \<Rightarrow> DelDB \<Rightarrow> del_error + (TenantDelegation \<times> DelDB)" where
  "Delegation_Update ctx d expected db =
     (if expected = 0 then Inl Del_VersionRequired
      else bind_result (trustedDelegationOwner ctx) (\<lambda>owner.
        let key = delegationActiveKey owner (td_GranteeTenantID d) (td_ResourceKind d) (td_ResourceID d);
            db = acquireDelegationAuthoritySlot key db;
            active = (if td_Status d = DelegationActive then Some key else None);
            mine = (\<lambda>r. td_OwnerTenantID (tdr_Domain r) = owner \<and> td_ID (tdr_Domain r) = td_ID d);
            hit = (\<lambda>r. mine r \<and> td_Version (tdr_Domain r) = expected)
        in if (\<exists>r \<in> set (del_rows db). hit r) \<and> active \<noteq> None \<and> (\<exists>r \<in> set (del_rows db). td_ID (tdr_Domain r) \<noteq> td_ID d \<and> tdr_ActiveKey r = active)
           then Inl Del_Duplicate
           else if length (filter hit (del_rows db)) \<noteq> 1
           then Inl (if length (filter mine (del_rows db)) = 0 then Del_NotFound else Del_Conflict)
           else Inr (d\<lparr>td_OwnerTenantID := owner, td_Version := expected + 1\<rparr>,
             db\<lparr>del_rows := update_where hit (\<lambda>r. r\<lparr>tdr_Domain := (tdr_Domain r)\<lparr>td_Status := td_Status d, td_UpdatedAt := td_UpdatedAt d,
                 td_Version := td_Version (tdr_Domain r) + 1\<rparr>, tdr_ActiveKey := active\<rparr>) (del_rows db)\<rparr>)))"

subsection \<open>The service\<close>

definition delegatedDevicePermissions :: "string list" where
  "delegatedDevicePermissions = [''device.read'', ''device.update'']"

fun delegated_permissions :: "string list \<Rightarrow> string list \<Rightarrow> del_error + string list" where
  "delegated_permissions out [] = Inr out"
| "delegated_permissions out (v # rest) =
     (let permission = TrimSpace v
      in if permission \<notin> set delegatedDevicePermissions then Inl Del_InvalidRequest
         else if permission \<in> set out then delegated_permissions out rest
         else delegated_permissions (out @ [permission]) rest)"

definition normalizeDelegatedDevicePermissions :: "string list \<Rightarrow> del_error + string list" where
  "normalizeDelegatedDevicePermissions raws =
     bind_result (delegated_permissions [] raws) (\<lambda>out. if out = [] then Inl Del_InvalidRequest else Inr (sort out))"

text \<open>\<open>time.UnixMilli\<close>: milliseconds since 1 January 1970, which is 62135596800 seconds after the zero time.\<close>

definition UnixMilli :: "int \<Rightarrow> time" where
  "UnixMilli ms = 62135596800 * Second + ms * 1000000"

text \<open>The service reads the clock at \<open>now\<close>, the repository at \<open>later\<close>.\<close>

definition GrantTenantDeviceDelegation :: "(string \<Rightarrow> del_error err) \<Rightarrow> (string \<Rightarrow> del_error err) \<Rightarrow> Principal option \<Rightarrow> string \<Rightarrow> string \<Rightarrow> string \<Rightarrow> string list \<Rightarrow> int \<Rightarrow> time \<Rightarrow> time \<Rightarrow> DelDB
    \<Rightarrow> del_error + (TenantDelegation \<times> DelDB)" where
  "GrantTenantDeviceDelegation tenantActive deviceOwned ctx newID grantee device permissions expiresMs now later db =
     (case trustedTenantID ctx of Inl e \<Rightarrow> Inl (Del_Access e) | Inr owner \<Rightarrow>
      let grantee = TrimSpace grantee; device = TrimSpace device
      in if grantee = '''' \<or> device = '''' \<or> grantee = owner then Inl Del_InvalidRequest
         else bind_result (normalizeDelegatedDevicePermissions permissions) (\<lambda>permissions.
           let expiresAt = (if expiresMs \<noteq> 0 then Some (UnixMilli expiresMs) else None)
           in if expiresAt \<noteq> None \<and> \<not> the expiresAt > now then Inl Del_InvalidRequest
              else guard (tenantActive grantee)
                (guard (deviceOwned device)
                  (CreateOrGetActive ctx (NewTenantDelegation newID owner grantee ResourceDevice device permissions expiresAt now) later db))))"

definition del_tenant :: "Principal option \<Rightarrow> del_error err" where
  "del_tenant ctx = (case trustedTenantID ctx of Inl e \<Rightarrow> Some (Del_Access e) | Inr t \<Rightarrow> None)"

definition GetTenantDelegation :: "Principal option \<Rightarrow> string \<Rightarrow> DelDB \<Rightarrow> del_error + TenantDelegation" where
  "GetTenantDelegation ctx i db =
     (if TrimSpace i = '''' then Inl Del_InvalidRequest else guard (del_tenant ctx) (Delegation_Get ctx (TrimSpace i) db))"

definition ListTenantDelegations :: "Principal option \<Rightarrow> DelDB \<Rightarrow> del_error + TenantDelegation list" where
  "ListTenantDelegations ctx db = guard (del_tenant ctx) (Delegation_List ctx db)"

definition RevokeTenantDelegation :: "Principal option \<Rightarrow> string \<Rightarrow> uint64 \<Rightarrow> time \<Rightarrow> DelDB \<Rightarrow> del_error + (TenantDelegation \<times> DelDB)" where
  "RevokeTenantDelegation ctx i version now db =
     (if TrimSpace i = '''' \<or> version = 0 then Inl Del_InvalidRequest
      else guard (del_tenant ctx)
        (bind_result (Delegation_Get ctx (TrimSpace i) db) (\<lambda>current.
         if td_Version current \<noteq> version then Inl Del_Conflict
         else bind_result (Delegation_Revoke now current) (\<lambda>revoked. Delegation_Update ctx revoked version db))))"

subsection \<open>The resolver of live delegations\<close>

definition containsDelegationPermission :: "string list \<Rightarrow> string \<Rightarrow> bool" where
  "containsDelegationPermission values permission \<longleftrightarrow> permission \<in> TrimSpace ` set values"

definition ResolveActiveDeviceDelegation :: "string \<Rightarrow> string \<Rightarrow> string \<Rightarrow> string \<Rightarrow> time \<Rightarrow> DelDB \<Rightarrow> (string \<times> uint64) option" where
  "ResolveActiveDeviceDelegation owner grantee device permission now db =
     (let owner = TrimSpace owner; grantee = TrimSpace grantee; device = TrimSpace device; permission = TrimSpace permission
      in if owner = '''' \<or> grantee = '''' \<or> device = '''' \<or> permission = '''' then None
         else case find (\<lambda>r. td_OwnerTenantID (tdr_Domain r) = owner \<and> td_GranteeTenantID (tdr_Domain r) = grantee \<and>
                 td_ResourceKind (tdr_Domain r) = ResourceDevice \<and> td_ResourceID (tdr_Domain r) = device \<and>
                 td_Status (tdr_Domain r) = DelegationActive \<and> \<not> Expired now (tdr_Domain r)) (sort_key (td_ID \<circ> tdr_Domain) (del_rows db)) of
           None \<Rightarrow> None
         | Some r \<Rightarrow> if Expired now (tdr_Domain r) \<or> \<not> containsDelegationPermission (td_Permissions (tdr_Domain r)) permission then None
                     else Some (td_ID (tdr_Domain r), td_Version (tdr_Domain r)))"

subsection \<open>The delegated access to a device\<close>

definition ResolveDeviceOwner :: "string \<Rightarrow> DevDB \<Rightarrow> dev_error + string" where
  "ResolveDeviceOwner deviceID db =
     (if TrimSpace deviceID = '''' then Inl Dev_NotFound
      else case find (\<lambda>r. dpr_DeletedAt r = None \<and> dev_ID (dpr_Domain r) = TrimSpace deviceID) (ddb_devices db) of
          None \<Rightarrow> Inl Dev_NotFound
        | Some r \<Rightarrow> if TrimSpace (dev_TenantID (dpr_Domain r)) = '''' then Inl Dev_NotFound else Inr (TrimSpace (dev_TenantID (dpr_Domain r))))"

datatype DelegatedRequest =
    GetDelegatedDeviceRequest string
  | UpdateDelegatedDeviceRequest string uint64 string

fun delegatedDeviceID :: "DelegatedRequest \<Rightarrow> dev_error + string" where
  "delegatedDeviceID (GetDelegatedDeviceRequest i) = (if TrimSpace i = '''' then Inl Dev_DelegatedDenied else Inr (TrimSpace i))"
| "delegatedDeviceID (UpdateDelegatedDeviceRequest i version name) = (if TrimSpace i = '''' then Inl Dev_DelegatedDenied else Inr (TrimSpace i))"

definition delegatedPermission :: "string list \<Rightarrow> dev_error + string" where
  "delegatedPermission permissions =
     (if length permissions \<noteq> 1 then Inl Dev_DelegatedDenied
      else let permission = TrimSpace (hd permissions)
        in if permission \<noteq> ''device.read'' \<and> permission \<noteq> ''device.update'' then Inl Dev_DelegatedDenied else Inr permission)"

definition Delegated_Prepare :: "DevContext \<Rightarrow> AuthorizedRequest \<Rightarrow> DelegatedRequest \<Rightarrow> time \<Rightarrow> DevDB \<Rightarrow> DelDB \<Rightarrow> dev_error + DevContext" where
  "Delegated_Prepare ctx authorized input now ddb dels =
     (let grantee = TrimSpace (prn_TenantID (arq_Principal authorized))
      in if \<not> prn_Authenticated (arq_Principal authorized) \<or> grantee = '''' then Inl Dev_DelegatedDenied
         else bind_result (delegatedDeviceID input) (\<lambda>deviceID.
           bind_result (delegatedPermission (arq_Permissions authorized)) (\<lambda>permission.
           bind_result (ResolveDeviceOwner deviceID ddb) (\<lambda>owner0.
           let owner = TrimSpace owner0
           in if owner = '''' \<or> owner = grantee then Inl Dev_DelegatedDenied
              else case ResolveActiveDeviceDelegation owner grantee deviceID permission now dels of
                None \<Rightarrow> Inl Dev_DelegatedDenied
              | Some (i, version) \<Rightarrow>
                  if TrimSpace i = '''' \<or> version = 0 then Inl Dev_DelegatedDenied
                  else Inr (ctx\<lparr>ctx_Proof := Some \<lparr>prf_OwnerTenantID = owner, prf_GranteeTenantID = grantee, prf_ResourceID = deviceID,
                    prf_Permission = permission, prf_DelegationID = i, prf_DelegationVersion = version\<rparr>\<rparr>)))))"

definition requireDelegatedProof :: "DevContext \<Rightarrow> string \<Rightarrow> string list \<Rightarrow> dev_error + DelegatedResourceProof" where
  "requireDelegatedProof ctx resourceID permissions =
     (case ctx_Proof ctx of
        None \<Rightarrow> Inl Dev_ProofRequired
      | Some proof0 \<Rightarrow>
          let proof = proof0\<lparr>prf_OwnerTenantID := TrimSpace (prf_OwnerTenantID proof0), prf_GranteeTenantID := TrimSpace (prf_GranteeTenantID proof0),
                        prf_ResourceID := TrimSpace (prf_ResourceID proof0), prf_Permission := TrimSpace (prf_Permission proof0)\<rparr>
          in if prf_OwnerTenantID proof = '''' \<or> prf_GranteeTenantID proof = '''' \<or> prf_ResourceID proof = '''' \<or> prf_ResourceID proof \<noteq> TrimSpace resourceID \<or>
                prf_DelegationVersion proof = 0 then Inl Dev_ProofRequired
             else case ctx_Principal ctx of
                 None \<Rightarrow> Inl Dev_ProofRequired
               | Some p \<Rightarrow>
                   if \<not> prn_Authenticated p \<or> TrimSpace (prn_TenantID p) \<noteq> prf_GranteeTenantID proof then Inl Dev_ProofRequired
                   else case ctx_Authorized ctx of
                       None \<Rightarrow> Inl Dev_ProofRequired
                     | Some a \<Rightarrow>
                         if \<not> arq_Allowed a \<or> TrimSpace (prn_TenantID (arq_Principal a)) \<noteq> prf_GranteeTenantID proof then Inl Dev_ProofRequired
                         else if prf_Permission proof \<notin> TrimSpace ` set permissions \<or> length (arq_Permissions a) \<noteq> 1 \<or>
                                 TrimSpace (hd (arq_Permissions a)) \<noteq> prf_Permission proof then Inl Dev_ProofRequired
                         else Inr proof)"

definition GetAuthorized :: "DevContext \<Rightarrow> string \<Rightarrow> DevDB \<Rightarrow> dev_error + Device" where
  "GetAuthorized ctx i db =
     bind_result (requireDelegatedProof ctx i [''device.read'', ''device.update'']) (\<lambda>proof.
     case find (\<lambda>r. live_device (prf_OwnerTenantID proof) r \<and> dev_ID (dpr_Domain r) = prf_ResourceID proof) (ddb_devices db) of
       None \<Rightarrow> Inl Dev_NotFound | Some r \<Rightarrow> Inr (dpr_Domain r))"

definition UpdateAuthorized :: "DevContext \<Rightarrow> Device \<Rightarrow> uint64 \<Rightarrow> time \<Rightarrow> DevDB \<Rightarrow> dev_error + DevDB" where
  "UpdateAuthorized ctx d expected now db =
     (if TrimSpace (dev_ID d) = '''' \<or> expected = 0 then Inl Dev_ValueRequired
      else bind_result (requireDelegatedProof ctx (dev_ID d) [''device.update'']) (\<lambda>proof.
        let hit = device_at (prf_OwnerTenantID proof) (prf_ResourceID proof) expected
        in if length (filter hit (ddb_devices db)) \<noteq> 1 then Inl Dev_Conflict
           else Inr (db\<lparr>ddb_devices := update_where hit (\<lambda>r. r\<lparr>dpr_Domain := (dpr_Domain r)\<lparr>dev_Name := dev_Name d,
             dev_Version := dev_Version (dpr_Domain r) + 1, dev_UpdatedAt := now\<rparr>\<rparr>) (ddb_devices db)\<rparr>)))"

definition GetDelegatedDevice :: "DevContext \<Rightarrow> string \<Rightarrow> DevDB \<Rightarrow> dev_error + Device" where
  "GetDelegatedDevice ctx i db = (if TrimSpace i = '''' then Inl Dev_Invalid else GetAuthorized ctx (TrimSpace i) db)"

definition UpdateDelegatedDevice :: "DevContext \<Rightarrow> string \<Rightarrow> uint64 \<Rightarrow> string \<Rightarrow> time \<Rightarrow> DevDB \<Rightarrow> dev_error + (Device \<times> DevDB)" where
  "UpdateDelegatedDevice ctx i version name now db =
     (if TrimSpace i = '''' \<or> version = 0 then Inl Dev_Invalid
      else bind_result (GetAuthorized ctx (TrimSpace i) db) (\<lambda>current.
        let current = (if TrimSpace name \<noteq> '''' then current\<lparr>dev_Name := TrimSpace name\<rparr> else current)
        in bind_result (UpdateAuthorized ctx current version now db) (\<lambda>db'.
           bind_result (GetAuthorized ctx (dev_ID current) db') (\<lambda>d. Inr (d, db')))))"

subsection \<open>One live delegation of an authority\<close>

definition authority :: "TenantDelegation \<Rightarrow> string \<times> string \<times> string \<times> string" where
  "authority d = (td_OwnerTenantID d, td_GranteeTenantID d, td_ResourceKind d, td_ResourceID d)"

definition key_of :: "TenantDelegation \<Rightarrow> string" where
  "key_of d = delegationActiveKey (td_OwnerTenantID d) (td_GranteeTenantID d) (td_ResourceKind d) (td_ResourceID d)"

lemma key_of_authority: "authority d = authority d' \<Longrightarrow> key_of d = key_of d'"
  by (simp add: authority_def key_of_def)

lemma Expired_mono: "Expired t d \<Longrightarrow> t \<le> t' \<Longrightarrow> Expired t' d"
  by (auto simp: Expired_def split: option.split_asm)

text \<open>
  What holds of the table at a time: identifiers and active keys are unique, a row has the key of its own authority or
  none, and an active row without its key has expired.
\<close>

definition del_inv :: "time \<Rightarrow> DelDB \<Rightarrow> bool" where
  "del_inv t db \<longleftrightarrow> distinct (map (td_ID \<circ> tdr_Domain) (del_rows db)) \<and>
     (\<forall>r \<in> set (del_rows db). \<forall>r' \<in> set (del_rows db). tdr_ActiveKey r \<noteq> None \<and> tdr_ActiveKey r = tdr_ActiveKey r' \<longrightarrow> r = r') \<and>
     (\<forall>r \<in> set (del_rows db). tdr_ActiveKey r \<in> {None, Some (key_of (tdr_Domain r))}) \<and>
     (\<forall>r \<in> set (del_rows db). td_Status (tdr_Domain r) = DelegationActive \<and> tdr_ActiveKey r = None \<longrightarrow> Expired t (tdr_Domain r))"

lemma del_invD:
  assumes "del_inv t db"
  shows "distinct (map (td_ID \<circ> tdr_Domain) (del_rows db))"
    "r \<in> set (del_rows db) \<Longrightarrow> r' \<in> set (del_rows db) \<Longrightarrow> tdr_ActiveKey r \<noteq> None \<Longrightarrow> tdr_ActiveKey r = tdr_ActiveKey r' \<Longrightarrow> r = r'"
    "r \<in> set (del_rows db) \<Longrightarrow> tdr_ActiveKey r = None \<or> tdr_ActiveKey r = Some (key_of (tdr_Domain r))"
    "r \<in> set (del_rows db) \<Longrightarrow> td_Status (tdr_Domain r) = DelegationActive \<Longrightarrow> tdr_ActiveKey r = None \<Longrightarrow> Expired t (tdr_Domain r)"
  using assms by (auto simp: del_inv_def)

lemma del_invI:
  assumes "distinct (map (td_ID \<circ> tdr_Domain) rows)"
    "\<And>r r'. r \<in> set rows \<Longrightarrow> r' \<in> set rows \<Longrightarrow> tdr_ActiveKey r \<noteq> None \<Longrightarrow> tdr_ActiveKey r = tdr_ActiveKey r' \<Longrightarrow> r = r'"
    "\<And>r. r \<in> set rows \<Longrightarrow> tdr_ActiveKey r = None \<or> tdr_ActiveKey r = Some (key_of (tdr_Domain r))"
    "\<And>r. r \<in> set rows \<Longrightarrow> td_Status (tdr_Domain r) = DelegationActive \<Longrightarrow> tdr_ActiveKey r = None \<Longrightarrow> Expired t (tdr_Domain r)"
  shows "del_inv t (db\<lparr>del_rows := rows\<rparr>)"
proof -
  have "\<forall>r \<in> set rows. \<forall>r' \<in> set rows. tdr_ActiveKey r \<noteq> None \<and> tdr_ActiveKey r = tdr_ActiveKey r' \<longrightarrow> r = r'" using assms(2) by blast
  moreover have "\<forall>r \<in> set rows. tdr_ActiveKey r \<in> {None, Some (key_of (tdr_Domain r))}" using assms(3) by blast
  moreover have "\<forall>r \<in> set rows. td_Status (tdr_Domain r) = DelegationActive \<and> tdr_ActiveKey r = None \<longrightarrow> Expired t (tdr_Domain r)" using assms(4) by blast
  moreover have rows: "del_rows (db\<lparr>del_rows := rows\<rparr>) = rows" by simp
  ultimately show ?thesis unfolding del_inv_def rows using assms(1) by blast
qed

lemma del_inv_empty: "del_inv t \<lparr>del_rows = [], del_slots = []\<rparr>"
  by (simp add: del_inv_def)

lemma del_inv_rows: "del_rows db = del_rows db' \<Longrightarrow> del_inv t db \<longleftrightarrow> del_inv t db'"
  unfolding del_inv_def by simp

lemma del_inv_later: "del_inv t db \<Longrightarrow> t \<le> t' \<Longrightarrow> del_inv t' db"
  unfolding del_inv_def using Expired_mono by blast

lemma del_id_unique: "del_inv t db \<Longrightarrow> r \<in> set (del_rows db) \<Longrightarrow> r' \<in> set (del_rows db) \<Longrightarrow> td_ID (tdr_Domain r) = td_ID (tdr_Domain r') \<Longrightarrow> r = r'"
  using del_invD(1) [of t db] by (auto simp: distinct_map inj_on_def)

lemma del_inv_slot: "del_inv t (acquireDelegationAuthoritySlot key db) = del_inv t db" "del_rows (acquireDelegationAuthoritySlot key db) = del_rows db"
  by (simp_all add: acquireDelegationAuthoritySlot_def del_inv_def)

text \<open>A live row: active and not expired. An authority has one at most.\<close>

definition live_row :: "time \<Rightarrow> tenantDelegationRecord \<Rightarrow> bool" where
  "live_row t r \<longleftrightarrow> td_Status (tdr_Domain r) = DelegationActive \<and> \<not> Expired t (tdr_Domain r)"

lemma live_row_key: "del_inv t0 db \<Longrightarrow> t0 \<le> t \<Longrightarrow> r \<in> set (del_rows db) \<Longrightarrow> live_row t r \<Longrightarrow> tdr_ActiveKey r = Some (key_of (tdr_Domain r))"
  using del_invD(3,4) [of t0 db r] Expired_mono [of t0 _ t] by (auto simp: live_row_def)

lemma live_row_unique:
  assumes inv: "del_inv t0 db" and t: "t0 \<le> t" and r: "r \<in> set (del_rows db)" "live_row t r" "r' \<in> set (del_rows db)" "live_row t r'"
    and same: "authority (tdr_Domain r) = authority (tdr_Domain r')"
  shows "r = r'"
  using live_row_key [OF inv t r(1,2)] live_row_key [OF inv t r(3,4)] key_of_authority [OF same] del_invD(2) [OF inv r(1,3)] by simp

text \<open>A write of one row; a row that is not the one with the identifier stays.\<close>

lemma del_inv_replace:
  assumes inv: "del_inv t db" and r: "r \<in> set (del_rows db)" and id: "td_ID (tdr_Domain r') = td_ID (tdr_Domain r)"
    and key: "tdr_ActiveKey r' = None" and live: "td_Status (tdr_Domain r') = DelegationActive \<longrightarrow> Expired t (tdr_Domain r')"
  shows "del_inv t (db\<lparr>del_rows := update_where (\<lambda>x. x = r) (\<lambda>x. r') (del_rows db)\<rparr>)"
proof -
  have "map (td_ID \<circ> tdr_Domain) (update_where (\<lambda>x. x = r) (\<lambda>x. r') (del_rows db)) = map (td_ID \<circ> tdr_Domain) (del_rows db)"
    using id by (auto simp: update_where_def)
  then have ids: "distinct (map (td_ID \<circ> tdr_Domain) (update_where (\<lambda>x. x = r) (\<lambda>x. r') (del_rows db)))" using del_invD(1) [OF inv] by simp
  have cases: "x = r' \<or> x \<in> set (del_rows db)" if "x \<in> set (update_where (\<lambda>x. x = r) (\<lambda>x. r') (del_rows db))" for x
    using that by (auto simp: set_update_where split: if_split_asm)
  show ?thesis
  proof (rule del_invI [OF ids])
    fix x y assume "x \<in> set (update_where (\<lambda>x. x = r) (\<lambda>x. r') (del_rows db))" "y \<in> set (update_where (\<lambda>x. x = r) (\<lambda>x. r') (del_rows db))"
      and k: "tdr_ActiveKey x \<noteq> None" "tdr_ActiveKey x = tdr_ActiveKey y"
    then show "x = y" using cases [of x] cases [of y] key del_invD(2) [OF inv, of x y] by metis
  next
    fix x assume "x \<in> set (update_where (\<lambda>x. x = r) (\<lambda>x. r') (del_rows db))"
    then show "tdr_ActiveKey x = None \<or> tdr_ActiveKey x = Some (key_of (tdr_Domain x))" using cases [of x] key del_invD(3) [OF inv, of x] by metis
  next
    fix x assume "x \<in> set (update_where (\<lambda>x. x = r) (\<lambda>x. r') (del_rows db))" "td_Status (tdr_Domain x) = DelegationActive" "tdr_ActiveKey x = None"
    then show "Expired t (tdr_Domain x)" using cases [of x] live del_invD(4) [OF inv, of x] by metis
  qed
qed

lemma del_hit:
  assumes inv: "del_inv t db" and r: "r \<in> set (del_rows db)" "P r" and own: "\<And>x. P x \<Longrightarrow> td_ID (tdr_Domain x) = td_ID (tdr_Domain r)"
  shows "update_where P f (del_rows db) = update_where (\<lambda>x. x = r) (\<lambda>x. f r) (del_rows db)"
  unfolding update_where_def
proof (intro map_cong refl)
  fix x assume "x \<in> set (del_rows db)"
  then have "P x \<Longrightarrow> x = r" using del_id_unique [OF inv _ r(1), of x] own [of x] by blast
  then have "P x \<longleftrightarrow> x = r" using r(2) by blast
  then show "(if P x then f x else x) = (if x = r then f r else x)" by auto
qed

lemma insert_delegation_inv:
  assumes inv: "del_inv t db" and ins: "insert_delegation row db = Inr db'" and key: "tdr_ActiveKey row = Some (key_of (tdr_Domain row))"
  shows "del_inv t db'" "db' = db\<lparr>del_rows := del_rows db @ [row]\<rparr>"
proof -
  have fresh: "\<And>r. r \<in> set (del_rows db) \<Longrightarrow> td_ID (tdr_Domain r) \<noteq> td_ID (tdr_Domain row) \<and> tdr_ActiveKey r \<noteq> tdr_ActiveKey row"
    using ins key by (auto simp: insert_delegation_def split: if_split_asm)
  show db': "db' = db\<lparr>del_rows := del_rows db @ [row]\<rparr>" using ins by (simp add: insert_delegation_def split: if_split_asm)
  have "td_ID (tdr_Domain row) \<notin> (td_ID \<circ> tdr_Domain) ` set (del_rows db)" using fresh by force
  then have ids: "distinct (map (td_ID \<circ> tdr_Domain) (del_rows db @ [row]))" using del_invD(1) [OF inv] by simp
  have keys: "r = r'" if "r \<in> set (del_rows db @ [row])" "r' \<in> set (del_rows db @ [row])" "tdr_ActiveKey r \<noteq> None" "tdr_ActiveKey r = tdr_ActiveKey r'" for r r'
    using that fresh [of r] fresh [of r'] del_invD(2) [OF inv, of r r'] by (cases "r = row"; cases "r' = row") simp_all
  have own: "tdr_ActiveKey r = None \<or> tdr_ActiveKey r = Some (key_of (tdr_Domain r))" if "r \<in> set (del_rows db @ [row])" for r
    using that key del_invD(3) [OF inv, of r] by (cases "r = row") simp_all
  have live: "Expired t (tdr_Domain r)" if "r \<in> set (del_rows db @ [row])" "td_Status (tdr_Domain r) = DelegationActive" "tdr_ActiveKey r = None" for r
    using that key del_invD(4) [OF inv, of r] by (cases "r = row") simp_all
  show "del_inv t db'" unfolding db' by (rule del_invI [OF ids keys own live])
qed

subsection \<open>Runs of grants and revocations\<close>

lemma trustedDelegationOwner_iff: "trustedDelegationOwner ctx = Inr t \<longleftrightarrow> trustedTenantID ctx = Inr t"
  by (auto simp: trustedDelegationOwner_def trustedTenantID_def split: option.split)

text \<open>
  What one step does to the rows: nothing, a release of an expired row, an insertion (perhaps after a release), or the
  revocation of one row. The rows of an authority are only added by a grant of that authority.
\<close>

inductive del_step :: "time \<Rightarrow> (string \<times> string \<times> string \<times> string) option \<Rightarrow> tenantDelegationRecord list \<Rightarrow> tenantDelegationRecord list \<Rightarrow> bool" for t where
  keep: "del_step t g rows rows"
| release: "r \<in> set rows \<Longrightarrow> Expired t (tdr_Domain r) \<Longrightarrow> del_step t g (update_where (\<lambda>x. x = r) (\<lambda>x. r\<lparr>tdr_ActiveKey := None\<rparr>) rows) rows' \<Longrightarrow> del_step t g rows rows'"
| grant: "authority (tdr_Domain row) = a \<Longrightarrow> td_Status (tdr_Domain row) = DelegationActive \<Longrightarrow> del_step t (Some a) rows (rows @ [row])"
| revoke: "r \<in> set rows \<Longrightarrow> authority d = authority (tdr_Domain r) \<Longrightarrow> td_Status d = DelegationRevoked \<Longrightarrow>
     del_step t g rows (update_where (\<lambda>x. x = r) (\<lambda>x. r\<lparr>tdr_Domain := d, tdr_ActiveKey := None\<rparr>) rows)"

text \<open>No row of the authority is live at the time.\<close>

definition no_live :: "(string \<times> string \<times> string \<times> string) \<Rightarrow> time \<Rightarrow> tenantDelegationRecord list \<Rightarrow> bool" where
  "no_live a t rows \<longleftrightarrow> (\<forall>r \<in> set rows. authority (tdr_Domain r) = a \<longrightarrow> \<not> live_row t r)"

lemma no_live_later: "no_live a t rows \<Longrightarrow> t \<le> t' \<Longrightarrow> no_live a t' rows"
  unfolding no_live_def live_row_def using Expired_mono by blast

lemma no_live_step: "del_step t g rows rows' \<Longrightarrow> g \<noteq> Some a \<Longrightarrow> no_live a t rows \<Longrightarrow> no_live a t rows'"
proof (induction rule: del_step.induct)
  case (release r rows g rows')
  then show ?case by (auto simp: no_live_def set_update_where live_row_def split: if_split_asm)
next
  case (grant row b rows)
  then show ?case by (auto simp: no_live_def)
next
  case (revoke r rows d g)
  then show ?case by (auto simp: no_live_def set_update_where live_row_def split: if_split_asm)
qed

text \<open>The calls, and the authority a grant asks for.\<close>

datatype DelegationCall =
    GrantDelegation "string \<Rightarrow> del_error err" "string \<Rightarrow> del_error err" "Principal option" string string string "string list" int time
  | RevokeDelegation "Principal option" string uint64

fun call_authority :: "DelegationCall \<Rightarrow> (string \<times> string \<times> string \<times> string) option" where
  "call_authority (GrantDelegation ta dw ctx newID grantee device permissions ms now) =
     (case trustedTenantID ctx of Inl e \<Rightarrow> None | Inr owner \<Rightarrow> Some (owner, TrimSpace grantee, ResourceDevice, TrimSpace device))"
| "call_authority (RevokeDelegation ctx i version) = None"

fun delegation_call :: "time \<Rightarrow> DelegationCall \<Rightarrow> DelDB \<Rightarrow> del_error + (TenantDelegation \<times> DelDB)" where
  "delegation_call t (GrantDelegation ta dw ctx newID grantee device permissions ms now) db =
     GrantTenantDeviceDelegation ta dw ctx newID grantee device permissions ms now t db"
| "delegation_call t (RevokeDelegation ctx i version) db = RevokeTenantDelegation ctx i version t db"

fun run_delegations :: "(time \<times> DelegationCall) list \<Rightarrow> DelDB \<Rightarrow> DelDB" where
  "run_delegations [] db = db"
| "run_delegations ((t, c) # rest) db = run_delegations rest (case delegation_call t c db of Inl e \<Rightarrow> db | Inr (d, db') \<Rightarrow> db')"

lemma grant_step:
  assumes inv: "del_inv t db" and run: "createOrResolveActiveDelegation \<lparr>tdr_Domain = d, tdr_ActiveKey = Some (key_of d)\<rparr> (key_of d) d t db = Inr (d', db')"
    and active: "td_Status d = DelegationActive"
  shows "del_inv t db' \<and> del_step t (Some (authority d)) (del_rows db) (del_rows db')"
proof -
  let ?row = "\<lparr>tdr_Domain = d, tdr_ActiveKey = Some (key_of d)\<rparr>" and ?db = "acquireDelegationAuthoritySlot (key_of d) db"
  let ?P = "\<lambda>r. td_OwnerTenantID (tdr_Domain r) = td_OwnerTenantID d \<and> tdr_ActiveKey r = Some (key_of d) \<and> td_Status (tdr_Domain r) = DelegationActive"
  have inv': "del_inv t ?db" using inv by (simp add: del_inv_slot)
  have grant: "del_step t (Some (authority d)) rows (rows @ [?row])" for rows by (rule del_step.grant) (simp_all add: active)
  show ?thesis
  proof (cases "find ?P (del_rows ?db)")
    case None
    then have "insert_delegation ?row ?db = Inr db'" using run by (auto simp: createOrResolveActiveDelegation_def Let_def)
    from insert_delegation_inv [OF inv' this] grant [of "del_rows db"] show ?thesis by (simp add: del_inv_slot)
  next
    case (Some r)
    then have r: "r \<in> set (del_rows ?db)" "?P r" by (auto simp: find_Some_iff)
    show ?thesis
    proof (cases "Expired t (tdr_Domain r)")
      case False
      then have "db' = ?db" using run Some by (auto simp: createOrResolveActiveDelegation_def Let_def split: if_split_asm)
      then show ?thesis using inv' by (simp add: del_inv_slot del_step.keep)
    next
      case True
      let ?hit = "\<lambda>x. td_ID (tdr_Domain x) = td_ID (tdr_Domain r) \<and> td_OwnerTenantID (tdr_Domain x) = td_OwnerTenantID d \<and>
         td_Status (tdr_Domain x) = DelegationActive \<and> tdr_ActiveKey x = Some (key_of d) \<and> Expired t (tdr_Domain x)"
      let ?db2 = "?db\<lparr>del_rows := update_where (\<lambda>x. x = r) (\<lambda>x. r\<lparr>tdr_ActiveKey := None\<rparr>) (del_rows ?db)\<rparr>"
      have upd: "update_where ?hit (\<lambda>x. x\<lparr>tdr_ActiveKey := None\<rparr>) (del_rows ?db) = update_where (\<lambda>x. x = r) (\<lambda>x. r\<lparr>tdr_ActiveKey := None\<rparr>) (del_rows ?db)"
        by (rule del_hit [OF inv' r(1)]) (use r(2) True in auto)
      have ins: "insert_delegation ?row ?db2 = Inr db'"
        using run Some True by (auto simp: createOrResolveActiveDelegation_def Let_def upd split: if_split_asm)
      have inv2: "del_inv t ?db2" by (rule del_inv_replace [OF inv' r(1)]) (simp_all add: True)
      from insert_delegation_inv [OF inv2 ins] have "del_inv t db'" "del_rows db' = del_rows ?db2 @ [?row]" by simp_all
      moreover have "del_step t (Some (authority d)) (del_rows ?db) (del_rows ?db2 @ [?row])"
        by (rule del_step.release [OF r(1) True]) (use grant [of "del_rows ?db2"] in simp)
      ultimately show ?thesis by (simp add: del_inv_slot)
    qed
  qed
qed

lemma Revoke_result:
  assumes inv: "del_inv t0 db" and run: "RevokeTenantDelegation ctx i version t db = Inr (d, db')"
  shows "\<exists>r \<in> set (del_rows db). trustedTenantID ctx = Inr (td_OwnerTenantID (tdr_Domain r)) \<and> td_ID (tdr_Domain r) = TrimSpace i \<and> td_Version (tdr_Domain r) = version \<and>
     td_Status (tdr_Domain r) = DelegationActive \<and> d = (tdr_Domain r)\<lparr>td_Status := DelegationRevoked, td_UpdatedAt := t, td_Version := version + 1\<rparr> \<and>
     del_rows db' = update_where (\<lambda>x. x = r) (\<lambda>x. r\<lparr>tdr_Domain := d, tdr_ActiveKey := None\<rparr>) (del_rows db)"
proof -
  obtain cur where cur: "Delegation_Get ctx (TrimSpace i) db = Inr cur" "td_Version cur = version" "td_Status cur = DelegationActive" "version \<noteq> 0"
    and upd: "Delegation_Update ctx (cur\<lparr>td_Status := DelegationRevoked, td_UpdatedAt := t\<rparr>) version db = Inr (d, db')"
    using run by (auto simp: RevokeTenantDelegation_def Delegation_Revoke_def split: if_split_asm)
  obtain owner where owner: "trustedDelegationOwner ctx = Inr owner" using cur(1) by (auto simp: Delegation_Get_def)
  obtain r where r: "r \<in> set (del_rows db)" "td_OwnerTenantID (tdr_Domain r) = owner" "td_ID (tdr_Domain r) = TrimSpace i" "cur = tdr_Domain r"
  proof -
    obtain r where "find (\<lambda>r. td_OwnerTenantID (tdr_Domain r) = owner \<and> td_ID (tdr_Domain r) = TrimSpace i) (del_rows db) = Some r" "cur = tdr_Domain r"
      using cur(1) owner by (auto simp: Delegation_Get_def split: option.split_asm)
    then show ?thesis using that [of r] by (auto simp: find_Some_iff)
  qed
  let ?hit = "\<lambda>x. (td_OwnerTenantID (tdr_Domain x) = owner \<and> td_ID (tdr_Domain x) = td_ID cur) \<and> td_Version (tdr_Domain x) = version"
  let ?f = "\<lambda>x. x\<lparr>tdr_Domain := (tdr_Domain x)\<lparr>td_Status := DelegationRevoked, td_UpdatedAt := t, td_Version := td_Version (tdr_Domain x) + 1\<rparr>, tdr_ActiveKey := None\<rparr>"
  have d: "d = cur\<lparr>td_Status := DelegationRevoked, td_UpdatedAt := t, td_OwnerTenantID := owner, td_Version := version + 1\<rparr>"
    and rows: "del_rows db' = update_where ?hit ?f (del_rows db)"
    using upd owner cur(4) by (auto simp: Delegation_Update_def Let_def del_inv_slot split: if_split_asm)
  have "update_where ?hit ?f (del_rows db) = update_where (\<lambda>x. x = r) (\<lambda>x. ?f r) (del_rows db)"
    by (rule del_hit [OF inv r(1)]) (use r cur in auto)
  moreover have "?f r = r\<lparr>tdr_Domain := d, tdr_ActiveKey := None\<rparr>" using d r cur(2) by (auto intro!: TenantDelegation.equality)
  moreover have "d = (tdr_Domain r)\<lparr>td_Status := DelegationRevoked, td_UpdatedAt := t, td_Version := version + 1\<rparr>" using d r by (auto intro!: TenantDelegation.equality)
  ultimately show ?thesis using r cur owner rows by (intro bexI [of _ r]) (auto simp: trustedDelegationOwner_iff)
qed

lemma revoke_step:
  assumes inv: "del_inv t db" and run: "RevokeTenantDelegation ctx i version t db = Inr (d, db')"
  shows "del_inv t db' \<and> del_step t g (del_rows db) (del_rows db')"
proof -
  obtain r where r: "r \<in> set (del_rows db)" "d = (tdr_Domain r)\<lparr>td_Status := DelegationRevoked, td_UpdatedAt := t, td_Version := version + 1\<rparr>"
     "del_rows db' = update_where (\<lambda>x. x = r) (\<lambda>x. r\<lparr>tdr_Domain := d, tdr_ActiveKey := None\<rparr>) (del_rows db)"
    using Revoke_result [OF inv run] by blast
  have step: "del_step t g (del_rows db) (del_rows db')" unfolding r(3) by (rule del_step.revoke [OF r(1)]) (simp_all add: r(2) authority_def)
  have "del_inv t (db\<lparr>del_rows := update_where (\<lambda>x. x = r) (\<lambda>x. r\<lparr>tdr_Domain := d, tdr_ActiveKey := None\<rparr>) (del_rows db)\<rparr>)"
    by (rule del_inv_replace [OF inv r(1)]) (simp_all add: r(2))
  then have "del_inv t db'" by (rule del_inv_rows [THEN iffD1, rotated]) (simp add: r(3))
  then show ?thesis using step by simp
qed

lemma delegation_call_step:
  assumes inv: "del_inv t db" and run: "delegation_call t c db = Inr (d, db')"
  shows "del_inv t db' \<and> del_step t (call_authority c) (del_rows db) (del_rows db')"
proof (cases c)
  case (GrantDelegation ta dw ctx newID grantee device permissions ms now)
  then obtain owner ps e where owner: "trustedTenantID ctx = Inr owner" "normalizeDelegatedDevicePermissions permissions = Inr ps"
    and create: "CreateOrGetActive ctx (NewTenantDelegation newID owner (TrimSpace grantee) ResourceDevice (TrimSpace device) ps e now) t db = Inr (d, db')"
    using run by (auto simp: GrantTenantDeviceDelegation_def Let_def split: sum.split_asm if_split_asm)
  let ?d = "(NewTenantDelegation newID owner (TrimSpace grantee) ResourceDevice (TrimSpace device) ps e now)\<lparr>td_OwnerTenantID := owner, td_Permissions := sort ps\<rparr>"
  have "createOrResolveActiveDelegation \<lparr>tdr_Domain = ?d, tdr_ActiveKey = Some (key_of ?d)\<rparr> (key_of ?d) ?d t db = Inr (d, db')"
    using create owner(1) by (simp add: CreateOrGetActive_def trustedDelegationOwner_iff [THEN iffD2] Let_def key_of_def NewTenantDelegation_def bind_result_def)
  from grant_step [OF inv this] show ?thesis using GrantDelegation owner(1) by (simp add: NewTenantDelegation_def authority_def)
next
  case (RevokeDelegation ctx i version)
  then show ?thesis using revoke_step [OF inv] run by simp
qed

text \<open>Calls in the order of their times.\<close>

fun timed :: "time \<Rightarrow> (time \<times> DelegationCall) list \<Rightarrow> bool" where
  "timed t [] \<longleftrightarrow> True"
| "timed t ((s, c) # rest) \<longleftrightarrow> t \<le> s \<and> timed s rest"

fun last_time :: "time \<Rightarrow> (time \<times> DelegationCall) list \<Rightarrow> time" where
  "last_time t [] = t"
| "last_time t ((s, c) # rest) = last_time s rest"

lemma last_time_ge: "timed t calls \<Longrightarrow> t \<le> last_time t calls"
  by (induction t calls rule: timed.induct) auto

lemma run_delegations_inv: "timed t calls \<Longrightarrow> del_inv t db \<Longrightarrow> del_inv (last_time t calls) (run_delegations calls db)"
proof (induction t calls arbitrary: db rule: timed.induct)
  case (2 t s c rest)
  have inv: "del_inv s db" using 2(2,3) del_inv_later by auto
  have "del_inv s (case delegation_call s c db of Inl e \<Rightarrow> db | Inr (d, db') \<Rightarrow> db')"
    using inv delegation_call_step [OF inv] by (auto split: sum.split)
  then show ?case using 2(1,2) by simp
qed simp

lemma run_delegations_no_live:
  "timed t calls \<Longrightarrow> del_inv t db \<Longrightarrow> no_live a t (del_rows db) \<Longrightarrow> Some a \<notin> (call_authority \<circ> snd) ` set calls \<Longrightarrow>
   no_live a (last_time t calls) (del_rows (run_delegations calls db))"
proof (induction t calls arbitrary: db rule: timed.induct)
  case (2 t s c rest)
  let ?db = "case delegation_call s c db of Inl e \<Rightarrow> db | Inr (d, db') \<Rightarrow> db'"
  have inv: "del_inv s db" and none: "no_live a s (del_rows db)" using 2(2,3,4) del_inv_later no_live_later by auto
  have "del_inv s ?db \<and> no_live a s (del_rows ?db)"
  proof (cases "delegation_call s c db")
    case (Inr x)
    obtain d db' where x: "x = (d, db')" by (cases x)
    have "call_authority c \<noteq> Some a" using 2(5) by auto
    then show ?thesis using delegation_call_step [OF inv Inr [unfolded x]] no_live_step [OF _ _ none] by (auto simp: Inr x)
  qed (simp add: inv none)
  then show ?case using 2(1) [of ?db] 2(2,5) by simp
qed simp

subsection \<open>What a proof rests on\<close>

lemma TrimSpace_device_update: "TrimSpace ''device.update'' = ''device.update''"
  by code_simp

definition delegated_access :: "DevContext \<Rightarrow> DelegatedRequest \<Rightarrow> time \<Rightarrow> DevDB \<Rightarrow> dev_error + (Device \<times> DevDB)" where
  "delegated_access ctx req now db =
     (case req of
        GetDelegatedDeviceRequest i \<Rightarrow> bind_result (GetDelegatedDevice ctx i db) (\<lambda>d. Inr (d, db))
      | UpdateDelegatedDeviceRequest i version name \<Rightarrow> UpdateDelegatedDevice ctx i version name now db)"

lemma find_in: "find P xs = Some x \<Longrightarrow> x \<in> set xs \<and> P x"
  by (auto simp: find_Some_iff)

lemma ResolveActive_row:
  assumes "ResolveActiveDeviceDelegation owner grantee device permission now db = Some (i, version)"
  shows "\<exists>r \<in> set (del_rows db). live_row now r \<and> authority (tdr_Domain r) = (TrimSpace owner, TrimSpace grantee, ResourceDevice, TrimSpace device) \<and>
     TrimSpace permission \<in> TrimSpace ` set (td_Permissions (tdr_Domain r))"
proof -
  let ?P = "\<lambda>r. td_OwnerTenantID (tdr_Domain r) = TrimSpace owner \<and> td_GranteeTenantID (tdr_Domain r) = TrimSpace grantee \<and>
     td_ResourceKind (tdr_Domain r) = ResourceDevice \<and> td_ResourceID (tdr_Domain r) = TrimSpace device \<and> td_Status (tdr_Domain r) = DelegationActive \<and> \<not> Expired now (tdr_Domain r)"
  obtain r where r: "find ?P (sort_key (td_ID \<circ> tdr_Domain) (del_rows db)) = Some r" "containsDelegationPermission (td_Permissions (tdr_Domain r)) (TrimSpace permission)"
    using assms by (auto simp: ResolveActiveDeviceDelegation_def Let_def split: if_split_asm option.split_asm)
  have "r \<in> set (sort_key (td_ID \<circ> tdr_Domain) (del_rows db))" "?P r" using find_in [OF r(1)] by blast+
  then show ?thesis using r(2) by (intro bexI [of _ r]) (auto simp: live_row_def authority_def containsDelegationPermission_def)
qed

lemma Delegated_Prepare_result:
  assumes "Delegated_Prepare ctx a req now ddb dels = Inr ctx'"
  shows "\<exists>owner grantee device permission i version r. ctx' = ctx\<lparr>ctx_Proof := Some \<lparr>prf_OwnerTenantID = owner, prf_GranteeTenantID = grantee, prf_ResourceID = device,
       prf_Permission = permission, prf_DelegationID = i, prf_DelegationVersion = version\<rparr>\<rparr> \<and>
     TrimSpace owner = owner \<and> TrimSpace device = device \<and> TrimSpace permission = permission \<and> grantee = TrimSpace (prn_TenantID (arq_Principal a)) \<and> owner \<noteq> grantee \<and>
     length (arq_Permissions a) = 1 \<and> permission = TrimSpace (hd (arq_Permissions a)) \<and>
     r \<in> set (del_rows dels) \<and> live_row now r \<and> authority (tdr_Domain r) = (owner, grantee, ResourceDevice, device) \<and> permission \<in> TrimSpace ` set (td_Permissions (tdr_Domain r))"
proof -
  obtain device permission owner0 where d: "delegatedDeviceID req = Inr device" "delegatedPermission (arq_Permissions a) = Inr permission" "ResolveDeviceOwner device ddb = Inr owner0"
    using assms by (auto simp: Delegated_Prepare_def Let_def split: if_split_asm)
  let ?owner = "TrimSpace owner0" and ?grantee = "TrimSpace (prn_TenantID (arq_Principal a))"
  obtain i version where i: "ResolveActiveDeviceDelegation ?owner ?grantee device permission now dels = Some (i, version)" "?owner \<noteq> ?grantee"
    "ctx' = ctx\<lparr>ctx_Proof := Some \<lparr>prf_OwnerTenantID = ?owner, prf_GranteeTenantID = ?grantee, prf_ResourceID = device,
       prf_Permission = permission, prf_DelegationID = i, prf_DelegationVersion = version\<rparr>\<rparr>"
    using assms d by (auto simp: Delegated_Prepare_def Let_def split: if_split_asm option.split_asm)
  have device: "TrimSpace device = device" using d(1) by (cases req) (auto split: if_split_asm)
  have eq: "length (arq_Permissions a) = 1" "permission = TrimSpace (hd (arq_Permissions a))"
    using d(2) by (auto simp: delegatedPermission_def Let_def split: if_split_asm)
  then have permission: "TrimSpace permission = permission" "length (arq_Permissions a) = 1" "permission = TrimSpace (hd (arq_Permissions a))" by simp_all
  obtain r where "r \<in> set (del_rows dels)" "live_row now r" "authority (tdr_Domain r) = (?owner, ?grantee, ResourceDevice, device)" "permission \<in> TrimSpace ` set (td_Permissions (tdr_Domain r))"
    using ResolveActive_row [OF i(1)] device permission(1) by auto
  then show ?thesis using i(2,3) device permission by (intro exI [of _ ?owner] exI [of _ ?grantee] exI [of _ device] exI [of _ permission] exI [of _ i] exI [of _ version] exI [of _ r]) simp
qed

lemma requireDelegatedProof_result:
  assumes "requireDelegatedProof ctx i permissions = Inr proof" "ctx_Proof ctx = Some p"
    "TrimSpace (prf_OwnerTenantID p) = prf_OwnerTenantID p" "TrimSpace (prf_ResourceID p) = prf_ResourceID p" "TrimSpace (prf_Permission p) = prf_Permission p"
  shows "prf_OwnerTenantID proof = prf_OwnerTenantID p \<and> prf_ResourceID proof = prf_ResourceID p \<and> prf_Permission p \<in> TrimSpace ` set permissions"
  using assms by (auto simp: requireDelegatedProof_def Let_def split: if_split_asm option.split_asm)

lemma GetAuthorized_result:
  assumes get: "GetAuthorized ctx i db = Inr d" and p: "ctx_Proof ctx = Some p"
    "TrimSpace (prf_OwnerTenantID p) = prf_OwnerTenantID p" "TrimSpace (prf_ResourceID p) = prf_ResourceID p" "TrimSpace (prf_Permission p) = prf_Permission p"
  shows "dev_TenantID d = prf_OwnerTenantID p \<and> dev_ID d = prf_ResourceID p"
proof -
  obtain pr where pr: "requireDelegatedProof ctx i [''device.read'', ''device.update''] = Inr pr" using get by (auto simp: GetAuthorized_def)
  then obtain r where "find (\<lambda>r. live_device (prf_OwnerTenantID pr) r \<and> dev_ID (dpr_Domain r) = prf_ResourceID pr) (ddb_devices db) = Some r" "d = dpr_Domain r"
    using get by (auto simp: GetAuthorized_def split: option.split_asm)
  then show ?thesis using requireDelegatedProof_result [OF pr p] by (auto simp: find_Some_iff live_device_def)
qed

text \<open>What a delegated access leaves behind: at most the name, the version and the time of the device in the proof change.\<close>

lemma delegated_access_effect:
  assumes run: "delegated_access ctx req now db = Inr (d, db')" and p: "ctx_Proof ctx = Some p"
    "TrimSpace (prf_OwnerTenantID p) = prf_OwnerTenantID p" "TrimSpace (prf_ResourceID p) = prf_ResourceID p" "TrimSpace (prf_Permission p) = prf_Permission p"
  shows "dev_TenantID d = prf_OwnerTenantID p \<and> dev_ID d = prf_ResourceID p \<and> ddb_sites db' = ddb_sites db \<and>
    (\<forall>x \<in> set (ddb_devices db') - set (ddb_devices db). prf_Permission p = ''device.update'' \<and>
       (\<exists>x0 \<in> set (ddb_devices db). \<exists>name. live_device (prf_OwnerTenantID p) x0 \<and> dev_ID (dpr_Domain x0) = prf_ResourceID p \<and>
          x = x0\<lparr>dpr_Domain := (dpr_Domain x0)\<lparr>dev_Name := name, dev_Version := dev_Version (dpr_Domain x0) + 1, dev_UpdatedAt := now\<rparr>\<rparr>))"
proof (cases req)
  case (GetDelegatedDeviceRequest i)
  then have "GetAuthorized ctx (TrimSpace i) db = Inr d" "db' = db"
    using run by (auto simp: delegated_access_def GetDelegatedDevice_def split: if_split_asm)
  then show ?thesis using GetAuthorized_result [OF _ p] by simp
next
  case (UpdateDelegatedDeviceRequest i version name)
  obtain cur y where cur: "GetAuthorized ctx (TrimSpace i) db = Inr cur" "UpdateAuthorized ctx y version now db = Inr db'" "GetAuthorized ctx (dev_ID y) db' = Inr d"
    using run UpdateDelegatedDeviceRequest by (auto simp: delegated_access_def UpdateDelegatedDevice_def Let_def split: if_split_asm)
  obtain pr where pr: "requireDelegatedProof ctx (dev_ID y) [''device.update''] = Inr pr" using cur(2) by (auto simp: UpdateAuthorized_def split: if_split_asm)
  note res = requireDelegatedProof_result [OF pr p]
  have perm: "prf_Permission p = ''device.update''" using res by (simp add: TrimSpace_device_update)
  have db': "db' = db\<lparr>ddb_devices := update_where (device_at (prf_OwnerTenantID p) (prf_ResourceID p) version) (\<lambda>r. r\<lparr>dpr_Domain := (dpr_Domain r)\<lparr>dev_Name := dev_Name y,
             dev_Version := dev_Version (dpr_Domain r) + 1, dev_UpdatedAt := now\<rparr>\<rparr>) (ddb_devices db)\<rparr>"
    using cur(2) pr res by (auto simp: UpdateAuthorized_def Let_def split: if_split_asm)
  have "\<exists>x0 \<in> set (ddb_devices db). \<exists>name. live_device (prf_OwnerTenantID p) x0 \<and> dev_ID (dpr_Domain x0) = prf_ResourceID p \<and>
          x = x0\<lparr>dpr_Domain := (dpr_Domain x0)\<lparr>dev_Name := name, dev_Version := dev_Version (dpr_Domain x0) + 1, dev_UpdatedAt := now\<rparr>\<rparr>"
    if "x \<in> set (ddb_devices db') - set (ddb_devices db)" for x
    using that unfolding db' by (auto simp: set_update_where device_at_def split: if_split_asm)
  then show ?thesis using GetAuthorized_result [OF cur(3) p] perm by (simp add: db')
qed

subsection \<open>Properties\<close>

text \<open>
  Devices across tenants: a delegated read or update that succeeds concerns a device of another tenant, and when the
  guard admitted it that tenant had delegated this very device to the caller's tenant, actively, not expired, and with
  the one permission the operation declares. Whatever the device table was by then, at most the name, the version and
  the time of that device change, and only under the permission to update.
\<close>

lemma delegated_access_authorized:
  assumes prepare: "Delegated_Prepare ctx a req now ddb dels = Inr ctx'" and run: "delegated_access ctx' req later ddb1 = Inr (d, ddb2)"
  shows "dev_TenantID d \<noteq> TrimSpace (prn_TenantID (arq_Principal a)) \<and>
    (\<exists>r \<in> set (del_rows dels). td_OwnerTenantID (tdr_Domain r) = dev_TenantID d \<and> td_GranteeTenantID (tdr_Domain r) = TrimSpace (prn_TenantID (arq_Principal a)) \<and>
       td_ResourceKind (tdr_Domain r) = ResourceDevice \<and> td_ResourceID (tdr_Domain r) = dev_ID d \<and> td_Status (tdr_Domain r) = DelegationActive \<and>
       \<not> Expired now (tdr_Domain r) \<and> TrimSpace (hd (arq_Permissions a)) \<in> TrimSpace ` set (td_Permissions (tdr_Domain r))) \<and>
    ddb_sites ddb2 = ddb_sites ddb1 \<and>
    (\<forall>x \<in> set (ddb_devices ddb2) - set (ddb_devices ddb1). TrimSpace (hd (arq_Permissions a)) = ''device.update'' \<and>
       (\<exists>x0 \<in> set (ddb_devices ddb1). \<exists>name. dev_TenantID (dpr_Domain x0) = dev_TenantID d \<and> dev_ID (dpr_Domain x0) = dev_ID d \<and> dpr_DeletedAt x0 = None \<and>
          x = x0\<lparr>dpr_Domain := (dpr_Domain x0)\<lparr>dev_Name := name, dev_Version := dev_Version (dpr_Domain x0) + 1, dev_UpdatedAt := later\<rparr>\<rparr>))"
proof -
  obtain owner grantee device permission i version r where ctx': "ctx' = ctx\<lparr>ctx_Proof := Some \<lparr>prf_OwnerTenantID = owner, prf_GranteeTenantID = grantee, prf_ResourceID = device,
       prf_Permission = permission, prf_DelegationID = i, prf_DelegationVersion = version\<rparr>\<rparr>"
    and trimmed: "TrimSpace owner = owner" "TrimSpace device = device" "TrimSpace permission = permission"
    and g: "grantee = TrimSpace (prn_TenantID (arq_Principal a))" "owner \<noteq> grantee" "permission = TrimSpace (hd (arq_Permissions a))"
    and r: "r \<in> set (del_rows dels)" "live_row now r" "authority (tdr_Domain r) = (owner, grantee, ResourceDevice, device)" "permission \<in> TrimSpace ` set (td_Permissions (tdr_Domain r))"
    using Delegated_Prepare_result [OF prepare] by (elim exE conjE)
  let ?p = "\<lparr>prf_OwnerTenantID = owner, prf_GranteeTenantID = grantee, prf_ResourceID = device, prf_Permission = permission, prf_DelegationID = i, prf_DelegationVersion = version\<rparr>"
  have held: "ctx_Proof ctx' = Some ?p" by (simp add: ctx')
  note effect = delegated_access_effect [OF run held, simplified, OF trimmed]
  then have d: "dev_TenantID d = owner" "dev_ID d = device" by simp_all
  show ?thesis
  proof (intro conjI)
    show "dev_TenantID d \<noteq> TrimSpace (prn_TenantID (arq_Principal a))" using d(1) g by simp
    show "\<exists>r \<in> set (del_rows dels). td_OwnerTenantID (tdr_Domain r) = dev_TenantID d \<and> td_GranteeTenantID (tdr_Domain r) = TrimSpace (prn_TenantID (arq_Principal a)) \<and>
       td_ResourceKind (tdr_Domain r) = ResourceDevice \<and> td_ResourceID (tdr_Domain r) = dev_ID d \<and> td_Status (tdr_Domain r) = DelegationActive \<and>
       \<not> Expired now (tdr_Domain r) \<and> TrimSpace (hd (arq_Permissions a)) \<in> TrimSpace ` set (td_Permissions (tdr_Domain r))"
      using r g d by (intro bexI [of _ r]) (simp_all add: authority_def live_row_def)
    show "ddb_sites ddb2 = ddb_sites ddb1" using effect by simp
  qed (use effect d g(3) in \<open>simp add: live_device_def; blast\<close>)
qed

text \<open>
  A revocation ends the access at once: when a delegation that has not expired is revoked, no delegation of the same
  device to the same tenant resolves any more for any permission, whatever other grants and revocations follow, until
  the owner grants that device to that tenant again. This rests on there being one live delegation at most for an
  owner, a tenant and a device, over every run of the service whose calls come in the order of their times.
\<close>

lemma revocation_ends_access:
  assumes earlier: "timed start earlier" "last_time start earlier \<le> t" and db: "db = run_delegations earlier \<lparr>del_rows = [], del_slots = []\<rparr>"
    and revoke: "RevokeTenantDelegation ctx i version t db = Inr (d, db1)" "\<not> Expired t d"
    and later: "timed t others" "last_time t others \<le> now"
    and none: "Some (td_OwnerTenantID d, td_GranteeTenantID d, td_ResourceKind d, td_ResourceID d) \<notin> (call_authority \<circ> snd) ` set others"
    and same: "TrimSpace owner = td_OwnerTenantID d" "TrimSpace grantee = td_GranteeTenantID d" "TrimSpace device = td_ResourceID d" "td_ResourceKind d = ResourceDevice"
  shows "ResolveActiveDeviceDelegation owner grantee device permission now (run_delegations others db1) = None"
proof -
  have inv0: "del_inv (last_time start earlier) db" unfolding db by (rule run_delegations_inv [OF earlier(1) del_inv_empty])
  have inv: "del_inv t db" by (rule del_inv_later [OF inv0 earlier(2)])
  have inv1: "del_inv t db1" using revoke_step [OF inv revoke(1)] by blast
  obtain r where r: "r \<in> set (del_rows db)" "td_Status (tdr_Domain r) = DelegationActive" "d = (tdr_Domain r)\<lparr>td_Status := DelegationRevoked, td_UpdatedAt := t, td_Version := version + 1\<rparr>"
     "del_rows db1 = update_where (\<lambda>x. x = r) (\<lambda>x. r\<lparr>tdr_Domain := d, tdr_ActiveKey := None\<rparr>) (del_rows db)"
    using Revoke_result [OF inv revoke(1)] by blast
  have live: "live_row t r" using r(2,3) revoke(2) by (simp add: live_row_def Expired_def)
  have auth: "authority d = authority (tdr_Domain r)" using r(3) by (simp add: authority_def)
  have "no_live (authority d) t (del_rows db1)"
    unfolding no_live_def
  proof (intro ballI impI)
    fix x assume x: "x \<in> set (del_rows db1)" "authority (tdr_Domain x) = authority d"
    show "\<not> live_row t x"
    proof (cases "x = r\<lparr>tdr_Domain := d, tdr_ActiveKey := None\<rparr>")
      case True
      then show ?thesis by (simp add: live_row_def r(3))
    next
      case False
      then have "x \<in> set (del_rows db)" "x \<noteq> r" using x(1) by (auto simp: r(4) set_update_where split: if_split_asm)
      then show ?thesis using live_row_unique [OF inv order.refl, of x r] r(1) live x(2) auth by metis
    qed
  qed
  then have "no_live (authority d) (last_time t others) (del_rows (run_delegations others db1))"
    by (rule run_delegations_no_live [OF later(1) inv1]) (use none in \<open>simp add: authority_def\<close>)
  then have none_now: "no_live (authority d) now (del_rows (run_delegations others db1))" by (rule no_live_later [OF _ later(2)])
  show ?thesis
  proof (cases "ResolveActiveDeviceDelegation owner grantee device permission now (run_delegations others db1)")
    case (Some x)
    then show ?thesis using ResolveActive_row [of owner grantee device permission now "run_delegations others db1" "fst x" "snd x"] none_now same
      by (auto simp: no_live_def authority_def)
  qed
qed

subsection \<open>Witnesses\<close>

definition ex_delegation :: TenantDelegation where
  "ex_delegation = NewTenantDelegation ''g1'' ''t1'' ''t2'' ResourceDevice ''d1'' [''device.read'', ''device.update''] None 6"

definition ex_delegations :: DelDB where
  "ex_delegations = \<lparr>del_rows = [\<lparr>tdr_Domain = ex_delegation, tdr_ActiveKey = Some (delegationActiveKey ''t1'' ''t2'' ResourceDevice ''d1'')\<rparr>],
     del_slots = [delegationActiveKey ''t1'' ''t2'' ResourceDevice ''d1'']\<rparr>"

definition ex_borrower :: AuthorizedRequest where
  "ex_borrower = \<lparr>arq_Principal = the (ex_caller ''t2'' ''u1''), arq_Operation = ''device.delegated_update'', arq_Permissions = [''device.update''], arq_Allowed = True\<rparr>"

definition ex_borrowed :: DevContext where
  "ex_borrowed = \<lparr>ctx_Principal = ex_caller ''t2'' ''u1'', ctx_Authorized = Some ex_borrower, ctx_Scope = None, ctx_Proof = None\<rparr>"

definition ex_table :: DelDB where
  "ex_table = \<lparr>del_rows = [\<lparr>tdr_Domain = ex_delegation, tdr_ActiveKey = Some ''k''\<rparr>], del_slots = [''k'']\<rparr>"

lemma ex_trim: "TrimSpace ''t1'' = ''t1''" "TrimSpace ''t2'' = ''t2''" "TrimSpace ''d1'' = ''d1''" "TrimSpace ''g1'' = ''g1''" "TrimSpace ''device.read'' = ''device.read''" "TrimSpace ''Lantern'' = ''Lantern''"
  by code_simp+

lemma delegated_access_authorized_witness:
  "\<exists>ctx' d ddb2. Delegated_Prepare ex_borrowed ex_borrower (UpdateDelegatedDeviceRequest ''d1'' 1 ''Lantern'') 9 ex_devices ex_table = Inr ctx' \<and>
     delegated_access ctx' (UpdateDelegatedDeviceRequest ''d1'' 1 ''Lantern'') 9 ex_devices = Inr (d, ddb2) \<and> dev_Name d = ''Lantern'' \<and> dev_TenantID d \<noteq> ''t2''"
proof -
  let ?req = "UpdateDelegatedDeviceRequest ''d1'' 1 ''Lantern''" and ?p = "\<lparr>prf_OwnerTenantID = ''t1'', prf_GranteeTenantID = ''t2'', prf_ResourceID = ''d1'',
     prf_Permission = ''device.update'', prf_DelegationID = ''g1'', prf_DelegationVersion = 1\<rparr>"
  have prepare: "Delegated_Prepare ex_borrowed ex_borrower ?req 9 ex_devices ex_table = Inr (ex_borrowed\<lparr>ctx_Proof := Some ?p\<rparr>)" by code_simp
  let ?ctx = "ex_borrowed\<lparr>ctx_Proof := Some ?p\<rparr>"
  have held: "requireDelegatedProof ?ctx ''d1'' [''device.read'', ''device.update''] = Inr ?p" "requireDelegatedProof ?ctx ''d1'' [''device.update''] = Inr ?p"
    by (simp_all add: requireDelegatedProof_def Let_def ex_trim TrimSpace_device_update ex_borrowed_def ex_borrower_def ex_caller_def)
  have "\<exists>d ddb2. delegated_access ?ctx ?req 9 ex_devices = Inr (d, ddb2) \<and> dev_Name d = ''Lantern''"
    by (simp add: delegated_access_def UpdateDelegatedDevice_def GetAuthorized_def UpdateAuthorized_def held ex_trim bind_result_def Let_def update_where_def
        ex_devices_def ex_device_def live_device_def device_at_def)
  then obtain d ddb2 where run: "delegated_access ?ctx ?req 9 ex_devices = Inr (d, ddb2)" "dev_Name d = ''Lantern''" by blast
  have "TrimSpace (prn_TenantID (arq_Principal ex_borrower)) = ''t2''" by code_simp
  then have "dev_TenantID d \<noteq> ''t2''" using delegated_access_authorized [OF prepare run(1)] by simp
  then show ?thesis using prepare run by blast
qed

text \<open>The run of one grant, with the digest of its key left as it is.\<close>

abbreviation ex_grant_call :: DelegationCall where
  "ex_grant_call \<equiv> GrantDelegation (\<lambda>t. None) (\<lambda>d. None) (ex_caller ''t1'' ''u1'') ''g1'' ''t2'' ''d1'' [''device.update'', ''device.read''] 0 6"

lemma ex_tenant_t1: "trustedTenantID (ex_caller ''t1'' ''u1'') = Inr ''t1''" "trustedDelegationOwner (ex_caller ''t1'' ''u1'') = Inr ''t1''"
  by code_simp+

lemma ex_permissions:
  "normalizeDelegatedDevicePermissions [''device.update'', ''device.read''] = Inr [''device.read'', ''device.update'']" "sort [''device.read'', ''device.update''] = [''device.read'', ''device.update'']"
  by code_simp+

lemma ex_delegation_run: "run_delegations [(6, ex_grant_call)] \<lparr>del_rows = [], del_slots = []\<rparr> = ex_delegations"
  by (simp add: GrantTenantDeviceDelegation_def ex_tenant_t1 ex_trim ex_permissions guard_def CreateOrGetActive_def bind_result_def createOrResolveActiveDelegation_def
      acquireDelegationAuthoritySlot_def insert_delegation_def NewTenantDelegation_def ex_delegations_def ex_delegation_def Let_def)

lemma ex_delegation_revoke:
  "\<exists>db1. RevokeTenantDelegation (ex_caller ''t1'' ''u1'') ''g1'' 1 7 ex_delegations = Inr (ex_delegation\<lparr>td_Status := DelegationRevoked, td_UpdatedAt := 7, td_Version := 2\<rparr>, db1)"
  by (simp add: RevokeTenantDelegation_def del_tenant_def ex_tenant_t1 ex_trim guard_def Delegation_Get_def bind_result_def ex_delegations_def ex_delegation_def
      NewTenantDelegation_def Delegation_Revoke_def Delegation_Update_def acquireDelegationAuthoritySlot_def Let_def)

lemma revocation_ends_access_witness:
  "\<exists>d db1. RevokeTenantDelegation (ex_caller ''t1'' ''u1'') ''g1'' 1 7 (run_delegations [(6, ex_grant_call)] \<lparr>del_rows = [], del_slots = []\<rparr>) = Inr (d, db1) \<and>
     ResolveActiveDeviceDelegation ''t1'' ''t2'' ''d1'' ''device.read'' 7 ex_delegations = Some (''g1'', 1) \<and>
     ResolveActiveDeviceDelegation ''t1'' ''t2'' ''d1'' ''device.read'' 9 (run_delegations [(8, RevokeDelegation (ex_caller ''t1'' ''u1'') ''g1'' 1)] db1) = None"
proof -
  let ?d = "ex_delegation\<lparr>td_Status := DelegationRevoked, td_UpdatedAt := 7, td_Version := 2\<rparr>"
  obtain db1 where run: "RevokeTenantDelegation (ex_caller ''t1'' ''u1'') ''g1'' 1 7 ex_delegations = Inr (?d, db1)" using ex_delegation_revoke by blast
  have d: "\<not> Expired 7 ?d" "td_OwnerTenantID ?d = ''t1''" "td_GranteeTenantID ?d = ''t2''" "td_ResourceID ?d = ''d1''" "td_ResourceKind ?d = ResourceDevice"
    by (simp_all add: Expired_def ex_delegation_def NewTenantDelegation_def)
  have "ResolveActiveDeviceDelegation ''t1'' ''t2'' ''d1'' ''device.read'' 9 (run_delegations [(8, RevokeDelegation (ex_caller ''t1'' ''u1'') ''g1'' 1)] db1) = None"
    by (rule revocation_ends_access [where start = 0 and earlier = "[(6, ex_grant_call)]", OF _ _ ex_delegation_run [symmetric] run d(1)]) (simp_all add: d ex_trim)
  moreover have "ResolveActiveDeviceDelegation ''t1'' ''t2'' ''d1'' ''device.read'' 7 ex_delegations = Some (''g1'', 1)"
    by (simp add: ResolveActiveDeviceDelegation_def ex_trim ex_delegations_def ex_delegation_def NewTenantDelegation_def Expired_def containsDelegationPermission_def Let_def)
  ultimately show ?thesis using run by (auto simp only: ex_delegation_run)
qed

end
