(* ===== verification/Spec2Isabelle.thy ===== *)
theory Spec2Isabelle
  imports Commercial_Guard Module_Catalogue Security_Delivery Change_Props Time_Transition Provisioning_Props Departments Service_Access Delegations
begin

text \<open>
  This library models the commercial core of the biz platform (Go, under \<open>src/internal/commercial\<close>)
  and the access core beside it (\<open>src/internal/access\<close>, with the devices of \<open>src/internal/deviceops\<close> that it protects), and proves the properties that make them correct:
  what a tenant has bought, how that becomes an entitlement decision, how the decision is stored and
  read, and how it is enforced on every call; who may act for a tenant, with which permissions and on
  which sites, and how secrets reach the people they are meant for.

  \<^bold>\<open>The program.\<close> A platform operator maintains a module catalogue and plans. A subscription
  binds a tenant to one plan version; materialising it writes \<^emph>\<open>sources\<close> (grants, denials, quota and
  field rules with a validity). Operators add temporary override sources by hand. The resolver turns
  the sources and the catalogue into decisions at an instant. The snapshot store keeps the resolved
  result and serves it while its inputs stand. A capability map, compiled from the generated
  operation plans and a declaration, says which capabilities every operation needs; the guard
  compares the two on every call. Changes of plan are sealed previews that are projected on the
  sources; time boundaries and external provisioning run as leased durable tasks.

  \<^bold>\<open>Theories\<close>, in the order of their imports:
  \<^item> \<open>Prelude\<close>: results and errors as values, loops with an error exit, lists, maps and words.
  \<^item> \<open>Go_Time\<close>, \<open>Go_Digest\<close>, \<open>Sha_Eval\<close>: the parts of the Go library the source relies on: instants and
    calendar dates, JSON encoding of values, SHA-256 with its evaluation in the kernel.
  \<^item> \<open>Entitlement\<close> (\<open>domain/entitlement/model.go\<close>): limits, sources, catalogue and their validation.
  \<^item> \<open>Resolve\<close>, \<open>Resolve_Props\<close> (\<open>domain/entitlement/resolve.go\<close>): the resolver and its properties.
  \<^item> \<open>Plan\<close> (\<open>domain/plan/model.go\<close>), \<open>Subscription\<close> and \<open>Activation\<close> (\<open>domain/subscription\<close>): plan terms and
    their versions, default rules, lifecycle and the materialisation of a plan as sources.
  \<^item> \<open>Lease\<close>: the interface of a leased durable task as a locale. \<open>Provisioning\<close> and
    \<open>Provisioning_Props\<close> (\<open>domain/provisioning\<close>) and \<open>Time_Transition\<close> (\<open>domain/timetransition\<close>) provide it.
  \<^item> \<open>Subscription_Change\<close>, \<open>Change_Props\<close> (\<open>domain/subscriptionchange\<close>): the planned change of a
    subscription, its classification, its projection on the sources and the quota report.
  \<^item> \<open>Snapshot\<close> (\<open>domain/snapshot/model.go\<close>, \<open>infrastructure/persistence/entitlement_snapshot.go\<close> and
    \<open>snapshot_cache.go\<close>): the snapshot store over its two tables and the memory cache.
  \<^item> \<open>Override_Ledger\<close> (\<open>infrastructure/persistence/entitlement.go\<close>,
    \<open>application/entitlementmanagement/internal/usecase/service.go\<close>): the ledger of sources with its version, audit and
    receipts; idempotent requests are the locale \<open>receipted\<close>, interpreted for create and revoke.
  \<^item> \<open>Capability_Map\<close> (\<open>capabilitymap\<close>): the compiler of the capability map.
  \<^item> \<open>Commercial_Guard\<close> (\<open>enforcement\<close>): the guard in front of every operation.
  \<^item> \<open>Module_Catalogue\<close> (\<open>modulecatalog\<close>, \<open>infrastructure/consistency\<close>): the registry of the modules the code
    declares, the catalogue tables with every write of the service, and the projections that the
    resolver, the plans and the snapshot store read.
  \<^item> \<open>Verification_Protection\<close> (\<open>access/infrastructure/persistence\<close>: \<open>verification_protection.go\<close>,
    \<open>contact_protection.go\<close>): base64 and HMAC-SHA256 on bytes, contact normalisation and masking, the keyed
    hashes of codes, authorizations and bindings, and notification encryption over an authenticated cipher
    that is an argument; its laws (it opens what it sealed, refuses other associated data, adds bytes) are
    hypotheses of the theorems that need them.
  \<^item> \<open>Verification\<close> (\<open>access/domain/verification.go\<close>, \<open>persistence/verification.go\<close>): challenges, one-time
    authorizations and the outbox. Each repository operation is one transaction on the three tables; the
    theorems range over every history of such transactions (\<open>ver_run\<close>): guesses are bounded, codes are
    paced, an authorization is earned and used once, and a code that arrives is accepted.
  \<^item> \<open>Security_Delivery\<close> (\<open>access/domain/notification_delivery.go\<close>, \<open>persistence/verification_delivery.go\<close>,
    \<open>notification/application/security_delivery_worker.go\<close>, \<open>access/application/verification.go\<close>): the retry
    policy, fenced claims, completion and failure, the older claim path and the worker. The row of the
    outbox is another instance of the \<open>leased\<close> contract; the theorems range over all histories of the
    repository (\<open>outbox_step\<close>) and over all interleavings of workers (\<open>worker_run\<close>).
  \<^item> \<open>Tenant_Model\<close>, \<open>Tenant_Roles\<close>, \<open>Tenant_Role_Props\<close> (\<open>access/domain/model.go\<close>, \<open>data_policy.go\<close>,
    \<open>persistence/role.go\<close>, \<open>role_creation.go\<close>, \<open>data_policy.go\<close>, \<open>application/tenant_role_*.go\<close>,
    \<open>tenant_data_policy.go\<close>): tenants, roles, grants and data policies with the tables \<open>AccDB\<close>, the role
    service, the owner invariant \<open>owned\<close>, and that a request of one tenant leaves the others alone.
  \<^item> \<open>Tenant_Members\<close>, \<open>Tenant_Member_Props\<close> (\<open>persistence/member.go\<close>, \<open>member_lifecycle.go\<close>,
    \<open>member_business_scope.go\<close>, \<open>tenant_self_security.go\<close>, \<open>application/tenant_member_lifecycle.go\<close>): the life of a
    membership. Over every history of role and member requests (\<open>acc_run\<close>) the last owner stays.
  \<^item> \<open>Business_Scope\<close> (\<open>access/domain/effective_business_scope.go\<close>, \<open>persistence/effective_business_scope.go\<close>,
    \<open>current_authorization.go\<close>, \<open>branding.go\<close>, \<open>store.go\<close>): what a member may do now and on which sites.
  \<^item> \<open>Departments\<close> (\<open>access/domain/department.go\<close>, \<open>persistence/department.go\<close>,
    \<open>application/tenant_department_management.go\<close>): the department table with every call of its service. Over calls
    executed one after the other (\<open>run_departments\<close>) the departments of a tenant form a forest, the parent check decides exactly
    what an active line is, and a version is changed once. Over calls that interleave between their reads and their write
    (\<open>department_history\<close>) keys and parents hold, and there is no cycle while moves do not overlap. The service
    is an instance of the \<open>assignment_gate\<close> contract that the member service relies on.
  \<^item> \<open>Devices\<close> (\<open>deviceops/domain\<close>, \<open>security/scope.go\<close>, \<open>application\<close>, \<open>infrastructure/persistence\<close>): the tables of devices and
    sites, the guard that fetches the caller's business scope, and the device and site services. A listing shows exactly the
    devices of the scope, a write stays inside it, and the site directory is an instance of the \<open>site_provider\<close> contract
    behind the sites of a member.
  \<^item> \<open>Delegations\<close> (\<open>access/domain/delegation.go\<close>, \<open>persistence/delegation.go\<close>, \<open>delegation_security.go\<close>,
    \<open>application/tenant_delegation.go\<close>, \<open>deviceops/security/delegated.go\<close> and \<open>application/delegated.go\<close>): one tenant lends a device to
    another. Over every run of grants and revocations, a delegated access rests on a live delegation of the owner for that
    permission, and a revocation ends it at once.
  \<^item> \<open>Web_Session\<close> (\<open>persistence/web_session.go\<close>, \<open>store.go\<close>): identities, sessions and login flows. Operations that are not
    transactions return the tables beside the error; a switch takes the requests that commit between its check
    and its write as an argument. Over every history with the member requests (\<open>sess_run\<close>) a revoked
    session stays revoked, and an accepted one has the authority of the moment.
  \<^item> \<open>Service_Access\<close> (\<open>persistence/platform.go\<close>, \<open>service_api_signature.go\<close>): platform credentials and grants, service
    keys and nonces; over every history a disabled key stays disabled and a nonce is good once.

  \<^bold>\<open>State and operations.\<close> A Go struct is a record with the source's field names behind a short
  prefix, an error is a constructor of an error type, an early return is a branch. Persistence is a
  record of tables that an operation receives and returns; a transaction that fails returns the
  error and the tables stay as they were. \<open>uint64\<close> and \<open>uint32\<close> are words, \<open>time.Time\<close> is an \<open>int\<close> of
  nanoseconds, strings are lists of bytes.

  \<^bold>\<open>What is shown.\<close> The resolver allows a capability exactly when its module is entitled through
  its dependencies and a grant covers it, nothing without a grant, and its result is stable until
  the instant it names. A materialised plan delivers what it lists. A changed plan replaces the old
  one and nothing else. The store returns what a fresh resolution gives in every history. Durable
  tasks are fenced, bounded and sealed. The ledger keeps its version, never applies a request twice
  and refuses stale writers. The compiled map is complete, closed and acyclic, and the guard admits
  a root only when a fresh resolution entitles every mandatory step, which is the theorem of this
  theory and joins the compiler, the guard, the store and the resolver.
  On the access side, verification codes are bounded, paced and used once, notifications are sent
  once and erased, a tenant never loses its last owner, tenants are isolated from each other, and
  grants and business scopes are exactly those of the live roles, none after a deactivation, which also
  ends the sessions for good; signed service requests cannot be replayed. Devices are seen and changed only inside
  the scope of the moment, or of another tenant under a live delegation.

  \<^bold>\<open>Fuel.\<close> The depth-first searches (catalogue, capability map, reachability of the guard) and the
  memoised module reasons spend one unit per nested call and start with more units than there are
  nodes; totality is proved for each of them.

  \<^bold>\<open>Parameters.\<close> Code outside the repository is an argument of the definitions that use it: JSON
  decoding (\<open>unmarshal\<close>), the time zone database, regular expressions outside the used patterns,
  random identifiers, the provider of an external module. What is used of them is a hypothesis of
  the theorem at hand.

  \<^bold>\<open>Not modelled.\<close> SQL text, driver errors and transaction isolation: a call is one atomic step, except that the session switch
  admits other requests between its check and its write (none after the write, and its reads share one clock value; a refresh is one
  step with the authentication that follows it), a worker admits them between its claim and its settlement, and
  \<open>department_history\<close> interleaves department calls. Unique keys and conditions compare strings exactly, not by the collation of the
  column; a stored version at its maximum comes round, where the database refuses the statement; JSON
  columns hold the value itself. The channel, destination and challenge checks of \<open>CompleteTenantDeletion\<close> are the argument
  \<open>me_verified\<close>. HTTP and gRPC transport, generated code, configuration and start-up, the web
  front end. Of the access side: the invitation, creation and listing of members, contacts,
  the identity provider and the audit trail; what the modelled operations need of them is a field of
  \<open>MemberEnv\<close>.
\<close>

section \<open>From the capability map to the resolver\<close>

text \<open>The snapshot read of the store as the guard's decision reader sees it.\<close>

definition snapshot_reader ::
  "(string \<Rightarrow> EntResult option) \<Rightarrow> (string \<Rightarrow> string) option \<Rightarrow> SnapDB \<Rightarrow> SnapInput \<Rightarrow> string \<Rightarrow> string list \<Rightarrow> snap_error + EntResult" where
  "snapshot_reader unmarshal cache db i tenant requested =
     (case ReadSnapshot unmarshal cache db tenant requested i of Inl e \<Rightarrow> Inl e | Inr (r, _) \<Rightarrow> Inr r)"

lemma requested_allowed: "d \<in> set (res_Decisions (Requested r requested)) \<Longrightarrow> dec_Allowed d \<Longrightarrow> d \<in> set (res_Decisions r)"
  by (auto simp: Requested_def append_requested_set denied_request_def)

lemma snapshot_reader_fresh:
  assumes "snap_reachable unmarshal H db" "\<not> IsZero (si_at i)" "no_collision H i" "cache_ok cache db"
    and "snapshot_reader unmarshal cache db i tenant requested = Inr r"
  obtains r0 where "Resolve tenant (si_version i) (si_at i) (si_catalog i) (si_sources i) [] = Some (Inr r0)"
    "\<And>d. d \<in> set (res_Decisions r) \<Longrightarrow> dec_Allowed d \<Longrightarrow> d \<in> set (res_Decisions r0)"
proof -
  from assms(5) obtain r1 db' where l: "locked unmarshal cache db tenant i = Inr (r1, db')" "r = Requested r1 requested"
    by (auto simp: snapshot_reader_def ReadSnapshot_def split: if_splits sum.splits)
  from locked_serves [OF snap_reachable_inv [OF assms(1)] l(1) assms(2-4)] obtain r0 v where
      r0: "resolves tenant i r0" "r1\<lparr>res_EvaluatedAt := si_at i\<rparr> = stamped r0 v (si_epoch i)" unfolding serves_def by blast
  from arg_cong [OF r0(2), of res_Decisions] have "res_Decisions r1 = res_Decisions r0" by (simp add: stamped_def)
  with r0(1) l(2) show thesis using that requested_allowed unfolding resolves_def by metis
qed

lemma Decide_Inr: "Decide read ctx requested = Inr r \<Longrightarrow> read (pr_TenantID (principal ctx)) requested = Inr r"
  by (auto simp: Decide_def principal_def split: option.splits if_splits sum.splits)

subsection \<open>A tenant that is admitted\<close>

definition ex_paid_input :: SnapInput where
  "ex_paid_input = \<lparr>si_epoch = 3, si_version = 7, si_sources = ex_sources, si_catalog = ex_catalog, si_at = ex_at\<rparr>"

definition ex_paid_result :: EntResult where
  "ex_paid_result = (case Resolve ''t1'' 7 ex_at ex_catalog ex_sources [] of Some (Inr r) \<Rightarrow> stamped r 1 3 | _ \<Rightarrow> undefined)"

definition ex_paid_reader :: "string \<Rightarrow> string list \<Rightarrow> snap_error + EntResult" where
  "ex_paid_reader = snapshot_reader (\<lambda>_. None) None ex_empty ex_paid_input"

lemma ex_paid_resolves: "\<exists>r. Resolve ''t1'' 7 ex_at ex_catalog ex_sources [] = Some (Inr r) \<and> ex_paid_result = stamped r 1 3"
proof -
  have "\<not> isl (the (Resolve ''t1'' 7 ex_at ex_catalog ex_sources []))" "Resolve ''t1'' 7 ex_at ex_catalog ex_sources [] \<noteq> None"
    by code_simp+
  then show ?thesis by (auto simp: ex_paid_result_def isl_def split: sum.split)
qed

lemma ex_paid_marshal: "\<exists>b. marshal (json_EntResult ex_paid_result) = Some b" "\<exists>h. InputHash ex_catalog ex_sources = Some h"
proof -
  have "times_ok (json_EntResult ex_paid_result)" by code_simp
  then show "\<exists>b. marshal (json_EntResult ex_paid_result) = Some b" using marshal_defined(1) by blast
  have "times_ok (JObj [(''Catalog'', JArr (map json_ModuleDefinition ex_catalog)), (''Sources'', JArr (map json_Source ex_sources))])"
    by code_simp
  from marshal_defined(1) [OF this] show "\<exists>h. InputHash ex_catalog ex_sources = Some h" by (auto simp: InputHash_def)
qed

lemma ex_paid_read: "length requested \<le> 128 \<Longrightarrow> ex_paid_reader ''t1'' requested = Inr (Requested ex_paid_result requested)"
proof -
  assume len: "length requested \<le> 128"
  obtain r where r: "Resolve ''t1'' 7 ex_at ex_catalog ex_sources [] = Some (Inr r)" "ex_paid_result = stamped r 1 3"
    using ex_paid_resolves by blast
  obtain b h where "marshal (json_EntResult ex_paid_result) = Some b" and h: "InputHash ex_catalog ex_sources = Some h"
    using ex_paid_marshal by blast
  then have "marshal (json_EntResult (r\<lparr>res_EntitlementVersion := 1, res_CatalogRevision := 3\<rparr>)) = Some b"
    using r(2) by (simp add: stamped_def)
  with r h len show ?thesis
    by (simp add: ex_paid_reader_def snapshot_reader_def ReadSnapshot_def locked_def materialize_def ex_empty_def latest_row_def
        ex_paid_input_def stamped_def bind_result_def)
qed

lemma first_decision_append: "first_decision code ds = Some d \<Longrightarrow> first_decision code (ds @ es) = Some d"
  by (induction ds) auto

lemma require_code_requested: "require_code (res_Decisions r) code = None \<Longrightarrow> require_code (res_Decisions (Requested r requested)) code = None"
  by (auto simp: require_code_def Requested_def first_decision_append split: option.splits if_splits)

lemma Prepare_reader:
  assumes "Prepare reader (Some g) entropy ctx a st = (Inr ctx', st1)" "g_operations g (ao_Operation a) = Some c"
    and "check reader' g ctx' c ''root'' st = (None, st2)"
  shows "Prepare reader' (Some g) entropy ctx a st = (Inr ctx', st2)"
  using assms by (auto simp: Prepare_def Let_def split: if_splits option.splits prod.splits)

definition ex_root :: CompiledOperation where "ex_root = hd (doc_Operations ex_document)"
definition ex_child :: CompiledOperation where "ex_child = hd (tl (doc_Operations ex_document))"

lemma ex_operations: "doc_entries ex_document ''order.create'' = Some ex_root" "doc_entries ex_document ''stock.reserve'' = Some ex_child"
  "cm_Classification ex_root = TenantBusiness" "co_AlwaysRequiredCapabilityCodes ex_root = [''core.use'', ''crm.read'']"
  "sort [''core.use'', ''crm.read''] = [''core.use'', ''crm.read'']"
  "cm_OperationID ex_child = ''stock.reserve''" "cm_Classification ex_child = TenantBusiness" "''core.use'' \<in> set (cm_CapabilityCodes ex_child)"
  "''stock.reserve'' \<in> set (always_children ex_root)" "ex_child \<in> set (doc_Operations ex_document)"
  by code_simp+

lemma ex_admitted: "\<exists>ctx' st'. Prepare (Decide ex_paid_reader) (Some ex_guard) ''r-1'' ex_context ex_authorized ex_state = (Inr ctx', st')"
proof -
  let ?ctx = "projr (fst ex_prepared)"
  obtain p where p: "cx_Principal ex_context = Some p" "cx_Principal ?ctx = Some p" using ex_prepared_ok by (rule Prepare_passes) blast
  have t: "principal ?ctx = ex_member" using p by (simp add: ex_context_def principal_def)
  let ?r = "Requested ex_paid_result [''core.use'', ''crm.read'']"
  have d: "Decide ex_paid_reader ?ctx [''core.use'', ''crm.read''] = Inr ?r"
    using p ex_paid_read [of "[''core.use'', ''crm.read'']"] by (auto simp: Decide_def ex_context_def ex_member_def)
  have "res_TenantID ex_paid_result = ''t1''" "require_code (res_Decisions ex_paid_result) ''core.use'' = None"
    "require_code (res_Decisions ex_paid_result) ''crm.read'' = None" by code_simp+
  note paid = this(1) require_code_requested [OF this(2)] require_code_requested [OF this(3)]
  have "res_TenantID ?r = ''t1''" "require_code (res_Decisions ?r) ''core.use'' = None" "require_code (res_Decisions ?r) ''crm.read'' = None"
    using paid(1) by (simp add: Requested_def, intro paid(2), intro paid(3))
  then have "\<exists>st'. check (Decide ex_paid_reader) ex_guard ?ctx ex_root ''root'' ex_state = (None, st')"
    using d t ex_operations(3-5) by (simp add: check_def ex_member_def)
  moreover have "g_operations ex_guard (ao_Operation ex_authorized) = Some ex_root"
    using newGuard_operations(1) [OF ex_guard_ok] ex_operations(1) by (simp add: ex_authorized_def)
  ultimately show ?thesis using Prepare_reader [OF ex_prepared_ok] by metis
qed

text \<open>
  C1: end to end, a business operation starts only when it is entitled. When a compiled capability
  map is enforced by the guard and decisions come from the snapshot store, a root that is admitted
  has every capability of every business operation reachable over mandatory children allowed by a
  fresh resolution of the tenant's current sources and catalogue.\<close>

theorem guard_admits_entitled:
  assumes "Compile plans manifest declaration modules = Some (Inr doc)" "newGuard address doc rd au = Inr g"
    and "snap_reachable unmarshal H db" "\<not> IsZero (si_at i)" "no_collision H i" "cache_ok cache db"
    and "Prepare (Decide (snapshot_reader unmarshal cache db i)) (Some g) entropy ctx a st = (Inr ctx', st')"
    and "doc_entries doc (ao_Operation a) = Some c" "cm_Classification c = TenantBusiness"
    and "(ao_Operation a, cm_OperationID x) \<in> (always_edges (doc_entries doc))\<^sup>*" "x \<in> set (doc_Operations doc)"
    and "cm_Classification x = TenantBusiness" "code \<in> set (cm_CapabilityCodes x)"
  shows "\<exists>r0 d. Resolve (pr_TenantID (principal ctx)) (si_version i) (si_at i) (si_catalog i) (si_sources i) [] = Some (Inr r0) \<and>
    d \<in> set (res_Decisions r0) \<and> dec_Kind d = Kind_Capability \<and> dec_Key d = code \<and> dec_Allowed d"
proof -
  note doc = Compile_document [OF assms(1)]
  obtain p c' where p: "cx_Principal ctx = Some p" "cx_Principal ctx' = Some p" "g_operations g (ao_Operation a) = Some c'"
      "check (Decide (snapshot_reader unmarshal cache db i)) g ctx' c' ''root'' st = (None, st')"
    using assms(7) by (rule Prepare_passes)
  have c': "c' = c" using p(3) assms(8) newGuard_operations(1) [OF assms(2)] by simp
  obtain r where r: "Decide (snapshot_reader unmarshal cache db i) ctx' (sort (co_AlwaysRequiredCapabilityCodes c)) = Inr r"
      "covers r (set (co_AlwaysRequiredCapabilityCodes c))" using check_passes [OF p(4)] assms(9) c' by blast
  have same: "principal ctx' = principal ctx" using p(1,2) by (simp add: principal_def)
  obtain r0 where r0: "Resolve (pr_TenantID (principal ctx)) (si_version i) (si_at i) (si_catalog i) (si_sources i) [] = Some (Inr r0)"
      "\<And>d. d \<in> set (res_Decisions r) \<Longrightarrow> dec_Allowed d \<Longrightarrow> d \<in> set (res_Decisions r0)"
    using snapshot_reader_fresh [OF assms(3-6) Decide_Inr [OF r(1)]] same by metis
  have c: "c \<in> set (doc_Operations doc)" "cm_OperationID c = ao_Operation a"
    using newGuard_operations(7) [OF assms(2), of "ao_Operation a" c] newGuard_operations(1) [OF assms(2)] assms(8) by simp_all
  have "code \<in> needs (doc_entries doc) (ao_Operation a)"
    unfolding needs_def own_codes_def using assms(10-13) doc(6) [OF assms(11)]
    by (intro UN_I [of "cm_OperationID x"]) simp_all
  then have "code \<in> set (co_AlwaysRequiredCapabilityCodes c)"
    using doc(6) [OF c(1)] c(2) doc_needs_finite by simp
  with r(2) r0 show ?thesis unfolding covers_def by blast
qed

theorem guard_admits_entitled_witness:
  "\<exists>r0 d. Resolve ''t1'' 7 ex_at ex_catalog ex_sources [] = Some (Inr r0) \<and>
    d \<in> set (res_Decisions r0) \<and> dec_Kind d = Kind_Capability \<and> dec_Key d = ''core.use'' \<and> dec_Allowed d"
proof -
  obtain ctx' st' where run: "Prepare (Decide (snapshot_reader (\<lambda>_. None) None ex_empty ex_paid_input)) (Some ex_guard) ''r-1''
      ex_context ex_authorized ex_state = (Inr ctx', st')" using ex_admitted unfolding ex_paid_reader_def by blast
  have store: "snap_reachable (\<lambda>_. None) {} ex_empty" unfolding ex_empty_def by (rule snap_reachable.empty)
  have at: "\<not> IsZero (si_at ex_paid_input)" by code_simp
  have edge: "(ao_Operation ex_authorized, cm_OperationID ex_child) \<in> (always_edges (doc_entries ex_document))\<^sup>*"
    using ex_operations(1,6,9) by (intro r_into_rtrancl) (auto simp: always_edges_def ex_authorized_def)
  have root: "doc_entries ex_document (ao_Operation ex_authorized) = Some ex_root" using ex_operations(1) by (simp add: ex_authorized_def)
  have "no_collision {} ex_paid_input" "cache_ok None ex_empty" by (simp_all add: no_collision_def cache_ok_def)
  from guard_admits_entitled [OF ex_compiles ex_guard_ok store at this run root ex_operations(3) edge ex_operations(10,7,8)]
  show ?thesis by (simp add: ex_paid_input_def ex_context_def principal_def ex_member_def)
qed

end
